(* ===== verification/Prelude.thy ===== *)
theory Prelude
  imports Main
begin

text \<open>
  Shared vocabulary of the development.

  \<^item> Rust strings: \<open>ustr\<close>, the list of the Unicode scalar values of the string (what
    \<open>str::chars\<close> yields), with \<open>lit\<close> for ASCII literals and models of the standard library's
    \<open>trim\<close>, \<open>strip_prefix\<close>, \<open>join\<close>, \<open>to_string\<close> on unsigned integers and \<open>str::parse::<u64>\<close>.
  \<^item> Hash maps: association lists with distinct keys. The order of the list stands for the
    unspecified iteration order of the map, so a theorem about every such list holds for
    every iteration order.
  \<^item> The interface \<open>keyed_store\<close> that components with a map rely on, and its
    interpretation by association lists.
\<close>

named_theorems str_simps \<open>evaluation of operations on strings\<close>

subsection \<open>Strings\<close>

type_synonym ustr = "nat list"

definition lit :: "string \<Rightarrow> ustr" where
  "lit s = map of_char s"

lemma lit_inject [simp]: "lit s = lit t \<longleftrightarrow> s = t"
  by (simp add: lit_def inj_map_eq_map inj_of_char)

lemma lit_Nil [simp]: "lit [] = []"
  by (simp add: lit_def)

lemma lit_eq_Nil [simp]: "lit s = [] \<longleftrightarrow> s = []" "[] = lit s \<longleftrightarrow> s = []"
  by (auto simp: lit_def)

lemma lit_append: "lit (s @ t) = lit s @ lit t"
  by (simp add: lit_def)

lemma length_lit [simp]: "length (lit s) = length s"
  by (simp add: lit_def)

text \<open>\<open>char::is_ascii\<close> and \<open>char::is_whitespace\<close> (the Unicode White\_Space property).\<close>

definition is_ascii :: "nat \<Rightarrow> bool" where
  "is_ascii c \<longleftrightarrow> c < 128"

definition is_whitespace :: "nat \<Rightarrow> bool" where
  "is_whitespace c \<longleftrightarrow>
     (9 \<le> c \<and> c \<le> 13) \<or> c = 32 \<or> c = 133 \<or> c = 160 \<or> c = 5760 \<or>
     (8192 \<le> c \<and> c \<le> 8202) \<or> c = 8232 \<or> c = 8233 \<or> c = 8239 \<or> c = 8287 \<or> c = 12288"

definition trim :: "ustr \<Rightarrow> ustr" where
  "trim s = rev (dropWhile is_whitespace (rev (dropWhile is_whitespace s)))"

definition is_blank :: "ustr \<Rightarrow> bool" where
  "is_blank s \<longleftrightarrow> trim s = []"

lemma all_dropWhile: "(\<forall>c\<in>set (dropWhile P s). P c) \<longleftrightarrow> (\<forall>c\<in>set s. P c)"
  by (induction s) auto

lemma is_blank_iff: "is_blank s \<longleftrightarrow> (\<forall>c\<in>set s. is_whitespace c)"
  by (simp add: is_blank_def trim_def dropWhile_eq_Nil_conv all_dropWhile)

text \<open>\<open>str::strip_prefix\<close> and \<open>str::starts_with\<close>.\<close>

fun strip_prefix :: "ustr \<Rightarrow> ustr \<Rightarrow> ustr option" where
  "strip_prefix [] s = Some s"
| "strip_prefix (_ # _) [] = None"
| "strip_prefix (p # ps) (c # cs) = (if p = c then strip_prefix ps cs else None)"

lemma strip_prefix_append [simp]: "strip_prefix p (p @ s) = Some s"
  by (induction p) auto

lemma strip_prefix_Some: "strip_prefix p s = Some r \<longleftrightarrow> s = p @ r"
  by (induction p s rule: strip_prefix.induct) auto

definition starts_with :: "ustr \<Rightarrow> ustr \<Rightarrow> bool" where
  "starts_with s p \<longleftrightarrow> strip_prefix p s \<noteq> None"

text \<open>\<open>[String]::join\<close>.\<close>

fun join :: "ustr \<Rightarrow> ustr list \<Rightarrow> ustr" where
  "join sep [] = []"
| "join sep [s] = s"
| "join sep (s # t # ss) = s @ sep @ join sep (t # ss)"

subsection \<open>Decimal numerals\<close>

fun show_nat :: "nat \<Rightarrow> ustr" where
  "show_nat n = (if n < 10 then [48 + n] else show_nat (n div 10) @ [48 + n mod 10])"

declare show_nat.simps [simp del]

definition is_digit :: "nat \<Rightarrow> bool" where
  "is_digit c \<longleftrightarrow> 48 \<le> c \<and> c \<le> 57"

definition digits_value :: "ustr \<Rightarrow> nat" where
  "digits_value s = foldl (\<lambda>v c. v * 10 + (c - 48)) 0 s"

text \<open>
  \<open>str::parse::<u64>\<close>: one optional leading plus sign, at least one digit, digits only, and
  the value must fit 64 bits.
\<close>

definition parse_u64 :: "ustr \<Rightarrow> nat option" where
  "parse_u64 s =
     (let d = (case s of c # r \<Rightarrow> if c = 43 then r else s | [] \<Rightarrow> s)
      in if d \<noteq> [] \<and> list_all is_digit d \<and> digits_value d < 2 ^ 64
         then Some (digits_value d) else None)"

lemma digits_value_snoc: "digits_value (s @ [c]) = digits_value s * 10 + (c - 48)"
  by (simp add: digits_value_def)

lemma show_nat_digits: "show_nat n \<noteq> [] \<and> list_all is_digit (show_nat n) \<and> digits_value (show_nat n) = n"
proof (induction n rule: show_nat.induct)
  case (1 n)
  show ?case
  proof (cases "n < 10")
    case True
    then show ?thesis
      by (subst show_nat.simps, subst (2) show_nat.simps, subst (3) show_nat.simps)
        (simp add: is_digit_def digits_value_def)
  next
    case False
    moreover from False have "show_nat n = show_nat (n div 10) @ [48 + n mod 10]"
      by (subst show_nat.simps) simp
    moreover have "is_digit (48 + n mod 10)"
      using mod_less_divisor [of 10 n] by (simp add: is_digit_def)
    ultimately show ?thesis
      using "1.IH" by (simp add: digits_value_snoc)
  qed
qed

lemma show_nat_inject [simp]: "show_nat m = show_nat n \<longleftrightarrow> m = n"
  by (metis show_nat_digits)

lemma parse_show_nat: "n < 2 ^ 64 \<Longrightarrow> parse_u64 (show_nat n) = Some n"
proof -
  assume n: "n < 2 ^ 64"
  obtain c r where cr: "show_nat n = c # r" and "is_digit c"
    using show_nat_digits [of n] by (cases "show_nat n") auto
  then have "c \<noteq> 43" by (simp add: is_digit_def)
  with cr n show ?thesis
    using show_nat_digits [of n] by (simp add: parse_u64_def)
qed

subsection \<open>Lists\<close>

lemma concat_map_Nil: "concat (map f xs) = [] \<longleftrightarrow> (\<forall>x\<in>set xs. f x = [])"
  by (induction xs) auto

lemma find_map_update:
  assumes "\<And>x. P (f x) = P x"
  shows "find P (map f xs) = map_option f (find P xs)"
  using assms by (induction xs) auto

lemma find_map_comp: "find P (map f xs) = map_option f (find (\<lambda>x. P (f x)) xs)"
  by (induction xs) auto

lemma length_filter_map_le:
  assumes "\<And>x. x \<in> set xs \<Longrightarrow> P (f x) \<Longrightarrow> Q x"
  shows "length (filter P (map f xs)) \<le> length (filter Q xs)"
  using assms by (induction xs) (auto simp: le_SucI)

lemma sum_list_filter_le:
  "sum_list (map f (filter P xs)) \<le> (sum_list (map f xs) :: nat)"
  by (induction xs) auto

text \<open>Replace the first element that satisfies a predicate (\<open>iter_mut().find\<close> and an update).\<close>

fun update_first :: "('a \<Rightarrow> bool) \<Rightarrow> ('a \<Rightarrow> 'a) \<Rightarrow> 'a list \<Rightarrow> 'a list" where
  "update_first P f [] = []"
| "update_first P f (x # xs) = (if P x then f x # xs else x # update_first P f xs)"

lemma update_first_none: "find P xs = None \<Longrightarrow> update_first P f xs = xs"
  by (induction xs) (auto split: if_splits)

lemma length_update_first [simp]: "length (update_first P f xs) = length xs"
  by (induction xs) auto

lemma map_update_first:
  assumes "\<And>x. x \<in> set xs \<Longrightarrow> P x \<Longrightarrow> g (f x) = g x"
  shows "map g (update_first P f xs) = map g xs"
  using assms by (induction xs) auto

lemma set_update_first_subset: "set (update_first P f xs) \<subseteq> set xs \<union> f ` {x \<in> set xs. P x}"
  by (induction xs) auto

text \<open>Where the keys are distinct, updating the first match is updating by key.\<close>

lemma update_first_key:
  assumes "distinct (map key xs)"
  shows "update_first (\<lambda>x. key x = k) f xs = map (\<lambda>x. if key x = k then f x else x) xs"
  using assms
proof (induction xs)
  case (Cons x xs)
  have "map (\<lambda>y. if key y = key x then f y else y) xs = xs"
    using Cons.prems by (intro map_idI) (auto simp: image_iff)
  with Cons show ?case by auto
qed simp

lemma find_key:
  assumes "distinct (map key xs)" and "x \<in> set xs"
  shows "find (\<lambda>y. key y = key x) xs = Some x"
  using assms by (induction xs) auto

lemma find_key_SomeD: "find (\<lambda>y. key y = k) xs = Some x \<Longrightarrow> x \<in> set xs \<and> key x = k"
  by (auto simp: find_Some_iff)

lemma find_key_NoneD: "find (\<lambda>y. key y = k) xs = None \<Longrightarrow> x \<in> set xs \<Longrightarrow> key x \<noteq> k"
  by (auto simp: find_None_iff)

subsection \<open>Maps as association lists\<close>

type_synonym ('k, 'v) hmap = "('k \<times> 'v) list"

abbreviation hm_get :: "('k, 'v) hmap \<Rightarrow> 'k \<Rightarrow> 'v option" where
  "hm_get \<equiv> map_of"

fun hm_put :: "'k \<Rightarrow> 'v \<Rightarrow> ('k, 'v) hmap \<Rightarrow> ('k, 'v) hmap" where
  "hm_put k v [] = [(k, v)]"
| "hm_put k v ((k', v') # m) = (if k' = k then (k, v) # m else (k', v') # hm_put k v m)"

definition hm_del :: "'k \<Rightarrow> ('k, 'v) hmap \<Rightarrow> ('k, 'v) hmap" where
  "hm_del k m = filter (\<lambda>p. fst p \<noteq> k) m"

definition hm_ok :: "('k, 'v) hmap \<Rightarrow> bool" where
  "hm_ok m \<longleftrightarrow> distinct (map fst m)"

lemma hm_get_put [simp]: "hm_get (hm_put k v m) = (hm_get m)(k \<mapsto> v)"
  by (induction m) (auto simp: fun_eq_iff)

lemma hm_get_del [simp]: "hm_get (hm_del k m) = (hm_get m)(k := None)"
  by (induction m) (auto simp: hm_del_def fun_eq_iff)

lemma hm_keys_put: "fst ` set (hm_put k v m) = insert k (fst ` set m)"
  by (induction k v m rule: hm_put.induct) auto

lemma hm_ok_Nil [simp]: "hm_ok []"
  by (simp add: hm_ok_def)

lemma hm_ok_put [simp]: "hm_ok m \<Longrightarrow> hm_ok (hm_put k v m)"
  by (induction k v m rule: hm_put.induct) (auto simp: hm_ok_def hm_keys_put)

lemma hm_ok_del [simp]: "hm_ok m \<Longrightarrow> hm_ok (hm_del k m)"
  by (induction m) (auto simp: hm_ok_def hm_del_def)

lemma hm_del_absent: "hm_get m k = None \<Longrightarrow> hm_del k m = m"
  by (auto simp: hm_del_def map_of_eq_None_iff intro!: filter_True)

lemma hm_get_in: "hm_ok m \<Longrightarrow> (k, v) \<in> set m \<longleftrightarrow> hm_get m k = Some v"
  by (auto simp: hm_ok_def intro: map_of_is_SomeI dest: map_of_SomeD)

lemma hm_put_same: "hm_get m k = Some v \<Longrightarrow> hm_ok m \<Longrightarrow> hm_put k v m = m"
  by (induction m) (auto simp: hm_ok_def split: if_splits)

subsection \<open>The interface of a keyed store\<close>

text \<open>
  What the components rely on of a map with an invariant: lookup after every update.
\<close>

locale keyed_store =
  fixes s_get :: "'m \<Rightarrow> 'k \<Rightarrow> 'v option"
    and s_put :: "'k \<Rightarrow> 'v \<Rightarrow> 'm \<Rightarrow> 'm"
    and s_del :: "'k \<Rightarrow> 'm \<Rightarrow> 'm"
    and s_ok :: "'m \<Rightarrow> bool"
  assumes get_put: "s_ok m \<Longrightarrow> s_get (s_put k v m) = (s_get m)(k \<mapsto> v)"
    and get_del: "s_ok m \<Longrightarrow> s_get (s_del k m) = (s_get m)(k := None)"
    and ok_put: "s_ok m \<Longrightarrow> s_ok (s_put k v m)"
    and ok_del: "s_ok m \<Longrightarrow> s_ok (s_del k m)"
begin

definition s_del_all :: "'k list \<Rightarrow> 'm \<Rightarrow> 'm" where
  "s_del_all ks m = fold s_del ks m"

lemma del_all_ok: "s_ok m \<Longrightarrow> s_ok (s_del_all ks m)"
  unfolding s_del_all_def by (induction ks arbitrary: m) (auto simp: ok_del)

lemma get_del_all:
  "s_ok m \<Longrightarrow> s_get (s_del_all ks m) k = (if k \<in> set ks then None else s_get m k)"
  unfolding s_del_all_def
  by (induction ks arbitrary: m) (auto simp: get_del ok_del)

lemma put_put_other:
  "s_ok m \<Longrightarrow> k \<noteq> k' \<Longrightarrow> s_get (s_put k v (s_put k' v' m)) k' = Some v'"
  by (simp add: get_put ok_put)

end

interpretation hm: keyed_store hm_get hm_put hm_del hm_ok
  by unfold_locales auto

end
