(* ===== verification/Json.thy ===== *)
theory Json
  imports Prelude "HOL-Library.Word"
begin

text \<open>
  JSON values (\<open>serde_json::Value\<close>). Objects are association lists in insertion order. A
  number is an integer (\<open>i64\<close> or \<open>u64\<close>) or a float, whose 64 bits the modelled code only passes
  on. The serializer \<open>to_string\<close> is third-party
  code: where a component needs it, it is a parameter of its definitions.
\<close>

type_synonym f64 = "64 word"

datatype json =
    JNull
  | JBool bool
  | JNum int
  | JFloat f64
  | JStr ustr
  | JArr "json list"
  | JObj "(ustr \<times> json) list"

text \<open>\<open>Value::get\<close> with a string key, \<open>as_str\<close>, \<open>as_bool\<close>.\<close>

fun json_get :: "json \<Rightarrow> ustr \<Rightarrow> json option" where
  "json_get (JObj fields) k = map_of fields k"
| "json_get _ _ = None"

fun json_str :: "json \<Rightarrow> ustr option" where
  "json_str (JStr s) = Some s"
| "json_str _ = None"

fun json_bool :: "json \<Rightarrow> bool option" where
  "json_bool (JBool b) = Some b"
| "json_bool _ = None"

text \<open>\<open>Value::as_i64\<close> and \<open>Value::as_u64\<close>.\<close>

fun json_i64 :: "json \<Rightarrow> int option" where
  "json_i64 (JNum i) = (if - (2 ^ 63) \<le> i \<and> i < 2 ^ 63 then Some i else None)"
| "json_i64 _ = None"

fun json_u64 :: "json \<Rightarrow> int option" where
  "json_u64 (JNum i) = (if 0 \<le> i \<and> i < 2 ^ 64 then Some i else None)"
| "json_u64 _ = None"

definition show_int :: "int \<Rightarrow> ustr" where
  "show_int i = (if i < 0 then 45 # show_nat (nat (- i)) else show_nat (nat i))"

text \<open>Optional values as the \<open>json!\<close> macro writes them.\<close>

definition json_opt :: "ustr option \<Rightarrow> json" where
  "json_opt s = (case s of None \<Rightarrow> JNull | Some t \<Rightarrow> JStr t)"

end
