(* ===== verification/Messages.thy ===== *)
theory Messages
  imports Json
begin

text \<open>
  The message types: content blocks, usage and the three LLM roles of
  \<^verbatim>\<open>crates/theway-llm-provider/src/types.rs\<close>, the agent's superset \<open>AgentMessage\<close> of
  \<^verbatim>\<open>crates/theway-core/src/types.rs\<close>, and the stock custom messages of
  \<^verbatim>\<open>crates/theway-core/src/agent/messages.rs\<close>. The role fields that the code skips on the wire
  have one value each and are left out.
\<close>

record text_content =
  tc_text :: ustr
  tc_signature :: "ustr option"

record thinking_content =
  th_thinking :: ustr
  th_signature :: "ustr option"
  th_redacted :: bool

record image_content =
  ic_data :: ustr
  ic_mime_type :: ustr

record tool_call =
  tl_id :: ustr
  tl_name :: ustr
  tl_arguments :: "(ustr \<times> json) list"
  tl_thought_signature :: "ustr option"

datatype content_block =
    CText text_content
  | CThinking thinking_content
  | CImage image_content
  | CToolCall tool_call

datatype user_content_block = UText text_content | UImage image_content

definition user_text :: "ustr \<Rightarrow> user_content_block" where
  "user_text t = UText \<lparr>tc_text = t, tc_signature = None\<rparr>"

record usage_cost =
  uc_input :: f64
  uc_output :: f64
  uc_cache_read :: f64
  uc_cache_write :: f64
  uc_total :: f64

record usage =
  u_input :: nat
  u_output :: nat
  u_cache_read :: nat
  u_cache_write :: nat
  u_total_tokens :: nat
  u_prefix_hit_tokens :: "nat option"
  u_prefix_cache_hit_rate :: "f64 option"
  u_provider_cache_hit_rate :: "f64 option"
  u_cost :: usage_cost

datatype stop_reason = Stop | Length | ToolUse | SError | Aborted

datatype user_content = PlainText ustr | Blocks "user_content_block list"

record user_message =
  um_content :: user_content
  um_timestamp :: int

record assistant_message =
  am_content :: "content_block list"
  am_api :: ustr
  am_provider :: ustr
  am_model :: ustr
  am_response_model :: "ustr option"
  am_response_id :: "ustr option"
  am_diagnostics :: "json list option"
  am_usage :: usage
  am_stop_reason :: stop_reason
  am_error_message :: "ustr option"
  am_timestamp :: int

record tool_result_message =
  tr_tool_call_id :: ustr
  tr_tool_name :: ustr
  tr_content :: "user_content_block list"
  tr_details :: "json option"
  tr_is_error :: bool
  tr_timestamp :: int

datatype llm_message = User user_message | Assistant assistant_message | ToolResult tool_result_message

record custom_message =
  cm_role :: ustr
  cm_timestamp :: int
  cm_payload :: json

datatype agent_message = Llm llm_message | Custom custom_message

definition custom :: "int \<Rightarrow> ustr \<Rightarrow> json \<Rightarrow> agent_message" where
  "custom now role payload = Custom \<lparr>cm_role = role, cm_timestamp = now, cm_payload = payload\<rparr>"

definition compaction_summary :: "int \<Rightarrow> ustr \<Rightarrow> agent_message" where
  "compaction_summary now summary =
     Custom \<lparr>cm_role = lit ''compaction_summary'', cm_timestamp = now,
             cm_payload = JObj [(lit ''summary'', JStr summary)]\<rparr>"

definition branch_summary :: "int \<Rightarrow> ustr \<Rightarrow> agent_message" where
  "branch_summary now summary =
     Custom \<lparr>cm_role = lit ''branch_summary'', cm_timestamp = now,
             cm_payload = JObj [(lit ''summary'', JStr summary)]\<rparr>"

text \<open>The fields of a model that the agent reads; both numbers are \<open>u32\<close>, 0 for unknown.\<close>

record model =
  mo_id :: ustr
  mo_provider :: ustr
  mo_context_window :: nat
  mo_max_tokens :: nat

text \<open>A tool as a provider sees it, the context of a request and the events of its stream.\<close>

record tool_schema =
  ts_name :: ustr
  ts_description :: ustr
  ts_parameters :: json

record llm_context =
  lc_system_prompt :: "ustr option"
  lc_messages :: "llm_message list"
  lc_tools :: "tool_schema list option"

datatype done_reason = DStop | DLength | DToolUse

datatype error_reason = RAborted | RError

datatype assistant_message_event =
    EvStart assistant_message
  | EvTextStart nat assistant_message
  | EvTextDelta nat ustr assistant_message
  | EvTextEnd nat ustr assistant_message
  | EvThinkingStart nat assistant_message
  | EvThinkingDelta nat ustr assistant_message
  | EvThinkingEnd nat ustr assistant_message
  | EvToolCallStart nat assistant_message
  | EvToolCallDelta nat ustr assistant_message
  | EvToolCallEnd nat tool_call assistant_message
  | EvDone done_reason assistant_message
  | EvError error_reason assistant_message

text \<open>Text blocks of a list of user blocks, as several components collect them.\<close>

definition block_texts :: "user_content_block list \<Rightarrow> ustr list" where
  "block_texts bs = List.map_filter (\<lambda>b. case b of UText t \<Rightarrow> Some (tc_text t) | UImage _ \<Rightarrow> None) bs"

end
