(* ===== verification/Session_Types.thy ===== *)
theory Session_Types
  imports Messages
begin

text \<open>
  Session entries, \<^verbatim>\<open>crates/theway-core/src/agent/session/session.rs\<close> (the entry tree) and
  \<^verbatim>\<open>crates/theway-contract/src/session.rs\<close> (errors), and the collapse context of
  \<^verbatim>\<open>crates/theway-core/src/agent/context/collapse.rs\<close>. A session is an append-only list of
  entries that form a tree through their parent ids; a leaf id marks the current branch.
\<close>

datatype session_error_code = NotFound | AlreadyExists | Corrupted | StorageFailure | EAborted | EUnknown

record session_error =
  se_code :: session_error_code
  se_message :: ustr

type_synonym 'a sresult = "session_error + 'a"

record entry_head =
  eh_id :: ustr
  eh_parent_id :: "ustr option"
  eh_timestamp :: ustr

text \<open>The three fields that every variant has come first; the others follow in the order of the code.\<close>

datatype session_entry =
    Message entry_head agent_message
  | ThinkingLevelChange entry_head ustr
  | ModelChange entry_head ustr ustr
  | Compaction entry_head ustr ustr nat "json option" "bool option"
      \<comment> \<open>summary, first kept entry id, tokens before, details, from hook\<close>
  | BranchSummary entry_head ustr ustr "json option" "bool option"
      \<comment> \<open>from id, summary, details, from hook\<close>
  | ECustom entry_head ustr "json option"
  | CustomMessage entry_head ustr json "json option" bool
  | Label entry_head ustr "ustr option"
  | SessionInfo entry_head "ustr option"
  | Leaf entry_head "ustr option"

fun entry_head_of :: "session_entry \<Rightarrow> entry_head" where
  "entry_head_of (Message h _) = h"
| "entry_head_of (ThinkingLevelChange h _) = h"
| "entry_head_of (ModelChange h _ _) = h"
| "entry_head_of (Compaction h _ _ _ _ _) = h"
| "entry_head_of (BranchSummary h _ _ _ _) = h"
| "entry_head_of (ECustom h _ _) = h"
| "entry_head_of (CustomMessage h _ _ _ _) = h"
| "entry_head_of (Label h _ _) = h"
| "entry_head_of (SessionInfo h _) = h"
| "entry_head_of (Leaf h _) = h"

definition entry_id :: "session_entry \<Rightarrow> ustr" where
  "entry_id e = eh_id (entry_head_of e)"

definition entry_parent_id :: "session_entry \<Rightarrow> ustr option" where
  "entry_parent_id e = eh_parent_id (entry_head_of e)"

fun type_str :: "session_entry \<Rightarrow> ustr" where
  "type_str (Message _ _) = lit ''message''"
| "type_str (ThinkingLevelChange _ _) = lit ''thinking_level_change''"
| "type_str (ModelChange _ _ _) = lit ''model_change''"
| "type_str (Compaction _ _ _ _ _ _) = lit ''compaction''"
| "type_str (BranchSummary _ _ _ _ _) = lit ''branch_summary''"
| "type_str (ECustom _ _ _) = lit ''custom''"
| "type_str (CustomMessage _ _ _ _ _) = lit ''custom_message''"
| "type_str (Label _ _ _) = lit ''label''"
| "type_str (SessionInfo _ _) = lit ''session_info''"
| "type_str (Leaf _ _) = lit ''leaf''"

subsection \<open>Collapse context\<close>

definition COMPACT_CONTEXT_CUSTOM_TYPE :: ustr where
  "COMPACT_CONTEXT_CUSTOM_TYPE = lit ''compact_context''"

record compact_context =
  cx_source_session_id :: ustr
  cx_compact_text :: ustr
  cx_raw_text_ref :: ustr

definition get_str :: "json \<Rightarrow> ustr \<Rightarrow> ustr option" where
  "get_str data k = Option.bind (json_get data k) json_str"

definition parse_compact_context :: "json \<Rightarrow> compact_context option" where
  "parse_compact_context data =
     (let source = (case get_str data (lit ''sourceSessionId'') of Some s \<Rightarrow> s | None \<Rightarrow> []);
          txt = (case get_str data (lit ''compactText'') of
                   Some s \<Rightarrow> s
                 | None \<Rightarrow> (case get_str data (lit ''text'') of Some s \<Rightarrow> s | None \<Rightarrow> []));
          raw = (case get_str data (lit ''rawTextRef'') of Some s \<Rightarrow> s | None \<Rightarrow> [])
      in if source = [] \<and> is_blank txt \<and> raw = [] then None
         else Some \<lparr>cx_source_session_id = source, cx_compact_text = txt, cx_raw_text_ref = raw\<rparr>)"

fun compact_context_from_entry :: "session_entry \<Rightarrow> compact_context option" where
  "compact_context_from_entry (ECustom _ custom_type data) =
     (if custom_type \<noteq> COMPACT_CONTEXT_CUSTOM_TYPE then None
      else Option.bind data parse_compact_context)"
| "compact_context_from_entry _ = None"

definition compact_context_text :: "session_entry \<Rightarrow> ustr option" where
  "compact_context_text e =
     (case compact_context_from_entry e of
        None \<Rightarrow> None
      | Some c \<Rightarrow> if is_blank (cx_compact_text c) then None else Some (cx_compact_text c))"

text \<open>\<open>iter().rev().find_map\<close>: the newest entry for which a function is defined.\<close>

fun find_map :: "('a \<Rightarrow> 'b option) \<Rightarrow> 'a list \<Rightarrow> 'b option" where
  "find_map f [] = None"
| "find_map f (x # xs) = (case f x of Some y \<Rightarrow> Some y | None \<Rightarrow> find_map f xs)"

definition newest :: "(session_entry \<Rightarrow> 'b option) \<Rightarrow> session_entry list \<Rightarrow> 'b option" where
  "newest f entries = find_map f (rev entries)"

definition latest_compact_context :: "session_entry list \<Rightarrow> compact_context option" where
  "latest_compact_context entries = newest compact_context_from_entry entries"

lemma find_map_append: "find_map f (xs @ ys) = (case find_map f xs of Some y \<Rightarrow> Some y | None \<Rightarrow> find_map f ys)"
  by (induction xs) (auto split: option.split)

lemma newest_snoc: "newest f (es @ [e]) = (case f e of Some y \<Rightarrow> Some y | None \<Rightarrow> newest f es)"
  by (simp add: newest_def split: option.split)

end
