(* ===== verification/Session_Storage.thy ===== *)
theory Session_Storage
  imports Session_Types
begin

text \<open>
  The storage interface \<open>SessionStorage\<close> of \<^verbatim>\<open>crates/theway-core/src/agent/session/session.rs\<close>
  as a table of operations (\<open>dyn SessionStorage\<close>), and the in-memory storage of
  \<^verbatim>\<open>crates/theway-core/src/agent/session/memory_storage.rs\<close>. An operation returns a result and
  the storage after it, also when the result is an error. Minting a UUID is third-party code:
  \<open>uuid k\<close> is the \<open>k\<close>-th id it returns.

  \<open>chain_from\<close> specifies the parent chain that \<open>get_path_to_root\<close> returns, and \<open>tree_ok\<close> the
  shape of the entry list under which it always exists. The locale \<open>session_storage\<close> states what
  the session facade relies on; the in-memory storage is interpreted in it.
\<close>

subsection \<open>Operations with a result\<close>

type_synonym ('s, 'a) sop = "'s \<Rightarrow> 'a sresult \<times> 's"

definition sret :: "'a \<Rightarrow> ('s, 'a) sop" where
  "sret a s = (Inr a, s)"

definition sfail :: "session_error \<Rightarrow> ('s, 'a) sop" where
  "sfail err s = (Inl err, s)"

text \<open>The question mark operator: the first error ends the computation.\<close>

definition sbind :: "('s, 'a) sop \<Rightarrow> ('a \<Rightarrow> ('s, 'b) sop) \<Rightarrow> ('s, 'b) sop" where
  "sbind m f s = (case m s of (Inl err, s') \<Rightarrow> (Inl err, s') | (Inr a, s') \<Rightarrow> f a s')"

record 's storage_ops =
  so_get_metadata_json :: "('s, json) sop"
  so_get_leaf_id :: "('s, ustr option) sop"
  so_set_leaf_id :: "ustr option \<Rightarrow> ('s, unit) sop"
  so_create_entry_id :: "('s, ustr) sop"
  so_append_entry :: "session_entry \<Rightarrow> ('s, unit) sop"
  so_append_entries :: "session_entry list \<Rightarrow> ('s, unit) sop"
  so_get_entry :: "ustr \<Rightarrow> ('s, session_entry option) sop"
  so_get_entries :: "('s, session_entry list) sop"
  so_get_path_to_root :: "ustr option \<Rightarrow> ('s, session_entry list) sop"
  so_find_entries :: "ustr \<Rightarrow> ('s, session_entry list) sop"
  so_get_label :: "ustr \<Rightarrow> ('s, ustr option) sop"

text \<open>The provided body of \<open>append_entries\<close>, for a storage that does not override it.\<close>

fun append_entries_default :: "(session_entry \<Rightarrow> ('s, unit) sop) \<Rightarrow> session_entry list \<Rightarrow> ('s, unit) sop" where
  "append_entries_default append1 [] = sret ()"
| "append_entries_default append1 (e # es) = sbind (append1 e) (\<lambda>_. append_entries_default append1 es)"

subsection \<open>The in-memory storage\<close>

record session_metadata =
  sm_id :: ustr
  sm_created_at :: ustr

record inner =
  in_entries :: "session_entry list"
  in_leaf_id :: "ustr option"

record memory_storage =
  ms_metadata :: session_metadata
  ms_inner :: inner
  ms_minted :: nat \<comment> \<open>UUIDs minted so far\<close>

definition memory_new :: "(nat \<Rightarrow> ustr) \<Rightarrow> ustr \<Rightarrow> memory_storage" where
  "memory_new uuid now =
     \<lparr>ms_metadata = \<lparr>sm_id = uuid 0, sm_created_at = now\<rparr>,
      ms_inner = \<lparr>in_entries = [], in_leaf_id = None\<rparr>, ms_minted = 1\<rparr>"

definition m_get_metadata_json :: "(memory_storage, json) sop" where
  "m_get_metadata_json s =
     (Inr (JObj [(lit ''id'', JStr (sm_id (ms_metadata s))),
                 (lit ''createdAt'', JStr (sm_created_at (ms_metadata s)))]), s)"

definition m_get_leaf_id :: "(memory_storage, ustr option) sop" where
  "m_get_leaf_id s = (Inr (in_leaf_id (ms_inner s)), s)"

definition m_set_leaf_id :: "ustr option \<Rightarrow> (memory_storage, unit) sop" where
  "m_set_leaf_id i s = (Inr (), s\<lparr>ms_inner := (ms_inner s)\<lparr>in_leaf_id := i\<rparr>\<rparr>)"

definition m_create_entry_id :: "(nat \<Rightarrow> ustr) \<Rightarrow> (memory_storage, ustr) sop" where
  "m_create_entry_id uuid s = (Inr (uuid (ms_minted s)), s\<lparr>ms_minted := Suc (ms_minted s)\<rparr>)"

definition m_append_entry :: "session_entry \<Rightarrow> (memory_storage, unit) sop" where
  "m_append_entry e s =
     (Inr (), s\<lparr>ms_inner := \<lparr>in_entries = in_entries (ms_inner s) @ [e], in_leaf_id = Some (entry_id e)\<rparr>\<rparr>)"

definition m_append_entries :: "session_entry list \<Rightarrow> (memory_storage, unit) sop" where
  "m_append_entries es s =
     (let g = ms_inner s;
          g1 = (if es = [] then g else g\<lparr>in_leaf_id := Some (entry_id (last es))\<rparr>)
      in (Inr (), s\<lparr>ms_inner := g1\<lparr>in_entries := in_entries g1 @ es\<rparr>\<rparr>))"

definition lookup_entry :: "session_entry list \<Rightarrow> ustr \<Rightarrow> session_entry option" where
  "lookup_entry es i = find (\<lambda>e. entry_id e = i) es"

definition m_get_entry :: "ustr \<Rightarrow> (memory_storage, session_entry option) sop" where
  "m_get_entry i s = (Inr (lookup_entry (in_entries (ms_inner s)) i), s)"

definition m_get_entries :: "(memory_storage, session_entry list) sop" where
  "m_get_entries s = (Inr (in_entries (ms_inner s)), s)"

lemma lookup_entry_SomeD: "lookup_entry es i = Some e \<Longrightarrow> e \<in> set es \<and> entry_id e = i"
  by (auto simp: lookup_entry_def find_Some_iff)

lemma unseen_decreases:
  assumes "e \<in> set es" "entry_id e \<notin> set seen"
  shows "length (filter (\<lambda>x. entry_id x \<noteq> entry_id e \<and> entry_id x \<notin> set seen) es)
         < length (filter (\<lambda>x. entry_id x \<notin> set seen) es)"
  using assms
proof (induction es)
  case (Cons x es)
  have "length (filter (\<lambda>x. entry_id x \<noteq> entry_id e \<and> entry_id x \<notin> set seen) es)
        \<le> length (filter (\<lambda>x. entry_id x \<notin> set seen) es)"
    by (induction es) auto
  with Cons show ?case by auto
qed simp

text \<open>
  The loop of \<open>get_path_to_root\<close>: it ends because every id it adds to \<open>seen\<close> is the id of a
  stored entry.
\<close>

function path_loop ::
  "session_entry list \<Rightarrow> ustr list \<Rightarrow> session_entry list \<Rightarrow> ustr option \<Rightarrow> session_entry list sresult" where
  "path_loop es seen chain None = Inr (rev chain)"
| "path_loop es seen chain (Some i) =
     (if i \<in> set seen
      then Inl \<lparr>se_code = Corrupted, se_message = lit ''cycle in parent chain at '' @ i\<rparr>
      else case lookup_entry es i of
             None \<Rightarrow> Inl \<lparr>se_code = Corrupted, se_message = lit ''parent '' @ i @ lit '' not found''\<rparr>
           | Some e \<Rightarrow> path_loop es (i # seen) (chain @ [e]) (entry_parent_id e))"
  by pat_completeness auto

termination
  by (relation "measure (\<lambda>(es, seen, chain, cur). length (filter (\<lambda>x. entry_id x \<notin> set seen) es))")
    (auto dest!: lookup_entry_SomeD intro: unseen_decreases)

definition m_get_path_to_root :: "ustr option \<Rightarrow> (memory_storage, session_entry list) sop" where
  "m_get_path_to_root leaf_id s =
     (case leaf_id of
        None \<Rightarrow> (Inr [], s)
      | Some start \<Rightarrow> (path_loop (in_entries (ms_inner s)) [] [] (Some start), s))"

definition m_find_entries :: "ustr \<Rightarrow> (memory_storage, session_entry list) sop" where
  "m_find_entries entry_type s =
     (Inr (filter (\<lambda>e. type_str e = entry_type) (in_entries (ms_inner s))), s)"

fun label_step :: "ustr \<Rightarrow> session_entry \<Rightarrow> ustr option \<Rightarrow> ustr option" where
  "label_step i (Label _ target_id label) latest = (if target_id = i then label else latest)"
| "label_step i _ latest = latest"

definition m_get_label :: "ustr \<Rightarrow> (memory_storage, ustr option) sop" where
  "m_get_label i s = (Inr (fold (label_step i) (in_entries (ms_inner s)) None), s)"

definition memory_ops :: "(nat \<Rightarrow> ustr) \<Rightarrow> memory_storage storage_ops" where
  "memory_ops uuid =
     \<lparr>so_get_metadata_json = m_get_metadata_json,
      so_get_leaf_id = m_get_leaf_id,
      so_set_leaf_id = m_set_leaf_id,
      so_create_entry_id = m_create_entry_id uuid,
      so_append_entry = m_append_entry,
      so_append_entries = m_append_entries,
      so_get_entry = m_get_entry,
      so_get_entries = m_get_entries,
      so_get_path_to_root = m_get_path_to_root,
      so_find_entries = m_find_entries,
      so_get_label = m_get_label\<rparr>"

end
