(* ===== verification/Session_Tree.thy ===== *)
theory Session_Tree
  imports Session_Storage
begin

text \<open>
  The parent chain of an entry and the shape of the entry tree. \<open>chain_from es l p\<close> says that
  \<open>p\<close> is the chain from the leaf \<open>l\<close> up to a root; it is unique and never repeats an id, and
  \<open>path_loop\<close> returns it, reversed, exactly when it exists. In a tree (\<open>tree_ok\<close>: distinct ids,
  every parent stored before its child) every stored entry has a chain. The interface
  \<open>session_storage\<close> and its interpretation by the in-memory storage close the theory.
\<close>

fun chain_from :: "session_entry list \<Rightarrow> ustr option \<Rightarrow> session_entry list \<Rightarrow> bool" where
  "chain_from es None p \<longleftrightarrow> p = []"
| "chain_from es (Some i) [] \<longleftrightarrow> False"
| "chain_from es (Some i) (e # p) \<longleftrightarrow> lookup_entry es i = Some e \<and> chain_from es (entry_parent_id e) p"

fun tree_from :: "ustr list \<Rightarrow> session_entry list \<Rightarrow> bool" where
  "tree_from seen [] \<longleftrightarrow> True"
| "tree_from seen (e # es) \<longleftrightarrow>
     entry_id e \<notin> set seen \<and>
     (case entry_parent_id e of None \<Rightarrow> True | Some q \<Rightarrow> q \<in> set seen) \<and>
     tree_from (entry_id e # seen) es"

definition tree_ok :: "session_entry list \<Rightarrow> bool" where
  "tree_ok es \<longleftrightarrow> tree_from [] es"

definition leaf_ok :: "session_entry list \<Rightarrow> ustr option \<Rightarrow> bool" where
  "leaf_ok es leaf \<longleftrightarrow> (case leaf of None \<Rightarrow> True | Some i \<Rightarrow> i \<in> entry_id ` set es)"

subsection \<open>Chains\<close>

lemma chain_from_Some:
  "chain_from es (Some i) p \<longleftrightarrow>
   (\<exists>e q. p = e # q \<and> lookup_entry es i = Some e \<and> chain_from es (entry_parent_id e) q)"
  by (cases p) auto

lemma chain_unique: "chain_from es l p \<Longrightarrow> chain_from es l q \<Longrightarrow> p = q"
proof (induction p arbitrary: l q)
  case Nil
  then show ?case by (cases l; cases q) auto
next
  case (Cons e p)
  from Cons.prems(1) obtain i where "l = Some i" by (cases l) auto
  with Cons show ?case by (auto simp: chain_from_Some)
qed

lemma chain_suffix: "chain_from es l (p @ e # q) \<Longrightarrow> chain_from es (Some (entry_id e)) (e # q)"
proof (induction p arbitrary: l)
  case Nil
  then show ?case by (cases l) (auto dest: lookup_entry_SomeD)
next
  case (Cons x p)
  from Cons.prems obtain i where "l = Some i" by (cases l) auto
  with Cons show ?case by auto
qed

lemma chain_distinct: "chain_from es l p \<Longrightarrow> distinct (map entry_id p)"
proof (induction p arbitrary: l)
  case (Cons e p)
  from Cons.prems obtain i where l: "l = Some i" by (cases l) auto
  with Cons have p: "chain_from es (entry_parent_id e) p" by simp
  have "entry_id e \<notin> entry_id ` set p"
  proof
    assume "entry_id e \<in> entry_id ` set p"
    then obtain x where x: "x \<in> set p" "entry_id x = entry_id e" by auto
    then obtain a b where ab: "p = a @ x # b" by (auto simp: in_set_conv_decomp)
    from chain_suffix [OF p [unfolded ab]] x(2)
    have "chain_from es (Some (entry_id e)) (x # b)" by simp
    moreover from chain_suffix [of es l "[]" e p] Cons.prems
    have "chain_from es (Some (entry_id e)) (e # p)" by simp
    ultimately have "e # p = x # b" by (rule chain_unique [rotated])
    then have "length (e # p) = length (x # b)" by (rule arg_cong)
    with ab show False by simp
  qed
  with Cons.IH [OF p] show ?case by simp
qed simp

lemma chain_entries: "chain_from es l p \<Longrightarrow> set p \<subseteq> set es"
proof (induction p arbitrary: l)
  case (Cons e p)
  from Cons.prems obtain i where "l = Some i" by (cases l) auto
  with Cons show ?case by (auto dest: lookup_entry_SomeD)
qed simp

lemma path_loop_complete:
  "chain_from es cur p \<Longrightarrow> set seen \<inter> entry_id ` set p = {} \<Longrightarrow>
   path_loop es seen chain cur = Inr (rev (chain @ p))"
proof (induction p arbitrary: seen chain cur)
  case Nil
  then show ?case by (cases cur) auto
next
  case (Cons e p)
  from Cons.prems obtain i where i: "cur = Some i" by (cases cur) auto
  with Cons.prems have e: "lookup_entry es i = Some e" and p: "chain_from es (entry_parent_id e) p"
    by auto
  from e have id: "entry_id e = i" by (simp add: lookup_entry_SomeD)
  from chain_distinct [OF Cons.prems(1)] Cons.prems(2) id
  have "set (i # seen) \<inter> entry_id ` set p = {}" by auto
  with Cons.IH [OF p] have "path_loop es (i # seen) (chain @ [e]) (entry_parent_id e) = Inr (rev ((chain @ [e]) @ p))"
    by blast
  moreover from Cons.prems(2) id have "i \<notin> set seen" by auto
  ultimately show ?case using i e by simp
qed

lemma path_loop_sound:
  "path_loop es seen chain cur = Inr r \<Longrightarrow> \<exists>p. r = rev (chain @ p) \<and> chain_from es cur p"
proof (induction es seen chain cur rule: path_loop.induct)
  case (1 es seen chain)
  then show ?case by auto
next
  case (2 es seen chain i)
  then obtain e where e: "i \<notin> set seen" "lookup_entry es i = Some e"
    and r: "path_loop es (i # seen) (chain @ [e]) (entry_parent_id e) = Inr r"
    by (auto split: if_splits option.splits)
  from 2(1) [OF e r] obtain p where p: "r = rev ((chain @ [e]) @ p)" "chain_from es (entry_parent_id e) p"
    by auto
  with e show ?case by (intro exI [of _ "e # p"]) simp
qed

lemma path_loop_error:
  "path_loop es seen chain cur = Inl err \<Longrightarrow> se_code err = Corrupted"
  by (induction es seen chain cur rule: path_loop.induct) (auto split: if_splits option.splits)

subsection \<open>Trees\<close>

lemma tree_from_append:
  "tree_from seen (es @ fs) \<longleftrightarrow> tree_from seen es \<and> tree_from (rev (map entry_id es) @ seen) fs"
  by (induction es arbitrary: seen) auto

lemma tree_ok_Nil [simp]: "tree_ok []"
  by (simp add: tree_ok_def)

lemma tree_ok_snoc:
  "tree_ok (es @ [e]) \<longleftrightarrow>
   tree_ok es \<and> entry_id e \<notin> entry_id ` set es \<and> leaf_ok es (entry_parent_id e)"
  by (auto simp: tree_ok_def tree_from_append leaf_ok_def split: option.splits)

lemma tree_ok_distinct: "tree_ok es \<Longrightarrow> distinct (map entry_id es)"
  by (induction es rule: rev_induct) (auto simp: tree_ok_snoc)

lemma leaf_ok_append: "leaf_ok es l \<Longrightarrow> leaf_ok (es @ fs) l"
  by (auto simp: leaf_ok_def split: option.splits)

lemma lookup_append:
  "lookup_entry (es @ fs) i = (case lookup_entry es i of None \<Rightarrow> lookup_entry fs i | Some e \<Rightarrow> Some e)"
  by (induction es) (auto simp: lookup_entry_def)

lemma lookup_none: "lookup_entry es i = None \<longleftrightarrow> i \<notin> entry_id ` set es"
  by (auto simp: lookup_entry_def find_None_iff)

lemma chain_append: "chain_from es l p \<Longrightarrow> chain_from (es @ fs) l p"
proof (induction p arbitrary: l)
  case Nil
  then show ?case by (cases l) auto
next
  case (Cons e p)
  from Cons.prems obtain i where "l = Some i" by (cases l) auto
  with Cons show ?case by (auto simp: lookup_append)
qed

lemma chain_snoc:
  assumes "entry_id e \<notin> entry_id ` set es" "chain_from es (entry_parent_id e) p"
  shows "chain_from (es @ [e]) (Some (entry_id e)) (e # p)"
proof -
  have "lookup_entry es (entry_id e) = None" using assms(1) by (simp add: lookup_none)
  then have "lookup_entry (es @ [e]) (entry_id e) = Some e"
    by (simp add: lookup_append) (simp add: lookup_entry_def)
  then show ?thesis using chain_append [OF assms(2)] by simp
qed

lemma tree_chain_exists: "tree_ok es \<Longrightarrow> leaf_ok es l \<Longrightarrow> \<exists>p. chain_from es l p"
proof (induction es arbitrary: l rule: rev_induct)
  case Nil
  then show ?case by (cases l) (auto simp: leaf_ok_def)
next
  case (snoc e es)
  show ?case
  proof (cases "l = Some (entry_id e)")
    case True
    from snoc.prems(1) have e: "entry_id e \<notin> entry_id ` set es" and "tree_ok es" "leaf_ok es (entry_parent_id e)"
      by (auto simp: tree_ok_snoc)
    with snoc.IH obtain p where "chain_from es (entry_parent_id e) p" by blast
    from chain_snoc [OF e this] True show ?thesis by blast
  next
    case False
    with snoc.prems have "leaf_ok es l" "tree_ok es"
      by (auto simp: leaf_ok_def tree_ok_snoc split: option.splits)
    with snoc.IH obtain p where "chain_from es l p" by blast
    from chain_append [OF this] show ?thesis by blast
  qed
qed

definition path_of :: "session_entry list \<Rightarrow> ustr option \<Rightarrow> session_entry list sresult" where
  "path_of es l = path_loop es [] [] l"

lemma path_of_iff: "path_of es l = Inr r \<longleftrightarrow> chain_from es l (rev r)"
proof
  assume "path_of es l = Inr r"
  then show "chain_from es l (rev r)"
    unfolding path_of_def by (auto dest: path_loop_sound)
next
  assume "chain_from es l (rev r)"
  from path_loop_complete [OF this, of "[]" "[]"] show "path_of es l = Inr r"
    by (simp add: path_of_def)
qed

lemma path_of_tree: "tree_ok es \<Longrightarrow> leaf_ok es l \<Longrightarrow> \<exists>r. path_of es l = Inr r"
  using tree_chain_exists [of es l] path_of_iff [of es l "rev r" for r] by fastforce

lemma path_of_append: "path_of es l = Inr r \<Longrightarrow> path_of (es @ fs) l = Inr r"
  by (simp add: path_of_iff chain_append)

lemma path_of_snoc:
  assumes "entry_id e \<notin> entry_id ` set es" "path_of es (entry_parent_id e) = Inr r"
  shows "path_of (es @ [e]) (Some (entry_id e)) = Inr (r @ [e])"
  using chain_snoc [OF assms(1), of "rev r"] assms(2) by (simp add: path_of_iff)

lemma path_of_child:
  assumes "lookup_entry es i = Some e" "path_of es (Some i) = Inr r"
  shows "r \<noteq> [] \<and> last r = e \<and> path_of es (entry_parent_id e) = Inr (butlast r)"
proof -
  from assms(2) have c: "chain_from es (Some i) (rev r)" by (simp add: path_of_iff)
  then obtain x q where q: "rev r = x # q" by (auto simp: chain_from_Some)
  with c assms(1) have "x = e" "chain_from es (entry_parent_id e) q" by auto
  moreover from q have "r = rev q @ [x]" by (metis rev.simps(2) rev_rev_ident)
  ultimately show ?thesis by (simp add: path_of_iff)
qed

lemma chain_is_tree: "chain_from es l p \<Longrightarrow> tree_ok (rev p) \<and> leaf_ok (rev p) l"
proof (induction p arbitrary: l)
  case Nil
  then show ?case by (cases l) (auto simp: leaf_ok_def)
next
  case (Cons e p)
  from Cons.prems obtain i where i: "l = Some i" by (cases l) auto
  with Cons.prems have e: "lookup_entry es i = Some e" and p: "chain_from es (entry_parent_id e) p" by auto
  from chain_distinct [OF Cons.prems] have "entry_id e \<notin> entry_id ` set p" by auto
  with Cons.IH [OF p] lookup_entry_SomeD [OF e] i show ?case
    by (auto simp: tree_ok_snoc leaf_ok_def)
qed

lemma path_is_tree: "path_of es l = Inr r \<Longrightarrow> tree_ok r \<and> leaf_ok r l"
  using chain_is_tree [of es l "rev r"] by (simp add: path_of_iff)

text \<open>A path, stored on its own, is the path of its last entry.\<close>

lemma chain_replay:
  "chain_from es l p \<Longrightarrow> chain_from (rev p) (case p of [] \<Rightarrow> None | e # _ \<Rightarrow> Some (entry_id e)) p"
proof (induction p arbitrary: l)
  case (Cons e p)
  from Cons.prems obtain i where i: "l = Some i" by (cases l) auto
  with Cons.prems have p: "chain_from es (entry_parent_id e) p" by auto
  have parent: "(case p of [] \<Rightarrow> None | x # _ \<Rightarrow> Some (entry_id x)) = entry_parent_id e"
  proof (cases p)
    case Nil
    with p show ?thesis by (cases "entry_parent_id e") auto
  next
    case (Cons x q)
    with p show ?thesis by (cases "entry_parent_id e") (auto dest: lookup_entry_SomeD)
  qed
  from chain_distinct [OF Cons.prems] have "entry_id e \<notin> entry_id ` set (rev p)" by auto
  from chain_snoc [OF this] Cons.IH [OF p] parent show ?case by simp
qed simp

lemma path_replay:
  assumes "path_of es l = Inr r"
  shows "path_of r (if r = [] then None else Some (entry_id (last r))) = Inr r"
proof -
  from assms have "chain_from es l (rev r)" by (simp add: path_of_iff)
  from chain_replay [OF this] show ?thesis
    by (cases r rule: rev_cases) (simp_all add: path_of_iff)
qed

subsection \<open>The interface of a session storage\<close>

text \<open>
  \<open>ents\<close>, \<open>leaf\<close> and \<open>minted\<close> read the stored entries, the leaf and the ids handed out; \<open>ok\<close> is
  the storage's own invariant.
\<close>

locale session_storage =
  fixes ops :: "'s storage_ops"
    and ents :: "'s \<Rightarrow> session_entry list"
    and leaf :: "'s \<Rightarrow> ustr option"
    and minted :: "'s \<Rightarrow> ustr set"
    and ok :: "'s \<Rightarrow> bool"
  assumes get_metadata: "ok s \<Longrightarrow> \<exists>r. so_get_metadata_json ops s = (r, s)"
    and get_leaf: "ok s \<Longrightarrow> so_get_leaf_id ops s = (Inr (leaf s), s)"
    and get_entry: "ok s \<Longrightarrow> so_get_entry ops i s = (Inr (lookup_entry (ents s) i), s)"
    and get_entries: "ok s \<Longrightarrow> so_get_entries ops s = (Inr (ents s), s)"
    and get_path: "ok s \<Longrightarrow> so_get_path_to_root ops l s = (path_of (ents s) l, s)"
    and find_entries: "ok s \<Longrightarrow> so_find_entries ops t s = (Inr (filter (\<lambda>e. type_str e = t) (ents s)), s)"
    and set_leaf: "ok s \<Longrightarrow> \<exists>s'. so_set_leaf_id ops l s = (Inr (), s') \<and> ok s' \<and> ents s' = ents s \<and>
                    leaf s' = l \<and> minted s' = minted s"
    and create: "ok s \<Longrightarrow> \<exists>i s'. so_create_entry_id ops s = (Inr i, s') \<and> ok s' \<and> ents s' = ents s \<and>
                    leaf s' = leaf s \<and> i \<notin> minted s \<and> minted s' = insert i (minted s)"
    and append1: "ok s \<Longrightarrow> \<exists>s'. so_append_entry ops e s = (Inr (), s') \<and> ok s' \<and> ents s' = ents s @ [e] \<and>
                    leaf s' = Some (entry_id e) \<and> minted s' = minted s"
    and append_all: "ok s \<Longrightarrow> \<exists>s'. so_append_entries ops es s = (Inr (), s') \<and> ok s' \<and>
                    ents s' = ents s @ es \<and> minted s' = minted s \<and>
                    leaf s' = (if es = [] then leaf s else Some (entry_id (last es)))"

definition mem_entries :: "memory_storage \<Rightarrow> session_entry list" where
  "mem_entries s = in_entries (ms_inner s)"

definition mem_leaf :: "memory_storage \<Rightarrow> ustr option" where
  "mem_leaf s = in_leaf_id (ms_inner s)"

definition mem_minted :: "(nat \<Rightarrow> ustr) \<Rightarrow> memory_storage \<Rightarrow> ustr set" where
  "mem_minted uuid s = uuid ` {..<ms_minted s}"

definition mem_ok :: "(nat \<Rightarrow> ustr) \<Rightarrow> memory_storage \<Rightarrow> bool" where
  "mem_ok uuid s \<longleftrightarrow> inj uuid"

lemmas memory_ops_defs = memory_ops_def m_get_leaf_id_def m_set_leaf_id_def m_create_entry_id_def
  m_append_entry_def m_append_entries_def m_get_entry_def m_get_entries_def m_get_path_to_root_def
  m_find_entries_def m_get_label_def m_get_metadata_json_def

interpretation memory: session_storage "memory_ops uuid" mem_entries mem_leaf "mem_minted uuid" "mem_ok uuid"
  for uuid
  by unfold_locales
    (auto simp: memory_ops_defs mem_entries_def mem_leaf_def mem_minted_def mem_ok_def path_of_def Let_def lessThan_Suc
      inj_eq image_iff split: option.split)

end
