(* ===== verification/Session.thy ===== *)
theory Session
  imports Session_Tree
begin

text \<open>
  The \<open>Session\<close> facade of \<^verbatim>\<open>crates/theway-core/src/agent/session/session.rs\<close> over any storage
  (a \<open>storage_ops\<close> table), and the fork of \<^verbatim>\<open>session/repo_utils.rs\<close>. Each operation takes the
  clock it reads as an argument; a fresh id comes from the storage.

  The lemmas that follow are proved once for every storage that meets the interface
  \<open>session_storage\<close>: the operations keep the entries a tree whose leaf is stored
  (\<open>session_inv\<close>), only ever append, and so never make a branch unreadable.
\<close>

subsection \<open>Reading\<close>

definition branch :: "'s storage_ops \<Rightarrow> ustr option \<Rightarrow> ('s, session_entry list) sop" where
  "branch ops from_id =
     (case from_id of
        Some i \<Rightarrow> so_get_path_to_root ops (Some i)
      | None \<Rightarrow> sbind (so_get_leaf_id ops) (\<lambda>leaf. so_get_path_to_root ops leaf))"

fun named_session :: "session_entry \<Rightarrow> ustr option" where
  "named_session (SessionInfo _ (Some name)) = (if trim name = [] then None else Some (trim name))"
| "named_session _ = None"

definition session_name :: "'s storage_ops \<Rightarrow> ('s, ustr option) sop" where
  "session_name ops =
     sbind (so_find_entries ops (lit ''session_info'')) (\<lambda>entries. sret (newest named_session entries))"

definition session_id :: "'s storage_ops \<Rightarrow> ('s, ustr option) sop" where
  "session_id ops =
     sbind (so_get_metadata_json ops) (\<lambda>metadata. sret (get_str metadata (lit ''id'')))"

definition collapse_node_id :: "'s storage_ops \<Rightarrow> ('s, ustr option) sop" where
  "collapse_node_id ops =
     sbind (so_get_metadata_json ops) (\<lambda>metadata. sret (get_str metadata (lit ''collapseNodeId'')))"

fun compaction_summary_of :: "session_entry \<Rightarrow> ustr option" where
  "compaction_summary_of (Compaction _ summary _ _ _ _) = (if summary = [] then None else Some summary)"
| "compaction_summary_of _ = None"

definition latest_compaction_summary :: "'s storage_ops \<Rightarrow> ('s, ustr option) sop" where
  "latest_compaction_summary ops =
     sbind (so_get_entries ops) (\<lambda>entries. sret (newest compaction_summary_of entries))"

definition latest_collapse_summary :: "'s storage_ops \<Rightarrow> ('s, ustr option) sop" where
  "latest_collapse_summary ops =
     sbind (latest_compaction_summary ops) (\<lambda>found.
       case found of
         Some summary \<Rightarrow> sret (Some summary)
       | None \<Rightarrow> sbind (so_get_entries ops) (\<lambda>entries. sret (newest compact_context_text entries)))"

definition session_compact_context :: "'s storage_ops \<Rightarrow> ('s, compact_context option) sop" where
  "session_compact_context ops =
     sbind (so_get_entries ops) (\<lambda>entries. sret (latest_compact_context entries))"

definition SESSION_GRAPH_STATE_CUSTOM_TYPE :: ustr where
  "SESSION_GRAPH_STATE_CUSTOM_TYPE = lit ''session_graph_state''"

text \<open>\<open>from_value\<close> stands for the derived decoder of \<open>SessionGraphState\<close>.\<close>

fun graph_state_of :: "(json \<Rightarrow> 'g option) \<Rightarrow> session_entry \<Rightarrow> 'g option" where
  "graph_state_of from_value (ECustom _ custom_type data) =
     (if custom_type \<noteq> SESSION_GRAPH_STATE_CUSTOM_TYPE then None else Option.bind data from_value)"
| "graph_state_of _ _ = None"

definition latest_session_graph_state :: "(json \<Rightarrow> 'g option) \<Rightarrow> session_entry list \<Rightarrow> 'g option" where
  "latest_session_graph_state from_value entries = newest (graph_state_of from_value) entries"

definition session_graph_state :: "(json \<Rightarrow> 'g option) \<Rightarrow> 's storage_ops \<Rightarrow> ('s, 'g option) sop" where
  "session_graph_state from_value ops =
     sbind (so_get_entries ops) (\<lambda>entries. sret (latest_session_graph_state from_value entries))"

subsection \<open>Appending\<close>

definition append_typed :: "'s storage_ops \<Rightarrow> session_entry \<Rightarrow> ('s, ustr) sop" where
  "append_typed ops entry = sbind (so_append_entry ops entry) (\<lambda>_. sret (entry_id entry))"

definition append_message :: "'s storage_ops \<Rightarrow> ustr \<Rightarrow> agent_message \<Rightarrow> ('s, ustr) sop" where
  "append_message ops now message =
     sbind (so_create_entry_id ops) (\<lambda>i. sbind (so_get_leaf_id ops) (\<lambda>parent.
       append_typed ops (Message \<lparr>eh_id = i, eh_parent_id = parent, eh_timestamp = now\<rparr> message)))"

text \<open>The loop of \<open>append_messages\<close>; it reads the clock once per message.\<close>

fun link_messages ::
  "'s storage_ops \<Rightarrow> (nat \<Rightarrow> ustr) \<Rightarrow> ustr option \<Rightarrow> agent_message list \<Rightarrow> ('s, session_entry list) sop" where
  "link_messages ops now parent [] = sret []"
| "link_messages ops now parent (m # ms) =
     sbind (so_create_entry_id ops) (\<lambda>i.
     sbind (link_messages ops (\<lambda>k. now (Suc k)) (Some i) ms) (\<lambda>entries.
       sret (Message \<lparr>eh_id = i, eh_parent_id = parent, eh_timestamp = now 0\<rparr> m # entries)))"

definition append_messages ::
  "'s storage_ops \<Rightarrow> (nat \<Rightarrow> ustr) \<Rightarrow> agent_message list \<Rightarrow> ('s, ustr list) sop" where
  "append_messages ops now messages =
     sbind (so_get_leaf_id ops) (\<lambda>parent.
     sbind (link_messages ops now parent messages) (\<lambda>entries.
     sbind (so_append_entries ops entries) (\<lambda>_. sret (map entry_id entries))))"

definition append_thinking_level_change :: "'s storage_ops \<Rightarrow> ustr \<Rightarrow> ustr \<Rightarrow> ('s, ustr) sop" where
  "append_thinking_level_change ops now thinking_level =
     sbind (so_create_entry_id ops) (\<lambda>i. sbind (so_get_leaf_id ops) (\<lambda>parent.
       append_typed ops
         (ThinkingLevelChange \<lparr>eh_id = i, eh_parent_id = parent, eh_timestamp = now\<rparr> thinking_level)))"

definition append_model_change :: "'s storage_ops \<Rightarrow> ustr \<Rightarrow> ustr \<Rightarrow> ustr \<Rightarrow> ('s, ustr) sop" where
  "append_model_change ops now provider model_id =
     sbind (so_create_entry_id ops) (\<lambda>i. sbind (so_get_leaf_id ops) (\<lambda>parent.
       append_typed ops
         (ModelChange \<lparr>eh_id = i, eh_parent_id = parent, eh_timestamp = now\<rparr> provider model_id)))"

definition append_compaction ::
  "'s storage_ops \<Rightarrow> ustr \<Rightarrow> ustr \<Rightarrow> ustr \<Rightarrow> nat \<Rightarrow> json option \<Rightarrow> bool \<Rightarrow> ('s, ustr) sop" where
  "append_compaction ops now summary first_kept_entry_id tokens_before details from_hook =
     sbind (so_create_entry_id ops) (\<lambda>i. sbind (so_get_leaf_id ops) (\<lambda>parent.
       append_typed ops
         (Compaction \<lparr>eh_id = i, eh_parent_id = parent, eh_timestamp = now\<rparr> summary first_kept_entry_id
            tokens_before details (if from_hook then Some True else None))))"

definition append_custom :: "'s storage_ops \<Rightarrow> ustr \<Rightarrow> ustr \<Rightarrow> json option \<Rightarrow> ('s, ustr) sop" where
  "append_custom ops now custom_type data =
     sbind (so_create_entry_id ops) (\<lambda>i. sbind (so_get_leaf_id ops) (\<lambda>parent.
       append_typed ops (ECustom \<lparr>eh_id = i, eh_parent_id = parent, eh_timestamp = now\<rparr> custom_type data)))"

text \<open>
  \<open>to_value\<close> stands for the derived encoder of \<open>SessionGraphState\<close>. Inserting a key replaces the
  value it had.
\<close>

fun with_updated_at :: "ustr \<Rightarrow> json \<Rightarrow> json" where
  "with_updated_at now (JObj object) = JObj (hm_put (lit ''updatedAt'') (JStr now) object)"
| "with_updated_at now data = data"

definition append_session_graph_state ::
  "('g \<Rightarrow> ustr + json) \<Rightarrow> 's storage_ops \<Rightarrow> (nat \<Rightarrow> ustr) \<Rightarrow> 'g \<Rightarrow> ('s, ustr) sop" where
  "append_session_graph_state to_value ops now state =
     (case to_value state of
        Inl err \<Rightarrow> sfail \<lparr>se_code = StorageFailure,
                          se_message = lit ''serialize session graph state: '' @ err\<rparr>
      | Inr data \<Rightarrow>
          append_custom ops (now 1) SESSION_GRAPH_STATE_CUSTOM_TYPE (Some (with_updated_at (now 0) data)))"

definition append_session_name :: "'s storage_ops \<Rightarrow> ustr \<Rightarrow> ustr \<Rightarrow> ('s, ustr) sop" where
  "append_session_name ops now name =
     sbind (so_create_entry_id ops) (\<lambda>i. sbind (so_get_leaf_id ops) (\<lambda>parent.
       append_typed ops
         (SessionInfo \<lparr>eh_id = i, eh_parent_id = parent, eh_timestamp = now\<rparr> (Some (trim name)))))"

record branch_summary_input =
  bi_summary :: ustr
  bi_details :: "json option"
  bi_from_hook :: bool

definition move_target_missing :: "'s storage_ops \<Rightarrow> ustr option \<Rightarrow> ('s, unit) sop" where
  "move_target_missing ops target =
     (case target of
        None \<Rightarrow> sret ()
      | Some i \<Rightarrow> sbind (so_get_entry ops i) (\<lambda>found.
          if found = None
          then sfail \<lparr>se_code = NotFound, se_message = lit ''Entry '' @ i @ lit '' not found''\<rparr>
          else sret ()))"

definition move_to ::
  "'s storage_ops \<Rightarrow> ustr \<Rightarrow> ustr option \<Rightarrow> branch_summary_input option \<Rightarrow> ('s, ustr option) sop" where
  "move_to ops now target summary =
     sbind (move_target_missing ops target) (\<lambda>_.
     sbind (so_set_leaf_id ops target) (\<lambda>_.
       case summary of
         None \<Rightarrow> sret None
       | Some b \<Rightarrow>
           sbind (so_create_entry_id ops) (\<lambda>i.
           sbind (append_typed ops
             (BranchSummary \<lparr>eh_id = i, eh_parent_id = target, eh_timestamp = now\<rparr>
                (case target of Some t \<Rightarrow> t | None \<Rightarrow> lit ''root'')
                (bi_summary b) (bi_details b) (if bi_from_hook b then Some True else None)))
             (\<lambda>i. sret (Some i)))))"

subsection \<open>Forking\<close>

datatype fork_position = Before | At

record fork_options =
  fo_entry_id :: "ustr option"
  fo_position :: fork_position

fun before_user_message :: "session_entry \<Rightarrow> ustr option option" where
  "before_user_message (Message h (Llm (User _))) = Some (eh_parent_id h)"
| "before_user_message _ = None"

definition get_entries_to_fork :: "'s storage_ops \<Rightarrow> fork_options \<Rightarrow> ('s, session_entry list) sop" where
  "get_entries_to_fork ops options =
     (case fo_entry_id options of
        None \<Rightarrow> so_get_entries ops
      | Some i \<Rightarrow>
          sbind (so_get_entry ops i) (\<lambda>found.
            case found of
              None \<Rightarrow> sfail \<lparr>se_code = NotFound, se_message = lit ''Entry '' @ i @ lit '' not found''\<rparr>
            | Some target \<Rightarrow>
                (case fo_position options of
                   At \<Rightarrow> so_get_path_to_root ops (Some (entry_id target))
                 | Before \<Rightarrow>
                     (case before_user_message target of
                        Some leaf \<Rightarrow> so_get_path_to_root ops leaf
                      | None \<Rightarrow> sfail \<lparr>se_code = NotFound,
                                        se_message = lit ''Entry '' @ i @ lit '' is not a user message''\<rparr>))))"

end
