(* ===== verification/Dag_Types.thy ===== *)
theory Dag_Types
  imports Prelude
begin

text \<open>
  The data model of DAG orchestration: the run and node types of
  \<^verbatim>\<open>crates/theway-core/src/multiagent/graph/types.rs\<close> and the persisted forms of
  \<^verbatim>\<open>crates/theway-contract/src/dag.rs\<close>.

  Field names carry a prefix for their record (\<open>n_\<close> node, \<open>r_\<close> run, \<open>d_\<close> node definition,
  \<open>rd_\<close> run definition, \<open>pn_\<close> and \<open>pr_\<close> persisted node and run). Unsigned counters are
  \<open>nat\<close>, millisecond time stamps (\<open>i64\<close>) are \<open>int\<close>.
\<close>

subsection \<open>Enumerations\<close>

datatype node_status = Pending | Ready | Running | Succeeded | Failed | Skipped | Cancelled

datatype run_kind = Dag | Goal

fun run_kind_str :: "run_kind \<Rightarrow> ustr" where
  "run_kind_str Dag = lit ''dag''"
| "run_kind_str Goal = lit ''goal''"

datatype direction = Td | Lr

datatype dag_status = DRunning | DCompleted | DFailed | DCancelled

subsection \<open>Definitions supplied by the user\<close>

record dag_node_def =
  d_id :: ustr
  d_agent :: ustr
  d_task :: ustr
  d_depends_on :: "ustr list option"
  d_timeout :: "nat option"
  d_cwd :: "ustr option"
  d_provider :: "ustr option"
  d_model :: "ustr option"
  d_thinking :: "ustr option"
  d_max_iterations :: "nat option"
  d_tools :: "ustr list option"

record dag_run_def =
  rd_name :: ustr
  rd_nodes :: "dag_node_def list"
  rd_max_concurrency :: "nat option"
  rd_fail_fast :: "bool option"
  rd_direction :: "direction option"

subsection \<open>Runtime state\<close>

record node_result =
  res_success :: bool
  res_error :: "ustr option"
  res_duration_ms :: "nat option"
  res_attempt :: nat
  res_total_attempts :: nat

record dag_node =
  n_id :: ustr
  n_agent :: ustr
  n_task :: ustr
  n_depends_on :: "ustr list"
  n_timeout :: "nat option"
  n_cwd :: "ustr option"
  n_provider :: "ustr option"
  n_model :: "ustr option"
  n_thinking :: "ustr option"
  n_max_iterations :: "nat option"
  n_tools :: "ustr list option"
  n_status :: node_status
  n_job_id :: "ustr option"
  n_attempt :: nat
  n_launch_gen :: nat
  n_started_at :: "int option"
  n_completed_at :: "int option"
  n_error :: "ustr option"
  n_input_tokens :: "nat option"
  n_output_tokens :: "nat option"
  n_result :: "node_result option"
  n_output :: "ustr option"
  n_live_preview :: "ustr option"
  n_last_active_at :: "int option"

record dag_run =
  r_id :: ustr
  r_name :: ustr
  r_nodes :: "dag_node list"
  r_status :: dag_status
  r_kind :: run_kind
  r_max_concurrency :: nat
  r_fail_fast :: bool
  r_direction :: direction
  r_created_at :: int
  r_session_id :: "ustr option"
  r_completed_at :: "int option"
  r_last_activity_at :: int
  r_error :: "ustr option"

text \<open>\<open>DagRun::node\<close> and an update through \<open>DagRun::node_mut\<close>: both act on the first match.\<close>

definition run_node :: "dag_run \<Rightarrow> ustr \<Rightarrow> dag_node option" where
  "run_node r i = find (\<lambda>n. n_id n = i) (r_nodes r)"

definition run_node_mut :: "ustr \<Rightarrow> (dag_node \<Rightarrow> dag_node) \<Rightarrow> dag_run \<Rightarrow> dag_run" where
  "run_node_mut i f r = r\<lparr>r_nodes := update_first (\<lambda>n. n_id n = i) f (r_nodes r)\<rparr>"

datatype dag_event =
    NodeStatusEvent ustr ustr ustr node_status "ustr option"
      \<comment> \<open>\<open>run_id\<close>, \<open>session_id\<close>, \<open>node_id\<close>, \<open>status\<close>, \<open>error\<close>\<close>
  | RunStatusEvent ustr ustr dag_status "ustr option"
      \<comment> \<open>\<open>run_id\<close>, \<open>session_id\<close>, \<open>status\<close>, \<open>error\<close>\<close>

subsection \<open>Persisted forms\<close>

record persisted_node =
  pn_id :: ustr
  pn_agent :: ustr
  pn_task :: ustr
  pn_depends_on :: "ustr list"
  pn_timeout :: "nat option"
  pn_cwd :: "ustr option"
  pn_provider :: "ustr option"
  pn_model :: "ustr option"
  pn_thinking :: "ustr option"
  pn_max_iterations :: "nat option"
  pn_tools :: "ustr list option"
  pn_status :: node_status
  pn_attempt :: nat
  pn_started_at :: "int option"
  pn_completed_at :: "int option"
  pn_error :: "ustr option"
  pn_input_tokens :: "nat option"
  pn_output_tokens :: "nat option"
  pn_result :: "node_result option"
  pn_output :: "ustr option"
  pn_live_preview :: "ustr option"

record persisted_run =
  pr_id :: ustr
  pr_name :: ustr
  pr_max_concurrency :: nat
  pr_fail_fast :: bool
  pr_direction :: direction
  pr_created_at :: int
  pr_session_id :: "ustr option"
  pr_kind :: run_kind
  pr_nodes :: "persisted_node list"

text \<open>
  The file name of the state database (\<open>state_path_for_project\<close> joins it to the directory).
  A session id is reduced to at most 60 characters of a safe alphabet.
\<close>

definition is_ascii_alphanumeric :: "nat \<Rightarrow> bool" where
  "is_ascii_alphanumeric c \<longleftrightarrow>
     (48 \<le> c \<and> c \<le> 57) \<or> (65 \<le> c \<and> c \<le> 90) \<or> (97 \<le> c \<and> c \<le> 122)"

definition sanitize_session_id :: "ustr \<Rightarrow> ustr" where
  "sanitize_session_id s =
     (let clean = take 60 (map (\<lambda>c. if is_ascii_alphanumeric c \<or> c = 45 \<or> c = 95 then c else 95) s)
      in if clean = [] then lit ''default'' else clean)"

definition state_path_for_project :: "ustr list \<Rightarrow> ustr option \<Rightarrow> ustr list" where
  "state_path_for_project pi_dir session =
     (case session of
        Some i \<Rightarrow> pi_dir @ [lit ''graph-engineering-state-'' @ sanitize_session_id i @ lit ''.db'']
      | None \<Rightarrow> pi_dir @ [lit ''graph-engineering-state.db''])"

subsection \<open>Lemmas\<close>

lemma run_node_SomeD: "run_node r i = Some n \<Longrightarrow> n \<in> set (r_nodes r) \<and> n_id n = i"
  unfolding run_node_def by (rule find_key_SomeD)

lemma run_node_in:
  "distinct (map n_id (r_nodes r)) \<Longrightarrow> n \<in> set (r_nodes r) \<Longrightarrow> run_node r (n_id n) = Some n"
  unfolding run_node_def by (rule find_key)

lemma run_node_None: "run_node r i = None \<longleftrightarrow> i \<notin> n_id ` set (r_nodes r)"
  by (auto simp: run_node_def find_None_iff)

lemma run_node_mut_simps [simp]:
  "r_id (run_node_mut i f r) = r_id r"
  "r_name (run_node_mut i f r) = r_name r"
  "r_status (run_node_mut i f r) = r_status r"
  "r_kind (run_node_mut i f r) = r_kind r"
  "r_max_concurrency (run_node_mut i f r) = r_max_concurrency r"
  "r_fail_fast (run_node_mut i f r) = r_fail_fast r"
  "r_created_at (run_node_mut i f r) = r_created_at r"
  "r_session_id (run_node_mut i f r) = r_session_id r"
  "r_completed_at (run_node_mut i f r) = r_completed_at r"
  "r_last_activity_at (run_node_mut i f r) = r_last_activity_at r"
  "r_error (run_node_mut i f r) = r_error r"
  by (simp_all add: run_node_mut_def)

lemma run_node_mut_nodes:
  assumes "distinct (map n_id (r_nodes r))"
  shows "r_nodes (run_node_mut i f r) = map (\<lambda>n. if n_id n = i then f n else n) (r_nodes r)"
  using update_first_key [OF assms] by (simp add: run_node_mut_def)

lemma run_node_mut_ids:
  "(\<And>n. n_id (f n) = n_id n) \<Longrightarrow>
   map n_id (r_nodes (run_node_mut i f r)) = map n_id (r_nodes r)"
  by (simp add: run_node_mut_def map_update_first)

lemma sanitize_session_id_safe:
  "sanitize_session_id s \<noteq> [] \<and> length (sanitize_session_id s) \<le> 60 \<and>
   list_all (\<lambda>c. is_ascii_alphanumeric c \<or> c = 45 \<or> c = 95) (sanitize_session_id s)"
proof -
  have "list_all (\<lambda>c. is_ascii_alphanumeric c \<or> c = 45 \<or> c = 95) (lit ''default'')"
    by (simp add: lit_def is_ascii_alphanumeric_def)
  moreover have "is_ascii_alphanumeric 95 \<or> (95::nat) = 95" by simp
  ultimately show ?thesis
    by (auto simp: sanitize_session_id_def Let_def list_all_iff dest: in_set_takeD)
qed

end
