(* ===== verification/Dag_Validate.thy ===== *)
theory Dag_Validate
  imports Dag_Types
begin

text \<open>
  Graph validation, \<open>validate_graph\<close> of
  \<^verbatim>\<open>crates/theway-core/src/multiagent/graph/model.rs\<close>: the per-node checks in source order, then
  Kahn's algorithm over \<open>depends_on\<close>. The errors are values of \<open>graph_error\<close>; \<open>render_error\<close>
  gives the text the code pushes. The main result is that the validator accepts exactly the
  graphs of the declarative specification \<open>graph_ok\<close>.
\<close>

subsection \<open>The checks\<close>

datatype graph_error =
    BadId ustr
  | DuplicateId ustr
  | MissingAgent ustr
  | UnknownAgent ustr ustr "ustr list"
  | MissingTask ustr
  | SelfDependency ustr
  | UnknownDependency ustr ustr
  | DependencyCycle "ustr list"

fun render_error :: "graph_error \<Rightarrow> ustr" where
  "render_error (BadId i) =
     [33410, 28857, 32, 105, 100, 32, 34] @ i @
     [34, 32, 38750, 27861, 58, 32, 20165, 20801, 35768, 23383, 27597, 25968, 23383, 21644, 19979,
      21010, 32447, 32, 40, 109, 101, 114, 109, 97, 105, 100, 32, 20860, 23481, 41]"
| "render_error (DuplicateId i) = [37325, 22797, 30340, 33410, 28857, 32, 105, 100, 32, 34] @ i @ [34]"
| "render_error (MissingAgent i) =
     [33410, 28857, 32, 34] @ i @ [34, 32, 32570, 23569, 32, 97, 103, 101, 110, 116]"
| "render_error (UnknownAgent i a agents) =
     [33410, 28857, 32, 34] @ i @
     [34, 32, 24341, 29992, 20102, 26410, 30693, 32, 115, 117, 98, 97, 103, 101, 110, 116, 32, 34] @
     a @ [34, 32, 40, 21487, 29992, 58, 32] @ join (lit '', '') agents @
     [32, 25110, 32, 34, 110, 111, 110, 101, 34, 41]"
| "render_error (MissingTask i) =
     [33410, 28857, 32, 34] @ i @ [34, 32, 32570, 23569, 32, 116, 97, 115, 107, 32, 25551, 36848]"
| "render_error (SelfDependency i) =
     [33410, 28857, 32, 34] @ i @ [34, 32, 19981, 33021, 20381, 36182, 33258, 24049]"
| "render_error (UnknownDependency i d) =
     [33410, 28857, 32, 34] @ i @
     [34, 32, 20381, 36182, 20102, 19981, 23384, 22312, 30340, 33410, 28857, 32, 34] @ d @ [34]"
| "render_error (DependencyCycle is) =
     [26816, 27979, 21040, 20381, 36182, 29615, 58, 32] @ join (lit '', '') is"

text \<open>\<open>ID_RE\<close>: \<^verbatim>\<open>^[A-Za-z0-9_-]+$\<close>.\<close>

definition id_char :: "nat \<Rightarrow> bool" where
  "id_char c \<longleftrightarrow> is_ascii_alphanumeric c \<or> c = 95 \<or> c = 45"

definition id_re_match :: "ustr \<Rightarrow> bool" where
  "id_re_match s \<longleftrightarrow> s \<noteq> [] \<and> list_all id_char s"

text \<open>The agent check: an absent list, or an empty one, accepts every agent name.\<close>

definition agent_errors :: "ustr list option \<Rightarrow> dag_node_def \<Rightarrow> graph_error list" where
  "agent_errors known n =
     (if d_agent n = [] then [MissingAgent (d_id n)]
      else (case known of
          None \<Rightarrow> []
        | Some agents \<Rightarrow>
            if agents \<noteq> [] \<and> d_agent n \<notin> set agents
            then [UnknownAgent (d_id n) (d_agent n) agents] else []))"

definition dep_errors :: "dag_node_def list \<Rightarrow> ustr list \<Rightarrow> dag_node_def \<Rightarrow> graph_error list" where
  "dep_errors nodes ids n =
     (case d_depends_on n of
        None \<Rightarrow> []
      | Some deps \<Rightarrow> concat (map (\<lambda>dep.
            if dep = d_id n then [SelfDependency (d_id n)]
            else if dep \<notin> set ids \<and> \<not> list_ex (\<lambda>x. d_id x = dep) nodes
            then [UnknownDependency (d_id n) dep] else []) deps))"

text \<open>The loop over the nodes; \<open>ids\<close> is the set of the ids seen so far.\<close>

fun node_errors :: "dag_node_def list \<Rightarrow> ustr list option \<Rightarrow> ustr list \<Rightarrow> dag_node_def list \<Rightarrow> graph_error list" where
  "node_errors nodes known ids [] = []"
| "node_errors nodes known ids (n # ns) =
     (if \<not> id_re_match (d_id n) then BadId (d_id n) # node_errors nodes known ids ns
      else
        (if d_id n \<in> set ids then [DuplicateId (d_id n)] else []) @
        agent_errors known n @
        (if is_blank (d_task n) then [MissingTask (d_id n)] else []) @
        dep_errors nodes (d_id n # ids) n @
        node_errors nodes known (d_id n # ids) ns)"

subsection \<open>Cycle detection\<close>

fun initial_remaining :: "ustr list \<Rightarrow> dag_node_def list \<Rightarrow> ustr list" where
  "initial_remaining rem [] = rem"
| "initial_remaining rem (n # ns) =
     initial_remaining (if d_id n \<in> set rem then rem else rem @ [d_id n]) ns"

text \<open>\<open>by_id\<close> is collected from the nodes in order, so the last node of an id wins.\<close>

definition def_by_id :: "dag_node_def list \<Rightarrow> ustr \<Rightarrow> dag_node_def option" where
  "def_by_id nodes = map_of (rev (map (\<lambda>n. (d_id n, n)) nodes))"

text \<open>
  The \<open>expect\<close> on the lookup is unreachable (lemma \<open>def_by_id_defined\<close>: the remaining ids come
  from the nodes); the branch keeps the id.
\<close>

definition deps_satisfied :: "dag_node_def list \<Rightarrow> ustr list \<Rightarrow> ustr \<Rightarrow> bool" where
  "deps_satisfied nodes remaining i =
     (case def_by_id nodes i of
        None \<Rightarrow> False
      | Some n \<Rightarrow>
          (case d_depends_on n of
             None \<Rightarrow> True
           | Some deps \<Rightarrow> list_all (\<lambda>dep. dep \<notin> set remaining) deps))"

text \<open>
  One run of the inner loop: \<open>kept\<close> is \<open>remaining[..i]\<close>, the last argument \<open>remaining[i..]\<close>. An
  element that is removed is missing from \<open>remaining\<close> for the tests that follow.
\<close>

fun kahn_pass :: "dag_node_def list \<Rightarrow> ustr list \<Rightarrow> ustr list \<Rightarrow> ustr list \<times> bool" where
  "kahn_pass nodes kept [] = (kept, False)"
| "kahn_pass nodes kept (i # rest) =
     (if deps_satisfied nodes (kept @ i # rest) i
      then (fst (kahn_pass nodes kept rest), True)
      else kahn_pass nodes (kept @ [i]) rest)"

lemma kahn_pass_length:
  "length (fst (kahn_pass nodes kept rest)) \<le> length kept + length rest \<and>
   (snd (kahn_pass nodes kept rest) \<longrightarrow>
     length (fst (kahn_pass nodes kept rest)) < length kept + length rest)"
  by (induction nodes kept rest rule: kahn_pass.induct) auto

text \<open>The \<open>while changed\<close> loop; every pass that reports a change has removed an id.\<close>

function kahn_loop :: "dag_node_def list \<Rightarrow> ustr list \<Rightarrow> ustr list" where
  "kahn_loop nodes remaining =
     (let p = kahn_pass nodes [] remaining
      in if snd p then kahn_loop nodes (fst p) else fst p)"
  by pat_completeness auto
termination
proof (relation "measure (\<lambda>(nodes, remaining). length remaining)")
  fix nodes remaining p
  assume "p = kahn_pass nodes [] remaining" and "snd p"
  then show "((nodes, fst p), nodes, remaining) \<in> measure (\<lambda>(nodes, remaining). length remaining)"
    using kahn_pass_length [of nodes "[]" remaining] by simp
qed simp

declare kahn_loop.simps [simp del]

definition validate_graph :: "dag_node_def list \<Rightarrow> ustr list option \<Rightarrow> graph_error list" where
  "validate_graph nodes known =
     (let remaining = kahn_loop nodes (initial_remaining [] nodes)
      in node_errors nodes known [] nodes @
         (if remaining = [] then [] else [DependencyCycle remaining]))"

subsection \<open>Specification\<close>

definition def_deps :: "dag_node_def \<Rightarrow> ustr list" where
  "def_deps n = (case d_depends_on n of None \<Rightarrow> [] | Some deps \<Rightarrow> deps)"

definition dep_edges :: "dag_node_def list \<Rightarrow> (ustr \<times> ustr) set" where
  "dep_edges nodes = {(dep, d_id n) | dep n. n \<in> set nodes \<and> dep \<in> set (def_deps n)}"

definition agent_ok :: "ustr list option \<Rightarrow> ustr \<Rightarrow> bool" where
  "agent_ok known a \<longleftrightarrow>
     a \<noteq> [] \<and> (case known of None \<Rightarrow> True | Some agents \<Rightarrow> agents = [] \<or> a \<in> set agents)"

definition node_def_ok :: "dag_node_def list \<Rightarrow> ustr list option \<Rightarrow> dag_node_def \<Rightarrow> bool" where
  "node_def_ok nodes known n \<longleftrightarrow>
     id_re_match (d_id n) \<and> agent_ok known (d_agent n) \<and> \<not> is_blank (d_task n) \<and>
     d_id n \<notin> set (def_deps n) \<and> set (def_deps n) \<subseteq> d_id ` set nodes"

definition graph_ok :: "dag_node_def list \<Rightarrow> ustr list option \<Rightarrow> bool" where
  "graph_ok nodes known \<longleftrightarrow>
     (\<forall>n\<in>set nodes. node_def_ok nodes known n) \<and>
     distinct (map d_id nodes) \<and> acyclic (dep_edges nodes)"

subsection \<open>The per-node checks meet their specification\<close>

lemma agent_errors_Nil: "agent_errors known n = [] \<longleftrightarrow> agent_ok known (d_agent n)"
  by (auto simp: agent_errors_def agent_ok_def split: option.splits)

lemma dep_errors_Nil:
  assumes "set ids \<subseteq> d_id ` set nodes"
  shows "dep_errors nodes ids n = [] \<longleftrightarrow>
    d_id n \<notin> set (def_deps n) \<and> set (def_deps n) \<subseteq> d_id ` set nodes"
proof (cases "d_depends_on n")
  case None
  then show ?thesis by (simp add: dep_errors_def def_deps_def)
next
  case (Some deps)
  have ex: "list_ex (\<lambda>x. d_id x = dep) nodes \<longleftrightarrow> dep \<in> d_id ` set nodes" for dep
    by (auto simp: list_ex_iff)
  have "dep_errors nodes ids n = [] \<longleftrightarrow>
      (\<forall>dep\<in>set deps. dep \<noteq> d_id n \<and> (dep \<in> set ids \<or> dep \<in> d_id ` set nodes))"
    unfolding dep_errors_def Some ex option.case concat_map_Nil
    by (intro ball_cong refl) simp
  with assms Some show ?thesis by (auto simp: def_deps_def)
qed

lemma node_errors_Nil:
  assumes "set ids \<subseteq> d_id ` set nodes" and "set ns \<subseteq> set nodes"
  shows "node_errors nodes known ids ns = [] \<longleftrightarrow>
    (\<forall>n\<in>set ns. node_def_ok nodes known n) \<and> distinct (map d_id ns) \<and>
    set ids \<inter> d_id ` set ns = {}"
  using assms
proof (induction ns arbitrary: ids)
  case (Cons n ns)
  have "set (d_id n # ids) \<subseteq> d_id ` set nodes"
    using Cons.prems by auto
  moreover have "set ns \<subseteq> set nodes" using Cons.prems by auto
  ultimately show ?case
    using Cons.IH [of "d_id n # ids"] dep_errors_Nil [of "d_id n # ids" nodes n]
    by (auto simp: node_def_ok_def agent_errors_Nil)
qed simp

subsection \<open>Kahn's algorithm decides acyclicity\<close>

lemma set_initial_remaining: "set (initial_remaining rem ns) = set rem \<union> d_id ` set ns"
  by (induction rem ns rule: initial_remaining.induct) auto

lemma def_by_id_in: "distinct (map d_id nodes) \<Longrightarrow> n \<in> set nodes \<Longrightarrow> def_by_id nodes (d_id n) = Some n"
  unfolding def_by_id_def by (rule map_of_is_SomeI) (auto simp: rev_map [symmetric] comp_def)

lemma def_by_id_SomeD: "def_by_id nodes i = Some n \<Longrightarrow> n \<in> set nodes \<and> d_id n = i"
  unfolding def_by_id_def by (drule map_of_SomeD) auto

lemma def_by_id_defined: "i \<in> d_id ` set nodes \<Longrightarrow> \<exists>n. def_by_id nodes i = Some n"
  unfolding def_by_id_def by (cases "map_of (rev (map (\<lambda>n. (d_id n, n)) nodes)) i")
    (auto simp: map_of_eq_None_iff image_image)

lemma deps_satisfied_iff:
  assumes "distinct (map d_id nodes)" and "i \<in> d_id ` set nodes"
  shows "deps_satisfied nodes rem i \<longleftrightarrow> (\<forall>d. (d, i) \<in> dep_edges nodes \<longrightarrow> d \<notin> set rem)"
proof -
  obtain n where n: "n \<in> set nodes" "d_id n = i" using assms(2) by auto
  have "(d, i) \<in> dep_edges nodes \<longleftrightarrow> d \<in> set (def_deps n)" for d
    using n assms(1) by (auto simp: dep_edges_def dest: inj_onD simp: distinct_map)
  moreover have "def_by_id nodes i = Some n"
    using def_by_id_in [OF assms(1) n(1)] n(2) by simp
  ultimately show ?thesis
    by (auto simp: deps_satisfied_def def_deps_def list_all_iff split: option.splits)
qed

lemma kahn_pass_subset: "set (fst (kahn_pass nodes kept rest)) \<subseteq> set kept \<union> set rest"
  by (induction nodes kept rest rule: kahn_pass.induct) auto

text \<open>A set in which every id has a dependency of the set is never removed.\<close>

lemma kahn_pass_keeps:
  assumes "distinct (map d_id nodes)" and "set kept \<union> set rest \<subseteq> d_id ` set nodes"
    and "C \<subseteq> set kept \<union> set rest" and "\<And>i. i \<in> C \<Longrightarrow> \<exists>d\<in>C. (d, i) \<in> dep_edges nodes"
  shows "C \<subseteq> set (fst (kahn_pass nodes kept rest))"
  using assms
proof (induction nodes kept rest rule: kahn_pass.induct)
  case (2 nodes kept i rest)
  show ?case
  proof (cases "deps_satisfied nodes (kept @ i # rest) i")
    case True
    then have "i \<notin> C"
      using "2.prems" deps_satisfied_iff [of nodes i "kept @ i # rest"] by fastforce
    with True "2.prems" "2.IH"(1) show ?thesis by auto
  next
    case False
    with "2.prems" "2.IH"(2) show ?thesis by simp
  qed
qed simp

lemma kahn_loop_keeps:
  assumes "distinct (map d_id nodes)" and "set rem \<subseteq> d_id ` set nodes"
    and "C \<subseteq> set rem" and "\<And>i. i \<in> C \<Longrightarrow> \<exists>d\<in>C. (d, i) \<in> dep_edges nodes"
  shows "C \<subseteq> set (kahn_loop nodes rem)"
  using assms
proof (induction nodes rem rule: kahn_loop.induct)
  case (1 nodes rem)
  have "C \<subseteq> set (fst (kahn_pass nodes [] rem))"
    using kahn_pass_keeps [of nodes "[]" rem C] "1.prems" by auto
  moreover have "set (fst (kahn_pass nodes [] rem)) \<subseteq> d_id ` set nodes"
    using kahn_pass_subset [of nodes "[]" rem] "1.prems" by auto
  ultimately show ?case
    using "1.IH" "1.prems" by (auto simp: kahn_loop.simps [of nodes rem] Let_def)
qed

text \<open>Where the loop stops, no id left has all its dependencies removed.\<close>

lemma kahn_pass_unchanged:
  "\<not> snd (kahn_pass nodes kept rest) \<Longrightarrow>
   fst (kahn_pass nodes kept rest) = kept @ rest \<and>
   (\<forall>i\<in>set rest. \<not> deps_satisfied nodes (kept @ rest) i)"
  by (induction nodes kept rest rule: kahn_pass.induct) (auto split: if_splits)

lemma kahn_loop_stuck:
  "i \<in> set (kahn_loop nodes rem) \<Longrightarrow> \<not> deps_satisfied nodes (kahn_loop nodes rem) i"
proof (induction nodes rem rule: kahn_loop.induct)
  case (1 nodes rem)
  show ?case
  proof (cases "snd (kahn_pass nodes [] rem)")
    case True
    with 1 show ?thesis by (simp add: kahn_loop.simps [of nodes rem] Let_def)
  next
    case False
    with "1.prems" kahn_pass_unchanged [of nodes "[]" rem] show ?thesis
      by (simp add: kahn_loop.simps [of nodes rem] Let_def)
  qed
qed

lemma kahn_loop_subset: "set (kahn_loop nodes rem) \<subseteq> set rem"
proof (induction nodes rem rule: kahn_loop.induct)
  case (1 nodes rem)
  then show ?case
    using kahn_pass_subset [of nodes "[]" rem]
    by (auto simp: kahn_loop.simps [of nodes rem] Let_def)
qed

lemma kahn_loop_Nil_iff:
  assumes dist: "distinct (map d_id nodes)" and rem: "set rem = d_id ` set nodes"
    and closed: "fst ` dep_edges nodes \<subseteq> d_id ` set nodes"
  shows "kahn_loop nodes rem = [] \<longleftrightarrow> acyclic (dep_edges nodes)"
proof
  assume empty: "kahn_loop nodes rem = []"
  show "acyclic (dep_edges nodes)"
  proof (rule acyclicI, rule allI, rule notI)
    fix x assume x: "(x, x) \<in> (dep_edges nodes)\<^sup>+"
    define C where "C = {y. (x, y) \<in> (dep_edges nodes)\<^sup>+ \<and> (y, x) \<in> (dep_edges nodes)\<^sup>*}"
    have step: "\<exists>d\<in>C. (d, i) \<in> dep_edges nodes" if "i \<in> C" for i
    proof -
      from that have "(x, i) \<in> (dep_edges nodes)\<^sup>+" and ix: "(i, x) \<in> (dep_edges nodes)\<^sup>*"
        by (auto simp: C_def)
      then obtain d where d: "(x, d) \<in> (dep_edges nodes)\<^sup>*" "(d, i) \<in> dep_edges nodes"
        by (meson tranclD2)
      have "(d, x) \<in> (dep_edges nodes)\<^sup>*"
        using d(2) ix by (rule converse_rtrancl_into_rtrancl)
      moreover have "(x, d) \<in> (dep_edges nodes)\<^sup>+"
        using x d(1) by (rule trancl_rtrancl_trancl)
      ultimately show ?thesis using d(2) by (auto simp: C_def)
    qed
    have "C \<subseteq> set rem"
    proof
      fix i assume "i \<in> C"
      then obtain d where "(d, i) \<in> dep_edges nodes" using step by blast
      then show "i \<in> set rem" unfolding rem dep_edges_def by auto
    qed
    then have "C \<subseteq> set (kahn_loop nodes rem)"
      using kahn_loop_keeps [of nodes rem C] dist rem step by simp
    moreover have "x \<in> C" using x by (simp add: C_def)
    ultimately show False using empty by simp
  qed
next
  assume ac: "acyclic (dep_edges nodes)"
  let ?R = "set (kahn_loop nodes rem)"
  have sub: "?R \<subseteq> d_id ` set nodes" using kahn_loop_subset [of nodes rem] rem by simp
  have "finite (dep_edges nodes)"
  proof (rule finite_subset)
    show "dep_edges nodes \<subseteq> (d_id ` set nodes) \<times> (d_id ` set nodes)"
      using closed by (force simp: dep_edges_def)
  qed simp
  then have wf: "wf (dep_edges nodes)"
    using ac by (rule finite_acyclic_wf)
  show "kahn_loop nodes rem = []"
  proof (rule ccontr)
    assume "kahn_loop nodes rem \<noteq> []"
    then obtain a where a: "a \<in> ?R" by (cases "kahn_loop nodes rem") auto
    from wfE_min [OF wf a] obtain z where z: "z \<in> ?R"
      and min: "\<And>y. (y, z) \<in> dep_edges nodes \<Longrightarrow> y \<notin> ?R" by blast
    have "deps_satisfied nodes (kahn_loop nodes rem) z"
      using deps_satisfied_iff [of nodes z "kahn_loop nodes rem"] dist min z sub by blast
    with kahn_loop_stuck [OF z] show False ..
  qed
qed

lemma validate_graph_iff: "validate_graph nodes known = [] \<longleftrightarrow> graph_ok nodes known"
proof -
  have errs: "node_errors nodes known [] nodes = [] \<longleftrightarrow>
      (\<forall>n\<in>set nodes. node_def_ok nodes known n) \<and> distinct (map d_id nodes)"
    using node_errors_Nil [of "[]" nodes nodes known] by simp
  have "kahn_loop nodes (initial_remaining [] nodes) = [] \<longleftrightarrow> acyclic (dep_edges nodes)"
    if ok: "\<forall>n\<in>set nodes. node_def_ok nodes known n" and "distinct (map d_id nodes)"
  proof (rule kahn_loop_Nil_iff)
    show "fst ` dep_edges nodes \<subseteq> d_id ` set nodes"
      using ok by (force simp: dep_edges_def node_def_ok_def)
  qed (use that set_initial_remaining [of "[]" nodes] in auto)
  with errs show ?thesis
    by (auto simp: validate_graph_def graph_ok_def Let_def)
qed

text \<open>
  C25. The validator accepts exactly the well-formed graphs: it reports no error iff every node
  has a legal id, a present and known agent and a non-blank task, depends on declared nodes
  other than itself, the ids are distinct and the dependency relation is acyclic.
\<close>

theorem validate_graph_correct: "validate_graph nodes known = [] \<longleftrightarrow> graph_ok nodes known"
  by (rule validate_graph_iff)

end
