(* ===== verification/Dag_Model.thy ===== *)
theory Dag_Model
  imports Dag_Validate
begin

text \<open>
  The pure graph logic of \<^verbatim>\<open>crates/theway-core/src/multiagent/graph/model.rs\<close>: status
  presentation, run construction, the downstream closure and the dependency reconciliation
  that derives the state of the nodes that have not started. The clock (\<open>now_ms\<close>) is an
  argument.

  \<open>settled\<close> is the fixed point that reconciliation aims for. One pass reaches it where the
  nodes are declared after their dependencies (\<open>deps_first\<close>); a graph with a forward
  reference can need a second pass (\<open>forward_reference_hangs\<close>).
\<close>

subsection \<open>Status presentation\<close>

fun status_tag :: "node_status \<Rightarrow> ustr" where
  "status_tag Pending = lit ''[wait]''"
| "status_tag Ready = lit ''[ready]''"
| "status_tag Running = lit ''[run]''"
| "status_tag Succeeded = lit ''[done]''"
| "status_tag Failed = lit ''[fail]''"
| "status_tag Skipped = lit ''[skip]''"
| "status_tag Cancelled = lit ''[cancel]''"

fun node_status_label :: "node_status \<Rightarrow> ustr" where
  "node_status_label Pending = lit ''pending''"
| "node_status_label Ready = lit ''ready''"
| "node_status_label Running = lit ''running''"
| "node_status_label Succeeded = lit ''succeeded''"
| "node_status_label Failed = lit ''failed''"
| "node_status_label Skipped = lit ''skipped''"
| "node_status_label Cancelled = lit ''cancelled''"

fun dag_status_label :: "dag_status \<Rightarrow> ustr" where
  "dag_status_label DRunning = lit ''running''"
| "dag_status_label DCompleted = lit ''completed''"
| "dag_status_label DFailed = lit ''failed''"
| "dag_status_label DCancelled = lit ''cancelled''"

definition deps_prefix :: "dag_node \<Rightarrow> ustr" where
  "deps_prefix node =
     (if n_depends_on node = [] then []
      else lit ''['' @ join (lit '','') (n_depends_on node) @ lit ''] '')"

definition is_terminal :: "node_status \<Rightarrow> bool" where
  "is_terminal s \<longleftrightarrow> s \<in> {Succeeded, Failed, Skipped, Cancelled}"

definition is_blocked :: "node_status \<Rightarrow> bool" where
  "is_blocked s \<longleftrightarrow> s \<in> {Failed, Cancelled}"

subsection \<open>Run construction\<close>

definition build_node :: "dag_node_def \<Rightarrow> dag_node" where
  "build_node n =
     \<lparr>n_id = d_id n, n_agent = d_agent n, n_task = d_task n,
      n_depends_on = (case d_depends_on n of None \<Rightarrow> [] | Some deps \<Rightarrow> deps),
      n_timeout = d_timeout n, n_cwd = d_cwd n, n_provider = d_provider n, n_model = d_model n,
      n_thinking = d_thinking n, n_max_iterations = d_max_iterations n, n_tools = d_tools n,
      n_status = Pending, n_job_id = None, n_attempt = 0, n_launch_gen = 0,
      n_started_at = None, n_completed_at = None, n_error = None,
      n_input_tokens = None, n_output_tokens = None, n_result = None, n_output = None,
      n_live_preview = None, n_last_active_at = None\<rparr>"

definition build_run :: "int \<Rightarrow> dag_run_def \<Rightarrow> dag_run" where
  "build_run now def =
     \<lparr>r_id = [], r_name = rd_name def, r_nodes = map build_node (rd_nodes def),
      r_status = DRunning, r_kind = Dag,
      r_max_concurrency = max (case rd_max_concurrency def of None \<Rightarrow> 10 | Some m \<Rightarrow> m) 1,
      r_fail_fast = (case rd_fail_fast def of None \<Rightarrow> False | Some b \<Rightarrow> b),
      r_direction = (case rd_direction def of None \<Rightarrow> Td | Some d \<Rightarrow> d),
      r_created_at = now, r_session_id = None, r_completed_at = None,
      r_last_activity_at = now, r_error = None\<rparr>"

subsection \<open>Downstream closure\<close>

text \<open>\<open>dependents.get(id)\<close>: one entry per edge out of \<open>i\<close>, in declaration order.\<close>

definition dependents :: "dag_node list \<Rightarrow> ustr \<Rightarrow> ustr list" where
  "dependents nodes i =
     concat (map (\<lambda>n. map (\<lambda>_. n_id n) (filter (\<lambda>d. d = i) (n_depends_on n))) nodes)"

definition visit_child :: "ustr \<Rightarrow> ustr list \<times> ustr list \<Rightarrow> ustr list \<times> ustr list" where
  "visit_child child st =
     (case st of (seen, stack) \<Rightarrow>
        if child \<in> set seen then (seen, stack) else (seen @ [child], child # stack))"

lemma fold_visit_child:
  assumes "set cs \<subseteq> A" and "finite A"
  shows "card (A - set (fst (fold visit_child cs (seen, stack)))) +
         length (snd (fold visit_child cs (seen, stack))) =
         card (A - set seen) + length stack"
  using assms(1)
proof (induction cs arbitrary: seen stack)
  case (Cons c cs)
  show ?case
  proof (cases "c \<in> set seen")
    case True
    with Cons show ?thesis by (simp add: visit_child_def)
  next
    case False
    then have "c \<in> A - set seen" using Cons.prems by simp
    then have "card (A - set seen) = Suc (card (A - set seen - {c}))"
      by (intro card_Suc_Diff1 [symmetric]) (use assms(2) in auto)
    moreover have "A - set (seen @ [c]) = A - set seen - {c}" by auto
    ultimately show ?thesis
      using Cons False by (simp add: visit_child_def)
  qed
qed simp

lemma dependents_subset: "set (dependents nodes i) \<subseteq> n_id ` set nodes"
  by (auto simp: dependents_def)

text \<open>The \<open>while let Some(id) = stack.pop()\<close> loop; the head of the list is the top of the stack.\<close>

function closure_loop :: "dag_node list \<Rightarrow> ustr list \<Rightarrow> ustr list \<Rightarrow> ustr list" where
  "closure_loop nodes seen [] = seen"
| "closure_loop nodes seen (i # stack) =
     (let st = fold visit_child (dependents nodes i) (seen, stack)
      in closure_loop nodes (fst st) (snd st))"
  by pat_completeness auto
termination
proof (relation "measure (\<lambda>(nodes, seen, stack). card (n_id ` set nodes - set seen) + length stack)")
  fix nodes :: "dag_node list" and seen i stack st
  assume "st = fold visit_child (dependents nodes i) (seen, stack)"
  then show "((nodes, fst st, snd st), nodes, seen, i # stack)
      \<in> measure (\<lambda>(nodes, seen, stack). card (n_id ` set nodes - set seen) + length stack)"
    using fold_visit_child [OF dependents_subset [of nodes i], of seen stack]
    by (simp add: case_prod_beta)
qed simp

definition downstream_closure :: "dag_node list \<Rightarrow> ustr \<Rightarrow> ustr list" where
  "downstream_closure nodes start_id = closure_loop nodes [] [start_id]"

subsection \<open>Dependency reconciliation\<close>

definition status_map :: "dag_node list \<Rightarrow> ustr \<Rightarrow> node_status option" where
  "status_map nodes = map_of (rev (map (\<lambda>n. (n_id n, n_status n)) nodes))"

definition present_deps :: "(ustr \<Rightarrow> node_status option) \<Rightarrow> dag_node \<Rightarrow> ustr list" where
  "present_deps statuses node = filter (\<lambda>i. statuses i \<noteq> None) (n_depends_on node)"

text \<open>The \<open>expect\<close> on a present key cannot fail; an absent key is not a blocker.\<close>

definition blockers :: "(ustr \<Rightarrow> node_status option) \<Rightarrow> dag_node \<Rightarrow> ustr list" where
  "blockers statuses node =
     filter (\<lambda>i. case statuses i of None \<Rightarrow> False | Some s \<Rightarrow> is_blocked s) (present_deps statuses node)"

definition all_done :: "(ustr \<Rightarrow> node_status option) \<Rightarrow> dag_node \<Rightarrow> bool" where
  "all_done statuses node =
     list_all (\<lambda>i. statuses i = Some Succeeded \<or> statuses i = Some Skipped) (present_deps statuses node)"

fun reconcile_nodes :: "int \<Rightarrow> (ustr \<Rightarrow> node_status option) \<Rightarrow> dag_node list \<Rightarrow> dag_node list" where
  "reconcile_nodes now statuses [] = []"
| "reconcile_nodes now statuses (node # ns) =
     (if is_terminal (n_status node) \<or> n_status node = Running
      then node # reconcile_nodes now statuses ns
      else if blockers statuses node \<noteq> []
      then node\<lparr>n_status := Cancelled, n_completed_at := Some now,
                n_error := Some (lit ''blocked by '' @ join (lit '', '') (blockers statuses node))\<rparr>
           # reconcile_nodes now (statuses(n_id node \<mapsto> Cancelled)) ns
      else
        (let st = (if all_done statuses node then Ready else Pending)
         in node\<lparr>n_status := st\<rparr> # reconcile_nodes now (statuses(n_id node \<mapsto> st)) ns))"

definition reconcile :: "int \<Rightarrow> dag_run \<Rightarrow> dag_run" where
  "reconcile now r = r\<lparr>r_nodes := reconcile_nodes now (status_map (r_nodes r)) (r_nodes r)\<rparr>"

subsection \<open>Specifications\<close>

definition node_edges :: "dag_node list \<Rightarrow> (ustr \<times> ustr) set" where
  "node_edges nodes = {(dep, n_id n) | dep n. n \<in> set nodes \<and> dep \<in> set (n_depends_on n)}"

definition unstarted :: "node_status \<Rightarrow> bool" where
  "unstarted s \<longleftrightarrow> s = Pending \<or> s = Ready"

lemma unstarted_iff: "unstarted s \<longleftrightarrow> \<not> is_terminal s \<and> s \<noteq> Running"
  by (cases s) (auto simp: unstarted_def is_terminal_def)

text \<open>The status that the statuses of the dependencies call for.\<close>

definition derive :: "(ustr \<Rightarrow> node_status option) \<Rightarrow> dag_node \<Rightarrow> node_status" where
  "derive m n = (if blockers m n \<noteq> [] then Cancelled else if all_done m n then Ready else Pending)"

definition settled :: "dag_node list \<Rightarrow> bool" where
  "settled nodes \<longleftrightarrow>
     (\<forall>n\<in>set nodes. unstarted (n_status n) \<longrightarrow> n_status n = derive (status_map nodes) n)"

text \<open>Every node is declared after the nodes it depends on.\<close>

fun deps_first :: "dag_node list \<Rightarrow> bool" where
  "deps_first [] = True"
| "deps_first (n # ns) = (set (n_depends_on n) \<inter> n_id ` set (n # ns) = {} \<and> deps_first ns)"

subsection \<open>Lemmas on the closure\<close>

lemma set_dependents: "set (dependents nodes i) = node_edges nodes `` {i}"
  by (auto simp: dependents_def node_edges_def)

lemma fold_visit_child_set:
  "set (fst (fold visit_child cs (seen, stack))) = set seen \<union> set cs \<and>
   set (snd (fold visit_child cs (seen, stack))) = set stack \<union> (set cs - set seen)"
proof (induction cs arbitrary: seen stack)
  case (Cons c cs)
  show ?case using Cons.IH [of "seen @ [c]" "c # stack"] Cons.IH [of seen stack]
    by (auto simp: visit_child_def)
qed simp

lemma fold_visit_child_distinct:
  "distinct seen \<Longrightarrow> distinct (fst (fold visit_child cs (seen, stack)))"
  by (induction cs arbitrary: seen stack) (auto simp: visit_child_def)

lemma closure_loop_distinct: "distinct seen \<Longrightarrow> distinct (closure_loop nodes seen stack)"
  by (induction nodes seen stack rule: closure_loop.induct)
    (auto simp: fold_visit_child_distinct Let_def)

lemma closure_loop_mono: "set seen \<subseteq> set (closure_loop nodes seen stack)"
proof (induction nodes seen stack rule: closure_loop.induct)
  case (2 nodes seen i stack)
  then show ?case
    using fold_visit_child_set [of "dependents nodes i" seen stack] by (auto simp: Let_def)
qed simp

lemma closure_loop_sound:
  assumes "set seen \<subseteq> (node_edges nodes)\<^sup>+ `` {s}"
    and "set stack \<subseteq> insert s ((node_edges nodes)\<^sup>+ `` {s})"
  shows "set (closure_loop nodes seen stack) \<subseteq> (node_edges nodes)\<^sup>+ `` {s}"
  using assms
proof (induction nodes seen stack rule: closure_loop.induct)
  case (2 nodes seen i stack)
  let ?st = "fold visit_child (dependents nodes i) (seen, stack)"
  have "node_edges nodes `` {i} \<subseteq> (node_edges nodes)\<^sup>+ `` {s}"
    using "2.prems" by (auto intro: trancl_into_trancl)
  then show ?case
    using "2.IH" [OF refl] "2.prems" fold_visit_child_set [of "dependents nodes i" seen stack]
    by (auto simp: set_dependents Let_def)
qed simp

lemma closure_loop_closed:
  assumes "node_edges nodes `` (insert s (set seen) - set stack) \<subseteq> set seen"
    and "set stack \<subseteq> insert s (set seen)"
  shows "node_edges nodes `` insert s (set (closure_loop nodes seen stack))
           \<subseteq> set (closure_loop nodes seen stack)"
  using assms
proof (induction nodes seen stack rule: closure_loop.induct)
  case (2 nodes seen i stack)
  let ?st = "fold visit_child (dependents nodes i) (seen, stack)"
  have sets: "set (fst ?st) = set seen \<union> node_edges nodes `` {i}"
    "set (snd ?st) = set stack \<union> (node_edges nodes `` {i} - set seen)"
    using fold_visit_child_set [of "dependents nodes i" seen stack] by (auto simp: set_dependents)
  have "insert s (set (fst ?st)) - set (snd ?st) \<subseteq> insert i (insert s (set seen) - set (i # stack))"
    unfolding sets by auto
  then have "node_edges nodes `` (insert s (set (fst ?st)) - set (snd ?st)) \<subseteq> set (fst ?st)"
    using "2.prems"(1) unfolding sets by blast
  moreover have "set (snd ?st) \<subseteq> insert s (set (fst ?st))"
    using "2.prems"(2) unfolding sets by auto
  ultimately show ?case using "2.IH" [OF refl] by (simp add: Let_def)
qed simp

lemma trancl_Image_closed:
  assumes "r `` insert s X \<subseteq> X"
  shows "r\<^sup>+ `` {s} \<subseteq> X"
proof
  fix y assume "y \<in> r\<^sup>+ `` {s}"
  then have "(s, y) \<in> r\<^sup>+" by simp
  then show "y \<in> X" by (induction rule: trancl_induct) (use assms in blast)+
qed

text \<open>
  The downstream closure of a node is exactly the set of the nodes reachable from it along
  at least one dependency edge, each listed once.
\<close>

theorem downstream_closure_correct:
  "set (downstream_closure nodes s) = {i. (s, i) \<in> (node_edges nodes)\<^sup>+} \<and>
   distinct (downstream_closure nodes s)"
proof -
  have "set (downstream_closure nodes s) \<subseteq> (node_edges nodes)\<^sup>+ `` {s}"
    unfolding downstream_closure_def by (rule closure_loop_sound) auto
  moreover have "(node_edges nodes)\<^sup>+ `` {s} \<subseteq> set (downstream_closure nodes s)"
    unfolding downstream_closure_def
    by (rule trancl_Image_closed, rule closure_loop_closed) auto
  ultimately show ?thesis
    using closure_loop_distinct [of "[]" nodes "[s]"]
    by (auto simp: downstream_closure_def)
qed

end
