(* ===== verification/Dag_Reconcile.thy ===== *)
theory Dag_Reconcile
  imports Dag_Model
begin

text \<open>
  Properties of \<open>reconcile\<close>: what a pass keeps, that it only readies nodes whose dependencies
  are done, that one pass settles a graph declared in dependency order and is idempotent there,
  and that a forward reference breaks both.
\<close>

subsection \<open>What a pass keeps\<close>

lemma reconcile_nodes_ids [simp]: "map n_id (reconcile_nodes now m ns) = map n_id ns"
  by (induction ns arbitrary: m) (auto simp: Let_def)

lemma reconcile_nodes_id_set [simp]: "n_id ` set (reconcile_nodes now m ns) = n_id ` set ns"
  by (metis reconcile_nodes_ids list.set_map)

lemma reconcile_simps [simp]:
  "r_id (reconcile now r) = r_id r"
  "r_status (reconcile now r) = r_status r"
  "r_kind (reconcile now r) = r_kind r"
  "r_max_concurrency (reconcile now r) = r_max_concurrency r"
  "r_fail_fast (reconcile now r) = r_fail_fast r"
  "r_created_at (reconcile now r) = r_created_at r"
  "r_session_id (reconcile now r) = r_session_id r"
  "r_error (reconcile now r) = r_error r"
  "map n_id (r_nodes (reconcile now r)) = map n_id (r_nodes r)"
  by (simp_all add: reconcile_def)

text \<open>
  Every node of the result comes from the node at its position; a node that has started is
  untouched, one that has not stays unstarted or becomes cancelled, and only its status, its
  completion time and its error change.
\<close>

definition reconciled_from :: "dag_node \<Rightarrow> dag_node \<Rightarrow> bool" where
  "reconciled_from n n' \<longleftrightarrow>
     (if unstarted (n_status n)
      then (unstarted (n_status n') \<or> n_status n' = Cancelled) \<and>
        n' = n\<lparr>n_status := n_status n', n_completed_at := n_completed_at n', n_error := n_error n'\<rparr>
      else n' = n)"

lemma reconcile_nodes_from: "list_all2 reconciled_from ns (reconcile_nodes now m ns)"
  by (induction ns arbitrary: m)
    (auto simp: reconciled_from_def unstarted_iff Let_def is_terminal_def)

declare reconcile_nodes.simps(2) [simp del]

lemma reconcile_nodes_started:
  "\<not> unstarted (n_status node) \<Longrightarrow>
   reconcile_nodes now m (node # ns) = node # reconcile_nodes now m ns"
  by (auto simp: reconcile_nodes.simps unstarted_iff)

lemma reconcile_from: "list_all2 reconciled_from (r_nodes r) (r_nodes (reconcile now r))"
  by (simp add: reconcile_def reconcile_nodes_from)

lemma reconciled_from_keep:
  assumes "reconciled_from n n'"
  shows "n_id n' = n_id n" and "n_depends_on n' = n_depends_on n" and "n_launch_gen n' = n_launch_gen n"
proof -
  have "n' = n \<or> (\<exists>s c e. n' = n\<lparr>n_status := s, n_completed_at := c, n_error := e\<rparr>)"
    using assms unfolding reconciled_from_def by (metis (full_types))
  then show "n_id n' = n_id n" and "n_depends_on n' = n_depends_on n"
    and "n_launch_gen n' = n_launch_gen n" by auto
qed

lemma reconciled_from_status:
  assumes "reconciled_from n n'"
  shows "n_status n' = Running \<longleftrightarrow> n_status n = Running"
    and "is_terminal (n_status n) \<Longrightarrow> n' = n"
    and "unstarted (n_status n') \<Longrightarrow> unstarted (n_status n)"
    and "n_status n = Running \<Longrightarrow> n' = n"
  using assms by (auto simp: reconciled_from_def unstarted_iff is_terminal_def split: if_splits)

lemma reconcile_node_orig:
  assumes "n' \<in> set (r_nodes (reconcile now r))"
  obtains n where "n \<in> set (r_nodes r)" and "reconciled_from n n'"
  using reconcile_from [of r now] assms by (metis list_all2_conv_all_nth in_set_conv_nth)

lemma reconcile_node_image:
  assumes "n \<in> set (r_nodes r)"
  obtains n' where "n' \<in> set (r_nodes (reconcile now r))" and "reconciled_from n n'"
  using reconcile_from [of r now] assms by (metis list_all2_conv_all_nth in_set_conv_nth)

lemma list_all2_filter_length:
  assumes "list_all2 R xs ys" and "\<And>x y. R x y \<Longrightarrow> P y \<longleftrightarrow> P x"
  shows "length (filter P ys) = length (filter P xs)"
  using assms by (induction rule: list_all2_induct) auto

lemma reconcile_running_count:
  "length (filter (\<lambda>n. n_status n = Running) (r_nodes (reconcile now r))) =
   length (filter (\<lambda>n. n_status n = Running) (r_nodes r))"
  by (rule list_all2_filter_length [OF reconcile_from]) (simp add: reconciled_from_status)

subsection \<open>The live status map\<close>

lemma status_map_None: "status_map nodes i = None \<longleftrightarrow> i \<notin> n_id ` set nodes"
  by (auto simp: status_map_def map_of_eq_None_iff image_image)

lemma status_map_in:
  "distinct (map n_id nodes) \<Longrightarrow> n \<in> set nodes \<Longrightarrow> status_map nodes (n_id n) = Some (n_status n)"
  unfolding status_map_def by (rule map_of_is_SomeI) (auto simp: rev_map [symmetric] comp_def)

lemma status_map_Some:
  "distinct (map n_id nodes) \<Longrightarrow>
   status_map nodes i = Some s \<longleftrightarrow> (\<exists>n\<in>set nodes. n_id n = i \<and> n_status n = s)"
proof -
  assume d: "distinct (map n_id nodes)"
  show ?thesis
  proof (cases "i \<in> n_id ` set nodes")
    case True
    then obtain x where x: "x \<in> set nodes" "n_id x = i" by auto
    have "n = x" if "n \<in> set nodes" "n_id n = i" for n
      using d x that unfolding distinct_map by (metis inj_onD)
    then show ?thesis using x status_map_in [OF d x(1)] by (metis option.inject)
  next
    case False
    then show ?thesis using status_map_None [of nodes i] by auto
  qed
qed

lemma status_map_Cons:
  "distinct (map n_id (n # ns)) \<Longrightarrow> status_map (n # ns) = (status_map ns)(n_id n \<mapsto> n_status n)"
proof (rule ext)
  fix i assume d: "distinct (map n_id (n # ns))"
  show "status_map (n # ns) i = ((status_map ns)(n_id n \<mapsto> n_status n)) i"
  proof (cases "status_map ns i")
    case None
    then show ?thesis
      using d status_map_None [of ns i] status_map_None [of "n # ns" i] status_map_in [of "n # ns" n]
      by auto
  next
    case (Some s)
    then obtain x where "x \<in> set ns" "n_id x = i" "n_status x = s"
      using d status_map_Some [of ns] by auto
    then show ?thesis
      using d Some status_map_in [of "n # ns" x] by (auto simp: image_iff)
  qed
qed

text \<open>The derived status looks at the statuses of the dependencies only.\<close>

lemma derive_cong:
  assumes "\<And>i. i \<in> set (n_depends_on n) \<Longrightarrow> m i = m' i" and "n_depends_on n = n_depends_on n'"
  shows "derive m n = derive m' n'" and "blockers m n = blockers m' n'" and "all_done m n = all_done m' n'"
proof -
  have p: "present_deps m n = present_deps m' n'"
    using assms unfolding present_deps_def by (auto intro: filter_cong)
  have sub: "set (present_deps m' n') \<subseteq> set (n_depends_on n)"
    using assms(2) by (auto simp: present_deps_def)
  show b: "blockers m n = blockers m' n'"
    unfolding blockers_def p by (rule filter_cong) (use assms sub in auto)
  show d: "all_done m n = all_done m' n'"
    unfolding all_done_def p using sub assms by (auto simp: list_all_iff subset_iff)
  show "derive m n = derive m' n'" unfolding derive_def b d ..
qed

text \<open>The unfolded step of a pass, with the derived status.\<close>

lemma reconcile_nodes_step:
  assumes "unstarted (n_status node)"
  obtains node' where "reconcile_nodes now m (node # ns) = node' # reconcile_nodes now (m(n_id node \<mapsto> derive m node)) ns"
    and "n_status node' = derive m node" and "n_id node' = n_id node" and "n_depends_on node' = n_depends_on node"
    and "derive m node \<noteq> Cancelled \<Longrightarrow> node' = node\<lparr>n_status := derive m node\<rparr>"
proof (cases "blockers m node = []")
  case True
  then have "reconcile_nodes now m (node # ns) =
      node\<lparr>n_status := derive m node\<rparr> # reconcile_nodes now (m(n_id node \<mapsto> derive m node)) ns"
    using assms by (simp add: reconcile_nodes.simps(2) unstarted_iff derive_def Let_def)
  then show ?thesis by (rule that) simp_all
next
  case False
  then have d: "derive m node = Cancelled" by (simp add: derive_def)
  have "reconcile_nodes now m (node # ns) =
      node\<lparr>n_status := Cancelled, n_completed_at := Some now,
           n_error := Some (lit ''blocked by '' @ join (lit '', '') (blockers m node))\<rparr>
      # reconcile_nodes now (m(n_id node \<mapsto> derive m node)) ns"
    using assms False unfolding d by (simp add: reconcile_nodes.simps(2) unstarted_iff)
  then show ?thesis by (rule that) (simp_all add: d)
qed

subsection \<open>Only nodes whose dependencies are done become ready\<close>

definition consistent :: "(ustr \<Rightarrow> node_status option) \<Rightarrow> dag_node list \<Rightarrow> bool" where
  "consistent m ns \<longleftrightarrow> (\<forall>n\<in>set ns. m (n_id n) = Some (n_status n))"

lemma consistent_upd:
  "consistent m (n # ns) \<Longrightarrow> distinct (map n_id (n # ns)) \<Longrightarrow> consistent (m(n_id n := v)) ns"
  by (auto simp: consistent_def image_iff)

lemma all_done_iff:
  "all_done m n \<longleftrightarrow> (\<forall>i\<in>set (n_depends_on n). m i \<in> {None, Some Succeeded, Some Skipped})"
  by (auto simp: all_done_def present_deps_def list_all_iff)

lemma reconcile_nodes_done_kept:
  assumes "m i \<in> {None, Some Succeeded, Some Skipped}" and "consistent m ns" and "distinct (map n_id ns)"
    and "n' \<in> set (reconcile_nodes now m ns)" and "n_id n' = i"
  shows "n_status n' = Succeeded \<or> n_status n' = Skipped"
  using assms
proof (induction ns arbitrary: m)
  case (Cons n ns)
  have cons: "consistent (m(n_id n := v)) ns" for v
    using Cons.prems(2,3) by (rule consistent_upd)
  have other: "n_id n \<noteq> i" if "n' \<in> set (reconcile_nodes now m' ns)" for m'
  proof -
    have "i \<in> n_id ` set ns"
      using that Cons.prems(5) reconcile_nodes_id_set [of now m' ns] by blast
    with Cons.prems(3) show ?thesis by auto
  qed
  show ?case
  proof (cases "unstarted (n_status n)")
    case False
    then consider "n' = n" | "n' \<in> set (reconcile_nodes now m ns)"
      using Cons.prems(4) by (auto simp: reconcile_nodes_started)
    then show ?thesis
    proof cases
      case 1
      then show ?thesis using Cons.prems(1,2,5) by (auto simp: consistent_def)
    next
      case 2
      have "consistent m ns" using Cons.prems(2) by (simp add: consistent_def)
      with 2 show ?thesis using Cons.IH Cons.prems(1,3,5) by simp
    qed
  next
    case True
    then obtain node' where step: "reconcile_nodes now m (n # ns) = node' # reconcile_nodes now (m(n_id n \<mapsto> derive m n)) ns"
      and i: "n_id node' = n_id n"
      by (rule reconcile_nodes_step)
    have "m (n_id n) \<notin> {None, Some Succeeded, Some Skipped}"
      using True Cons.prems(2) by (auto simp: consistent_def unstarted_def)
    then have tail: "n' \<in> set (reconcile_nodes now (m(n_id n \<mapsto> derive m n)) ns)"
      using Cons.prems(1,4,5) step i by auto
    have "(m(n_id n \<mapsto> derive m n)) i \<in> {None, Some Succeeded, Some Skipped}"
      using other [OF tail] Cons.prems(1) by simp
    then show ?thesis
      using cons _ tail Cons.prems(5) by (rule Cons.IH) (use Cons.prems(3) in simp)
  qed
qed simp

lemma reconcile_nodes_ready:
  assumes "distinct (map n_id ns)" and "n' \<in> set (reconcile_nodes now m ns)"
    and "n_status n' = Ready" and "d \<in> set (n_depends_on n')" and "consistent m ns"
  shows "m d \<in> {None, Some Succeeded, Some Skipped}"
  using assms
proof (induction ns arbitrary: m)
  case (Cons n ns)
  have cons: "consistent (m(n_id n := v)) ns" for v
    using Cons.prems(5,1) by (rule consistent_upd)
  show ?case
  proof (cases "unstarted (n_status n)")
    case False
    then have "n' \<in> set (reconcile_nodes now m ns)"
      using Cons.prems(2,3) by (auto simp: reconcile_nodes_started unstarted_def)
    moreover have "consistent m ns" using Cons.prems(5) by (simp add: consistent_def)
    ultimately show ?thesis using Cons.IH [of m] Cons.prems(1,3,4) by auto
  next
    case True
    then obtain node' where step: "reconcile_nodes now m (n # ns) = node' # reconcile_nodes now (m(n_id n \<mapsto> derive m n)) ns"
      and st: "n_status node' = derive m n" and deps: "n_depends_on node' = n_depends_on n"
      by (rule reconcile_nodes_step)
    show ?thesis
    proof (cases "n' = node'")
      case True
      then have "all_done m n" using st Cons.prems(3) by (auto simp: derive_def split: if_splits)
      then show ?thesis using True deps Cons.prems(4) by (auto simp: all_done_iff)
    next
      case False
      then have "n' \<in> set (reconcile_nodes now (m(n_id n \<mapsto> derive m n)) ns)"
        using Cons.prems(2) step by simp
      then have upd: "(m(n_id n \<mapsto> derive m n)) d \<in> {None, Some Succeeded, Some Skipped}"
        using Cons.prems(3,4) cons by (rule Cons.IH [rotated]) (use Cons.prems(1) in simp)
      have "derive m n \<noteq> Succeeded" "derive m n \<noteq> Skipped" by (auto simp: derive_def)
      then have "d \<noteq> n_id n" using upd by auto
      then show ?thesis using upd by simp
    qed
  qed
qed simp

lemma status_map_consistent: "distinct (map n_id ns) \<Longrightarrow> consistent (status_map ns) ns"
  by (simp add: consistent_def status_map_in)

text \<open>
  C5. Reconciliation only readies a node whose declared dependencies have all succeeded or been
  skipped: in the reconciled run, every node that a ready node depends on is done.
\<close>

theorem reconcile_ready_safe:
  assumes "distinct (map n_id (r_nodes r))"
    and "n \<in> set (r_nodes (reconcile now r))" and "n_status n = Ready"
    and "d \<in> set (r_nodes (reconcile now r))" and "n_id d \<in> set (n_depends_on n)"
  shows "n_status d = Succeeded \<or> n_status d = Skipped"
proof -
  let ?m = "status_map (r_nodes r)"
  have cons: "consistent ?m (r_nodes r)" using assms(1) by (rule status_map_consistent)
  have n: "n \<in> set (reconcile_nodes now ?m (r_nodes r))"
    and d: "d \<in> set (reconcile_nodes now ?m (r_nodes r))"
    using assms(2,4) by (simp_all add: reconcile_def)
  have "?m (n_id d) \<in> {None, Some Succeeded, Some Skipped}"
    by (rule reconcile_nodes_ready [OF assms(1) n assms(3,5) cons])
  then show ?thesis
    by (rule reconcile_nodes_done_kept [OF _ cons assms(1) d refl])
qed

subsection \<open>One pass settles a graph declared in dependency order\<close>

lemma deps_first_cong:
  "map n_id ns = map n_id ns' \<Longrightarrow> map n_depends_on ns = map n_depends_on ns' \<Longrightarrow> deps_first ns = deps_first ns'"
proof (induction ns arbitrary: ns')
  case (Cons n ns)
  then obtain n' ns'' where ns': "ns' = n' # ns''" by (cases ns') auto
  have "n_id ` set ns = n_id ` set ns''"
    using Cons.prems(1) ns' by (metis list.map(2) list.sel(3) list.set_map)
  then show ?case using Cons.IH [of ns''] Cons.prems ns' by simp
qed simp

lemma reconcile_nodes_deps [simp]: "map n_depends_on (reconcile_nodes now m ns) = map n_depends_on ns"
proof -
  have "list_all2 (\<lambda>n n'. n_depends_on n' = n_depends_on n) ns (reconcile_nodes now m ns)"
    using reconcile_nodes_from by (rule list_all2_mono) (rule reconciled_from_keep)
  then show ?thesis by (induction rule: list_all2_induct) auto
qed

lemma deps_first_reconcile [simp]: "deps_first (reconcile_nodes now m ns) = deps_first ns"
  by (rule deps_first_cong) simp_all

lemma reconcile_nodes_derive:
  assumes "deps_first ns" and "distinct (map n_id ns)" and "consistent m ns"
    and "n' \<in> set (reconcile_nodes now m ns)" and "unstarted (n_status n')"
  shows "n_status n' = derive (m ++ status_map (reconcile_nodes now m ns)) n'"
  using assms
proof (induction ns arbitrary: m)
  case (Cons n ns)
  have dist: "distinct (map n_id (n # reconcile_nodes now m' ns))" for m'
    using Cons.prems(2) by simp
  have fresh: "n_id n \<notin> dom (status_map (reconcile_nodes now m' ns))" for m'
    using Cons.prems(2) by (simp add: domIff status_map_None)
  show ?case
  proof (cases "unstarted (n_status n)")
    case False
    then have step: "reconcile_nodes now m (n # ns) = n # reconcile_nodes now m ns"
      by (rule reconcile_nodes_started)
    have cons: "consistent m ns" and mn: "m (n_id n) = Some (n_status n)"
      using Cons.prems(3) by (simp_all add: consistent_def)
    have "m ++ status_map (n # reconcile_nodes now m ns) = m(n_id n \<mapsto> n_status n) ++ status_map (reconcile_nodes now m ns)"
      using fresh [of m] by (simp add: status_map_Cons [OF dist] map_add_upd_left)
    also have "\<dots> = m ++ status_map (reconcile_nodes now m ns)"
      using mn by (simp add: fun_upd_idem)
    finally have eq: "m ++ status_map (n # reconcile_nodes now m ns) = m ++ status_map (reconcile_nodes now m ns)" .
    have "n' \<in> set (reconcile_nodes now m ns)"
      using Cons.prems(4,5) False step by auto
    then show ?thesis
      unfolding step eq using Cons.IH [OF _ _ cons] Cons.prems(1,2,5) by simp
  next
    case True
    let ?m = "m(n_id n \<mapsto> derive m n)"
    from True obtain node' where step: "reconcile_nodes now m (n # ns) = node' # reconcile_nodes now ?m ns"
      and st: "n_status node' = derive m n" and i: "n_id node' = n_id n" and deps: "n_depends_on node' = n_depends_on n"
      by (rule reconcile_nodes_step)
    have d': "distinct (map n_id (node' # reconcile_nodes now ?m ns))"
      using dist [of ?m] i by simp
    have eq: "m ++ status_map (node' # reconcile_nodes now ?m ns) = ?m ++ status_map (reconcile_nodes now ?m ns)"
      using fresh [of ?m] by (simp add: status_map_Cons [OF d'] st i map_add_upd_left)
    have cons: "consistent ?m ns" using Cons.prems(3,2) by (rule consistent_upd)
    show ?thesis
    proof (cases "n' \<in> set (reconcile_nodes now ?m ns)")
      case True
      then show ?thesis
        unfolding step eq using Cons.IH [OF _ _ cons True Cons.prems(5)] Cons.prems(1,2)
        by (simp del: fun_upd_apply)
    next
      case False
      then have n': "n' = node'" using Cons.prems(4) step by simp
      have "derive m n = derive (?m ++ status_map (reconcile_nodes now ?m ns)) node'"
      proof (rule derive_cong(1) [OF _ deps [symmetric]])
        fix j assume "j \<in> set (n_depends_on n)"
        then have "j \<notin> n_id ` set ns" and "j \<noteq> n_id n"
          using Cons.prems(1) by auto
        then show "m j = (?m ++ status_map (reconcile_nodes now ?m ns)) j"
          using status_map_None [of "reconcile_nodes now ?m ns" j] by (simp add: map_add_def)
      qed
      then show ?thesis unfolding step eq n' st .
    qed
  qed
qed simp

lemma status_map_reconcile_add:
  "status_map ns ++ status_map (reconcile_nodes now m ns) = status_map (reconcile_nodes now m ns)"
proof (rule ext)
  fix i
  show "(status_map ns ++ status_map (reconcile_nodes now m ns)) i = status_map (reconcile_nodes now m ns) i"
    using status_map_None [of ns i] status_map_None [of "reconcile_nodes now m ns" i]
    by (cases "status_map (reconcile_nodes now m ns) i") (auto simp: map_add_def)
qed

lemma reconcile_settles:
  assumes "deps_first (r_nodes r)" and "distinct (map n_id (r_nodes r))"
  shows "settled (r_nodes (reconcile now r))"
  unfolding settled_def reconcile_def
  using reconcile_nodes_derive [OF assms status_map_consistent [OF assms(2)]]
  by (simp add: status_map_reconcile_add)

lemma reconcile_nodes_settled:
  assumes "\<And>n. n \<in> set ns \<Longrightarrow> unstarted (n_status n) \<Longrightarrow> n_status n = derive m n" and "consistent m ns"
    and "distinct (map n_id ns)"
  shows "reconcile_nodes now m ns = ns"
  using assms
proof (induction ns)
  case (Cons n ns)
  have cons: "consistent m ns" using Cons.prems(2) by (simp add: consistent_def)
  show ?case
  proof (cases "unstarted (n_status n)")
    case False
    then show ?thesis using Cons cons by (simp add: reconcile_nodes_started)
  next
    case True
    then have d: "derive m n = n_status n" "derive m n \<noteq> Cancelled"
      using Cons.prems(1) [of n] by (auto simp: unstarted_def)
    obtain node' where "reconcile_nodes now m (n # ns) = node' # reconcile_nodes now (m(n_id n \<mapsto> derive m n)) ns"
      and "node' = n\<lparr>n_status := derive m n\<rparr>"
      using reconcile_nodes_step [OF True, of now m ns] d(2) by metis
    moreover have "m(n_id n \<mapsto> n_status n) = m"
      using Cons.prems(2) by (intro fun_upd_idem) (simp add: consistent_def)
    ultimately show ?thesis using Cons cons d by simp
  qed
qed simp

lemma reconcile_settled_id:
  assumes "settled (r_nodes r)" and "distinct (map n_id (r_nodes r))"
  shows "reconcile now r = r"
  using reconcile_nodes_settled [of "r_nodes r" "status_map (r_nodes r)" now]
    assms status_map_consistent [OF assms(2)]
  by (simp add: reconcile_def settled_def)

text \<open>
  Reconciliation is idempotent on a run whose nodes are declared after their dependencies:
  a second pass, at any later time, changes nothing.
\<close>

theorem reconcile_idempotent:
  assumes "deps_first (r_nodes r)" and "distinct (map n_id (r_nodes r))"
  shows "reconcile now' (reconcile now r) = reconcile now r"
  by (rule reconcile_settled_id)
    (use reconcile_settles [OF assms] assms(2) in \<open>simp_all add: reconcile_def\<close>)

end
