(* ===== verification/Dag_Persist.thy ===== *)
theory Dag_Persist
  imports Dag_Model
begin

text \<open>
  The persistence boundary of DAG runs,
  \<^verbatim>\<open>crates/theway-core/src/multiagent/graph/persist.rs\<close>: the projection of a run to its
  persisted form, the rebuilding of a run from it, and the counter that keeps run ids unique
  over a restart. The functions are pure; who writes the snapshots is not modelled here.
\<close>

subsection \<open>Projection and rebuilding\<close>

definition to_persisted_node :: "dag_node \<Rightarrow> persisted_node" where
  "to_persisted_node n =
     \<lparr>pn_id = n_id n, pn_agent = n_agent n, pn_task = n_task n, pn_depends_on = n_depends_on n,
      pn_timeout = n_timeout n, pn_cwd = n_cwd n, pn_provider = n_provider n, pn_model = n_model n,
      pn_thinking = n_thinking n, pn_max_iterations = n_max_iterations n, pn_tools = n_tools n,
      pn_status = n_status n, pn_attempt = n_attempt n, pn_started_at = n_started_at n,
      pn_completed_at = n_completed_at n, pn_error = n_error n,
      pn_input_tokens = n_input_tokens n, pn_output_tokens = n_output_tokens n,
      pn_result = n_result n, pn_output = n_output n, pn_live_preview = n_live_preview n\<rparr>"

definition to_persisted :: "dag_run \<Rightarrow> persisted_run" where
  "to_persisted run =
     \<lparr>pr_id = r_id run, pr_name = r_name run, pr_max_concurrency = r_max_concurrency run,
      pr_fail_fast = r_fail_fast run, pr_direction = r_direction run,
      pr_created_at = r_created_at run, pr_session_id = r_session_id run, pr_kind = r_kind run,
      pr_nodes = map to_persisted_node (r_nodes run)\<rparr>"

definition hydrate_node :: "persisted_node \<Rightarrow> dag_node" where
  "hydrate_node n =
     (let was_running = (pn_status n = Running) in
      \<lparr>n_id = pn_id n, n_agent = pn_agent n, n_task = pn_task n, n_depends_on = pn_depends_on n,
       n_timeout = pn_timeout n, n_cwd = pn_cwd n, n_provider = pn_provider n, n_model = pn_model n,
       n_thinking = pn_thinking n, n_max_iterations = pn_max_iterations n, n_tools = pn_tools n,
       n_status = (if was_running then Ready else pn_status n),
       n_job_id = None, n_attempt = pn_attempt n, n_launch_gen = 0,
       n_started_at = (if was_running then None else pn_started_at n),
       n_completed_at = pn_completed_at n, n_error = pn_error n,
       n_input_tokens = pn_input_tokens n, n_output_tokens = pn_output_tokens n,
       n_result = pn_result n, n_output = pn_output n, n_live_preview = pn_live_preview n,
       n_last_active_at = None\<rparr>)"

definition hydrate :: "int \<Rightarrow> persisted_run \<Rightarrow> dag_run" where
  "hydrate now p =
     \<lparr>r_id = pr_id p, r_name = pr_name p, r_nodes = map hydrate_node (pr_nodes p),
      r_status = DRunning, r_kind = pr_kind p, r_max_concurrency = pr_max_concurrency p,
      r_fail_fast = pr_fail_fast p, r_direction = pr_direction p, r_created_at = pr_created_at p,
      r_session_id = pr_session_id p, r_completed_at = None, r_last_activity_at = now,
      r_error = None\<rparr>"

subsection \<open>Run id counters\<close>

definition dag_id :: "nat \<Rightarrow> ustr" where
  "dag_id k = lit ''dag-'' @ show_nat k"

definition goal_id :: "nat \<Rightarrow> ustr" where
  "goal_id k = lit ''goal-'' @ show_nat k"

definition run_counter_opt :: "ustr \<Rightarrow> nat option" where
  "run_counter_opt i = (case strip_prefix (lit ''dag-'') i of None \<Rightarrow> None | Some s \<Rightarrow> parse_u64 s)"

text \<open>\<open>filter_map\<close>, \<open>max\<close> and \<open>unwrap_or(0)\<close> over a slice of runs.\<close>

definition max_run_counter :: "dag_run list \<Rightarrow> nat" where
  "max_run_counter rs =
     (case List.map_filter (\<lambda>r. run_counter_opt (r_id r)) rs of
        [] \<Rightarrow> 0 | c # cs \<Rightarrow> foldl max c cs)"

lemma run_counter_dag_id: "k < 2 ^ 64 \<Longrightarrow> run_counter_opt (dag_id k) = Some k"
  by (simp add: run_counter_opt_def dag_id_def parse_show_nat)

lemma dag_id_inject [simp]: "dag_id j = dag_id k \<longleftrightarrow> j = k"
  by (simp add: dag_id_def)

lemma goal_id_inject [simp]: "goal_id j = goal_id k \<longleftrightarrow> j = k"
  by (simp add: goal_id_def)

lemma dag_id_goal_id [simp]: "dag_id j \<noteq> goal_id k" "goal_id k \<noteq> dag_id j"
  by (auto simp: dag_id_def goal_id_def lit_def)

lemma max_run_counter_single: "k < 2 ^ 64 \<Longrightarrow> r_id r = dag_id k \<Longrightarrow> max_run_counter [r] = k"
  by (simp add: max_run_counter_def run_counter_dag_id map_filter_def)

lemma max_run_counter_ge:
  assumes "r \<in> set rs" and "run_counter_opt (r_id r) = Some k"
  shows "k \<le> max_run_counter rs"
proof -
  have fold_ge: "y \<le> c \<or> y \<in> set cs \<Longrightarrow> y \<le> foldl max c cs" for y c and cs :: "nat list"
  proof (induction cs arbitrary: c)
    case (Cons a cs)
    have "y \<le> max c a \<or> y \<in> set cs" using Cons.prems by auto
    then show ?case using Cons.IH by simp
  qed simp
  have "k \<in> set (List.map_filter (\<lambda>r. run_counter_opt (r_id r)) rs)"
    using assms by (force simp: map_filter_def image_iff)
  then show ?thesis
    by (auto simp: max_run_counter_def split: list.splits intro: fold_ge)
qed

subsection \<open>Round trips\<close>

lemma hydrate_node_simps [simp]:
  "n_id (hydrate_node n) = pn_id n" "n_depends_on (hydrate_node n) = pn_depends_on n"
  "n_status (hydrate_node n) = (if pn_status n = Running then Ready else pn_status n)"
  by (simp_all add: hydrate_node_def Let_def)

lemma hydrate_simps [simp]:
  "r_id (hydrate now p) = pr_id p" "r_nodes (hydrate now p) = map hydrate_node (pr_nodes p)"
  "r_status (hydrate now p) = DRunning" "r_kind (hydrate now p) = pr_kind p"
  "r_max_concurrency (hydrate now p) = pr_max_concurrency p"
  by (simp_all add: hydrate_def)

lemma hydrate_no_running: "n \<in> set (r_nodes (hydrate now p)) \<Longrightarrow> n_status n \<noteq> Running"
  by (auto split: if_splits)

text \<open>What a restart does to a node: its job is gone, so a running node is ready again.\<close>

definition restarted_node :: "dag_node \<Rightarrow> dag_node" where
  "restarted_node n =
     n\<lparr>n_status := (if n_status n = Running then Ready else n_status n),
       n_started_at := (if n_status n = Running then None else n_started_at n),
       n_job_id := None, n_launch_gen := 0, n_last_active_at := None\<rparr>"

text \<open>
  A restart keeps a run: rebuilding a run from its snapshot gives back every field of the
  run and of its nodes, except that running nodes are ready to start again, the job data is
  dropped, and the run is running with a fresh activity clock and no error.
\<close>

theorem hydrate_to_persisted:
  "hydrate now (to_persisted r) =
     r\<lparr>r_nodes := map restarted_node (r_nodes r), r_status := DRunning, r_completed_at := None,
       r_last_activity_at := now, r_error := None\<rparr>"
proof -
  have "hydrate_node (to_persisted_node n) = restarted_node n" for n
    by (cases n) (simp add: hydrate_node_def to_persisted_node_def restarted_node_def)
  then show ?thesis
    by (cases r) (simp add: hydrate_def to_persisted_def)
qed

text \<open>
  Saving a restored run writes the snapshot it came from, up to the demotion of running nodes;
  from then on the round trip is exact.
\<close>

lemma to_persisted_hydrate:
  "to_persisted (hydrate now p) = p\<lparr>pr_nodes := map (\<lambda>n. to_persisted_node (hydrate_node n)) (pr_nodes p)\<rparr>"
  by (cases p) (simp add: to_persisted_def hydrate_def)

lemma to_persisted_hydrate_node:
  "pn_status n \<noteq> Running \<Longrightarrow> to_persisted_node (hydrate_node n) = n"
  by (cases n) (simp add: to_persisted_node_def hydrate_node_def)

lemma to_persisted_hydrate_stable:
  "to_persisted (hydrate now' (to_persisted (hydrate now p))) = to_persisted (hydrate now p)"
proof -
  have "pn_status (to_persisted_node (hydrate_node n)) \<noteq> Running" for n
    by (simp add: to_persisted_node_def)
  then show ?thesis
    by (simp add: to_persisted_hydrate to_persisted_hydrate_node comp_def)
qed

end
