(* ===== verification/Observability.thy ===== *)
theory Observability
  imports Json
begin

text \<open>
  Runtime observations, \<^verbatim>\<open>crates/theway-core/src/observability.rs\<close>: the vocabulary of operation
  kinds, outcomes and error categories, and the life cycle of an \<open>OperationScope\<close>.

  The process-wide id counter, the monotonic clock, the opt-in flag of the observer and the
  log of everything dispatched to it form the state \<open>obs\<close>. An observer is code of the embedder;
  \<open>dispatch\<close> swallows its panics, so all that the program can depend on is what was sent.

  \<open>obs_wf\<close> is the contract of the log: ids are never reused, a finish follows its start, and an
  operation finishes at most once.
\<close>

subsection \<open>Vocabulary\<close>

datatype operation_kind =
    KAgentRun | KTurn | KLlmRequest | KToolExecution | KCompaction | KSubagentJob | KDagRun | KDagNode

fun operation_kind_str :: "operation_kind \<Rightarrow> ustr" where
  "operation_kind_str KAgentRun = lit ''agent.run''"
| "operation_kind_str KTurn = lit ''agent.turn''"
| "operation_kind_str KLlmRequest = lit ''llm.request''"
| "operation_kind_str KToolExecution = lit ''tool.execute''"
| "operation_kind_str KCompaction = lit ''session.compaction''"
| "operation_kind_str KSubagentJob = lit ''multiagent.job''"
| "operation_kind_str KDagRun = lit ''dag.run''"
| "operation_kind_str KDagNode = lit ''dag.node''"

datatype operation_outcome =
    OSucceeded | OFailed | OCancelled | OInterrupted | OTimedOut | OSkipped | OAbandoned

fun operation_outcome_str :: "operation_outcome \<Rightarrow> ustr" where
  "operation_outcome_str OSucceeded = lit ''succeeded''"
| "operation_outcome_str OFailed = lit ''failed''"
| "operation_outcome_str OCancelled = lit ''cancelled''"
| "operation_outcome_str OInterrupted = lit ''interrupted''"
| "operation_outcome_str OTimedOut = lit ''timed_out''"
| "operation_outcome_str OSkipped = lit ''skipped''"
| "operation_outcome_str OAbandoned = lit ''abandoned''"

datatype error_category =
    EProvider | ETool | EPermission | EPersistence | EValidation | ETimeout | ECancellation | ERuntime

fun error_category_str :: "error_category \<Rightarrow> ustr" where
  "error_category_str EProvider = lit ''provider''"
| "error_category_str ETool = lit ''tool''"
| "error_category_str EPermission = lit ''permission''"
| "error_category_str EPersistence = lit ''persistence''"
| "error_category_str EValidation = lit ''validation''"
| "error_category_str ETimeout = lit ''timeout''"
| "error_category_str ECancellation = lit ''cancellation''"
| "error_category_str ERuntime = lit ''runtime''"

record observation_context =
  oc_session_id :: "ustr option"
  oc_run_id :: "ustr option"
  oc_turn_id :: "nat option"
  oc_job_id :: "ustr option"
  oc_node_id :: "ustr option"

definition default_context :: observation_context where
  "default_context =
     \<lparr>oc_session_id = None, oc_run_id = None, oc_turn_id = None, oc_job_id = None, oc_node_id = None\<rparr>"

definition with_turn :: "observation_context \<Rightarrow> nat \<Rightarrow> observation_context" where
  "with_turn c turn = c\<lparr>oc_turn_id := Some turn\<rparr>"

definition with_graph ::
  "observation_context \<Rightarrow> ustr option \<Rightarrow> ustr option \<Rightarrow> ustr option \<Rightarrow> observation_context" where
  "with_graph c run node job = c\<lparr>oc_run_id := run, oc_node_id := node, oc_job_id := job\<rparr>"

record measurements =
  m_input_tokens :: nat
  m_output_tokens :: nat
  m_cache_read_tokens :: nat
  m_cache_write_tokens :: nat
  m_characters :: nat
  m_turns :: nat
  m_tool_calls :: nat

definition default_measurements :: measurements where
  "default_measurements =
     \<lparr>m_input_tokens = 0, m_output_tokens = 0, m_cache_read_tokens = 0, m_cache_write_tokens = 0,
      m_characters = 0, m_turns = 0, m_tool_calls = 0\<rparr>"

datatype operation_detail =
    DetAgentRun
  | DetTurn nat
  | DetLlmRequest ustr ustr
  | DetToolExecution ustr
  | DetCompaction ustr ustr ustr
  | DetSubagentJob ustr ustr
  | DetDagRun
  | DetDagNode

fun detail_kind :: "operation_detail \<Rightarrow> operation_kind" where
  "detail_kind DetAgentRun = KAgentRun"
| "detail_kind (DetTurn _) = KTurn"
| "detail_kind (DetLlmRequest _ _) = KLlmRequest"
| "detail_kind (DetToolExecution _) = KToolExecution"
| "detail_kind (DetCompaction _ _ _) = KCompaction"
| "detail_kind (DetSubagentJob _ _) = KSubagentJob"
| "detail_kind DetDagRun = KDagRun"
| "detail_kind DetDagNode = KDagNode"

record observation_content =
  ct_input :: "json option"
  ct_output :: "json option"

datatype runtime_observation =
    OperationStarted nat "nat option" observation_context operation_detail
      \<comment> \<open>id, parent, context, detail\<close>
  | OperationFinished nat operation_kind observation_context operation_outcome
      "error_category option" nat measurements "observation_content option"
      \<comment> \<open>id, kind, context, outcome, category, duration, measurements, content\<close>

subsection \<open>Scopes\<close>

record obs =
  o_next :: nat
  o_instant :: nat
  o_include_content :: bool
  o_log :: "runtime_observation list"

record scope =
  sc_id :: nat
  sc_kind :: operation_kind
  sc_context :: observation_context
  sc_started_at :: nat
  sc_finished :: bool
  sc_content :: "observation_content option"

definition dispatch :: "runtime_observation \<Rightarrow> obs \<Rightarrow> obs" where
  "dispatch ob obs = obs\<lparr>o_log := o_log obs @ [ob]\<rparr>"

definition scope_start ::
  "nat option \<Rightarrow> observation_context \<Rightarrow> operation_detail \<Rightarrow> obs \<Rightarrow> scope \<times> obs" where
  "scope_start parent ctx det obs =
     (let i = o_next obs;
          obs1 = dispatch (OperationStarted i parent ctx det) (obs\<lparr>o_next := i + 1\<rparr>)
      in (\<lparr>sc_id = i, sc_kind = detail_kind det, sc_context = ctx, sc_started_at = o_instant obs1,
           sc_finished = False, sc_content = None\<rparr>, obs1))"

definition attach_content :: "observation_content \<Rightarrow> scope \<Rightarrow> scope" where
  "attach_content c sc = sc\<lparr>sc_content := Some c\<rparr>"

definition emit_finish ::
  "operation_outcome \<Rightarrow> error_category option \<Rightarrow> measurements \<Rightarrow> scope \<Rightarrow> obs \<Rightarrow> scope \<times> obs" where
  "emit_finish out cat ms sc obs =
     (if sc_finished sc then (sc, obs)
      else (sc\<lparr>sc_finished := True, sc_content := None\<rparr>,
            dispatch (OperationFinished (sc_id sc) (sc_kind sc) (sc_context sc) out cat
              (o_instant obs - sc_started_at sc) ms (sc_content sc)) obs))"

text \<open>\<open>Drop for OperationScope\<close>.\<close>

definition scope_drop :: "scope \<Rightarrow> obs \<Rightarrow> obs" where
  "scope_drop sc obs = snd (emit_finish OAbandoned (Some ERuntime) default_measurements sc obs)"

text \<open>\<open>finish\<close> consumes the scope, so its drop runs right after.\<close>

definition scope_finish ::
  "operation_outcome \<Rightarrow> error_category option \<Rightarrow> measurements \<Rightarrow> scope \<Rightarrow> obs \<Rightarrow> obs" where
  "scope_finish out cat ms sc obs =
     (let (sc', obs') = emit_finish out cat ms sc obs in scope_drop sc' obs')"

subsection \<open>The contract of the log\<close>

definition started_ids :: "runtime_observation list \<Rightarrow> nat list" where
  "started_ids log = List.map_filter (\<lambda>ob. case ob of OperationStarted i _ _ _ \<Rightarrow> Some i | _ \<Rightarrow> None) log"

definition finished_ids :: "runtime_observation list \<Rightarrow> nat list" where
  "finished_ids log =
     List.map_filter (\<lambda>ob. case ob of OperationFinished i _ _ _ _ _ _ _ \<Rightarrow> Some i | _ \<Rightarrow> None) log"

text \<open>
  The log is well formed with a list \<open>scs\<close> of open scopes: the scopes are the operations started
  and not yet finished, each once.
\<close>

definition obs_wf :: "scope list \<Rightarrow> obs \<Rightarrow> bool" where
  "obs_wf scs obs \<longleftrightarrow>
     distinct (started_ids (o_log obs)) \<and> distinct (finished_ids (o_log obs)) \<and>
     (\<forall>i\<in>set (started_ids (o_log obs)). i < o_next obs) \<and>
     distinct (map sc_id scs) \<and> (\<forall>sc\<in>set scs. \<not> sc_finished sc) \<and>
     set (started_ids (o_log obs)) = set (finished_ids (o_log obs)) \<union> sc_id ` set scs \<and>
     set (finished_ids (o_log obs)) \<inter> sc_id ` set scs = {}"

lemma log_ids_simps [simp]:
  "started_ids [] = []" "finished_ids [] = []"
  "started_ids (l @ [OperationStarted i p c d]) = started_ids l @ [i]"
  "finished_ids (l @ [OperationStarted i p c d]) = finished_ids l"
  "started_ids (l @ [OperationFinished i k c out cat n ms ct]) = started_ids l"
  "finished_ids (l @ [OperationFinished i k c out cat n ms ct]) = finished_ids l @ [i]"
  by (simp_all add: started_ids_def finished_ids_def map_filter_def)

lemma scope_start_wf:
  assumes "obs_wf scs obs" and "scope_start parent ctx det obs = (sc, obs')"
  shows "obs_wf (sc # scs) obs'"
proof -
  have "o_next obs \<notin> set (started_ids (o_log obs))"
    using assms(1) by (auto simp: obs_wf_def)
  then show ?thesis
    using assms by (auto simp: obs_wf_def scope_start_def dispatch_def Let_def less_Suc_eq)
qed

lemma scope_finish_log:
  "\<not> sc_finished sc \<Longrightarrow>
   scope_finish out cat ms sc obs =
     dispatch (OperationFinished (sc_id sc) (sc_kind sc) (sc_context sc) out cat
       (o_instant obs - sc_started_at sc) ms (sc_content sc)) obs"
  by (simp add: scope_finish_def scope_drop_def emit_finish_def)

lemma scope_finish_wf:
  assumes "obs_wf (scs @ sc # scs') obs"
  shows "obs_wf (scs @ scs') (scope_finish out cat ms (sc\<lparr>sc_content := ct\<rparr>) obs)"
  using assms by (auto simp: obs_wf_def scope_finish_log dispatch_def)

text \<open>
  Finishing a scope reports exactly one end of its operation, whatever the scope held: a
  finish followed by the destructor does not report twice, and a scope that is dropped unfinished
  reports that it was abandoned, once.
\<close>

theorem scope_reports_once:
  "finished_ids (o_log (scope_finish out cat ms (fst (scope_start parent ctx det obs)) obs')) =
     finished_ids (o_log obs') @ [o_next obs] \<and>
   finished_ids (o_log (scope_drop (fst (scope_start parent ctx det obs)) obs')) =
     finished_ids (o_log obs') @ [o_next obs] \<and>
   scope_drop (fst (emit_finish out cat ms sc obs)) obs' = obs'"
  by (auto simp: scope_finish_log scope_start_def Let_def dispatch_def scope_drop_def emit_finish_def)

end
