(* ===== verification/Dag_Engine_State.thy ===== *)
theory Dag_Engine_State
  imports Dag_Reconcile Dag_Persist Observability
begin

text \<open>
  The state of the DAG engine (\<open>DagEngine\<close>, \<open>EngineInner\<close>) with the helpers of
  \<^verbatim>\<open>crates/theway-core/src/multiagent/graph/engine_state.rs\<close>, the plumbing of \<^verbatim>\<open>engine.rs\<close>
  (launcher, event sender, persistence sink) and the observations of \<^verbatim>\<open>observability.rs\<close>.

  One record holds what the code keeps behind its locks. Hash maps are association lists
  (any iteration order). A cancellation token is a number, allocated from \<open>e_next_token\<close>;
  cancelling it puts the number in \<open>e_cancelled\<close>. The effects that leave the engine are
  recorded: the events sent, how often the sink was told that the state is dirty, and how
  often the waiters of a run were woken. \<open>e_clock\<close> is the reading of \<open>now_ms\<close>; one operation
  reads one value.

  A launcher is a parameter: a function of the run it reads from the engine, the run id and
  the node id. It has dispatched a job (which reports later, through \<open>on_node_completed\<close>),
  has reported an outcome synchronously, or has panicked.
\<close>

subsection \<open>State\<close>

record node_outcome =
  out_success :: bool
  out_error :: "ustr option"
  out_duration_ms :: nat
  out_attempt :: nat
  out_total_attempts :: nat
  out_input_tokens :: nat
  out_output_tokens :: nat
  out_output :: "ustr option"

datatype launch_result =
    Dispatched
  | Reported node_outcome
  | Panicked "ustr option" \<comment> \<open>the payload, where it is a string\<close>

type_synonym launcher = "dag_run option \<Rightarrow> ustr \<Rightarrow> ustr \<Rightarrow> launch_result"

record engine =
  e_runs :: "(ustr, dag_run) hmap"
  e_dag_counter :: nat
  e_goal_counter :: nat
  e_launcher :: "launcher option"
  e_session_launchers :: "(ustr option, launcher) hmap"
  e_jobs :: "(ustr \<times> ustr, nat) hmap"
  e_next_token :: nat
  e_cancelled :: "nat list"
  e_waiters :: "(ustr, nat) hmap"
  e_events :: bool
  e_emitted :: "dag_event list"
  e_sink :: bool
  e_dirty :: nat
  e_obs :: obs
  e_run_operations :: "(ustr, scope) hmap"
  e_node_operations :: "(ustr \<times> ustr, scope) hmap"
  e_clock :: int

definition new_engine :: "obs \<Rightarrow> int \<Rightarrow> engine" where
  "new_engine observer now =
     \<lparr>e_runs = [], e_dag_counter = 0, e_goal_counter = 0, e_launcher = None,
      e_session_launchers = [], e_jobs = [], e_next_token = 0, e_cancelled = [], e_waiters = [],
      e_events = False, e_emitted = [], e_sink = False, e_dirty = 0, e_obs = observer,
      e_run_operations = [], e_node_operations = [], e_clock = now\<rparr>"

definition get_run :: "engine \<Rightarrow> ustr \<Rightarrow> dag_run option" where
  "get_run e rid = hm_get (e_runs e) rid"

text \<open>An update through \<open>inner.runs.get_mut(run_id)\<close>.\<close>

definition set_run :: "ustr \<Rightarrow> dag_run \<Rightarrow> engine \<Rightarrow> engine" where
  "set_run rid r e = e\<lparr>e_runs := hm_put rid r (e_runs e)\<rparr>"

subsection \<open>Helpers of the state machine\<close>

definition emit_state :: "int \<Rightarrow> dag_run \<Rightarrow> dag_run" where
  "emit_state now r = r\<lparr>r_last_activity_at := now\<rparr>"

definition reset_node :: "dag_node \<Rightarrow> dag_node" where
  "reset_node n =
     n\<lparr>n_status := Pending, n_started_at := None, n_completed_at := None, n_error := None,
       n_job_id := None, n_result := None, n_attempt := 0, n_input_tokens := None,
       n_output_tokens := None\<rparr>"

definition push_unique :: "ustr \<Rightarrow> ustr list \<Rightarrow> ustr list" where
  "push_unique i ids = (if i \<in> set ids then ids else ids @ [i])"

definition run_counter :: "ustr \<Rightarrow> nat" where
  "run_counter i =
     (case strip_prefix (lit ''dag-'') i of
        None \<Rightarrow> 0
      | Some s \<Rightarrow> (case parse_u64 s of None \<Rightarrow> 0 | Some k \<Rightarrow> k))"

definition cap_chars :: "ustr \<Rightarrow> nat \<Rightarrow> ustr" where
  "cap_chars txt m = (if length txt \<le> m then txt else take m txt)"

definition panic_message :: "ustr option \<Rightarrow> ustr" where
  "panic_message payload = (case payload of Some s \<Rightarrow> s | None \<Rightarrow> lit ''launcher panicked'')"

definition or_default :: "ustr option \<Rightarrow> ustr" where
  "or_default s = (case s of None \<Rightarrow> [] | Some t \<Rightarrow> t)"

subsection \<open>Plumbing\<close>

definition set_launcher :: "launcher option \<Rightarrow> engine \<Rightarrow> engine" where
  "set_launcher l e = e\<lparr>e_launcher := l\<rparr>"

definition set_session_launcher :: "ustr option \<Rightarrow> launcher \<Rightarrow> engine \<Rightarrow> engine" where
  "set_session_launcher session l e = e\<lparr>e_session_launchers := hm_put session l (e_session_launchers e)\<rparr>"

definition set_event_sender :: "bool \<Rightarrow> engine \<Rightarrow> engine" where
  "set_event_sender tx e = e\<lparr>e_events := tx\<rparr>"

definition set_persist_sink :: "bool \<Rightarrow> engine \<Rightarrow> engine" where
  "set_persist_sink sink e = e\<lparr>e_sink := sink\<rparr>"

definition notify_persist :: "engine \<Rightarrow> engine" where
  "notify_persist e = (if e_sink e then e\<lparr>e_dirty := e_dirty e + 1\<rparr> else e)"

definition emit :: "dag_event \<Rightarrow> engine \<Rightarrow> engine" where
  "emit ev e = (if e_events e then e\<lparr>e_emitted := e_emitted e @ [ev]\<rparr> else e)"

definition wake_waiters :: "ustr \<Rightarrow> engine \<Rightarrow> engine" where
  "wake_waiters rid e =
     (case hm_get (e_waiters e) rid of
        None \<Rightarrow> e
      | Some k \<Rightarrow> e\<lparr>e_waiters := hm_put rid (k + 1) (e_waiters e)\<rparr>)"

definition pick_launcher :: "engine \<Rightarrow> ustr option \<Rightarrow> launcher option" where
  "pick_launcher e session =
     (case hm_get (e_session_launchers e) session of Some l \<Rightarrow> Some l | None \<Rightarrow> e_launcher e)"

subsection \<open>Observations\<close>

definition begin_run_observation :: "ustr \<Rightarrow> engine \<Rightarrow> engine" where
  "begin_run_observation rid e =
     (case get_run e rid of
        None \<Rightarrow> e
      | Some run \<Rightarrow>
          if hm_get (e_run_operations e) rid \<noteq> None then e
          else
            (let (sc, obs) = scope_start None
                   (default_context\<lparr>oc_session_id := r_session_id run, oc_run_id := Some rid\<rparr>)
                   DetDagRun (e_obs e)
             in e\<lparr>e_obs := obs, e_run_operations := hm_put rid sc (e_run_operations e)\<rparr>))"

definition run_operation_id :: "engine \<Rightarrow> ustr \<Rightarrow> nat option" where
  "run_operation_id e rid = map_option sc_id (hm_get (e_run_operations e) rid)"

definition begin_node_observation :: "ustr \<Rightarrow> ustr \<Rightarrow> engine \<Rightarrow> engine" where
  "begin_node_observation rid nid e =
     (case get_run e rid of
        None \<Rightarrow> e
      | Some run \<Rightarrow>
          if run_node run nid = None then e
          else
            (let e1 = begin_run_observation rid e;
                 parent = run_operation_id e1 rid
             in if hm_get (e_node_operations e1) (rid, nid) \<noteq> None then e1
                else
                  (let (sc, obs) = scope_start parent
                         (default_context\<lparr>oc_session_id := r_session_id run, oc_run_id := Some rid,
                                          oc_node_id := Some nid\<rparr>)
                         DetDagNode (e_obs e1)
                   in e1\<lparr>e_obs := obs,
                         e_node_operations := hm_put (rid, nid) sc (e_node_operations e1)\<rparr>)))"

definition node_operation_id :: "engine \<Rightarrow> ustr \<Rightarrow> ustr \<Rightarrow> nat option" where
  "node_operation_id e rid nid = map_option sc_id (hm_get (e_node_operations e) (rid, nid))"

text \<open>\<open>str::to_ascii_lowercase\<close> and \<open>str::contains\<close>.\<close>

definition to_ascii_lowercase :: "ustr \<Rightarrow> ustr" where
  "to_ascii_lowercase s = map (\<lambda>c. if 65 \<le> c \<and> c \<le> 90 then c + 32 else c) s"

fun str_contains :: "ustr \<Rightarrow> ustr \<Rightarrow> bool" where
  "str_contains [] p = (p = [])"
| "str_contains (c # cs) p = (starts_with (c # cs) p \<or> str_contains cs p)"

definition timed_out_error :: "dag_node option \<Rightarrow> bool" where
  "timed_out_error node =
     (case node of
        None \<Rightarrow> False
      | Some n \<Rightarrow>
          (case n_error n of
             None \<Rightarrow> False
           | Some message \<Rightarrow>
               str_contains (to_ascii_lowercase message) (lit ''timed out'') \<or>
               str_contains (to_ascii_lowercase message) (lit ''timeout'')))"

definition or_zero :: "nat option \<Rightarrow> nat" where
  "or_zero k = (case k of None \<Rightarrow> 0 | Some v \<Rightarrow> v)"

definition node_measurements :: "dag_node option \<Rightarrow> measurements" where
  "node_measurements node =
     (case node of
        None \<Rightarrow> default_measurements
      | Some n \<Rightarrow>
          default_measurements\<lparr>m_input_tokens := or_zero (n_input_tokens n),
            m_output_tokens := or_zero (n_output_tokens n),
            m_characters := (case n_output n of None \<Rightarrow> 0 | Some s \<Rightarrow> length s)\<rparr>)"

fun node_outcome_of :: "node_status \<Rightarrow> bool \<Rightarrow> operation_outcome \<times> error_category option" where
  "node_outcome_of Succeeded _ = (OSucceeded, None)"
| "node_outcome_of Failed timed_out =
     (if timed_out then (OTimedOut, Some ETimeout) else (OFailed, Some ERuntime))"
| "node_outcome_of Skipped _ = (OSkipped, None)"
| "node_outcome_of Cancelled _ = (OCancelled, Some ECancellation)"
| "node_outcome_of _ _ = (OAbandoned, Some ERuntime)"

definition node_content :: "dag_node \<Rightarrow> node_status \<Rightarrow> observation_content" where
  "node_content n status =
     \<lparr>ct_input = Some (JObj [(lit ''agent'', JStr (n_agent n)), (lit ''task'', JStr (n_task n)),
                             (lit ''provider'', json_opt (n_provider n)),
                             (lit ''model'', json_opt (n_model n))]),
      ct_output = Some (JObj [(lit ''status'', JStr (node_status_label status)),
                              (lit ''error'', json_opt (n_error n)),
                              (lit ''output'', json_opt (n_output n))])\<rparr>"

definition find_node :: "engine \<Rightarrow> ustr \<Rightarrow> ustr \<Rightarrow> dag_node option" where
  "find_node e rid nid = Option.bind (get_run e rid) (\<lambda>run. run_node run nid)"

definition finish_node_observation :: "ustr \<Rightarrow> ustr \<Rightarrow> node_status \<Rightarrow> engine \<Rightarrow> engine" where
  "finish_node_observation rid nid status e =
     (case hm_get (e_node_operations e) (rid, nid) of
        None \<Rightarrow> e
      | Some sc \<Rightarrow>
          (let node = find_node e rid nid;
               (outcome, category) = node_outcome_of status (timed_out_error node);
               sc1 = (case node of
                        Some n \<Rightarrow> if o_include_content (e_obs e)
                                  then attach_content (node_content n status) sc else sc
                      | None \<Rightarrow> sc)
           in e\<lparr>e_obs := scope_finish outcome category (node_measurements node) sc1 (e_obs e),
                e_node_operations := hm_del (rid, nid) (e_node_operations e)\<rparr>))"

definition run_measurements :: "dag_run option \<Rightarrow> measurements" where
  "run_measurements run =
     (case run of
        None \<Rightarrow> default_measurements
      | Some r \<Rightarrow>
          default_measurements\<lparr>
            m_input_tokens := sum_list (map (\<lambda>n. or_zero (n_input_tokens n)) (r_nodes r)),
            m_output_tokens := sum_list (map (\<lambda>n. or_zero (n_output_tokens n)) (r_nodes r))\<rparr>)"

fun run_outcome_of :: "dag_status \<Rightarrow> operation_outcome \<times> error_category option" where
  "run_outcome_of DCompleted = (OSucceeded, None)"
| "run_outcome_of DFailed = (OFailed, Some ERuntime)"
| "run_outcome_of DCancelled = (OCancelled, Some ECancellation)"
| "run_outcome_of DRunning = (OAbandoned, Some ERuntime)"

definition run_content :: "dag_run \<Rightarrow> dag_status \<Rightarrow> observation_content" where
  "run_content r status =
     \<lparr>ct_input = Some (JObj [(lit ''name'', JStr (r_name r)),
        (lit ''nodes'', JArr (map (\<lambda>n. JObj [(lit ''id'', JStr (n_id n)), (lit ''agent'', JStr (n_agent n)),
                                             (lit ''task'', JStr (n_task n))]) (r_nodes r)))]),
      ct_output = Some (JObj [(lit ''status'', JStr (dag_status_label status)),
                              (lit ''error'', json_opt (r_error r))])\<rparr>"

definition finish_run_observation :: "ustr \<Rightarrow> dag_status \<Rightarrow> engine \<Rightarrow> engine" where
  "finish_run_observation rid status e =
     (case hm_get (e_run_operations e) rid of
        None \<Rightarrow> e
      | Some sc \<Rightarrow>
          (let (outcome, category) = run_outcome_of status;
               sc1 = (case get_run e rid of
                        Some run \<Rightarrow> if o_include_content (e_obs e)
                                    then attach_content (run_content run status) sc else sc
                      | None \<Rightarrow> sc)
           in e\<lparr>e_obs := scope_finish outcome category (run_measurements (get_run e rid)) sc1 (e_obs e),
                e_run_operations := hm_del rid (e_run_operations e)\<rparr>))"

subsection \<open>Frames\<close>

text \<open>
  Events, wakes, dirty marks and observations leave the runs, the counters, the launchers, the
  jobs and the tokens alone.
\<close>

lemma emit_frame [simp]:
  "e_runs (emit ev e) = e_runs e"
  "e_dag_counter (emit ev e) = e_dag_counter e"
  "e_goal_counter (emit ev e) = e_goal_counter e"
  "e_launcher (emit ev e) = e_launcher e"
  "e_session_launchers (emit ev e) = e_session_launchers e"
  "e_jobs (emit ev e) = e_jobs e"
  "e_next_token (emit ev e) = e_next_token e"
  "e_cancelled (emit ev e) = e_cancelled e"
  "e_events (emit ev e) = e_events e"
  "e_sink (emit ev e) = e_sink e"
  "e_clock (emit ev e) = e_clock e"
  by (auto simp: emit_def)

lemma notify_persist_frame [simp]:
  "e_runs (notify_persist e) = e_runs e"
  "e_dag_counter (notify_persist e) = e_dag_counter e"
  "e_goal_counter (notify_persist e) = e_goal_counter e"
  "e_launcher (notify_persist e) = e_launcher e"
  "e_session_launchers (notify_persist e) = e_session_launchers e"
  "e_jobs (notify_persist e) = e_jobs e"
  "e_next_token (notify_persist e) = e_next_token e"
  "e_cancelled (notify_persist e) = e_cancelled e"
  "e_events (notify_persist e) = e_events e"
  "e_sink (notify_persist e) = e_sink e"
  "e_clock (notify_persist e) = e_clock e"
  by (auto simp: notify_persist_def)

lemma wake_waiters_frame [simp]:
  "e_runs (wake_waiters rid e) = e_runs e"
  "e_dag_counter (wake_waiters rid e) = e_dag_counter e"
  "e_goal_counter (wake_waiters rid e) = e_goal_counter e"
  "e_launcher (wake_waiters rid e) = e_launcher e"
  "e_session_launchers (wake_waiters rid e) = e_session_launchers e"
  "e_jobs (wake_waiters rid e) = e_jobs e"
  "e_next_token (wake_waiters rid e) = e_next_token e"
  "e_cancelled (wake_waiters rid e) = e_cancelled e"
  "e_events (wake_waiters rid e) = e_events e"
  "e_sink (wake_waiters rid e) = e_sink e"
  "e_clock (wake_waiters rid e) = e_clock e"
  by (auto simp: wake_waiters_def split: option.splits)

lemma begin_run_observation_frame [simp]:
  "e_runs (begin_run_observation rid e) = e_runs e"
  "e_dag_counter (begin_run_observation rid e) = e_dag_counter e"
  "e_goal_counter (begin_run_observation rid e) = e_goal_counter e"
  "e_launcher (begin_run_observation rid e) = e_launcher e"
  "e_session_launchers (begin_run_observation rid e) = e_session_launchers e"
  "e_jobs (begin_run_observation rid e) = e_jobs e"
  "e_next_token (begin_run_observation rid e) = e_next_token e"
  "e_cancelled (begin_run_observation rid e) = e_cancelled e"
  "e_events (begin_run_observation rid e) = e_events e"
  "e_sink (begin_run_observation rid e) = e_sink e"
  "e_clock (begin_run_observation rid e) = e_clock e"
  by (auto simp: begin_run_observation_def get_run_def Let_def scope_start_def split: option.splits)

lemma begin_node_observation_frame [simp]:
  "e_runs (begin_node_observation rid nid e) = e_runs e"
  "e_dag_counter (begin_node_observation rid nid e) = e_dag_counter e"
  "e_goal_counter (begin_node_observation rid nid e) = e_goal_counter e"
  "e_launcher (begin_node_observation rid nid e) = e_launcher e"
  "e_session_launchers (begin_node_observation rid nid e) = e_session_launchers e"
  "e_jobs (begin_node_observation rid nid e) = e_jobs e"
  "e_next_token (begin_node_observation rid nid e) = e_next_token e"
  "e_cancelled (begin_node_observation rid nid e) = e_cancelled e"
  "e_events (begin_node_observation rid nid e) = e_events e"
  "e_sink (begin_node_observation rid nid e) = e_sink e"
  "e_clock (begin_node_observation rid nid e) = e_clock e"
  by (auto simp: begin_node_observation_def get_run_def Let_def scope_start_def split: option.splits)

lemma finish_node_observation_frame [simp]:
  "e_runs (finish_node_observation rid nid st e) = e_runs e"
  "e_dag_counter (finish_node_observation rid nid st e) = e_dag_counter e"
  "e_goal_counter (finish_node_observation rid nid st e) = e_goal_counter e"
  "e_launcher (finish_node_observation rid nid st e) = e_launcher e"
  "e_session_launchers (finish_node_observation rid nid st e) = e_session_launchers e"
  "e_jobs (finish_node_observation rid nid st e) = e_jobs e"
  "e_next_token (finish_node_observation rid nid st e) = e_next_token e"
  "e_cancelled (finish_node_observation rid nid st e) = e_cancelled e"
  "e_events (finish_node_observation rid nid st e) = e_events e"
  "e_sink (finish_node_observation rid nid st e) = e_sink e"
  "e_clock (finish_node_observation rid nid st e) = e_clock e"
  by (auto simp: finish_node_observation_def Let_def split: option.splits prod.splits)

lemma finish_run_observation_frame [simp]:
  "e_runs (finish_run_observation rid rst e) = e_runs e"
  "e_dag_counter (finish_run_observation rid rst e) = e_dag_counter e"
  "e_goal_counter (finish_run_observation rid rst e) = e_goal_counter e"
  "e_launcher (finish_run_observation rid rst e) = e_launcher e"
  "e_session_launchers (finish_run_observation rid rst e) = e_session_launchers e"
  "e_jobs (finish_run_observation rid rst e) = e_jobs e"
  "e_next_token (finish_run_observation rid rst e) = e_next_token e"
  "e_cancelled (finish_run_observation rid rst e) = e_cancelled e"
  "e_events (finish_run_observation rid rst e) = e_events e"
  "e_sink (finish_run_observation rid rst e) = e_sink e"
  "e_clock (finish_run_observation rid rst e) = e_clock e"
  by (auto simp: finish_run_observation_def Let_def split: option.splits prod.splits)

lemma get_run_frame [simp]:
  "get_run (emit ev e) i = get_run e i"
  "get_run (notify_persist e) i = get_run e i"
  "get_run (wake_waiters rid e) i = get_run e i"
  "get_run (begin_run_observation rid e) i = get_run e i"
  "get_run (begin_node_observation rid nid e) i = get_run e i"
  "get_run (finish_node_observation rid nid st e) i = get_run e i"
  "get_run (finish_run_observation rid rst e) i = get_run e i"
  by (simp_all add: get_run_def)

lemma get_run_update [simp]:
  "get_run (e\<lparr>e_dag_counter := c\<rparr>) i = get_run e i" "get_run (e\<lparr>e_goal_counter := c\<rparr>) i = get_run e i"
  "get_run (e\<lparr>e_jobs := j\<rparr>) i = get_run e i" "get_run (e\<lparr>e_next_token := c\<rparr>) i = get_run e i"
  "get_run (e\<lparr>e_cancelled := l\<rparr>) i = get_run e i" "get_run (e\<lparr>e_waiters := w\<rparr>) i = get_run e i"
  "get_run (e\<lparr>e_clock := t\<rparr>) i = get_run e i"
  by (simp_all add: get_run_def)

lemma set_run_simps [simp]:
  "get_run (set_run rid r e) i = (if i = rid then Some r else get_run e i)"
  "e_runs (set_run rid r e) = hm_put rid r (e_runs e)"
  "e_dag_counter (set_run rid r e) = e_dag_counter e"
  "e_goal_counter (set_run rid r e) = e_goal_counter e"
  "e_launcher (set_run rid r e) = e_launcher e"
  "e_session_launchers (set_run rid r e) = e_session_launchers e"
  "e_jobs (set_run rid r e) = e_jobs e"
  "e_next_token (set_run rid r e) = e_next_token e"
  "e_cancelled (set_run rid r e) = e_cancelled e"
  "e_events (set_run rid r e) = e_events e"
  "e_sink (set_run rid r e) = e_sink e"
  "e_clock (set_run rid r e) = e_clock e"
  "e_obs (set_run rid r e) = e_obs e"
  "e_run_operations (set_run rid r e) = e_run_operations e"
  "e_node_operations (set_run rid r e) = e_node_operations e"
  "e_waiters (set_run rid r e) = e_waiters e"
  "e_emitted (set_run rid r e) = e_emitted e"
  "e_dirty (set_run rid r e) = e_dirty e"
  by (auto simp: set_run_def get_run_def)

lemma emit_state_simps [simp]:
  "r_id (emit_state now r) = r_id r" "r_nodes (emit_state now r) = r_nodes r"
  "r_status (emit_state now r) = r_status r" "r_kind (emit_state now r) = r_kind r"
  "r_max_concurrency (emit_state now r) = r_max_concurrency r"
  "r_fail_fast (emit_state now r) = r_fail_fast r" "r_error (emit_state now r) = r_error r"
  "r_session_id (emit_state now r) = r_session_id r" "r_created_at (emit_state now r) = r_created_at r"
  "r_completed_at (emit_state now r) = r_completed_at r"
  "run_node (emit_state now r) i = run_node r i"
  by (simp_all add: emit_state_def run_node_def)

lemma reset_node_simps [simp]:
  "n_id (reset_node n) = n_id n" "n_depends_on (reset_node n) = n_depends_on n"
  "n_status (reset_node n) = Pending"
  by (simp_all add: reset_node_def)

end
