(* ===== verification/Dag_Retention.thy ===== *)
theory Dag_Retention
  imports Dag_Engine_State
begin

text \<open>
  Retention of terminal runs,
  \<^verbatim>\<open>crates/theway-core/src/multiagent/graph/engine/retention.rs\<close>: at most
  \<open>MAX_TERMINAL_RUNS\<close> terminal runs stay per session, the oldest go first, running runs never go.
\<close>

definition MAX_TERMINAL_RUNS :: nat where
  "MAX_TERMINAL_RUNS = 50"

definition run_terminal :: "dag_status \<Rightarrow> bool" where
  "run_terminal s \<longleftrightarrow> s \<in> {DCompleted, DFailed, DCancelled}"

text \<open>The collected \<open>(created_at, id)\<close> pairs, in the iteration order of the map.\<close>

definition terminal_runs :: "engine \<Rightarrow> ustr option \<Rightarrow> (int \<times> ustr) list" where
  "terminal_runs e session =
     map (\<lambda>(i, run). (r_created_at run, i))
       (filter (\<lambda>(i, run). r_session_id run = session \<and> run_terminal (r_status run)) (e_runs e))"

definition remove_runs :: "ustr list \<Rightarrow> engine \<Rightarrow> engine" where
  "remove_runs ids e = e\<lparr>e_runs := fold hm_del ids (e_runs e)\<rparr>"

definition evict :: "ustr option \<Rightarrow> engine \<Rightarrow> ustr list \<times> engine" where
  "evict session e =
     (let terminal = terminal_runs e session;
          evicted = (if length terminal \<le> MAX_TERMINAL_RUNS then []
                     else map snd (take (length terminal - MAX_TERMINAL_RUNS) (sort_key fst terminal)));
          e1 = remove_runs evicted e
      in (evicted, if evicted \<noteq> [] then notify_persist e1 else e1))"

definition clear_session_runs :: "ustr option \<Rightarrow> nat \<Rightarrow> engine \<Rightarrow> nat \<times> engine" where
  "clear_session_runs session keep e =
     (let terminal = sort_key fst (terminal_runs e session);
          removed = map snd (take (length terminal - keep) terminal);
          e1 = remove_runs removed e
      in (length removed, if removed \<noteq> [] then notify_persist e1 else e1))"

definition clear_run :: "ustr \<Rightarrow> engine \<Rightarrow> bool \<times> engine" where
  "clear_run rid e =
     (case get_run e rid of
        None \<Rightarrow> (False, e)
      | Some run \<Rightarrow>
          if run_terminal (r_status run) then (True, notify_persist (remove_runs [rid] e))
          else (False, e))"

subsection \<open>Lemmas\<close>

lemma run_terminal_iff: "run_terminal s \<longleftrightarrow> s \<noteq> DRunning"
  by (cases s) (auto simp: run_terminal_def)

lemma remove_runs_del_all: "e_runs (remove_runs ids e) = hm.s_del_all ids (e_runs e)"
  by (simp add: remove_runs_def hm.s_del_all_def)

lemma remove_runs_frame [simp]:
  "e_dag_counter (remove_runs ids e) = e_dag_counter e" "e_goal_counter (remove_runs ids e) = e_goal_counter e"
  "e_launcher (remove_runs ids e) = e_launcher e"
  "e_session_launchers (remove_runs ids e) = e_session_launchers e" "e_jobs (remove_runs ids e) = e_jobs e"
  "e_next_token (remove_runs ids e) = e_next_token e" "e_cancelled (remove_runs ids e) = e_cancelled e"
  "e_obs (remove_runs ids e) = e_obs e" "e_run_operations (remove_runs ids e) = e_run_operations e"
  "e_node_operations (remove_runs ids e) = e_node_operations e" "e_clock (remove_runs ids e) = e_clock e"
  by (simp_all add: remove_runs_def)

lemma get_run_remove_runs:
  "hm_ok (e_runs e) \<Longrightarrow> get_run (remove_runs ids e) i = (if i \<in> set ids then None else get_run e i)"
  by (simp add: get_run_def remove_runs_del_all hm.get_del_all)

lemma remove_runs_ok: "hm_ok (e_runs e) \<Longrightarrow> hm_ok (e_runs (remove_runs ids e))"
  by (simp add: remove_runs_del_all hm.del_all_ok)

lemma notify_if_frame [simp]:
  "e_runs (if b then notify_persist e else e) = e_runs e"
  "get_run (if b then notify_persist e else e) i = get_run e i"
  by auto

text \<open>A list of removed keys that a retention operation may choose.\<close>

lemma set_take_sort_terminal:
  assumes "hm_ok (e_runs e)" and "i \<in> set (map snd (take k (sort_key fst (terminal_runs e session))))"
  shows "\<exists>run. get_run e i = Some run \<and> r_session_id run = session \<and> r_status run \<noteq> DRunning"
proof -
  from assms(2) obtain t where "(t, i) \<in> set (terminal_runs e session)"
    by (auto dest: in_set_takeD)
  then obtain run where run: "(i, run) \<in> set (e_runs e)" "r_session_id run = session"
      "run_terminal (r_status run)"
    by (auto simp: terminal_runs_def)
  then show ?thesis
    using hm_get_in [OF assms(1)] by (auto simp: get_run_def run_terminal_iff)
qed

lemma evict_removed:
  assumes "hm_ok (e_runs e)" and "i \<in> set (fst (evict session e))"
  shows "\<exists>run. get_run e i = Some run \<and> r_session_id run = session \<and> r_status run \<noteq> DRunning"
  using set_take_sort_terminal [OF assms(1)] assms(2)
  by (auto simp: evict_def Let_def split: if_splits)

lemma get_run_evict:
  "hm_ok (e_runs e) \<Longrightarrow>
   get_run (snd (evict session e)) i = (if i \<in> set (fst (evict session e)) then None else get_run e i)"
  by (simp add: evict_def Let_def get_run_remove_runs)

lemma evict_frame [simp]:
  "e_dag_counter (snd (evict s e)) = e_dag_counter e" "e_goal_counter (snd (evict s e)) = e_goal_counter e"
  "e_launcher (snd (evict s e)) = e_launcher e"
  "e_session_launchers (snd (evict s e)) = e_session_launchers e" "e_jobs (snd (evict s e)) = e_jobs e"
  "e_next_token (snd (evict s e)) = e_next_token e" "e_cancelled (snd (evict s e)) = e_cancelled e"
  "e_clock (snd (evict s e)) = e_clock e"
  by (simp_all add: evict_def Let_def)

lemma evict_ok [simp]: "hm_ok (e_runs e) \<Longrightarrow> hm_ok (e_runs (snd (evict s e)))"
  by (simp add: evict_def Let_def remove_runs_ok)

lemma terminal_runs_distinct: "hm_ok (e_runs e) \<Longrightarrow> distinct (map snd (terminal_runs e s))"
proof -
  assume "hm_ok (e_runs e)"
  moreover have "map snd (terminal_runs e s) =
      map fst (filter (\<lambda>(i, run). r_session_id run = s \<and> run_terminal (r_status run)) (e_runs e))"
    by (simp add: terminal_runs_def comp_def case_prod_beta)
  ultimately show ?thesis by (simp add: hm_ok_def distinct_map_filter)
qed

lemma filter_fold_hm_del:
  "filter P (fold hm_del ids m) = filter (\<lambda>p. P p \<and> fst p \<notin> set ids) m"
proof (induction ids arbitrary: m)
  case (Cons i ids)
  show ?case unfolding fold.simps comp_def Cons.IH
    by (simp add: hm_del_def conj_ac)
qed simp

lemma terminal_runs_remove:
  "terminal_runs (remove_runs ids e) s = filter (\<lambda>p. snd p \<notin> set ids) (terminal_runs e s)"
  unfolding terminal_runs_def remove_runs_def
  by (simp add: filter_fold_hm_del filter_map comp_def case_prod_beta conj_ac)

text \<open>Removing the first \<open>k\<close> entries of the sorted list leaves the rest of it.\<close>

lemma filter_notin_take:
  assumes "distinct (map snd xs)"
  shows "filter (\<lambda>p. snd p \<notin> set (map snd (take k xs))) xs = drop k xs"
proof -
  have "set (map snd (take k xs)) \<inter> set (map snd (drop k xs)) = {}"
    using assms by (metis append_take_drop_id distinct_append map_append)
  then have "filter (\<lambda>p. snd p \<notin> set (map snd (take k xs))) (drop k xs) = drop k xs"
    by (intro filter_True) (auto simp: disjoint_iff)
  moreover have "filter (\<lambda>p. snd p \<notin> set (map snd (take k xs))) (take k xs) = []"
    by (auto simp: filter_empty_conv)
  ultimately have "filter (\<lambda>p. snd p \<notin> set (map snd (take k xs))) (take k xs @ drop k xs) = drop k xs"
    by (simp only: filter_append append_Nil)
  then show ?thesis by (simp only: append_take_drop_id)
qed

lemma terminal_after_removal:
  assumes "hm_ok (e_runs e)"
  shows "sort_key fst (terminal_runs (remove_runs (map snd (take k (sort_key fst (terminal_runs e s)))) e) s)
           = drop k (sort_key fst (terminal_runs e s))"
proof -
  have "distinct (map snd (sort_key fst (terminal_runs e s)))"
    using terminal_runs_distinct [OF assms]
    by (simp add: distinct_map)
  then show ?thesis
    by (simp only: terminal_runs_remove filter_sort [symmetric] filter_notin_take)
qed

text \<open>
  Retention: after an eviction, at most 50 terminal runs of the session are left, and they
  are the newest ones (what stays is the tail of the list sorted by creation time). Only
  terminal runs of that session go: every run that is running, or of another session, stays
  as it was.
\<close>

theorem evict_retention:
  assumes "hm_ok (e_runs e)"
  shows "length (terminal_runs (snd (evict s e)) s) \<le> MAX_TERMINAL_RUNS \<and>
    sort_key fst (terminal_runs (snd (evict s e)) s) =
      drop (length (terminal_runs e s) - MAX_TERMINAL_RUNS) (sort_key fst (terminal_runs e s)) \<and>
    (\<forall>i run. get_run e i = Some run \<and> (r_status run = DRunning \<or> r_session_id run \<noteq> s) \<longrightarrow>
       get_run (snd (evict s e)) i = Some run)"
proof (intro conjI allI impI)
  let ?k = "length (terminal_runs e s) - MAX_TERMINAL_RUNS"
  have ev: "terminal_runs (snd (evict s e)) s =
      terminal_runs (remove_runs (map snd (take ?k (sort_key fst (terminal_runs e s)))) e) s"
    by (simp add: evict_def Let_def terminal_runs_def)
  show sorted: "sort_key fst (terminal_runs (snd (evict s e)) s) = drop ?k (sort_key fst (terminal_runs e s))"
    unfolding ev by (rule terminal_after_removal [OF assms])
  have "length (terminal_runs (snd (evict s e)) s) = length (sort_key fst (terminal_runs (snd (evict s e)) s))"
    by simp
  also have "\<dots> \<le> MAX_TERMINAL_RUNS" unfolding sorted by simp
  finally show "length (terminal_runs (snd (evict s e)) s) \<le> MAX_TERMINAL_RUNS" .
  fix i run
  assume "get_run e i = Some run \<and> (r_status run = DRunning \<or> r_session_id run \<noteq> s)"
  then show "get_run (snd (evict s e)) i = Some run"
    using evict_removed [OF assms, of i s] get_run_evict [OF assms] by auto
qed

lemma clear_session_runs_keeps_newest:
  assumes "hm_ok (e_runs e)"
  shows "sort_key fst (terminal_runs (snd (clear_session_runs s keep e)) s) =
           drop (length (terminal_runs e s) - keep) (sort_key fst (terminal_runs e s))"
    and "fst (clear_session_runs s keep e) = length (terminal_runs e s) - keep"
proof -
  have "terminal_runs (snd (clear_session_runs s keep e)) s =
      terminal_runs (remove_runs (map snd (take (length (terminal_runs e s) - keep)
        (sort_key fst (terminal_runs e s)))) e) s"
    by (simp add: clear_session_runs_def Let_def terminal_runs_def)
  then show "sort_key fst (terminal_runs (snd (clear_session_runs s keep e)) s) =
      drop (length (terminal_runs e s) - keep) (sort_key fst (terminal_runs e s))"
    using terminal_after_removal [OF assms] by simp
qed (simp add: clear_session_runs_def Let_def)

end
