(* ===== verification/Dag_Scheduler.thy ===== *)
theory Dag_Scheduler
  imports Dag_Retention "HOL-Library.Monad_Syntax"
begin

text \<open>
  Scheduling and run life cycle,
  \<^verbatim>\<open>crates/theway-core/src/multiagent/graph/scheduler.rs\<close>, and \<open>cancel_run\<close> of \<^verbatim>\<open>engine.rs\<close>,
  which the scheduler calls on a fail-fast failure.

  Each \<open>_block\<close> definition is one lock scope of the code. Scheduling recurses: \<open>tick\<close> starts a
  node, a launcher that reports at once completes it, and the completion ticks again. The
  handlers take the tick they call as an argument (\<open>_with\<close>); \<open>tick_f\<close> closes the recursion
  on fuel, with \<open>None\<close> for a computation that is cut off, and \<open>tick\<close> supplies as much fuel as
  the run has nodes. Dag\_Tick proves that this is enough.
\<close>

subsection \<open>Completion of a run\<close>

definition maybe_complete_block :: "ustr \<Rightarrow> engine \<Rightarrow> (dag_event \<times> dag_status \<times> ustr option \<times> engine) option" where
  "maybe_complete_block rid e =
     (case get_run e rid of
        None \<Rightarrow> None
      | Some run \<Rightarrow>
          if r_status run \<noteq> DRunning \<or> \<not> list_all (\<lambda>n. is_terminal (n_status n)) (r_nodes run) then None
          else
            (let has_failure = list_ex (\<lambda>n. n_status n = Failed \<or> n_status n = Cancelled) (r_nodes run);
                 st = (if has_failure then DFailed else DCompleted);
                 run' = emit_state (e_clock e) (run\<lparr>r_status := st, r_completed_at := Some (e_clock e)\<rparr>)
             in Some (RunStatusEvent rid (or_default (r_session_id run')) st (r_error run'),
                      st, r_session_id run', set_run rid run' e)))"

definition maybe_complete :: "ustr \<Rightarrow> engine \<Rightarrow> engine" where
  "maybe_complete rid e =
     (if get_run e rid = None then e
      else notify_persist
        (case maybe_complete_block rid e of
           None \<Rightarrow> e
         | Some (event, st, session, e1) \<Rightarrow>
             wake_waiters rid (snd (evict session (emit event (finish_run_observation rid st e1))))))"

subsection \<open>Cancellation\<close>

definition cancel_node :: "int \<Rightarrow> ustr option \<Rightarrow> dag_node \<Rightarrow> dag_node" where
  "cancel_node now err n =
     (if n_status n = Running \<or> n_status n = Pending \<or> n_status n = Ready
      then n\<lparr>n_status := Cancelled, n_completed_at := Some now, n_error := err\<rparr> else n)"

definition cancel_reason :: "ustr option \<Rightarrow> ustr" where
  "cancel_reason reason = (case reason of Some s \<Rightarrow> s | None \<Rightarrow> lit ''cancelled by orchestrator'')"

definition cancel_block ::
  "ustr \<Rightarrow> ustr option \<Rightarrow> engine \<Rightarrow> (ustr list \<times> ustr list \<times> ustr option \<times> engine) option" where
  "cancel_block rid reason e =
     (case get_run e rid of
        None \<Rightarrow> None
      | Some run \<Rightarrow>
          if r_status run \<noteq> DRunning then None
          else
            (let err = Some (cancel_reason reason);
                 running = map n_id (filter (\<lambda>n. n_status n = Running) (r_nodes run));
                 cancelled = map n_id (filter (\<lambda>n. n_status n \<in> {Running, Pending, Ready}) (r_nodes run));
                 run' = emit_state (e_clock e)
                   (run\<lparr>r_error := err, r_nodes := map (cancel_node (e_clock e) err) (r_nodes run),
                        r_status := DCancelled, r_completed_at := Some (e_clock e)\<rparr>)
             in Some (running, cancelled, r_session_id run', set_run rid run' e)))"

definition cancel_token :: "ustr \<Rightarrow> ustr \<Rightarrow> engine \<Rightarrow> engine" where
  "cancel_token rid nid e =
     (case hm_get (e_jobs e) (rid, nid) of
        None \<Rightarrow> e
      | Some token \<Rightarrow> e\<lparr>e_jobs := hm_del (rid, nid) (e_jobs e), e_cancelled := token # e_cancelled e\<rparr>)"

definition observe_cancelled :: "ustr \<Rightarrow> ustr \<Rightarrow> engine \<Rightarrow> engine" where
  "observe_cancelled rid nid e =
     finish_node_observation rid nid Cancelled (begin_node_observation rid nid e)"

definition cancel_run :: "ustr \<Rightarrow> ustr option \<Rightarrow> engine \<Rightarrow> engine" where
  "cancel_run rid reason e =
     (case cancel_block rid reason e of
        None \<Rightarrow> e
      | Some (running, cancelled, session, e1) \<Rightarrow>
          (let e2 = fold (cancel_token rid) running e1;
               e3 = fold (observe_cancelled rid) cancelled e2;
               e4 = finish_run_observation rid DCancelled e3;
               e5 = emit (RunStatusEvent rid (or_default session) DCancelled (Some (cancel_reason reason))) e4
           in wake_waiters rid (snd (evict session (notify_persist e5)))))"

subsection \<open>Reconciliation and completion of a node\<close>

definition reconcile_run :: "ustr \<Rightarrow> engine \<Rightarrow> engine" where
  "reconcile_run rid e =
     (case get_run e rid of
        None \<Rightarrow> e
      | Some run \<Rightarrow> set_run rid (emit_state (e_clock e) (reconcile (e_clock e) run)) e)"

text \<open>The message of a fail-fast abort; the text around the node id is not ASCII.\<close>

definition fail_fast_reason :: "ustr \<Rightarrow> ustr" where
  "fail_fast_reason nid =
     lit ''failFast: '' @ [33410, 28857, 32] @ nid @
     [32, 22833, 36133, 44, 32, 32456, 27490, 25972, 20010, 36816, 34892]"

definition after_node_terminal_with ::
  "(engine \<Rightarrow> engine option) \<Rightarrow> ustr \<Rightarrow> ustr \<Rightarrow> engine \<Rightarrow> engine option" where
  "after_node_terminal_with tk rid nid e =
     (case get_run e rid of
        None \<Rightarrow> Some e
      | Some run \<Rightarrow>
          (let failed = (case run_node run nid of None \<Rightarrow> False | Some n \<Rightarrow> n_status n = Failed)
           in if failed \<and> r_fail_fast run then Some (cancel_run rid (Some (fail_fast_reason nid)) e)
              else do { e1 \<leftarrow> tk (reconcile_run rid e); Some (maybe_complete rid e1) }))"

definition complete_node :: "int \<Rightarrow> node_outcome \<Rightarrow> dag_node \<Rightarrow> dag_node" where
  "complete_node now oc n =
     n\<lparr>n_completed_at := Some now,
       n_status := (if out_success oc then Succeeded else Failed),
       n_error := (if out_success oc then None
                   else Some (case out_error oc of Some s \<Rightarrow> s | None \<Rightarrow> lit ''no result'')),
       n_result := Some \<lparr>res_success = out_success oc, res_error = out_error oc,
                         res_duration_ms = Some (out_duration_ms oc), res_attempt = out_attempt oc,
                         res_total_attempts = out_total_attempts oc\<rparr>,
       n_attempt := max (n_attempt n) (out_total_attempts oc),
       n_input_tokens := Some (out_input_tokens oc),
       n_output_tokens := Some (out_output_tokens oc),
       n_output := (if out_output oc \<noteq> None then out_output oc else n_output n)\<rparr>"

definition complete_block ::
  "ustr \<Rightarrow> ustr \<Rightarrow> node_outcome \<Rightarrow> engine \<Rightarrow> (dag_event \<times> node_status \<times> engine) option" where
  "complete_block rid nid oc e =
     (case get_run e rid of
        None \<Rightarrow> None
      | Some run \<Rightarrow>
          (case run_node run nid of
             None \<Rightarrow> None
           | Some node \<Rightarrow>
               if n_status node \<noteq> Running then None
               else
                 (let node' = complete_node (e_clock e) oc node;
                      run' = emit_state (e_clock e) (run_node_mut nid (complete_node (e_clock e) oc) run);
                      event = NodeStatusEvent rid (or_default (r_session_id run')) nid
                                (n_status node') (n_error node')
                  in Some (event, n_status node',
                           (set_run rid run' e)\<lparr>e_jobs := hm_del (rid, nid) (e_jobs e)\<rparr>))))"

definition on_node_completed_with ::
  "(engine \<Rightarrow> engine option) \<Rightarrow> ustr \<Rightarrow> ustr \<Rightarrow> node_outcome \<Rightarrow> engine \<Rightarrow> engine option" where
  "on_node_completed_with tk rid nid oc e =
     (case complete_block rid nid oc e of
        None \<Rightarrow> Some e
      | Some (event, st, e1) \<Rightarrow>
          do { e2 \<leftarrow> after_node_terminal_with tk rid nid (emit event (finish_node_observation rid nid st e1));
               Some (notify_persist e2) })"

subsection \<open>Starting nodes\<close>

definition failed_outcome :: "ustr \<Rightarrow> node_outcome" where
  "failed_outcome err =
     \<lparr>out_success = False, out_error = Some err, out_duration_ms = 0, out_attempt = 0,
      out_total_attempts = 0, out_input_tokens = 0, out_output_tokens = 0, out_output = None\<rparr>"

definition start_mark :: "int \<Rightarrow> ustr \<Rightarrow> dag_node \<Rightarrow> dag_node" where
  "start_mark now rid n =
     n\<lparr>n_status := Running, n_launch_gen := n_launch_gen n + 1, n_started_at := Some now,
       n_job_id := Some (lit ''job-'' @ rid @ lit ''-'' @ n_id n)\<rparr>"

definition start_block :: "ustr \<Rightarrow> ustr \<Rightarrow> engine \<Rightarrow> (launcher option \<times> engine) option" where
  "start_block rid nid e =
     (case get_run e rid of
        None \<Rightarrow> None
      | Some run \<Rightarrow>
          (case run_node run nid of
             None \<Rightarrow> None
           | Some node \<Rightarrow>
               if n_status node \<noteq> Ready then None
               else
                 (let run' = emit_state (e_clock e) (run_node_mut nid (start_mark (e_clock e) rid) run);
                      token = e_next_token e
                  in Some (pick_launcher e (r_session_id run'),
                           (set_run rid run' e)\<lparr>e_jobs := hm_put (rid, nid) token (e_jobs e),
                                                e_next_token := token + 1\<rparr>))))"

definition start_node_with :: "(engine \<Rightarrow> engine option) \<Rightarrow> ustr \<Rightarrow> ustr \<Rightarrow> engine \<Rightarrow> engine option" where
  "start_node_with tk rid nid e =
     (case start_block rid nid e of
        None \<Rightarrow> Some e
      | Some (launch, e1) \<Rightarrow>
          (let e2 = begin_node_observation rid nid e1
           in case launch of
                None \<Rightarrow> on_node_completed_with tk rid nid (failed_outcome (lit ''no launch context'')) e2
              | Some l \<Rightarrow>
                  (case l (get_run e2 rid) rid nid of
                     Dispatched \<Rightarrow> Some e2
                   | Reported oc \<Rightarrow> on_node_completed_with tk rid nid oc e2
                   | Panicked payload \<Rightarrow>
                       on_node_completed_with tk rid nid (failed_outcome (panic_message payload)) e2)))"

text \<open>The decision of one round of the loop of \<open>tick\<close>.\<close>

definition running_count :: "dag_run \<Rightarrow> nat" where
  "running_count run = length (filter (\<lambda>n. n_status n = Running) (r_nodes run))"

definition next_ready :: "ustr \<Rightarrow> engine \<Rightarrow> ustr option" where
  "next_ready rid e =
     (case get_run e rid of
        None \<Rightarrow> None
      | Some run \<Rightarrow>
          if r_status run \<noteq> DRunning then None
          else if r_max_concurrency run \<le> running_count run then None
          else map_option n_id (find (\<lambda>n. n_status n = Ready) (r_nodes run)))"

fun tick_f :: "nat \<Rightarrow> ustr \<Rightarrow> engine \<Rightarrow> engine option" where
  "tick_f 0 rid e = (case next_ready rid e of None \<Rightarrow> Some e | Some _ \<Rightarrow> None)"
| "tick_f (Suc fuel) rid e =
     (case next_ready rid e of
        None \<Rightarrow> Some e
      | Some nid \<Rightarrow> do { e1 \<leftarrow> start_node_with (tick_f fuel rid) rid nid e; tick_f fuel rid e1 })"

definition tick_bound :: "ustr \<Rightarrow> engine \<Rightarrow> nat" where
  "tick_bound rid e = (case get_run e rid of None \<Rightarrow> 0 | Some run \<Rightarrow> length (r_nodes run))"

definition tick :: "ustr \<Rightarrow> engine \<Rightarrow> engine option" where
  "tick rid e = tick_f (tick_bound rid e) rid e"

definition on_node_completed :: "ustr \<Rightarrow> ustr \<Rightarrow> node_outcome \<Rightarrow> engine \<Rightarrow> engine option" where
  "on_node_completed rid nid oc e = on_node_completed_with (tick rid) rid nid oc e"

definition after_node_terminal :: "ustr \<Rightarrow> ustr \<Rightarrow> engine \<Rightarrow> engine option" where
  "after_node_terminal rid nid e = after_node_terminal_with (tick rid) rid nid e"

subsection \<open>Progress reports\<close>

definition update_node :: "int \<Rightarrow> nat option \<Rightarrow> nat option \<Rightarrow> ustr option \<Rightarrow> dag_node \<Rightarrow> dag_node" where
  "update_node now it ot preview n =
     n\<lparr>n_input_tokens := (if it = None then n_input_tokens n else it),
       n_output_tokens := (if ot = None then n_output_tokens n else ot),
       n_live_preview := (case preview of None \<Rightarrow> n_live_preview n | Some p \<Rightarrow> Some (cap_chars p 2048)),
       n_last_active_at := Some now\<rparr>"

definition on_node_update ::
  "ustr \<Rightarrow> ustr \<Rightarrow> nat \<Rightarrow> nat option \<Rightarrow> nat option \<Rightarrow> ustr option \<Rightarrow> engine \<Rightarrow> engine" where
  "on_node_update rid nid gen it ot preview e =
     (case get_run e rid of
        None \<Rightarrow> e
      | Some run \<Rightarrow>
          (case run_node run nid of
             None \<Rightarrow> e
           | Some node \<Rightarrow>
               if n_launch_gen node \<noteq> gen then e
               else notify_persist
                 (set_run rid
                   ((run_node_mut nid (update_node (e_clock e) it ot preview) run)
                      \<lparr>r_last_activity_at := e_clock e\<rparr>) e)))"

subsection \<open>Restoring persisted runs\<close>

definition restore_one :: "persisted_run \<Rightarrow> ustr list \<times> engine \<Rightarrow> ustr list \<times> engine" where
  "restore_one p st =
     (case st of (restored, e) \<Rightarrow>
        if get_run e (pr_id p) \<noteq> None then (restored, e)
        else
          (let run = hydrate (e_clock e) p
           in (restored @ [r_id run],
               set_run (r_id run) run
                 (e\<lparr>e_dag_counter := max (e_dag_counter e) (max_run_counter [run])\<rparr>))))"

definition restore_start :: "ustr \<Rightarrow> engine \<Rightarrow> engine option" where
  "restore_start rid e =
     (let e1 = (case get_run e rid of
                  Some run \<Rightarrow> if r_status run = DRunning then begin_run_observation rid e else e
                | None \<Rightarrow> e)
      in tick rid (reconcile_run rid e1))"

fun restore_all :: "ustr list \<Rightarrow> engine \<Rightarrow> engine option" where
  "restore_all [] e = Some e"
| "restore_all (rid # rids) e = do { e1 \<leftarrow> restore_start rid e; restore_all rids e1 }"

definition restore :: "persisted_run list \<Rightarrow> engine \<Rightarrow> (ustr list \<times> engine) option" where
  "restore ps e =
     (let (restored, e1) = fold restore_one ps ([], e)
      in do { e2 \<leftarrow> restore_all restored e1;
              Some (restored, if restored \<noteq> [] then notify_persist e2 else e2) })"

subsection \<open>Waiting\<close>

text \<open>
  One round of the loop of \<open>wait_for_run\<close>, after its leading \<open>maybe_complete\<close>: return, or
  register as a waiter and sleep. Instants and durations are in milliseconds; \<open>now\<close> is the
  monotonic clock and the idle watchdog reads the wall clock.
\<close>

datatype wait_step = Return bool | Sleep nat

definition wait_round :: "ustr \<Rightarrow> nat \<Rightarrow> nat \<Rightarrow> nat option \<Rightarrow> engine \<Rightarrow> wait_step \<times> engine" where
  "wait_round rid now deadline idle e =
     (let terminal = (case get_run e rid of None \<Rightarrow> True | Some run \<Rightarrow> r_status run \<noteq> DRunning)
      in if terminal then (Return False, e)
         else if deadline \<le> now then (Return True, e)
         else
           (let last_activity = (case get_run e rid of None \<Rightarrow> e_clock e | Some run \<Rightarrow> r_last_activity_at run);
                idle_elapsed = nat (max (e_clock e - last_activity) 0);
                park = (\<lambda>sleep. (Sleep sleep,
                  if hm_get (e_waiters e) rid = None
                  then e\<lparr>e_waiters := hm_put rid 0 (e_waiters e)\<rparr> else e))
            in case idle of
                 None \<Rightarrow> park (deadline - now)
               | Some idle_ms \<Rightarrow>
                   if idle_ms \<le> idle_elapsed then (Return True, e)
                   else park (min (deadline - now) (idle_ms - idle_elapsed))))"

end
