(* ===== verification/Dag_Engine.thy ===== *)
theory Dag_Engine
  imports Dag_Scheduler "HOL-Library.Product_Lexorder"
begin

text \<open>
  The operations of \<^verbatim>\<open>crates/theway-core/src/multiagent/graph/engine.rs\<close>: planning, goal runs,
  queries, and the interventions retry, skip and abort. An operation that schedules returns an
  option, \<open>None\<close> for a scheduling loop that does not return; Dag\_Tick shows where it does.
\<close>

subsection \<open>Planning\<close>

definition register_run :: "dag_run \<Rightarrow> engine \<Rightarrow> dag_run \<times> engine" where
  "register_run run e =
     (let k = e_dag_counter e + 1;
          run' = run\<lparr>r_id := dag_id k, r_last_activity_at := e_clock e\<rparr>
      in (run', set_run (dag_id k) run' (e\<lparr>e_dag_counter := k\<rparr>)))"

definition plan ::
  "dag_run_def \<Rightarrow> ustr list option \<Rightarrow> ustr option \<Rightarrow> engine \<Rightarrow> ((ustr list + dag_run) \<times> engine) option" where
  "plan def known session e =
     (let errors = validate_graph (rd_nodes def) known
      in if errors \<noteq> [] then Some (Inl (map render_error errors), e)
         else
           (let (run, e1) = register_run ((build_run (e_clock e) def)\<lparr>r_session_id := session\<rparr>) e
            in do { e2 \<leftarrow> tick (r_id run) (reconcile_run (r_id run) (begin_run_observation (r_id run) e1));
                    let e3 = notify_persist e2;
                    Some (Inr (case get_run e3 (r_id run) of Some r \<Rightarrow> r | None \<Rightarrow> run), e3) }))"

subsection \<open>Goal runs\<close>

definition main_id :: ustr where
  "main_id = lit ''main''"

definition goal_node :: "int \<Rightarrow> ustr \<Rightarrow> dag_node" where
  "goal_node now condition =
     \<lparr>n_id = main_id, n_agent = lit ''main-agent'', n_task = condition, n_depends_on = [],
      n_timeout = None, n_cwd = None, n_provider = None, n_model = None, n_thinking = None,
      n_max_iterations = None, n_tools = None, n_status = Running, n_job_id = None, n_attempt = 0,
      n_launch_gen = 0, n_started_at = Some now, n_completed_at = None, n_error = None,
      n_input_tokens = None, n_output_tokens = None, n_result = None, n_output = None,
      n_live_preview = None, n_last_active_at = None\<rparr>"

definition goal_run :: "int \<Rightarrow> ustr \<Rightarrow> ustr option \<Rightarrow> ustr \<Rightarrow> dag_run" where
  "goal_run now condition session rid =
     \<lparr>r_id = rid, r_name = cap_chars condition 48, r_nodes = [goal_node now condition],
      r_status = DRunning, r_kind = Goal, r_max_concurrency = 1, r_fail_fast = False,
      r_direction = Td, r_created_at = now, r_session_id = session, r_completed_at = None,
      r_last_activity_at = now, r_error = None\<rparr>"

definition plan_goal :: "ustr \<Rightarrow> ustr option \<Rightarrow> engine \<Rightarrow> ustr \<times> engine" where
  "plan_goal condition session e =
     (let k = e_goal_counter e + 1;
          i = goal_id k;
          e1 = set_run i (goal_run (e_clock e) condition session i) (e\<lparr>e_goal_counter := k\<rparr>);
          e2 = begin_node_observation i main_id (begin_run_observation i e1);
          e3 = emit (RunStatusEvent i (or_default session) DRunning None) e2
      in (i, notify_persist e3))"

definition goal_tick_node :: "int \<Rightarrow> nat \<Rightarrow> bool \<Rightarrow> ustr option \<Rightarrow> dag_node \<Rightarrow> dag_node" where
  "goal_tick_node now iteration finished reason n =
     (if finished
      then n\<lparr>n_attempt := iteration, n_status := Succeeded, n_completed_at := Some now, n_error := None\<rparr>
      else n\<lparr>n_attempt := iteration, n_error := reason\<rparr>)"

definition goal_tick_block ::
  "ustr \<Rightarrow> nat \<Rightarrow> bool \<Rightarrow> ustr option \<Rightarrow> engine \<Rightarrow> (dag_event list \<times> ustr option \<times> engine) option" where
  "goal_tick_block rid iteration finished reason e =
     (case get_run e rid of
        None \<Rightarrow> None
      | Some run \<Rightarrow>
          if run_node run main_id = None then None
          else
            (let now = e_clock e;
                 run1 = run_node_mut main_id (goal_tick_node now iteration finished reason) run;
                 run2 = emit_state now
                   (if finished then run1\<lparr>r_status := DCompleted, r_completed_at := Some now\<rparr> else run1);
                 session = or_default (r_session_id run);
                 events =
                   (if finished
                    then [NodeStatusEvent rid session main_id Succeeded None,
                          RunStatusEvent rid session DCompleted None]
                    else [NodeStatusEvent rid session main_id Running reason])
             in Some (events, r_session_id run, set_run rid run2 e)))"

definition on_goal_tick :: "ustr \<Rightarrow> nat \<Rightarrow> bool \<Rightarrow> ustr option \<Rightarrow> engine \<Rightarrow> bool \<times> engine" where
  "on_goal_tick rid iteration finished reason e =
     (case goal_tick_block rid iteration finished reason e of
        None \<Rightarrow> (False, e)
      | Some (events, session, e1) \<Rightarrow>
          (let e2 = notify_persist (fold emit events e1)
           in (True,
               if finished
               then wake_waiters rid (snd (evict session
                      (finish_run_observation rid DCompleted (finish_node_observation rid main_id Succeeded e2))))
               else e2)))"

definition on_goal_evaluator_finished :: "ustr \<Rightarrow> ustr \<Rightarrow> engine \<Rightarrow> engine" where
  "on_goal_evaluator_finished rid job e =
     (case get_run e rid of
        None \<Rightarrow> e
      | Some run \<Rightarrow> set_run rid (run_node_mut main_id (\<lambda>n. n\<lparr>n_job_id := Some job\<rparr>) run) e)"

definition complete_goal_node :: "int \<Rightarrow> dag_status \<Rightarrow> ustr option \<Rightarrow> dag_node \<Rightarrow> dag_node" where
  "complete_goal_node now st reason n =
     n\<lparr>n_status := (case st of DFailed \<Rightarrow> Failed | DCancelled \<Rightarrow> Cancelled | _ \<Rightarrow> n_status n),
       n_completed_at := Some now, n_error := reason\<rparr>"

definition complete_goal_block ::
  "ustr \<Rightarrow> dag_status \<Rightarrow> ustr option \<Rightarrow> engine \<Rightarrow> (dag_event list \<times> ustr option \<times> engine) option" where
  "complete_goal_block rid st reason e =
     (case get_run e rid of
        None \<Rightarrow> None
      | Some run \<Rightarrow>
          if r_status run \<noteq> DRunning then None
          else
            (let now = e_clock e;
                 run1 = run\<lparr>r_status := st, r_completed_at := Some now, r_error := reason\<rparr>;
                 run2 = emit_state now (run_node_mut main_id (complete_goal_node now st reason) run1);
                 session = or_default (r_session_id run);
                 events =
                   (case run_node run2 main_id of
                      Some n \<Rightarrow> [NodeStatusEvent rid session main_id (n_status n) (n_error n)]
                    | None \<Rightarrow> []) @
                   [RunStatusEvent rid session st reason]
             in Some (events, r_session_id run, set_run rid run2 e)))"

definition observe_goal_end :: "ustr \<Rightarrow> engine \<Rightarrow> engine" where
  "observe_goal_end rid e =
     (case get_run e rid of
        None \<Rightarrow> e
      | Some run \<Rightarrow>
          finish_run_observation rid (r_status run)
            (case run_node run main_id of
               Some n \<Rightarrow> finish_node_observation rid main_id (n_status n) e
             | None \<Rightarrow> e))"

definition complete_goal :: "ustr \<Rightarrow> dag_status \<Rightarrow> ustr option \<Rightarrow> engine \<Rightarrow> engine" where
  "complete_goal rid st reason e =
     (case complete_goal_block rid st reason e of
        None \<Rightarrow> e
      | Some (events, session, e1) \<Rightarrow>
          wake_waiters rid (snd (evict session (notify_persist (observe_goal_end rid (fold emit events e1))))))"

subsection \<open>Queries\<close>

definition list_runs :: "engine \<Rightarrow> dag_run list" where
  "list_runs e = sort_key (\<lambda>r. (- r_created_at r, run_counter (r_id r))) (map snd (e_runs e))"

definition running_node_count :: "engine \<Rightarrow> nat" where
  "running_node_count e =
     length (filter (\<lambda>n. n_status n = Running)
       (concat (map r_nodes (filter (\<lambda>r. r_status r = DRunning) (map snd (e_runs e))))))"

text \<open>\<open>max_by_key\<close> returns the last of several maximal elements.\<close>

fun max_by_created :: "dag_run list \<Rightarrow> dag_run option" where
  "max_by_created [] = None"
| "max_by_created (r # rs) =
     (case max_by_created rs of
        None \<Rightarrow> Some r
      | Some m \<Rightarrow> if r_created_at r \<le> r_created_at m then Some m else Some r)"

definition most_recent_active :: "engine \<Rightarrow> dag_run option" where
  "most_recent_active e = max_by_created (filter (\<lambda>r. r_status r = DRunning) (map snd (e_runs e)))"

definition rehome_runs :: "ustr \<Rightarrow> ustr \<Rightarrow> engine \<Rightarrow> nat \<times> engine" where
  "rehome_runs from_session to_session e =
     (let owned = (\<lambda>run. r_session_id run = Some from_session);
          count = length (filter (\<lambda>(i, run). owned run) (e_runs e));
          e1 = e\<lparr>e_runs := map (\<lambda>(i, run).
                  (i, if owned run
                      then run\<lparr>r_session_id := Some to_session, r_last_activity_at := e_clock e\<rparr>
                      else run)) (e_runs e)\<rparr>
      in (count, if 0 < count then notify_persist e1 else e1))"

subsection \<open>Interventions\<close>

definition blocked_in :: "dag_run \<Rightarrow> ustr \<Rightarrow> bool" where
  "blocked_in run i = (case run_node run i of None \<Rightarrow> False | Some n \<Rightarrow> is_blocked (n_status n))"

definition retry_target :: "dag_run \<Rightarrow> ustr \<Rightarrow> ustr list \<Rightarrow> ustr list" where
  "retry_target run i to_reset =
     (if \<not> blocked_in run i then to_reset
      else fold push_unique (filter (blocked_in run) (downstream_closure (r_nodes run) i))
             (push_unique i to_reset))"

definition retry_set :: "dag_run \<Rightarrow> ustr list option \<Rightarrow> ustr list" where
  "retry_set run node_ids =
     (let targets = (case node_ids of
                       Some ids \<Rightarrow> if ids \<noteq> [] then ids
                                   else map n_id (filter (\<lambda>n. is_blocked (n_status n)) (r_nodes run))
                     | None \<Rightarrow> map n_id (filter (\<lambda>n. is_blocked (n_status n)) (r_nodes run)))
      in fold (retry_target run) targets [])"

definition reopen_run :: "dag_run \<Rightarrow> dag_run" where
  "reopen_run run =
     (if r_status run \<noteq> DRunning
      then run\<lparr>r_status := DRunning, r_completed_at := None, r_error := None\<rparr> else run)"

definition retry_block :: "ustr \<Rightarrow> ustr list option \<Rightarrow> engine \<Rightarrow> (ustr list \<times> engine) option" where
  "retry_block rid node_ids e =
     (case get_run e rid of
        None \<Rightarrow> None
      | Some run \<Rightarrow>
          (let to_reset = retry_set run node_ids
           in Some (to_reset,
                set_run rid (emit_state (e_clock e)
                  (reopen_run (fold (\<lambda>i r. run_node_mut i reset_node r) to_reset run))) e)))"

definition retry :: "ustr \<Rightarrow> ustr list option \<Rightarrow> engine \<Rightarrow> (ustr list \<times> engine) option" where
  "retry rid node_ids e =
     (case retry_block rid node_ids e of
        None \<Rightarrow> Some ([], e)
      | Some (to_reset, e1) \<Rightarrow>
          do { e2 \<leftarrow> tick rid (reconcile_run rid (begin_run_observation rid e1));
               Some (to_reset, notify_persist (maybe_complete rid e2)) })"

definition release_blocked :: "ustr \<Rightarrow> dag_run \<Rightarrow> dag_run" where
  "release_blocked i run =
     run_node_mut i (\<lambda>c. if is_blocked (n_status c) then reset_node c else c) run"

definition skip_mark :: "int \<Rightarrow> bool \<Rightarrow> dag_node \<Rightarrow> dag_node" where
  "skip_mark now was_running n =
     n\<lparr>n_status := Skipped, n_completed_at := Some now,
       n_error := Some (if was_running then lit ''skipped by orchestrator (job aborted)''
                        else lit ''skipped by orchestrator'')\<rparr>"

definition skip_block :: "ustr \<Rightarrow> ustr \<Rightarrow> engine \<Rightarrow> (nat option \<times> dag_event \<times> engine) option" where
  "skip_block rid nid e =
     (case get_run e rid of
        None \<Rightarrow> None
      | Some run \<Rightarrow>
          (case run_node run nid of
             None \<Rightarrow> None
           | Some node \<Rightarrow>
               if n_status node = Succeeded \<or> n_status node = Skipped then None
               else
                 (let run1 = (if n_status node = Failed
                              then fold release_blocked (downstream_closure (r_nodes run) nid) run
                              else run);
                      was_running = (case run_node run1 nid of None \<Rightarrow> False | Some n \<Rightarrow> n_status n = Running);
                      run2 = emit_state (e_clock e)
                               (reopen_run (run_node_mut nid (skip_mark (e_clock e) was_running) run1));
                      event = NodeStatusEvent rid (or_default (r_session_id run2)) nid Skipped
                                (n_error (skip_mark (e_clock e) was_running node));
                      token = (if was_running then hm_get (e_jobs e) (rid, nid) else None);
                      e1 = set_run rid run2 e
                  in Some (token, event,
                       if was_running then e1\<lparr>e_jobs := hm_del (rid, nid) (e_jobs e1)\<rparr> else e1))))"

definition skip :: "ustr \<Rightarrow> ustr \<Rightarrow> engine \<Rightarrow> (bool \<times> engine) option" where
  "skip rid nid e =
     (case skip_block rid nid e of
        None \<Rightarrow> Some (False, e)
      | Some (token, event, e1) \<Rightarrow>
          (let e2 = (case token of None \<Rightarrow> e1 | Some t \<Rightarrow> e1\<lparr>e_cancelled := t # e_cancelled e1\<rparr>);
               e3 = finish_node_observation rid nid Skipped (begin_node_observation rid nid e2)
           in do { e4 \<leftarrow> after_node_terminal rid nid (emit event e3);
                   Some (True, notify_persist e4) }))"

definition abort_all_runs :: "ustr \<Rightarrow> engine \<Rightarrow> nat \<times> engine" where
  "abort_all_runs reason e =
     (let ids = map fst (filter (\<lambda>(i, r). r_status r = DRunning) (e_runs e))
      in (length ids, fold (\<lambda>i. cancel_run i (Some reason)) ids e))"

definition drop_scopes :: "('k, scope) hmap \<Rightarrow> obs \<Rightarrow> obs" where
  "drop_scopes m obs = fold (\<lambda>(k, sc). scope_drop sc) m obs"

definition reset_for_tests :: "engine \<Rightarrow> engine" where
  "reset_for_tests e =
     e\<lparr>e_runs := [], e_jobs := [], e_waiters := [], e_dag_counter := 0, e_goal_counter := 0,
       e_events := False, e_launcher := None, e_session_launchers := [],
       e_run_operations := [], e_node_operations := [],
       e_obs := drop_scopes (e_node_operations e) (drop_scopes (e_run_operations e) (e_obs e))\<rparr>"

end
