(* ===== verification/Dag_Invariant.thy ===== *)
theory Dag_Invariant
  imports Dag_Engine
begin

text \<open>
  The interface of engine invariants. A predicate on engine states that every lock scope of the
  scheduler keeps is kept by every operation that the engine offers; the operations are
  composed once, here, and each invariant of the development is an interpretation.

  An invariant takes two sets of run ids: \<open>R\<close>, the runs that still have to be reconciled, and
  \<open>T\<close>, the runs that still have to be ticked. Between operations both are empty.

  \<^item> \<open>engine_invariant\<close>: what the scheduler needs, and its consequences for \<open>tick\<close>, completion
    reports and cancellation.
  \<^item> \<open>api_invariant\<close>: the rest of the operations, up to \<open>api_step\<close> and \<open>reachable\<close>.
  \<^item> \<open>run_invariant\<close> and \<open>run_api_invariant\<close>: an invariant that is a property of each run on its
    own, with the laws at the level of runs; sublocales of the two interfaces above.
\<close>

subsection \<open>Silent changes\<close>

text \<open>Changes that no invariant of the runs can see.\<close>

inductive quiet :: "engine \<Rightarrow> engine \<Rightarrow> bool" where
  q_emit: "quiet e (emit ev e)"
| q_notify: "quiet e (notify_persist e)"
| q_wake: "quiet e (wake_waiters rid e)"
| q_begin_run: "quiet e (begin_run_observation rid e)"
| q_begin_node: "quiet e (begin_node_observation rid nid e)"
| q_finish_node: "quiet e (finish_node_observation rid nid st e)"
| q_finish_run: "quiet e (finish_run_observation rid rst e)"
| q_launcher: "quiet e (set_launcher l e)"
| q_session_launcher: "quiet e (set_session_launcher session l' e)"
| q_events: "quiet e (set_event_sender b e)"
| q_sink: "quiet e (set_persist_sink b e)"
| q_waiter: "quiet e (e\<lparr>e_waiters := w\<rparr>)"
| q_clock: "quiet e (e\<lparr>e_clock := t\<rparr>)"

lemma quiet_core:
  assumes "quiet e e'"
  shows "e_runs e' = e_runs e" and "e_jobs e' = e_jobs e" and "e_dag_counter e' = e_dag_counter e"
    and "e_goal_counter e' = e_goal_counter e" and "e_next_token e' = e_next_token e"
    and "e_cancelled e' = e_cancelled e" and "get_run e' i = get_run e i"
  using assms
  by (induction rule: quiet.induct)
    (simp_all add: set_launcher_def set_session_launcher_def set_event_sender_def set_persist_sink_def get_run_def)

subsection \<open>The scheduler\<close>

locale engine_invariant =
  fixes inv :: "ustr set \<Rightarrow> ustr set \<Rightarrow> engine \<Rightarrow> bool"
  assumes inv_mono: "inv R T e \<Longrightarrow> T \<subseteq> T' \<Longrightarrow> inv R T' e"
    and inv_quiet: "inv R T e \<Longrightarrow> quiet e e' \<Longrightarrow> inv R T e'"
    and inv_start: "inv R T e \<Longrightarrow> rid \<notin> R \<Longrightarrow> next_ready rid e = Some nid \<Longrightarrow>
      start_block rid nid e = Some (l, e') \<Longrightarrow> inv R (insert rid T) e'"
    and inv_exit: "inv R T e \<Longrightarrow> next_ready rid e = None \<Longrightarrow> inv R (T - {rid}) e"
    and inv_complete: "inv R T e \<Longrightarrow> complete_block rid nid oc e = Some (ev, st, e') \<Longrightarrow>
      inv (insert rid R) (insert rid T) e'"
    and inv_reconcile: "inv R T e \<Longrightarrow> inv (R - {rid}) (insert rid T) (reconcile_run rid e)"
    and inv_cancel: "inv R T e \<Longrightarrow> cancel_block rid reason e = Some (running, cancelled, s, e') \<Longrightarrow>
      inv (R - {rid}) (T - {rid}) (fold (cancel_token rid) running e')"
    and inv_idle: "inv R T e \<Longrightarrow> (\<And>r. get_run e rid = Some r \<Longrightarrow> r_status r \<noteq> DRunning) \<Longrightarrow>
      inv (R - {rid}) (T - {rid}) e"
    and inv_finish: "inv R T e \<Longrightarrow> maybe_complete_block rid e = Some (ev, rst, s, e') \<Longrightarrow> inv R T e'"
    and inv_remove: "inv R T e \<Longrightarrow>
      (\<And>i r. i \<in> set ids \<Longrightarrow> get_run e i = Some r \<Longrightarrow> r_status r \<noteq> DRunning) \<Longrightarrow> inv R T (remove_runs ids e)"
    and inv_keys: "inv R T e \<Longrightarrow> hm_ok (e_runs e)"
begin

lemmas inv_effects [intro!] =
  inv_quiet [OF _ q_emit] inv_quiet [OF _ q_notify] inv_quiet [OF _ q_wake]
  inv_quiet [OF _ q_begin_run] inv_quiet [OF _ q_begin_node]
  inv_quiet [OF _ q_finish_node] inv_quiet [OF _ q_finish_run]

lemma inv_remove_sorted:
  assumes "inv R T e"
  shows "inv R T (remove_runs (map snd (take k (sort_key fst (terminal_runs e s)))) e)"
  by (rule inv_remove [OF assms]) (use set_take_sort_terminal [OF inv_keys [OF assms]] in fastforce)

lemma inv_evict [intro!]: "inv R T e \<Longrightarrow> inv R T (snd (evict s e))"
  using inv_remove [of R T e "[]"] inv_remove_sorted by (auto simp: evict_def Let_def)

lemma inv_emits: "inv R T e \<Longrightarrow> inv R T (fold emit evs e)"
  by (induction evs arbitrary: e) auto

lemma inv_observe_cancelled: "inv R T e \<Longrightarrow> inv R T (fold (observe_cancelled rid) ids e)"
proof (induction ids arbitrary: e)
  case (Cons i ids)
  have "inv R T (observe_cancelled rid i e)"
    using Cons.prems by (auto simp: observe_cancelled_def)
  then show ?case using Cons.IH by simp
qed simp

lemma inv_maybe_complete: "inv R T e \<Longrightarrow> inv R T (maybe_complete rid e)"
  by (auto simp: maybe_complete_def split: option.splits dest: inv_finish)

lemma inv_cancel_run:
  assumes "inv R T e"
  shows "inv (R - {rid}) (T - {rid}) (cancel_run rid reason e)"
proof (cases "cancel_block rid reason e")
  case None
  then have "r_status r \<noteq> DRunning" if "get_run e rid = Some r" for r
    using that by (auto simp: cancel_block_def Let_def split: if_splits)
  then show ?thesis using inv_idle [OF assms] None by (simp add: cancel_run_def)
next
  case (Some b)
  obtain running cancelled s e1 where b: "b = (running, cancelled, s, e1)" by (cases b)
  have "inv (R - {rid}) (T - {rid}) (fold (cancel_token rid) running e1)"
    using inv_cancel [OF assms] Some b by blast
  then show ?thesis
    unfolding cancel_run_def Some b
    by (auto simp: Let_def intro: inv_observe_cancelled)
qed

text \<open>What a tick of run \<open>rid\<close> does to the invariant.\<close>

definition ticks :: "ustr \<Rightarrow> (engine \<Rightarrow> engine option) \<Rightarrow> bool" where
  "ticks rid tk \<longleftrightarrow>
     (\<forall>R T e e'. inv R T e \<longrightarrow> rid \<notin> R \<longrightarrow> tk e = Some e' \<longrightarrow> inv R (T - {rid}) e')"

lemma inv_after_node_terminal_with:
  assumes tk: "ticks rid tk" and e: "inv R T e"
    and res: "after_node_terminal_with tk rid nid e = Some e'"
  shows "inv (R - {rid}) (T - {rid}) e'"
proof (cases "get_run e rid")
  case None
  then show ?thesis
    using res inv_idle [OF e, of rid] by (simp add: after_node_terminal_with_def)
next
  case (Some run)
  let ?ff = "(case run_node run nid of None \<Rightarrow> False | Some n \<Rightarrow> n_status n = Failed) \<and> r_fail_fast run"
  show ?thesis
  proof (cases ?ff)
    case True
    then have "e' = cancel_run rid (Some (fail_fast_reason nid)) e"
      using Some res by (simp add: after_node_terminal_with_def)
    then show ?thesis using inv_cancel_run [OF e] by simp
  next
    case False
    then obtain e1 where e1: "tk (reconcile_run rid e) = Some e1" "e' = maybe_complete rid e1"
      using Some res by (auto simp: after_node_terminal_with_def Let_def bind_eq_Some_conv split: if_splits)
    have "inv (R - {rid}) (insert rid T - {rid}) e1"
      using tk inv_reconcile [OF e, of rid] e1(1) unfolding ticks_def by blast
    then show ?thesis using e1(2) inv_maybe_complete by simp
  qed
qed

lemma inv_on_node_completed_with:
  assumes tk: "ticks rid tk" and e: "inv R T e" and R: "rid \<notin> R"
    and res: "on_node_completed_with tk rid nid oc e = Some e'"
  shows "inv R T e'"
proof (cases "complete_block rid nid oc e")
  case None
  then show ?thesis using res e by (simp add: on_node_completed_with_def)
next
  case (Some b)
  obtain ev st e1 where b: "b = (ev, st, e1)" by (cases b)
  have 1: "inv (insert rid R) (insert rid T) (emit ev (finish_node_observation rid nid st e1))"
    using inv_complete [OF e] Some b by blast
  obtain e2 where
    e2: "after_node_terminal_with tk rid nid (emit ev (finish_node_observation rid nid st e1)) = Some e2"
      "e' = notify_persist e2"
    using Some b res by (auto simp: on_node_completed_with_def bind_eq_Some_conv)
  have "inv (insert rid R - {rid}) (insert rid T - {rid}) e2"
    by (rule inv_after_node_terminal_with [OF tk 1 e2(1)])
  then have "inv R (T - {rid}) e2" using R by simp
  then show ?thesis using e2(2) by (auto intro: inv_mono)
qed

lemma inv_start_node_with:
  assumes tk: "ticks rid tk" and e: "inv R T e" and R: "rid \<notin> R" and nxt: "next_ready rid e = Some nid"
    and res: "start_node_with tk rid nid e = Some e'"
  shows "inv R (insert rid T) e'"
proof (cases "start_block rid nid e")
  case None
  then show ?thesis using res e by (auto simp: start_node_with_def intro: inv_mono)
next
  case (Some b)
  obtain l e1 where b: "b = (l, e1)" by (cases b)
  have "inv R (insert rid T) (begin_node_observation rid nid e1)"
    using inv_start [OF e R nxt] Some b by blast
  note completed = inv_on_node_completed_with [OF tk this R]
  show ?thesis
    using res completed \<open>inv R (insert rid T) (begin_node_observation rid nid e1)\<close> Some b
    by (auto simp: start_node_with_def Let_def split: option.splits launch_result.splits)
qed

lemma ticks_tick_f: "ticks rid (tick_f fuel rid)"
proof (induction fuel)
  case 0
  show ?case by (auto simp: ticks_def inv_exit split: option.splits)
next
  case (Suc fuel)
  show ?case
    unfolding ticks_def
  proof (intro allI impI)
    fix R T e e'
    assume e: "inv R T e" and R: "rid \<notin> R" and res: "tick_f (Suc fuel) rid e = Some e'"
    show "inv R (T - {rid}) e'"
    proof (cases "next_ready rid e")
      case None
      then show ?thesis using res e by (simp add: inv_exit)
    next
      case (Some nid)
      then obtain e1 where e1: "start_node_with (tick_f fuel rid) rid nid e = Some e1"
          "tick_f fuel rid e1 = Some e'"
        using res by (auto simp: bind_eq_Some_conv)
      have "inv R (insert rid T) e1"
        by (rule inv_start_node_with [OF Suc.IH e R Some e1(1)])
      then have "inv R (insert rid T - {rid}) e'"
        using Suc.IH R e1(2) unfolding ticks_def by blast
      then show ?thesis by simp
    qed
  qed
qed

lemma ticks_tick: "ticks rid (tick rid)"
  using ticks_tick_f unfolding ticks_def tick_def by blast

lemma inv_tick: "inv R T e \<Longrightarrow> rid \<notin> R \<Longrightarrow> tick rid e = Some e' \<Longrightarrow> inv R (T - {rid}) e'"
  using ticks_tick unfolding ticks_def by blast

lemma inv_reconcile_tick:
  "inv R T e \<Longrightarrow> tick rid (reconcile_run rid e) = Some e' \<Longrightarrow> inv (R - {rid}) (T - {rid}) e'"
  using inv_tick [of "R - {rid}" "insert rid T" "reconcile_run rid e" rid e'] inv_reconcile by simp

lemma inv_on_node_completed: "inv {} {} e \<Longrightarrow> on_node_completed rid nid oc e = Some e' \<Longrightarrow> inv {} {} e'"
  unfolding on_node_completed_def by (rule inv_on_node_completed_with [OF ticks_tick]) auto

lemma inv_after_node_terminal:
  "inv R T e \<Longrightarrow> after_node_terminal rid nid e = Some e' \<Longrightarrow> inv (R - {rid}) (T - {rid}) e'"
  unfolding after_node_terminal_def by (rule inv_after_node_terminal_with [OF ticks_tick])

end

subsection \<open>The operations of the engine as steps\<close>

text \<open>
  The callers' side of the contract. The goal operations are called with the id of a goal run,
  and \<open>complete_goal\<close> with a terminal status (both hold of the calls in \<^verbatim>\<open>goal.rs\<close>). A persisted
  run comes from a snapshot of an engine: its id is a generated one, its node ids are distinct,
  and a goal run has its one node.
\<close>

definition goal_only :: "ustr \<Rightarrow> engine \<Rightarrow> bool" where
  "goal_only rid e = (case get_run e rid of None \<Rightarrow> True | Some r \<Rightarrow> r_kind r = Goal)"

definition persisted_ok :: "persisted_run \<Rightarrow> bool" where
  "persisted_ok p \<longleftrightarrow>
     distinct (map pn_id (pr_nodes p)) \<and>
     (case pr_kind p of
        Dag \<Rightarrow> \<exists>k < 2 ^ 64. pr_id p = dag_id k
      | Goal \<Rightarrow> (\<exists>k. pr_id p = goal_id k) \<and> map pn_id (pr_nodes p) = [main_id])"

inductive api_step :: "engine \<Rightarrow> engine \<Rightarrow> bool" where
  s_plan: "plan def known session e = Some (res, e') \<Longrightarrow> api_step e e'"
| s_plan_goal: "api_step e (snd (plan_goal condition session e))"
| s_completed: "on_node_completed rid nid oc e = Some e' \<Longrightarrow> api_step e e'"
| s_update: "api_step e (on_node_update rid nid gen it ot preview e)"
| s_goal_tick: "goal_only rid e \<Longrightarrow> api_step e (snd (on_goal_tick rid iteration finished reason e))"
| s_evaluator: "api_step e (on_goal_evaluator_finished rid job e)"
| s_complete_goal: "goal_only rid e \<Longrightarrow> st = DFailed \<or> st = DCancelled \<Longrightarrow>
    api_step e (complete_goal rid st reason e)"
| s_maybe_complete: "api_step e (maybe_complete rid e)"
| s_cancel: "api_step e (cancel_run rid reason e)"
| s_abort: "api_step e (snd (abort_all_runs why e))"
| s_retry: "retry rid ids e = Some (reset, e') \<Longrightarrow> api_step e e'"
| s_skip: "skip rid nid e = Some (b, e') \<Longrightarrow> api_step e e'"
| s_restore: "list_all persisted_ok ps \<Longrightarrow> restore ps e = Some (restored, e') \<Longrightarrow> api_step e e'"
| s_rehome: "api_step e (snd (rehome_runs s1 s2 e))"
| s_clear_session: "api_step e (snd (clear_session_runs session keep e))"
| s_clear_run: "api_step e (snd (clear_run rid e))"
| s_wait: "api_step e (snd (wait_round rid now deadline idle e))"
| s_launcher: "api_step e (set_launcher l e)"
| s_session_launcher: "api_step e (set_session_launcher session l' e)"
| s_events: "api_step e (set_event_sender on e)"
| s_sink: "api_step e (set_persist_sink on e)"
| s_clock: "api_step e (e\<lparr>e_clock := t\<rparr>)"

inductive reachable :: "engine \<Rightarrow> bool" where
  r_new: "o_log observer = [] \<Longrightarrow> reachable (new_engine observer now)"
| r_step: "reachable e \<Longrightarrow> api_step e e' \<Longrightarrow> reachable e'"

definition skip_token :: "nat option \<Rightarrow> engine \<Rightarrow> engine" where
  "skip_token token e = (case token of None \<Rightarrow> e | Some t \<Rightarrow> e\<lparr>e_cancelled := t # e_cancelled e\<rparr>)"

locale api_invariant = engine_invariant +
  assumes inv_register: "inv {} {} e \<Longrightarrow> validate_graph (rd_nodes def) known = [] \<Longrightarrow>
      register_run ((build_run (e_clock e) def)\<lparr>r_session_id := session\<rparr>) e = (run, e') \<Longrightarrow>
      inv {r_id run} {r_id run} e'"
    and inv_register_goal: "inv {} {} e \<Longrightarrow> i = goal_id (e_goal_counter e + 1) \<Longrightarrow>
      inv {} {} (set_run i (goal_run (e_clock e) condition session i)
        (e\<lparr>e_goal_counter := e_goal_counter e + 1\<rparr>))"
    and inv_goal_tick: "inv {} {} e \<Longrightarrow> goal_only rid e \<Longrightarrow>
      goal_tick_block rid iteration finished reason e = Some (evs, s, e') \<Longrightarrow> inv {} {} e'"
    and inv_evaluator: "inv {} {} e \<Longrightarrow> inv {} {} (on_goal_evaluator_finished rid job e)"
    and inv_complete_goal: "inv {} {} e \<Longrightarrow> goal_only rid e \<Longrightarrow> gst = DFailed \<or> gst = DCancelled \<Longrightarrow>
      complete_goal_block rid gst reason e = Some (evs, s, e') \<Longrightarrow> inv {} {} e'"
    and inv_update: "inv {} {} e \<Longrightarrow> inv {} {} (on_node_update rid nid gen it ot preview e)"
    and inv_rehome: "inv {} {} e \<Longrightarrow> inv {} {} (snd (rehome_runs s1 s2 e))"
    and inv_retry: "inv {} {} e \<Longrightarrow> retry_block rid node_ids e = Some (reset, e') \<Longrightarrow> inv {rid} {rid} e'"
    and inv_skip: "inv {} {} e \<Longrightarrow> skip_block rid nid e = Some (token, ev, e') \<Longrightarrow>
      inv {rid} {rid} (skip_token token e')"
    and inv_restore_one: "inv (set ids) (set ids) e \<Longrightarrow> persisted_ok p \<Longrightarrow>
      restore_one p (ids, e) = (ids', e') \<Longrightarrow> inv (set ids') (set ids') e'"
    and inv_new: "o_log observer = [] \<Longrightarrow> inv {} {} (new_engine observer now)"
begin

lemma inv_plan:
  assumes e: "inv {} {} e" and res: "plan def known session e = Some (out, e')"
  shows "inv {} {} e'"
proof (cases "validate_graph (rd_nodes def) known = []")
  case False
  then show ?thesis using e res by (simp add: plan_def Let_def)
next
  case True
  obtain run e1 where reg: "register_run ((build_run (e_clock e) def)\<lparr>r_session_id := session\<rparr>) e = (run, e1)"
    by (cases "register_run ((build_run (e_clock e) def)\<lparr>r_session_id := session\<rparr>) e")
  then obtain e2 where e2: "tick (r_id run) (reconcile_run (r_id run) (begin_run_observation (r_id run) e1)) = Some e2"
      "e' = notify_persist e2"
    using res True by (auto simp: plan_def Let_def bind_eq_Some_conv)
  have "inv {r_id run} {r_id run} (begin_run_observation (r_id run) e1)"
    using inv_register [OF e True reg] by blast
  from inv_reconcile_tick [OF this e2(1)] show ?thesis using e2(2) by auto
qed

lemma inv_plan_goal: "inv {} {} e \<Longrightarrow> inv {} {} (snd (plan_goal condition session e))"
  using inv_register_goal [OF _ refl] by (auto simp: plan_goal_def Let_def)

lemma inv_on_goal_tick:
  "inv {} {} e \<Longrightarrow> goal_only rid e \<Longrightarrow> inv {} {} (snd (on_goal_tick rid iteration finished reason e))"
  by (auto simp: on_goal_tick_def Let_def split: option.splits intro!: inv_emits dest: inv_goal_tick)

lemma inv_observe_goal_end: "inv R T e \<Longrightarrow> inv R T (observe_goal_end rid e)"
  by (auto simp: observe_goal_end_def split: option.splits)

lemma inv_complete_goal_op:
  "inv {} {} e \<Longrightarrow> goal_only rid e \<Longrightarrow> st = DFailed \<or> st = DCancelled \<Longrightarrow>
   inv {} {} (complete_goal rid st reason e)"
  by (auto simp: complete_goal_def split: option.splits
      intro!: inv_observe_goal_end inv_emits dest: inv_complete_goal)

lemma inv_retry_op:
  assumes e: "inv {} {} e" and res: "retry rid ids e = Some (reset, e')"
  shows "inv {} {} e'"
proof (cases "retry_block rid ids e")
  case None
  then show ?thesis using e res by (simp add: retry_def)
next
  case (Some b)
  obtain to_reset e1 where b: "b = (to_reset, e1)" by (cases b)
  then obtain e2 where e2: "tick rid (reconcile_run rid (begin_run_observation rid e1)) = Some e2"
      "e' = notify_persist (maybe_complete rid e2)"
    using res Some by (auto simp: retry_def bind_eq_Some_conv)
  have "inv {rid} {rid} (begin_run_observation rid e1)"
    using inv_retry [OF e] Some b by blast
  from inv_reconcile_tick [OF this e2(1)] show ?thesis using e2(2) inv_maybe_complete by auto
qed

lemma inv_skip_op:
  assumes e: "inv {} {} e" and res: "skip rid nid e = Some (b, e')"
  shows "inv {} {} e'"
proof (cases "skip_block rid nid e")
  case None
  then show ?thesis using e res by (simp add: skip_def)
next
  case (Some blk)
  obtain token ev e1 where blk: "blk = (token, ev, e1)" by (cases blk)
  let ?e3 = "emit ev (finish_node_observation rid nid Skipped (begin_node_observation rid nid (skip_token token e1)))"
  obtain e4 where e4: "after_node_terminal rid nid ?e3 = Some e4" "e' = notify_persist e4"
    using res Some blk by (auto simp: skip_def Let_def bind_eq_Some_conv skip_token_def)
  have "inv {rid} {rid} ?e3" using inv_skip [OF e] Some blk by blast
  from inv_after_node_terminal [OF this e4(1)] show ?thesis using e4(2) by auto
qed

lemma inv_cancel_all: "inv {} {} e \<Longrightarrow> inv {} {} (fold (\<lambda>i. cancel_run i reason) ids e)"
proof (induction ids arbitrary: e)
  case (Cons i ids)
  then show ?case using Cons.IH inv_cancel_run [OF Cons.prems, of i reason] by simp
qed simp

lemma inv_abort: "inv {} {} e \<Longrightarrow> inv {} {} (snd (abort_all_runs why e))"
  by (simp add: abort_all_runs_def Let_def inv_cancel_all)

lemma inv_restore_start:
  "inv R T e \<Longrightarrow> restore_start rid e = Some e' \<Longrightarrow> inv (R - {rid}) (T - {rid}) e'"
  by (rule inv_reconcile_tick [of _ _ "case get_run e rid of
        Some run \<Rightarrow> if r_status run = DRunning then begin_run_observation rid e else e | None \<Rightarrow> e"])
    (auto simp: restore_start_def split: option.splits)

lemma inv_restore_all:
  "inv R T e \<Longrightarrow> restore_all rids e = Some e' \<Longrightarrow> inv (R - set rids) (T - set rids) e'"
proof (induction rids arbitrary: R T e)
  case (Cons rid rids)
  from Cons.prems(2) obtain e1 where "restore_start rid e = Some e1" "restore_all rids e1 = Some e'"
    by (auto simp: bind_eq_Some_conv)
  with Cons.IH [OF inv_restore_start [OF Cons.prems(1)]] show ?case
    by (simp add: Diff_insert2 [symmetric] insert_commute)
qed auto

lemma inv_restore_fold:
  "inv (set ids) (set ids) e \<Longrightarrow> list_all persisted_ok ps \<Longrightarrow> fold restore_one ps (ids, e) = (ids', e') \<Longrightarrow>
   inv (set ids') (set ids') e'"
proof (induction ps arbitrary: ids e)
  case (Cons p ps)
  obtain ids1 e1 where step: "restore_one p (ids, e) = (ids1, e1)" by fastforce
  have "inv (set ids1) (set ids1) e1"
    using inv_restore_one [OF Cons.prems(1) _ step] Cons.prems(2) by simp
  then show ?case using Cons.IH [of ids1 e1] Cons.prems(2,3) step by simp
qed auto

lemma inv_restore:
  assumes e: "inv {} {} e" and ps: "list_all persisted_ok ps" and res: "restore ps e = Some (restored, e')"
  shows "inv {} {} e'"
proof -
  obtain ids e1 where f: "fold restore_one ps ([], e) = (ids, e1)" by fastforce
  then obtain e2 where e2: "restore_all ids e1 = Some e2" "e' = (if ids \<noteq> [] then notify_persist e2 else e2)"
    using res by (auto simp: restore_def Let_def bind_eq_Some_conv)
  have "inv (set ids) (set ids) e1" using inv_restore_fold [OF _ ps f] e by simp
  from inv_restore_all [OF this e2(1)] show ?thesis using e2(2) by auto
qed

theorem inv_step: "api_step e e' \<Longrightarrow> inv {} {} e \<Longrightarrow> inv {} {} e'"
proof (induction rule: api_step.induct)
  case (s_wait e rid now deadline idle)
  then show ?case
    by (auto simp: wait_round_def Let_def split: option.splits intro: inv_quiet [OF _ q_waiter])
next
  case (s_clear_session e session keep)
  then show ?case using inv_remove [of "{}" "{}" e "[]"] inv_remove_sorted
    by (auto simp: clear_session_runs_def Let_def)
next
  case (s_clear_run e rid)
  then show ?case by (auto simp: clear_run_def run_terminal_iff split: option.splits intro!: inv_remove inv_effects)
next
  case (s_cancel e rid reason)
  then show ?case using inv_cancel_run [of "{}" "{}"] by simp
qed (blast intro: inv_plan inv_plan_goal inv_on_node_completed inv_update inv_on_goal_tick inv_evaluator
      inv_complete_goal_op inv_maybe_complete inv_abort inv_retry_op inv_skip_op inv_restore inv_rehome
      inv_quiet q_launcher q_session_launcher q_events q_sink q_clock)+

theorem inv_reachable: "reachable e \<Longrightarrow> inv {} {} e"
  by (induction rule: reachable.induct) (auto intro: inv_new inv_step)

end

subsection \<open>Invariants of single runs\<close>

definition all_runs :: "(ustr \<Rightarrow> dag_run \<Rightarrow> bool) \<Rightarrow> engine \<Rightarrow> bool" where
  "all_runs P e \<longleftrightarrow> hm_ok (e_runs e) \<and> (\<forall>k r. get_run e k = Some r \<longrightarrow> P k r)"

lemma all_runsD: "all_runs P e \<Longrightarrow> get_run e k = Some r \<Longrightarrow> P k r"
  by (simp add: all_runs_def)

lemma all_runs_mono: "all_runs P e \<Longrightarrow> (\<And>k r. get_run e k = Some r \<Longrightarrow> P k r \<Longrightarrow> Q k r) \<Longrightarrow> all_runs Q e"
  by (simp add: all_runs_def)

lemma all_runs_cong: "all_runs P e \<Longrightarrow> e_runs e' = e_runs e \<Longrightarrow> all_runs P e'"
  by (simp add: all_runs_def get_run_def)

lemma all_runs_set_run:
  assumes "all_runs P e" and "Q rid r" and "\<And>k r. k \<noteq> rid \<Longrightarrow> P k r \<Longrightarrow> Q k r"
  shows "all_runs Q (set_run rid r e)"
  using assms by (auto simp: all_runs_def)

lemma all_runs_remove: "all_runs P e \<Longrightarrow> all_runs P (remove_runs ids e)"
  by (auto simp: all_runs_def get_run_remove_runs remove_runs_ok)

lemma cancel_tokens_runs [simp]: "e_runs (fold (cancel_token rid) ids e) = e_runs e"
  by (induction ids arbitrary: e) (auto simp: cancel_token_def split: option.splits)

definition cancelled_run :: "int \<Rightarrow> ustr option \<Rightarrow> dag_run \<Rightarrow> dag_run" where
  "cancelled_run now err r =
     emit_state now (r\<lparr>r_error := err, r_nodes := map (cancel_node now err) (r_nodes r),
                       r_status := DCancelled, r_completed_at := Some now\<rparr>)"

definition finished_run :: "int \<Rightarrow> dag_run \<Rightarrow> dag_run" where
  "finished_run now r =
     emit_state now (r\<lparr>r_status := (if list_ex (\<lambda>n. n_status n = Failed \<or> n_status n = Cancelled) (r_nodes r)
                                   then DFailed else DCompleted), r_completed_at := Some now\<rparr>)"

definition goal_ticked_run :: "int \<Rightarrow> nat \<Rightarrow> bool \<Rightarrow> ustr option \<Rightarrow> dag_run \<Rightarrow> dag_run" where
  "goal_ticked_run now iteration finished reason r =
     (let r1 = run_node_mut main_id (goal_tick_node now iteration finished reason) r
      in emit_state now (if finished then r1\<lparr>r_status := DCompleted, r_completed_at := Some now\<rparr> else r1))"

definition completed_goal :: "int \<Rightarrow> dag_status \<Rightarrow> ustr option \<Rightarrow> dag_run \<Rightarrow> dag_run" where
  "completed_goal now st reason r =
     emit_state now (run_node_mut main_id (complete_goal_node now st reason)
       (r\<lparr>r_status := st, r_completed_at := Some now, r_error := reason\<rparr>))"

definition startable :: "dag_run \<Rightarrow> bool" where
  "startable r \<longleftrightarrow> r_status r = DRunning \<and> running_count r < r_max_concurrency r \<and>
     (\<exists>n\<in>set (r_nodes r). n_status n = Ready)"

lemma next_ready_None: "next_ready rid e = None \<longleftrightarrow> (\<forall>r. get_run e rid = Some r \<longrightarrow> \<not> startable r)"
  by (auto simp: next_ready_def startable_def find_None_iff not_le split: option.splits)

lemma next_ready_Some:
  "next_ready rid e = Some nid \<Longrightarrow>
   \<exists>r. get_run e rid = Some r \<and> startable r \<and> (\<exists>n\<in>set (r_nodes r). n_id n = nid \<and> n_status n = Ready)"
  by (auto simp: next_ready_def startable_def find_Some_iff not_le split: option.splits if_splits)

text \<open>
  The laws at the level of runs. \<open>P u t k r\<close>: the run \<open>r\<close> under the id \<open>k\<close> is as it should be;
  \<open>u\<close> says that it has not been reconciled since a status changed, \<open>t\<close> that it may have nodes to
  start.
\<close>

locale run_invariant =
  fixes P :: "bool \<Rightarrow> bool \<Rightarrow> ustr \<Rightarrow> dag_run \<Rightarrow> bool"
  assumes P_mono: "P u t k r \<Longrightarrow> P u True k r"
    and P_start: "P False t k r \<Longrightarrow> startable r \<Longrightarrow> run_node r nid = Some n \<Longrightarrow> n_status n = Ready \<Longrightarrow>
      P False True k (emit_state now (run_node_mut nid (start_mark now k) r))"
    and P_exit: "P u t k r \<Longrightarrow> \<not> startable r \<Longrightarrow> P u False k r"
    and P_complete: "P u t k r \<Longrightarrow> run_node r nid = Some n \<Longrightarrow> n_status n = Running \<Longrightarrow>
      P True True k (emit_state now (run_node_mut nid (complete_node now oc) r))"
    and P_reconcile: "P u t k r \<Longrightarrow> P False True k (emit_state now (reconcile now r))"
    and P_cancel: "P u t k r \<Longrightarrow> r_status r = DRunning \<Longrightarrow> P False False k (cancelled_run now err r)"
    and P_idle: "P u t k r \<Longrightarrow> r_status r \<noteq> DRunning \<Longrightarrow> P False False k r"
    and P_finish: "P u t k r \<Longrightarrow> r_status r = DRunning \<Longrightarrow>
      list_all (\<lambda>n. is_terminal (n_status n)) (r_nodes r) \<Longrightarrow> P u t k (finished_run now r)"
begin

definition runs_inv :: "ustr set \<Rightarrow> ustr set \<Rightarrow> engine \<Rightarrow> bool" where
  "runs_inv R T e \<longleftrightarrow> all_runs (\<lambda>k. P (k \<in> R) (k \<in> T) k) e"

lemma runs_inv_set_run:
  assumes "runs_inv R T e" and "P (rid \<in> R') (rid \<in> T') rid r" and "R' - {rid} = R - {rid}" and "T' - {rid} = T - {rid}"
  shows "runs_inv R' T' (set_run rid r e)"
  unfolding runs_inv_def
proof (rule all_runs_set_run)
  show "all_runs (\<lambda>k. P (k \<in> R) (k \<in> T) k) e" using assms(1) by (simp add: runs_inv_def)
  show "P (rid \<in> R') (rid \<in> T') rid r" by (rule assms(2))
  fix k r assume "k \<noteq> rid" and P: "P (k \<in> R) (k \<in> T) k r"
  then have "k \<in> R' \<longleftrightarrow> k \<in> R" and "k \<in> T' \<longleftrightarrow> k \<in> T" using assms(3,4) by blast+
  with P show "P (k \<in> R') (k \<in> T') k r" by simp
qed

lemma runs_inv_get: "runs_inv R T e \<Longrightarrow> get_run e k = Some r \<Longrightarrow> P (k \<in> R) (k \<in> T) k r"
  unfolding runs_inv_def by (rule all_runsD)

lemma runs_inv_change:
  assumes "runs_inv R T e"
    and "\<And>k r. get_run e k = Some r \<Longrightarrow> P (k \<in> R) (k \<in> T) k r \<Longrightarrow> P (k \<in> R') (k \<in> T') k r"
  shows "runs_inv R' T' e"
  using assms unfolding runs_inv_def by (rule all_runs_mono)

lemma runs_inv_cong: "runs_inv R T e \<Longrightarrow> e_runs e' = e_runs e \<Longrightarrow> runs_inv R T e'"
  unfolding runs_inv_def by (rule all_runs_cong)

end

sublocale run_invariant \<subseteq> engine_invariant runs_inv
proof
  fix R T T' e e' rid nid l oc ev st reason running cancelled s rst ids
  show "runs_inv R T' e" if inv: "runs_inv R T e" and T: "T \<subseteq> T'"
  proof (rule runs_inv_change [OF inv])
    fix k r assume "P (k \<in> R) (k \<in> T) k r"
    then show "P (k \<in> R) (k \<in> T') k r"
      using T P_mono [of "k \<in> R" "k \<in> T" k r] by (cases "k \<in> T"; cases "k \<in> T'") auto
  qed
  show "runs_inv R T e'" if "runs_inv R T e" "quiet e e'"
    using that by (auto intro: runs_inv_cong simp: quiet_core)
  show "runs_inv R (insert rid T) e'"
    if inv: "runs_inv R T e" and R: "rid \<notin> R" and nxt: "next_ready rid e = Some nid"
      and b: "start_block rid nid e = Some (l, e')"
  proof -
    obtain r n where r: "get_run e rid = Some r" "startable r" "run_node r nid = Some n" "n_status n = Ready"
      using next_ready_Some [OF nxt] b by (auto simp: start_block_def split: option.splits if_splits)
    have e': "e_runs e' = e_runs (set_run rid (emit_state (e_clock e) (run_node_mut nid (start_mark (e_clock e) rid) r)) e)"
      using b r by (auto simp: start_block_def Let_def)
    have "runs_inv R (insert rid T) (set_run rid (emit_state (e_clock e) (run_node_mut nid (start_mark (e_clock e) rid) r)) e)"
      by (rule runs_inv_set_run [OF inv]) (use R P_start [OF _ r(2-4)] runs_inv_get [OF inv r(1)] in auto)
    then show ?thesis using e' by (rule runs_inv_cong)
  qed
  show "runs_inv R (T - {rid}) e" if inv: "runs_inv R T e" and nxt: "next_ready rid e = None"
  proof (rule runs_inv_change [OF inv])
    fix k r assume "get_run e k = Some r" and "P (k \<in> R) (k \<in> T) k r"
    then show "P (k \<in> R) (k \<in> T - {rid}) k r"
      using nxt P_exit by (cases "k = rid") (auto simp: next_ready_None)
  qed
  show "runs_inv (insert rid R) (insert rid T) e'"
    if inv: "runs_inv R T e" and b: "complete_block rid nid oc e = Some (ev, st, e')"
  proof -
    obtain r n where r: "get_run e rid = Some r" "run_node r nid = Some n" "n_status n = Running"
      and e': "e_runs e' = e_runs (set_run rid (emit_state (e_clock e) (run_node_mut nid (complete_node (e_clock e) oc) r)) e)"
      using b by (auto simp: complete_block_def Let_def split: option.splits if_splits)
    have "runs_inv (insert rid R) (insert rid T) (set_run rid (emit_state (e_clock e) (run_node_mut nid (complete_node (e_clock e) oc) r)) e)"
      by (rule runs_inv_set_run [OF inv]) (use P_complete [OF runs_inv_get [OF inv r(1)] r(2,3)] in auto)
    then show ?thesis using e' by (rule runs_inv_cong)
  qed
  show "runs_inv (R - {rid}) (insert rid T) (reconcile_run rid e)" if inv: "runs_inv R T e"
  proof (cases "get_run e rid")
    case None
    have "runs_inv (R - {rid}) (insert rid T) e"
    proof (rule runs_inv_change [OF inv])
      fix k r assume "get_run e k = Some r" and "P (k \<in> R) (k \<in> T) k r"
      then show "P (k \<in> R - {rid}) (k \<in> insert rid T) k r"
        using None by (cases "k = rid") auto
    qed
    then show ?thesis using None by (simp add: reconcile_run_def)
  next
    case (Some r)
    then show ?thesis
      using inv P_reconcile [OF runs_inv_get [OF inv Some]] unfolding reconcile_run_def
      by (auto intro!: runs_inv_set_run)
  qed
  show "runs_inv (R - {rid}) (T - {rid}) (fold (cancel_token rid) running e')"
    if inv: "runs_inv R T e" and b: "cancel_block rid reason e = Some (running, cancelled, s, e')"
  proof -
    obtain r where r: "get_run e rid = Some r" "r_status r = DRunning"
      and e': "e' = set_run rid (cancelled_run (e_clock e) (Some (cancel_reason reason)) r) e"
      using b by (auto simp: cancel_block_def cancelled_run_def Let_def split: option.splits if_splits)
    have "runs_inv (R - {rid}) (T - {rid}) e'"
      unfolding e' by (rule runs_inv_set_run [OF inv]) (use P_cancel [OF runs_inv_get [OF inv r(1)] r(2)] in auto)
    then show ?thesis by (rule runs_inv_cong) simp
  qed
  show "runs_inv (R - {rid}) (T - {rid}) e"
    if inv: "runs_inv R T e" and idle: "\<And>r. get_run e rid = Some r \<Longrightarrow> r_status r \<noteq> DRunning"
  proof (rule runs_inv_change [OF inv])
    fix k r assume "get_run e k = Some r" and "P (k \<in> R) (k \<in> T) k r"
    then show "P (k \<in> R - {rid}) (k \<in> T - {rid}) k r"
      using idle P_idle by (cases "k = rid") auto
  qed
  show "runs_inv R T e'" if inv: "runs_inv R T e" and b: "maybe_complete_block rid e = Some (ev, rst, s, e')"
  proof -
    obtain r where r: "get_run e rid = Some r" "r_status r = DRunning"
        "list_all (\<lambda>n. is_terminal (n_status n)) (r_nodes r)"
      and e': "e' = set_run rid (finished_run (e_clock e) r) e"
      using b by (auto simp: maybe_complete_block_def finished_run_def Let_def split: option.splits if_splits)
    show ?thesis
      unfolding e' by (rule runs_inv_set_run [OF inv]) (use P_finish [OF runs_inv_get [OF inv r(1)] r(2,3)] in auto)
  qed
  show "runs_inv R T (remove_runs ids e)" if "runs_inv R T e"
    using that unfolding runs_inv_def by (rule all_runs_remove)
  show "hm_ok (e_runs e)" if "runs_inv R T e"
    using that by (simp add: runs_inv_def all_runs_def)
qed

lemma get_run_rehome:
  "get_run (snd (rehome_runs s1 s2 e)) k =
     map_option (\<lambda>run. if r_session_id run = Some s1
                       then run\<lparr>r_session_id := Some s2, r_last_activity_at := e_clock e\<rparr> else run)
       (get_run e k)"
  by (simp add: rehome_runs_def get_run_def Let_def map_of_map)

lemma rehome_ok: "hm_ok (e_runs (snd (rehome_runs s1 s2 e))) = hm_ok (e_runs e)"
  by (simp add: rehome_runs_def hm_ok_def Let_def comp_def case_prod_beta)

lemma skip_token_runs [simp]: "e_runs (skip_token token e) = e_runs e"
  by (simp add: skip_token_def split: option.splits)

text \<open>The laws for the operations outside the scheduler.\<close>

locale run_api_invariant = run_invariant +
  assumes P_new: "validate_graph (rd_nodes def) known = [] \<Longrightarrow>
      P True True (dag_id c) ((build_run now def)\<lparr>r_session_id := session, r_id := dag_id c, r_last_activity_at := now\<rparr>)"
    and P_goal: "P False False (goal_id c) (goal_run now condition session (goal_id c))"
    and P_goal_tick: "P False False k r \<Longrightarrow> r_kind r = Goal \<Longrightarrow>
      P False False k (goal_ticked_run now iteration finished reason r)"
    and P_evaluator: "P False False k r \<Longrightarrow> P False False k (run_node_mut main_id (\<lambda>n. n\<lparr>n_job_id := job\<rparr>) r)"
    and P_complete_goal: "P False False k r \<Longrightarrow> r_kind r = Goal \<Longrightarrow> st = DFailed \<or> st = DCancelled \<Longrightarrow>
      r_status r = DRunning \<Longrightarrow> P False False k (completed_goal now st reason r)"
    and P_update: "P False False k r \<Longrightarrow>
      P False False k ((run_node_mut nid (update_node now it ot preview) r)\<lparr>r_last_activity_at := now\<rparr>)"
    and P_rehome: "P False False k r \<Longrightarrow> P False False k (r\<lparr>r_session_id := session, r_last_activity_at := now\<rparr>)"
    and P_retry: "P False False k r \<Longrightarrow>
      P True True k (emit_state now (reopen_run (fold (\<lambda>i r. run_node_mut i reset_node r) ids r)))"
    and P_skip: "P False False k r \<Longrightarrow>
      P True True k (emit_state now (reopen_run (run_node_mut nid (skip_mark now w) (fold release_blocked ids r))))"
    and P_hydrate: "persisted_ok p \<Longrightarrow> P True True (pr_id p) (hydrate now p)"

sublocale run_api_invariant \<subseteq> api_invariant runs_inv
proof
  fix R T e e' rid nid l st reason s def known session run i condition iteration finished evs job gst
    gen it ot preview s1 s2 node_ids reset token ev p ids ids' observer now
  show "runs_inv {r_id run} {r_id run} e'"
    if inv: "runs_inv {} {} e" and valid: "validate_graph (rd_nodes def) known = []"
      and reg: "register_run ((build_run (e_clock e) def)\<lparr>r_session_id := session\<rparr>) e = (run, e')"
  proof -
    let ?i = "dag_id (e_dag_counter e + 1)"
    let ?r = "(build_run (e_clock e) def)\<lparr>r_session_id := session, r_id := ?i, r_last_activity_at := e_clock e\<rparr>"
    have run: "run = ?r" "e' = set_run ?i ?r (e\<lparr>e_dag_counter := e_dag_counter e + 1\<rparr>)"
      using reg by (auto simp: register_run_def Let_def)
    have "runs_inv {} {} (e\<lparr>e_dag_counter := e_dag_counter e + 1\<rparr>)"
      using inv by (rule runs_inv_cong) simp
    then have "runs_inv {?i} {?i} (set_run ?i ?r (e\<lparr>e_dag_counter := e_dag_counter e + 1\<rparr>))"
      by (rule runs_inv_set_run) (use P_new [OF valid] in auto)
    then show ?thesis unfolding run by simp
  qed
  show "runs_inv {} {} (set_run i (goal_run (e_clock e) condition session i) (e\<lparr>e_goal_counter := e_goal_counter e + 1\<rparr>))"
    if inv: "runs_inv {} {} e" and i: "i = goal_id (e_goal_counter e + 1)"
  proof -
    have "runs_inv {} {} (e\<lparr>e_goal_counter := e_goal_counter e + 1\<rparr>)"
      using inv by (rule runs_inv_cong) simp
    then show ?thesis by (rule runs_inv_set_run) (use P_goal i in auto)
  qed
  show "runs_inv {} {} e'" if inv: "runs_inv {} {} e" and g: "goal_only rid e"
    and b: "goal_tick_block rid iteration finished reason e = Some (evs, s, e')"
  proof -
    obtain r where r: "get_run e rid = Some r"
      and e': "e' = set_run rid (goal_ticked_run (e_clock e) iteration finished reason r) e"
      using b by (auto simp: goal_tick_block_def goal_ticked_run_def Let_def split: option.splits if_splits)
    have "r_kind r = Goal" using g r by (simp add: goal_only_def)
    then show ?thesis unfolding e'
      by (intro runs_inv_set_run [OF inv]) (use P_goal_tick runs_inv_get [OF inv r] in auto)
  qed
  show "runs_inv {} {} (on_goal_evaluator_finished rid job e)" if inv: "runs_inv {} {} e"
    using inv P_evaluator runs_inv_get [OF inv]
    by (auto simp: on_goal_evaluator_finished_def split: option.splits intro!: runs_inv_set_run)
  show "runs_inv {} {} e'" if inv: "runs_inv {} {} e" and g: "goal_only rid e" and st: "gst = DFailed \<or> gst = DCancelled"
    and b: "complete_goal_block rid gst reason e = Some (evs, s, e')"
  proof -
    obtain r where r: "get_run e rid = Some r" "r_status r = DRunning"
      and e': "e' = set_run rid (completed_goal (e_clock e) gst reason r) e"
      using b by (auto simp: complete_goal_block_def completed_goal_def Let_def split: option.splits if_splits)
    have "r_kind r = Goal" using g r by (simp add: goal_only_def)
    then show ?thesis unfolding e'
      by (intro runs_inv_set_run [OF inv]) (use P_complete_goal [OF _ _ st r(2)] runs_inv_get [OF inv r(1)] in auto)
  qed
  show "runs_inv {} {} (on_node_update rid nid gen it ot preview e)" if inv: "runs_inv {} {} e"
    using inv P_update runs_inv_get [OF inv]
    by (auto simp: on_node_update_def split: option.splits intro!: runs_inv_set_run inv_effects)
  show "runs_inv {} {} (snd (rehome_runs s1 s2 e))" if inv: "runs_inv {} {} e"
    using inv P_rehome unfolding runs_inv_def all_runs_def
    by (auto simp: get_run_rehome rehome_ok)
  show "runs_inv {rid} {rid} e'" if inv: "runs_inv {} {} e" and b: "retry_block rid node_ids e = Some (reset, e')"
  proof -
    obtain r where r: "get_run e rid = Some r"
      and e': "e' = set_run rid (emit_state (e_clock e)
          (reopen_run (fold (\<lambda>i r. run_node_mut i reset_node r) (retry_set r node_ids) r))) e"
      using b by (auto simp: retry_block_def Let_def split: option.splits)
    show ?thesis unfolding e'
      by (rule runs_inv_set_run [OF inv]) (use P_retry runs_inv_get [OF inv r] in auto)
  qed
  show "runs_inv {rid} {rid} (skip_token token e')"
    if inv: "runs_inv {} {} e" and b: "skip_block rid nid e = Some (token, ev, e')"
  proof -
    obtain r w cl where r: "get_run e rid = Some r"
      and e': "e_runs e' = e_runs (set_run rid (emit_state (e_clock e)
          (reopen_run (run_node_mut nid (skip_mark (e_clock e) w) (fold release_blocked cl r)))) e)"
      using b by (auto simp: skip_block_def Let_def split: option.splits if_splits)
        (metis fold_simps(1) id_apply)+
    have "runs_inv {rid} {rid} (set_run rid (emit_state (e_clock e)
          (reopen_run (run_node_mut nid (skip_mark (e_clock e) w) (fold release_blocked cl r)))) e)"
      by (rule runs_inv_set_run [OF inv]) (use P_skip runs_inv_get [OF inv r] in auto)
    then show ?thesis by (rule runs_inv_cong) (simp add: e')
  qed
  show "runs_inv (set ids') (set ids') e'"
    if inv: "runs_inv (set ids) (set ids) e" and p: "persisted_ok p" and res: "restore_one p (ids, e) = (ids', e')"
  proof (cases "get_run e (pr_id p)")
    case (Some r)
    then show ?thesis using inv res by (simp add: restore_one_def)
  next
    case None
    let ?e = "e\<lparr>e_dag_counter := max (e_dag_counter e) (max_run_counter [hydrate (e_clock e) p])\<rparr>"
    have e': "e' = set_run (pr_id p) (hydrate (e_clock e) p) ?e" "set ids' = insert (pr_id p) (set ids)"
      using None res by (auto simp: restore_one_def Let_def)
    have "runs_inv (set ids) (set ids) ?e" using inv by (rule runs_inv_cong) simp
    then show ?thesis unfolding e'
      by (rule runs_inv_set_run) (use P_hydrate [OF p] in auto)
  qed
  show "runs_inv {} {} (new_engine observer now)"
    by (simp add: runs_inv_def all_runs_def new_engine_def get_run_def)
qed

end
