(* ===== verification/Goal.thy ===== *)
theory Goal
  imports Session Dag_Invariant
begin

text \<open>
  The \<open>/goal\<close> stop hook, \<^verbatim>\<open>crates/theway-core/src/multiagent/goal.rs\<close>: a goal is the newest
  \<open>goal_state\<close> entry of the session; after a model turn the hook evaluates it with an agent run
  and mirrors the outcome to a goal run of the DAG engine.

  The hook works on a session (any storage) and an engine, the record \<open>goal_world\<close>. The evaluator
  run is the one await during which the rest of the program can act, so the hook is two
  definitions: \<open>hook_begin\<close> up to the run, \<open>hook_end\<close> from its result on. \<open>now k\<close> is the \<open>k\<close>-th
  reading of the clock. The JSON decoder of the evaluator's answer is third-party code and a
  parameter; the derived codec of \<open>GoalState\<close> is written out. A panic is the decision \<open>None\<close>.
\<close>

datatype goal_status = Pursuing | Paused | Achieved | BudgetLimited | Cleared

fun status_str :: "goal_status \<Rightarrow> ustr" where
  "status_str Pursuing = lit ''pursuing''"
| "status_str Paused = lit ''paused''"
| "status_str Achieved = lit ''achieved''"
| "status_str BudgetLimited = lit ''budget_limited''"
| "status_str Cleared = lit ''cleared''"

record goal_state =
  gs_condition :: ustr
  gs_status :: goal_status
  gs_iterations :: nat
  gs_last_reason :: "ustr option"
  gs_updated_at :: ustr

definition goal_active :: "goal_state \<Rightarrow> bool" where
  "goal_active g \<longleftrightarrow> gs_status g = Pursuing \<or> gs_status g = Paused \<or> gs_status g = BudgetLimited"

definition GOAL_CUSTOM_TYPE :: ustr where
  "GOAL_CUSTOM_TYPE = lit ''goal_state''"

definition TRANSCRIPT_CHAR_LIMIT :: nat where
  "TRANSCRIPT_CHAR_LIMIT = 40000"

definition MAX_CONTINUATIONS :: nat where
  "MAX_CONTINUATIONS = 8"

subsection \<open>The persisted form of a goal\<close>

definition goal_to_json :: "goal_state \<Rightarrow> json" where
  "goal_to_json g =
     JObj ([(lit ''condition'', JStr (gs_condition g)),
            (lit ''status'', JStr (status_str (gs_status g))),
            (lit ''iterations'', JNum (int (gs_iterations g)))] @
           (case gs_last_reason g of None \<Rightarrow> [] | Some r \<Rightarrow> [(lit ''last_reason'', JStr r)]) @
           [(lit ''updated_at'', JStr (gs_updated_at g))])"

definition status_of_str :: "ustr \<Rightarrow> goal_status option" where
  "status_of_str s = find (\<lambda>g. status_str g = s) [Pursuing, Paused, Achieved, BudgetLimited, Cleared]"

fun iterations_of :: "json option \<Rightarrow> nat option" where
  "iterations_of None = Some 0"
| "iterations_of (Some (JNum i)) = (if 0 \<le> i \<and> i < 2 ^ 32 then Some (nat i) else None)"
| "iterations_of (Some _) = None"

fun opt_str_of :: "json option \<Rightarrow> ustr option option" where
  "opt_str_of None = Some None"
| "opt_str_of (Some JNull) = Some None"
| "opt_str_of (Some (JStr s)) = Some (Some s)"
| "opt_str_of (Some _) = None"

definition goal_from_json :: "json \<Rightarrow> goal_state option" where
  "goal_from_json v =
     (case get_str v (lit ''condition'') of None \<Rightarrow> None | Some c \<Rightarrow>
      case Option.bind (get_str v (lit ''status'')) status_of_str of None \<Rightarrow> None | Some st \<Rightarrow>
      case iterations_of (json_get v (lit ''iterations'')) of None \<Rightarrow> None | Some n \<Rightarrow>
      case opt_str_of (json_get v (lit ''last_reason'')) of None \<Rightarrow> None | Some r \<Rightarrow>
      case get_str v (lit ''updated_at'') of None \<Rightarrow> None | Some u \<Rightarrow>
        Some \<lparr>gs_condition = c, gs_status = st, gs_iterations = n, gs_last_reason = r, gs_updated_at = u\<rparr>)"

fun goal_from_entry :: "session_entry \<Rightarrow> goal_state option" where
  "goal_from_entry (ECustom _ custom_type data) =
     (if custom_type \<noteq> GOAL_CUSTOM_TYPE then None else Option.bind data goal_from_json)"
| "goal_from_entry _ = None"

definition latest_from_entries :: "session_entry list \<Rightarrow> goal_state option" where
  "latest_from_entries entries = newest goal_from_entry entries"

definition goal_current :: "'s storage_ops \<Rightarrow> 's \<Rightarrow> goal_state option \<times> 's" where
  "goal_current ops s =
     (case so_get_entries ops s of
        (Inl _, s') \<Rightarrow> (None, s')
      | (Inr entries, s') \<Rightarrow>
          (Option.bind (latest_from_entries entries) (\<lambda>g. if gs_status g = Cleared then None else Some g), s'))"

definition append_state :: "'s storage_ops \<Rightarrow> ustr \<Rightarrow> goal_state \<Rightarrow> 's \<Rightarrow> (ustr + unit) \<times> 's" where
  "append_state ops now g s =
     (case append_custom ops now GOAL_CUSTOM_TYPE (Some (goal_to_json g)) s of
        (Inl err, s') \<Rightarrow> (Inl (se_message err), s')
      | (Inr _, s') \<Rightarrow> (Inr (), s'))"

subsection \<open>The commands\<close>

definition stored :: "'s storage_ops \<Rightarrow> ustr \<Rightarrow> goal_state \<Rightarrow> 's \<Rightarrow> (ustr + goal_state) \<times> 's" where
  "stored ops now g s =
     (case append_state ops now g s of (Inl err, s') \<Rightarrow> (Inl err, s') | (Inr _, s') \<Rightarrow> (Inr g, s'))"

definition goal_set :: "'s storage_ops \<Rightarrow> (nat \<Rightarrow> ustr) \<Rightarrow> ustr \<Rightarrow> 's \<Rightarrow> (ustr + goal_state) \<times> 's" where
  "goal_set ops now condition s =
     stored ops (now 1) \<lparr>gs_condition = condition, gs_status = Pursuing, gs_iterations = 0,
                         gs_last_reason = None, gs_updated_at = now 0\<rparr> s"

definition goal_pause :: "'s storage_ops \<Rightarrow> (nat \<Rightarrow> ustr) \<Rightarrow> 's \<Rightarrow> (ustr + goal_state) \<times> 's" where
  "goal_pause ops now s =
     (case goal_current ops s of
        (None, s') \<Rightarrow> (Inl (lit ''no active goal; set one with /goal <condition>''), s')
      | (Some g, s') \<Rightarrow> stored ops (now 1) (g\<lparr>gs_status := Paused, gs_updated_at := now 0\<rparr>) s')"

definition goal_resume :: "'s storage_ops \<Rightarrow> (nat \<Rightarrow> ustr) \<Rightarrow> 's \<Rightarrow> (ustr + goal_state) \<times> 's" where
  "goal_resume ops now s =
     (case goal_current ops s of
        (None, s') \<Rightarrow> (Inl (lit ''no paused goal; set one with /goal <condition>''), s')
      | (Some g, s') \<Rightarrow>
          if gs_status g \<noteq> Paused \<and> gs_status g \<noteq> BudgetLimited then (Inl (lit ''goal is not paused''), s')
          else stored ops (now 1) (g\<lparr>gs_status := Pursuing, gs_updated_at := now 0\<rparr>) s')"

definition goal_clear :: "'s storage_ops \<Rightarrow> (nat \<Rightarrow> ustr) \<Rightarrow> 's \<Rightarrow> (ustr + goal_state) \<times> 's" where
  "goal_clear ops now s =
     (case goal_current ops s of
        (found, s') \<Rightarrow>
          (let g = (case found of Some g \<Rightarrow> g
                    | None \<Rightarrow> \<lparr>gs_condition = [], gs_status = Cleared, gs_iterations = 0,
                               gs_last_reason = None, gs_updated_at = now 0\<rparr>)
           in stored ops (now 2) (g\<lparr>gs_status := Cleared, gs_updated_at := now 1\<rparr>) s'))"

subsection \<open>The transcript\<close>

definition tail_chars :: "ustr \<Rightarrow> nat \<Rightarrow> ustr" where
  "tail_chars t max_chars =
     (let count = length t
      in if count \<le> max_chars then t
         else lit ''[transcript truncated to last '' @ show_nat max_chars @ lit '' chars]'' @ [10] @
              drop (count - max_chars) t)"

definition user_content_text :: "user_content \<Rightarrow> ustr" where
  "user_content_text content =
     (case content of
        PlainText t \<Rightarrow> t
      | Blocks bs \<Rightarrow> join [10] (map (\<lambda>b. case b of UText t \<Rightarrow> tc_text t | UImage _ \<Rightarrow> lit ''[image]'') bs))"

fun assistant_block_text :: "content_block \<Rightarrow> ustr option" where
  "assistant_block_text (CText t) = Some (tc_text t)"
| "assistant_block_text (CThinking t) = Some (th_thinking t)"
| "assistant_block_text (CToolCall t) = Some (tl_name t)"
| "assistant_block_text (CImage _) = None"

definition show_bool :: "bool \<Rightarrow> ustr" where
  "show_bool b = (if b then lit ''true'' else lit ''false'')"

fun agent_message_text :: "agent_message \<Rightarrow> ustr option" where
  "agent_message_text (Custom _) = None"
| "agent_message_text (Llm (User u)) = Some (lit ''User: '' @ user_content_text (um_content u))"
| "agent_message_text (Llm (Assistant a)) =
     (let t = join [10] (List.map_filter assistant_block_text (am_content a))
      in if is_blank t then None else Some (lit ''Assistant: '' @ t))"
| "agent_message_text (Llm (ToolResult r)) =
     (let t = join [10] (block_texts (tr_content r))
      in if is_blank t then None
         else Some (lit ''ToolResult('' @ tr_tool_name r @ lit '' error='' @ show_bool (tr_is_error r) @ lit ''): '' @ t))"

definition transcript_from_messages :: "agent_message list \<Rightarrow> nat \<Rightarrow> ustr" where
  "transcript_from_messages messages max_chars =
     tail_chars (join [10, 10] (List.map_filter agent_message_text messages)) max_chars"

definition evaluator_user_prompt :: "ustr \<Rightarrow> ustr \<Rightarrow> ustr" where
  "evaluator_user_prompt condition transcript =
     lit ''Goal condition:'' @ [10] @ condition @ [10, 10] @ lit ''Conversation transcript:'' @ [10] @ transcript"

definition continuation_prompt :: "ustr \<Rightarrow> ustr \<Rightarrow> ustr" where
  "continuation_prompt condition reason =
     lit ''The current /goal is not satisfied yet.'' @ [10, 10] @ lit ''Goal condition:'' @ [10] @ condition @
     [10, 10] @ lit ''Goal evaluator says what is missing or blocking completion:'' @ [10] @ reason @
     [10, 10] @ lit ''Continue working toward the goal. Do not claim completion until the transcript contains explicit evidence that satisfies the condition.''"

subsection \<open>The evaluator's answer\<close>

text \<open>\<open>str::find\<close> and \<open>str::rfind\<close> of an ASCII character; \<open>None\<close> of \<open>slice_incl\<close> is a panic.\<close>

fun find_char :: "nat \<Rightarrow> ustr \<Rightarrow> nat option" where
  "find_char c [] = None"
| "find_char c (x # xs) = (if x = c then Some 0 else map_option Suc (find_char c xs))"

definition rfind_char :: "nat \<Rightarrow> ustr \<Rightarrow> nat option" where
  "rfind_char c t = map_option (\<lambda>k. length t - 1 - k) (find_char c (rev t))"

definition slice_incl :: "ustr \<Rightarrow> nat \<Rightarrow> nat \<Rightarrow> ustr option" where
  "slice_incl t start fin = (if fin + 1 < start then None else Some (drop start (take (fin + 1) t)))"

text \<open>
  \<open>from_str\<close> decodes an \<open>EvaluatorDecision\<close> (the fields \<open>ok\<close> and \<open>reason\<close>). The result is a
  panic (\<open>None\<close>), an error message or a decision.
\<close>

definition parse_decision :: "(ustr \<Rightarrow> (bool \<times> ustr) option) \<Rightarrow> ustr \<Rightarrow> (ustr + bool \<times> ustr) option" where
  "parse_decision from_str t =
     (let trimmed = trim t;
          invalid = Inl (lit ''goal evaluator returned invalid JSON: '' @ tail_chars trimmed 300);
          checked = (\<lambda>(ok, reason). if is_blank reason then Inl (lit ''goal evaluator returned an empty reason'')
                                    else Inr (ok, reason))
      in case from_str trimmed of
           Some d \<Rightarrow> Some (checked d)
         | None \<Rightarrow>
             (case (find_char 123 trimmed, rfind_char 125 trimmed) of
                (Some start, Some fin) \<Rightarrow>
                  (case slice_incl trimmed start fin of
                     None \<Rightarrow> None
                   | Some part \<Rightarrow>
                       (case from_str part of Some d \<Rightarrow> Some (checked d) | None \<Rightarrow> Some invalid))
              | _ \<Rightarrow> Some invalid))"

subsection \<open>Decisions\<close>

datatype turn_end_action = Noop | TStop | TPause ustr | Continue ustr

record turn_end_decision =
  te_action :: turn_end_action
  te_payload :: "json option"

definition decision_of_action :: "turn_end_action \<Rightarrow> turn_end_decision" where
  "decision_of_action a = \<lparr>te_action = a, te_payload = None\<rparr>"

definition goal_payload :: "goal_state \<Rightarrow> bool option \<Rightarrow> json" where
  "goal_payload g ok =
     JObj [(lit ''goal_status'', JStr (status_str (gs_status g))),
           (lit ''condition'', JStr (gs_condition g)),
           (lit ''ok'', case ok of None \<Rightarrow> JNull | Some b \<Rightarrow> JBool b),
           (lit ''reason'', json_opt (gs_last_reason g)),
           (lit ''iterations'', JNum (int (gs_iterations g))),
           (lit ''max_continuations'', JNum (int MAX_CONTINUATIONS)),
           (lit ''updated_at'', JStr (gs_updated_at g))]"

definition pause_decision :: "ustr \<Rightarrow> goal_state \<Rightarrow> turn_end_decision" where
  "pause_decision reason g = \<lparr>te_action = TPause reason, te_payload = Some (goal_payload g None)\<rparr>"

subsection \<open>The hook\<close>

record 's goal_world =
  gw_session :: 's
  gw_engine :: engine

definition session_id_from_harness :: "'s storage_ops \<Rightarrow> 's \<Rightarrow> ustr option \<times> 's" where
  "session_id_from_harness ops s =
     (case so_get_metadata_json ops s of
        (Inl _, s') \<Rightarrow> (None, s')
      | (Inr metadata, s') \<Rightarrow> (get_str metadata (lit ''id''), s'))"

definition ensure_goal_run :: "'s storage_ops \<Rightarrow> ustr \<Rightarrow> 's goal_world \<Rightarrow> ustr option \<times> 's goal_world" where
  "ensure_goal_run ops condition w =
     (case session_id_from_harness ops (gw_session w) of
        (session, s') \<Rightarrow>
          (case find (\<lambda>r. r_kind r = Goal \<and> r_status r = DRunning \<and> r_session_id r = session)
                  (list_runs (gw_engine w)) of
             Some run \<Rightarrow> (Some (r_id run), w\<lparr>gw_session := s'\<rparr>)
           | None \<Rightarrow>
               (case plan_goal condition session (gw_engine w) of
                  (rid, e') \<Rightarrow> (Some rid, w\<lparr>gw_session := s', gw_engine := e'\<rparr>))))"

definition goal_tick :: "ustr option \<Rightarrow> nat \<Rightarrow> bool \<Rightarrow> ustr option \<Rightarrow> engine \<Rightarrow> engine" where
  "goal_tick rid iteration finished reason e =
     (case rid of None \<Rightarrow> e | Some i \<Rightarrow> snd (on_goal_tick i iteration finished reason e))"

definition complete_goal_cancelled :: "ustr option \<Rightarrow> ustr \<Rightarrow> engine \<Rightarrow> engine" where
  "complete_goal_cancelled rid reason e =
     (case rid of None \<Rightarrow> e | Some i \<Rightarrow> complete_goal i DCancelled (Some reason) e)"

definition persist_state_best_effort :: "'s storage_ops \<Rightarrow> ustr \<Rightarrow> goal_state \<Rightarrow> 's goal_world \<Rightarrow> 's goal_world" where
  "persist_state_best_effort ops now g w = w\<lparr>gw_session := snd (append_state ops now g (gw_session w))\<rparr>"

definition pause_for ::
  "'s storage_ops \<Rightarrow> (nat \<Rightarrow> ustr) \<Rightarrow> ustr option \<Rightarrow> goal_state \<Rightarrow> ustr \<Rightarrow> 's goal_world \<Rightarrow>
   turn_end_decision \<times> 's goal_world" where
  "pause_for ops now rid g reason w =
     (let g' = g\<lparr>gs_status := Paused, gs_last_reason := Some reason, gs_updated_at := now 0\<rparr>;
          w1 = persist_state_best_effort ops (now 1) g' w
      in (pause_decision reason g', w1\<lparr>gw_engine := complete_goal_cancelled rid reason (gw_engine w1)\<rparr>))"

text \<open>What \<open>hook_begin\<close> ends with: a decision, or the evaluator run to await.\<close>

datatype hook_stage =
    Decided turn_end_decision
  | Evaluate goal_state "ustr option" ustr \<comment> \<open>goal, engine run, prompt\<close>

text \<open>
  \<open>have_model\<close>: the agent has a current model; \<open>have_launch\<close>: the resolver knows the
  \<open>goal-evaluator\<close> agent.
\<close>

definition hook_begin ::
  "'s storage_ops \<Rightarrow> (nat \<Rightarrow> ustr) \<Rightarrow> agent_message list \<Rightarrow> bool \<Rightarrow> bool \<Rightarrow> 's goal_world \<Rightarrow>
   hook_stage \<times> 's goal_world" where
  "hook_begin ops now transcript have_model have_launch w =
     (case goal_current ops (gw_session w) of
        (None, s') \<Rightarrow> (Decided (decision_of_action Noop), w\<lparr>gw_session := s'\<rparr>)
      | (Some g, s') \<Rightarrow>
          if gs_status g \<noteq> Pursuing then (Decided (decision_of_action Noop), w\<lparr>gw_session := s'\<rparr>)
          else
            (case ensure_goal_run ops (gs_condition g) (w\<lparr>gw_session := s'\<rparr>) of
               (rid, w1) \<Rightarrow>
                 (let pause = (\<lambda>reason. case pause_for ops now rid g reason w1 of (d, w2) \<Rightarrow> (Decided d, w2))
                  in if \<not> have_model then pause (lit ''goal evaluator has no current model'')
                     else if \<not> have_launch
                       then pause (lit ''no goal-evaluator spec registered (app-side agent_specs)'')
                     else (Evaluate g rid
                             (evaluator_user_prompt (gs_condition g)
                               (transcript_from_messages transcript TRANSCRIPT_CHAR_LIMIT)), w1))))"

text \<open>The part of \<open>AgentRunResult\<close> that the hook reads.\<close>

record agent_run_result =
  ar_text :: ustr
  ar_success :: bool
  ar_error :: "ustr option"
  ar_job_id :: ustr

definition evaluated :: "goal_state \<Rightarrow> ustr \<Rightarrow> ustr \<Rightarrow> goal_state" where
  "evaluated g reason now =
     g\<lparr>gs_iterations := min (2 ^ 32 - 1) (gs_iterations g + 1), gs_last_reason := Some reason,
       gs_updated_at := now\<rparr>"

definition limit_reason :: ustr where
  "limit_reason = lit ''goal continuation limit reached ('' @ show_nat MAX_CONTINUATIONS @
                  lit ''); resume with /goal resume''"

text \<open>The outcome of a decision \<open>(ok, reason)\<close>.\<close>

definition hook_apply ::
  "'s storage_ops \<Rightarrow> (nat \<Rightarrow> ustr) \<Rightarrow> goal_state \<Rightarrow> ustr option \<Rightarrow> bool \<Rightarrow> ustr \<Rightarrow> 's goal_world \<Rightarrow>
   turn_end_decision \<times> 's goal_world" where
  "hook_apply ops now g rid ok reason w =
     (let g1 = evaluated g reason (now 0);
          tick = (\<lambda>finished w. w\<lparr>gw_engine := goal_tick rid (gs_iterations g1) finished (Some reason) (gw_engine w)\<rparr>)
      in if ok then
           (let g2 = g1\<lparr>gs_status := Achieved\<rparr>
            in (\<lparr>te_action = TStop, te_payload = Some (goal_payload g2 (Some True))\<rparr>,
                tick True (persist_state_best_effort ops (now 1) g2 w)))
         else if MAX_CONTINUATIONS \<le> gs_iterations g1 then
           (let g2 = g1\<lparr>gs_status := BudgetLimited\<rparr>;
                w1 = tick False (persist_state_best_effort ops (now 1) g2 w);
                e1 = (case rid of None \<Rightarrow> gw_engine w1
                      | Some i \<Rightarrow> complete_goal i DFailed (Some limit_reason) (gw_engine w1))
            in (\<lparr>te_action = TPause limit_reason, te_payload = Some (goal_payload g2 (Some False))\<rparr>,
                w1\<lparr>gw_engine := e1\<rparr>))
         else
           (\<lparr>te_action = Continue (continuation_prompt (gs_condition g1) reason),
             te_payload = Some (goal_payload g1 (Some False))\<rparr>,
            tick False (persist_state_best_effort ops (now 1) g1 w)))"

definition link_evaluator :: "ustr option \<Rightarrow> ustr \<Rightarrow> engine \<Rightarrow> engine" where
  "link_evaluator rid job e = (case rid of None \<Rightarrow> e | Some i \<Rightarrow> on_goal_evaluator_finished i job e)"

definition hook_end ::
  "'s storage_ops \<Rightarrow> (ustr \<Rightarrow> (bool \<times> ustr) option) \<Rightarrow> (nat \<Rightarrow> ustr) \<Rightarrow> goal_state \<Rightarrow> ustr option \<Rightarrow>
   agent_run_result \<Rightarrow> 's goal_world \<Rightarrow> turn_end_decision option \<times> 's goal_world" where
  "hook_end ops from_str now g rid result w =
     (let w1 = w\<lparr>gw_engine := link_evaluator rid (ar_job_id result) (gw_engine w)\<rparr>;
          pause = (\<lambda>reason. case pause_for ops now rid g reason w1 of (d, w2) \<Rightarrow> (Some d, w2))
      in if ar_error result = Some (lit ''cancelled'') then pause (lit ''goal evaluator cancelled'')
         else if \<not> ar_success result
           then pause (case ar_error result of Some err \<Rightarrow> err | None \<Rightarrow> lit ''goal evaluator failed'')
         else
           (case parse_decision from_str (ar_text result) of
              None \<Rightarrow> (None, w1)
            | Some (Inl reason) \<Rightarrow> pause (lit ''goal evaluator failed: '' @ reason)
            | Some (Inr (ok, reason)) \<Rightarrow>
                (case hook_apply ops now g rid ok reason w1 of (d, w2) \<Rightarrow> (Some d, w2))))"

end
