(* ===== verification/Session_Facts.thy ===== *)
theory Session_Facts
  imports Session
begin

text \<open>
  Facts about the session facade over every storage that meets \<open>session_storage\<close>: what each
  operation appends, the invariant \<open>session_inv\<close>, and runs of operations (\<open>run_ops\<close>).
\<close>

text \<open>The operations of the facade that change the session, as requests.\<close>

datatype session_op =
    OMessage agent_message
  | OMessages "agent_message list"
  | OThinking ustr
  | OModel ustr ustr
  | OCompaction ustr ustr nat "json option" bool
  | OCustom ustr "json option"
  | OName ustr
  | OMove "ustr option" "branch_summary_input option"

fun run_op :: "'s storage_ops \<Rightarrow> (nat \<Rightarrow> ustr) \<Rightarrow> session_op \<Rightarrow> 's \<Rightarrow> 's" where
  "run_op ops now (OMessage m) s = snd (append_message ops (now 0) m s)"
| "run_op ops now (OMessages ms) s = snd (append_messages ops now ms s)"
| "run_op ops now (OThinking t) s = snd (append_thinking_level_change ops (now 0) t s)"
| "run_op ops now (OModel p m) s = snd (append_model_change ops (now 0) p m s)"
| "run_op ops now (OCompaction t k n d h) s = snd (append_compaction ops (now 0) t k n d h s)"
| "run_op ops now (OCustom t d) s = snd (append_custom ops (now 0) t d s)"
| "run_op ops now (OName n) s = snd (append_session_name ops (now 0) n s)"
| "run_op ops now (OMove i b) s = snd (move_to ops (now 0) i b s)"

fun run_ops :: "'s storage_ops \<Rightarrow> (nat \<Rightarrow> ustr) \<Rightarrow> session_op list \<Rightarrow> 's \<Rightarrow> 's" where
  "run_ops ops now [] s = s"
| "run_ops ops now (r # rs) s = run_ops ops now rs (run_op ops now r s)"

lemma entry_simps [simp]:
  "entry_id (Message h m) = eh_id h" "entry_parent_id (Message h m) = eh_parent_id h"
  "entry_id (ThinkingLevelChange h t) = eh_id h" "entry_parent_id (ThinkingLevelChange h t) = eh_parent_id h"
  "entry_id (ModelChange h p t) = eh_id h" "entry_parent_id (ModelChange h p t) = eh_parent_id h"
  "entry_id (Compaction h a b c v f) = eh_id h" "entry_parent_id (Compaction h a b c v f) = eh_parent_id h"
  "entry_id (BranchSummary h a b v f) = eh_id h" "entry_parent_id (BranchSummary h a b v f) = eh_parent_id h"
  "entry_id (ECustom h a v) = eh_id h" "entry_parent_id (ECustom h a v) = eh_parent_id h"
  "entry_id (SessionInfo h w) = eh_id h" "entry_parent_id (SessionInfo h w) = eh_parent_id h"
  by (simp_all add: entry_id_def entry_parent_id_def)

context session_storage
begin

definition session_inv :: "'s \<Rightarrow> bool" where
  "session_inv s \<longleftrightarrow> ok s \<and> tree_ok (ents s) \<and> leaf_ok (ents s) (leaf s) \<and> entry_id ` set (ents s) \<subseteq> minted s"

lemma inv_ok: "session_inv s \<Longrightarrow> ok s"
  by (simp add: session_inv_def)

lemma branch_eq:
  "ok s \<Longrightarrow> branch ops l s = (path_of (ents s) (case l of Some i \<Rightarrow> Some i | None \<Rightarrow> leaf s), s)"
  by (cases l) (simp_all add: branch_def sbind_def get_leaf get_path)

lemma branch_defined: "session_inv s \<Longrightarrow> \<exists>r. branch ops None s = (Inr r, s) \<and> path_of (ents s) (leaf s) = Inr r"
  using path_of_tree [of "ents s" "leaf s"] by (auto simp: session_inv_def branch_eq)

lemma append_typed_eq:
  assumes "ok s"
  shows "\<exists>s'. append_typed ops e s = (Inr (entry_id e), s') \<and> ok s' \<and> ents s' = ents s @ [e] \<and>
           leaf s' = Some (entry_id e) \<and> minted s' = minted s"
  using append1 [OF assms, of e] by (auto simp: append_typed_def sret_def sbind_def)

lemma inv_snoc:
  assumes "session_inv s" "i \<notin> minted s" "entry_id e = i" "leaf_ok (ents s) (entry_parent_id e)"
    and "ok s'" "ents s' = ents s @ [e]" "leaf s' = Some i" "minted s' = insert i (minted s)"
  shows "session_inv s'"
  using assms by (auto simp: session_inv_def tree_ok_snoc leaf_ok_def)

lemma append_child:
  assumes inv: "session_inv s"
    and mk: "\<And>i p. entry_id (mk i p) = i" "\<And>i p. entry_parent_id (mk i p) = p"
  shows "\<exists>i s'. sbind (so_create_entry_id ops)
                  (\<lambda>i. sbind (so_get_leaf_id ops) (\<lambda>parent. append_typed ops (mk i parent))) s = (Inr i, s') \<and>
                session_inv s' \<and> i \<notin> minted s \<and> ents s' = ents s @ [mk i (leaf s)] \<and> leaf s' = Some i"
proof -
  from create [OF inv_ok [OF inv]] obtain i s1 where
    c: "so_create_entry_id ops s = (Inr i, s1)" "ok s1" "ents s1 = ents s" "leaf s1 = leaf s"
       "i \<notin> minted s" "minted s1 = insert i (minted s)" by blast
  from append_typed_eq [OF c(2), of "mk i (leaf s)"] obtain s2 where
    a: "append_typed ops (mk i (leaf s)) s1 = (Inr i, s2)" "ok s2" "ents s2 = ents s @ [mk i (leaf s)]"
       "leaf s2 = Some i" "minted s2 = insert i (minted s)"
    by (auto simp: mk c)
  have "session_inv s2"
    using inv by (intro inv_snoc [OF inv c(5), where e = "mk i (leaf s)"])
      (auto simp: mk a session_inv_def)
  with a c show ?thesis
    by (auto simp: sbind_def c(1) get_leaf [OF c(2)])
qed

lemmas append_ops_defs = append_message_def append_thinking_level_change_def append_model_change_def
  append_compaction_def append_custom_def append_session_name_def

lemma link_messages_eq:
  "ok s \<Longrightarrow> tree_ok b \<Longrightarrow> leaf_ok b parent \<Longrightarrow> entry_id ` set b \<subseteq> minted s \<Longrightarrow>
   \<exists>es s'. link_messages ops now parent ms s = (Inr es, s') \<and> ok s' \<and> ents s' = ents s \<and> leaf s' = leaf s \<and>
     tree_ok (b @ es) \<and> entry_id ` set (b @ es) \<subseteq> minted s' \<and> length es = length ms \<and>
     map (\<lambda>e. case e of Message _ m \<Rightarrow> Some m | _ \<Rightarrow> None) es = map Some ms \<and>
     (\<forall>r. path_of b parent = Inr r \<longrightarrow>
        path_of (b @ es) (if es = [] then parent else Some (entry_id (last es))) = Inr (r @ es))"
proof (induction ms arbitrary: s b parent now)
  case Nil
  then show ?case by (simp add: sret_def)
next
  case (Cons m ms)
  from create [OF Cons.prems(1)] obtain i s1 where
    c: "so_create_entry_id ops s = (Inr i, s1)" "ok s1" "ents s1 = ents s" "leaf s1 = leaf s"
       "i \<notin> minted s" "minted s1 = insert i (minted s)" by blast
  define e where "e = Message \<lparr>eh_id = i, eh_parent_id = parent, eh_timestamp = now 0\<rparr> m"
  have e: "entry_id e = i" "entry_parent_id e = parent" by (simp_all add: e_def)
  have new: "entry_id e \<notin> entry_id ` set b" using Cons.prems(4) c(5) e by auto
  have t: "tree_ok (b @ [e])" using Cons.prems new e by (simp add: tree_ok_snoc)
  have l: "leaf_ok (b @ [e]) (Some i)" using e by (simp add: leaf_ok_def)
  have sub: "entry_id ` set (b @ [e]) \<subseteq> minted s1" using Cons.prems(4) c(6) e by auto
  from Cons.IH [OF c(2) t l sub, of "\<lambda>k. now (Suc k)"] obtain es s' where
    r: "link_messages ops (\<lambda>k. now (Suc k)) (Some i) ms s1 = (Inr es, s')" "ok s'" "ents s' = ents s"
       "leaf s' = leaf s" "tree_ok ((b @ [e]) @ es)" "entry_id ` set ((b @ [e]) @ es) \<subseteq> minted s'"
       "length es = length ms" "map (\<lambda>e. case e of Message _ m \<Rightarrow> Some m | _ \<Rightarrow> None) es = map Some ms"
    and p: "\<And>r. path_of (b @ [e]) (Some i) = Inr r \<Longrightarrow>
        path_of ((b @ [e]) @ es) (if es = [] then Some i else Some (entry_id (last es))) = Inr (r @ es)"
    using c by auto
  have "link_messages ops now parent (m # ms) s = (Inr (e # es), s')"
    by (simp add: sbind_def c(1) r(1) sret_def e_def)
  moreover have "path_of (b @ e # es) (Some (entry_id (last (e # es)))) = Inr (q @ e # es)"
    if "path_of b parent = Inr q" for q
  proof -
    from path_of_snoc [OF new] that e have "path_of (b @ [e]) (Some i) = Inr (q @ [e])" by simp
    from p [OF this] e show ?thesis by auto
  qed
  ultimately show ?case using r by (intro exI [of _ "e # es"] exI [of _ s']) (auto simp: e_def)
qed

lemma append_messages_eq:
  assumes inv: "session_inv s"
  shows "\<exists>es s'. append_messages ops now ms s = (Inr (map entry_id es), s') \<and> session_inv s' \<and>
           ents s' = ents s @ es \<and> map (\<lambda>e. case e of Message _ m \<Rightarrow> Some m | _ \<Rightarrow> None) es = map Some ms \<and>
           (\<forall>r. branch ops None s = (Inr r, s) \<longrightarrow> branch ops None s' = (Inr (r @ es), s'))"
proof -
  from inv have i: "ok s" "tree_ok (ents s)" "leaf_ok (ents s) (leaf s)" "entry_id ` set (ents s) \<subseteq> minted s"
    by (auto simp: session_inv_def)
  from link_messages_eq [OF i, of now ms] obtain es s1 where
    l: "link_messages ops now (leaf s) ms s = (Inr es, s1)" "ok s1" "ents s1 = ents s" "leaf s1 = leaf s"
       "tree_ok (ents s @ es)" "entry_id ` set (ents s @ es) \<subseteq> minted s1"
       "map (\<lambda>e. case e of Message _ m \<Rightarrow> Some m | _ \<Rightarrow> None) es = map Some ms"
    and p: "\<And>r. path_of (ents s) (leaf s) = Inr r \<Longrightarrow>
        path_of (ents s @ es) (if es = [] then leaf s else Some (entry_id (last es))) = Inr (r @ es)"
    by blast
  from append_all [OF l(2), of es] obtain s2 where
    a: "so_append_entries ops es s1 = (Inr (), s2)" "ok s2" "ents s2 = ents s @ es" "minted s2 = minted s1"
       "leaf s2 = (if es = [] then leaf s else Some (entry_id (last es)))"
    using l by auto
  have "leaf_ok (ents s @ es) (leaf s2)"
    using a(5) i(3) by (auto simp: leaf_ok_def split: option.splits)
  then have "session_inv s2" using a l by (simp add: session_inv_def)
  moreover have "append_messages ops now ms s = (Inr (map entry_id es), s2)"
    by (simp add: append_messages_def sbind_def get_leaf [OF i(1)] l(1)
        a(1) sret_def)
  moreover have "branch ops None s2 = (Inr (r @ es), s2)" if "branch ops None s = (Inr r, s)" for r
    using that p [of r] a by (simp add: branch_eq i(1))
  ultimately show ?thesis using a l(7) by blast
qed

lemma move_to_missing:
  assumes "ok s" "i \<notin> entry_id ` set (ents s)"
  shows "move_to ops now (Some i) b s =
           (Inl \<lparr>se_code = NotFound, se_message = lit ''Entry '' @ i @ lit '' not found''\<rparr>, s)"
proof -
  have "move_target_missing ops (Some i) s =
          (Inl \<lparr>se_code = NotFound, se_message = lit ''Entry '' @ i @ lit '' not found''\<rparr>, s)"
    using assms lookup_none [of "ents s" i]
    by (simp add: move_target_missing_def sbind_def get_entry [OF assms(1)] sfail_def)
  then show ?thesis by (simp add: move_to_def sbind_def)
qed

lemma move_target_present:
  assumes "ok s" "leaf_ok (ents s) target"
  shows "move_target_missing ops target s = (Inr (), s)"
  using assms lookup_none [of "ents s"]
  by (cases target) (auto simp: move_target_missing_def sbind_def sret_def leaf_ok_def get_entry [OF assms(1)])

lemma move_to_eq:
  assumes inv: "session_inv s" and target: "leaf_ok (ents s) target"
  shows "\<exists>res s' new. move_to ops now target b s = (Inr res, s') \<and> session_inv s' \<and> ents s' = ents s @ new \<and>
           (b = None \<longrightarrow> res = None \<and> new = [] \<and> leaf s' = target) \<and>
           (b \<noteq> None \<longrightarrow> (\<exists>e. new = [e] \<and> entry_parent_id e = target \<and> res = Some (entry_id e) \<and>
              leaf s' = res \<and> entry_id e \<notin> entry_id ` set (ents s)))"
proof -
  from inv have ok: "ok s" by (rule inv_ok)
  from set_leaf [OF ok, of target] obtain s1 where
    l: "so_set_leaf_id ops target s = (Inr (), s1)" "ok s1" "ents s1 = ents s" "leaf s1 = target"
       "minted s1 = minted s" by blast
  have inv1: "session_inv s1" using inv l target by (simp add: session_inv_def)
  note start = move_to_def sbind_def move_target_present [OF ok target] l(1)
  show ?thesis
  proof (cases b)
    case None
    with l inv1 show ?thesis by (auto simp: start sret_def)
  next
    case (Some x)
    from create [OF l(2)] obtain i s2 where
      c: "so_create_entry_id ops s1 = (Inr i, s2)" "ok s2" "ents s2 = ents s1" "leaf s2 = leaf s1"
         "i \<notin> minted s1" "minted s2 = insert i (minted s1)" by blast
    define e where "e = BranchSummary \<lparr>eh_id = i, eh_parent_id = target, eh_timestamp = now\<rparr>
      (case target of Some t \<Rightarrow> t | None \<Rightarrow> lit ''root'') (bi_summary x) (bi_details x)
      (if bi_from_hook x then Some True else None)"
    have e: "entry_id e = i" "entry_parent_id e = target" by (simp_all add: e_def)
    from append_typed_eq [OF c(2), of e] obtain s3 where
      a: "append_typed ops e s2 = (Inr i, s3)" "ok s3" "ents s3 = ents s @ [e]" "leaf s3 = Some i"
         "minted s3 = insert i (minted s1)" by (auto simp: e c l)
    have "session_inv s3"
      using inv_snoc [OF inv1 c(5) e(1)] a e(2) l target by simp
    moreover have "move_to ops now target b s = (Inr (Some i), s3)"
      by (simp add: start Some c(1) e_def [symmetric] a(1) sret_def)
    moreover have "i \<notin> entry_id ` set (ents s)" using inv1 c l by (auto simp: session_inv_def)
    ultimately show ?thesis using a e Some by auto
  qed
qed

text \<open>Every operation only appends, and keeps the invariant.\<close>

lemma append_child_grows:
  assumes "session_inv s" "\<And>i p. entry_id (mk i p) = i" "\<And>i p. entry_parent_id (mk i p) = p"
  shows "let s' = snd (sbind (so_create_entry_id ops)
                  (\<lambda>i. sbind (so_get_leaf_id ops) (\<lambda>parent. append_typed ops (mk i parent))) s)
         in session_inv s' \<and> (\<exists>new. ents s' = ents s @ new)"
  using append_child [OF assms] by (auto simp: Let_def)

lemma run_op_grows:
  assumes inv: "session_inv s"
  shows "session_inv (run_op ops now r s) \<and> (\<exists>new. ents (run_op ops now r s) = ents s @ new)"
proof (cases r)
  case (OMessages ms)
  with append_messages_eq [OF inv, of now ms] show ?thesis by auto
next
  case (OMove t b)
  show ?thesis
  proof (cases "leaf_ok (ents s) t")
    case True
    from move_to_eq [OF inv this, of "now 0" b] OMove show ?thesis by auto
  next
    case False
    then obtain i where "t = Some i" "i \<notin> entry_id ` set (ents s)" by (auto simp: leaf_ok_def split: option.splits)
    with move_to_missing [OF inv_ok [OF inv], of i "now 0" b] OMove inv show ?thesis by simp
  qed
qed (insert append_child_grows [OF inv], simp_all add: append_ops_defs Let_def)

lemma run_ops_grows:
  "session_inv s \<Longrightarrow> session_inv (run_ops ops now rs s) \<and> (\<exists>new. ents (run_ops ops now rs s) = ents s @ new)"
proof (induction rs arbitrary: s)
  case (Cons r rs)
  from run_op_grows [OF Cons.prems, of now r] Cons.IH [of "run_op ops now r s"] show ?case by auto
qed simp

lemma branch_stays:
  assumes "session_inv s" "branch ops (Some i) s = (Inr p, s)"
  shows "branch ops (Some i) (run_ops ops now rs s) = (Inr p, run_ops ops now rs s)"
proof -
  from run_ops_grows [OF assms(1), of now rs] obtain new where
    r: "session_inv (run_ops ops now rs s)" "ents (run_ops ops now rs s) = ents s @ new" by blast
  from assms have "path_of (ents s) (Some i) = Inr p" by (simp add: branch_eq inv_ok)
  with r path_of_append [of "ents s" "Some i" p new] show ?thesis by (simp add: branch_eq inv_ok)
qed

end

end
