(* ===== verification/Dag_Safety.thy ===== *)
theory Dag_Safety
  imports Dag_Invariant
begin

text \<open>
  Invariants of single runs, as interpretations of \<open>run_api_invariant\<close>:

  \<^item> \<open>run_ok\<close>: a run is stored under its own generated id, its node ids are distinct, and once it
    is terminal every node is (a completed run has only succeeded and skipped nodes);
  \<^item> \<open>cap_ok\<close>: never more running nodes than the concurrency limit.
\<close>

subsection \<open>Changes of single nodes\<close>

lemma run_node_mut_set:
  "set (r_nodes (run_node_mut i f r)) \<subseteq> set (r_nodes r) \<union> f ` {n \<in> set (r_nodes r). n_id n = i}"
  unfolding run_node_mut_def using set_update_first_subset by simp

lemma run_node_mut_all:
  assumes "\<And>n. n \<in> set (r_nodes r) \<Longrightarrow> Q n" and "\<And>n. n \<in> set (r_nodes r) \<Longrightarrow> n_id n = i \<Longrightarrow> Q (f n)"
    and "m \<in> set (r_nodes (run_node_mut i f r))"
  shows "Q m"
  using run_node_mut_set [of i f r] assms by auto

lemma update_first_count:
  "find P xs = Some x \<Longrightarrow> \<not> Q x \<Longrightarrow> length (filter Q (update_first P f xs)) \<le> Suc (length (filter Q xs))"
  by (induction xs) (auto split: if_splits)

lemma update_first_count_le:
  "(\<And>x. x \<in> set xs \<Longrightarrow> Q (f x) \<Longrightarrow> Q x) \<Longrightarrow>
   length (filter Q (update_first P f xs)) \<le> length (filter Q xs)"
  by (induction xs) (auto intro: le_SucI)

lemma run_count_mut_le:
  "(\<And>n. n \<in> set (r_nodes r) \<Longrightarrow> n_status (f n) = Running \<Longrightarrow> n_status n = Running) \<Longrightarrow>
   running_count (run_node_mut i f r) \<le> running_count r"
  by (simp add: running_count_def run_node_mut_def update_first_count_le)

lemma node_update_simps [simp]:
  "n_id (start_mark now k n) = n_id n" "n_status (start_mark now k n) = Running"
  "n_depends_on (start_mark now k n) = n_depends_on n"
  "n_id (complete_node now oc n) = n_id n" "n_depends_on (complete_node now oc n) = n_depends_on n"
  "n_status (complete_node now oc n) = (if out_success oc then Succeeded else Failed)"
  "n_id (update_node now it ot p n) = n_id n" "n_status (update_node now it ot p n) = n_status n"
  "n_depends_on (update_node now it ot p n) = n_depends_on n"
  "n_id (cancel_node now err n) = n_id n" "n_depends_on (cancel_node now err n) = n_depends_on n"
  "n_id (goal_tick_node now j b reason n) = n_id n"
  "n_depends_on (goal_tick_node now j b reason n) = n_depends_on n"
  "n_status (goal_tick_node now j b reason n) = (if b then Succeeded else n_status n)"
  "n_id (complete_goal_node now st reason n) = n_id n"
  "n_depends_on (complete_goal_node now st reason n) = n_depends_on n"
  "n_id (skip_mark now w n) = n_id n" "n_status (skip_mark now w n) = Skipped"
  "n_depends_on (skip_mark now w n) = n_depends_on n"
  by (simp_all add: start_mark_def complete_node_def update_node_def cancel_node_def
      goal_tick_node_def complete_goal_node_def skip_mark_def)

lemma cancel_node_terminal: "is_terminal (n_status (cancel_node now err n))"
  by (cases "n_status n") (simp_all add: cancel_node_def is_terminal_def)

lemma reopen_run_simps [simp]:
  "r_id (reopen_run r) = r_id r" "r_nodes (reopen_run r) = r_nodes r" "r_kind (reopen_run r) = r_kind r"
  "r_status (reopen_run r) = DRunning" "r_max_concurrency (reopen_run r) = r_max_concurrency r"
  "r_session_id (reopen_run r) = r_session_id r"
  by (auto simp: reopen_run_def)

text \<open>Folding an update over node ids keeps what one update keeps.\<close>

lemma fold_run_keep:
  assumes "\<And>i r. g (F i r) = g r"
  shows "g (fold F ids r) = g r"
  using assms by (induction ids arbitrary: r) auto

lemma fold_reset_keep [simp]:
  "r_id (fold (\<lambda>i r. run_node_mut i reset_node r) ids r) = r_id r"
  "r_kind (fold (\<lambda>i r. run_node_mut i reset_node r) ids r) = r_kind r"
  "r_max_concurrency (fold (\<lambda>i r. run_node_mut i reset_node r) ids r) = r_max_concurrency r"
  "map n_id (r_nodes (fold (\<lambda>i r. run_node_mut i reset_node r) ids r)) = map n_id (r_nodes r)"
  "map n_depends_on (r_nodes (fold (\<lambda>i r. run_node_mut i reset_node r) ids r)) = map n_depends_on (r_nodes r)"
  by (rule fold_run_keep; simp add: run_node_mut_def map_update_first)+

lemma fold_release_keep [simp]:
  "r_id (fold release_blocked ids r) = r_id r"
  "r_kind (fold release_blocked ids r) = r_kind r"
  "r_max_concurrency (fold release_blocked ids r) = r_max_concurrency r"
  "map n_id (r_nodes (fold release_blocked ids r)) = map n_id (r_nodes r)"
  "map n_depends_on (r_nodes (fold release_blocked ids r)) = map n_depends_on (r_nodes r)"
  by (rule fold_run_keep; simp add: release_blocked_def run_node_mut_def map_update_first)+

lemma reconcile_terminal:
  assumes "\<And>n. n \<in> set (r_nodes r) \<Longrightarrow> is_terminal (n_status n)"
  shows "r_nodes (reconcile now r) = r_nodes r"
proof -
  have "reconcile_nodes now m ns = ns" if "\<And>n. n \<in> set ns \<Longrightarrow> is_terminal (n_status n)" for m ns
    using that by (induction ns arbitrary: m) (auto simp: reconcile_nodes_started unstarted_iff)
  then show ?thesis using assms by (simp add: reconcile_def)
qed

subsection \<open>Well-formed runs\<close>

definition node_done :: "node_status \<Rightarrow> bool" where
  "node_done s \<longleftrightarrow> s = Succeeded \<or> s = Skipped"

definition run_shape :: "ustr \<Rightarrow> dag_run \<Rightarrow> bool" where
  "run_shape k r \<longleftrightarrow>
     r_id r = k \<and> distinct (map n_id (r_nodes r)) \<and>
     (r_kind r = Dag \<longrightarrow> (\<exists>c. k = dag_id c)) \<and>
     (r_kind r = Goal \<longrightarrow> (\<exists>c. k = goal_id c) \<and> map n_id (r_nodes r) = [main_id])"

definition run_ok :: "ustr \<Rightarrow> dag_run \<Rightarrow> bool" where
  "run_ok k r \<longleftrightarrow>
     run_shape k r \<and>
     (r_status r \<noteq> DRunning \<longrightarrow> (\<forall>n\<in>set (r_nodes r). is_terminal (n_status n))) \<and>
     (r_status r = DCompleted \<longrightarrow> (\<forall>n\<in>set (r_nodes r). node_done (n_status n)))"

lemma node_done_terminal: "node_done s \<Longrightarrow> is_terminal s"
  by (auto simp: node_done_def is_terminal_def)

lemma run_shape_cong:
  "run_shape k r \<Longrightarrow> r_id r' = r_id r \<Longrightarrow> r_kind r' = r_kind r \<Longrightarrow>
   map n_id (r_nodes r') = map n_id (r_nodes r) \<Longrightarrow> run_shape k r'"
  by (simp add: run_shape_def split: run_kind.splits)

lemma run_ok_running: "run_shape k r \<Longrightarrow> r_status r = DRunning \<Longrightarrow> run_ok k r"
  by (simp add: run_ok_def)

lemma run_ok_same_status:
  assumes "run_ok k r" and "run_shape k r'" and "r_status r' = r_status r"
    and "\<And>n'. n' \<in> set (r_nodes r') \<Longrightarrow> \<exists>n\<in>set (r_nodes r). n_status n' = n_status n"
  shows "run_ok k r'"
  using assms unfolding run_ok_def by metis

lemma goal_single: "run_ok k r \<Longrightarrow> r_kind r = Goal \<Longrightarrow> \<exists>n. r_nodes r = [n] \<and> n_id n = main_id"
  by (auto simp: run_ok_def run_shape_def)

interpretation wf: run_api_invariant "\<lambda>u t. run_ok"
proof
  fix u t k r nid n now oc err def known c session condition iteration finished reason job st it ot preview
    ids w p
  show "run_ok k (emit_state now (run_node_mut nid (start_mark now k) r))" if "run_ok k r" "startable r"
    using that by (auto simp: startable_def run_ok_def run_node_mut_ids intro: run_ok_running elim: run_shape_cong)
  show "run_ok k (emit_state now (run_node_mut nid (complete_node now oc) r))"
    if r: "run_ok k r" and n: "run_node r nid = Some n" "n_status n = Running"
  proof (rule run_ok_running)
    have "\<not> is_terminal (n_status n)" using n(2) by (simp add: is_terminal_def)
    then show "r_status (emit_state now (run_node_mut nid (complete_node now oc) r)) = DRunning"
      using r run_node_SomeD [OF n(1)] by (auto simp: run_ok_def)
    show "run_shape k (emit_state now (run_node_mut nid (complete_node now oc) r))"
      by (rule run_shape_cong [of k r]) (use r in \<open>auto simp: run_ok_def run_node_mut_ids\<close>)
  qed
  show "run_ok k (emit_state now (reconcile now r))" if r: "run_ok k r"
  proof (cases "r_status r = DRunning")
    case True
    then show ?thesis using r by (auto simp: run_ok_def intro: run_ok_running elim: run_shape_cong)
  next
    case False
    then show ?thesis using r reconcile_terminal [of r now]
      by (auto simp: run_ok_def run_shape_def split: run_kind.splits)
  qed
  show "run_ok k (cancelled_run now err r)" if "run_ok k r"
    using that cancel_node_terminal
    by (auto simp: run_ok_def cancelled_run_def run_shape_def comp_def)
  show "run_ok k (finished_run now r)" if r: "run_ok k r" "list_all (\<lambda>n. is_terminal (n_status n)) (r_nodes r)"
  proof -
    have "node_done (n_status n)" if "n \<in> set (r_nodes r)"
      "\<not> list_ex (\<lambda>n. n_status n = Failed \<or> n_status n = Cancelled) (r_nodes r)" for n
      using r(2) that by (auto simp: list_all_iff list_ex_iff is_terminal_def node_done_def)
    then show ?thesis
      using r by (auto simp: run_ok_def finished_run_def run_shape_def list_all_iff)
  qed
  show "run_ok (dag_id c) ((build_run now def)\<lparr>r_session_id := session, r_id := dag_id c, r_last_activity_at := now\<rparr>)"
    if valid: "validate_graph (rd_nodes def) known = []"
  proof (rule run_ok_running)
    have "distinct (map d_id (rd_nodes def))"
      using valid by (simp add: validate_graph_iff graph_ok_def)
    then show "run_shape (dag_id c) ((build_run now def)\<lparr>r_session_id := session, r_id := dag_id c, r_last_activity_at := now\<rparr>)"
      by (auto simp: run_shape_def build_run_def build_node_def comp_def)
  qed (simp add: build_run_def)
  show "run_ok (goal_id c) (goal_run now condition session (goal_id c))"
    by (rule run_ok_running) (auto simp: run_shape_def goal_run_def goal_node_def)
  show "run_ok k (goal_ticked_run now iteration finished reason r)" if r: "run_ok k r" "r_kind r = Goal"
  proof -
    obtain n where n: "r_nodes r = [n]" "n_id n = main_id" using goal_single [OF r] by auto
    then show ?thesis
      using r by (auto simp: goal_ticked_run_def Let_def run_ok_def run_shape_def run_node_mut_def is_terminal_def node_done_def)
  qed
  show "run_ok k (run_node_mut main_id (\<lambda>n. n\<lparr>n_job_id := job\<rparr>) r)" if r: "run_ok k r"
  proof (rule run_ok_same_status [OF r])
    show "run_shape k (run_node_mut main_id (\<lambda>n. n\<lparr>n_job_id := job\<rparr>) r)"
      by (rule run_shape_cong [of k r]) (use r in \<open>auto simp: run_ok_def run_node_mut_ids\<close>)
    fix n' assume "n' \<in> set (r_nodes (run_node_mut main_id (\<lambda>n. n\<lparr>n_job_id := job\<rparr>) r))"
    then show "\<exists>n\<in>set (r_nodes r). n_status n' = n_status n"
      by (rule run_node_mut_all [rotated 2]) auto
  qed simp
  show "run_ok k (completed_goal now st reason r)"
    if r: "run_ok k r" "r_kind r = Goal" and st: "st = DFailed \<or> st = DCancelled"
  proof -
    obtain n where n: "r_nodes r = [n]" "n_id n = main_id" using goal_single [OF r] by auto
    then show ?thesis
      using r st by (auto simp: completed_goal_def complete_goal_node_def run_ok_def run_shape_def run_node_mut_def is_terminal_def)
  qed
  show "run_ok k ((run_node_mut nid (update_node now it ot preview) r)\<lparr>r_last_activity_at := now\<rparr>)" if r: "run_ok k r"
  proof (rule run_ok_same_status [OF r])
    show "run_shape k ((run_node_mut nid (update_node now it ot preview) r)\<lparr>r_last_activity_at := now\<rparr>)"
      by (rule run_shape_cong [of k r]) (use r in \<open>auto simp: run_ok_def run_node_mut_ids\<close>)
    fix n' assume "n' \<in> set (r_nodes ((run_node_mut nid (update_node now it ot preview) r)\<lparr>r_last_activity_at := now\<rparr>))"
    then have "n' \<in> set (r_nodes (run_node_mut nid (update_node now it ot preview) r))" by simp
    then show "\<exists>n\<in>set (r_nodes r). n_status n' = n_status n"
      by (rule run_node_mut_all [rotated 2]) auto
  qed simp
  show "run_ok k (r\<lparr>r_session_id := session, r_last_activity_at := now\<rparr>)" if "run_ok k r"
    using that by (simp add: run_ok_def run_shape_def)
  show "run_ok k (emit_state now (reopen_run (fold (\<lambda>i r. run_node_mut i reset_node r) ids r)))" if "run_ok k r"
    by (rule run_ok_running) (use that in \<open>auto simp: run_ok_def run_shape_def\<close>)
  show "run_ok k (emit_state now (reopen_run (run_node_mut nid (skip_mark now w) (fold release_blocked ids r))))"
    if "run_ok k r"
    by (rule run_ok_running) (use that in \<open>auto simp: run_ok_def run_shape_def run_node_mut_ids\<close>)
  show "run_ok (pr_id p) (hydrate now p)" if "persisted_ok p"
    by (rule run_ok_running)
      (use that in \<open>auto simp: persisted_ok_def run_shape_def comp_def split: run_kind.splits\<close>)
qed auto

lemmas reachable_wf = wf.inv_reachable [unfolded wf.runs_inv_def]

lemma reachable_run_ok: "reachable e \<Longrightarrow> get_run e k = Some r \<Longrightarrow> run_ok k r"
  using reachable_wf [of e] by (auto dest: all_runsD)

definition terminal_runs_closed :: "engine \<Rightarrow> bool" where
  "terminal_runs_closed e \<longleftrightarrow>
     list_all (\<lambda>(k, r). (r_status r = DRunning \<or> list_all (\<lambda>n. is_terminal (n_status n)) (r_nodes r)) \<and>
       (r_status r \<noteq> DCompleted \<or> list_all (\<lambda>n. node_done (n_status n)) (r_nodes r))) (e_runs e)"

text \<open>
  C2. Terminal means terminal: in every reachable engine, a run that is not running has no pending,
  ready or running node, and a completed run has only succeeded and skipped nodes.
\<close>

theorem reachable_terminal_runs_closed:
  assumes "reachable e"
  shows "terminal_runs_closed e"
proof -
  have ok: "hm_ok (e_runs e)" using reachable_wf [OF assms] by (simp add: all_runs_def)
  have "run_ok k r" if "(k, r) \<in> set (e_runs e)" for k r
    using reachable_run_ok [OF assms] that hm_get_in [OF ok] by (simp add: get_run_def)
  then show ?thesis
    by (fastforce simp: terminal_runs_closed_def list_all_iff run_ok_def)
qed

subsection \<open>The concurrency limit\<close>

definition cap_ok :: "ustr \<Rightarrow> dag_run \<Rightarrow> bool" where
  "cap_ok k r \<longleftrightarrow> running_count r \<le> r_max_concurrency r"

lemma running_count_simps [simp]:
  "running_count (emit_state now r) = running_count r"
  "running_count (reconcile now r) = running_count r"
  "running_count (reopen_run r) = running_count r"
  by (simp_all add: running_count_def reconcile_running_count)

lemma running_count_fold:
  assumes "\<And>i r. running_count (F i r) \<le> running_count r"
  shows "running_count (fold F ids r) \<le> running_count r"
  using assms by (induction ids arbitrary: r) (auto intro: order_trans)

interpretation cap: run_api_invariant "\<lambda>u t. cap_ok"
proof
  fix u t k r nid n now oc err def known c session condition iteration finished reason job st it ot preview
    ids w p
  show "cap_ok k (emit_state now (run_node_mut nid (start_mark now k) r))"
    if r: "startable r" "run_node r nid = Some n" "n_status n = Ready"
  proof -
    have "running_count (run_node_mut nid (start_mark now k) r) \<le> Suc (running_count r)"
      using r(2,3) update_first_count [of _ "r_nodes r" n "\<lambda>n. n_status n = Running"]
      by (simp add: running_count_def run_node_mut_def run_node_def)
    then show ?thesis using r(1) by (simp add: cap_ok_def startable_def)
  qed
  show "cap_ok k (emit_state now (run_node_mut nid (complete_node now oc) r))" if "cap_ok k r"
    using that run_count_mut_le [of r "complete_node now oc" nid]
    by (cases "out_success oc") (auto simp: cap_ok_def)
  show "cap_ok k (cancelled_run now err r)"
    by (simp add: cap_ok_def running_count_def cancelled_run_def filter_map comp_def)
      (simp add: cancel_node_def cong: filter_cong)
  show "cap_ok (dag_id c) ((build_run now def)\<lparr>r_session_id := session, r_id := dag_id c, r_last_activity_at := now\<rparr>)"
    by (simp add: cap_ok_def running_count_def build_run_def build_node_def filter_map comp_def)
  show "cap_ok k (goal_ticked_run now iteration finished reason r)" if "cap_ok k r"
    using that run_count_mut_le [of r "goal_tick_node now iteration finished reason" main_id]
    by (auto simp: cap_ok_def goal_ticked_run_def running_count_def Let_def split: if_splits)
  show "cap_ok k (completed_goal now st reason r)" if "cap_ok k r" "st = DFailed \<or> st = DCancelled"
    using that run_count_mut_le [of "r\<lparr>r_status := st, r_completed_at := Some now, r_error := reason\<rparr>"
        "complete_goal_node now st reason" main_id]
    by (auto simp: cap_ok_def completed_goal_def complete_goal_node_def running_count_def split: if_splits)
  show "cap_ok k ((run_node_mut nid (update_node now it ot preview) r)\<lparr>r_last_activity_at := now\<rparr>)" if "cap_ok k r"
    using that run_count_mut_le [of r "update_node now it ot preview" nid]
    by (auto simp: cap_ok_def running_count_def)
  show "cap_ok k (run_node_mut main_id (\<lambda>n. n\<lparr>n_job_id := job\<rparr>) r)" if "cap_ok k r"
    using that run_count_mut_le [of r "\<lambda>n. n\<lparr>n_job_id := job\<rparr>" main_id] by (auto simp: cap_ok_def)
  show "cap_ok k (emit_state now (reopen_run (fold (\<lambda>i r. run_node_mut i reset_node r) ids r)))" if "cap_ok k r"
  proof -
    have "running_count (fold (\<lambda>i r. run_node_mut i reset_node r) ids r) \<le> running_count r"
      by (rule running_count_fold, rule run_count_mut_le) simp
    with that show ?thesis by (simp add: cap_ok_def)
  qed
  show "cap_ok k (emit_state now (reopen_run (run_node_mut nid (skip_mark now w) (fold release_blocked ids r))))"
    if "cap_ok k r"
  proof -
    have "running_count (run_node_mut nid (skip_mark now w) (fold release_blocked ids r)) \<le>
        running_count (fold release_blocked ids r)"
      by (rule run_count_mut_le) simp
    also have "\<dots> \<le> running_count r"
      by (rule running_count_fold, unfold release_blocked_def, rule run_count_mut_le) (auto split: if_splits)
    finally show ?thesis using that by (simp add: cap_ok_def)
  qed
  show "cap_ok (pr_id p) (hydrate now p)"
    by (auto simp: cap_ok_def running_count_def filter_map comp_def)
  show "cap_ok k (emit_state now (reconcile now r))" if "cap_ok k r"
    using that by (simp add: cap_ok_def)
qed (auto simp: cap_ok_def running_count_def finished_run_def goal_run_def)

definition concurrency_respected :: "engine \<Rightarrow> bool" where
  "concurrency_respected e \<longleftrightarrow> list_all (\<lambda>(k, r). running_count r \<le> r_max_concurrency r) (e_runs e)"

text \<open>
  C1. The concurrency limit holds: in every engine state between operations, a run never has
  more running nodes than its \<open>max_concurrency\<close>.
\<close>

theorem reachable_concurrency:
  assumes "reachable e"
  shows "concurrency_respected e"
proof -
  have inv: "all_runs cap_ok e" using cap.inv_reachable [OF assms] by (simp add: cap.runs_inv_def)
  then have "cap_ok k r" if "(k, r) \<in> set (e_runs e)" for k r
    using that hm_get_in [of "e_runs e" k r] by (auto simp: all_runs_def get_run_def)
  then show ?thesis by (auto simp: concurrency_respected_def list_all_iff cap_ok_def)
qed

end
