(* ===== verification/Dag_Tick.thy ===== *)
theory Dag_Tick
  imports Dag_Safety
begin

text \<open>
  Scheduling returns. The measure is the number of nodes of the run that have not started: every
  start takes one away and no other part of a scheduling round adds one, so the fuel \<open>tick_bound\<close>
  (the number of nodes) is enough and the result does not depend on the fuel beyond it. The node
  ids must be distinct: with a duplicate id the loop of the code picks the later node and starts
  the first one, for ever.
\<close>

definition unstarted_count :: "dag_run \<Rightarrow> nat" where
  "unstarted_count r = length (filter (\<lambda>n. unstarted (n_status n)) (r_nodes r))"

subsection \<open>No round adds work\<close>

lemma unstarted_mut_le:
  "(\<And>n. n \<in> set (r_nodes r) \<Longrightarrow> unstarted (n_status (f n)) \<Longrightarrow> unstarted (n_status n)) \<Longrightarrow>
   unstarted_count (run_node_mut i f r) \<le> unstarted_count r"
  by (simp add: unstarted_count_def run_node_mut_def update_first_count_le)

lemma list_all2_filter_length_le:
  assumes "list_all2 R xs ys" and "\<And>x y. R x y \<Longrightarrow> Q y \<Longrightarrow> Q x"
  shows "length (filter Q ys) \<le> length (filter Q xs)"
  using assms by (induction rule: list_all2_induct) (auto intro: le_SucI)

lemma unstarted_reconcile_le: "unstarted_count (reconcile now r) \<le> unstarted_count r"
  unfolding unstarted_count_def
  by (rule list_all2_filter_length_le [OF reconcile_from]) (rule reconciled_from_status(3))

lemma unstarted_emit_state [simp]: "unstarted_count (emit_state now r) = unstarted_count r"
  by (simp add: unstarted_count_def)

definition work_le :: "ustr \<Rightarrow> nat \<Rightarrow> ustr \<Rightarrow> dag_run \<Rightarrow> bool" where
  "work_le rid m k r \<longleftrightarrow> distinct (map n_id (r_nodes r)) \<and> (k = rid \<longrightarrow> unstarted_count r \<le> m)"

interpretation work: run_invariant "\<lambda>u t. work_le rid m" for rid m
proof
  fix u t k r nid n now oc err
  show "work_le rid m k (emit_state now (run_node_mut nid (start_mark now k) r))" if "work_le rid m k r"
    using that unstarted_mut_le [of r "start_mark now k" nid]
    by (auto simp: work_le_def run_node_mut_ids unstarted_def)
  show "work_le rid m k (emit_state now (run_node_mut nid (complete_node now oc) r))" if "work_le rid m k r"
    using that unstarted_mut_le [of r "complete_node now oc" nid]
    by (cases "out_success oc") (auto simp: work_le_def run_node_mut_ids unstarted_def)
  show "work_le rid m k (emit_state now (reconcile now r))" if "work_le rid m k r"
    using that unstarted_reconcile_le [of now r] by (auto simp: work_le_def)
  show "work_le rid m k (cancelled_run now err r)" if "work_le rid m k r"
    using that cancel_node_terminal [of now err]
    by (simp add: work_le_def cancelled_run_def comp_def unstarted_count_def filter_map unstarted_iff)
  show "work_le rid m k (finished_run now r)" if "work_le rid m k r"
    using that by (simp add: work_le_def finished_run_def unstarted_count_def)
qed auto

lemma work_runs: "work.runs_inv rid m R T e \<longleftrightarrow> all_runs (work_le rid m) e"
  by (simp add: work.runs_inv_def)

lemma start_block_work:
  assumes e: "all_runs (work_le rid (Suc m)) e" and nxt: "next_ready rid e = Some nid"
    and b: "start_block rid nid e = Some (l, e')"
  shows "all_runs (work_le rid m) e'"
proof -
  obtain r n where r: "get_run e rid = Some r" "run_node r nid = Some n" "n_status n = Ready"
    and e': "e_runs e' = e_runs (set_run rid (emit_state (e_clock e) (run_node_mut nid (start_mark (e_clock e) rid) r)) e)"
    using b by (auto simp: start_block_def Let_def split: option.splits if_splits)
  have w: "distinct (map n_id (r_nodes r))" "unstarted_count r \<le> Suc m"
    using all_runsD [OF e r(1)] by (auto simp: work_le_def)
  have drop: "find P xs = Some x \<Longrightarrow> Q x \<Longrightarrow> \<not> Q (f x) \<Longrightarrow>
      Suc (length (filter Q (update_first P f xs))) = length (filter Q xs)" for P Q f and xs :: "dag_node list" and x
    by (induction xs) (auto split: if_splits)
  have "Suc (unstarted_count (run_node_mut nid (start_mark (e_clock e) rid) r)) = unstarted_count r"
    unfolding unstarted_count_def run_node_mut_def
    using drop [OF r(2) [unfolded run_node_def], of "\<lambda>n. unstarted (n_status n)"] r(3)
    by (simp add: unstarted_def)
  then have "all_runs (work_le rid m) (set_run rid (emit_state (e_clock e) (run_node_mut nid (start_mark (e_clock e) rid) r)) e)"
    using w by (intro all_runs_set_run [OF e]) (auto simp: work_le_def run_node_mut_ids)
  then show ?thesis using e' by (rule all_runs_cong)
qed

lemma start_block_next:
  assumes "all_runs (work_le rid m) e" and "next_ready rid e = Some nid"
  shows "start_block rid nid e \<noteq> None"
proof -
  obtain r n where r: "get_run e rid = Some r" "n \<in> set (r_nodes r)" "n_id n = nid" "n_status n = Ready"
    using next_ready_Some [OF assms(2)] by blast
  then have "run_node r nid = Some n"
    using all_runsD [OF assms(1) r(1)] run_node_in by (auto simp: work_le_def)
  then show ?thesis using r by (simp add: start_block_def Let_def)
qed

subsection \<open>Enough fuel\<close>

lemma completed_total:
  assumes tk: "\<And>e. all_runs (work_le rid m) e \<Longrightarrow> tk e \<noteq> None" and e: "all_runs (work_le rid m) e"
  shows "on_node_completed_with tk rid nid oc e \<noteq> None"
proof (cases "complete_block rid nid oc e")
  case None
  then show ?thesis by (simp add: on_node_completed_with_def)
next
  case (Some b)
  obtain ev st e1 where b: "b = (ev, st, e1)" by (cases b)
  let ?e2 = "emit ev (finish_node_observation rid nid st e1)"
  have 1: "work.runs_inv rid m {rid} {rid} e1"
    using work.inv_complete [of rid m "{}" "{}" e rid nid oc ev st e1] Some b e by (simp add: work_runs)
  have "work.runs_inv rid m {rid} {rid} ?e2"
    by (intro work.inv_effects 1)
  then have "work.runs_inv rid m ({rid} - {rid}) (insert rid {rid}) (reconcile_run rid ?e2)"
    by (rule work.inv_reconcile)
  then have "tk (reconcile_run rid ?e2) \<noteq> None" using tk by (simp add: work_runs)
  then have "after_node_terminal_with tk rid nid ?e2 \<noteq> None"
    by (auto simp: after_node_terminal_with_def Let_def split: option.splits)
  then show ?thesis using Some b by (auto simp: on_node_completed_with_def)
qed

lemma tick_f_total: "all_runs (work_le rid fuel) e \<Longrightarrow> tick_f fuel rid e \<noteq> None"
proof (induction fuel arbitrary: e)
  case 0
  have "next_ready rid e = None"
  proof (rule ccontr)
    assume "next_ready rid e \<noteq> None"
    then obtain r n where "get_run e rid = Some r" "n \<in> set (r_nodes r)" "n_status n = Ready"
      using next_ready_Some by blast
    then show False
      using all_runsD [OF 0, of rid r] by (auto simp: work_le_def unstarted_count_def unstarted_def filter_empty_conv)
  qed
  then show ?case by simp
next
  case (Suc fuel)
  show ?case
  proof (cases "next_ready rid e")
    case None
    then show ?thesis by simp
  next
    case (Some nid)
    obtain l e1 where b: "start_block rid nid e = Some (l, e1)"
      using start_block_next [OF Suc.prems Some] by fastforce
    have 1: "work.runs_inv rid fuel {} {rid} (begin_node_observation rid nid e1)"
      using start_block_work [OF Suc.prems Some b] by (intro work.inv_effects) (simp add: work_runs)
    have tot: "on_node_completed_with (tick_f fuel rid) rid nid oc (begin_node_observation rid nid e1) \<noteq> None" for oc
      using 1 by (intro completed_total Suc.IH) (simp_all add: work_runs)
    have "start_node_with (tick_f fuel rid) rid nid e \<noteq> None"
      using tot b by (simp add: start_node_with_def Let_def del: not_None_eq split: option.split launch_result.split)
    then obtain e2 where e2: "start_node_with (tick_f fuel rid) rid nid e = Some e2" by blast
    then have src: "e2 = begin_node_observation rid nid e1 \<or>
        (\<exists>oc. on_node_completed_with (tick_f fuel rid) rid nid oc (begin_node_observation rid nid e1) = Some e2)"
      using b by (auto simp: start_node_with_def Let_def split: option.splits launch_result.splits)
    have "work.runs_inv rid fuel {} {rid} e2"
      using src 1 work.inv_on_node_completed_with [OF work.ticks_tick_f 1] by auto
    then have "tick_f fuel rid e2 \<noteq> None" using Suc.IH by (simp add: work_runs)
    then show ?thesis using Some e2 by simp
  qed
qed

text \<open>More fuel does not change a result.\<close>

definition extends :: "(engine \<Rightarrow> engine option) \<Rightarrow> (engine \<Rightarrow> engine option) \<Rightarrow> bool" where
  "extends tk tk' \<longleftrightarrow> (\<forall>e e'. tk e = Some e' \<longrightarrow> tk' e = Some e')"

lemma completed_extends:
  assumes "extends tk tk'" and "on_node_completed_with tk rid nid oc e = Some e'"
  shows "on_node_completed_with tk' rid nid oc e = Some e'"
  using assms unfolding extends_def
  by (auto simp: on_node_completed_with_def after_node_terminal_with_def Let_def bind_eq_Some_conv
      split: option.splits if_splits)

lemma start_extends:
  assumes "extends tk tk'" and "start_node_with tk rid nid e = Some e'"
  shows "start_node_with tk' rid nid e = Some e'"
  using assms(2) completed_extends [OF assms(1)]
  by (auto simp: start_node_with_def Let_def split: option.splits launch_result.splits)

lemma tick_f_Suc: "extends (tick_f fuel rid) (tick_f (Suc fuel) rid)"
proof (induction fuel)
  case 0
  show ?case by (auto simp: extends_def split: option.splits)
next
  case (Suc fuel)
  show ?case
    unfolding extends_def
  proof (intro allI impI)
    fix e e' assume res: "tick_f (Suc fuel) rid e = Some e'"
    show "tick_f (Suc (Suc fuel)) rid e = Some e'"
    proof (cases "next_ready rid e")
      case None
      then show ?thesis using res by simp
    next
      case (Some nid)
      then obtain e1 where "start_node_with (tick_f fuel rid) rid nid e = Some e1" "tick_f fuel rid e1 = Some e'"
        using res by (auto simp: bind_eq_Some_conv)
      then have "start_node_with (tick_f (Suc fuel) rid) rid nid e = Some e1" "tick_f (Suc fuel) rid e1 = Some e'"
        using start_extends [OF Suc.IH] Suc.IH by (auto simp: extends_def simp del: tick_f.simps)
      then show ?thesis using Some by (subst tick_f.simps(2)) simp
    qed
  qed
qed

lemma tick_f_mono: "tick_f fuel rid e = Some e' \<Longrightarrow> fuel \<le> fuel' \<Longrightarrow> tick_f fuel' rid e = Some e'"
proof (induction fuel')
  case (Suc n)
  then show ?case
    using tick_f_Suc [of n rid] by (auto simp: extends_def le_Suc_eq simp del: tick_f.simps)
qed simp

lemma wf_work:
  assumes "all_runs run_ok e"
  shows "all_runs (work_le rid (tick_bound rid e)) e"
  using assms
  by (auto simp: all_runs_def work_le_def run_ok_def run_shape_def tick_bound_def unstarted_count_def)

lemma tick_total: "all_runs run_ok e \<Longrightarrow> tick rid e \<noteq> None"
  unfolding tick_def by (rule tick_f_total) (rule wf_work)

subsection \<open>The operations return\<close>

lemma wf_runs: "wf.runs_inv R T e \<longleftrightarrow> all_runs run_ok e"
  by (simp add: wf.runs_inv_def)

lemma after_node_terminal_total: "all_runs run_ok e \<Longrightarrow> after_node_terminal rid nid e \<noteq> None"
  using tick_total [of "reconcile_run rid e" rid] wf.inv_reconcile [of "{}" "{}" e rid]
  by (auto simp: after_node_terminal_def after_node_terminal_with_def Let_def wf_runs split: option.splits)

lemma on_node_completed_total: "all_runs run_ok e \<Longrightarrow> on_node_completed rid nid oc e \<noteq> None"
proof -
  assume e: "all_runs run_ok e"
  have "after_node_terminal rid nid (emit ev (finish_node_observation rid nid st e1)) \<noteq> None"
    if "complete_block rid nid oc e = Some (ev, st, e1)" for ev st e1
  proof (rule after_node_terminal_total)
    have "wf.runs_inv {rid} {rid} e1"
      using wf.inv_complete [of "{}" "{}" e rid nid oc ev st e1] that e by (simp add: wf_runs)
    then have "wf.runs_inv {rid} {rid} (emit ev (finish_node_observation rid nid st e1))"
      by (intro wf.inv_effects)
    then show "all_runs run_ok (emit ev (finish_node_observation rid nid st e1))" by (simp add: wf_runs)
  qed
  then show ?thesis
    by (auto simp: on_node_completed_def on_node_completed_with_def after_node_terminal_def split: option.splits)
qed

text \<open>The ticks of a completion all run on the fuel of the run they are in.\<close>

lemma reconcile_tick_total: "all_runs run_ok e \<Longrightarrow> tick rid (reconcile_run rid (begin_run_observation i e)) \<noteq> None"
proof -
  assume "all_runs run_ok e"
  then have "wf.runs_inv {} {} (begin_run_observation i e)" by (intro wf.inv_effects) (simp add: wf_runs)
  then have "wf.runs_inv ({} - {rid}) (insert rid {}) (reconcile_run rid (begin_run_observation i e))"
    by (rule wf.inv_reconcile)
  then show ?thesis by (intro tick_total) (simp add: wf_runs)
qed

lemma plan_total: "all_runs run_ok e \<Longrightarrow> plan def known session e \<noteq> None"
proof -
  assume e: "all_runs run_ok e"
  obtain run e1 where reg: "register_run ((build_run (e_clock e) def)\<lparr>r_session_id := session\<rparr>) e = (run, e1)"
    by fastforce
  show ?thesis
  proof (cases "validate_graph (rd_nodes def) known = []")
    case True
    have "all_runs run_ok e1" using wf.inv_register [OF _ True reg] e by (simp add: wf_runs)
    then obtain e2 where "tick (r_id run) (reconcile_run (r_id run) (begin_run_observation (r_id run) e1)) = Some e2"
      using reconcile_tick_total by blast
    then show ?thesis using True reg by (simp add: plan_def)
  qed (simp add: plan_def)
qed

lemma retry_total: "all_runs run_ok e \<Longrightarrow> retry rid ids e \<noteq> None"
  using wf.inv_retry [of e rid ids] reconcile_tick_total
  by (simp add: retry_def wf_runs bind_eq_None_conv del: not_None_eq split: option.split prod.split)

lemma skip_total: "all_runs run_ok e \<Longrightarrow> skip rid nid e \<noteq> None"
proof -
  assume e: "all_runs run_ok e"
  have "after_node_terminal rid nid
      (emit ev (finish_node_observation rid nid Skipped (begin_node_observation rid nid (skip_token token e1)))) \<noteq> None"
    if "skip_block rid nid e = Some (token, ev, e1)" for token ev e1
  proof (rule after_node_terminal_total)
    have "wf.runs_inv {rid} {rid} (skip_token token e1)"
      using wf.inv_skip [OF _ that] e by (simp add: wf_runs)
    then have "wf.runs_inv {rid} {rid}
        (emit ev (finish_node_observation rid nid Skipped (begin_node_observation rid nid (skip_token token e1))))"
      by (intro wf.inv_effects)
    then show "all_runs run_ok
        (emit ev (finish_node_observation rid nid Skipped (begin_node_observation rid nid (skip_token token e1))))"
      by (simp add: wf_runs)
  qed
  then show ?thesis
    by (simp add: skip_def skip_token_def Let_def bind_eq_None_conv del: not_None_eq split: option.split prod.split)
qed

lemma restore_start_total: "all_runs run_ok e \<Longrightarrow> restore_start rid e \<noteq> None"
  using reconcile_tick_total [of e rid rid] wf.inv_reconcile [of "{}" "{}" e rid]
    tick_total [of "reconcile_run rid e" rid]
  by (auto simp: restore_start_def Let_def wf_runs split: option.splits)

lemma restore_all_total: "all_runs run_ok e \<Longrightarrow> restore_all ids e \<noteq> None"
proof (induction ids arbitrary: e)
  case (Cons i ids)
  obtain e1 where e1: "restore_start i e = Some e1" using restore_start_total [OF Cons.prems] by blast
  have "all_runs run_ok e1"
    using wf.inv_restore_start [of "{}" "{}" e i e1] e1 Cons.prems by (simp add: wf_runs)
  then show ?case using Cons.IH e1 by simp
qed simp

lemma restore_total: "all_runs run_ok e \<Longrightarrow> list_all persisted_ok ps \<Longrightarrow> restore ps e \<noteq> None"
proof -
  assume e: "all_runs run_ok e" and ps: "list_all persisted_ok ps"
  obtain ids e1 where f: "fold restore_one ps ([], e) = (ids, e1)" by fastforce
  have "all_runs run_ok e1"
    using wf.inv_restore_fold [OF _ ps f] e by (simp add: wf_runs)
  then show ?thesis using restore_all_total [of e1 ids] f by (auto simp: restore_def)
qed

lemma reachable_runs_ok: "reachable e \<Longrightarrow> all_runs run_ok e"
  using reachable_wf by simp

text \<open>
  Scheduling returns: on every engine that a sequence of operations reaches, ticking a run ends
  and its result is the same for every amount of fuel from the number of nodes of the run on.
\<close>

theorem tick_returns:
  assumes "reachable e"
  shows "\<exists>e'. tick rid e = Some e' \<and> (\<forall>fuel \<ge> tick_bound rid e. tick_f fuel rid e = Some e')"
proof -
  obtain e' where "tick rid e = Some e'"
    using tick_total [OF reachable_runs_ok [OF assms]] by blast
  then show ?thesis using tick_f_mono unfolding tick_def by blast
qed

text \<open>
  Every operation of the engine returns: planning, the completion of a node (with any
  outcome, by any launcher), retrying, skipping and restoring give a result on every engine
  that a sequence of operations reaches.
\<close>

theorem operations_return:
  assumes "reachable e"
  shows "plan def known session e \<noteq> None \<and> on_node_completed rid nid oc e \<noteq> None \<and>
    retry rid ids e \<noteq> None \<and> skip rid nid e \<noteq> None \<and>
    (list_all persisted_ok ps \<longrightarrow> restore ps e \<noteq> None)"
  using plan_total on_node_completed_total retry_total skip_total restore_total
    reachable_runs_ok [OF assms] by blast

end
