(* ===== verification/Dag_Liveness.thy ===== *)
theory Dag_Liveness
  imports Dag_Tick
begin

text \<open>
  Progress: no run gets stuck. Between operations a running run is settled (the statuses of its
  unstarted nodes are what its dependencies call for) and has no node that could be started; so
  where the nodes are declared after their dependencies, some node is running and its completion
  will drive the run on, or all nodes are terminal.
\<close>

subsection \<open>Settled runs\<close>

definition node_view :: "dag_node \<Rightarrow> ustr \<times> node_status \<times> ustr list" where
  "node_view n = (n_id n, n_status n, n_depends_on n)"

lemma status_map_view: "map node_view ns = map node_view ns' \<Longrightarrow> status_map ns = status_map ns'"
proof -
  assume "map node_view ns = map node_view ns'"
  then have "map (\<lambda>v. (fst v, fst (snd v))) (map node_view ns) = map (\<lambda>v. (fst v, fst (snd v))) (map node_view ns')"
    by (rule arg_cong)
  then show ?thesis by (simp add: status_map_def node_view_def comp_def)
qed

lemma settled_view:
  assumes v: "map node_view ns = map node_view ns'" and s: "settled ns"
  shows "settled ns'"
  unfolding settled_def
proof (intro ballI impI)
  fix n' assume n': "n' \<in> set ns'" "unstarted (n_status n')"
  then have "node_view n' \<in> set (map node_view ns)" using v by simp
  then obtain n where n: "n \<in> set ns" "node_view n = node_view n'" by auto
  then have eq: "n_status n = n_status n'" "n_depends_on n = n_depends_on n'" by (simp_all add: node_view_def)
  have "n_status n = derive (status_map ns) n" using s n n' eq by (simp add: settled_def)
  also have "\<dots> = derive (status_map ns') n'"
    unfolding status_map_view [OF v] by (rule derive_cong(1)) (simp_all add: eq)
  finally show "n_status n' = derive (status_map ns') n'" using eq by simp
qed

lemma settled_terminal: "(\<And>n. n \<in> set ns \<Longrightarrow> is_terminal (n_status n)) \<Longrightarrow> settled ns"
  by (auto simp: settled_def unstarted_iff)

lemma mut_view:
  "(\<And>n. n \<in> set (r_nodes r) \<Longrightarrow> node_view (f n) = node_view n) \<Longrightarrow>
   map node_view (r_nodes (run_node_mut i f r)) = map node_view (r_nodes r)"
  unfolding run_node_mut_def by (simp add: map_update_first)

lemma count_view:
  assumes "map node_view (r_nodes r) = map node_view (r_nodes r')"
  shows "running_count r = running_count r'"
    and "(\<exists>n\<in>set (r_nodes r). n_status n = Ready) \<longleftrightarrow> (\<exists>n\<in>set (r_nodes r'). n_status n = Ready)"
proof -
  have c: "running_count x = length (filter (\<lambda>v. fst (snd v) = Running) (map node_view (r_nodes x)))" for x
    by (simp add: running_count_def filter_map comp_def node_view_def)
  show "running_count r = running_count r'" unfolding c assms ..
  have e: "(\<exists>n\<in>set (r_nodes x). n_status n = Ready) \<longleftrightarrow>
      (\<exists>v\<in>set (map node_view (r_nodes x)). fst (snd v) = Ready)" for x
    by (simp add: node_view_def)
  show "(\<exists>n\<in>set (r_nodes r). n_status n = Ready) \<longleftrightarrow> (\<exists>n\<in>set (r_nodes r'). n_status n = Ready)"
    unfolding e assms ..
qed

lemma deps_first_view: "map node_view ns = map node_view ns' \<Longrightarrow> deps_first ns = deps_first ns'"
proof (rule deps_first_cong)
  assume v: "map node_view ns = map node_view ns'"
  from arg_cong [OF v, of "map fst"] show "map n_id ns = map n_id ns'" by (simp add: node_view_def comp_def)
  from arg_cong [OF v, of "map (\<lambda>v. snd (snd v))"] show "map n_depends_on ns = map n_depends_on ns'"
    by (simp add: node_view_def comp_def)
qed

text \<open>Starting a ready node changes nothing that a derived status looks at.\<close>

lemma derive_class:
  assumes "\<And>i. map_option is_blocked (m i) = map_option is_blocked (m' i)"
    and "\<And>i. map_option node_done (m i) = map_option node_done (m' i)"
  shows "derive m n = derive m' n"
proof -
  have p: "m i = None \<longleftrightarrow> m' i = None" for i using assms(1) [of i] by (cases "m i"; cases "m' i") auto
  have b: "(case m i of None \<Rightarrow> False | Some s \<Rightarrow> is_blocked s) = (case m' i of None \<Rightarrow> False | Some s \<Rightarrow> is_blocked s)" for i
    using assms(1) [of i] by (cases "m i"; cases "m' i") auto
  have d: "(m i = Some Succeeded \<or> m i = Some Skipped) = (m' i = Some Succeeded \<or> m' i = Some Skipped)" for i
    using assms(2) [of i] by (cases "m i"; cases "m' i") (auto simp: node_done_def)
  show ?thesis unfolding derive_def blockers_def all_done_def present_deps_def p b d ..
qed

lemma settled_start:
  assumes "settled (r_nodes r)" and "distinct (map n_id (r_nodes r))"
    and "run_node r nid = Some n" "n_status n = Ready"
  shows "settled (r_nodes (run_node_mut nid (start_mark now k) r))"
proof -
  let ?ns = "r_nodes (run_node_mut nid (start_mark now k) r)"
  have ns: "?ns = map (\<lambda>n. if n_id n = nid then start_mark now k n else n) (r_nodes r)"
    by (rule run_node_mut_nodes [OF assms(2)])
  have dist: "distinct (map n_id ?ns)" using assms(2) by (simp add: run_node_mut_ids)
  have n: "n \<in> set (r_nodes r)" "n_id n = nid" using run_node_SomeD [OF assms(3)] by auto
  have sm: "status_map ?ns = (status_map (r_nodes r))(nid \<mapsto> Running)"
  proof (rule ext)
    fix i
    show "status_map ?ns i = ((status_map (r_nodes r))(nid \<mapsto> Running)) i"
    proof (cases "i \<in> n_id ` set (r_nodes r)")
      case True
      then obtain x where x: "x \<in> set (r_nodes r)" "n_id x = i" by auto
      let ?x = "if n_id x = nid then start_mark now k x else x"
      have "?x \<in> set ?ns" unfolding ns using x(1) by auto
      then have "status_map ?ns (n_id ?x) = Some (n_status ?x)" by (rule status_map_in [OF dist])
      then show ?thesis using x status_map_in [OF assms(2) x(1)] by (auto split: if_splits)
    next
      case False
      moreover have "n_id ` set ?ns = n_id ` set (r_nodes r)"
        using arg_cong [OF run_node_mut_ids [of "start_mark now k" nid r], of set] by simp
      ultimately show ?thesis
        using n status_map_None [of ?ns i] status_map_None [of "r_nodes r" i] by auto
    qed
  qed
  have old: "status_map (r_nodes r) nid = Some Ready"
    using status_map_in [OF assms(2) n(1)] n(2) assms(4) by simp
  have d: "derive (status_map ?ns) x = derive (status_map (r_nodes r)) x" for x
    by (rule derive_class) (auto simp: sm old is_blocked_def node_done_def)
  show ?thesis
    using assms(1) unfolding settled_def d unfolding ns by (auto simp: unstarted_def)
qed

subsection \<open>The invariant\<close>

definition rest_ok :: "bool \<Rightarrow> bool \<Rightarrow> ustr \<Rightarrow> dag_run \<Rightarrow> bool" where
  "rest_ok u t k r \<longleftrightarrow>
     run_ok k r \<and> (deps_first (r_nodes r) \<and> \<not> u \<longrightarrow> settled (r_nodes r)) \<and> (\<not> t \<longrightarrow> \<not> startable r)"

lemma rest_terminal:
  assumes "run_ok k r" and "r_status r \<noteq> DRunning"
  shows "rest_ok u t k r"
  using assms settled_terminal [of "r_nodes r"] by (auto simp: rest_ok_def run_ok_def startable_def)

lemma rest_todo: "run_ok k r \<Longrightarrow> rest_ok True True k r"
  by (simp add: rest_ok_def)

lemma rest_view:
  assumes "rest_ok u t k r" and "run_ok k r'" and "map node_view (r_nodes r') = map node_view (r_nodes r)"
    and "r_status r' = r_status r" and "r_max_concurrency r' = r_max_concurrency r"
  shows "rest_ok u t k r'"
  using assms settled_view [OF assms(3) [symmetric]] deps_first_view [OF assms(3)] count_view [OF assms(3)]
  by (auto simp: rest_ok_def startable_def)

interpretation rest: run_api_invariant rest_ok
proof
  fix u t k r nid n now oc err def known c session condition iteration finished reason job st it ot preview
    ids w p
  have ok: "run_ok k r" if "rest_ok u t k r" for u t k r using that by (simp add: rest_ok_def)
  show "rest_ok u True k r" if "rest_ok u t k r" using that by (simp add: rest_ok_def)
  show "rest_ok u False k r" if "rest_ok u t k r" "\<not> startable r" using that by (simp add: rest_ok_def)
  show "rest_ok False True k (emit_state now (run_node_mut nid (start_mark now k) r))"
    if r: "rest_ok False t k r" "startable r" "run_node r nid = Some n" "n_status n = Ready"
  proof -
    have "deps_first (r_nodes (run_node_mut nid (start_mark now k) r)) = deps_first (r_nodes r)"
      by (rule deps_first_cong) (simp_all add: run_node_mut_def map_update_first)
    then show ?thesis
      using r wf.P_start [OF ok [OF r(1)] r(2-4)] settled_start [OF _ _ r(3,4)]
      by (auto simp: rest_ok_def run_ok_def run_shape_def)
  qed
  show "rest_ok True True k (emit_state now (run_node_mut nid (complete_node now oc) r))"
    if "rest_ok u t k r" "run_node r nid = Some n" "n_status n = Running"
    by (rule rest_todo) (rule wf.P_complete [OF ok [OF that(1)] that(2,3)])
  show "rest_ok False True k (emit_state now (reconcile now r))" if "rest_ok u t k r"
    using wf.P_reconcile [OF ok [OF that]] reconcile_settles [of r now] ok [OF that]
    by (auto simp: rest_ok_def reconcile_def run_ok_def run_shape_def)
  show "rest_ok False False k (cancelled_run now err r)" if "rest_ok u t k r" "r_status r = DRunning"
    by (rule rest_terminal [OF wf.P_cancel [OF ok [OF that(1)] that(2)]]) (simp add: cancelled_run_def)
  show "rest_ok False False k r" if "rest_ok u t k r" "r_status r \<noteq> DRunning"
    by (rule rest_terminal [OF ok [OF that(1)] that(2)])
  show "rest_ok u t k (finished_run now r)" if "rest_ok u t k r" "r_status r = DRunning"
    "list_all (\<lambda>n. is_terminal (n_status n)) (r_nodes r)"
    by (rule rest_terminal [OF wf.P_finish [OF ok [OF that(1)] that(2,3)]]) (simp add: finished_run_def)
  show "rest_ok True True (dag_id c) ((build_run now def)\<lparr>r_session_id := session, r_id := dag_id c, r_last_activity_at := now\<rparr>)"
    if "validate_graph (rd_nodes def) known = []"
    by (rule rest_todo) (rule wf.P_new [OF that])
  show "rest_ok False False (goal_id c) (goal_run now condition session (goal_id c))"
    using wf.P_goal
    by (simp add: rest_ok_def goal_run_def goal_node_def settled_def startable_def running_count_def unstarted_def)
  show "rest_ok False False k (goal_ticked_run now iteration finished reason r)"
    if r: "rest_ok False False k r" "r_kind r = Goal"
  proof (cases finished)
    case True
    show ?thesis
      by (rule rest_terminal [OF wf.P_goal_tick [OF ok [OF r(1)] r(2)]])
        (simp add: True goal_ticked_run_def Let_def)
  next
    case False
    then show ?thesis
      by (intro rest_view [OF r(1) wf.P_goal_tick [OF ok [OF r(1)] r(2)]])
        (simp_all add: goal_ticked_run_def Let_def mut_view node_view_def)
  qed
  show "rest_ok False False k (run_node_mut main_id (\<lambda>n. n\<lparr>n_job_id := job\<rparr>) r)" if r: "rest_ok False False k r"
    by (rule rest_view [OF r wf.P_evaluator [OF ok [OF r]]]) (simp_all add: mut_view node_view_def)
  show "rest_ok False False k (completed_goal now st reason r)"
    if r: "rest_ok False False k r" "r_kind r = Goal" "st = DFailed \<or> st = DCancelled" "r_status r = DRunning"
    by (rule rest_terminal [OF wf.P_complete_goal [OF ok [OF r(1)] r(2-4)]])
      (use r(3) in \<open>auto simp: completed_goal_def\<close>)
  show "rest_ok False False k ((run_node_mut nid (update_node now it ot preview) r)\<lparr>r_last_activity_at := now\<rparr>)"
    if r: "rest_ok False False k r"
    by (rule rest_view [OF r wf.P_update [OF ok [OF r]]]) (simp_all add: mut_view node_view_def)
  show "rest_ok False False k (r\<lparr>r_session_id := session, r_last_activity_at := now\<rparr>)" if r: "rest_ok False False k r"
    by (rule rest_view [OF r wf.P_rehome [OF ok [OF r]]]) simp_all
  show "rest_ok True True k (emit_state now (reopen_run (fold (\<lambda>i r. run_node_mut i reset_node r) ids r)))"
    if "rest_ok False False k r"
    by (rule rest_todo) (rule wf.P_retry [OF ok [OF that]])
  show "rest_ok True True k (emit_state now (reopen_run (run_node_mut nid (skip_mark now w) (fold release_blocked ids r))))"
    if "rest_ok False False k r"
    by (rule rest_todo) (rule wf.P_skip [OF ok [OF that]])
  show "rest_ok True True (pr_id p) (hydrate now p)" if "persisted_ok p"
    by (rule rest_todo) (rule wf.P_hydrate [OF that])
qed

subsection \<open>No run is stuck\<close>

lemma first_unstarted:
  assumes "deps_first ns" and "n \<in> set ns" and "\<not> is_terminal (n_status n)"
  obtains x where "x \<in> set ns" and "\<not> is_terminal (n_status x)"
    and "\<And>y. y \<in> set ns \<Longrightarrow> n_id y \<in> set (n_depends_on x) \<Longrightarrow> is_terminal (n_status y)"
  using assms
proof (induction ns arbitrary: thesis)
  case (Cons a ns)
  show ?case
  proof (cases "is_terminal (n_status a)")
    case False
    then show ?thesis using Cons.prems(1,2) by (auto simp: disjoint_iff)
  next
    case True
    then have "n \<in> set ns" using Cons.prems by auto
    with Cons.IH Cons.prems obtain x where "x \<in> set ns" "\<not> is_terminal (n_status x)"
      "\<And>y. y \<in> set ns \<Longrightarrow> n_id y \<in> set (n_depends_on x) \<Longrightarrow> is_terminal (n_status y)" by auto
    then show ?thesis using True Cons.prems(1) by auto
  qed
qed simp

lemma derive_of_terminal:
  assumes "distinct (map n_id ns)"
    and "\<And>y. y \<in> set ns \<Longrightarrow> n_id y \<in> set (n_depends_on x) \<Longrightarrow> is_terminal (n_status y)"
  shows "derive (status_map ns) x \<noteq> Pending"
proof -
  have "status_map ns i = Some Succeeded \<or> status_map ns i = Some Skipped"
    if i: "i \<in> set (present_deps (status_map ns) x)" and "blockers (status_map ns) x = []" for i
  proof -
    obtain s where s: "status_map ns i = Some s" using i by (auto simp: present_deps_def)
    then obtain y where "y \<in> set ns" "n_id y = i" "n_status y = s"
      using status_map_Some [OF assms(1)] by blast
    moreover have "\<not> is_blocked s"
      using that s by (auto simp: blockers_def filter_empty_conv)
    ultimately have "s = Succeeded \<or> s = Skipped"
      using assms(2) [of y] i by (auto simp: present_deps_def is_terminal_def is_blocked_def)
    then show ?thesis using s by auto
  qed
  then show ?thesis by (auto simp: derive_def all_done_def list_all_iff)
qed

lemma rest_progress:
  assumes "rest_ok False False k r" and "r_status r = DRunning" and "deps_first (r_nodes r)"
    and "0 < r_max_concurrency r" and "n \<in> set (r_nodes r)" and "\<not> is_terminal (n_status n)"
  shows "0 < running_count r"
proof (rule ccontr)
  assume idle: "\<not> 0 < running_count r"
  obtain x where x: "x \<in> set (r_nodes r)" "\<not> is_terminal (n_status x)"
    "\<And>y. y \<in> set (r_nodes r) \<Longrightarrow> n_id y \<in> set (n_depends_on x) \<Longrightarrow> is_terminal (n_status y)"
    using first_unstarted [OF assms(3,5,6)] by blast
  have "n_status x \<noteq> Running" using idle x(1) by (auto simp: running_count_def filter_empty_conv)
  then have un: "unstarted (n_status x)" using x(2) by (simp add: unstarted_iff)
  then have "n_status x = derive (status_map (r_nodes r)) x"
    using assms(1,3) x(1) by (simp add: rest_ok_def settled_def)
  moreover have "distinct (map n_id (r_nodes r))"
    using assms(1) by (simp add: rest_ok_def run_ok_def run_shape_def)
  ultimately have "n_status x = Ready"
    using derive_of_terminal [OF _ x(3)] un by (auto simp: unstarted_def)
  then have "startable r" using x(1) idle assms(2,4) by (auto simp: startable_def)
  then show False using assms(1) by (simp add: rest_ok_def)
qed

definition progressing :: "dag_run \<Rightarrow> bool" where
  "progressing r \<longleftrightarrow>
     r_status r \<noteq> DRunning \<or> 0 < running_count r \<or> list_all (\<lambda>n. is_terminal (n_status n)) (r_nodes r)"

text \<open>
  C3. No run is stuck: in every engine that a sequence of operations reaches, a run whose nodes are
  declared after their dependencies and whose concurrency limit is positive is over, or has a
  running node (whose completion drives the run on), or has only terminal nodes.
\<close>

theorem reachable_no_stuck_run:
  assumes "reachable e" and "get_run e k = Some r" and "deps_first (r_nodes r)" and "0 < r_max_concurrency r"
  shows "progressing r"
proof -
  have "rest.runs_inv {} {} e" by (rule rest.inv_reachable [OF assms(1)])
  then have "rest_ok False False k r"
    using rest.runs_inv_get [of "{}" "{}" e k r] assms(2) by simp
  from rest_progress [OF this _ assms(3,4)] show ?thesis
    unfolding progressing_def list_all_iff by blast
qed

end
