(* ===== verification/Dag_Jobs.thy ===== *)
theory Dag_Jobs
  imports Dag_Liveness
begin

text \<open>
  Jobs and cancellation tokens. For the runs of the DAG scheduler, a token is registered for a node
  exactly while the node is running, and it has not been cancelled; so cancelling a run reaches
  every job of it, and a new run never inherits a job. The registered tokens and the counter that
  makes run ids unique form one invariant, an interpretation of \<open>api_invariant\<close>.
\<close>

subsection \<open>Running nodes\<close>

definition running_in :: "dag_run \<Rightarrow> ustr \<Rightarrow> bool" where
  "running_in r nid = (case run_node r nid of None \<Rightarrow> False | Some n \<Rightarrow> n_status n = Running)"

definition node_running :: "engine \<Rightarrow> ustr \<Rightarrow> ustr \<Rightarrow> bool" where
  "node_running e rid nid = (case get_run e rid of None \<Rightarrow> False | Some r \<Rightarrow> running_in r nid)"

lemma node_running_set [simp]:
  "node_running (set_run rid r e) i nid = (if i = rid then running_in r nid else node_running e i nid)"
  by (simp add: node_running_def)

lemma node_running_cong: "e_runs e' = e_runs e \<Longrightarrow> node_running e' i nid = node_running e i nid"
  by (simp add: node_running_def get_run_def)

lemma find_update_first:
  assumes "\<And>x. key (f x) = key x"
  shows "find (\<lambda>x. key x = j) (update_first (\<lambda>x. key x = i) f xs) =
    (if j = i then map_option f (find (\<lambda>x. key x = i) xs) else find (\<lambda>x. key x = j) xs)"
  using assms by (induction xs) auto

lemma run_node_mut_node:
  "(\<And>n. n_id (f n) = n_id n) \<Longrightarrow>
   run_node (run_node_mut i f r) j = (if j = i then map_option f (run_node r i) else run_node r j)"
  by (simp add: run_node_def run_node_mut_def find_update_first)

lemma running_in_mut:
  "(\<And>n. n_id (f n) = n_id n) \<Longrightarrow>
   running_in (run_node_mut i f r) j =
     (if j = i then (case run_node r i of None \<Rightarrow> False | Some n \<Rightarrow> n_status (f n) = Running) else running_in r j)"
  by (simp add: running_in_def run_node_mut_node split: option.splits)

lemma running_in_view:
  assumes "map (\<lambda>n. (n_id n, n_status n = Running)) (r_nodes r) = map (\<lambda>n. (n_id n, n_status n = Running)) (r_nodes r')"
  shows "running_in r j = running_in r' j"
proof -
  have "running_in x j = (case find (\<lambda>v. fst v = j) (map (\<lambda>n. (n_id n, n_status n = Running)) (r_nodes x)) of
      None \<Rightarrow> False | Some v \<Rightarrow> snd v)" for x
    by (simp add: running_in_def run_node_def find_map_comp option.case_eq_if option.map_sel)
  then show ?thesis using assms by simp
qed

lemma running_in_same_nodes: "r_nodes r = r_nodes r' \<Longrightarrow> running_in r j = running_in r' j"
  by (simp add: running_in_def run_node_def)

lemma running_in_emit_reopen [simp]:
  "running_in (emit_state now r) j = running_in r j" "running_in (reopen_run r) j = running_in r j"
  by (rule running_in_same_nodes; simp)+

lemma running_in_reconcile [simp]: "running_in (reconcile now r) j = running_in r j"
proof (rule running_in_view)
  have "list_all2 (\<lambda>n n'. (n_id n', n_status n' = Running) = (n_id n, n_status n = Running)) (r_nodes r) (r_nodes (reconcile now r))"
    using reconcile_from by (rule list_all2_mono) (simp add: reconciled_from_keep reconciled_from_status(1))
  then show "map (\<lambda>n. (n_id n, n_status n = Running)) (r_nodes (reconcile now r)) =
      map (\<lambda>n. (n_id n, n_status n = Running)) (r_nodes r)"
    by (induction rule: list_all2_induct) auto
qed

lemma running_in_finished [simp]: "running_in (finished_run now r) j = running_in r j"
  by (rule running_in_same_nodes) (simp add: finished_run_def)

lemma running_in_iff: "running_in r j \<longleftrightarrow> (\<exists>n. run_node r j = Some n \<and> n_status n = Running)"
  by (simp add: running_in_def split: option.split)

lemma running_in_terminal:
  "(\<And>n. n \<in> set (r_nodes r) \<Longrightarrow> is_terminal (n_status n)) \<Longrightarrow> \<not> running_in r j"
  by (fastforce simp: running_in_iff is_terminal_def dest: run_node_SomeD)

lemma running_in_cancelled [simp]: "\<not> running_in (cancelled_run now err r) j"
  by (rule running_in_terminal) (auto simp: cancelled_run_def cancel_node_terminal)

lemma running_in_ids:
  assumes "distinct (map n_id (r_nodes r))"
  shows "running_in r j \<longleftrightarrow> j \<in> set (map n_id (filter (\<lambda>n. n_status n = Running) (r_nodes r)))"
proof
  assume "running_in r j"
  then show "j \<in> set (map n_id (filter (\<lambda>n. n_status n = Running) (r_nodes r)))"
    by (auto simp: running_in_iff dest!: run_node_SomeD)
next
  assume "j \<in> set (map n_id (filter (\<lambda>n. n_status n = Running) (r_nodes r)))"
  then show "running_in r j" using run_node_in [OF assms] by (auto simp: running_in_iff)
qed

text \<open>Resetting and releasing blocked nodes does not touch the running ones.\<close>

lemma running_in_reset:
  assumes "blocked_in r i"
  shows "running_in (run_node_mut i reset_node r) j = running_in r j"
  using assms unfolding running_in_mut [OF reset_node_simps(1)]
  by (auto simp: blocked_in_def is_blocked_def running_in_iff split: option.splits)

lemma blocked_in_reset: "j \<noteq> i \<Longrightarrow> blocked_in (run_node_mut i reset_node r) j = blocked_in r j"
  by (simp add: blocked_in_def run_node_mut_node)

lemma running_in_reset_fold:
  assumes "distinct ids" and "\<And>i. i \<in> set ids \<Longrightarrow> blocked_in r i"
  shows "running_in (fold (\<lambda>i r. run_node_mut i reset_node r) ids r) j = running_in r j"
  using assms
proof (induction ids arbitrary: r)
  case (Cons i ids)
  have "blocked_in (run_node_mut i reset_node r) j" if "j \<in> set ids" for j
    using Cons.prems that blocked_in_reset [of j i r] by (cases "j = i") auto
  then show ?case using Cons by (simp add: running_in_reset)
qed simp

lemma running_in_release: "running_in (release_blocked i r) j = running_in r j"
proof -
  have "running_in (release_blocked i r) j =
      (if j = i then (case run_node r i of None \<Rightarrow> False
         | Some n \<Rightarrow> n_status (if is_blocked (n_status n) then reset_node n else n) = Running) else running_in r j)"
    unfolding release_blocked_def by (rule running_in_mut) simp
  then show ?thesis by (auto simp: is_blocked_def running_in_def split: option.splits)
qed

lemma running_in_release_fold [simp]: "running_in (fold release_blocked ids r) j = running_in r j"
  by (induction ids arbitrary: r) (auto simp: running_in_release)

lemma push_unique_set [simp]: "set (push_unique i ids) = insert i (set ids)"
  and push_unique_distinct: "distinct ids \<Longrightarrow> distinct (push_unique i ids)"
  by (auto simp: push_unique_def)

lemma fold_push_unique:
  "set (fold push_unique is ids) = set is \<union> set ids \<and> (distinct ids \<longrightarrow> distinct (fold push_unique is ids))"
  by (induction "is" arbitrary: ids) (auto simp: push_unique_distinct)

definition resettable :: "dag_run \<Rightarrow> ustr list \<Rightarrow> bool" where
  "resettable r ids \<longleftrightarrow> (\<forall>i\<in>set ids. blocked_in r i) \<and> distinct ids"

lemma resettable_target: "resettable r ids \<Longrightarrow> resettable r (retry_target r t ids)"
  using fold_push_unique [of "filter (blocked_in r) (downstream_closure (r_nodes r) t)" "push_unique t ids"]
  by (auto simp: resettable_def retry_target_def push_unique_distinct)

lemma resettable_fold: "resettable r ids \<Longrightarrow> resettable r (fold (retry_target r) ts ids)"
  by (induction ts arbitrary: ids) (simp_all add: resettable_target)

lemma retry_set_props: "resettable r (retry_set r node_ids)"
  unfolding retry_set_def Let_def by (rule resettable_fold) (simp add: resettable_def)

subsection \<open>The invariant\<close>

text \<open>The registered tokens: below the counter, not cancelled, each for one job.\<close>

definition tokens_ok :: "engine \<Rightarrow> bool" where
  "tokens_ok e \<longleftrightarrow>
     (\<forall>k t. hm_get (e_jobs e) k = Some t \<longrightarrow> t < e_next_token e \<and> t \<notin> set (e_cancelled e)) \<and>
     (\<forall>k k' t. hm_get (e_jobs e) k = Some t \<longrightarrow> hm_get (e_jobs e) k' = Some t \<longrightarrow> k = k') \<and>
     (\<forall>t\<in>set (e_cancelled e). t < e_next_token e)"

definition jobs_match :: "engine \<Rightarrow> bool" where
  "jobs_match e \<longleftrightarrow>
     (\<forall>c nid. hm_get (e_jobs e) (dag_id c, nid) \<noteq> None \<longleftrightarrow> node_running e (dag_id c) nid)"

lemma jobs_match_cong:
  "jobs_match e \<Longrightarrow> e_jobs e' = e_jobs e \<Longrightarrow>
   (\<And>c j. node_running e' (dag_id c) j = node_running e (dag_id c) j) \<Longrightarrow> jobs_match e'"
  by (simp add: jobs_match_def)

definition ids_below :: "engine \<Rightarrow> bool" where
  "ids_below e \<longleftrightarrow> (\<forall>c. get_run e (dag_id c) \<noteq> None \<longrightarrow> c \<le> e_dag_counter e)"

definition jobs_inv :: "engine \<Rightarrow> bool" where
  "jobs_inv e \<longleftrightarrow> all_runs run_ok e \<and> tokens_ok e \<and> jobs_match e \<and> ids_below e"

lemma jobs_invI:
  "all_runs run_ok e \<Longrightarrow> tokens_ok e \<Longrightarrow> jobs_match e \<Longrightarrow> ids_below e \<Longrightarrow> jobs_inv e"
  by (simp add: jobs_inv_def)

lemma tokens_ok_cong:
  "tokens_ok e \<Longrightarrow> e_jobs e' = e_jobs e \<Longrightarrow> e_next_token e' = e_next_token e \<Longrightarrow>
   e_cancelled e' = e_cancelled e \<Longrightarrow> tokens_ok e'"
  by (simp add: tokens_ok_def)

lemma tokens_ok_del: "tokens_ok e \<Longrightarrow> tokens_ok (e\<lparr>e_jobs := hm_del k (e_jobs e)\<rparr>)"
  by (auto simp: tokens_ok_def split: if_splits)

lemma tokens_ok_cancel: "tokens_ok e \<Longrightarrow> tokens_ok (cancel_token rid nid e)"
  unfolding tokens_ok_def cancel_token_def
  by (auto split: option.splits if_splits)

lemma tokens_ok_put:
  "tokens_ok e \<Longrightarrow>
   tokens_ok (e\<lparr>e_jobs := hm_put k (e_next_token e) (e_jobs e), e_next_token := e_next_token e + 1\<rparr>)"
  unfolding tokens_ok_def by (auto simp: less_Suc_eq split: if_splits) (blast+)?

lemma cancel_token_get [simp]:
  "hm_get (e_jobs (cancel_token rid nid e)) = (hm_get (e_jobs e))((rid, nid) := None)"
  by (auto simp: cancel_token_def fun_eq_iff split: option.splits)

lemma cancel_token_runs: "e_runs (cancel_token rid nid e) = e_runs e"
  by (simp add: cancel_token_def split: option.split)

lemma cancel_tokens_get:
  "hm_get (e_jobs (fold (cancel_token rid) ids e)) k =
     (if fst k = rid \<and> snd k \<in> set ids then None else hm_get (e_jobs e) k)"
  by (induction ids arbitrary: e) (auto simp: prod_eq_iff)

lemma cancel_tokens_ok: "tokens_ok e \<Longrightarrow> tokens_ok (fold (cancel_token rid) ids e)"
  by (induction ids arbitrary: e) (auto simp: tokens_ok_cancel)

lemma cancel_tokens_frame [simp]:
  "e_dag_counter (fold (cancel_token rid) ids e) = e_dag_counter e"
  by (induction ids arbitrary: e) (auto simp: cancel_token_def split: option.splits)

lemma cancel_tokens_cancelled:
  "set (e_cancelled (fold (cancel_token rid) ids e)) =
     set (e_cancelled e) \<union> {t. \<exists>i\<in>set ids. hm_get (e_jobs e) (rid, i) = Some t}"
proof (induction ids arbitrary: e)
  case (Cons i ids)
  show ?case
    unfolding fold_simps Cons.IH
    by (auto simp: cancel_token_def split: option.splits) (metis option.inject)
qed simp

lemma jobs_invD:
  "jobs_inv e \<Longrightarrow> all_runs run_ok e" "jobs_inv e \<Longrightarrow> tokens_ok e" "jobs_inv e \<Longrightarrow> jobs_match e"
  "jobs_inv e \<Longrightarrow> ids_below e"
  by (simp_all add: jobs_inv_def)

text \<open>A change of one run that keeps its running nodes and leaves jobs and counters alone.\<close>

lemma jobs_inv_set_run:
  assumes e: "jobs_inv e" and r: "get_run e rid = Some r" and r': "all_runs run_ok (set_run rid r' e)"
    and same: "\<And>j. running_in r' j = running_in r j"
  shows "jobs_inv (set_run rid r' e)"
proof (rule jobs_invI [OF r'])
  show "tokens_ok (set_run rid r' e)" using jobs_invD(2) [OF e] by (rule tokens_ok_cong) simp_all
  show "jobs_match (set_run rid r' e)"
    using jobs_invD(3) [OF e] r same by (auto simp: jobs_match_def node_running_def)
  show "ids_below (set_run rid r' e)" using jobs_invD(4) [OF e] r by (auto simp: ids_below_def)
qed

lemma jobs_inv_set_run':
  assumes "jobs_inv e" and "get_run e rid = Some r" and "all_runs run_ok e'" and "e' = set_run rid r' e"
    and "\<And>j. running_in r' j = running_in r j"
  shows "jobs_inv e'"
  using jobs_inv_set_run assms by simp

lemma jobs_inv_frame:
  assumes "jobs_inv e" and "e_runs e' = e_runs e" and "e_jobs e' = e_jobs e" and "e_next_token e' = e_next_token e"
    and "e_cancelled e' = e_cancelled e" and "e_dag_counter e \<le> e_dag_counter e'"
  shows "jobs_inv e'"
proof (rule jobs_invI)
  have g: "get_run e' i = get_run e i" for i using assms(2) by (simp add: get_run_def)
  show "all_runs run_ok e'" using jobs_invD(1) [OF assms(1)] assms(2) by (rule all_runs_cong)
  show "tokens_ok e'" using jobs_invD(2) [OF assms(1)] assms(3-5) by (rule tokens_ok_cong)
  show "jobs_match e'"
    using jobs_invD(3) [OF assms(1)] node_running_cong [OF assms(2)] by (simp add: jobs_match_def assms(3))
  show "ids_below e'"
    using jobs_invD(4) [OF assms(1)] assms(6) g by (fastforce simp: ids_below_def)
qed

text \<open>A run that is not registered, or is over, has no job.\<close>

lemma jobs_of_absent: "jobs_inv e \<Longrightarrow> get_run e (dag_id c) = None \<Longrightarrow> hm_get (e_jobs e) (dag_id c, nid) = None"
proof -
  assume "jobs_inv e" and "get_run e (dag_id c) = None"
  moreover from this have "\<not> node_running e (dag_id c) nid" by (simp add: node_running_def)
  ultimately show ?thesis unfolding jobs_inv_def jobs_match_def by blast
qed

lemma terminal_not_running:
  "all_runs run_ok e \<Longrightarrow> get_run e i = Some r \<Longrightarrow> r_status r \<noteq> DRunning \<Longrightarrow> \<not> node_running e i nid"
  using running_in_terminal [of r nid] by (auto simp: node_running_def run_ok_def dest: all_runsD)

text \<open>A goal run is not under a DAG id, so its nodes are outside \<open>jobs_match\<close>.\<close>

lemma goal_id_not_dag: "all_runs run_ok e \<Longrightarrow> get_run e i = Some r \<Longrightarrow> r_kind r = Goal \<Longrightarrow> i \<noteq> dag_id c"
  by (auto simp: run_ok_def run_shape_def dest!: all_runsD)

lemma jobs_inv_goal:
  assumes e: "jobs_inv e" and r: "get_run e rid = Some r" "r_kind r = Goal" and r': "all_runs run_ok (set_run rid r' e)"
  shows "jobs_inv (set_run rid r' e)"
proof (rule jobs_invI [OF r'])
  have nd: "rid \<noteq> dag_id c" for c by (rule goal_id_not_dag [OF jobs_invD(1) [OF e] r])
  show "tokens_ok (set_run rid r' e)" using jobs_invD(2) [OF e] by (rule tokens_ok_cong) simp_all
  show "jobs_match (set_run rid r' e)"
    using jobs_invD(3) [OF e] nd by (auto simp: jobs_match_def dest!: spec)
  show "ids_below (set_run rid r' e)" using jobs_invD(4) [OF e] nd by (auto simp: ids_below_def)
qed

text \<open>Skipping a running node removes and cancels its token.\<close>

lemma skip_jobs:
  assumes e: "jobs_inv e" and ok: "all_runs run_ok (skip_token token e')"
    and b: "skip_block rid nid e = Some (token, ev, e')"
  shows "jobs_inv (skip_token token e')"
proof -
  note D = jobs_invD
  obtain r n r1 where r: "get_run e rid = Some r" "run_node r nid = Some n"
    and r1: "r1 = (if n_status n = Failed then fold release_blocked (downstream_closure (r_nodes r) nid) r else r)"
    using b by (auto simp: skip_block_def Let_def split: option.splits if_splits)
  define w where "w = running_in r1 nid"
  define r2 where "r2 = emit_state (e_clock e) (reopen_run (run_node_mut nid (skip_mark (e_clock e) w) r1))"
  have w_r: "w = running_in r nid" unfolding w_def r1 by simp
  have e': "e' = (if w then (set_run rid r2 e)\<lparr>e_jobs := hm_del (rid, nid) (e_jobs e)\<rparr> else set_run rid r2 e)"
    and token: "token = (if w then hm_get (e_jobs e) (rid, nid) else None)"
    using b r by (auto simp: skip_block_def Let_def w_def r1 r2_def running_in_def cong: if_cong split: if_splits)
  have eq: "skip_token token e' = (if w then cancel_token rid nid (set_run rid r2 e) else set_run rid r2 e)"
  proof (cases "w \<and> hm_get (e_jobs e) (rid, nid) = None")
    case True
    then have "hm_del (rid, nid) (e_jobs e) = e_jobs e" by (intro hm_del_absent) simp
    then show ?thesis using True by (simp add: e' token skip_token_def cancel_token_def)
  next
    case False
    then show ?thesis by (auto simp: e' token skip_token_def cancel_token_def split: option.split)
  qed
  have tok: "tokens_ok (set_run rid r2 e)" using D(2) [OF e] by (rule tokens_ok_cong) simp_all
  have "running_in r2 j = (if j = nid then False else running_in r j)" for j
    using r unfolding r2_def running_in_emit_reopen
    by (subst running_in_mut) (auto simp: r1 split: option.splits)
  then have run: "node_running (skip_token token e') i j = (if i = rid \<and> j = nid then False else node_running e i j)" for i j
    using r by (subst node_running_cong [of _ "set_run rid r2 e"]) (auto simp: eq cancel_token_runs node_running_def)
  have jobs: "hm_get (e_jobs (skip_token token e')) k = (if w \<and> k = (rid, nid) then None else hm_get (e_jobs e) k)" for k
    by (simp add: eq)
  show ?thesis
  proof (rule jobs_invI [OF ok])
    show "tokens_ok (skip_token token e')" using tok tokens_ok_cancel by (simp add: eq)
    show "jobs_match (skip_token token e')"
      unfolding jobs_match_def run jobs
    proof (intro allI)
      fix c j
      have "(hm_get (e_jobs e) (dag_id c, j) \<noteq> None) = node_running e (dag_id c) j"
        using D(3) [OF e] by (simp add: jobs_match_def)
      then show "((if w \<and> (dag_id c, j) = (rid, nid) then None else hm_get (e_jobs e) (dag_id c, j)) \<noteq> None) =
          (if dag_id c = rid \<and> j = nid then False else node_running e (dag_id c) j)"
        using w_r r by (auto simp: node_running_def)
    qed
    have "get_run (skip_token token e') i \<noteq> None \<longleftrightarrow> get_run e i \<noteq> None" for i
      using r by (auto simp: eq get_run_def cancel_token_runs)
    moreover have "e_dag_counter (skip_token token e') = e_dag_counter e"
      by (auto simp: eq cancel_token_def split: option.splits)
    ultimately show "ids_below (skip_token token e')" using D(4) [OF e] by (simp add: ids_below_def)
  qed
qed

interpretation jobs: api_invariant "\<lambda>R T. jobs_inv"
proof
  fix R T T' :: "ustr set" and e e' rid nid l oc ev st reason running cancelled s rst ids
  note D = jobs_invD
  have wf: "wf.runs_inv R T e" if "jobs_inv e" for e R T using D(1) [OF that] by (simp add: wf_runs)
  show "jobs_inv e'" if "jobs_inv e" "quiet e e'"
    by (rule jobs_inv_frame [OF that(1)]) (simp_all add: quiet_core [OF that(2)])
  show "hm_ok (e_runs e)" if "jobs_inv e" using D(1) [OF that] by (simp add: all_runs_def)
  show "jobs_inv (remove_runs ids e)"
    if e: "jobs_inv e" and t: "\<And>i r. i \<in> set ids \<Longrightarrow> get_run e i = Some r \<Longrightarrow> r_status r \<noteq> DRunning"
  proof (rule jobs_invI)
    have g: "get_run (remove_runs ids e) i = (if i \<in> set ids then None else get_run e i)" for i
      using D(1) [OF e] by (intro get_run_remove_runs) (simp add: all_runs_def)
    show "all_runs run_ok (remove_runs ids e)" by (rule all_runs_remove [OF D(1) [OF e]])
    show "tokens_ok (remove_runs ids e)" using D(2) [OF e] by (rule tokens_ok_cong) simp_all
    have "node_running (remove_runs ids e) i j = node_running e i j" for i j
      using terminal_not_running [OF D(1) [OF e]] t by (auto simp: node_running_def g split: option.splits)
    then show "jobs_match (remove_runs ids e)" using D(3) [OF e] by (simp add: jobs_match_def)
    show "ids_below (remove_runs ids e)" using D(4) [OF e] by (auto simp: ids_below_def g)
  qed
  show "jobs_inv e'" if e: "jobs_inv e" and nxt: "next_ready rid e = Some nid"
    and b: "start_block rid nid e = Some (l, e')"
  proof (rule jobs_invI)
    obtain r n where r: "get_run e rid = Some r" "run_node r nid = Some n"
      and e': "e' = (set_run rid (emit_state (e_clock e) (run_node_mut nid (start_mark (e_clock e) rid) r)) e)
        \<lparr>e_jobs := hm_put (rid, nid) (e_next_token e) (e_jobs e), e_next_token := e_next_token e + 1\<rparr>"
      using b by (auto simp: start_block_def Let_def split: option.splits if_splits)
    show "all_runs run_ok e'"
      using wf.inv_start [OF wf [OF e, of "{}" "{}"] _ nxt b] by (simp add: wf_runs)
    have "tokens_ok (e\<lparr>e_jobs := hm_put (rid, nid) (e_next_token e) (e_jobs e), e_next_token := e_next_token e + 1\<rparr>)"
      by (rule tokens_ok_put [OF D(2) [OF e]])
    then show "tokens_ok e'" by (rule tokens_ok_cong) (simp_all add: e')
    have "node_running e' i j = (if i = rid \<and> j = nid then True else node_running e i j)" for i j
      using r by (simp add: e' node_running_def get_run_def [of "e_next_token_update _ _"] running_in_mut)
    then show "jobs_match e'" using D(3) [OF e] by (auto simp: jobs_match_def e')
    have "get_run e' i \<noteq> None \<longleftrightarrow> get_run e i \<noteq> None" for i
      using r by (auto simp: e' get_run_def)
    then show "ids_below e'" using D(4) [OF e] by (simp add: ids_below_def e')
  qed
  show "jobs_inv e'" if e: "jobs_inv e" and b: "complete_block rid nid oc e = Some (ev, st, e')"
  proof (rule jobs_invI)
    obtain r n where r: "get_run e rid = Some r" "run_node r nid = Some n"
      and e': "e' = (set_run rid (emit_state (e_clock e) (run_node_mut nid (complete_node (e_clock e) oc) r)) e)
        \<lparr>e_jobs := hm_del (rid, nid) (e_jobs e)\<rparr>"
      using b by (auto simp: complete_block_def Let_def split: option.splits if_splits)
    show "all_runs run_ok e'"
      using wf.inv_complete [OF wf [OF e, of "{}" "{}"] b] by (simp add: wf_runs)
    have "tokens_ok (e\<lparr>e_jobs := hm_del (rid, nid) (e_jobs e)\<rparr>)"
      by (rule tokens_ok_del [OF D(2) [OF e]])
    then show "tokens_ok e'" by (rule tokens_ok_cong) (simp_all add: e')
    have "node_running e' i j = (if i = rid \<and> j = nid then False else node_running e i j)" for i j
      using r by (simp add: e' node_running_def get_run_def running_in_mut)
    then show "jobs_match e'" using D(3) [OF e] by (auto simp: jobs_match_def e')
    have "get_run e' i \<noteq> None \<longleftrightarrow> get_run e i \<noteq> None" for i
      using r by (auto simp: e' get_run_def)
    then show "ids_below e'" using D(4) [OF e] by (simp add: ids_below_def e')
  qed
  show "jobs_inv (reconcile_run rid e)" if e: "jobs_inv e"
  proof (cases "get_run e rid")
    case None
    then show ?thesis using e by (simp add: reconcile_run_def)
  next
    case (Some r)
    show ?thesis
      by (rule jobs_inv_set_run' [OF e Some, where r' = "emit_state (e_clock e) (reconcile (e_clock e) r)"])
        (use wf.inv_reconcile [OF wf [OF e, of "{}" "{}"], of rid] Some in \<open>simp_all add: reconcile_run_def wf_runs\<close>)
  qed
  show "jobs_inv (fold (cancel_token rid) running e')"
    if e: "jobs_inv e" and b: "cancel_block rid reason e = Some (running, cancelled, s, e')"
  proof (rule jobs_invI)
    obtain r where r: "get_run e rid = Some r" "r_status r = DRunning"
      and e': "e' = set_run rid (cancelled_run (e_clock e) (Some (cancel_reason reason)) r) e"
      and run: "running = map n_id (filter (\<lambda>n. n_status n = Running) (r_nodes r))"
      using b by (auto simp: cancel_block_def cancelled_run_def Let_def split: option.splits if_splits)
    show "all_runs run_ok (fold (cancel_token rid) running e')"
      using wf.inv_cancel [OF wf [OF e, of "{}" "{}"] b] by (simp add: wf_runs)
    have "tokens_ok e'" using D(2) [OF e] by (rule tokens_ok_cong) (simp_all add: e')
    then show "tokens_ok (fold (cancel_token rid) running e')" by (rule cancel_tokens_ok)
    have "running_in r j \<longleftrightarrow> j \<in> set running" for j
      unfolding run using all_runsD [OF D(1) [OF e] r(1)] by (intro running_in_ids) (simp add: run_ok_def run_shape_def)
    moreover have "node_running (fold (cancel_token rid) running e') i j = node_running e' i j" for i j
      by (rule node_running_cong) simp
    ultimately have run: "node_running (fold (cancel_token rid) running e') i j = (if i = rid then False else node_running e i j)"
      and old: "node_running e rid j \<longleftrightarrow> j \<in> set running" for i j
      using r by (simp_all add: e' node_running_def)
    show "jobs_match (fold (cancel_token rid) running e')"
      unfolding jobs_match_def run cancel_tokens_get
    proof (intro allI)
      fix c j
      have "(hm_get (e_jobs e) (dag_id c, j) \<noteq> None) = node_running e (dag_id c) j"
        using D(3) [OF e] by (simp add: jobs_match_def)
      then show "((if fst (dag_id c, j) = rid \<and> snd (dag_id c, j) \<in> set running then None
          else hm_get (e_jobs e') (dag_id c, j)) \<noteq> None) = (if dag_id c = rid then False else node_running e (dag_id c) j)"
        using old by (auto simp: e')
    qed
    have "get_run (fold (cancel_token rid) running e') i = get_run e' i" for i
      by (simp add: get_run_def)
    then show "ids_below (fold (cancel_token rid) running e')"
      using D(4) [OF e] r by (auto simp: ids_below_def e')
  qed
  show "jobs_inv e'" if e: "jobs_inv e" and b: "maybe_complete_block rid e = Some (ev, rst, s, e')"
  proof -
    obtain r where r: "get_run e rid = Some r" and e': "e' = set_run rid (finished_run (e_clock e) r) e"
      using b by (auto simp: maybe_complete_block_def finished_run_def Let_def split: option.splits if_splits)
    show ?thesis
      by (rule jobs_inv_set_run' [OF e r _ e'])
        (use wf.inv_finish [OF wf [OF e, of "{}" "{}"] b] in \<open>simp_all add: wf_runs\<close>)
  qed
next
  fix R T :: "ustr set" and e e' rid nid reason s def known session run i condition iteration finished evs job gst
    gen it ot preview s1 s2 node_ids reset token ev p ids ids' observer now
  note D = jobs_invD
  have wf: "wf.runs_inv R T e" if "jobs_inv e" for e R T using D(1) [OF that] by (simp add: wf_runs)
  show "jobs_inv e'"
    if e: "jobs_inv e" and valid: "validate_graph (rd_nodes def) known = []"
      and reg: "register_run ((build_run (e_clock e) def)\<lparr>r_session_id := session\<rparr>) e = (run, e')"
  proof (rule jobs_invI)
    let ?c = "e_dag_counter e + 1"
    let ?r = "(build_run (e_clock e) def)\<lparr>r_session_id := session, r_id := dag_id ?c, r_last_activity_at := e_clock e\<rparr>"
    have e': "e' = set_run (dag_id ?c) ?r (e\<lparr>e_dag_counter := ?c\<rparr>)"
      using reg by (auto simp: register_run_def Let_def)
    have g: "get_run e' i = (if i = dag_id ?c then Some ?r else get_run e i)" for i
      by (simp add: e' get_run_def)
    show "all_runs run_ok e'" using wf.inv_register [OF wf [OF e] valid reg] by (simp add: wf_runs)
    show "tokens_ok e'" using D(2) [OF e] by (rule tokens_ok_cong) (simp_all add: e')
    have "get_run e (dag_id ?c) = None" using D(4) [OF e] by (auto simp: ids_below_def dest!: spec [of _ ?c])
    moreover have "\<not> running_in ?r j" for j
      by (auto simp: running_in_iff build_run_def build_node_def dest!: run_node_SomeD)
    ultimately have "node_running e' i j = node_running e i j" for i j
      by (simp add: node_running_def g)
    moreover have "e_jobs e' = e_jobs e" by (simp add: e')
    ultimately show "jobs_match e'" by (intro jobs_match_cong [OF D(3) [OF e]])
    show "ids_below e'" using D(4) [OF e] by (auto simp: ids_below_def g) (auto simp: e')
  qed
  show "jobs_inv (set_run i (goal_run (e_clock e) condition session i) (e\<lparr>e_goal_counter := e_goal_counter e + 1\<rparr>))"
    if e: "jobs_inv e" and i: "i = goal_id (e_goal_counter e + 1)"
  proof (rule jobs_invI)
    let ?e' = "set_run i (goal_run (e_clock e) condition session i) (e\<lparr>e_goal_counter := e_goal_counter e + 1\<rparr>)"
    have nd: "get_run ?e' (dag_id c) = get_run e (dag_id c)" for c by (simp add: i get_run_def)
    show "all_runs run_ok ?e'" using wf.inv_register_goal [OF wf [OF e] i] by (simp add: wf_runs)
    show "tokens_ok ?e'" using D(2) [OF e] by (rule tokens_ok_cong) simp_all
    have "node_running ?e' (dag_id c) j = node_running e (dag_id c) j" for c j
      by (simp only: node_running_def nd)
    moreover have "e_jobs ?e' = e_jobs e" by simp
    ultimately show "jobs_match ?e'" by (intro jobs_match_cong [OF D(3) [OF e]])
    show "ids_below ?e'" using D(4) [OF e] unfolding ids_below_def nd by simp
  qed
  show "jobs_inv e'" if e: "jobs_inv e" and g: "goal_only rid e"
    and b: "goal_tick_block rid iteration finished reason e = Some (evs, s, e')"
  proof -
    obtain r where r: "get_run e rid = Some r"
      and e': "e' = set_run rid (goal_ticked_run (e_clock e) iteration finished reason r) e"
      using b by (auto simp: goal_tick_block_def goal_ticked_run_def Let_def split: option.splits if_splits)
    have "all_runs run_ok e'" using wf.inv_goal_tick [OF wf [OF e] g b] by (simp add: wf_runs)
    then show ?thesis using jobs_inv_goal [OF e r] g r by (simp add: e' goal_only_def)
  qed
  show "jobs_inv (on_goal_evaluator_finished rid job e)" if e: "jobs_inv e"
  proof (cases "get_run e rid")
    case None
    then show ?thesis using e by (simp add: on_goal_evaluator_finished_def)
  next
    case (Some r)
    have "running_in (run_node_mut main_id (\<lambda>n. n\<lparr>n_job_id := Some job\<rparr>) r) j = running_in r j" for j
      by (subst running_in_mut) (auto simp: running_in_def split: option.splits)
    then show ?thesis
      using jobs_inv_set_run [OF e Some] wf.inv_evaluator [OF wf [OF e], of rid job] Some
      by (simp add: on_goal_evaluator_finished_def wf_runs)
  qed
  show "jobs_inv e'" if e: "jobs_inv e" and g: "goal_only rid e" and st: "gst = DFailed \<or> gst = DCancelled"
    and b: "complete_goal_block rid gst reason e = Some (evs, s, e')"
  proof -
    obtain r where r: "get_run e rid = Some r"
      and e': "e' = set_run rid (completed_goal (e_clock e) gst reason r) e"
      using b by (auto simp: complete_goal_block_def completed_goal_def Let_def split: option.splits if_splits)
    have "all_runs run_ok e'" using wf.inv_complete_goal [OF wf [OF e] g st b] by (simp add: wf_runs)
    then show ?thesis using jobs_inv_goal [OF e r] g r by (simp add: e' goal_only_def)
  qed
  show "jobs_inv (on_node_update rid nid gen it ot preview e)" if e: "jobs_inv e"
  proof (cases "on_node_update rid nid gen it ot preview e = e")
    case False
    then obtain r where r: "get_run e rid = Some r"
      and e': "on_node_update rid nid gen it ot preview e = notify_persist (set_run rid
        ((run_node_mut nid (update_node (e_clock e) it ot preview) r)\<lparr>r_last_activity_at := e_clock e\<rparr>) e)"
      by (auto simp: on_node_update_def split: option.splits if_splits)
    let ?r' = "(run_node_mut nid (update_node (e_clock e) it ot preview) r)\<lparr>r_last_activity_at := e_clock e\<rparr>"
    have "running_in ?r' j = running_in (run_node_mut nid (update_node (e_clock e) it ot preview) r) j" for j
      by (rule running_in_same_nodes) simp
    moreover have "\<dots> j = running_in r j" for j
      by (subst running_in_mut) (auto simp: running_in_def split: option.splits)
    moreover have "all_runs run_ok (set_run rid ?r' e)"
      using wf.inv_update [OF wf [OF e], of rid nid gen it ot preview] unfolding e'
      by (auto simp: wf_runs intro: all_runs_cong)
    ultimately have "jobs_inv (set_run rid ?r' e)" using jobs_inv_set_run [OF e r] by simp
    then show ?thesis unfolding e' by (rule jobs_inv_frame) simp_all
  qed (use e in simp)
  show "jobs_inv (snd (rehome_runs s1 s2 e))" if e: "jobs_inv e"
  proof (rule jobs_invI)
    show "all_runs run_ok (snd (rehome_runs s1 s2 e))" using wf.inv_rehome [OF wf [OF e]] by (simp add: wf_runs)
    have f: "e_jobs (snd (rehome_runs s1 s2 e)) = e_jobs e" "e_next_token (snd (rehome_runs s1 s2 e)) = e_next_token e"
      "e_cancelled (snd (rehome_runs s1 s2 e)) = e_cancelled e" "e_dag_counter (snd (rehome_runs s1 s2 e)) = e_dag_counter e"
      by (simp_all add: rehome_runs_def Let_def)
    show "tokens_ok (snd (rehome_runs s1 s2 e))" using D(2) [OF e] f(1-3) by (rule tokens_ok_cong)
    have "node_running (snd (rehome_runs s1 s2 e)) i j = node_running e i j" for i j
      by (auto simp: node_running_def get_run_rehome running_in_def run_node_def split: option.splits)
    then show "jobs_match (snd (rehome_runs s1 s2 e))" using D(3) [OF e] by (simp add: jobs_match_def f)
    show "ids_below (snd (rehome_runs s1 s2 e))" using D(4) [OF e] by (auto simp: ids_below_def f get_run_rehome)
  qed
  show "jobs_inv e'" if e: "jobs_inv e" and b: "retry_block rid node_ids e = Some (reset, e')"
  proof -
    obtain r where r: "get_run e rid = Some r"
      and e': "e' = set_run rid (emit_state (e_clock e)
          (reopen_run (fold (\<lambda>i r. run_node_mut i reset_node r) (retry_set r node_ids) r))) e"
      using b by (auto simp: retry_block_def Let_def split: option.splits)
    show ?thesis
      by (rule jobs_inv_set_run' [OF e r _ e'])
        (use wf.inv_retry [OF wf [OF e] b] retry_set_props [of r node_ids] in
          \<open>simp_all add: wf_runs resettable_def running_in_reset_fold\<close>)
  qed
  show "jobs_inv (skip_token token e')" if e: "jobs_inv e" and b: "skip_block rid nid e = Some (token, ev, e')"
    by (rule skip_jobs [OF e wf.inv_skip [OF wf [OF e] b, unfolded wf_runs] b])
  show "jobs_inv e'"
    if e: "jobs_inv e" and p: "persisted_ok p" and res: "restore_one p (ids, e) = (ids', e')"
  proof (cases "get_run e (pr_id p)")
    case (Some r)
    then show ?thesis using e res by (simp add: restore_one_def)
  next
    case None
    let ?r = "hydrate (e_clock e) p"
    have e': "e' = set_run (pr_id p) ?r (e\<lparr>e_dag_counter := max (e_dag_counter e) (max_run_counter [?r])\<rparr>)"
      using None res by (auto simp: restore_one_def Let_def)
    have g: "get_run e' i = (if i = pr_id p then Some ?r else get_run e i)" for i
      by (simp add: e' get_run_def)
    show ?thesis
    proof (rule jobs_invI)
      show "all_runs run_ok e'"
        using wf.inv_restore_one [OF wf [OF e] p res] by (simp add: wf_runs)
      show "tokens_ok e'" using D(2) [OF e] by (rule tokens_ok_cong) (simp_all add: e')
      have "\<not> running_in ?r j" for j
        using hydrate_no_running [of _ "e_clock e" p] by (auto simp: running_in_iff dest!: run_node_SomeD)
      then have "node_running e' i j = node_running e i j" for i j
        using None by (simp add: node_running_def g)
      moreover have "e_jobs e' = e_jobs e" by (simp add: e')
      ultimately show "jobs_match e'" by (intro jobs_match_cong [OF D(3) [OF e]])
      have new: "c \<le> max_run_counter [?r]" if "dag_id c = pr_id p" for c
        using p that max_run_counter_single [of _ ?r]
        by (auto simp: persisted_ok_def split: run_kind.splits)
      show "ids_below e'"
        unfolding ids_below_def
      proof (intro allI impI)
        fix c assume "get_run e' (dag_id c) \<noteq> None"
        then show "c \<le> e_dag_counter e'"
          using new [of c] D(4) [OF e]
          by (cases "dag_id c = pr_id p") (auto simp: g ids_below_def e' le_max_iff_disj)
      qed
    qed
  qed
  show "jobs_inv (new_engine observer now)"
    by (simp add: jobs_inv_def all_runs_def tokens_ok_def jobs_match_def ids_below_def node_running_def
        new_engine_def get_run_def)
qed auto

subsection \<open>Properties\<close>

lemma reachable_jobs: "reachable e \<Longrightarrow> jobs_inv e"
  by (rule jobs.inv_reachable)

definition jobs_live :: "engine \<Rightarrow> bool" where
  "jobs_live e \<longleftrightarrow> jobs_match e \<and> tokens_ok e"

text \<open>
  C4. A cancellation token is registered for a node of a DAG run exactly while the node is running,
  is registered for that node only, and has not been cancelled; so no running job is out of the
  reach of a cancellation and no finished job keeps a token.
\<close>

theorem reachable_jobs_live:
  assumes "reachable e"
  shows "jobs_live e"
  using reachable_jobs [OF assms] by (simp add: jobs_live_def jobs_inv_def)

text \<open>What is left of the run after an eviction and a wake-up.\<close>

lemma quiet_tail:
  assumes "hm_ok (e_runs e)"
  shows "get_run (wake_waiters rid (snd (evict s (notify_persist (emit ev e))))) i \<in> {None, get_run e i}"
    and "e_jobs (wake_waiters rid (snd (evict s (notify_persist (emit ev e))))) = e_jobs e"
    and "e_cancelled (wake_waiters rid (snd (evict s (notify_persist (emit ev e))))) = e_cancelled e"
  using assms by (simp_all add: get_run_evict)

lemma observe_cancelled_frame [simp]:
  "e_runs (fold (observe_cancelled rid) ids e) = e_runs e"
  "e_jobs (fold (observe_cancelled rid) ids e) = e_jobs e"
  "e_cancelled (fold (observe_cancelled rid) ids e) = e_cancelled e"
  by (induction ids arbitrary: e) (simp_all add: observe_cancelled_def)

definition run_cancelled :: "dag_run \<Rightarrow> dag_run \<Rightarrow> ustr \<Rightarrow> bool" where
  "run_cancelled r r' reason \<longleftrightarrow>
     r_status r' = DCancelled \<and> r_error r' = Some reason \<and>
     list_all2 (\<lambda>n n'. if is_terminal (n_status n) then n' = n
                       else n_id n' = n_id n \<and> n_status n' = Cancelled \<and> n_error n' = Some reason)
       (r_nodes r) (r_nodes r')"

lemma cancelled_run_cancelled: "run_cancelled r (cancelled_run now (Some reason) r) reason"
proof -
  have "if is_terminal (n_status n) then cancel_node now (Some reason) n = n
      else n_id (cancel_node now (Some reason) n) = n_id n \<and> n_status (cancel_node now (Some reason) n) = Cancelled \<and>
        n_error (cancel_node now (Some reason) n) = Some reason" for n
    by (cases "n_status n") (simp_all add: cancel_node_def is_terminal_def)
  then show ?thesis
    by (simp add: run_cancelled_def cancelled_run_def list_all2_map2 list_all2_same)
qed

text \<open>
  Cancelling a running DAG run reaches all of it: the run ends cancelled with the reason (or has
  already been evicted), its unfinished nodes are cancelled and the finished ones unchanged, every
  token that was registered for one of its nodes is cancelled and none stays registered.
\<close>

theorem cancel_run_complete:
  assumes "reachable e" and "get_run e (dag_id c) = Some r" and "r_status r = DRunning"
  shows "(case get_run (cancel_run (dag_id c) reason e) (dag_id c) of
            None \<Rightarrow> True | Some r' \<Rightarrow> run_cancelled r r' (cancel_reason reason)) \<and>
    (\<forall>nid. hm_get (e_jobs (cancel_run (dag_id c) reason e)) (dag_id c, nid) = None) \<and>
    (\<forall>nid. case hm_get (e_jobs e) (dag_id c, nid) of None \<Rightarrow> True
       | Some t \<Rightarrow> t \<in> set (e_cancelled (cancel_run (dag_id c) reason e)))"
proof -
  let ?rid = "dag_id c"
  define run where "run = map n_id (filter (\<lambda>n. n_status n = Running) (r_nodes r))"
  define r' where "r' = cancelled_run (e_clock e) (Some (cancel_reason reason)) r"
  obtain cs where b: "cancel_block ?rid reason e = Some (run, cs, r_session_id r', set_run ?rid r' e)"
    using assms(2,3) by (simp add: cancel_block_def Let_def run_def r'_def cancelled_run_def)
  let ?e4 = "finish_run_observation ?rid DCancelled (fold (observe_cancelled ?rid) cs (fold (cancel_token ?rid) run (set_run ?rid r' e)))"
  have J: "jobs_inv e" by (rule reachable_jobs [OF assms(1)])
  have ok: "hm_ok (e_runs ?e4)" using jobs_invD(1) [OF J] by (simp add: all_runs_def)
  have res: "cancel_run ?rid reason e = wake_waiters ?rid (snd (evict (r_session_id r') (notify_persist
      (emit (RunStatusEvent ?rid (or_default (r_session_id r')) DCancelled (Some (cancel_reason reason))) ?e4))))"
    by (simp add: cancel_run_def b)
  have g: "get_run ?e4 ?rid = Some r'" by (simp add: get_run_def)
  have jobs: "hm_get (e_jobs ?e4) (?rid, nid) = (if nid \<in> set run then None else hm_get (e_jobs e) (?rid, nid))" for nid
    by (simp add: cancel_tokens_get)
  have "running_in r nid \<longleftrightarrow> nid \<in> set run" for nid
    unfolding run_def using all_runsD [OF jobs_invD(1) [OF J] assms(2)]
    by (intro running_in_ids) (simp add: run_ok_def run_shape_def)
  then have all: "hm_get (e_jobs e) (?rid, nid) \<noteq> None \<longleftrightarrow> nid \<in> set run" for nid
    using jobs_invD(3) [OF J] assms(2) unfolding jobs_match_def by (simp add: node_running_def)
  have "set (e_cancelled ?e4) = set (e_cancelled e) \<union> {t. \<exists>i\<in>set run. hm_get (e_jobs e) (?rid, i) = Some t}"
    by (simp add: cancel_tokens_cancelled)
  then have "\<forall>nid. case hm_get (e_jobs e) (?rid, nid) of None \<Rightarrow> True
       | Some t \<Rightarrow> t \<in> set (e_cancelled (cancel_run ?rid reason e))"
    unfolding res quiet_tail(3) [OF ok] using all by (auto split: option.split)
  moreover have "\<forall>nid. hm_get (e_jobs (cancel_run ?rid reason e)) (?rid, nid) = None"
    unfolding res quiet_tail(2) [OF ok] jobs
  proof
    fix nid
    show "(if nid \<in> set run then None else hm_get (e_jobs e) (?rid, nid)) = None"
      using all [of nid] by (cases "nid \<in> set run") auto
  qed
  moreover have "get_run (cancel_run ?rid reason e) ?rid \<in> {None, Some r'}"
    unfolding res g [symmetric] by (rule quiet_tail(1) [OF ok])
  ultimately show ?thesis
    using cancelled_run_cancelled unfolding r'_def by (auto split: option.split)
qed

text \<open>
  Planning never reuses an id: the id of a newly planned run was not the id of any run, and no
  token was registered under it, also after persisted runs were restored.
\<close>

theorem plan_fresh_id:
  assumes "reachable e" and "plan def known session e = Some (Inr run, e')"
  shows "r_id run = dag_id (e_dag_counter e + 1) \<and> get_run e (r_id run) = None \<and>
    (\<forall>nid. hm_get (e_jobs e) (r_id run, nid) = None)"
proof -
  let ?c = "e_dag_counter e + 1"
  have J: "jobs_inv e" by (rule reachable_jobs [OF assms(1)])
  have none: "get_run e (dag_id ?c) = None"
    using jobs_invD(4) [OF J] by (auto simp: ids_below_def dest!: spec [of _ ?c])
  have ok: "all_runs run_ok e'"
    using wf.inv_plan [OF _ assms(2)] jobs_invD(1) [OF J] by (simp add: wf_runs)
  have "validate_graph (rd_nodes def) known = []"
    using assms(2) by (simp add: plan_def Let_def split: if_splits)
  moreover define r0 where
    "r0 = (build_run (e_clock e) def)\<lparr>r_session_id := session, r_id := dag_id ?c, r_last_activity_at := e_clock e\<rparr>"
  ultimately have run: "run = (case get_run e' (dag_id ?c) of Some r \<Rightarrow> r | None \<Rightarrow> r0)"
    using assms(2) by (auto simp: plan_def register_run_def Let_def bind_eq_Some_conv)
  have "r_id run = dag_id ?c"
    using all_runsD [OF ok, of "dag_id ?c"]
    by (auto simp: run r0_def run_ok_def run_shape_def split: option.split)
  then show ?thesis using none jobs_of_absent [OF J none] by simp
qed

end
