(* ===== verification/Goal_Facts.thy ===== *)
theory Goal_Facts
  imports Goal Session_Facts Dag_Jobs
begin

text \<open>
  Facts about the goal hook: what its steps do to the goal stored in the session (over every
  storage that meets \<open>session_storage\<close>), to the engine, and to the engine's run of the goal.
\<close>

subsection \<open>The codec\<close>

lemma status_of_status_str: "status_of_str (status_str st) = Some st"
  by (cases st) (simp_all add: status_of_str_def)

lemma goal_decode_encode: "gs_iterations g < 2 ^ 32 \<Longrightarrow> goal_from_json (goal_to_json g) = Some g"
  by (cases "gs_last_reason g")
    (simp_all add: goal_from_json_def goal_to_json_def get_str_def status_of_status_str)

definition goal_entry :: "entry_head \<Rightarrow> goal_state \<Rightarrow> session_entry" where
  "goal_entry h g = ECustom h GOAL_CUSTOM_TYPE (Some (goal_to_json g))"

lemma goal_entry_read: "gs_iterations g < 2 ^ 32 \<Longrightarrow> goal_from_entry (goal_entry h g) = Some g"
  by (simp add: goal_entry_def goal_decode_encode)

lemma iterations_of_bound: "iterations_of x = Some n \<Longrightarrow> n < 2 ^ 32"
  by (cases x rule: iterations_of.cases) (auto split: if_splits)

lemma goal_from_json_bound: "goal_from_json v = Some g \<Longrightarrow> gs_iterations g < 2 ^ 32"
  by (auto simp: goal_from_json_def split: option.splits dest: iterations_of_bound)

lemma newest_Some: "newest f es = Some y \<Longrightarrow> \<exists>e\<in>set es. f e = Some y"
  by (induction es rule: rev_induct) (auto simp: newest_snoc newest_def split: option.splits)

lemma goal_from_entry_bound: "goal_from_entry e = Some g \<Longrightarrow> gs_iterations g < 2 ^ 32"
  by (cases e rule: goal_from_entry.cases) (auto simp: bind_eq_Some_conv split: if_splits dest: goal_from_json_bound)

definition current_goal :: "session_entry list \<Rightarrow> goal_state option" where
  "current_goal es = Option.bind (latest_from_entries es) (\<lambda>g. if gs_status g = Cleared then None else Some g)"

lemma current_goal_bound: "current_goal es = Some g \<Longrightarrow> gs_iterations g < 2 ^ 32 \<and> gs_status g \<noteq> Cleared"
  by (auto simp: current_goal_def latest_from_entries_def bind_eq_Some_conv split: if_splits
      dest!: newest_Some goal_from_entry_bound)

lemma current_goal_snoc:
  "gs_iterations g < 2 ^ 32 \<Longrightarrow>
   current_goal (es @ [goal_entry h g]) = (if gs_status g = Cleared then None else Some g)"
  by (simp add: current_goal_def latest_from_entries_def newest_snoc goal_entry_read)

lemma evaluated_simps [simp]:
  "gs_condition (evaluated g r t) = gs_condition g" "gs_status (evaluated g r t) = gs_status g"
  "gs_iterations (evaluated g r t) < 4294967296" "gs_last_reason (evaluated g r t) = Some r"
  by (simp_all add: evaluated_def)

text \<open>What \<open>hook_end\<close> comes down to: a pause, a panic, or an evaluator decision.\<close>

lemma hook_end_cases:
  fixes w :: "'s goal_world"
  defines "w1 \<equiv> \<lambda>rid job. w\<lparr>gw_engine := link_evaluator rid job (gw_engine w)\<rparr>"
  obtains (pause) reason where "hook_end ops from_str now g rid result w =
        (Some (fst (pause_for ops now rid g reason (w1 rid (ar_job_id result)))),
         snd (pause_for ops now rid g reason (w1 rid (ar_job_id result))))"
  | (panic) "hook_end ops from_str now g rid result w = (None, w1 rid (ar_job_id result))"
      "parse_decision from_str (ar_text result) = None"
  | (decide) is_ok reason where "hook_end ops from_str now g rid result w =
        (Some (fst (hook_apply ops now g rid is_ok reason (w1 rid (ar_job_id result)))),
         snd (hook_apply ops now g rid is_ok reason (w1 rid (ar_job_id result))))"
      "parse_decision from_str (ar_text result) = Some (Inr (is_ok, reason))"
proof -
  consider "ar_error result = Some (lit ''cancelled'')"
    | "ar_error result \<noteq> Some (lit ''cancelled'')" "\<not> ar_success result"
    | "ar_error result \<noteq> Some (lit ''cancelled'')" "ar_success result" "parse_decision from_str (ar_text result) = None"
    | r where "ar_error result \<noteq> Some (lit ''cancelled'')" "ar_success result"
        "parse_decision from_str (ar_text result) = Some (Inl r)"
    | is_ok r where "ar_error result \<noteq> Some (lit ''cancelled'')" "ar_success result"
        "parse_decision from_str (ar_text result) = Some (Inr (is_ok, r))"
    by (metis not_Some_eq obj_sumE surj_pair)
  then show thesis
    by cases (auto simp: hook_end_def Let_def case_prod_beta w1_def intro: that [unfolded w1_def])
qed

subsection \<open>The goal in the session\<close>

context session_storage
begin

lemma goal_current_eq: "ok s \<Longrightarrow> goal_current ops s = (current_goal (ents s), s)"
  by (simp add: goal_current_def get_entries current_goal_def)

lemma append_state_eq:
  assumes "session_inv s"
  shows "\<exists>h s'. append_state ops now g s = (Inr (), s') \<and> session_inv s' \<and> ents s' = ents s @ [goal_entry h g]"
proof -
  from append_child [OF assms, of "\<lambda>i parent. ECustom \<lparr>eh_id = i, eh_parent_id = parent, eh_timestamp = now\<rparr>
      GOAL_CUSTOM_TYPE (Some (goal_to_json g))"]
  obtain i s' where "append_custom ops now GOAL_CUSTOM_TYPE (Some (goal_to_json g)) s = (Inr i, s')"
    "session_inv s'" "\<exists>h. ents s' = ents s @ [goal_entry h g]"
    by (auto simp: append_custom_def goal_entry_def)
  then show ?thesis by (auto simp: append_state_def)
qed

lemma stored_eq:
  assumes "session_inv s" "gs_iterations g < 2 ^ 32"
  shows "\<exists>s'. stored ops now g s = (Inr g, s') \<and> session_inv s' \<and>
           current_goal (ents s') = (if gs_status g = Cleared then None else Some g)"
  using append_state_eq [OF assms(1), of now g] current_goal_snoc [OF assms(2)]
  by (auto simp: stored_def)

lemma persist_eq:
  assumes "session_inv (gw_session w)" "gs_iterations g < 2 ^ 32"
  shows "session_inv (gw_session (persist_state_best_effort ops now g w)) \<and>
    current_goal (ents (gw_session (persist_state_best_effort ops now g w))) =
      (if gs_status g = Cleared then None else Some g)"
  using append_state_eq [OF assms(1), of now g] current_goal_snoc [OF assms(2)]
  by (auto simp: persist_state_best_effort_def)

lemma session_id_frame: "ok s \<Longrightarrow> snd (session_id_from_harness ops s) = s"
  using get_metadata [of s] by (auto simp: session_id_from_harness_def split: sum.splits)

lemma ensure_goal_run_frame: "ok (gw_session w) \<Longrightarrow> gw_session (snd (ensure_goal_run ops c w)) = gw_session w"
  using session_id_frame [of "gw_session w"]
  by (auto simp: ensure_goal_run_def split: prod.splits option.splits)

lemma pause_for_eq:
  assumes "session_inv (gw_session w)" "gs_iterations g < 2 ^ 32"
  shows "te_action (fst (pause_for ops now rid g reason w)) = TPause reason \<and>
    session_inv (gw_session (snd (pause_for ops now rid g reason w))) \<and>
    current_goal (ents (gw_session (snd (pause_for ops now rid g reason w)))) =
      Some (g\<lparr>gs_status := Paused, gs_last_reason := Some reason, gs_updated_at := now 0\<rparr>)"
  using persist_eq [OF assms(1), of "g\<lparr>gs_status := Paused, gs_last_reason := Some reason, gs_updated_at := now 0\<rparr>"]
    assms(2)
  by (simp add: pause_for_def Let_def pause_decision_def)

text \<open>The stages of the hook, on the current goal of the session.\<close>

lemma hook_begin_cases:
  assumes "session_inv (gw_session w)"
  shows "case hook_begin ops now transcript have_model have_launch w of
      (Decided d, w') \<Rightarrow> session_inv (gw_session w') \<and>
        (te_action d = Noop \<and> gw_session w' = gw_session w \<or> (\<exists>r. te_action d = TPause r))
    | (Evaluate g rid prompt, w') \<Rightarrow> gw_session w' = gw_session w \<and>
        current_goal (ents (gw_session w)) = Some g \<and> gs_status g = Pursuing"
proof -
  have ok: "ok (gw_session w)" using assms by (rule inv_ok)
  note goal = goal_current_eq [OF ok]
  show ?thesis
  proof (cases "current_goal (ents (gw_session w))")
    case None
    then show ?thesis using assms by (simp add: hook_begin_def goal decision_of_action_def)
  next
    case (Some g)
    obtain rid w1 where e: "ensure_goal_run ops (gs_condition g) w = (rid, w1)" by fastforce
    have w1: "gw_session w1 = gw_session w" using ensure_goal_run_frame [OF ok, of "gs_condition g"] e by simp
    have b: "gs_iterations g < 2 ^ 32" using current_goal_bound [OF Some] by simp
    have p: "session_inv (gw_session (snd (pause_for ops now rid g reason w1))) \<and>
        (\<exists>r. te_action (fst (pause_for ops now rid g reason w1)) = TPause r)" for reason
      using pause_for_eq [of w1 g now rid reason] assms b w1 by simp
    consider "gs_status g \<noteq> Pursuing" | "gs_status g = Pursuing" "\<not> have_model"
      | "gs_status g = Pursuing" "have_model" "\<not> have_launch" | "gs_status g = Pursuing" have_model have_launch
      by blast
    then show ?thesis
      using Some assms e w1 p
      by cases (simp_all add: hook_begin_def goal decision_of_action_def Let_def case_prod_beta)
  qed
qed

lemma hook_apply_session:
  assumes "session_inv (gw_session w)" "gs_status g = Pursuing"
  shows "session_inv (gw_session (snd (hook_apply ops now g rid is_ok reason w))) \<and>
    current_goal (ents (gw_session (snd (hook_apply ops now g rid is_ok reason w)))) =
      Some ((evaluated g reason (now 0))\<lparr>gs_status :=
        if is_ok then Achieved
        else if MAX_CONTINUATIONS \<le> gs_iterations (evaluated g reason (now 0)) then BudgetLimited else Pursuing\<rparr>)"
proof -
  let ?g = "evaluated g reason (now 0)"
  have eq: "?g\<lparr>gs_status := Pursuing\<rparr> = ?g" using assms(2) by (simp add: evaluated_def)
  note p = persist_eq [OF assms(1), of _ "now 1"]
  show ?thesis
    using p [of "?g\<lparr>gs_status := Achieved\<rparr>"] p [of "?g\<lparr>gs_status := BudgetLimited\<rparr>"] p [of ?g] assms(2)
    by (auto simp: hook_apply_def Let_def eq)
qed

lemma hook_end_session:
  assumes inv: "session_inv (gw_session w)" and g: "gs_iterations g < 2 ^ 32" "gs_status g = Pursuing"
  shows "session_inv (gw_session (snd (hook_end ops from_str now g rid result w)))"
proof (cases rule: hook_end_cases [of ops from_str now g rid result w])
  case (pause reason)
  then show ?thesis using inv pause_for_eq [OF _ g(1)] by simp
next
  case panic
  then show ?thesis using inv by simp
next
  case (decide is_ok reason)
  then show ?thesis using inv hook_apply_session [OF _ g(2)] by simp
qed

text \<open>A decision to continue has counted one more evaluation and stays below the limit.\<close>

lemma hook_end_continue:
  assumes inv: "session_inv (gw_session w)" and g: "gs_iterations g < 2 ^ 32" "gs_status g = Pursuing"
    and d: "fst (hook_end ops from_str now g rid result w) = Some d" "te_action d = Continue prompt"
  shows "gs_iterations g + 1 < MAX_CONTINUATIONS \<and>
    (\<exists>g'. current_goal (ents (gw_session (snd (hook_end ops from_str now g rid result w)))) = Some g' \<and>
          gs_iterations g' = gs_iterations g + 1 \<and> gs_status g' = Pursuing \<and> gs_condition g' = gs_condition g)"
proof (cases rule: hook_end_cases [of ops from_str now g rid result w])
  case (pause reason)
  then show ?thesis
    using inv d pause_for_eq [OF _ g(1), of "w\<lparr>gw_engine := link_evaluator rid (ar_job_id result) (gw_engine w)\<rparr>"
        now rid reason]
    by auto
next
  case panic
  then show ?thesis using d by simp
next
  case (decide is_ok reason)
  let ?w = "w\<lparr>gw_engine := link_evaluator rid (ar_job_id result) (gw_engine w)\<rparr>"
  let ?g = "evaluated g reason (now 0)"
  from decide(1) d have "te_action (fst (hook_apply ops now g rid is_ok reason ?w)) = Continue prompt" by simp
  then have lt: "\<not> is_ok" "gs_iterations ?g < MAX_CONTINUATIONS"
    by (auto simp: hook_apply_def Let_def split: if_splits)
  then have i: "gs_iterations ?g = gs_iterations g + 1"
    by (auto simp: evaluated_def MAX_CONTINUATIONS_def)
  from hook_apply_session [OF _ g(2), of ?w now rid is_ok reason] inv lt decide(1) i show ?thesis
    by (auto simp: g(2))
qed

end

end
