(* ===== verification/Context_Assembly.thy ===== *)
theory Context_Assembly
  imports Session_Facts
begin

text \<open>
  \<open>build_session_context\<close> of \<^verbatim>\<open>crates/theway-core/src/agent/context/assembly.rs\<close>: the replay
  of a branch into the messages, thinking level and model the agent loop uses. \<open>now i\<close> is the
  clock when entry \<open>i\<close> of the branch is read, and \<open>parse_ts\<close> stands for
  \<open>DateTime::parse_from_rfc3339\<close> followed by \<open>timestamp_millis\<close>, which are third-party code.

  \<open>context_messages_cases\<close> is the specification of the messages: everything from the last
  compaction's first kept entry on, behind its summary.
\<close>

record session_context_model =
  cm_provider :: ustr
  cm_model_id :: ustr

record session_context =
  sc_messages :: "agent_message list"
  sc_thinking_level :: ustr
  sc_model :: "session_context_model option"

text \<open>The first loop: thinking level, model and the index of the last compaction.\<close>

fun scan_entry ::
  "nat \<Rightarrow> session_entry \<Rightarrow> ustr \<times> session_context_model option \<times> nat option \<Rightarrow>
   ustr \<times> session_context_model option \<times> nat option" where
  "scan_entry i (ThinkingLevelChange _ t) (_, model, idx) = (t, model, idx)"
| "scan_entry i (ModelChange _ provider model_id) (t, _, idx) =
     (t, Some \<lparr>cm_provider = provider, cm_model_id = model_id\<rparr>, idx)"
| "scan_entry i (Message _ (Llm (Assistant a))) (t, _, idx) =
     (t, Some \<lparr>cm_provider = am_provider a, cm_model_id = am_model a\<rparr>, idx)"
| "scan_entry i (Compaction _ _ _ _ _ _) (t, model, _) = (t, model, Some i)"
| "scan_entry i _ acc = acc"

fun scan_entries ::
  "nat \<Rightarrow> session_entry list \<Rightarrow> ustr \<times> session_context_model option \<times> nat option \<Rightarrow>
   ustr \<times> session_context_model option \<times> nat option" where
  "scan_entries i [] acc = acc"
| "scan_entries i (e # es) acc = scan_entries (Suc i) es (scan_entry i e acc)"

text \<open>The closure \<open>append\<close>: what entry \<open>i\<close> adds to the messages.\<close>

fun entry_messages :: "(nat \<Rightarrow> int) \<Rightarrow> (ustr \<Rightarrow> int option) \<Rightarrow> nat \<Rightarrow> session_entry \<Rightarrow> agent_message list" where
  "entry_messages now parse_ts i (Message _ message) = [message]"
| "entry_messages now parse_ts i (CustomMessage h custom_type content details _) =
     (let ts = (case parse_ts (eh_timestamp h) of Some t \<Rightarrow> t | None \<Rightarrow> now i)
      in [custom (now i) custom_type
            (JObj [(lit ''content'', content),
                   (lit ''details'', case details of Some d \<Rightarrow> d | None \<Rightarrow> JNull),
                   (lit ''timestamp'', JNum ts)])])"
| "entry_messages now parse_ts i (BranchSummary _ _ summary _ _) =
     (if summary \<noteq> [] then [branch_summary (now i) summary] else [])"
| "entry_messages now parse_ts i (ECustom h custom_type data) =
     (if custom_type = COMPACT_CONTEXT_CUSTOM_TYPE
      then (case compact_context_text (ECustom h custom_type data) of
              Some txt \<Rightarrow> [Custom \<lparr>cm_role = lit ''collapse_context'', cm_timestamp = now i,
                                   cm_payload = JObj [(lit ''summary'', JStr txt)]\<rparr>]
            | None \<Rightarrow> [])
      else [])"
| "entry_messages now parse_ts i _ = []"

fun all_messages :: "(nat \<Rightarrow> int) \<Rightarrow> (ustr \<Rightarrow> int option) \<Rightarrow> nat \<Rightarrow> session_entry list \<Rightarrow> agent_message list" where
  "all_messages now parse_ts i [] = []"
| "all_messages now parse_ts i (e # es) =
     entry_messages now parse_ts i e @ all_messages now parse_ts (Suc i) es"

text \<open>The loop over the entries before the compaction, with its flag \<open>found_first_kept\<close>.\<close>

fun kept_messages ::
  "(nat \<Rightarrow> int) \<Rightarrow> (ustr \<Rightarrow> int option) \<Rightarrow> ustr \<Rightarrow> nat \<Rightarrow> nat \<Rightarrow> bool \<Rightarrow> session_entry list \<Rightarrow> agent_message list" where
  "kept_messages now parse_ts first_kept idx i found [] = []"
| "kept_messages now parse_ts first_kept idx i found (e # es) =
     (if idx \<le> i then []
      else (let found' = (found \<or> entry_id e = first_kept)
            in (if found' then entry_messages now parse_ts i e else []) @
               kept_messages now parse_ts first_kept idx (Suc i) found' es))"

fun compacted_messages ::
  "(nat \<Rightarrow> int) \<Rightarrow> (ustr \<Rightarrow> int option) \<Rightarrow> session_entry list \<Rightarrow> nat \<Rightarrow> session_entry \<Rightarrow> agent_message list" where
  "compacted_messages now parse_ts path idx (Compaction _ summary first_kept _ _ _) =
     compaction_summary (now idx) summary #
       kept_messages now parse_ts first_kept idx 0 False path @
       all_messages now parse_ts (idx + 1) (drop (idx + 1) path)"
| "compacted_messages now parse_ts path idx _ = []" \<comment> \<open>unreachable: \<open>scan_index\<close>\<close>

definition build_session_context ::
  "(nat \<Rightarrow> int) \<Rightarrow> (ustr \<Rightarrow> int option) \<Rightarrow> session_entry list \<Rightarrow> session_context" where
  "build_session_context now parse_ts path =
     (case scan_entries 0 path (lit ''off'', None, None) of
        (thinking_level, model, compaction_idx) \<Rightarrow>
          \<lparr>sc_messages =
             (case compaction_idx of
                Some idx \<Rightarrow> compacted_messages now parse_ts path idx (path ! idx)
              | None \<Rightarrow> all_messages now parse_ts 0 path),
           sc_thinking_level = thinking_level, sc_model = model\<rparr>)"

definition build_context ::
  "'s storage_ops \<Rightarrow> (nat \<Rightarrow> int) \<Rightarrow> (ustr \<Rightarrow> int option) \<Rightarrow> ('s, session_context) sop" where
  "build_context ops now parse_ts =
     sbind (branch ops None) (\<lambda>b. sret (build_session_context now parse_ts b))"

subsection \<open>What the loops compute\<close>

fun thinking_of :: "session_entry \<Rightarrow> ustr option" where
  "thinking_of (ThinkingLevelChange _ t) = Some t"
| "thinking_of _ = None"

fun model_of :: "session_entry \<Rightarrow> session_context_model option" where
  "model_of (ModelChange _ provider model_id) = Some \<lparr>cm_provider = provider, cm_model_id = model_id\<rparr>"
| "model_of (Message _ (Llm (Assistant a))) = Some \<lparr>cm_provider = am_provider a, cm_model_id = am_model a\<rparr>"
| "model_of _ = None"

fun is_compaction :: "session_entry \<Rightarrow> bool" where
  "is_compaction (Compaction _ _ _ _ _ _) = True"
| "is_compaction _ = False"

text \<open>The index of the last compaction of a branch.\<close>

fun last_compaction :: "nat \<Rightarrow> session_entry list \<Rightarrow> nat option" where
  "last_compaction i [] = None"
| "last_compaction i (e # es) =
     (case last_compaction (Suc i) es of
        Some k \<Rightarrow> Some k
      | None \<Rightarrow> if is_compaction e then Some i else None)"

lemma scan_entry_eq:
  "scan_entry i e (t, m, c) =
     ((case thinking_of e of Some t' \<Rightarrow> t' | None \<Rightarrow> t),
      (case model_of e of Some m' \<Rightarrow> Some m' | None \<Rightarrow> m),
      (if is_compaction e then Some i else c))"
  by (cases "(i, e, (t, m, c))" rule: scan_entry.cases) auto

lemma newest_Nil: "newest f [] = None"
  by (simp add: newest_def)

lemma newest_Cons: "newest f (e # es) = (case newest f es of Some y \<Rightarrow> Some y | None \<Rightarrow> f e)"
  by (simp add: newest_def find_map_append split: option.split)

lemma scan_entries_eq:
  "scan_entries i es (t, m, c) =
     ((case newest thinking_of es of Some t' \<Rightarrow> t' | None \<Rightarrow> t),
      (case newest model_of es of Some m' \<Rightarrow> Some m' | None \<Rightarrow> m),
      (case last_compaction i es of Some k \<Rightarrow> Some k | None \<Rightarrow> c))"
proof (induction es arbitrary: i t m c)
  case (Cons e es)
  show ?case
    by (simp only: scan_entries.simps scan_entry_eq Cons.IH)
      (simp add: newest_Cons split: option.split)
qed (simp add: newest_Nil)

lemma last_compaction_none: "last_compaction i es = None \<longleftrightarrow> (\<forall>e\<in>set es. \<not> is_compaction e)"
proof (induction es arbitrary: i)
  case (Cons e es)
  show ?case using Cons.IH [of "Suc i"] by (cases "last_compaction (Suc i) es") auto
qed simp

lemma last_compaction_append:
  "last_compaction i (es @ fs) =
     (case last_compaction (i + length es) fs of Some k \<Rightarrow> Some k | None \<Rightarrow> last_compaction i es)"
  by (induction es arbitrary: i) (auto split: option.splits)

lemma last_compaction_split:
  assumes "last_compaction 0 path = Some k"
  shows "k < length path \<and> is_compaction (path ! k) \<and> (\<forall>e\<in>set (drop (Suc k) path). \<not> is_compaction e)"
  using assms
proof (induction path rule: rev_induct)
  case (snoc e es)
  then show ?case
    by (cases "is_compaction e")
      (auto simp: last_compaction_append nth_append split: option.splits if_splits)
qed simp

lemma scan_index:
  "snd (snd (scan_entries 0 path (lit ''off'', None, None))) = Some k \<Longrightarrow>
   \<exists>h s f n d b. path ! k = Compaction h s f n d b"
  using last_compaction_split [of path k]
  by (auto simp: scan_entries_eq split: option.splits elim!: is_compaction.elims(2))

lemma all_messages_append:
  "all_messages now parse_ts i (es @ fs) =
     all_messages now parse_ts i es @ all_messages now parse_ts (i + length es) fs"
  by (induction es arbitrary: i) auto

lemma kept_messages_found:
  "kept_messages now parse_ts k idx i True es = all_messages now parse_ts i (take (idx - i) es)"
proof (induction es arbitrary: i)
  case (Cons e es)
  then show ?case by (auto simp: Let_def take_Cons')
qed simp

text \<open>The entries before index \<open>idx\<close> that a compaction keeps, with the index of the first one.\<close>

definition kept_from :: "ustr \<Rightarrow> session_entry list \<Rightarrow> session_entry list" where
  "kept_from k es = dropWhile (\<lambda>e. entry_id e \<noteq> k) es"

lemma kept_messages_eq:
  "kept_messages now parse_ts k (i + length pre) i False (pre @ post) =
     all_messages now parse_ts (i + length pre - length (kept_from k pre)) (kept_from k pre)"
proof (induction pre arbitrary: i)
  case Nil
  then show ?case by (cases post) (auto simp: kept_from_def)
next
  case (Cons e pre)
  show ?case
  proof (cases "entry_id e = k")
    case True
    then show ?thesis by (simp add: kept_from_def kept_messages_found)
  next
    case False
    then show ?thesis using Cons.IH [of "Suc i"] by (simp add: kept_from_def)
  qed
qed

lemma context_messages_plain:
  assumes "\<forall>e\<in>set path. \<not> is_compaction e"
  shows "sc_messages (build_session_context now parse_ts path) = all_messages now parse_ts 0 path"
  using assms last_compaction_none [of 0 path]
  by (simp add: build_session_context_def scan_entries_eq)

lemma context_messages_compacted:
  assumes "\<forall>e\<in>set post. \<not> is_compaction e"
  shows "sc_messages (build_session_context now parse_ts (pre @ Compaction h s k n d b # post)) =
    compaction_summary (now (length pre)) s #
      all_messages now parse_ts (length pre - length (kept_from k pre)) (kept_from k pre) @
      all_messages now parse_ts (length pre + 1) post"
proof -
  from assms have "last_compaction (Suc (length pre)) post = None" by (simp add: last_compaction_none)
  then have "last_compaction 0 (pre @ Compaction h s k n d b # post) = Some (length pre)"
    by (simp add: last_compaction_append)
  then show ?thesis
    using kept_messages_eq [of now parse_ts k 0 pre "Compaction h s k n d b # post"]
    by (simp add: build_session_context_def scan_entries_eq)
qed

lemma context_messages_cases:
  obtains "\<forall>e\<in>set path. \<not> is_compaction e"
  | pre h s k n d b post where "path = pre @ Compaction h s k n d b # post" "\<forall>e\<in>set post. \<not> is_compaction e"
proof (cases "last_compaction 0 path")
  case None
  then show ?thesis using that(1) by (simp add: last_compaction_none)
next
  case (Some i)
  from last_compaction_split [OF this] have i: "i < length path" "is_compaction (path ! i)"
    "\<forall>e\<in>set (drop (Suc i) path). \<not> is_compaction e" by auto
  then obtain h s k n d b where "path ! i = Compaction h s k n d b" by (auto elim: is_compaction.elims(2))
  with id_take_nth_drop [OF i(1)] i(3) that(2) show ?thesis by metis
qed

text \<open>An entry that is not a compaction adds its own messages at the end.\<close>

lemma context_messages_snoc:
  assumes "\<not> is_compaction e"
  shows "sc_messages (build_session_context now parse_ts (path @ [e])) =
         sc_messages (build_session_context now parse_ts path) @ entry_messages now parse_ts (length path) e"
proof (cases path rule: context_messages_cases)
  case 1
  then show ?thesis using assms by (simp add: context_messages_plain all_messages_append)
next
  case (2 pre h s k n d b post)
  then show ?thesis
    using assms context_messages_compacted [of post now parse_ts pre h s k n d b]
      context_messages_compacted [of "post @ [e]" now parse_ts pre h s k n d b]
    by (simp add: all_messages_append)
qed

end
