(* ===== verification/Session_Properties.thy ===== *)
theory Session_Properties
  imports Context_Assembly "HOL-Library.Code_Target_Numeral"
begin

text \<open>
  What the session component guarantees, over sessions in memory reached by any sequence of
  facade operations (\<open>session_after\<close>). The ids are pairwise distinct (\<open>inj uuid\<close>), which is what
  UUIDs are for; the witnesses number them.
\<close>

definition session_after :: "(nat \<Rightarrow> ustr) \<Rightarrow> ustr \<Rightarrow> (nat \<Rightarrow> ustr) \<Rightarrow> session_op list \<Rightarrow> memory_storage" where
  "session_after uuid created now rs = run_ops (memory_ops uuid) now rs (memory_new uuid created)"

lemma new_inv: "inj uuid \<Longrightarrow> memory.session_inv uuid (memory_new uuid created)"
  by (simp add: memory.session_inv_def mem_ok_def mem_entries_def mem_leaf_def memory_new_def leaf_ok_def)

lemma mem_okI: "inj uuid \<Longrightarrow> mem_ok uuid s"
  by (simp add: mem_ok_def)

lemma after_inv: "inj uuid \<Longrightarrow> memory.session_inv uuid (session_after uuid created now rs)"
  unfolding session_after_def using memory.run_ops_grows [OF new_inv] by blast

lemma after_append:
  "session_after uuid created now (rs @ qs) = run_ops (memory_ops uuid) now qs (session_after uuid created now rs)"
proof -
  have "run_ops ops now (rs @ qs) s = run_ops ops now qs (run_ops ops now rs s)" for ops :: "'s storage_ops" and s
    by (induction rs arbitrary: s) auto
  then show ?thesis by (simp add: session_after_def)
qed

lemma inj_show_nat: "inj show_nat"
  by (rule injI) simp

lemma after_branch:
  assumes "inj uuid"
  obtains p where "branch (memory_ops uuid) None (session_after uuid created now rs) =
                     (Inr p, session_after uuid created now rs)"
    "path_of (mem_entries (session_after uuid created now rs))
             (mem_leaf (session_after uuid created now rs)) = Inr p"
  using memory.branch_defined [OF after_inv [OF assms, of created now rs]] by blast

lemma build_context_eq:
  assumes "branch ops None s = (Inr p, s)"
  shows "build_context ops clock parse_ts s = (Inr (build_session_context clock parse_ts p), s)"
  using assms by (simp add: build_context_def sbind_def sret_def)

subsection \<open>Paths\<close>

text \<open>
  \<open>get_path_to_root\<close> returns \<open>r\<close> exactly when \<open>r\<close>, read backwards, is the parent chain from
  the requested leaf to a root; it never returns an id twice, and when there is no such chain (a
  missing parent or a cycle) it reports a corrupted session instead of looping.
\<close>
theorem get_path_to_root_correct:
  "(fst (m_get_path_to_root l s) = Inr r) = chain_from (in_entries (ms_inner s)) l (rev r) \<and>
   (case fst (m_get_path_to_root l s) of
      Inl err \<Rightarrow> se_code err = Corrupted
    | Inr p \<Rightarrow> distinct (map entry_id p))"
proof -
  have eq: "fst (m_get_path_to_root l s) = path_of (in_entries (ms_inner s)) l"
    by (simp add: m_get_path_to_root_def path_of_def split: option.split)
  have "case path_of es l of Inl err \<Rightarrow> se_code err = Corrupted | Inr p \<Rightarrow> distinct (map entry_id p)" for es
  proof (cases "path_of es l")
    case (Inl err)
    then show ?thesis by (simp add: path_of_def path_loop_error)
  next
    case (Inr p)
    then have "distinct (map entry_id (rev p))" by (simp add: path_of_iff chain_distinct)
    then show ?thesis using Inr by (simp add: rev_map [symmetric])
  qed
  then show ?thesis unfolding eq by (simp add: path_of_iff)
qed

text \<open>
  C6. Whatever the facade did to a session, its current branch can be read: it is the parent
  chain of the leaf, with no error.
\<close>
theorem session_branch_readable:
  assumes "inj uuid"
  shows "\<exists>p. branch (memory_ops uuid) None (session_after uuid created now rs) =
               (Inr p, session_after uuid created now rs) \<and>
             chain_from (mem_entries (session_after uuid created now rs))
               (mem_leaf (session_after uuid created now rs)) (rev p)"
  using after_branch [OF assms, of created now rs] by (metis path_of_iff)

text \<open>
  C26. History is append-only: once the branch of an entry can be read, no later operation,
  moving the leaf included, changes it.
\<close>
theorem session_history_stable:
  assumes "inj uuid"
    and "branch (memory_ops uuid) (Some i) (session_after uuid created now rs) =
           (Inr p, session_after uuid created now rs)"
  shows "branch (memory_ops uuid) (Some i) (session_after uuid created now (rs @ qs)) =
           (Inr p, session_after uuid created now (rs @ qs))"
  unfolding after_append
  by (rule memory.branch_stays [OF after_inv [OF assms(1)] assms(2)])

text \<open>
  The batch append of the in-memory storage does what the trait's provided body does: append
  the entries one by one.
\<close>
theorem append_entries_override: "m_append_entries es s = append_entries_default m_append_entry es s"
proof (induction es arbitrary: s)
  case Nil
  then show ?case by (simp add: m_append_entries_def sret_def)
next
  case (Cons e es)
  have "append_entries_default m_append_entry (e # es) s = m_append_entries es (snd (m_append_entry e s))"
    using Cons.IH by (simp add: sbind_def m_append_entry_def [of e])
  moreover have "m_append_entries (e # es) s = m_append_entries es (snd (m_append_entry e s))"
    by (simp add: m_append_entries_def m_append_entry_def Let_def)
  ultimately show ?case by simp
qed

subsection \<open>The context of a session\<close>

lemma after_append_child:
  assumes inj: "inj uuid"
    and mk: "\<And>i p. entry_id (mk i p) = i" "\<And>i p. entry_parent_id (mk i p) = p"
    and f: "f = sbind (so_create_entry_id (memory_ops uuid)) (\<lambda>i.
              sbind (so_get_leaf_id (memory_ops uuid)) (\<lambda>parent. append_typed (memory_ops uuid) (mk i parent)))"
    and p: "branch (memory_ops uuid) None (session_after uuid created now rs) =
              (Inr p, session_after uuid created now rs)"
  shows "\<exists>i s'. f (session_after uuid created now rs) = (Inr i, s') \<and>
           branch (memory_ops uuid) None s' = (Inr (p @ [mk i (mem_leaf (session_after uuid created now rs))]), s')"
proof -
  let ?s = "session_after uuid created now rs"
  note inv = after_inv [OF inj, of created now rs]
  from memory.append_child [where mk = mk, OF inv mk] f obtain i s' where
    a: "f ?s = (Inr i, s')" "memory.session_inv uuid s'" "i \<notin> mem_minted uuid ?s"
       "mem_entries s' = mem_entries ?s @ [mk i (mem_leaf ?s)]" "mem_leaf s' = Some i"
    by blast
  from p have "path_of (mem_entries ?s) (mem_leaf ?s) = Inr p" by (simp add: memory.branch_eq mem_okI inj)
  moreover from inv a(3) have "i \<notin> entry_id ` set (mem_entries ?s)" by (auto simp: memory.session_inv_def)
  ultimately have "path_of (mem_entries s') (mem_leaf s') = Inr (p @ [mk i (mem_leaf ?s)])"
    using path_of_snoc [of "mk i (mem_leaf ?s)" "mem_entries ?s" p] a by (simp add: mk)
  then show ?thesis using a(1) by (simp add: memory.branch_eq mem_okI inj)
qed

lemma append_message_after:
  assumes "inj uuid"
  shows "\<exists>c i s'. build_context (memory_ops uuid) clock parse_ts (session_after uuid created now rs) =
             (Inr c, session_after uuid created now rs) \<and>
           append_message (memory_ops uuid) t m (session_after uuid created now rs) = (Inr i, s') \<and>
           map_sum id sc_messages (fst (build_context (memory_ops uuid) clock parse_ts s')) =
             Inr (sc_messages c @ [m])"
proof -
  obtain p where p: "branch (memory_ops uuid) None (session_after uuid created now rs) =
                       (Inr p, session_after uuid created now rs)"
    using after_branch [OF assms, of created now rs] by metis
  from after_append_child [where mk = "\<lambda>i parent. Message \<lparr>eh_id = i, eh_parent_id = parent, eh_timestamp = t\<rparr> m",
      OF assms _ _ append_message_def p]
  show ?thesis by (auto simp: build_context_eq [OF p] build_context_eq context_messages_snoc)
qed

text \<open>
  Appending a message makes it the last message of the context the agent loop sees, behind
  the messages that were there, also after a compaction.
\<close>
theorem append_message_context:
  assumes "inj uuid"
  shows "\<exists>c i s'. build_context (memory_ops uuid) clock parse_ts (session_after uuid created now rs) =
             (Inr c, session_after uuid created now rs) \<and>
           append_message (memory_ops uuid) t m (session_after uuid created now rs) = (Inr i, s') \<and>
           map_sum id sc_messages (fst (build_context (memory_ops uuid) clock parse_ts s')) =
             Inr (sc_messages c @ [m])"
  by (rule append_message_after [OF assms])

lemma append_compaction_after:
  assumes "inj uuid"
  shows "\<exists>p i s'. branch (memory_ops uuid) None (session_after uuid created now rs) =
             (Inr p, session_after uuid created now rs) \<and>
           append_compaction (memory_ops uuid) t summary k tokens details hook (session_after uuid created now rs) =
             (Inr i, s') \<and>
           map_sum id sc_messages (fst (build_context (memory_ops uuid) clock parse_ts s')) =
             Inr (compaction_summary (clock (length p)) summary #
                  all_messages clock parse_ts (length p - length (kept_from k p)) (kept_from k p))"
proof -
  obtain p where p: "branch (memory_ops uuid) None (session_after uuid created now rs) =
                       (Inr p, session_after uuid created now rs)"
    using after_branch [OF assms, of created now rs] by metis
  from after_append_child [where mk = "\<lambda>i parent. Compaction \<lparr>eh_id = i, eh_parent_id = parent, eh_timestamp = t\<rparr>
        summary k tokens details (if hook then Some True else None)", OF assms _ _ append_compaction_def p]
  show ?thesis by (auto simp: p build_context_eq context_messages_compacted [of "[]"])
qed

text \<open>
  C24. After a compaction the context is the summary followed by what the branch holds from the
  first kept entry on; nothing of it is lost or repeated. An id that is not on the branch keeps
  nothing but the summary.
\<close>
theorem append_compaction_context:
  assumes "inj uuid"
  shows "\<exists>p i s'. branch (memory_ops uuid) None (session_after uuid created now rs) =
             (Inr p, session_after uuid created now rs) \<and>
           append_compaction (memory_ops uuid) t summary k tokens details hook (session_after uuid created now rs) =
             (Inr i, s') \<and>
           map_sum id sc_messages (fst (build_context (memory_ops uuid) clock parse_ts s')) =
             Inr (compaction_summary (clock (length p)) summary #
                  all_messages clock parse_ts (length p - length (kept_from k p)) (kept_from k p))"
  by (rule append_compaction_after [OF assms])

text \<open>
  The thinking level and the model of a context are those of the newest entry that sets
  them, with the defaults for a branch that never does; an assistant message sets the model.
\<close>
theorem context_settings:
  "sc_thinking_level (build_session_context clock parse_ts path) =
     (case newest thinking_of path of Some t \<Rightarrow> t | None \<Rightarrow> lit ''off'') \<and>
   sc_model (build_session_context clock parse_ts path) = newest model_of path"
  by (simp add: build_session_context_def scan_entries_eq split: option.split)

fun label_of :: "ustr \<Rightarrow> session_entry \<Rightarrow> ustr option option" where
  "label_of i (Label _ target_id label) = (if target_id = i then Some label else None)"
| "label_of i _ = None"

text \<open>
  The label of an entry is what the last label entry for it says. A later entry without a
  label removes the label: it is not the latest label present that wins.
\<close>
theorem get_label_last:
  "fst (m_get_label i s) = Inr (case newest (label_of i) (in_entries (ms_inner s)) of Some l \<Rightarrow> l | None \<Rightarrow> None)"
proof -
  have step: "label_step i e x = (case label_of i e of Some l \<Rightarrow> l | None \<Rightarrow> x)" for e x
    by (cases "(i, e)" rule: label_of.cases) auto
  have "fold (label_step i) es None = (case newest (label_of i) es of Some l \<Rightarrow> l | None \<Rightarrow> None)" for es
    by (induction es rule: rev_induct) (auto simp: newest_snoc newest_Nil step split: option.split)
  then show ?thesis by (simp add: m_get_label_def)
qed

subsection \<open>Moving and forking\<close>

text \<open>
  Moving to an entry that the session does not hold is refused and changes nothing.
\<close>
theorem move_to_missing_entry:
  assumes "inj uuid" and "i \<notin> entry_id ` set (mem_entries (session_after uuid created now rs))"
  shows "move_to (memory_ops uuid) t (Some i) b (session_after uuid created now rs) =
           (Inl \<lparr>se_code = NotFound, se_message = lit ''Entry '' @ i @ lit '' not found''\<rparr>,
            session_after uuid created now rs)"
  by (rule memory.move_to_missing [OF mem_okI [OF assms(1)] assms(2)])

text \<open>
  Moving to a stored entry (or to the root) makes its branch the current one; with a summary,
  a branch summary entry follows it.
\<close>
theorem move_to_branch:
  assumes "inj uuid"
    and "leaf_ok (mem_entries (session_after uuid created now rs)) target"
  shows "\<exists>res s' p. move_to (memory_ops uuid) t target b (session_after uuid created now rs) = (Inr res, s') \<and>
           path_of (mem_entries (session_after uuid created now rs)) target = Inr p \<and>
           (case b of
              None \<Rightarrow> branch (memory_ops uuid) None s' = (Inr p, s')
            | Some _ \<Rightarrow> \<exists>e. branch (memory_ops uuid) None s' = (Inr (p @ [e]), s') \<and> res = Some (entry_id e))"
proof -
  let ?s = "session_after uuid created now rs"
  note inv = after_inv [OF assms(1), of created now rs]
  from memory.move_to_eq [OF inv assms(2), of t b] obtain res s' new where
    m: "move_to (memory_ops uuid) t target b ?s = (Inr res, s')" "mem_entries s' = mem_entries ?s @ new"
       "b = None \<longrightarrow> res = None \<and> new = [] \<and> mem_leaf s' = target"
       "b \<noteq> None \<longrightarrow> (\<exists>e. new = [e] \<and> entry_parent_id e = target \<and> res = Some (entry_id e) \<and>
          mem_leaf s' = res \<and> entry_id e \<notin> entry_id ` set (mem_entries ?s))"
    by (elim exE conjE, intro that) assumption+
  from inv path_of_tree [OF _ assms(2)] obtain p where p: "path_of (mem_entries ?s) target = Inr p"
    by (auto simp: memory.session_inv_def)
  show ?thesis
  proof (cases b)
    case None
    with m(2,3) p have "branch (memory_ops uuid) None s' = (Inr p, s')"
      by (simp add: memory.branch_eq mem_okI assms(1))
    with m(1) p None show ?thesis by simp
  next
    case (Some x)
    with m(4) obtain e where e: "new = [e]" "entry_parent_id e = target" "res = Some (entry_id e)"
      "mem_leaf s' = res" "entry_id e \<notin> entry_id ` set (mem_entries ?s)" by blast
    with path_of_snoc [OF e(5), of p] p m(2)
    have "path_of (mem_entries s') (mem_leaf s') = Inr (p @ [e])" by simp
    then have "branch (memory_ops uuid) None s' = (Inr (p @ [e]), s')"
      by (simp add: memory.branch_eq mem_okI assms(1))
    with m(1) p e(3) Some show ?thesis by auto
  qed
qed

text \<open>
  A fork is a session of its own: what \<open>get_entries_to_fork\<close> returns for an entry can be
  stored in a new session, and the new session's branch is exactly the forked path. At an entry
  the path ends with the entry; before a user message it ends with the message's parent.
\<close>
theorem fork_is_session:
  assumes "inj uuid"
    and "get_entries_to_fork (memory_ops uuid) \<lparr>fo_entry_id = Some i, fo_position = pos\<rparr>
           (session_after uuid created now rs) = (Inr p, session_after uuid created now rs)"
  shows "branch (memory_ops uuid) None (snd (m_append_entries p (memory_new uuid created'))) =
           (Inr p, snd (m_append_entries p (memory_new uuid created'))) \<and>
         (\<exists>q e. path_of (mem_entries (session_after uuid created now rs)) (Some i) = Inr (q @ [e]) \<and>
                entry_id e = i \<and> p = (case pos of At \<Rightarrow> q @ [e] | Before \<Rightarrow> q))"
proof -
  let ?s = "session_after uuid created now rs"
  note inv = after_inv [OF assms(1), of created now rs]
  from assms(2) obtain e where e: "lookup_entry (mem_entries ?s) i = Some e"
    by (auto simp: get_entries_to_fork_def sbind_def memory.get_entry [OF mem_okI [OF assms(1)]] sfail_def split: option.splits)
  then have id: "entry_id e = i" "e \<in> set (mem_entries ?s)" by (auto dest: lookup_entry_SomeD)
  from inv path_of_tree [of "mem_entries ?s" "Some i"] id obtain r where
    r: "path_of (mem_entries ?s) (Some i) = Inr r" by (auto simp: memory.session_inv_def leaf_ok_def)
  from path_of_child [OF e r] have child: "r = butlast r @ [e]"
    "path_of (mem_entries ?s) (entry_parent_id e) = Inr (butlast r)" by auto
  have before: "l = entry_parent_id e" if "before_user_message e = Some l" for l
    using that by (cases e rule: before_user_message.cases) auto
  from assms(2) have p: "p = (case pos of At \<Rightarrow> r | Before \<Rightarrow> butlast r)"
    by (auto simp: get_entries_to_fork_def sbind_def memory.get_entry [OF mem_okI [OF assms(1)]] memory.get_path [OF mem_okI [OF assms(1)]]
        sfail_def e id r child(2) dest!: before split: fork_position.splits option.splits)
  then have "\<exists>l. path_of (mem_entries ?s) l = Inr p"
    using r child(2) by (cases pos) auto
  then obtain l where l: "path_of (mem_entries ?s) l = Inr p" by blast
  let ?n = "snd (m_append_entries p (memory_new uuid created'))"
  have n: "mem_entries ?n = p" "mem_leaf ?n = (if p = [] then None else Some (entry_id (last p)))"
    by (simp_all add: m_append_entries_def memory_new_def mem_entries_def mem_leaf_def Let_def)
  have "path_of p (mem_leaf ?n) = Inr p"
    unfolding n by (rule path_replay [OF l])
  then have "branch (memory_ops uuid) None ?n = (Inr p, ?n)"
    by (simp add: memory.branch_eq mem_okI assms(1) n)
  moreover have "p = (case pos of At \<Rightarrow> butlast r @ [e] | Before \<Rightarrow> butlast r)"
    using p child(1) by (simp split: fork_position.splits)
  ultimately show ?thesis using r child(1) id(1) by metis
qed

subsection \<open>Witnesses\<close>

definition sample_message :: agent_message where
  "sample_message = Llm (User \<lparr>um_content = PlainText (lit ''hi''), um_timestamp = 1\<rparr>)"

definition sample_ops :: "session_op list" where
  "sample_ops = [OMessages [sample_message, sample_message], OThinking (lit ''high''), OMessage sample_message]"

definition sample_session :: memory_storage where
  "sample_session = session_after show_nat (lit ''t'') (\<lambda>_. lit ''t'') sample_ops"

lemma session_branch_readable_witness:
  "\<exists>p. branch (memory_ops show_nat) None sample_session = (Inr p, sample_session) \<and>
       chain_from (mem_entries sample_session) (mem_leaf sample_session) (rev p)"
  unfolding sample_session_def by (rule session_branch_readable [OF inj_show_nat])

lemma sample_branch:
  "branch (memory_ops show_nat) (Some (show_nat 2)) sample_session =
     (Inr (take 2 (mem_entries sample_session)), sample_session) \<and>
   length (mem_entries sample_session) = 4 \<and> mem_leaf sample_session = Some (show_nat 4)"
  by code_simp

lemma session_history_stable_witness:
  "branch (memory_ops show_nat) (Some (show_nat 2))
     (session_after show_nat (lit ''t'') (\<lambda>_. lit ''t'') (sample_ops @ [OMove None None, OName (lit ''n'')])) =
   (Inr (take 2 (mem_entries sample_session)),
    session_after show_nat (lit ''t'') (\<lambda>_. lit ''t'') (sample_ops @ [OMove None None, OName (lit ''n'')]))"
  using sample_branch unfolding sample_session_def
  by (intro session_history_stable [OF inj_show_nat]) simp

lemma append_message_context_witness:
  "\<exists>c i s'. build_context (memory_ops show_nat) int (\<lambda>_. None) sample_session = (Inr c, sample_session) \<and>
     append_message (memory_ops show_nat) (lit ''t'') sample_message sample_session = (Inr i, s') \<and>
     map_sum id sc_messages (fst (build_context (memory_ops show_nat) int (\<lambda>_. None) s')) =
       Inr (sc_messages c @ [sample_message])"
  unfolding sample_session_def by (rule append_message_context [OF inj_show_nat])

lemma append_compaction_context_witness:
  "\<exists>p i s'. branch (memory_ops show_nat) None sample_session = (Inr p, sample_session) \<and>
     append_compaction (memory_ops show_nat) (lit ''t'') (lit ''sum'') (show_nat 2) 7 None False sample_session =
       (Inr i, s') \<and>
     map_sum id sc_messages (fst (build_context (memory_ops show_nat) int (\<lambda>_. None) s')) =
       Inr (compaction_summary (int (length p)) (lit ''sum'') #
            all_messages int (\<lambda>_. None) (length p - length (kept_from (show_nat 2) p)) (kept_from (show_nat 2) p))"
  unfolding sample_session_def by (rule append_compaction_context [OF inj_show_nat])

lemma move_to_missing_entry_witness:
  "move_to (memory_ops show_nat) (lit ''t'') (Some (lit ''x'')) None sample_session =
     (Inl \<lparr>se_code = NotFound, se_message = lit ''Entry '' @ lit ''x'' @ lit '' not found''\<rparr>, sample_session)"
proof -
  have "lit ''x'' \<notin> entry_id ` set (mem_entries sample_session)" by code_simp
  then show ?thesis
    unfolding sample_session_def by (intro move_to_missing_entry [OF inj_show_nat])
qed

lemma move_to_branch_witness:
  "\<exists>res s' p. move_to (memory_ops show_nat) (lit ''t'') (Some (show_nat 2)) None sample_session = (Inr res, s') \<and>
     path_of (mem_entries sample_session) (Some (show_nat 2)) = Inr p \<and>
     branch (memory_ops show_nat) None s' = (Inr p, s')"
proof -
  have "leaf_ok (mem_entries sample_session) (Some (show_nat 2))" by code_simp
  then show ?thesis
    unfolding sample_session_def
    using move_to_branch [OF inj_show_nat, of _ _ _ "Some (show_nat 2)" "lit ''t''" None] by simp
qed

lemma fork_is_session_witness:
  "branch (memory_ops show_nat) None
     (snd (m_append_entries (take 1 (mem_entries sample_session)) (memory_new show_nat (lit ''u'')))) =
   (Inr (take 1 (mem_entries sample_session)),
    snd (m_append_entries (take 1 (mem_entries sample_session)) (memory_new show_nat (lit ''u''))))"
proof -
  have "get_entries_to_fork (memory_ops show_nat)
          \<lparr>fo_entry_id = Some (show_nat 2), fo_position = Before\<rparr> sample_session =
        (Inr (take 1 (mem_entries sample_session)), sample_session)"
    by code_simp
  then show ?thesis
    using fork_is_session [OF inj_show_nat] unfolding sample_session_def by blast
qed

end
