(* ===== verification/Dag_Observations.thy ===== *)
theory Dag_Observations
  imports Dag_Jobs "HOL-Library.Multiset"
begin

text \<open>
  The observations of the engine form a well-formed log: in every reachable engine, the scopes in
  \<open>run_operations\<close> and \<open>node_operations\<close> are exactly the operations that were started and not
  finished, no id is reused, and no operation finishes twice.
\<close>

definition open_scopes :: "engine \<Rightarrow> scope list" where
  "open_scopes e = map snd (e_run_operations e) @ map snd (e_node_operations e)"

definition obs_inv :: "engine \<Rightarrow> bool" where
  "obs_inv e \<longleftrightarrow> hm_ok (e_run_operations e) \<and> hm_ok (e_node_operations e) \<and> obs_wf (open_scopes e) (e_obs e)"

lemma obs_inv_cong:
  "obs_inv e \<Longrightarrow> e_obs e' = e_obs e \<Longrightarrow> e_run_operations e' = e_run_operations e \<Longrightarrow>
   e_node_operations e' = e_node_operations e \<Longrightarrow> obs_inv e'"
  by (simp add: obs_inv_def open_scopes_def)

lemma obs_wf_mset: "obs_wf scs obs \<Longrightarrow> mset scs' = mset scs \<Longrightarrow> obs_wf scs' obs"
proof -
  assume wf: "obs_wf scs obs" and m: "mset scs' = mset scs"
  have "set scs' = set scs" using m by (rule mset_eq_setD)
  moreover have "distinct (map sc_id scs') = distinct (map sc_id scs)"
    by (rule mset_eq_imp_distinct_iff) (simp add: m)
  ultimately show ?thesis using wf by (simp add: obs_wf_def)
qed

lemma mset_hm_put: "hm_get m k = None \<Longrightarrow> mset (map snd (hm_put k v m)) = add_mset v (mset (map snd m))"
  by (induction k v m rule: hm_put.induct) (auto split: if_splits)

lemma mset_hm_del:
  "hm_ok m \<Longrightarrow> hm_get m k = Some v \<Longrightarrow> mset (map snd m) = add_mset v (mset (map snd (hm_del k m)))"
proof (induction m)
  case (Cons p m)
  show ?case
  proof (cases "fst p = k")
    case True
    then have "hm_del k m = m"
      using Cons.prems(1) by (intro hm_del_absent) (auto simp: hm_ok_def map_of_eq_None_iff)
    then show ?thesis using True Cons.prems(2) by (cases p) (simp add: hm_del_def)
  next
    case False
    then show ?thesis using Cons by (cases p) (auto simp: hm_del_def hm_ok_def)
  qed
qed simp

lemma obs_start:
  assumes "obs_wf scs obs" and "scope_start p c d obs = (sc, obs')" and "mset scs' = add_mset sc (mset scs)"
  shows "obs_wf scs' obs'"
  by (rule obs_wf_mset [OF scope_start_wf [OF assms(1,2)]]) (simp add: assms(3))

lemma obs_finish:
  assumes "obs_wf scs obs" and "mset scs = add_mset sc (mset scs')"
    and "sc' = sc \<or> (\<exists>ct. sc' = attach_content ct sc)"
  shows "obs_wf scs' (scope_finish out cat ms sc' obs)"
proof -
  have wf: "obs_wf ([] @ sc # scs') obs" by (rule obs_wf_mset [OF assms(1)]) (simp add: assms(2))
  obtain ct where "sc' = sc\<lparr>sc_content := ct\<rparr>"
    using assms(3) by (cases sc) (auto simp: attach_content_def)
  then show ?thesis using scope_finish_wf [OF wf] by simp
qed

lemma obs_begin_run: "obs_inv e \<Longrightarrow> obs_inv (begin_run_observation rid e)"
proof -
  assume e: "obs_inv e"
  show ?thesis
  proof (cases "\<exists>run. get_run e rid = Some run \<and> hm_get (e_run_operations e) rid = None")
    case True
    then obtain run where run: "get_run e rid = Some run" "hm_get (e_run_operations e) rid = None" by blast
    obtain sc obs where st: "scope_start None (default_context\<lparr>oc_session_id := r_session_id run, oc_run_id := Some rid\<rparr>)
        DetDagRun (e_obs e) = (sc, obs)" by fastforce
    then show ?thesis
      using e run obs_start [OF _ st, of "open_scopes e"] mset_hm_put [OF run(2), of sc]
      by (simp add: obs_inv_def open_scopes_def begin_run_observation_def Let_def)
  next
    case False
    then have "begin_run_observation rid e = e" by (auto simp: begin_run_observation_def split: option.split)
    then show ?thesis using e by simp
  qed
qed

lemma obs_begin_node: "obs_inv e \<Longrightarrow> obs_inv (begin_node_observation rid nid e)"
proof -
  assume e: "obs_inv e"
  define e1 where "e1 = begin_run_observation rid e"
  have e1: "obs_inv e1" unfolding e1_def by (rule obs_begin_run [OF e])
  show ?thesis
  proof (cases "\<exists>run. get_run e rid = Some run \<and> run_node run nid \<noteq> None")
    case True
    then obtain run where run: "get_run e rid = Some run" "run_node run nid \<noteq> None" by blast
    show ?thesis
    proof (cases "hm_get (e_node_operations e1) (rid, nid)")
      case None
      obtain sc obs where st: "scope_start (run_operation_id e1 rid)
          (default_context\<lparr>oc_session_id := r_session_id run, oc_run_id := Some rid, oc_node_id := Some nid\<rparr>)
          DetDagNode (e_obs e1) = (sc, obs)" by fastforce
      then show ?thesis
        using e1 run None obs_start [OF _ st, of "open_scopes e1"] mset_hm_put [OF None, of sc]
        by (auto simp: obs_inv_def open_scopes_def begin_node_observation_def Let_def e1_def [symmetric])
    next
      case (Some sc)
      then show ?thesis using e1 run by (auto simp: begin_node_observation_def Let_def e1_def [symmetric])
    qed
  next
    case False
    then have "begin_node_observation rid nid e = e" by (auto simp: begin_node_observation_def split: option.split)
    then show ?thesis using e by simp
  qed
qed

lemma obs_finish_node: "obs_inv e \<Longrightarrow> obs_inv (finish_node_observation rid nid st e)"
proof -
  assume e: "obs_inv e"
  show ?thesis
  proof (cases "hm_get (e_node_operations e) (rid, nid)")
    case None
    then show ?thesis using e by (simp add: finish_node_observation_def)
  next
    case (Some sc)
    define sc' where "sc' = (case find_node e rid nid of
        Some n \<Rightarrow> if o_include_content (e_obs e) then attach_content (node_content n st) sc else sc | None \<Rightarrow> sc)"
    have sc': "sc' = sc \<or> (\<exists>ct. sc' = attach_content ct sc)" by (auto simp: sc'_def split: option.split)
    have m: "mset (open_scopes e) =
        add_mset sc (mset (map snd (e_run_operations e) @ map snd (hm_del (rid, nid) (e_node_operations e))))"
      using e Some mset_hm_del [of "e_node_operations e" "(rid, nid)" sc] by (simp add: open_scopes_def obs_inv_def)
    show ?thesis
      using e Some obs_finish [OF _ m sc']
      by (auto simp: obs_inv_def open_scopes_def finish_node_observation_def Let_def sc'_def [symmetric] split: prod.split)
  qed
qed

lemma obs_finish_run: "obs_inv e \<Longrightarrow> obs_inv (finish_run_observation rid st e)"
proof -
  assume e: "obs_inv e"
  show ?thesis
  proof (cases "hm_get (e_run_operations e) rid")
    case None
    then show ?thesis using e by (simp add: finish_run_observation_def)
  next
    case (Some sc)
    define sc' where "sc' = (case get_run e rid of
        Some run \<Rightarrow> if o_include_content (e_obs e) then attach_content (run_content run st) sc else sc | None \<Rightarrow> sc)"
    have sc': "sc' = sc \<or> (\<exists>ct. sc' = attach_content ct sc)" by (auto simp: sc'_def split: option.split)
    have m: "mset (open_scopes e) =
        add_mset sc (mset (map snd (hm_del rid (e_run_operations e)) @ map snd (e_node_operations e)))"
      using e Some mset_hm_del [of "e_run_operations e" rid sc] by (simp add: open_scopes_def obs_inv_def)
    show ?thesis
      using e Some obs_finish [OF _ m sc']
      by (auto simp: obs_inv_def open_scopes_def finish_run_observation_def Let_def sc'_def [symmetric] split: prod.split)
  qed
qed

lemma obs_quiet: "quiet e e' \<Longrightarrow> obs_inv e \<Longrightarrow> obs_inv e'"
proof (induction rule: quiet.induct)
  case (q_begin_run e rid)
  then show ?case by (rule obs_begin_run)
next
  case (q_begin_node e rid nid)
  then show ?case by (rule obs_begin_node)
next
  case (q_finish_node e rid nid st)
  then show ?case by (rule obs_finish_node)
next
  case (q_finish_run e rid rst)
  then show ?case by (rule obs_finish_run)
qed (auto elim!: obs_inv_cong simp: emit_def notify_persist_def wake_waiters_def set_launcher_def
    set_session_launcher_def set_event_sender_def set_persist_sink_def split: option.splits)

text \<open>The lock scopes of the engine do not observe anything.\<close>

definition unobserved :: "engine \<Rightarrow> engine \<Rightarrow> bool" where
  "unobserved e e' \<longleftrightarrow> e_obs e' = e_obs e \<and> e_run_operations e' = e_run_operations e \<and>
     e_node_operations e' = e_node_operations e"

lemma unobserved_inv: "obs_inv e \<Longrightarrow> unobserved e e' \<Longrightarrow> obs_inv e'"
  by (auto simp: unobserved_def elim: obs_inv_cong)

lemma unobserved_cancel_tokens: "unobserved e e' \<Longrightarrow> unobserved e (fold (cancel_token rid) ids e')"
  by (induction ids arbitrary: e') (auto simp: unobserved_def cancel_token_def split: option.split)

lemma unobserved_blocks:
  "start_block rid nid e = Some (l, e') \<Longrightarrow> unobserved e e'"
  "complete_block rid nid oc e = Some (ev, st, e') \<Longrightarrow> unobserved e e'"
  "cancel_block rid reason e = Some (running, cancelled, s, e') \<Longrightarrow> unobserved e e'"
  "maybe_complete_block rid e = Some (ev, rst, s, e') \<Longrightarrow> unobserved e e'"
  "register_run r e = (run, e') \<Longrightarrow> unobserved e e'"
  "goal_tick_block rid iteration finished reason e = Some (evs, s, e') \<Longrightarrow> unobserved e e'"
  "complete_goal_block rid gst reason e = Some (evs, s, e') \<Longrightarrow> unobserved e e'"
  "retry_block rid node_ids e = Some (reset, e') \<Longrightarrow> unobserved e e'"
  "restore_one p (ids, e) = (ids', e') \<Longrightarrow> unobserved e e'"
  by (auto simp: unobserved_def start_block_def complete_block_def cancel_block_def maybe_complete_block_def
      register_run_def goal_tick_block_def complete_goal_block_def retry_block_def restore_one_def Let_def
      split: option.splits if_splits)

lemma unobserved_skip: "skip_block rid nid e = Some (token, ev, e') \<Longrightarrow> unobserved e (skip_token token e')"
  by (auto simp: unobserved_def skip_block_def skip_token_def Let_def split: option.splits if_splits)

lemma unobserved_ops:
  "unobserved e (reconcile_run rid e)" "unobserved e (remove_runs ids e)"
  "unobserved e (on_goal_evaluator_finished rid job e)" "unobserved e (on_node_update rid nid gen it ot preview e)"
  "unobserved e (snd (rehome_runs s1 s2 e))"
  by (auto simp: unobserved_def reconcile_run_def remove_runs_def on_goal_evaluator_finished_def
      on_node_update_def rehome_runs_def notify_persist_def Let_def split: option.splits)

lemmas wf_laws =
  wf.inv_quiet [of "{}" "{}", unfolded wf_runs] wf.inv_complete [of "{}" "{}", unfolded wf_runs]
  wf.inv_reconcile [of "{}" "{}", unfolded wf_runs] wf.inv_cancel [of "{}" "{}", unfolded wf_runs]
  wf.inv_finish [of "{}" "{}", unfolded wf_runs] wf.inv_register [unfolded wf_runs]
  wf.inv_register_goal [unfolded wf_runs] wf.inv_goal_tick [unfolded wf_runs]
  wf.inv_evaluator [unfolded wf_runs] wf.inv_complete_goal [unfolded wf_runs]
  wf.inv_update [unfolded wf_runs] wf.inv_rehome [unfolded wf_runs] wf.inv_retry [unfolded wf_runs]
  wf.inv_skip [unfolded wf_runs] wf.inv_restore_one [unfolded wf_runs] wf.inv_new [unfolded wf_runs]

interpretation observed: api_invariant "\<lambda>R T e. all_runs run_ok e \<and> obs_inv e"
proof
  fix R T T' :: "ustr set" and e e' rid nid l oc ev st reason running cancelled s rst ids
  let ?I = "\<lambda>e. all_runs run_ok e \<and> obs_inv e"
  note blocks = unobserved_inv [OF _ unobserved_blocks(1)] unobserved_inv [OF _ unobserved_blocks(2)]
    unobserved_inv [OF _ unobserved_blocks(4)]
  show "?I e'" if "?I e" "quiet e e'" using that wf_laws(1) obs_quiet by blast
  show "?I e'" if "?I e" "rid \<notin> R" "next_ready rid e = Some nid" "start_block rid nid e = Some (l, e')"
    using that wf.inv_start [of R T e rid nid l e'] blocks(1) unfolding wf_runs by blast
  show "?I e'" if "?I e" "complete_block rid nid oc e = Some (ev, st, e')"
    using that wf_laws(2) blocks(2) by blast
  show "?I (reconcile_run rid e)" if "?I e" using that wf_laws(3) unobserved_inv [OF _ unobserved_ops(1)] by blast
  show "?I (fold (cancel_token rid) running e')"
    if "?I e" "cancel_block rid reason e = Some (running, cancelled, s, e')"
    using that wf_laws(4) unobserved_inv [OF _ unobserved_cancel_tokens [OF unobserved_blocks(3)]] by blast
  show "?I e'" if "?I e" "maybe_complete_block rid e = Some (ev, rst, s, e')"
    using that wf_laws(5) blocks(3) by blast
  show "?I (remove_runs ids e)" if "?I e"
    using that all_runs_remove unobserved_inv [OF _ unobserved_ops(2)] by blast
  show "hm_ok (e_runs e)" if "?I e" using that by (simp add: all_runs_def)
next
  fix R T :: "ustr set" and e e' rid nid reason s def known session run i condition iteration finished evs job gst
    gen it ot preview s1 s2 node_ids reset token ev p ids ids' observer now
  let ?I = "\<lambda>e. all_runs run_ok e \<and> obs_inv e"
  show "?I e'" if "?I e" "validate_graph (rd_nodes def) known = []"
      "register_run ((build_run (e_clock e) def)\<lparr>r_session_id := session\<rparr>) e = (run, e')"
    using that wf_laws(6) unobserved_inv [OF _ unobserved_blocks(5)] by blast
  show "?I (set_run i (goal_run (e_clock e) condition session i) (e\<lparr>e_goal_counter := e_goal_counter e + 1\<rparr>))"
    if "?I e" "i = goal_id (e_goal_counter e + 1)"
  proof
    show "all_runs run_ok (set_run i (goal_run (e_clock e) condition session i) (e\<lparr>e_goal_counter := e_goal_counter e + 1\<rparr>))"
      using that by (intro wf_laws(7)) simp_all
    show "obs_inv (set_run i (goal_run (e_clock e) condition session i) (e\<lparr>e_goal_counter := e_goal_counter e + 1\<rparr>))"
      by (rule obs_inv_cong [of e]) (use that in simp_all)
  qed
  show "?I e'" if "?I e" "goal_only rid e" "goal_tick_block rid iteration finished reason e = Some (evs, s, e')"
    using that wf_laws(8) unobserved_inv [OF _ unobserved_blocks(6)] by blast
  show "?I (on_goal_evaluator_finished rid job e)" if "?I e"
    using that wf_laws(9) unobserved_inv [OF _ unobserved_ops(3)] by blast
  show "?I e'" if "?I e" "goal_only rid e" "gst = DFailed \<or> gst = DCancelled"
      "complete_goal_block rid gst reason e = Some (evs, s, e')"
    using that(1) wf_laws(10) [OF _ that(2-4)] unobserved_inv [OF _ unobserved_blocks(7) [OF that(4)]] by blast
  show "?I (on_node_update rid nid gen it ot preview e)" if "?I e"
    using that wf_laws(11) unobserved_inv [OF _ unobserved_ops(4)] by blast
  show "?I (snd (rehome_runs s1 s2 e))" if "?I e"
    using that wf_laws(12) unobserved_inv [OF _ unobserved_ops(5)] by blast
  show "?I e'" if "?I e" "retry_block rid node_ids e = Some (reset, e')"
    using that wf_laws(13) unobserved_inv [OF _ unobserved_blocks(8)] by blast
  show "?I (skip_token token e')" if "?I e" "skip_block rid nid e = Some (token, ev, e')"
    using that wf_laws(14) unobserved_inv [OF _ unobserved_skip] by blast
  show "?I e'" if "?I e" "persisted_ok p" "restore_one p (ids, e) = (ids', e')"
    using that wf_laws(15) unobserved_inv [OF _ unobserved_blocks(9)] by blast
  show "?I (new_engine observer now)" if "o_log observer = []"
    using that wf_laws(16) [OF that] by (simp add: obs_inv_def obs_wf_def open_scopes_def new_engine_def)
qed auto

text \<open>
  The observation log of the engine is well formed: in every engine that a sequence of
  operations reaches, ids are never reused, every finish follows a start, no operation finishes
  twice, and the scopes that the engine holds are exactly the operations still open.
\<close>

theorem reachable_observations:
  assumes "reachable e"
  shows "obs_wf (open_scopes e) (e_obs e)"
  using observed.inv_reachable [OF assms] by (simp add: obs_inv_def)

end
