(* ===== verification/Dag_Interleaving.thy ===== *)
theory Dag_Interleaving
  imports Dag_Observations
begin

text \<open>
  Concurrent scheduling. The lock of the engine is released between the decision of a \<open>tick\<close>
  (the next ready node within the limit) and the start of that node, so several threads can hold
  decisions at once. A step is one lock scope; \<open>k\<close> is the number of threads that tick.

  A stale decision never starts a node twice, because the start checks the status again, but it
  does not check the limit again: with \<open>k\<close> ticking threads a run can have up to \<open>k - 1\<close> running
  nodes more than its limit, and two threads reach that bound (Dag\_Examples).
\<close>

type_synonym istate = "engine \<times> (ustr \<times> ustr) list"

inductive istep :: "nat \<Rightarrow> istate \<Rightarrow> istate \<Rightarrow> bool" for k :: nat where
  i_decide: "next_ready rid e = Some nid \<Longrightarrow> length ps < k \<Longrightarrow> istep k (e, ps) (e, (rid, nid) # ps)"
| i_start: "start_block rid nid e = Some (l, e') \<Longrightarrow> istep k (e, ps1 @ (rid, nid) # ps2) (e', ps1 @ ps2)"
| i_stale: "start_block rid nid e = None \<Longrightarrow> istep k (e, ps1 @ (rid, nid) # ps2) (e, ps1 @ ps2)"
| i_complete: "complete_block rid nid oc e = Some (ev, st, e') \<Longrightarrow> istep k (e, ps) (e', ps)"
| i_reconcile: "istep k (e, ps) (reconcile_run rid e, ps)"
| i_cancel: "cancel_block rid reason e = Some (running, cancelled, s, e') \<Longrightarrow>
    istep k (e, ps) (fold (cancel_token rid) running e', ps)"


inductive interleaved :: "nat \<Rightarrow> engine \<Rightarrow> istate \<Rightarrow> bool" for k :: nat and e0 :: engine where
  il_start: "interleaved k e0 (e0, [])"
| il_step: "interleaved k e0 s \<Longrightarrow> istep k s s' \<Longrightarrow> interleaved k e0 s'"

definition pending_for :: "ustr \<Rightarrow> (ustr \<times> ustr) list \<Rightarrow> nat" where
  "pending_for rid ps = length (filter (\<lambda>p. fst p = rid) ps)"

lemma pending_for_simps [simp]:
  "pending_for rid [] = 0"
  "pending_for rid ((i, n) # ps) = (if i = rid then Suc (pending_for rid ps) else pending_for rid ps)"
  "pending_for rid (ps1 @ ps2) = pending_for rid ps1 + pending_for rid ps2"
  by (simp_all add: pending_for_def)

lemma pending_for_le: "pending_for rid ps \<le> length ps"
  by (simp add: pending_for_def)

text \<open>Running and decided nodes together, against the limit.\<close>

definition slack_ok :: "nat \<Rightarrow> (ustr \<times> ustr) list \<Rightarrow> ustr \<Rightarrow> dag_run \<Rightarrow> bool" where
  "slack_ok k ps rid r \<longleftrightarrow> running_count r + pending_for rid ps \<le> r_max_concurrency r + (k - 1)"

lemma start_block_count:
  assumes "start_block rid nid e = Some (l, e')"
  shows "\<exists>r r'. get_run e rid = Some r \<and> e_runs e' = e_runs (set_run rid r' e) \<and>
    running_count r' \<le> Suc (running_count r) \<and> r_max_concurrency r' = r_max_concurrency r"
proof -
  obtain r n where r: "get_run e rid = Some r" "run_node r nid = Some n" "n_status n = Ready"
    and e': "e_runs e' = e_runs (set_run rid (emit_state (e_clock e) (run_node_mut nid (start_mark (e_clock e) rid) r)) e)"
    using assms by (auto simp: start_block_def Let_def split: option.splits if_splits)
  have "running_count (run_node_mut nid (start_mark (e_clock e) rid) r) \<le> Suc (running_count r)"
    using r(2,3) update_first_count [of _ "r_nodes r" n "\<lambda>n. n_status n = Running"]
    by (simp add: running_count_def run_node_mut_def run_node_def)
  then show ?thesis
    using r(1) e' by (intro exI [of _ r] exI conjI) (assumption | simp)+
qed

lemma get_run_runs: "e_runs e' = e_runs (set_run rid r' e) \<Longrightarrow> get_run e' i = (if i = rid then Some r' else get_run e i)"
  by (simp add: get_run_def)

lemma slack_set_run:
  assumes old: "\<And>i r. get_run e i = Some r \<Longrightarrow> slack_ok k ps i r" and e': "e_runs e' = e_runs (set_run rid r' e)"
    and r: "get_run e rid = Some r" and le: "running_count r' \<le> running_count r"
    and m: "r_max_concurrency r' = r_max_concurrency r"
  shows "get_run e' i = Some x \<Longrightarrow> slack_ok k ps i x"
  using old [OF r] old [of i x] le m by (auto simp: get_run_runs [OF e'] slack_ok_def split: if_splits)

lemma istep_slack:
  assumes "istep k (e, ps) (e', ps')" and "length ps \<le> k"
    and old: "\<And>i r. get_run e i = Some r \<Longrightarrow> slack_ok k ps i r"
  shows "length ps' \<le> k \<and> (\<forall>i r. get_run e' i = Some r \<longrightarrow> slack_ok k ps' i r)"
  using assms(1)
proof (cases rule: istep.cases)
  case (i_decide rid nid)
  obtain r where r: "get_run e rid = Some r" "running_count r < r_max_concurrency r"
    using next_ready_Some i_decide by (fastforce simp: startable_def)
  have "slack_ok k ps' rid r"
    using r(2) pending_for_le [of rid ps] i_decide by (simp add: slack_ok_def)
  then show ?thesis using i_decide old r(1) by (auto simp: slack_ok_def)
next
  case (i_start rid nid l ps1 ps2)
  obtain r r' where r: "get_run e rid = Some r" and e': "e_runs e' = e_runs (set_run rid r' e)"
    and le: "running_count r' \<le> Suc (running_count r)" "r_max_concurrency r' = r_max_concurrency r"
    using start_block_count [OF i_start(3)] by blast
  have "slack_ok k ps' rid r'" using old [OF r] le i_start by (simp add: slack_ok_def)
  moreover have "slack_ok k ps' i x" if "get_run e i = Some x" "i \<noteq> rid" for i x
    using old [OF that(1)] that(2) i_start by (simp add: slack_ok_def)
  ultimately show ?thesis
    using assms(2) i_start by (simp add: get_run_runs [OF e'])
next
  case (i_stale rid nid ps1 ps2)
  have "slack_ok k ps' i r" if "get_run e i = Some r" for i r
    using old [OF that] i_stale by (auto simp: slack_ok_def split: if_splits)
  then show ?thesis using assms(2) i_stale by simp
next
  case (i_complete rid nid oc ev st)
  then obtain r where r: "get_run e rid = Some r"
    and e': "e_runs e' = e_runs (set_run rid (emit_state (e_clock e) (run_node_mut nid (complete_node (e_clock e) oc) r)) e)"
    by (auto simp: complete_block_def Let_def split: option.splits if_splits)
  have "running_count (run_node_mut nid (complete_node (e_clock e) oc) r) \<le> running_count r"
    by (rule run_count_mut_le) (simp split: if_splits)
  then show ?thesis using slack_set_run [OF old e' r] i_complete assms(2) by simp
next
  case (i_reconcile rid)
  show ?thesis
  proof (cases "get_run e rid")
    case None
    then show ?thesis using i_reconcile old assms(2) by (simp add: reconcile_run_def)
  next
    case (Some r)
    then have "e_runs e' = e_runs (set_run rid (emit_state (e_clock e) (reconcile (e_clock e) r)) e)"
      using i_reconcile by (simp add: reconcile_run_def)
    from slack_set_run [OF old this Some] show ?thesis using i_reconcile assms(2) by simp
  qed
next
  case (i_cancel rid reason running cancelled s e1)
  then obtain r where r: "get_run e rid = Some r" "r_status r = DRunning"
    and e': "e_runs e' = e_runs (set_run rid (cancelled_run (e_clock e) (Some (cancel_reason reason)) r) e)"
    by (auto simp: cancel_block_def cancelled_run_def Let_def split: option.splits if_splits)
  have "running_count (cancelled_run (e_clock e) (Some (cancel_reason reason)) r) \<le> running_count r"
    using cancel_node_terminal by (simp add: cancelled_run_def running_count_def filter_map comp_def is_terminal_def)
      (simp add: cancel_node_def cong: filter_cong)
  then show ?thesis using slack_set_run [OF old e' r(1)] i_cancel assms(2) by (simp add: cancelled_run_def)
qed

lemma interleaved_slack:
  assumes "interleaved k e0 s" and "\<And>i r. get_run e0 i = Some r \<Longrightarrow> cap_ok i r"
  shows "length (snd s) \<le> k \<and> (\<forall>i r. get_run (fst s) i = Some r \<longrightarrow> slack_ok k (snd s) i r)"
  using assms(1)
proof (induction rule: interleaved.induct)
  case il_start
  show ?case using assms(2) by (fastforce simp: slack_ok_def cap_ok_def)
next
  case (il_step s s')
  then show ?case using istep_slack [of k "fst s" "snd s" "fst s'" "snd s'"] by simp
qed

text \<open>
  With \<open>k\<close> threads ticking concurrently, a run never has more than \<open>max_concurrency + k - 1\<close>
  running nodes, whatever the interleaving of decisions, starts, completions, reconciliations and
  cancellations; with one thread this is the limit itself.
\<close>

theorem interleaved_concurrency_bound:
  assumes "reachable e0" and "interleaved k e0 (e, ps)" and "get_run e rid = Some r"
  shows "running_count r \<le> r_max_concurrency r + (k - 1)"
proof -
  have "cap_ok i x" if "get_run e0 i = Some x" for i x
    using cap.runs_inv_get [OF cap.inv_reachable [OF assms(1)] that] .
  then show ?thesis
    using interleaved_slack [OF assms(2)] assms(3) by (fastforce simp: slack_ok_def)
qed

text \<open>
  Two ticks that decided for the same node start it once: after one of them has started the node,
  the start of the other is refused, as long as no operation has made the node ready again.
\<close>

theorem stale_start_refused:
  "case start_block rid nid e of
     None \<Rightarrow> True
   | Some (l, e') \<Rightarrow> start_block rid nid e' = None"
proof (cases "start_block rid nid e")
  case (Some b)
  obtain l e' where b: "b = (l, e')" by (cases b)
  obtain r n where r: "run_node r nid = Some n"
    and e': "get_run e' rid = Some (emit_state (e_clock e) (run_node_mut nid (start_mark (e_clock e) rid) r))"
    using Some b by (auto simp: start_block_def Let_def split: option.splits if_splits)
  have "run_node (run_node_mut nid (start_mark (e_clock e) rid) r) nid = Some (start_mark (e_clock e) rid n)"
    using r by (simp add: run_node_mut_node)
  then show ?thesis using Some b e' by (simp add: start_block_def)
qed simp

end
