(* ===== verification/Dag_Examples.thy ===== *)
theory Dag_Examples
  imports Dag_Interleaving "HOL-Library.Code_Target_Numeral"
begin

text \<open>
  Concrete runs of the engine: the inputs at which the witnesses apply the theorems, and the
  behaviours that the general theorems exclude by a hypothesis (a forward reference among the
  declared nodes, a goal run that was restored).
\<close>

definition quiet_observer :: obs where
  "quiet_observer = \<lparr>o_next = 1, o_instant = 0, o_include_content = False, o_log = []\<rparr>"

definition node_def :: "string \<Rightarrow> string list \<Rightarrow> dag_node_def" where
  "node_def i deps =
     \<lparr>d_id = lit i, d_agent = lit ''worker'', d_task = lit ''task'', d_depends_on = Some (map lit deps),
      d_timeout = None, d_cwd = None, d_provider = None, d_model = None, d_thinking = None,
      d_max_iterations = None, d_tools = None\<rparr>"

definition run_def :: "dag_node_def list \<Rightarrow> dag_run_def" where
  "run_def nodes =
     \<lparr>rd_name = lit ''sample'', rd_nodes = nodes, rd_max_concurrency = Some 1, rd_fail_fast = None,
      rd_direction = None\<rparr>"

definition dispatching :: launcher where
  "dispatching run rid nid = Dispatched"

definition start_engine :: engine where
  "start_engine = set_launcher (Some dispatching) (new_engine quiet_observer 0)"

definition planned :: "dag_node_def list \<Rightarrow> engine" where
  "planned nodes = snd (the (plan (run_def nodes) None None start_engine))"

lemma start_reachable: "reachable start_engine"
  unfolding start_engine_def
  by (rule r_step [OF r_new s_launcher]) (simp add: quiet_observer_def)

lemma planned_reachable: "reachable (planned nodes)"
proof -
  obtain out e where p: "plan (run_def nodes) None None start_engine = Some (out, e)"
    using plan_total [OF reachable_runs_ok [OF start_reachable]] by fastforce
  then have "reachable e" by (intro r_step [OF start_reachable s_plan])
  then show ?thesis using p by (simp add: planned_def)
qed

definition chain :: "dag_node_def list" where
  "chain = [node_def ''a'' [], node_def ''b'' [''a''], node_def ''c'' [''b'']]"

lemma chain_planned:
  "map_option (\<lambda>r. (r_status r, r_max_concurrency r, map (\<lambda>n. (n_id n, n_status n)) (r_nodes r)))
     (get_run (planned chain) (dag_id 1)) =
   Some (DRunning, 1, [(lit ''a'', Running), (lit ''b'', Pending), (lit ''c'', Pending)])"
  by code_simp

definition ok_outcome :: node_outcome where
  "ok_outcome = (failed_outcome [])\<lparr>out_success := True\<rparr>"

definition completed :: "string \<Rightarrow> node_outcome \<Rightarrow> engine \<Rightarrow> engine" where
  "completed i oc e = the (on_node_completed (dag_id 1) (lit i) oc e)"

lemma completed_reachable: "reachable e \<Longrightarrow> reachable (completed i oc e)"
proof -
  assume e: "reachable e"
  obtain e' where p: "on_node_completed (dag_id 1) (lit i) oc e = Some e'"
    using on_node_completed_total [OF reachable_runs_ok [OF e]] by blast
  have "reachable e'" by (rule r_step [OF e s_completed [OF p]])
  then show ?thesis using p by (simp add: completed_def)
qed

text \<open>The nodes of run \<open>dag-1\<close> with their statuses.\<close>

definition statuses :: "engine \<Rightarrow> (ustr \<times> node_status) list" where
  "statuses e = (case get_run e (dag_id 1) of None \<Rightarrow> [] | Some r \<Rightarrow> map (\<lambda>n. (n_id n, n_status n)) (r_nodes r))"

subsection \<open>A run to its end\<close>

definition chain_done :: engine where
  "chain_done = completed ''c'' ok_outcome (completed ''b'' ok_outcome (completed ''a'' ok_outcome (planned chain)))"

lemma chain_done_reachable: "reachable chain_done"
  unfolding chain_done_def by (intro completed_reachable planned_reachable)

lemma chain_done_run:
  "statuses chain_done = [(lit ''a'', Succeeded), (lit ''b'', Succeeded), (lit ''c'', Succeeded)] \<and>
   map_option r_status (get_run chain_done (dag_id 1)) = Some DCompleted"
  by code_simp

subsection \<open>A forward reference\<close>

definition forward :: "dag_node_def list" where
  "forward = [node_def ''b'' [''c''], node_def ''c'' [''a''], node_def ''a'' []]"

definition forward_failed :: engine where
  "forward_failed = completed ''a'' (failed_outcome (lit ''boom'')) (planned forward)"

lemma forward_failed_reachable: "reachable forward_failed"
  unfolding forward_failed_def by (intro completed_reachable planned_reachable)

text \<open>
  A forward reference can hang a run: the graph b after c after a, declared in the order b, c, a,
  is accepted; when a fails, the one reconciliation pass cancels c but leaves b pending, and the run
  stays running with no running node (a second reconciliation would cancel b).
\<close>

theorem forward_reference_hangs:
  "validate_graph forward None = [] \<and> reachable forward_failed \<and>
   statuses forward_failed = [(lit ''b'', Pending), (lit ''c'', Cancelled), (lit ''a'', Failed)] \<and>
   map_option progressing (get_run forward_failed (dag_id 1)) = Some False \<and>
   statuses (reconcile_run (dag_id 1) forward_failed) =
     [(lit ''b'', Cancelled), (lit ''c'', Cancelled), (lit ''a'', Failed)]"
proof (intro conjI)
  show "validate_graph forward None = []" by code_simp
  show "reachable forward_failed" by (rule forward_failed_reachable)
  show "statuses forward_failed = [(lit ''b'', Pending), (lit ''c'', Cancelled), (lit ''a'', Failed)]" by code_simp
  show "map_option progressing (get_run forward_failed (dag_id 1)) = Some False" by code_simp
  show "statuses (reconcile_run (dag_id 1) forward_failed) =
     [(lit ''b'', Cancelled), (lit ''c'', Cancelled), (lit ''a'', Failed)]" by code_simp
qed

subsection \<open>A restored goal run\<close>

definition saved_goal :: persisted_run where
  "saved_goal = to_persisted (goal_run 0 (lit ''first'') None (goal_id 1))"

definition restored_engine :: engine where
  "restored_engine = snd (the (restore [saved_goal] start_engine))"

definition goal_state :: "engine \<Rightarrow> (ustr \<times> node_status \<times> bool) option" where
  "goal_state e = map_option (\<lambda>n. (n_task n, n_status n, hm_get (e_jobs e) (goal_id 1, main_id) \<noteq> None))
     (find_node e (goal_id 1) main_id)"

lemma saved_goal_ok: "persisted_ok saved_goal"
  by (auto simp: persisted_ok_def saved_goal_def to_persisted_def to_persisted_node_def goal_run_def goal_node_def)

lemma restored_reachable: "reachable restored_engine"
proof -
  obtain ids e where r: "restore [saved_goal] start_engine = Some (ids, e)"
    using restore_total [OF reachable_runs_ok [OF start_reachable], of "[saved_goal]"] saved_goal_ok by fastforce
  then have "reachable e" using saved_goal_ok by (intro r_step [OF start_reachable s_restore [OF _ r]]) simp
  then show ?thesis using r by (simp add: restored_engine_def)
qed

text \<open>
  A restored goal run is not protected like a DAG run: restoring starts its \<open>main\<close> node as an
  ordinary job, and since only the DAG counter is aligned the next goal gets the same id
  and replaces the restored run.
\<close>

theorem restored_goal_overwritten:
  "reachable restored_engine \<and>
   goal_state restored_engine = Some (lit ''first'', Running, True) \<and>
   fst (plan_goal (lit ''second'') None restored_engine) = goal_id 1 \<and>
   goal_state (snd (plan_goal (lit ''second'') None restored_engine)) = Some (lit ''second'', Running, True)"
proof (intro conjI)
  show "reachable restored_engine" by (rule restored_reachable)
  show "goal_state restored_engine = Some (lit ''first'', Running, True)" by code_simp
  show "fst (plan_goal (lit ''second'') None restored_engine) = goal_id 1" by code_simp
  show "goal_state (snd (plan_goal (lit ''second'') None restored_engine)) = Some (lit ''second'', Running, True)"
    by code_simp
qed

subsection \<open>Two threads over the limit\<close>

definition race_graph :: "dag_node_def list" where
  "race_graph = [node_def ''a'' [''c''], node_def ''c'' [], node_def ''b'' []]"

definition completed_only :: "string \<Rightarrow> engine \<Rightarrow> engine" where
  "completed_only i e = snd (snd (the (complete_block (dag_id 1) (lit i) ok_outcome e)))"

definition started_only :: "string \<Rightarrow> engine \<Rightarrow> engine" where
  "started_only i e = snd (the (start_block (dag_id 1) (lit i) e))"

definition race1 :: engine where "race1 = completed_only ''c'' (planned race_graph)"
definition race2 :: engine where "race2 = reconcile_run (dag_id 1) race1"
definition race3 :: engine where "race3 = started_only ''a'' race2"
definition race4 :: engine where "race4 = started_only ''b'' race3"

lemma completed_only_step:
  "\<not> Option.is_none (complete_block (dag_id 1) (lit i) ok_outcome e) \<Longrightarrow> istep k (e, ps) (completed_only i e, ps)"
  by (auto simp: completed_only_def Option.is_none_def intro: i_complete)

lemma started_only_step:
  "\<not> Option.is_none (start_block (dag_id 1) (lit i) e) \<Longrightarrow>
   istep k (e, ps1 @ (dag_id 1, lit i) # ps2) (started_only i e, ps1 @ ps2)"
  by (auto simp: started_only_def Option.is_none_def intro: i_start)

lemma race_interleaved: "interleaved 2 (planned race_graph) (race4, [])"
proof -
  let ?i = "interleaved 2 (planned race_graph)"
  let ?b = "(dag_id 1, lit ''b'')" and ?a = "(dag_id 1, lit ''a'')"
  have "?i (race1, [])"
    unfolding race1_def by (rule il_step [OF il_start completed_only_step]) code_simp
  moreover have "next_ready (dag_id 1) race1 = Some (lit ''b'')" by code_simp
  ultimately have "?i (race1, [?b])" by (rule il_step [OF _ i_decide]) simp
  then have "?i (race2, [?b])" unfolding race2_def by (rule il_step [OF _ i_reconcile])
  moreover have "next_ready (dag_id 1) race2 = Some (lit ''a'')" by code_simp
  ultimately have "?i (race2, [?a, ?b])" by (rule il_step [OF _ i_decide]) simp
  moreover have "\<not> Option.is_none (start_block (dag_id 1) (lit ''a'') race2)" by code_simp
  ultimately have "?i (race3, [?b])"
    using il_step [OF _ started_only_step [of "''a''" race2 2 "[]" "[?b]"]] by (simp add: race3_def)
  moreover have "\<not> Option.is_none (start_block (dag_id 1) (lit ''b'') race3)" by code_simp
  ultimately show ?thesis
    using il_step [OF _ started_only_step [of "''b''" race3 2 "[]" "[]"]] by (simp add: race4_def)
qed

text \<open>
  The limit can be exceeded: two threads that tick the same run (one for a completion, one for a
  retry) bring a run with \<open>max_concurrency\<close> 1 to two running nodes, because the start of a node does
  not check the limit again.
\<close>

theorem concurrent_ticks_exceed_limit:
  "interleaved 2 (planned race_graph) (race4, []) \<and> reachable (planned race_graph) \<and>
   map_option (\<lambda>r. (running_count r, r_max_concurrency r)) (get_run race4 (dag_id 1)) = Some (2, 1)"
proof (intro conjI)
  show "interleaved 2 (planned race_graph) (race4, [])" by (rule race_interleaved)
  show "reachable (planned race_graph)" by (rule planned_reachable)
  show "map_option (\<lambda>r. (running_count r, r_max_concurrency r)) (get_run race4 (dag_id 1)) = Some (2, 1)"
    by code_simp
qed

subsection \<open>Applications of the general theorems\<close>

definition sample_run :: dag_run where
  "sample_run = run_node_mut (lit ''a'') (\<lambda>n. n\<lparr>n_status := Succeeded\<rparr>) (build_run 0 (run_def chain))"

definition sample_node :: "string \<Rightarrow> dag_node" where
  "sample_node i = the (run_node (reconcile 0 sample_run) (lit i))"

lemma sample_run_facts:
  "distinct (map n_id (r_nodes sample_run)) \<and> deps_first (r_nodes sample_run) \<and>
   n_status (sample_node ''b'') = Ready \<and> n_id (sample_node ''a'') \<in> set (n_depends_on (sample_node ''b''))"
  by code_simp

lemma sample_node_in: "sample_node ''a'' \<in> set (r_nodes (reconcile 0 sample_run))"
  "sample_node ''b'' \<in> set (r_nodes (reconcile 0 sample_run))"
  by code_simp+

theorem reconcile_ready_safe_witness:
  "n_status (sample_node ''a'') = Succeeded \<or> n_status (sample_node ''a'') = Skipped"
  using reconcile_ready_safe [OF _ sample_node_in(2) _ sample_node_in(1)] sample_run_facts by blast

theorem reconcile_idempotent_witness: "reconcile 5 (reconcile 0 sample_run) = reconcile 0 sample_run"
  using reconcile_idempotent [of sample_run 5 0] sample_run_facts by blast

lemma chain_done_keys: "hm_ok (e_runs chain_done)"
  using reachable_runs_ok [OF chain_done_reachable] by (simp add: all_runs_def)

theorem evict_retention_witness:
  "length (terminal_runs (snd (evict None chain_done)) None) \<le> MAX_TERMINAL_RUNS"
  using evict_retention [OF chain_done_keys, of None] by blast

theorem reachable_terminal_runs_closed_witness: "terminal_runs_closed chain_done"
  by (rule reachable_terminal_runs_closed [OF chain_done_reachable])

theorem reachable_concurrency_witness: "concurrency_respected (planned chain)"
  by (rule reachable_concurrency [OF planned_reachable])

theorem tick_returns_witness: "\<exists>e'. tick (dag_id 1) (planned chain) = Some e'"
  using tick_returns [OF planned_reachable, of "dag_id 1" chain] by blast

theorem operations_return_witness: "skip (dag_id 1) (lit ''a'') (planned chain) \<noteq> None"
  using operations_return [OF planned_reachable] by blast

definition chain_run :: dag_run where
  "chain_run = the (get_run (planned chain) (dag_id 1))"

lemma chain_run_get: "get_run (planned chain) (dag_id 1) = Some chain_run"
proof -
  have "get_run (planned chain) (dag_id 1) \<noteq> None" by code_simp
  then show ?thesis by (auto simp: chain_run_def)
qed

lemma chain_run_facts:
  "r_status chain_run = DRunning \<and> deps_first (r_nodes chain_run) \<and> 0 < r_max_concurrency chain_run"
  by code_simp

theorem reachable_no_stuck_run_witness: "progressing chain_run"
  by (rule reachable_no_stuck_run [OF planned_reachable chain_run_get]) (simp_all add: chain_run_facts)

theorem reachable_jobs_live_witness: "jobs_live (planned chain)"
  by (rule reachable_jobs_live [OF planned_reachable])

theorem cancel_run_complete_witness:
  "hm_get (e_jobs (cancel_run (dag_id 1) None (planned chain))) (dag_id 1, lit ''a'') = None"
  using cancel_run_complete [OF planned_reachable chain_run_get] chain_run_facts by blast

theorem plan_fresh_id_witness:
  "\<exists>run e'. plan (run_def chain) None None start_engine = Some (Inr run, e') \<and>
     get_run start_engine (r_id run) = None"
proof -
  have "case plan (run_def chain) None None start_engine of Some (Inr _, _) \<Rightarrow> True | _ \<Rightarrow> False"
    by code_simp
  then obtain run e' where "plan (run_def chain) None None start_engine = Some (Inr run, e')"
    by (auto split: option.splits sum.splits)
  then show ?thesis using plan_fresh_id [OF start_reachable] by blast
qed

theorem reachable_observations_witness: "obs_wf (open_scopes chain_done) (e_obs chain_done)"
  by (rule reachable_observations [OF chain_done_reachable])

theorem interleaved_concurrency_bound_witness:
  "running_count (the (get_run race4 (dag_id 1))) \<le> r_max_concurrency (the (get_run race4 (dag_id 1))) + (2 - 1)"
proof -
  have "get_run race4 (dag_id 1) \<noteq> None" by code_simp
  then obtain r where "get_run race4 (dag_id 1) = Some r" by blast
  then show ?thesis
    using interleaved_concurrency_bound [OF planned_reachable race_interleaved] by simp
qed

end
