(* ===== verification/Goal_Properties.thy ===== *)
theory Goal_Properties
  imports Goal_Facts Session_Properties Dag_Examples
begin

text \<open>
  What the goal component guarantees: its persisted form, the bound on a goal loop, its effect on
  the engine, and the behaviours at its edges (a decision that cannot be sliced, a goal that is
  resumed at its limit, cleared during an evaluation or replaced by another).
\<close>

subsection \<open>Persistence\<close>

text \<open>
  The persisted form of a goal decodes to the goal.
\<close>
theorem goal_roundtrip:
  assumes "gs_iterations g < 2 ^ 32"
  shows "goal_from_json (goal_to_json g) = Some g"
  using assms by (rule goal_decode_encode)

definition sample_goal :: "goal_status \<Rightarrow> nat \<Rightarrow> goal_state" where
  "sample_goal st n = \<lparr>gs_condition = lit ''tests pass'', gs_status = st, gs_iterations = n,
                       gs_last_reason = Some (lit ''no''), gs_updated_at = lit ''t''\<rparr>"

lemma goal_roundtrip_witness: "goal_from_json (goal_to_json (sample_goal Paused 3)) = Some (sample_goal Paused 3)"
  by (rule goal_roundtrip) (simp add: sample_goal_def)

subsection \<open>The goal loop\<close>

text \<open>
  One turn end, from \<open>hook_begin\<close> to \<open>hook_end\<close> with no interference, on a transcript and an
  evaluator (its result on a prompt); and turns for as long as the hook asks to continue.
\<close>

definition goal_turn ::
  "'s storage_ops \<Rightarrow> (ustr \<Rightarrow> (bool \<times> ustr) option) \<Rightarrow> (nat \<Rightarrow> ustr) \<Rightarrow> bool \<Rightarrow> bool \<Rightarrow>
   agent_message list \<times> (ustr \<Rightarrow> agent_run_result) \<Rightarrow> 's goal_world \<Rightarrow> turn_end_decision option \<times> 's goal_world" where
  "goal_turn ops from_str now have_model have_launch turn w =
     (case hook_begin ops now (fst turn) have_model have_launch w of
        (Decided d, w') \<Rightarrow> (Some d, w')
      | (Evaluate g rid prompt, w') \<Rightarrow> hook_end ops from_str now g rid (snd turn prompt) w')"

definition continues :: "turn_end_decision option \<Rightarrow> bool" where
  "continues d = (case d of Some d \<Rightarrow> (case te_action d of Continue _ \<Rightarrow> True | _ \<Rightarrow> False) | None \<Rightarrow> False)"

fun goal_turns ::
  "'s storage_ops \<Rightarrow> (ustr \<Rightarrow> (bool \<times> ustr) option) \<Rightarrow> (nat \<Rightarrow> ustr) \<Rightarrow> bool \<Rightarrow> bool \<Rightarrow>
   (agent_message list \<times> (ustr \<Rightarrow> agent_run_result)) list \<Rightarrow> 's goal_world \<Rightarrow>
   turn_end_decision option list \<times> 's goal_world" where
  "goal_turns ops from_str now hm hl [] w = ([], w)"
| "goal_turns ops from_str now hm hl (t # ts) w =
     (case goal_turn ops from_str now hm hl t w of
        (d, w') \<Rightarrow>
          if continues d then (case goal_turns ops from_str now hm hl ts w' of (ds, w'') \<Rightarrow> (d # ds, w''))
          else ([d], w'))"

context session_storage
begin

lemma goal_turn_continues:
  assumes inv: "session_inv (gw_session w)"
    and c: "continues (fst (goal_turn ops from_str now hm hl t w))"
  shows "session_inv (gw_session (snd (goal_turn ops from_str now hm hl t w))) \<and>
    (\<exists>g g'. current_goal (ents (gw_session w)) = Some g \<and> gs_iterations g + 1 < MAX_CONTINUATIONS \<and>
       current_goal (ents (gw_session (snd (goal_turn ops from_str now hm hl t w)))) = Some g' \<and>
       gs_iterations g' = gs_iterations g + 1)"
proof -
  note b = hook_begin_cases [OF inv, of now "fst t" hm hl]
  show ?thesis
  proof (cases "hook_begin ops now (fst t) hm hl w")
    case (Pair stage w')
    show ?thesis
    proof (cases stage)
      case (Decided d)
      with Pair b c show ?thesis by (auto simp: goal_turn_def continues_def)
    next
      case (Evaluate g rid prompt)
      with Pair b have g: "gw_session w' = gw_session w" "current_goal (ents (gw_session w)) = Some g"
        "gs_status g = Pursuing" by auto
      with current_goal_bound have lt: "gs_iterations g < 2 ^ 32" by blast
      have inv': "session_inv (gw_session w')" using inv g(1) by simp
      have eq: "goal_turn ops from_str now hm hl t w = hook_end ops from_str now g rid (snd t prompt) w'"
        using Pair Evaluate by (simp add: goal_turn_def)
      from c obtain d p where "fst (hook_end ops from_str now g rid (snd t prompt) w') = Some d"
        "te_action d = Continue p"
        unfolding eq by (auto simp: continues_def split: option.splits turn_end_action.splits)
      from hook_end_continue [OF inv' lt g(3) this] hook_end_session [OF inv' lt g(3)] g(2) show ?thesis
        unfolding eq by blast
    qed
  qed
qed

lemma goal_turns_bound:
  "session_inv (gw_session w) \<Longrightarrow> current_goal (ents (gw_session w)) = Some g \<Longrightarrow>
   length (fst (goal_turns ops from_str now hm hl ts w)) \<le> max 1 (MAX_CONTINUATIONS - gs_iterations g)"
proof (induction ts arbitrary: w g)
  case (Cons t ts)
  let ?r = "goal_turn ops from_str now hm hl t w"
  show ?case
  proof (cases "continues (fst ?r)")
    case False
    then show ?thesis by (simp add: case_prod_beta)
  next
    case True
    from goal_turn_continues [OF Cons.prems(1) True] Cons.prems(2) obtain g' where
      g': "session_inv (gw_session (snd ?r))" "gs_iterations g + 1 < MAX_CONTINUATIONS"
        "current_goal (ents (gw_session (snd ?r))) = Some g'" "gs_iterations g' = gs_iterations g + 1"
      by auto
    from Cons.IH [OF g'(1,3)] g' True show ?thesis by (simp add: case_prod_beta)
  qed
qed simp

lemma goal_set_eq:
  assumes "session_inv s" "goal_set ops now c s = (Inr g, s')"
  shows "session_inv s' \<and> current_goal (ents s') = Some g \<and> gs_iterations g = 0"
  using assms(2) stored_eq [OF assms(1), of "\<lparr>gs_condition = c, gs_status = Pursuing, gs_iterations = 0,
      gs_last_reason = None, gs_updated_at = now 0\<rparr>" "now 1"]
  by (auto simp: goal_set_def)

lemma goal_clear_eq:
  assumes "session_inv s" "goal_clear ops now s = (Inr g, s')"
  shows "session_inv s'"
proof -
  define f where "f = (case current_goal (ents s) of Some g \<Rightarrow> g
    | None \<Rightarrow> \<lparr>gs_condition = [], gs_status = Cleared, gs_iterations = 0, gs_last_reason = None,
              gs_updated_at = now 0\<rparr>)"
  have "gs_iterations f < 2 ^ 32"
    using current_goal_bound [of "ents s"] by (simp add: f_def split: option.split)
  moreover have "goal_clear ops now s = stored ops (now 2) (f\<lparr>gs_status := Cleared, gs_updated_at := now 1\<rparr>) s"
    by (simp add: goal_clear_def goal_current_eq [OF inv_ok [OF assms(1)]] Let_def f_def)
  ultimately show ?thesis
    using assms(2) stored_eq [OF assms(1), of "f\<lparr>gs_status := Cleared, gs_updated_at := now 1\<rparr>" "now 2"] by auto
qed

lemma goal_resume_eq:
  assumes "session_inv s" "goal_resume ops now s = (Inr g', s')"
  shows "\<exists>g. current_goal (ents s) = Some g \<and> session_inv s' \<and> current_goal (ents s') = Some g' \<and>
    gs_iterations g' = gs_iterations g"
proof -
  from assms goal_current_eq [OF inv_ok [OF assms(1)]] obtain g where
    g: "current_goal (ents s) = Some g" "gs_status g = Paused \<or> gs_status g = BudgetLimited"
       "stored ops (now 1) (g\<lparr>gs_status := Pursuing, gs_updated_at := now 0\<rparr>) s = (Inr g', s')"
    by (auto simp: goal_resume_def split: option.splits if_splits)
  with stored_eq [OF assms(1), of "g\<lparr>gs_status := Pursuing, gs_updated_at := now 0\<rparr>" "now 1"]
    current_goal_bound [OF g(1)] show ?thesis by auto
qed

end

text \<open>
  C23. A goal cannot keep a session running for ever: from \<open>set\<close> on, whatever the model and the
  evaluator answer, the hook ends the loop after at most \<open>MAX_CONTINUATIONS\<close> evaluations.
\<close>
theorem goal_loop_bounded:
  assumes "inj uuid"
    and "goal_set (memory_ops uuid) now condition (session_after uuid created tnow rs) = (Inr g, s')"
  shows "length (fst (goal_turns (memory_ops uuid) from_str now have_model have_launch turns
           \<lparr>gw_session = s', gw_engine = e\<rparr>)) \<le> MAX_CONTINUATIONS"
proof -
  note set = memory.goal_set_eq [OF after_inv [OF assms(1)] assms(2)]
  with memory.goal_turns_bound [of uuid "\<lparr>gw_session = s', gw_engine = e\<rparr>" g from_str now have_model have_launch turns]
  show ?thesis by (simp add: MAX_CONTINUATIONS_def)
qed

text \<open>
  Resuming does not renew the budget, although the message at the limit asks for it ("goal
  continuation limit reached (8); resume with /goal resume"): a goal that is resumed after eight
  evaluations gets one more, and is then paused or finished; it never continues.
\<close>
theorem resume_does_not_renew_budget:
  assumes "inj uuid"
    and "current_goal (mem_entries (session_after uuid created tnow rs)) = Some g"
    and "MAX_CONTINUATIONS \<le> gs_iterations g"
    and "goal_resume (memory_ops uuid) now (session_after uuid created tnow rs) = (Inr g', s')"
  shows "length (fst (goal_turns (memory_ops uuid) from_str now have_model have_launch turns
           \<lparr>gw_session = s', gw_engine = e\<rparr>)) \<le> 1"
proof -
  from memory.goal_resume_eq [OF after_inv [OF assms(1)] assms(4)] assms(2)
  have "memory.session_inv uuid s'" "current_goal (mem_entries s') = Some g'" "gs_iterations g' = gs_iterations g"
    by auto
  with memory.goal_turns_bound [of uuid "\<lparr>gw_session = s', gw_engine = e\<rparr>" g' from_str now have_model have_launch turns]
    assms(3)
  show ?thesis by (simp add: max_def split: if_splits)
qed

subsection \<open>The engine\<close>

text \<open>The run a hook works on has a goal id.\<close>

definition goal_ref :: "ustr option \<Rightarrow> bool" where
  "goal_ref rid = (case rid of None \<Rightarrow> True | Some i \<Rightarrow> \<exists>c. i = goal_id c)"

lemma goal_id_not_dag_id: "goal_id c \<noteq> dag_id d"
  by (simp add: goal_id_def dag_id_def lit_def)

lemma goal_ref_only: "reachable e \<Longrightarrow> goal_ref (Some i) \<Longrightarrow> goal_only i e"
proof -
  assume e: "reachable e" and ref: "goal_ref (Some i)"
  have "r_kind r = Goal" if r: "get_run e i = Some r" for r
  proof -
    from reachable_wf [OF e] r have "run_shape i r" by (auto simp: run_ok_def dest: all_runsD)
    with ref goal_id_not_dag_id show ?thesis by (cases "r_kind r") (auto simp: run_shape_def goal_ref_def)
  qed
  then show ?thesis by (simp add: goal_only_def split: option.split)
qed

lemma reach_evaluator: "reachable e \<Longrightarrow> reachable (link_evaluator rid job e)"
  by (auto simp: link_evaluator_def split: option.split intro: r_step s_evaluator)

lemma reach_tick: "reachable e \<Longrightarrow> goal_ref rid \<Longrightarrow> reachable (goal_tick rid iteration finished reason e)"
  by (cases rid) (auto simp: goal_tick_def intro: r_step s_goal_tick goal_ref_only)

lemma reach_complete:
  "reachable e \<Longrightarrow> goal_ref (Some i) \<Longrightarrow> st = DFailed \<or> st = DCancelled \<Longrightarrow> reachable (complete_goal i st reason e)"
  by (rule r_step, assumption, rule s_complete_goal) (auto intro: goal_ref_only)

lemma reach_pause:
  "reachable (gw_engine w) \<Longrightarrow> goal_ref rid \<Longrightarrow> reachable (gw_engine (snd (pause_for ops now rid g reason w)))"
  by (cases rid) (auto simp: pause_for_def Let_def complete_goal_cancelled_def persist_state_best_effort_def
      intro: reach_complete)

lemma reach_apply:
  assumes "reachable (gw_engine w)" "goal_ref rid"
  shows "reachable (gw_engine (snd (hook_apply ops now g rid is_ok reason w)))"
  using reach_tick [OF assms] assms(2)
  by (cases rid) (auto simp: hook_apply_def Let_def persist_state_best_effort_def intro: reach_complete)

lemma ensure_goal_ref:
  assumes "reachable (gw_engine w)"
  shows "reachable (gw_engine (snd (ensure_goal_run ops c w))) \<and> goal_ref (fst (ensure_goal_run ops c w))"
proof -
  obtain session s' where s: "session_id_from_harness ops (gw_session w) = (session, s')" by fastforce
  let ?P = "\<lambda>r. r_kind r = Goal \<and> r_status r = DRunning \<and> r_session_id r = session"
  show ?thesis
  proof (cases "find ?P (list_runs (gw_engine w))")
    case None
    have "reachable (snd (plan_goal c session (gw_engine w)))" using assms s_plan_goal by (rule r_step)
    with None s show ?thesis
      by (auto simp: ensure_goal_run_def goal_ref_def plan_goal_def Let_def)
  next
    case (Some r)
    then have r: "r \<in> set (list_runs (gw_engine w))" "r_kind r = Goal" by (auto simp: find_Some_iff)
    from reachable_wf [OF assms] have all: "all_runs run_ok (gw_engine w)" by simp
    from r(1) obtain k where "(k, r) \<in> set (e_runs (gw_engine w))" by (auto simp: list_runs_def)
    then have "get_run (gw_engine w) k = Some r"
      using all hm_get_in [of "e_runs (gw_engine w)" k r] by (simp add: all_runs_def get_run_def)
    from all_runsD [OF all this] r(2) have "\<exists>d. r_id r = goal_id d" by (auto simp: run_ok_def run_shape_def)
    with Some s assms show ?thesis by (auto simp: ensure_goal_run_def goal_ref_def)
  qed
qed

text \<open>
  The goal hook respects the engine's contract, whatever the storage and the evaluator do and
  whatever the engine did while the evaluator ran: it only drives goal runs, so every state it
  leaves the engine in is one the engine's own invariants cover.
\<close>
theorem goal_hook_engine_reachable:
  assumes "reachable (gw_engine w)" and "goal_ref rid"
  shows "reachable (gw_engine (snd (hook_begin ops now transcript have_model have_launch w))) \<and>
    (case fst (hook_begin ops now transcript have_model have_launch w) of
       Decided d \<Rightarrow> True | Evaluate g' rid' prompt \<Rightarrow> goal_ref rid') \<and>
    reachable (gw_engine (snd (hook_end ops from_str now g rid result w)))"
proof (intro conjI)
  have "reachable (gw_engine (snd (hook_begin ops now transcript have_model have_launch w))) \<and>
    (case fst (hook_begin ops now transcript have_model have_launch w) of
       Decided d \<Rightarrow> True | Evaluate g' rid' prompt \<Rightarrow> goal_ref rid')"
  proof (cases "goal_current ops (gw_session w)")
    case (Pair found s')
    show ?thesis
    proof (cases found)
      case None
      with Pair assms(1) show ?thesis by (simp add: hook_begin_def)
    next
      case (Some g')
      let ?r = "ensure_goal_run ops (gs_condition g') (w\<lparr>gw_session := s'\<rparr>)"
      from ensure_goal_ref [of "w\<lparr>gw_session := s'\<rparr>"] assms(1)
      have r: "reachable (gw_engine (snd ?r))" "goal_ref (fst ?r)" by simp_all
      with Pair Some assms(1) show ?thesis
        using reach_pause [OF r] by (simp add: hook_begin_def case_prod_beta Let_def)
    qed
  qed
  then show "reachable (gw_engine (snd (hook_begin ops now transcript have_model have_launch w)))"
    "case fst (hook_begin ops now transcript have_model have_launch w) of
       Decided d \<Rightarrow> True | Evaluate g' rid' prompt \<Rightarrow> goal_ref rid'" by blast+
  have "reachable (gw_engine (w\<lparr>gw_engine := link_evaluator rid job (gw_engine w)\<rparr>))" for job
    using reach_evaluator [OF assms(1)] by simp
  then show "reachable (gw_engine (snd (hook_end ops from_str now g rid result w)))"
    using assms(2)
    by (cases rule: hook_end_cases [of ops from_str now g rid result w])
      (simp_all add: reach_pause reach_apply reach_evaluator [OF assms(1)])
qed

text \<open>The engine's run of the goal after each kind of step.\<close>

lemma fold_emit_runs [simp]: "e_runs (fold emit evs e) = e_runs e" "get_run (fold emit evs e) i = get_run e i"
  by (induction evs arbitrary: e) simp_all

lemma observe_goal_end_runs [simp]:
  "e_runs (observe_goal_end i e) = e_runs e" "get_run (observe_goal_end i e) k = get_run e k"
  by (auto simp: observe_goal_end_def split: option.splits)

lemma goal_tick_running:
  assumes "get_run e i = Some r" "run_node r main_id \<noteq> None"
  shows "\<exists>r'. get_run (goal_tick (Some i) n False reason e) i = Some r' \<and> r_status r' = r_status r"
  using assms by (auto simp: goal_tick_def on_goal_tick_def goal_tick_block_def Let_def
      run_node_mut_def emit_state_def)

lemma goal_tick_done:
  assumes "hm_ok (e_runs e)" "get_run e i = Some r" "run_node r main_id \<noteq> None"
  shows "case get_run (goal_tick (Some i) n True reason e) i of None \<Rightarrow> True | Some r' \<Rightarrow> r_status r' = DCompleted"
  using assms by (auto simp: goal_tick_def on_goal_tick_def goal_tick_block_def Let_def
      run_node_mut_def emit_state_def get_run_evict)

lemma complete_goal_done:
  assumes "hm_ok (e_runs e)" "get_run e i = Some r" "r_status r = DRunning"
  shows "case get_run (complete_goal i st reason e) i of None \<Rightarrow> True | Some r' \<Rightarrow> r_status r' = st"
  using assms by (auto simp: complete_goal_def complete_goal_block_def Let_def
      run_node_mut_def emit_state_def get_run_evict)

lemma goal_has_main: "run_ok k r \<Longrightarrow> r_kind r = Goal \<Longrightarrow> run_node r main_id \<noteq> None"
  by (auto dest!: goal_single simp: run_node_def)

lemma linked_run:
  assumes "get_run e i = Some r"
  shows "\<exists>r'. get_run (link_evaluator (Some i) job e) i = Some r' \<and> r_status r' = r_status r \<and> r_kind r' = r_kind r"
  using assms by (simp add: link_evaluator_def on_goal_evaluator_finished_def run_node_mut_def)

text \<open>
  The goal's run mirrors the decision: while the hook continues, the run stays running; when
  the goal is achieved it is completed, when the hook pauses it is cancelled or, at the limit,
  failed (or retention has already evicted it); the hook never decides \<open>Noop\<close> here.
\<close>
theorem goal_run_mirrors:
  assumes "reachable (gw_engine w)" and "get_run (gw_engine w) i = Some r"
    and "r_kind r = Goal" and "r_status r = DRunning"
    and "hook_end ops from_str now g (Some i) result w = (Some d, w')"
  shows "case te_action d of
      Continue p \<Rightarrow> (\<exists>r'. get_run (gw_engine w') i = Some r' \<and> r_status r' = DRunning)
    | TStop \<Rightarrow> (case get_run (gw_engine w') i of None \<Rightarrow> True | Some r' \<Rightarrow> r_status r' = DCompleted)
    | TPause p \<Rightarrow> (case get_run (gw_engine w') i of None \<Rightarrow> True | Some r' \<Rightarrow>
                    r_status r' = (if p = limit_reason then r_status r' else DCancelled) \<and>
                    r_status r' \<in> {DCancelled, DFailed})
    | Noop \<Rightarrow> False"
proof -
  let ?e = "link_evaluator (Some i) (ar_job_id result) (gw_engine w)"
  let ?w = "w\<lparr>gw_engine := ?e\<rparr>"
  have reach: "reachable ?e" by (rule reach_evaluator [OF assms(1)])
  have all: "all_runs run_ok ?e" using reachable_wf [OF reach] by simp
  then have ok: "hm_ok (e_runs ?e)" by (simp add: all_runs_def)
  from linked_run [OF assms(2)] assms(3,4) obtain r1 where
    r1: "get_run ?e i = Some r1" "r_status r1 = DRunning" "r_kind r1 = Goal" by metis
  have main: "run_node r1 main_id \<noteq> None" by (rule goal_has_main [OF all_runsD [OF all r1(1)] r1(3)])
  show ?thesis
  proof (cases rule: hook_end_cases [of ops from_str now g "Some i" result w])
    case (pause reason)
    with assms(5) have d: "te_action d = TPause reason"
      "gw_engine w' = complete_goal i DCancelled (Some reason) ?e"
      by (auto simp: pause_for_def Let_def pause_decision_def complete_goal_cancelled_def persist_state_best_effort_def)
    then show ?thesis using complete_goal_done [OF ok r1(1,2), of DCancelled "Some reason"]
      by (auto split: option.splits)
  next
    case panic
    then show ?thesis using assms(5) by simp
  next
    case (decide is_ok reason)
    let ?g = "evaluated g reason (now 0)"
    let ?t = "goal_tick (Some i) (gs_iterations ?g) False (Some reason) ?e"
    from goal_tick_running [OF r1(1) main] r1(2) obtain r2 where
      r2: "get_run ?t i = Some r2" "r_status r2 = DRunning" by metis
    have "goal_ref (Some i)"
      using all_runsD [OF all r1(1)] r1(3) by (auto simp: goal_ref_def run_ok_def run_shape_def)
    from reachable_wf [OF reach_tick [OF reach this]]
    have ok2: "hm_ok (e_runs ?t)" by (simp add: all_runs_def)
    note res = complete_goal_done [OF ok2 r2, of DFailed "Some limit_reason"]
    from decide(1) assms(5) have eq: "hook_apply ops now g (Some i) is_ok reason ?w = (d, w')" by simp
    consider is_ok | "\<not> is_ok" "MAX_CONTINUATIONS \<le> gs_iterations ?g" | "\<not> is_ok" "\<not> MAX_CONTINUATIONS \<le> gs_iterations ?g"
      by blast
    then show ?thesis
    proof cases
      case 1
      with eq have "te_action d = TStop"
        "gw_engine w' = goal_tick (Some i) (gs_iterations ?g) True (Some reason) ?e"
        by (auto simp: hook_apply_def Let_def persist_state_best_effort_def)
      then show ?thesis using goal_tick_done [OF ok r1(1) main, of "gs_iterations ?g" "Some reason"] by simp
    next
      case 2
      with eq have "te_action d = TPause limit_reason" "gw_engine w' = complete_goal i DFailed (Some limit_reason) ?t"
        by (auto simp: hook_apply_def Let_def persist_state_best_effort_def)
      then show ?thesis using res by (auto split: option.splits)
    next
      case 3
      with eq have "te_action d = Continue (continuation_prompt (gs_condition ?g) reason)" "gw_engine w' = ?t"
        by (auto simp: hook_apply_def Let_def persist_state_best_effort_def)
      then show ?thesis using r2 by simp
    qed
  qed
qed

subsection \<open>The evaluator's answer\<close>

text \<open>
  \<open>parse_decision\<close> panics exactly on the texts that are not an answer and whose last closing
  brace lies before the first opening one with something in between, such as "} {": the slice
  from the one to the other is out of order.
\<close>
theorem parse_decision_panics:
  "(parse_decision from_str t = None) =
     (from_str (trim t) = None \<and>
      (case (find_char 123 (trim t), rfind_char 125 (trim t)) of
         (Some start, Some fin) \<Rightarrow> fin + 1 < start | _ \<Rightarrow> False))"
  by (auto simp: parse_decision_def slice_incl_def Let_def split: option.splits)

subsection \<open>Goals at their edges\<close>

definition not_yet :: "ustr \<Rightarrow> (bool \<times> ustr) option" where
  "not_yet t = Some (False, lit ''not yet'')"

definition answered :: agent_run_result where
  "answered = \<lparr>ar_text = lit ''no'', ar_success = True, ar_error = None, ar_job_id = lit ''job-1''\<rparr>"

definition clock_t :: "nat \<Rightarrow> ustr" where
  "clock_t k = lit ''t''"

text \<open>
  C34. A goal that is cleared (or paused, or replaced) while its evaluation runs comes back: the hook
  persists the state it read before the run, whatever the session says by then, so below the limit
  the old goal is pursued again and the session is told to continue.
\<close>
theorem cleared_goal_resurrected:
  assumes "inj uuid"
    and "gs_status g = Pursuing" and "gs_iterations g + 1 < MAX_CONTINUATIONS"
    and "ar_success result" and "ar_error result = None"
    and "parse_decision from_str (ar_text result) = Some (Inr (False, reason))"
    and "hook_end (memory_ops uuid) from_str now g rid result
           \<lparr>gw_session = session_after uuid created tnow rs, gw_engine = e\<rparr> = (d, w')"
  shows "continues d \<and> current_goal (mem_entries (gw_session w')) =
    Some (g\<lparr>gs_iterations := gs_iterations g + 1, gs_last_reason := Some reason, gs_updated_at := now 0\<rparr>)"
proof -
  let ?w = "\<lparr>gw_session = session_after uuid created tnow rs, gw_engine = link_evaluator rid (ar_job_id result) e\<rparr>"
  let ?h = "hook_apply (memory_ops uuid) now g rid False reason ?w"
  from assms(4-7) have eq: "d = Some (fst ?h)" "w' = snd ?h"
    by (auto simp: hook_end_def Let_def case_prod_beta)
  have g1: "evaluated g reason (now 0) =
      g\<lparr>gs_iterations := gs_iterations g + 1, gs_last_reason := Some reason, gs_updated_at := now 0\<rparr>"
    and lt: "\<not> MAX_CONTINUATIONS \<le> gs_iterations (evaluated g reason (now 0))"
    using assms(3) by (simp_all add: evaluated_def MAX_CONTINUATIONS_def)
  have "memory.session_inv uuid (gw_session ?w)" using after_inv [OF assms(1)] by simp
  from memory.hook_apply_session [OF this assms(2), of now rid False reason]
  have "current_goal (mem_entries (gw_session w')) = Some (evaluated g reason (now 0)\<lparr>gs_status := Pursuing\<rparr>)"
    using lt by (simp add: eq)
  moreover have "continues d" using lt by (simp add: eq hook_apply_def Let_def continues_def)
  ultimately show ?thesis using g1 assms(2) by simp
qed

text \<open>
  Clearing a goal leaves its engine run running, and the next goal adopts it: the hook of the
  new goal works on the run that was planned, named and tasked for the goal that was cleared, and
  plans none of its own.
\<close>
theorem cleared_goal_run_adopted:
  assumes "inj uuid"
    and "goal_clear (memory_ops uuid) now (session_after uuid created tnow rs) = (Inr g1, s1)"
    and "goal_set (memory_ops uuid) now condition s1 = (Inr g2, s2)"
    and "find (\<lambda>r. r_kind r = Goal \<and> r_status r = DRunning \<and> r_session_id r = Some (sm_id (ms_metadata s2)))
           (list_runs e) = Some r"
  shows "\<exists>prompt w'. hook_begin (memory_ops uuid) now transcript True True \<lparr>gw_session = s2, gw_engine = e\<rparr> =
           (Evaluate g2 (Some (r_id r)) prompt, w') \<and> gw_engine w' = e \<and> gs_condition g2 = condition"
proof -
  from memory.goal_clear_eq [OF after_inv [OF assms(1)] assms(2)] have "memory.session_inv uuid s1" .
  from memory.goal_set_eq [OF this assms(3)]
  have s2: "memory.session_inv uuid s2" "current_goal (mem_entries s2) = Some g2" by auto
  have g2: "gs_status g2 = Pursuing" "gs_condition g2 = condition"
    using assms(3) by (auto simp: goal_set_def stored_def split: prod.splits sum.splits)
  have "session_id_from_harness (memory_ops uuid) s2 = (Some (sm_id (ms_metadata s2)), s2)"
    by (simp add: session_id_from_harness_def memory_ops_defs get_str_def)
  with assms(4) g2 s2 show ?thesis
    by (simp add: hook_begin_def memory.goal_current_eq mem_okI assms(1) ensure_goal_run_def Let_def)
qed

subsection \<open>Witnesses\<close>

definition goal_started :: "ustr \<Rightarrow> memory_storage" where
  "goal_started c = snd (goal_set (memory_ops show_nat) clock_t c sample_session)"

definition three_turns :: "(agent_message list \<times> (ustr \<Rightarrow> agent_run_result)) list" where
  "three_turns = replicate 3 ([], \<lambda>_. answered)"

lemma goal_started_eq:
  "goal_set (memory_ops show_nat) clock_t (lit ''c'') sample_session =
     (Inr \<lparr>gs_condition = lit ''c'', gs_status = Pursuing, gs_iterations = 0, gs_last_reason = None,
           gs_updated_at = lit ''t''\<rparr>, goal_started (lit ''c''))"
  by code_simp

lemma goal_loop_bounded_witness:
  "length (fst (goal_turns (memory_ops show_nat) not_yet clock_t True True three_turns
     \<lparr>gw_session = goal_started (lit ''c''), gw_engine = start_engine\<rparr>)) \<le> MAX_CONTINUATIONS"
  using goal_started_eq unfolding sample_session_def by (rule goal_loop_bounded [OF inj_show_nat])

definition limited_ops :: "session_op list" where
  "limited_ops = [OCustom GOAL_CUSTOM_TYPE (Some (goal_to_json (sample_goal BudgetLimited 8)))]"

lemma limited_current:
  "current_goal (mem_entries (session_after show_nat (lit ''t'') clock_t limited_ops)) = Some (sample_goal BudgetLimited 8)"
  by code_simp

definition limited_resumed :: "(ustr + goal_state) \<times> memory_storage" where
  "limited_resumed = goal_resume (memory_ops show_nat) clock_t (session_after show_nat (lit ''t'') clock_t limited_ops)"

lemma limited_resumed_eq:
  "goal_resume (memory_ops show_nat) clock_t (session_after show_nat (lit ''t'') clock_t limited_ops) =
     (Inr ((sample_goal BudgetLimited 8)\<lparr>gs_status := Pursuing, gs_updated_at := lit ''t''\<rparr>), snd limited_resumed)"
  by code_simp

lemma resume_does_not_renew_budget_witness:
  "length (fst (goal_turns (memory_ops show_nat) not_yet clock_t True True three_turns
     \<lparr>gw_session = snd limited_resumed, gw_engine = start_engine\<rparr>)) \<le> 1"
  by (rule resume_does_not_renew_budget [OF inj_show_nat limited_current _ limited_resumed_eq])
    (simp add: sample_goal_def MAX_CONTINUATIONS_def)

definition goal_planned :: "ustr \<times> engine" where
  "goal_planned = plan_goal (lit ''c'') None start_engine"

lemma goal_planned_reachable: "reachable (snd goal_planned)"
  unfolding goal_planned_def by (rule r_step [OF start_reachable s_plan_goal])

lemma goal_hook_engine_reachable_witness:
  "reachable (gw_engine (snd (hook_end (memory_ops show_nat) not_yet clock_t (sample_goal Pursuing 0) (Some (goal_id 1))
     answered \<lparr>gw_session = sample_session, gw_engine = snd goal_planned\<rparr>)))"
  using goal_hook_engine_reachable [of "\<lparr>gw_session = sample_session, gw_engine = snd goal_planned\<rparr>" "Some (goal_id 1)"
      "memory_ops show_nat" clock_t "[]" True True not_yet "sample_goal Pursuing 0" answered] goal_planned_reachable
  by (auto simp: goal_ref_def)

lemma goal_run_mirrors_witness:
  "\<exists>r'. get_run (gw_engine (snd (hook_end (memory_ops show_nat) not_yet clock_t (sample_goal Pursuing 0)
     (Some (goal_id 1)) answered \<lparr>gw_session = sample_session, gw_engine = snd goal_planned\<rparr>))) (goal_id 1) = Some r' \<and>
     r_status r' = DRunning"
proof -
  let ?w = "\<lparr>gw_session = sample_session, gw_engine = snd goal_planned\<rparr>"
  let ?h = "hook_end (memory_ops show_nat) not_yet clock_t (sample_goal Pursuing 0) (Some (goal_id 1)) answered ?w"
  have r: "get_run (gw_engine ?w) (goal_id 1) = Some (goal_run 0 (lit ''c'') None (goal_id 1))"
    by (simp add: goal_planned_def plan_goal_def Let_def start_engine_def set_launcher_def new_engine_def)
  have c: "continues (fst ?h)" by code_simp
  then obtain d p where d: "?h = (Some d, snd ?h)" "te_action d = Continue p"
    by (cases ?h) (auto simp: continues_def split: option.splits turn_end_action.splits)
  from goal_run_mirrors [OF _ r _ _ d(1)] goal_planned_reachable d(2) show ?thesis
    by (simp add: goal_run_def)
qed


text \<open>A session whose goal is cleared during its evaluation, and what the hook leaves.\<close>

definition cleared_ops :: "session_op list" where
  "cleared_ops = [OCustom GOAL_CUSTOM_TYPE (Some (goal_to_json (sample_goal Pursuing 2))),
                  OCustom GOAL_CUSTOM_TYPE (Some (goal_to_json (sample_goal Cleared 2)))]"

definition cleared_session :: memory_storage where
  "cleared_session = session_after show_nat (lit ''t'') clock_t cleared_ops"

lemma cleared_goal_resurrected_witness:
  "current_goal (mem_entries cleared_session) = None \<and>
   map_option gs_iterations (current_goal (mem_entries (gw_session (snd
     (hook_end (memory_ops show_nat) not_yet clock_t (sample_goal Pursuing 2) None answered
        \<lparr>gw_session = cleared_session, gw_engine = start_engine\<rparr>))))) = Some 3"
proof
  show "current_goal (mem_entries cleared_session) = None" by code_simp
  have p: "parse_decision not_yet (ar_text answered) = Some (Inr (False, lit ''not yet''))" by code_simp
  have "gs_status (sample_goal Pursuing 2) = Pursuing" "gs_iterations (sample_goal Pursuing 2) + 1 < MAX_CONTINUATIONS"
    "ar_success answered" "ar_error answered = None"
    by (simp_all add: sample_goal_def MAX_CONTINUATIONS_def answered_def)
  from cleared_goal_resurrected [OF inj_show_nat this p surjective_pairing]
  show "map_option gs_iterations (current_goal (mem_entries (gw_session (snd
     (hook_end (memory_ops show_nat) not_yet clock_t (sample_goal Pursuing 2) None answered
        \<lparr>gw_session = cleared_session, gw_engine = start_engine\<rparr>))))) = Some 3"
    unfolding cleared_session_def by (simp add: sample_goal_def)
qed

definition planned_first :: engine where
  "planned_first = snd (plan_goal (lit ''first'') (Some (show_nat 0)) start_engine)"

definition recleared :: "(ustr + goal_state) \<times> memory_storage" where
  "recleared = goal_clear (memory_ops show_nat) clock_t cleared_session"

definition second_set :: "(ustr + goal_state) \<times> memory_storage" where
  "second_set = goal_set (memory_ops show_nat) clock_t (lit ''second'') (snd recleared)"

lemma second_set_ok:
  "fst recleared = Inr \<lparr>gs_condition = [], gs_status = Cleared, gs_iterations = 0, gs_last_reason = None,
                        gs_updated_at = lit ''t''\<rparr> \<and>
   fst second_set = Inr \<lparr>gs_condition = lit ''second'', gs_status = Pursuing, gs_iterations = 0,
                         gs_last_reason = None, gs_updated_at = lit ''t''\<rparr> \<and>
   sm_id (ms_metadata (snd second_set)) = show_nat 0"
  by code_simp

lemma planned_first_runs: "list_runs planned_first = [goal_run 0 (lit ''first'') (Some (show_nat 0)) (goal_id 1)]"
  by (simp add: planned_first_def plan_goal_def Let_def list_runs_def start_engine_def set_launcher_def new_engine_def)

lemma cleared_goal_run_adopted_witness:
  "\<exists>g prompt w'. hook_begin (memory_ops show_nat) clock_t [] True True
     \<lparr>gw_session = snd second_set, gw_engine = planned_first\<rparr> = (Evaluate g (Some (goal_id 1)) prompt, w') \<and>
     gw_engine w' = planned_first \<and> gs_condition g = lit ''second''"
proof -
  from second_set_ok obtain g1 g2 where e: "goal_clear (memory_ops show_nat) clock_t cleared_session = (Inr g1, snd recleared)"
    "goal_set (memory_ops show_nat) clock_t (lit ''second'') (snd recleared) = (Inr g2, snd second_set)"
    by (metis recleared_def second_set_def surjective_pairing)
  have "find (\<lambda>r. r_kind r = Goal \<and> r_status r = DRunning \<and> r_session_id r = Some (sm_id (ms_metadata (snd second_set))))
      (list_runs planned_first) = Some (goal_run 0 (lit ''first'') (Some (show_nat 0)) (goal_id 1))"
    using second_set_ok by (simp add: planned_first_runs goal_run_def)
  from cleared_goal_run_adopted [OF inj_show_nat e(1) [unfolded cleared_session_def] e(2) this, of "[]"]
  have "\<exists>prompt w'. hook_begin (memory_ops show_nat) clock_t [] True True
      \<lparr>gw_session = snd second_set, gw_engine = planned_first\<rparr> =
        (Evaluate g2 (Some (r_id (goal_run 0 (lit ''first'') (Some (show_nat 0)) (goal_id 1)))) prompt, w') \<and>
      gw_engine w' = planned_first \<and> gs_condition g2 = lit ''second''" .
  moreover have "r_id (goal_run 0 (lit ''first'') (Some (show_nat 0)) (goal_id 1)) = goal_id 1"
    by (simp add: goal_run_def)
  ultimately show ?thesis by metis
qed

end
