(* ===== verification/Context_Transform.thy ===== *)
theory Context_Transform
  imports Messages "HOL-Library.Code_Target_Numeral"
begin

text \<open>
  The tool-result virtualization of \<^verbatim>\<open>crates/theway-core/src/agent/context/transform.rs\<close>: large
  stored tool results are replaced by a placeholder before a model request is built. The value of
  the environment variable is an argument; \<open>usize\<close> is 64 bits wide.
\<close>

definition TOOL_RESULT_VIRTUALIZATION_MAX_CHARS :: nat where
  "TOOL_RESULT_VIRTUALIZATION_MAX_CHARS = 20000"

definition TOOL_RESULT_TAIL_PREVIEW_LINES :: nat where
  "TOOL_RESULT_TAIL_PREVIEW_LINES = 5"

definition TOOL_RESULT_TAIL_PREVIEW_LINE_CHARS :: nat where
  "TOOL_RESULT_TAIL_PREVIEW_LINE_CHARS = 200"

definition TOOL_RESULT_FRONT_PREVIEW_CHARS :: nat where
  "TOOL_RESULT_FRONT_PREVIEW_CHARS = 200"

lemmas preview_constants = TOOL_RESULT_TAIL_PREVIEW_LINES_def TOOL_RESULT_TAIL_PREVIEW_LINE_CHARS_def
  TOOL_RESULT_FRONT_PREVIEW_CHARS_def

definition effective_max_chars :: "ustr option \<Rightarrow> nat" where
  "effective_max_chars var =
     (case Option.bind var (\<lambda>value. parse_u64 (trim value)) of
        Some value \<Rightarrow> if value > 0 then value else TOOL_RESULT_VIRTUALIZATION_MAX_CHARS
      | None \<Rightarrow> TOOL_RESULT_VIRTUALIZATION_MAX_CHARS)"

definition tool_result_text :: "tool_result_message \<Rightarrow> ustr" where
  "tool_result_text result =
     (case Option.bind (tr_details result) (\<lambda>d. Option.bind (json_get d (lit ''full_text'')) json_str) of
        Some full \<Rightarrow> full
      | None \<Rightarrow> join [10] (block_texts (tr_content result)))"

text \<open>\<open>head\<close> followed by an ellipsis where the text is cut.\<close>

definition front_preview :: "ustr \<Rightarrow> nat \<Rightarrow> ustr" where
  "front_preview t max_chars = (if length t \<le> max_chars then t else take max_chars t @ [8230])"

text \<open>\<open>str::split_inclusive\<close> at newlines.\<close>

fun split_inclusive :: "ustr \<Rightarrow> ustr list" where
  "split_inclusive [] = []"
| "split_inclusive (c # cs) =
     (if c = 10 then [c] # split_inclusive cs
      else case split_inclusive cs of [] \<Rightarrow> [[c]] | l # ls \<Rightarrow> (c # l) # ls)"

definition count_lines :: "ustr \<Rightarrow> nat" where
  "count_lines t = length (split_inclusive t)"

definition truncate_preview_line :: "ustr \<Rightarrow> nat \<Rightarrow> ustr" where
  "truncate_preview_line line max_chars =
     (if length line \<le> max_chars then line else take max_chars line @ [8230])"

definition tail_preview :: "ustr \<Rightarrow> nat \<Rightarrow> nat \<Rightarrow> ustr" where
  "tail_preview t max_lines max_chars =
     (let lines = split_inclusive t;
          tail = rev (take max_lines (rev lines))
      in concat (map (\<lambda>line. truncate_preview_line line max_chars) tail))"

fun first_code :: "json \<Rightarrow> ustr list \<Rightarrow> ustr option" where
  "first_code details [] = None"
| "first_code details (key # ks) =
     (case json_get details key of
        None \<Rightarrow> first_code details ks
      | Some value \<Rightarrow>
          (case json_i64 value of
             Some code \<Rightarrow> Some (show_int code)
           | None \<Rightarrow>
               (case json_u64 value of
                  Some code \<Rightarrow> Some (show_int code)
                | None \<Rightarrow> first_code details ks)))"

definition exit_code :: "tool_result_message \<Rightarrow> ustr" where
  "exit_code result =
     (case Option.bind (tr_details result) (\<lambda>d. first_code d [lit ''exitCode'', lit ''exit_code'']) of
        Some code \<Rightarrow> code
      | None \<Rightarrow> if tr_is_error result then lit ''1'' else lit ''0'')"

definition placeholder :: "tool_result_message \<Rightarrow> ustr \<Rightarrow> ustr" where
  "placeholder result full_text =
     lit ''[tool_result '' @ tr_tool_name result @ lit '' '' @ tr_tool_call_id result @ lit '': '' @
     show_nat (length full_text) @ lit '' / '' @ show_nat (count_lines full_text) @ lit '', exit '' @
     exit_code result @ lit ''; front: '' @ front_preview full_text TOOL_RESULT_FRONT_PREVIEW_CHARS @
     lit ''; tail: '' @
     tail_preview full_text TOOL_RESULT_TAIL_PREVIEW_LINES TOOL_RESULT_TAIL_PREVIEW_LINE_CHARS @ lit '']''"

definition virtualize_tool_result :: "tool_result_message \<Rightarrow> nat \<Rightarrow> tool_result_message" where
  "virtualize_tool_result result max_chars =
     (let full_text = tool_result_text result
      in if length full_text \<le> max_chars then result
         else result\<lparr>tr_content := [user_text (placeholder result full_text)]\<rparr>)"

fun virtualize_message :: "nat \<Rightarrow> agent_message \<Rightarrow> agent_message" where
  "virtualize_message max_chars (Llm (ToolResult result)) =
     Llm (ToolResult (virtualize_tool_result result max_chars))"
| "virtualize_message max_chars other = other"

definition virtualize_tool_results_with_max_chars :: "agent_message list \<Rightarrow> nat \<Rightarrow> agent_message list" where
  "virtualize_tool_results_with_max_chars messages max_chars = map (virtualize_message max_chars) messages"

definition virtualize_tool_results :: "ustr option \<Rightarrow> agent_message list \<Rightarrow> agent_message list" where
  "virtualize_tool_results var messages =
     virtualize_tool_results_with_max_chars messages (effective_max_chars var)"

subsection \<open>The size of a placeholder\<close>

lemma concat_split_inclusive [simp]: "concat (split_inclusive t) = t"
  by (induction t) (auto split: list.splits)

lemma split_inclusive_nonempty: "l \<in> set (split_inclusive t) \<Longrightarrow> l \<noteq> []"
  by (induction t arbitrary: l) (auto split: list.splits if_splits)

lemma length_le_concat: "(\<And>l. l \<in> set ls \<Longrightarrow> l \<noteq> []) \<Longrightarrow> length ls \<le> length (concat ls)"
proof (induction ls)
  case (Cons l ls)
  from Cons.prems [of l] have "1 \<le> length l" by (cases l) auto
  moreover from Cons have "length ls \<le> length (concat ls)" by simp
  ultimately show ?case by simp
qed simp

lemma count_lines_le: "count_lines t \<le> length t"
  using length_le_concat [of "split_inclusive t"] split_inclusive_nonempty [of _ t]
  by (auto simp: count_lines_def)

lemma show_nat_length: "n < 10 ^ Suc k \<Longrightarrow> length (show_nat n) \<le> Suc k"
proof (induction k arbitrary: n)
  case 0
  then show ?case by (subst show_nat.simps) simp
next
  case (Suc k)
  from Suc.prems have "n div 10 < 10 ^ Suc k" by (simp add: less_mult_imp_div_less)
  from Suc.IH [OF this] show ?case by (subst show_nat.simps) simp
qed

lemma show_nat_u64: "n < 2 ^ 64 \<Longrightarrow> length (show_nat n) \<le> 20"
  using show_nat_length [of n 19] by simp

lemma front_preview_length: "length (front_preview t n) \<le> n + 1"
  by (simp add: front_preview_def)

lemma truncate_length: "length (truncate_preview_line l n) \<le> n + 1"
  by (simp add: truncate_preview_line_def)

lemma length_concat_le:
  "(\<And>x. x \<in> set xs \<Longrightarrow> length (f x) \<le> k) \<Longrightarrow> length (concat (map f xs)) \<le> length xs * (k::nat)"
  by (induction xs) (auto simp: add_mono)

lemma tail_preview_length: "length (tail_preview t m n) \<le> m * (n + 1)"
proof -
  have "length (concat (map (\<lambda>l. truncate_preview_line l n) ls)) \<le> length ls * (n + 1)" for ls
    by (rule length_concat_le) (rule truncate_length)
  also have "length (rev (take m (rev (split_inclusive t)))) * (n + 1) \<le> m * (n + 1)"
    by (rule mult_le_mono1) simp
  finally show ?thesis by (simp add: tail_preview_def Let_def del: mult_Suc_right)
qed

lemma show_int_length: "- (2 ^ 64) < i \<Longrightarrow> i < 2 ^ 64 \<Longrightarrow> length (show_int i) \<le> 21"
  using show_nat_u64 [of "nat (- i)"] show_nat_u64 [of "nat i"]
  by (auto simp: show_int_def nat_less_iff)

lemma json_i64_bound: "json_i64 v = Some c \<Longrightarrow> length (show_int c) \<le> 21"
  by (cases v) (auto split: if_splits intro!: show_int_length)

lemma json_u64_bound: "json_u64 v = Some c \<Longrightarrow> length (show_int c) \<le> 21"
  by (cases v) (auto split: if_splits intro!: show_int_length)

lemma first_code_length: "first_code d ks = Some c \<Longrightarrow> length c \<le> 21"
  by (induction d ks rule: first_code.induct)
    (auto split: option.splits dest: json_i64_bound json_u64_bound)

lemma exit_code_length: "length (exit_code r) \<le> 21"
proof (cases "Option.bind (tr_details r) (\<lambda>d. first_code d [lit ''exitCode'', lit ''exit_code''])")
  case None
  then show ?thesis by (simp add: exit_code_def del: first_code.simps)
next
  case (Some c)
  then have "length c \<le> 21"
    by (auto simp del: first_code.simps simp: bind_eq_Some_conv intro: first_code_length)
  then show ?thesis using Some by (simp add: exit_code_def del: first_code.simps)
qed

lemma placeholder_length:
  assumes "length full < 2 ^ 64"
  shows "length (placeholder r full) \<le> length (tr_tool_name r) + length (tr_tool_call_id r) + 1311"
  using assms count_lines_le [of full] show_nat_u64 [of "length full"] show_nat_u64 [of "count_lines full"]
    exit_code_length [of r] front_preview_length [of full 200] tail_preview_length [of full 5 200]
  by (simp add: placeholder_def preview_constants)

subsection \<open>Properties\<close>

text \<open>What a provider matches a tool result by, and what a transform must leave alone.\<close>

fun message_key :: "agent_message \<Rightarrow> agent_message" where
  "message_key (Llm (ToolResult r)) = Llm (ToolResult (r\<lparr>tr_content := []\<rparr>))"
| "message_key m = m"

text \<open>
  Virtualization keeps the pairing of tool calls and results: no message is added, dropped or
  reordered, only the content of tool results can change, and not that of a result whose text is
  within the threshold.
\<close>
theorem virtualize_keeps_pairing:
  "map message_key (virtualize_tool_results var ms) = map message_key ms \<and>
   list_all2 (\<lambda>m m'. m' = m \<or>
       (case m of Llm (ToolResult r) \<Rightarrow> effective_max_chars var < length (tool_result_text r) | _ \<Rightarrow> False))
     ms (virtualize_tool_results var ms)"
proof
  have "message_key (virtualize_message k m) = message_key m" for k m
    by (cases "(k, m)" rule: virtualize_message.cases) (auto simp: virtualize_tool_result_def Let_def)
  then show "map message_key (virtualize_tool_results var ms) = map message_key ms"
    by (simp add: virtualize_tool_results_def virtualize_tool_results_with_max_chars_def)
next
  have "virtualize_message k m = m \<or>
      (case m of Llm (ToolResult r) \<Rightarrow> k < length (tool_result_text r) | _ \<Rightarrow> False)" for k m
    by (cases "(k, m)" rule: virtualize_message.cases) (auto simp: virtualize_tool_result_def Let_def)
  then show "list_all2 (\<lambda>m m'. m' = m \<or>
       (case m of Llm (ToolResult r) \<Rightarrow> effective_max_chars var < length (tool_result_text r) | _ \<Rightarrow> False))
     ms (virtualize_tool_results var ms)"
    by (simp add: virtualize_tool_results_def virtualize_tool_results_with_max_chars_def list_all2_conv_all_nth)
qed

lemma content_text_placeholder: "block_texts [user_text t] = [t]"
  by (simp add: block_texts_def user_text_def List.map_filter_def)

text \<open>
  A threshold that leaves room for the names (and the default does for names of up to 18,000
  characters) makes virtualization idempotent: a virtualized result is not virtualized again.
\<close>
theorem virtualize_idempotent:
  assumes "length (tool_result_text r) < 2 ^ 64"
    and "length (tr_tool_name r) + length (tr_tool_call_id r) + 1311 \<le> k"
  shows "virtualize_tool_result (virtualize_tool_result r k) k = virtualize_tool_result r k"
proof (cases "length (tool_result_text r) \<le> k")
  case True
  then show ?thesis by (simp add: virtualize_tool_result_def)
next
  case False
  define v where "v = virtualize_tool_result r k"
  with False have v: "v = r\<lparr>tr_content := [user_text (placeholder r (tool_result_text r))]\<rparr>"
    by (simp add: virtualize_tool_result_def Let_def)
  show ?thesis
  proof (cases "Option.bind (tr_details r) (\<lambda>d. Option.bind (json_get d (lit ''full_text'')) json_str)")
    case None
    then have "tool_result_text v = placeholder r (tool_result_text r)"
      unfolding v by (simp add: tool_result_text_def content_text_placeholder)
    then show ?thesis
      using placeholder_length [OF assms(1), of r] assms(2)
      by (simp add: v_def [symmetric]) (simp add: virtualize_tool_result_def)
  next
    case (Some t)
    then have "tool_result_text v = tool_result_text r"
      unfolding v by (simp add: tool_result_text_def)
    moreover have "placeholder v t = placeholder r t" for t
      unfolding v by (simp add: placeholder_def exit_code_def)
    ultimately have "virtualize_tool_result v k = v"
      using v False by (simp add: virtualize_tool_result_def Let_def)
    then show ?thesis by (simp add: v_def)
  qed
qed

definition sample_result :: tool_result_message where
  "sample_result = \<lparr>tr_tool_call_id = lit ''c1'', tr_tool_name = lit ''bash'',
     tr_content = [user_text (replicate 1400 97)], tr_details = None, tr_is_error = False, tr_timestamp = 0\<rparr>"

lemma sample_text: "tool_result_text sample_result = replicate 1400 97"
  by (simp add: tool_result_text_def sample_result_def content_text_placeholder)

lemma virtualize_idempotent_witness:
  "virtualize_tool_result (virtualize_tool_result sample_result 1350) 1350 = virtualize_tool_result sample_result 1350 \<and>
   length (tool_result_text (virtualize_tool_result sample_result 1350)) < length (tool_result_text sample_result)"
proof
  show "virtualize_tool_result (virtualize_tool_result sample_result 1350) 1350 =
      virtualize_tool_result sample_result 1350"
    by (rule virtualize_idempotent) (simp_all add: sample_text, simp add: sample_result_def)
  have "virtualize_tool_result sample_result 1350 =
      sample_result\<lparr>tr_content := [user_text (placeholder sample_result (replicate 1400 97))]\<rparr>"
    by (simp add: virtualize_tool_result_def sample_text)
  then have "tool_result_text (virtualize_tool_result sample_result 1350) =
      placeholder sample_result (replicate 1400 97)"
    by (simp add: tool_result_text_def content_text_placeholder sample_result_def)
  then show "length (tool_result_text (virtualize_tool_result sample_result 1350)) < length (tool_result_text sample_result)"
    using placeholder_length [of "replicate 1400 97" sample_result]
    by (simp add: sample_text) (simp add: sample_result_def)
qed

end
