(* ===== verification/Permission.thy ===== *)
theory Permission
  imports Json "HOL-Library.Code_Target_Numeral"
begin

text \<open>
  The permission evaluator for tool calls, \<^verbatim>\<open>crates/theway-core/src/agent/permission.rs\<close>: shell
  commands are checked against token-aware rules for \<open>rm\<close> and a set of regular expressions. The
  regular-expression engine is third-party code: \<open>is_match pattern text\<close> is a parameter. The
  separators the code looks for are ASCII, so its byte indices are modelled on characters.
\<close>

datatype permission_decision = Allow | Deny ustr

datatype permission_category = CTool | ControlPlaneWrite

record permission_policy =
  pp_bash_tool_names :: "ustr list"
  pp_danger_patterns :: "(ustr \<times> ustr) list" \<comment> \<open>label, regular expression\<close>

subsection \<open>Splitting a command\<close>

text \<open>The separators are the semicolon (59), the double ampersand (38) and the single or double bar (124).\<close>

function split_loop :: "ustr \<Rightarrow> ustr \<Rightarrow> ustr list" where
  "split_loop cur [] = [trim (rev cur)]"
| "split_loop cur (c # cs) =
     (if c = 59 then trim (rev cur) # split_loop [] cs
      else if (c = 38 \<or> c = 124) \<and> take 1 cs = [c] then trim (rev cur) # split_loop [] (tl cs)
      else if c = 124 then trim (rev cur) # split_loop [] cs
      else split_loop (c # cur) cs)"
  by pat_completeness auto
termination by (relation "measure (\<lambda>(cur, s). length s)") auto

definition split_shell_clauses :: "ustr \<Rightarrow> ustr list" where
  "split_shell_clauses cmd = filter (\<lambda>s. s \<noteq> []) (split_loop [] cmd)"

text \<open>\<open>str::split_whitespace\<close>.\<close>

fun ws_loop :: "ustr \<Rightarrow> ustr \<Rightarrow> ustr list" where
  "ws_loop cur [] = (if cur = [] then [] else [rev cur])"
| "ws_loop cur (c # cs) =
     (if is_whitespace c then (if cur = [] then ws_loop [] cs else rev cur # ws_loop [] cs)
      else ws_loop (c # cur) cs)"

definition split_whitespace :: "ustr \<Rightarrow> ustr list" where
  "split_whitespace s = ws_loop [] s"

subsection \<open>Operands\<close>

definition strip_one_layer_of_quotes :: "ustr \<Rightarrow> ustr" where
  "strip_one_layer_of_quotes raw =
     (if 2 \<le> length raw \<and> (hd raw = 34 \<and> last raw = 34 \<or> hd raw = 39 \<and> last raw = 39)
      then butlast (tl raw) else raw)"

definition rewrite_brace_home :: "ustr \<Rightarrow> ustr" where
  "rewrite_brace_home raw =
     (case strip_prefix (lit ''${HOME}'') raw of Some rest \<Rightarrow> lit ''$HOME'' @ rest | None \<Rightarrow> raw)"

definition normalize_operand :: "ustr \<Rightarrow> ustr" where
  "normalize_operand raw = rewrite_brace_home (strip_one_layer_of_quotes raw)"

subsection \<open>The rules for rm\<close>

text \<open>The program name without its path: what follows the last slash.\<close>

definition program_name :: "ustr \<Rightarrow> ustr" where
  "program_name w = rev (takeWhile (\<lambda>c. c \<noteq> 47) (rev w))"

text \<open>One token after the program: the flags seen so far and the operands.\<close>

fun scan_token :: "ustr \<Rightarrow> bool \<times> bool \<times> ustr list \<Rightarrow> bool \<times> bool \<times> ustr list" where
  "scan_token tok (has_recursive, has_force, operands) =
     (case strip_prefix (lit ''--'') tok of
        Some long \<Rightarrow>
          if long = lit ''recursive'' then (True, has_force, operands)
          else if long = lit ''force'' then (has_recursive, True, operands)
          else (has_recursive, has_force, operands)
      | None \<Rightarrow>
          (case strip_prefix (lit ''-'') tok of
             Some short \<Rightarrow>
               if short = [] then (has_recursive, has_force, operands @ [normalize_operand tok])
               else (has_recursive \<or> 114 \<in> set short \<or> 82 \<in> set short, has_force \<or> 102 \<in> set short, operands)
           | None \<Rightarrow> (has_recursive, has_force, operands @ [normalize_operand tok])))"

definition clause_dangerous :: "(ustr \<Rightarrow> bool) \<Rightarrow> ustr \<Rightarrow> bool" where
  "clause_dangerous target_matches clause =
     (case split_whitespace clause of
        [] \<Rightarrow> False
      | first # rest \<Rightarrow>
          if program_name first \<noteq> lit ''rm'' then False
          else (case fold scan_token rest (False, False, []) of
                  (has_recursive, has_force, operands) \<Rightarrow>
                    has_recursive \<and> has_force \<and> list_ex target_matches operands))"

definition rm_dangerous_with :: "ustr \<Rightarrow> (ustr \<Rightarrow> bool) \<Rightarrow> bool" where
  "rm_dangerous_with cmd target_matches = list_ex (clause_dangerous target_matches) (split_shell_clauses cmd)"

definition absolute_target :: "ustr \<Rightarrow> bool" where
  "absolute_target operand \<longleftrightarrow> operand = lit ''/'' \<or> starts_with operand (lit ''/'')"

definition home_target :: "ustr \<Rightarrow> bool" where
  "home_target operand \<longleftrightarrow>
     operand = lit ''~'' \<or> starts_with operand (lit ''~/'') \<or>
     operand = lit ''$HOME'' \<or> starts_with operand (lit ''$HOME/'')"

definition rm_recursive_force_on_absolute_target :: "ustr \<Rightarrow> bool" where
  "rm_recursive_force_on_absolute_target cmd = rm_dangerous_with cmd absolute_target"

definition rm_recursive_force_on_home_target :: "ustr \<Rightarrow> bool" where
  "rm_recursive_force_on_home_target cmd = rm_dangerous_with cmd home_target"

definition default_predicate_rules :: "(ustr \<times> (ustr \<Rightarrow> bool)) list" where
  "default_predicate_rules =
     [(lit ''rm recursive+force on absolute path'', rm_recursive_force_on_absolute_target),
      (lit ''rm recursive+force on $HOME or ~'', rm_recursive_force_on_home_target)]"

text \<open>The regular expressions, written with a percent sign for the backslash.\<close>

definition rx :: "string \<Rightarrow> ustr" where
  "rx s = map (\<lambda>c. if c = 37 then 92 else c) (lit s)"

definition default_danger_patterns :: "(ustr \<times> ustr) list" where
  "default_danger_patterns =
     [(lit ''sudo invocation'', rx ''%bsudo%b''),
      (lit ''curl/wget piped into shell'', rx ''%b(curl|wget)%b[^|]*%|%s*(bash|sh|zsh|fish)%b''),
      (lit ''dd writing to a block device'', rx ''%bdd%b[^%n]*%bof=/dev/(disk|sd[a-z]|nvme|hd[a-z])''),
      (lit ''mkfs / format command'', rx ''%bmkfs(%.|%s)''),
      (lit ''chmod 777 on absolute path'', rx ''%bchmod%b%s+777%s+/''),
      (lit ''shutdown / reboot / halt'', rx ''%b(shutdown|reboot|halt|poweroff)%b''),
      (lit ''git push --force on main/master'', rx ''%bgit%s+push%s+(--force|-f)%b[^%n]*%b(main|master)%b''),
      (lit ''piping into eval'', rx ''%|%s*eval%b''),
      (lit '':(){:|:&};: forkbomb'', rx '':%(%)%s*%{%s*:%|:&%s*%}%s*;%s*:'')]"

definition default_for_coding_agent :: permission_policy where
  "default_for_coding_agent =
     \<lparr>pp_bash_tool_names = [lit ''bash''], pp_danger_patterns = default_danger_patterns\<rparr>"

subsection \<open>Evaluation\<close>

fun first_command :: "json \<Rightarrow> ustr list \<Rightarrow> ustr option" where
  "first_command args [] = None"
| "first_command args (key # ks) =
     (case Option.bind (json_get args key) json_str of
        Some s \<Rightarrow> if is_blank s then first_command args ks else Some s
      | None \<Rightarrow> first_command args ks)"

definition extract_shell_command :: "json \<Rightarrow> ustr option" where
  "extract_shell_command args =
     (case first_command args [lit ''command'', lit ''cmd'', lit ''bash'', lit ''script''] of
        Some s \<Rightarrow> Some s
      | None \<Rightarrow>
          (case json_str args of
             Some s \<Rightarrow> if is_blank s then None else Some s
           | None \<Rightarrow> None))"

definition denied :: "ustr \<Rightarrow> permission_decision" where
  "denied label = Deny (lit ''denied by permission policy: '' @ label)"

definition evaluate_with_category ::
  "(ustr \<Rightarrow> ustr \<Rightarrow> bool) \<Rightarrow> permission_policy \<Rightarrow> permission_category \<Rightarrow> ustr \<Rightarrow> json \<Rightarrow> permission_decision" where
  "evaluate_with_category is_match policy category tool_name args =
     (if category = ControlPlaneWrite then Allow
      else if tool_name \<notin> set (pp_bash_tool_names policy) then Allow
      else
        (case extract_shell_command args of
           None \<Rightarrow> Allow
         | Some cmd \<Rightarrow>
             (case find (\<lambda>(label, check). check cmd) default_predicate_rules of
                Some (label, _) \<Rightarrow> denied label
              | None \<Rightarrow>
                  (case find (\<lambda>(label, pattern). is_match pattern cmd) (pp_danger_patterns policy) of
                     None \<Rightarrow> Allow
                   | Some (label, _) \<Rightarrow> denied label))))"

definition evaluate :: "(ustr \<Rightarrow> ustr \<Rightarrow> bool) \<Rightarrow> permission_policy \<Rightarrow> ustr \<Rightarrow> json \<Rightarrow> permission_decision" where
  "evaluate is_match policy tool_name args = evaluate_with_category is_match policy CTool tool_name args"

record before_tool_call_result =
  bt_block :: bool
  bt_reason :: "ustr option"

definition as_before_tool_call ::
  "(ustr \<Rightarrow> ustr \<Rightarrow> bool) \<Rightarrow> permission_policy \<Rightarrow> ustr \<Rightarrow> json \<Rightarrow> before_tool_call_result" where
  "as_before_tool_call is_match policy tool_name args =
     (case evaluate is_match policy tool_name args of
        Allow \<Rightarrow> \<lparr>bt_block = False, bt_reason = None\<rparr>
      | Deny reason \<Rightarrow> \<lparr>bt_block = True, bt_reason = Some reason\<rparr>)"

subsection \<open>What the rules for rm accept\<close>

text \<open>A declarative reading of a dangerous clause, with no order among the tokens.\<close>

definition recursive_flag :: "ustr \<Rightarrow> bool" where
  "recursive_flag tok \<longleftrightarrow>
     tok = lit ''--recursive'' \<or>
     (\<not> starts_with tok (lit ''--'') \<and> starts_with tok (lit ''-'') \<and> (114 \<in> set tok \<or> 82 \<in> set tok))"

definition force_flag :: "ustr \<Rightarrow> bool" where
  "force_flag tok \<longleftrightarrow>
     tok = lit ''--force'' \<or>
     (\<not> starts_with tok (lit ''--'') \<and> starts_with tok (lit ''-'') \<and> 102 \<in> set tok)"

definition is_operand :: "ustr \<Rightarrow> bool" where
  "is_operand tok \<longleftrightarrow> tok = lit ''-'' \<or> \<not> starts_with tok (lit ''-'')"

definition dangerous_rm :: "(ustr \<Rightarrow> bool) \<Rightarrow> ustr list \<Rightarrow> bool" where
  "dangerous_rm target toks \<longleftrightarrow>
     toks \<noteq> [] \<and> program_name (hd toks) = lit ''rm'' \<and>
     list_ex recursive_flag (tl toks) \<and> list_ex force_flag (tl toks) \<and>
     list_ex (\<lambda>t. is_operand t \<and> target (normalize_operand t)) (tl toks)"

lemma dash_prefix: "strip_prefix (lit ''-'') t = (case t of c # cs \<Rightarrow> if c = 45 then Some cs else None | [] \<Rightarrow> None)"
  by (cases t) (auto simp: lit_def)

lemma dashes_prefix:
  "strip_prefix (lit ''--'') t = (case t of c # d # cs \<Rightarrow> if c = 45 \<and> d = 45 then Some cs else None | _ \<Rightarrow> None)"
  by (cases t; cases "tl t") (auto simp: lit_def)

lemma scan_token_eq:
  "scan_token t (r, f, ops) =
     (r \<or> recursive_flag t, f \<or> force_flag t, ops @ (if is_operand t then [normalize_operand t] else []))"
proof -
  consider "t = []" | c where "t = [c]" | c d cs where "t = c # d # cs" by (metis neq_Nil_conv)
  then show ?thesis
    by cases (auto simp: recursive_flag_def force_flag_def is_operand_def starts_with_def dash_prefix dashes_prefix
        lit_def split: if_splits)
qed

lemma fold_scan_token:
  "fold scan_token toks (r, f, ops) =
     (r \<or> list_ex recursive_flag toks, f \<or> list_ex force_flag toks,
      ops @ map normalize_operand (filter is_operand toks))"
  by (induction toks arbitrary: r f ops) (auto simp: scan_token_eq simp del: scan_token.simps)

lemma clause_dangerous_iff: "clause_dangerous target clause \<longleftrightarrow> dangerous_rm target (split_whitespace clause)"
  by (cases "split_whitespace clause")
    (auto simp: clause_dangerous_def dangerous_rm_def fold_scan_token list_ex_iff)

text \<open>
  A sequence of clauses: each clause but the first follows one of the four separators. A plain clause holds
  none of them: no semicolon, no bar, no two ampersands in a row and none at its end.
\<close>

definition separators :: "ustr list" where
  "separators = [lit '';'', lit ''&&'', lit ''||'', lit ''|'']"

fun plain_clause :: "ustr \<Rightarrow> bool" where
  "plain_clause [] \<longleftrightarrow> True"
| "plain_clause [c] \<longleftrightarrow> c \<noteq> 59 \<and> c \<noteq> 38 \<and> c \<noteq> 124"
| "plain_clause (c # d # s) \<longleftrightarrow> c \<noteq> 59 \<and> c \<noteq> 124 \<and> \<not> (c = 38 \<and> d = 38) \<and> plain_clause (d # s)"

fun joined :: "ustr \<Rightarrow> (ustr \<times> ustr) list \<Rightarrow> ustr" where
  "joined c [] = c"
| "joined c ((sep, d) # rest) = c @ sep @ joined d rest"

definition clause_sequence :: "ustr \<Rightarrow> (ustr \<times> ustr) list \<Rightarrow> bool" where
  "clause_sequence c rest \<longleftrightarrow>
     c \<noteq> [] \<and> plain_clause c \<and> list_all (\<lambda>(sep, d). sep \<in> set separators \<and> d \<noteq> [] \<and> plain_clause d) rest"

lemma split_plain: "plain_clause c \<Longrightarrow> split_loop cur c = [trim (rev cur @ c)]"
  by (induction c arbitrary: cur rule: plain_clause.induct) auto

lemma split_plain_separator:
  assumes "plain_clause c" "sep \<in> set separators" "take 1 rest \<noteq> [124]"
  shows "split_loop cur (c @ sep @ rest) = trim (rev cur @ c) # split_loop [] rest"
  using assms(1)
proof (induction c arbitrary: cur rule: plain_clause.induct)
  case 1
  from assms(2,3) show ?case by (auto simp: separators_def lit_def)
next
  case (2 c)
  from assms(2,3) have "split_loop (c # cur) (sep @ rest) = trim (rev (c # cur)) # split_loop [] rest"
    by (auto simp: separators_def lit_def)
  with 2 show ?case by simp
next
  case (3 c d s)
  then have "split_loop (c # cur) ((d # s) @ sep @ rest) = trim (rev (c # cur) @ d # s) # split_loop [] rest" by simp
  moreover have "split_loop cur ((c # d # s) @ sep @ rest) = split_loop (c # cur) ((d # s) @ sep @ rest)"
    using 3(2) by (subst append_Cons, subst split_loop.simps(2)) auto
  ultimately show ?case by simp
qed

lemma joined_head:
  assumes "c \<noteq> []" "plain_clause c"
  shows "take 1 (joined c rest) \<noteq> [124]"
proof -
  obtain x xs where c: "c = x # xs" using assms(1) by (cases c) auto
  with assms(2) have "x \<noteq> 124" by (cases xs) auto
  moreover have "\<exists>ys. joined c rest = x # ys" by (cases rest) (auto simp: c)
  ultimately show ?thesis by auto
qed

lemma split_joined:
  "clause_sequence c rest \<Longrightarrow> split_loop [] (joined c rest) = map trim (c # map snd rest)"
proof (induction rest arbitrary: c)
  case Nil
  then show ?case by (simp add: clause_sequence_def split_plain)
next
  case (Cons r rest)
  obtain sep d where r: "r = (sep, d)" by (cases r)
  with Cons.prems have d: "d \<noteq> []" "plain_clause d" "clause_sequence d rest" "sep \<in> set separators" "plain_clause c"
    by (auto simp: clause_sequence_def)
  from split_plain_separator [OF d(5,4) joined_head [OF d(1,2)], of "[]"] Cons.IH [OF d(3)] show ?case by (simp add: r)
qed

text \<open>White space around a clause is no token.\<close>

lemma ws_loop_front: "\<forall>c\<in>set w. is_whitespace c \<Longrightarrow> ws_loop [] (w @ s) = ws_loop [] s"
  by (induction w) auto

lemma ws_loop_back: "\<forall>c\<in>set w. is_whitespace c \<Longrightarrow> ws_loop cur (s @ w) = ws_loop cur s"
proof (induction cur s rule: ws_loop.induct)
  case (1 cur)
  then show ?case using ws_loop_front [of w "[]"] by (cases w) auto
qed auto

lemma split_whitespace_trim: "split_whitespace (trim s) = split_whitespace s"
proof -
  let ?t = "dropWhile is_whitespace s"
  have t: "trim s = rev (dropWhile is_whitespace (rev ?t))" by (simp add: trim_def)
  have "?t = trim s @ rev (takeWhile is_whitespace (rev ?t))"
    unfolding t by (metis rev_append rev_rev_ident takeWhile_dropWhile_id)
  moreover have "\<forall>c\<in>set (rev (takeWhile is_whitespace (rev ?t))). is_whitespace c" by (auto dest: set_takeWhileD)
  ultimately have "ws_loop [] ?t = ws_loop [] (trim s)" by (metis ws_loop_back)
  moreover have "ws_loop [] s = ws_loop [] ?t"
    using ws_loop_front [of "takeWhile is_whitespace s" ?t] by (auto dest: set_takeWhileD)
  ultimately show ?thesis by (simp add: split_whitespace_def)
qed

lemma dangerous_sequence:
  assumes "clause_sequence c rest"
  shows "rm_dangerous_with (joined c rest) target =
    list_ex (\<lambda>clause. dangerous_rm target (split_whitespace clause)) (c # map snd rest)"
proof -
  have e: "clause_dangerous target (trim cl) = dangerous_rm target (split_whitespace cl)" for cl
    by (simp add: clause_dangerous_iff split_whitespace_trim)
  have "\<not> clause_dangerous target []" by (simp add: clause_dangerous_def split_whitespace_def)
  then have "list_ex (clause_dangerous target) (filter (\<lambda>s. s \<noteq> []) (map trim cs)) =
      list_ex (\<lambda>clause. dangerous_rm target (split_whitespace clause)) cs" for cs
    by (induction cs) (auto simp: e [symmetric])
  then show ?thesis by (simp only: rm_dangerous_with_def split_shell_clauses_def split_joined [OF assms])
qed

subsection \<open>The documented rule\<close>

text \<open>
  A removal as the shell and the comments of the code read it: the flags end at the first \<^verbatim>\<open>--\<close>, and
  everything behind it is an operand.
\<close>

definition documented_rm :: "(ustr \<Rightarrow> bool) \<Rightarrow> ustr list \<Rightarrow> bool" where
  "documented_rm target toks \<longleftrightarrow>
     toks \<noteq> [] \<and> program_name (hd toks) = lit ''rm'' \<and>
     (let options = takeWhile (\<lambda>t. t \<noteq> lit ''--'') (tl toks);
          operands = filter is_operand options @ drop 1 (dropWhile (\<lambda>t. t \<noteq> lit ''--'') (tl toks))
      in list_ex recursive_flag options \<and> list_ex force_flag options \<and>
         list_ex (\<lambda>t. target (normalize_operand t)) operands)"

lemma dashed_no_target:
  assumes "\<not> is_operand t"
  shows "\<not> absolute_target (normalize_operand t) \<and> \<not> home_target (normalize_operand t)"
proof -
  obtain s where t: "t = 45 # s" using assms
    by (cases t) (auto simp: is_operand_def starts_with_def dash_prefix split: if_splits)
  have "normalize_operand t = t"
    by (simp add: t normalize_operand_def strip_one_layer_of_quotes_def rewrite_brace_home_def lit_def)
  then show ?thesis by (simp add: t absolute_target_def home_target_def starts_with_def lit_def)
qed

lemma documented_dangerous:
  assumes "documented_rm target toks" "\<And>t. \<not> is_operand t \<Longrightarrow> \<not> target (normalize_operand t)"
  shows "dangerous_rm target toks"
proof -
  have sub: "set (takeWhile P ts) \<subseteq> set ts" "set (drop 1 (dropWhile P ts)) \<subseteq> set ts" for P and ts :: "ustr list"
    by (auto dest: set_takeWhileD set_dropWhileD in_set_dropD)
  show ?thesis
    using assms(1) assms(2) sub
    unfolding documented_rm_def dangerous_rm_def Let_def list_ex_iff set_append set_filter by blast
qed

lemma split_loop_blank: "\<forall>c\<in>set s. is_whitespace c \<Longrightarrow> \<forall>c\<in>set cur. is_whitespace c \<Longrightarrow> split_loop cur s = [[]]"
proof (induction s arbitrary: cur)
  case Nil
  then have "is_blank (rev cur)" by (simp add: is_blank_iff)
  then show ?case by (simp add: is_blank_def)
next
  case (Cons c s)
  have "is_whitespace c" using Cons.prems(1) by simp
  then have "c \<noteq> 59" "c \<noteq> 38" "c \<noteq> 124" by (auto simp: is_whitespace_def)
  moreover have "split_loop (c # cur) s = [[]]" by (rule Cons.IH) (use Cons.prems in auto)
  ultimately show ?case by simp
qed

lemma dangerous_not_blank: "rm_dangerous_with cmd target \<Longrightarrow> \<not> is_blank cmd"
proof
  assume d: "rm_dangerous_with cmd target" and "is_blank cmd"
  then have "split_loop [] cmd = [[]]" by (intro split_loop_blank) (auto simp: is_blank_iff)
  with d show False by (simp add: rm_dangerous_with_def split_shell_clauses_def)
qed

lemma extract_command:
  "\<not> is_blank cmd \<Longrightarrow> extract_shell_command (JObj [(lit ''command'', JStr cmd)]) = Some cmd"
  by (simp add: extract_shell_command_def)

lemma default_rules_fire:
  "rm_dangerous_with cmd absolute_target \<or> rm_dangerous_with cmd home_target \<Longrightarrow>
   \<exists>label check. find (\<lambda>(label, check). check cmd) default_predicate_rules = Some (label, check)"
  by (auto simp: default_predicate_rules_def rm_recursive_force_on_absolute_target_def
      rm_recursive_force_on_home_target_def)

subsection \<open>Properties\<close>



text \<open>
  C31. A removal that the documented rule calls dangerous, flags up to the marker \<^verbatim>\<open>--\<close> and an absolute
  path or the home directory among the operands, is denied by the default policy in any sequence of plain
  clauses, in any place and behind any of the four separators, whatever the regular expressions do.
\<close>
theorem removal_denied_in_sequence:
  assumes "clause_sequence c rest" and "clause \<in> set (c # map snd rest)"
    and "documented_rm absolute_target (split_whitespace clause) \<or> documented_rm home_target (split_whitespace clause)"
  shows "\<exists>reason. as_before_tool_call is_match default_for_coding_agent (lit ''bash'')
           (JObj [(lit ''command'', JStr (joined c rest))]) = \<lparr>bt_block = True, bt_reason = Some reason\<rparr>"
proof -
  have "dangerous_rm absolute_target (split_whitespace clause) \<or> dangerous_rm home_target (split_whitespace clause)"
    using assms(3) documented_dangerous dashed_no_target by blast
  with assms(2) have d: "rm_dangerous_with (joined c rest) absolute_target \<or> rm_dangerous_with (joined c rest) home_target"
    unfolding dangerous_sequence [OF assms(1)] list_ex_iff by blast
  then have "\<not> is_blank (joined c rest)" using dangerous_not_blank by blast
  with default_rules_fire [OF d] show ?thesis
    by (auto simp: as_before_tool_call_def evaluate_def evaluate_with_category_def extract_command
        default_for_coding_agent_def denied_def split: option.split)
qed

lemma removal_denied_in_sequence_witness:
  "\<exists>reason. as_before_tool_call (\<lambda>_ _. False) default_for_coding_agent (lit ''bash'')
      (JObj [(lit ''command'', JStr (joined (lit ''cd /tmp '') [(lit ''||'', lit '' /bin/rm --force -vR -- ~/x ''), (lit ''&&'', lit ''ls'')]))]) =
    \<lparr>bt_block = True, bt_reason = Some reason\<rparr>"
proof (rule removal_denied_in_sequence)
  show "clause_sequence (lit ''cd /tmp '') [(lit ''||'', lit '' /bin/rm --force -vR -- ~/x ''), (lit ''&&'', lit ''ls'')]" by code_simp
  show "lit '' /bin/rm --force -vR -- ~/x '' \<in> set (lit ''cd /tmp '' # map snd [(lit ''||'', lit '' /bin/rm --force -vR -- ~/x ''), (lit ''&&'', lit ''ls'')])"
    by simp
  have "documented_rm home_target (split_whitespace (lit '' /bin/rm --force -vR -- ~/x ''))" by code_simp
  then show "documented_rm absolute_target (split_whitespace (lit '' /bin/rm --force -vR -- ~/x '')) \<or>
      documented_rm home_target (split_whitespace (lit '' /bin/rm --force -vR -- ~/x ''))" by (rule disjI2)
qed

text \<open>
  The marker \<^verbatim>\<open>--\<close> does not end the flags in the code: a removal of a file named like a flag, with no flag
  before the marker, is denied, although the documented rule does not call it dangerous.
\<close>
theorem flags_behind_marker:
  "\<not> documented_rm absolute_target (split_whitespace (lit ''rm -- -rf /tmp/x'')) \<and>
   rm_dangerous_with (lit ''rm -- -rf /tmp/x'') absolute_target"
  by code_simp

text \<open>
  Three ways past the rules: a line break, a single ampersand and an assignment before the
  command leave the removal unseen (as does a quote that ends inside the word), so none of the rules
  for \<open>rm\<close> fires although each command removes the root directory or the home directory.
\<close>
theorem rm_rules_bypassed:
  "list_all (\<lambda>cmd. \<not> list_ex (\<lambda>(label, check). check cmd) default_predicate_rules)
     [lit ''echo x'' @ [10] @ lit ''rm -rf /'', lit ''true & rm -rf /'', lit ''X=1 rm -rf /'',
      lit ''rm -rf '' @ [34] @ lit ''$HOME'' @ [34] @ lit ''/x''] \<and>
   list_ex (\<lambda>(label, check). check (lit ''rm -rf /'')) default_predicate_rules"
  by code_simp

end
