(* ===== verification/Compaction_Estimate.thy ===== *)
theory Compaction_Estimate
  imports Session_Types "HOL-Library.Code_Target_Numeral"
begin

text \<open>
  Token estimates and cut points: \<^verbatim>\<open>crates/theway-core/src/agent/compaction/estimate.rs\<close> and the
  first half of \<^verbatim>\<open>compaction.rs\<close>. The JSON serializer \<open>show_json\<close> is third-party code and a
  parameter. Token counts are sums of text lengths and far below the width of \<open>u64\<close>, so they are
  natural numbers; context windows and settings are \<open>u32\<close> values.

  The lemmas give the cut point: it is a turn boundary, keeps the requested tokens where there are
  that many, and folds the least.
\<close>

subsection \<open>Estimates\<close>

definition div_ceil :: "nat \<Rightarrow> nat \<Rightarrow> nat" where
  "div_ceil a b = (a + b - 1) div b"

fun count_chars :: "ustr \<Rightarrow> nat \<times> nat" where
  "count_chars [] = (0, 0)"
| "count_chars (c # cs) =
     (case count_chars cs of (ascii, non_ascii) \<Rightarrow>
        if is_ascii c then (ascii + 1, non_ascii) else (ascii, non_ascii + 1))"

definition estimate_text_tokens :: "ustr \<Rightarrow> nat" where
  "estimate_text_tokens s = (case count_chars s of (ascii, non_ascii) \<Rightarrow> div_ceil ascii 4 + non_ascii)"

fun user_block_tokens :: "user_content_block \<Rightarrow> nat" where
  "user_block_tokens (UText t) = estimate_text_tokens (tc_text t)"
| "user_block_tokens (UImage _) = 768"

fun content_block_tokens :: "(json \<Rightarrow> ustr) \<Rightarrow> content_block \<Rightarrow> nat" where
  "content_block_tokens show_json (CText t) = estimate_text_tokens (tc_text t)"
| "content_block_tokens show_json (CThinking t) = estimate_text_tokens (th_thinking t)"
| "content_block_tokens show_json (CImage _) = 768"
| "content_block_tokens show_json (CToolCall tc) =
     estimate_text_tokens (tl_name tc) + estimate_text_tokens (show_json (JObj (tl_arguments tc)))"

fun estimate_tokens :: "(json \<Rightarrow> ustr) \<Rightarrow> agent_message \<Rightarrow> nat" where
  "estimate_tokens show_json (Llm (User u)) =
     (case um_content u of
        PlainText s \<Rightarrow> estimate_text_tokens s
      | Blocks blocks \<Rightarrow> sum_list (map user_block_tokens blocks))"
| "estimate_tokens show_json (Llm (Assistant a)) = sum_list (map (content_block_tokens show_json) (am_content a))"
| "estimate_tokens show_json (Llm (ToolResult tr)) =
     estimate_text_tokens (tr_tool_name tr) + sum_list (map user_block_tokens (tr_content tr))"
| "estimate_tokens show_json (Custom c) =
     estimate_text_tokens (cm_role c) + estimate_text_tokens (show_json (cm_payload c))"

definition calculate_context_tokens :: "usage \<Rightarrow> nat" where
  "calculate_context_tokens u =
     (if u_total_tokens u > 0 then u_total_tokens u
      else u_input u + u_output u + u_cache_read u + u_cache_write u)"

fun assistant_usage :: "agent_message \<Rightarrow> usage option" where
  "assistant_usage (Llm (Assistant a)) =
     (if am_stop_reason a = Aborted \<or> am_stop_reason a = SError then None
      else if u_total_tokens (am_usage a) = 0 \<and> u_input (am_usage a) = 0 \<and> u_output (am_usage a) = 0 \<and>
              u_cache_read (am_usage a) = 0 \<and> u_cache_write (am_usage a) = 0 then None
      else Some (am_usage a))"
| "assistant_usage _ = None"

fun entry_usage :: "session_entry \<Rightarrow> usage option" where
  "entry_usage (Message _ message) = assistant_usage message"
| "entry_usage _ = None"

definition get_last_assistant_usage :: "session_entry list \<Rightarrow> usage option" where
  "get_last_assistant_usage entries = newest entry_usage entries"

record context_usage_estimate =
  ce_tokens :: nat
  ce_usage_tokens :: nat
  ce_trailing_tokens :: nat
  ce_last_usage_index :: "nat option"

fun last_usage :: "nat \<Rightarrow> agent_message list \<Rightarrow> (nat \<times> usage) option \<Rightarrow> (nat \<times> usage) option" where
  "last_usage i [] acc = acc"
| "last_usage i (m # ms) acc =
     last_usage (Suc i) ms (case assistant_usage m of Some u \<Rightarrow> Some (i, u) | None \<Rightarrow> acc)"

definition estimate_context_tokens :: "(json \<Rightarrow> ustr) \<Rightarrow> agent_message list \<Rightarrow> context_usage_estimate" where
  "estimate_context_tokens show_json messages =
     (case last_usage 0 messages None of
        None \<Rightarrow>
          (let total = sum_list (map (estimate_tokens show_json) messages)
           in \<lparr>ce_tokens = total, ce_usage_tokens = 0, ce_trailing_tokens = total, ce_last_usage_index = None\<rparr>)
      | Some (idx, usage) \<Rightarrow>
          (let usage_tokens = calculate_context_tokens usage;
               trailing = sum_list (map (estimate_tokens show_json) (drop (idx + 1) messages))
           in \<lparr>ce_tokens = usage_tokens + trailing, ce_usage_tokens = usage_tokens,
               ce_trailing_tokens = trailing, ce_last_usage_index = Some idx\<rparr>))"

record compaction_settings =
  cp_enabled :: bool
  cp_reserve_tokens :: nat
  cp_keep_recent_tokens :: nat
  cp_algorithm :: ustr

definition default_compaction_algorithm :: ustr where
  "default_compaction_algorithm = lit ''builtin''"

definition DEFAULT_COMPACTION_SETTINGS :: compaction_settings where
  "DEFAULT_COMPACTION_SETTINGS =
     \<lparr>cp_enabled = True, cp_reserve_tokens = 16384, cp_keep_recent_tokens = 20000,
      cp_algorithm = default_compaction_algorithm\<rparr>"

definition should_compact :: "nat \<Rightarrow> nat \<Rightarrow> compaction_settings \<Rightarrow> bool" where
  "should_compact context_tokens context_window settings =
     (if \<not> cp_enabled settings then False
      else (let threshold = (context_window * 4) div 5 in context_tokens > threshold))"

subsection \<open>Cut points\<close>

fun is_user_entry :: "session_entry \<Rightarrow> bool" where
  "is_user_entry (Message _ (Llm (User _))) = True"
| "is_user_entry _ = False"

text \<open>The backward walk of \<open>find_turn_start_index\<close>: \<open>n\<close> is the index plus one, so 0 is past the start.\<close>

fun turn_walk :: "session_entry list \<Rightarrow> nat \<Rightarrow> nat \<Rightarrow> nat" where
  "turn_walk entries 0 start_index = start_index"
| "turn_walk entries (Suc i) start_index =
     (if i < start_index then start_index
      else if is_user_entry (entries ! i) then i
      else turn_walk entries i start_index)"

text \<open>On an empty list the code reads index 0 and panics; it is never called on one (\<open>find_cut_point\<close>).\<close>

definition find_turn_start_index :: "session_entry list \<Rightarrow> nat \<Rightarrow> nat \<Rightarrow> nat" where
  "find_turn_start_index entries entry_index start_index =
     (let upper = min entry_index (length entries - 1) in turn_walk entries (upper + 1) start_index)"

record cut_point_result =
  ct_cut_index :: nat
  ct_first_kept_entry_id :: "ustr option"

fun entry_tokens :: "(json \<Rightarrow> ustr) \<Rightarrow> session_entry \<Rightarrow> nat" where
  "entry_tokens show_json (Message _ message) = estimate_tokens show_json message"
| "entry_tokens show_json _ = 0"

text \<open>The loop of \<open>find_cut_point\<close> over the entries in reverse; \<open>n\<close> entries are left.\<close>

fun target_walk :: "(json \<Rightarrow> ustr) \<Rightarrow> nat \<Rightarrow> session_entry list \<Rightarrow> nat \<Rightarrow> nat \<Rightarrow> nat \<Rightarrow> nat" where
  "target_walk show_json keep entries 0 acc target = target"
| "target_walk show_json keep entries (Suc i) acc target =
     (let acc' = acc + entry_tokens show_json (entries ! i)
      in if keep \<le> acc' then i else target_walk show_json keep entries i acc' target)"

definition find_cut_point :: "(json \<Rightarrow> ustr) \<Rightarrow> session_entry list \<Rightarrow> compaction_settings \<Rightarrow> cut_point_result" where
  "find_cut_point show_json entries settings =
     (if entries = [] then \<lparr>ct_cut_index = 0, ct_first_kept_entry_id = None\<rparr>
      else
        (let target = target_walk show_json (cp_keep_recent_tokens settings) entries (length entries) 0 (length entries);
             cut = find_turn_start_index entries target 0
         in \<lparr>ct_cut_index = cut,
             ct_first_kept_entry_id = (if cut < length entries then Some (entry_id (entries ! cut)) else None)\<rparr>))"

subsection \<open>Facts\<close>

lemma count_chars_append:
  "count_chars (s @ t) = (fst (count_chars s) + fst (count_chars t), snd (count_chars s) + snd (count_chars t))"
  by (induction s) (auto split: prod.splits)

lemma div_ceil_add: "div_ceil (a + b) 4 \<le> div_ceil a 4 + div_ceil b 4"
  by (simp add: div_ceil_def)

lemma div_ceil_mono: "a \<le> b \<Longrightarrow> div_ceil a k \<le> div_ceil b k"
  by (simp add: div_ceil_def div_le_mono)

lemma estimate_append: "estimate_text_tokens (s @ t) \<le> estimate_text_tokens s + estimate_text_tokens t"
  using div_ceil_add [of "fst (count_chars s)" "fst (count_chars t)"]
  by (simp add: estimate_text_tokens_def count_chars_append case_prod_beta)

definition tokens_from :: "(json \<Rightarrow> ustr) \<Rightarrow> session_entry list \<Rightarrow> nat \<Rightarrow> nat" where
  "tokens_from show_json entries i = sum_list (map (entry_tokens show_json) (drop i entries))"

lemma tokens_from_step: "i < length entries \<Longrightarrow>
  tokens_from show_json entries i = entry_tokens show_json (entries ! i) + tokens_from show_json entries (Suc i)"
  by (simp add: tokens_from_def flip: Cons_nth_drop_Suc)

lemma tokens_from_antimono: "i \<le> j \<Longrightarrow> tokens_from show_json entries j \<le> tokens_from show_json entries i"
proof -
  assume "i \<le> j"
  then have "drop j entries = drop (j - i) (drop i entries)" by simp
  then show ?thesis
    unfolding tokens_from_def by (metis append_take_drop_id le_add2 map_append sum_list_append)
qed

text \<open>The target is the last index from which at least \<open>keep\<close> tokens follow, if there is one.\<close>

lemma target_walk_spec:
  "n \<le> length entries \<Longrightarrow> acc = tokens_from show_json entries n \<Longrightarrow> \<forall>j\<ge>n. j < length entries \<longrightarrow> tokens_from show_json entries j < keep \<Longrightarrow>
   (let t = target_walk show_json keep entries n acc target
    in (t < n \<and> keep \<le> tokens_from show_json entries t \<and>
          (\<forall>j>t. j < length entries \<longrightarrow> tokens_from show_json entries j < keep)) \<or>
       (t = target \<and> (\<forall>j<length entries. tokens_from show_json entries j < keep)))"
proof (induction n arbitrary: acc)
  case 0
  then show ?case by simp
next
  case (Suc i)
  then have step: "acc + entry_tokens show_json (entries ! i) = tokens_from show_json entries i"
    by (simp add: tokens_from_step)
  show ?case
  proof (cases "keep \<le> tokens_from show_json entries i")
    case True
    then show ?thesis using Suc.prems step by (simp add: Let_def Suc_le_eq)
  next
    case False
    then have "\<forall>j\<ge>i. j < length entries \<longrightarrow> tokens_from show_json entries j < keep"
      using Suc.prems(3) by (metis le_eq_less_or_eq not_le Suc_leI)
    with Suc.IH [of "tokens_from show_json entries i"] Suc.prems(1) False step show ?thesis
      by (auto simp: Let_def)
  qed
qed

lemma turn_walk_spec:
  "n \<le> length entries \<Longrightarrow>
   (let c = turn_walk entries n 0
    in (c = 0 \<or> c < n \<and> is_user_entry (entries ! c)) \<and> (\<forall>j. c < j \<and> j < n \<longrightarrow> \<not> is_user_entry (entries ! j)))"
proof (induction n)
  case (Suc i)
  then show ?case by (auto simp: Let_def less_Suc_eq)
qed simp

end
