(* ===== verification/Compaction_Summary.thy ===== *)
theory Compaction_Summary
  imports Compaction_Estimate
begin

text \<open>
  The material of a summary, \<^verbatim>\<open>crates/theway-core/src/agent/compaction/compaction.rs\<close>: the
  projection of the folded entries, the serialized conversation and its budget, and the summarizer
  call with its retries. The JSON codec (\<open>show_json\<close>, \<open>parse_args\<close>), upper-casing, the provider's
  stream and its overflow test are parameters.
\<close>

definition SUMMARIZATION_SYSTEM_PROMPT :: ustr where
  "SUMMARIZATION_SYSTEM_PROMPT = lit ''You are a context summarization assistant. Your task is to read a conversation between a user and an AI coding assistant, then produce a structured summary preserving the user's intent, the files and topics discussed, decisions made, and any work still in progress. Be concise but thorough; the assistant will rely on your summary instead of replaying the dropped messages.''"

definition DEFAULT_SUMMARY_PROMPT_TOKEN_BUDGET :: nat where
  "DEFAULT_SUMMARY_PROMPT_TOKEN_BUDGET = 64000"

definition SUMMARY_PROMPT_FRAMING_TOKENS :: nat where
  "SUMMARY_PROMPT_FRAMING_TOKENS = 512"

definition MIN_SUMMARY_PROMPT_BUDGET_TOKENS :: nat where
  "MIN_SUMMARY_PROMPT_BUDGET_TOKENS = 1024"

definition MAX_SUMMARY_OVERFLOW_RETRIES :: nat where
  "MAX_SUMMARY_OVERFLOW_RETRIES = 3"

definition SUMMARY_TEXT_CAP :: nat where "SUMMARY_TEXT_CAP = 8000"
definition SUMMARY_TOOL_CAP :: nat where "SUMMARY_TOOL_CAP = 2000"
definition SUMMARY_THINKING_CAP :: nat where "SUMMARY_THINKING_CAP = 2000"
definition SUMMARY_PROJECTED_BUDGET_TOKENS :: nat where "SUMMARY_PROJECTED_BUDGET_TOKENS = 96000"

subsection \<open>Serialization\<close>

fun serialize_user_block :: "user_content_block \<Rightarrow> ustr" where
  "serialize_user_block (UText t) = tc_text t"
| "serialize_user_block (UImage _) = lit ''<image>''"

fun serialize_content_block :: "(json \<Rightarrow> ustr) \<Rightarrow> content_block \<Rightarrow> ustr" where
  "serialize_content_block show_json (CText t) = tc_text t"
| "serialize_content_block show_json (CThinking t) =
     lit ''<thinking>'' @ th_thinking t @ lit ''</thinking>''"
| "serialize_content_block show_json (CImage _) = lit ''<image>''"
| "serialize_content_block show_json (CToolCall tc) =
     lit ''<tool_call name='' @ [34] @ tl_name tc @ [34] @ lit ''>'' @ show_json (JObj (tl_arguments tc)) @
     lit ''</tool_call>''"

fun serialize_message :: "(json \<Rightarrow> ustr) \<Rightarrow> (ustr \<Rightarrow> ustr) \<Rightarrow> agent_message \<Rightarrow> ustr" where
  "serialize_message show_json to_uppercase (Llm (User u)) =
     lit ''USER:'' @ [10] @
     (case um_content u of PlainText s \<Rightarrow> s | Blocks bs \<Rightarrow> concat (map serialize_user_block bs)) @ [10, 10]"
| "serialize_message show_json to_uppercase (Llm (Assistant a)) =
     lit ''ASSISTANT:'' @ [10] @ concat (map (serialize_content_block show_json) (am_content a)) @ [10, 10]"
| "serialize_message show_json to_uppercase (Llm (ToolResult tr)) =
     lit ''TOOL_RESULT['' @ tr_tool_name tr @ lit '']:'' @ [10] @ concat (block_texts (tr_content tr)) @ [10, 10]"
| "serialize_message show_json to_uppercase (Custom c) =
     to_uppercase (cm_role c) @ lit '':'' @ [10] @ show_json (cm_payload c) @ [10, 10]"

definition serialize_conversation :: "(json \<Rightarrow> ustr) \<Rightarrow> (ustr \<Rightarrow> ustr) \<Rightarrow> agent_message list \<Rightarrow> ustr" where
  "serialize_conversation show_json to_uppercase messages =
     concat (map (serialize_message show_json to_uppercase) messages)"

subsection \<open>Budgets\<close>

definition summary_output_tokens :: "model \<Rightarrow> compaction_settings \<Rightarrow> nat" where
  "summary_output_tokens model settings =
     (let reserve = (if cp_reserve_tokens settings > 0 then cp_reserve_tokens settings
                     else cp_reserve_tokens DEFAULT_COMPACTION_SETTINGS);
          output = (if mo_max_tokens model > 0 then min (mo_max_tokens model) reserve else reserve)
      in if mo_context_window model > 0 then max 1 (min output (mo_context_window model div 4)) else output)"

definition summarization_prompt_budget :: "model \<Rightarrow> compaction_settings \<Rightarrow> nat" where
  "summarization_prompt_budget model settings =
     (if mo_context_window model = 0 then DEFAULT_SUMMARY_PROMPT_TOKEN_BUDGET
      else (mo_context_window model - summary_output_tokens model settings) * 4 div 5)"

definition summary_prompt_overhead_tokens :: "ustr option \<Rightarrow> nat" where
  "summary_prompt_overhead_tokens custom_instructions =
     SUMMARY_PROMPT_FRAMING_TOKENS + estimate_text_tokens SUMMARIZATION_SYSTEM_PROMPT +
     (case custom_instructions of Some s \<Rightarrow> estimate_text_tokens s | None \<Rightarrow> 0)"

definition summarize_prompt_estimate_tokens :: "(json \<Rightarrow> ustr) \<Rightarrow> agent_message list \<Rightarrow> ustr option \<Rightarrow> nat" where
  "summarize_prompt_estimate_tokens show_json messages custom_instructions =
     (let conversation = sum_list (map (estimate_tokens show_json) messages)
      in summary_prompt_overhead_tokens custom_instructions + conversation)"

text \<open>The loop over the messages, newest first; \<open>kept\<close> is in the order of the conversation.\<close>

fun trim_loop :: "(json \<Rightarrow> ustr) \<Rightarrow> nat \<Rightarrow> agent_message list \<Rightarrow> nat \<Rightarrow> agent_message list \<Rightarrow> agent_message list" where
  "trim_loop show_json budget [] used kept = kept"
| "trim_loop show_json budget (m # ms) used kept =
     (let message_tokens = estimate_tokens show_json m
      in if kept \<noteq> [] \<and> used + message_tokens > budget then kept
         else (let used_now = used + message_tokens
               in if used_now \<ge> budget then m # kept else trim_loop show_json budget ms used_now (m # kept)))"

definition omitted_note :: "int \<Rightarrow> nat \<Rightarrow> agent_message" where
  "omitted_note now omitted =
     Llm (User \<lparr>um_content = PlainText (lit ''[compaction note: omitted '' @ show_nat omitted @
        lit '' older message(s) before summarization because the session exceeded the summarizer prompt budget]''),
        um_timestamp = now\<rparr>)"

definition trim_messages_for_summary_budget ::
  "(json \<Rightarrow> ustr) \<Rightarrow> int \<Rightarrow> agent_message list \<Rightarrow> nat \<Rightarrow> ustr option \<Rightarrow> agent_message list" where
  "trim_messages_for_summary_budget show_json now messages budget custom_instructions =
     (if summarize_prompt_estimate_tokens show_json messages custom_instructions \<le> budget then messages
      else
        (let kept = trim_loop show_json budget (rev messages) (summary_prompt_overhead_tokens custom_instructions) [];
             omitted = length messages - length kept
         in if omitted > 0 then omitted_note now omitted # kept else kept))"

text \<open>
  \<open>suffix_start_for_token_budget\<close> walks the characters in reverse and returns a byte index; here it
  is the number of characters that stay behind. The list is the reversed text.
\<close>

fun suffix_walk :: "nat \<Rightarrow> ustr \<Rightarrow> nat \<Rightarrow> nat \<Rightarrow> nat" where
  "suffix_walk budget [] ascii non_ascii = 0"
| "suffix_walk budget (c # cs) ascii non_ascii =
     (let a = (if is_ascii c then ascii + 1 else ascii);
          n = (if is_ascii c then non_ascii else non_ascii + 1)
      in if div_ceil a 4 + n > budget then length (c # cs) else suffix_walk budget cs a n)"

definition suffix_start_for_token_budget :: "ustr \<Rightarrow> nat \<Rightarrow> nat" where
  "suffix_start_for_token_budget s budget = suffix_walk budget (rev s) 0 0"

definition older_note :: ustr where
  "older_note = lit ''[compaction note: omitted older serialized content before summarization because the session exceeded the summarizer prompt budget]'' @ [10, 10]"

definition serialize_conversation_for_summary_budget ::
  "(json \<Rightarrow> ustr) \<Rightarrow> (ustr \<Rightarrow> ustr) \<Rightarrow> int \<Rightarrow> agent_message list \<Rightarrow> nat \<Rightarrow> ustr option \<Rightarrow> ustr" where
  "serialize_conversation_for_summary_budget show_json to_uppercase now messages budget custom_instructions =
     (let trimmed = trim_messages_for_summary_budget show_json now messages budget custom_instructions;
          conversation = serialize_conversation show_json to_uppercase trimmed;
          available = budget - summary_prompt_overhead_tokens custom_instructions
      in if estimate_text_tokens conversation \<le> available then conversation
         else
           (let note_tokens = estimate_text_tokens older_note
            in if available \<le> note_tokens then take (available * 4) older_note
               else older_note @ drop (suffix_start_for_token_budget conversation (available - note_tokens)) conversation))"

subsection \<open>Projection\<close>

definition truncate_chars_for_summary :: "ustr \<Rightarrow> nat \<Rightarrow> ustr" where
  "truncate_chars_for_summary t cap =
     (if length t \<le> cap then t
      else take cap t @ [10, 8230] @ lit ''[truncated for summarization]'')"

definition truncate_tool_arguments ::
  "(json \<Rightarrow> ustr) \<Rightarrow> (ustr \<Rightarrow> (ustr \<times> json) list option) \<Rightarrow> (ustr \<times> json) list \<Rightarrow> (ustr \<times> json) list" where
  "truncate_tool_arguments show_json parse_args args =
     (let serialized = show_json (JObj args)
      in if length serialized \<le> SUMMARY_TOOL_CAP then args
         else (let truncated = truncate_chars_for_summary serialized SUMMARY_TOOL_CAP
               in case parse_args truncated of
                    Some parsed \<Rightarrow> parsed
                  | None \<Rightarrow> [(lit ''arguments_truncated'', JStr truncated)]))"

fun cap_user_block :: "nat \<Rightarrow> user_content_block \<Rightarrow> user_content_block" where
  "cap_user_block cap (UText t) = UText (t\<lparr>tc_text := truncate_chars_for_summary (tc_text t) cap\<rparr>)"
| "cap_user_block cap (UImage i) = UImage i"

fun cap_content_block ::
  "(json \<Rightarrow> ustr) \<Rightarrow> (ustr \<Rightarrow> (ustr \<times> json) list option) \<Rightarrow> content_block \<Rightarrow> content_block" where
  "cap_content_block show_json parse_args (CText t) =
     CText (t\<lparr>tc_text := truncate_chars_for_summary (tc_text t) SUMMARY_TEXT_CAP\<rparr>)"
| "cap_content_block show_json parse_args (CThinking t) =
     CThinking (t\<lparr>th_thinking := truncate_chars_for_summary (th_thinking t) SUMMARY_THINKING_CAP\<rparr>)"
| "cap_content_block show_json parse_args (CToolCall c) =
     CToolCall (c\<lparr>tl_arguments := truncate_tool_arguments show_json parse_args (tl_arguments c)\<rparr>)"
| "cap_content_block show_json parse_args (CImage i) = CImage i"

fun project_summary_message ::
  "(json \<Rightarrow> ustr) \<Rightarrow> (ustr \<Rightarrow> (ustr \<times> json) list option) \<Rightarrow> agent_message \<Rightarrow> agent_message option" where
  "project_summary_message show_json parse_args (Llm (User u)) =
     Some (Llm (User (u\<lparr>um_content :=
       (case um_content u of
          PlainText s \<Rightarrow> PlainText (truncate_chars_for_summary s SUMMARY_TEXT_CAP)
        | Blocks bs \<Rightarrow> Blocks (map (cap_user_block SUMMARY_TEXT_CAP) bs))\<rparr>)))"
| "project_summary_message show_json parse_args (Llm (Assistant a)) =
     Some (Llm (Assistant (a\<lparr>am_content := map (cap_content_block show_json parse_args) (am_content a)\<rparr>)))"
| "project_summary_message show_json parse_args (Llm (ToolResult tr)) =
     Some (Llm (ToolResult (tr\<lparr>tr_content := map (cap_user_block SUMMARY_TOOL_CAP) (tr_content tr),
                              tr_details := None\<rparr>)))"
| "project_summary_message show_json parse_args (Custom _) = None"

text \<open>The loop of \<open>trim_projected_budget\<close>, newest first.\<close>

fun projected_loop :: "(json \<Rightarrow> ustr) \<Rightarrow> agent_message list \<Rightarrow> nat \<Rightarrow> agent_message list \<Rightarrow> agent_message list" where
  "projected_loop show_json [] running kept = kept"
| "projected_loop show_json (m # ms) running kept =
     (let tokens = estimate_tokens show_json m
      in if kept \<noteq> [] \<and> running + tokens > SUMMARY_PROJECTED_BUDGET_TOKENS then kept
         else projected_loop show_json ms (running + tokens) (m # kept))"

definition trim_projected_budget :: "(json \<Rightarrow> ustr) \<Rightarrow> agent_message list \<Rightarrow> agent_message list" where
  "trim_projected_budget show_json messages =
     (if sum_list (map (estimate_tokens show_json) messages) \<le> SUMMARY_PROJECTED_BUDGET_TOKENS \<or> length messages \<le> 1
      then messages else projected_loop show_json (rev messages) 0 [])"

fun entry_message :: "session_entry \<Rightarrow> agent_message option" where
  "entry_message (Message _ message) = Some message"
| "entry_message _ = None"

definition project_summary_messages ::
  "(json \<Rightarrow> ustr) \<Rightarrow> (ustr \<Rightarrow> (ustr \<times> json) list option) \<Rightarrow> session_entry list \<Rightarrow> agent_message list" where
  "project_summary_messages show_json parse_args entries =
     trim_projected_budget show_json
       (List.map_filter (\<lambda>e. Option.bind (entry_message e) (project_summary_message show_json parse_args)) entries)"

subsection \<open>The summarizer call\<close>

datatype summarize_error = SumAborted | Provider ustr | ContextOverflow ustr | Empty

record generate_summary_request =
  gr_messages :: "agent_message list"
  gr_custom_instructions :: "ustr option"
  gr_prompt_budget_tokens :: "nat option"
  gr_max_output_tokens :: "nat option"

text \<open>
  What the call rests on: the codecs, the clock, the stream for a system prompt, a user text and an
  output limit, whether the token is cancelled when the \<open>k\<close>-th event arrives, and the provider's
  overflow test for an error and a window.
\<close>

record summarizer =
  sz_show_json :: "json \<Rightarrow> ustr"
  sz_to_uppercase :: "ustr \<Rightarrow> ustr"
  sz_parse_args :: "ustr \<Rightarrow> (ustr \<times> json) list option"
  sz_now :: int
  sz_stream :: "ustr \<Rightarrow> ustr \<Rightarrow> nat option \<Rightarrow> assistant_message_event list"
  sz_cancelled :: "nat \<Rightarrow> bool"
  sz_overflow :: "assistant_message \<Rightarrow> nat option \<Rightarrow> bool"

fun read_stream ::
  "summarizer \<Rightarrow> model \<Rightarrow> nat \<Rightarrow> assistant_message_event list \<Rightarrow> assistant_message option \<Rightarrow> summarize_error + assistant_message" where
  "read_stream z model k [] last_message = (case last_message of None \<Rightarrow> Inl Empty | Some m \<Rightarrow> Inr m)"
| "read_stream z model k (ev # evs) last_message =
     (if sz_cancelled z k then Inl SumAborted
      else case ev of
             EvDone _ m \<Rightarrow> read_stream z model (Suc k) evs (Some m)
           | EvError _ err \<Rightarrow>
               (let window = (if mo_context_window model > 0 then Some (mo_context_window model) else None);
                    message = (case am_error_message err of Some s \<Rightarrow> s | None \<Rightarrow> lit ''summarization failed'')
                in Inl (if sz_overflow z err window then ContextOverflow message else Provider message))
           | _ \<Rightarrow> read_stream z model (Suc k) evs last_message)"

fun text_block :: "content_block \<Rightarrow> ustr option" where
  "text_block (CText t) = Some (tc_text t)"
| "text_block _ = None"

definition generate_summary ::
  "summarizer \<Rightarrow> model \<Rightarrow> generate_summary_request \<Rightarrow> summarize_error + (ustr \<times> usage)" where
  "generate_summary z model request =
     (let prompt = SUMMARIZATION_SYSTEM_PROMPT @
                     (case gr_custom_instructions request of Some extra \<Rightarrow> [10, 10] @ extra | None \<Rightarrow> []);
          convo = (case gr_prompt_budget_tokens request of
                     Some budget \<Rightarrow> serialize_conversation_for_summary_budget (sz_show_json z) (sz_to_uppercase z)
                                     (sz_now z) (gr_messages request) budget (gr_custom_instructions request)
                   | None \<Rightarrow> serialize_conversation (sz_show_json z) (sz_to_uppercase z) (gr_messages request))
      in case read_stream z model 0 (sz_stream z prompt convo (gr_max_output_tokens request)) None of
           Inl err \<Rightarrow> Inl err
         | Inr m \<Rightarrow> Inr (concat (List.map_filter text_block (am_content m)), am_usage m))"

text \<open>
  The retry loop, on a call \<open>gen budget attempts\<close>; it ends because \<open>attempts\<close> grows to the limit.
\<close>

function retry_loop :: "(nat \<Rightarrow> summarize_error + 'a) \<Rightarrow> nat \<Rightarrow> nat \<Rightarrow> summarize_error + 'a" where
  "retry_loop gen budget attempts =
     (case gen budget of
        Inr out \<Rightarrow> Inr out
      | Inl (ContextOverflow message) \<Rightarrow>
          (let attempts' = attempts + 1
           in if attempts' > MAX_SUMMARY_OVERFLOW_RETRIES \<or> budget \<le> MIN_SUMMARY_PROMPT_BUDGET_TOKENS
              then Inl (ContextOverflow message)
              else retry_loop gen (max (budget div 2) MIN_SUMMARY_PROMPT_BUDGET_TOKENS) attempts')
      | Inl err \<Rightarrow> Inl err)"
  by pat_completeness auto
termination
  by (relation "measure (\<lambda>(gen, budget, attempts). MAX_SUMMARY_OVERFLOW_RETRIES + 1 - attempts)") auto

declare retry_loop.simps [simp del]

record summarize_request =
  sr_messages :: "agent_message list"
  sr_custom_instructions :: "ustr option"
  sr_settings :: compaction_settings

definition summarize_with_llm :: "summarizer \<Rightarrow> model \<Rightarrow> summarize_request \<Rightarrow> summarize_error + (ustr \<times> usage)" where
  "summarize_with_llm z model request =
     (let max_output = summary_output_tokens model (sr_settings request);
          budget = summarization_prompt_budget model (sr_settings request)
      in retry_loop (\<lambda>budget. generate_summary z model
             \<lparr>gr_messages = sr_messages request, gr_custom_instructions = sr_custom_instructions request,
              gr_prompt_budget_tokens = Some budget, gr_max_output_tokens = Some max_output\<rparr>) budget 0)"

end
