(* ===== verification/Compaction.thy ===== *)
theory Compaction
  imports Compaction_Summary Context_Assembly Observability "HOL-Library.List_Lexorder"
begin

text \<open>
  Compaction itself: the algorithms and their registry
  (\<^verbatim>\<open>crates/theway-core/src/agent/compaction/algorithm.rs\<close>), \<open>compact_with_model_context\<close>
  (\<^verbatim>\<open>compaction.rs\<close>), branch summaries (\<^verbatim>\<open>branch_summarization.rs\<close>) and the triggers of the
  harness (\<^verbatim>\<open>triggers.rs\<close>), which work on the session, on the agent's messages and on the
  observation log.

  An algorithm is a table of its four operations, as \<open>dyn CompactAlgorithm\<close> is; a custom one is code
  of an extension. What an extension answers before a compaction is an argument; what it is told
  afterwards is recorded in order. \<open>None\<close> as a result is a panic.
\<close>

subsection \<open>Algorithms\<close>

record compact_algorithm =
  ca_name :: ustr
  ca_decide_compact :: "nat \<Rightarrow> nat \<Rightarrow> compaction_settings \<Rightarrow> bool"
  ca_select_cut_point :: "session_entry list \<Rightarrow> compaction_settings \<Rightarrow> cut_point_result"
  ca_summarize_prefix :: "model \<Rightarrow> summarize_request \<Rightarrow> summarize_error + (ustr \<times> usage)"

text \<open>The provided bodies of the trait; the builtin algorithm only gives its name.\<close>

definition default_algorithm :: "summarizer \<Rightarrow> ustr \<Rightarrow> compact_algorithm" where
  "default_algorithm z name =
     \<lparr>ca_name = name, ca_decide_compact = should_compact,
      ca_select_cut_point = find_cut_point (sz_show_json z),
      ca_summarize_prefix = summarize_with_llm z\<rparr>"

definition builtin_algorithm :: "summarizer \<Rightarrow> compact_algorithm" where
  "builtin_algorithm z = default_algorithm z (lit ''builtin'')"

type_synonym algorithm_registry = "(ustr, compact_algorithm) hmap"

definition registry_new :: algorithm_registry where
  "registry_new = []"

definition register_algorithm :: "compact_algorithm \<Rightarrow> algorithm_registry \<Rightarrow> algorithm_registry" where
  "register_algorithm a registered =
     (if ca_name a \<noteq> lit ''builtin'' then hm_put (ca_name a) a registered else registered)"

fun replace_loop :: "compact_algorithm list \<Rightarrow> algorithm_registry \<Rightarrow> algorithm_registry" where
  "replace_loop [] replacement = replacement"
| "replace_loop (a # as) replacement =
     replace_loop as (if ca_name a \<noteq> lit ''builtin'' then hm_put (ca_name a) a replacement else replacement)"

definition replace_custom :: "compact_algorithm list \<Rightarrow> algorithm_registry \<Rightarrow> algorithm_registry" where
  "replace_custom algorithms registered = replace_loop algorithms []"

definition algorithm_named :: "summarizer \<Rightarrow> algorithm_registry \<Rightarrow> ustr \<Rightarrow> compact_algorithm" where
  "algorithm_named z registered name =
     (if name = [] \<or> name = lit ''builtin'' then builtin_algorithm z
      else (case hm_get registered name of Some a \<Rightarrow> a | None \<Rightarrow> builtin_algorithm z))"

definition custom_names :: "algorithm_registry \<Rightarrow> ustr list" where
  "custom_names registered = sort (map fst registered)"

subsection \<open>Compacting entries\<close>

definition default_usage :: usage where
  "default_usage =
     \<lparr>u_input = 0, u_output = 0, u_cache_read = 0, u_cache_write = 0, u_total_tokens = 0,
      u_prefix_hit_tokens = None, u_prefix_cache_hit_rate = None, u_provider_cache_hit_rate = None,
      u_cost = \<lparr>uc_input = 0, uc_output = 0, uc_cache_read = 0, uc_cache_write = 0, uc_total = 0\<rparr>\<rparr>"

definition entry_tokens_sum :: "(json \<Rightarrow> ustr) \<Rightarrow> session_entry list \<Rightarrow> nat" where
  "entry_tokens_sum show_json entries =
     sum_list (map (estimate_tokens show_json) (List.map_filter entry_message entries))"

record compaction_preparation =
  pr_cut :: cut_point_result
  pr_entries_to_summarize :: "session_entry list"
  pr_tokens_before :: nat

definition prepare_compaction ::
  "(json \<Rightarrow> ustr) \<Rightarrow> session_entry list \<Rightarrow> compaction_settings \<Rightarrow> compaction_preparation" where
  "prepare_compaction show_json entries settings =
     (let cut = find_cut_point show_json entries settings;
          entries_to_summarize = take (ct_cut_index cut) entries
      in \<lparr>pr_cut = cut, pr_entries_to_summarize = entries_to_summarize,
          pr_tokens_before = entry_tokens_sum show_json entries_to_summarize\<rparr>)"

record compaction_result =
  cr_summary :: ustr
  cr_first_kept_entry_id :: "ustr option"
  cr_tokens_before :: nat
  cr_usage :: usage

text \<open>A custom algorithm may answer an index behind the entries; taking that prefix panics.\<close>

definition compact_with_model_context ::
  "summarizer \<Rightarrow> compact_algorithm \<Rightarrow> model \<Rightarrow> session_entry list \<Rightarrow> agent_message list \<Rightarrow>
   compaction_settings \<Rightarrow> ustr option \<Rightarrow> (summarize_error + compaction_result) option" where
  "compact_with_model_context z algorithm model entries persistent_model_context settings custom_instructions =
     (let cut = ca_select_cut_point algorithm entries settings
      in if length entries < ct_cut_index cut then None
         else
           (let entries_to_summarize = take (ct_cut_index cut) entries;
                tokens_before = entry_tokens_sum (sz_show_json z) entries_to_summarize
            in Some
              (if entries_to_summarize = []
               then Inr \<lparr>cr_summary = [], cr_first_kept_entry_id = ct_first_kept_entry_id cut,
                         cr_tokens_before = tokens_before, cr_usage = default_usage\<rparr>
               else
                 (let messages = persistent_model_context @
                        project_summary_messages (sz_show_json z) (sz_parse_args z) entries_to_summarize
                  in case ca_summarize_prefix algorithm model
                            \<lparr>sr_messages = messages, sr_custom_instructions = custom_instructions,
                             sr_settings = settings\<rparr> of
                       Inl err \<Rightarrow> Inl err
                     | Inr (summary, usage) \<Rightarrow>
                         Inr \<lparr>cr_summary = summary, cr_first_kept_entry_id = ct_first_kept_entry_id cut,
                              cr_tokens_before = tokens_before, cr_usage = usage\<rparr>))))"

definition compact ::
  "summarizer \<Rightarrow> compact_algorithm \<Rightarrow> model \<Rightarrow> session_entry list \<Rightarrow> compaction_settings \<Rightarrow> ustr option \<Rightarrow>
   (summarize_error + compaction_result) option" where
  "compact z algorithm model entries settings custom_instructions =
     compact_with_model_context z algorithm model entries [] settings custom_instructions"

definition BRANCH_SUMMARY_INSTRUCTIONS :: ustr where
  "BRANCH_SUMMARY_INSTRUCTIONS = lit ''Produce a concise branch summary of the conversation below. Capture the goal of this branch, what was accomplished, and the most recent state so a sibling branch can pick up without replaying every message.''"

definition summarize_branch :: "summarizer \<Rightarrow> model \<Rightarrow> session_entry list \<Rightarrow> summarize_error + (ustr \<times> usage)" where
  "summarize_branch z model entries =
     (let messages = List.map_filter entry_message entries
      in if messages = [] then Inr ([], default_usage)
         else generate_summary z model
                \<lparr>gr_messages = messages, gr_custom_instructions = Some BRANCH_SUMMARY_INSTRUCTIONS,
                 gr_prompt_budget_tokens = None, gr_max_output_tokens = None\<rparr>)"

subsection \<open>The harness\<close>

text \<open>\<open>Display\<close> of \<open>SummarizeError\<close>.\<close>

fun summarize_error_str :: "summarize_error \<Rightarrow> ustr" where
  "summarize_error_str SumAborted = lit ''aborted''"
| "summarize_error_str (Provider s) = lit ''provider error: '' @ s"
| "summarize_error_str (ContextOverflow s) = lit ''summarizer prompt overflowed the model context window: '' @ s"
| "summarize_error_str Empty = lit ''summarizer produced no message''"

record compaction_event =
  ev_from_hook :: bool
  ev_summary :: ustr
  ev_tokens_before :: nat

text \<open>The two observations an extension gets: success, or failure with its flag \<open>cancelled\<close>.\<close>

datatype extension_event = CompactionSucceeded json | CompactionFailed json bool

text \<open>
  The part of the harness a compaction reads and writes: the session's storage, the agent's model and
  messages, the settings, the registry, the observation log, the events sent to listeners, the
  observations of the extensions, and the errors its session listener met. \<open>hs_parent\<close> and \<open>hs_context\<close> are the observation the run is in.
\<close>

record 's harness =
  hs_session :: 's
  hs_model :: "model option"
  hs_messages :: "agent_message list"
  hs_settings :: compaction_settings
  hs_algorithms :: algorithm_registry
  hs_parent :: "nat option"
  hs_context :: observation_context
  hs_obs :: obs
  hs_events :: "compaction_event list"
  hs_extension_events :: "extension_event list"
  hs_listener_errors :: "session_error list"

text \<open>
  The extension runtime: the gate asked before a compaction (\<open>Some\<close> message refuses it) and the
  messages its extensions keep in the context.
\<close>

record extension_answers =
  xa_before :: "ustr \<Rightarrow> bool \<Rightarrow> ustr option"
  xa_context_messages :: "agent_message list"

definition usage_measurements :: "usage \<Rightarrow> measurements" where
  "usage_measurements u =
     default_measurements\<lparr>m_input_tokens := u_input u, m_output_tokens := u_output u,
       m_cache_read_tokens := u_cache_read u, m_cache_write_tokens := u_cache_write u\<rparr>"

definition finish_compaction ::
  "scope \<Rightarrow> operation_outcome \<Rightarrow> error_category option \<Rightarrow> measurements \<Rightarrow> 's harness \<Rightarrow> 's harness" where
  "finish_compaction sc outcome cat ms h = h\<lparr>hs_obs := scope_finish outcome cat ms sc (hs_obs h)\<rparr>"

definition emit_harness_event :: "compaction_event \<Rightarrow> 's harness \<Rightarrow> 's harness" where
  "emit_harness_event ev h = h\<lparr>hs_events := hs_events h @ [ev]\<rparr>"

definition observe_compaction :: "extension_event \<Rightarrow> 's harness \<Rightarrow> 's harness" where
  "observe_compaction ev h = h\<lparr>hs_extension_events := hs_extension_events h @ [ev]\<rparr>"

definition failure_payload :: "ustr \<Rightarrow> string \<Rightarrow> ustr option \<Rightarrow> json" where
  "failure_payload algorithm category message =
     JObj ([(lit ''algorithm'', JStr algorithm), (lit ''category'', JStr (lit category))] @
           (case message of Some m \<Rightarrow> [(lit ''message'', JStr m)] | None \<Rightarrow> []))"

fun is_message_entry :: "session_entry \<Rightarrow> bool" where
  "is_message_entry (Message _ _) = True"
| "is_message_entry _ = False"

fun entry_position :: "nat \<Rightarrow> ustr \<Rightarrow> session_entry list \<Rightarrow> nat option" where
  "entry_position i k [] = None"
| "entry_position i k (e # es) = (if entry_id e = k then Some i else entry_position (Suc i) k es)"

text \<open>The last block of \<open>do_compact\<close>: the new messages of the agent.\<close>

definition compacted_state ::
  "int \<Rightarrow> ustr \<Rightarrow> ustr \<Rightarrow> session_entry list \<Rightarrow> agent_message list \<Rightarrow> agent_message list" where
  "compacted_state now summary first_kept_entry_id entries messages =
     compaction_summary now summary #
     (if first_kept_entry_id = [] then []
      else case entry_position 0 first_kept_entry_id entries of
             None \<Rightarrow> []
           | Some real_idx \<Rightarrow>
               (let kept_in_memory_start = length (filter is_message_entry (take real_idx entries))
                in if kept_in_memory_start \<le> length messages then drop kept_in_memory_start messages else []))"

text \<open>
  What follows a summary: persist the entry, tell the listeners, replace the messages. \<open>now\<close> is the
  time of the entry and \<open>clock\<close> that of the new first message.
\<close>

definition apply_compaction ::
  "'s storage_ops \<Rightarrow> ustr \<Rightarrow> int \<Rightarrow> bool \<Rightarrow> scope \<Rightarrow> session_entry list \<Rightarrow> compaction_result \<Rightarrow> 's harness \<Rightarrow>
   (ustr + bool) \<times> 's harness" where
  "apply_compaction ops now clock from_hook sc entries result h =
     (let first_kept_entry_id = (case cr_first_kept_entry_id result of Some k \<Rightarrow> k | None \<Rightarrow> []);
          algorithm = cp_algorithm (hs_settings h)
      in case append_compaction ops now (cr_summary result) first_kept_entry_id (cr_tokens_before result)
                None from_hook (hs_session h) of
           (Inl err, s') \<Rightarrow>
             (Inl (lit ''session append compaction: '' @ se_message err),
              observe_compaction (CompactionFailed (failure_payload algorithm ''persistence'' (Some (se_message err))) False)
                (finish_compaction sc OFailed (Some EPersistence) (usage_measurements (cr_usage result))
                  (h\<lparr>hs_session := s'\<rparr>)))
         | (Inr _, s') \<Rightarrow>
             (Inr True,
              observe_compaction (CompactionSucceeded (JObj [(lit ''algorithm'', JStr algorithm),
                    (lit ''applied'', JBool True), (lit ''tokensBefore'', JNum (int (cr_tokens_before result))),
                    (lit ''firstKeptEntryId'', JStr first_kept_entry_id)]))
                (finish_compaction sc OSucceeded None (usage_measurements (cr_usage result))
                  ((emit_harness_event \<lparr>ev_from_hook = from_hook, ev_summary = cr_summary result,
                        ev_tokens_before = cr_tokens_before result\<rparr> (h\<lparr>hs_session := s'\<rparr>))
                     \<lparr>hs_messages := compacted_state clock (cr_summary result) first_kept_entry_id entries (hs_messages h)\<rparr>))))"

text \<open>The match on the outcome of the summary; \<open>None\<close> is the panic, which drops the scope.\<close>

definition settle_compaction ::
  "'s storage_ops \<Rightarrow> ustr \<Rightarrow> int \<Rightarrow> bool \<Rightarrow> scope \<Rightarrow> session_entry list \<Rightarrow>
   (summarize_error + compaction_result) option \<Rightarrow> 's harness \<Rightarrow> (ustr + bool) option \<times> 's harness" where
  "settle_compaction ops now clock from_hook sc entries outcome h =
     (let algorithm = cp_algorithm (hs_settings h)
      in case outcome of
           None \<Rightarrow> (None, h\<lparr>hs_obs := scope_drop sc (hs_obs h)\<rparr>)
         | Some (Inl SumAborted) \<Rightarrow>
             (Some (Inr False),
              observe_compaction (CompactionFailed (failure_payload algorithm ''cancelled'' None) True)
                (finish_compaction sc OCancelled (Some ECancellation) default_measurements h))
         | Some (Inl err) \<Rightarrow>
             (Some (Inl (lit ''compaction failed: '' @ summarize_error_str err)),
              observe_compaction (CompactionFailed
                  (failure_payload algorithm ''provider'' (Some (summarize_error_str err))) False)
                (finish_compaction sc OFailed (Some EProvider) default_measurements h))
         | Some (Inr result) \<Rightarrow>
             if cr_summary result = []
             then (Some (Inr False),
                   observe_compaction (CompactionSucceeded (JObj [(lit ''algorithm'', JStr algorithm),
                        (lit ''applied'', JBool False),
                        (lit ''tokensBefore'', JNum (int (cr_tokens_before result)))]))
                     (finish_compaction sc OSkipped None (usage_measurements (cr_usage result)) h))
             else map_prod Some id (apply_compaction ops now clock from_hook sc entries result h))"

definition do_compact ::
  "summarizer \<Rightarrow> extension_answers \<Rightarrow> 's storage_ops \<Rightarrow> ustr \<Rightarrow> int \<Rightarrow> bool \<Rightarrow> ustr option \<Rightarrow> 's harness \<Rightarrow>
   (ustr + bool) option \<times> 's harness" where
  "do_compact z xa ops now clock from_hook custom_instructions h =
     (case hs_model h of
        None \<Rightarrow> (Some (Inr False), h)
      | Some model \<Rightarrow>
          (let settings = hs_settings h; algorithm = cp_algorithm settings
           in case xa_before xa algorithm from_hook of
                Some message \<Rightarrow> (Some (Inl message), h)
              | None \<Rightarrow>
                  (let (sc, obs) = scope_start (hs_parent h) (hs_context h)
                         (DetCompaction algorithm (mo_provider model) (mo_id model)) (hs_obs h);
                       h1 = h\<lparr>hs_obs := obs\<rparr>
                   in case branch ops None (hs_session h1) of
                        (Inl err, s') \<Rightarrow>
                          (Some (Inr False),
                           observe_compaction (CompactionFailed (failure_payload algorithm ''persistence'' (Some (se_message err))) False)
                             (finish_compaction sc OFailed (Some EPersistence) default_measurements
                               (emit_harness_event \<lparr>ev_from_hook = from_hook,
                                  ev_summary = lit ''compaction skipped: session branch read failed: '' @ se_message err,
                                  ev_tokens_before = 0\<rparr> (h1\<lparr>hs_session := s'\<rparr>))))
                      | (Inr entries, s') \<Rightarrow>
                          (let h2 = h1\<lparr>hs_session := s'\<rparr>
                           in settle_compaction ops now clock from_hook sc entries
                                (compact_with_model_context z (algorithm_named z (hs_algorithms h2) algorithm)
                                   model entries (xa_context_messages xa) settings custom_instructions) h2))))"

text \<open>\<open>force_compact\<close> starts the extensions first, which is the extension runtime's own affair.\<close>

definition force_compact ::
  "summarizer \<Rightarrow> extension_answers \<Rightarrow> 's storage_ops \<Rightarrow> ustr \<Rightarrow> int \<Rightarrow> ustr option \<Rightarrow> 's harness \<Rightarrow>
   (ustr + bool) option \<times> 's harness" where
  "force_compact z xa ops now clock custom_instructions h = do_compact z xa ops now clock True custom_instructions h"

definition run_auto_compaction ::
  "summarizer \<Rightarrow> extension_answers \<Rightarrow> 's storage_ops \<Rightarrow> ustr \<Rightarrow> int \<Rightarrow> 's harness \<Rightarrow>
   (ustr + unit) option \<times> 's harness" where
  "run_auto_compaction z xa ops now clock h =
     (let settings = hs_settings h
      in if \<not> cp_enabled settings then (Some (Inr ()), h)
         else case hs_model h of
                None \<Rightarrow> (Some (Inr ()), h)
              | Some model \<Rightarrow>
                  (let context_tokens = ce_tokens (estimate_context_tokens (sz_show_json z) (hs_messages h));
                       algorithm = algorithm_named z (hs_algorithms h) (cp_algorithm settings)
                   in if \<not> ca_decide_compact algorithm context_tokens (mo_context_window model) settings
                      then (Some (Inr ()), h)
                      else (case do_compact z xa ops now clock False None h of
                              (r, h') \<Rightarrow> (map_option (map_sum id (\<lambda>_. ())) r, h'))))"

definition summarize_for_collapse ::
  "summarizer \<Rightarrow> extension_answers \<Rightarrow> 's storage_ops \<Rightarrow> ustr option \<Rightarrow> 's harness \<Rightarrow>
   (ustr + ustr option) \<times> 's harness" where
  "summarize_for_collapse z xa ops custom_instructions h =
     (case hs_model h of
        None \<Rightarrow> (Inr None, h)
      | Some model \<Rightarrow>
          (let settings = hs_settings h;
               algorithm = algorithm_named z (hs_algorithms h) (cp_algorithm settings)
           in case branch ops None (hs_session h) of
                (Inl _, s') \<Rightarrow> (Inr None, h\<lparr>hs_session := s'\<rparr>)
              | (Inr entries, s') \<Rightarrow>
                  (let messages = xa_context_messages xa @
                         project_summary_messages (sz_show_json z) (sz_parse_args z) entries
                   in if messages = [] then (Inr None, h\<lparr>hs_session := s'\<rparr>)
                      else case ca_summarize_prefix algorithm model
                                  \<lparr>sr_messages = messages, sr_custom_instructions = custom_instructions,
                                   sr_settings = settings\<rparr> of
                             Inr (summary, _) \<Rightarrow>
                               (Inr (if trim summary = [] then None else Some summary), h\<lparr>hs_session := s'\<rparr>)
                           | Inl SumAborted \<Rightarrow> (Inr None, h\<lparr>hs_session := s'\<rparr>)
                           | Inl err \<Rightarrow>
                               (Inl (lit ''collapse summarization failed: '' @ summarize_error_str err),
                                h\<lparr>hs_session := s'\<rparr>))))"

subsection \<open>Messages of the loop\<close>

text \<open>
  The run loop ends every message the same way (\<open>run_loop/mod.rs\<close>): a hook may replace it by one of the
  same kind, it becomes the last of the agent's messages, and the session's listener
  (\<open>make_session_listener\<close>) stores it; an error of the session is kept for the end of the run.
\<close>

fun same_message_role :: "agent_message \<Rightarrow> agent_message \<Rightarrow> bool" where
  "same_message_role (Llm (User _)) (Llm (User _)) = True"
| "same_message_role (Llm (Assistant _)) (Llm (Assistant _)) = True"
| "same_message_role (Llm (ToolResult _)) (Llm (ToolResult _)) = True"
| "same_message_role (Custom _) (Custom _) = True"
| "same_message_role _ _ = False"

definition persist_message :: "'s storage_ops \<Rightarrow> ustr \<Rightarrow> agent_message \<Rightarrow> 's harness \<Rightarrow> 's harness" where
  "persist_message ops now message h =
     (case append_message ops now message (hs_session h) of
        (Inl err, s') \<Rightarrow> h\<lparr>hs_session := s', hs_listener_errors := hs_listener_errors h @ [err]\<rparr>
      | (Inr _, s') \<Rightarrow> h\<lparr>hs_session := s'\<rparr>)"

definition finish_message ::
  "(agent_message \<Rightarrow> agent_message) option \<Rightarrow> 's storage_ops \<Rightarrow> ustr \<Rightarrow> agent_message \<Rightarrow> 's harness \<Rightarrow>
   agent_message \<times> 's harness" where
  "finish_message transform ops now original h =
     (let message = (case transform of
                       Some f \<Rightarrow> if same_message_role original (f original) then f original else original
                     | None \<Rightarrow> original)
      in (message, persist_message ops now message (h\<lparr>hs_messages := hs_messages h @ [message]\<rparr>)))"

end
