(* ===== verification/Compaction_Bounds.thy ===== *)
theory Compaction_Bounds
  imports Compaction
begin

text \<open>
  The bounds of a compaction: the cut point keeps what the settings ask for and folds the rest, the
  material given to the summarizer fits its budget, prompt and answer fit the model's window, and
  the retries end.
\<close>

subsection \<open>The cut point\<close>

text \<open>
  C28. The cut is at the start of the branch or at a user message; when the branch has the tokens to keep,
  at least that many follow the cut, and no later user message leaves as many. Entry and index agree.
\<close>
theorem find_cut_point_correct:
  "entries \<noteq> [] \<Longrightarrow>
   (let r = find_cut_point show_json entries settings; c = ct_cut_index r; keep = cp_keep_recent_tokens settings
    in c < length entries \<and> ct_first_kept_entry_id r = Some (entry_id (entries ! c)) \<and>
       (c = 0 \<or> is_user_entry (entries ! c)) \<and>
       (keep \<le> tokens_from show_json entries 0 \<longrightarrow>
          keep \<le> tokens_from show_json entries c \<and>
          (\<forall>j. c < j \<and> j < length entries \<and> is_user_entry (entries ! j) \<longrightarrow> tokens_from show_json entries j < keep)))"
proof -
  assume ne: "entries \<noteq> []"
  define keep where "keep = cp_keep_recent_tokens settings"
  define t where "t = target_walk show_json keep entries (length entries) 0 (length entries)"
  define n where "n = min t (length entries - 1) + 1"
  define c where "c = turn_walk entries n 0"
  from ne have n: "n \<le> length entries" "0 < n" by (cases entries; simp add: n_def min_def)+
  from turn_walk_spec [OF n(1)]
  have tc: "c = 0 \<or> c < n \<and> is_user_entry (entries ! c)" "\<And>j. c < j \<Longrightarrow> j < n \<Longrightarrow> \<not> is_user_entry (entries ! j)"
    by (auto simp: c_def Let_def)
  then have len: "c < length entries" using n by auto
  have res: "find_cut_point show_json entries settings =
      \<lparr>ct_cut_index = c, ct_first_kept_entry_id = Some (entry_id (entries ! c))\<rparr>"
    using ne len by (simp add: find_cut_point_def find_turn_start_index_def keep_def t_def n_def c_def Let_def)
  from target_walk_spec [of "length entries" entries 0 show_json keep "length entries"]
  have tw: "(t < length entries \<and> keep \<le> tokens_from show_json entries t \<and>
        (\<forall>j>t. j < length entries \<longrightarrow> tokens_from show_json entries j < keep)) \<or>
      (\<forall>j<length entries. tokens_from show_json entries j < keep)"
    by (auto simp: t_def Let_def tokens_from_def)
  have "keep \<le> tokens_from show_json entries c \<and>
      (\<forall>j. c < j \<and> j < length entries \<and> is_user_entry (entries ! j) \<longrightarrow> tokens_from show_json entries j < keep)"
    if "keep \<le> tokens_from show_json entries 0"
  proof -
    from tw that ne have t: "t < length entries" "keep \<le> tokens_from show_json entries t"
      "\<And>j. t < j \<Longrightarrow> j < length entries \<Longrightarrow> tokens_from show_json entries j < keep" by force+
    then have nt: "n = t + 1" by (simp add: n_def)
    then have "c \<le> t" using tc(1) by auto
    with t(2) tokens_from_antimono [of c t show_json entries] have "keep \<le> tokens_from show_json entries c" by linarith
    moreover have "tokens_from show_json entries j < keep"
      if "c < j" "j < length entries" "is_user_entry (entries ! j)" for j
      using t(3) [OF _ that(2)] tc(2) [OF that(1)] that(3) nt by (cases "t < j") auto
    ultimately show ?thesis by blast
  qed
  with res len tc(1) show ?thesis by (auto simp: Let_def keep_def)
qed

text \<open>
  A branch that is shorter than \<open>keep_recent_tokens\<close> is not kept whole: everything before its last
  user message is folded, so that fewer tokens stay than the settings ask for, although they were there.
\<close>
theorem short_branch_folded:
  assumes "tokens_from show_json entries 0 < cp_keep_recent_tokens settings"
    and "j < length entries" and "is_user_entry (entries ! j)"
  shows "j \<le> ct_cut_index (find_cut_point show_json entries settings)"
proof -
  let ?keep = "cp_keep_recent_tokens settings"
  define t where "t = target_walk show_json ?keep entries (length entries) 0 (length entries)"
  have small: "tokens_from show_json entries i < ?keep" for i
    using assms(1) tokens_from_antimono [of 0 i show_json entries] by simp
  from target_walk_spec [of "length entries" entries 0 show_json ?keep "length entries"]
  have "keep_ok \<or> t = length entries" if "keep_ok = (?keep \<le> tokens_from show_json entries t)" for keep_ok
    using that by (auto simp: t_def [symmetric] Let_def tokens_from_def)
  with small [of t] have t: "t = length entries" by auto
  from turn_walk_spec [of "length entries" entries] assms(2,3)
  have "\<not> turn_walk entries (length entries) 0 < j" by (auto simp: Let_def)
  moreover from assms(2) have "entries \<noteq> []" "min (length entries) (length entries - 1) + 1 = length entries"
    by auto
  ultimately show ?thesis
    using t by (simp add: find_cut_point_def find_turn_start_index_def Let_def t_def del: turn_walk.simps)
qed

subsection \<open>Budgets\<close>

lemma count_chars_ascii: "\<forall>c\<in>set s. is_ascii c \<Longrightarrow> count_chars s = (length s, 0)"
  by (induction s) auto

lemma suffix_walk_fits:
  assumes "div_ceil a 4 + n \<le> budget" and "count_chars pre = (a, n)"
  shows "suffix_walk budget cs a n \<le> length cs \<and>
         (case count_chars (pre @ take (length cs - suffix_walk budget cs a n) cs) of (a', n') \<Rightarrow> div_ceil a' 4 + n' \<le> budget)"
  using assms
proof (induction cs arbitrary: pre a n)
  case (Cons c cs)
  define a1 n1 where "a1 = (if is_ascii c then a + 1 else a)" and "n1 = (if is_ascii c then n else n + 1)"
  have step: "suffix_walk budget (c # cs) a n =
      (if div_ceil a1 4 + n1 > budget then length (c # cs) else suffix_walk budget cs a1 n1)"
    by (simp add: a1_def n1_def Let_def)
  have pre: "count_chars (pre @ [c]) = (a1, n1)"
    using Cons.prems(2) by (simp add: count_chars_append a1_def n1_def)
  show ?case
  proof (cases "div_ceil a1 4 + n1 > budget")
    case True
    with Cons.prems show ?thesis by (simp add: step del: suffix_walk.simps)
  next
    case False
    with Cons.IH [OF _ pre] have ih: "suffix_walk budget cs a1 n1 \<le> length cs"
      "case count_chars ((pre @ [c]) @ take (length cs - suffix_walk budget cs a1 n1) cs) of (a', n') \<Rightarrow> div_ceil a' 4 + n' \<le> budget"
      by auto
    from ih(1) have "length (c # cs) - suffix_walk budget cs a1 n1 = Suc (length cs - suffix_walk budget cs a1 n1)"
      by simp
    with ih False show ?thesis by (simp add: step del: suffix_walk.simps)
  qed
qed simp

lemma count_chars_rev: "count_chars (rev s) = count_chars s"
  by (induction s) (auto simp: count_chars_append split: prod.splits)

lemma suffix_fits:
  "estimate_text_tokens (drop (suffix_start_for_token_budget s budget) s) \<le> budget"
proof -
  have "rev (take (length s - k) (rev s)) = drop k s" if "k \<le> length s" for k
    using that by (simp add: rev_take rev_rev_ident)
  then have "count_chars (take (length s - k) (rev s)) = count_chars (drop k s)" if "k \<le> length s" for k
    using that by (metis count_chars_rev)
  with suffix_walk_fits [of 0 0 budget "[]" "rev s"] show ?thesis
    by (simp add: suffix_start_for_token_budget_def estimate_text_tokens_def div_ceil_def split: prod.splits)
qed

lemma older_note_ascii: "\<forall>c\<in>set older_note. is_ascii c"
  by code_simp

text \<open>
  C29. Whatever the conversation, the text given to the summarizer is estimated within what the budget
  leaves after the system prompt, the instructions and the framing.
\<close>
theorem conversation_within_budget:
  "estimate_text_tokens (serialize_conversation_for_summary_budget show_json to_uppercase now messages budget instr)
     \<le> budget - summary_prompt_overhead_tokens instr"
proof -
  define av where "av = budget - summary_prompt_overhead_tokens instr"
  have cut: "estimate_text_tokens (take (av * 4) older_note) \<le> av"
  proof -
    have "count_chars (take (av * 4) older_note) = (length (take (av * 4) older_note), 0)"
      using older_note_ascii by (intro count_chars_ascii) (auto dest: in_set_takeD)
    moreover have "div_ceil (length (take (av * 4) older_note)) 4 \<le> div_ceil (av * 4) 4"
      by (rule div_ceil_mono) simp
    ultimately show ?thesis by (simp add: estimate_text_tokens_def div_ceil_def)
  qed
  have fit: "estimate_text_tokens (older_note @ drop (suffix_start_for_token_budget s (av - estimate_text_tokens older_note)) s) \<le> av"
    if "estimate_text_tokens older_note < av" for s
    using that estimate_append [of older_note "drop (suffix_start_for_token_budget s (av - estimate_text_tokens older_note)) s"]
      suffix_fits [of s "av - estimate_text_tokens older_note"] by linarith
  show ?thesis
    unfolding serialize_conversation_for_summary_budget_def av_def [symmetric]
    by (simp only: Let_def split: if_split) (use cut fit in auto)
qed

text \<open>
  For a model with a known window, the prompt budget and the answer of the summarizer together stay
  within four fifths of the window plus a fifth of the answer, and so within the window; the answer is
  at least one token and never above the model's limit when it has one.
\<close>
theorem summary_call_fits_window:
  assumes "0 < mo_context_window model"
  shows "5 * summarization_prompt_budget model settings \<le>
           4 * (mo_context_window model - summary_output_tokens model settings) \<and>
         summarization_prompt_budget model settings + summary_output_tokens model settings \<le> mo_context_window model \<and>
         0 < summary_output_tokens model settings \<and>
         (0 < mo_max_tokens model \<longrightarrow> summary_output_tokens model settings \<le> mo_max_tokens model)"
proof -
  have "summary_output_tokens model settings \<le> mo_context_window model"
    using assms by (auto simp: summary_output_tokens_def Let_def)
  moreover have "0 < summary_output_tokens model settings"
    using assms by (simp add: summary_output_tokens_def Let_def)
  moreover have "0 < mo_max_tokens model \<longrightarrow> summary_output_tokens model settings \<le> mo_max_tokens model"
    by (auto simp: summary_output_tokens_def Let_def DEFAULT_COMPACTION_SETTINGS_def)
  ultimately show ?thesis using assms by (auto simp: summarization_prompt_budget_def)
qed

subsection \<open>The projection\<close>

lemma projected_loop_spec:
  "sum_list (map (estimate_tokens show_json) kept) = running \<Longrightarrow>
   \<exists>k. projected_loop show_json ms running kept = rev (take k ms) @ kept \<and>
       (kept \<noteq> [] \<and> running \<le> SUMMARY_PROJECTED_BUDGET_TOKENS \<longrightarrow>
          sum_list (map (estimate_tokens show_json) (rev (take k ms) @ kept)) \<le> SUMMARY_PROJECTED_BUDGET_TOKENS) \<and>
       (kept \<noteq> [] \<and> SUMMARY_PROJECTED_BUDGET_TOKENS < running \<longrightarrow>
          take k ms = [])"
proof (induction ms arbitrary: running kept)
  case Nil
  then show ?case by auto
next
  case (Cons m ms)
  show ?case
  proof (cases "kept \<noteq> [] \<and> running + estimate_tokens show_json m > SUMMARY_PROJECTED_BUDGET_TOKENS")
    case True
    then show ?thesis using Cons.prems by (intro exI [of _ 0]) (simp add: Let_def)
  next
    case False
    with Cons.IH [of "m # kept" "running + estimate_tokens show_json m"] Cons.prems obtain k where
      k: "projected_loop show_json (m # ms) running kept = rev (take (Suc k) (m # ms)) @ kept"
        "running + estimate_tokens show_json m \<le> SUMMARY_PROJECTED_BUDGET_TOKENS \<longrightarrow>
           sum_list (map (estimate_tokens show_json) (rev (take (Suc k) (m # ms)) @ kept)) \<le> SUMMARY_PROJECTED_BUDGET_TOKENS"
      by (auto simp: Let_def add.commute)
    then show ?thesis using False Cons.prems by (intro exI [of _ "Suc k"]) auto
  qed
qed

lemma trim_projected_spec:
  "\<exists>k. trim_projected_budget show_json ms = drop k ms \<and>
       (sum_list (map (estimate_tokens show_json) (drop k ms)) \<le> SUMMARY_PROJECTED_BUDGET_TOKENS \<or> length (drop k ms) \<le> 1) \<and>
       (ms \<noteq> [] \<longrightarrow> drop k ms \<noteq> [])"
proof (cases "sum_list (map (estimate_tokens show_json) ms) \<le> SUMMARY_PROJECTED_BUDGET_TOKENS \<or> length ms \<le> 1")
  case True
  then show ?thesis by (intro exI [of _ 0]) (auto simp: trim_projected_budget_def)
next
  case False
  then obtain init m where ms: "ms = init @ [m]" by (cases ms rule: rev_cases) auto
  let ?t = "estimate_tokens show_json m"
  from projected_loop_spec [of show_json "[m]" ?t "rev init"] obtain k where
    k: "projected_loop show_json (rev init) ?t [m] = rev (take k (rev init)) @ [m]"
      "?t \<le> SUMMARY_PROJECTED_BUDGET_TOKENS \<longrightarrow>
        sum_list (map (estimate_tokens show_json) (rev (take k (rev init)) @ [m])) \<le> SUMMARY_PROJECTED_BUDGET_TOKENS"
      "SUMMARY_PROJECTED_BUDGET_TOKENS < ?t \<longrightarrow> take k (rev init) = []" by auto
  have res: "rev (take k (rev init)) @ [m] = drop (length init - k) ms"
    by (simp add: ms rev_take)
  have "trim_projected_budget show_json ms = drop (length init - k) ms"
    using False k(1) by (simp add: trim_projected_budget_def ms Let_def rev_take)
  moreover have "sum_list (map (estimate_tokens show_json) (drop (length init - k) ms)) \<le> SUMMARY_PROJECTED_BUDGET_TOKENS \<or>
      length (drop (length init - k) ms) \<le> 1"
    using k(2,3) unfolding res [symmetric] by (cases "?t \<le> SUMMARY_PROJECTED_BUDGET_TOKENS") auto
  moreover have "drop (length init - k) ms \<noteq> []" by (simp add: ms)
  ultimately show ?thesis by blast
qed

text \<open>The size of the blocks a summarizer may see: the cap and the marker behind a cut text.\<close>

definition marker_length :: nat where "marker_length = 31"

fun user_block_capped :: "nat \<Rightarrow> user_content_block \<Rightarrow> bool" where
  "user_block_capped cap (UText t) = (length (tc_text t) \<le> cap + marker_length)"
| "user_block_capped cap (UImage _) = True"

fun content_block_capped :: "content_block \<Rightarrow> bool" where
  "content_block_capped (CText t) = (length (tc_text t) \<le> SUMMARY_TEXT_CAP + marker_length)"
| "content_block_capped (CThinking t) = (length (th_thinking t) \<le> SUMMARY_THINKING_CAP + marker_length)"
| "content_block_capped _ = True"

fun message_capped :: "agent_message \<Rightarrow> bool" where
  "message_capped (Llm (User u)) =
     (case um_content u of
        PlainText s \<Rightarrow> length s \<le> SUMMARY_TEXT_CAP + marker_length
      | Blocks bs \<Rightarrow> list_all (user_block_capped SUMMARY_TEXT_CAP) bs)"
| "message_capped (Llm (Assistant a)) = list_all content_block_capped (am_content a)"
| "message_capped (Llm (ToolResult tr)) =
     (list_all (user_block_capped SUMMARY_TOOL_CAP) (tr_content tr) \<and> tr_details tr = None)"
| "message_capped (Custom _) = False"

lemma truncate_capped: "length (truncate_chars_for_summary s cap) \<le> cap + marker_length"
  by (simp add: truncate_chars_for_summary_def marker_length_def)

lemma cap_user_block_capped: "user_block_capped cap (cap_user_block cap b)"
  by (cases b) (simp_all add: truncate_capped)

lemma cap_content_block_capped: "content_block_capped (cap_content_block show_json parse_args b)"
  by (cases b) (simp_all add: truncate_capped)

lemma project_capped: "project_summary_message show_json parse_args m = Some m' \<Longrightarrow> message_capped m'"
  by (induction show_json parse_args m rule: project_summary_message.induct)
    (auto simp: truncate_capped cap_user_block_capped cap_content_block_capped list_all_iff split: user_content.split)

definition projected :: "(json \<Rightarrow> ustr) \<Rightarrow> (ustr \<Rightarrow> (ustr \<times> json) list option) \<Rightarrow> session_entry list \<Rightarrow> agent_message list" where
  "projected show_json parse_args entries =
     List.map_filter (\<lambda>e. Option.bind (entry_message e) (project_summary_message show_json parse_args)) entries"

text \<open>
  What is summarized is the newest part of the projected conversation: it fits 96,000 tokens unless it
  is a single message, it is not empty when there is something to project, every text in it is capped,
  no tool-result details and no older summary are in it.
\<close>
theorem projection_bounded:
  "\<exists>k. project_summary_messages show_json parse_args entries = drop k (projected show_json parse_args entries) \<and>
       (sum_list (map (estimate_tokens show_json) (project_summary_messages show_json parse_args entries))
          \<le> SUMMARY_PROJECTED_BUDGET_TOKENS \<or>
        length (project_summary_messages show_json parse_args entries) \<le> 1) \<and>
       (project_summary_messages show_json parse_args entries = []) = (projected show_json parse_args entries = []) \<and>
       list_all message_capped (project_summary_messages show_json parse_args entries)"
proof -
  have all: "\<forall>m\<in>set (projected show_json parse_args entries). message_capped m"
    by (auto simp: projected_def map_filter_def bind_eq_Some_conv intro: project_capped)
  obtain k where k: "trim_projected_budget show_json (projected show_json parse_args entries) =
        drop k (projected show_json parse_args entries)"
      "sum_list (map (estimate_tokens show_json) (drop k (projected show_json parse_args entries)))
         \<le> SUMMARY_PROJECTED_BUDGET_TOKENS \<or> length (drop k (projected show_json parse_args entries)) \<le> 1"
      "projected show_json parse_args entries \<noteq> [] \<longrightarrow> drop k (projected show_json parse_args entries) \<noteq> []"
    using trim_projected_spec [of show_json "projected show_json parse_args entries"] by blast
  have "project_summary_messages show_json parse_args entries = drop k (projected show_json parse_args entries)"
    using k(1) by (simp add: project_summary_messages_def projected_def)
  with k(2,3) all show ?thesis by (intro exI [of _ k]) (auto simp: list_all_iff dest: in_set_dropD)
qed

subsection \<open>Retries\<close>

definition halved_budget :: "nat \<Rightarrow> nat" where
  "halved_budget b = max (b div 2) MIN_SUMMARY_PROMPT_BUDGET_TOKENS"

fun is_overflow :: "summarize_error + 'a \<Rightarrow> bool" where
  "is_overflow (Inl (ContextOverflow _)) = True"
| "is_overflow _ = False"

lemma retry_loop_spec:
  "attempts \<le> MAX_SUMMARY_OVERFLOW_RETRIES \<Longrightarrow>
   \<exists>k. attempts + k \<le> MAX_SUMMARY_OVERFLOW_RETRIES \<and> retry_loop gen budget attempts = gen ((halved_budget ^^ k) budget) \<and>
       (\<forall>j<k. is_overflow (gen ((halved_budget ^^ j) budget))) \<and>
       (is_overflow (gen ((halved_budget ^^ k) budget)) \<longrightarrow>
          attempts + k = MAX_SUMMARY_OVERFLOW_RETRIES \<or> (halved_budget ^^ k) budget \<le> MIN_SUMMARY_PROMPT_BUDGET_TOKENS)"
proof (induction gen budget attempts rule: retry_loop.induct)
  case (1 gen budget attempts)
  show ?case
  proof (cases "is_overflow (gen budget) \<and> attempts < MAX_SUMMARY_OVERFLOW_RETRIES \<and> MIN_SUMMARY_PROMPT_BUDGET_TOKENS < budget")
    case False
    then show ?thesis
      using 1(2) by (intro exI [of _ 0])
        (cases "gen budget" rule: is_overflow.cases; auto simp: retry_loop.simps [of gen budget] Let_def)
  next
    case True
    then obtain message where g: "gen budget = Inl (ContextOverflow message)"
      by (cases "gen budget" rule: is_overflow.cases) auto
    with True have step: "retry_loop gen budget attempts = retry_loop gen (halved_budget budget) (attempts + 1)"
      by (simp add: retry_loop.simps [of gen budget] Let_def halved_budget_def)
    have "\<not> (attempts + 1 > MAX_SUMMARY_OVERFLOW_RETRIES \<or> budget \<le> MIN_SUMMARY_PROMPT_BUDGET_TOKENS)"
      using True by simp
    from 1(1) [OF g _ refl this] True obtain k where
      k: "attempts + 1 + k \<le> MAX_SUMMARY_OVERFLOW_RETRIES"
        "retry_loop gen (halved_budget budget) (attempts + 1) = gen ((halved_budget ^^ k) (halved_budget budget))"
        "\<forall>j<k. is_overflow (gen ((halved_budget ^^ j) (halved_budget budget)))"
        "is_overflow (gen ((halved_budget ^^ k) (halved_budget budget))) \<longrightarrow>
           attempts + 1 + k = MAX_SUMMARY_OVERFLOW_RETRIES \<or>
           (halved_budget ^^ k) (halved_budget budget) \<le> MIN_SUMMARY_PROMPT_BUDGET_TOKENS"
      unfolding halved_budget_def [symmetric] by auto
    have shift: "(halved_budget ^^ Suc j) budget = (halved_budget ^^ j) (halved_budget budget)" for j
      by (simp only: funpow_Suc_right o_apply)
    have "\<forall>j<Suc k. is_overflow (gen ((halved_budget ^^ j) budget))"
      using k(3) g shift by (auto simp: less_Suc_eq_0_disj simp del: funpow.simps(2))
    then show ?thesis using k step by (intro exI [of _ "Suc k"]) (simp add: shift del: funpow.simps(2))
  qed
qed

text \<open>
  A summary takes at most four calls of the summarizer: the budget is halved only after an overflow,
  the answer of the last call is the result, and an overflow is returned only after the third retry or
  when the budget is at its minimum.
\<close>
theorem summarize_retries:
  "\<exists>k\<le>3. let gen = (\<lambda>budget. generate_summary z model
                 \<lparr>gr_messages = sr_messages request, gr_custom_instructions = sr_custom_instructions request,
                  gr_prompt_budget_tokens = Some budget,
                  gr_max_output_tokens = Some (summary_output_tokens model (sr_settings request))\<rparr>);
              budget = (\<lambda>j. (halved_budget ^^ j) (summarization_prompt_budget model (sr_settings request)))
          in summarize_with_llm z model request = gen (budget k) \<and>
             list_all (\<lambda>j. is_overflow (gen (budget j))) [0..<k] \<and>
             (is_overflow (gen (budget k)) \<longrightarrow> k = 3 \<or> budget k \<le> MIN_SUMMARY_PROMPT_BUDGET_TOKENS)"
  using retry_loop_spec [of 0 "\<lambda>budget. generate_summary z model
      \<lparr>gr_messages = sr_messages request, gr_custom_instructions = sr_custom_instructions request,
       gr_prompt_budget_tokens = Some budget,
       gr_max_output_tokens = Some (summary_output_tokens model (sr_settings request))\<rparr>"
      "summarization_prompt_budget model (sr_settings request)"]
  by (auto simp: summarize_with_llm_def Let_def MAX_SUMMARY_OVERFLOW_RETRIES_def list_all_iff)

subsection \<open>Witnesses\<close>

definition user_entry :: "nat \<Rightarrow> string \<Rightarrow> session_entry" where
  "user_entry i s =
     Message \<lparr>eh_id = show_nat i, eh_parent_id = (if i \<le> 1 then None else Some (show_nat (i - 1))), eh_timestamp = []\<rparr>
       (Llm (User \<lparr>um_content = PlainText (lit s), um_timestamp = 0\<rparr>))"

definition keep_settings :: "nat \<Rightarrow> compaction_settings" where
  "keep_settings k = DEFAULT_COMPACTION_SETTINGS\<lparr>cp_keep_recent_tokens := k\<rparr>"

definition three_users :: "session_entry list" where
  "three_users = [user_entry 1 ''first'', user_entry 2 ''second'', user_entry 3 ''third one'']"

lemma three_users_tokens:
  "tokens_from (\<lambda>_. []) three_users 0 = 7 \<and> tokens_from (\<lambda>_. []) three_users 1 = 5 \<and> tokens_from (\<lambda>_. []) three_users 2 = 3"
  by code_simp

lemma find_cut_point_correct_witness:
  "let c = ct_cut_index (find_cut_point (\<lambda>_. []) three_users (keep_settings 4))
   in 4 \<le> tokens_from (\<lambda>_. []) three_users c \<and> (c = 0 \<or> is_user_entry (three_users ! c))"
  using find_cut_point_correct [of three_users "\<lambda>_. []" "keep_settings 4"] three_users_tokens
  by (simp add: Let_def keep_settings_def) (simp add: three_users_def)

lemma short_branch_folded_witness:
  "2 \<le> ct_cut_index (find_cut_point (\<lambda>_. []) three_users (keep_settings 100)) \<and>
   tokens_from (\<lambda>_. []) three_users 2 < 100 \<and> tokens_from (\<lambda>_. []) three_users 2 < tokens_from (\<lambda>_. []) three_users 0"
  using short_branch_folded [of "\<lambda>_. []" three_users "keep_settings 100" 2] three_users_tokens
  by (simp add: keep_settings_def) (simp add: three_users_def user_entry_def)

definition sample_model :: model where
  "sample_model = \<lparr>mo_id = lit ''m'', mo_provider = lit ''p'', mo_context_window = 200000, mo_max_tokens = 8192\<rparr>"

lemma summary_call_fits_window_witness:
  "summarization_prompt_budget sample_model DEFAULT_COMPACTION_SETTINGS +
     summary_output_tokens sample_model DEFAULT_COMPACTION_SETTINGS \<le> 200000"
  using summary_call_fits_window [of sample_model DEFAULT_COMPACTION_SETTINGS] by (simp add: sample_model_def)

definition failed_message :: assistant_message where
  "failed_message =
     \<lparr>am_content = [], am_api = [], am_provider = [], am_model = [], am_response_model = None, am_response_id = None,
      am_diagnostics = None, am_usage = default_usage, am_stop_reason = SError, am_error_message = None, am_timestamp = 0\<rparr>"

text \<open>A provider that finds every prompt too long.\<close>

definition overflowing :: summarizer where
  "overflowing =
     \<lparr>sz_show_json = (\<lambda>_. []), sz_to_uppercase = id, sz_parse_args = (\<lambda>_. None), sz_now = 0,
      sz_stream = (\<lambda>_ _ _. [EvError RError failed_message]), sz_cancelled = (\<lambda>_. False), sz_overflow = (\<lambda>_ _. True)\<rparr>"

lemma overflowing_overflows: "is_overflow (generate_summary overflowing sample_model request)"
  by (simp add: generate_summary_def overflowing_def Let_def)

lemma summarize_retries_witness:
  "\<exists>k. k \<le> 3 \<and>
     (k = 3 \<or> (halved_budget ^^ k) (summarization_prompt_budget sample_model DEFAULT_COMPACTION_SETTINGS)
                \<le> MIN_SUMMARY_PROMPT_BUDGET_TOKENS) \<and>
     is_overflow (summarize_with_llm overflowing sample_model
       \<lparr>sr_messages = [], sr_custom_instructions = None, sr_settings = DEFAULT_COMPACTION_SETTINGS\<rparr>)"
  using summarize_retries [of overflowing sample_model
      "\<lparr>sr_messages = [], sr_custom_instructions = None, sr_settings = DEFAULT_COMPACTION_SETTINGS\<rparr>"]
    overflowing_overflows
  by (auto simp: Let_def)

end
