(* ===== verification/Compaction_Properties.thy ===== *)
theory Compaction_Properties
  imports Compaction_Bounds Session_Properties
begin

text \<open>
  A compaction as the harness runs it: what it leaves of the session and of the agent's messages on
  every outcome, its observation, and when the agent's messages are still the context the session
  replays. They are after the first compaction of a branch, and lose kept messages after the second.
\<close>

subsection \<open>Branches whose messages are all in memory\<close>

text \<open>The entries that add nothing but their message, if they are one, to a context.\<close>

fun mirrored :: "session_entry \<Rightarrow> bool" where
  "mirrored (Message _ _) = True"
| "mirrored (ThinkingLevelChange _ _) = True"
| "mirrored (ModelChange _ _ _) = True"
| "mirrored (Label _ _ _) = True"
| "mirrored (SessionInfo _ _) = True"
| "mirrored (ECustom _ custom_type _) = (custom_type \<noteq> COMPACT_CONTEXT_CUSTOM_TYPE)"
| "mirrored (BranchSummary _ _ summary _ _) = (summary = [])"
| "mirrored _ = False"

abbreviation messages_of :: "session_entry list \<Rightarrow> agent_message list" where
  "messages_of es \<equiv> List.map_filter entry_message es"

lemma messages_of_simps [simp]:
  "messages_of [] = []"
  "messages_of (e # es) = (case entry_message e of Some m \<Rightarrow> m # messages_of es | None \<Rightarrow> messages_of es)"
  "messages_of (es @ fs) = messages_of es @ messages_of fs"
  by (simp_all add: map_filter_def split: option.split)

lemma length_messages_of: "length (messages_of es) = length (filter is_message_entry es)"
proof (induction es)
  case (Cons e es)
  then show ?case by (cases e) simp_all
qed simp

lemma mirrored_messages: "mirrored e \<Longrightarrow> entry_messages now parse_ts i e = (case entry_message e of Some m \<Rightarrow> [m] | None \<Rightarrow> [])"
  by (cases e) simp_all

lemma all_messages_mirrored:
  "list_all mirrored es \<Longrightarrow> all_messages now parse_ts i es = messages_of es"
  by (induction es arbitrary: i) (simp_all add: mirrored_messages split: option.split)

lemma mirrored_not_compaction: "list_all mirrored es \<Longrightarrow> \<forall>e\<in>set es. \<not> is_compaction e"
  by (auto simp: list_all_iff elim!: is_compaction.elims(2))

lemma before_kept: "es = takeWhile (\<lambda>e. entry_id e \<noteq> k) es @ kept_from k es"
  by (simp add: kept_from_def)

lemma entry_position_eq:
  "entry_position i k es =
     (if kept_from k es = [] then None else Some (i + length (takeWhile (\<lambda>e. entry_id e \<noteq> k) es)))"
  by (induction es arbitrary: i) (auto simp: kept_from_def)

lemma kept_from_mirrored: "list_all mirrored es \<Longrightarrow> list_all mirrored (kept_from k es)"
  by (auto simp: list_all_iff kept_from_def dest: set_dropWhileD)

text \<open>On a mirrored branch the new messages are the summary and the messages kept.\<close>

lemma compacted_state_mirrored:
  assumes "k \<noteq> []"
  shows "compacted_state clock summary k es (messages_of es) = compaction_summary clock summary # messages_of (kept_from k es)"
proof -
  let ?pre = "takeWhile (\<lambda>e. entry_id e \<noteq> k) es"
  have es: "messages_of es = messages_of ?pre @ messages_of (kept_from k es)"
    by (subst before_kept [of es k]) simp
  have t: "take (length ?pre) es = ?pre" by (metis takeWhile_eq_take)
  show ?thesis
    using assms by (simp add: compacted_state_def entry_position_eq t length_messages_of [symmetric] es Let_def)
qed

subsection \<open>Outcomes\<close>

lemma finish_compaction_sel [simp]:
  "hs_session (finish_compaction sc out cat ms h) = hs_session h"
  "hs_messages (finish_compaction sc out cat ms h) = hs_messages h"
  "hs_obs (finish_compaction sc out cat ms h) = scope_finish out cat ms sc (hs_obs h)"
  "hs_session (observe_compaction x h) = hs_session h" "hs_messages (observe_compaction x h) = hs_messages h"
  "hs_obs (observe_compaction x h) = hs_obs h"
  "hs_session (emit_harness_event ev h) = hs_session h" "hs_messages (emit_harness_event ev h) = hs_messages h"
  "hs_obs (emit_harness_event ev h) = hs_obs h"
  "hs_settings (emit_harness_event ev h) = hs_settings h"
  by (simp_all add: finish_compaction_def observe_compaction_def emit_harness_event_def)

lemma apply_compaction_memory:
  assumes inv: "memory.session_inv uuid (hs_session h)"
  shows "\<exists>i s'. append_compaction (memory_ops uuid) now (cr_summary result)
             (case cr_first_kept_entry_id result of Some k \<Rightarrow> k | None \<Rightarrow> []) (cr_tokens_before result) None hook
             (hs_session h) = (Inr i, s') \<and>
           fst (apply_compaction (memory_ops uuid) now clock hook sc es result h) = Inr True \<and>
           hs_session (snd (apply_compaction (memory_ops uuid) now clock hook sc es result h)) = s' \<and>
           hs_messages (snd (apply_compaction (memory_ops uuid) now clock hook sc es result h)) =
             compacted_state clock (cr_summary result)
               (case cr_first_kept_entry_id result of Some k \<Rightarrow> k | None \<Rightarrow> []) es (hs_messages h)"
proof -
  let ?k = "case cr_first_kept_entry_id result of Some k \<Rightarrow> k | None \<Rightarrow> []"
  from memory.append_child [OF inv, where mk = "\<lambda>i parent. Compaction \<lparr>eh_id = i, eh_parent_id = parent, eh_timestamp = now\<rparr>
        (cr_summary result) ?k (cr_tokens_before result) None (if hook then Some True else None)"] obtain i s' where
    "append_compaction (memory_ops uuid) now (cr_summary result) ?k (cr_tokens_before result) None hook (hs_session h) = (Inr i, s')"
    by (auto simp: append_compaction_def)
  then show ?thesis by (simp add: apply_compaction_def Let_def)
qed

lemma settle_compaction_cases:
  assumes inv: "memory.session_inv uuid (hs_session h)"
    and d: "settle_compaction (memory_ops uuid) now clock hook sc p outcome h = (r, h')"
  obtains "r \<noteq> Some (Inr True)" "hs_session h' = hs_session h" "hs_messages h' = hs_messages h"
  | summary k tokens i where "r = Some (Inr True)"
      "append_compaction (memory_ops uuid) now summary k tokens None hook (hs_session h) = (Inr i, hs_session h')"
      "hs_messages h' = compacted_state clock summary k p (hs_messages h)"
proof (cases "\<exists>result. outcome = Some (Inr result) \<and> cr_summary result \<noteq> []")
  case True
  then obtain result where "outcome = Some (Inr result)" "cr_summary result \<noteq> []" by blast
  with d have "r = Some (fst (apply_compaction (memory_ops uuid) now clock hook sc p result h))"
    "h' = snd (apply_compaction (memory_ops uuid) now clock hook sc p result h)"
    by (auto simp: settle_compaction_def map_prod_def split: prod.splits)
  with apply_compaction_memory [OF inv, of now result hook clock sc p] that(2) show ?thesis by auto
next
  case False
  with d that(1) show ?thesis
    by (auto simp: settle_compaction_def Let_def split: option.splits sum.splits summarize_error.splits if_splits)
qed

text \<open>What a compaction of a readable session does, by its result.\<close>

lemma do_compact_cases:
  assumes inv: "memory.session_inv uuid (hs_session h)"
    and b: "branch (memory_ops uuid) None (hs_session h) = (Inr p, hs_session h)"
    and d: "do_compact z xa (memory_ops uuid) now clock hook instr h = (r, h')"
  obtains "r \<noteq> Some (Inr True)" "hs_session h' = hs_session h" "hs_messages h' = hs_messages h"
  | summary k tokens i where "r = Some (Inr True)"
      "append_compaction (memory_ops uuid) now summary k tokens None hook (hs_session h) = (Inr i, hs_session h')"
      "hs_messages h' = compacted_state clock summary k p (hs_messages h)"
proof (cases "(hs_model h, case hs_model h of None \<Rightarrow> None | Some m \<Rightarrow> xa_before xa (cp_algorithm (hs_settings h)) hook)")
  case (Pair m x)
  then consider "r = Some (Inr False) \<and> h' = h" | message where "r = Some (Inl message) \<and> h' = h"
    | sc o' outcome where "settle_compaction (memory_ops uuid) now clock hook sc p outcome
          (h\<lparr>hs_obs := o', hs_session := hs_session h\<rparr>) = (r, h')"
    using d by (auto simp: do_compact_def Let_def b split: option.splits prod.splits)
  then show ?thesis
  proof cases
    case (3 sc o' outcome)
    from inv have "memory.session_inv uuid (hs_session (h\<lparr>hs_obs := o', hs_session := hs_session h\<rparr>))" by simp
    from settle_compaction_cases [OF this 3] that show ?thesis by auto
  qed (use that(1) in auto)
qed

text \<open>
  C33. A compaction that does not report success, whatever the summarizer, the extensions and the algorithm
  do, a panic included, leaves the session and the agent's messages as they were.
\<close>
theorem failed_compaction_changes_nothing:
  assumes "inj uuid" and "hs_session h = session_after uuid created stamp rs"
    and "fst (do_compact z xa (memory_ops uuid) now clock hook instr h) \<noteq> Some (Inr True)"
  shows "hs_session (snd (do_compact z xa (memory_ops uuid) now clock hook instr h)) = hs_session h \<and>
         hs_messages (snd (do_compact z xa (memory_ops uuid) now clock hook instr h)) = hs_messages h"
proof -
  have inv: "memory.session_inv uuid (hs_session h)" unfolding assms(2) by (rule after_inv [OF assms(1)])
  from after_branch [OF assms(1), of created stamp rs] obtain p where
    "branch (memory_ops uuid) None (hs_session h) = (Inr p, hs_session h)" by (metis assms(2))
  from do_compact_cases [OF inv this prod.collapse [symmetric], of z xa now clock hook instr] assms(3)
  show ?thesis by metis
qed

text \<open>
  C27. The agent's messages stay the context that the session replays: on a branch whose messages are all
  in memory (no branch summary, custom message or compact-context entry: \<open>mirrored\<close>) and that was not
  compacted before, a compaction by any algorithm leaves in memory exactly the context of the session it
  wrote, summary included, when the session is read at the time the summary was stamped with. Ids are not
  empty.
\<close>
theorem compaction_mirrors_session:
  assumes "inj uuid" and "[] \<notin> range uuid" and "hs_session h = session_after uuid created stamp rs"
    and "branch (memory_ops uuid) None (hs_session h) = (Inr p, hs_session h)" and "list_all mirrored p"
    and "hs_messages h = sc_messages (build_session_context clock parse_ts p)"
    and "do_compact z xa (memory_ops uuid) now (clock (length p)) hook instr h = (Some (Inr True), h')"
  shows "map_sum id sc_messages (fst (build_context (memory_ops uuid) clock parse_ts (hs_session h'))) = Inr (hs_messages h')"
proof -
  have inv: "memory.session_inv uuid (hs_session h)" unfolding assms(3) by (rule after_inv [OF assms(1)])
  from do_compact_cases [OF inv assms(4) assms(7)] obtain summary k tokens i where
    a: "append_compaction (memory_ops uuid) now summary k tokens None hook (hs_session h) = (Inr i, hs_session h')"
       "hs_messages h' = compacted_state (clock (length p)) summary k p (hs_messages h)" by metis
  from append_compaction_after [OF assms(1), where created = created and now = stamp and rs = rs and t = now and
      summary = summary and k = k and tokens = tokens and details = None and hook = hook and clock = clock and parse_ts = parse_ts] a(1)
  have c: "map_sum id sc_messages (fst (build_context (memory_ops uuid) clock parse_ts (hs_session h'))) =
      Inr (compaction_summary (clock (length p)) summary #
           all_messages clock parse_ts (length p - length (kept_from k p)) (kept_from k p))"
    using assms(4) by (auto simp: assms(3))
  have m: "hs_messages h = messages_of p"
    using assms(5) by (simp add: assms(6) context_messages_plain mirrored_not_compaction all_messages_mirrored)
  have kept: "all_messages clock parse_ts j (kept_from k p) = messages_of (kept_from k p)" for j
    by (rule all_messages_mirrored [OF kept_from_mirrored [OF assms(5)]])
  show ?thesis
  proof (cases "k = []")
    case True
    have "set p \<subseteq> set (mem_entries (hs_session h))"
      using assms(4) inv chain_entries [of "mem_entries (hs_session h)" "mem_leaf (hs_session h)" "rev p"]
      by (auto simp: memory.branch_eq memory.inv_ok path_of_iff)
    then have "entry_id e \<noteq> []" if "e \<in> set p" for e
      using that inv assms(2) by (force simp: memory.session_inv_def mem_minted_def)
    then have "kept_from k p = []" using True by (simp add: kept_from_def)
    with c a(2) True show ?thesis by (simp add: compacted_state_def)
  next
    case False
    with c a(2) show ?thesis by (simp add: m kept compacted_state_mirrored)
  qed
qed

text \<open>Ending a message of the loop keeps the messages the context of the session.\<close>

theorem finish_message_mirrors:
  assumes "inj uuid" and "hs_session h = session_after uuid created stamp rs"
    and "map_sum id sc_messages (fst (build_context (memory_ops uuid) clock parse_ts (hs_session h))) = Inr (hs_messages h)"
    and "finish_message transform (memory_ops uuid) now original h = (m, h')"
  shows "map_sum id sc_messages (fst (build_context (memory_ops uuid) clock parse_ts (hs_session h'))) = Inr (hs_messages h') \<and>
         hs_messages h' = hs_messages h @ [m] \<and> same_message_role original m \<and>
         hs_listener_errors h' = hs_listener_errors h"
proof -
  from append_message_after [OF assms(1), where created = created and now = stamp and rs = rs and t = now and
      m = m and clock = clock and parse_ts = parse_ts]
  obtain c i s' where c: "build_context (memory_ops uuid) clock parse_ts (hs_session h) = (Inr c, hs_session h)"
    "append_message (memory_ops uuid) now m (hs_session h) = (Inr i, s')"
    "map_sum id sc_messages (fst (build_context (memory_ops uuid) clock parse_ts s')) = Inr (sc_messages c @ [m])"
    by (auto simp: assms(2))
  have "same_message_role original original"
    by (cases original rule: message_capped.cases) auto
  with assms(3,4) c show ?thesis
    by (auto simp: finish_message_def persist_message_def Let_def split: option.splits if_splits)
qed

subsection \<open>A second compaction\<close>

lemma kept_from_split:
  assumes "entry_id e = k" and "k \<notin> entry_id ` set es"
  shows "kept_from k (es @ e # fs) = e # fs" "takeWhile (\<lambda>x. entry_id x \<noteq> k) (es @ e # fs) = es"
proof -
  have "\<And>x. x \<in> set es \<Longrightarrow> entry_id x \<noteq> k" using assms(2) by force
  then show "kept_from k (es @ e # fs) = e # fs" "takeWhile (\<lambda>x. entry_id x \<noteq> k) (es @ e # fs) = es"
    using assms(1) by (simp_all add: kept_from_def)
qed

text \<open>
  C32. A branch that was compacted before has in memory a summary in the place of the \<open>f\<close> messages it
  folded. The index of the first kept message still counts the messages of the whole branch, so the
  next compaction, keeping a later entry, drops \<open>f - 1\<close> of the messages it keeps from memory, while
  the session's context has them all.
\<close>
theorem second_compaction_drops_kept:
  assumes "list_all mirrored pre" and "list_all mirrored (q @ e # r)"
    and "p = pre @ Compaction c summary k n d b # q @ e # r" and "distinct (map entry_id p)" and "entry_id e \<noteq> []"
    and "f = length (messages_of (takeWhile (\<lambda>x. entry_id x \<noteq> k) pre))" and "0 < f"
    and "msgs = sc_messages (build_session_context clock parse_ts p)"
  shows "compacted_state (clock (length p)) summary' (entry_id e) p msgs =
           compaction_summary (clock (length p)) summary' # drop (f - 1) (messages_of (e # r)) \<and>
         sc_messages (build_session_context clock parse_ts (p @ [Compaction c' summary' (entry_id e) n' d' b'])) =
           compaction_summary (clock (length p)) summary' # messages_of (e # r)"
proof -
  define kept where "kept = kept_from k pre"
  define folded where "folded = takeWhile (\<lambda>x. entry_id x \<noteq> k) pre"
  have pre: "pre = folded @ kept" by (simp add: kept_def folded_def before_kept [of pre k, symmetric])
  have rest: "\<forall>x\<in>set (q @ e # r). \<not> is_compaction x" by (rule mirrored_not_compaction [OF assms(2)])
  have m: "msgs = compaction_summary (clock (length pre)) summary # messages_of kept @ messages_of (q @ e # r)"
    using assms(1,2) context_messages_compacted [OF rest]
    by (simp add: assms(3,8) all_messages_mirrored kept_from_mirrored kept_def del: messages_of_simps)
  have e: "entry_id e \<notin> entry_id ` set (pre @ Compaction c summary k n d b # q)"
    using assms(3,4) by force
  have p: "p = (pre @ Compaction c summary k n d b # q) @ e # r" by (simp add: assms(3))
  note split = kept_from_split [OF refl e, of r, folded p]
  have start: "length (filter is_message_entry (take (length (pre @ Compaction c summary k n d b # q)) p)) =
      f + length (messages_of kept) + length (messages_of q)"
    using assms(6) by (simp add: p folded_def [symmetric] length_messages_of [symmetric]) (simp add: pre)
  have "drop (f + length (messages_of kept) + length (messages_of q)) msgs = drop (f - 1) (messages_of (e # r))"
  proof -
    obtain f' where f: "f = Suc f'" using assms(7) by (cases f) auto
    show ?thesis by (simp add: m f drop_append del: messages_of_simps(2))
  qed
  moreover have "drop j msgs = []" if "\<not> j \<le> length msgs" for j using that by simp
  ultimately have "compacted_state (clock (length p)) summary' (entry_id e) p msgs =
      compaction_summary (clock (length p)) summary' # drop (f - 1) (messages_of (e # r))"
    using assms(5) start by (auto simp: compacted_state_def entry_position_eq split Let_def simp del: messages_of_simps)
  moreover have "sc_messages (build_session_context clock parse_ts (p @ [Compaction c' summary' (entry_id e) n' d' b'])) =
      compaction_summary (clock (length p)) summary' # messages_of (e # r)"
    using assms(2) context_messages_compacted [of "[]" clock parse_ts p c' summary' "entry_id e" n' d' b']
    by (simp add: split all_messages_mirrored mirrored_messages split: option.split)
  ultimately show ?thesis by blast
qed

subsection \<open>When a compaction is due\<close>

lemma last_usage_shift:
  "last_usage i ms acc = (case last_usage 0 ms None of None \<Rightarrow> acc | Some (j, u) \<Rightarrow> Some (i + j, u))"
proof (induction ms arbitrary: i acc)
  case (Cons m ms)
  show ?case
    by (simp only: last_usage.simps Cons.IH [of "Suc i"] Cons.IH [of "Suc 0"])
      (auto split: option.splits)
qed simp

lemma last_usage_append:
  "last_usage 0 (xs @ ys) None =
     (case last_usage 0 ys None of Some (j, u) \<Rightarrow> Some (length xs + j, u) | None \<Rightarrow> last_usage 0 xs None)"
proof -
  have "last_usage i (xs @ ys) acc = last_usage (i + length xs) ys (last_usage i xs acc)" for i acc
    by (induction xs arbitrary: i acc) auto
  then show ?thesis
    by (simp add: last_usage_shift [of "length xs"])
qed

lemma last_usage_less: "last_usage 0 ms None = Some (j, u) \<Longrightarrow> j < length ms"
  by (induction ms arbitrary: j rule: rev_induct) (auto simp: last_usage_append split: option.splits)

text \<open>
  A compaction that keeps the last answer with a usage does not lower the estimate of the context: it
  is that usage, measured before the compaction, plus what follows it. The next check decides as the
  last one did.
\<close>
theorem compaction_keeps_estimate:
  assumes "ce_last_usage_index (estimate_context_tokens show_json msgs) = Some idx"
    and "entry_position 0 k es = Some i" and "k \<noteq> []"
    and "length (filter is_message_entry (take i es)) \<le> idx"
  shows "ce_tokens (estimate_context_tokens show_json (compacted_state clock summary k es msgs)) =
         ce_tokens (estimate_context_tokens show_json msgs)"
proof -
  define n where "n = length (filter is_message_entry (take i es))"
  from assms(1) obtain u where u: "last_usage 0 msgs None = Some (idx, u)"
    by (auto simp: estimate_context_tokens_def Let_def split: option.splits)
  then have len: "idx < length msgs" by (rule last_usage_less)
  have n: "n \<le> idx" using assms(4) by (simp add: n_def)
  have new: "compacted_state clock summary k es msgs = [compaction_summary clock summary] @ drop n msgs"
    using assms(2,3) n len by (simp add: compacted_state_def n_def Let_def)
  have tail: "last_usage 0 (drop n msgs) None = Some (idx - n, u)"
  proof -
    have no: "last_usage 0 (take n msgs) None \<noteq> Some (idx, u)"
      using n last_usage_less [of "take n msgs" idx u] by auto
    have eq: "Some (idx, u) = (case last_usage 0 (drop n msgs) None of
        Some (j, v) \<Rightarrow> Some (length (take n msgs) + j, v) | None \<Rightarrow> last_usage 0 (take n msgs) None)"
      using last_usage_append [of "take n msgs" "drop n msgs"] u by (simp only: append_take_drop_id)
    have "length (take n msgs) = n" using len n by simp
    with eq no show ?thesis by (cases "last_usage 0 (drop n msgs) None") auto
  qed
  have "last_usage 0 ([compaction_summary clock summary] @ drop n msgs) None = Some (1 + (idx - n), u)"
    unfolding last_usage_append tail by simp
  then show ?thesis
    using n u by (simp add: new estimate_context_tokens_def Let_def)
qed

text \<open>
  A model whose window is unknown (0) has a threshold of 0: the builtin algorithm compacts before every
  prompt of a session with messages, however short.
\<close>
theorem unknown_window_always_compacts:
  assumes "hs_model h = Some model" and "mo_context_window model = 0" and "cp_enabled (hs_settings h)"
    and "cp_algorithm (hs_settings h) = default_compaction_algorithm"
    and "0 < ce_tokens (estimate_context_tokens (sz_show_json z) (hs_messages h))"
  shows "snd (run_auto_compaction z xa ops now clock h) = snd (do_compact z xa ops now clock False None h)"
  using assms
  by (simp add: run_auto_compaction_def algorithm_named_def builtin_algorithm_def default_algorithm_def should_compact_def
      default_compaction_algorithm_def Let_def split: prod.split)

subsection \<open>Observation\<close>

lemma scope_drop_finish:
  "\<not> sc_finished sc \<Longrightarrow> scope_drop sc o1 = scope_finish OAbandoned (Some ERuntime) default_measurements sc o1"
  by (simp add: scope_drop_def emit_finish_def scope_finish_log)

lemma finish_open_scope:
  assumes "obs_wf (sc # scs) o1"
  shows "obs_wf scs (scope_finish out cat ms sc o1)"
proof -
  have "sc = sc\<lparr>sc_content := sc_content sc\<rparr>" by simp
  with scope_finish_wf [of "[]" sc scs o1 out cat ms "sc_content sc"] assms show ?thesis by simp
qed

lemma settle_compaction_observed:
  assumes "obs_wf (sc # scs) (hs_obs h)"
  shows "obs_wf scs (hs_obs (snd (settle_compaction ops now clock hook sc p outcome h)))"
proof -
  have "\<not> sc_finished sc" using assms by (simp add: obs_wf_def)
  moreover have "obs_wf scs (hs_obs (snd (apply_compaction ops now clock hook sc p result h)))" for result
    using finish_open_scope [OF assms] by (simp add: apply_compaction_def Let_def split: prod.split sum.split)
  ultimately show ?thesis
    using finish_open_scope [OF assms]
    by (auto simp: settle_compaction_def Let_def scope_drop_finish split: option.split sum.split summarize_error.split)
qed

text \<open>
  A compaction is observed once: on every path, errors and panics included, the scope it started is
  finished, and the log stays well formed with the scopes that were open before.
\<close>
theorem compaction_observed:
  assumes "obs_wf scs (hs_obs h)"
  shows "obs_wf scs (hs_obs (snd (do_compact z xa ops now clock hook instr h)))"
proof -
  have "obs_wf scs (hs_obs (snd (do_compact z xa ops now clock hook instr h)))"
    if "hs_model h = Some model" "xa_before xa (cp_algorithm (hs_settings h)) hook = None" for model
  proof -
    obtain sc o' where s: "scope_start (hs_parent h) (hs_context h)
         (DetCompaction (cp_algorithm (hs_settings h)) (mo_provider model) (mo_id model)) (hs_obs h) = (sc, o')" by force
    have wf: "obs_wf (sc # scs) o'" by (rule scope_start_wf [OF assms s])
    then have settle: "obs_wf scs (hs_obs (snd (settle_compaction ops now clock hook sc p outcome (h\<lparr>hs_obs := o', hs_session := s'\<rparr>))))"
      for p outcome s' by (intro settle_compaction_observed) simp
    show ?thesis
      using that settle finish_open_scope [OF wf]
      by (simp add: do_compact_def s Let_def split: prod.split sum.split)
  qed
  with assms show ?thesis by (simp add: do_compact_def Let_def split: option.split)
qed

subsection \<open>Witnesses\<close>

text \<open>
  A provider that answers every prompt with one text, a session of three user messages, and a harness
  that has them in memory.
\<close>

definition answering :: summarizer where
  "answering =
     \<lparr>sz_show_json = (\<lambda>_. []), sz_to_uppercase = id, sz_parse_args = (\<lambda>_. None), sz_now = 0,
      sz_stream = (\<lambda>_ _ _. [EvDone DStop (failed_message\<lparr>am_content := [CText \<lparr>tc_text = lit ''S'', tc_signature = None\<rparr>]\<rparr>)]),
      sz_cancelled = (\<lambda>_. False), sz_overflow = (\<lambda>_ _. False)\<rparr>"

definition no_extensions :: extension_answers where
  "no_extensions = \<lparr>xa_before = (\<lambda>_ _. None), xa_context_messages = []\<rparr>"

definition first_obs :: obs where
  "first_obs = \<lparr>o_next = 1, o_instant = 0, o_include_content = False, o_log = []\<rparr>"

definition user_said :: "string \<Rightarrow> agent_message" where
  "user_said s = Llm (User \<lparr>um_content = PlainText (lit s), um_timestamp = 0\<rparr>)"

definition talk_ops :: "session_op list" where
  "talk_ops = map (\<lambda>s. OMessage (user_said s)) [''first'', ''second'', ''third one'']"

definition talk :: memory_storage where
  "talk = session_after show_nat [] (\<lambda>_. []) talk_ops"

definition talk_harness :: "nat \<Rightarrow> memory_storage harness" where
  "talk_harness window =
     \<lparr>hs_session = talk, hs_model = Some (sample_model\<lparr>mo_context_window := window\<rparr>),
      hs_messages = map user_said [''first'', ''second'', ''third one''], hs_settings = keep_settings 4,
      hs_algorithms = registry_new, hs_parent = None, hs_context = default_context, hs_obs = first_obs,
      hs_events = [], hs_extension_events = [], hs_listener_errors = []\<rparr>"

lemma talk_branch: "branch (memory_ops show_nat) None talk = (Inr (mem_entries talk), talk)"
  by code_simp

lemma talk_facts:
  "list_all mirrored (mem_entries talk)"
  "map user_said [''first'', ''second'', ''third one''] = messages_of (mem_entries talk)"
  by code_simp+

lemma show_nat_not_empty: "[] \<notin> range show_nat"
  using show_nat_digits by (metis rangeE)

lemma talk_compacts:
  "fst (do_compact answering no_extensions (memory_ops show_nat) [] 7 True None (talk_harness 200000)) = Some (Inr True)"
  by code_simp

lemma failed_compaction_changes_nothing_witness:
  "hs_session (snd (do_compact overflowing no_extensions (memory_ops show_nat) [] 7 True None (talk_harness 200000))) = talk \<and>
   hs_messages (snd (do_compact overflowing no_extensions (memory_ops show_nat) [] 7 True None (talk_harness 200000))) =
     map user_said [''first'', ''second'', ''third one'']"
proof -
  have "fst (do_compact overflowing no_extensions (memory_ops show_nat) [] 7 True None (talk_harness 200000)) \<noteq> Some (Inr True)"
    by code_simp
  from failed_compaction_changes_nothing [OF inj_show_nat _ this, of "[]" "\<lambda>_. []" talk_ops]
  show ?thesis by (simp add: talk_harness_def talk_def)
qed

lemma compaction_mirrors_session_witness:
  "let h' = snd (do_compact answering no_extensions (memory_ops show_nat) [] 7 True None (talk_harness 200000))
   in map_sum id sc_messages (fst (build_context (memory_ops show_nat) (\<lambda>_. 7) (\<lambda>_. None) (hs_session h'))) =
        Inr (hs_messages h') \<and> length (hs_messages h') = 3"
proof -
  let ?h = "talk_harness 200000"
  let ?r = "do_compact answering no_extensions (memory_ops show_nat) [] 7 True None ?h"
  have m: "hs_messages ?h = sc_messages (build_session_context (\<lambda>_. 7) (\<lambda>_. None) (mem_entries talk))"
    using talk_facts by (simp add: talk_harness_def context_messages_plain mirrored_not_compaction all_messages_mirrored)
  have "hs_session ?h = session_after show_nat [] (\<lambda>_. []) talk_ops"
    "branch (memory_ops show_nat) None (hs_session ?h) = (Inr (mem_entries talk), hs_session ?h)"
    "?r = (Some (Inr True), snd ?r)"
    using talk_branch talk_compacts by (auto simp: talk_harness_def talk_def prod_eq_iff)
  from compaction_mirrors_session [OF inj_show_nat show_nat_not_empty this(1,2) talk_facts(1) m this(3)]
  have "map_sum id sc_messages (fst (build_context (memory_ops show_nat) (\<lambda>_. 7) (\<lambda>_. None) (hs_session (snd ?r)))) =
      Inr (hs_messages (snd ?r))" .
  moreover have "length (hs_messages (snd ?r)) = 3" by code_simp
  ultimately show ?thesis by (simp add: Let_def)
qed

lemma finish_message_mirrors_witness:
  "let h' = snd (finish_message None (memory_ops show_nat) [] (user_said ''next'') (talk_harness 1))
   in map_sum id sc_messages (fst (build_context (memory_ops show_nat) (\<lambda>_. 7) (\<lambda>_. None) (hs_session h'))) =
        Inr (hs_messages h') \<and> hs_messages h' = hs_messages (talk_harness 1) @ [user_said ''next'']"
proof -
  let ?h = "talk_harness 1"
  have "map_sum id sc_messages (fst (build_context (memory_ops show_nat) (\<lambda>_. 7) (\<lambda>_. None) (hs_session ?h))) = Inr (hs_messages ?h)"
    using talk_facts by (simp add: talk_harness_def build_context_eq [OF talk_branch] context_messages_plain
        mirrored_not_compaction all_messages_mirrored)
  from finish_message_mirrors [OF inj_show_nat _ this prod.collapse [symmetric], of "[]" "\<lambda>_. []" talk_ops None "[]" "user_said ''next''"]
  show ?thesis by (simp add: talk_harness_def talk_def finish_message_def Let_def)
qed

text \<open>
  Three prompts, a compaction that keeps the third, and a fourth prompt that the next compaction keeps:
  the session's context has it, the agent's messages are the summary alone.
\<close>

definition compacted_talk :: "session_entry list" where
  "compacted_talk =
     three_users @ [Compaction \<lparr>eh_id = show_nat 4, eh_parent_id = Some (show_nat 3), eh_timestamp = []\<rparr> (lit ''S'') (show_nat 3) 4 None None,
                    user_entry 5 ''fourth'']"

lemma second_compaction_drops_kept_witness:
  "compacted_state 7 (lit ''S2'') (show_nat 5) compacted_talk
       (sc_messages (build_session_context (\<lambda>_. 7) (\<lambda>_. None) compacted_talk)) = [compaction_summary 7 (lit ''S2'')] \<and>
   sc_messages (build_session_context (\<lambda>_. 7) (\<lambda>_. None)
       (compacted_talk @ [Compaction \<lparr>eh_id = show_nat 6, eh_parent_id = Some (show_nat 5), eh_timestamp = []\<rparr> (lit ''S2'') (show_nat 5) 9 None None])) =
     [compaction_summary 7 (lit ''S2''), user_said ''fourth'']"
proof -
  have a: "list_all mirrored three_users" "list_all mirrored ([] @ user_entry 5 ''fourth'' # [])"
    "distinct (map entry_id compacted_talk)" "entry_id (user_entry 5 ''fourth'') \<noteq> []"
    "2 = length (messages_of (takeWhile (\<lambda>x. entry_id x \<noteq> show_nat 3) three_users))"
    "messages_of (user_entry 5 ''fourth'' # []) = [user_said ''fourth'']"
    "entry_id (user_entry 5 ''fourth'') = show_nat 5"
    by code_simp+
  have p: "compacted_talk = three_users @ Compaction \<lparr>eh_id = show_nat 4, eh_parent_id = Some (show_nat 3), eh_timestamp = []\<rparr>
      (lit ''S'') (show_nat 3) 4 None None # [] @ user_entry 5 ''fourth'' # []" by (simp add: compacted_talk_def)
  from second_compaction_drops_kept [OF a(1,2) p a(3,4,5) _ refl, where clock = "\<lambda>_. 7" and parse_ts = "\<lambda>_. None" and
      summary' = "lit ''S2''" and c' = "\<lparr>eh_id = show_nat 6, eh_parent_id = Some (show_nat 5), eh_timestamp = []\<rparr>" and
      n' = 9 and d' = None and b' = None]
  show ?thesis unfolding a(6,7) by simp
qed

definition used_answer :: agent_message where
  "used_answer = Llm (Assistant (failed_message\<lparr>am_stop_reason := Stop, am_usage := default_usage\<lparr>u_total_tokens := 170000\<rparr>\<rparr>))"

lemma compaction_keeps_estimate_witness:
  "ce_tokens (estimate_context_tokens (\<lambda>_. [])
     (compacted_state 7 (lit ''S'') (show_nat 3) three_users [user_said ''first'', user_said ''second'', user_said ''third one'', used_answer])) =
   170000"
proof -
  let ?msgs = "[user_said ''first'', user_said ''second'', user_said ''third one'', used_answer]"
  have a: "ce_last_usage_index (estimate_context_tokens (\<lambda>_. []) ?msgs) = Some 3"
    "ce_tokens (estimate_context_tokens (\<lambda>_. []) ?msgs) = 170000"
    "entry_position 0 (show_nat 3) three_users = Some 2" "show_nat 3 \<noteq> []"
    "length (filter is_message_entry (take 2 three_users)) \<le> 3" by code_simp+
  from compaction_keeps_estimate [OF a(1,3,4,5)] a(2) show ?thesis by simp
qed

lemma unknown_window_always_compacts_witness:
  "length (hs_messages (snd (run_auto_compaction answering no_extensions (memory_ops show_nat) [] 7 (talk_harness 0)))) = 3 \<and>
   hs_messages (snd (run_auto_compaction answering no_extensions (memory_ops show_nat) [] 7 (talk_harness 0))) \<noteq> hs_messages (talk_harness 0)"
proof -
  have a: "hs_model (talk_harness 0) = Some (sample_model\<lparr>mo_context_window := 0\<rparr>)" "cp_enabled (hs_settings (talk_harness 0))"
    "cp_algorithm (hs_settings (talk_harness 0)) = default_compaction_algorithm"
    "0 < ce_tokens (estimate_context_tokens (sz_show_json answering) (hs_messages (talk_harness 0)))"
    by code_simp+
  have "length (hs_messages (snd (do_compact answering no_extensions (memory_ops show_nat) [] 7 False None (talk_harness 0)))) = 3 \<and>
    hs_messages (snd (do_compact answering no_extensions (memory_ops show_nat) [] 7 False None (talk_harness 0))) \<noteq> hs_messages (talk_harness 0)"
    by code_simp
  with unknown_window_always_compacts [OF a(1) _ a(2,3,4), of no_extensions "memory_ops show_nat" "[]" 7] show ?thesis by simp
qed

lemma compaction_observed_witness:
  "obs_wf [] (hs_obs (snd (do_compact overflowing no_extensions (memory_ops show_nat) [] 7 True None (talk_harness 200000))))"
  by (rule compaction_observed) (simp add: talk_harness_def first_obs_def obs_wf_def)

end
