(* ===== verification/Agent_Types.thy ===== *)
theory Agent_Types
  imports Observability Session_Types
begin

text \<open>
  The agent and what it is embedded in: \<^verbatim>\<open>crates/theway-core/src/types.rs\<close> (tools, events, hooks)
  and \<^verbatim>\<open>crates/theway-core/src/agent.rs\<close> (\<open>AgentInner\<close>, its queues, admission and cancellation).

  Tools, hooks, listeners and the provider's stream are code of the embedder. They read and change a
  world \<open>'w\<close> of which the agent knows nothing, and each may take any value. While the agent awaits one
  of them, other threads may call the agent (enqueue a message, abort, interrupt): what they do is
  again the world's choice (\<open>ao_interfere\<close>), and is applied at every await point.
\<close>

subsection \<open>Tools\<close>

datatype tool_execution_mode = Sequential | Parallel

datatype queue_mode = QAll | OneAtATime

datatype thinking_level = TOff | TMinimal | TLow | TMedium | THigh | TXhigh | TMax

datatype llm_thinking_level = LMinimal | LLow | LMedium | LHigh | LXhigh | LMax

fun to_llm_level :: "thinking_level \<Rightarrow> llm_thinking_level option" where
  "to_llm_level TOff = None"
| "to_llm_level TMinimal = Some LMinimal"
| "to_llm_level TLow = Some LLow"
| "to_llm_level TMedium = Some LMedium"
| "to_llm_level THigh = Some LHigh"
| "to_llm_level TXhigh = Some LXhigh"
| "to_llm_level TMax = Some LMax"

record agent_tool_result =
  ar_content :: "user_content_block list"
  ar_details :: json
  ar_terminate :: "bool option"

datatype permission_classification = PAllow | PPrompt ustr | PBlock ustr

text \<open>How an execution of a tool ends; a tool may panic.\<close>

datatype tool_exit = ToolOk agent_tool_result | ToolErr ustr | ToolPanic ustr

text \<open>The result of \<open>execute\<close>: the updates it sent, in order, and its end.\<close>

record 'w agent_tool =
  at_definition :: tool_schema
  at_execution_mode :: "tool_execution_mode option"
  at_prepare_arguments :: "json \<Rightarrow> json"
  at_permission_classification :: "json \<Rightarrow> permission_classification"
  at_execute :: "ustr \<Rightarrow> json \<Rightarrow> 'w \<Rightarrow> (agent_tool_result list \<times> tool_exit) \<times> 'w"

definition tool_name_of :: "'w agent_tool \<Rightarrow> ustr" where
  "tool_name_of t = ts_name (at_definition t)"

subsection \<open>Events\<close>

datatype loop_event =
    ControlPlanePromptResolved ustr ustr ustr ustr ustr "ustr option"
      \<comment> \<open>call id, tool, hash of the arguments, label, decision, reason\<close>
  | RunStarted
  | RunEnded "agent_message list"
  | TurnStart
  | TurnCompleted agent_message "tool_result_message list"
  | MessageStart agent_message
  | MessageUpdate agent_message assistant_message_event
  | MessageEnd agent_message
  | ToolExecutionStart ustr ustr json
  | ToolExecutionUpdate ustr ustr json agent_tool_result
  | ToolExecutionEnd ustr ustr agent_tool_result bool

subsection \<open>Hooks\<close>

record prompt_request =
  pq_tool_call_id :: ustr
  pq_tool_name :: ustr
  pq_args_hash :: ustr
  pq_label :: ustr
  pq_payload :: json
  pq_reason :: ustr

datatype prompt_decision = PDAllow | PDDeny "ustr option" | PDTimeout

fun as_audit_str :: "prompt_decision \<Rightarrow> ustr" where
  "as_audit_str PDAllow = lit ''allow''"
| "as_audit_str (PDDeny _) = lit ''deny''"
| "as_audit_str PDTimeout = lit ''timeout''"

record hook_result =
  hr_block :: bool
  hr_reason :: "ustr option"
  hr_prompt :: "prompt_request option"

record result_patch =
  rp_content :: "user_content_block list option"
  rp_details :: "json option"
  rp_is_error :: "bool option"
  rp_terminate :: "bool option"

record 'w agent_context =
  ax_system_prompt :: ustr
  ax_messages :: "agent_message list"
  ax_tools :: "'w agent_tool list"

record 'w before_tool_call_context =
  bc_assistant_message :: assistant_message
  bc_tool_call :: tool_call
  bc_args :: json
  bc_context :: "'w agent_context"

record 'w after_tool_call_context =
  ac_assistant_message :: assistant_message
  ac_tool_call :: tool_call
  ac_args :: json
  ac_result :: agent_tool_result
  ac_is_error :: bool
  ac_context :: "'w agent_context"

record 'w turn_context =
  tx_message :: assistant_message
  tx_tool_results :: "tool_result_message list"
  tx_context :: "'w agent_context"
  tx_new_messages :: "agent_message list"

record 'w turn_update =
  tu_context :: "'w agent_context option"
  tu_model :: "model option"
  tu_thinking_level :: "thinking_level option"

record thinking_budgets =
  tb_minimal :: "nat option"
  tb_low :: "nat option"
  tb_medium :: "nat option"
  tb_high :: "nat option"

text \<open>A temperature is the bits of an \<open>f32\<close>.\<close>

record generation_options =
  go_temperature :: "32 word option"
  go_max_tokens :: "nat option"
  go_reasoning :: "llm_thinking_level option"
  go_thinking_budgets :: "thinking_budgets option"

record model_request =
  mr_provider :: ustr
  mr_model :: ustr
  mr_system_instructions :: "ustr option"
  mr_messages :: "llm_message list"
  mr_visible_tools :: "tool_schema list"
  mr_executable_tool_names :: "ustr list"
  mr_generation_options :: generation_options

record stream_options =
  sx_api_key :: "ustr option"
  sx_session_id :: "ustr option"
  sx_generation :: generation_options

text \<open>What another thread may do to an agent while it runs.\<close>

datatype outside = EnqueueSteering agent_message | EnqueueFollowUp agent_message | Abort | Interrupt

text \<open>
  The options of an agent with the world they act on. \<open>ao_listener\<close> stands for the callbacks, listeners
  and the broadcast of one event, whose panics and time-outs the loop swallows; \<open>ao_finalize_usage\<close> for
  the statistics of \<open>context_cache.rs\<close>; \<open>ao_args_hash\<close> for the hash of canonical arguments;
  \<open>ao_order\<close> for the order in which parallel tools run; \<open>ao_request_value\<close>, \<open>ao_message_value\<close> and
  \<open>ao_content_value\<close> for the derived encoders.
\<close>

record 'w agent_options =
  ao_convert_to_llm :: "agent_message list \<Rightarrow> 'w \<Rightarrow> llm_message list"
  ao_transform_context :: "(agent_message list \<Rightarrow> 'w \<Rightarrow> agent_message list \<times> 'w) option"
  ao_transform_model_request :: "(model_request \<Rightarrow> 'w \<Rightarrow> model_request \<times> 'w) option"
  ao_transform_message :: "(agent_message \<Rightarrow> 'w \<Rightarrow> agent_message \<times> 'w) option"
  ao_stream :: "model \<times> llm_context \<times> stream_options \<Rightarrow> 'w \<Rightarrow> assistant_message_event list \<times> 'w"
  ao_get_api_key :: "(ustr \<Rightarrow> ustr option) option"
  ao_session_id :: "ustr option"
  ao_before_tool_call :: "('w before_tool_call_context \<Rightarrow> 'w \<Rightarrow> hook_result \<times> 'w) option"
  ao_after_tool_call :: "('w after_tool_call_context \<Rightarrow> 'w \<Rightarrow> result_patch \<times> 'w) option"
  ao_transform_tool_result :: "('w after_tool_call_context \<Rightarrow> 'w \<Rightarrow> result_patch \<times> 'w) option"
  ao_on_control_plane_prompt :: "(prompt_request \<Rightarrow> 'w \<Rightarrow> prompt_decision \<times> 'w) option"
  ao_should_stop_after_turn :: "('w turn_context \<Rightarrow> 'w \<Rightarrow> bool \<times> 'w) option"
  ao_prepare_next_turn :: "('w turn_context \<Rightarrow> 'w \<Rightarrow> 'w turn_update option \<times> 'w) option"
  ao_observation_context :: observation_context
  ao_observation_parent :: "nat option"
  ao_tool_execution :: tool_execution_mode
  ao_max_iterations :: "nat option"
  ao_listener :: "loop_event \<Rightarrow> 'w \<Rightarrow> 'w"
  ao_interfere :: "'w \<Rightarrow> outside list \<times> 'w"
  ao_finalize_usage :: "llm_context \<Rightarrow> usage \<Rightarrow> 'w \<Rightarrow> usage \<times> 'w"
  ao_args_hash :: "json \<Rightarrow> ustr"
  ao_order :: "nat \<Rightarrow> 'w \<Rightarrow> nat list"
  ao_request_value :: "model_request \<Rightarrow> json option"
  ao_message_value :: "assistant_message \<Rightarrow> json option"
  ao_content_value :: "user_content_block list \<Rightarrow> json"
  ao_now :: "'w \<Rightarrow> int"

subsection \<open>The agent\<close>

record pending_queue =
  qu_mode :: queue_mode
  qu_items :: "agent_message list"

definition queue_new :: "queue_mode \<Rightarrow> pending_queue" where
  "queue_new mode = \<lparr>qu_mode = mode, qu_items = []\<rparr>"

definition queue_enqueue :: "agent_message \<Rightarrow> pending_queue \<Rightarrow> pending_queue" where
  "queue_enqueue m q = q\<lparr>qu_items := qu_items q @ [m]\<rparr>"

definition queue_drain :: "pending_queue \<Rightarrow> agent_message list \<times> pending_queue" where
  "queue_drain q =
     (case qu_mode q of
        QAll \<Rightarrow> (qu_items q, q\<lparr>qu_items := []\<rparr>)
      | OneAtATime \<Rightarrow>
          (case qu_items q of [] \<Rightarrow> ([], q) | m # ms \<Rightarrow> ([m], q\<lparr>qu_items := ms\<rparr>)))"

datatype agent_run_error = AlreadyStreaming | TurnInterrupted | Other ustr

fun run_error_str :: "agent_run_error \<Rightarrow> ustr" where
  "run_error_str AlreadyStreaming = lit ''Agent is already processing a prompt. Use enqueue_steering/enqueue_follow_up or wait for completion.''"
| "run_error_str TurnInterrupted = lit ''turn interrupted''"
| "run_error_str (Other s) = s"

text \<open>
  \<open>AgentInner\<close> with its \<open>AgentState\<close>. A cancellation token is what it says, cancelled or not, as long as
  it is registered. \<open>ag_log\<close> holds the events emitted, oldest first.
\<close>

record 'w agent =
  ag_run_active :: bool
  ag_system_prompt :: ustr
  ag_model :: "model option"
  ag_thinking_level :: "thinking_level option"
  ag_tools :: "'w agent_tool list"
  ag_messages :: "agent_message list"
  ag_is_streaming :: bool
  ag_streaming_message :: "agent_message option"
  ag_error_message :: "ustr option"
  ag_steering :: pending_queue
  ag_follow_up :: pending_queue
  ag_active_cancel :: "bool option"
  ag_active_run :: "nat option"
  ag_active_turn :: "(nat \<times> nat) option"
  ag_turn_cancel :: "bool option"
  ag_obs :: obs
  ag_log :: "loop_event list"
  ag_world :: 'w

definition enqueue_steering :: "agent_message \<Rightarrow> 'w agent \<Rightarrow> 'w agent" where
  "enqueue_steering m a = a\<lparr>ag_steering := queue_enqueue m (ag_steering a)\<rparr>"

definition enqueue_follow_up :: "agent_message \<Rightarrow> 'w agent \<Rightarrow> 'w agent" where
  "enqueue_follow_up m a = a\<lparr>ag_follow_up := queue_enqueue m (ag_follow_up a)\<rparr>"

definition abort :: "'w agent \<Rightarrow> 'w agent" where
  "abort a = a\<lparr>ag_active_cancel := map_option (\<lambda>_. True) (ag_active_cancel a)\<rparr>"

definition interrupt :: "'w agent \<Rightarrow> 'w agent" where
  "interrupt a = a\<lparr>ag_turn_cancel := map_option (\<lambda>_. True) (ag_turn_cancel a)\<rparr>"

definition acquire_permit :: "'w agent \<Rightarrow> agent_run_error option \<times> 'w agent" where
  "acquire_permit a =
     (if ag_run_active a then (Some AlreadyStreaming, a)
      else (None, a\<lparr>ag_run_active := True, ag_is_streaming := True, ag_error_message := None\<rparr>))"

definition release_run :: "'w agent \<Rightarrow> 'w agent" where
  "release_run a =
     (if \<not> ag_run_active a then a
      else a\<lparr>ag_active_cancel := None, ag_active_run := None, ag_active_turn := None, ag_turn_cancel := None,
             ag_is_streaming := False, ag_run_active := False\<rparr>)"

definition is_cancelled :: "'w agent \<Rightarrow> bool" where
  "is_cancelled a \<longleftrightarrow> ag_active_cancel a = Some True"

definition turn_cancelled :: "'w agent \<Rightarrow> bool" where
  "turn_cancelled a \<longleftrightarrow> ag_turn_cancel a = Some True"

fun outside_action :: "outside \<Rightarrow> 'w agent \<Rightarrow> 'w agent" where
  "outside_action (EnqueueSteering m) a = enqueue_steering m a"
| "outside_action (EnqueueFollowUp m) a = enqueue_follow_up m a"
| "outside_action Abort a = abort a"
| "outside_action Interrupt a = interrupt a"

definition interfere :: "'w agent_options \<Rightarrow> 'w agent \<Rightarrow> 'w agent" where
  "interfere opts a = (case ao_interfere opts (ag_world a) of (acts, w) \<Rightarrow> fold outside_action acts (a\<lparr>ag_world := w\<rparr>))"

text \<open>Awaiting a hook, and the emission of an event.\<close>

definition await :: "'w agent_options \<Rightarrow> ('w \<Rightarrow> 'b \<times> 'w) \<Rightarrow> 'w agent \<Rightarrow> 'b \<times> 'w agent" where
  "await opts f a = (case f (ag_world a) of (y, w) \<Rightarrow> (y, interfere opts (a\<lparr>ag_world := w\<rparr>)))"

definition emit :: "'w agent_options \<Rightarrow> loop_event \<Rightarrow> 'w agent \<Rightarrow> 'w agent" where
  "emit opts ev a = interfere opts (a\<lparr>ag_log := ag_log a @ [ev], ag_world := ao_listener opts ev (ag_world a)\<rparr>)"

definition snapshot_context :: "'w agent \<Rightarrow> 'w agent_context" where
  "snapshot_context a = \<lparr>ax_system_prompt = ag_system_prompt a, ax_messages = ag_messages a, ax_tools = ag_tools a\<rparr>"

definition apply_turn_update :: "'w turn_update \<Rightarrow> 'w agent \<Rightarrow> 'w agent" where
  "apply_turn_update u a =
     (let a1 = (case tu_context u of
                  Some c \<Rightarrow> a\<lparr>ag_messages := ax_messages c, ag_system_prompt := ax_system_prompt c, ag_tools := ax_tools c\<rparr>
                | None \<Rightarrow> a);
          a2 = (case tu_model u of Some m \<Rightarrow> a1\<lparr>ag_model := Some m\<rparr> | None \<Rightarrow> a1)
      in case tu_thinking_level u of Some l \<Rightarrow> a2\<lparr>ag_thinking_level := Some l\<rparr> | None \<Rightarrow> a2)"

definition finalize_run :: "'w agent_options \<Rightarrow> 'w agent \<Rightarrow> 'w agent" where
  "finalize_run opts a = emit opts (RunEnded (ag_messages a)) a"

text \<open>The default conversion to provider messages; \<open>now\<close> is the clock.\<close>

definition materialize_custom_message :: "int \<Rightarrow> custom_message \<Rightarrow> llm_message option" where
  "materialize_custom_message now c =
     (case get_str (cm_payload c) (lit ''summary'') of
        None \<Rightarrow> None
      | Some summary \<Rightarrow>
          (case (if cm_role c = lit ''compaction_summary'' then Some (lit ''[Previous conversation compacted]'')
                 else if cm_role c = lit ''branch_summary'' then Some (lit ''[Branch summary]'')
                 else if cm_role c = lit ''collapse_context'' then Some (lit ''[Previous session compact summary]'')
                 else None) of
             None \<Rightarrow> None
           | Some prefix \<Rightarrow>
               Some (User \<lparr>um_content = PlainText (prefix @ [10] @ summary), um_timestamp = now\<rparr>)))"

fun convert_message :: "int \<Rightarrow> agent_message \<Rightarrow> llm_message option" where
  "convert_message now (Llm m) = Some m"
| "convert_message now (Custom c) = materialize_custom_message now c"

definition default_convert_to_llm :: "int \<Rightarrow> agent_message list \<Rightarrow> llm_message list" where
  "default_convert_to_llm now msgs = List.map_filter (convert_message now) msgs"

end
