(* ===== verification/Agent_Request.thy ===== *)
theory Agent_Request
  imports Agent_Types
begin

text \<open>
  One model request: the check of a request an extension rewrote
  (\<^verbatim>\<open>crates/theway-core/src/agent/model_request.rs\<close>) and the call itself, \<open>call_llm\<close> of
  \<^verbatim>\<open>run_loop/llm.rs\<close>: it assembles the request from the agent's state, reads the provider's stream
  against the two cancellation tokens, and finishes its observation on every path.
\<close>

subsection \<open>Rewritten requests\<close>

text \<open>An \<open>f32\<close> is finite when its exponent bits are not all ones.\<close>

definition f32_is_finite :: "32 word \<Rightarrow> bool" where
  "f32_is_finite x \<longleftrightarrow> drop_bit 23 (unat x) mod 256 \<noteq> 255"

fun json_is_schema :: "json \<Rightarrow> bool" where
  "json_is_schema (JObj _) = True"
| "json_is_schema (JBool _) = True"
| "json_is_schema _ = False"

text \<open>The first loop: the error of the first bad tool, or the names of all.\<close>

fun check_visible :: "ustr list \<Rightarrow> ustr list \<Rightarrow> tool_schema list \<Rightarrow> ustr + ustr list" where
  "check_visible base_names visible [] = Inr visible"
| "check_visible base_names visible (t # ts) =
     (if trim (ts_name t) = [] \<or> ts_name t \<in> set visible
      then Inl (lit ''visible tool names must be non-empty and unique'')
      else if \<not> json_is_schema (ts_parameters t)
      then Inl (lit ''visible tool '' @ [39] @ ts_name t @ [39] @ lit '' parameters must be a JSON Schema object or boolean'')
      else if ts_name t \<notin> set base_names
      then Inl (lit ''visible tool '' @ [39] @ ts_name t @ [39] @ lit '' has no executable reference in the base request'')
      else check_visible base_names (visible @ [ts_name t]) ts)"

fun check_executable :: "ustr list \<Rightarrow> ustr list \<Rightarrow> ustr list \<Rightarrow> ustr + ustr list" where
  "check_executable base_names seen [] = Inr seen"
| "check_executable base_names seen (n # ns) =
     (if n \<in> set seen \<or> n \<notin> set base_names
      then Inl (lit ''executable tool references must be unique members of the base request'')
      else check_executable base_names (seen @ [n]) ns)"

definition check_generation :: "generation_options \<Rightarrow> nat \<Rightarrow> ustr option" where
  "check_generation g model_max_tokens =
     (if (case go_temperature g of Some t \<Rightarrow> \<not> f32_is_finite t | None \<Rightarrow> False)
      then Some (lit ''generation temperature must be finite'')
      else if (case go_max_tokens g of
                 Some m \<Rightarrow> m = 0 \<or> (model_max_tokens > 0 \<and> m > model_max_tokens) | None \<Rightarrow> False)
      then Some (lit ''generation maxTokens must be within the selected model limit'')
      else if (case go_thinking_budgets g of
                 Some b \<Rightarrow> Some 0 \<in> set [tb_minimal b, tb_low b, tb_medium b, tb_high b] | None \<Rightarrow> False)
      then Some (lit ''thinking budgets must be greater than zero'')
      else None)"

definition validate_replacement :: "model_request \<Rightarrow> model_request \<Rightarrow> nat \<Rightarrow> ustr option" where
  "validate_replacement r base model_max_tokens =
     (if mr_provider r \<noteq> mr_provider base \<or> mr_model r \<noteq> mr_model base
      then Some (lit ''normalized request provider/model identity is immutable'')
      else if trim (mr_provider r) = [] \<or> trim (mr_model r) = []
      then Some (lit ''normalized request provider/model identity cannot be empty'')
      else case check_visible (mr_executable_tool_names base) [] (mr_visible_tools r) of
             Inl err \<Rightarrow> Some err
           | Inr visible_names \<Rightarrow>
               (case check_executable (mr_executable_tool_names base) [] (mr_executable_tool_names r) of
                  Inl err \<Rightarrow> Some err
                | Inr executable_names \<Rightarrow>
                    if set executable_names \<noteq> set visible_names
                    then Some (lit ''visible tool definitions and executable tool references must name the same catalog'')
                    else check_generation (mr_generation_options r) model_max_tokens))"

subsection \<open>The call\<close>

text \<open>First registration wins.\<close>

fun dedup_tools :: "ustr list \<Rightarrow> 'w agent_tool list \<Rightarrow> 'w agent_tool list" where
  "dedup_tools seen [] = []"
| "dedup_tools seen (t # ts) =
     (if tool_name_of t \<in> set seen then dedup_tools seen ts
      else t # dedup_tools (tool_name_of t # seen) ts)"

definition find_tool :: "ustr \<Rightarrow> 'w agent_tool list \<Rightarrow> 'w agent_tool option" where
  "find_tool name tools = find (\<lambda>t. tool_name_of t = name) tools"

definition default_generation :: generation_options where
  "default_generation =
     \<lparr>go_temperature = None, go_max_tokens = None, go_reasoning = None, go_thinking_budgets = None\<rparr>"

definition base_request :: "model \<Rightarrow> ustr \<Rightarrow> llm_message list \<Rightarrow> 'w agent_tool list \<Rightarrow> thinking_level option \<Rightarrow> model_request" where
  "base_request model system_prompt messages tools thinking_level =
     \<lparr>mr_provider = mo_provider model, mr_model = mo_id model,
      mr_system_instructions = (if system_prompt = [] then None else Some system_prompt),
      mr_messages = messages, mr_visible_tools = map at_definition tools,
      mr_executable_tool_names = map tool_name_of tools,
      mr_generation_options = default_generation\<lparr>go_reasoning := Option.bind thinking_level to_llm_level\<rparr>\<rparr>"

definition accepted_request :: "model \<Rightarrow> model_request \<Rightarrow> model_request \<Rightarrow> model_request" where
  "accepted_request model base transformed =
     (if validate_replacement transformed base (mo_max_tokens model) = None then transformed else base)"

definition executable_tools :: "model_request \<Rightarrow> 'w agent_tool list \<Rightarrow> 'w agent_tool list" where
  "executable_tools request tools =
     List.map_filter (\<lambda>name. find_tool name tools) (mr_executable_tool_names request)"

definition partial_message :: "assistant_message \<Rightarrow> agent_message" where
  "partial_message m = Llm (Assistant m)"

text \<open>The partial message of the six events that update it.\<close>

fun updated_partial :: "assistant_message_event \<Rightarrow> assistant_message option" where
  "updated_partial (EvTextDelta _ _ m) = Some m"
| "updated_partial (EvTextEnd _ _ m) = Some m"
| "updated_partial (EvThinkingDelta _ _ m) = Some m"
| "updated_partial (EvThinkingEnd _ _ m) = Some m"
| "updated_partial (EvToolCallDelta _ _ m) = Some m"
| "updated_partial (EvToolCallEnd _ _ m) = Some m"
| "updated_partial _ = None"

text \<open>One event: the error that ends the call, if it is one, and the last message.\<close>

definition stream_step ::
  "'w agent_options \<Rightarrow> assistant_message_event \<Rightarrow> assistant_message option \<Rightarrow> 'w agent \<Rightarrow>
   agent_run_error option \<times> assistant_message option \<times> 'w agent" where
  "stream_step opts ev last_message a =
     (case ev of
        EvStart m \<Rightarrow>
          (None, Some m, (emit opts (MessageStart (partial_message m)) a)\<lparr>ag_streaming_message := Some (partial_message m)\<rparr>)
      | EvDone _ m \<Rightarrow> (None, Some m, a)
      | EvError _ err \<Rightarrow>
          (Some (Other (case am_error_message err of Some s \<Rightarrow> s | None \<Rightarrow> [])), last_message, a\<lparr>ag_streaming_message := None\<rparr>)
      | _ \<Rightarrow>
          (case updated_partial ev of
             Some m \<Rightarrow>
               (None, Some m,
                emit opts (MessageUpdate (partial_message m) ev) (a\<lparr>ag_streaming_message := Some (partial_message m)\<rparr>))
           | None \<Rightarrow> (None, last_message, a)))"

text \<open>
  The stream loop: before each event, and before the end of the stream, the run's token and then the
  turn's token is polled. The result is the last message, or how the loop was left.
\<close>

fun stream_loop ::
  "'w agent_options \<Rightarrow> assistant_message_event list \<Rightarrow> assistant_message option \<Rightarrow> 'w agent \<Rightarrow>
   (agent_run_error + assistant_message option) \<times> 'w agent" where
  "stream_loop opts evs last_message a0 =
     (let a = interfere opts a0
      in if is_cancelled a then (Inl (Other (lit ''aborted'')), a)
         else if turn_cancelled a then (Inl TurnInterrupted, a)
         else case evs of
                [] \<Rightarrow> (Inr last_message, a)
              | ev # rest \<Rightarrow>
                  (case stream_step opts ev last_message a of
                     (Some err, _, a1) \<Rightarrow> (Inl err, a1)
                   | (None, last_message1, a1) \<Rightarrow> stream_loop opts rest last_message1 a1))"

declare stream_loop.simps [simp del]

record 'w model_call_result =
  mc_message :: assistant_message
  mc_executable_tools :: "'w agent_tool list"

text \<open>The block that runs under the scope: its result and the request as content.\<close>

definition request_block ::
  "'w agent_options \<Rightarrow> model \<Rightarrow> ustr \<Rightarrow> agent_message list \<Rightarrow> 'w agent_tool list \<Rightarrow> thinking_level option \<Rightarrow>
   'w agent \<Rightarrow> (agent_run_error + 'w model_call_result) \<times> json option \<times> 'w agent" where
  "request_block opts model system_prompt messages tools thinking_level a0 =
     (let (messages, a1) = (case ao_transform_context opts of
            Some f \<Rightarrow> await opts (f messages) a0 | None \<Rightarrow> (messages, a0));
          base = base_request model system_prompt (ao_convert_to_llm opts messages (ag_world a1)) tools thinking_level;
          (transformed, a2) = (case ao_transform_model_request opts of
            Some f \<Rightarrow> await opts (f base) a1 | None \<Rightarrow> (base, a1));
          request = accepted_request model base transformed;
          executable = executable_tools request tools;
          input_content = (if o_include_content (ag_obs a2) then ao_request_value opts request else None);
          context = \<lparr>lc_system_prompt = mr_system_instructions request, lc_messages = mr_messages request,
            lc_tools = (if mr_visible_tools request = [] then None else Some (mr_visible_tools request))\<rparr>;
          stream_opts = \<lparr>sx_api_key = (case ao_get_api_key opts of Some f \<Rightarrow> f (mo_provider model) | None \<Rightarrow> None),
            sx_session_id = ao_session_id opts, sx_generation = mr_generation_options request\<rparr>;
          (evs, w) = ao_stream opts (model, context, stream_opts) (ag_world a2)
      in case stream_loop opts evs None (a2\<lparr>ag_world := w\<rparr>) of
           (Inl err, a3) \<Rightarrow> (Inl err, input_content, a3)
         | (Inr None, a3) \<Rightarrow>
             (Inl (Other (lit ''LLM stream produced no message'')), input_content, a3\<lparr>ag_streaming_message := None\<rparr>)
         | (Inr (Some message), a3) \<Rightarrow>
             (let (usage, w) = ao_finalize_usage opts context (am_usage message) (ag_world a3)
              in (Inr \<lparr>mc_message = message\<lparr>am_usage := usage\<rparr>, mc_executable_tools = executable\<rparr>, input_content,
                  a3\<lparr>ag_streaming_message := None, ag_world := w\<rparr>)))"

definition call_outcome ::
  "bool \<Rightarrow> agent_run_error + 'w model_call_result \<Rightarrow> operation_outcome \<times> error_category option \<times> measurements" where
  "call_outcome cancelled result =
     (case result of
        Inr call \<Rightarrow>
          (OSucceeded, None, default_measurements\<lparr>m_input_tokens := u_input (am_usage (mc_message call)),
             m_output_tokens := u_output (am_usage (mc_message call)),
             m_cache_read_tokens := u_cache_read (am_usage (mc_message call)),
             m_cache_write_tokens := u_cache_write (am_usage (mc_message call))\<rparr>)
      | Inl TurnInterrupted \<Rightarrow> (OInterrupted, Some ECancellation, default_measurements)
      | Inl _ \<Rightarrow>
          if cancelled then (OCancelled, Some ECancellation, default_measurements)
          else (OFailed, Some EProvider, default_measurements))"

definition turn_observation :: "'w agent_options \<Rightarrow> 'w agent \<Rightarrow> nat option \<times> observation_context" where
  "turn_observation opts a =
     (case ag_active_turn a of
        Some (i, turn) \<Rightarrow> (Some i, with_turn (ao_observation_context opts) turn)
      | None \<Rightarrow> (None, ao_observation_context opts))"

definition error_value :: "agent_run_error \<Rightarrow> json" where
  "error_value err = JObj [(lit ''error'', JStr (run_error_str err))]"

definition call_llm :: "'w agent_options \<Rightarrow> 'w agent \<Rightarrow> (agent_run_error + 'w model_call_result) \<times> 'w agent" where
  "call_llm opts a =
     (case ag_model a of
        None \<Rightarrow> (Inl (Other (lit ''Agent has no model set; assign state.model first'')), a)
      | Some model \<Rightarrow>
          (let tools = dedup_tools [] (ag_tools a);
               (parent, ctx) = turn_observation opts a;
               include_content = o_include_content (ag_obs a);
               (sc, obs) = scope_start parent ctx (DetLlmRequest (mo_provider model) (mo_id model)) (ag_obs a);
               (result, input_content, a1) =
                 request_block opts model (ag_system_prompt a) (ag_messages a) tools (ag_thinking_level a) (a\<lparr>ag_obs := obs\<rparr>);
               (outcome, category, ms) = call_outcome (is_cancelled a1) result;
               sc1 = (if include_content \<and> (input_content \<noteq> None \<or> (case result of Inr _ \<Rightarrow> True | Inl _ \<Rightarrow> False))
                      then attach_content \<lparr>ct_input = input_content,
                             ct_output = (case result of Inr call \<Rightarrow> ao_message_value opts (mc_message call)
                                          | Inl err \<Rightarrow> Some (error_value err))\<rparr> sc
                      else sc)
           in (result, a1\<lparr>ag_obs := scope_finish outcome category ms sc1 (ag_obs a1)\<rparr>)))"

end
