(* ===== verification/Agent_Tools.thy ===== *)
theory Agent_Tools
  imports Agent_Request "HOL-Library.List_Lexorder"
begin

text \<open>
  Tool calls, \<^verbatim>\<open>crates/theway-core/src/agent/run_loop/tools.rs\<close> with \<open>run_one\<close> of
  \<^verbatim>\<open>run_loop/mod.rs\<close> and the prompt payload of \<^verbatim>\<open>run_loop/utils.rs\<close>: the gates before an execution
  (catalog, classification, hook, control-plane prompt), the execution one after another or in any
  order, and the hooks on the results.

  A prepared call to run always has its tool (the code's case of a missing one cannot occur). Parallel
  tasks are interleaved as wholes: what a task and the world do between two awaits is one step.
  A tool may panic. A parallel call then ends with a result of its own, a sequential one unwinds the
  run: \<open>None\<close>.
\<close>

subsection \<open>The prompt\<close>

definition prompt_keys :: "json \<Rightarrow> ustr list" where
  "prompt_keys args =
     (case args of
        JObj m \<Rightarrow>
          sort (map (\<lambda>k. if length k \<le> 64 then k else take 64 k @ [8230]) (take 32 (map fst m)))
      | _ \<Rightarrow> [])"

definition default_prompt_payload :: "(json \<Rightarrow> ustr) \<Rightarrow> ustr \<Rightarrow> json \<Rightarrow> json" where
  "default_prompt_payload args_hash tool_name args =
     JObj [(lit ''tool_name'', JStr tool_name), (lit ''args_keys'', JArr (map JStr (prompt_keys args))),
           (lit ''args_hash'', JStr (args_hash args))]"

subsection \<open>Preparation\<close>

datatype 'w prepared_call =
    Run ustr ustr json "'w agent_tool"
  | Blocked ustr ustr json agent_tool_result

definition text_result :: "ustr \<Rightarrow> agent_tool_result" where
  "text_result s = \<lparr>ar_content = [user_text s], ar_details = JNull, ar_terminate = None\<rparr>"

definition not_in_catalog :: agent_tool_result where
  "not_in_catalog =
     \<lparr>ar_content = [user_text (lit ''tool is not available in this model request'')],
      ar_details = JObj [(lit ''errorCode'', JStr (lit ''tool_not_in_request_catalog''))], ar_terminate = None\<rparr>"

definition synthesized_prompt :: "'w agent_options \<Rightarrow> tool_call \<Rightarrow> json \<Rightarrow> permission_classification \<Rightarrow> prompt_request option" where
  "synthesized_prompt opts tc args classification =
     (case classification of
        PPrompt reason \<Rightarrow>
          Some \<lparr>pq_tool_call_id = tl_id tc, pq_tool_name = tl_name tc, pq_args_hash = ao_args_hash opts args,
                pq_label = lit ''Control-plane write: '' @ tl_name tc,
                pq_payload = default_prompt_payload (ao_args_hash opts) (tl_name tc) args, pq_reason = reason\<rparr>
      | _ \<Rightarrow> None)"

definition effective_prompt ::
  "'w agent_options \<Rightarrow> tool_call \<Rightarrow> json \<Rightarrow> prompt_request option \<Rightarrow> prompt_request option \<Rightarrow> prompt_request option" where
  "effective_prompt opts tc args synthesized supplied =
     (case (synthesized, supplied) of
        (Some synth, None) \<Rightarrow> Some synth
      | (None, Some hook) \<Rightarrow>
          Some \<lparr>pq_tool_call_id = tl_id tc, pq_tool_name = tl_name tc, pq_args_hash = ao_args_hash opts args,
                pq_label = pq_label hook, pq_payload = pq_payload hook, pq_reason = pq_reason hook\<rparr>
      | (Some synth, Some hook) \<Rightarrow>
          Some \<lparr>pq_tool_call_id = pq_tool_call_id synth, pq_tool_name = pq_tool_name synth,
                pq_args_hash = pq_args_hash synth,
                pq_label = pq_label hook, pq_payload = pq_payload hook, pq_reason = pq_reason synth\<rparr>
      | (None, None) \<Rightarrow> None)"

definition args_object :: "json \<Rightarrow> (ustr \<times> json) list" where
  "args_object args = (case args of JObj m \<Rightarrow> m | _ \<Rightarrow> [])"

definition fail_closed :: prompt_decision where
  "fail_closed = PDDeny (Some (lit ''control-plane prompt required but no on_control_plane_prompt hook configured (fail-closed deny '' @
     [8212] @ lit '' see issue #110 design v0.2)''))"

definition ask_prompt :: "'w agent_options \<Rightarrow> prompt_request \<Rightarrow> 'w agent \<Rightarrow> prompt_decision \<times> 'w agent" where
  "ask_prompt opts req a =
     (let (decision, a1) = (case ao_on_control_plane_prompt opts of
            Some f \<Rightarrow> await opts (f req) a | None \<Rightarrow> (fail_closed, a))
      in (decision,
          emit opts (ControlPlanePromptResolved (pq_tool_call_id req) (pq_tool_name req) (pq_args_hash req) (pq_label req)
            (as_audit_str decision) (case decision of PDDeny reason \<Rightarrow> reason | _ \<Rightarrow> None)) a1))"

text \<open>The last gate: what the decision makes of the call.\<close>

definition decided_call :: "tool_call \<Rightarrow> json \<Rightarrow> 'w agent_tool \<Rightarrow> prompt_decision \<Rightarrow> 'w prepared_call" where
  "decided_call tc args tool decision =
     (case decision of
        PDAllow \<Rightarrow> Run (tl_id tc) (tl_name tc) args tool
      | PDDeny reason \<Rightarrow>
          Blocked (tl_id tc) (tl_name tc) args (text_result (case reason of
            Some r \<Rightarrow> r | None \<Rightarrow> lit ''tool call denied by user via control-plane prompt''))
      | PDTimeout \<Rightarrow>
          Blocked (tl_id tc) (tl_name tc) args
            (text_result (lit ''control-plane prompt timed out '' @ [8212] @ lit '' tool call denied'')))"

definition prepare_call ::
  "'w agent_options \<Rightarrow> assistant_message \<Rightarrow> 'w agent_tool list \<Rightarrow> 'w agent_context \<Rightarrow> tool_call \<Rightarrow> 'w agent \<Rightarrow>
   'w prepared_call \<times> 'w agent" where
  "prepare_call opts assistant snapshot context tc a =
     (case find_tool (tl_name tc) snapshot of
        None \<Rightarrow> (Blocked (tl_id tc) (tl_name tc) (JObj (tl_arguments tc)) not_in_catalog, a)
      | Some tool \<Rightarrow>
          (let args = at_prepare_arguments tool (JObj (tl_arguments tc));
               classification = at_permission_classification tool args
           in case classification of
                PBlock reason \<Rightarrow> (Blocked (tl_id tc) (tl_name tc) args (text_result reason), a)
              | _ \<Rightarrow>
                  (let synthesized = synthesized_prompt opts tc args classification;
                       (hook_result, a1) = (case ao_before_tool_call opts of
                          Some f \<Rightarrow> await opts (f \<lparr>bc_assistant_message = assistant,
                              bc_tool_call = tc\<lparr>tl_arguments := args_object args\<rparr>, bc_args = args, bc_context = context\<rparr>) a
                        | None \<Rightarrow> (\<lparr>hr_block = False, hr_reason = None, hr_prompt = synthesized\<rparr>, a))
                   in if hr_block hook_result
                      then (Blocked (tl_id tc) (tl_name tc) args (text_result (case hr_reason hook_result of
                              Some r \<Rightarrow> r | None \<Rightarrow> lit ''tool call blocked by before_tool_call hook'')), a1)
                      else (case effective_prompt opts tc args synthesized (hr_prompt hook_result) of
                              None \<Rightarrow> (Run (tl_id tc) (tl_name tc) args tool, a1)
                            | Some req \<Rightarrow>
                                (let (decision, a2) = ask_prompt opts req a1 in (decided_call tc args tool decision, a2))))))"

fun prepare_calls ::
  "'w agent_options \<Rightarrow> assistant_message \<Rightarrow> 'w agent_tool list \<Rightarrow> 'w agent_context \<Rightarrow> tool_call list \<Rightarrow> 'w agent \<Rightarrow>
   'w prepared_call list \<times> 'w agent" where
  "prepare_calls opts assistant snapshot context [] a = ([], a)"
| "prepare_calls opts assistant snapshot context (tc # tcs) a =
     (let (p, a1) = prepare_call opts assistant snapshot context tc a;
          (ps, a2) = prepare_calls opts assistant snapshot context tcs a1
      in (p # ps, a2))"

subsection \<open>Execution\<close>

record tool_outcome =
  to_id :: ustr
  to_name :: ustr
  to_args :: json
  to_result :: agent_tool_result
  to_is_error :: bool
  to_executed :: bool

fun call_name :: "'w prepared_call \<Rightarrow> ustr" where
  "call_name (Run _ name _ _) = name"
| "call_name (Blocked _ name _ _) = name"

definition emit_all :: "'w agent_options \<Rightarrow> loop_event list \<Rightarrow> 'w agent \<Rightarrow> 'w agent" where
  "emit_all opts evs a = fold (emit opts) evs a"

definition outcome_content :: "'w agent_options \<Rightarrow> tool_outcome \<Rightarrow> observation_content" where
  "outcome_content opts out =
     \<lparr>ct_input = Some (JObj [(lit ''name'', JStr (to_name out)), (lit ''arguments'', to_args out)]),
      ct_output = Some (JObj [(lit ''executed'', JBool (to_executed out)), (lit ''isError'', JBool (to_is_error out)),
        (lit ''content'', ao_content_value opts (ar_content (to_result out))),
        (lit ''details'', ar_details (to_result out))])\<rparr>"

definition close_tool :: "'w agent_options \<Rightarrow> scope \<Rightarrow> 'w prepared_call \<Rightarrow> tool_outcome \<Rightarrow> 'w agent \<Rightarrow> 'w agent" where
  "close_tool opts sc call out a =
     (let cancelled = is_cancelled a;
          blocked = (case call of Blocked _ _ _ _ \<Rightarrow> True | Run _ _ _ _ \<Rightarrow> False);
          sc1 = (if o_include_content (ag_obs a) then attach_content (outcome_content opts out) sc else sc)
      in a\<lparr>ag_obs := scope_finish
             (if cancelled then OCancelled else if to_is_error out then OFailed else OSucceeded)
             (if cancelled then Some ECancellation else if blocked then Some EPermission
              else if to_is_error out then Some ETool else None)
             (default_measurements\<lparr>m_tool_calls := 1\<rparr>) sc1 (ag_obs a)\<rparr>)"

text \<open>
  The updates a tool sends are emitted in order before its end: the pump is joined, so only updates
  sent after \<open>execute\<close> returned may be missing, and those are no part of its result here.
\<close>

definition run_one :: "'w agent_options \<Rightarrow> 'w prepared_call \<Rightarrow> 'w agent \<Rightarrow> (ustr + tool_outcome) \<times> 'w agent" where
  "run_one opts call a =
     (let (parent, ctx) = turn_observation opts a;
          (sc, obs) = scope_start parent ctx (DetToolExecution (call_name call)) (ag_obs a);
          a0 = a\<lparr>ag_obs := obs\<rparr>;
          (outcome, a1) = (case call of
             Blocked i name args result \<Rightarrow>
               (Inr \<lparr>to_id = i, to_name = name, to_args = args, to_result = result, to_is_error = True, to_executed = False\<rparr>, a0)
           | Run i name args tool \<Rightarrow>
               (let ((updates, exit), a1) = await opts (at_execute tool i args) (emit opts (ToolExecutionStart i name args) a0);
                    a2 = emit_all opts (map (ToolExecutionUpdate i name args) updates) a1
                in (case exit of
                      ToolOk r \<Rightarrow> Inr \<lparr>to_id = i, to_name = name, to_args = args, to_result = r, to_is_error = False, to_executed = True\<rparr>
                    | ToolErr s \<Rightarrow> Inr \<lparr>to_id = i, to_name = name, to_args = args, to_result = text_result s,
                                       to_is_error = True, to_executed = True\<rparr>
                    | ToolPanic s \<Rightarrow> Inl s, a2)))
      in case outcome of
           Inl panic \<Rightarrow> (Inl panic, a1\<lparr>ag_obs := scope_drop sc (ag_obs a1)\<rparr>)
         | Inr out \<Rightarrow> (Inr out, close_tool opts sc call out a1))"

fun run_sequential :: "'w agent_options \<Rightarrow> 'w prepared_call list \<Rightarrow> 'w agent \<Rightarrow> tool_outcome list option \<times> 'w agent" where
  "run_sequential opts [] a = (Some [], a)"
| "run_sequential opts (c # cs) a =
     (case run_one opts c a of
        (Inl _, a1) \<Rightarrow> (None, a1)
      | (Inr out, a1) \<Rightarrow>
          (case run_sequential opts cs a1 of
             (Some outs, a2) \<Rightarrow> (Some (out # outs), a2)
           | (None, a2) \<Rightarrow> (None, a2)))"

text \<open>What a task that panicked is joined to.\<close>

definition join_error :: "ustr \<Rightarrow> tool_outcome" where
  "join_error s =
     \<lparr>to_id = [], to_name = [], to_args = JNull, to_result = text_result (lit ''tool task join: '' @ s),
      to_is_error = True, to_executed = True\<rparr>"

text \<open>
  Parallel tasks, run in an order the world chooses (each index once); the outcomes are collected in
  the order of the calls.
\<close>

definition task_order :: "nat \<Rightarrow> nat list \<Rightarrow> nat list" where
  "task_order n order = remdups (filter (\<lambda>i. i < n) order) @ filter (\<lambda>i. i \<notin> set order) [0..<n]"

fun run_tasks ::
  "'w agent_options \<Rightarrow> 'w prepared_call list \<Rightarrow> nat list \<Rightarrow> (nat \<rightharpoonup> tool_outcome) \<Rightarrow> 'w agent \<Rightarrow>
   (nat \<rightharpoonup> tool_outcome) \<times> 'w agent" where
  "run_tasks opts calls [] done_tasks a = (done_tasks, a)"
| "run_tasks opts calls (i # is) done_tasks a =
     (case run_one opts (calls ! i) a of
        (Inl s, a1) \<Rightarrow> run_tasks opts calls is (done_tasks(i \<mapsto> join_error s)) a1
      | (Inr out, a1) \<Rightarrow> run_tasks opts calls is (done_tasks(i \<mapsto> out)) a1)"

definition run_parallel :: "'w agent_options \<Rightarrow> 'w prepared_call list \<Rightarrow> 'w agent \<Rightarrow> tool_outcome list \<times> 'w agent" where
  "run_parallel opts calls a =
     (let order = task_order (length calls) (ao_order opts (length calls) (ag_world a));
          (outs, a1) = run_tasks opts calls order Map.empty a
      in (map (\<lambda>i. the (outs i)) [0..<length calls], a1))"

subsection \<open>Results\<close>

definition apply_tool_result_patch ::
  "agent_tool_result \<Rightarrow> bool \<Rightarrow> result_patch \<Rightarrow> agent_tool_result \<times> bool" where
  "apply_tool_result_patch result is_error patch =
     (let r1 = (case rp_content patch of Some c \<Rightarrow> result\<lparr>ar_content := c\<rparr> | None \<Rightarrow> result);
          r2 = (case rp_details patch of Some d \<Rightarrow> r1\<lparr>ar_details := d\<rparr> | None \<Rightarrow> r1);
          r3 = (case rp_terminate patch of Some t \<Rightarrow> r2\<lparr>ar_terminate := Some t\<rparr> | None \<Rightarrow> r2)
      in (r3, case rp_is_error patch of Some err \<Rightarrow> err | None \<Rightarrow> is_error))"

definition patch_with ::
  "'w agent_options \<Rightarrow> ('w after_tool_call_context \<Rightarrow> 'w \<Rightarrow> result_patch \<times> 'w) option \<Rightarrow> assistant_message \<Rightarrow>
   'w agent_context \<Rightarrow> tool_outcome \<Rightarrow> 'w agent \<Rightarrow> tool_outcome \<times> 'w agent" where
  "patch_with opts hook assistant context out a =
     (case hook of
        None \<Rightarrow> (out, a)
      | Some f \<Rightarrow>
          (let (patch, a1) = await opts (f
                 \<lparr>ac_assistant_message = assistant,
                  ac_tool_call = \<lparr>tl_id = to_id out, tl_name = to_name out, tl_arguments = args_object (to_args out),
                                  tl_thought_signature = None\<rparr>,
                  ac_args = to_args out, ac_result = to_result out, ac_is_error = to_is_error out, ac_context = context\<rparr>) a;
               (result, is_error) = apply_tool_result_patch (to_result out) (to_is_error out) patch
           in (out\<lparr>to_result := result, to_is_error := is_error\<rparr>, a1)))"

definition finish_outcome ::
  "'w agent_options \<Rightarrow> assistant_message \<Rightarrow> 'w agent_context \<Rightarrow> tool_outcome \<Rightarrow> 'w agent \<Rightarrow>
   (tool_result_message \<times> bool) \<times> 'w agent" where
  "finish_outcome opts assistant context out a =
     (let (out1, a1) = patch_with opts (ao_after_tool_call opts) assistant context out a;
          a2 = (if to_executed out1
                then emit opts (ToolExecutionEnd (to_id out1) (to_name out1) (to_result out1) (to_is_error out1)) a1 else a1);
          (out2, a3) = patch_with opts (ao_transform_tool_result opts) assistant context out1 a2
      in ((\<lparr>tr_tool_call_id = to_id out2, tr_tool_name = to_name out2, tr_content = ar_content (to_result out2),
            tr_details = Some (ar_details (to_result out2)), tr_is_error = to_is_error out2,
            tr_timestamp = ao_now opts (ag_world a3)\<rparr>,
           ar_terminate (to_result out2) = Some True), a3))"

fun finish_outcomes ::
  "'w agent_options \<Rightarrow> assistant_message \<Rightarrow> 'w agent_context \<Rightarrow> tool_outcome list \<Rightarrow> 'w agent \<Rightarrow>
   (tool_result_message list \<times> bool) \<times> 'w agent" where
  "finish_outcomes opts assistant context [] a = (([], True), a)"
| "finish_outcomes opts assistant context (out # outs) a =
     (let ((r, t), a1) = finish_outcome opts assistant context out a;
          ((rs, ts), a2) = finish_outcomes opts assistant context outs a1
      in ((r # rs, t \<and> ts), a2))"

fun block_tool_call :: "content_block \<Rightarrow> tool_call option" where
  "block_tool_call (CToolCall tc) = Some tc"
| "block_tool_call _ = None"

definition tool_calls_of :: "assistant_message \<Rightarrow> tool_call list" where
  "tool_calls_of m = List.map_filter block_tool_call (am_content m)"

definition requests_sequential :: "'w agent_tool list \<Rightarrow> tool_call \<Rightarrow> bool" where
  "requests_sequential snapshot tc =
     (case find_tool (tl_name tc) snapshot of
        Some t \<Rightarrow> at_execution_mode t = Some Sequential | None \<Rightarrow> False)"

definition execute_tools_with_snapshot ::
  "'w agent_options \<Rightarrow> assistant_message \<Rightarrow> 'w agent_tool list \<Rightarrow> 'w agent \<Rightarrow>
   (tool_result_message list \<times> bool) option \<times> 'w agent" where
  "execute_tools_with_snapshot opts assistant snapshot a =
     (let tool_calls = tool_calls_of assistant
      in if tool_calls = [] then (Some ([], False), a)
         else
           (let mode = (if list_ex (requests_sequential snapshot) tool_calls then Sequential else ao_tool_execution opts);
                (prepared, a1) = prepare_calls opts assistant snapshot (snapshot_context a) tool_calls a;
                (outcomes, a2) = (case mode of
                   Sequential \<Rightarrow> run_sequential opts prepared a1
                 | Parallel \<Rightarrow> (let (outs, a2) = run_parallel opts prepared a1 in (Some outs, a2)))
            in case outcomes of
                 None \<Rightarrow> (None, a2)
               | Some outs \<Rightarrow>
                   (let (res, a3) = finish_outcomes opts assistant (snapshot_context a2) outs a2 in (Some res, a3))))"

end
