(* ===== verification/Agent_Loop.thy ===== *)
theory Agent_Loop
  imports Agent_Tools
begin

text \<open>
  The agent loop, \<^verbatim>\<open>crates/theway-core/src/agent/run_loop/mod.rs\<close>: turns of one model call and its
  tool calls, with the queues drained between them, until the model stops, a hook or the tools end the
  run, it is cancelled or interrupted, or the iteration budget is spent.

  One pass of the loop is \<open>turn_pass\<close>; the loop is a partial function whose \<open>None\<close> is a run that goes
  on for ever. \<open>RPanic\<close> is a panic that unwinds the run: its scopes are dropped and its permit released.
\<close>

subsection \<open>Messages\<close>

fun same_message_role :: "agent_message \<Rightarrow> agent_message \<Rightarrow> bool" where
  "same_message_role (Llm (User _)) (Llm (User _)) = True"
| "same_message_role (Llm (Assistant _)) (Llm (Assistant _)) = True"
| "same_message_role (Llm (ToolResult _)) (Llm (ToolResult _)) = True"
| "same_message_role (Custom _) (Custom _) = True"
| "same_message_role _ _ = False"

definition finish_message :: "'w agent_options \<Rightarrow> agent_message \<Rightarrow> 'w agent \<Rightarrow> agent_message \<times> 'w agent" where
  "finish_message opts original a =
     (let (message, a1) = (case ao_transform_message opts of
            Some f \<Rightarrow> (let (replacement, a1) = await opts (f original) a
                       in (if same_message_role original replacement then replacement else original, a1))
          | None \<Rightarrow> (original, a))
      in (message, emit opts (MessageEnd message) (a1\<lparr>ag_messages := ag_messages a1 @ [message]\<rparr>)))"

definition start_message :: "'w agent_options \<Rightarrow> agent_message \<Rightarrow> 'w agent \<Rightarrow> agent_message \<times> 'w agent" where
  "start_message opts m a = finish_message opts m (emit opts (MessageStart m) a)"

fun start_messages :: "'w agent_options \<Rightarrow> agent_message list \<Rightarrow> 'w agent \<Rightarrow> agent_message list \<times> 'w agent" where
  "start_messages opts [] a = ([], a)"
| "start_messages opts (m # ms) a =
     (let (m', a1) = start_message opts m a; (ms', a2) = start_messages opts ms a1 in (m' # ms', a2))"

fun has_content :: "agent_message \<Rightarrow> bool" where
  "has_content (Llm (Assistant m)) =
     list_ex (\<lambda>b. case b of CText _ \<Rightarrow> True | CToolCall _ \<Rightarrow> True | _ \<Rightarrow> False) (am_content m)"
| "has_content _ = False"

definition finalize_partial_turn :: "'w agent_options \<Rightarrow> 'w agent \<Rightarrow> 'w agent" where
  "finalize_partial_turn opts a =
     (case ag_streaming_message a of
        None \<Rightarrow> a
      | Some m \<Rightarrow>
          (let a1 = a\<lparr>ag_streaming_message := None\<rparr>
           in if has_content m then snd (finish_message opts m a1) else a1))"

subsection \<open>One pass of the loop\<close>

datatype run_result = ROk | RErr agent_run_error | RPanic

text \<open>What a pass decides: leave the loop with a result, or go on.\<close>

datatype pass = Leave run_result | Again

definition drain_steering :: "'w agent \<Rightarrow> agent_message list \<times> 'w agent" where
  "drain_steering a = (case queue_drain (ag_steering a) of (ms, q) \<Rightarrow> (ms, a\<lparr>ag_steering := q\<rparr>))"

definition drain_follow_up :: "'w agent \<Rightarrow> agent_message list \<times> 'w agent" where
  "drain_follow_up a = (case queue_drain (ag_follow_up a) of (ms, q) \<Rightarrow> (ms, a\<lparr>ag_follow_up := q\<rparr>))"

definition close_turn ::
  "scope \<Rightarrow> operation_outcome \<Rightarrow> error_category option \<Rightarrow> measurements \<Rightarrow> 'w agent \<Rightarrow> 'w agent" where
  "close_turn sc outcome category ms a =
     a\<lparr>ag_active_turn := None, ag_obs := scope_finish outcome category ms sc (ag_obs a)\<rparr>"

text \<open>The branch of an interrupted call.\<close>

definition interrupted_turn :: "'w agent_options \<Rightarrow> scope \<Rightarrow> 'w agent \<Rightarrow> pass \<times> 'w agent" where
  "interrupted_turn opts sc a =
     (let a1 = finalize_partial_turn opts
                 (close_turn sc OInterrupted (Some ECancellation) default_measurements (a\<lparr>ag_turn_cancel := None\<rparr>));
          (steering, a2) = drain_steering a1;
          (queued, a3) = (if steering = [] then drain_follow_up a2 else (steering, a2))
      in if queued \<noteq> [] then (Again, snd (start_messages opts queued a3))
         else (Leave (RErr TurnInterrupted), a3\<lparr>ag_error_message := Some (run_error_str TurnInterrupted)\<rparr>))"

definition failed_turn :: "scope \<Rightarrow> agent_run_error \<Rightarrow> 'w agent \<Rightarrow> pass \<times> 'w agent" where
  "failed_turn sc err a =
     (let a1 = close_turn sc (if is_cancelled a then OCancelled else OFailed)
                 (Some (if is_cancelled a then ECancellation else ERuntime)) default_measurements (a\<lparr>ag_turn_cancel := None\<rparr>)
      in (Leave (RErr err), a1\<lparr>ag_error_message := Some (run_error_str err)\<rparr>))"

definition turn_context_of :: "assistant_message \<Rightarrow> tool_result_message list \<Rightarrow> 'w agent \<Rightarrow> 'w turn_context" where
  "turn_context_of assistant results a =
     \<lparr>tx_message = assistant, tx_tool_results = results, tx_context = snapshot_context a, tx_new_messages = ag_messages a\<rparr>"

text \<open>What follows a completed turn: the hooks, the tools' wish to end, and the queues.\<close>

definition after_turn ::
  "'w agent_options \<Rightarrow> assistant_message \<Rightarrow> tool_result_message list \<Rightarrow> bool \<Rightarrow> 'w agent \<Rightarrow> pass \<times> 'w agent" where
  "after_turn opts assistant results all_terminate a =
     (let (stop, a1) = (case ao_should_stop_after_turn opts of
            Some f \<Rightarrow> await opts (f (turn_context_of assistant results a)) a | None \<Rightarrow> (False, a))
      in if stop then (Leave ROk, a1)
         else
           (let continues = (am_stop_reason assistant = ToolUse)
            in if results \<noteq> [] \<and> all_terminate then (Leave ROk, a1)
               else
                 (let a2 = (case ao_prepare_next_turn opts of
                        Some f \<Rightarrow>
                          (let (update, a2) = await opts (f (turn_context_of assistant results a1)) a1
                           in case update of Some u \<Rightarrow> apply_turn_update u a2 | None \<Rightarrow> a2)
                      | None \<Rightarrow> a1);
                      (steering, a3) = drain_steering a2;
                      (queued, a4) = (if \<not> continues \<and> steering = [] then drain_follow_up a3 else (steering, a3))
                  in if queued \<noteq> [] then (Again, snd (start_messages opts queued a4))
                     else if \<not> continues then (Leave ROk, a4)
                     else (Again, a4))))"

definition turn_measurements :: "usage \<Rightarrow> nat \<Rightarrow> measurements" where
  "turn_measurements u n =
     default_measurements\<lparr>m_input_tokens := u_input u, m_output_tokens := u_output u,
       m_cache_read_tokens := u_cache_read u, m_cache_write_tokens := u_cache_write u, m_turns := 1, m_tool_calls := n\<rparr>"

text \<open>A call that succeeded: its message, its tools, its results.\<close>

definition completed_turn :: "'w agent_options \<Rightarrow> scope \<Rightarrow> 'w model_call_result \<Rightarrow> 'w agent \<Rightarrow> (pass \<times> bool) \<times> 'w agent" where
  "completed_turn opts sc call a =
     (case finish_message opts (Llm (Assistant (mc_message call))) (a\<lparr>ag_turn_cancel := None\<rparr>) of
        (Llm (Assistant assistant), a1) \<Rightarrow>
          (case execute_tools_with_snapshot opts assistant (mc_executable_tools call) a1 of
             (None, a2) \<Rightarrow> ((Leave RPanic, False), a2\<lparr>ag_obs := scope_drop sc (ag_obs a2)\<rparr>)
           | (Some (results, all_terminate), a2) \<Rightarrow>
               (let (finalized, a3) = start_messages opts (map (\<lambda>r. Llm (ToolResult r)) results) a2;
                    results = List.map_filter (\<lambda>m. case m of Llm (ToolResult r) \<Rightarrow> Some r | _ \<Rightarrow> None) finalized;
                    a4 = emit opts (TurnCompleted (Llm (Assistant assistant)) results) a3;
                    a5 = close_turn sc (if is_cancelled a4 then OCancelled else OSucceeded)
                           (if is_cancelled a4 then Some ECancellation else None)
                           (turn_measurements (am_usage assistant) (length results)) a4;
                    (p, a6) = after_turn opts assistant results all_terminate a5
                in ((p, True), a6)))
      | (_, a1) \<Rightarrow> ((Leave RPanic, False), a1\<lparr>ag_obs := scope_drop sc (ag_obs a1)\<rparr>))"

text \<open>The counters of the loop.\<close>

record counters =
  cn_iterations :: nat
  cn_turn_index :: nat
  cn_completed :: nat

definition turn_pass :: "'w agent_options \<Rightarrow> nat \<Rightarrow> counters \<Rightarrow> 'w agent \<Rightarrow> pass \<times> counters \<times> 'w agent" where
  "turn_pass opts run_id c a =
     (if is_cancelled a then (Leave ROk, c, a)
      else if (case ao_max_iterations opts of Some m \<Rightarrow> m \<le> cn_iterations c | None \<Rightarrow> False)
      then (let msg = lit ''max iterations ('' @ show_nat (the (ao_max_iterations opts)) @ lit '') exceeded''
            in (Leave (RErr (Other msg)), c, a\<lparr>ag_error_message := Some msg\<rparr>))
      else
        (let c1 = c\<lparr>cn_iterations := (if ao_max_iterations opts = None then cn_iterations c else cn_iterations c + 1),
                    cn_turn_index := min (2 ^ 32 - 1) (cn_turn_index c + 1)\<rparr>;
             a1 = emit opts TurnStart a;
             turn = cn_turn_index c;
             (sc, obs) = scope_start (Some run_id) (with_turn (ao_observation_context opts) turn) (DetTurn turn) (ag_obs a1);
             a2 = a1\<lparr>ag_obs := obs, ag_active_turn := Some (sc_id sc, turn), ag_turn_cancel := Some False\<rparr>
         in case call_llm opts a2 of
              (Inl TurnInterrupted, a3) \<Rightarrow> (let (p, a4) = interrupted_turn opts sc a3 in (p, c1, a4))
            | (Inl err, a3) \<Rightarrow> (let (p, a4) = failed_turn sc err a3 in (p, c1, a4))
            | (Inr call, a3) \<Rightarrow>
                (let ((p, completed), a4) = completed_turn opts sc call a3
                 in (p, (if completed then c1\<lparr>cn_completed := cn_completed c1 + 1\<rparr> else c1), a4))))"

subsection \<open>The loop\<close>

partial_function (option) turn_loop ::
  "'w agent_options \<Rightarrow> nat \<Rightarrow> counters \<Rightarrow> 'w agent \<Rightarrow> (run_result \<times> counters \<times> 'w agent) option" where
  "turn_loop opts run_id c a =
     (case turn_pass opts run_id c a of
        (Leave r, c1, a1) \<Rightarrow> Some (r, c1, a1)
      | (Again, c1, a1) \<Rightarrow> turn_loop opts run_id c1 a1)"

definition run_outcome :: "bool \<Rightarrow> run_result \<Rightarrow> operation_outcome \<times> error_category option" where
  "run_outcome cancelled r =
     (case r of
        RErr TurnInterrupted \<Rightarrow> (OInterrupted, Some ECancellation)
      | RErr _ \<Rightarrow> if cancelled then (OCancelled, Some ECancellation) else (OFailed, Some ERuntime)
      | ROk \<Rightarrow> if cancelled then (OCancelled, Some ECancellation) else (OSucceeded, None)
      | RPanic \<Rightarrow> (OAbandoned, Some ERuntime))"

definition drive_loop :: "'w agent_options \<Rightarrow> 'w agent \<Rightarrow> (run_result \<times> 'w agent) option" where
  "drive_loop opts a =
     (let (sc, obs) = scope_start (ao_observation_parent opts) (ao_observation_context opts) DetAgentRun (ag_obs a)
      in case turn_loop opts (sc_id sc) \<lparr>cn_iterations = 0, cn_turn_index = 0, cn_completed = 0\<rparr>
                (a\<lparr>ag_obs := obs, ag_active_run := Some (sc_id sc)\<rparr>) of
           None \<Rightarrow> None
         | Some (RPanic, c, a1) \<Rightarrow> Some (RPanic, a1\<lparr>ag_obs := scope_drop sc (ag_obs a1)\<rparr>)
         | Some (r, c, a1) \<Rightarrow>
             (let (outcome, category) = run_outcome (is_cancelled a1) r
              in Some (r, a1\<lparr>ag_active_turn := None, ag_active_run := None,
                             ag_obs := scope_finish outcome category (default_measurements\<lparr>m_turns := cn_completed c\<rparr>) sc (ag_obs a1)\<rparr>)))"

text \<open>A panic skips the end of the run but not the release of the permit.\<close>

definition end_run :: "'w agent_options \<Rightarrow> (run_result \<times> 'w agent) option \<Rightarrow> (run_result \<times> 'w agent) option" where
  "end_run opts driven =
     (case driven of
        None \<Rightarrow> None
      | Some (RPanic, a) \<Rightarrow> Some (RPanic, release_run a)
      | Some (r, a) \<Rightarrow> Some (r, release_run (finalize_run opts a)))"

definition run_agent_loop :: "'w agent_options \<Rightarrow> agent_message list \<Rightarrow> 'w agent \<Rightarrow> (run_result \<times> 'w agent) option" where
  "run_agent_loop opts new_messages a =
     (case acquire_permit a of
        (Some err, a1) \<Rightarrow> Some (RErr err, a1)
      | (None, a1) \<Rightarrow>
          (let a2 = snd (start_messages opts new_messages (emit opts RunStarted (a1\<lparr>ag_active_cancel := Some False\<rparr>)))
           in end_run opts (drive_loop opts a2)))"

definition run_agent_loop_continue :: "'w agent_options \<Rightarrow> 'w agent \<Rightarrow> (run_result \<times> 'w agent) option" where
  "run_agent_loop_continue opts a =
     (case acquire_permit a of
        (Some err, a1) \<Rightarrow> Some (RErr err, a1)
      | (None, a1) \<Rightarrow>
          if ag_messages a1 = []
          then Some (RErr (Other (lit ''No messages to continue from'')), release_run a1)
          else end_run opts (drive_loop opts (emit opts RunStarted (a1\<lparr>ag_active_cancel := Some False\<rparr>))))"

definition prompt :: "'w agent_options \<Rightarrow> agent_message \<Rightarrow> 'w agent \<Rightarrow> (run_result \<times> 'w agent) option" where
  "prompt opts message a = run_agent_loop opts [message] a"

end
