(* ===== verification/Agent_Loop_Facts.thy ===== *)
theory Agent_Loop_Facts
  imports Agent_Loop
begin

text \<open>
  What every step of the agent loop respects, whatever the embedder's code does (\<open>grow\<close>): the log only
  grows, the agent's messages grow by exactly the messages whose end was emitted, scopes are closed, the
  run stays admitted. The relation composes, so each operation's lemma is a chain of its parts.
\<close>

fun ended_message :: "loop_event \<Rightarrow> agent_message option" where
  "ended_message (MessageEnd m) = Some m"
| "ended_message _ = None"

definition ended :: "loop_event list \<Rightarrow> agent_message list" where
  "ended l = List.map_filter ended_message l"

fun is_turn_start :: "loop_event \<Rightarrow> bool" where
  "is_turn_start TurnStart = True"
| "is_turn_start _ = False"

definition turns :: "loop_event list \<Rightarrow> nat" where
  "turns l = length (filter is_turn_start l)"

lemma ended_simps [simp]:
  "ended [] = []" "ended (ev # l) = (case ended_message ev of Some m \<Rightarrow> m # ended l | None \<Rightarrow> ended l)"
  "ended (l @ k) = ended l @ ended k"
  by (simp_all add: ended_def map_filter_def split: option.split)

lemma turns_simps [simp]:
  "turns [] = 0" "turns (ev # l) = (if is_turn_start ev then 1 else 0) + turns l" "turns (l @ k) = turns l + turns k"
  by (simp_all add: turns_def)

text \<open>The hook between turns rewrites no messages.\<close>

definition keeps_context :: "'w agent_options \<Rightarrow> bool" where
  "keeps_context opts \<longleftrightarrow>
     (case ao_prepare_next_turn opts of None \<Rightarrow> True
      | Some f \<Rightarrow> \<forall>c w. case fst (f c w) of None \<Rightarrow> True | Some u \<Rightarrow> tu_context u = None)"

definition grow :: "'w agent_options \<Rightarrow> nat \<Rightarrow> 'w agent \<Rightarrow> 'w agent \<Rightarrow> bool" where
  "grow opts n a a' \<longleftrightarrow>
     (\<exists>l. ag_log a' = ag_log a @ l \<and> turns l \<le> n \<and>
          (keeps_context opts \<longrightarrow> ag_messages a' = ag_messages a @ ended l)) \<and>
     ag_run_active a' = ag_run_active a \<and>
     (\<forall>scs. obs_wf scs (ag_obs a) \<longrightarrow> obs_wf scs (ag_obs a'))"

named_theorems grow

lemma grow_refl [simp]: "grow opts n a a"
  by (auto simp: grow_def)

lemma grow_trans: "grow opts n a b \<Longrightarrow> grow opts m b c \<Longrightarrow> grow opts (n + m) a c"
  unfolding grow_def by (elim conjE exE) (intro conjI exI, auto)

lemma grow0_trans [trans]: "grow opts 0 a b \<Longrightarrow> grow opts 0 b c \<Longrightarrow> grow opts 0 a c"
  using grow_trans [of opts 0 a b 0 c] by simp

lemma grow_mono: "grow opts n a b \<Longrightarrow> n \<le> m \<Longrightarrow> grow opts m a b"
  unfolding grow_def by (meson le_trans)

text \<open>An update of fields the relation does not read.\<close>

lemma grow_update:
  "grow opts n a b \<Longrightarrow> ag_log c = ag_log b \<Longrightarrow> ag_messages c = ag_messages b \<Longrightarrow> ag_run_active c = ag_run_active b \<Longrightarrow>
   ag_obs c = ag_obs b \<Longrightarrow> grow opts n a c"
  by (simp add: grow_def)

lemma grow_from:
  "grow opts n b c \<Longrightarrow> ag_log a = ag_log b \<Longrightarrow> ag_messages a = ag_messages b \<Longrightarrow> ag_run_active a = ag_run_active b \<Longrightarrow>
   ag_obs a = ag_obs b \<Longrightarrow> grow opts n a c"
  by (simp add: grow_def)

subsection \<open>Other threads\<close>

lemmas outside_defs = enqueue_steering_def enqueue_follow_up_def abort_def interrupt_def

lemma outside_action_frame [simp]:
  "ag_log (outside_action x a) = ag_log a" "ag_messages (outside_action x a) = ag_messages a"
  "ag_run_active (outside_action x a) = ag_run_active a" "ag_obs (outside_action x a) = ag_obs a"
  "ag_streaming_message (outside_action x a) = ag_streaming_message a" "ag_tools (outside_action x a) = ag_tools a"
  "ag_active_turn (outside_action x a) = ag_active_turn a"
  by (cases x; simp add: outside_defs)+

lemma outside_frame [simp]:
  "ag_log (fold outside_action acts a) = ag_log a" "ag_messages (fold outside_action acts a) = ag_messages a"
  "ag_run_active (fold outside_action acts a) = ag_run_active a" "ag_obs (fold outside_action acts a) = ag_obs a"
  "ag_streaming_message (fold outside_action acts a) = ag_streaming_message a"
  "ag_tools (fold outside_action acts a) = ag_tools a"
  "ag_active_turn (fold outside_action acts a) = ag_active_turn a"
  by (induction acts arbitrary: a) simp_all

lemma interfere_frame [simp]:
  "ag_log (interfere opts a) = ag_log a" "ag_messages (interfere opts a) = ag_messages a"
  "ag_run_active (interfere opts a) = ag_run_active a" "ag_obs (interfere opts a) = ag_obs a"
  "ag_streaming_message (interfere opts a) = ag_streaming_message a" "ag_tools (interfere opts a) = ag_tools a"
  "ag_active_turn (interfere opts a) = ag_active_turn a"
  by (simp_all add: interfere_def split: prod.split)

lemma await_frame:
  assumes "await opts f a = (y, b)"
  shows "ag_log b = ag_log a" "ag_messages b = ag_messages a" "ag_run_active b = ag_run_active a" "ag_obs b = ag_obs a"
    "ag_streaming_message b = ag_streaming_message a" "ag_tools b = ag_tools a" "ag_active_turn b = ag_active_turn a"
  using assms by (auto simp: await_def split: prod.splits)

lemma await_grow [grow]: "await opts f a = (y, b) \<Longrightarrow> grow opts 0 a b"
  by (rule grow_update [OF grow_refl]) (simp_all add: await_frame)

lemma emit_log [simp]:
  "ag_log (emit opts ev a) = ag_log a @ [ev]" "ag_messages (emit opts ev a) = ag_messages a"
  "ag_run_active (emit opts ev a) = ag_run_active a" "ag_obs (emit opts ev a) = ag_obs a"
  "ag_tools (emit opts ev a) = ag_tools a" "ag_active_turn (emit opts ev a) = ag_active_turn a"
  "ag_streaming_message (emit opts ev a) = ag_streaming_message a"
  by (simp_all add: emit_def)

lemma emit_grow: "ended_message ev = None \<Longrightarrow> \<not> is_turn_start ev \<Longrightarrow> grow opts 0 a (emit opts ev a)"
  by (auto simp: grow_def)

lemma emit_then: "grow opts 0 a b \<Longrightarrow> ended_message ev = None \<Longrightarrow> \<not> is_turn_start ev \<Longrightarrow> grow opts 0 a (emit opts ev b)"
  using grow0_trans emit_grow by blast

lemma emit_all_grow:
  "\<forall>ev\<in>set evs. ended_message ev = None \<and> \<not> is_turn_start ev \<Longrightarrow> grow opts 0 a (emit_all opts evs a)"
proof (induction evs arbitrary: a)
  case (Cons ev evs)
  then have "grow opts 0 a (emit opts ev a)" "grow opts 0 (emit opts ev a) (emit_all opts evs (emit opts ev a))"
    by (auto intro: emit_grow)
  then show ?case by (auto simp: emit_all_def intro: grow0_trans)
qed (simp add: emit_all_def)

subsection \<open>Scopes\<close>

lemma scope_content: "obs_wf (sc # scs) o1 \<Longrightarrow> obs_wf scs (scope_finish out cat ms (sc\<lparr>sc_content := ct\<rparr>) o1)"
  using scope_finish_wf [of "[]" sc scs o1 out cat ms ct] by simp

lemma scope_plain: "obs_wf (sc # scs) o1 \<Longrightarrow> obs_wf scs (scope_finish out cat ms sc o1)"
  using scope_content [of sc scs o1 out cat ms "sc_content sc"] by simp

lemma scope_dropped: "obs_wf (sc # scs) o1 \<Longrightarrow> obs_wf scs (scope_drop sc o1)"
proof -
  assume wf: "obs_wf (sc # scs) o1"
  then have "\<not> sc_finished sc" by (simp add: obs_wf_def)
  then have "scope_drop sc o1 = scope_finish OAbandoned (Some ERuntime) default_measurements sc o1"
    by (simp add: scope_drop_def emit_finish_def scope_finish_log)
  with scope_plain [OF wf] show ?thesis by simp
qed

text \<open>Work under a scope that is then closed.\<close>

lemma grow_scope:
  assumes "scope_start parent ctx det (ag_obs a) = (sc, obs)"
    and "grow opts n (a\<lparr>ag_obs := obs\<rparr>) b"
    and "\<And>scs. obs_wf (sc # scs) (ag_obs b) \<Longrightarrow> obs_wf scs (ag_obs c)"
    and "ag_log c = ag_log b" "ag_messages c = ag_messages b" "ag_run_active c = ag_run_active b"
  shows "grow opts n a c"
  using assms(2,4,5,6) scope_start_wf [OF _ assms(1)] assms(3) unfolding grow_def by fastforce

lemma grow_scope_finish:
  assumes "scope_start parent ctx det (ag_obs a) = (sc, obs)"
    and "grow opts n (a\<lparr>ag_obs := obs\<rparr>) b"
  shows "grow opts n a (b\<lparr>ag_obs := scope_finish out cat ms sc (ag_obs b)\<rparr>)"
    and "grow opts n a (b\<lparr>ag_obs := scope_finish out cat ms (attach_content ct sc) (ag_obs b)\<rparr>)"
    and "grow opts n a (b\<lparr>ag_obs := scope_drop sc (ag_obs b)\<rparr>)"
  by (rule grow_scope [OF assms]; simp add: attach_content_def scope_plain scope_content scope_dropped)+

subsection \<open>Requests\<close>

lemma stream_step_grow: "stream_step opts ev lst a = (e, lst', b) \<Longrightarrow> grow opts 0 a b"
proof -
  assume s: "stream_step opts ev lst a = (e, lst', b)"
  have u: "grow opts 0 a (a\<lparr>ag_streaming_message := x\<rparr>)" for x
    by (rule grow_update [OF grow_refl]) simp_all
  have "grow opts 0 a (emit opts (MessageUpdate m ev') (a\<lparr>ag_streaming_message := x\<rparr>))" for m ev' x
    by (rule emit_then [OF u]) simp_all
  moreover have "grow opts 0 a ((emit opts (MessageStart m) a)\<lparr>ag_streaming_message := x\<rparr>)" for m x
    by (rule grow_update [OF emit_then [OF grow_refl]]) simp_all
  moreover note u
  ultimately show ?thesis using s
    by (auto simp: stream_step_def split: assistant_message_event.splits option.splits)
qed

lemma stream_loop_grow: "stream_loop opts evs lst a = (r, b) \<Longrightarrow> grow opts 0 a b"
proof (induction evs arbitrary: lst a)
  case Nil
  then show ?case
    by (auto simp: stream_loop.simps [of opts "[]"] Let_def split: if_splits intro: grow_update [OF grow_refl])
next
  case (Cons ev evs)
  have g: "grow opts 0 a (interfere opts a)" by (rule grow_update [OF grow_refl]) simp_all
  obtain e lst1 a1 where s: "stream_step opts ev lst (interfere opts a) = (e, lst1, a1)" by (metis prod_cases3)
  from grow0_trans [OF g stream_step_grow [OF s]] have "grow opts 0 a a1" .
  with Cons.prems g s show ?case
    by (cases e) (auto simp: stream_loop.simps [of opts "ev # evs"] Let_def split: if_splits
        dest!: Cons.IH intro: grow0_trans)
qed

lemma hook_grow:
  "(case h of Some f \<Rightarrow> await opts (f x) a | None \<Rightarrow> (d, a)) = (y, b) \<Longrightarrow> grow opts 0 a b"
  by (auto split: option.splits intro: await_grow)

lemma request_block_grow: "request_block opts model sp ms ts lvl a = (r, i, b) \<Longrightarrow> grow opts 0 a b"
proof -
  assume r: "request_block opts model sp ms ts lvl a = (r, i, b)"
  obtain ms1 a1 where 1: "(case ao_transform_context opts of Some f \<Rightarrow> await opts (f ms) a | None \<Rightarrow> (ms, a)) = (ms1, a1)"
    by force
  define base where "base = base_request model sp (ao_convert_to_llm opts ms1 (ag_world a1)) ts lvl"
  obtain tr a2 where 2: "(case ao_transform_model_request opts of Some f \<Rightarrow> await opts (f base) a1 | None \<Rightarrow> (base, a1)) = (tr, a2)"
    by force
  have g: "grow opts 0 a a2" by (rule grow0_trans [OF hook_grow [OF 1] hook_grow [OF 2]])
  have fin: "grow opts 0 a b'" if "stream_loop opts evs None (a2\<lparr>ag_world := w\<rparr>) = (x, c)"
      "ag_log b' = ag_log c" "ag_messages b' = ag_messages c" "ag_run_active b' = ag_run_active c" "ag_obs b' = ag_obs c"
    for evs w x c b'
    using grow0_trans [OF g grow_from [OF stream_loop_grow [OF that(1)]]] that(2-5) by (auto intro: grow_update)
  from r [unfolded request_block_def 1 Let_def, simplified, folded base_def, unfolded 2, simplified] show ?thesis
    by (auto split: prod.splits sum.splits option.splits intro: fin)
qed

lemma call_llm_grow: "call_llm opts a = (r, b) \<Longrightarrow> grow opts 0 a b"
proof -
  assume c: "call_llm opts a = (r, b)"
  show ?thesis
  proof (cases "ag_model a")
    case None
    with c show ?thesis by (auto simp: call_llm_def)
  next
    case (Some model)
    obtain parent ctx where p: "turn_observation opts a = (parent, ctx)" by force
    obtain sc obs where s: "scope_start parent ctx (DetLlmRequest (mo_provider model) (mo_id model)) (ag_obs a) = (sc, obs)" by force
    obtain r1 i a1 where q: "request_block opts model (ag_system_prompt a) (ag_messages a) (dedup_tools [] (ag_tools a))
        (ag_thinking_level a) (a\<lparr>ag_obs := obs\<rparr>) = (r1, i, a1)" by (metis prod_cases3)
    show ?thesis
      using c grow_scope_finish [OF s request_block_grow [OF q]]
      by (auto simp: call_llm_def Some p s q Let_def split: prod.splits if_splits simp del: sum.case)
  qed
qed

subsection \<open>Tool calls\<close>

lemma ask_prompt_grow: "ask_prompt opts req a = (d, b) \<Longrightarrow> grow opts 0 a b"
proof -
  obtain d1 a1 where h: "(case ao_on_control_plane_prompt opts of Some f \<Rightarrow> await opts (f req) a | None \<Rightarrow> (fail_closed, a)) = (d1, a1)"
    by force
  then show "grow opts 0 a b" if "ask_prompt opts req a = (d, b)"
    using that hook_grow [OF h] by (auto simp: ask_prompt_def Let_def intro!: emit_then)
qed

lemma prepare_call_grow: "prepare_call opts m snap ctx tc a = (p, b) \<Longrightarrow> grow opts 0 a b"
  by (auto simp: prepare_call_def Let_def
      split: permission_classification.splits prod.splits if_splits option.splits
      intro: await_grow ask_prompt_grow grow0_trans [OF await_grow ask_prompt_grow])

lemma prepare_calls_grow: "prepare_calls opts m snap ctx tcs a = (ps, b) \<Longrightarrow> grow opts 0 a b"
  by (induction tcs arbitrary: a ps)
    (auto simp: Let_def split: prod.splits dest!: prepare_call_grow intro: grow0_trans)

lemma close_tool_grow:
  assumes "scope_start parent ctx det (ag_obs a) = (sc, obs)" "grow opts n (a\<lparr>ag_obs := obs\<rparr>) b"
  shows "grow opts n a (close_tool opts sc call out b)"
  using grow_scope_finish [OF assms] by (simp add: close_tool_def Let_def)

lemma run_one_grow: "run_one opts call a = (r, b) \<Longrightarrow> grow opts 0 a b"
proof -
  assume r: "run_one opts call a = (r, b)"
  obtain parent ctx where p: "turn_observation opts a = (parent, ctx)" by force
  obtain sc obs where s: "scope_start parent ctx (DetToolExecution (call_name call)) (ag_obs a) = (sc, obs)" by force
  let ?a0 = "a\<lparr>ag_obs := obs\<rparr>"
  show ?thesis
  proof (cases call)
    case (Blocked i name args result)
    then show ?thesis
      using r s close_tool_grow [OF s grow_refl] by (auto simp: run_one_def p Let_def)
  next
    case (Run i name args tool)
    obtain updates exit a1 where e: "await opts (at_execute tool i args) (emit opts (ToolExecutionStart i name args) ?a0) = ((updates, exit), a1)"
      by (metis prod.collapse)
    define a2 where "a2 = emit_all opts (map (ToolExecutionUpdate i name args) updates) a1"
    have "grow opts 0 ?a0 (emit opts (ToolExecutionStart i name args) ?a0)" by (rule emit_grow) simp_all
    also have "grow opts 0 (emit opts (ToolExecutionStart i name args) ?a0) a1" by (rule await_grow [OF e])
    also have "grow opts 0 a1 a2" unfolding a2_def by (rule emit_all_grow) auto
    finally have g: "grow opts 0 ?a0 a2" .
    show ?thesis
      using r s e grow_scope_finish(3) [OF s g] close_tool_grow [OF s g] Run
      by (cases exit) (auto simp: run_one_def p a2_def [symmetric] Let_def)
  qed
qed

lemma run_sequential_grow: "run_sequential opts cs a = (r, b) \<Longrightarrow> grow opts 0 a b"
  by (induction cs arbitrary: a r)
    (auto split: prod.splits sum.splits option.splits dest!: run_one_grow intro: grow0_trans)

lemma run_tasks_grow: "run_tasks opts calls is outs a = (r, b) \<Longrightarrow> grow opts 0 a b"
  by (induction opts calls "is" outs a arbitrary: r rule: run_tasks.induct)
    (auto split: prod.splits sum.splits dest!: run_one_grow intro: grow0_trans)

lemma patch_with_grow: "patch_with opts h m ctx out a = (r, b) \<Longrightarrow> grow opts 0 a b"
  by (auto simp: patch_with_def Let_def split: option.splits prod.splits intro: await_grow)

lemma finish_outcome_grow: "finish_outcome opts m ctx out a = (r, b) \<Longrightarrow> grow opts 0 a b"
proof -
  assume f: "finish_outcome opts m ctx out a = (r, b)"
  obtain o1 a1 where 1: "patch_with opts (ao_after_tool_call opts) m ctx out a = (o1, a1)" by force
  define a2 where "a2 = (if to_executed o1 then emit opts (ToolExecutionEnd (to_id o1) (to_name o1) (to_result o1) (to_is_error o1)) a1 else a1)"
  obtain o2 a3 where 3: "patch_with opts (ao_transform_tool_result opts) m ctx o1 a2 = (o2, a3)" by force
  have "grow opts 0 a a1" by (rule patch_with_grow [OF 1])
  also have "grow opts 0 a1 a2" by (auto simp: a2_def intro: emit_grow)
  also have "grow opts 0 a2 a3" by (rule patch_with_grow [OF 3])
  finally show ?thesis using f by (simp add: finish_outcome_def 1 3 a2_def [symmetric] Let_def)
qed

lemma finish_outcomes_grow: "finish_outcomes opts m ctx outs a = (r, b) \<Longrightarrow> grow opts 0 a b"
  by (induction outs arbitrary: a r)
    (auto simp: Let_def split: prod.splits dest!: finish_outcome_grow intro: grow0_trans)

lemma execute_tools_grow: "execute_tools_with_snapshot opts m snap a = (r, b) \<Longrightarrow> grow opts 0 a b"
  by (auto simp: execute_tools_with_snapshot_def run_parallel_def Let_def
      split: if_splits prod.splits option.splits tool_execution_mode.splits
      dest!: prepare_calls_grow run_sequential_grow run_tasks_grow finish_outcomes_grow intro: grow0_trans)

subsection \<open>Messages and turns\<close>

lemma message_grow:
  "grow opts n a b \<Longrightarrow> grow opts n a (emit opts (MessageEnd m) (b\<lparr>ag_messages := ag_messages b @ [m]\<rparr>))"
proof -
  assume "grow opts n a b"
  then obtain l where l: "ag_log b = ag_log a @ l" "turns l \<le> n"
      "keeps_context opts \<longrightarrow> ag_messages b = ag_messages a @ ended l"
      "ag_run_active b = ag_run_active a" "\<forall>scs. obs_wf scs (ag_obs a) \<longrightarrow> obs_wf scs (ag_obs b)"
    by (auto simp: grow_def)
  then show ?thesis
    unfolding grow_def by (intro conjI exI [of _ "l @ [MessageEnd m]"]) auto
qed

lemma finish_message_grow: "finish_message opts m a = (m', b) \<Longrightarrow> grow opts 0 a b"
  by (auto simp: finish_message_def Let_def split: option.splits prod.splits intro: message_grow await_grow)

lemma start_message_grow: "start_message opts m a = (m', b) \<Longrightarrow> grow opts 0 a b"
  unfolding start_message_def by (rule grow0_trans [OF emit_grow finish_message_grow]) auto

lemma start_messages_grow: "start_messages opts ms a = (ms', b) \<Longrightarrow> grow opts 0 a b"
  by (induction ms arbitrary: a ms')
    (auto simp: Let_def split: prod.splits dest!: start_message_grow intro: grow0_trans)

lemma start_messages_grow': "grow opts n a b \<Longrightarrow> grow opts n a (snd (start_messages opts ms b))"
  using grow_trans [of opts n a b 0] start_messages_grow [of opts ms b] by (metis add_0_right prod.collapse)

lemma finalize_partial_grow: "grow opts 0 a (finalize_partial_turn opts a)"
proof (cases "ag_streaming_message a")
  case (Some m)
  define a1 where "a1 = a\<lparr>ag_streaming_message := None\<rparr>"
  have g: "grow opts 0 a a1" by (rule grow_update [OF grow_refl]) (simp_all add: a1_def)
  obtain m' b where b: "finish_message opts m a1 = (m', b)" by force
  from grow0_trans [OF g finish_message_grow [OF b]] have "grow opts 0 a b" .
  with g b Some show ?thesis by (simp add: finalize_partial_turn_def a1_def Let_def)
qed (simp add: finalize_partial_turn_def)

lemma drain_grow:
  "drain_steering a = (ms, b) \<Longrightarrow> grow opts 0 a b" "drain_follow_up a = (ms, b) \<Longrightarrow> grow opts 0 a b"
  by (auto simp: drain_steering_def drain_follow_up_def split: prod.splits intro!: grow_update [OF grow_refl])

lemma apply_turn_update_grow:
  "(keeps_context opts \<longrightarrow> tu_context u = None) \<Longrightarrow> grow opts 0 a (apply_turn_update u a)"
  by (auto simp: grow_def apply_turn_update_def Let_def split: option.split)

text \<open>The same relation for work that ends with a scope closed.\<close>

definition closes :: "'w agent_options \<Rightarrow> scope \<Rightarrow> nat \<Rightarrow> 'w agent \<Rightarrow> 'w agent \<Rightarrow> bool" where
  "closes opts sc n a a' \<longleftrightarrow>
     (\<exists>l. ag_log a' = ag_log a @ l \<and> turns l \<le> n \<and>
          (keeps_context opts \<longrightarrow> ag_messages a' = ag_messages a @ ended l)) \<and>
     ag_run_active a' = ag_run_active a \<and>
     (\<forall>scs. obs_wf (sc # scs) (ag_obs a) \<longrightarrow> obs_wf scs (ag_obs a'))"

lemma grow_closes: "grow opts n a b \<Longrightarrow> closes opts sc m b c \<Longrightarrow> closes opts sc (n + m) a c"
  unfolding grow_def closes_def by (elim conjE exE) (intro conjI exI, auto)

lemma closes_grow: "closes opts sc n a b \<Longrightarrow> grow opts m b c \<Longrightarrow> closes opts sc (n + m) a c"
  unfolding grow_def closes_def by (elim conjE exE) (intro conjI exI, auto)

lemma closes0:
  "grow opts 0 a b \<Longrightarrow> closes opts sc 0 b c \<Longrightarrow> closes opts sc 0 a c"
  "closes opts sc 0 a b \<Longrightarrow> grow opts 0 b c \<Longrightarrow> closes opts sc 0 a c"
  using grow_closes [of opts 0 a b sc 0 c] closes_grow [of opts sc 0 a b 0 c] by simp_all

lemma closes_update:
  "closes opts sc n a b \<Longrightarrow> ag_log c = ag_log b \<Longrightarrow> ag_messages c = ag_messages b \<Longrightarrow> ag_run_active c = ag_run_active b \<Longrightarrow>
   ag_obs c = ag_obs b \<Longrightarrow> closes opts sc n a c"
  by (simp add: closes_def)

lemma closes_error: "closes opts sc n a b \<Longrightarrow> closes opts sc n a (b\<lparr>ag_error_message := x\<rparr>)"
  by (simp add: closes_def)

lemma close_turn_closes: "closes opts sc 0 a (close_turn sc out cat ms a)"
  by (auto simp: closes_def close_turn_def intro: scope_plain)

lemma drop_closes: "closes opts sc 0 a (a\<lparr>ag_obs := scope_drop sc (ag_obs a)\<rparr>)"
  by (auto simp: closes_def intro: scope_dropped)

lemma closes_scope:
  assumes "scope_start parent ctx det (ag_obs a) = (sc, obs)" and "closes opts sc n b c"
    and "ag_log b = ag_log a" "ag_messages b = ag_messages a" "ag_run_active b = ag_run_active a" "ag_obs b = obs"
  shows "grow opts n a c"
  using assms(2-) scope_start_wf [OF _ assms(1)] unfolding grow_def closes_def by fastforce

lemma interrupted_turn_closes: "interrupted_turn opts sc a = (p, b) \<Longrightarrow> closes opts sc 0 a b"
proof -
  assume i: "interrupted_turn opts sc a = (p, b)"
  define a0 where "a0 = a\<lparr>ag_turn_cancel := None\<rparr>"
  define a1 where "a1 = finalize_partial_turn opts (close_turn sc OInterrupted (Some ECancellation) default_measurements a0)"
  obtain steering a2 where 2: "drain_steering a1 = (steering, a2)" by force
  obtain queued a3 where 3: "(if steering = [] then drain_follow_up a2 else (steering, a2)) = (queued, a3)" by force
  have "grow opts 0 a a0" by (rule grow_update [OF grow_refl]) (simp_all add: a0_def)
  from closes0(2) [OF closes0(1) [OF this close_turn_closes] finalize_partial_grow] have "closes opts sc 0 a a1"
    by (simp add: a1_def)
  from closes0(2) [OF this drain_grow(1) [OF 2]] have "closes opts sc 0 a a2" .
  then have c: "closes opts sc 0 a a3" using 3 by (auto split: if_splits intro: closes0(2) [OF _ drain_grow(2)])
  have "closes opts sc 0 a (snd (start_messages opts queued a3))"
    using closes0(2) [OF c start_messages_grow] by (metis prod.collapse)
  moreover have "closes opts sc 0 a (a3\<lparr>ag_error_message := x\<rparr>)" for x by (rule closes_update [OF c]) simp_all
  ultimately show ?thesis
    using i 2 3 by (auto simp: interrupted_turn_def a0_def [symmetric] a1_def [symmetric] Let_def split: if_splits prod.splits)
qed

lemma failed_turn_closes: "failed_turn sc err a = (p, b) \<Longrightarrow> closes opts sc 0 a b"
proof -
  assume f: "failed_turn sc err a = (p, b)"
  define a0 where "a0 = a\<lparr>ag_turn_cancel := None\<rparr>"
  have "grow opts 0 a a0" by (rule grow_update [OF grow_refl]) (simp_all add: a0_def)
  from closes0(1) [OF this close_turn_closes] show ?thesis
    using f by (auto simp: failed_turn_def a0_def [symmetric] Let_def intro: closes_error)
qed

lemma after_turn_grow: "after_turn opts m rs t a = (p, b) \<Longrightarrow> grow opts 0 a b"
proof -
  assume f: "after_turn opts m rs t a = (p, b)"
  obtain stop a1 where 1: "(case ao_should_stop_after_turn opts of
      Some f \<Rightarrow> await opts (f (turn_context_of m rs a)) a | None \<Rightarrow> (False, a)) = (stop, a1)" by force
  have g1: "grow opts 0 a a1" by (rule hook_grow [OF 1])
  define a2 where "a2 = (case ao_prepare_next_turn opts of
      Some f \<Rightarrow> (let (update, a2) = await opts (f (turn_context_of m rs a1)) a1
                 in case update of Some u \<Rightarrow> apply_turn_update u a2 | None \<Rightarrow> a2)
    | None \<Rightarrow> a1)"
  have "grow opts 0 a1 a2"
  proof (cases "ao_prepare_next_turn opts")
    case (Some f)
    obtain update b' where aw: "await opts (f (turn_context_of m rs a1)) a1 = (update, b')" by force
    then have u: "fst (f (turn_context_of m rs a1) (ag_world a1)) = update"
      by (auto simp: await_def split: prod.splits)
    have "keeps_context opts \<longrightarrow> tu_context v = None" if "update = Some v" for v
      using u that Some by (auto simp: keeps_context_def split: option.splits)
    then have "update = Some v \<Longrightarrow> grow opts 0 b' (apply_turn_update v b')" for v
      by (rule apply_turn_update_grow)
    with await_grow [OF aw] show ?thesis
      by (auto simp: a2_def Some aw split: option.split intro: grow0_trans)
  qed (simp add: a2_def)
  with g1 have g2: "grow opts 0 a a2" by (rule grow0_trans)
  obtain steering a3 where 3: "drain_steering a2 = (steering, a3)" by force
  obtain queued a4 where 4: "(if am_stop_reason m \<noteq> ToolUse \<and> steering = [] then drain_follow_up a3 else (steering, a3)) = (queued, a4)"
    by force
  have g3: "grow opts 0 a a3" by (rule grow0_trans [OF g2 drain_grow(1) [OF 3]])
  with 4 have g4: "grow opts 0 a a4" by (auto split: if_splits intro: grow0_trans [OF _ drain_grow(2)])
  show ?thesis
    using f g1 g4 start_messages_grow' [OF g4] 3 4
    by (auto simp: after_turn_def 1 a2_def [symmetric] Let_def split: if_splits prod.splits)
qed

lemma completed_turn_closes: "completed_turn opts sc call a = (p, b) \<Longrightarrow> closes opts sc 0 a b"
proof -
  assume f: "completed_turn opts sc call a = (p, b)"
  define a0 where "a0 = a\<lparr>ag_turn_cancel := None\<rparr>"
  have g0: "grow opts 0 a a0" by (rule grow_update [OF grow_refl]) (simp_all add: a0_def)
  obtain m1 a1 where 1: "finish_message opts (Llm (Assistant (mc_message call))) a0 = (m1, a1)" by force
  have g1: "grow opts 0 a a1" by (rule grow0_trans [OF g0 finish_message_grow [OF 1]])
  have dropped: "closes opts sc 0 a (c\<lparr>ag_obs := scope_drop sc (ag_obs c)\<rparr>)" if "grow opts 0 a c" for c
    by (rule closes0(1) [OF that drop_closes])
  show ?thesis
  proof (cases "\<exists>assistant. m1 = Llm (Assistant assistant)")
    case False
    with f 1 g1 dropped show ?thesis
      by (cases m1; simp add: completed_turn_def a0_def [symmetric] split: llm_message.splits) auto
  next
    case True
    then obtain assistant where m1: "m1 = Llm (Assistant assistant)" by blast
    obtain res a2 where 2: "execute_tools_with_snapshot opts assistant (mc_executable_tools call) a1 = (res, a2)" by force
    have g2: "grow opts 0 a a2" by (rule grow0_trans [OF g1 execute_tools_grow [OF 2]])
    show ?thesis
    proof (cases res)
      case None
      with f 1 2 m1 dropped [OF g2] show ?thesis by (simp add: completed_turn_def a0_def [symmetric])
    next
      case (Some rt)
      obtain results all_terminate where rt: "rt = (results, all_terminate)" by force
      obtain fin a3 where 3: "start_messages opts (map (\<lambda>r. Llm (ToolResult r)) results) a2 = (fin, a3)" by force
      have g3: "grow opts 0 a a3" by (rule grow0_trans [OF g2 start_messages_grow [OF 3]])
      have g4: "grow opts 0 a (emit opts (TurnCompleted m rs) a3)" for m rs by (rule emit_then [OF g3]) simp_all
      show ?thesis
        using f 1 2 3 m1 Some rt closes0(2) [OF closes0(1) [OF g4 close_turn_closes] after_turn_grow]
        by (auto simp: completed_turn_def a0_def [symmetric] Let_def split: prod.splits)
    qed
  qed
qed

lemma turn_pass_grow: "turn_pass opts i c a = (p, c', b) \<Longrightarrow> grow opts 1 a b"
proof -
  assume f: "turn_pass opts i c a = (p, c', b)"
  define a1 where "a1 = emit opts TurnStart a"
  have g1: "grow opts 1 a a1" by (auto simp: grow_def a1_def)
  define turn where "turn = cn_turn_index c"
  obtain sc obs where s: "scope_start (Some i) (with_turn (ao_observation_context opts) turn) (DetTurn turn) (ag_obs a1) = (sc, obs)"
    by force
  define a2 where "a2 = a1\<lparr>ag_obs := obs, ag_active_turn := Some (sc_id sc, turn), ag_turn_cancel := Some False\<rparr>"
  obtain r a3 where call: "call_llm opts a2 = (r, a3)" by force
  have cl: "grow opts 1 a b'" if "closes opts sc 0 a3 b'" for b'
  proof -
    have "grow opts 0 a1 b'"
      by (rule closes_scope [OF s closes0(1) [OF call_llm_grow [OF call] that]]) (simp_all add: a2_def)
    from grow_trans [OF g1 this] show ?thesis by simp
  qed
  have upd: "grow opts 1 a (a\<lparr>ag_error_message := x\<rparr>)" for x by (rule grow_update [OF grow_refl]) simp_all
  show ?thesis
  proof (cases "is_cancelled a \<or> (case ao_max_iterations opts of Some m \<Rightarrow> m \<le> cn_iterations c | None \<Rightarrow> False)")
    case True
    with f upd show ?thesis by (auto simp: turn_pass_def Let_def split: if_splits)
  next
    case False
    note simps = turn_pass_def Let_def a1_def [symmetric] turn_def [symmetric] s a2_def [symmetric] call
    show ?thesis
    proof (cases r)
      case (Inr mc)
      obtain q x a4 where "completed_turn opts sc mc a3 = ((q, x), a4)" by (metis prod.collapse)
      with f False Inr show ?thesis
        using cl [OF completed_turn_closes] by (auto simp: simps)
    next
      case (Inl err)
      obtain q a4 where "interrupted_turn opts sc a3 = (q, a4)" by force
      moreover obtain q' a5 where "failed_turn sc err a3 = (q', a5)" by force
      ultimately show ?thesis
        using f False Inl cl [OF interrupted_turn_closes] cl [OF failed_turn_closes]
        by (cases err) (auto simp: simps)
    qed
  qed
qed

end
