(* ===== verification/Agent_Properties.thy ===== *)
theory Agent_Properties
  imports Agent_Loop_Facts "HOL-Library.Code_Target_Numeral"
begin

text \<open>
  What the agent loop guarantees, for every behaviour of the tools, the hooks, the listeners, the
  provider and the other threads: a run within a budget ends and calls the model at most that often, the
  agent is released, the observation is complete, the transcript is what was announced, no tool runs
  without passing its gates, and every tool call gets its result.
\<close>

subsection \<open>The loop as a whole\<close>

lemma turn_pass_budget:
  assumes "turn_pass opts i c a = (p, c', b)" and "ao_max_iterations opts = Some m"
  shows "(\<exists>r. p = Leave r) \<and> grow opts 0 a b \<or>
         cn_iterations c < m \<and> cn_iterations c' = cn_iterations c + 1 \<and> grow opts 1 a b"
proof (cases "is_cancelled a \<or> m \<le> cn_iterations c")
  case True
  then show ?thesis
    using assms by (auto simp: turn_pass_def Let_def intro!: grow_update [OF grow_refl] split: if_splits)
next
  case False
  then have "cn_iterations c' = cn_iterations c + 1"
    using assms by (auto simp: turn_pass_def Let_def split: prod.splits sum.splits agent_run_error.splits)
  with False turn_pass_grow [OF assms(1)] show ?thesis by simp
qed

lemma turn_loop_budget:
  assumes "ao_max_iterations opts = Some m"
  shows "\<exists>r c' b. turn_loop opts i c a = Some (r, c', b) \<and> grow opts (m - cn_iterations c) a b"
proof (induction "m - cn_iterations c" arbitrary: c a rule: less_induct)
  case less
  obtain p c1 a1 where p: "turn_pass opts i c a = (p, c1, a1)" by (metis prod_cases3)
  note b = turn_pass_budget [OF p assms]
  show ?case
  proof (cases p)
    case (Leave r)
    from b have "grow opts (m - cn_iterations c) a a1" by (auto elim: grow_mono)
    with Leave p show ?thesis by (simp add: turn_loop.simps)
  next
    case Again
    with b have lt: "cn_iterations c < m" "cn_iterations c1 = cn_iterations c + 1" "grow opts 1 a a1" by auto
    then have "m - cn_iterations c1 < m - cn_iterations c" by simp
    from less [OF this, of a1] obtain r c' b where
      r: "turn_loop opts i c1 a1 = Some (r, c', b)" "grow opts (m - cn_iterations c1) a1 b" by blast
    from grow_trans [OF lt(3) r(2)] lt(1,2) have "grow opts (m - cn_iterations c) a b" by (auto elim: grow_mono)
    with Again p r(1) show ?thesis by (simp add: turn_loop.simps)
  qed
qed

lemma turn_loop_grow:
  assumes "turn_loop opts i c a = Some y"
  shows "\<exists>n. grow opts n a (snd (snd y))"
proof (rule turn_loop.raw_induct [where P = "\<lambda>opts i c a y. \<exists>n. grow opts n a (snd (snd y))", OF _ assms])
  fix loop and opts :: "'b agent_options" and i c a y
  assume ih: "\<And>opts i c a y. loop opts i c a = Some y \<Longrightarrow> \<exists>n. grow opts n a (snd (snd y))"
    and step: "(case turn_pass opts i c a of (Leave r, c1, a1) \<Rightarrow> Some (r, c1, a1)
                | (Again, c1, a1) \<Rightarrow> loop opts i c1 a1) = Some y"
  obtain p c1 a1 where p: "turn_pass opts i c a = (p, c1, a1)" by (metis prod_cases3)
  note g = turn_pass_grow [OF p]
  show "\<exists>n. grow opts n a (snd (snd y))"
  proof (cases p)
    case (Leave q)
    with step p have "snd (snd y) = a1" by auto
    with g show ?thesis by blast
  next
    case Again
    with step p have "loop opts i c1 a1 = Some y" by simp
    from ih [OF this] obtain n where "grow opts n a1 (snd (snd y))" by blast
    from grow_trans [OF g this] show ?thesis by blast
  qed
qed

lemma release_frame [simp]:
  "ag_log (release_run a) = ag_log a" "ag_messages (release_run a) = ag_messages a" "ag_obs (release_run a) = ag_obs a"
  by (simp_all add: release_run_def)

text \<open>A run is its loop: what the loop respects, the run between admission and release respects.\<close>

definition admitted :: "'w agent \<Rightarrow> 'w agent" where
  "admitted a = a\<lparr>ag_run_active := True, ag_is_streaming := True, ag_error_message := None\<rparr>"

definition counters_zero :: counters where
  "counters_zero = \<lparr>cn_iterations = 0, cn_turn_index = 0, cn_completed = 0\<rparr>"

lemma drive_loop_grow:
  assumes "drive_loop opts a = Some (r, b)"
  shows "\<exists>i a0 y. turn_loop opts i counters_zero a0 = Some y \<and> (\<forall>n. grow opts n a0 (snd (snd y)) \<longrightarrow> grow opts n a b)"
proof -
  obtain sc obs where s: "scope_start (ao_observation_parent opts) (ao_observation_context opts) DetAgentRun (ag_obs a) = (sc, obs)"
    by force
  define a0 where "a0 = a\<lparr>ag_obs := obs, ag_active_run := Some (sc_id sc)\<rparr>"
  from assms(1) obtain q c' a1 where t: "turn_loop opts (sc_id sc) counters_zero a0 = Some (q, c', a1)"
    by (auto simp: drive_loop_def s counters_zero_def [symmetric] a0_def [symmetric] split: option.splits)
  have "grow opts n a b" if "grow opts n a0 a1" for n
  proof -
    from that have g: "grow opts n (a\<lparr>ag_obs := obs\<rparr>) a1" by (rule grow_from) (simp_all add: a0_def)
    have upd: "grow opts n a (a1\<lparr>ag_active_turn := None, ag_active_run := None, ag_obs := scope_finish out cat ms sc (ag_obs a1)\<rparr>)"
      for out cat ms by (rule grow_update [OF grow_scope_finish(1) [OF s g]]) simp_all
    show ?thesis
      using assms(1) t grow_scope_finish(3) [OF s g] upd
      by (cases q) (auto simp: drive_loop_def s counters_zero_def [symmetric] a0_def [symmetric] Let_def split: prod.splits)
  qed
  with t show ?thesis
    by (intro exI [of _ "sc_id sc"] exI [of _ a0] exI [of _ "(q, c', a1)"]) simp
qed

lemma end_run_cases:
  assumes "end_run opts d = Some (r, b)"
  obtains a1 c where "d = Some (r, a1)" "b = release_run c" "grow opts 0 a1 c"
proof -
  from assms obtain q a1 where d: "d = Some (q, a1)" by (auto simp: end_run_def split: option.splits)
  have "grow opts 0 a1 (finalize_run opts a1)"
    unfolding finalize_run_def by (rule emit_grow) simp_all
  with that [of a1] assms d show ?thesis
    by (cases q) (auto simp: end_run_def)
qed

lemma run_loop_grow:
  assumes "run_agent_loop opts ms a = Some (r, b)" and "\<not> ag_run_active a"
  shows "\<exists>i a0 y c. turn_loop opts i counters_zero a0 = Some y \<and> b = release_run c \<and>
           (\<forall>n. grow opts n a0 (snd (snd y)) \<longrightarrow> grow opts n (admitted a) c)"
proof -
  define a2 where "a2 = snd (start_messages opts ms (emit opts RunStarted ((admitted a)\<lparr>ag_active_cancel := Some False\<rparr>)))"
  have "grow opts 0 (admitted a) (emit opts RunStarted ((admitted a)\<lparr>ag_active_cancel := Some False\<rparr>))"
    by (rule emit_then [OF grow_update [OF grow_refl]]) simp_all
  then have g: "grow opts 0 (admitted a) a2" unfolding a2_def by (rule start_messages_grow')
  have "end_run opts (drive_loop opts a2) = Some (r, b)"
    using assms by (simp add: run_agent_loop_def acquire_permit_def a2_def admitted_def)
  then obtain a3 c where d: "drive_loop opts a2 = Some (r, a3)" and c: "b = release_run c" "grow opts 0 a3 c"
    by (rule end_run_cases)
  from drive_loop_grow [OF d] obtain i a0 y where
    y: "turn_loop opts i counters_zero a0 = Some y" "\<And>n. grow opts n a0 (snd (snd y)) \<Longrightarrow> grow opts n a2 a3" by blast
  have "grow opts n (admitted a) c" if "grow opts n a0 (snd (snd y))" for n
    using grow_trans [OF grow_trans [OF g y(2) [OF that]] c(2)] by simp
  with y(1) c(1) show ?thesis by blast
qed

lemma run_grows:
  assumes "run_agent_loop opts ms a = Some (r, b)" and "\<not> ag_run_active a"
  obtains n c where "b = release_run c" "grow opts n (admitted a) c"
  using run_loop_grow [OF assms] turn_loop_grow by metis

text \<open>
  C8. A run with an iteration budget ends, whatever the model, the tools and the hooks do, and starts no
  more turns, each of them at most one call of the model, than the budget allows.
\<close>
theorem run_ends_in_budget:
  assumes "ao_max_iterations opts = Some m" and "\<not> ag_run_active a"
  shows "\<exists>r b. run_agent_loop opts ms a = Some (r, b) \<and> turns (drop (length (ag_log a)) (ag_log b)) \<le> m"
proof -
  have "\<exists>y. drive_loop opts a2 = Some y" for a2
  proof -
    obtain sc obs where s: "scope_start (ao_observation_parent opts) (ao_observation_context opts) DetAgentRun (ag_obs a2) = (sc, obs)"
      by force
    obtain q c b where "turn_loop opts (sc_id sc) \<lparr>cn_iterations = 0, cn_turn_index = 0, cn_completed = 0\<rparr>
        (a2\<lparr>ag_obs := obs, ag_active_run := Some (sc_id sc)\<rparr>) = Some (q, c, b)"
      using turn_loop_budget [OF assms(1)] by metis
    then show ?thesis by (cases q) (auto simp: drive_loop_def s Let_def split: prod.split)
  qed
  then have "\<exists>y. run_agent_loop opts ms a = Some y"
    using assms(2) by (fastforce simp: run_agent_loop_def acquire_permit_def end_run_def Let_def split: option.split run_result.split)
  then obtain r b where r: "run_agent_loop opts ms a = Some (r, b)" by auto
  from run_loop_grow [OF r assms(2)] obtain i a0 y c where
    y: "turn_loop opts i counters_zero a0 = Some y" "b = release_run c"
       "grow opts m a0 (snd (snd y)) \<Longrightarrow> grow opts m (admitted a) c" by blast
  from turn_loop_budget [OF assms(1), of i counters_zero a0] y(1) have "grow opts m a0 (snd (snd y))"
    by (auto simp: counters_zero_def)
  from y(3) [OF this] have "turns (drop (length (ag_log a)) (ag_log b)) \<le> m"
    by (auto simp: grow_def admitted_def y(2))
  with r show ?thesis by blast
qed

text \<open>
  A run that cannot be admitted changes nothing; every other run, however it ends, a panic included,
  leaves the agent free for the next one: not streaming, with no token and no open operation.
\<close>
theorem run_releases_agent:
  assumes "run_agent_loop opts ms a = Some (r, b)"
  shows "if ag_run_active a then r = RErr AlreadyStreaming \<and> b = a
         else \<not> ag_run_active b \<and> \<not> ag_is_streaming b \<and> ag_active_cancel b = None \<and> ag_turn_cancel b = None \<and>
              ag_active_run b = None \<and> ag_active_turn b = None"
proof (cases "ag_run_active a")
  case True
  with assms show ?thesis by (simp add: run_agent_loop_def acquire_permit_def)
next
  case False
  from run_grows [OF assms False] obtain n c where c: "b = release_run c" "grow opts n (admitted a) c" by blast
  then have "ag_run_active c" by (simp add: grow_def admitted_def)
  with c(1) False show ?thesis by (simp add: release_run_def)
qed

text \<open>
  A run's observation is complete: every operation it starts, the run, its turns, model requests and
  tool executions, is finished once when it ends, on every path.
\<close>
theorem run_observed:
  assumes "run_agent_loop opts ms a = Some (r, b)" and "obs_wf scs (ag_obs a)"
  shows "obs_wf scs (ag_obs b)"
proof (cases "ag_run_active a")
  case True
  with assms show ?thesis by (simp add: run_agent_loop_def acquire_permit_def)
next
  case False
  from run_grows [OF assms(1) False] obtain n c where "b = release_run c" "grow opts n (admitted a) c" by blast
  with assms(2) show ?thesis by (simp add: grow_def admitted_def)
qed

text \<open>
  C9. The transcript is what was announced: when no hook replaces the context between turns, the agent's
  messages grow by exactly the messages whose end was emitted, in that order. A listener that stores
  the messages it hears of, as the session's does, stores the transcript.
\<close>
theorem run_transcript:
  assumes "run_agent_loop opts ms a = Some (r, b)" and "keeps_context opts"
  shows "ag_messages b = ag_messages a @ ended (drop (length (ag_log a)) (ag_log b))"
proof (cases "ag_run_active a")
  case True
  with assms show ?thesis by (simp add: run_agent_loop_def acquire_permit_def)
next
  case False
  from run_grows [OF assms(1) False] obtain n c where "b = release_run c" "grow opts n (admitted a) c" by blast
  with assms(2) show ?thesis by (auto simp: grow_def admitted_def)
qed

end
