(* ===== verification/Agent_Tool_Properties.thy ===== *)
theory Agent_Tool_Properties
  imports Agent_Loop_Facts "HOL-Library.Code_Target_Numeral"
begin

text \<open>
  Tool calls: which of them may run (\<open>tool_starts_permitted\<close>), that each gets its result, in order, and
  which tools a request may carry after an extension rewrote it.
\<close>

subsection \<open>Starts\<close>

fun start_of :: "loop_event \<Rightarrow> (ustr \<times> ustr \<times> json) option" where
  "start_of (ToolExecutionStart i n args) = Some (i, n, args)"
| "start_of _ = None"

definition starts :: "loop_event list \<Rightarrow> (ustr \<times> ustr \<times> json) set" where
  "starts l = {s. \<exists>ev\<in>set l. start_of ev = Some s}"

lemma starts_simps [simp]:
  "starts [] = {}" "starts (ev # l) = (case start_of ev of Some s \<Rightarrow> insert s (starts l) | None \<Rightarrow> starts l)"
  "starts (l @ k) = starts l \<union> starts k"
  by (auto simp: starts_def split: option.split)

lemma start_of_iff [simp]: "start_of ev = Some (i, n, args) \<longleftrightarrow> ev = ToolExecutionStart i n args"
  by (cases ev) auto

lemma starts_iff: "(i, n, args) \<in> starts l \<longleftrightarrow> ToolExecutionStart i n args \<in> set l"
  by (auto simp: starts_def)

definition adds :: "(ustr \<times> ustr \<times> json) set \<Rightarrow> 'w agent \<Rightarrow> 'w agent \<Rightarrow> bool" where
  "adds S a b \<longleftrightarrow> (\<exists>l. ag_log b = ag_log a @ l \<and> starts l \<subseteq> S)"

lemma adds_refl [simp]: "adds S a a"
  by (simp add: adds_def)

lemma adds_trans: "adds S a b \<Longrightarrow> adds S b c \<Longrightarrow> adds S a c"
proof -
  assume "adds S a b" "adds S b c"
  then obtain l k where "ag_log b = ag_log a @ l" "starts l \<subseteq> S" "ag_log c = ag_log b @ k" "starts k \<subseteq> S"
    by (auto simp: adds_def)
  then have "ag_log c = ag_log a @ (l @ k) \<and> starts (l @ k) \<subseteq> S" by simp
  then show ?thesis unfolding adds_def by blast
qed

lemma adds_mono: "adds S a b \<Longrightarrow> S \<subseteq> T \<Longrightarrow> adds T a b"
  by (auto simp: adds_def)

lemma adds_same: "ag_log b = ag_log a \<Longrightarrow> adds S a b"
  by (simp add: adds_def)

lemma adds_emit: "(\<And>s. start_of ev = Some s \<Longrightarrow> s \<in> S) \<Longrightarrow> adds S a (emit opts ev a)"
  by (auto simp: adds_def split: option.split)

lemma adds_await: "await opts f a = (y, b) \<Longrightarrow> adds S a b"
  by (rule adds_same) (simp add: await_frame)

lemma adds_emit_all: "\<forall>ev\<in>set evs. start_of ev = None \<Longrightarrow> adds S a (emit_all opts evs a)"
proof (induction evs arbitrary: a)
  case (Cons ev evs)
  then have "adds S a (emit opts ev a)" "adds S (emit opts ev a) (emit_all opts evs (emit opts ev a))"
    by (auto intro: adds_emit)
  then show ?case by (auto simp: emit_all_def intro: adds_trans)
qed (simp add: emit_all_def)

lemma ask_prompt_adds: "ask_prompt opts req a = (d, b) \<Longrightarrow> adds S a b"
  by (auto simp: ask_prompt_def Let_def split: option.splits prod.splits
      intro: adds_emit adds_trans [OF adds_await adds_emit])

lemma prepare_call_adds: "prepare_call opts m snap ctx tc a = (p, b) \<Longrightarrow> adds S a b"
  by (auto simp: prepare_call_def Let_def
      split: permission_classification.splits prod.splits if_splits option.splits
      intro: adds_await ask_prompt_adds adds_trans [OF adds_await ask_prompt_adds])

lemma prepare_calls_adds: "prepare_calls opts m snap ctx tcs a = (ps, b) \<Longrightarrow> adds S a b"
  by (induction tcs arbitrary: a ps)
    (auto simp: Let_def split: prod.splits dest!: prepare_call_adds intro: adds_trans)

fun call_id :: "'w prepared_call \<Rightarrow> ustr" where
  "call_id (Run i _ _ _) = i"
| "call_id (Blocked i _ _ _) = i"

fun call_starts :: "'w prepared_call \<Rightarrow> (ustr \<times> ustr \<times> json) set" where
  "call_starts (Run i n args _) = {(i, n, args)}"
| "call_starts (Blocked _ _ _ _) = {}"

lemma close_tool_log [simp]: "ag_log (close_tool opts sc call out a) = ag_log a"
  by (simp add: close_tool_def Let_def)

text \<open>A call whose tool can panic.\<close>

definition panics :: "'w prepared_call \<Rightarrow> bool" where
  "panics call \<longleftrightarrow>
     (\<exists>i n args tool w us w' s. call = Run i n args tool \<and> at_execute tool i args w = ((us, ToolPanic s), w'))"

lemma run_one_facts:
  assumes "run_one opts call a = (r, b)"
  shows "adds (call_starts call) a b \<and>
         (\<forall>out. r = Inr out \<longrightarrow> to_id out = call_id call \<and> to_name out = call_name call) \<and>
         (\<forall>s. r = Inl s \<longrightarrow> panics call)"
proof -
  obtain parent ctx where p: "turn_observation opts a = (parent, ctx)" by force
  obtain sc obs where s: "scope_start parent ctx (DetToolExecution (call_name call)) (ag_obs a) = (sc, obs)" by force
  let ?a0 = "a\<lparr>ag_obs := obs\<rparr>"
  show ?thesis
  proof (cases call)
    case (Blocked i name args result)
    with assms s show ?thesis by (auto simp: run_one_def p Let_def intro: adds_same)
  next
    case (Run i name args tool)
    obtain updates exit a1 where e: "await opts (at_execute tool i args) (emit opts (ToolExecutionStart i name args) ?a0) = ((updates, exit), a1)"
      by (metis prod.collapse)
    define a2 where "a2 = emit_all opts (map (ToolExecutionUpdate i name args) updates) a1"
    have "adds (call_starts call) a a1"
      using await_frame(1) [OF e] by (auto simp: adds_def Run)
    moreover have "adds (call_starts call) a1 a2" unfolding a2_def by (rule adds_emit_all) auto
    ultimately have g: "adds (call_starts call) a a2" by (rule adds_trans)
    have "\<exists>w'. at_execute tool i args (ag_world (emit opts (ToolExecutionStart i name args) ?a0)) = ((updates, exit), w')"
      using e by (auto simp: await_def split: prod.splits)
    then have w: "exit = ToolPanic s \<Longrightarrow> panics call" for s unfolding panics_def Run by blast
    have upd: "adds {(i, name, args)} a c" if "ag_log c = ag_log a2" for c
      using g that by (simp add: adds_def Run)
    show ?thesis
      using assms s e Run w
      by (cases exit) (auto simp: run_one_def p a2_def [symmetric] Let_def intro!: upd)
  qed
qed

lemma run_sequential_facts:
  "run_sequential opts cs a = (r, b) \<Longrightarrow>
   adds (\<Union>c\<in>set cs. call_starts c) a b \<and>
   (\<forall>outs. r = Some outs \<longrightarrow> map to_id outs = map call_id cs \<and> map to_name outs = map call_name cs)"
proof (induction cs arbitrary: a r b)
  case (Cons c cs)
  obtain r1 a1 where 1: "run_one opts c a = (r1, a1)" by force
  note f = run_one_facts [OF 1]
  let ?S = "\<Union>c\<in>set (c # cs). call_starts c"
  have s1: "adds ?S a a1" using f by (auto intro: adds_mono)
  show ?case
  proof (cases r1)
    case (Inl s)
    with Cons.prems 1 s1 show ?thesis by auto
  next
    case (Inr out)
    obtain r2 a2 where 2: "run_sequential opts cs a1 = (r2, a2)" by force
    from Cons.IH [OF 2] have "adds ?S a1 a2" by (auto intro: adds_mono)
    with s1 have "adds ?S a a2" by (rule adds_trans)
    then show ?thesis using Cons.prems 1 2 Inr f Cons.IH [OF 2] by (auto split: option.splits)
  qed
qed simp

text \<open>An outcome of a call, or of the panic of its task.\<close>

lemma run_sequential_total: "run_sequential opts cs a = (None, b) \<Longrightarrow> \<exists>c\<in>set cs. panics c"
proof (induction cs arbitrary: a b)
  case (Cons c cs)
  obtain r1 a1 where 1: "run_one opts c a = (r1, a1)" by force
  show ?case
  proof (cases r1)
    case (Inl s)
    with run_one_facts [OF 1] have "panics c" by blast
    then show ?thesis by simp
  next
    case (Inr out)
    with Cons 1 show ?thesis by (auto split: prod.splits option.splits)
  qed
qed simp

definition outcome_of :: "'w prepared_call \<Rightarrow> tool_outcome \<Rightarrow> bool" where
  "outcome_of call out \<longleftrightarrow>
     to_id out = call_id call \<and> to_name out = call_name call \<or>
     panics call \<and> (\<exists>s. out = join_error s)"

lemma run_tasks_facts:
  "run_tasks opts calls is outs a = (outs', b) \<Longrightarrow> \<forall>i\<in>set is. i < length calls \<Longrightarrow>
   adds (\<Union>c\<in>set calls. call_starts c) a b \<and>
   (\<forall>i. i \<in> set is \<longrightarrow> (\<exists>out. outs' i = Some out \<and> outcome_of (calls ! i) out)) \<and>
   (\<forall>i. i \<notin> set is \<longrightarrow> outs' i = outs i)"
proof (induction "is" arbitrary: outs a)
  case (Cons i "is")
  obtain r1 a1 where 1: "run_one opts (calls ! i) a = (r1, a1)" by force
  note f = run_one_facts [OF 1]
  let ?S = "\<Union>c\<in>set calls. call_starts c"
  define out where "out = (case r1 of Inl s \<Rightarrow> join_error s | Inr out \<Rightarrow> out)"
  have o1: "outcome_of (calls ! i) out"
  proof (cases r1)
    case (Inl s)
    with f have "panics (calls ! i)" by blast
    with Inl show ?thesis by (auto simp: outcome_of_def out_def)
  next
    case (Inr out')
    with f show ?thesis by (simp add: out_def outcome_of_def)
  qed
  have s1: "adds ?S a a1"
    using f Cons.prems(2) by (auto intro!: adds_mono [of "call_starts (calls ! i)"] bexI [of _ "calls ! i"])
  from Cons.prems(1) 1 have t: "run_tasks opts calls is (outs(i \<mapsto> out)) a1 = (outs', b)"
    by (cases r1) (simp_all add: out_def)
  have ih: "adds ?S a1 b" "\<forall>j. j \<in> set is \<longrightarrow> (\<exists>out. outs' j = Some out \<and> outcome_of (calls ! j) out)"
    "\<forall>j. j \<notin> set is \<longrightarrow> outs' j = (outs(i \<mapsto> out)) j"
    using Cons.IH [OF t] Cons.prems(2) by auto
  show ?case
    using adds_trans [OF s1 ih(1)] ih(2,3) o1 by (cases "i \<in> set is") auto
qed simp

lemma set_task_order: "set (task_order n order) = {0..<n}"
  by (auto simp: task_order_def)

lemma run_parallel_facts:
  assumes "run_parallel opts calls a = (outs, b)"
  shows "adds (\<Union>c\<in>set calls. call_starts c) a b \<and> list_all2 outcome_of calls outs"
proof -
  define order where "order = task_order (length calls) (ao_order opts (length calls) (ag_world a))"
  obtain om where t: "run_tasks opts calls order Map.empty a = (om, b)" and outs: "outs = map (\<lambda>i. the (om i)) [0..<length calls]"
    using assms by (auto simp: run_parallel_def order_def [symmetric] Let_def split: prod.splits)
  have set: "set order = {0..<length calls}" by (simp add: order_def set_task_order)
  from run_tasks_facts [OF t] set show ?thesis
    by (force simp: outs list_all2_conv_all_nth)
qed

lemma patch_with_facts:
  "patch_with opts h m ctx out a = (out', b) \<Longrightarrow> adds S a b \<and> to_id out' = to_id out \<and> to_name out' = to_name out"
  by (auto simp: patch_with_def Let_def split: option.splits prod.splits intro: adds_await)

lemma finish_outcome_facts:
  assumes "finish_outcome opts m ctx out a = ((r, t), b)"
  shows "adds S a b \<and> tr_tool_call_id r = to_id out \<and> tr_tool_name r = to_name out"
proof -
  obtain o1 a1 where 1: "patch_with opts (ao_after_tool_call opts) m ctx out a = (o1, a1)" by force
  define a2 where "a2 = (if to_executed o1 then emit opts (ToolExecutionEnd (to_id o1) (to_name o1) (to_result o1) (to_is_error o1)) a1 else a1)"
  obtain o2 a3 where 3: "patch_with opts (ao_transform_tool_result opts) m ctx o1 a2 = (o2, a3)" by force
  have "adds S a1 a2" by (auto simp: a2_def intro: adds_emit)
  with patch_with_facts [OF 1, of S] patch_with_facts [OF 3, of S] assms show ?thesis
    by (auto simp: finish_outcome_def 1 3 a2_def [symmetric] Let_def intro: adds_trans)
qed

lemma finish_outcomes_facts:
  "finish_outcomes opts m ctx outs a = ((rs, t), b) \<Longrightarrow>
   adds S a b \<and> map tr_tool_call_id rs = map to_id outs \<and> map tr_tool_name rs = map to_name outs"
proof (induction outs arbitrary: a rs t b)
  case (Cons out outs)
  obtain r1 t1 a1 where 1: "finish_outcome opts m ctx out a = ((r1, t1), a1)" by (metis prod.collapse)
  obtain rs2 t2 a2 where 2: "finish_outcomes opts m ctx outs a1 = ((rs2, t2), a2)" by (metis prod.collapse)
  from Cons.prems finish_outcome_facts [OF 1, of S] Cons.IH [OF 2] show ?case
    by (auto simp: 1 2 Let_def intro: adds_trans)
qed simp

subsection \<open>The gates\<close>

text \<open>
  What a call must have passed: its tool is in the request's catalog and got the arguments it prepared;
  its classification does not block; the embedder's hook, when there is one, was asked about this call
  with these arguments and did not block; and when the classification or the hook asks for a prompt, a
  prompt bound to this call, this tool and the hash of these arguments was put to the user, who allowed
  it, and the resolution is in \<open>log\<close>.
\<close>

definition hook_answer ::
  "'w agent_options \<Rightarrow> assistant_message \<Rightarrow> 'w agent_context \<Rightarrow> tool_call \<Rightarrow> json \<Rightarrow> hook_result \<Rightarrow> bool" where
  "hook_answer opts m ctx tc args answer \<longleftrightarrow>
     (case ao_before_tool_call opts of
        None \<Rightarrow> answer = \<lparr>hr_block = False, hr_reason = None, hr_prompt = None\<rparr>
      | Some hook \<Rightarrow>
          (\<exists>w. answer = fst (hook \<lparr>bc_assistant_message = m, bc_tool_call = tc\<lparr>tl_arguments := args_object args\<rparr>,
                 bc_args = args, bc_context = ctx\<rparr> w)))"

definition permitted ::
  "'w agent_options \<Rightarrow> assistant_message \<Rightarrow> 'w agent_context \<Rightarrow> 'w agent_tool list \<Rightarrow> tool_call \<Rightarrow> loop_event list \<Rightarrow> json \<Rightarrow> bool" where
  "permitted opts m ctx snap tc log args \<longleftrightarrow>
     (\<exists>tool answer. find_tool (tl_name tc) snap = Some tool \<and> args = at_prepare_arguments tool (JObj (tl_arguments tc)) \<and>
        (\<forall>reason. at_permission_classification tool args \<noteq> PBlock reason) \<and>
        hook_answer opts m ctx tc args answer \<and> \<not> hr_block answer \<and>
        (at_permission_classification tool args \<noteq> PAllow \<or> hr_prompt answer \<noteq> None \<longrightarrow>
           ao_on_control_plane_prompt opts \<noteq> None \<and>
           (\<exists>label. ControlPlanePromptResolved (tl_id tc) (tl_name tc) (ao_args_hash opts args) label (lit ''allow'') None
              \<in> set log)))"

lemma permitted_more: "permitted opts m ctx snap tc log args \<Longrightarrow> set log \<subseteq> set log' \<Longrightarrow> permitted opts m ctx snap tc log' args"
  unfolding permitted_def by blast

lemma ask_prompt_allow:
  assumes "ask_prompt opts req a = (PDAllow, b)"
  shows "ao_on_control_plane_prompt opts \<noteq> None \<and>
    ControlPlanePromptResolved (pq_tool_call_id req) (pq_tool_name req) (pq_args_hash req) (pq_label req) (lit ''allow'') None
      \<in> set (drop (length (ag_log a)) (ag_log b))"
  using assms by (auto simp: ask_prompt_def Let_def fail_closed_def await_frame split: option.splits prod.splits)

lemma effective_prompt_binding:
  "effective_prompt opts tc args (synthesized_prompt opts tc args cl) supplied = Some req \<Longrightarrow>
   pq_tool_call_id req = tl_id tc \<and> pq_tool_name req = tl_name tc \<and> pq_args_hash req = ao_args_hash opts args"
  by (auto simp: effective_prompt_def synthesized_prompt_def split: option.splits permission_classification.splits)

lemma effective_prompt_kept:
  "effective_prompt opts tc args (synthesized_prompt opts tc args cl) supplied = None \<longleftrightarrow>
     synthesized_prompt opts tc args cl = None \<and> supplied = None"
  by (auto simp: effective_prompt_def split: option.split)

lemma decided_call_run: "decided_call tc args tool d = Run i n x t \<longleftrightarrow> d = PDAllow \<and> i = tl_id tc \<and> n = tl_name tc \<and> x = args \<and> t = tool"
  by (auto simp: decided_call_def split: prompt_decision.split)

lemma prepare_call_run:
  assumes "prepare_call opts m snap ctx tc a = (Run i n args t, b)"
  shows "i = tl_id tc \<and> n = tl_name tc \<and> permitted opts m ctx snap tc (drop (length (ag_log a)) (ag_log b)) args \<and>
         find_tool (tl_name tc) snap = Some t"
proof -
  from assms obtain tool where t: "find_tool (tl_name tc) snap = Some tool"
    by (auto simp: prepare_call_def split: option.splits)
  define x where "x = at_prepare_arguments tool (JObj (tl_arguments tc))"
  define cl where "cl = at_permission_classification tool x"
  have nb: "cl \<noteq> PBlock reason" for reason
    using assms by (auto simp: prepare_call_def t Let_def x_def [symmetric] cl_def [symmetric])
  obtain h a1 where h: "(case ao_before_tool_call opts of
        Some f \<Rightarrow> await opts (f \<lparr>bc_assistant_message = m, bc_tool_call = tc\<lparr>tl_arguments := args_object x\<rparr>, bc_args = x, bc_context = ctx\<rparr>) a
      | None \<Rightarrow> (\<lparr>hr_block = False, hr_reason = None, hr_prompt = synthesized_prompt opts tc x cl\<rparr>, a)) = (h, a1)" by force
  then have log: "ag_log a1 = ag_log a" by (auto split: option.splits dest: await_frame)
  obtain answer where ans: "hook_answer opts m ctx tc x answer" "hr_block answer = hr_block h"
    "hr_prompt answer \<noteq> None \<longrightarrow> hr_prompt h \<noteq> None"
  proof (cases "ao_before_tool_call opts")
    case None
    with h that show ?thesis by (fastforce simp: hook_answer_def)
  next
    case (Some f)
    with h have "h = fst (f \<lparr>bc_assistant_message = m, bc_tool_call = tc\<lparr>tl_arguments := args_object x\<rparr>, bc_args = x,
        bc_context = ctx\<rparr> (ag_world a))"
      by (auto simp: await_def split: prod.splits)
    with Some have "hook_answer opts m ctx tc x h" unfolding hook_answer_def by auto
    then show ?thesis by (intro that [of h]) simp_all
  qed
  note p = assms [unfolded prepare_call_def t option.case Let_def x_def [symmetric] cl_def [symmetric] h]
  have q: "(if hr_block h then (Blocked (tl_id tc) (tl_name tc) x (text_result (case hr_reason h of
              Some r \<Rightarrow> r | None \<Rightarrow> lit ''tool call blocked by before_tool_call hook'')), a1)
            else (case effective_prompt opts tc x (synthesized_prompt opts tc x cl) (hr_prompt h) of
                    None \<Rightarrow> (Run (tl_id tc) (tl_name tc) x tool, a1)
                  | Some req \<Rightarrow> (case ask_prompt opts req a1 of (decision, a2) \<Rightarrow> (decided_call tc x tool decision, a2)))) =
          (Run i n args t, b)"
    using p nb by (cases cl) (auto simp: h)
  then have nh: "\<not> hr_block answer" using ans(2) by (auto split: if_splits)
  have cl: "\<forall>reason. at_permission_classification tool x \<noteq> PBlock reason" using nb by (simp add: cl_def)
  show ?thesis
  proof (cases "effective_prompt opts tc x (synthesized_prompt opts tc x cl) (hr_prompt h)")
    case None
    with q have r: "i = tl_id tc" "n = tl_name tc" "args = x" "t = tool" by (auto split: if_splits)
    from None have "synthesized_prompt opts tc x cl = None" "hr_prompt answer = None"
      using ans(3) by (simp_all add: effective_prompt_kept)
    then have "cl = PAllow" using nb by (cases cl) (auto simp: synthesized_prompt_def)
    then have "permitted opts m ctx snap tc l x" for l
      unfolding permitted_def using t ans(1) nh cl \<open>hr_prompt answer = None\<close>
      by (intro exI [of _ tool] exI [of _ answer]) (simp add: x_def [symmetric] cl_def [symmetric])
    then show ?thesis using r t by simp
  next
    case (Some req)
    obtain d a2 where d: "ask_prompt opts req a1 = (d, a2)" by force
    from q Some d have r: "d = PDAllow" "i = tl_id tc" "n = tl_name tc" "args = x" "t = tool" "b = a2"
      by (auto simp: decided_call_run split: if_splits)
    have "permitted opts m ctx snap tc (drop (length (ag_log a)) (ag_log b)) x"
      unfolding permitted_def
      using t ans(1) nh cl ask_prompt_allow [OF d [unfolded r(1)]] effective_prompt_binding [OF Some] log r(6)
      by (intro exI [of _ tool] exI [of _ answer]) (auto simp: x_def [symmetric])
    then show ?thesis using r t by simp
  qed
qed

lemma prepare_call_id: "prepare_call opts m snap ctx tc a = (p, b) \<Longrightarrow> call_id p = tl_id tc \<and> call_name p = tl_name tc"
  by (auto simp: prepare_call_def Let_def decided_call_def
      split: permission_classification.splits prod.splits if_splits option.splits prompt_decision.splits)

lemma prepare_calls_facts:
  "prepare_calls opts m snap ctx tcs a = (ps, b) \<Longrightarrow>
   map call_id ps = map tl_id tcs \<and> map call_name ps = map tl_name tcs \<and>
   (\<forall>i n args t. Run i n args t \<in> set ps \<longrightarrow>
      (\<exists>tc\<in>set tcs. i = tl_id tc \<and> n = tl_name tc \<and> permitted opts m ctx snap tc (drop (length (ag_log a)) (ag_log b)) args) \<and>
      t \<in> set snap)"
proof (induction tcs arbitrary: a ps b)
  case (Cons tc tcs)
  obtain p a1 where 1: "prepare_call opts m snap ctx tc a = (p, a1)" by force
  obtain ps2 a2 where 2: "prepare_calls opts m snap ctx tcs a1 = (ps2, a2)" by force
  from prepare_call_adds [OF 1, of UNIV] obtain l1 where l1: "ag_log a1 = ag_log a @ l1" by (auto simp: adds_def)
  from prepare_calls_adds [OF 2, of UNIV] obtain l2 where l2: "ag_log a2 = ag_log a1 @ l2" by (auto simp: adds_def)
  have more: "set (drop (length (ag_log a)) (ag_log a1)) \<subseteq> set (drop (length (ag_log a)) (ag_log a2))"
    "set (drop (length (ag_log a1)) (ag_log a2)) \<subseteq> set (drop (length (ag_log a)) (ag_log a2))"
    by (auto simp: l1 l2)
  note ih = Cons.IH [OF 2]
  have t: "find_tool n snap = Some t \<Longrightarrow> t \<in> set snap" for n t
    by (auto simp: find_tool_def find_Some_iff)
  from Cons.prems have ps: "ps = p # ps2" "b = a2" by (auto simp: 1 2)
  have run: "(\<exists>tc\<in>set (tc # tcs). i = tl_id tc \<and> n = tl_name tc \<and>
      permitted opts m ctx snap tc (drop (length (ag_log a)) (ag_log b)) args) \<and> t' \<in> set snap"
    if "Run i n args t' \<in> set ps" for i n args t'
  proof (cases "Run i n args t' \<in> set ps2")
    case True
    with ih ps(2) show ?thesis using permitted_more [OF _ more(2)] by fastforce
  next
    case False
    with that ps(1) have p: "p = Run i n args t'" by simp
    from prepare_call_run [OF 1 [unfolded p]] ps(2) show ?thesis
      using permitted_more [OF _ more(1)] t by auto
  qed
  with ih prepare_call_id [OF 1] show ?case by (simp add: ps(1))
qed simp

subsection \<open>Execution of a message's tool calls\<close>

lemma adds_new: "adds S a b \<Longrightarrow> ToolExecutionStart i n args \<in> set (drop (length (ag_log a)) (ag_log b)) \<Longrightarrow> (i, n, args) \<in> S"
  by (auto simp: adds_def starts_iff [symmetric])

lemma execute_tools_run:
  assumes "execute_tools_with_snapshot opts m snap a = (r, b)" and "tool_calls_of m \<noteq> []"
  obtains ps a1 outs a2 where "prepare_calls opts m snap (snapshot_context a) (tool_calls_of m) a = (ps, a1)"
    "run_sequential opts ps a1 = (outs, a2) \<or> (\<exists>os. run_parallel opts ps a1 = (os, a2) \<and> outs = Some os)"
    "outs = None \<and> r = None \<and> b = a2 \<or>
     (\<exists>os rs t. outs = Some os \<and> r = Some (rs, t) \<and> finish_outcomes opts m (snapshot_context a2) os a2 = ((rs, t), b))"
proof -
  obtain ps a1 where p: "prepare_calls opts m snap (snapshot_context a) (tool_calls_of m) a = (ps, a1)" by force
  let ?mode = "if list_ex (requests_sequential snap) (tool_calls_of m) then Sequential else ao_tool_execution opts"
  obtain outs a2 where e: "(case ?mode of Sequential \<Rightarrow> run_sequential opts ps a1
      | Parallel \<Rightarrow> (let (outs, a2) = run_parallel opts ps a1 in (Some outs, a2))) = (outs, a2)" by force
  have "run_sequential opts ps a1 = (outs, a2) \<or> (\<exists>os. run_parallel opts ps a1 = (os, a2) \<and> outs = Some os)"
    using e by (auto split: tool_execution_mode.splits prod.splits)
  moreover have "outs = None \<and> r = None \<and> b = a2 \<or>
     (\<exists>os rs t. outs = Some os \<and> r = Some (rs, t) \<and> finish_outcomes opts m (snapshot_context a2) os a2 = ((rs, t), b))"
    using assms by (auto simp: execute_tools_with_snapshot_def p e Let_def split: option.splits prod.splits)
  ultimately show ?thesis using that p by blast
qed

text \<open>
  C7. Every tool that starts belongs to a tool call of the message and has passed its gates: the request's
  catalog, the tool's classification, the embedder's hook and, where one of the two asks for it, the prompt.
\<close>
theorem tool_starts_permitted:
  assumes "execute_tools_with_snapshot opts m snap a = (r, b)"
    and "ToolExecutionStart i n args \<in> set (drop (length (ag_log a)) (ag_log b))"
  shows "\<exists>tc\<in>set (tool_calls_of m). i = tl_id tc \<and> n = tl_name tc \<and>
           permitted opts m (snapshot_context a) snap tc (drop (length (ag_log a)) (ag_log b)) args"
proof (cases "tool_calls_of m = []")
  case True
  with assms show ?thesis by (simp add: execute_tools_with_snapshot_def)
next
  case False
  from execute_tools_run [OF assms(1) this] obtain ps a1 outs a2 where
    p: "prepare_calls opts m snap (snapshot_context a) (tool_calls_of m) a = (ps, a1)" and
    e: "run_sequential opts ps a1 = (outs, a2) \<or> (\<exists>os. run_parallel opts ps a1 = (os, a2) \<and> outs = Some os)" and
    f: "outs = None \<and> r = None \<and> b = a2 \<or>
        (\<exists>os rs t. outs = Some os \<and> r = Some (rs, t) \<and> finish_outcomes opts m (snapshot_context a2) os a2 = ((rs, t), b))" .
  let ?S = "\<Union>c\<in>set ps. call_starts c"
  have "adds ?S a1 a2" using e run_sequential_facts run_parallel_facts by blast
  moreover have "adds ?S a2 b" using f finish_outcomes_facts adds_refl by blast
  ultimately have g: "adds ?S a1 b" by (rule adds_trans)
  from adds_trans [OF prepare_calls_adds [OF p] g] assms(2) have "(i, n, args) \<in> ?S" by (rule adds_new)
  then obtain c where c: "c \<in> set ps" "(i, n, args) \<in> call_starts c" by blast
  from c(2) obtain t where "c = Run i n args t" by (cases c) auto
  with c(1) have "Run i n args t \<in> set ps" by simp
  with prepare_calls_facts [OF p] obtain tc where tc: "tc \<in> set (tool_calls_of m)" "i = tl_id tc" "n = tl_name tc"
    and ok: "permitted opts m (snapshot_context a) snap tc (drop (length (ag_log a)) (ag_log a1)) args" by blast
  from prepare_calls_adds [OF p, of UNIV] obtain l where "ag_log a1 = ag_log a @ l" by (auto simp: adds_def)
  with g have "set (drop (length (ag_log a)) (ag_log a1)) \<subseteq> set (drop (length (ag_log a)) (ag_log b))"
    by (auto simp: adds_def)
  from permitted_more [OF ok this] tc show ?thesis by blast
qed

text \<open>
  C10. When no tool of the snapshot panics, the execution returns, and its results answer the message's
  tool calls one for one, in their order, blocked calls included and in both modes of execution.
\<close>
theorem tool_results_paired:
  assumes "execute_tools_with_snapshot opts m snap a = (r, b)"
    and "\<forall>t\<in>set snap. \<forall>i args w s. snd (fst (at_execute t i args w)) \<noteq> ToolPanic s"
  shows "\<exists>rs t. r = Some (rs, t) \<and> map tr_tool_call_id rs = map tl_id (tool_calls_of m) \<and>
                map tr_tool_name rs = map tl_name (tool_calls_of m)"
proof (cases "tool_calls_of m = []")
  case True
  with assms(1) show ?thesis by (auto simp: execute_tools_with_snapshot_def)
next
  case False
  from execute_tools_run [OF assms(1) this] obtain ps a1 outs a2 where
    p: "prepare_calls opts m snap (snapshot_context a) (tool_calls_of m) a = (ps, a1)" and
    e: "run_sequential opts ps a1 = (outs, a2) \<or> (\<exists>os. run_parallel opts ps a1 = (os, a2) \<and> outs = Some os)" and
    f: "outs = None \<and> r = None \<and> b = a2 \<or>
        (\<exists>os rs t. outs = Some os \<and> r = Some (rs, t) \<and> finish_outcomes opts m (snapshot_context a2) os a2 = ((rs, t), b))" .
  note ids = prepare_calls_facts [OF p]
  have np: "\<not> panics c" if "c \<in> set ps" for c
  proof
    assume "panics c"
    then obtain i n args t w us w' s where c: "c = Run i n args t" "at_execute t i args w = ((us, ToolPanic s), w')"
      by (auto simp: panics_def)
    with that ids have "t \<in> set snap" by blast
    with assms(2) c(2) show False by (metis fst_conv snd_conv)
  qed
  have "\<exists>os. outs = Some os \<and> map to_id os = map call_id ps \<and> map to_name os = map call_name ps"
    using e
  proof
    assume s: "run_sequential opts ps a1 = (outs, a2)"
    with np run_sequential_total obtain os where "outs = Some os" by (cases outs) blast+
    with run_sequential_facts [OF s] show ?thesis by blast
  next
    assume "\<exists>os. run_parallel opts ps a1 = (os, a2) \<and> outs = Some os"
    then obtain os where o: "run_parallel opts ps a1 = (os, a2)" "outs = Some os" by blast
    from run_parallel_facts [OF o(1)] have "list_all2 outcome_of ps os" by blast
    then have "list_all2 (\<lambda>c out. to_id out = call_id c \<and> to_name out = call_name c) ps os"
      by (rule list.rel_mono_strong) (use np in \<open>auto simp: outcome_of_def\<close>)
    then have "map to_id os = map call_id ps \<and> map to_name os = map call_name ps"
      by (auto simp: list_all2_conv_all_nth intro: nth_equalityI)
    with o(2) show ?thesis by blast
  qed
  with f finish_outcomes_facts ids show ?thesis by fastforce
qed

text \<open>
  A panic of a tool that runs as a task of its own is joined to an outcome with no call: its result
  carries an empty id, and the tool call of the message is left without a result.
\<close>

lemma run_one_panic:
  assumes "run_one opts (Run i n args t) a = (r, b)" and "\<forall>w. \<exists>s. snd (fst (at_execute t i args w)) = ToolPanic s"
  shows "\<exists>s. r = Inl s"
proof -
  obtain parent ctx where p: "turn_observation opts a = (parent, ctx)" by force
  obtain sc obs where s: "scope_start parent ctx (DetToolExecution n) (ag_obs a) = (sc, obs)" by force
  let ?e = "emit opts (ToolExecutionStart i n args) (a\<lparr>ag_obs := obs\<rparr>)"
  obtain updates exit a1 where e: "await opts (at_execute t i args) ?e = ((updates, exit), a1)"
    by (metis prod.collapse)
  then have "\<exists>w'. at_execute t i args (ag_world ?e) = ((updates, exit), w')"
    by (auto simp: await_def split: prod.splits)
  with assms(2) obtain x where "exit = ToolPanic x" by (metis fst_conv snd_conv)
  with assms(1) e s show ?thesis by (auto simp: run_one_def p Let_def)
qed

theorem panicked_tool_unpaired:
  assumes "tool_calls_of m = [tc]" and "find_tool (tl_name tc) snap = Some t" and "at_execution_mode t \<noteq> Some Sequential"
    and "ao_tool_execution opts = Parallel" and "\<forall>i args w. \<exists>s. snd (fst (at_execute t i args w)) = ToolPanic s"
    and "\<forall>args. at_permission_classification t args = PAllow" and "ao_before_tool_call opts = None"
  shows "\<exists>x last. fst (execute_tools_with_snapshot opts m snap a) = Some ([x], last) \<and> tr_tool_call_id x = []"
proof -
  define args where "args = at_prepare_arguments t (JObj (tl_arguments tc))"
  have p: "prepare_calls opts m snap ctx [tc] a = ([Run (tl_id tc) (tl_name tc) args t], a)" for ctx
    using assms by (simp add: prepare_call_def Let_def args_def synthesized_prompt_def effective_prompt_def)
  obtain r b where 1: "run_one opts (Run (tl_id tc) (tl_name tc) args t) a = (r, b)" by force
  with run_one_panic [OF 1] assms(5) obtain s where r: "r = Inl s" by auto
  have "remdups (filter (\<lambda>i. i = 0) order) = (if (0::nat) \<in> set order then [0] else [])" for order
    by (induction order) auto
  then have o: "task_order (Suc 0) order = [0]" for order by (auto simp: task_order_def)
  have q: "run_parallel opts [Run (tl_id tc) (tl_name tc) args t] a = ([join_error s], b)"
    using 1 r by (simp add: run_parallel_def o)
  obtain x last c where f: "finish_outcome opts m (snapshot_context b) (join_error s) b = ((x, last), c)"
    by (metis prod.collapse)
  from finish_outcome_facts [OF f, of UNIV] have "tr_tool_call_id x = []" by (simp add: join_error_def)
  then show ?thesis
    using assms p q f by (simp add: execute_tools_with_snapshot_def requests_sequential_def Let_def)
qed

subsection \<open>The tool catalog of a request\<close>

lemma check_visible_facts:
  "check_visible base seen ts = Inr names \<Longrightarrow> distinct seen \<Longrightarrow>
   names = seen @ map ts_name ts \<and> distinct names \<and> set (map ts_name ts) \<subseteq> set base"
  by (induction ts arbitrary: seen) (fastforce split: if_splits)+

lemma check_executable_facts:
  "check_executable base seen ns = Inr names \<Longrightarrow> distinct seen \<Longrightarrow>
   names = seen @ ns \<and> distinct names \<and> set ns \<subseteq> set base"
  by (induction ns arbitrary: seen) (fastforce split: if_splits)+

lemma dedup_tools_facts:
  "distinct (map tool_name_of (dedup_tools seen ts)) \<and> set (dedup_tools seen ts) \<subseteq> set ts \<and>
   tool_name_of ` set (dedup_tools seen ts) = tool_name_of ` set ts - set seen"
  by (induction ts arbitrary: seen) auto

lemma executable_tools_names:
  assumes "set (mr_executable_tool_names r) \<subseteq> tool_name_of ` set ts"
  shows "map tool_name_of (executable_tools r ts) = mr_executable_tool_names r \<and> set (executable_tools r ts) \<subseteq> set ts"
proof -
  have f: "\<exists>t. find_tool n ts = Some t \<and> tool_name_of t = n \<and> t \<in> set ts" if "n \<in> tool_name_of ` set ts" for n
  proof -
    from that obtain t where "find_tool n ts = Some t"
      by (cases "find_tool n ts") (auto simp: find_tool_def find_None_iff)
    then show ?thesis by (auto simp: find_tool_def find_Some_iff)
  qed
  have "map tool_name_of (List.map_filter (\<lambda>n. find_tool n ts) ns) = ns \<and> set (List.map_filter (\<lambda>n. find_tool n ts) ns) \<subseteq> set ts"
    if "set ns \<subseteq> tool_name_of ` set ts" for ns
    using that by (induction ns) (auto simp: map_filter_def dest!: f)
  from this [OF assms] show ?thesis by (simp add: executable_tools_def)
qed

text \<open>
  Whatever an extension makes of the request, what is sent keeps the model it was made for, and what
  the model is shown and what it may run are one catalog, without duplicates, of the agent's own tools.
\<close>
theorem request_catalog:
  "let tools = dedup_tools [] (ts :: 'w agent_tool list);
       r = accepted_request model (base_request model sp ms tools lvl) transformed
   in mr_provider r = mo_provider model \<and> mr_model r = mo_id model \<and>
      distinct (map ts_name (mr_visible_tools r)) \<and>
      ts_name ` set (mr_visible_tools r) = set (mr_executable_tool_names r) \<and>
      distinct (mr_executable_tool_names r) \<and>
      map tool_name_of (executable_tools r tools) = mr_executable_tool_names r \<and>
      set (executable_tools r tools) \<subseteq> set ts"
proof -
  define tools where "tools = dedup_tools [] ts"
  define base where "base = base_request model sp ms tools lvl"
  define r where "r = accepted_request model base transformed"
  note d = dedup_tools_facts [of "[]" ts, folded tools_def]
  have names: "mr_executable_tool_names base = map tool_name_of tools"
    by (simp add: base_def base_request_def)
  have "mr_provider r = mo_provider model \<and> mr_model r = mo_id model \<and> distinct (map ts_name (mr_visible_tools r)) \<and>
        ts_name ` set (mr_visible_tools r) = set (mr_executable_tool_names r) \<and> distinct (mr_executable_tool_names r) \<and>
        set (mr_executable_tool_names r) \<subseteq> tool_name_of ` set tools"
  proof (cases "validate_replacement transformed base (mo_max_tokens model) = None")
    case False
    then have r: "r = base" by (auto simp: r_def accepted_request_def)
    have "map ts_name (mr_visible_tools base) = map tool_name_of tools"
      by (simp add: base_def base_request_def tool_name_of_def)
    moreover from this have "ts_name ` set (mr_visible_tools base) = set (map tool_name_of tools)"
      by (metis list.set_map)
    ultimately show ?thesis using d by (simp add: r names) (simp add: base_def base_request_def)
  next
    case True
    then have r: "r = transformed" by (simp add: r_def accepted_request_def)
    from True obtain vs es where v: "check_visible (mr_executable_tool_names base) [] (mr_visible_tools r) = Inr vs"
      and e: "check_executable (mr_executable_tool_names base) [] (mr_executable_tool_names r) = Inr es"
      and eq: "set es = set vs" "mr_provider r = mr_provider base" "mr_model r = mr_model base"
      by (auto simp: validate_replacement_def r split: if_splits sum.splits)
    from check_visible_facts [OF v] check_executable_facts [OF e] eq show ?thesis
      by (simp add: names) (auto simp: base_def base_request_def)
  qed
  with executable_tools_names [of r tools] d show ?thesis
    unfolding Let_def tools_def [symmetric] base_def [symmetric] r_def [symmetric] by blast
qed

end
