(* ===== verification/Agent_Examples.thy ===== *)
theory Agent_Examples
  imports Agent_Properties Agent_Tool_Properties
begin

text \<open>
  Concrete runs: a world that is a script (the streams the provider will send, what other threads do at
  each await point), at which the properties are applied, and a run that shows what is left behind by an
  aborted call.
\<close>

subsection \<open>Scripted worlds\<close>

type_synonym script = "assistant_message_event list list \<times> outside list list"

definition next_stream :: "script \<Rightarrow> assistant_message_event list \<times> script" where
  "next_stream w = (case w of ([], acts) \<Rightarrow> ([], w) | (s # ss, acts) \<Rightarrow> (s, (ss, acts)))"

definition next_outside :: "script \<Rightarrow> outside list \<times> script" where
  "next_outside w = (case w of (ss, []) \<Rightarrow> ([], w) | (ss, act # acts) \<Rightarrow> (act, (ss, acts)))"

definition scripted :: "nat option \<Rightarrow> tool_execution_mode \<Rightarrow> script agent_options" where
  "scripted budget mode =
     \<lparr>ao_convert_to_llm = (\<lambda>ms w. default_convert_to_llm 0 ms), ao_transform_context = None,
      ao_transform_model_request = None, ao_transform_message = None, ao_stream = (\<lambda>_. next_stream),
      ao_get_api_key = None, ao_session_id = None, ao_before_tool_call = None, ao_after_tool_call = None,
      ao_transform_tool_result = None, ao_on_control_plane_prompt = Some (\<lambda>_ w. (PDAllow, w)),
      ao_should_stop_after_turn = None, ao_prepare_next_turn = None, ao_observation_context = default_context,
      ao_observation_parent = None, ao_tool_execution = mode, ao_max_iterations = budget,
      ao_listener = (\<lambda>_ w. w), ao_interfere = next_outside, ao_finalize_usage = (\<lambda>_ u w. (u, w)),
      ao_args_hash = (\<lambda>_. []), ao_order = (\<lambda>_ _. []), ao_request_value = (\<lambda>_. None),
      ao_message_value = (\<lambda>_. None), ao_content_value = (\<lambda>_. JNull), ao_now = (\<lambda>_. 0)\<rparr>"

definition idle_agent :: "script agent_tool list \<Rightarrow> script \<Rightarrow> script agent" where
  "idle_agent tools w =
     \<lparr>ag_run_active = False, ag_system_prompt = [],
      ag_model = Some \<lparr>mo_id = [109], mo_provider = [112], mo_context_window = 0, mo_max_tokens = 0\<rparr>,
      ag_thinking_level = None, ag_tools = tools, ag_messages = [], ag_is_streaming = False,
      ag_streaming_message = None, ag_error_message = None, ag_steering = queue_new QAll,
      ag_follow_up = queue_new QAll, ag_active_cancel = None, ag_active_run = None, ag_active_turn = None,
      ag_turn_cancel = None, ag_obs = \<lparr>o_next = 0, o_instant = 0, o_include_content = False, o_log = []\<rparr>,
      ag_log = [], ag_world = w\<rparr>"

definition reply :: "stop_reason \<Rightarrow> content_block list \<Rightarrow> assistant_message" where
  "reply reason blocks =
     \<lparr>am_content = blocks, am_api = [], am_provider = [], am_model = [], am_response_model = None,
      am_response_id = None, am_diagnostics = None,
      am_usage = \<lparr>u_input = 0, u_output = 0, u_cache_read = 0, u_cache_write = 0, u_total_tokens = 0,
        u_prefix_hit_tokens = None, u_prefix_cache_hit_rate = None, u_provider_cache_hit_rate = None,
        u_cost = \<lparr>uc_input = 0, uc_output = 0, uc_cache_read = 0, uc_cache_write = 0, uc_total = 0\<rparr>\<rparr>,
      am_stop_reason = reason, am_error_message = None, am_timestamp = 0\<rparr>"

definition says :: "nat \<Rightarrow> content_block list" where
  "says n = [CText \<lparr>tc_text = [n], tc_signature = None\<rparr>]"

definition asks :: "nat \<Rightarrow> agent_message" where
  "asks n = Llm (User \<lparr>um_content = PlainText [n], um_timestamp = 0\<rparr>)"

text \<open>The operations of a run, for evaluation.\<close>

lemmas agent_eval =
  prompt_def run_agent_loop_def acquire_permit_def end_run_def drive_loop_def finalize_run_def release_run_def
  start_message_def finish_message_def emit_def interfere_def await_def outside_defs queue_enqueue_def
  queue_drain_def queue_new_def turn_loop.simps turn_pass_def call_llm_def request_block_def stream_loop.simps
  stream_step_def base_request_def accepted_request_def validate_replacement_def executable_tools_def
  is_cancelled_def turn_cancelled_def turn_observation_def call_outcome_def interrupted_turn_def failed_turn_def
  completed_turn_def close_turn_def finalize_partial_turn_def drain_steering_def drain_follow_up_def
  default_generation_def run_outcome_def with_turn_def default_context_def default_measurements_def
  scope_start_def scope_finish_def scope_drop_def emit_finish_def dispatch_def next_stream_def next_outside_def
  partial_message_def default_convert_to_llm_def map_filter_def after_turn_def turn_context_of_def
  snapshot_context_def execute_tools_with_snapshot_def tool_calls_of_def turn_measurements_def
  check_generation_def scripted_def idle_agent_def Let_def

subsection \<open>A message left behind\<close>

definition aborted_then_interrupted :: script where
  "aborted_then_interrupted =
     ([[EvStart (reply Stop []), EvTextDelta 0 [1] (reply Stop (says 1))], [EvStart (reply Stop [])]],
      [[], [], [], [], [], [], [], [], [Abort], [], [], [], [], [], [Interrupt]])"

text \<open>
  An aborted call leaves its partial message behind, and the next run, interrupted before its own
  stream began, adds that message to the transcript after its own prompt.
\<close>
theorem stale_partial_persisted:
  "\<exists>a1 a2. prompt (scripted None Parallel) (asks 7) (idle_agent [] aborted_then_interrupted) =
             Some (RErr (Other (lit ''aborted'')), a1) \<and> ag_messages a1 = [asks 7] \<and>
           prompt (scripted None Parallel) (asks 8) a1 = Some (RErr TurnInterrupted, a2) \<and>
           ag_messages a2 = [asks 7, asks 8, Llm (Assistant (reply Stop (says 1)))]"
proof -
  have "\<exists>a1. prompt (scripted None Parallel) (asks 7) (idle_agent [] aborted_then_interrupted) =
               Some (RErr (Other (lit ''aborted'')), a1) \<and> ag_messages a1 = [asks 7] \<and>
             (\<exists>a2. prompt (scripted None Parallel) (asks 8) a1 = Some (RErr TurnInterrupted, a2) \<and>
                   ag_messages a2 = [asks 7, asks 8, Llm (Assistant (reply Stop (says 1)))])"
    apply (rule exI, rule conjI)
     apply (simp add: agent_eval aborted_then_interrupted_def cong: let_weak_cong)
    apply (simp add: agent_eval reply_def says_def cong: let_weak_cong)
    done
  then show ?thesis by blast
qed

subsection \<open>Witnesses\<close>

definition one_reply :: script where
  "one_reply = ([[EvStart (reply Stop []), EvDone DStop (reply Stop (says 1))]], [])"

lemma one_run:
  "\<exists>b. run_agent_loop (scripted (Some 1) Parallel) [asks 7] (idle_agent [] one_reply) = Some (ROk, b) \<and>
       ag_messages b = [asks 7, Llm (Assistant (reply Stop (says 1)))]"
  apply (rule exI, rule conjI)
   apply (simp add: agent_eval one_reply_def reply_def says_def cong: let_weak_cong)
  apply (simp add: reply_def says_def)
  done

theorem run_ends_in_budget_witness:
  "\<exists>r b. run_agent_loop (scripted (Some 1) Parallel) [asks 7] (idle_agent [] one_reply) = Some (r, b) \<and>
         turns (drop 0 (ag_log b)) \<le> 1"
  using run_ends_in_budget [of "scripted (Some 1) Parallel" 1 "idle_agent [] one_reply" "[asks 7]"]
  by (simp add: scripted_def idle_agent_def)

theorem run_releases_agent_witness:
  "\<exists>b. run_agent_loop (scripted (Some 1) Parallel) [asks 7] (idle_agent [] one_reply) = Some (ROk, b) \<and>
       \<not> ag_run_active b \<and> \<not> ag_is_streaming b \<and> ag_active_cancel b = None \<and> ag_turn_cancel b = None"
  using one_run run_releases_agent [of "scripted (Some 1) Parallel" "[asks 7]" "idle_agent [] one_reply"]
  by (fastforce simp: idle_agent_def)

theorem run_observed_witness:
  "\<exists>b. run_agent_loop (scripted (Some 1) Parallel) [asks 7] (idle_agent [] one_reply) = Some (ROk, b) \<and> obs_wf [] (ag_obs b)"
proof -
  have "obs_wf [] (ag_obs (idle_agent [] one_reply))"
    by (simp add: obs_wf_def idle_agent_def started_ids_def finished_ids_def map_filter_def)
  with one_run run_observed [of "scripted (Some 1) Parallel" "[asks 7]" "idle_agent [] one_reply" _ _ "[]"] show ?thesis by blast
qed

theorem run_transcript_witness:
  "\<exists>b. run_agent_loop (scripted (Some 1) Parallel) [asks 7] (idle_agent [] one_reply) = Some (ROk, b) \<and>
       ended (ag_log b) = [asks 7, Llm (Assistant (reply Stop (says 1)))]"
proof -
  from one_run obtain b where
    b: "run_agent_loop (scripted (Some 1) Parallel) [asks 7] (idle_agent [] one_reply) = Some (ROk, b)"
       "ag_messages b = [asks 7, Llm (Assistant (reply Stop (says 1)))]" by blast
  have "keeps_context (scripted (Some 1) Parallel)" by (simp add: keeps_context_def scripted_def)
  from run_transcript [OF b(1) this] b show ?thesis by (simp add: idle_agent_def)
qed

definition clock_tool :: "tool_exit \<Rightarrow> script agent_tool" where
  "clock_tool exit =
     \<lparr>at_definition = \<lparr>ts_name = [9], ts_description = [], ts_parameters = JObj []\<rparr>, at_execution_mode = None,
      at_prepare_arguments = (\<lambda>x. x), at_permission_classification = (\<lambda>_. PAllow),
      at_execute = (\<lambda>_ _ w. (([], exit), w))\<rparr>"

definition calls_clock :: tool_call where
  "calls_clock = \<lparr>tl_id = [5], tl_name = [9], tl_arguments = [], tl_thought_signature = None\<rparr>"

definition clock_ok :: tool_exit where
  "clock_ok = ToolOk \<lparr>ar_content = [user_text [3]], ar_details = JNull, ar_terminate = None\<rparr>"

lemmas tool_eval = agent_eval prepare_call_def find_tool_def tool_name_of_def clock_tool_def calls_clock_def
  synthesized_prompt_def effective_prompt_def requests_sequential_def run_one_def emit_all_def close_tool_def
  finish_outcome_def patch_with_def reply_def run_parallel_def task_order_def

theorem tool_starts_permitted_witness:
  "ToolExecutionStart [5] [9] (JObj []) \<in>
     set (ag_log (snd (execute_tools_with_snapshot (scripted None Sequential) (reply ToolUse [CToolCall calls_clock])
       [clock_tool clock_ok] (idle_agent [] ([], []))))) \<and>
   (\<exists>tc\<in>set (tool_calls_of (reply ToolUse [CToolCall calls_clock])). tl_id tc = [5])"
proof -
  obtain r b where e: "execute_tools_with_snapshot (scripted None Sequential) (reply ToolUse [CToolCall calls_clock])
      [clock_tool clock_ok] (idle_agent [] ([], [])) = (r, b)" by force
  have "ToolExecutionStart [5] [9] (JObj []) \<in> set (ag_log (snd (execute_tools_with_snapshot (scripted None Sequential)
      (reply ToolUse [CToolCall calls_clock]) [clock_tool clock_ok] (idle_agent [] ([], [])))))"
    by (simp add: tool_eval clock_ok_def cong: let_weak_cong)
  with e tool_starts_permitted [OF e, of "[5]" "[9]" "JObj []"] show ?thesis
    by (auto simp: idle_agent_def)
qed

theorem tool_results_paired_witness:
  "\<exists>rs t b. execute_tools_with_snapshot (scripted None Parallel) (reply ToolUse [CToolCall calls_clock])
      [clock_tool clock_ok] (idle_agent [] ([], [])) = (Some (rs, t), b) \<and> map tr_tool_call_id rs = [[5]]"
proof -
  obtain r b where e: "execute_tools_with_snapshot (scripted None Parallel) (reply ToolUse [CToolCall calls_clock])
      [clock_tool clock_ok] (idle_agent [] ([], [])) = (r, b)" by force
  with tool_results_paired [OF e] show ?thesis
    by (auto simp: clock_tool_def clock_ok_def tool_calls_of_def reply_def map_filter_def calls_clock_def)
qed

theorem panicked_tool_unpaired_witness:
  "\<exists>x last. fst (execute_tools_with_snapshot (scripted None Parallel) (reply ToolUse [CToolCall calls_clock])
      [clock_tool (ToolPanic [])] (idle_agent [] ([], []))) = Some ([x], last) \<and> tr_tool_call_id x = []"
  by (rule panicked_tool_unpaired [of _ calls_clock _ "clock_tool (ToolPanic [])"])
    (simp_all add: clock_tool_def tool_calls_of_def reply_def map_filter_def calls_clock_def find_tool_def
       tool_name_of_def scripted_def)

end
