(* ===== verification/Extension_Contract.thy ===== *)
theory Extension_Contract
  imports Json
begin

text \<open>
  The contract between the runtime and its extensions: lifecycle events and their names
  (\<^verbatim>\<open>crates/theway-contract/src/extension/lifecycle.rs\<close>), hook classes, actions and the check of
  what a hook returns (\<^verbatim>\<open>action.rs\<close>), the entries an extension stores (\<^verbatim>\<open>state.rs\<close>), and the ports
  the core calls (\<^verbatim>\<open>crates/theway-core/src/agent/runtime_extensions/mod.rs\<close>). What stands behind a
  port, and the derived decoder of a stored entry, are parameters.
\<close>

subsection \<open>Lifecycle events\<close>

datatype lifecycle_event =
    OnExtensionLoad | OnSessionStart | OnInput | OnBeforeSessionSwitch | OnSessionSwitched
  | OnBeforeSessionFork | OnSessionForked | OnBeforeModelSelection | OnModelSelected | OnBeforeRun
  | OnRunStarted | OnTurnStarted | OnContext | OnBeforeModelRequest | OnBeforeProviderRequestHeaders
  | OnBeforeProviderRequestRaw | OnProviderResponse | OnProviderRequestFailed | OnMessageStart
  | OnMessageUpdate | OnMessageEnd | OnToolCall | OnToolExecutionStart | OnToolExecutionUpdate
  | OnToolExecutionEnd | OnToolResult | OnTurnCompleted | OnRunEnded | OnRunError | OnRunSettled
  | OnBeforeCompaction | OnCompactionSucceeded | OnCompactionFailed | OnSessionShutdown
  | OnExtensionUnload | OnSessionResume | OnApprovalRequest | OnApprovalResolved | OnFileWrite
  | OnSandboxExec | OnNotificationSend | OnAgentStatus | OnCustom

primrec snake_case_name :: "lifecycle_event \<Rightarrow> string" where
  "snake_case_name OnExtensionLoad = ''extension_load''"
| "snake_case_name OnSessionStart = ''session_start''"
| "snake_case_name OnInput = ''input''"
| "snake_case_name OnBeforeSessionSwitch = ''before_session_switch''"
| "snake_case_name OnSessionSwitched = ''session_switched''"
| "snake_case_name OnBeforeSessionFork = ''before_session_fork''"
| "snake_case_name OnSessionForked = ''session_forked''"
| "snake_case_name OnBeforeModelSelection = ''before_model_selection''"
| "snake_case_name OnModelSelected = ''model_selected''"
| "snake_case_name OnBeforeRun = ''before_run''"
| "snake_case_name OnRunStarted = ''run_started''"
| "snake_case_name OnTurnStarted = ''turn_started''"
| "snake_case_name OnContext = ''context''"
| "snake_case_name OnBeforeModelRequest = ''before_model_request''"
| "snake_case_name OnBeforeProviderRequestHeaders = ''before_provider_request_headers''"
| "snake_case_name OnBeforeProviderRequestRaw = ''before_provider_request_raw''"
| "snake_case_name OnProviderResponse = ''provider_response''"
| "snake_case_name OnProviderRequestFailed = ''provider_request_failed''"
| "snake_case_name OnMessageStart = ''message_start''"
| "snake_case_name OnMessageUpdate = ''message_update''"
| "snake_case_name OnMessageEnd = ''message_end''"
| "snake_case_name OnToolCall = ''tool_call''"
| "snake_case_name OnToolExecutionStart = ''tool_execution_start''"
| "snake_case_name OnToolExecutionUpdate = ''tool_execution_update''"
| "snake_case_name OnToolExecutionEnd = ''tool_execution_end''"
| "snake_case_name OnToolResult = ''tool_result''"
| "snake_case_name OnTurnCompleted = ''turn_completed''"
| "snake_case_name OnRunEnded = ''run_ended''"
| "snake_case_name OnRunError = ''run_error''"
| "snake_case_name OnRunSettled = ''run_settled''"
| "snake_case_name OnBeforeCompaction = ''before_compaction''"
| "snake_case_name OnCompactionSucceeded = ''compaction_succeeded''"
| "snake_case_name OnCompactionFailed = ''compaction_failed''"
| "snake_case_name OnSessionShutdown = ''session_shutdown''"
| "snake_case_name OnExtensionUnload = ''extension_unload''"
| "snake_case_name OnSessionResume = ''session_resume''"
| "snake_case_name OnApprovalRequest = ''approval_request''"
| "snake_case_name OnApprovalResolved = ''approval_resolved''"
| "snake_case_name OnFileWrite = ''file_write''"
| "snake_case_name OnSandboxExec = ''sandbox_exec''"
| "snake_case_name OnNotificationSend = ''notification_send''"
| "snake_case_name OnAgentStatus = ''agent_status''"
| "snake_case_name OnCustom = ''custom''"

text \<open>A public name where the code gives one, else the internal name.\<close>

fun public_name :: "lifecycle_event \<Rightarrow> string" where
  "public_name OnExtensionLoad = ''plugin/loaded''"
| "public_name OnSessionStart = ''session/start''"
| "public_name OnSessionResume = ''session/resume''"
| "public_name OnRunSettled = ''agent/end''"
| "public_name OnTurnStarted = ''before_turn''"
| "public_name OnTurnCompleted = ''after_turn''"
| "public_name OnToolExecutionStart = ''before_tool_call''"
| "public_name OnToolExecutionEnd = ''after_tool_call''"
| "public_name OnToolResult = ''tools/result''"
| "public_name OnBeforeModelRequest = ''agent/request''"
| "public_name OnApprovalRequest = ''approval/request''"
| "public_name OnApprovalResolved = ''approval/resolved''"
| "public_name OnFileWrite = ''workspace/file-write''"
| "public_name OnSandboxExec = ''sandbox/exec''"
| "public_name OnNotificationSend = ''notification/send''"
| "public_name OnAgentStatus = ''agent/status''"
| "public_name OnExtensionUnload = ''plugin/disposed''"
| "public_name OnCompactionSucceeded = ''compaction''"
| "public_name OnSessionForked = ''branch''"
| "public_name OnModelSelected = ''chat/composition_selected''"
| "public_name e = snake_case_name e"

text \<open>The matches on a name, as tables in the order of their arms.\<close>

definition snake_case_arms :: "(string \<times> lifecycle_event) list" where
  "snake_case_arms =
     [(''extension_load'', OnExtensionLoad), (''session_start'', OnSessionStart), (''input'', OnInput),
      (''before_session_switch'', OnBeforeSessionSwitch), (''session_switched'', OnSessionSwitched),
      (''before_session_fork'', OnBeforeSessionFork), (''session_forked'', OnSessionForked),
      (''before_model_selection'', OnBeforeModelSelection), (''model_selected'', OnModelSelected),
      (''before_run'', OnBeforeRun), (''run_started'', OnRunStarted), (''turn_started'', OnTurnStarted),
      (''context'', OnContext), (''before_model_request'', OnBeforeModelRequest),
      (''before_provider_request_headers'', OnBeforeProviderRequestHeaders),
      (''before_provider_request_raw'', OnBeforeProviderRequestRaw), (''provider_response'', OnProviderResponse),
      (''provider_request_failed'', OnProviderRequestFailed), (''message_start'', OnMessageStart),
      (''message_update'', OnMessageUpdate), (''message_end'', OnMessageEnd), (''tool_call'', OnToolCall),
      (''tool_execution_start'', OnToolExecutionStart), (''tool_execution_update'', OnToolExecutionUpdate),
      (''tool_execution_end'', OnToolExecutionEnd), (''tool_result'', OnToolResult),
      (''turn_completed'', OnTurnCompleted), (''run_ended'', OnRunEnded), (''run_error'', OnRunError),
      (''run_settled'', OnRunSettled), (''before_compaction'', OnBeforeCompaction),
      (''compaction_succeeded'', OnCompactionSucceeded), (''compaction_failed'', OnCompactionFailed),
      (''session_shutdown'', OnSessionShutdown), (''extension_unload'', OnExtensionUnload),
      (''session_resume'', OnSessionResume), (''approval_request'', OnApprovalRequest),
      (''approval_resolved'', OnApprovalResolved), (''file_write'', OnFileWrite), (''sandbox_exec'', OnSandboxExec),
      (''notification_send'', OnNotificationSend), (''agent_status'', OnAgentStatus), (''custom'', OnCustom)]"

definition public_arms :: "(string \<times> lifecycle_event) list" where
  "public_arms =
     [(''plugin/loaded'', OnExtensionLoad), (''session/start'', OnSessionStart), (''session/resume'', OnSessionResume),
      (''agent/end'', OnRunSettled), (''before_turn'', OnTurnStarted), (''after_turn'', OnTurnCompleted),
      (''before_tool_call'', OnToolExecutionStart), (''after_tool_call'', OnToolExecutionEnd),
      (''tools/result'', OnToolResult), (''agent/request'', OnBeforeModelRequest),
      (''approval/request'', OnApprovalRequest), (''approval/resolved'', OnApprovalResolved),
      (''workspace/file-write'', OnFileWrite), (''sandbox/exec'', OnSandboxExec),
      (''notification/send'', OnNotificationSend), (''agent/status'', OnAgentStatus),
      (''plugin/disposed'', OnExtensionUnload), (''compaction'', OnCompactionSucceeded), (''branch'', OnSessionForked),
      (''chat/composition_selected'', OnModelSelected)]"

definition from_snake_case_name :: "string \<Rightarrow> lifecycle_event option" where
  "from_snake_case_name value = map_of snake_case_arms value"

definition from_public_name :: "string \<Rightarrow> lifecycle_event option" where
  "from_public_name value =
     (case map_of public_arms value of Some e \<Rightarrow> Some e | None \<Rightarrow> from_snake_case_name value)"

text \<open>The derived \<open>Debug\<close> name of a variant, from its snake-case name.\<close>

fun camel_from :: "bool \<Rightarrow> string \<Rightarrow> string" where
  "camel_from up [] = []"
| "camel_from up (c # cs) =
     (if c = CHR ''_'' then camel_from True cs
      else (if up then char_of (of_char c - 32 :: nat) else c) # camel_from False cs)"

definition debug_name :: "string \<Rightarrow> ustr" where
  "debug_name snake = lit (camel_from True snake)"

subsection \<open>Hooks and actions\<close>

datatype hook_class = HObserve | HTransform | HGate | HRegister

fun hook_class_name :: "hook_class \<Rightarrow> string" where
  "hook_class_name HObserve = ''observe''"
| "hook_class_name HTransform = ''transform''"
| "hook_class_name HGate = ''gate''"
| "hook_class_name HRegister = ''register''"

datatype hook_deadline = DeadlineFast | DeadlineStandard | DeadlineLong

datatype delivery_policy = Inline | BoundedCoalescing

datatype hook_failure_policy = FailContinue | KeepLastValue | FailDeny | RejectRegistration

datatype action_kind =
    ReplaceInput | PatchRunContext | ReplaceContext | ReplaceModelRequest | ReplaceProviderHeaders
  | ReplaceProviderPayload | ReplaceMessage | ReplaceToolResult | SetState | DeleteState
  | AppendCustomEvent | AppendModelContext | EmitCommandOutcome | EnqueueFollowUpAction | EmitDiagnostic
  | RegisterEffect | DisposeEffect

primrec action_kind_name :: "action_kind \<Rightarrow> string" where
  "action_kind_name ReplaceInput = ''replace_input''"
| "action_kind_name PatchRunContext = ''patch_run_context''"
| "action_kind_name ReplaceContext = ''replace_context''"
| "action_kind_name ReplaceModelRequest = ''replace_model_request''"
| "action_kind_name ReplaceProviderHeaders = ''replace_provider_headers''"
| "action_kind_name ReplaceProviderPayload = ''replace_provider_payload''"
| "action_kind_name ReplaceMessage = ''replace_message''"
| "action_kind_name ReplaceToolResult = ''replace_tool_result''"
| "action_kind_name SetState = ''set_state''"
| "action_kind_name DeleteState = ''delete_state''"
| "action_kind_name AppendCustomEvent = ''append_custom_event''"
| "action_kind_name AppendModelContext = ''append_model_context''"
| "action_kind_name EmitCommandOutcome = ''emit_command_outcome''"
| "action_kind_name EnqueueFollowUpAction = ''enqueue_follow_up''"
| "action_kind_name EmitDiagnostic = ''emit_diagnostic''"
| "action_kind_name RegisterEffect = ''register_effect''"
| "action_kind_name DisposeEffect = ''dispose_effect''"

record extension_action =
  xa_kind :: action_kind
  xa_payload :: json

datatype gate_decision = GAbstain | GAllow | GDeny ustr ustr | GCancel ustr ustr

record action_batch =
  ab_decision :: "gate_decision option"
  ab_actions :: "extension_action list"

datatype extension_error_code =
    XInvalidHook | XContractViolation | XInvalidAction | XInvalidPayload | XPermissionDenied | XTimeout
  | XCancelled | XReentrantCall | XResourceLimit | XPersistenceFailed | XConflict | XUnsupportedFormat
  | XStateMigrationFailed | XCircuitOpen | XInternal

text \<open>The code as it is serialized.\<close>

primrec error_code_name :: "extension_error_code \<Rightarrow> string" where
  "error_code_name XInvalidHook = ''invalid_hook''"
| "error_code_name XContractViolation = ''contract_violation''"
| "error_code_name XInvalidAction = ''invalid_action''"
| "error_code_name XInvalidPayload = ''invalid_payload''"
| "error_code_name XPermissionDenied = ''permission_denied''"
| "error_code_name XTimeout = ''timeout''"
| "error_code_name XCancelled = ''cancelled''"
| "error_code_name XReentrantCall = ''reentrant_call''"
| "error_code_name XResourceLimit = ''resource_limit''"
| "error_code_name XPersistenceFailed = ''persistence_failed''"
| "error_code_name XConflict = ''conflict''"
| "error_code_name XUnsupportedFormat = ''unsupported_format''"
| "error_code_name XStateMigrationFailed = ''state_migration_failed''"
| "error_code_name XCircuitOpen = ''circuit_open''"
| "error_code_name XInternal = ''internal''"

record extension_error =
  xe_code :: extension_error_code
  xe_message :: ustr
  xe_retryable :: bool
  xe_details :: "json option"

definition extension_error :: "extension_error_code \<Rightarrow> ustr \<Rightarrow> extension_error" where
  "extension_error code message = \<lparr>xe_code = code, xe_message = message, xe_retryable = False, xe_details = None\<rparr>"

definition invalid_hook :: "lifecycle_event \<Rightarrow> hook_class \<Rightarrow> extension_error" where
  "invalid_hook event class =
     extension_error XInvalidHook (lit ''event '' @ debug_name (snake_case_name event) @
       lit '' does not support hook class '' @ debug_name (hook_class_name class))"

definition persistent_actions :: "action_kind list" where
  "persistent_actions =
     [SetState, DeleteState, AppendCustomEvent, AppendModelContext, EnqueueFollowUpAction, EmitDiagnostic]"

fun primary_action :: "lifecycle_event \<Rightarrow> action_kind option" where
  "primary_action OnInput = Some ReplaceInput"
| "primary_action OnBeforeRun = Some PatchRunContext"
| "primary_action OnContext = Some ReplaceContext"
| "primary_action OnBeforeModelRequest = Some ReplaceModelRequest"
| "primary_action OnBeforeProviderRequestHeaders = Some ReplaceProviderHeaders"
| "primary_action OnBeforeProviderRequestRaw = Some ReplaceProviderPayload"
| "primary_action OnMessageEnd = Some ReplaceMessage"
| "primary_action OnToolResult = Some ReplaceToolResult"
| "primary_action _ = None"

definition transform_actions :: "lifecycle_event \<Rightarrow> action_kind list option" where
  "transform_actions event =
     (case primary_action event of
        None \<Rightarrow> None
      | Some primary \<Rightarrow>
          Some ([primary] @ (if event = OnInput then [EmitCommandOutcome] else []) @ persistent_actions))"

definition is_gate_event :: "lifecycle_event \<Rightarrow> bool" where
  "is_gate_event event \<longleftrightarrow>
     event \<in> {OnBeforeSessionSwitch, OnBeforeSessionFork, OnBeforeModelSelection, OnToolCall, OnBeforeCompaction}"

definition is_singleton_action :: "action_kind \<Rightarrow> bool" where
  "is_singleton_action kind \<longleftrightarrow>
     kind \<in> {ReplaceInput, PatchRunContext, ReplaceContext, ReplaceModelRequest, ReplaceProviderHeaders,
             ReplaceProviderPayload, ReplaceMessage, ReplaceToolResult, EmitCommandOutcome}"

record hook_contract =
  hc_event :: lifecycle_event
  hc_class :: hook_class
  hc_allowed_actions :: "action_kind list"
  hc_deadline :: hook_deadline
  hc_delivery :: delivery_policy
  hc_failure :: hook_failure_policy

definition allowed_actions :: "lifecycle_event \<Rightarrow> hook_class \<Rightarrow> extension_error + action_kind list" where
  "allowed_actions event class =
     (case class of
        HObserve \<Rightarrow> Inr []
      | HTransform \<Rightarrow>
          (case transform_actions event of Some ks \<Rightarrow> Inr ks | None \<Rightarrow> Inl (invalid_hook event class))
      | HGate \<Rightarrow> if is_gate_event event then Inr persistent_actions else Inl (invalid_hook event class)
      | HRegister \<Rightarrow>
          if event = OnExtensionLoad then Inr [RegisterEffect, DisposeEffect, EmitDiagnostic]
          else Inl (invalid_hook event class))"

definition for_hook :: "lifecycle_event \<Rightarrow> hook_class \<Rightarrow> extension_error + hook_contract" where
  "for_hook event class =
     (case allowed_actions event class of
        Inl err \<Rightarrow> Inl err
      | Inr allowed \<Rightarrow>
          Inr \<lparr>hc_event = event, hc_class = class, hc_allowed_actions = allowed,
               hc_deadline =
                 (if event \<in> {OnMessageUpdate, OnToolExecutionUpdate} then DeadlineFast
                  else if event \<in> {OnExtensionLoad, OnSessionStart, OnSessionShutdown, OnExtensionUnload}
                  then DeadlineLong else DeadlineStandard),
               hc_delivery =
                 (if class = HObserve \<and> event \<in> {OnMessageUpdate, OnToolExecutionUpdate}
                  then BoundedCoalescing else Inline),
               hc_failure =
                 (case class of HObserve \<Rightarrow> FailContinue | HTransform \<Rightarrow> KeepLastValue | HGate \<Rightarrow> FailDeny
                  | HRegister \<Rightarrow> RejectRegistration)\<rparr>)"

subsection \<open>Stored entries\<close>

text \<open>The length of a string in bytes, \<open>str::len\<close>.\<close>

definition utf8_len :: "ustr \<Rightarrow> nat" where
  "utf8_len s = sum_list (map (\<lambda>c. if c < 128 then 1 else if c < 2048 then 2 else if c < 65536 then 3 else 4) s)"

definition is_lowercase :: "nat \<Rightarrow> bool" where
  "is_lowercase c \<longleftrightarrow> 97 \<le> c \<and> c \<le> 122"

definition is_alphanumeric :: "nat \<Rightarrow> bool" where
  "is_alphanumeric c \<longleftrightarrow> is_lowercase c \<or> 65 \<le> c \<and> c \<le> 90 \<or> is_digit c"

text \<open>\<open>char::is_control\<close>, the category Cc.\<close>

definition is_control :: "nat \<Rightarrow> bool" where
  "is_control c \<longleftrightarrow> c < 32 \<or> 127 \<le> c \<and> c < 160"

fun has_double_hyphen :: "ustr \<Rightarrow> bool" where
  "has_double_hyphen (a # b # s) \<longleftrightarrow> a = 45 \<and> b = 45 \<or> has_double_hyphen (b # s)"
| "has_double_hyphen _ \<longleftrightarrow> False"

definition is_valid_extension_id :: "ustr \<Rightarrow> bool" where
  "is_valid_extension_id v \<longleftrightarrow>
     v \<noteq> [] \<and> utf8_len v \<le> 64 \<and> hd v \<noteq> 45 \<and> last v \<noteq> 45 \<and> \<not> has_double_hyphen v \<and>
     list_all (\<lambda>c. is_lowercase c \<or> is_digit c \<or> c = 45) v"

definition is_valid_local_identifier :: "ustr \<Rightarrow> nat \<Rightarrow> bool" where
  "is_valid_local_identifier v max_len \<longleftrightarrow> v \<noteq> [] \<and> utf8_len v \<le> max_len \<and> list_all (\<lambda>c. \<not> is_control c) v"

definition is_valid_type_name :: "ustr \<Rightarrow> bool" where
  "is_valid_type_name v \<longleftrightarrow>
     v \<noteq> [] \<and> utf8_len v \<le> 128 \<and> hd v \<notin> {46, 45, 95} \<and> last v \<notin> {46, 45, 95} \<and>
     list_all (\<lambda>c. is_alphanumeric c \<or> c \<in> {46, 45, 95}) v"

datatype durable_entry_kind = KStateMutation | KCustomEvent | KModelContext | KStateMigration

fun durable_kind_name :: "durable_entry_kind \<Rightarrow> string" where
  "durable_kind_name KStateMutation = ''state_mutation''"
| "durable_kind_name KCustomEvent = ''custom_event''"
| "durable_kind_name KModelContext = ''model_context''"
| "durable_kind_name KStateMigration = ''state_migration''"

datatype state_mutation = MSet json | MDelete

datatype model_context_placement = SystemPromptSection | MessagePlacement

datatype durable_payload =
    StateMutation ustr state_mutation
  | CustomEvent ustr ustr json
  | ModelContext ustr model_context_placement json
  | StateMigration nat nat

fun durable_kind :: "durable_payload \<Rightarrow> durable_entry_kind" where
  "durable_kind (StateMutation _ _) = KStateMutation"
| "durable_kind (CustomEvent _ _ _) = KCustomEvent"
| "durable_kind (ModelContext _ _ _) = KModelContext"
| "durable_kind (StateMigration _ _) = KStateMigration"

record durable_entry =
  de_extension_id :: ustr
  de_state_schema_version :: nat
  de_origin_sequence :: nat
  de_entry :: durable_payload

fun is_json_string :: "json \<Rightarrow> bool" where
  "is_json_string (JStr _) = True"
| "is_json_string _ = False"

fun is_json_object :: "json \<Rightarrow> bool" where
  "is_json_object (JObj _) = True"
| "is_json_object _ = False"

text \<open>\<open>validate\<close>: the displayed error, if any.\<close>

fun validate_payload :: "nat \<Rightarrow> durable_payload \<Rightarrow> string option" where
  "validate_payload schema (StateMutation key _) =
     (if is_valid_local_identifier key 256 then None else Some ''extension state key is invalid'')"
| "validate_payload schema (CustomEvent event_id custom_type _) =
     (if \<not> is_valid_local_identifier event_id 256 then Some ''extension custom event id is invalid''
      else if \<not> is_valid_type_name custom_type then Some ''extension custom event type is invalid''
      else None)"
| "validate_payload schema (ModelContext context_id placement content) =
     (if \<not> is_valid_local_identifier context_id 256 then Some ''extension model context id is invalid''
      else if \<not> (case placement of SystemPromptSection \<Rightarrow> is_json_string content | MessagePlacement \<Rightarrow> is_json_object content)
      then Some ''extension model context content does not match its placement''
      else None)"
| "validate_payload schema (StateMigration from_version to_version) =
     (if from_version = 0 \<or> from_version \<ge> to_version \<or> to_version \<noteq> schema
      then Some ''extension state migration versions are invalid'' else None)"

definition validate_durable_entry :: "durable_entry \<Rightarrow> string option" where
  "validate_durable_entry e =
     (if \<not> is_valid_extension_id (de_extension_id e) then Some ''extension durable entry has an invalid extension id''
      else if de_state_schema_version e = 0
      then Some ''extension durable entry state schema must be greater than zero''
      else if de_origin_sequence e = 0
      then Some ''extension durable entry origin sequence must be greater than zero''
      else validate_payload (de_state_schema_version e) (de_entry e))"

subsection \<open>The check of a result\<close>

fun expected_durable_kind :: "action_kind \<Rightarrow> durable_entry_kind option" where
  "expected_durable_kind SetState = Some KStateMutation"
| "expected_durable_kind DeleteState = Some KStateMutation"
| "expected_durable_kind AppendCustomEvent = Some KCustomEvent"
| "expected_durable_kind AppendModelContext = Some KModelContext"
| "expected_durable_kind _ = None"

definition durable_operation_matches :: "action_kind \<Rightarrow> durable_payload \<Rightarrow> bool" where
  "durable_operation_matches kind payload =
     (case kind of
        SetState \<Rightarrow> (case payload of StateMutation _ (MSet _) \<Rightarrow> True | _ \<Rightarrow> False)
      | DeleteState \<Rightarrow> (case payload of StateMutation _ MDelete \<Rightarrow> True | _ \<Rightarrow> False)
      | AppendCustomEvent \<Rightarrow> True
      | AppendModelContext \<Rightarrow> True
      | _ \<Rightarrow> False)"

text \<open>\<open>durable\<close> stands for the derived decoder of a stored entry.\<close>

definition validate_durable_action :: "(json \<Rightarrow> ustr + durable_entry) \<Rightarrow> extension_action \<Rightarrow> extension_error option" where
  "validate_durable_action durable act =
     (case expected_durable_kind (xa_kind act) of
        None \<Rightarrow> None
      | Some expected \<Rightarrow>
          (case durable (xa_payload act) of
             Inl err \<Rightarrow> Some (extension_error XInvalidPayload (lit ''invalid durable extension action payload: '' @ err))
           | Inr entry \<Rightarrow>
               (case validate_durable_entry entry of
                  Some err \<Rightarrow> Some (extension_error XInvalidPayload (lit err))
                | None \<Rightarrow>
                    if durable_kind (de_entry entry) \<noteq> expected
                    then Some (extension_error XInvalidPayload (lit ''action '' @ debug_name (action_kind_name (xa_kind act)) @
                           lit '' requires durable entry kind '' @ debug_name (durable_kind_name expected)))
                    else if durable_operation_matches (xa_kind act) (de_entry entry) then None
                    else Some (extension_error XInvalidPayload (lit ''action '' @ debug_name (action_kind_name (xa_kind act)) @
                           lit '' does not match the durable state operation'')))))"

text \<open>The loop over the actions; \<open>seen\<close> is the set of singleton actions met.\<close>

fun validate_actions ::
  "(json \<Rightarrow> ustr + durable_entry) \<Rightarrow> hook_contract \<Rightarrow> action_kind list \<Rightarrow> extension_action list \<Rightarrow> extension_error option" where
  "validate_actions durable c seen [] = None"
| "validate_actions durable c seen (act # acts) =
     (if xa_kind act \<notin> set (hc_allowed_actions c)
      then Some (extension_error XInvalidAction (lit ''action '' @ debug_name (action_kind_name (xa_kind act)) @
             lit '' is not allowed for '' @ debug_name (snake_case_name (hc_event c)) @ lit ''/'' @
             debug_name (hook_class_name (hc_class c))))
      else if \<not> is_json_object (xa_payload act)
      then Some (extension_error XInvalidPayload (lit ''action '' @ debug_name (action_kind_name (xa_kind act)) @
             lit '' payload must be an object''))
      else case validate_durable_action durable act of
             Some err \<Rightarrow> Some err
           | None \<Rightarrow>
               if is_singleton_action (xa_kind act) \<and> xa_kind act \<in> set seen
               then Some (extension_error XInvalidAction (lit ''action '' @ debug_name (action_kind_name (xa_kind act)) @
                      lit '' may appear only once''))
               else validate_actions durable c
                      (if is_singleton_action (xa_kind act) then xa_kind act # seen else seen) acts)"

definition validate_result ::
  "(json \<Rightarrow> ustr + durable_entry) \<Rightarrow> hook_contract \<Rightarrow> action_batch \<Rightarrow> extension_error option" where
  "validate_result durable c batch =
     (if hc_class c \<noteq> HGate \<and> ab_decision batch \<noteq> None
      then Some (extension_error XContractViolation (lit ''only a gate hook may return a gate decision''))
      else if hc_class c = HObserve \<and> ab_actions batch \<noteq> []
      then Some (extension_error XContractViolation (lit ''observe hooks cannot return actions''))
      else validate_actions durable c [] (ab_actions batch))"

subsection \<open>The ports\<close>

record scope_ids =
  si_run_id :: "ustr option"
  si_turn_id :: "ustr option"
  si_request_id :: "ustr option"
  si_message_id :: "ustr option"
  si_tool_call_id :: "ustr option"

record model_ref =
  rf_provider :: ustr
  rf_model :: ustr

record runtime_context =
  rc_session_id :: ustr
  rc_cwd :: ustr
  rc_sequence :: nat
  rc_scope :: scope_ids
  rc_model :: "model_ref option"
  rc_has_interactive_client :: bool
  rc_cancelled :: bool
  rc_deadline_unix_ms :: "nat option"

record ext_invocation =
  iv_event :: lifecycle_event
  iv_class :: hook_class
  iv_context :: runtime_context
  iv_payload :: json

definition new_invocation ::
  "lifecycle_event \<Rightarrow> hook_class \<Rightarrow> runtime_context \<Rightarrow> json \<Rightarrow> extension_error + ext_invocation" where
  "new_invocation event class ctx payload =
     (case for_hook event class of
        Inl err \<Rightarrow> Inl err
      | Inr _ \<Rightarrow>
          if trim (rc_session_id ctx) = [] \<or> trim (rc_cwd ctx) = []
          then Inl (extension_error XInvalidPayload (lit ''runtime extension context requires session_id and cwd''))
          else if rc_sequence ctx = 0
          then Inl (extension_error XInvalidPayload (lit ''runtime extension lifecycle sequence must be greater than zero''))
          else if \<not> is_json_object payload
          then Inl (extension_error XInvalidPayload (lit ''runtime extension event payload must be an object''))
          else Inr \<lparr>iv_event = event, iv_class = class, iv_context = ctx, iv_payload = payload\<rparr>)"

datatype ext_domain = DSession | DRun | DRequest | DMessage | DTool | DCompaction

fun domain_name :: "ext_domain \<Rightarrow> string" where
  "domain_name DSession = ''session''"
| "domain_name DRun = ''run''"
| "domain_name DRequest = ''request''"
| "domain_name DMessage = ''message''"
| "domain_name DTool = ''tool''"
| "domain_name DCompaction = ''compaction''"

fun domain_events :: "ext_domain \<Rightarrow> lifecycle_event set" where
  "domain_events DSession = {OnSessionStart, OnBeforeSessionSwitch, OnSessionSwitched, OnBeforeSessionFork,
     OnSessionForked, OnSessionShutdown}"
| "domain_events DRun = {OnBeforeRun, OnRunStarted, OnTurnStarted, OnTurnCompleted, OnRunEnded, OnRunError, OnRunSettled}"
| "domain_events DRequest = {OnInput, OnBeforeModelSelection, OnModelSelected, OnContext, OnBeforeModelRequest,
     OnBeforeProviderRequestHeaders, OnBeforeProviderRequestRaw, OnProviderResponse, OnProviderRequestFailed}"
| "domain_events DMessage = {OnMessageStart, OnMessageUpdate, OnMessageEnd}"
| "domain_events DTool = {OnToolCall, OnToolExecutionStart, OnToolExecutionUpdate, OnToolExecutionEnd, OnToolResult}"
| "domain_events DCompaction = {OnBeforeCompaction, OnCompactionSucceeded, OnCompactionFailed}"

definition validate_domain_event :: "ext_domain \<Rightarrow> ext_invocation \<Rightarrow> extension_error option" where
  "validate_domain_event domain iv =
     (if iv_event iv \<in> domain_events domain then None
      else Some (extension_error XInvalidHook (lit ''event '' @ debug_name (snake_case_name (iv_event iv)) @
             lit '' does not belong to the '' @ debug_name (domain_name domain) @ lit '' core extension port'')))"

datatype validated_result =
    VObserve
  | VTransform lifecycle_event "extension_action list"
  | VGate lifecycle_event gate_decision "extension_action list"
  | VRegister "extension_action list"

definition validate_hook_result ::
  "(json \<Rightarrow> ustr + durable_entry) \<Rightarrow> ext_invocation \<Rightarrow> action_batch \<Rightarrow> extension_error + validated_result" where
  "validate_hook_result durable iv batch =
     (case for_hook (iv_event iv) (iv_class iv) of
        Inl err \<Rightarrow> Inl err
      | Inr c \<Rightarrow>
          (case validate_result durable c batch of
             Some err \<Rightarrow> Inl err
           | None \<Rightarrow>
               Inr (case iv_class iv of
                      HObserve \<Rightarrow> VObserve
                    | HTransform \<Rightarrow> VTransform (iv_event iv) (ab_actions batch)
                    | HGate \<Rightarrow> VGate (iv_event iv) (case ab_decision batch of Some d \<Rightarrow> d | None \<Rightarrow> GAbstain) (ab_actions batch)
                    | HRegister \<Rightarrow> VRegister (ab_actions batch))))"

text \<open>What the embedder implements: \<open>invoke_session\<close> to \<open>invoke_compaction\<close>, and the probe for hooks.\<close>

record 'x ext_port =
  px_invoke :: "ext_domain \<Rightarrow> ext_invocation \<Rightarrow> 'x \<Rightarrow> (extension_error + action_batch) \<times> 'x"
  px_has_request_hook :: "lifecycle_event \<Rightarrow> hook_class \<Rightarrow> 'x \<Rightarrow> bool"
  px_durable :: "json \<Rightarrow> ustr + durable_entry"

text \<open>\<open>dispatch_session\<close> to \<open>dispatch_compaction\<close>, which have one body.\<close>

definition dispatch_port ::
  "('x, 'z) ext_port_scheme \<Rightarrow> ext_domain \<Rightarrow> ext_invocation \<Rightarrow> 'x \<Rightarrow> (extension_error + validated_result) \<times> 'x" where
  "dispatch_port port domain iv x =
     (case validate_domain_event domain iv of
        Some err \<Rightarrow> (Inl err, x)
      | None \<Rightarrow>
          (case px_invoke port domain iv x of
             (Inl err, x') \<Rightarrow> (Inl err, x')
           | (Inr batch, x') \<Rightarrow> (validate_hook_result (px_durable port) iv batch, x')))"

definition noop_port :: "unit ext_port" where
  "noop_port =
     \<lparr>px_invoke = (\<lambda>_ _ x. (Inr \<lparr>ab_decision = None, ab_actions = []\<rparr>, x)),
      px_has_request_hook = (\<lambda>_ _ _. False), px_durable = (\<lambda>_. Inl [])\<rparr>"

subsection \<open>Facts\<close>

lemma validate_actions_ok:
  "validate_actions durable c seen acts = None \<Longrightarrow>
   (\<forall>a\<in>set acts. xa_kind a \<in> set (hc_allowed_actions c) \<and> is_json_object (xa_payload a) \<and>
      validate_durable_action durable a = None) \<and>
   distinct (filter is_singleton_action (map xa_kind acts)) \<and>
   set (filter is_singleton_action (map xa_kind acts)) \<inter> set seen = {}"
proof (induction acts arbitrary: seen)
  case (Cons a acts)
  from Cons.prems Cons.IH [of "if is_singleton_action (xa_kind a) then xa_kind a # seen else seen"]
  show ?case by (auto split: if_splits option.splits)
qed simp

lemma for_hook_fields:
  "for_hook event class = Inr c \<Longrightarrow>
   hc_event c = event \<and> hc_class c = class \<and> allowed_actions event class = Inr (hc_allowed_actions c)"
  by (auto simp: for_hook_def split: sum.splits)

lemma dispatch_port_ok:
  assumes "dispatch_port port domain iv x = (Inr r, x')"
  obtains batch c where "px_invoke port domain iv x = (Inr batch, x')" "iv_event iv \<in> domain_events domain"
    "for_hook (iv_event iv) (iv_class iv) = Inr c" "validate_result (px_durable port) c batch = None"
    "validate_hook_result (px_durable port) iv batch = Inr r"
  using assms
  by (auto simp: dispatch_port_def validate_domain_event_def validate_hook_result_def
      split: option.splits prod.splits sum.splits if_splits)

end
