(* ===== verification/Extension_Runtime.thy ===== *)
theory Extension_Runtime
  imports Extension_Contract Agent_Loop
begin

text \<open>
  The extension runtime of a harness
  (\<^verbatim>\<open>crates/theway-core/src/agent/assembly/runtime_extensions.rs\<close> and its directory): the scopes of
  the running operation, the queue of follow-up messages, the persistent model context
  (\<^verbatim>\<open>crates/theway-core/src/agent/runtime_extensions/context.rs\<close>, \<^verbatim>\<open>scope.rs\<close>), and one operation
  per lifecycle seam. Every operation returns its result with the runtime after it; what stands behind
  the port changes its own state \<open>xr_port\<close>. The derived encoders and decoders are parameters
  (\<open>ext_env\<close>). \<open>xr_dispatching\<close> says whether the calling task is inside a dispatch already, the
  task-local of the code.
\<close>

subsection \<open>State\<close>

record active_scopes =
  as_run_id :: "ustr option"
  as_turn_id :: "ustr option"
  as_request_id :: "ustr option"
  as_message_id :: "ustr option"
  as_source_message_id :: "ustr option"

definition no_scopes :: active_scopes where
  "no_scopes = \<lparr>as_run_id = None, as_turn_id = None, as_request_id = None, as_message_id = None,
     as_source_message_id = None\<rparr>"

definition FOLLOW_UP_QUEUE_CAPACITY :: nat where
  "FOLLOW_UP_QUEUE_CAPACITY = 32"

definition FOLLOW_UP_DEDUP_CAPACITY :: nat where
  "FOLLOW_UP_DEDUP_CAPACITY = 256"

text \<open>The set \<open>seen\<close> is a list here.\<close>

record follow_up_queue =
  fq_queued :: "(ustr \<times> agent_message) list"
  fq_seen :: "ustr list"
  fq_seen_order :: "ustr list"

definition no_follow_ups :: follow_up_queue where
  "no_follow_ups = \<lparr>fq_queued = [], fq_seen = [], fq_seen_order = []\<rparr>"

record model_context_item =
  mi_extension_id :: ustr
  mi_context_id :: ustr
  mi_placement :: model_context_placement
  mi_content :: json

record 'x ext_runtime =
  xr_session_id :: ustr
  xr_next_scope :: nat
  xr_next_sequence :: nat
  xr_cwd :: ustr
  xr_has_interactive_client :: bool
  xr_model :: "model_ref option"
  xr_active :: active_scopes
  xr_session_started :: bool
  xr_session_shutdown :: bool
  xr_follow_ups :: follow_up_queue
  xr_model_context :: "model_context_item list"
  xr_dispatching :: bool
  xr_port :: 'x

text \<open>The constructor panics on a blank session id; the harness never passes one.\<close>

definition ext_runtime_new ::
  "ustr \<Rightarrow> ustr \<Rightarrow> bool \<Rightarrow> model_ref option \<Rightarrow> model_context_item list \<Rightarrow> 'x \<Rightarrow> 'x ext_runtime option" where
  "ext_runtime_new session cwd client model ctx x =
     (if trim session = [] then None
      else Some \<lparr>xr_session_id = session, xr_next_scope = 1, xr_next_sequence = 1, xr_cwd = cwd,
        xr_has_interactive_client = client, xr_model = model, xr_active = no_scopes, xr_session_started = False,
        xr_session_shutdown = False, xr_follow_ups = no_follow_ups, xr_model_context = ctx,
        xr_dispatching = False, xr_port = x\<rparr>)"

datatype command_outcome = CSuccess "ustr option" "json option" | CRejected ustr ustr | CCancelled ustr ustr

record before_run_patch =
  br_system_prompt :: "ustr option"
  br_messages :: "agent_message list"

definition no_patch :: before_run_patch where
  "no_patch = \<lparr>br_system_prompt = None, br_messages = []\<rparr>"

record 'x ext_env = "'x ext_port" +
  ec_message_value :: "agent_message \<Rightarrow> json"
  ec_message_of :: "json \<Rightarrow> agent_message option"
  ec_outcome_of :: "json \<Rightarrow> command_outcome option"
  ec_patch_of :: "json \<Rightarrow> before_run_patch option"
  ec_request_value :: "model_request \<Rightarrow> json"
  ec_request_of :: "json \<Rightarrow> model_request option"
  ec_assistant_value :: "assistant_message \<Rightarrow> json"
  ec_tool_message_value :: "tool_result_message \<Rightarrow> json"
  ec_tool_call_value :: "tool_call \<Rightarrow> json"
  ec_result_value :: "agent_tool_result \<Rightarrow> json"
  ec_replacement_of :: "json \<Rightarrow> (agent_tool_result \<times> bool option) option"

text \<open>A vector of messages.\<close>

fun messages_of_value :: "(json \<Rightarrow> agent_message option) \<Rightarrow> json \<Rightarrow> agent_message list option" where
  "messages_of_value f (JArr vs) = those (map f vs)"
| "messages_of_value f _ = None"

subsection \<open>Scopes and invocations\<close>

datatype scope_kind = SkRun | SkTurn | SkRequest | SkMessage | SkToolCall

fun scope_kind_str :: "scope_kind \<Rightarrow> string" where
  "scope_kind_str SkRun = ''run''"
| "scope_kind_str SkTurn = ''turn''"
| "scope_kind_str SkRequest = ''request''"
| "scope_kind_str SkMessage = ''message''"
| "scope_kind_str SkToolCall = ''tool-call''"

definition scope_exhausted :: extension_error where
  "scope_exhausted = extension_error XResourceLimit (lit ''runtime extension scope or lifecycle sequence space is exhausted'')"

text \<open>A \<open>u64\<close> counter that refuses to wrap.\<close>

definition take_next :: "nat \<Rightarrow> (nat \<times> nat) option" where
  "take_next n = (if n + 1 < 2 ^ 64 then Some (n, n + 1) else None)"

definition allocate :: "scope_kind \<Rightarrow> 'x ext_runtime \<Rightarrow> (extension_error + ustr) \<times> 'x ext_runtime" where
  "allocate kind r =
     (case take_next (xr_next_scope r) of
        None \<Rightarrow> (Inl scope_exhausted, r)
      | Some (ordinal, next) \<Rightarrow>
          (Inr (xr_session_id r @ lit '':'' @ lit (scope_kind_str kind) @ lit '':'' @ show_nat ordinal),
           r\<lparr>xr_next_scope := next\<rparr>))"

definition begin_run :: "'x ext_runtime \<Rightarrow> (extension_error + unit) \<times> 'x ext_runtime" where
  "begin_run r =
     (case allocate SkRun r of
        (Inl err, r1) \<Rightarrow> (Inl err, r1)
      | (Inr i, r1) \<Rightarrow>
          (Inr (), r1\<lparr>xr_active := (xr_active r1)\<lparr>as_run_id := Some i, as_turn_id := None, as_request_id := None\<rparr>\<rparr>))"

definition begin_turn :: "'x ext_runtime \<Rightarrow> (extension_error + unit) \<times> 'x ext_runtime" where
  "begin_turn r =
     (case allocate SkTurn r of
        (Inl err, r1) \<Rightarrow> (Inl err, r1)
      | (Inr i, r1) \<Rightarrow>
          (let r2 = r1\<lparr>xr_active := (xr_active r1)\<lparr>as_turn_id := Some i\<rparr>\<rparr>
           in case allocate SkRequest r2 of
                (Inl err, r3) \<Rightarrow> (Inl err, r3)
              | (Inr j, r3) \<Rightarrow>
                  (Inr (), r3\<lparr>xr_active := (xr_active r3)\<lparr>as_request_id := Some j, as_message_id := None,
                     as_source_message_id := None\<rparr>\<rparr>)))"

definition settle_run :: "'x ext_runtime \<Rightarrow> 'x ext_runtime" where
  "settle_run r = r\<lparr>xr_active := no_scopes\<rparr>"

definition set_ext_model :: "model \<Rightarrow> 'x ext_runtime \<Rightarrow> 'x ext_runtime" where
  "set_ext_model m r = r\<lparr>xr_model := Some \<lparr>rf_provider = mo_provider m, rf_model = mo_id m\<rparr>\<rparr>"

definition reject_reentrant_operation :: "'x ext_runtime \<Rightarrow> extension_error + unit" where
  "reject_reentrant_operation r =
     (if xr_dispatching r
      then Inl (extension_error XReentrantCall (lit ''runtime operations cannot be started synchronously from a lifecycle hook''))
      else Inr ())"

definition invocation_scoped ::
  "lifecycle_event \<Rightarrow> hook_class \<Rightarrow> json \<Rightarrow> bool \<Rightarrow> ustr option \<Rightarrow> ustr option \<Rightarrow> 'x ext_runtime \<Rightarrow>
   (extension_error + ext_invocation) \<times> 'x ext_runtime" where
  "invocation_scoped event class payload cancelled message_id tool_call_id r =
     (case take_next (xr_next_sequence r) of
        None \<Rightarrow> (Inl scope_exhausted, r)
      | Some (sequence, next) \<Rightarrow>
          (new_invocation event class
             \<lparr>rc_session_id = xr_session_id r, rc_cwd = xr_cwd r, rc_sequence = sequence,
              rc_scope = \<lparr>si_run_id = as_run_id (xr_active r), si_turn_id = as_turn_id (xr_active r),
                si_request_id = as_request_id (xr_active r),
                si_message_id = (case message_id of Some i \<Rightarrow> Some i | None \<Rightarrow> as_message_id (xr_active r)),
                si_tool_call_id = tool_call_id\<rparr>,
              rc_model = xr_model r, rc_has_interactive_client = xr_has_interactive_client r,
              rc_cancelled = cancelled, rc_deadline_unix_ms = None\<rparr> payload,
           r\<lparr>xr_next_sequence := next\<rparr>))"

definition guarded ::
  "('x, 'z) ext_port_scheme \<Rightarrow> ext_domain \<Rightarrow> ext_invocation \<Rightarrow> 'x ext_runtime \<Rightarrow>
   (extension_error + validated_result) \<times> 'x ext_runtime" where
  "guarded env domain iv r =
     (if xr_dispatching r
      then (Inl (extension_error XReentrantCall (lit ''recursive runtime extension lifecycle dispatch is not allowed'')), r)
      else case dispatch_port env domain iv (xr_port r) of (res, x) \<Rightarrow> (res, r\<lparr>xr_port := x\<rparr>))"

text \<open>Every seam builds an invocation and dispatches it.\<close>

definition call_scoped ::
  "('x, 'z) ext_port_scheme \<Rightarrow> ext_domain \<Rightarrow> lifecycle_event \<Rightarrow> hook_class \<Rightarrow> json \<Rightarrow> bool \<Rightarrow> ustr option \<Rightarrow> ustr option \<Rightarrow>
   'x ext_runtime \<Rightarrow> (extension_error + validated_result) \<times> 'x ext_runtime" where
  "call_scoped env domain event class payload cancelled message_id tool_call_id r =
     (case invocation_scoped event class payload cancelled message_id tool_call_id r of
        (Inl err, r1) \<Rightarrow> (Inl err, r1)
      | (Inr iv, r1) \<Rightarrow> guarded env domain iv r1)"

abbreviation call ::
  "('x, 'z) ext_port_scheme \<Rightarrow> ext_domain \<Rightarrow> lifecycle_event \<Rightarrow> hook_class \<Rightarrow> json \<Rightarrow> bool \<Rightarrow>
   'x ext_runtime \<Rightarrow> (extension_error + validated_result) \<times> 'x ext_runtime" where
  "call env domain event class payload cancelled r \<equiv>
     call_scoped env domain event class payload cancelled None None r"

definition observe ::
  "('x, 'z) ext_port_scheme \<Rightarrow> ext_domain \<Rightarrow> lifecycle_event \<Rightarrow> json \<Rightarrow> bool \<Rightarrow> 'x ext_runtime \<Rightarrow> 'x ext_runtime" where
  "observe env domain event payload cancelled r = snd (call env domain event HObserve payload cancelled r)"

subsection \<open>Follow-ups\<close>

definition take_follow_up :: "'x ext_runtime \<Rightarrow> agent_message option \<times> 'x ext_runtime" where
  "take_follow_up r =
     (case fq_queued (xr_follow_ups r) of
        [] \<Rightarrow> (None, r)
      | (_, m) # rest \<Rightarrow> (Some m, r\<lparr>xr_follow_ups := (xr_follow_ups r)\<lparr>fq_queued := rest\<rparr>\<rparr>))"

text \<open>The while loop that expires ids: it removes the oldest until the window fits.\<close>

definition expire :: "follow_up_queue \<Rightarrow> follow_up_queue" where
  "expire q =
     (let n = length (fq_seen_order q) - FOLLOW_UP_DEDUP_CAPACITY
      in q\<lparr>fq_seen_order := drop n (fq_seen_order q),
           fq_seen := fold removeAll (take n (fq_seen_order q)) (fq_seen q)\<rparr>)"

definition enqueue_one :: "ustr \<times> agent_message \<Rightarrow> follow_up_queue \<Rightarrow> follow_up_queue" where
  "enqueue_one f q =
     (if fst f \<in> set (fq_seen q) then q
      else expire \<lparr>fq_queued = fq_queued q @ [f], fq_seen = fst f # fq_seen q, fq_seen_order = fq_seen_order q @ [fst f]\<rparr>)"

definition enqueue_batch :: "(ustr \<times> agent_message) list \<Rightarrow> follow_up_queue \<Rightarrow> follow_up_queue option" where
  "enqueue_batch fs q =
     (let new_count = length (filter (\<lambda>f. fst f \<notin> set (fq_seen q)) fs)
      in if length (fq_queued q) + new_count > FOLLOW_UP_QUEUE_CAPACITY then None
         else Some (fold enqueue_one fs q))"

definition enqueue_follow_ups ::
  "(ustr \<times> agent_message) list \<Rightarrow> 'x ext_runtime \<Rightarrow> (extension_error + unit) \<times> 'x ext_runtime" where
  "enqueue_follow_ups fs r =
     (case enqueue_batch fs (xr_follow_ups r) of
        None \<Rightarrow> (Inl (extension_error XResourceLimit (lit ''runtime extension follow-up queue capacity exceeded'')), r)
      | Some q \<Rightarrow> (Inr (), r\<lparr>xr_follow_ups := q\<rparr>))"

definition parse_follow_up :: "'x ext_env \<Rightarrow> json \<Rightarrow> (ustr \<times> agent_message) option" where
  "parse_follow_up env payload =
     (case Option.bind (json_get payload (lit ''followUpId'')) json_str of
        None \<Rightarrow> None
      | Some s \<Rightarrow>
          (let i = trim s
           in if i = [] \<or> utf8_len i > 128 then None
              else case Option.bind (json_get payload (lit ''message'')) (ec_message_of env) of
                     Some (Llm (User u)) \<Rightarrow> Some (i, Llm (User u))
                   | _ \<Rightarrow> None))"

definition follow_ups_of :: "'x ext_env \<Rightarrow> extension_action list \<Rightarrow> (ustr \<times> agent_message) list option" where
  "follow_ups_of env acts =
     those (map (\<lambda>a. parse_follow_up env (xa_payload a)) (filter (\<lambda>a. xa_kind a = EnqueueFollowUpAction) acts))"

definition is_host_consumed_action :: "action_kind \<Rightarrow> bool" where
  "is_host_consumed_action kind \<longleftrightarrow>
     kind \<in> {SetState, DeleteState, AppendCustomEvent, AppendModelContext, EmitDiagnostic}"

text \<open>Some action is neither one of \<open>ks\<close> nor consumed by the host.\<close>

definition foreign_action :: "action_kind list \<Rightarrow> extension_action list \<Rightarrow> bool" where
  "foreign_action ks acts \<longleftrightarrow> list_ex (\<lambda>a. xa_kind a \<notin> set ks \<and> \<not> is_host_consumed_action (xa_kind a)) acts"

definition action_of :: "action_kind \<Rightarrow> extension_action list \<Rightarrow> extension_action option" where
  "action_of kind acts = find (\<lambda>a. xa_kind a = kind) acts"

text \<open>The end of a transform: the follow-ups are queued, or the result is given up.\<close>

definition with_follow_ups :: "'x ext_env \<Rightarrow> extension_action list \<Rightarrow> 'b \<Rightarrow> 'b \<Rightarrow> 'x ext_runtime \<Rightarrow> 'b \<times> 'x ext_runtime" where
  "with_follow_ups env acts original accepted r =
     (case follow_ups_of env acts of
        None \<Rightarrow> (original, r)
      | Some fs \<Rightarrow>
          (case enqueue_follow_ups fs r of
             (Inl _, r1) \<Rightarrow> (original, r1)
           | (Inr _, r1) \<Rightarrow> (accepted, r1)))"

definition gate_allows :: "'x ext_env \<Rightarrow> validated_result \<Rightarrow> 'x ext_runtime \<Rightarrow> (extension_error + unit) \<times> 'x ext_runtime" where
  "gate_allows env result r =
     (case result of
        VGate _ decision acts \<Rightarrow>
          (case follow_ups_of env acts of
             None \<Rightarrow> (Inl (extension_error XInvalidPayload (lit ''extension gate returned an invalid follow-up action'')), r)
           | Some fs \<Rightarrow>
               if foreign_action [EnqueueFollowUpAction] acts
               then (Inl (extension_error XInvalidAction (lit ''extension gate returned an action not consumed by the host'')), r)
               else case enqueue_follow_ups fs r of
                      (Inl err, r1) \<Rightarrow> (Inl err, r1)
                    | (Inr _, r1) \<Rightarrow>
                        (case decision of
                           GAbstain \<Rightarrow> (Inr (), r1)
                         | GAllow \<Rightarrow> (Inr (), r1)
                         | GDeny code message \<Rightarrow> (Inl (extension_error XCancelled (code @ lit '': '' @ message)), r1)
                         | GCancel code message \<Rightarrow> (Inl (extension_error XCancelled (code @ lit '': '' @ message)), r1)))
      | _ \<Rightarrow> (Inl (extension_error XContractViolation (lit ''core gate dispatch returned a non-gate result'')), r))"

text \<open>A gated operation: build, dispatch, decide.\<close>

definition gate ::
  "'x ext_env \<Rightarrow> ext_domain \<Rightarrow> lifecycle_event \<Rightarrow> json \<Rightarrow> 'x ext_runtime \<Rightarrow> (extension_error + unit) \<times> 'x ext_runtime" where
  "gate env domain event payload r =
     (case call env domain event HGate payload False r of
        (Inl err, r1) \<Rightarrow> (Inl err, r1)
      | (Inr result, r1) \<Rightarrow> gate_allows env result r1)"

end
