(* ===== verification/Extension_Seams.thy ===== *)
theory Extension_Seams
  imports Extension_Runtime
begin

text \<open>
  The lifecycle seams of the extension runtime: what each dispatches and what it makes of the answer
  (\<^verbatim>\<open>assembly/runtime_extensions.rs\<close> with \<^verbatim>\<open>message.rs\<close>, \<^verbatim>\<open>request.rs\<close>, \<^verbatim>\<open>tool.rs\<close>, \<^verbatim>\<open>provider.rs\<close> and
  \<^verbatim>\<open>compaction.rs\<close>), and the persistent model context. A transform that is refused for any reason gives
  its input back; a gate that is refused for any reason denies.
\<close>

subsection \<open>Session and model\<close>

definition ensure_session_start :: "'x ext_env \<Rightarrow> 'x ext_runtime \<Rightarrow> 'x ext_runtime" where
  "ensure_session_start env r =
     (if xr_session_started r then r
      else observe env DSession OnSessionStart (JObj [(lit ''reason'', JStr (lit ''initial''))]) False
             (r\<lparr>xr_session_started := True\<rparr>))"

definition ext_shutdown :: "'x ext_env \<Rightarrow> 'x ext_runtime \<Rightarrow> 'x ext_runtime" where
  "ext_shutdown env r =
     (if xr_session_shutdown r then r
      else observe env DSession OnSessionShutdown (JObj []) False (r\<lparr>xr_session_shutdown := True\<rparr>))"

definition model_payload :: "model \<Rightarrow> json" where
  "model_payload m = JObj [(lit ''provider'', JStr (mo_provider m)), (lit ''model'', JStr (mo_id m))]"

definition before_model_selection :: "'x ext_env \<Rightarrow> model \<Rightarrow> 'x ext_runtime \<Rightarrow> (extension_error + unit) \<times> 'x ext_runtime" where
  "before_model_selection env target r = gate env DRequest OnBeforeModelSelection (model_payload target) r"

definition model_selected :: "'x ext_env \<Rightarrow> model \<Rightarrow> 'x ext_runtime \<Rightarrow> 'x ext_runtime" where
  "model_selected env m r = observe env DRequest OnModelSelected (model_payload m) False (set_ext_model m r)"

definition gate_session_operation ::
  "'x ext_env \<Rightarrow> lifecycle_event \<Rightarrow> json \<Rightarrow> 'x ext_runtime \<Rightarrow> (extension_error + unit) \<times> 'x ext_runtime" where
  "gate_session_operation env event payload r = gate env DSession event payload r"

definition before_compaction ::
  "'x ext_env \<Rightarrow> ustr \<Rightarrow> bool \<Rightarrow> 'x ext_runtime \<Rightarrow> (extension_error + unit) \<times> 'x ext_runtime" where
  "before_compaction env algorithm from_hook r =
     gate env DCompaction OnBeforeCompaction
       (JObj [(lit ''algorithm'', JStr algorithm), (lit ''fromHook'', JBool from_hook)]) r"

subsection \<open>Input, context, run\<close>

datatype input_outcome = InputRun agent_message | InputHandled command_outcome

text \<open>
  The loop over the actions of an input hook: the message, the outcome and the follow-ups so far, or
  how it is left. An action the host consumes passed the check before the loop and ends in its
  \<open>unreachable!\<close> arm: \<open>InPanic\<close>.
\<close>

datatype input_loop = InDone agent_message "command_outcome option" "(ustr \<times> agent_message) list" | InOriginal | InPanic

fun input_actions ::
  "'x ext_env \<Rightarrow> agent_message \<Rightarrow> command_outcome option \<Rightarrow> (ustr \<times> agent_message) list \<Rightarrow> extension_action list \<Rightarrow> input_loop" where
  "input_actions env m out fs [] = InDone m out fs"
| "input_actions env m out fs (act # acts) =
     (case xa_kind act of
        ReplaceInput \<Rightarrow>
          (case Option.bind (json_get (xa_payload act) (lit ''message'')) (ec_message_of env) of
             None \<Rightarrow> InOriginal
           | Some replacement \<Rightarrow>
               if same_message_role m replacement then input_actions env replacement out fs acts else InOriginal)
      | EmitCommandOutcome \<Rightarrow>
          (case ec_outcome_of env (xa_payload act) of
             None \<Rightarrow> InOriginal
           | Some parsed \<Rightarrow> input_actions env m (Some parsed) fs acts)
      | EnqueueFollowUpAction \<Rightarrow>
          (case parse_follow_up env (xa_payload act) of
             None \<Rightarrow> InOriginal
           | Some f \<Rightarrow> input_actions env m out (fs @ [f]) acts)
      | _ \<Rightarrow> InPanic)"

text \<open>\<open>None\<close> is the panic.\<close>

definition transform_input :: "'x ext_env \<Rightarrow> agent_message \<Rightarrow> 'x ext_runtime \<Rightarrow> input_outcome option \<times> 'x ext_runtime" where
  "transform_input env message r =
     (case call env DRequest OnInput HTransform (JObj [(lit ''message'', ec_message_value env message)]) False r of
        (Inr (VTransform _ acts), r1) \<Rightarrow>
          if foreign_action [ReplaceInput, EmitCommandOutcome, EnqueueFollowUpAction] acts then (Some (InputRun message), r1)
          else (case input_actions env message None [] acts of
                  InPanic \<Rightarrow> (None, r1)
                | InOriginal \<Rightarrow> (Some (InputRun message), r1)
                | InDone transformed outcome fs \<Rightarrow>
                    (case enqueue_follow_ups fs r1 of
                       (Inl _, r2) \<Rightarrow> (Some (InputRun message), r2)
                     | (Inr _, r2) \<Rightarrow>
                         (Some (case outcome of Some out \<Rightarrow> InputHandled out | None \<Rightarrow> InputRun transformed), r2)))
      | (_, r1) \<Rightarrow> (Some (InputRun message), r1))"

definition ext_transform_context ::
  "'x ext_env \<Rightarrow> bool \<Rightarrow> agent_message list \<Rightarrow> 'x ext_runtime \<Rightarrow> agent_message list \<times> 'x ext_runtime" where
  "ext_transform_context env cancelled messages r =
     (case call env DRequest OnContext HTransform
             (JObj [(lit ''messages'', JArr (map (ec_message_value env) messages))]) cancelled r of
        (Inr (VTransform _ acts), r1) \<Rightarrow>
          if foreign_action [ReplaceContext, EnqueueFollowUpAction] acts then (messages, r1)
          else with_follow_ups env acts messages
                 (case Option.bind (action_of ReplaceContext acts)
                         (\<lambda>a. Option.bind (json_get (xa_payload a) (lit ''messages'')) (messages_of_value (ec_message_of env))) of
                    Some replacement \<Rightarrow> replacement
                  | None \<Rightarrow> messages) r1
      | (_, r1) \<Rightarrow> (messages, r1))"

definition before_run :: "'x ext_env \<Rightarrow> 'x ext_runtime \<Rightarrow> before_run_patch \<times> 'x ext_runtime" where
  "before_run env r =
     (case call env DRun OnBeforeRun HTransform (JObj []) False r of
        (Inr (VTransform _ acts), r1) \<Rightarrow>
          if foreign_action [PatchRunContext, EnqueueFollowUpAction] acts then (no_patch, r1)
          else (case action_of PatchRunContext acts of
                  None \<Rightarrow> with_follow_ups env acts no_patch no_patch r1
                | Some a \<Rightarrow>
                    (case ec_patch_of env (xa_payload a) of
                       None \<Rightarrow> (no_patch, r1)
                     | Some patch \<Rightarrow> with_follow_ups env acts no_patch patch r1))
      | (_, r1) \<Rightarrow> (no_patch, r1))"

subsection \<open>Messages\<close>

definition observe_message ::
  "'x ext_env \<Rightarrow> lifecycle_event \<Rightarrow> json \<Rightarrow> bool \<Rightarrow> ustr \<Rightarrow> 'x ext_runtime \<Rightarrow> 'x ext_runtime" where
  "observe_message env event payload cancelled message_id r =
     snd (call_scoped env DMessage event HObserve payload cancelled (Some message_id) None r)"

definition observe_message_start :: "'x ext_env \<Rightarrow> agent_message \<Rightarrow> bool \<Rightarrow> 'x ext_runtime \<Rightarrow> 'x ext_runtime" where
  "observe_message_start env message cancelled r =
     (case allocate SkMessage r of
        (Inl _, r1) \<Rightarrow> r1
      | (Inr i, r1) \<Rightarrow>
          observe_message env OnMessageStart (JObj [(lit ''message'', ec_message_value env message)]) cancelled i
            (r1\<lparr>xr_active := (xr_active r1)\<lparr>as_message_id := Some i\<rparr>\<rparr>))"

fun assistant_update_kind :: "assistant_message_event \<Rightarrow> string" where
  "assistant_update_kind (EvStart _) = ''start''"
| "assistant_update_kind (EvTextStart _ _) = ''text_start''"
| "assistant_update_kind (EvTextDelta _ _ _) = ''text_delta''"
| "assistant_update_kind (EvTextEnd _ _ _) = ''text_end''"
| "assistant_update_kind (EvThinkingStart _ _) = ''thinking_start''"
| "assistant_update_kind (EvThinkingDelta _ _ _) = ''thinking_delta''"
| "assistant_update_kind (EvThinkingEnd _ _ _) = ''thinking_end''"
| "assistant_update_kind (EvToolCallStart _ _) = ''tool_call_start''"
| "assistant_update_kind (EvToolCallDelta _ _ _) = ''tool_call_delta''"
| "assistant_update_kind (EvToolCallEnd _ _ _) = ''tool_call_end''"
| "assistant_update_kind (EvDone _ _) = ''done''"
| "assistant_update_kind (EvError _ _) = ''error''"

definition observe_message_update ::
  "'x ext_env \<Rightarrow> agent_message \<Rightarrow> assistant_message_event \<Rightarrow> bool \<Rightarrow> 'x ext_runtime \<Rightarrow> 'x ext_runtime" where
  "observe_message_update env message update cancelled r =
     (case as_message_id (xr_active r) of
        None \<Rightarrow> r
      | Some i \<Rightarrow>
          observe_message env OnMessageUpdate (JObj [(lit ''message'', ec_message_value env message),
            (lit ''updateKind'', JStr (lit (assistant_update_kind update)))]) cancelled i r)"

text \<open>The part of \<open>transform_message\<close> that has an id.\<close>

definition transform_message_as ::
  "'x ext_env \<Rightarrow> ustr \<Rightarrow> agent_message \<Rightarrow> bool \<Rightarrow> 'x ext_runtime \<Rightarrow> agent_message \<times> 'x ext_runtime" where
  "transform_message_as env i message cancelled r =
     (case call_scoped env DMessage OnMessageEnd HTransform
             (JObj [(lit ''message'', ec_message_value env message)]) cancelled (Some i) None r of
        (Inr (VTransform _ acts), r1) \<Rightarrow>
          if foreign_action [ReplaceMessage, EnqueueFollowUpAction] acts then (message, r1)
          else (case (case action_of ReplaceMessage acts of
                        None \<Rightarrow> Some message
                      | Some a \<Rightarrow> Option.bind (json_get (xa_payload a) (lit ''message'')) (ec_message_of env)) of
                  None \<Rightarrow> (message, r1)
                | Some replacement \<Rightarrow>
                    if same_message_role message replacement then with_follow_ups env acts message replacement r1
                    else (message, r1))
      | (_, r1) \<Rightarrow> (message, r1))"

definition ext_transform_message ::
  "'x ext_env \<Rightarrow> agent_message \<Rightarrow> bool \<Rightarrow> 'x ext_runtime \<Rightarrow> agent_message \<times> 'x ext_runtime" where
  "ext_transform_message env message cancelled r =
     (case as_message_id (xr_active r) of
        Some i \<Rightarrow> transform_message_as env i message cancelled r
      | None \<Rightarrow>
          (let r1 = observe_message_start env message cancelled r
           in case as_message_id (xr_active r1) of
                None \<Rightarrow> (message, r1)
              | Some i \<Rightarrow> transform_message_as env i message cancelled r1))"

definition complete_message :: "agent_message \<Rightarrow> 'x ext_runtime \<Rightarrow> 'x ext_runtime" where
  "complete_message message r =
     (let a = xr_active r;
          a1 = a\<lparr>as_message_id := None\<rparr>
      in r\<lparr>xr_active := (case message of
             Llm (Assistant _) \<Rightarrow> a1\<lparr>as_source_message_id := as_message_id a\<rparr> | _ \<Rightarrow> a1)\<rparr>)"

definition finalize_before_run_message :: "'x ext_env \<Rightarrow> agent_message \<Rightarrow> 'x ext_runtime \<Rightarrow> agent_message \<times> 'x ext_runtime" where
  "finalize_before_run_message env message r =
     (let (m, r1) = ext_transform_message env message False (observe_message_start env message False r)
      in (m, complete_message m r1))"

subsection \<open>Tool calls\<close>

definition blocked :: "ustr \<Rightarrow> ustr \<Rightarrow> hook_result" where
  "blocked code message =
     \<lparr>hr_block = True, hr_reason = Some (lit ''extension tool gate denied ['' @ code @ lit '']: '' @ message), hr_prompt = None\<rparr>"

text \<open>\<open>str::split_once\<close> at a colon and a space.\<close>

fun split_once_colon :: "ustr \<Rightarrow> (ustr \<times> ustr) option" where
  "split_once_colon (a # b # s) =
     (if a = 58 \<and> b = 32 then Some ([], s) else map_option (apfst (Cons a)) (split_once_colon (b # s)))"
| "split_once_colon _ = None"

definition blocked_error :: "extension_error \<Rightarrow> hook_result" where
  "blocked_error err =
     (case (if xe_code err = XCancelled then split_once_colon (xe_message err) else None) of
        Some (code, message) \<Rightarrow> blocked code message
      | None \<Rightarrow> blocked (lit (error_code_name (xe_code err))) (xe_message err))"

definition no_hook_result :: hook_result where
  "no_hook_result = \<lparr>hr_block = False, hr_reason = None, hr_prompt = None\<rparr>"

definition ext_before_tool_call ::
  "'x ext_env \<Rightarrow> 'w before_tool_call_context \<Rightarrow> bool \<Rightarrow> 'x ext_runtime \<Rightarrow> hook_result \<times> 'x ext_runtime" where
  "ext_before_tool_call env ctx cancelled r =
     (case call_scoped env DTool OnToolCall HGate
             (JObj [(lit ''assistantMessage'', ec_assistant_value env (bc_assistant_message ctx)),
                    (lit ''toolCall'', ec_tool_call_value env (bc_tool_call ctx)), (lit ''args'', bc_args ctx)])
             cancelled (as_source_message_id (xr_active r)) (Some (tl_id (bc_tool_call ctx))) r of
        (Inr (VGate event decision acts), r1) \<Rightarrow>
          (case gate_allows env (VGate event decision acts) r1 of
             (Inl err, r2) \<Rightarrow> (blocked_error err, r2)
           | (Inr _, r2) \<Rightarrow> (no_hook_result, r2))
      | (Inr _, r1) \<Rightarrow> (blocked (lit ''contract_violation'') (lit ''tool gate returned the wrong hook class''), r1)
      | (Inl err, r1) \<Rightarrow> (blocked_error err, r1))"

definition no_result_patch :: result_patch where
  "no_result_patch = \<lparr>rp_content = None, rp_details = None, rp_is_error = None, rp_terminate = None\<rparr>"

definition replacement_patch :: "agent_tool_result \<times> bool option \<Rightarrow> result_patch" where
  "replacement_patch p =
     \<lparr>rp_content = Some (ar_content (fst p)), rp_details = Some (ar_details (fst p)), rp_is_error = snd p,
      rp_terminate = Some (case ar_terminate (fst p) of Some t \<Rightarrow> t | None \<Rightarrow> False)\<rparr>"

definition ext_transform_tool_result ::
  "'x ext_env \<Rightarrow> 'w after_tool_call_context \<Rightarrow> bool \<Rightarrow> 'x ext_runtime \<Rightarrow> result_patch \<times> 'x ext_runtime" where
  "ext_transform_tool_result env ctx cancelled r =
     (case call_scoped env DTool OnToolResult HTransform
             (JObj [(lit ''toolCall'', ec_tool_call_value env (ac_tool_call ctx)), (lit ''args'', ac_args ctx),
                    (lit ''result'', ec_result_value env (ac_result ctx)), (lit ''isError'', JBool (ac_is_error ctx))])
             cancelled (as_source_message_id (xr_active r)) (Some (tl_id (ac_tool_call ctx))) r of
        (Inr (VTransform _ acts), r1) \<Rightarrow>
          if foreign_action [ReplaceToolResult, EnqueueFollowUpAction] acts then (no_result_patch, r1)
          else (case action_of ReplaceToolResult acts of
                  None \<Rightarrow> with_follow_ups env acts no_result_patch no_result_patch r1
                | Some a \<Rightarrow>
                    (case ec_replacement_of env (xa_payload a) of
                       None \<Rightarrow> (no_result_patch, r1)
                     | Some p \<Rightarrow> with_follow_ups env acts no_result_patch (replacement_patch p) r1))
      | (_, r1) \<Rightarrow> (no_result_patch, r1))"

definition observe_tool_execution ::
  "'x ext_env \<Rightarrow> lifecycle_event \<Rightarrow> ustr \<Rightarrow> json \<Rightarrow> bool \<Rightarrow> 'x ext_runtime \<Rightarrow> 'x ext_runtime" where
  "observe_tool_execution env event tool_call_id payload cancelled r =
     snd (call_scoped env DTool event HObserve payload cancelled (as_source_message_id (xr_active r)) (Some tool_call_id) r)"

subsection \<open>The listener of a run\<close>

text \<open>\<open>cancelled\<close> is the run's token; the flag of the listener is set when the run ends.\<close>

definition ext_listener ::
  "'x ext_env \<Rightarrow> bool \<Rightarrow> loop_event \<Rightarrow> bool \<times> 'x ext_runtime \<Rightarrow> bool \<times> 'x ext_runtime" where
  "ext_listener env cancelled event s =
     (case s of (flag, r) \<Rightarrow>
        case event of
          RunStarted \<Rightarrow> (flag, observe env DRun OnRunStarted (JObj []) cancelled r)
        | TurnStart \<Rightarrow>
            (case begin_turn r of
               (Inl _, r1) \<Rightarrow> (flag, r1)
             | (Inr _, r1) \<Rightarrow> (flag, observe env DRun OnTurnStarted (JObj []) cancelled r1))
        | TurnCompleted message results \<Rightarrow>
            (flag, observe env DRun OnTurnCompleted (JObj [(lit ''message'', ec_message_value env message),
               (lit ''toolResults'', JArr (map (ec_tool_message_value env) results))]) cancelled r)
        | MessageStart message \<Rightarrow> (flag, observe_message_start env message cancelled r)
        | MessageUpdate message update \<Rightarrow> (flag, observe_message_update env message update cancelled r)
        | MessageEnd message \<Rightarrow> (flag, complete_message message r)
        | ToolExecutionStart i name args \<Rightarrow>
            (flag, observe_tool_execution env OnToolExecutionStart i
               (JObj [(lit ''toolName'', JStr name), (lit ''args'', args)]) cancelled r)
        | ToolExecutionUpdate i name args partial \<Rightarrow>
            (flag, observe_tool_execution env OnToolExecutionUpdate i
               (JObj [(lit ''toolName'', JStr name), (lit ''args'', args),
                      (lit ''partialResult'', ec_result_value env partial)]) cancelled r)
        | ToolExecutionEnd i name result is_error \<Rightarrow>
            (flag, observe_tool_execution env OnToolExecutionEnd i
               (JObj [(lit ''toolName'', JStr name), (lit ''result'', ec_result_value env result),
                      (lit ''isError'', JBool is_error)]) cancelled r)
        | RunEnded _ \<Rightarrow> (cancelled, r)
        | ControlPlanePromptResolved _ _ _ _ _ _ \<Rightarrow> (flag, r))"

end
