(* ===== verification/Extension_Requests.thy ===== *)
theory Extension_Requests
  imports Extension_Seams
begin

text \<open>
  Model requests at the extension runtime: the persistent model context an extension keeps on the
  branch (\<^verbatim>\<open>crates/theway-core/src/agent/runtime_extensions/context.rs\<close>), the request hook
  (\<^verbatim>\<open>assembly/runtime_extensions/request.rs\<close>) and the provider's hooks (\<^verbatim>\<open>provider.rs\<close>). The derived
  codecs of a provider's headers and payload are parameters.
\<close>

subsection \<open>The persistent model context\<close>

definition item_key :: "model_context_item \<Rightarrow> ustr \<times> ustr" where
  "item_key i = (mi_extension_id i, mi_context_id i)"

text \<open>An item takes the place of the one with its key, or the last place.\<close>

definition put_item :: "model_context_item \<Rightarrow> model_context_item list \<Rightarrow> model_context_item list" where
  "put_item i items =
     (if item_key i \<in> item_key ` set items then map (\<lambda>j. if item_key j = item_key i then i else j) items
      else items @ [i])"

fun item_of_entry :: "durable_entry \<Rightarrow> model_context_item option" where
  "item_of_entry e =
     (case de_entry e of
        ModelContext context_id placement content \<Rightarrow>
          Some \<lparr>mi_extension_id = de_extension_id e, mi_context_id = context_id, mi_placement = placement,
                mi_content = content\<rparr>
      | _ \<Rightarrow> None)"

fun rebuild_from :: "model_context_item list \<Rightarrow> durable_entry list \<Rightarrow> ustr + model_context_item list" where
  "rebuild_from items [] = Inr items"
| "rebuild_from items (e # es) =
     (case validate_durable_entry e of
        Some err \<Rightarrow> Inl (lit ''persistent model-context entry is invalid: '' @ lit err)
      | None \<Rightarrow>
          (case item_of_entry e of
             None \<Rightarrow> rebuild_from items es
           | Some i \<Rightarrow> rebuild_from (put_item i items) es))"

definition rebuild_context :: "durable_entry list \<Rightarrow> ustr + model_context_item list" where
  "rebuild_context es = rebuild_from [] es"

text \<open>Only a rebuild that succeeds replaces the projection.\<close>

definition replace_context :: "durable_entry list \<Rightarrow> 'x ext_runtime \<Rightarrow> (ustr + unit) \<times> 'x ext_runtime" where
  "replace_context es r =
     (case rebuild_context es of
        Inl err \<Rightarrow> (Inl err, r)
      | Inr items \<Rightarrow> (Inr (), r\<lparr>xr_model_context := items\<rparr>))"

definition context_sections :: "model_context_item list \<Rightarrow> ustr list" where
  "context_sections items =
     List.map_filter (\<lambda>i. if mi_placement i = SystemPromptSection then json_str (mi_content i) else None) items"

definition context_llm_messages :: "(json \<Rightarrow> agent_message option) \<Rightarrow> model_context_item list \<Rightarrow> llm_message list" where
  "context_llm_messages of_value items =
     List.map_filter (\<lambda>i. if mi_placement i \<noteq> MessagePlacement then None
        else case of_value (mi_content i) of Some (Llm m) \<Rightarrow> Some m | _ \<Rightarrow> None) items"

definition apply_to_request ::
  "(json \<Rightarrow> agent_message option) \<Rightarrow> model_context_item list \<Rightarrow> model_request \<Rightarrow> model_request" where
  "apply_to_request of_value items request =
     (let sections = context_sections items;
          suffix = join [10, 10] sections
      in request\<lparr>mr_system_instructions :=
           (if sections = [] then mr_system_instructions request
            else Some (case mr_system_instructions request of
                         Some base \<Rightarrow> if base \<noteq> [] then base @ [10, 10] @ suffix else suffix
                       | None \<Rightarrow> suffix)),
         mr_messages := mr_messages request @ context_llm_messages of_value items\<rparr>)"

definition model_context_marker :: "model_context_item \<Rightarrow> string \<Rightarrow> agent_message" where
  "model_context_marker i placement =
     Custom \<lparr>cm_role = lit ''extension_model_context'', cm_timestamp = 0,
       cm_payload = JObj [(lit ''extensionId'', JStr (mi_extension_id i)), (lit ''contextId'', JStr (mi_context_id i)),
         (lit ''placement'', JStr (lit placement)), (lit ''content'', mi_content i)]\<rparr>"

definition compaction_messages :: "(json \<Rightarrow> agent_message option) \<Rightarrow> model_context_item list \<Rightarrow> agent_message list" where
  "compaction_messages of_value items =
     map (\<lambda>i. case mi_placement i of
            MessagePlacement \<Rightarrow>
              (case of_value (mi_content i) of Some m \<Rightarrow> m | None \<Rightarrow> model_context_marker i ''message'')
          | SystemPromptSection \<Rightarrow> model_context_marker i ''system_prompt_section'') items"

subsection \<open>The request hook\<close>

definition U32_MAX :: nat where
  "U32_MAX = 2 ^ 32 - 1"

definition before_model_request ::
  "'x ext_env \<Rightarrow> nat \<Rightarrow> bool \<Rightarrow> model_request \<Rightarrow> 'x ext_runtime \<Rightarrow> model_request \<times> 'x ext_runtime" where
  "before_model_request env model_max_tokens cancelled base r =
     (let request = apply_to_request (ec_message_of env) (xr_model_context r) base
      in if \<not> px_has_request_hook env OnBeforeModelRequest HTransform (xr_port r) then (request, r)
         else case call env DRequest OnBeforeModelRequest HTransform
                     (JObj [(lit ''request'', ec_request_value env request)]) cancelled r of
                (Inr (VTransform _ acts), r1) \<Rightarrow>
                  if foreign_action [ReplaceModelRequest, EnqueueFollowUpAction] acts then (request, r1)
                  else (case (case action_of ReplaceModelRequest acts of
                                None \<Rightarrow> Some request
                              | Some a \<Rightarrow> Option.bind (json_get (xa_payload a) (lit ''request'')) (ec_request_of env)) of
                          None \<Rightarrow> (request, r1)
                        | Some accepted \<Rightarrow>
                            if validate_replacement accepted request model_max_tokens \<noteq> None then (request, r1)
                            else with_follow_ups env acts request accepted r1)
              | (_, r1) \<Rightarrow> (request, r1))"

text \<open>The closure \<open>AgentHarness::new\<close> hands the agent: it does not know the model's limit.\<close>

definition harness_model_request ::
  "'x ext_env \<Rightarrow> bool \<Rightarrow> model_request \<Rightarrow> 'x ext_runtime \<Rightarrow> model_request \<times> 'x ext_runtime" where
  "harness_model_request env cancelled request r = before_model_request env U32_MAX cancelled request r"

subsection \<open>Provider requests\<close>

record interception_error =
  ie_code :: ustr
  ie_message :: ustr

definition provider_error :: "extension_error \<Rightarrow> interception_error" where
  "provider_error err =
     \<lparr>ie_code = lit ''runtime_extension_'' @ debug_name (error_code_name (xe_code err)), ie_message = xe_message err\<rparr>"

definition invalid_provider_action :: "string \<Rightarrow> interception_error" where
  "invalid_provider_action message = \<lparr>ie_code = lit ''invalid_provider_action'', ie_message = lit message\<rparr>"

definition transform_provider_request ::
  "'x ext_env \<Rightarrow> lifecycle_event \<Rightarrow> action_kind \<Rightarrow> ('t \<Rightarrow> json) \<Rightarrow> (json \<Rightarrow> 't option) \<Rightarrow> 't \<Rightarrow> 'x ext_runtime \<Rightarrow>
   (interception_error + 't) \<times> 'x ext_runtime" where
  "transform_provider_request env event kind to_value of_value request r =
     (if \<not> px_has_request_hook env event HTransform (xr_port r) then (Inr request, r)
      else case call env DRequest event HTransform (JObj [(lit ''request'', to_value request)]) False r of
             (Inl err, r1) \<Rightarrow> (Inl (provider_error err), r1)
           | (Inr (VTransform _ acts), r1) \<Rightarrow>
               if list_ex (\<lambda>a. xa_kind a \<noteq> kind) acts
               then (Inl (invalid_provider_action ''provider transform returned an action outside this lifecycle seam''), r1)
               else (case action_of kind acts of
                       None \<Rightarrow> (Inr request, r1)
                     | Some a \<Rightarrow>
                         (case json_get (xa_payload a) (lit ''request'') of
                            None \<Rightarrow> (Inl (invalid_provider_action ''provider replacement action requires request''), r1)
                          | Some v \<Rightarrow>
                              (case of_value v of
                                 None \<Rightarrow> (Inl (invalid_provider_action ''provider replacement action has an invalid request''), r1)
                               | Some replacement \<Rightarrow> (Inr replacement, r1))))
           | (Inr _, r1) \<Rightarrow>
               (Inl \<lparr>ie_code = lit ''contract_violation'',
                     ie_message = lit ''provider transform returned a non-transform result''\<rparr>, r1))"

definition transform_headers ::
  "'x ext_env \<Rightarrow> ('h \<Rightarrow> json) \<Rightarrow> (json \<Rightarrow> 'h option) \<Rightarrow> 'h \<Rightarrow> 'x ext_runtime \<Rightarrow> (interception_error + 'h) \<times> 'x ext_runtime" where
  "transform_headers env = transform_provider_request env OnBeforeProviderRequestHeaders ReplaceProviderHeaders"

definition transform_payload ::
  "'x ext_env \<Rightarrow> ('p \<Rightarrow> json) \<Rightarrow> (json \<Rightarrow> 'p option) \<Rightarrow> 'p \<Rightarrow> 'x ext_runtime \<Rightarrow> (interception_error + 'p) \<times> 'x ext_runtime" where
  "transform_payload env = transform_provider_request env OnBeforeProviderRequestRaw ReplaceProviderPayload"

definition observe_provider :: "'x ext_env \<Rightarrow> lifecycle_event \<Rightarrow> json \<Rightarrow> 'x ext_runtime \<Rightarrow> 'x ext_runtime" where
  "observe_provider env event payload r =
     (if \<not> px_has_request_hook env event HObserve (xr_port r) then r
      else observe env DRequest event payload False r)"

end
