(* ===== verification/Extension_Properties.thy ===== *)
theory Extension_Properties
  imports Extension_Requests
begin

text \<open>
  What the extension runtime guarantees: names that can be read back, answers held to their contract,
  gates that fail closed, transforms that keep a message's role, the follow-up queue, and the
  persistent model context.
\<close>

subsection \<open>Names and answers\<close>

definition all_events :: "lifecycle_event list" where
  "all_events = map snd snake_case_arms"

definition renamed_events :: "lifecycle_event list" where
  "renamed_events = map snd public_arms"

lemma every_event: "e \<in> set all_events"
  by (cases e) (simp_all add: all_events_def snake_case_arms_def)

lemma arms_by_name:
  "snake_case_arms = map (\<lambda>e. (snake_case_name e, e)) all_events"
  "public_arms = map (\<lambda>e. (public_name e, e)) renamed_events"
  by (simp_all add: all_events_def snake_case_arms_def renamed_events_def public_arms_def)

lemma names_distinct:
  "distinct (map snake_case_name all_events)" "distinct (map public_name renamed_events)"
  "list_all (\<lambda>e. snake_case_name e \<notin> set (map public_name renamed_events)) all_events"
  by code_simp+

lemma map_of_named:
  assumes "distinct (map f es)" "e \<in> set es"
  shows "map_of (map (\<lambda>e. (f e, e)) es) (f e) = Some e"
  using assms
proof (induction es)
  case (Cons d es)
  show ?case
  proof (cases "f e = f d")
    case True
    with Cons.prems have "e = d" by (metis distinct.simps(2) image_eqI list.simps(9) list.set_map set_ConsD)
    then show ?thesis by simp
  next
    case False
    with Cons show ?thesis by auto
  qed
qed simp

lemma map_of_unnamed: "v \<notin> set (map f es) \<Longrightarrow> map_of (map (\<lambda>e. (f e, e)) es) v = None"
  by (induction es) auto

lemma public_name_default: "e \<notin> set renamed_events \<Longrightarrow> public_name e = snake_case_name e"
  by (cases e) (simp_all add: renamed_events_def public_arms_def)

lemma from_snake: "from_snake_case_name (snake_case_name e) = Some e"
  using map_of_named [OF names_distinct(1) every_event, of e]
  by (simp add: from_snake_case_name_def arms_by_name(1))

lemma from_public_snake: "from_public_name (snake_case_name e) = Some e"
  using names_distinct(3) every_event [of e] from_snake [of e]
  by (simp add: from_public_name_def arms_by_name(2) list_all_iff map_of_unnamed del: set_map)

text \<open>
  Subscription names: an event is found again under its public name and under its internal name, so
  no two events share a name.
\<close>

theorem lifecycle_names_roundtrip:
  "from_public_name (public_name e) = Some e \<and> from_public_name (snake_case_name e) = Some e"
proof (cases "e \<in> set renamed_events")
  case True
  from map_of_named [OF names_distinct(2) this] show ?thesis
    by (simp add: from_public_snake) (simp add: from_public_name_def arms_by_name(2))
next
  case False
  then show ?thesis by (simp add: public_name_default from_public_snake)
qed

fun result_class :: "validated_result \<Rightarrow> hook_class" where
  "result_class VObserve = HObserve"
| "result_class (VTransform _ _) = HTransform"
| "result_class (VGate _ _ _) = HGate"
| "result_class (VRegister _) = HRegister"

fun result_actions :: "validated_result \<Rightarrow> extension_action list" where
  "result_actions VObserve = []"
| "result_actions (VTransform _ acts) = acts"
| "result_actions (VGate _ _ acts) = acts"
| "result_actions (VRegister acts) = acts"

lemma validate_hook_result_fields:
  "validate_hook_result durable iv batch = Inr r \<Longrightarrow>
   result_class r = iv_class iv \<and> (result_actions r = ab_actions batch \<or> result_actions r = [])"
  by (auto simp: validate_hook_result_def split: sum.splits option.splits hook_class.splits)

lemma validate_result_ok:
  "validate_result durable c batch = None \<Longrightarrow>
   (\<forall>a\<in>set (ab_actions batch). xa_kind a \<in> set (hc_allowed_actions c) \<and> is_json_object (xa_payload a) \<and>
      validate_durable_action durable a = None) \<and>
   distinct (filter is_singleton_action (map xa_kind (ab_actions batch))) \<and>
   (hc_class c \<noteq> HGate \<longrightarrow> ab_decision batch = None)"
  using validate_actions_ok [of durable c "[]" "ab_actions batch"]
  by (auto simp: validate_result_def split: if_splits)

text \<open>
  C11. An answer that reaches the core obeys the contract of its event: it has the class that was asked,
  the event belongs to the port, every action is allowed for the event and class, carries an object,
  and a durable one a valid entry of its kind, and no replacement occurs twice.
\<close>

theorem dispatch_respects_contract:
  assumes "dispatch_port env domain iv x = (Inr r, x')"
  shows "iv_event iv \<in> domain_events domain \<and> result_class r = iv_class iv \<and>
    (\<exists>allowed. allowed_actions (iv_event iv) (iv_class iv) = Inr allowed \<and>
      (\<forall>a\<in>set (result_actions r). xa_kind a \<in> set allowed \<and> is_json_object (xa_payload a) \<and>
         validate_durable_action (px_durable env) a = None)) \<and>
    distinct (filter is_singleton_action (map xa_kind (result_actions r)))"
proof -
  from assms obtain batch c where b: "iv_event iv \<in> domain_events domain"
    "for_hook (iv_event iv) (iv_class iv) = Inr c" "validate_result (px_durable env) c batch = None"
    "validate_hook_result (px_durable env) iv batch = Inr r" by (rule dispatch_port_ok)
  from validate_hook_result_fields [OF b(4)] validate_result_ok [OF b(3)] for_hook_fields [OF b(2)] b(1)
  show ?thesis by auto
qed

lemma call_scoped_cases:
  assumes "call_scoped env domain event class payload cancelled mi ti r = (Inr res, r')"
  obtains iv batch where "px_invoke env domain iv (xr_port r) = (Inr batch, xr_port r')"
    "iv_event iv = event" "iv_class iv = class" "iv_payload iv = payload" "rc_cancelled (iv_context iv) = cancelled"
    "si_tool_call_id (rc_scope (iv_context iv)) = ti"
    "validate_hook_result (px_durable env) iv batch = Inr res" "event \<in> domain_events domain"
    "r' = r\<lparr>xr_next_sequence := Suc (xr_next_sequence r), xr_port := xr_port r'\<rparr>"
proof -
  from assms obtain iv r1 where 1: "invocation_scoped event class payload cancelled mi ti r = (Inr iv, r1)"
    and g: "guarded env domain iv r1 = (Inr res, r')"
    by (auto simp: call_scoped_def split: prod.splits sum.splits)
  from 1 have iv: "iv_event iv = event" "iv_class iv = class" "iv_payload iv = payload"
    "rc_cancelled (iv_context iv) = cancelled" "si_tool_call_id (rc_scope (iv_context iv)) = ti"
    and r1: "r1 = r\<lparr>xr_next_sequence := Suc (xr_next_sequence r)\<rparr>"
    by (auto simp: invocation_scoped_def new_invocation_def take_next_def split: option.splits sum.splits if_splits)
  from g obtain x where d: "dispatch_port env domain iv (xr_port r) = (Inr res, x)" and r': "r' = r1\<lparr>xr_port := x\<rparr>"
    by (auto simp: guarded_def r1 split: if_splits prod.splits)
  from d obtain batch where "px_invoke env domain iv (xr_port r) = (Inr batch, x)" "iv_event iv \<in> domain_events domain"
    "validate_hook_result (px_durable env) iv batch = Inr res"
    by (rule dispatch_port_ok)
  with iv r1 r' show thesis by (intro that) auto
qed


subsection \<open>Transforms\<close>

lemma same_role_refl [simp]: "same_message_role m m"
  by (cases "(m, m)" rule: same_message_role.cases) auto

text \<open>The follow-ups of a transform are queued in full before its result is taken.\<close>

lemma with_follow_ups_cases:
  assumes "with_follow_ups env acts original accepted r = (y, r')"
  obtains "y = original" "r' = r"
  | fs q where "follow_ups_of env acts = Some fs" "enqueue_batch fs (xr_follow_ups r) = Some q"
      "y = accepted" "r' = r\<lparr>xr_follow_ups := q\<rparr>"
proof (cases "follow_ups_of env acts")
  case None
  with assms show thesis by (intro that(1)) (simp_all add: with_follow_ups_def)
next
  case (Some fs)
  show thesis
  proof (cases "enqueue_batch fs (xr_follow_ups r)")
    case None
    with assms Some show thesis by (intro that(1)) (simp_all add: with_follow_ups_def enqueue_follow_ups_def)
  next
    case (Some q)
    with assms \<open>follow_ups_of env acts = Some fs\<close> show thesis
      by (intro that(2) [of fs q]) (simp_all add: with_follow_ups_def enqueue_follow_ups_def)
  qed
qed

lemma call_scoped_keeps [simp]:
  "xr_follow_ups (snd (call_scoped env domain event class payload cancelled mi ti r)) = xr_follow_ups r"
  "xr_active (snd (call_scoped env domain event class payload cancelled mi ti r)) = xr_active r"
proof -
  have i: "xr_follow_ups (snd (invocation_scoped event class payload cancelled mi ti r)) = xr_follow_ups r \<and>
      xr_active (snd (invocation_scoped event class payload cancelled mi ti r)) = xr_active r"
    by (simp add: invocation_scoped_def split: option.split)
  have g: "xr_follow_ups (snd (guarded env domain iv s)) = xr_follow_ups s \<and>
      xr_active (snd (guarded env domain iv s)) = xr_active s" for iv s
    by (simp add: guarded_def split: prod.split)
  show "xr_follow_ups (snd (call_scoped env domain event class payload cancelled mi ti r)) = xr_follow_ups r"
    "xr_active (snd (call_scoped env domain event class payload cancelled mi ti r)) = xr_active r"
    using i g
    by (cases "invocation_scoped event class payload cancelled mi ti r"; cases "fst (invocation_scoped event class payload cancelled mi ti r)";
        simp add: call_scoped_def)+
qed

lemma observe_message_start_follow_ups: "xr_follow_ups (observe_message_start env m c r) = xr_follow_ups r"
  by (simp add: observe_message_start_def observe_message_def allocate_def split: option.split)

text \<open>
  The actions with which the hook answered, and what of an answer the message takes when it is admissible:
  no action foreign to the seam, a replacement that can be read and has the role of the message, and
  follow-ups that can all be read.
\<close>

definition message_answer ::
  "'x ext_env \<Rightarrow> agent_message \<Rightarrow> bool \<Rightarrow> 'x ext_runtime \<Rightarrow> extension_action list option" where
  "message_answer env m c r =
     (let r1 = (if as_message_id (xr_active r) = None then observe_message_start env m c r else r)
      in case as_message_id (xr_active r1) of
           None \<Rightarrow> None
         | Some i \<Rightarrow>
             (case fst (call_scoped env DMessage OnMessageEnd HTransform (JObj [(lit ''message'', ec_message_value env m)]) c (Some i) None r1) of
                Inr (VTransform _ acts) \<Rightarrow> Some acts
              | _ \<Rightarrow> None))"

definition admissible_answer ::
  "'x ext_env \<Rightarrow> agent_message \<Rightarrow> extension_action list \<Rightarrow> (agent_message \<times> (ustr \<times> agent_message) list) option" where
  "admissible_answer env m acts =
     (case (case action_of ReplaceMessage acts of
              None \<Rightarrow> Some m | Some a \<Rightarrow> Option.bind (json_get (xa_payload a) (lit ''message'')) (ec_message_of env)) of
        None \<Rightarrow> None
      | Some m' \<Rightarrow>
          if foreign_action [ReplaceMessage, EnqueueFollowUpAction] acts \<or> \<not> same_message_role m m' then None
          else map_option (Pair m') (follow_ups_of env acts))"

definition takes_answer ::
  "'x ext_env \<Rightarrow> agent_message \<Rightarrow> extension_action list option \<Rightarrow> follow_up_queue \<Rightarrow> agent_message \<times> follow_up_queue" where
  "takes_answer env m answer q =
     (case Option.bind answer (admissible_answer env m) of
        None \<Rightarrow> (m, q)
      | Some (m', fs) \<Rightarrow> (case enqueue_batch fs q of None \<Rightarrow> (m, q) | Some q' \<Rightarrow> (m', q')))"

lemma with_follow_ups_takes:
  "fst (with_follow_ups env acts m m' r) = (case follow_ups_of env acts of None \<Rightarrow> m
     | Some fs \<Rightarrow> (case enqueue_batch fs (xr_follow_ups r) of None \<Rightarrow> m | Some q \<Rightarrow> m'))"
  "xr_follow_ups (snd (with_follow_ups env acts m m' r)) = (case follow_ups_of env acts of None \<Rightarrow> xr_follow_ups r
     | Some fs \<Rightarrow> (case enqueue_batch fs (xr_follow_ups r) of None \<Rightarrow> xr_follow_ups r | Some q \<Rightarrow> q))"
  by (auto simp: with_follow_ups_def enqueue_follow_ups_def split: option.split)

lemma transform_message_as_takes:
  assumes "as_message_id (xr_active r) = Some i"
  shows "(fst (transform_message_as env i m c r), xr_follow_ups (snd (transform_message_as env i m c r))) =
    takes_answer env m (message_answer env m c r) (xr_follow_ups r)"
proof -
  obtain res r1 where c: "call_scoped env DMessage OnMessageEnd HTransform
      (JObj [(lit ''message'', ec_message_value env m)]) c (Some i) None r = (res, r1)" by force
  from c have f: "xr_follow_ups r1 = xr_follow_ups r" by (metis call_scoped_keeps(1) snd_conv)
  show ?thesis
  proof (cases "\<exists>e acts. res = Inr (VTransform e acts)")
    case True
    then obtain e acts where res: "res = Inr (VTransform e acts)" by blast
    then have a: "message_answer env m c r = Some acts" using c assms by (simp add: message_answer_def)
    show ?thesis
      by (simp add: a c res transform_message_as_def takes_answer_def admissible_answer_def f with_follow_ups_takes
          split: option.split)
  next
    case False
    then have "message_answer env m c r = None" "transform_message_as env i m c r = (m, r1)"
      using c assms by (auto simp: message_answer_def transform_message_as_def split: sum.splits validated_result.splits)
    then show ?thesis by (simp add: takes_answer_def f)
  qed
qed

lemma takes_answer_role: "takes_answer env m answer q = (m', q') \<Longrightarrow> same_message_role m m'"
  by (auto simp: takes_answer_def admissible_answer_def split: option.splits if_splits Option.bind_splits)

text \<open>
  C14. A message hook is atomic and keeps the role: either the message stays the original and no follow-up
  is queued, or the message is the replacement in the hook's answer (the original, without one) and all
  follow-ups of that answer are queued. The latter is the case exactly when the hook answered, its answer is
  admissible and the queue takes the follow-ups.
\<close>

theorem message_transform_atomic:
  "(fst (ext_transform_message env m c r), xr_follow_ups (snd (ext_transform_message env m c r))) =
     takes_answer env m (message_answer env m c r) (xr_follow_ups r) \<and>
   same_message_role m (fst (ext_transform_message env m c r))"
proof -
  have "(fst (ext_transform_message env m c r), xr_follow_ups (snd (ext_transform_message env m c r))) =
     takes_answer env m (message_answer env m c r) (xr_follow_ups r)"
  proof (cases "as_message_id (xr_active r)")
    case (Some i)
    then show ?thesis using transform_message_as_takes [OF Some, of env m c] by (simp add: ext_transform_message_def)
  next
    case None
    define r1 where "r1 = observe_message_start env m c r"
    have f: "xr_follow_ups r1 = xr_follow_ups r" by (simp add: r1_def observe_message_start_follow_ups)
    show ?thesis
    proof (cases "as_message_id (xr_active r1)")
      case None
      with \<open>as_message_id (xr_active r) = None\<close> f show ?thesis
        by (simp add: ext_transform_message_def r1_def [symmetric] message_answer_def takes_answer_def)
    next
      case (Some i)
      have "message_answer env m c r = message_answer env m c r1"
        using None Some by (simp add: message_answer_def r1_def [symmetric])
      with transform_message_as_takes [OF Some, of env m c] None Some f show ?thesis
        by (simp add: ext_transform_message_def r1_def [symmetric])
    qed
  qed
  then show ?thesis using takes_answer_role by metis
qed

text \<open>The answer of a port that emits one diagnostic, which every transform hook may do.\<close>

definition diagnostic_answer :: action_batch where
  "diagnostic_answer = \<lparr>ab_decision = None, ab_actions = [\<lparr>xa_kind = EmitDiagnostic, xa_payload = JObj []\<rparr>]\<rparr>"

definition diagnostic_env :: "'x ext_env \<Rightarrow> 'x ext_env" where
  "diagnostic_env env = env\<lparr>px_invoke := \<lambda>_ _ x. (Inr diagnostic_answer, x)\<rparr>"

definition fresh_runtime :: "'x ext_runtime \<Rightarrow> bool" where
  "fresh_runtime r \<longleftrightarrow> trim (xr_session_id r) \<noteq> [] \<and> trim (xr_cwd r) \<noteq> [] \<and> 0 < xr_next_sequence r \<and>
     xr_next_sequence r + 1 < 2 ^ 64 \<and> \<not> xr_dispatching r"

lemma diagnostic_call:
  assumes "fresh_runtime r" "is_json_object payload" "event \<in> domain_events domain" "transform_actions event \<noteq> None"
  shows "call_scoped (diagnostic_env env) domain event HTransform payload c mi ti r =
    (Inr (VTransform event (ab_actions diagnostic_answer)), r\<lparr>xr_next_sequence := Suc (xr_next_sequence r)\<rparr>)"
proof -
  from assms(4) obtain ks where ks: "transform_actions event = Some ks" by auto
  then have k: "EmitDiagnostic \<in> set ks" by (auto simp: transform_actions_def persistent_actions_def split: option.splits)
  show ?thesis
    using assms(1-3) ks k
    by (simp add: call_scoped_def invocation_scoped_def take_next_def fresh_runtime_def new_invocation_def for_hook_def
        allowed_actions_def guarded_def dispatch_port_def validate_domain_event_def diagnostic_env_def
        validate_hook_result_def validate_result_def diagnostic_answer_def validate_durable_action_def)
qed

text \<open>
  An input hook that emits a diagnostic, an action its contract allows, ends the prompt in a panic,
  while the same answer of a message hook is accepted.
\<close>

theorem input_hook_panics:
  assumes "fresh_runtime r"
  shows "fst (transform_input (diagnostic_env env) m r) = None \<and>
    fst (ext_transform_message (diagnostic_env env) m c (r\<lparr>xr_active := (xr_active r)\<lparr>as_message_id := Some i\<rparr>\<rparr>)) = m"
proof -
  from assms have r': "fresh_runtime (r\<lparr>xr_active := (xr_active r)\<lparr>as_message_id := Some i\<rparr>\<rparr>)" by (simp add: fresh_runtime_def)
  have "fst (transform_input (diagnostic_env env) m r) = None"
    by (simp add: transform_input_def diagnostic_call [OF assms] transform_actions_def)
      (simp add: diagnostic_answer_def foreign_action_def is_host_consumed_action_def)
  moreover have "fst (ext_transform_message (diagnostic_env env) m c (r\<lparr>xr_active := (xr_active r)\<lparr>as_message_id := Some i\<rparr>\<rparr>)) = m"
    by (simp add: ext_transform_message_def transform_message_as_def diagnostic_call [OF r'] transform_actions_def)
      (simp add: diagnostic_answer_def foreign_action_def is_host_consumed_action_def action_of_def with_follow_ups_def
        follow_ups_of_def enqueue_follow_ups_def split: option.split)
  ultimately show ?thesis by simp
qed

subsection \<open>The persistent model context\<close>

lemma apply_to_request_fields [simp]:
  "mr_provider (apply_to_request f items r) = mr_provider r" "mr_model (apply_to_request f items r) = mr_model r"
  "mr_visible_tools (apply_to_request f items r) = mr_visible_tools r"
  "mr_executable_tool_names (apply_to_request f items r) = mr_executable_tool_names r"
  "mr_generation_options (apply_to_request f items r) = mr_generation_options r"
  by (simp_all add: apply_to_request_def Let_def)

lemma replacement_limit:
  assumes "validate_replacement x base n = None" "go_max_tokens (mr_generation_options x) = Some n" "n \<le> k"
  shows "validate_replacement x base k = None"
proof -
  have "check_generation (mr_generation_options x) k = None" if "check_generation (mr_generation_options x) n = None"
    using that assms(2,3) by (auto simp: check_generation_def split: if_splits)
  with assms(1) show ?thesis by (auto simp: validate_replacement_def split: sum.splits if_splits)
qed

text \<open>
  C35. Persistent model context is lost when an extension asks for more tokens than the model has. The hook
  answers with a replacement of the request, valid but for a token limit above the model's (and at most
  the greatest 32-bit number): the harness, which checks against no other limit, accepts it; the agent, which
  checks against the model's, refuses it and sends the request it started from, without the persistent
  context, which the agent accepts in the request a harness without the hook makes.
\<close>

theorem model_context_lost:
  assumes "px_has_request_hook env OnBeforeModelRequest HTransform (xr_port r)"
    and "fst (call env DRequest OnBeforeModelRequest HTransform (JObj [(lit ''request'',
           ec_request_value env (apply_to_request (ec_message_of env) (xr_model_context r) base))]) c r) = Inr (VTransform e [a])"
    and "xa_kind a = ReplaceModelRequest"
    and "Option.bind (json_get (xa_payload a) (lit ''request'')) (ec_request_of env) = Some replaced"
    and "validate_replacement replaced base n = None" "go_max_tokens (mr_generation_options replaced) = Some n"
    and "0 < mo_max_tokens model" "mo_max_tokens model < n" "n < 2 ^ 32"
    and "length (fq_queued (xr_follow_ups r)) \<le> FOLLOW_UP_QUEUE_CAPACITY"
  shows "fst (harness_model_request env c base r) = replaced \<and>
    accepted_request model base (fst (harness_model_request env c base r)) = base \<and>
    (validate_replacement base base (mo_max_tokens model) = None \<longrightarrow>
       accepted_request model base (fst (harness_model_request (env\<lparr>px_has_request_hook := \<lambda>_ _ _. False\<rparr>) c base r)) =
         apply_to_request (ec_message_of env) (xr_model_context r) base)"
proof -
  let ?request = "apply_to_request (ec_message_of env) (xr_model_context r) base"
  have same: "validate_replacement x (apply_to_request f items base) k = validate_replacement x base k"
    "validate_replacement (apply_to_request f items base) base k = validate_replacement base base k" for x f items k
    unfolding validate_replacement_def apply_to_request_fields by (rule refl)+
  have valid: "validate_replacement replaced ?request U32_MAX = None"
    unfolding same by (rule replacement_limit [OF assms(5,6)]) (use assms(9) in \<open>simp add: U32_MAX_def\<close>)
  obtain res r1 where cl: "call env DRequest OnBeforeModelRequest HTransform (JObj [(lit ''request'',
      ec_request_value env ?request)]) c r = (res, r1)" by force
  with assms(2) have res: "res = Inr (VTransform e [a])" by simp
  have "xr_follow_ups r1 = xr_follow_ups r" using cl by (metis call_scoped_keeps(1) snd_conv)
  then have queue: "fst (with_follow_ups env [a] ?request replaced r1) = replaced"
    using assms(3,10) by (simp add: with_follow_ups_takes follow_ups_of_def enqueue_batch_def)
  have got: "fst (harness_model_request env c base r) = replaced"
    using assms(1,3,4) valid queue
    by (simp add: harness_model_request_def before_model_request_def Let_def cl res foreign_action_def action_of_def)
  have "check_generation (mr_generation_options replaced) (mo_max_tokens model) \<noteq> None"
    using assms(6-8) by (auto simp: check_generation_def)
  then have "validate_replacement replaced base (mo_max_tokens model) \<noteq> None"
    by (auto simp: validate_replacement_def split: sum.split)
  with got show ?thesis
    by (auto simp: accepted_request_def harness_model_request_def before_model_request_def Let_def same)
qed

lemma put_item_keys:
  "distinct (map item_key items) \<Longrightarrow> distinct (map item_key (put_item i items))"
proof -
  have k: "map item_key (map (\<lambda>j. if item_key j = item_key i then i else j) items) = map item_key items"
    by (induction items) simp_all
  show "distinct (map item_key items) \<Longrightarrow> distinct (map item_key (put_item i items))"
    unfolding put_item_def by (cases "item_key i \<in> item_key ` set items") (simp_all only: k if_True if_False, simp)
qed

lemma find_snoc: "find P (xs @ [i]) = (case find P xs of Some y \<Rightarrow> Some y | None \<Rightarrow> if P i then Some i else None)"
  by (induction xs) auto

lemma find_put_item:
  "find (\<lambda>j. item_key j = k) (put_item i items) =
     (if item_key i = k then Some i else find (\<lambda>j. item_key j = k) items)"
proof (cases "item_key i \<in> item_key ` set items")
  case True
  let ?f = "\<lambda>j. if item_key j = item_key i then i else j"
  have c: "(\<lambda>j. item_key (?f j) = k) = (\<lambda>j. item_key j = k)" by auto
  have e: "find (\<lambda>j. item_key j = k) (put_item i items) = map_option ?f (find (\<lambda>j. item_key j = k) items)"
    using True by (simp add: put_item_def find_map_comp c)
  show ?thesis
  proof (cases "find (\<lambda>j. item_key j = k) items")
    case None
    with True have "item_key i \<noteq> k" by (auto simp: find_None_iff)
    with None e show ?thesis by simp
  next
    case (Some j)
    then have "item_key j = k" by (auto simp: find_Some_iff)
    with Some e show ?thesis by auto
  qed
next
  case False
  have "item_key j \<noteq> item_key i" if "j \<in> set items" for j
    using imageI [OF that, of item_key] False by metis
  then have "find (\<lambda>j. item_key j = item_key i) items = None" unfolding find_None_iff by blast
  with False show ?thesis by (auto simp: put_item_def find_snoc split: option.split)
qed

text \<open>
  Rebuilding the persistent context keeps one item per extension and context id, the last one stored,
  and every stored item has its place.
\<close>

theorem rebuild_last_wins:
  assumes "rebuild_context es = Inr items"
  shows "distinct (map item_key items) \<and>
    find (\<lambda>i. item_key i = k) items = find (\<lambda>i. item_key i = k) (rev (List.map_filter item_of_entry es))"
proof -
  have "distinct (map item_key is) \<Longrightarrow> rebuild_from is es = Inr items \<Longrightarrow>
    distinct (map item_key items) \<and>
    find (\<lambda>i. item_key i = k) items =
      (case find (\<lambda>i. item_key i = k) (rev (List.map_filter item_of_entry es)) of
         Some i \<Rightarrow> Some i | None \<Rightarrow> find (\<lambda>i. item_key i = k) is)" for "is"
  proof (induction es arbitrary: "is")
    case (Cons e es)
    show ?case
    proof (cases "item_of_entry e")
      case None
      with Cons show ?thesis by (auto simp: map_filter_simps split: option.splits)
    next
      case (Some i)
      from Cons.prems Some have "rebuild_from (put_item i is) es = Inr items" by (auto split: option.splits)
      from Cons.IH [OF put_item_keys [OF Cons.prems(1)] this] Some show ?thesis
        by (auto simp: map_filter_simps find_snoc find_put_item split: option.splits)
    qed
  qed (simp add: map_filter_simps)
  from this [of "[]"] assms show ?thesis by (auto simp: rebuild_context_def split: option.splits)
qed

subsection \<open>Examples\<close>

text \<open>An environment whose port answers every hook with \<open>batch\<close>, and whose codecs read one request.\<close>

definition answering_env :: "action_batch \<Rightarrow> model_request \<Rightarrow> unit ext_env" where
  "answering_env batch request =
     \<lparr>px_invoke = (\<lambda>_ _ x. (Inr batch, x)), px_has_request_hook = (\<lambda>_ _ _. True), px_durable = (\<lambda>_. Inl []),
      ec_message_value = (\<lambda>_. JObj []), ec_message_of = (\<lambda>_. None), ec_outcome_of = (\<lambda>_. None),
      ec_patch_of = (\<lambda>_. None), ec_request_value = (\<lambda>_. JObj []), ec_request_of = (\<lambda>_. Some request),
      ec_assistant_value = (\<lambda>_. JObj []), ec_tool_message_value = (\<lambda>_. JObj []), ec_tool_call_value = (\<lambda>_. JObj []),
      ec_result_value = (\<lambda>_. JObj []), ec_replacement_of = (\<lambda>_. None)\<rparr>"

definition no_answer :: action_batch where
  "no_answer = \<lparr>ab_decision = None, ab_actions = []\<rparr>"

definition section_item :: model_context_item where
  "section_item = \<lparr>mi_extension_id = lit ''memory'', mi_context_id = lit ''facts'',
     mi_placement = SystemPromptSection, mi_content = JStr (lit ''remember this'')\<rparr>"

definition sample_runtime :: "unit ext_runtime" where
  "sample_runtime = the (ext_runtime_new (lit ''s'') (lit ''/'') False None [section_item] ())"

definition plain_request :: model_request where
  "plain_request = \<lparr>mr_provider = lit ''p'', mr_model = lit ''m'', mr_system_instructions = None, mr_messages = [],
     mr_visible_tools = [], mr_executable_tool_names = [], mr_generation_options = default_generation\<rparr>"

definition greedy_request :: model_request where
  "greedy_request = plain_request\<lparr>mr_generation_options := default_generation\<lparr>go_max_tokens := Some 9000\<rparr>\<rparr>"

definition greedy_answer :: action_batch where
  "greedy_answer = \<lparr>ab_decision = None,
     ab_actions = [\<lparr>xa_kind = ReplaceModelRequest, xa_payload = JObj [(lit ''request'', JObj [])]\<rparr>]\<rparr>"

definition sample_model :: model where
  "sample_model = \<lparr>mo_id = lit ''m'', mo_provider = lit ''p'', mo_context_window = 0, mo_max_tokens = 8000\<rparr>"

definition sample_call_context :: "unit before_tool_call_context" where
  "sample_call_context =
     \<lparr>bc_assistant_message = \<lparr>am_content = [], am_api = [], am_provider = [], am_model = [], am_response_model = None,
        am_response_id = None, am_diagnostics = None, am_usage = \<lparr>u_input = 0, u_output = 0, u_cache_read = 0,
        u_cache_write = 0, u_total_tokens = 0, u_prefix_hit_tokens = None, u_prefix_cache_hit_rate = None,
        u_provider_cache_hit_rate = None, u_cost = \<lparr>uc_input = 0, uc_output = 0, uc_cache_read = 0, uc_cache_write = 0,
        uc_total = 0\<rparr>\<rparr>, am_stop_reason = ToolUse, am_error_message = None, am_timestamp = 0\<rparr>,
      bc_tool_call = \<lparr>tl_id = lit ''c1'', tl_name = lit ''read'', tl_arguments = [], tl_thought_signature = None\<rparr>,
      bc_args = JObj [], bc_context = \<lparr>ax_system_prompt = [], ax_messages = [], ax_tools = []\<rparr>\<rparr>"

lemma sample_runtime_eq:
  "sample_runtime =
     \<lparr>xr_session_id = lit ''s'', xr_next_scope = 1, xr_next_sequence = 1, xr_cwd = lit ''/'',
      xr_has_interactive_client = False, xr_model = None, xr_active = no_scopes, xr_session_started = False,
      xr_session_shutdown = False, xr_follow_ups = no_follow_ups, xr_model_context = [section_item],
      xr_dispatching = False, xr_port = ()\<rparr>"
  by (simp add: sample_runtime_def ext_runtime_new_def lit_def trim_def is_whitespace_def)

lemma sample_fresh: "fresh_runtime sample_runtime"
  by (simp add: sample_runtime_eq fresh_runtime_def lit_def trim_def is_whitespace_def)

lemmas call_eval = call_scoped_def invocation_scoped_def take_next_def new_invocation_def for_hook_def allowed_actions_def
  guarded_def dispatch_port_def validate_domain_event_def validate_hook_result_def validate_result_def
  validate_durable_action_def transform_actions_def is_gate_event_def persistent_actions_def trim_def lit_def
  is_whitespace_def answering_env_def

definition load_invocation :: ext_invocation where
  "load_invocation = \<lparr>iv_event = OnInput, iv_class = HTransform,
     iv_context = \<lparr>rc_session_id = lit ''s'', rc_cwd = lit ''/'', rc_sequence = 1,
       rc_scope = \<lparr>si_run_id = None, si_turn_id = None, si_request_id = None, si_message_id = None, si_tool_call_id = None\<rparr>,
       rc_model = None, rc_has_interactive_client = False, rc_cancelled = False, rc_deadline_unix_ms = None\<rparr>,
     iv_payload = JObj []\<rparr>"

lemma sample_dispatch:
  "dispatch_port (answering_env diagnostic_answer plain_request) DRequest load_invocation () =
     (Inr (VTransform OnInput (ab_actions diagnostic_answer)), ())"
  by (simp add: call_eval load_invocation_def diagnostic_answer_def)

lemma dispatch_respects_contract_witness:
  "EmitDiagnostic \<in> set persistent_actions \<and> distinct (filter is_singleton_action (map xa_kind (ab_actions diagnostic_answer)))"
  using dispatch_respects_contract [OF sample_dispatch] by (simp add: persistent_actions_def)

lemma sample_gate:
  "\<not> hr_block (fst (ext_before_tool_call (answering_env no_answer plain_request) sample_call_context False sample_runtime))"
  by (simp add: ext_before_tool_call_def sample_runtime_eq call_eval no_answer_def gate_allows_def follow_ups_of_def
      enqueue_follow_ups_def enqueue_batch_def no_follow_ups_def foreign_action_def no_hook_result_def
      FOLLOW_UP_QUEUE_CAPACITY_def)


lemma input_hook_panics_witness:
  "fst (transform_input (diagnostic_env (answering_env no_answer plain_request)) (Custom \<lparr>cm_role = [], cm_timestamp = 0, cm_payload = JNull\<rparr>)
     sample_runtime) = None"
  using input_hook_panics [OF sample_fresh] by blast

lemma greedy_call:
  "fst (call (answering_env greedy_answer greedy_request) DRequest OnBeforeModelRequest HTransform (JObj [(lit ''request'', JObj [])])
     False sample_runtime) = Inr (VTransform OnBeforeModelRequest (ab_actions greedy_answer))"
  by (simp add: sample_runtime_eq call_eval greedy_answer_def is_singleton_action_def)

lemma greedy_valid: "validate_replacement greedy_request plain_request 9000 = None"
  by (simp add: validate_replacement_def greedy_request_def plain_request_def check_generation_def default_generation_def
      lit_def trim_def is_whitespace_def)

lemma model_context_lost_witness:
  "fst (harness_model_request (answering_env greedy_answer greedy_request) False plain_request sample_runtime) = greedy_request \<and>
   accepted_request sample_model plain_request
     (fst (harness_model_request (answering_env greedy_answer greedy_request) False plain_request sample_runtime)) = plain_request"
proof -
  let ?env = "answering_env greedy_answer greedy_request"
  let ?a = "\<lparr>xa_kind = ReplaceModelRequest, xa_payload = JObj [(lit ''request'', JObj [])]\<rparr>"
  have e: "ec_request_value ?env x = JObj []" "px_has_request_hook ?env ev cls p" "ec_request_of ?env y = Some greedy_request" for x ev cls p y
    by (simp_all add: answering_env_def)
  have call: "fst (call ?env DRequest OnBeforeModelRequest HTransform (JObj [(lit ''request'',
      ec_request_value ?env (apply_to_request (ec_message_of ?env) (xr_model_context sample_runtime) plain_request))]) False sample_runtime) =
      Inr (VTransform OnBeforeModelRequest [?a])"
    unfolding e using greedy_call by (simp add: greedy_answer_def)
  have kind: "xa_kind ?a = ReplaceModelRequest" "Option.bind (json_get (xa_payload ?a) (lit ''request'')) (ec_request_of ?env) = Some greedy_request"
    by (simp_all add: e)
  have tokens: "go_max_tokens (mr_generation_options greedy_request) = Some 9000" by (simp add: greedy_request_def)
  have limits: "0 < mo_max_tokens sample_model" "mo_max_tokens sample_model < 9000" "(9000 :: nat) < 2 ^ 32"
    by (simp_all add: sample_model_def)
  have queue: "length (fq_queued (xr_follow_ups sample_runtime)) \<le> FOLLOW_UP_QUEUE_CAPACITY"
    by (simp add: sample_runtime_eq no_follow_ups_def)
  from model_context_lost [OF e(2) call kind greedy_valid tokens limits queue] show ?thesis by blast
qed

definition context_entry :: "string \<Rightarrow> durable_entry" where
  "context_entry s = \<lparr>de_extension_id = lit ''memory'', de_state_schema_version = 1, de_origin_sequence = 1,
     de_entry = ModelContext (lit ''facts'') SystemPromptSection (JStr (lit s))\<rparr>"

lemma sample_rebuild:
  "rebuild_context [context_entry ''old'', context_entry ''remember this''] = Inr [section_item]"
  by (simp add: rebuild_context_def context_entry_def validate_durable_entry_def is_valid_extension_id_def
      is_valid_local_identifier_def utf8_len_def is_lowercase_def is_digit_def is_control_def lit_def put_item_def
      item_key_def section_item_def)

lemma rebuild_last_wins_witness: "distinct (map item_key [section_item])"
  using rebuild_last_wins [OF sample_rebuild] by blast

end
