(* ===== verification/Extension_Follow_Ups.thy ===== *)
theory Extension_Follow_Ups
  imports Extension_Requests
begin

text \<open>
  The follow-up queue in every state it can reach: batches are queued and messages taken. The window of
  ids seen is kept to its size; the capacity of the queue is kept as long as no id expires while its own
  batch is queued, and not otherwise.
\<close>

inductive follow_up_reachable :: "follow_up_queue \<Rightarrow> bool" where
  new: "follow_up_reachable no_follow_ups"
| batch: "follow_up_reachable q \<Longrightarrow> enqueue_batch fs q = Some q' \<Longrightarrow> follow_up_reachable q'"
| taken: "follow_up_reachable q \<Longrightarrow> fq_queued q = f # rest \<Longrightarrow> follow_up_reachable (q\<lparr>fq_queued := rest\<rparr>)"

definition window_ok :: "follow_up_queue \<Rightarrow> bool" where
  "window_ok q \<longleftrightarrow> set (fq_seen q) = set (fq_seen_order q) \<and> distinct (fq_seen_order q) \<and>
     length (fq_seen_order q) \<le> FOLLOW_UP_DEDUP_CAPACITY"

lemma set_fold_removeAll: "set (fold removeAll xs ys) = set ys - set xs"
  by (induction xs arbitrary: ys) auto

lemma set_drop_distinct: "distinct xs \<Longrightarrow> set (drop n xs) = set xs - set (take n xs)"
proof -
  assume "distinct xs"
  then have "distinct (take n xs @ drop n xs)" by simp
  then have "set (take n xs) \<inter> set (drop n xs) = {}" by (simp only: distinct_append)
  moreover have "set xs = set (take n xs) \<union> set (drop n xs)" by (metis append_take_drop_id set_append)
  ultimately show ?thesis by blast
qed

lemma expire_window:
  assumes "set (fq_seen q) = set (fq_seen_order q)" "distinct (fq_seen_order q)"
  shows "window_ok (expire q)"
  using assms by (simp add: window_ok_def expire_def Let_def set_fold_removeAll set_drop_distinct)

lemma enqueue_one_window: "window_ok q \<Longrightarrow> window_ok (enqueue_one f q)"
proof (cases "fst f \<in> set (fq_seen q)")
  case False
  assume w: "window_ok q"
  let ?q = "\<lparr>fq_queued = fq_queued q @ [f], fq_seen = fst f # fq_seen q, fq_seen_order = fq_seen_order q @ [fst f]\<rparr>"
  have "set (fq_seen ?q) = set (fq_seen_order ?q)" "distinct (fq_seen_order ?q)"
    using w False by (simp_all add: window_ok_def)
  from expire_window [OF this] False show ?thesis by (simp add: enqueue_one_def)
qed (simp add: enqueue_one_def)

lemma fold_window: "window_ok q \<Longrightarrow> window_ok (fold enqueue_one fs q)"
  by (induction fs arbitrary: q) (simp_all add: enqueue_one_window)

lemma reachable_window: "follow_up_reachable q \<Longrightarrow> window_ok q"
proof (induction rule: follow_up_reachable.induct)
  case new
  show ?case by (simp add: window_ok_def no_follow_ups_def)
next
  case (batch q fs q')
  then show ?case by (auto simp: enqueue_batch_def Let_def fold_window split: if_splits)
next
  case (taken q f rest)
  then show ?case by (simp add: window_ok_def)
qed

text \<open>An id in the window is not queued again, and queueing keeps what is queued.\<close>

lemma enqueue_one_queued:
  "fq_queued (enqueue_one f q) = fq_queued q @ (if fst f \<in> set (fq_seen q) then [] else [f])"
  by (simp add: enqueue_one_def expire_def Let_def)

lemma fold_queued: "\<exists>gs. fq_queued (fold enqueue_one fs q) = fq_queued q @ gs \<and> set gs \<subseteq> set fs"
proof (induction fs arbitrary: q)
  case (Cons f fs)
  from Cons.IH [of "enqueue_one f q"] obtain gs where
    "fq_queued (fold enqueue_one fs (enqueue_one f q)) = fq_queued (enqueue_one f q) @ gs" "set gs \<subseteq> set fs" by blast
  then show ?case by (intro exI [of _ "(if fst f \<in> set (fq_seen q) then [] else [f]) @ gs"]) (auto simp: enqueue_one_queued)
qed simp

text \<open>Without an expiry the seen ids stay seen.\<close>

lemma enqueue_one_room:
  assumes "length (fq_seen_order q) < FOLLOW_UP_DEDUP_CAPACITY"
  shows "length (fq_seen_order (enqueue_one f q)) \<le> Suc (length (fq_seen_order q))"
    "set (fq_seen (enqueue_one f q)) = insert (fst f) (set (fq_seen q))"
  using assms by (auto simp: enqueue_one_def expire_def Let_def)

lemma length_filter_insert:
  "length (filter (\<lambda>f. fst f \<notin> insert a S) fs) \<le> length (filter (\<lambda>f. fst f \<notin> S) fs)"
  by (induction fs) auto

lemma fold_room:
  "length (fq_seen_order q) + length fs \<le> FOLLOW_UP_DEDUP_CAPACITY \<Longrightarrow>
   length (fq_queued (fold enqueue_one fs q)) \<le>
     length (fq_queued q) + length (filter (\<lambda>f. fst f \<notin> set (fq_seen q)) fs)"
proof (induction fs arbitrary: q)
  case (Cons f fs)
  let ?q = "enqueue_one f q"
  from Cons.prems have l: "length (fq_seen_order q) < FOLLOW_UP_DEDUP_CAPACITY" by simp
  from Cons.prems enqueue_one_room(1) [OF l, of f]
  have "length (fq_queued (fold enqueue_one fs ?q)) \<le>
      length (fq_queued ?q) + length (filter (\<lambda>f. fst f \<notin> set (fq_seen ?q)) fs)"
    by (intro Cons.IH) simp
  also have "\<dots> \<le> length (fq_queued ?q) + length (filter (\<lambda>f. fst f \<notin> set (fq_seen q)) fs)"
    using length_filter_insert [of "fst f" "set (fq_seen q)" fs] by (simp add: enqueue_one_room(2) [OF l])
  also have "\<dots> \<le> length (fq_queued q) + length (filter (\<lambda>f. fst f \<notin> set (fq_seen q)) (f # fs))"
    by (simp add: enqueue_one_queued)
  finally show ?case by simp
qed simp

lemma fold_queued_length: "length (fq_queued (fold enqueue_one fs q)) \<le> length (fq_queued q) + length fs"
proof (induction fs arbitrary: q)
  case (Cons f fs)
  from Cons.IH [of "enqueue_one f q"] show ?case by (auto simp: enqueue_one_queued split: if_splits)
qed simp

lemma fold_room_new:
  "length (fq_seen_order q) + length fs \<le> FOLLOW_UP_DEDUP_CAPACITY \<Longrightarrow>
   \<exists>gs. fq_queued (fold enqueue_one fs q) = fq_queued q @ gs \<and> set gs \<subseteq> set fs \<and>
     distinct (map fst gs) \<and> set (map fst gs) \<inter> set (fq_seen q) = {}"
proof (induction fs arbitrary: q)
  case (Cons f fs)
  let ?q = "enqueue_one f q"
  from Cons.prems have l: "length (fq_seen_order q) < FOLLOW_UP_DEDUP_CAPACITY" by simp
  note room = enqueue_one_room [OF l, of f]
  have "length (fq_seen_order ?q) + length fs \<le> FOLLOW_UP_DEDUP_CAPACITY" using room(1) Cons.prems by simp
  from Cons.IH [OF this] obtain gs where gs: "fq_queued (fold enqueue_one fs ?q) = fq_queued ?q @ gs" "set gs \<subseteq> set fs"
    "distinct (map fst gs)" "set (map fst gs) \<inter> insert (fst f) (set (fq_seen q)) = {}"
    unfolding room(2) by blast
  show ?case
  proof (cases "fst f \<in> set (fq_seen q)")
    case True
    with gs show ?thesis by (intro exI [of _ gs]) (auto simp: enqueue_one_queued)
  next
    case False
    with gs show ?thesis by (intro exI [of _ "f # gs"]) (auto simp: enqueue_one_queued)
  qed
qed simp

text \<open>
  C13. The follow-up queue: in every reachable state the window holds each id once and at most 256 of them. A
  batch leaves the queue within its capacity of 32 when none of its ids is in the window, or when the window
  has room for all of it; when it has room, what is queued has new ids, each once; and a batch whose ids are
  all in the window changes nothing. (A batch that mixes new ids with ids the window is about to drop can
  queue a known message again and overrun the capacity: \<open>follow_up_capacity_overrun\<close>.)
\<close>

theorem follow_up_queue_bounded:
  assumes "follow_up_reachable q" and "enqueue_batch fs q = Some q'"
  shows "distinct (fq_seen_order q') \<and> length (fq_seen_order q') \<le> FOLLOW_UP_DEDUP_CAPACITY \<and>
    set (fq_seen q') = set (fq_seen_order q') \<and>
    (\<exists>gs. fq_queued q' = fq_queued q @ gs \<and> set gs \<subseteq> set fs \<and>
      (length (fq_seen_order q) + length fs \<le> FOLLOW_UP_DEDUP_CAPACITY \<longrightarrow>
         distinct (map fst gs) \<and> set (map fst gs) \<inter> set (fq_seen q) = {})) \<and>
    ((\<forall>f\<in>set fs. fst f \<notin> set (fq_seen q)) \<or> length (fq_seen_order q) + length fs \<le> FOLLOW_UP_DEDUP_CAPACITY \<longrightarrow>
       length (fq_queued q') \<le> FOLLOW_UP_QUEUE_CAPACITY) \<and>
    ((\<forall>f\<in>set fs. fst f \<in> set (fq_seen q)) \<longrightarrow> q' = q)"
proof -
  from assms have w: "window_ok q'" by (metis follow_up_reachable.batch reachable_window)
  from assms(2) have q': "q' = fold enqueue_one fs q"
    and c: "length (fq_queued q) + length (filter (\<lambda>f. fst f \<notin> set (fq_seen q)) fs) \<le> FOLLOW_UP_QUEUE_CAPACITY"
    by (auto simp: enqueue_batch_def Let_def split: if_splits)
  have new: "length (fq_queued q') \<le> FOLLOW_UP_QUEUE_CAPACITY" if "\<forall>f\<in>set fs. fst f \<notin> set (fq_seen q)"
    using fold_queued_length [of fs q] c that by (simp add: q' filter_True [of fs])
  have room: "length (fq_queued q') \<le> FOLLOW_UP_QUEUE_CAPACITY"
    if "length (fq_seen_order q) + length fs \<le> FOLLOW_UP_DEDUP_CAPACITY"
    using fold_room [OF that] c by (simp add: q')
  have known: "(\<forall>f\<in>set fs. fst f \<in> set (fq_seen q)) \<longrightarrow> q' = q"
    unfolding q' by (induction fs) (auto simp: enqueue_one_def)
  have queued: "\<exists>gs. fq_queued q' = fq_queued q @ gs \<and> set gs \<subseteq> set fs \<and>
      (length (fq_seen_order q) + length fs \<le> FOLLOW_UP_DEDUP_CAPACITY \<longrightarrow>
         distinct (map fst gs) \<and> set (map fst gs) \<inter> set (fq_seen q) = {})"
    using fold_room_new [of q fs] fold_queued [of fs q] unfolding q' by blast
  from w new room known queued show ?thesis unfolding window_ok_def by blast
qed

subsection \<open>A batch that overruns the capacity\<close>

definition numbered :: "agent_message \<Rightarrow> nat \<Rightarrow> ustr \<times> agent_message" where
  "numbered m i = (show_nat i, m)"

text \<open>\<open>n\<close> messages were queued and taken, \<open>k\<close> more are queued.\<close>

definition numbered_queue :: "agent_message \<Rightarrow> nat \<Rightarrow> nat \<Rightarrow> follow_up_queue" where
  "numbered_queue m n k =
     \<lparr>fq_queued = map (numbered m) [n..<n + k], fq_seen = rev (map show_nat [0..<n + k]),
      fq_seen_order = map show_nat [0..<n + k]\<rparr>"

lemma numbered_enqueue:
  "n + k < FOLLOW_UP_DEDUP_CAPACITY \<Longrightarrow> k < FOLLOW_UP_QUEUE_CAPACITY \<Longrightarrow>
   enqueue_batch [numbered m (n + k)] (numbered_queue m n k) = Some (numbered_queue m n (Suc k))"
  by (auto simp: enqueue_batch_def enqueue_one_def expire_def Let_def numbered_queue_def numbered_def)

lemma numbered_reachable:
  "n + k \<le> FOLLOW_UP_DEDUP_CAPACITY \<Longrightarrow> k \<le> FOLLOW_UP_QUEUE_CAPACITY \<Longrightarrow> follow_up_reachable (numbered_queue m n k)"
proof (induction n arbitrary: k)
  case 0
  then show ?case
  proof (induction k)
    case 0
    have "numbered_queue m 0 0 = no_follow_ups" by (simp add: numbered_queue_def no_follow_ups_def)
    then show ?case by (simp add: follow_up_reachable.new)
  next
    case (Suc k)
    then show ?case using numbered_enqueue [of 0 k m] by (auto intro: follow_up_reachable.batch)
  qed
next
  case (Suc n)
  show ?case
    using Suc.prems
  proof (induction k)
    case 0
    from 0 Suc.IH [of 1] have r: "follow_up_reachable (numbered_queue m n 1)" by (simp add: FOLLOW_UP_QUEUE_CAPACITY_def)
    have q: "fq_queued (numbered_queue m n 1) = numbered m n # []" by (simp add: numbered_queue_def)
    have "(numbered_queue m n 1)\<lparr>fq_queued := []\<rparr> = numbered_queue m (Suc n) 0" by (simp add: numbered_queue_def)
    with follow_up_reachable.taken [OF r q] show ?case by simp
  next
    case (Suc k)
    then show ?case using numbered_enqueue [of "Suc n" k m] by (auto intro: follow_up_reachable.batch)
  qed
qed

text \<open>
  The capacity can be overrun: with 31 messages queued and a full window, a batch of a new id and of
  the oldest id of the window is counted as one new message, the new id expires the old one, and both are
  queued: 33.
\<close>

theorem follow_up_capacity_overrun:
  "\<exists>q q'. follow_up_reachable q \<and> enqueue_batch [(show_nat 256, m), (show_nat 0, m)] q = Some q' \<and>
     follow_up_reachable q' \<and> length (fq_queued q') > FOLLOW_UP_QUEUE_CAPACITY"
proof -
  let ?q = "numbered_queue m 225 31"
  let ?q1 = "enqueue_one (show_nat 256, m) ?q" and ?fs = "[(show_nat 256, m), (show_nat 0, m)]"
  have r: "follow_up_reachable ?q"
    by (rule numbered_reachable) (simp_all add: FOLLOW_UP_QUEUE_CAPACITY_def FOLLOW_UP_DEDUP_CAPACITY_def)
  have "map show_nat [0..<n] @ [show_nat n] = show_nat 0 # map show_nat [1..<Suc n]" for n
    by (induction n) simp_all
  from this [of 256] have split: "map show_nat [0..<256] @ [show_nat 256] = show_nat 0 # map show_nat [1..<257]" by simp
  have new: "show_nat 256 \<notin> set (fq_seen ?q)" "show_nat 0 \<in> set (fq_seen ?q)" by (auto simp: numbered_queue_def)
  have "set (fq_seen ?q1) = set (map show_nat [1..<257])"
  proof -
    have "window_ok ?q1" by (rule enqueue_one_window [OF reachable_window [OF r]])
    moreover have "fq_seen_order ?q1 = map show_nat [1..<257]"
      using new split by (simp add: enqueue_one_def expire_def Let_def numbered_queue_def FOLLOW_UP_DEDUP_CAPACITY_def)
    ultimately show ?thesis by (simp add: window_ok_def)
  qed
  then have old: "show_nat 0 \<notin> set (fq_seen ?q1)" by auto
  have e: "enqueue_batch ?fs ?q = Some (fold enqueue_one ?fs ?q)"
    using new by (simp add: enqueue_batch_def FOLLOW_UP_QUEUE_CAPACITY_def numbered_queue_def)
  have "length (fq_queued (fold enqueue_one ?fs ?q)) = 33"
    using new old by (simp add: enqueue_one_queued) (simp add: numbered_queue_def)
  with r e follow_up_reachable.batch [OF r e] show ?thesis
    by (intro exI [of _ ?q] exI [of _ "fold enqueue_one ?fs ?q"]) (simp add: FOLLOW_UP_QUEUE_CAPACITY_def)
qed

definition sample_follow_up :: agent_message where
  "sample_follow_up = Llm (User \<lparr>um_content = PlainText (lit ''go on''), um_timestamp = 7\<rparr>)"

lemma follow_up_queue_bounded_witness:
  "length (fq_queued (numbered_queue sample_follow_up 3 5)) \<le> FOLLOW_UP_QUEUE_CAPACITY \<and>
   distinct (fq_seen_order (numbered_queue sample_follow_up 3 5))"
  using follow_up_queue_bounded [OF numbered_reachable [of 3 4 sample_follow_up] numbered_enqueue [of 3 4 sample_follow_up]]
  by (simp add: FOLLOW_UP_QUEUE_CAPACITY_def FOLLOW_UP_DEDUP_CAPACITY_def numbered_queue_def)

end
