(* ===== verification/Skills.thy ===== *)
theory Skills
  imports Prelude "HOL-Library.List_Lexorder"
begin

text \<open>
  Skills: their discovery in directories (\<^verbatim>\<open>crates/theway-core/src/agent/skills.rs\<close>), their rendering for
  the system prompt (\<^verbatim>\<open>agent/system_prompt.rs\<close>), and prompt templates (\<^verbatim>\<open>agent/types.rs\<close>).

  The file system is the embedder's (\<open>ExecutionEnv\<close>), one snapshot of it for a load; gitignore matching and
  YAML are crates. All three are parameters (\<open>skills_env\<close>). Strings are sliced at byte positions in the
  code: a slice that is not one panics, and a panic is \<open>None\<close> here.
\<close>

subsection \<open>Types\<close>

datatype file_error_code =
  FNotFound | FNotADirectory | FIsADirectory | FPermissionDenied | FInvalidPath | FAborted | FUnknown

record file_error =
  fe_code :: file_error_code
  fe_message :: ustr

datatype file_kind = FFile | FDirectory | FSymlink

record file_info =
  fi_name :: ustr
  fi_path :: ustr
  fi_kind :: file_kind

datatype skill_source = SrcBuiltin | SrcUser | SrcProject

record skill =
  sk_name :: ustr
  sk_description :: ustr
  sk_file_path :: ustr
  sk_content :: ustr
  sk_disable_model_invocation :: bool
  sk_source :: skill_source

record skill_frontmatter =
  sf_name :: "ustr option"
  sf_description :: "ustr option"
  sf_disable_model_invocation :: bool

definition default_frontmatter :: skill_frontmatter where
  "default_frontmatter = \<lparr>sf_name = None, sf_description = None, sf_disable_model_invocation = False\<rparr>"

datatype skill_diagnostic_code = FileInfoFailed | ListFailed | ReadFailed | ParseFailed | InvalidMetadata

record skill_diagnostic =
  sd_code :: skill_diagnostic_code
  sd_message :: ustr
  sd_path :: ustr

record load_skills_output =
  lo_skills :: "skill list"
  lo_diagnostics :: "skill_diagnostic list"

definition no_skills :: load_skills_output where
  "no_skills = \<lparr>lo_skills = [], lo_diagnostics = []\<rparr>"

definition add_diagnostic :: "skill_diagnostic_code \<Rightarrow> ustr \<Rightarrow> ustr \<Rightarrow> load_skills_output \<Rightarrow> load_skills_output" where
  "add_diagnostic code message path out =
     out\<lparr>lo_diagnostics := lo_diagnostics out @ [\<lparr>sd_code = code, sd_message = message, sd_path = path\<rparr>]\<rparr>"

text \<open>
  The file system, the crate \<open>ignore\<close> (\<open>se_build\<close> compiles the lines given to a builder, \<open>None\<close> when that
  fails), and \<open>serde_yaml\<close> at the type of the front matter.
\<close>

record 'g skills_env =
  se_file_info :: "ustr \<Rightarrow> file_error + file_info"
  se_list_dir :: "ustr \<Rightarrow> file_error + file_info list"
  se_read_text_file :: "ustr \<Rightarrow> file_error + ustr"
  se_canonical_path :: "ustr \<Rightarrow> file_error + ustr"
  se_empty :: 'g
  se_build :: "ustr \<Rightarrow> ustr list \<Rightarrow> 'g option"
  se_num_ignores :: "'g \<Rightarrow> nat"
  se_is_ignore :: "'g \<Rightarrow> ustr \<Rightarrow> bool \<Rightarrow> bool"
  se_yaml :: "ustr \<Rightarrow> ustr + skill_frontmatter"

subsection \<open>Strings\<close>

text \<open>\<open>str::replace\<close> with a pattern that is not empty, and \<open>str::find\<close> (the position counts characters).\<close>

function replace_all :: "ustr \<Rightarrow> ustr \<Rightarrow> ustr \<Rightarrow> ustr" where
  "replace_all needle v [] = []"
| "replace_all needle v (c # cs) =
     (if needle = [] then c # cs
      else case strip_prefix needle (c # cs) of
             Some r \<Rightarrow> v @ replace_all needle v r
           | None \<Rightarrow> c # replace_all needle v cs)"
  by pat_completeness auto
termination
  by (relation "measure (\<lambda>(_, _, s). length s)")
    (auto simp: strip_prefix_Some Cons_eq_append_conv)

fun find_str :: "ustr \<Rightarrow> ustr \<Rightarrow> nat option" where
  "find_str needle [] = (if needle = [] then Some 0 else None)"
| "find_str needle (c # cs) =
     (if starts_with (c # cs) needle then Some 0 else map_option Suc (find_str needle cs))"

definition ends_with :: "ustr \<Rightarrow> ustr \<Rightarrow> bool" where
  "ends_with s p \<longleftrightarrow> starts_with (rev s) (rev p)"

definition trim_start_slash :: "ustr \<Rightarrow> ustr" where
  "trim_start_slash s = dropWhile (\<lambda>c. c = 47) s"

definition trim_end_slash :: "ustr \<Rightarrow> ustr" where
  "trim_end_slash s = rev (dropWhile (\<lambda>c. c = 47) (rev s))"

text \<open>\<open>str::lines\<close>: the text up to each newline, less a carriage return at its end.\<close>

definition strip_cr :: "ustr \<Rightarrow> ustr" where
  "strip_cr l = (if l \<noteq> [] \<and> last l = 13 then butlast l else l)"

fun text_lines :: "ustr \<Rightarrow> ustr \<Rightarrow> ustr list" where
  "text_lines l [] = (if l = [] then [] else [l])"
| "text_lines l (c # cs) = (if c = 10 then strip_cr l # text_lines [] cs else text_lines (l @ [c]) cs)"

subsection \<open>Paths\<close>

definition join_env_path :: "ustr \<Rightarrow> ustr \<Rightarrow> ustr" where
  "join_env_path base child = trim_end_slash base @ [47] @ trim_start_slash child"

definition normalize_sep :: "ustr \<Rightarrow> ustr" where
  "normalize_sep path = map (\<lambda>c. if c = 92 then 47 else c) path"

text \<open>What precedes the last slash, with it, and what follows it.\<close>

definition upto_slash :: "ustr \<Rightarrow> ustr" where
  "upto_slash s = rev (dropWhile (\<lambda>c. c \<noteq> 47) (rev s))"

definition after_slash :: "ustr \<Rightarrow> ustr" where
  "after_slash s = rev (takeWhile (\<lambda>c. c \<noteq> 47) (rev s))"

definition dirname_env_path :: "ustr \<Rightarrow> ustr" where
  "dirname_env_path path =
     (let up = upto_slash (trim_end_slash (normalize_sep path))
      in if length up > 1 then butlast up else [47])"

definition basename_env_path :: "ustr \<Rightarrow> ustr" where
  "basename_env_path path = after_slash (trim_end_slash (normalize_sep path))"

definition relative_env_path :: "ustr \<Rightarrow> ustr \<Rightarrow> ustr" where
  "relative_env_path root path =
     (let root = trim_end_slash (normalize_sep root); path = trim_end_slash (normalize_sep path)
      in if path = root then []
         else case strip_prefix (root @ [47]) path of
                Some rest \<Rightarrow> rest
              | None \<Rightarrow> trim_start_slash path)"

subsection \<open>Front matter\<close>

text \<open>
  \<open>content.replace(crlf, lf).replace(cr, lf)\<close>. The slice of the YAML starts at the fourth byte and
  ends where the closing line was found: it panics when that is before the fourth byte, and when the
  fourth byte is inside a character.
\<close>

definition normalize_newlines :: "ustr \<Rightarrow> ustr" where
  "normalize_newlines content = map (\<lambda>c. if c = 13 then 10 else c) (replace_all [13, 10] [10] content)"

definition parse_frontmatter :: "(ustr \<Rightarrow> ustr + skill_frontmatter) \<Rightarrow> ustr \<Rightarrow> (ustr + skill_frontmatter \<times> ustr) option" where
  "parse_frontmatter yaml content =
     (let normalized = normalize_newlines content
      in if \<not> starts_with normalized (lit ''---'') then Some (Inr (default_frontmatter, normalized))
         else case find_str ([10] @ lit ''---'') (drop 3 normalized) of
                None \<Rightarrow> Some (Inr (default_frontmatter, normalized))
              | Some k \<Rightarrow>
                  if k = 0 \<or> normalized ! 3 \<ge> 128 then None
                  else (let yaml_str = drop 4 (take (k + 3) normalized); body = trim (drop (k + 7) normalized)
                        in case yaml yaml_str of
                             Inl err \<Rightarrow> Some (Inl (lit ''yaml: '' @ err))
                           | Inr frontmatter \<Rightarrow> Some (Inr (frontmatter, body))))"

definition MAX_NAME_LENGTH :: nat where
  "MAX_NAME_LENGTH = 64"

definition MAX_DESCRIPTION_LENGTH :: nat where
  "MAX_DESCRIPTION_LENGTH = 1024"

definition quoted :: "ustr \<Rightarrow> ustr" where
  "quoted s = [34] @ s @ [34]"

definition is_name_char :: "nat \<Rightarrow> bool" where
  "is_name_char c \<longleftrightarrow> (97 \<le> c \<and> c \<le> 122) \<or> is_digit c \<or> c = 45"

definition validate_name :: "ustr \<Rightarrow> ustr \<Rightarrow> ustr list" where
  "validate_name name parent_dir_name =
     (if name \<noteq> parent_dir_name
      then [lit ''name '' @ quoted name @ lit '' does not match parent directory '' @ quoted parent_dir_name] else []) @
     (if length name > MAX_NAME_LENGTH
      then [lit ''name exceeds '' @ show_nat MAX_NAME_LENGTH @ lit '' characters ('' @ show_nat (length name) @ lit '')''] else []) @
     (if \<not> list_all is_name_char name
      then [lit ''name contains invalid characters (must be lowercase a-z, 0-9, hyphens only)''] else []) @
     (if starts_with name [45] \<or> ends_with name [45] then [lit ''name must not start or end with a hyphen''] else []) @
     (if find_str [45, 45] name \<noteq> None then [lit ''name must not contain consecutive hyphens''] else [])"

definition validate_description :: "ustr \<Rightarrow> ustr list" where
  "validate_description description =
     (if trim description = [] then [lit ''description is required'']
      else if length description > MAX_DESCRIPTION_LENGTH
      then [lit ''description exceeds '' @ show_nat MAX_DESCRIPTION_LENGTH @ lit '' characters ('' @
            show_nat (length description) @ lit '')''] else [])"

subsection \<open>Ignore files\<close>

definition IGNORE_FILE_NAMES :: "ustr list" where
  "IGNORE_FILE_NAMES = [lit ''.gitignore'', lit ''.ignore'', lit ''.fdignore'']"

text \<open>A line that starts with a hash does not start with a backslash, so the test for that is idle.\<close>

definition prefix_ignore_pattern :: "ustr \<Rightarrow> ustr \<Rightarrow> ustr option" where
  "prefix_ignore_pattern line prefix =
     (let trimmed = trim line
      in if trimmed = [] then None
         else if starts_with trimmed [35] \<and> \<not> starts_with trimmed [92, 35] then None
         else (let negated = starts_with line [33];
                   pattern = (case strip_prefix [33] line of
                                Some rest \<Rightarrow> rest
                              | None \<Rightarrow> (case strip_prefix [92, 33] line of Some rest \<Rightarrow> rest | None \<Rightarrow> line));
                   pattern = (case strip_prefix [47] pattern of Some rest \<Rightarrow> rest | None \<Rightarrow> pattern);
                   prefixed = prefix @ pattern
               in Some (if negated then [33] @ prefixed else prefixed)))"

definition merge_ignores :: "'g skills_env \<Rightarrow> 'g \<Rightarrow> 'g \<Rightarrow> 'g" where
  "merge_ignores env base extra = (if se_num_ignores env extra = 0 then base else extra)"

text \<open>The kind of an entry, through a symbolic link, with the diagnostics of a link that leads nowhere.\<close>

definition not_missing :: "file_error \<Rightarrow> ustr \<Rightarrow> load_skills_output \<Rightarrow> load_skills_output" where
  "not_missing err path out =
     (if fe_code err \<noteq> FNotFound then add_diagnostic FileInfoFailed (fe_message err) path out else out)"

definition resolve_kind :: "'g skills_env \<Rightarrow> file_info \<Rightarrow> load_skills_output \<Rightarrow> file_kind option \<times> load_skills_output" where
  "resolve_kind env info out =
     (if fi_kind info \<in> {FFile, FDirectory} then (Some (fi_kind info), out)
      else case se_canonical_path env (fi_path info) of
             Inl err \<Rightarrow> (None, not_missing err (fi_path info) out)
           | Inr canonical \<Rightarrow>
               (case se_file_info env canonical of
                  Inr t \<Rightarrow> (if fi_kind t \<in> {FFile, FDirectory} then Some (fi_kind t) else None, out)
                | Inl err \<Rightarrow> (None, not_missing err (fi_path info) out)))"

text \<open>One ignore file of a directory.\<close>

definition add_ignore_file ::
  "'g skills_env \<Rightarrow> ustr \<Rightarrow> ustr \<Rightarrow> ustr \<Rightarrow> ustr \<Rightarrow> 'g \<times> load_skills_output \<Rightarrow> 'g \<times> load_skills_output" where
  "add_ignore_file env root prefix dir filename s =
     (case s of (ignore, out) \<Rightarrow>
        let path = join_env_path dir filename
        in case se_file_info env path of
             Inl err \<Rightarrow> (ignore, not_missing err path out)
           | Inr info \<Rightarrow>
               if fi_kind info \<noteq> FFile then (ignore, out)
               else case se_read_text_file env path of
                      Inl err \<Rightarrow> (ignore, add_diagnostic ReadFailed (fe_message err) path out)
                    | Inr content \<Rightarrow>
                        (case se_build env root
                                (List.map_filter (\<lambda>l. prefix_ignore_pattern l prefix) (text_lines [] content)) of
                           Some extra \<Rightarrow> (merge_ignores env ignore extra, out)
                         | None \<Rightarrow> (ignore, out)))"

definition add_ignore_rules ::
  "'g skills_env \<Rightarrow> ustr \<Rightarrow> ustr \<Rightarrow> 'g \<times> load_skills_output \<Rightarrow> 'g \<times> load_skills_output" where
  "add_ignore_rules env root dir s =
     (let rel = relative_env_path root dir; prefix = (if rel = [] then [] else rel @ [47])
      in fold (add_ignore_file env root prefix dir) IGNORE_FILE_NAMES s)"

definition is_ignored :: "'g skills_env \<Rightarrow> 'g \<Rightarrow> ustr \<Rightarrow> bool \<Rightarrow> bool" where
  "is_ignored env ignore rel is_dir \<longleftrightarrow>
     rel \<noteq> [] \<and> se_is_ignore env ignore (if is_dir then rel @ [47] else rel) is_dir"

subsection \<open>The walk\<close>

text \<open>What a file's front matter makes of it; a name that is invalid is only reported.\<close>

definition skill_of ::
  "ustr \<Rightarrow> skill_frontmatter \<Rightarrow> ustr \<Rightarrow> load_skills_output \<Rightarrow> load_skills_output" where
  "skill_of file_path frontmatter body out =
     (let parent_dir_name = basename_env_path (dirname_env_path file_path);
          description = (case sf_description frontmatter of Some d \<Rightarrow> d | None \<Rightarrow> []);
          name = (case sf_name frontmatter of Some n \<Rightarrow> n | None \<Rightarrow> parent_dir_name);
          out1 = fold (\<lambda>err. add_diagnostic InvalidMetadata err file_path)
                   (validate_name name parent_dir_name @ validate_description description) out
      in if trim description = [] then out1
         else out1\<lparr>lo_skills := lo_skills out1 @
                [\<lparr>sk_name = name, sk_description = description, sk_file_path = file_path, sk_content = body,
                  sk_disable_model_invocation = sf_disable_model_invocation frontmatter, sk_source = SrcUser\<rparr>]\<rparr>)"

definition load_skill_from_file :: "'g skills_env \<Rightarrow> ustr \<Rightarrow> load_skills_output \<Rightarrow> load_skills_output option" where
  "load_skill_from_file env file_path out =
     (case se_read_text_file env file_path of
        Inl err \<Rightarrow> Some (add_diagnostic ReadFailed (fe_message err) file_path out)
      | Inr raw \<Rightarrow>
          (case parse_frontmatter (se_yaml env) raw of
             None \<Rightarrow> None
           | Some (Inl msg) \<Rightarrow> Some (add_diagnostic ParseFailed msg file_path out)
           | Some (Inr (frontmatter, body)) \<Rightarrow> Some (skill_of file_path frontmatter body out)))"

text \<open>The first pass over a directory: \<open>Some\<close> path of its skill file, when it has one.\<close>

fun find_skill_file ::
  "'g skills_env \<Rightarrow> ustr \<Rightarrow> 'g \<Rightarrow> file_info list \<Rightarrow> load_skills_output \<Rightarrow> ustr option \<times> load_skills_output" where
  "find_skill_file env root ignore [] out = (None, out)"
| "find_skill_file env root ignore (entry # entries) out =
     (if fi_name entry \<noteq> lit ''SKILL.md'' then find_skill_file env root ignore entries out
      else let (kind, out1) = resolve_kind env entry out
           in if kind \<noteq> Some FFile then find_skill_file env root ignore entries out1
              else if is_ignored env ignore (relative_env_path root (fi_path entry)) False
              then find_skill_file env root ignore entries out1
              else (Some (fi_path entry), out1))"

text \<open>The second pass: directories go on the stack, markdown files of the root are loaded.\<close>

fun walk_entries ::
  "'g skills_env \<Rightarrow> ustr \<Rightarrow> 'g \<Rightarrow> bool \<Rightarrow> file_info list \<Rightarrow> (ustr \<times> bool) list \<times> load_skills_output \<Rightarrow>
   ((ustr \<times> bool) list \<times> load_skills_output) option" where
  "walk_entries env root ignore include_root_files [] s = Some s"
| "walk_entries env root ignore include_root_files (entry # entries) (stack, out) =
     (if starts_with (fi_name entry) [46] \<or> fi_name entry = lit ''node_modules''
      then walk_entries env root ignore include_root_files entries (stack, out)
      else case resolve_kind env entry out of
             (None, out1) \<Rightarrow> walk_entries env root ignore include_root_files entries (stack, out1)
           | (Some kind, out1) \<Rightarrow>
               (let rel = relative_env_path root (fi_path entry); is_dir = (kind = FDirectory)
                in if is_ignored env ignore rel is_dir
                   then walk_entries env root ignore include_root_files entries (stack, out1)
                   else if is_dir
                   then walk_entries env root ignore include_root_files entries ((fi_path entry, False) # stack, out1)
                   else if \<not> include_root_files \<or> \<not> ends_with (fi_name entry) (lit ''.md'')
                   then walk_entries env root ignore include_root_files entries (stack, out1)
                   else case load_skill_from_file env (fi_path entry) out1 of
                          None \<Rightarrow> None
                        | Some out2 \<Rightarrow> walk_entries env root ignore include_root_files entries (stack, out2)))"

text \<open>The stack has its top first. The matcher is the walker's, one for the whole walk.\<close>

definition walk_one ::
  "'g skills_env \<Rightarrow> ustr \<Rightarrow> ustr \<Rightarrow> bool \<Rightarrow> (ustr \<times> bool) list \<Rightarrow> 'g \<times> load_skills_output \<Rightarrow>
   ((ustr \<times> bool) list \<times> 'g \<times> load_skills_output) option" where
  "walk_one env root dir include_root_files stack s =
     (case add_ignore_rules env root dir s of (ignore, out) \<Rightarrow>
        case se_list_dir env dir of
          Inl err \<Rightarrow> Some (stack, ignore, add_diagnostic ListFailed (fe_message err) dir out)
        | Inr entries \<Rightarrow>
            (case find_skill_file env root ignore entries out of
               (Some path, out1) \<Rightarrow> map_option (\<lambda>out2. (stack, ignore, out2)) (load_skill_from_file env path out1)
             | (None, out1) \<Rightarrow>
                 map_option (\<lambda>(stack1, out2). (stack1, ignore, out2))
                   (walk_entries env root ignore include_root_files (sort_key fi_name entries) (stack, out1))))"

text \<open>The loop: \<open>None\<close> is a walk that never ends, \<open>Some None\<close> one that panics.\<close>

partial_function (option) walk ::
  "'g skills_env \<Rightarrow> ustr \<Rightarrow> (ustr \<times> bool) list \<Rightarrow> 'g \<times> load_skills_output \<Rightarrow> load_skills_output option option" where
  "walk env root stack s =
     (case stack of
        [] \<Rightarrow> Some (Some (snd s))
      | (dir, include_root_files) # rest \<Rightarrow>
          (case walk_one env root dir include_root_files rest s of
             None \<Rightarrow> Some None
           | Some (stack1, ignore, out) \<Rightarrow> walk env root stack1 (ignore, out)))"

definition load_dir :: "'g skills_env \<Rightarrow> ustr \<Rightarrow> load_skills_output \<Rightarrow> load_skills_output option option" where
  "load_dir env dir out =
     (case se_file_info env dir of
        Inl err \<Rightarrow> Some (Some (not_missing err dir out))
      | Inr info \<Rightarrow>
          (case resolve_kind env info out of (kind, out1) \<Rightarrow>
             if kind \<noteq> Some FDirectory then Some (Some out1)
             else (let ignore = (case se_build env (fi_path info) [] of Some g \<Rightarrow> g | None \<Rightarrow> se_empty env)
                   in walk env (fi_path info) [(fi_path info, True)] (ignore, out1))))"

fun load_dirs :: "'g skills_env \<Rightarrow> ustr list \<Rightarrow> load_skills_output \<Rightarrow> load_skills_output option option" where
  "load_dirs env [] out = Some (Some out)"
| "load_dirs env (dir # dirs) out =
     (case load_dir env dir out of
        None \<Rightarrow> None
      | Some None \<Rightarrow> Some None
      | Some (Some out1) \<Rightarrow> load_dirs env dirs out1)"

definition load_skills :: "'g skills_env \<Rightarrow> ustr list \<Rightarrow> load_skills_output option option" where
  "load_skills env dirs = load_dirs env dirs no_skills"

fun load_sourced_skills ::
  "'g skills_env \<Rightarrow> (ustr \<times> 'src) list \<Rightarrow> (skill \<times> 'src \<times> skill_diagnostic list) list option option" where
  "load_sourced_skills env [] = Some (Some [])"
| "load_sourced_skills env ((path, source) # inputs) =
     (case load_skills env [path] of
        None \<Rightarrow> None
      | Some None \<Rightarrow> Some None
      | Some (Some result) \<Rightarrow>
          map_option (map_option (\<lambda>rest. map (\<lambda>s. (s, source, lo_diagnostics result)) (lo_skills result) @ rest))
            (load_sourced_skills env inputs))"

subsection \<open>Rendering\<close>

definition format_skill_invocation :: "skill \<Rightarrow> ustr option \<Rightarrow> ustr" where
  "format_skill_invocation s additional_instructions =
     lit ''<skill name='' @ quoted (sk_name s) @ lit '' location='' @ quoted (sk_file_path s) @ lit ''>'' @ [10] @
     lit ''References are relative to '' @ dirname_env_path (sk_file_path s) @ lit ''.'' @ [10, 10] @ sk_content s @
     [10] @ lit ''</skill>'' @
     (case additional_instructions of Some extra \<Rightarrow> [10, 10] @ extra | None \<Rightarrow> [])"

definition SKILL_BLOCK_PREAMBLE :: "ustr list" where
  "SKILL_BLOCK_PREAMBLE =
     [lit ''The user has provided skills they want you to use whenever the user request can be solved with their help.'',
      lit ''Below is a list of skills with their unique names and descriptions of what they do.'',
      lit ''Use the `Skill` tool to invoke a skill by name when applicable.'',
      lit ''When a skill file references a relative path, resolve it against the skill directory (parent of SKILL.md / dirname of the path) and use that absolute path in tool commands.'']"

definition format_skills_for_system_prompt :: "skill list \<Rightarrow> ustr" where
  "format_skills_for_system_prompt skills =
     (if skills = [] then []
      else lit ''<skills>'' @ [10] @ concat (map (\<lambda>line. line @ [10]) SKILL_BLOCK_PREAMBLE) @ [10] @
           concat (map (\<lambda>s. lit ''- name: '' @ sk_name s @ [10] @ lit ''  description: '' @ sk_description s @ [10]) skills) @
           lit ''</skills>'')"

text \<open>The system prompt of a harness (\<^verbatim>\<open>assembly/catalog.rs\<close>).\<close>

definition build_system_prompt :: "ustr \<Rightarrow> skill list \<Rightarrow> ustr" where
  "build_system_prompt base skills =
     (let skills_block = format_skills_for_system_prompt skills
      in if base = [] then skills_block
         else if skills_block = [] then base
         else base @ [10, 10] @ skills_block)"

end
