(* ===== verification/Skill_Properties.thy ===== *)
theory Skill_Properties
  imports Skills
begin

text \<open>
  What loading skills guarantees: it ends on every file system without cycles, every skill it returns is
  described and valid or reported, and where it panics or loses what it was told.
\<close>

subsection \<open>What is loaded\<close>

text \<open>A skill is described, and its metadata are valid or reported.\<close>

definition metadata_valid :: "skill \<Rightarrow> bool" where
  "metadata_valid s \<longleftrightarrow>
     validate_name (sk_name s) (basename_env_path (dirname_env_path (sk_file_path s))) = [] \<and>
     validate_description (sk_description s) = []"

definition reported :: "load_skills_output \<Rightarrow> ustr \<Rightarrow> bool" where
  "reported out path \<longleftrightarrow> (\<exists>d\<in>set (lo_diagnostics out). sd_code d = InvalidMetadata \<and> sd_path d = path)"

text \<open>The file a skill comes from could be read and parsed, and gave the skill its fields.\<close>

definition read_from :: "'g skills_env \<Rightarrow> skill \<Rightarrow> bool" where
  "read_from env s \<longleftrightarrow>
     (\<exists>raw fm. se_read_text_file env (sk_file_path s) = Inr raw \<and>
        parse_frontmatter (se_yaml env) raw = Some (Inr (fm, sk_content s)) \<and>
        sf_description fm = Some (sk_description s) \<and>
        sk_name s = (case sf_name fm of Some n \<Rightarrow> n | None \<Rightarrow> basename_env_path (dirname_env_path (sk_file_path s))) \<and>
        sk_disable_model_invocation s = sf_disable_model_invocation fm)"

definition described :: "'g skills_env \<Rightarrow> load_skills_output \<Rightarrow> bool" where
  "described env out \<longleftrightarrow>
     (\<forall>s\<in>set (lo_skills out). read_from env s \<and> trim (sk_description s) \<noteq> [] \<and>
        (metadata_valid s \<or> reported out (sk_file_path s)))"

text \<open>More diagnostics keep what was loaded.\<close>

lemma described_more [simp]: "described env out \<Longrightarrow> described env (add_diagnostic c m p out)"
  by (auto simp: described_def reported_def add_diagnostic_def)

lemma described_none [simp]: "described env no_skills"
  by (simp add: described_def no_skills_def)

lemma described_not_missing [simp]: "described env out \<Longrightarrow> described env (not_missing err path out)"
  by (simp add: not_missing_def)

lemma described_resolve: "resolve_kind env info out = (k, out') \<Longrightarrow> described env out \<Longrightarrow> described env out'"
  by (auto simp: resolve_kind_def split: if_splits sum.splits)

lemma fold_diagnostics:
  "lo_skills (fold (\<lambda>err. add_diagnostic c err p) errs out) = lo_skills out \<and>
   (errs \<noteq> [] \<longrightarrow> c = InvalidMetadata \<longrightarrow> reported (fold (\<lambda>err. add_diagnostic c err p) errs out) p)"
  by (induction errs rule: rev_induct) (auto simp: add_diagnostic_def reported_def)

lemma described_fold: "described env out \<Longrightarrow> described env (fold (\<lambda>err. add_diagnostic c err p) errs out)"
  by (induction errs arbitrary: out) auto

lemma described_skill_of:
  assumes "se_read_text_file env p = Inr raw" "parse_frontmatter (se_yaml env) raw = Some (Inr (fm, body))"
  shows "described env out \<Longrightarrow> described env (skill_of p fm body out)"
proof -
  assume d: "described env out"
  let ?parent = "basename_env_path (dirname_env_path p)"
  let ?name = "case sf_name fm of Some n \<Rightarrow> n | None \<Rightarrow> ?parent"
  let ?desc = "case sf_description fm of Some n \<Rightarrow> n | None \<Rightarrow> []"
  let ?errs = "validate_name ?name ?parent @ validate_description ?desc"
  let ?out = "fold (\<lambda>err. add_diagnostic InvalidMetadata err p) ?errs out"
  have "described env ?out" by (rule described_fold [OF d])
  moreover have "?errs = [] \<or> reported ?out p"
    using fold_diagnostics [where c = InvalidMetadata and errs = ?errs] by blast
  moreover have "read_from env \<lparr>sk_name = ?name, sk_description = ?desc, sk_file_path = p, sk_content = body,
      sk_disable_model_invocation = sf_disable_model_invocation fm, sk_source = SrcUser\<rparr>" if "trim ?desc \<noteq> []"
    using assms that by (cases "sf_description fm") (auto simp: read_from_def trim_def split: option.split)
  ultimately show ?thesis
    by (auto simp: skill_of_def Let_def described_def metadata_valid_def reported_def)
qed

lemma described_load_file: "load_skill_from_file env p out = Some out' \<Longrightarrow> described env out \<Longrightarrow> described env out'"
  by (auto simp: load_skill_from_file_def split: sum.splits option.splits prod.splits intro: described_skill_of)

text \<open>One entry of a directory: at most its own path goes on the stack.\<close>

lemma walk_entries_step:
  assumes "walk_entries env root ignore b (e # es) (stack, out) = Some r"
  shows "\<exists>stack1 out1. walk_entries env root ignore b es (stack1, out1) = Some r \<and>
           (\<exists>top. stack1 = top @ stack \<and> fst ` set top \<subseteq> {fi_path e}) \<and> (described env out \<longrightarrow> described env out1)"
proof -
  let ?P = "\<lambda>stack1 out1. walk_entries env root ignore b es (stack1, out1) = Some r \<and>
           (\<exists>top. stack1 = top @ stack \<and> fst ` set top \<subseteq> {fi_path e}) \<and> (described env out \<longrightarrow> described env out1)"
  obtain k out1 where k: "resolve_kind env e out = (k, out1)" by force
  have stay: "walk_entries env root ignore b es (stack, o1) = Some r \<Longrightarrow> described env out \<longrightarrow> described env o1 \<Longrightarrow> ?P stack o1" for o1
    by simp
  have push: "walk_entries env root ignore b es ((fi_path e, False) # stack, out1) = Some r \<Longrightarrow>
      ?P ((fi_path e, False) # stack) out1"
    using described_resolve [OF k] by (auto intro: exI [of _ "[(fi_path e, False)]"])
  from assms consider
      "walk_entries env root ignore b es (stack, out) = Some r"
    | "walk_entries env root ignore b es (stack, out1) = Some r"
    | "walk_entries env root ignore b es ((fi_path e, False) # stack, out1) = Some r"
    | out2 where "load_skill_from_file env (fi_path e) out1 = Some out2" "walk_entries env root ignore b es (stack, out2) = Some r"
    unfolding walk_entries.simps k by (simp add: Let_def split: if_splits option.splits)
  then show ?thesis
  proof cases
    case 1
    then show ?thesis using stay by blast
  next
    case 2
    then show ?thesis using stay described_resolve [OF k] by blast
  next
    case 3
    from push [OF this] show ?thesis by blast
  next
    case 4
    then show ?thesis using stay [OF 4(2)] described_resolve [OF k] described_load_file [OF 4(1)] by blast
  qed
qed

subsection \<open>The load ends\<close>

lemma walk_entries_stack:
  "walk_entries env root ignore b entries (stack, out) = Some (stack', out') \<Longrightarrow>
   \<exists>new. stack' = new @ stack \<and> fst ` set new \<subseteq> fi_path ` set entries"
proof (induction entries arbitrary: stack out)
  case (Cons e es)
  from walk_entries_step [OF Cons.prems] obtain stack1 out1 where
    w: "walk_entries env root ignore b es (stack1, out1) = Some (stack', out')"
    and "\<exists>top. stack1 = top @ stack \<and> fst ` set top \<subseteq> {fi_path e}" by blast
  then obtain top where top: "stack1 = top @ stack" "fst ` set top \<subseteq> {fi_path e}" by blast
  from Cons.IH [OF w] obtain new where "stack' = new @ stack1" "fst ` set new \<subseteq> fi_path ` set es" by blast
  with top have "stack' = (new @ top) @ stack" "fst ` set (new @ top) \<subseteq> fi_path ` set (e # es)" by auto
  then show ?case by blast
qed simp

lemma walk_one_stack:
  assumes "walk_one env root dir b stack s = Some (stack', s')"
  obtains new where "stack' = new @ stack"
    and "\<forall>d\<in>set new. \<exists>entries e. se_list_dir env dir = Inr entries \<and> e \<in> set entries \<and> fst d = fi_path e"
proof -
  obtain g out where r: "add_ignore_rules env root dir s = (g, out)" by force
  show thesis
  proof (cases "se_list_dir env dir")
    case (Inl err)
    with assms r have "stack' = [] @ stack" by (simp add: walk_one_def)
    then show thesis by (rule that) simp
  next
    case (Inr entries)
    obtain p out1 where f: "find_skill_file env root g entries out = (p, out1)" by force
    show thesis
    proof (cases p)
      case (Some path)
      with assms r Inr f have "stack' = [] @ stack" by (auto simp: walk_one_def)
      then show thesis by (rule that) simp
    next
      case None
      with assms r Inr f obtain out2 where
        "walk_entries env root g b (sort_key fi_name entries) (stack, out1) = Some (stack', out2)"
        by (auto simp: walk_one_def)
      from walk_entries_stack [OF this] obtain new where "stack' = new @ stack" "fst ` set new \<subseteq> fi_path ` set entries"
        by auto
      with Inr show thesis by (intro that [of new]) auto
    qed
  qed
qed

text \<open>A directory of rank \<open>n\<close> only pushes directories of a smaller rank.\<close>

lemma walk_ends:
  assumes rank: "\<And>dir entries e. se_list_dir env dir = Inr entries \<Longrightarrow> e \<in> set entries \<Longrightarrow> rank (fi_path e) < (rank dir :: nat)"
    and "\<forall>d\<in>set new. rank (fst d) < n" and "\<And>s. walk env root rest s \<noteq> None"
  shows "walk env root (new @ rest) s \<noteq> None"
  using assms(2,3)
proof (induction n arbitrary: new rest s)
  case 0
  then have "new = []" by (cases new) auto
  with 0 show ?case by simp
next
  case (Suc n)
  show ?case using Suc.prems
  proof (induction new arbitrary: s)
    case (Cons d new)
    obtain dir b where d: "d = (dir, b)" by force
    show ?case
    proof (cases "walk_one env root dir b (new @ rest) s")
      case None
      then show ?thesis by (simp add: d walk.simps)
    next
      case (Some r)
      obtain stack ignore out where r: "r = (stack, ignore, out)" by (cases r)
      from walk_one_stack [OF Some [unfolded r]] obtain sub where sub: "stack = sub @ new @ rest"
        and "\<forall>x\<in>set sub. \<exists>entries e. se_list_dir env dir = Inr entries \<and> e \<in> set entries \<and> fst x = fi_path e" by blast
      with rank have "\<forall>x\<in>set sub. rank (fst x) < rank dir" by metis
      with Cons.prems(1) d have "\<forall>x\<in>set sub. rank (fst x) < n" by fastforce
      moreover have "walk env root (new @ rest) s' \<noteq> None" for s'
        using Cons.IH Cons.prems by simp
      ultimately have "walk env root (sub @ new @ rest) (ignore, out) \<noteq> None" by (rule Suc.IH)
      then show ?thesis by (simp add: d Some r sub walk.simps)
    qed
  qed simp
qed

text \<open>
  C37. Loading skills ends, or panics, on every file system whose directories lead to no cycle, symbolic links
  followed, whatever its size and shape.
\<close>
theorem skill_load_ends:
  fixes rank :: "ustr \<Rightarrow> nat"
  assumes "\<And>dir entries e. se_list_dir env dir = Inr entries \<Longrightarrow> e \<in> set entries \<Longrightarrow> rank (fi_path e) < rank dir"
  shows "load_skills env dirs \<noteq> None"
proof -
  have "walk env root [] s \<noteq> None" for root s by (simp add: walk.simps)
  then have "walk env root ([(d, True)] @ []) s \<noteq> None" for root d s
    using walk_ends [of env rank "[(d, True)]" "Suc (rank d)" root "[]" s] assms by simp
  then have "load_dir env dir out \<noteq> None" for dir out
    by (auto simp: load_dir_def Let_def split: sum.split prod.split)
  then have "load_dirs env dirs out \<noteq> None" for out
    by (induction dirs arbitrary: out) (auto split: option.split)
  then show ?thesis by (simp add: load_skills_def)
qed

subsection \<open>The invariant of the walk\<close>

lemma described_find:
  "find_skill_file env root ignore es out = (r, out') \<Longrightarrow> described env out \<Longrightarrow> described env out'"
  by (induction es arbitrary: out) (auto split: if_splits prod.splits dest!: described_resolve)

lemma described_entries:
  "walk_entries env root ignore b es (st, out) = Some (st', out') \<Longrightarrow> described env out \<Longrightarrow> described env out'"
proof (induction es arbitrary: st out)
  case (Cons e es)
  from walk_entries_step [OF Cons.prems(1)] Cons.prems(2) Cons.IH show ?case by blast
qed simp

lemma described_rules: "add_ignore_rules env root dir s = (g', out') \<Longrightarrow> described env (snd s) \<Longrightarrow> described env out'"
proof -
  have step: "described env (snd (add_ignore_file env root p dir f s))" if "described env (snd s)" for p f s
    using that by (cases s) (auto simp: add_ignore_file_def Let_def split: sum.split option.split)
  have "described env (snd (fold (add_ignore_file env root p dir) fs s))" if "described env (snd s)" for p fs s
    using that by (induction fs arbitrary: s) (simp_all add: step)
  then show "add_ignore_rules env root dir s = (g', out') \<Longrightarrow> described env (snd s) \<Longrightarrow> described env out'"
    unfolding add_ignore_rules_def Let_def by (metis snd_conv)
qed

lemma described_walk_one:
  assumes "walk_one env root dir b st s = Some (st', g', out')" and "described env (snd s)"
  shows "described env out'"
proof -
  obtain g1 out1 where r: "add_ignore_rules env root dir s = (g1, out1)" by force
  note d = described_rules [OF r assms(2)]
  show ?thesis
  proof (cases "se_list_dir env dir")
    case (Inl err)
    with assms(1) r d show ?thesis by (auto simp: walk_one_def)
  next
    case (Inr entries)
    obtain p out2 where f: "find_skill_file env root g1 entries out1 = (p, out2)" by force
    from described_find [OF f d] have "described env out2" .
    with assms(1) r Inr f show ?thesis
      by (auto simp: walk_one_def split: option.splits dest: described_load_file described_entries)
  qed
qed

lemma described_walk:
  assumes "walk env root st s = Some (Some out')" and "described env (snd s)"
  shows "described env out'"
proof -
  have "described env (snd s) \<longrightarrow> y = Some out' \<longrightarrow> described env out'" if "walk env root st s = Some y" for y
  proof (rule walk.raw_induct [OF _ that, where P = "\<lambda>env root st s y. described env (snd s) \<longrightarrow> y = Some out' \<longrightarrow> described env out'"])
    fix walk and env :: "'a skills_env" and root st s y
    assume ih: "\<And>env root st s y. walk env root st s = Some y \<Longrightarrow> described env (snd s) \<longrightarrow> y = Some out' \<longrightarrow> described env out'"
      and "(case st of [] \<Rightarrow> Some (Some (snd s))
            | (dir, b) # rest \<Rightarrow>
                (case walk_one env root dir b rest s of
                   None \<Rightarrow> Some None | Some (stack1, ignore, out) \<Rightarrow> walk env root stack1 (ignore, out))) = Some y"
    then show "described env (snd s) \<longrightarrow> y = Some out' \<longrightarrow> described env out'"
      by (cases st; cases "walk_one env root (fst (hd st)) (snd (hd st)) (tl st) s")
        (auto split: prod.splits dest!: ih dest: described_walk_one)
  qed
  with assms show ?thesis by blast
qed

text \<open>
  C38. Every skill a load returns comes from a file that could be read and parsed and gave it its content, name
  and description; the description is not blank; and name and description obey the rules unless a diagnostic
  at its path says that they do not.
\<close>
theorem loaded_skills_described:
  assumes "load_skills env dirs = Some (Some out)" and "s \<in> set (lo_skills out)"
  shows "read_from env s \<and> trim (sk_description s) \<noteq> [] \<and> (metadata_valid s \<or> reported out (sk_file_path s))"
proof -
  have dir: "described env o1" if "load_dir env d o0 = Some (Some o1)" "described env o0" for d o0 o1
  proof (cases "se_file_info env d")
    case (Inr info)
    obtain k o2 where k: "resolve_kind env info o0 = (k, o2)" by force
    with that(2) have "described env o2" by (blast intro: described_resolve)
    with that(1) Inr k show ?thesis by (auto simp: load_dir_def Let_def split: if_splits dest: described_walk)
  qed (use that in \<open>auto simp: load_dir_def\<close>)
  have "load_dirs env ds o0 = Some (Some o1) \<Longrightarrow> described env o0 \<Longrightarrow> described env o1" for ds o0 o1
    by (induction ds arbitrary: o0) (auto split: option.splits intro: dir)
  with assms(1) have "described env out" by (auto simp: load_skills_def)
  with assms(2) show ?thesis by (simp add: described_def)
qed

subsection \<open>Panics and losses\<close>

lemma replace_newlines_prefix: "c \<noteq> 13 \<Longrightarrow> replace_all [13, 10] v (c # cs) = c # replace_all [13, 10] v cs"
  by simp

text \<open>
  A skill file that opens with an empty front matter block panics the loader, whatever follows.
\<close>
theorem empty_frontmatter_panics:
  assumes "se_read_text_file env path = Inr (lit ''---'' @ [10] @ lit ''---'' @ rest)"
  shows "load_skill_from_file env path out = None"
proof -
  define r where "r = map (\<lambda>c. if c = 13 then 10 else c) (replace_all [13, 10] [10] rest)"
  have "normalize_newlines (lit ''---'' @ [10] @ lit ''---'' @ rest) = [45, 45, 45, 10, 45, 45, 45] @ r"
    by (simp add: normalize_newlines_def lit_def r_def)
  then have "parse_frontmatter (se_yaml env) (lit ''---'' @ [10] @ lit ''---'' @ rest) = None"
    by (simp add: parse_frontmatter_def lit_def starts_with_def)
  with assms show ?thesis by (simp add: load_skill_from_file_def)
qed

text \<open>
  What was diagnosed in a directory that yields no skill is lost: the sourced load reports nothing for it.
\<close>
theorem sourced_diagnostics_lost:
  assumes "load_skills env [path] = Some (Some result)" and "lo_skills result = []"
  shows "load_sourced_skills env ((path, source) # inputs) = load_sourced_skills env inputs"
  using assms by (simp add: option.map_id0 id_def [symmetric] append_Nil [abs_def])

subsection \<open>A small disk\<close>

text \<open>
  A disk is its files and its directories; an ignore rule is the path it ignores, and the front matter is
  the description.
\<close>

definition disk :: "(ustr \<times> ustr) list \<Rightarrow> (ustr \<times> file_info list) list \<Rightarrow> ustr list skills_env" where
  "disk files dirs =
     (let missing = \<lparr>fe_code = FNotFound, fe_message = []\<rparr>
      in \<lparr>se_file_info = (\<lambda>p. case map_of dirs p of
              Some _ \<Rightarrow> Inr \<lparr>fi_name = after_slash p, fi_path = p, fi_kind = FDirectory\<rparr>
            | None \<Rightarrow> (case map_of files p of
                Some _ \<Rightarrow> Inr \<lparr>fi_name = after_slash p, fi_path = p, fi_kind = FFile\<rparr> | None \<Rightarrow> Inl missing)),
          se_list_dir = (\<lambda>p. case map_of dirs p of Some es \<Rightarrow> Inr es | None \<Rightarrow> Inl missing),
          se_read_text_file = (\<lambda>p. case map_of files p of Some t \<Rightarrow> Inr t | None \<Rightarrow> Inl missing),
          se_canonical_path = (\<lambda>p. Inl missing), se_empty = [], se_build = (\<lambda>_ ls. Some ls), se_num_ignores = length,
          se_is_ignore = (\<lambda>g rel is_dir. (if is_dir then butlast rel else rel) \<in> set g),
          se_yaml = (\<lambda>t. Inr (default_frontmatter\<lparr>sf_description := Some t\<rparr>))\<rparr>)"

definition entry_at :: "ustr \<Rightarrow> file_kind \<Rightarrow> file_info" where
  "entry_at p k = \<lparr>fi_name = after_slash p, fi_path = p, fi_kind = k\<rparr>"

text \<open>A root that ignores the directory \<open>a/d\<close>, beside a directory \<open>b\<close> which may have a rule of its own.\<close>

definition drafts :: "bool \<Rightarrow> ustr list skills_env" where
  "drafts b_has_rules =
     disk ([(lit ''/r/.gitignore'', lit ''a/d''), (lit ''/r/a/d/SKILL.md'', lit ''---'' @ [10] @ lit ''x'' @ [10] @ lit ''---'')] @
           (if b_has_rules then [(lit ''/r/b/.gitignore'', lit ''t'')] else []))
       [(lit ''/r'', [entry_at (lit ''/r/a'') FDirectory, entry_at (lit ''/r/b'') FDirectory]),
        (lit ''/r/a'', [entry_at (lit ''/r/a/d'') FDirectory]), (lit ''/r/b'', []),
        (lit ''/r/a/d'', [entry_at (lit ''/r/a/d/SKILL.md'') FFile])]"

lemmas skill_eval =
  load_skills_def load_dir_def walk.simps walk_one_def add_ignore_rules_def add_ignore_file_def IGNORE_FILE_NAMES_def
  resolve_kind_def relative_env_path_def trim_end_slash_def trim_start_slash_def normalize_sep_def join_env_path_def
  not_missing_def add_diagnostic_def no_skills_def prefix_ignore_pattern_def merge_ignores_def is_ignored_def
  load_skill_from_file_def parse_frontmatter_def normalize_newlines_def skill_of_def validate_name_def
  validate_description_def basename_env_path_def dirname_env_path_def upto_slash_def after_slash_def
  default_frontmatter_def disk_def entry_at_def starts_with_def ends_with_def trim_def is_whitespace_def strip_cr_def
  map_filter_def MAX_NAME_LENGTH_def MAX_DESCRIPTION_LENGTH_def is_name_char_def Let_def lit_def sort_key_def

lemma sibling_files:
  "\<exists>out. load_skills (drafts True) [lit ''/r''] = Some (Some out) \<and> map sk_file_path (lo_skills out) = [lit ''/r/a/d/SKILL.md'']"
  by (simp add: skill_eval drafts_def)

text \<open>
  The ignore rules of one directory replace those of the directories around it, for the rest of the walk:
  a draft the root ignores is loaded as soon as an unrelated sibling has a rule of its own.
\<close>
theorem sibling_rules_replace_outer:
  "\<exists>out out'. load_skills (drafts False) [lit ''/r''] = Some (Some out) \<and> lo_skills out = [] \<and>
     load_skills (drafts True) [lit ''/r''] = Some (Some out') \<and>
     map sk_file_path (lo_skills out') = [lit ''/r/a/d/SKILL.md'']"
proof -
  have "\<exists>out. load_skills (drafts False) [lit ''/r''] = Some (Some out) \<and> lo_skills out = []"
    by (simp add: skill_eval drafts_def)
  moreover note sibling_files
  ultimately show ?thesis by (elim exE conjE) (intro exI conjI)
qed

subsection \<open>Witnesses\<close>

theorem skill_load_ends_witness: "load_skills (drafts True) [lit ''/r''] \<noteq> None"
proof (rule skill_load_ends [where rank = "\<lambda>p. 10 - length p"])
  fix dir entries e
  assume "se_list_dir (drafts True) dir = Inr entries" "e \<in> set entries"
  then show "10 - length (fi_path e) < 10 - length dir"
    by (auto simp: drafts_def disk_def entry_at_def Let_def lit_def split: option.splits if_splits)
qed

theorem loaded_skills_described_witness:
  "\<exists>out s. load_skills (drafts True) [lit ''/r''] = Some (Some out) \<and> s \<in> set (lo_skills out) \<and>
     read_from (drafts True) s \<and> trim (sk_description s) \<noteq> [] \<and> (metadata_valid s \<or> reported out (sk_file_path s))"
proof -
  obtain out where out: "load_skills (drafts True) [lit ''/r''] = Some (Some out)" "lo_skills out \<noteq> []"
    using sibling_files by (metis list.map_disc_iff not_Cons_self2)
  then obtain s where "s \<in> set (lo_skills out)" by (cases "lo_skills out") auto
  with out loaded_skills_described show ?thesis by blast
qed

theorem empty_frontmatter_panics_witness:
  "load_skill_from_file (disk [(lit ''/s'', lit ''---'' @ [10] @ lit ''---'' @ lit ''b'')] []) (lit ''/s'') no_skills = None"
  by (rule empty_frontmatter_panics) (simp add: disk_def Let_def)

theorem sourced_diagnostics_lost_witness:
  "load_sourced_skills (disk [] [(lit ''/r'', [entry_at (lit ''/r/t.md'') FFile])]) [(lit ''/r'', ())] =
   load_sourced_skills (disk [] [(lit ''/r'', [entry_at (lit ''/r/t.md'') FFile])]) []"
  by (rule sourced_diagnostics_lost, simp add: skill_eval, simp)

end
