(* ===== verification/Harness_Session.thy ===== *)
theory Harness_Session
  imports Agent_Types Session
begin

text \<open>
  What a harness records of a run: the totals of \<^verbatim>\<open>crates/theway-core/src/agent/cost.rs\<close> and the
  listener that persists the transcript (\<open>make_session_listener\<close> of
  \<^verbatim>\<open>crates/theway-core/src/agent/assembly/session.rs\<close>). Both hear of every event of the loop; together
  their state is the \<open>journal\<close>.
\<close>

subsection \<open>Totals\<close>

record cost_snapshot =
  cs_tokens :: usage
  cs_turn_count :: nat

definition zero_usage :: usage where
  "zero_usage =
     \<lparr>u_input = 0, u_output = 0, u_cache_read = 0, u_cache_write = 0, u_total_tokens = 0,
      u_prefix_hit_tokens = None, u_prefix_cache_hit_rate = None, u_provider_cache_hit_rate = None,
      u_cost = \<lparr>uc_input = 0, uc_output = 0, uc_cache_read = 0, uc_cache_write = 0, uc_total = 0\<rparr>\<rparr>"

definition cost_reset :: cost_snapshot where
  "cost_reset = \<lparr>cs_tokens = zero_usage, cs_turn_count = 0\<rparr>"

definition sat_u64 :: "nat \<Rightarrow> nat \<Rightarrow> nat" where
  "sat_u64 m n = min (2 ^ 64 - 1) (m + n)"

text \<open>\<open>add\<close> is the addition of \<open>f64\<close>s.\<close>

definition cost_record :: "(f64 \<Rightarrow> f64 \<Rightarrow> f64) \<Rightarrow> usage \<Rightarrow> cost_snapshot \<Rightarrow> cost_snapshot" where
  "cost_record add u g =
     (let t = cs_tokens g; c = u_cost t; d = u_cost u
      in \<lparr>cs_tokens = t\<lparr>u_input := sat_u64 (u_input t) (u_input u), u_output := sat_u64 (u_output t) (u_output u),
              u_cache_read := sat_u64 (u_cache_read t) (u_cache_read u),
              u_cache_write := sat_u64 (u_cache_write t) (u_cache_write u),
              u_total_tokens := sat_u64 (u_total_tokens t) (u_total_tokens u),
              u_cost := \<lparr>uc_input = add (uc_input c) (uc_input d), uc_output = add (uc_output c) (uc_output d),
                 uc_cache_read = add (uc_cache_read c) (uc_cache_read d),
                 uc_cache_write = add (uc_cache_write c) (uc_cache_write d), uc_total = add (uc_total c) (uc_total d)\<rparr>\<rparr>,
          cs_turn_count = cs_turn_count g + 1\<rparr>)"

fun cost_callback :: "(f64 \<Rightarrow> f64 \<Rightarrow> f64) \<Rightarrow> loop_event \<Rightarrow> cost_snapshot \<Rightarrow> cost_snapshot" where
  "cost_callback add (MessageEnd (Llm (Assistant m))) g = cost_record add (am_usage m) g"
| "cost_callback add _ g = g"

subsection \<open>The session listener\<close>

text \<open>
  The listener of a run pushes its errors into a vector of its own. A run adds a listener and takes it
  away at its end, so the journal has one vector per subscribed listener, in the order of subscription.
  \<open>jn_reads\<close> counts the readings of the clock; \<open>now\<close> gives them as RFC 3339.
\<close>

record 's journal =
  jn_cost :: cost_snapshot
  jn_session :: 's
  jn_reads :: nat
  jn_listeners :: "session_error list list"

definition CONTROL_PLANE_PROMPT_LABEL_CAP_CHARS :: nat where
  "CONTROL_PLANE_PROMPT_LABEL_CAP_CHARS = 200"

definition cap_control_plane_audit_label :: "ustr \<Rightarrow> ustr" where
  "cap_control_plane_audit_label label =
     (if length label \<le> CONTROL_PLANE_PROMPT_LABEL_CAP_CHARS then label
      else take (CONTROL_PLANE_PROMPT_LABEL_CAP_CHARS - 1) label @ [8230])"

definition json_option :: "ustr option \<Rightarrow> json" where
  "json_option s = (case s of Some t \<Rightarrow> JStr t | None \<Rightarrow> JNull)"

definition prompt_audit :: "ustr \<Rightarrow> ustr \<Rightarrow> ustr \<Rightarrow> ustr \<Rightarrow> ustr \<Rightarrow> ustr option \<Rightarrow> ustr \<Rightarrow> json" where
  "prompt_audit tool_call_id tool_name args_hash label decision reason at =
     JObj [(lit ''schema_version'', JNum 1), (lit ''tool_call_id'', JStr tool_call_id),
           (lit ''tool_name'', JStr tool_name), (lit ''args_hash'', JStr args_hash),
           (lit ''label'', JStr (cap_control_plane_audit_label label)), (lit ''decision'', JStr decision),
           (lit ''reason'', json_option reason), (lit ''at'', JStr at)]"

text \<open>One listener: the session, the readings of the clock and its errors after an event.\<close>

definition push_error :: "'a sresult \<Rightarrow> session_error list \<Rightarrow> session_error list" where
  "push_error r errors = (case r of Inl err \<Rightarrow> errors @ [err] | Inr _ \<Rightarrow> errors)"

fun session_listener ::
  "'s storage_ops \<Rightarrow> (nat \<Rightarrow> ustr) \<Rightarrow> loop_event \<Rightarrow> session_error list \<Rightarrow> 's \<times> nat \<Rightarrow>
   session_error list \<times> 's \<times> nat" where
  "session_listener ops now (MessageEnd message) errors (s, n) =
     (let (r, s1) = append_message ops (now n) message s in (push_error r errors, s1, n + 1))"
| "session_listener ops now (ControlPlanePromptResolved i name hash label decision reason) errors (s, n) =
     (let (r, s1) = append_custom ops (now (n + 1)) (lit ''control_plane_prompt'')
            (Some (prompt_audit i name hash label decision reason (now n))) s
      in (push_error r errors, s1, n + 2))"
| "session_listener ops now _ errors (s, n) = (errors, s, n)"

text \<open>Every subscribed listener in turn.\<close>

fun notify_listeners ::
  "'s storage_ops \<Rightarrow> (nat \<Rightarrow> ustr) \<Rightarrow> loop_event \<Rightarrow> session_error list list \<Rightarrow> 's \<times> nat \<Rightarrow>
   session_error list list \<times> 's \<times> nat" where
  "notify_listeners ops now ev [] s = ([], s)"
| "notify_listeners ops now ev (errors # ls) s =
     (let (errors', s1) = session_listener ops now ev errors s; (ls', s2) = notify_listeners ops now ev ls s1
      in (errors' # ls', s2))"

text \<open>What an event does to the journal: the callback of the totals comes first.\<close>

definition store_event ::
  "'s storage_ops \<Rightarrow> (nat \<Rightarrow> ustr) \<Rightarrow> (f64 \<Rightarrow> f64 \<Rightarrow> f64) \<Rightarrow> loop_event \<Rightarrow> 's journal \<Rightarrow> 's journal" where
  "store_event ops now add ev j =
     (let (ls, s, n) = notify_listeners ops now ev (jn_listeners j) (jn_session j, jn_reads j)
      in \<lparr>jn_cost = cost_callback add ev (jn_cost j), jn_session = s, jn_reads = n, jn_listeners = ls\<rparr>)"

definition session_error_code_name :: "session_error_code \<Rightarrow> string" where
  "session_error_code_name c =
     (case c of NotFound \<Rightarrow> ''NotFound'' | AlreadyExists \<Rightarrow> ''AlreadyExists'' | Corrupted \<Rightarrow> ''Corrupted''
      | StorageFailure \<Rightarrow> ''StorageFailure'' | EAborted \<Rightarrow> ''Aborted'' | EUnknown \<Rightarrow> ''Unknown'')"

end
