(* ===== verification/Harness.thy ===== *)
theory Harness
  imports Harness_Session Extension_Requests Context_Transform Context_Assembly Compaction Goal Agent_Loop
begin

text \<open>
  The harness of \<^verbatim>\<open>crates/theway-core/src/agent/assembly/mod.rs\<close>: an agent whose hooks are the extension
  runtime and the embedder's, whose listeners are the totals, the session and the extensions. Its catalogs
  (\<^verbatim>\<open>catalog.rs\<close>), its lifecycle events (\<^verbatim>\<open>events.rs\<close>) and the operations that move its session
  (\<^verbatim>\<open>session.rs\<close>).

  The world of the harness's agent is a \<open>harness_world\<close>: the journal, the extension runtime with one flag
  for each subscribed extension listener, and \<open>'u\<close>, the rest, which the provider, the tools and the
  embedder's hooks read and change. An extension reaches the session only through the answers it gives.
\<close>

subsection \<open>The world\<close>

record ('s, 'x, 'u) harness_world =
  hw_journal :: "'s journal"
  hw_runtime :: "'x ext_runtime"
  hw_flags :: "bool list"
  hw_user :: 'u

definition on_runtime :: "('x ext_runtime \<Rightarrow> 'b \<times> 'x ext_runtime) \<Rightarrow> ('s, 'x, 'u) harness_world \<Rightarrow> 'b \<times> ('s, 'x, 'u) harness_world" where
  "on_runtime f w = (let (y, r) = f (hw_runtime w) in (y, w\<lparr>hw_runtime := r\<rparr>))"

definition on_user :: "('u \<Rightarrow> 'b \<times> 'u) \<Rightarrow> ('s, 'x, 'u) harness_world \<Rightarrow> 'b \<times> ('s, 'x, 'u) harness_world" where
  "on_user f w = (let (y, u) = f (hw_user w) in (y, w\<lparr>hw_user := u\<rparr>))"

text \<open>
  What a harness is given. \<open>hc_cancelled\<close> is the cancellation token as a hook or a listener sees it,
  \<open>hc_virtualization\<close> the environment variable of \<open>context/transform.rs\<close>, \<open>hc_add\<close> and \<open>hc_at_least\<close> the
  addition and the comparison of \<open>f64\<close>s, \<open>hc_show4\<close> its format with four decimals, \<open>hc_now\<close> and
  \<open>hc_clock\<close> the readings of the clock, \<open>hc_listener\<close> the embedder's listeners, \<open>hc_get_model\<close> the
  provider's catalog, \<open>hc_summarizer\<close> the provider as a compaction uses it, and \<open>hc_on_turn_end\<close> the hook
  that is asked, with the transcript, the count of continuations and the last user prompt, whether to go on
  (it may panic: \<open>None\<close>).
\<close>

record ('s, 'x, 'u) harness_config =
  hc_ops :: "'s storage_ops"
  hc_env :: "'x ext_env"
  hc_now :: "nat \<Rightarrow> ustr"
  hc_clock :: "nat \<Rightarrow> int"
  hc_parse_time :: "ustr \<Rightarrow> int option"
  hc_add :: "f64 \<Rightarrow> f64 \<Rightarrow> f64"
  hc_at_least :: "f64 \<Rightarrow> f64 \<Rightarrow> bool"
  hc_show4 :: "f64 \<Rightarrow> ustr"
  hc_virtualization :: "ustr option"
  hc_get_model :: "ustr \<Rightarrow> ustr \<Rightarrow> model option"
  hc_cancelled :: "'u \<Rightarrow> bool"
  hc_listener :: "loop_event \<Rightarrow> 'u \<Rightarrow> 'u"
  hc_stream :: "model \<times> llm_context \<times> stream_options \<Rightarrow> 'u \<Rightarrow> assistant_message_event list \<times> 'u"
  hc_get_api_key :: "(ustr \<Rightarrow> ustr option) option"
  hc_before_tool_call :: "(('s, 'x, 'u) harness_world before_tool_call_context \<Rightarrow> 'u \<Rightarrow> hook_result \<times> 'u) option"
  hc_after_tool_call :: "(('s, 'x, 'u) harness_world after_tool_call_context \<Rightarrow> 'u \<Rightarrow> result_patch \<times> 'u) option"
  hc_on_control_plane_prompt :: "(prompt_request \<Rightarrow> 'u \<Rightarrow> prompt_decision \<times> 'u) option"
  hc_observation_context :: observation_context
  hc_observation_parent :: "nat option"
  hc_max_iterations :: "nat option"
  hc_budget_cap_usd :: "f64 option"
  hc_turn_continuation_cap :: nat
  hc_interfere :: "'u \<Rightarrow> outside list \<times> 'u"
  hc_finalize_usage :: "llm_context \<Rightarrow> usage \<Rightarrow> 'u \<Rightarrow> usage \<times> 'u"
  hc_args_hash :: "json \<Rightarrow> ustr"
  hc_order :: "nat \<Rightarrow> 'u \<Rightarrow> nat list"
  hc_request_value :: "model_request \<Rightarrow> json option"
  hc_message_value :: "assistant_message \<Rightarrow> json option"
  hc_content_value :: "user_content_block list \<Rightarrow> json"
  hc_millis :: "'u \<Rightarrow> int"
  hc_summarizer :: "'u \<Rightarrow> summarizer \<times> 'u"
  hc_on_turn_end :: "(agent_message list \<Rightarrow> nat \<Rightarrow> ustr option \<Rightarrow> 's \<times> 'u \<Rightarrow> turn_end_decision option \<times> 's \<times> 'u) option"

definition DEFAULT_TURN_CONTINUATION_CAP :: nat where
  "DEFAULT_TURN_CONTINUATION_CAP = 25"

text \<open>The extension listeners, one per subscription, on the one runtime.\<close>

fun notify_extensions :: "'x ext_env \<Rightarrow> bool \<Rightarrow> loop_event \<Rightarrow> bool list \<Rightarrow> 'x ext_runtime \<Rightarrow> bool list \<times> 'x ext_runtime" where
  "notify_extensions env cancelled ev [] r = ([], r)"
| "notify_extensions env cancelled ev (flag # flags) r =
     (let (flag', r1) = ext_listener env cancelled ev (flag, r); (flags', r2) = notify_extensions env cancelled ev flags r1
      in (flag' # flags', r2))"

text \<open>Everyone who hears of an event; the three parts share nothing, so their order does not matter.\<close>

definition harness_listener :: "('s, 'x, 'u) harness_config \<Rightarrow> loop_event \<Rightarrow> ('s, 'x, 'u) harness_world \<Rightarrow> ('s, 'x, 'u) harness_world" where
  "harness_listener cfg ev w =
     (let (flags, r) = notify_extensions (hc_env cfg) (hc_cancelled cfg (hw_user w)) ev (hw_flags w) (hw_runtime w)
      in \<lparr>hw_journal = store_event (hc_ops cfg) (hc_now cfg) (hc_add cfg) ev (hw_journal w), hw_runtime = r,
          hw_flags = flags, hw_user = hc_listener cfg ev (hw_user w)\<rparr>)"

subsection \<open>The hooks of the agent\<close>

definition harness_transform_context ::
  "('s, 'x, 'u) harness_config \<Rightarrow> agent_message list \<Rightarrow> ('s, 'x, 'u) harness_world \<Rightarrow> agent_message list \<times> ('s, 'x, 'u) harness_world" where
  "harness_transform_context cfg messages w =
     apfst (virtualize_tool_results (hc_virtualization cfg))
       (on_runtime (ext_transform_context (hc_env cfg) (hc_cancelled cfg (hw_user w)) messages) w)"

definition harness_before_tool_call ::
  "('s, 'x, 'u) harness_config \<Rightarrow> ('s, 'x, 'u) harness_world before_tool_call_context \<Rightarrow> ('s, 'x, 'u) harness_world \<Rightarrow>
   hook_result \<times> ('s, 'x, 'u) harness_world" where
  "harness_before_tool_call cfg ctx w =
     (let (ext, w1) = on_runtime (ext_before_tool_call (hc_env cfg) ctx (hc_cancelled cfg (hw_user w))) w
      in if hr_block ext then (ext, w1)
         else case hc_before_tool_call cfg of
                Some hook \<Rightarrow> on_user (hook ctx) w1
              | None \<Rightarrow> (ext, w1))"

text \<open>The options \<open>AgentHarness::new\<close> hands its agent, with the listeners it subscribes.\<close>

definition harness_agent_options :: "('s, 'x, 'u) harness_config \<Rightarrow> ('s, 'x, 'u) harness_world agent_options" where
  "harness_agent_options cfg =
     \<lparr>ao_convert_to_llm = (\<lambda>ms w. default_convert_to_llm (hc_millis cfg (hw_user w)) ms),
      ao_transform_context = Some (harness_transform_context cfg),
      ao_transform_model_request = Some (\<lambda>request w.
        on_runtime (harness_model_request (hc_env cfg) (hc_cancelled cfg (hw_user w)) request) w),
      ao_transform_message = Some (\<lambda>message w.
        on_runtime (ext_transform_message (hc_env cfg) message (hc_cancelled cfg (hw_user w))) w),
      ao_stream = (\<lambda>request. on_user (hc_stream cfg request)),
      ao_get_api_key = hc_get_api_key cfg,
      ao_session_id = oc_session_id (hc_observation_context cfg),
      ao_before_tool_call = Some (harness_before_tool_call cfg),
      ao_after_tool_call = map_option (\<lambda>hook ctx. on_user (hook ctx)) (hc_after_tool_call cfg),
      ao_transform_tool_result = Some (\<lambda>ctx w.
        on_runtime (ext_transform_tool_result (hc_env cfg) ctx (hc_cancelled cfg (hw_user w))) w),
      ao_on_control_plane_prompt = map_option (\<lambda>hook request. on_user (hook request)) (hc_on_control_plane_prompt cfg),
      ao_should_stop_after_turn = None,
      ao_prepare_next_turn = None,
      ao_observation_context = hc_observation_context cfg,
      ao_observation_parent = hc_observation_parent cfg,
      ao_tool_execution = Parallel,
      ao_max_iterations = hc_max_iterations cfg,
      ao_listener = harness_listener cfg,
      ao_interfere = on_user (hc_interfere cfg),
      ao_finalize_usage = (\<lambda>c u. on_user (hc_finalize_usage cfg c u)),
      ao_args_hash = hc_args_hash cfg,
      ao_order = (\<lambda>n w. hc_order cfg n (hw_user w)),
      ao_request_value = hc_request_value cfg,
      ao_message_value = hc_message_value cfg,
      ao_content_value = hc_content_value cfg,
      ao_now = (\<lambda>w. hc_millis cfg (hw_user w))\<rparr>"

end
