(* ===== verification/Harness_State.thy ===== *)
theory Harness_State
  imports Harness Skills
begin

text \<open>
  The state of a harness (\<open>AgentHarness\<close>), its construction, its catalogs of skills, templates and tools
  (\<^verbatim>\<open>assembly/catalog.rs\<close>), its events (\<^verbatim>\<open>assembly/events.rs\<close>), and the operations that change the model,
  the thinking level or the branch of its session (\<^verbatim>\<open>assembly/session.rs\<close>). An operation may fail half
  way; what it did before the failure stays done.
\<close>

subsection \<open>State\<close>

datatype session_event =
    SeStarted nat
  | SeCompaction bool ustr nat
  | SeBranch "ustr option" "ustr option" "ustr option"
  | SePersistenceError ustr ustr
  | SeTurnDecision ustr nat "ustr option" "ustr option"
  | SeSkillsReloaded nat
  | SeExtensionCommandOutcome command_outcome

record prompt_template =
  pt_name :: ustr
  pt_content :: ustr

text \<open>\<open>vars\<close> in the order the map iterates.\<close>

definition interpolate :: "(json \<Rightarrow> ustr) \<Rightarrow> (ustr \<times> json) list \<Rightarrow> prompt_template \<Rightarrow> ustr" where
  "interpolate show_json vars t =
     fold (\<lambda>(k, v) out. replace_all ([123, 123] @ k @ [125, 125]) (case v of JStr s \<Rightarrow> s | _ \<Rightarrow> show_json v) out)
       vars (pt_content t)"

record ('s, 'x, 'u) agent_harness =
  ah_agent :: "('s, 'x, 'u) harness_world agent"
  ah_skills :: "skill list"
  ah_base_system_prompt :: ustr
  ah_templates :: "prompt_template list"
  ah_settings :: compaction_settings
  ah_algorithms :: algorithm_registry
  ah_events :: "session_event list" \<comment> \<open>what was sent to the listeners, oldest first\<close>
  ah_session_start_emitted :: bool

abbreviation (input) ah_world :: "('s, 'x, 'u) agent_harness \<Rightarrow> ('s, 'x, 'u) harness_world" where
  "ah_world h \<equiv> ag_world (ah_agent h)"

definition on_world ::
  "(('s, 'x, 'u) harness_world \<Rightarrow> 'b \<times> ('s, 'x, 'u) harness_world) \<Rightarrow> ('s, 'x, 'u) agent_harness \<Rightarrow>
   'b \<times> ('s, 'x, 'u) agent_harness" where
  "on_world f h =
     (let (y, w) = f (ag_world (ah_agent h)) in (y, h\<lparr>ah_agent := (ah_agent h)\<lparr>ag_world := w\<rparr>\<rparr>))"

text \<open>An operation of the extension runtime, and one that only observes.\<close>

definition extensions :: "('x ext_runtime \<Rightarrow> 'b \<times> 'x ext_runtime) \<Rightarrow> ('s, 'x, 'u) agent_harness \<Rightarrow> 'b \<times> ('s, 'x, 'u) agent_harness" where
  "extensions f h = on_world (on_runtime f) h"

definition tell_extensions :: "('x ext_runtime \<Rightarrow> 'x ext_runtime) \<Rightarrow> ('s, 'x, 'u) agent_harness \<Rightarrow> ('s, 'x, 'u) agent_harness" where
  "tell_extensions f h = snd (extensions (\<lambda>r. ((), f r)) h)"

definition runtime_of :: "('s, 'x, 'u) agent_harness \<Rightarrow> 'x ext_runtime" where
  "runtime_of h = hw_runtime (ag_world (ah_agent h))"

text \<open>An operation of the session that reads the clock \<open>k\<close> times.\<close>

definition in_session ::
  "('s, 'x, 'u) harness_config \<Rightarrow> nat \<Rightarrow> ((nat \<Rightarrow> ustr) \<Rightarrow> ('s, 'b) sop) \<Rightarrow> ('s, 'x, 'u) agent_harness \<Rightarrow>
   'b sresult \<times> ('s, 'x, 'u) agent_harness" where
  "in_session cfg k f h =
     on_world (\<lambda>w. let j = hw_journal w; (y, s) = f (\<lambda>i. hc_now cfg (jn_reads j + i)) (jn_session j)
       in (y, w\<lparr>hw_journal := j\<lparr>jn_session := s, jn_reads := jn_reads j + k\<rparr>\<rparr>)) h"

definition read_clock :: "('s, 'x, 'u) harness_config \<Rightarrow> ('s, 'x, 'u) agent_harness \<Rightarrow> int \<times> ('s, 'x, 'u) agent_harness" where
  "read_clock cfg h =
     on_world (\<lambda>w. let j = hw_journal w in (hc_clock cfg (jn_reads j), w\<lparr>hw_journal := j\<lparr>jn_reads := jn_reads j + 1\<rparr>\<rparr>)) h"

definition emit_session_event :: "session_event \<Rightarrow> ('s, 'x, 'u) agent_harness \<Rightarrow> ('s, 'x, 'u) agent_harness" where
  "emit_session_event ev h = h\<lparr>ah_events := ah_events h @ [ev]\<rparr>"

definition push_messages :: "agent_message list \<Rightarrow> ('s, 'x, 'u) agent_harness \<Rightarrow> ('s, 'x, 'u) agent_harness" where
  "push_messages ms h = h\<lparr>ah_agent := (ah_agent h)\<lparr>ag_messages := ag_messages (ah_agent h) @ ms\<rparr>\<rparr>"

definition with_system_prompt :: "ustr \<Rightarrow> ('s, 'x, 'u) agent_harness \<Rightarrow> ('s, 'x, 'u) agent_harness" where
  "with_system_prompt p h = h\<lparr>ah_agent := (ah_agent h)\<lparr>ag_system_prompt := p\<rparr>\<rparr>"

subsection \<open>Catalogs\<close>

fun dedup_from :: "ustr list \<Rightarrow> 'w agent_tool list \<Rightarrow> 'w agent_tool list \<times> ustr list" where
  "dedup_from seen [] = ([], [])"
| "dedup_from seen (t # ts) =
     (let name = tool_name_of t; known = name \<in> set seen;
          (kept, dropped) = dedup_from (if known then seen else name # seen) ts
      in if known then (kept, name # dropped) else (t # kept, dropped))"

definition deduplicate_tools :: "'w agent_tool list \<Rightarrow> 'w agent_tool list \<times> ustr list" where
  "deduplicate_tools ts = dedup_from [] ts"

definition replace_skills :: "skill list \<Rightarrow> ('s, 'x, 'u) agent_harness \<Rightarrow> ('s, 'x, 'u) agent_harness" where
  "replace_skills skills h =
     with_system_prompt (build_system_prompt (ah_base_system_prompt h) skills) (h\<lparr>ah_skills := skills\<rparr>)"

definition replace_templates :: "prompt_template list \<Rightarrow> ('s, 'x, 'u) agent_harness \<Rightarrow> ('s, 'x, 'u) agent_harness" where
  "replace_templates ts h = h\<lparr>ah_templates := ts\<rparr>"

definition replace_tools :: "('s, 'x, 'u) harness_world agent_tool list \<Rightarrow> ('s, 'x, 'u) agent_harness \<Rightarrow> ('s, 'x, 'u) agent_harness" where
  "replace_tools ts h = h\<lparr>ah_agent := (ah_agent h)\<lparr>ag_tools := fst (deduplicate_tools ts)\<rparr>\<rparr>"

text \<open>\<open>same\<close> is \<open>Arc::ptr_eq\<close>. The new tools are kept when no tool before them has their name.\<close>

definition replace_mcp_tools ::
  "(('s, 'x, 'u) harness_world agent_tool \<Rightarrow> ('s, 'x, 'u) harness_world agent_tool \<Rightarrow> bool) \<Rightarrow>
   ('s, 'x, 'u) harness_world agent_tool list \<Rightarrow> ('s, 'x, 'u) harness_world agent_tool list \<Rightarrow>
   ('s, 'x, 'u) agent_harness \<Rightarrow> ('s, 'x, 'u) agent_harness" where
  "replace_mcp_tools same old new h =
     (let kept = filter (\<lambda>t. \<not> list_ex (\<lambda>p. same p t) old) (ag_tools (ah_agent h))
      in h\<lparr>ah_agent := (ah_agent h)\<lparr>ag_tools := kept @ fst (dedup_from (map tool_name_of kept) new)\<rparr>\<rparr>)"

text \<open>\<open>None\<close>: no loader was configured.\<close>

definition reload_skills_from_disk ::
  "'g skills_env option \<Rightarrow> ustr list \<Rightarrow> ('s, 'x, 'u) agent_harness \<Rightarrow>
   load_skills_output option option option \<times> ('s, 'x, 'u) agent_harness" where
  "reload_skills_from_disk loader dirs h =
     (case loader of
        None \<Rightarrow> (None, h)
      | Some env \<Rightarrow>
          (case load_skills env dirs of
             Some (Some out) \<Rightarrow>
               (Some (Some (Some out)),
                emit_session_event (SeSkillsReloaded (length (lo_skills out))) (replace_skills (lo_skills out) h))
           | failed \<Rightarrow> (Some failed, h)))"

subsection \<open>Construction\<close>

text \<open>\<open>None\<close> is the panic of the extension runtime on a blank session id, which cannot happen.\<close>

definition harness_new ::
  "('s, 'x, 'u) harness_config \<Rightarrow> ustr \<Rightarrow> model option \<Rightarrow> thinking_level \<Rightarrow> skill list \<Rightarrow> prompt_template list \<Rightarrow>
   ('s, 'x, 'u) harness_world agent_tool list \<Rightarrow> ustr \<Rightarrow> bool \<Rightarrow> model_context_item list \<Rightarrow> compaction_settings \<Rightarrow>
   algorithm_registry \<Rightarrow> obs \<Rightarrow> 's \<Rightarrow> 'x \<Rightarrow> 'u \<Rightarrow> ('s, 'x, 'u) agent_harness option" where
  "harness_new cfg system_prompt model level skills templates tools cwd interactive ctx settings algorithms obs s x u =
     (let session_id = (case oc_session_id (hc_observation_context cfg) of
            Some i \<Rightarrow> if trim i = [] then lit ''local-session'' else i | None \<Rightarrow> lit ''local-session'');
          cwd = (if trim cwd = [] then lit ''.'' else cwd);
          model_ref = map_option (\<lambda>m. \<lparr>rf_provider = mo_provider m, rf_model = mo_id m\<rparr>) model
      in map_option (\<lambda>r.
           \<lparr>ah_agent = \<lparr>ag_run_active = False, ag_system_prompt = build_system_prompt system_prompt skills, ag_model = model,
              ag_thinking_level = Some level, ag_tools = fst (deduplicate_tools tools), ag_messages = [],
              ag_is_streaming = False, ag_streaming_message = None, ag_error_message = None,
              ag_steering = queue_new QAll, ag_follow_up = queue_new QAll, ag_active_cancel = None,
              ag_active_run = None, ag_active_turn = None, ag_turn_cancel = None, ag_obs = obs, ag_log = [],
              ag_world = \<lparr>hw_journal = \<lparr>jn_cost = cost_reset, jn_session = s, jn_reads = 0, jn_listeners = []\<rparr>,
                hw_runtime = r, hw_flags = [], hw_user = u\<rparr>\<rparr>,
            ah_skills = skills, ah_base_system_prompt = system_prompt, ah_templates = templates, ah_settings = settings,
            ah_algorithms = algorithms, ah_events = [], ah_session_start_emitted = False\<rparr>)
           (ext_runtime_new session_id cwd interactive model_ref ctx x))"

definition ensure_session_start_emitted :: "('s, 'x, 'u) harness_config \<Rightarrow> ('s, 'x, 'u) agent_harness \<Rightarrow> ('s, 'x, 'u) agent_harness" where
  "ensure_session_start_emitted cfg h =
     (if ah_session_start_emitted h then h
      else emit_session_event (SeStarted (length (ag_messages (ah_agent h))))
             (tell_extensions (ensure_session_start (hc_env cfg)) (h\<lparr>ah_session_start_emitted := True\<rparr>)))"

text \<open>The abort, and the shutdown of the extensions once the agent is idle.\<close>

definition shutdown_runtime_extensions :: "('s, 'x, 'u) harness_config \<Rightarrow> ('s, 'x, 'u) agent_harness \<Rightarrow> ('s, 'x, 'u) agent_harness" where
  "shutdown_runtime_extensions cfg h =
     tell_extensions (ext_shutdown (hc_env cfg)) (h\<lparr>ah_agent := abort (ah_agent h)\<rparr>)"

subsection \<open>The session of a harness\<close>

definition extension_operation_error :: "extension_error \<Rightarrow> session_error" where
  "extension_operation_error err = \<lparr>se_code = EAborted, se_message = xe_message err\<rparr>"

text \<open>A gated operation of the harness: refused inside a dispatch, then by the gate.\<close>

definition gated ::
  "('x ext_runtime \<Rightarrow> (extension_error + unit) \<times> 'x ext_runtime) \<Rightarrow> ('s, 'x, 'u) agent_harness \<Rightarrow>
   (session_error + unit) \<times> ('s, 'x, 'u) agent_harness" where
  "gated gate_of h =
     (case reject_reentrant_operation (runtime_of h) of
        Inl err \<Rightarrow> (Inl (extension_operation_error err), h)
      | Inr _ \<Rightarrow>
          (case extensions gate_of h of
             (Inl err, h1) \<Rightarrow> (Inl (extension_operation_error err), h1)
           | (Inr _, h1) \<Rightarrow> (Inr (), h1)))"

definition set_model :: "('s, 'x, 'u) harness_config \<Rightarrow> model \<Rightarrow> ('s, 'x, 'u) agent_harness \<Rightarrow> ustr sresult \<times> ('s, 'x, 'u) agent_harness" where
  "set_model cfg model h =
     (case gated (before_model_selection (hc_env cfg) model) h of
        (Inl err, h1) \<Rightarrow> (Inl err, h1)
      | (Inr _, h1) \<Rightarrow>
          (case in_session cfg 1 (\<lambda>now. append_model_change (hc_ops cfg) (now 0) (mo_provider model) (mo_id model)) h1 of
             (Inl err, h2) \<Rightarrow> (Inl err, h2)
           | (Inr i, h2) \<Rightarrow>
               (Inr i, tell_extensions (model_selected (hc_env cfg) model)
                         (h2\<lparr>ah_agent := (ah_agent h2)\<lparr>ag_model := Some model\<rparr>\<rparr>))))"

fun level_str :: "thinking_level \<Rightarrow> string" where
  "level_str TOff = ''off''"
| "level_str TMinimal = ''minimal''"
| "level_str TLow = ''low''"
| "level_str TMedium = ''medium''"
| "level_str THigh = ''high''"
| "level_str TXhigh = ''xhigh''"
| "level_str TMax = ''max''"

definition parse_level :: "ustr \<Rightarrow> thinking_level option" where
  "parse_level s = find (\<lambda>l. lit (level_str l) = s) [TOff, TMinimal, TLow, TMedium, THigh, TXhigh, TMax]"

definition set_thinking_level :: "('s, 'x, 'u) harness_config \<Rightarrow> thinking_level \<Rightarrow> ('s, 'x, 'u) agent_harness \<Rightarrow> ustr sresult \<times> ('s, 'x, 'u) agent_harness" where
  "set_thinking_level cfg level h =
     (case in_session cfg 1 (\<lambda>now. append_thinking_level_change (hc_ops cfg) (now 0) (lit (level_str level))) h of
        (Inl err, h1) \<Rightarrow> (Inl err, h1)
      | (Inr i, h1) \<Rightarrow> (Inr i, h1\<lparr>ah_agent := (ah_agent h1)\<lparr>ag_thinking_level := Some level\<rparr>\<rparr>))"

text \<open>The branch of the session replaces what the agent had in memory.\<close>

definition rehydrate_from_session :: "('s, 'x, 'u) harness_config \<Rightarrow> ('s, 'x, 'u) agent_harness \<Rightarrow> session_context sresult \<times> ('s, 'x, 'u) agent_harness" where
  "rehydrate_from_session cfg h =
     (case in_session cfg 0 (\<lambda>_. build_context (hc_ops cfg) (hc_clock cfg) (hc_parse_time cfg)) h of
        (Inl err, h1) \<Rightarrow> (Inl err, h1)
      | (Inr context, h1) \<Rightarrow>
          (let a = ah_agent h1;
               restored = Option.bind (sc_model context) (\<lambda>m. hc_get_model cfg (cm_provider m) (cm_model_id m))
           in (Inr context,
               h1\<lparr>ah_agent := a\<lparr>ag_messages := sc_messages context,
                    ag_model := (case restored of Some m \<Rightarrow> Some m | None \<Rightarrow> ag_model a),
                    ag_thinking_level := (case parse_level (sc_thinking_level context) of
                      Some l \<Rightarrow> Some l | None \<Rightarrow> ag_thinking_level a)\<rparr>\<rparr>)))"

definition branch_payload :: "ustr option \<Rightarrow> ustr option \<Rightarrow> (ustr \<times> json) list" where
  "branch_payload src dst =
     [(lit ''kind'', JStr (lit ''branch'')), (lit ''fromEntryId'', json_option src), (lit ''toEntryId'', json_option dst)]"

definition harness_move_to ::
  "('s, 'x, 'u) harness_config \<Rightarrow> ustr option \<Rightarrow> branch_summary_input option \<Rightarrow> ('s, 'x, 'u) agent_harness \<Rightarrow>
   ustr option sresult \<times> ('s, 'x, 'u) agent_harness" where
  "harness_move_to cfg target summary h =
     (case reject_reentrant_operation (runtime_of h) of
        Inl err \<Rightarrow> (Inl (extension_operation_error err), h)
      | Inr _ \<Rightarrow>
          (let (read, h1) = in_session cfg 0 (\<lambda>_. so_get_leaf_id (hc_ops cfg)) h;
               origin = (case read of Inr l \<Rightarrow> l | Inl _ \<Rightarrow> None)
           in case extensions (gate_session_operation (hc_env cfg) OnBeforeSessionSwitch
                     (JObj (branch_payload origin target))) h1 of
                (Inl err, h2) \<Rightarrow> (Inl (extension_operation_error err), h2)
              | (Inr _, h2) \<Rightarrow>
                  (case in_session cfg 1 (\<lambda>now. move_to (hc_ops cfg) (now 0) target summary) h2 of
                     (Inl err, h3) \<Rightarrow> (Inl err, h3)
                   | (Inr result, h3) \<Rightarrow>
                       (case rehydrate_from_session cfg h3 of
                          (Inl err, h4) \<Rightarrow> (Inl err, h4)
                        | (Inr _, h4) \<Rightarrow>
                            (Inr result,
                             tell_extensions (observe (hc_env cfg) DSession OnSessionSwitched
                               (JObj (branch_payload origin target @ [(lit ''summaryEntryId'', json_option result)])) False)
                               (emit_session_event (SeBranch origin target result) h4))))))"

text \<open>The gates and notices of switches and forks that the daemon performs itself.\<close>

definition target_payload :: "ustr \<Rightarrow> json" where
  "target_payload target = JObj [(lit ''kind'', JStr (lit ''session'')), (lit ''targetSessionId'', JStr target)]"

definition before_session_switch :: "('s, 'x, 'u) harness_config \<Rightarrow> ustr \<Rightarrow> ('s, 'x, 'u) agent_harness \<Rightarrow> unit sresult \<times> ('s, 'x, 'u) agent_harness" where
  "before_session_switch cfg target h =
     gated (gate_session_operation (hc_env cfg) OnBeforeSessionSwitch (target_payload target)) h"

definition session_switched :: "('s, 'x, 'u) harness_config \<Rightarrow> ustr \<Rightarrow> ('s, 'x, 'u) agent_harness \<Rightarrow> ('s, 'x, 'u) agent_harness" where
  "session_switched cfg target h = tell_extensions (observe (hc_env cfg) DSession OnSessionSwitched (target_payload target) False) h"

definition before_session_fork :: "('s, 'x, 'u) harness_config \<Rightarrow> ustr option \<Rightarrow> ('s, 'x, 'u) agent_harness \<Rightarrow> unit sresult \<times> ('s, 'x, 'u) agent_harness" where
  "before_session_fork cfg entry h =
     gated (gate_session_operation (hc_env cfg) OnBeforeSessionFork (JObj [(lit ''branchEntryId'', json_option entry)])) h"

definition session_forked :: "('s, 'x, 'u) harness_config \<Rightarrow> ustr \<Rightarrow> ('s, 'x, 'u) agent_harness \<Rightarrow> ('s, 'x, 'u) agent_harness" where
  "session_forked cfg target h =
     tell_extensions (observe (hc_env cfg) DSession OnSessionForked (JObj [(lit ''targetSessionId'', JStr target)]) False) h"

end
