(* ===== verification/Harness_Run.thy ===== *)
theory Harness_Run
  imports Harness_State
begin

text \<open>
  The prompt cycle of a harness (\<^verbatim>\<open>crates/theway-core/src/agent/assembly/run.rs\<close>): a prompt goes through
  the extensions' input hook, the budget and the compaction, and then runs the agent; follow-ups of
  extensions and the turn-end hook may run it again. One run is \<open>harness_run\<close>, one round of the cycle
  \<open>cycle_pass\<close>. Other threads reach the agent while it runs (\<open>ao_interfere\<close>), not in between.

  A panic (\<open>RPanic\<close>) unwinds the whole cycle: what follows it in the code is not done.
\<close>

subsection \<open>Messages\<close>

definition user_message :: "user_content \<Rightarrow> int \<Rightarrow> agent_message" where
  "user_message content now = Llm (User \<lparr>um_content = content, um_timestamp = now\<rparr>)"

definition user_message_from_text :: "ustr \<Rightarrow> int \<Rightarrow> agent_message" where
  "user_message_from_text t now = user_message (PlainText t) now"

definition user_message_from_text_and_images :: "ustr \<Rightarrow> image_content list \<Rightarrow> int \<Rightarrow> agent_message" where
  "user_message_from_text_and_images t images now =
     user_message (Blocks ((if t = [] then [] else [user_text t]) @ map UImage images)) now"

definition user_message_for_prompt :: "ustr \<Rightarrow> image_content list \<Rightarrow> int \<Rightarrow> agent_message" where
  "user_message_for_prompt t images now =
     (if images = [] then user_message_from_text t now else user_message_from_text_and_images t images now)"

text \<open>\<open>input\<close> is the serialized record of the round of input.\<close>

definition user_input_record_message :: "json \<Rightarrow> int \<Rightarrow> agent_message" where
  "user_input_record_message input now =
     Custom \<lparr>cm_role = lit ''user_input'', cm_timestamp = now, cm_payload = input\<rparr>"

fun block_texts :: "user_content_block list \<Rightarrow> ustr \<Rightarrow> ustr" where
  "block_texts [] output = output"
| "block_texts (UText t # blocks) output =
     block_texts blocks ((if output \<noteq> [] then output @ [10] else output) @ tc_text t)"
| "block_texts (UImage _ # blocks) output = block_texts blocks output"

definition extract_user_message_text :: "user_message \<Rightarrow> ustr option" where
  "extract_user_message_text u =
     (let t = (case um_content u of PlainText t \<Rightarrow> t | Blocks blocks \<Rightarrow> block_texts blocks [])
      in if t = [] then None else Some t)"

fun extract_user_prompt_text :: "agent_message \<Rightarrow> ustr option" where
  "extract_user_prompt_text (Llm (User u)) = extract_user_message_text u"
| "extract_user_prompt_text _ = None"

definition last_user_text_from_state :: "('s, 'x, 'u) agent_harness \<Rightarrow> ustr option" where
  "last_user_text_from_state h = find_map extract_user_prompt_text (rev (ag_messages (ah_agent h)))"

definition preview_for_banner :: "ustr \<Rightarrow> nat \<Rightarrow> ustr" where
  "preview_for_banner t max_chars = (if length t \<le> max_chars then t else take max_chars t @ [8230])"

subsection \<open>Persistence outside a run\<close>

text \<open>A message is appended to the session, then to the transcript.\<close>

definition record_messages ::
  "('s, 'x, 'u) harness_config \<Rightarrow> agent_message list \<Rightarrow> ('s, 'x, 'u) agent_harness \<Rightarrow> unit sresult \<times> ('s, 'x, 'u) agent_harness" where
  "record_messages cfg ms h =
     (case in_session cfg (length ms) (\<lambda>now. append_messages (hc_ops cfg) now ms) h of
        (Inl err, h1) \<Rightarrow> (Inl err, h1)
      | (Inr _, h1) \<Rightarrow> (Inr (), push_messages ms h1))"

definition record_input ::
  "('s, 'x, 'u) harness_config \<Rightarrow> json option \<Rightarrow> ('s, 'x, 'u) agent_harness \<Rightarrow> unit sresult \<times> ('s, 'x, 'u) agent_harness" where
  "record_input cfg input h =
     (case input of
        None \<Rightarrow> (Inr (), h)
      | Some i \<Rightarrow> (let (now, h1) = read_clock cfg h in record_messages cfg [user_input_record_message i now] h1))"

definition record_user_input_prompt ::
  "('s, 'x, 'u) harness_config \<Rightarrow> ustr \<Rightarrow> image_content list \<Rightarrow> json option \<Rightarrow> ('s, 'x, 'u) agent_harness \<Rightarrow>
   unit sresult \<times> ('s, 'x, 'u) agent_harness" where
  "record_user_input_prompt cfg t images input h =
     (case record_input cfg input h of
        (Inl err, h1) \<Rightarrow> (Inl err, h1)
      | (Inr _, h1) \<Rightarrow> (let (now, h2) = read_clock cfg h1 in record_messages cfg [user_message_for_prompt t images now] h2))"

definition record_user_prompt ::
  "('s, 'x, 'u) harness_config \<Rightarrow> ustr \<Rightarrow> image_content list \<Rightarrow> ('s, 'x, 'u) agent_harness \<Rightarrow>
   unit sresult \<times> ('s, 'x, 'u) agent_harness" where
  "record_user_prompt cfg t images h = record_user_input_prompt cfg t images None h"

definition record_turn_end_decision ::
  "('s, 'x, 'u) harness_config \<Rightarrow> string \<Rightarrow> nat \<Rightarrow> ustr option \<Rightarrow> ustr option \<Rightarrow> json option \<Rightarrow>
   ('s, 'x, 'u) agent_harness \<Rightarrow> ('s, 'x, 'u) agent_harness" where
  "record_turn_end_decision cfg decision count reason preview payload h =
     (let data = JObj [(lit ''decision'', JStr (lit decision)), (lit ''continuation_count'', JNum (int count)),
            (lit ''reason'', json_option reason), (lit ''next_prompt_preview'', json_option preview),
            (lit ''payload'', case payload of Some p \<Rightarrow> p | None \<Rightarrow> JNull)];
          (r, h1) = in_session cfg 1 (\<lambda>now. append_custom (hc_ops cfg) (now 0) (lit ''turn_end_decision'') (Some data)) h;
          h2 = (case r of
            Inl err \<Rightarrow> emit_session_event (SePersistenceError (lit ''turn_end_decision'')
              (lit ''turn_end_decision append failed: '' @ lit (session_error_code_name (se_code err)))) h1
          | Inr _ \<Rightarrow> h1)
      in emit_session_event (SeTurnDecision (lit decision) count reason preview) h2)"

subsection \<open>Budget and compaction\<close>

definition check_budget_cap :: "('s, 'x, 'u) harness_config \<Rightarrow> ('s, 'x, 'u) agent_harness \<Rightarrow> run_result" where
  "check_budget_cap cfg h =
     (case hc_budget_cap_usd cfg of
        None \<Rightarrow> ROk
      | Some cap \<Rightarrow>
          (let total = uc_total (u_cost (cs_tokens (jn_cost (hw_journal (ag_world (ah_agent h))))))
           in if hc_at_least cfg total cap
              then RErr (Other (lit ''budget cap reached: $'' @ hc_show4 cfg total @ lit '' >= $'' @ hc_show4 cfg cap @
                     lit ''. Reset with /cost reset or raise budget_cap_usd.''))
              else ROk))"

text \<open>What a compaction sees of the harness, and what it leaves.\<close>

definition compaction_view :: "('s, 'x, 'u) harness_config \<Rightarrow> ('s, 'x, 'u) agent_harness \<Rightarrow> 's harness" where
  "compaction_view cfg h =
     (let a = ah_agent h
      in \<lparr>hs_session = jn_session (hw_journal (ag_world a)), hs_model = ag_model a, hs_messages = ag_messages a,
          hs_settings = ah_settings h, hs_algorithms = ah_algorithms h, hs_parent = ag_active_run a,
          hs_context = hc_observation_context cfg, hs_obs = ag_obs a, hs_events = [], hs_extension_events = [],
          hs_listener_errors = []\<rparr>)"

fun compaction_notice :: "extension_event \<Rightarrow> lifecycle_event \<times> json \<times> bool" where
  "compaction_notice (CompactionSucceeded payload) = (OnCompactionSucceeded, payload, False)"
| "compaction_notice (CompactionFailed payload cancelled) = (OnCompactionFailed, payload, cancelled)"

definition observe_compactions :: "'x ext_env \<Rightarrow> extension_event list \<Rightarrow> 'x ext_runtime \<Rightarrow> 'x ext_runtime" where
  "observe_compactions env evs r =
     fold (\<lambda>ev. case compaction_notice ev of (event, payload, cancelled) \<Rightarrow> observe env DCompaction event payload cancelled) evs r"

definition after_compaction :: "'s harness \<Rightarrow> ('s, 'x, 'u) agent_harness \<Rightarrow> ('s, 'x, 'u) agent_harness" where
  "after_compaction v h =
     (let a = ah_agent h; w = ag_world a
      in h\<lparr>ah_agent := a\<lparr>ag_messages := hs_messages v, ag_obs := hs_obs v,
             ag_world := w\<lparr>hw_journal := (hw_journal w)\<lparr>jn_session := hs_session v\<rparr>\<rparr>\<rparr>,
           ah_events := ah_events h @ map (\<lambda>ev. SeCompaction (ev_from_hook ev) (ev_summary ev) (ev_tokens_before ev)) (hs_events v)\<rparr>)"

text \<open>Whether \<open>run_auto_compaction\<close> reaches the gate.\<close>

definition compaction_due :: "summarizer \<Rightarrow> 's harness \<Rightarrow> bool" where
  "compaction_due z v \<longleftrightarrow>
     cp_enabled (hs_settings v) \<and>
     (case hs_model v of
        None \<Rightarrow> False
      | Some model \<Rightarrow>
          ca_decide_compact (algorithm_named z (hs_algorithms v) (cp_algorithm (hs_settings v)))
            (ce_tokens (estimate_context_tokens (sz_show_json z) (hs_messages v))) (mo_context_window model) (hs_settings v))"

text \<open>The gate of \<^verbatim>\<open>runtime_extensions/compaction.rs\<close>.\<close>

definition before_runtime_compaction :: "'x ext_env \<Rightarrow> ustr \<Rightarrow> bool \<Rightarrow> 'x ext_runtime \<Rightarrow> ustr option \<times> 'x ext_runtime" where
  "before_runtime_compaction env algorithm from_hook r =
     (case reject_reentrant_operation r of
        Inl err \<Rightarrow> (Some (xe_message err), r)
      | Inr _ \<Rightarrow>
          (case before_compaction env algorithm from_hook r of
             (Inl err, r1) \<Rightarrow> (Some (xe_message err), r1)
           | (Inr _, r1) \<Rightarrow> (None, r1)))"

definition harness_auto_compaction ::
  "('s, 'x, 'u) harness_config \<Rightarrow> ('s, 'x, 'u) agent_harness \<Rightarrow> run_result \<times> ('s, 'x, 'u) agent_harness" where
  "harness_auto_compaction cfg h =
     (let (z, h0) = on_world (on_user (hc_summarizer cfg)) h; v = compaction_view cfg h0
      in if \<not> compaction_due z v then (ROk, h)
         else
           (let n = jn_reads (hw_journal (ag_world (ah_agent h0)));
                (refusal, h1) = extensions (before_runtime_compaction (hc_env cfg) (cp_algorithm (ah_settings h0)) False) h0;
                xa = \<lparr>xa_before = (\<lambda>_ _. refusal),
                      xa_context_messages = compaction_messages (ec_message_of (hc_env cfg)) (xr_model_context (runtime_of h1))\<rparr>;
                (r, v1) = run_auto_compaction z xa (hc_ops cfg) (hc_now cfg n) (hc_clock cfg (n + 1)) v;
                h2 = snd (in_session cfg 2 (\<lambda>_ s. (Inr (), s)) h1);
                h3 = tell_extensions (observe_compactions (hc_env cfg) (hs_extension_events v1)) (after_compaction v1 h2)
            in (case r of None \<Rightarrow> RPanic | Some (Inl err) \<Rightarrow> RErr (Other err) | Some (Inr _) \<Rightarrow> ROk, h3)))"

text \<open>What stands before every run but the first half of a prompt.\<close>

definition prepare_run :: "('s, 'x, 'u) harness_config \<Rightarrow> ('s, 'x, 'u) agent_harness \<Rightarrow> run_result \<times> ('s, 'x, 'u) agent_harness" where
  "prepare_run cfg h = (case check_budget_cap cfg h of ROk \<Rightarrow> harness_auto_compaction cfg h | refused \<Rightarrow> (refused, h))"


subsection \<open>One run\<close>

fun finalize_messages :: "'x ext_env \<Rightarrow> agent_message list \<Rightarrow> 'x ext_runtime \<Rightarrow> agent_message list \<times> 'x ext_runtime" where
  "finalize_messages env [] r = ([], r)"
| "finalize_messages env (m # ms) r =
     (let (m', r1) = finalize_before_run_message env m r; (ms', r2) = finalize_messages env ms r1 in (m' # ms', r2))"

text \<open>What precedes a run: \<open>Inr\<close> is the system prompt to restore, if the extensions replaced it.\<close>

definition start_run ::
  "('s, 'x, 'u) harness_config \<Rightarrow> ('s, 'x, 'u) agent_harness \<Rightarrow> (agent_run_error + ustr option) \<times> ('s, 'x, 'u) agent_harness" where
  "start_run cfg h =
     (case extensions begin_run h of
        (Inl err, h1) \<Rightarrow> (Inl (Other (xe_message err)), h1)
      | (Inr _, h1) \<Rightarrow>
          (let (patch, h2) = extensions (before_run (hc_env cfg)) h1;
               (ms, h3) = extensions (finalize_messages (hc_env cfg) (br_messages patch)) h2;
               (r, h4) = (if br_messages patch = [] then (Inr (), h2) else record_messages cfg ms h3)
           in case r of
                Inl err \<Rightarrow> (Inl (Other (lit ''persist before-run messages: '' @ se_message err)), tell_extensions settle_run h4)
              | Inr _ \<Rightarrow>
                  (case br_system_prompt patch of
                     Some p \<Rightarrow> (Inr (Some (ag_system_prompt (ah_agent h4))), with_system_prompt p h4)
                   | None \<Rightarrow> (Inr None, h4))))"

definition subscribe_run :: "('s, 'x, 'u) agent_harness \<Rightarrow> ('s, 'x, 'u) agent_harness" where
  "subscribe_run h =
     snd (on_world (\<lambda>w. ((), w\<lparr>hw_journal := (hw_journal w)\<lparr>jn_listeners := jn_listeners (hw_journal w) @ [[]]\<rparr>,
       hw_flags := hw_flags w @ [False]\<rparr>)) h)"

text \<open>The listeners of the run leave; its errors and its flag stay with it.\<close>

definition unsubscribe_run :: "('s, 'x, 'u) agent_harness \<Rightarrow> (session_error list \<times> bool) \<times> ('s, 'x, 'u) agent_harness" where
  "unsubscribe_run h =
     on_world (\<lambda>w. let ls = jn_listeners (hw_journal w)
       in ((last ls, last (hw_flags w)),
           w\<lparr>hw_journal := (hw_journal w)\<lparr>jn_listeners := butlast ls\<rparr>, hw_flags := butlast (hw_flags w)\<rparr>)) h"

definition finish_persisted_run :: "run_result \<Rightarrow> session_error list \<Rightarrow> run_result" where
  "finish_persisted_run result persist_errors =
     (case result of
        ROk \<Rightarrow> (case persist_errors of
                 [] \<Rightarrow> ROk | err # _ \<Rightarrow> RErr (Other (lit ''session append message: '' @ se_message err)))
      | _ \<Rightarrow> result)"

definition run_outcome_str :: "bool \<Rightarrow> run_result \<Rightarrow> string" where
  "run_outcome_str was_cancelled result =
     (if was_cancelled then ''cancelled'' else if result = ROk then ''success'' else ''error'')"

definition announce_end :: "'x ext_env \<Rightarrow> bool \<Rightarrow> run_result \<Rightarrow> 'x ext_runtime \<Rightarrow> 'x ext_runtime" where
  "announce_end env was_cancelled result r =
     (let outcome = JObj [(lit ''outcome'', JStr (lit (run_outcome_str was_cancelled result)))];
          r1 = observe env DRun OnRunEnded outcome was_cancelled r;
          r2 = (if result = ROk then r1
                else observe env DRun OnRunError
                       (JObj [(lit ''category'', JStr (if was_cancelled then lit ''cancelled'' else lit ''runtime''))]) was_cancelled r1)
      in settle_run (observe env DRun OnRunSettled outcome was_cancelled r2))"

definition finish_run ::
  "('s, 'x, 'u) harness_config \<Rightarrow> ustr option \<Rightarrow> run_result \<Rightarrow> ('s, 'x, 'u) agent_harness \<Rightarrow> run_result \<times> ('s, 'x, 'u) agent_harness" where
  "finish_run cfg previous result h =
     (let ((errors, was_cancelled), h1) = unsubscribe_run h;
          result = finish_persisted_run result errors;
          h2 = tell_extensions (announce_end (hc_env cfg) was_cancelled result) h1
      in (result, case previous of Some p \<Rightarrow> with_system_prompt p h2 | None \<Rightarrow> h2))"

text \<open>
  \<open>first\<close> marks the first round; a later one without a message would panic. \<open>None\<close> is a run that never
  returns. A panic of the agent leaves the listeners subscribed and the run unsettled.
\<close>

definition run_on_agent ::
  "('s, 'x, 'u) harness_config \<Rightarrow> bool \<Rightarrow> agent_message option \<Rightarrow> ('s, 'x, 'u) harness_world agent \<Rightarrow>
   (run_result \<times> ('s, 'x, 'u) harness_world agent) option" where
  "run_on_agent cfg first pending a =
     (case pending of
        Some m \<Rightarrow> prompt (harness_agent_options cfg) m a
      | None \<Rightarrow> if first then run_agent_loop_continue (harness_agent_options cfg) a else Some (RPanic, a))"

definition harness_run ::
  "('s, 'x, 'u) harness_config \<Rightarrow> bool \<Rightarrow> agent_message option \<Rightarrow> ('s, 'x, 'u) agent_harness \<Rightarrow>
   (run_result \<times> ('s, 'x, 'u) agent_harness) option" where
  "harness_run cfg first pending h =
     (case start_run cfg h of
        (Inl err, h1) \<Rightarrow> Some (RErr err, h1)
      | (Inr previous, h1) \<Rightarrow>
          (let h2 = subscribe_run h1
           in case run_on_agent cfg first pending (ah_agent h2) of
                None \<Rightarrow> None
              | Some (RPanic, a) \<Rightarrow> Some (RPanic, h2\<lparr>ah_agent := a\<rparr>)
              | Some (r, a) \<Rightarrow> Some (finish_run cfg previous r (h2\<lparr>ah_agent := a\<rparr>))))"

subsection \<open>The cycle\<close>

definition RUNTIME_EXTENSION_FOLLOW_UP_CHAIN_CAP :: nat where
  "RUNTIME_EXTENSION_FOLLOW_UP_CHAIN_CAP = 16"

record cycle =
  cy_continuations :: nat
  cy_follow_ups :: nat
  cy_pending :: "agent_message option"
  cy_first :: bool
  cy_last_user_prompt :: "ustr option"

datatype cycle_step = CycleEnds run_result | CycleGoes cycle

text \<open>The budget and the compaction before the next round.\<close>

definition go_on ::
  "('s, 'x, 'u) harness_config \<Rightarrow> cycle \<Rightarrow> ('s, 'x, 'u) agent_harness \<Rightarrow> cycle_step \<times> ('s, 'x, 'u) agent_harness" where
  "go_on cfg cy h =
     (case prepare_run cfg h of
        (ROk, h1) \<Rightarrow> (CycleGoes cy, h1)
      | (r, h1) \<Rightarrow> (CycleEnds r, h1))"

text \<open>A decision of the turn-end hook.\<close>

definition apply_decision ::
  "('s, 'x, 'u) harness_config \<Rightarrow> cycle \<Rightarrow> turn_end_decision \<Rightarrow> ('s, 'x, 'u) agent_harness \<Rightarrow> cycle_step \<times> ('s, 'x, 'u) agent_harness" where
  "apply_decision cfg cy d h =
     (let n = cy_continuations cy
      in case te_action d of
           Noop \<Rightarrow> (CycleEnds ROk, h)
         | TStop \<Rightarrow> (CycleEnds ROk, record_turn_end_decision cfg ''stop'' n None None (te_payload d) h)
         | TPause reason \<Rightarrow> (CycleEnds ROk, record_turn_end_decision cfg ''pause'' n (Some reason) None (te_payload d) h)
         | Continue text \<Rightarrow>
             (let h1 = record_turn_end_decision cfg ''continue'' (n + 1) None (Some (preview_for_banner text 80)) (te_payload d) h
              in case prepare_run cfg h1 of
                   (ROk, h2) \<Rightarrow>
                     (let (now, h3) = read_clock cfg h2
                      in (CycleGoes \<lparr>cy_continuations = n + 1, cy_follow_ups = cy_follow_ups cy,
                            cy_pending = Some (user_message_from_text text now), cy_first = False,
                            cy_last_user_prompt = Some text\<rparr>, h3))
                 | (r, h2) \<Rightarrow> (CycleEnds r, h2)))"

definition ask_turn_end ::
  "('s, 'x, 'u) harness_config \<Rightarrow> cycle \<Rightarrow> ('s, 'x, 'u) agent_harness \<Rightarrow> cycle_step \<times> ('s, 'x, 'u) agent_harness" where
  "ask_turn_end cfg cy h =
     (case hc_on_turn_end cfg of
        None \<Rightarrow> (CycleEnds ROk, h)
      | Some hook \<Rightarrow>
          if hc_turn_continuation_cap cfg \<le> cy_continuations cy
          then (CycleEnds ROk, record_turn_end_decision cfg ''budget_limited'' (cy_continuations cy)
                  (Some (lit ''continuation cap reached: '' @ show_nat (cy_continuations cy) @ lit '' >= '' @
                         show_nat (hc_turn_continuation_cap cfg))) None None h)
          else (let transcript = ag_messages (ah_agent h);
                    (d, h1) = on_world (\<lambda>w. let j = hw_journal w;
                        (d, s, u) = hook transcript (cy_continuations cy) (cy_last_user_prompt cy) (jn_session j, hw_user w)
                      in (d, w\<lparr>hw_journal := j\<lparr>jn_session := s\<rparr>, hw_user := u\<rparr>)) h
                in case d of None \<Rightarrow> (CycleEnds RPanic, h1) | Some d \<Rightarrow> apply_decision cfg cy d h1))"

text \<open>What follows a run that succeeded: a follow-up of the extensions, or the hook.\<close>

definition next_round ::
  "('s, 'x, 'u) harness_config \<Rightarrow> cycle \<Rightarrow> ('s, 'x, 'u) agent_harness \<Rightarrow> cycle_step \<times> ('s, 'x, 'u) agent_harness" where
  "next_round cfg cy h =
     (case extensions take_follow_up h of
        (Some m, h1) \<Rightarrow>
          if RUNTIME_EXTENSION_FOLLOW_UP_CHAIN_CAP \<le> cy_follow_ups cy
          then (CycleEnds (RErr (Other (lit ''runtime extension follow-up chain exceeded '' @
                  show_nat RUNTIME_EXTENSION_FOLLOW_UP_CHAIN_CAP @ lit '' runs''))), h1)
          else go_on cfg (cy\<lparr>cy_follow_ups := cy_follow_ups cy + 1, cy_pending := Some m, cy_first := False,
                 cy_last_user_prompt := extract_user_prompt_text m\<rparr>) h1
      | (None, h1) \<Rightarrow> ask_turn_end cfg (cy\<lparr>cy_pending := None, cy_first := False\<rparr>) h1)"

definition cycle_pass ::
  "('s, 'x, 'u) harness_config \<Rightarrow> cycle \<Rightarrow> ('s, 'x, 'u) agent_harness \<Rightarrow> (cycle_step \<times> ('s, 'x, 'u) agent_harness) option" where
  "cycle_pass cfg cy h =
     map_option (\<lambda>(r, h1). case r of ROk \<Rightarrow> next_round cfg cy h1 | _ \<Rightarrow> (CycleEnds r, h1))
       (harness_run cfg (cy_first cy) (cy_pending cy) h)"

partial_function (option) prompt_cycle ::
  "('s, 'x, 'u) harness_config \<Rightarrow> cycle \<Rightarrow> ('s, 'x, 'u) agent_harness \<Rightarrow> (run_result \<times> ('s, 'x, 'u) agent_harness) option" where
  "prompt_cycle cfg cy h =
     (case cycle_pass cfg cy h of
        None \<Rightarrow> None
      | Some (CycleEnds r, h1) \<Rightarrow> Some (r, h1)
      | Some (CycleGoes cy1, h1) \<Rightarrow> prompt_cycle cfg cy1 h1)"

definition run_turn_with_continuation ::
  "('s, 'x, 'u) harness_config \<Rightarrow> agent_message option \<Rightarrow> ustr option \<Rightarrow> ('s, 'x, 'u) agent_harness \<Rightarrow>
   (run_result \<times> ('s, 'x, 'u) agent_harness) option" where
  "run_turn_with_continuation cfg first_message last_user_prompt h =
     prompt_cycle cfg \<lparr>cy_continuations = 0, cy_follow_ups = 0, cy_pending = first_message, cy_first = True,
       cy_last_user_prompt = last_user_prompt\<rparr> h"

subsection \<open>Prompts\<close>

text \<open>A compaction is awaited before the record of the input is written.\<close>

definition prompt_with_message_and_input ::
  "('s, 'x, 'u) harness_config \<Rightarrow> agent_message \<Rightarrow> json option \<Rightarrow> ('s, 'x, 'u) agent_harness \<Rightarrow>
   (run_result \<times> ('s, 'x, 'u) agent_harness) option" where
  "prompt_with_message_and_input cfg message input h =
     (case reject_reentrant_operation (runtime_of h) of
        Inl err \<Rightarrow> Some (RErr (Other (xe_message err)), h)
      | Inr _ \<Rightarrow>
          (let h1 = ensure_session_start_emitted cfg h
           in case extensions (transform_input (hc_env cfg) message) h1 of
                (None, h2) \<Rightarrow> Some (RPanic, h2)
              | (Some (InputHandled outcome), h2) \<Rightarrow>
                  Some (ROk, emit_session_event (SeExtensionCommandOutcome outcome) h2)
              | (Some (InputRun message), h2) \<Rightarrow>
                  (case prepare_run cfg h2 of
                     (ROk, h3) \<Rightarrow>
                       (case record_input cfg input h3 of
                          (Inl err, h4) \<Rightarrow> Some (RErr (Other (lit ''persist user input record: '' @ se_message err)), h4)
                        | (Inr _, h4) \<Rightarrow>
                            run_turn_with_continuation cfg (Some message) (extract_user_prompt_text message) h4)
                   | (r, h3) \<Rightarrow> Some (r, h3))))"

definition prompt_with_input ::
  "('s, 'x, 'u) harness_config \<Rightarrow> ustr \<Rightarrow> image_content list \<Rightarrow> json option \<Rightarrow> ('s, 'x, 'u) agent_harness \<Rightarrow>
   (run_result \<times> ('s, 'x, 'u) agent_harness) option" where
  "prompt_with_input cfg t images input h =
     (let (now, h1) = read_clock cfg h
      in prompt_with_message_and_input cfg (user_message_for_prompt t images now) input h1)"

definition harness_prompt ::
  "('s, 'x, 'u) harness_config \<Rightarrow> ustr \<Rightarrow> ('s, 'x, 'u) agent_harness \<Rightarrow> (run_result \<times> ('s, 'x, 'u) agent_harness) option" where
  "harness_prompt cfg t h =
     (let (now, h1) = read_clock cfg h in prompt_with_message_and_input cfg (user_message_from_text t now) None h1)"

definition prompt_with_images ::
  "('s, 'x, 'u) harness_config \<Rightarrow> ustr \<Rightarrow> image_content list \<Rightarrow> ('s, 'x, 'u) agent_harness \<Rightarrow>
   (run_result \<times> ('s, 'x, 'u) agent_harness) option" where
  "prompt_with_images cfg t images h =
     (let (now, h1) = read_clock cfg h
      in prompt_with_message_and_input cfg (user_message_from_text_and_images t images now) None h1)"

definition prompt_from_template ::
  "('s, 'x, 'u) harness_config \<Rightarrow> (json \<Rightarrow> ustr) \<Rightarrow> ustr \<Rightarrow> (ustr \<times> json) list \<Rightarrow> ('s, 'x, 'u) agent_harness \<Rightarrow>
   (run_result \<times> ('s, 'x, 'u) agent_harness) option" where
  "prompt_from_template cfg show_json name vars h =
     (case find (\<lambda>t. pt_name t = name) (ah_templates h) of
        None \<Rightarrow> Some (RErr (Other (lit ''unknown prompt template: '' @ name)), h)
      | Some t \<Rightarrow> harness_prompt cfg (interpolate show_json vars t) h)"

definition harness_continue ::
  "('s, 'x, 'u) harness_config \<Rightarrow> ('s, 'x, 'u) agent_harness \<Rightarrow> (run_result \<times> ('s, 'x, 'u) agent_harness) option" where
  "harness_continue cfg h =
     (case reject_reentrant_operation (runtime_of h) of
        Inl err \<Rightarrow> Some (RErr (Other (xe_message err)), h)
      | Inr _ \<Rightarrow>
          (case prepare_run cfg (ensure_session_start_emitted cfg h) of
             (ROk, h1) \<Rightarrow> run_turn_with_continuation cfg None (last_user_text_from_state h1) h1
           | (r, h1) \<Rightarrow> Some (r, h1)))"

text \<open>A compaction on demand.\<close>

definition harness_force_compact ::
  "('s, 'x, 'u) harness_config \<Rightarrow> ustr option \<Rightarrow> ('s, 'x, 'u) agent_harness \<Rightarrow> (ustr + bool) option \<times> ('s, 'x, 'u) agent_harness" where
  "harness_force_compact cfg custom_instructions h =
     (let h = ensure_session_start_emitted cfg h
      in if ag_model (ah_agent h) = None then (Some (Inr False), h)
         else
           (let (z, h0) = on_world (on_user (hc_summarizer cfg)) h;
                n = jn_reads (hw_journal (ag_world (ah_agent h0)));
                (refusal, h1) = extensions (before_runtime_compaction (hc_env cfg) (cp_algorithm (ah_settings h0)) True) h0;
                xa = \<lparr>xa_before = (\<lambda>_ _. refusal),
                      xa_context_messages = compaction_messages (ec_message_of (hc_env cfg)) (xr_model_context (runtime_of h1))\<rparr>;
                (r, v1) = force_compact z xa (hc_ops cfg) (hc_now cfg n) (hc_clock cfg (n + 1)) custom_instructions
                            (compaction_view cfg h0);
                h2 = snd (in_session cfg 2 (\<lambda>_ s. (Inr (), s)) h1)
            in (r, tell_extensions (observe_compactions (hc_env cfg) (hs_extension_events v1)) (after_compaction v1 h2))))"

text \<open>A summary of the whole session, which stores nothing.\<close>

definition harness_summarize_for_collapse ::
  "('s, 'x, 'u) harness_config \<Rightarrow> ustr option \<Rightarrow> ('s, 'x, 'u) agent_harness \<Rightarrow>
   (ustr + ustr option) \<times> ('s, 'x, 'u) agent_harness" where
  "harness_summarize_for_collapse cfg custom_instructions h =
     (let h = ensure_session_start_emitted cfg h
      in if ag_model (ah_agent h) = None then (Inr None, h)
         else
           (let (z, h0) = on_world (on_user (hc_summarizer cfg)) h;
                xa = \<lparr>xa_before = (\<lambda>_ _. None),
                      xa_context_messages = compaction_messages (ec_message_of (hc_env cfg)) (xr_model_context (runtime_of h0))\<rparr>;
                (r, v) = summarize_for_collapse z xa (hc_ops cfg) custom_instructions (compaction_view cfg h0)
            in (r, after_compaction v h0)))"

subsection \<open>What reaches the agent directly\<close>

definition reset_cost :: "('s, 'x, 'u) agent_harness \<Rightarrow> ('s, 'x, 'u) agent_harness" where
  "reset_cost h = snd (on_world (\<lambda>w. ((), w\<lparr>hw_journal := (hw_journal w)\<lparr>jn_cost := cost_reset\<rparr>\<rparr>)) h)"

definition harness_enqueue_steering :: "agent_message \<Rightarrow> ('s, 'x, 'u) agent_harness \<Rightarrow> ('s, 'x, 'u) agent_harness" where
  "harness_enqueue_steering m h = h\<lparr>ah_agent := enqueue_steering m (ah_agent h)\<rparr>"

definition enqueue_steering_input :: "('s, 'x, 'u) harness_config \<Rightarrow> json \<Rightarrow> ('s, 'x, 'u) agent_harness \<Rightarrow> ('s, 'x, 'u) agent_harness" where
  "enqueue_steering_input cfg input h =
     (let (now, h1) = read_clock cfg h in harness_enqueue_steering (user_input_record_message input now) h1)"

definition harness_enqueue_follow_up :: "agent_message \<Rightarrow> ('s, 'x, 'u) agent_harness \<Rightarrow> ('s, 'x, 'u) agent_harness" where
  "harness_enqueue_follow_up m h = h\<lparr>ah_agent := enqueue_follow_up m (ah_agent h)\<rparr>"

definition harness_abort :: "('s, 'x, 'u) agent_harness \<Rightarrow> ('s, 'x, 'u) agent_harness" where
  "harness_abort h = h\<lparr>ah_agent := abort (ah_agent h)\<rparr>"

definition harness_interrupt :: "('s, 'x, 'u) agent_harness \<Rightarrow> ('s, 'x, 'u) agent_harness" where
  "harness_interrupt h = h\<lparr>ah_agent := interrupt (ah_agent h)\<rparr>"

end
