(* ===== verification/Agent_Observer.thy ===== *)
theory Agent_Observer
  imports Agent_Properties Agent_Tool_Properties
begin

text \<open>
  The interface between the agent loop and those who listen to it. A part \<open>st\<close> of the world is the
  listeners' own (\<open>loop_observer\<close>): it changes by \<open>store\<close> with each event that is emitted and by nothing
  else. Then a run changes it by exactly the events of its log, in their order (\<open>run_heard\<close>), whatever
  the model, the tools and the hooks do with the rest of the world.
\<close>

definition silent :: "('w \<Rightarrow> 'o) \<Rightarrow> ('a \<Rightarrow> 'w \<Rightarrow> 'b \<times> 'w) \<Rightarrow> bool" where
  "silent st f \<longleftrightarrow> (\<forall>x w. st (snd (f x w)) = st w)"

definition quiet_tool :: "('w \<Rightarrow> 'o) \<Rightarrow> 'w agent_tool \<Rightarrow> bool" where
  "quiet_tool st t \<longleftrightarrow> (\<forall>i args w. st (snd (at_execute t i args w)) = st w)"

lemma outside_world [simp]: "ag_world (fold outside_action acts a) = ag_world a"
proof (induction acts arbitrary: a)
  case (Cons x acts)
  have "ag_world (outside_action x a) = ag_world a" by (cases x) (simp_all add: outside_defs)
  with Cons show ?case by simp
qed simp

text \<open>The tools of a call are tools of the agent.\<close>

lemma executable_tools_own: "set (executable_tools r ts) \<subseteq> set ts"
proof -
  have "set (List.map_filter (\<lambda>n. find_tool n ts) ns) \<subseteq> set ts" for ns
    by (induction ns) (auto simp: map_filter_simps find_tool_def find_Some_iff split: option.splits)
  then show ?thesis by (simp add: executable_tools_def)
qed

lemma request_block_tools:
  "request_block opts model sp ms ts lvl a = (Inr call, i, b) \<Longrightarrow> set (mc_executable_tools call) \<subseteq> set ts"
  using executable_tools_own by (fastforce simp: request_block_def Let_def split: prod.splits sum.splits option.splits)

lemma call_llm_tools: "call_llm opts a = (Inr call, b) \<Longrightarrow> set (mc_executable_tools call) \<subseteq> set (ag_tools a)"
  using dedup_tools_facts [of "[]" "ag_tools a"]
  by (auto simp: call_llm_def Let_def split: option.splits prod.splits if_splits dest!: request_block_tools)

locale loop_observer =
  fixes opts :: "'w agent_options"
    and st :: "'w \<Rightarrow> 'o"
    and store :: "loop_event \<Rightarrow> 'o \<Rightarrow> 'o"
  assumes listens: "st (ao_listener opts ev w) = store ev (st w)"
    and interferes: "st (snd (ao_interfere opts w)) = st w"
    and transform_context: "pred_option (silent st) (ao_transform_context opts)"
    and transform_model_request: "pred_option (silent st) (ao_transform_model_request opts)"
    and transform_message: "pred_option (silent st) (ao_transform_message opts)"
    and stream: "silent st (ao_stream opts)"
    and before_tool_call: "pred_option (silent st) (ao_before_tool_call opts)"
    and after_tool_call: "pred_option (silent st) (ao_after_tool_call opts)"
    and transform_tool_result: "pred_option (silent st) (ao_transform_tool_result opts)"
    and prompts: "pred_option (silent st) (ao_on_control_plane_prompt opts)"
    and should_stop: "pred_option (silent st) (ao_should_stop_after_turn opts)"
    and prepare_next_turn: "pred_option (silent st) (ao_prepare_next_turn opts)"
    and finalizes_usage: "st (snd (ao_finalize_usage opts c u w)) = st w"
    and context_kept: "keeps_context opts"
begin

definition heard :: "'w agent \<Rightarrow> 'w agent \<Rightarrow> bool" where
  "heard a b \<longleftrightarrow>
     (\<exists>l. ag_log b = ag_log a @ l \<and> st (ag_world b) = fold store l (st (ag_world a))) \<and> ag_tools b = ag_tools a"

lemma heard_refl [simp]: "heard a a"
  by (simp add: heard_def)

lemma heard_trans [trans]: "heard a b \<Longrightarrow> heard b c \<Longrightarrow> heard a c"
  unfolding heard_def by (elim conjE exE) (intro conjI exI, auto)

lemma heard_update:
  "heard a b \<Longrightarrow> ag_log c = ag_log b \<Longrightarrow> ag_world c = ag_world b \<Longrightarrow> ag_tools c = ag_tools b \<Longrightarrow> heard a c"
  by (simp add: heard_def)

lemma heard_from:
  "heard b c \<Longrightarrow> ag_log a = ag_log b \<Longrightarrow> ag_world a = ag_world b \<Longrightarrow> ag_tools a = ag_tools b \<Longrightarrow> heard a c"
  by (simp add: heard_def)

lemma heard_tools: "heard a b \<Longrightarrow> ag_tools b = ag_tools a"
  by (simp add: heard_def)

lemma interfere_world: "st (ag_world (interfere opts a)) = st (ag_world a)"
  using interferes [of "ag_world a"] by (auto simp: interfere_def split: prod.split)

lemma interfere_heard: "heard a (interfere opts a)"
  by (simp add: heard_def interfere_world)

lemma await_heard: "silent st f \<Longrightarrow> await opts (f x) a = (y, b) \<Longrightarrow> heard a b"
proof -
  assume s: "silent st f" and w: "await opts (f x) a = (y, b)"
  then have "st (ag_world b) = st (ag_world a)"
    by (auto simp: await_def interfere_world silent_def split: prod.splits) (metis snd_conv)
  with await_frame [OF w] show ?thesis by (simp add: heard_def)
qed

lemma hook_heard:
  "pred_option (silent st) h \<Longrightarrow> (case h of Some f \<Rightarrow> await opts (f x) a | None \<Rightarrow> (d, a)) = (y, b) \<Longrightarrow> heard a b"
  by (auto split: option.splits intro: await_heard)

lemma emit_heard: "heard a (emit opts ev a)"
proof -
  have "st (ag_world (emit opts ev a)) = store ev (st (ag_world a))"
    by (simp add: emit_def interfere_world listens)
  then show ?thesis by (simp add: heard_def)
qed

lemma emit_then_heard: "heard a b \<Longrightarrow> heard a (emit opts ev b)"
  using heard_trans emit_heard by blast

lemma emit_all_heard: "heard a (emit_all opts evs a)"
proof (induction evs arbitrary: a)
  case (Cons ev evs)
  show ?case using heard_trans [OF emit_heard Cons.IH] by (simp add: emit_all_def)
qed (simp add: emit_all_def)

subsection \<open>Requests\<close>

lemma stream_step_heard: "stream_step opts ev lst a = (e, lst', b) \<Longrightarrow> heard a b"
proof -
  have u: "heard a (a\<lparr>ag_streaming_message := x\<rparr>)" for x by (rule heard_update [OF heard_refl]) simp_all
  have "heard a (emit opts (MessageUpdate m ev') (a\<lparr>ag_streaming_message := x\<rparr>))" for m ev' x
    by (rule emit_then_heard [OF u])
  moreover have "heard a ((emit opts (MessageStart m) a)\<lparr>ag_streaming_message := x\<rparr>)" for m x
    by (rule heard_update [OF emit_heard]) simp_all
  moreover note u
  moreover assume "stream_step opts ev lst a = (e, lst', b)"
  ultimately show ?thesis
    by (auto simp: stream_step_def split: assistant_message_event.splits option.splits)
qed

lemma stream_loop_heard: "stream_loop opts evs lst a = (r, b) \<Longrightarrow> heard a b"
proof (induction evs arbitrary: lst a)
  case Nil
  then show ?case
    by (auto simp: stream_loop.simps [of opts "[]"] Let_def split: if_splits intro: interfere_heard)
next
  case (Cons ev evs)
  obtain e lst1 a1 where s: "stream_step opts ev lst (interfere opts a) = (e, lst1, a1)" by (metis prod_cases3)
  from heard_trans [OF interfere_heard stream_step_heard [OF s]] have "heard a a1" .
  with Cons.prems s show ?case
    by (cases e) (auto simp: stream_loop.simps [of opts "ev # evs"] Let_def split: if_splits
        dest!: Cons.IH intro: heard_trans interfere_heard)
qed

lemma request_block_heard: "request_block opts model sp ms ts lvl a = (r, i, b) \<Longrightarrow> heard a b"
proof -
  assume r: "request_block opts model sp ms ts lvl a = (r, i, b)"
  obtain ms1 a1 where 1: "(case ao_transform_context opts of Some f \<Rightarrow> await opts (f ms) a | None \<Rightarrow> (ms, a)) = (ms1, a1)"
    by force
  define base where "base = base_request model sp (ao_convert_to_llm opts ms1 (ag_world a1)) ts lvl"
  obtain tr a2 where 2: "(case ao_transform_model_request opts of Some f \<Rightarrow> await opts (f base) a1 | None \<Rightarrow> (base, a1)) = (tr, a2)"
    by force
  have g: "heard a a2" by (rule heard_trans [OF hook_heard [OF transform_context 1] hook_heard [OF transform_model_request 2]])
  have fin: "heard a b'" if "ao_stream opts x0 (ag_world a2) = (evs, w)"
      "stream_loop opts evs None (a2\<lparr>ag_world := w\<rparr>) = (x, c)"
      "ag_log b' = ag_log c" "st (ag_world b') = st (ag_world c)" "ag_tools b' = ag_tools c"
    for x0 evs w x c b'
  proof -
    have "st w = st (ag_world a2)" using stream that(1) by (metis silent_def snd_conv)
    then have "heard a2 (a2\<lparr>ag_world := w\<rparr>)" by (simp add: heard_def)
    from heard_trans [OF g heard_trans [OF this stream_loop_heard [OF that(2)]]] that(3-5) show ?thesis
      by (simp add: heard_def)
  qed
  have fin': "heard a (c\<lparr>ag_streaming_message := None, ag_world := w'\<rparr>)"
    if "ao_stream opts x0 (ag_world a2) = (evs, w)" "stream_loop opts evs None (a2\<lparr>ag_world := w\<rparr>) = (x, c)"
      "ao_finalize_usage opts ct us (ag_world c) = (u', w')" for x0 evs w x c ct us u' w'
    by (rule fin [OF that(1,2)]) (use finalizes_usage [of ct us "ag_world c"] that(3) in simp_all)
  from r [unfolded request_block_def 1 Let_def, simplified, folded base_def, unfolded 2, simplified] show ?thesis
    by (auto split: prod.splits sum.splits option.splits intro: fin fin')
qed

lemma call_llm_heard: "call_llm opts a = (r, b) \<Longrightarrow> heard a b"
proof -
  assume c: "call_llm opts a = (r, b)"
  show ?thesis
  proof (cases "ag_model a")
    case None
    with c show ?thesis by (auto simp: call_llm_def)
  next
    case (Some model)
    obtain parent ctx where p: "turn_observation opts a = (parent, ctx)" by force
    obtain sc obs where s: "scope_start parent ctx (DetLlmRequest (mo_provider model) (mo_id model)) (ag_obs a) = (sc, obs)" by force
    obtain r1 i a1 where q: "request_block opts model (ag_system_prompt a) (ag_messages a) (dedup_tools [] (ag_tools a))
        (ag_thinking_level a) (a\<lparr>ag_obs := obs\<rparr>) = (r1, i, a1)" by (metis prod_cases3)
    have g: "heard a a1" by (rule heard_from [OF request_block_heard [OF q]]) simp_all
    have "heard a (a1\<lparr>ag_obs := x\<rparr>)" for x by (rule heard_update [OF g]) simp_all
    then show ?thesis
      using c by (auto simp: call_llm_def Some p s q Let_def split: prod.splits if_splits simp del: sum.case)
  qed
qed

subsection \<open>Tool calls\<close>

lemma ask_prompt_heard: "ask_prompt opts req a = (d, b) \<Longrightarrow> heard a b"
proof -
  obtain d1 a1 where h: "(case ao_on_control_plane_prompt opts of Some f \<Rightarrow> await opts (f req) a | None \<Rightarrow> (fail_closed, a)) = (d1, a1)"
    by force
  then show "heard a b" if "ask_prompt opts req a = (d, b)"
    using that emit_then_heard [OF hook_heard [OF prompts h]] by (auto simp: ask_prompt_def Let_def)
qed

lemma before_heard: "ao_before_tool_call opts = Some f \<Longrightarrow> await opts (f x) a = (y, b) \<Longrightarrow> heard a b"
  using before_tool_call await_heard by simp

lemma prepare_call_heard: "prepare_call opts m snap ctx tc a = (p, b) \<Longrightarrow> heard a b"
  by (auto simp: prepare_call_def Let_def
      split: permission_classification.splits prod.splits if_splits option.splits
      intro: before_heard ask_prompt_heard heard_trans [OF before_heard ask_prompt_heard])

lemma prepare_calls_heard: "prepare_calls opts m snap ctx tcs a = (ps, b) \<Longrightarrow> heard a b"
  by (induction tcs arbitrary: a ps)
    (auto simp: Let_def split: prod.splits dest!: prepare_call_heard intro: heard_trans)

fun quiet_call :: "'w prepared_call \<Rightarrow> bool" where
  "quiet_call (Run _ _ _ t) = quiet_tool st t"
| "quiet_call (Blocked _ _ _ _) = True"

lemma execute_heard:
  assumes "quiet_tool st t" and "await opts (at_execute t i args) a = (y, b)"
  shows "heard a b"
proof -
  from assms(1) have "silent st (\<lambda>_::unit. at_execute t i args)" by (simp add: silent_def quiet_tool_def)
  from await_heard [OF this assms(2)] show ?thesis .
qed

lemma run_one_heard:
  assumes "run_one opts call a = (r, b)" and "quiet_call call"
  shows "heard a b"
proof -
  obtain parent ctx where p: "turn_observation opts a = (parent, ctx)" by force
  obtain sc obs where s: "scope_start parent ctx (DetToolExecution (call_name call)) (ag_obs a) = (sc, obs)" by force
  let ?a0 = "a\<lparr>ag_obs := obs\<rparr>"
  have close: "heard a (close_tool opts sc call out c)" if "heard a c" for out c
    by (rule heard_update [OF that]) (simp_all add: close_tool_def Let_def)
  show ?thesis
  proof (cases call)
    case (Blocked i name args result)
    have "heard a ?a0" by (rule heard_update [OF heard_refl]) simp_all
    from close [OF this] show ?thesis using assms s Blocked by (auto simp: run_one_def p Let_def)
  next
    case (Run i name args tool)
    obtain updates exit a1 where e: "await opts (at_execute tool i args) (emit opts (ToolExecutionStart i name args) ?a0) = ((updates, exit), a1)"
      by (metis prod.collapse)
    define a2 where "a2 = emit_all opts (map (ToolExecutionUpdate i name args) updates) a1"
    have "heard ?a0 (emit opts (ToolExecutionStart i name args) ?a0)" by (rule emit_heard)
    also have "heard (emit opts (ToolExecutionStart i name args) ?a0) a1"
      using execute_heard [OF _ e] assms(2) Run by simp
    also have "heard a1 a2" unfolding a2_def by (rule emit_all_heard)
    finally have g: "heard a a2" by (rule heard_from) simp_all
    have "heard a (a2\<lparr>ag_obs := x\<rparr>)" for x by (rule heard_update [OF g]) simp_all
    then show ?thesis
      using assms s e close [OF g] Run by (cases exit) (auto simp: run_one_def p a2_def [symmetric] Let_def)
  qed
qed

lemma run_sequential_heard:
  "run_sequential opts cs a = (r, b) \<Longrightarrow> \<forall>c\<in>set cs. quiet_call c \<Longrightarrow> heard a b"
  by (induction cs arbitrary: a r)
    (auto split: prod.splits sum.splits option.splits dest!: run_one_heard intro: heard_trans)

lemma run_tasks_heard:
  "run_tasks opts calls is outs a = (r, b) \<Longrightarrow> \<forall>i\<in>set is. quiet_call (calls ! i) \<Longrightarrow> heard a b"
  by (induction "is" arbitrary: outs a)
    (auto split: prod.splits sum.splits dest!: run_one_heard intro: heard_trans)

lemma patch_with_heard:
  "pred_option (silent st) h \<Longrightarrow> patch_with opts h m ctx out a = (r, b) \<Longrightarrow> heard a b"
  by (auto simp: patch_with_def Let_def split: option.splits prod.splits intro: await_heard)

lemma finish_outcome_heard: "finish_outcome opts m ctx out a = (r, b) \<Longrightarrow> heard a b"
proof -
  assume f: "finish_outcome opts m ctx out a = (r, b)"
  obtain o1 a1 where 1: "patch_with opts (ao_after_tool_call opts) m ctx out a = (o1, a1)" by force
  define a2 where "a2 = (if to_executed o1 then emit opts (ToolExecutionEnd (to_id o1) (to_name o1) (to_result o1) (to_is_error o1)) a1 else a1)"
  obtain o2 a3 where 3: "patch_with opts (ao_transform_tool_result opts) m ctx o1 a2 = (o2, a3)" by force
  have "heard a a1" by (rule patch_with_heard [OF after_tool_call 1])
  also have "heard a1 a2" by (auto simp: a2_def intro: emit_heard)
  also have "heard a2 a3" by (rule patch_with_heard [OF transform_tool_result 3])
  finally show ?thesis using f by (simp add: finish_outcome_def 1 3 a2_def [symmetric] Let_def)
qed

lemma finish_outcomes_heard: "finish_outcomes opts m ctx outs a = (r, b) \<Longrightarrow> heard a b"
  by (induction outs arbitrary: a r)
    (auto simp: Let_def split: prod.splits dest!: finish_outcome_heard intro: heard_trans)

lemma execute_tools_heard:
  assumes "execute_tools_with_snapshot opts m snap a = (r, b)" and "\<forall>t\<in>set snap. quiet_tool st t"
  shows "heard a b"
proof (cases "tool_calls_of m = []")
  case True
  with assms show ?thesis by (auto simp: execute_tools_with_snapshot_def)
next
  case False
  from execute_tools_run [OF assms(1) this] obtain ps a1 outs a2 where
    p: "prepare_calls opts m snap (snapshot_context a) (tool_calls_of m) a = (ps, a1)" and
    e: "run_sequential opts ps a1 = (outs, a2) \<or> (\<exists>os. run_parallel opts ps a1 = (os, a2) \<and> outs = Some os)" and
    f: "outs = None \<and> r = None \<and> b = a2 \<or>
        (\<exists>os rs t. outs = Some os \<and> r = Some (rs, t) \<and> finish_outcomes opts m (snapshot_context a2) os a2 = ((rs, t), b))" .
  have q: "quiet_call c" if "c \<in> set ps" for c
    using prepare_calls_facts [OF p] that assms(2) by (cases c) auto
  have "heard a1 a2"
    using e
  proof
    assume "run_sequential opts ps a1 = (outs, a2)"
    with q show ?thesis by (auto intro: run_sequential_heard)
  next
    assume "\<exists>os. run_parallel opts ps a1 = (os, a2) \<and> outs = Some os"
    then obtain om where "run_tasks opts ps (task_order (length ps) (ao_order opts (length ps) (ag_world a1))) Map.empty a1 = (om, a2)"
      by (auto simp: run_parallel_def Let_def split: prod.splits)
    with q show ?thesis by (rule_tac run_tasks_heard) (auto simp: set_task_order)
  qed
  moreover have "heard a2 b" using f finish_outcomes_heard heard_refl by blast
  ultimately show ?thesis using heard_trans [OF heard_trans [OF prepare_calls_heard [OF p]]] by blast
qed

end

context loop_observer
begin

subsection \<open>Messages and turns\<close>

lemma finish_message_heard: "finish_message opts m a = (m', b) \<Longrightarrow> heard a b"
proof -
  assume f: "finish_message opts m a = (m', b)"
  have push: "heard c (emit opts (MessageEnd x) (c\<lparr>ag_messages := y\<rparr>))" for c x y
    by (rule emit_then_heard [OF heard_update [OF heard_refl]]) simp_all
  have "heard a (emit opts (MessageEnd x) (c\<lparr>ag_messages := y\<rparr>))"
    if "ao_transform_message opts = Some g" "await opts (g m) a = (z, c)" for g z c x y
    using heard_trans [OF await_heard push] transform_message that by auto
  with push f show ?thesis
    by (auto simp: finish_message_def Let_def split: option.splits prod.splits)
qed

lemma start_message_heard: "start_message opts m a = (m', b) \<Longrightarrow> heard a b"
  unfolding start_message_def by (rule heard_trans [OF emit_heard finish_message_heard])

lemma start_messages_heard: "start_messages opts ms a = (ms', b) \<Longrightarrow> heard a b"
  by (induction ms arbitrary: a ms')
    (auto simp: Let_def split: prod.splits dest!: start_message_heard intro: heard_trans)

lemma start_messages_then: "heard a b \<Longrightarrow> heard a (snd (start_messages opts ms b))"
  using heard_trans start_messages_heard by (metis prod.collapse)

lemma finalize_partial_heard: "heard a (finalize_partial_turn opts a)"
proof (cases "ag_streaming_message a")
  case (Some m)
  have g: "heard a (a\<lparr>ag_streaming_message := None\<rparr>)" by (rule heard_update [OF heard_refl]) simp_all
  from heard_trans [OF this finish_message_heard] have "heard a (snd (finish_message opts m (a\<lparr>ag_streaming_message := None\<rparr>)))"
    by (metis prod.collapse)
  with g Some show ?thesis by (simp add: finalize_partial_turn_def Let_def)
qed (simp add: finalize_partial_turn_def)

lemma drain_heard:
  "heard a b \<Longrightarrow> drain_steering b = (ms, c) \<Longrightarrow> heard a c" "heard a b \<Longrightarrow> drain_follow_up b = (ms, c) \<Longrightarrow> heard a c"
  by (auto simp: drain_steering_def drain_follow_up_def heard_def split: prod.splits)

lemma interrupted_turn_heard: "interrupted_turn opts sc a = (p, b) \<Longrightarrow> heard a b"
proof -
  assume i: "interrupted_turn opts sc a = (p, b)"
  define a0 where "a0 = close_turn sc OInterrupted (Some ECancellation) default_measurements (a\<lparr>ag_turn_cancel := None\<rparr>)"
  define a1 where "a1 = finalize_partial_turn opts a0"
  obtain steering a2 where 2: "drain_steering a1 = (steering, a2)" by force
  obtain queued a3 where 3: "(if steering = [] then drain_follow_up a2 else (steering, a2)) = (queued, a3)" by force
  have "heard a a0" by (rule heard_update [OF heard_refl]) (simp_all add: a0_def close_turn_def)
  from drain_heard(1) [OF heard_trans [OF this finalize_partial_heard] 2 [unfolded a1_def]] have "heard a a2" .
  then have c: "heard a a3" using 3 by (auto split: if_splits intro: drain_heard(2))
  have "heard a (a3\<lparr>ag_error_message := x\<rparr>)" for x by (rule heard_update [OF c]) simp_all
  then show ?thesis
    using i 2 3 start_messages_then [OF c]
    by (auto simp: interrupted_turn_def a0_def [symmetric] a1_def [symmetric] Let_def split: if_splits prod.splits)
qed

lemma failed_turn_heard: "failed_turn sc err a = (p, b) \<Longrightarrow> heard a b"
  by (rule heard_update [OF heard_refl]) (auto simp: failed_turn_def close_turn_def Let_def)

lemma after_turn_heard: "after_turn opts m rs t a = (p, b) \<Longrightarrow> heard a b"
proof -
  assume f: "after_turn opts m rs t a = (p, b)"
  obtain stop a1 where 1: "(case ao_should_stop_after_turn opts of
      Some f \<Rightarrow> await opts (f (turn_context_of m rs a)) a | None \<Rightarrow> (False, a)) = (stop, a1)" by force
  have g1: "heard a a1" by (rule hook_heard [OF should_stop 1])
  define a2 where "a2 = (case ao_prepare_next_turn opts of
      Some f \<Rightarrow> (let (update, a2) = await opts (f (turn_context_of m rs a1)) a1
                 in case update of Some u \<Rightarrow> apply_turn_update u a2 | None \<Rightarrow> a2)
    | None \<Rightarrow> a1)"
  have "heard a1 a2"
  proof (cases "ao_prepare_next_turn opts")
    case (Some f)
    obtain update b' where aw: "await opts (f (turn_context_of m rs a1)) a1 = (update, b')" by force
    then have u: "fst (f (turn_context_of m rs a1) (ag_world a1)) = update"
      by (auto simp: await_def split: prod.splits)
    have "tu_context v = None" if "update = Some v" for v
      using u that Some context_kept by (auto simp: keeps_context_def split: option.splits)
    then have "update = Some v \<Longrightarrow> heard b' (apply_turn_update v b')" for v
      by (auto simp: heard_def apply_turn_update_def Let_def split: option.split)
    moreover have "heard a1 b'" using await_heard [of f "turn_context_of m rs a1" a1 update b'] aw prepare_next_turn Some by simp
    ultimately show ?thesis
      by (auto simp: a2_def Some aw split: option.split intro: heard_trans)
  qed (simp add: a2_def)
  with g1 have g2: "heard a a2" by (rule heard_trans)
  obtain steering a3 where 3: "drain_steering a2 = (steering, a3)" by force
  obtain queued a4 where 4: "(if am_stop_reason m \<noteq> ToolUse \<and> steering = [] then drain_follow_up a3 else (steering, a3)) = (queued, a4)"
    by force
  have "heard a a4" using drain_heard(1) [OF g2 3] 4 by (auto split: if_splits intro: drain_heard(2))
  with f g1 3 4 show ?thesis
    by (auto simp: after_turn_def 1 a2_def [symmetric] Let_def split: if_splits prod.splits intro: start_messages_then)
qed

lemma completed_turn_heard:
  assumes f: "completed_turn opts sc call a = (p, b)" and "\<forall>t\<in>set (mc_executable_tools call). quiet_tool st t"
  shows "heard a b"
proof -
  obtain m1 a1 where 1: "finish_message opts (Llm (Assistant (mc_message call))) (a\<lparr>ag_turn_cancel := None\<rparr>) = (m1, a1)" by force
  have g1: "heard a a1" by (rule heard_from [OF finish_message_heard [OF 1]]) simp_all
  have dropped: "heard a (c\<lparr>ag_obs := x\<rparr>)" if "heard a c" for c x by (rule heard_update [OF that]) simp_all
  show ?thesis
  proof (cases "\<exists>assistant. m1 = Llm (Assistant assistant)")
    case False
    with f 1 g1 dropped show ?thesis
      by (cases m1; simp add: completed_turn_def split: llm_message.splits) auto
  next
    case True
    then obtain assistant where m1: "m1 = Llm (Assistant assistant)" by blast
    obtain res a2 where 2: "execute_tools_with_snapshot opts assistant (mc_executable_tools call) a1 = (res, a2)" by force
    have g2: "heard a a2" by (rule heard_trans [OF g1 execute_tools_heard [OF 2 assms(2)]])
    show ?thesis
    proof (cases res)
      case None
      with f 1 2 m1 dropped [OF g2] show ?thesis by (auto simp: completed_turn_def)
    next
      case (Some rt)
      obtain results all_terminate where rt: "rt = (results, all_terminate)" by force
      obtain fin a3 where 3: "start_messages opts (map (\<lambda>r. Llm (ToolResult r)) results) a2 = (fin, a3)" by force
      have g3: "heard a a3" by (rule heard_trans [OF g2 start_messages_heard [OF 3]])
      have g5: "heard a (close_turn sc out cat ms (emit opts ev a3))" for out cat ms ev
        by (rule heard_update [OF emit_then_heard [OF g3, of ev]]) (simp_all add: close_turn_def)
      show ?thesis
        using f 1 2 3 m1 Some rt heard_trans [OF g5 after_turn_heard]
        by (auto simp: completed_turn_def Let_def split: prod.splits)
    qed
  qed
qed

lemma turn_pass_heard:
  assumes f: "turn_pass opts i c a = (p, c', b)" and q: "\<forall>t\<in>set (ag_tools a). quiet_tool st t"
  shows "heard a b"
proof -
  define a1 where "a1 = emit opts TurnStart a"
  define turn where "turn = cn_turn_index c"
  obtain sc obs where s: "scope_start (Some i) (with_turn (ao_observation_context opts) turn) (DetTurn turn) (ag_obs a1) = (sc, obs)"
    by force
  define a2 where "a2 = a1\<lparr>ag_obs := obs, ag_active_turn := Some (sc_id sc, turn), ag_turn_cancel := Some False\<rparr>"
  have g2: "heard a a2" by (rule heard_update [OF emit_heard [of a TurnStart]]) (simp_all add: a1_def a2_def)
  obtain r a3 where call: "call_llm opts a2 = (r, a3)" by force
  have g3: "heard a a3" by (rule heard_trans [OF g2 call_llm_heard [OF call]])
  have upd: "heard a (a\<lparr>ag_error_message := x\<rparr>)" for x by (rule heard_update [OF heard_refl]) simp_all
  note simps = turn_pass_def Let_def a1_def [symmetric] turn_def [symmetric] s a2_def [symmetric] call
  show ?thesis
  proof (cases "is_cancelled a \<or> (case ao_max_iterations opts of Some m \<Rightarrow> m \<le> cn_iterations c | None \<Rightarrow> False)")
    case True
    with f upd show ?thesis by (auto simp: turn_pass_def Let_def split: if_splits)
  next
    case False
    show ?thesis
    proof (cases r)
      case (Inr mc)
      obtain x y a4 where t: "completed_turn opts sc mc a3 = ((x, y), a4)" by (metis prod.collapse)
      have "\<forall>t\<in>set (mc_executable_tools mc). quiet_tool st t"
        using call_llm_tools [OF call [unfolded Inr]] q heard_tools [OF g2] by auto
      from heard_trans [OF g3 completed_turn_heard [OF t this]] show ?thesis
        using f False Inr t by (auto simp: simps)
    next
      case (Inl err)
      obtain x a4 where 4: "interrupted_turn opts sc a3 = (x, a4)" by force
      obtain y a5 where 5: "failed_turn sc err a3 = (y, a5)" by force
      from f False Inl 4 5 heard_trans [OF g3 interrupted_turn_heard [OF 4]] heard_trans [OF g3 failed_turn_heard [OF 5]]
      show ?thesis by (cases err) (auto simp: simps)
    qed
  qed
qed

lemma turn_loop_heard:
  assumes "turn_loop opts i c a = Some y" and "\<forall>t\<in>set (ag_tools a). quiet_tool st t"
  shows "heard a (snd (snd y))"
proof -
  have "o' = opts \<Longrightarrow> \<forall>t\<in>set (ag_tools a). quiet_tool st t \<Longrightarrow> turn_loop o' i c a = Some y \<Longrightarrow> heard a (snd (snd y))"
    for o' i c a y
  proof (rule turn_loop.raw_induct [where P = "\<lambda>o' i c a y. o' = opts \<longrightarrow> (\<forall>t\<in>set (ag_tools a). quiet_tool st t) \<longrightarrow>
        heard a (snd (snd y))", THEN mp, THEN mp])
    fix loop and o' :: "'w agent_options" and i c a y
    assume ih: "\<And>o' i c a y. loop o' i c a = Some y \<Longrightarrow>
        o' = opts \<longrightarrow> (\<forall>t\<in>set (ag_tools a). quiet_tool st t) \<longrightarrow> heard a (snd (snd y))"
      and step: "(case turn_pass o' i c a of (Leave r, c1, a1) \<Rightarrow> Some (r, c1, a1)
                  | (Again, c1, a1) \<Rightarrow> loop o' i c1 a1) = Some y"
    show "o' = opts \<longrightarrow> (\<forall>t\<in>set (ag_tools a). quiet_tool st t) \<longrightarrow> heard a (snd (snd y))"
    proof (intro impI)
      assume o: "o' = opts" and q: "\<forall>t\<in>set (ag_tools a). quiet_tool st t"
      obtain p c1 a1 where p: "turn_pass opts i c a = (p, c1, a1)" by (metis prod_cases3)
      note g = turn_pass_heard [OF p q]
      show "heard a (snd (snd y))"
      proof (cases p)
        case (Leave r)
        with step p o have "snd (snd y) = a1" by auto
        with g show ?thesis by simp
      next
        case Again
        with step p o have "loop opts i c1 a1 = Some y" by simp
        with ih q heard_tools [OF g] have "heard a1 (snd (snd y))" by simp
        with g show ?thesis by (rule heard_trans)
      qed
    qed
  qed
  with assms show ?thesis by blast
qed

lemma drive_loop_heard:
  assumes "drive_loop opts a = Some (r, b)" and "\<forall>t\<in>set (ag_tools a). quiet_tool st t"
  shows "heard a b"
proof -
  obtain sc obs where s: "scope_start (ao_observation_parent opts) (ao_observation_context opts) DetAgentRun (ag_obs a) = (sc, obs)"
    by force
  define a0 where "a0 = a\<lparr>ag_obs := obs, ag_active_run := Some (sc_id sc)\<rparr>"
  from assms(1) obtain q c' a1 where t: "turn_loop opts (sc_id sc) counters_zero a0 = Some (q, c', a1)"
    by (auto simp: drive_loop_def s counters_zero_def [symmetric] a0_def [symmetric] split: option.splits)
  from turn_loop_heard [OF t] assms(2) have g: "heard a a1" by (auto simp: a0_def intro: heard_from)
  have u: "heard a (a1\<lparr>ag_active_turn := None, ag_active_run := None, ag_obs := x\<rparr>)" "heard a (a1\<lparr>ag_obs := x\<rparr>)" for x
    by (rule heard_update [OF g]; simp)+
  show ?thesis
    using assms(1) t u
    by (cases q) (auto simp: drive_loop_def s counters_zero_def [symmetric] a0_def [symmetric] Let_def split: prod.splits)
qed

lemma end_run_heard:
  assumes "end_run opts (drive_loop opts a) = Some (r, b)" and "\<forall>t\<in>set (ag_tools a). quiet_tool st t"
  shows "heard a b"
proof -
  from assms(1) obtain q a1 where d: "drive_loop opts a = Some (q, a1)" by (auto simp: end_run_def split: option.splits)
  note g = drive_loop_heard [OF d assms(2)]
  have "heard a (release_run c)" if "heard a c" for c
    by (rule heard_update [OF that]) (simp_all add: release_run_def)
  with assms(1) d g emit_then_heard [OF g] show ?thesis
    by (cases q) (auto simp: end_run_def finalize_run_def)
qed

lemma run_heard:
  assumes "run_agent_loop opts ms a = Some (r, b)" and "\<forall>t\<in>set (ag_tools a). quiet_tool st t"
  shows "heard a b"
proof (cases "ag_run_active a")
  case True
  with assms show ?thesis by (simp add: run_agent_loop_def acquire_permit_def)
next
  case False
  define a1 where "a1 = (admitted a)\<lparr>ag_active_cancel := Some False\<rparr>"
  define a2 where "a2 = snd (start_messages opts ms (emit opts RunStarted a1))"
  have "heard a a1" by (rule heard_update [OF heard_refl]) (simp_all add: a1_def admitted_def)
  then have g: "heard a a2" unfolding a2_def by (rule start_messages_then [OF emit_then_heard])
  have "end_run opts (drive_loop opts a2) = Some (r, b)"
    using assms False by (simp add: run_agent_loop_def acquire_permit_def a1_def a2_def admitted_def)
  from end_run_heard [OF this] assms(2) heard_tools [OF g] have "heard a2 b" by simp
  with g show ?thesis by (rule heard_trans)
qed

lemma continue_heard:
  assumes "run_agent_loop_continue opts a = Some (r, b)" and "\<forall>t\<in>set (ag_tools a). quiet_tool st t"
  shows "heard a b"
proof (cases "ag_run_active a")
  case True
  with assms show ?thesis by (simp add: run_agent_loop_continue_def acquire_permit_def)
next
  case False
  have rel: "heard a (release_run (admitted a))"
    by (rule heard_update [OF heard_refl]) (simp_all add: release_run_def admitted_def)
  have "heard a ((admitted a)\<lparr>ag_active_cancel := Some False\<rparr>)"
    by (rule heard_update [OF heard_refl]) (simp_all add: admitted_def)
  then have g: "heard a (emit opts RunStarted ((admitted a)\<lparr>ag_active_cancel := Some False\<rparr>))" by (rule emit_then_heard)
  show ?thesis
    using assms False rel heard_trans [OF g end_run_heard] heard_tools [OF g]
    by (auto simp: run_agent_loop_continue_def acquire_permit_def admitted_def split: if_splits)
qed

end

end
