(* ===== verification/Harness_Facts.thy ===== *)
theory Harness_Facts
  imports Harness_Run Agent_Observer
begin

text \<open>
  Facts about the harness: its agent's options are an instance of \<open>loop_observer\<close>, so a run changes the
  journal by the events of its log alone; what the listeners store of a log over any session storage; and
  which parts of the harness the operations around a run leave as they were.
\<close>

subsection \<open>The listeners of a harness observe its loop\<close>

lemma silent_runtime [simp]: "silent hw_journal (\<lambda>x. on_runtime (f x))"
  by (auto simp: silent_def on_runtime_def split: prod.split)

lemma silent_runtime_world [simp]: "silent hw_journal (\<lambda>x w. on_runtime (f x w) w)"
  by (auto simp: silent_def on_runtime_def split: prod.split)

lemma silent_user [simp]: "silent hw_journal (\<lambda>x. on_user (f x))"
  by (auto simp: silent_def on_user_def split: prod.split)

lemma silent_context: "silent hw_journal (harness_transform_context cfg)"
  by (auto simp: silent_def harness_transform_context_def on_runtime_def apfst_def split: prod.split)

lemma silent_before: "silent hw_journal (harness_before_tool_call cfg)"
  by (auto simp: silent_def harness_before_tool_call_def on_runtime_def on_user_def Let_def split: prod.split option.split)

interpretation harness: loop_observer "harness_agent_options cfg" hw_journal
    "store_event (hc_ops cfg) (hc_now cfg) (hc_add cfg)" for cfg
proof unfold_locales
  show "keeps_context (harness_agent_options cfg)"
    by (simp add: keeps_context_def harness_agent_options_def)
qed (auto simp: harness_agent_options_def harness_listener_def silent_context silent_before option.pred_map option.pred_True comp_def
    on_user_def split: prod.split)

subsection \<open>What the listeners store\<close>

text \<open>The messages that an assembly of the branch gives, read at the given times.\<close>

definition assembles ::
  "'s storage_ops \<Rightarrow> (nat \<Rightarrow> int) \<Rightarrow> (ustr \<Rightarrow> int option) \<Rightarrow> 's \<Rightarrow> agent_message list \<Rightarrow> bool" where
  "assembles ops clock parse s ms \<longleftrightarrow>
     (\<exists>c. build_context ops clock parse s = (Inr c, s) \<and> sc_messages c = ms)"

text \<open>With \<open>n\<close> listeners each message is stored \<open>n\<close> times.\<close>

definition copies :: "nat \<Rightarrow> agent_message list \<Rightarrow> agent_message list" where
  "copies n ms = concat (map (replicate n) ms)"

lemma copies_simps [simp]:
  "copies n [] = []" "copies n (m # ms) = replicate n m @ copies n ms" "copies n (ms @ ks) = copies n ms @ copies n ks"
  by (simp_all add: copies_def)

lemma copies_one [simp]: "copies (Suc 0) ms = ms"
  by (induction ms) auto

context session_storage
begin

lemma assembles_branch:
  "assembles ops clock parse s ms \<longleftrightarrow>
     (\<exists>p. branch ops None s = (Inr p, s) \<and> sc_messages (build_session_context clock parse p) = ms)"
  by (auto simp: assembles_def build_context_def sbind_def sret_def split: prod.splits sum.splits)

text \<open>Appending an entry that is no compaction adds its messages.\<close>

lemma append_child_assembles:
  assumes inv: "session_inv s" and ctx: "assembles ops clock parse s ms"
    and mk: "\<And>i p. entry_id (mk i p) = i" "\<And>i p. entry_parent_id (mk i p) = p"
    and plain: "\<And>i p. \<not> is_compaction (mk i p)" "\<And>i p k. entry_messages clock parse k (mk i p) = new"
  shows "\<exists>i s'. sbind (so_create_entry_id ops)
                  (\<lambda>i. sbind (so_get_leaf_id ops) (\<lambda>parent. append_typed ops (mk i parent))) s = (Inr i, s') \<and>
                session_inv s' \<and> assembles ops clock parse s' (ms @ new)"
proof -
  from append_child [OF inv mk] obtain i s' where s':
    "sbind (so_create_entry_id ops) (\<lambda>i. sbind (so_get_leaf_id ops) (\<lambda>parent. append_typed ops (mk i parent))) s = (Inr i, s')"
    "session_inv s'" "i \<notin> minted s" "ents s' = ents s @ [mk i (leaf s)]" "leaf s' = Some i" by blast
  from ctx obtain p where p: "branch ops None s = (Inr p, s)" "sc_messages (build_session_context clock parse p) = ms"
    by (auto simp: assembles_branch)
  have "entry_id (mk i (leaf s)) \<notin> entry_id ` set (ents s)"
    using inv s'(3) mk by (auto simp: session_inv_def)
  moreover have "path_of (ents s) (entry_parent_id (mk i (leaf s))) = Inr p"
    using p(1) mk inv_ok [OF inv] by (simp add: branch_eq)
  ultimately have "path_of (ents s') (leaf s') = Inr (p @ [mk i (leaf s)])"
    using path_of_snoc [of "mk i (leaf s)" "ents s" p] s' mk by simp
  then have "branch ops None s' = (Inr (p @ [mk i (leaf s)]), s')"
    using inv_ok [OF s'(2)] by (simp add: branch_eq)
  moreover have "sc_messages (build_session_context clock parse (p @ [mk i (leaf s)])) = ms @ new"
    using p(2) plain by (simp add: context_messages_snoc)
  ultimately have "assembles ops clock parse s' (ms @ new)" by (auto simp: assembles_branch)
  with s' show ?thesis by blast
qed

lemma append_message_assembles:
  assumes "session_inv s" "assembles ops clock parse s ms"
  shows "\<exists>i s'. append_message ops now m s = (Inr i, s') \<and> session_inv s' \<and> assembles ops clock parse s' (ms @ [m])"
  unfolding append_message_def by (rule append_child_assembles [OF assms]) simp_all

lemma append_custom_assembles:
  assumes "session_inv s" "assembles ops clock parse s ms" "t \<noteq> COMPACT_CONTEXT_CUSTOM_TYPE"
  shows "\<exists>i s'. append_custom ops now t d s = (Inr i, s') \<and> session_inv s' \<and> assembles ops clock parse s' ms"
  using append_child_assembles [OF assms(1,2), where new = "[]"] assms(3) unfolding append_custom_def by simp

lemma append_messages_assembles:
  assumes inv: "session_inv s" and ctx: "assembles ops clock parse s ms"
  shows "\<exists>r s'. append_messages ops now ks s = (Inr r, s') \<and> session_inv s' \<and> assembles ops clock parse s' (ms @ ks)"
proof -
  from append_messages_eq [OF inv, of now ks] obtain es s' where s':
    "append_messages ops now ks s = (Inr (map entry_id es), s')" "session_inv s'"
    "map (\<lambda>e. case e of Message _ m \<Rightarrow> Some m | _ \<Rightarrow> None) es = map Some ks"
    "\<And>r. branch ops None s = (Inr r, s) \<Longrightarrow> branch ops None s' = (Inr (r @ es), s')" by blast
  from ctx obtain p where p: "branch ops None s = (Inr p, s)" "sc_messages (build_session_context clock parse p) = ms"
    by (auto simp: assembles_branch)
  have "map (\<lambda>e. case e of Message _ m \<Rightarrow> Some m | _ \<Rightarrow> None) es = map Some ks \<Longrightarrow>
      sc_messages (build_session_context clock parse (p @ es)) = ms @ ks"
  proof (induction es arbitrary: ks rule: rev_induct)
    case (snoc e es)
    from snoc.prems obtain ks' m where ks: "ks = ks' @ [m]" by (cases ks rule: rev_cases) auto
    with snoc.prems obtain h where e: "e = Message h m" by (cases e) auto
    from ks snoc have "sc_messages (build_session_context clock parse (p @ es)) = ms @ ks'" by simp
    with e ks show ?case
      using context_messages_snoc [of "Message h m" clock parse "p @ es"] by simp
  qed (simp add: p)
  with s'(3) have "assembles ops clock parse s' (ms @ ks)" using s'(4) [OF p(1)] by (auto simp: assembles_branch)
  with s' show ?thesis by blast
qed

lemma session_listener_assembles:
  assumes "session_inv s" "assembles ops clock parse s ms"
  shows "\<exists>s' n'. session_listener ops now ev errors (s, n) = (errors, s', n') \<and> session_inv s' \<and>
           assembles ops clock parse s' (ms @ (case ended_message ev of Some m \<Rightarrow> [m] | None \<Rightarrow> []))"
proof (cases ev)
  case (MessageEnd m)
  from append_message_assembles [OF assms, of "now n" m] MessageEnd show ?thesis
    by (auto simp: push_error_def)
next
  case (ControlPlanePromptResolved i name hash label decision reason)
  have "lit ''control_plane_prompt'' \<noteq> COMPACT_CONTEXT_CUSTOM_TYPE" by (simp add: COMPACT_CONTEXT_CUSTOM_TYPE_def)
  from append_custom_assembles [OF assms this, of "now (n + 1)" "Some (prompt_audit i name hash label decision reason (now n))"]
    ControlPlanePromptResolved show ?thesis by (auto simp: push_error_def)
qed (use assms in auto)

lemma notify_assembles:
  assumes "session_inv s" "assembles ops clock parse s ms"
  shows "\<exists>s' n'. notify_listeners ops now ev ls (s, n) = (ls, s', n') \<and> session_inv s' \<and>
           assembles ops clock parse s' (ms @ copies (length ls) (case ended_message ev of Some m \<Rightarrow> [m] | None \<Rightarrow> []))"
  using assms
proof (induction ls arbitrary: s n ms)
  case Nil
  then show ?case by (auto simp: copies_def split: option.split)
next
  case (Cons e ls)
  from session_listener_assembles [OF Cons.prems, of now ev e n] obtain s1 n1 where
    1: "session_listener ops now ev e (s, n) = (e, s1, n1)" "session_inv s1"
       "assembles ops clock parse s1 (ms @ (case ended_message ev of Some m \<Rightarrow> [m] | None \<Rightarrow> []))" by blast
  from Cons.IH [OF 1(2,3), of n1] 1(1) show ?case by (auto split: option.splits)
qed

text \<open>The whole log of a run.\<close>

lemma stored_log:
  assumes "session_inv (jn_session j)" "assembles ops clock parse (jn_session j) ms"
  shows "session_inv (jn_session (fold (store_event ops now add) l j)) \<and>
         jn_listeners (fold (store_event ops now add) l j) = jn_listeners j \<and>
         assembles ops clock parse (jn_session (fold (store_event ops now add) l j))
           (ms @ copies (length (jn_listeners j)) (ended l))"
  using assms
proof (induction l arbitrary: j ms)
  case (Cons ev l)
  from notify_assembles [OF Cons.prems, of now ev "jn_listeners j" "jn_reads j"] obtain s' n' where
    n: "notify_listeners ops now ev (jn_listeners j) (jn_session j, jn_reads j) = (jn_listeners j, s', n')" "session_inv s'"
       "assembles ops clock parse s' (ms @ copies (length (jn_listeners j)) (case ended_message ev of Some m \<Rightarrow> [m] | None \<Rightarrow> []))"
    by blast
  define j' where "j' = store_event ops now add ev j"
  have j': "jn_session j' = s'" "jn_listeners j' = jn_listeners j"
    by (simp_all add: j'_def store_event_def n(1))
  from Cons.IH [of j' "ms @ copies (length (jn_listeners j)) (case ended_message ev of Some m \<Rightarrow> [m] | None \<Rightarrow> [])"] n j'
  show ?case by (auto simp: j'_def [symmetric] split: option.splits)
qed simp

end

text \<open>Any storage: the listeners stay, whatever they did.\<close>

lemma notify_length: "length (fst (notify_listeners ops now ev ls s)) = length ls"
  by (induction ls arbitrary: s) (simp_all add: case_prod_beta Let_def)

lemma stored_listeners: "length (jn_listeners (fold (store_event ops now add) l j)) = length (jn_listeners j)"
proof (induction l arbitrary: j)
  case (Cons ev l)
  have "length (jn_listeners (store_event ops now add ev j)) = length (jn_listeners j)"
    using notify_length [of ops now ev "jn_listeners j" "(jn_session j, jn_reads j)"]
    by (auto simp: store_event_def split: prod.split)
  with Cons show ?case by simp
qed simp

lemma stored_cost: "jn_cost (fold (store_event ops now add) l j) = fold (cost_callback add) l (jn_cost j)"
  by (induction l arbitrary: j) (auto simp: store_event_def split: prod.split)

subsection \<open>Runs of the agent\<close>

lemma end_run_grow:
  assumes "end_run opts (drive_loop opts a) = Some (r, b)"
  obtains n c where "b = release_run c" "grow opts n a c"
proof -
  from assms obtain a3 c where d: "drive_loop opts a = Some (r, a3)" and c: "b = release_run c" "grow opts 0 a3 c"
    by (rule end_run_cases)
  from drive_loop_grow [OF d] obtain i a0 y where
    y: "turn_loop opts i counters_zero a0 = Some y" "\<And>n. grow opts n a0 (snd (snd y)) \<Longrightarrow> grow opts n a a3" by blast
  from turn_loop_grow [OF y(1)] obtain n where "grow opts n a0 (snd (snd y))" by auto
  from grow_trans [OF y(2) [OF this] c(2)] c(1) that show thesis by simp
qed

text \<open>A run on the agent, a prompt or a continuation, grows its log and its transcript alike.\<close>

lemma continue_grow:
  assumes "run_agent_loop_continue opts a = Some (r, b)"
  shows "\<exists>l. ag_log b = ag_log a @ l \<and> (keeps_context opts \<longrightarrow> ag_messages b = ag_messages a @ ended l)"
proof (cases "ag_run_active a \<or> ag_messages a = []")
  case True
  with assms show ?thesis
    by (cases "ag_run_active a") (auto simp: run_agent_loop_continue_def acquire_permit_def)
next
  case False
  let ?a = "Agent_Types.emit opts RunStarted (a\<lparr>ag_run_active := True, ag_is_streaming := True, ag_error_message := None, ag_active_cancel := Some False\<rparr>)"
  from assms False have "end_run opts (drive_loop opts ?a) = Some (r, b)"
    by (simp add: run_agent_loop_continue_def acquire_permit_def)
  then obtain n c where "b = release_run c" "grow opts n ?a c" by (rule end_run_grow)
  then show ?thesis by (auto simp: grow_def)
qed

lemma prompt_grow:
  assumes "prompt opts m a = Some (r, b)"
  shows "\<exists>l. ag_log b = ag_log a @ l \<and> (keeps_context opts \<longrightarrow> ag_messages b = ag_messages a @ ended l)"
proof (cases "ag_run_active a")
  case True
  with assms show ?thesis by (auto simp: prompt_def run_agent_loop_def acquire_permit_def)
next
  case False
  from run_grows [OF assms [unfolded prompt_def] False] obtain n c where "b = release_run c" "grow opts n (admitted a) c" by blast
  then show ?thesis by (auto simp: grow_def admitted_def)
qed

definition quiet_tools :: "('s, 'x, 'u) harness_world agent \<Rightarrow> bool" where
  "quiet_tools a \<longleftrightarrow> (\<forall>t\<in>set (ag_tools a). quiet_tool hw_journal t)"

lemma run_on_agent_facts:
  assumes "run_on_agent cfg first pending a = Some (r, b)" and "quiet_tools a"
  obtains l where "ag_messages b = ag_messages a @ ended l"
    and "hw_journal (ag_world b) = fold (store_event (hc_ops cfg) (hc_now cfg) (hc_add cfg)) l (hw_journal (ag_world a))"
    and "ag_tools b = ag_tools a"
proof -
  let ?opts = "harness_agent_options cfg"
  have k: "keeps_context ?opts" by (simp add: keeps_context_def harness_agent_options_def)
  have q: "\<forall>t\<in>set (ag_tools a). quiet_tool hw_journal t" using assms(2) by (simp add: quiet_tools_def)
  from assms(1) consider
      m where "prompt ?opts m a = Some (r, b)" | "run_agent_loop_continue ?opts a = Some (r, b)" | "b = a"
    by (auto simp: run_on_agent_def split: option.splits if_splits)
  then show thesis
  proof cases
    case 1
    from prompt_grow [OF 1] k harness.run_heard [OF 1 [unfolded prompt_def] q] that show thesis
      by (auto simp: harness.heard_def)
  next
    case 2
    from continue_grow [OF 2] k harness.continue_heard [OF 2 q] that show thesis
      by (auto simp: harness.heard_def)
  next
    case 3
    with that [of "[]"] show thesis by simp
  qed
qed

subsection \<open>What the operations around a run keep\<close>

text \<open>An operation of the extensions changes the runtime alone.\<close>

definition apart_from_runtime :: "('s, 'x, 'u) agent_harness \<Rightarrow> ('s, 'x, 'u) agent_harness \<Rightarrow> bool" where
  "apart_from_runtime h h' \<longleftrightarrow>
     (\<exists>r. h' = h\<lparr>ah_agent := (ah_agent h)\<lparr>ag_world := (ag_world (ah_agent h))\<lparr>hw_runtime := r\<rparr>\<rparr>\<rparr>)"

lemma extensions_apart: "extensions f h = (y, h') \<Longrightarrow> apart_from_runtime h h'"
  by (auto simp: extensions_def on_world_def on_runtime_def apart_from_runtime_def split: prod.splits)

lemma tell_apart [simp]: "apart_from_runtime h (tell_extensions f h)"
  by (auto simp: tell_extensions_def extensions_def on_world_def on_runtime_def apart_from_runtime_def split: prod.splits)

definition session_of :: "('s, 'x, 'u) agent_harness \<Rightarrow> 's" where
  "session_of h = jn_session (hw_journal (ag_world (ah_agent h)))"

definition listeners_of :: "('s, 'x, 'u) agent_harness \<Rightarrow> session_error list list" where
  "listeners_of h = jn_listeners (hw_journal (ag_world (ah_agent h)))"

definition transcript_of :: "('s, 'x, 'u) agent_harness \<Rightarrow> agent_message list" where
  "transcript_of h = ag_messages (ah_agent h)"

lemmas part_defs = session_of_def listeners_of_def transcript_of_def quiet_tools_def

lemma apart_parts:
  "apart_from_runtime h h' \<Longrightarrow> session_of h' = session_of h \<and> listeners_of h' = listeners_of h \<and>
     transcript_of h' = transcript_of h \<and> ag_tools (ah_agent h') = ag_tools (ah_agent h) \<and>
     ah_settings h' = ah_settings h"
  by (auto simp: apart_from_runtime_def part_defs)

lemma in_session_parts:
  assumes "in_session cfg k f h = (y, h')"
  shows "\<exists>now. f now (session_of h) = (y, session_of h') \<and> listeners_of h' = listeners_of h \<and>
     transcript_of h' = transcript_of h \<and> ag_tools (ah_agent h') = ag_tools (ah_agent h) \<and> ah_settings h' = ah_settings h"
  using assms by (auto simp: in_session_def on_world_def part_defs Let_def split: prod.splits)

lemma read_clock_parts:
  "read_clock cfg h = (y, h') \<Longrightarrow> session_of h' = session_of h \<and> listeners_of h' = listeners_of h \<and>
     transcript_of h' = transcript_of h \<and> ag_tools (ah_agent h') = ag_tools (ah_agent h) \<and> ah_settings h' = ah_settings h"
  by (auto simp: read_clock_def on_world_def part_defs Let_def)

lemma small_parts [simp]:
  "session_of (push_messages ms h) = session_of h" "listeners_of (push_messages ms h) = listeners_of h"
  "transcript_of (push_messages ms h) = transcript_of h @ ms" "ag_tools (ah_agent (push_messages ms h)) = ag_tools (ah_agent h)"
  "ah_settings (push_messages ms h) = ah_settings h"
  "session_of (with_system_prompt p h) = session_of h" "listeners_of (with_system_prompt p h) = listeners_of h"
  "transcript_of (with_system_prompt p h) = transcript_of h" "ag_tools (ah_agent (with_system_prompt p h)) = ag_tools (ah_agent h)"
  "ah_settings (with_system_prompt p h) = ah_settings h"
  "session_of (emit_session_event ev h) = session_of h" "listeners_of (emit_session_event ev h) = listeners_of h"
  "transcript_of (emit_session_event ev h) = transcript_of h" "ag_tools (ah_agent (emit_session_event ev h)) = ag_tools (ah_agent h)"
  "ah_settings (emit_session_event ev h) = ah_settings h"
  "session_of (subscribe_run h) = session_of h" "listeners_of (subscribe_run h) = listeners_of h @ [[]]"
  "transcript_of (subscribe_run h) = transcript_of h" "ag_tools (ah_agent (subscribe_run h)) = ag_tools (ah_agent h)"
  "ah_settings (subscribe_run h) = ah_settings h"
  by (simp_all add: part_defs push_messages_def with_system_prompt_def emit_session_event_def subscribe_run_def on_world_def)

lemma finish_run_parts:
  assumes "finish_run cfg previous r h = (r', h')"
  shows "session_of h' = session_of h \<and> transcript_of h' = transcript_of h \<and> listeners_of h' = butlast (listeners_of h) \<and>
         ag_tools (ah_agent h') = ag_tools (ah_agent h) \<and> ah_settings h' = ah_settings h \<and> (r' = RPanic \<longleftrightarrow> r = RPanic)"
proof -
  obtain es c h1 where u: "unsubscribe_run h = ((es, c), h1)" by (metis prod.collapse)
  then have 1: "session_of h1 = session_of h" "transcript_of h1 = transcript_of h" "listeners_of h1 = butlast (listeners_of h)"
    "ag_tools (ah_agent h1) = ag_tools (ah_agent h)" "ah_settings h1 = ah_settings h"
    by (auto simp: unsubscribe_run_def on_world_def part_defs Let_def)
  note t = apart_parts [OF tell_apart [of h1]]
  have "finish_persisted_run r es = RPanic \<longleftrightarrow> r = RPanic"
    by (auto simp: finish_persisted_run_def split: run_result.split list.split)
  with assms u 1 t show ?thesis by (auto simp: finish_run_def Let_def split: option.splits)
qed

end
