(* ===== verification/Harness_Properties.thy ===== *)
theory Harness_Properties
  imports Harness_Facts
begin

text \<open>
  What a harness guarantees of a prompt: the session holds the transcript, the totals are those of the
  transcript, the cycle ends; and what a panic and a refused budget leave behind.
\<close>

subsection \<open>A run and the session\<close>

context session_storage
begin

text \<open>The session assembles to \<open>ms\<close>.\<close>

definition holds :: "(nat \<Rightarrow> int) \<Rightarrow> (ustr \<Rightarrow> int option) \<Rightarrow> 's \<Rightarrow> agent_message list \<Rightarrow> bool" where
  "holds clock parse s ms \<longleftrightarrow> session_inv s \<and> assembles ops clock parse s ms"

lemma record_messages_holds:
  assumes "hc_ops cfg = ops" and "holds clock parse (session_of h) ms"
  shows "\<exists>h'. record_messages cfg ks h = (Inr (), h') \<and> holds clock parse (session_of h') (ms @ ks) \<and>
           transcript_of h' = transcript_of h @ ks \<and> listeners_of h' = listeners_of h \<and>
           ag_tools (ah_agent h') = ag_tools (ah_agent h) \<and> ah_settings h' = ah_settings h"
proof -
  obtain y h1 where i: "in_session cfg (length ks) (\<lambda>now. append_messages ops now ks) h = (y, h1)" by force
  from in_session_parts [OF i] obtain now where
    p: "append_messages ops now ks (session_of h) = (y, session_of h1)" "listeners_of h1 = listeners_of h"
       "transcript_of h1 = transcript_of h" "ag_tools (ah_agent h1) = ag_tools (ah_agent h)" "ah_settings h1 = ah_settings h" by blast
  from append_messages_assembles [of "session_of h" clock parse ms now ks] assms(2) p(1)
  obtain r where "y = Inr r" "holds clock parse (session_of h1) (ms @ ks)" by (auto simp: holds_def)
  with i p show ?thesis by (simp add: record_messages_def assms(1))
qed

lemma start_run_holds:
  assumes ops: "hc_ops cfg = ops" and start: "start_run cfg h = (r, h')" and s: "holds clock parse (session_of h) ms"
  shows "\<exists>new. holds clock parse (session_of h') (ms @ new) \<and> transcript_of h' = transcript_of h @ new \<and>
           listeners_of h' = listeners_of h \<and> ag_tools (ah_agent h') = ag_tools (ah_agent h) \<and> ah_settings h' = ah_settings h"
proof -
  obtain r1 h1 where 1: "extensions begin_run h = (r1, h1)" by force
  note p1 = apart_parts [OF extensions_apart [OF 1]]
  show ?thesis
  proof (cases r1)
    case (Inl err)
    with start 1 p1 s show ?thesis by (intro exI [of _ "[]"]) (auto simp: start_run_def)
  next
    case (Inr u)
    obtain patch h2 where 2: "extensions (before_run (hc_env cfg)) h1 = (patch, h2)" by force
    obtain ks h3 where 3: "extensions (finalize_messages (hc_env cfg) (br_messages patch)) h2 = (ks, h3)" by force
    note p = p1 apart_parts [OF extensions_apart [OF 2]] apart_parts [OF extensions_apart [OF 3]]
    have s2: "holds clock parse (session_of h2) ms" and s3: "holds clock parse (session_of h3) ms" using p s by simp_all
    from record_messages_holds [OF ops s3, of ks] obtain h4 where 4: "record_messages cfg ks h3 = (Inr (), h4)"
      "holds clock parse (session_of h4) (ms @ ks)" "transcript_of h4 = transcript_of h @ ks"
      "listeners_of h4 = listeners_of h" "ag_tools (ah_agent h4) = ag_tools (ah_agent h)" "ah_settings h4 = ah_settings h"
      using p by auto
    define h5 where "h5 = (if br_messages patch = [] then h2 else h4)"
    define new where "new = (if br_messages patch = [] then [] else ks)"
    have h5: "holds clock parse (session_of h5) (ms @ new)" "transcript_of h5 = transcript_of h @ new"
      "listeners_of h5 = listeners_of h" "ag_tools (ah_agent h5) = ag_tools (ah_agent h)" "ah_settings h5 = ah_settings h"
      using 4 s2 p by (auto simp: h5_def new_def)
    have "h' = h5 \<or> (\<exists>q. h' = with_system_prompt q h5)"
      using start 1 2 3 4(1) by (auto simp: start_run_def Inr h5_def Let_def split: if_splits option.splits)
    with h5 show ?thesis by (intro exI [of _ new]) auto
  qed
qed

lemma harness_run_holds:
  assumes ops: "hc_ops cfg = ops" and run: "harness_run cfg first pending h = Some (r, h')"
    and q: "quiet_tools (ah_agent h)" and s: "holds clock parse (session_of h) ms"
  shows "\<exists>old new. transcript_of h' = transcript_of h @ old @ new \<and>
           holds clock parse (session_of h') (ms @ old @ copies (Suc (length (listeners_of h))) new) \<and>
           (r \<noteq> RPanic \<longrightarrow> listeners_of h' = listeners_of h) \<and>
           ag_tools (ah_agent h') = ag_tools (ah_agent h) \<and> ah_settings h' = ah_settings h"
proof -
  obtain p h1 where 1: "start_run cfg h = (p, h1)" by force
  from start_run_holds [OF ops 1 s] obtain old where old: "holds clock parse (session_of h1) (ms @ old)"
    "transcript_of h1 = transcript_of h @ old" "listeners_of h1 = listeners_of h"
    "ag_tools (ah_agent h1) = ag_tools (ah_agent h)" "ah_settings h1 = ah_settings h" by blast
  show ?thesis
  proof (cases p)
    case (Inl err)
    with run 1 old show ?thesis by (intro exI [of _ old] exI [of _ "[]"]) (auto simp: harness_run_def)
  next
    case (Inr previous)
    define h2 where "h2 = subscribe_run h1"
    have q2: "quiet_tools (ah_agent h2)" using q old(4) by (simp add: quiet_tools_def h2_def)
    from run 1 Inr obtain r1 a where a: "run_on_agent cfg first pending (ah_agent h2) = Some (r1, a)"
      by (auto simp: harness_run_def h2_def Let_def split: option.splits)
    define h3 where "h3 = h2\<lparr>ah_agent := a\<rparr>"
    from run_on_agent_facts [OF a q2] obtain l where
      l: "ag_messages a = ag_messages (ah_agent h2) @ ended l" "ag_tools a = ag_tools (ah_agent h2)"
         "hw_journal (ag_world a) = fold (store_event ops (hc_now cfg) (hc_add cfg)) l (hw_journal (ag_world (ah_agent h2)))"
      unfolding ops by blast
    have "jn_session (hw_journal (ag_world (ah_agent h2))) = session_of h1" "jn_listeners (hw_journal (ag_world (ah_agent h2))) = listeners_of h @ [[]]"
      using old(3) small_parts(16,17) [of h1] unfolding h2_def session_of_def listeners_of_def by simp_all
    with stored_log [of "hw_journal (ag_world (ah_agent h2))" clock parse "ms @ old" "hc_now cfg" "hc_add cfg" l] old(1) l(3)
    have h3: "holds clock parse (session_of h3) (ms @ old @ copies (Suc (length (listeners_of h))) (ended l))"
      "listeners_of h3 = listeners_of h @ [[]]"
      by (auto simp: holds_def h3_def session_of_def listeners_of_def)
    have h3': "transcript_of h3 = transcript_of h @ old @ ended l" "ag_tools (ah_agent h3) = ag_tools (ah_agent h)"
      "ah_settings h3 = ah_settings h"
      using l old small_parts(18) [of h1] by (auto simp: h3_def h2_def transcript_of_def)
    have "r = RPanic \<and> h' = h3 \<or> (\<exists>r2. finish_run cfg previous r2 h3 = (r, h'))"
      using run 1 Inr a by (cases r1) (auto simp: harness_run_def h2_def [symmetric] h3_def Let_def)
    then show ?thesis
    proof
      assume "r = RPanic \<and> h' = h3"
      with h3 h3' show ?thesis by blast
    next
      assume "\<exists>r2. finish_run cfg previous r2 h3 = (r, h')"
      then obtain r2 where "finish_run cfg previous r2 h3 = (r, h')" by blast
      from finish_run_parts [OF this] h3 h3' show ?thesis by (intro exI [of _ old] exI [of _ "ended l"]) simp
    qed
  qed
qed

subsection \<open>The cycle and the session\<close>

text \<open>The turn-end hook may write to the session, as the goal's does, but no messages.\<close>

definition hook_keeps :: "(nat \<Rightarrow> int) \<Rightarrow> (ustr \<Rightarrow> int option) \<Rightarrow> ('s, 'x, 'u) harness_config \<Rightarrow> bool" where
  "hook_keeps clock parse cfg \<longleftrightarrow>
     (\<forall>hook t n p s u ms. hc_on_turn_end cfg = Some hook \<longrightarrow> holds clock parse s ms \<longrightarrow>
        holds clock parse (fst (snd (hook t n p (s, u)))) ms)"

definition stored :: "(nat \<Rightarrow> int) \<Rightarrow> (ustr \<Rightarrow> int option) \<Rightarrow> ('s, 'x, 'u) agent_harness \<Rightarrow> bool" where
  "stored clock parse h \<longleftrightarrow>
     holds clock parse (session_of h) (transcript_of h) \<and> listeners_of h = [] \<and> quiet_tools (ah_agent h) \<and>
     \<not> cp_enabled (ah_settings h)"

lemma stored_apart: "stored clock parse h \<Longrightarrow> apart_from_runtime h h' \<Longrightarrow> stored clock parse h'"
  using apart_parts [of h h'] by (simp add: stored_def quiet_tools_def)

lemma stored_event [simp]: "stored clock parse (emit_session_event ev h) \<longleftrightarrow> stored clock parse h"
  by (simp add: stored_def quiet_tools_def)

lemma stored_clock: "read_clock cfg h = (y, h') \<Longrightarrow> stored clock parse h \<Longrightarrow> stored clock parse h'"
  using read_clock_parts [of cfg h y h'] by (simp add: stored_def quiet_tools_def)

lemma stored_record_messages:
  assumes "hc_ops cfg = ops" and "stored clock parse h" and "record_messages cfg ks h = (y, h')"
  shows "stored clock parse h'"
  using record_messages_holds [OF assms(1), of clock parse h "transcript_of h" ks] assms(2,3)
  by (auto simp: stored_def quiet_tools_def)

lemma stored_decision:
  assumes ops: "hc_ops cfg = ops" and s: "stored clock parse h"
  shows "stored clock parse (record_turn_end_decision cfg d n reason preview payload h)"
proof -
  define data where "data = JObj [(lit ''decision'', JStr (lit d)), (lit ''continuation_count'', JNum (int n)),
            (lit ''reason'', json_option reason), (lit ''next_prompt_preview'', json_option preview),
            (lit ''payload'', case payload of Some p \<Rightarrow> p | None \<Rightarrow> JNull)]"
  obtain y h1 where i: "in_session cfg 1 (\<lambda>now. append_custom ops (now 0) (lit ''turn_end_decision'') (Some data)) h = (y, h1)"
    by force
  have "lit ''turn_end_decision'' \<noteq> COMPACT_CONTEXT_CUSTOM_TYPE" by (simp add: COMPACT_CONTEXT_CUSTOM_TYPE_def)
  note keep = append_custom_assembles [OF _ _ this]
  from in_session_parts [OF i] obtain now where
    p: "append_custom ops (now 0) (lit ''turn_end_decision'') (Some data) (session_of h) = (y, session_of h1)"
    and p': "listeners_of h1 = listeners_of h" "transcript_of h1 = transcript_of h" "ag_tools (ah_agent h1) = ag_tools (ah_agent h)"
       "ah_settings h1 = ah_settings h" by (elim exE conjE)
  have "holds clock parse (session_of h1) (transcript_of h)"
    using keep [of "session_of h" clock parse "transcript_of h" "now 0" "Some data"] s p by (auto simp: stored_def holds_def)
  with p' s have "stored clock parse h1" by (simp add: stored_def quiet_tools_def)
  then show ?thesis
    using i by (auto simp: record_turn_end_decision_def ops data_def [symmetric] Let_def split: sum.split)
qed

lemma stored_prepare:
  assumes "stored clock parse h" and "prepare_run cfg h = (r, h')"
  shows "h' = h"
proof -
  have "harness_auto_compaction cfg h = (ROk, h)"
  proof -
    obtain z h0 where z: "on_world (on_user (hc_summarizer cfg)) h = (z, h0)" by force
    then have "ah_settings h0 = ah_settings h" by (auto simp: on_world_def split: prod.splits)
    with assms(1) have "\<not> compaction_due z (compaction_view cfg h0)"
      by (simp add: compaction_due_def compaction_view_def Let_def stored_def)
    then show ?thesis by (simp add: harness_auto_compaction_def z)
  qed
  with assms(2) show ?thesis by (auto simp: prepare_run_def split: run_result.splits)
qed

lemma stored_apply_decision:
  assumes ops: "hc_ops cfg = ops" and s: "stored clock parse h" and d: "apply_decision cfg cy d h = (st, h')"
  shows "stored clock parse h'"
proof -
  note rec = stored_decision [OF ops s]
  show ?thesis
  proof (cases "te_action d")
    case (Continue line)
    define h1 where "h1 = record_turn_end_decision cfg ''continue'' (Suc (cy_continuations cy)) None
      (Some (preview_for_banner line 80)) (te_payload d) h"
    have h1: "stored clock parse h1" unfolding h1_def by (rule rec)
    obtain r h2 where p: "prepare_run cfg h1 = (r, h2)" by force
    with stored_prepare [OF h1] have "h2 = h1" by blast
    moreover obtain now h3 where c: "read_clock cfg h1 = (now, h3)" by force
    ultimately show ?thesis
      using d Continue p h1 stored_clock [OF c h1]
      by (auto simp: apply_decision_def h1_def [symmetric] Let_def split: run_result.splits)
  qed (use d s rec in \<open>auto simp: apply_decision_def Let_def\<close>)
qed

lemma stored_ask:
  assumes ops: "hc_ops cfg = ops" and hook: "hook_keeps clock parse cfg" and s: "stored clock parse h"
    and a: "ask_turn_end cfg cy h = (st, h')"
  shows "stored clock parse h'"
proof (cases "hc_on_turn_end cfg")
  case None
  with a s show ?thesis by (simp add: ask_turn_end_def)
next
  case (Some f)
  show ?thesis
  proof (cases "hc_turn_continuation_cap cfg \<le> cy_continuations cy")
    case True
    with a Some stored_decision [OF ops s] show ?thesis by (auto simp: ask_turn_end_def)
  next
    case False
    obtain d s' u' where f: "f (ag_messages (ah_agent h)) (cy_continuations cy) (cy_last_user_prompt cy)
        (session_of h, hw_user (ag_world (ah_agent h))) = (d, s', u')" by (metis prod_cases3)
    define h1 where "h1 = h\<lparr>ah_agent := (ah_agent h)\<lparr>ag_world := (ag_world (ah_agent h))
        \<lparr>hw_journal := (hw_journal (ag_world (ah_agent h)))\<lparr>jn_session := s'\<rparr>, hw_user := u'\<rparr>\<rparr>\<rparr>"
    have "holds clock parse (fst (snd (f (ag_messages (ah_agent h)) (cy_continuations cy) (cy_last_user_prompt cy)
        (session_of h, hw_user (ag_world (ah_agent h)))))) (transcript_of h)"
      using hook Some s unfolding hook_keeps_def stored_def by blast
    then have "holds clock parse s' (transcript_of h)" by (simp add: f)
    with s have h1: "stored clock parse h1" by (simp add: stored_def h1_def part_defs)
    have "(case d of None \<Rightarrow> (CycleEnds RPanic, h1) | Some d \<Rightarrow> apply_decision cfg cy d h1) = (st, h')"
      using a False Some f by (cases d) (simp_all add: ask_turn_end_def on_world_def Let_def session_of_def h1_def)
    with h1 show ?thesis by (auto split: option.splits intro: stored_apply_decision [OF ops])
  qed
qed

lemma stored_round:
  assumes ops: "hc_ops cfg = ops" and hook: "hook_keeps clock parse cfg" and s: "stored clock parse h"
    and n: "next_round cfg cy h = (st, h')"
  shows "stored clock parse h'"
proof -
  obtain m h1 where 1: "extensions take_follow_up h = (m, h1)" by force
  have h1: "stored clock parse h1" by (rule stored_apart [OF s extensions_apart [OF 1]])
  show ?thesis
  proof (cases m)
    case None
    with n 1 h1 show ?thesis by (auto simp: next_round_def intro: stored_ask [OF ops hook])
  next
    case (Some m)
    with n 1 h1 show ?thesis
      by (auto simp: next_round_def go_on_def split: if_splits prod.splits run_result.splits dest: stored_prepare [OF h1])
  qed
qed

lemma stored_run:
  assumes ops: "hc_ops cfg = ops" and s: "stored clock parse h"
    and run: "harness_run cfg first pending h = Some (r, h')"
  shows "holds clock parse (session_of h') (transcript_of h') \<and> (r \<noteq> RPanic \<longrightarrow> stored clock parse h')"
  using harness_run_holds [OF ops run, of clock parse "transcript_of h"] s
  by (auto simp: stored_def quiet_tools_def)

lemma stored_pass:
  assumes ops: "hc_ops cfg = ops" and hook: "hook_keeps clock parse cfg" and s: "stored clock parse h"
    and c: "cycle_pass cfg cy h = Some (st, h')"
  shows "holds clock parse (session_of h') (transcript_of h') \<and> (st \<noteq> CycleEnds RPanic \<longrightarrow> stored clock parse h')"
proof -
  from c obtain r h1 where run: "harness_run cfg (cy_first cy) (cy_pending cy) h = Some (r, h1)"
    and st: "(st, h') = (case r of ROk \<Rightarrow> next_round cfg cy h1 | _ \<Rightarrow> (CycleEnds r, h1))"
    by (auto simp: cycle_pass_def)
  note h1 = stored_run [OF ops s run]
  show ?thesis
  proof (cases "r = ROk")
    case True
    with st have "next_round cfg cy h1 = (st, h')" by simp
    from stored_round [OF ops hook _ this] h1 True have "stored clock parse h'" by simp
    then show ?thesis by (simp add: stored_def)
  next
    case False
    with st have "h' = h1" "st = CycleEnds r" by (cases r; auto)+
    with h1 show ?thesis by simp
  qed
qed

text \<open>What is left of a run that ended with \<open>r\<close>; after a panic the listeners may have stayed.\<close>

definition left_by :: "(nat \<Rightarrow> int) \<Rightarrow> (ustr \<Rightarrow> int option) \<Rightarrow> run_result \<Rightarrow> ('s, 'x, 'u) agent_harness \<Rightarrow> bool" where
  "left_by clock parse r h \<longleftrightarrow>
     holds clock parse (session_of h) (transcript_of h) \<and> (r \<noteq> RPanic \<longrightarrow> stored clock parse h)"

lemma stored_left: "stored clock parse h \<Longrightarrow> left_by clock parse r h"
  by (simp add: left_by_def stored_def)

lemma stored_cycle:
  fixes cfg :: "('s, 'x, 'u) harness_config"
  assumes ops: "hc_ops cfg = ops" and hook: "hook_keeps clock parse cfg" and "stored clock parse h"
    and "prompt_cycle cfg cy h = Some (r, h')"
  shows "left_by clock parse r h'"
proof -
  let ?goal = "\<lambda>y. left_by clock parse (fst y) (snd y)"
  have "c' = cfg \<longrightarrow> stored clock parse h \<longrightarrow> ?goal y" if "prompt_cycle c' cy h = Some y" for c' cy h y
  proof (rule prompt_cycle.raw_induct [OF _ that, where P = "\<lambda>c' cy h y. c' = cfg \<longrightarrow> stored clock parse h \<longrightarrow> ?goal y"])
    fix cycle and c' :: "('s, 'x, 'u) harness_config" and cy h y
    assume ih: "\<And>c' cy h y. cycle c' cy h = Some y \<Longrightarrow> c' = cfg \<longrightarrow> stored clock parse h \<longrightarrow> ?goal y"
      and step: "(case cycle_pass c' cy h of None \<Rightarrow> None | Some (CycleEnds r, h1) \<Rightarrow> Some (r, h1)
                  | Some (CycleGoes cy1, h1) \<Rightarrow> cycle c' cy1 h1) = Some y"
    show "c' = cfg \<longrightarrow> stored clock parse h \<longrightarrow> ?goal y"
    proof (intro impI)
      assume c: "c' = cfg" and s: "stored clock parse h"
      from step obtain st h1 where p: "cycle_pass cfg cy h = Some (st, h1)" by (auto simp: c split: option.splits)
      note h1 = stored_pass [OF ops hook s p]
      show "?goal y"
      proof (cases st)
        case (CycleEnds q)
        with step p c h1 show ?thesis by (auto simp: left_by_def)
      next
        case (CycleGoes cy1)
        with step p c have "cycle cfg cy1 h1 = Some y" by simp
        from ih [OF this] h1 CycleGoes show ?thesis by simp
      qed
    qed
  qed
  from this [OF assms(4)] assms(3) show ?thesis by simp
qed

lemma stored_ensure:
  assumes "stored clock parse h"
  shows "stored clock parse (ensure_session_start_emitted cfg h)"
proof -
  have "stored clock parse (h\<lparr>ah_session_start_emitted := True\<rparr>)" using assms by (simp add: stored_def part_defs)
  from stored_apart [OF this tell_apart] show ?thesis
    using assms by (simp add: ensure_session_start_emitted_def)
qed

lemma stored_prompt:
  fixes cfg :: "('s, 'x, 'u) harness_config"
  assumes ops: "hc_ops cfg = ops" and hook: "hook_keeps clock parse cfg" and s: "stored clock parse h"
    and p: "prompt_with_message_and_input cfg message input h = Some (r, h')"
  shows "left_by clock parse r h'"
proof (cases "reject_reentrant_operation (runtime_of h)")
  case (Inl err)
  with p s show ?thesis by (auto simp: prompt_with_message_and_input_def stored_left)
next
  case (Inr u)
  define h1 where "h1 = ensure_session_start_emitted cfg h"
  have h1: "stored clock parse h1" unfolding h1_def by (rule stored_ensure [OF s])
  obtain out h2 where t: "extensions (transform_input (hc_env cfg) message) h1 = (out, h2)" by force
  have h2: "stored clock parse h2" by (rule stored_apart [OF h1 extensions_apart [OF t]])
  obtain r3 h3 where pr: "prepare_run cfg h2 = (r3, h3)" by force
  with stored_prepare [OF h2] have h3: "h3 = h2" by blast
  obtain r4 h4 where rec: "record_input cfg input h2 = (r4, h4)" by force
  have h4: "stored clock parse h4"
    using rec h2 by (auto simp: record_input_def Let_def split: option.splits prod.splits
        intro: stored_clock stored_record_messages [OF ops])
  show ?thesis
    using p Inr t h2 pr h3 rec h4
    by (auto simp: prompt_with_message_and_input_def h1_def [symmetric] run_turn_with_continuation_def
        split: option.splits input_outcome.splits run_result.splits sum.splits
        intro: stored_cycle [OF ops hook] stored_left)
qed

end

subsection \<open>The guarantees of a prompt\<close>

text \<open>
  C16. After a prompt over an in-memory session the session holds the agent's transcript: whatever the model, the
  tools, the embedder's hooks and the extensions did, however many runs it took and however it failed, a
  panic included, the context assembled from the session is the messages the agent has in memory. It is
  assumed that the tools and the turn-end hook write no messages of their own, that compaction is off, and
  that no earlier panic left a listener.
\<close>
theorem prompt_persisted:
  assumes "hc_ops cfg = memory_ops uuid"
    and "\<forall>hook t n p s u ms. hc_on_turn_end cfg = Some hook \<longrightarrow> memory.session_inv uuid s \<longrightarrow>
           assembles (memory_ops uuid) clock parse s ms \<longrightarrow>
           memory.session_inv uuid (fst (snd (hook t n p (s, u)))) \<and>
           assembles (memory_ops uuid) clock parse (fst (snd (hook t n p (s, u)))) ms"
    and "memory.session_inv uuid (session_of h)" "assembles (memory_ops uuid) clock parse (session_of h) (transcript_of h)"
    and "listeners_of h = []" "quiet_tools (ah_agent h)" "\<not> cp_enabled (ah_settings h)"
    and "prompt_with_message_and_input cfg message input h = Some (r, h')"
  shows "memory.session_inv uuid (session_of h') \<and> assembles (memory_ops uuid) clock parse (session_of h') (transcript_of h')"
proof -
  have "memory.hook_keeps uuid clock parse cfg"
    using assms(2) unfolding memory.hook_keeps_def memory.holds_def by blast
  moreover have "memory.stored uuid clock parse h" using assms by (simp add: memory.stored_def memory.holds_def)
  ultimately have "memory.left_by uuid clock parse r h'"
    using memory.stored_prompt assms(1,8) by blast
  then show ?thesis by (simp add: memory.left_by_def memory.holds_def)
qed

text \<open>The usage of the assistant's messages, in order.\<close>

definition usages :: "agent_message list \<Rightarrow> usage list" where
  "usages ms = List.map_filter (\<lambda>m. case m of Llm (Assistant a) \<Rightarrow> Some (am_usage a) | _ \<Rightarrow> None) ms"

lemma usages_simps [simp]:
  "usages [] = []" "usages (m # ms) = (case m of Llm (Assistant a) \<Rightarrow> am_usage a # usages ms | _ \<Rightarrow> usages ms)"
  by (auto simp: usages_def map_filter_simps split: agent_message.split llm_message.split)

lemma cost_of_log: "fold (cost_callback add) l g = fold (cost_record add) (usages (ended l)) g"
proof (induction l arbitrary: g)
  case (Cons ev l)
  have "cost_callback add ev g = fold (cost_record add) (usages (case ended_message ev of Some m \<Rightarrow> [m] | None \<Rightarrow> [])) g"
    by (cases "(add, ev, g)" rule: cost_callback.cases) auto
  with Cons show ?case by (auto split: option.split agent_message.split llm_message.split)
qed simp

definition totals_of :: "('s, 'x, 'u) agent_harness \<Rightarrow> cost_snapshot" where
  "totals_of h = jn_cost (hw_journal (ag_world (ah_agent h)))"

lemma apart_totals: "apart_from_runtime h h' \<Longrightarrow> totals_of h' = totals_of h"
  by (auto simp: apart_from_runtime_def totals_of_def)

lemma totals_in_session: "in_session cfg k f h = (y, h') \<Longrightarrow> totals_of h' = totals_of h"
  by (auto simp: in_session_def on_world_def totals_of_def Let_def split: prod.splits)

lemma totals_record: "record_messages cfg ms h = (y, h') \<Longrightarrow> totals_of h' = totals_of h"
  by (auto simp: record_messages_def push_messages_def totals_of_def split: prod.splits sum.splits
      dest!: totals_in_session [unfolded totals_of_def])

text \<open>What precedes a run adds at most messages, which no listener hears.\<close>

lemma start_run_parts:
  assumes "start_run cfg h = (r, h')"
  shows "totals_of h' = totals_of h \<and> listeners_of h' = listeners_of h \<and>
         ag_tools (ah_agent h') = ag_tools (ah_agent h) \<and> (\<exists>old. transcript_of h' = transcript_of h @ old)"
proof -
  obtain r1 h1 where 1: "extensions begin_run h = (r1, h1)" by force
  obtain patch h2 where 2: "extensions (before_run (hc_env cfg)) h1 = (patch, h2)" by force
  obtain ks h3 where 3: "extensions (finalize_messages (hc_env cfg) (br_messages patch)) h2 = (ks, h3)" by force
  obtain r4 h4 where 4: "record_messages cfg ks h3 = (r4, h4)" by force
  note apart = extensions_apart [OF 1] extensions_apart [OF 2] extensions_apart [OF 3]
  note p = apart [THEN apart_parts] apart [THEN apart_totals]
  have "totals_of h4 = totals_of h3 \<and> listeners_of h4 = listeners_of h3 \<and> ag_tools (ah_agent h4) = ag_tools (ah_agent h3) \<and>
      (\<exists>old. transcript_of h4 = transcript_of h3 @ old)"
  proof -
    obtain y h5 where i: "in_session cfg (length ks) (\<lambda>now. append_messages (hc_ops cfg) now ks) h3 = (y, h5)" by force
    have "h4 = h5 \<or> h4 = push_messages ks h5" using 4 i by (auto simp: record_messages_def split: sum.splits)
    with in_session_parts [OF i] totals_in_session [OF i] show ?thesis
      by (auto simp: totals_of_def push_messages_def part_defs)
  qed
  moreover have "totals_of (tell_extensions f g) = totals_of g" "listeners_of (tell_extensions f g) = listeners_of g"
    "transcript_of (tell_extensions f g) = transcript_of g" "ag_tools (ah_agent (tell_extensions f g)) = ag_tools (ah_agent g)"
    for f and g :: "('a, 'b, 'c) agent_harness"
    using apart_parts [OF tell_apart [of g f]] apart_totals [OF tell_apart [of g f]] by auto
  moreover have "totals_of (with_system_prompt q g) = totals_of g" for q and g :: "('a, 'b, 'c) agent_harness"
    by (simp add: totals_of_def with_system_prompt_def)
  ultimately show ?thesis
    using assms 1 2 3 4 p by (auto simp: start_run_def Let_def split: sum.splits if_splits option.splits)
qed

text \<open>
  C36. The totals of a harness are those of its runs: \<open>start_run\<close> puts the messages of the extensions before the
  run (\<open>before\<close>), which count for nothing; what the transcript has grown by behind them (\<open>new\<close>) is the run, and
  the totals grow by the usage of each assistant message of it, once and in order, on every path and over
  every storage. Tools write no messages of their own.
\<close>
theorem run_totals:
  assumes "harness_run cfg first pending h = Some (r, h')" and "quiet_tools (ah_agent h)"
    and "start_run cfg h = (p, h1)"
  shows "totals_of h1 = totals_of h \<and> (\<exists>before. transcript_of h1 = transcript_of h @ before) \<and>
         (\<exists>new. transcript_of h' = transcript_of h1 @ new \<and>
            totals_of h' = fold (cost_record (hc_add cfg)) (usages new) (totals_of h))"
proof -
  note 1 = assms(3)
  note s = start_run_parts [OF 1]
  have "\<exists>new. transcript_of h' = transcript_of h1 @ new \<and>
      totals_of h' = fold (cost_record (hc_add cfg)) (usages new) (totals_of h)"
  proof (cases p)
    case (Inl err)
    with assms(1) 1 s show ?thesis by (intro exI [of _ "[]"]) (auto simp: harness_run_def)
  next
    case (Inr previous)
    define h2 where "h2 = subscribe_run h1"
    have h2: "totals_of h2 = totals_of h1" "transcript_of h2 = transcript_of h1" "quiet_tools (ah_agent h2)"
      using assms(2) s by (simp_all add: h2_def totals_of_def subscribe_run_def on_world_def part_defs)
    from assms(1) 1 Inr obtain r1 a where a: "run_on_agent cfg first pending (ah_agent h2) = Some (r1, a)"
      by (auto simp: harness_run_def h2_def Let_def split: option.splits)
    define h3 where "h3 = h2\<lparr>ah_agent := a\<rparr>"
    from run_on_agent_facts [OF a h2(3)] obtain l where
      "ag_messages a = ag_messages (ah_agent h2) @ ended l"
      "hw_journal (ag_world a) = fold (store_event (hc_ops cfg) (hc_now cfg) (hc_add cfg)) l (hw_journal (ag_world (ah_agent h2)))"
      by blast
    then have h3: "transcript_of h3 = transcript_of h1 @ ended l"
      "totals_of h3 = fold (cost_record (hc_add cfg)) (usages (ended l)) (totals_of h)"
      using h2 s by (simp_all add: h3_def transcript_of_def totals_of_def stored_cost cost_of_log)
    have "totals_of h' = totals_of h3 \<and> transcript_of h' = transcript_of h3"
    proof (cases "r1 = RPanic")
      case True
      with assms(1) 1 Inr a show ?thesis by (simp add: harness_run_def h2_def [symmetric] h3_def Let_def)
    next
      case False
      with assms(1) 1 Inr a have f: "finish_run cfg previous r1 h3 = (r, h')"
        by (cases r1) (simp_all add: harness_run_def h2_def [symmetric] h3_def Let_def)
      obtain es c h4 where u: "unsubscribe_run h3 = ((es, c), h4)" by (metis prod.collapse)
      then have "totals_of h4 = totals_of h3" by (auto simp: unsubscribe_run_def on_world_def totals_of_def Let_def)
      with f u apart_totals [OF tell_apart [of h4]] have "totals_of h' = totals_of h3"
        by (auto simp: finish_run_def Let_def totals_of_def with_system_prompt_def split: option.splits)
      with finish_run_parts [OF f] show ?thesis by simp
    qed
    with h3 show ?thesis by (intro exI [of _ "ended l"]) simp
  qed
  with s show ?thesis by blast
qed

end
