(* ===== verification/Harness_Steps.thy ===== *)
theory Harness_Steps
  imports Harness_Properties Session_Properties
begin

text \<open>
  The life of a harness: any sequence of the operations a client calls. Over an in-memory session the
  session holds the agent's transcript after each of them.
\<close>

subsection \<open>Sequences of operations\<close>

datatype ('s, 'x, 'u) harness_op =
    HPrompt agent_message "json option"
  | HPromptInput ustr "image_content list" "json option"
  | HPromptTemplate ustr "(ustr \<times> json) list"
  | HContinue
  | HRecordInput ustr "image_content list" "json option"
  | HSetModel model
  | HSetThinking thinking_level
  | HMoveTo "ustr option" "branch_summary_input option"
  | HBeforeSwitch ustr
  | HSwitched ustr
  | HSkills "skill list"
  | HTemplates "prompt_template list"
  | HTools "('s, 'x, 'u) harness_world agent_tool list"
  | HResetCost
  | HSteer agent_message
  | HSteerInput json
  | HFollowUp agent_message
  | HAbort
  | HInterrupt
  | HShutdown

text \<open>The harness after an operation, whatever it returned; \<open>None\<close> when it panics or never returns.\<close>

definition unpanicked :: "(run_result \<times> ('s, 'x, 'u) agent_harness) option \<Rightarrow> ('s, 'x, 'u) agent_harness option" where
  "unpanicked p = (case p of None \<Rightarrow> None | Some (r, h) \<Rightarrow> if r = RPanic then None else Some h)"

fun perform ::
  "('s, 'x, 'u) harness_config \<Rightarrow> (json \<Rightarrow> ustr) \<Rightarrow> ('s, 'x, 'u) harness_op \<Rightarrow> ('s, 'x, 'u) agent_harness \<Rightarrow>
   ('s, 'x, 'u) agent_harness option" where
  "perform cfg sj (HPrompt m input) h = unpanicked (prompt_with_message_and_input cfg m input h)"
| "perform cfg sj (HPromptInput t images input) h = unpanicked (prompt_with_input cfg t images input h)"
| "perform cfg sj (HPromptTemplate name vars) h = unpanicked (prompt_from_template cfg sj name vars h)"
| "perform cfg sj HContinue h = unpanicked (harness_continue cfg h)"
| "perform cfg sj (HRecordInput t images input) h = Some (snd (record_user_input_prompt cfg t images input h))"
| "perform cfg sj (HSetModel m) h = Some (snd (set_model cfg m h))"
| "perform cfg sj (HSetThinking l) h = Some (snd (set_thinking_level cfg l h))"
| "perform cfg sj (HMoveTo target summary) h = Some (snd (harness_move_to cfg target summary h))"
| "perform cfg sj (HBeforeSwitch target) h = Some (snd (before_session_switch cfg target h))"
| "perform cfg sj (HSwitched target) h = Some (session_switched cfg target h)"
| "perform cfg sj (HSkills skills) h = Some (replace_skills skills h)"
| "perform cfg sj (HTemplates ts) h = Some (replace_templates ts h)"
| "perform cfg sj (HTools ts) h = Some (replace_tools ts h)"
| "perform cfg sj HResetCost h = Some (reset_cost h)"
| "perform cfg sj (HSteer m) h = Some (harness_enqueue_steering m h)"
| "perform cfg sj (HSteerInput input) h = Some (enqueue_steering_input cfg input h)"
| "perform cfg sj (HFollowUp m) h = Some (harness_enqueue_follow_up m h)"
| "perform cfg sj HAbort h = Some (harness_abort h)"
| "perform cfg sj HInterrupt h = Some (harness_interrupt h)"
| "perform cfg sj HShutdown h = Some (shutdown_runtime_extensions cfg h)"

fun performs ::
  "('s, 'x, 'u) harness_config \<Rightarrow> (json \<Rightarrow> ustr) \<Rightarrow> ('s, 'x, 'u) harness_op list \<Rightarrow> ('s, 'x, 'u) agent_harness \<Rightarrow>
   ('s, 'x, 'u) agent_harness option" where
  "performs cfg sj [] h = Some h"
| "performs cfg sj (x # xs) h = Option.bind (perform cfg sj x h) (performs cfg sj xs)"

text \<open>The tools an operation brings write no messages.\<close>

fun brings_quiet :: "('s, 'x, 'u) harness_op \<Rightarrow> bool" where
  "brings_quiet (HTools ts) \<longleftrightarrow> (\<forall>t\<in>set ts. quiet_tool hw_journal t)"
| "brings_quiet _ \<longleftrightarrow> True"

lemma dedup_from_subset: "set (fst (dedup_from seen ts)) \<subseteq> set ts"
  by (induction ts arbitrary: seen) (auto simp: Let_def split: prod.splits dest!: spec, (metis fst_conv subsetD)+)

lemmas steering_defs =
  harness_enqueue_steering_def enqueue_steering_input_def harness_enqueue_follow_up_def harness_abort_def harness_interrupt_def
  enqueue_steering_def enqueue_follow_up_def abort_def interrupt_def

subsection \<open>Each operation keeps the transcript stored\<close>

context session_storage
begin

lemma stored_gated: "stored clock parse h \<Longrightarrow> gated g h = (r, h') \<Longrightarrow> stored clock parse h'"
  by (auto simp: gated_def split: sum.splits prod.splits intro: stored_apart dest!: extensions_apart)

lemma stored_tell: "stored clock parse h \<Longrightarrow> stored clock parse (tell_extensions f h)"
  by (rule stored_apart [OF _ tell_apart])

lemma stored_unpanicked: "left_by clock parse r h \<Longrightarrow> unpanicked (Some (r, h)) = Some h' \<Longrightarrow> stored clock parse h'"
  by (auto simp: unpanicked_def left_by_def split: if_splits)

text \<open>An entry that brings no message.\<close>

lemma stored_entry:
  assumes s: "stored clock parse h"
    and f: "in_session cfg k (\<lambda>now. sbind (so_create_entry_id ops) (\<lambda>i. sbind (so_get_leaf_id ops) (\<lambda>p. append_typed ops (mk now i p)))) h = (r, h')"
    and mk: "\<And>now i p. entry_id (mk now i p) = i" "\<And>now i p. entry_parent_id (mk now i p) = p"
      "\<And>now i p. \<not> is_compaction (mk now i p)" "\<And>now i p k. entry_messages clock parse k (mk now i p) = []"
  shows "stored clock parse h'"
proof -
  from in_session_parts [OF f] obtain now where
    p: "sbind (so_create_entry_id ops) (\<lambda>i. sbind (so_get_leaf_id ops) (\<lambda>p. append_typed ops (mk now i p))) (session_of h) = (r, session_of h')"
      "listeners_of h' = listeners_of h" "transcript_of h' = transcript_of h" "ag_tools (ah_agent h') = ag_tools (ah_agent h)"
      "ah_settings h' = ah_settings h" by blast
  from s have "session_inv (session_of h)" "assembles ops clock parse (session_of h) (transcript_of h)"
    by (simp_all add: stored_def holds_def)
  from append_child_assembles [OF this, of "mk now" "[]"] mk p(1)
  have "holds clock parse (session_of h') (transcript_of h)" by (auto simp: holds_def)
  with s p show ?thesis by (simp add: stored_def quiet_tools_def)
qed

lemma stored_set_model:
  assumes ops: "hc_ops cfg = ops" and s: "stored clock parse h"
  shows "stored clock parse (snd (set_model cfg m h))"
proof -
  obtain r1 h1 where 1: "gated (before_model_selection (hc_env cfg) m) h = (r1, h1)" by force
  note s1 = stored_gated [OF s 1]
  obtain r2 h2 where 2: "in_session cfg 1 (\<lambda>now. append_model_change ops (now 0) (mo_provider m) (mo_id m)) h1 = (r2, h2)" by force
  have s2: "stored clock parse h2"
    by (rule stored_entry [OF s1 2 [unfolded append_model_change_def]]) simp_all
  have "stored clock parse (h2\<lparr>ah_agent := (ah_agent h2)\<lparr>ag_model := Some m\<rparr>\<rparr>)"
    using s2 by (simp add: stored_def part_defs)
  from stored_tell [OF this] 1 2 s1 s2 show ?thesis
    by (simp add: set_model_def ops split: sum.split)
qed

lemma stored_set_thinking:
  assumes ops: "hc_ops cfg = ops" and s: "stored clock parse h"
  shows "stored clock parse (snd (set_thinking_level cfg l h))"
proof -
  obtain r2 h2 where 2: "in_session cfg 1 (\<lambda>now. append_thinking_level_change ops (now 0) (lit (level_str l))) h = (r2, h2)" by force
  have s2: "stored clock parse h2"
    by (rule stored_entry [OF s 2 [unfolded append_thinking_level_change_def]]) simp_all
  then have "stored clock parse (h2\<lparr>ah_agent := (ah_agent h2)\<lparr>ag_thinking_level := Some l\<rparr>\<rparr>)"
    by (simp add: stored_def part_defs)
  with 2 s2 show ?thesis by (simp add: set_thinking_level_def ops split: sum.split)
qed

text \<open>A move of the leaf is followed by a reading of the branch, which cannot fail.\<close>

lemma rehydrate_reads:
  assumes ops: "hc_ops cfg = ops" and inv: "session_inv (session_of h)"
  shows "\<exists>c h'. rehydrate_from_session cfg h = (Inr c, h') \<and> holds (hc_clock cfg) (hc_parse_time cfg) (session_of h') (transcript_of h') \<and>
           session_of h' = session_of h \<and> listeners_of h' = listeners_of h \<and> ag_tools (ah_agent h') = ag_tools (ah_agent h) \<and>
           ah_settings h' = ah_settings h"
proof -
  from branch_defined [OF inv] obtain p where "branch ops None (session_of h) = (Inr p, session_of h)" by blast
  then have b: "build_context ops (hc_clock cfg) (hc_parse_time cfg) (session_of h) =
      (Inr (build_session_context (hc_clock cfg) (hc_parse_time cfg) p), session_of h)"
    by (simp add: build_context_def sbind_def sret_def)
  obtain y h1 where 1: "in_session cfg 0 (\<lambda>_. build_context ops (hc_clock cfg) (hc_parse_time cfg)) h = (y, h1)" by force
  from in_session_parts [OF 1] b have
    y: "y = Inr (build_session_context (hc_clock cfg) (hc_parse_time cfg) p)" "session_of h1 = session_of h"
      "listeners_of h1 = listeners_of h" "ag_tools (ah_agent h1) = ag_tools (ah_agent h)" "ah_settings h1 = ah_settings h" by auto
  with 1 ops inv b show ?thesis
    by (auto simp: rehydrate_from_session_def Let_def holds_def assembles_def part_defs)
qed

lemma stored_move_to:
  assumes ops: "hc_ops cfg = ops" and s: "stored (hc_clock cfg) (hc_parse_time cfg) h"
  shows "stored (hc_clock cfg) (hc_parse_time cfg) (snd (harness_move_to cfg target summary h))"
proof (cases "reject_reentrant_operation (runtime_of h)")
  case (Inl err)
  with s show ?thesis by (simp add: harness_move_to_def)
next
  case (Inr u)
  let ?stored = "stored (hc_clock cfg) (hc_parse_time cfg)"
  obtain l h1 where 1: "in_session cfg 0 (\<lambda>_. so_get_leaf_id ops) h = (l, h1)" by force
  from s have inv: "session_inv (session_of h)" by (simp add: stored_def holds_def)
  from in_session_parts [OF 1] get_leaf [OF inv_ok [OF inv]] s have s1: "?stored h1"
    by (auto simp: stored_def quiet_tools_def)
  define origin where "origin = (case l of Inr l \<Rightarrow> l | Inl _ \<Rightarrow> None)"
  obtain r2 h2 where 2: "extensions (gate_session_operation (hc_env cfg) OnBeforeSessionSwitch (JObj (branch_payload origin target))) h1 = (r2, h2)"
    by force
  have s2: "?stored h2" by (rule stored_apart [OF s1 extensions_apart [OF 2]])
  then have inv2: "session_inv (session_of h2)" by (simp add: stored_def holds_def)
  obtain r3 h3 where 3: "in_session cfg 1 (\<lambda>now. move_to ops (now 0) target summary) h2 = (r3, h3)" by force
  from in_session_parts [OF 3] obtain t where
    p: "move_to ops t target summary (session_of h2) = (r3, session_of h3)" "listeners_of h3 = listeners_of h2"
       "transcript_of h3 = transcript_of h2" "ag_tools (ah_agent h3) = ag_tools (ah_agent h2)" "ah_settings h3 = ah_settings h2"
    by blast
  show ?thesis
  proof (cases "leaf_ok (ents (session_of h2)) target")
    case True
    from move_to_eq [OF inv2 True, of t summary] p(1) obtain res where
      r3: "r3 = Inr res" "session_inv (session_of h3)" by auto
    from rehydrate_reads [OF ops r3(2)] obtain c h4 where 4: "rehydrate_from_session cfg h3 = (Inr c, h4)"
      "holds (hc_clock cfg) (hc_parse_time cfg) (session_of h4) (transcript_of h4)" "listeners_of h4 = listeners_of h3"
      "ag_tools (ah_agent h4) = ag_tools (ah_agent h3)" "ah_settings h4 = ah_settings h3" by blast
    then have "?stored h4" using s2 p by (simp add: stored_def quiet_tools_def)
    then have "?stored (emit_session_event (SeBranch origin target res) h4)" by simp
    from stored_tell [OF this] s2 show ?thesis using 1 2 3 4(1) r3(1) Inr
      by (simp add: harness_move_to_def ops origin_def [symmetric] split: sum.split)
  next
    case False
    then obtain i where i: "target = Some i" "i \<notin> entry_id ` set (ents (session_of h2))"
      by (auto simp: leaf_ok_def split: option.splits)
    from move_to_missing [OF inv_ok [OF inv2] i(2), of t summary] p i(1) obtain e where
      "r3 = Inl e" "session_of h3 = session_of h2" by auto
    with p s2 have "?stored h3" "r3 = Inl e" by (simp_all add: stored_def quiet_tools_def)
    with s2 show ?thesis using 1 2 3 Inr
      by (simp add: harness_move_to_def ops origin_def [symmetric] split: sum.split)
  qed
qed

lemma stored_perform:
  fixes cfg :: "('s, 'x, 'u) harness_config"
  assumes ops: "hc_ops cfg = ops" and hook: "hook_keeps (hc_clock cfg) (hc_parse_time cfg) cfg"
    and s: "stored (hc_clock cfg) (hc_parse_time cfg) h" and q: "brings_quiet x" and p: "perform cfg sj x h = Some h'"
  shows "stored (hc_clock cfg) (hc_parse_time cfg) h'"
proof -
  let ?stored = "stored (hc_clock cfg) (hc_parse_time cfg)"
  have prompt: "?stored g'" if "unpanicked (prompt_with_message_and_input cfg m input g) = Some g'" "?stored g" for m input g g'
    using that stored_prompt [OF ops hook] stored_unpanicked
    by (auto simp: unpanicked_def left_by_def split: option.splits if_splits)
  have clock: "?stored (snd (read_clock cfg g))" if "?stored g" for g :: "('s, 'x, 'u) agent_harness"
    using stored_clock [of cfg g] that by (metis prod.collapse)
  show ?thesis
  proof (cases x)
    case (HPrompt m input)
    with p prompt s show ?thesis by simp
  next
    case (HPromptInput t images input)
    with p show ?thesis using prompt clock [OF s] by (auto simp: prompt_with_input_def split: prod.splits)
  next
    case (HPromptTemplate name vars)
    with p show ?thesis using prompt clock [OF s] s
      by (auto simp: prompt_from_template_def harness_prompt_def unpanicked_def [where p = "Some (RErr e, g)" for e g]
          split: option.splits prod.splits)
  next
    case HContinue
    have e: "?stored (ensure_session_start_emitted cfg h)" by (rule stored_ensure [OF s])
    obtain r h1 where 1: "prepare_run cfg (ensure_session_start_emitted cfg h) = (r, h1)" by force
    with stored_prepare [OF e 1] e have s1: "?stored h1" by blast
    show ?thesis
    proof (cases "run_turn_with_continuation cfg None (last_user_text_from_state h1) h1")
      case None
      with p HContinue 1 s s1 show ?thesis
        by (auto simp: harness_continue_def unpanicked_def split: sum.splits run_result.splits)
    next
      case (Some y)
      obtain r' g where y: "y = (r', g)" by force
      from stored_cycle [OF ops hook s1] Some y have "left_by (hc_clock cfg) (hc_parse_time cfg) r' g"
        by (auto simp: run_turn_with_continuation_def)
      with p HContinue 1 s s1 Some y show ?thesis
        by (auto simp: harness_continue_def unpanicked_def left_by_def split: sum.splits run_result.splits if_splits)
    qed
  next
    case (HRecordInput t images input)
    have recorded: "?stored (snd (record_messages cfg ms g))" if "?stored g" for ms and g :: "('s, 'x, 'u) agent_harness"
      using stored_record_messages [OF ops that, of ms] by (metis prod.collapse)
    obtain r1 h1 where 1: "record_input cfg input h = (r1, h1)" by force
    have s1: "?stored h1" using 1 clock [OF s] s
      by (cases input) (auto simp: record_input_def Let_def split: prod.splits intro: stored_record_messages [OF ops])
    from p HRecordInput 1 recorded clock [OF s1] s1 show ?thesis
      by (auto simp: record_user_input_prompt_def split: prod.splits sum.splits)
  next
    case (HTools ts)
    with p s q dedup_from_subset [of "[]" ts] show ?thesis
      by (auto simp: replace_tools_def deduplicate_tools_def stored_def part_defs)
  next
    case (HBeforeSwitch target)
    obtain r h1 where "gated (gate_session_operation (hc_env cfg) OnBeforeSessionSwitch (target_payload target)) h = (r, h1)" by force
    with stored_gated [OF s this] p HBeforeSwitch show ?thesis by (simp add: before_session_switch_def)
  next
    case HShutdown
    have "?stored (h\<lparr>ah_agent := abort (ah_agent h)\<rparr>)" using s by (simp add: stored_def part_defs abort_def)
    from stored_tell [OF this, of "ext_shutdown (hc_env cfg)"] p HShutdown show ?thesis
      by (auto simp: shutdown_runtime_extensions_def)
  next
    case HResetCost
    with p s show ?thesis by (auto simp: reset_cost_def on_world_def stored_def part_defs)
  next
    case (HSteer m)
    with p s show ?thesis by (auto simp: steering_defs stored_def part_defs)
  next
    case (HSteerInput input)
    with p clock [OF s] show ?thesis by (auto simp: steering_defs stored_def part_defs Let_def split: prod.splits)
  next
    case (HFollowUp m)
    with p s show ?thesis by (auto simp: steering_defs stored_def part_defs)
  next
    case HAbort
    with p s show ?thesis by (auto simp: steering_defs stored_def part_defs)
  next
    case HInterrupt
    with p s show ?thesis by (auto simp: steering_defs stored_def part_defs)
  next
    case (HSkills skills)
    with p s show ?thesis by (auto simp: replace_skills_def with_system_prompt_def stored_def part_defs)
  next
    case (HTemplates ts)
    with p s show ?thesis by (auto simp: replace_templates_def stored_def part_defs)
  qed (use p stored_set_model [OF ops s] stored_set_thinking [OF ops s] stored_move_to [OF ops s] stored_tell [OF s] in
      \<open>auto simp: session_switched_def\<close>)
qed

lemma stored_performs:
  fixes cfg :: "('s, 'x, 'u) harness_config"
  assumes "hc_ops cfg = ops" and "hook_keeps (hc_clock cfg) (hc_parse_time cfg) cfg"
    and "stored (hc_clock cfg) (hc_parse_time cfg) h" and "\<forall>x\<in>set xs. brings_quiet x" and "performs cfg sj xs h = Some h'"
  shows "stored (hc_clock cfg) (hc_parse_time cfg) h'"
  using assms(3-)
proof (induction xs arbitrary: h)
  case (Cons x xs)
  from Cons.prems obtain h1 where h1: "perform cfg sj x h = Some h1" "performs cfg sj xs h1 = Some h'"
    by (auto split: Option.bind_splits)
  with Cons.IH [OF stored_perform [OF assms(1,2) Cons.prems(1) _ h1(1)]] Cons.prems(2) show ?case by simp
qed simp

end

subsection \<open>From the start\<close>

lemma new_assembles:
  assumes "inj uuid"
  shows "assembles (memory_ops uuid) clock parse (memory_new uuid created) []"
  using memory.branch_eq [OF memory.inv_ok [OF new_inv [OF assms]]]
  by (simp add: memory.assembles_branch memory_new_def mem_entries_def mem_leaf_def path_of_def build_session_context_def)

text \<open>
  C15. A harness over a new in-memory session, with compaction off, whose tools and turn-end hook write no
  messages of their own. After any sequence of prompts, continuations, template prompts, recorded inputs,
  changes of the model, of the thinking level, of skills, templates and tools, queued messages, aborts, interrupts, moves to any entry of the
  session, existing or not, and shutdowns, each of which may have succeeded or failed, but none panicked, the context assembled
  from the session is the messages the agent has in memory, and no listener is left.
\<close>
theorem harness_in_step:
  assumes "inj uuid" and "hc_ops cfg = memory_ops uuid"
    and "harness_new cfg system model level skills templates tools cwd interactive ctx settings algorithms obs
           (memory_new uuid created) x u = Some h0"
    and "\<not> cp_enabled settings" and "\<forall>t\<in>set tools. quiet_tool hw_journal t" and "\<forall>y\<in>set xs. brings_quiet y"
    and "\<forall>hook t n p s u ms. hc_on_turn_end cfg = Some hook \<longrightarrow> memory.session_inv uuid s \<longrightarrow>
           assembles (memory_ops uuid) (hc_clock cfg) (hc_parse_time cfg) s ms \<longrightarrow>
           memory.session_inv uuid (fst (snd (hook t n p (s, u)))) \<and>
           assembles (memory_ops uuid) (hc_clock cfg) (hc_parse_time cfg) (fst (snd (hook t n p (s, u)))) ms"
    and "performs cfg sj xs h0 = Some h"
  shows "assembles (memory_ops uuid) (hc_clock cfg) (hc_parse_time cfg) (session_of h) (transcript_of h) \<and> listeners_of h = []"
proof -
  have "memory.hook_keeps uuid (hc_clock cfg) (hc_parse_time cfg) cfg"
    using assms(7) unfolding memory.hook_keeps_def memory.holds_def by blast
  moreover have "memory.stored uuid (hc_clock cfg) (hc_parse_time cfg) h0"
    using assms(3,4,5) dedup_from_subset [of "[]" tools] new_inv [OF assms(1), of created] new_assembles [OF assms(1)]
    by (auto simp: harness_new_def memory.stored_def memory.holds_def part_defs deduplicate_tools_def Let_def)
  ultimately have "memory.stored uuid (hc_clock cfg) (hc_parse_time cfg) h"
    using memory.stored_performs assms(2,6,8) by blast
  then show ?thesis by (simp add: memory.stored_def memory.holds_def)
qed

subsection \<open>A follow-up lost\<close>

text \<open>
  When the budget refuses the round that a follow-up of an extension asks for, the follow-up is gone: it has
  left the queue, was put in no transcript and no session, and asking for it again under its id is ignored
  as a duplicate, so that it does not run after the budget was raised either.
\<close>
theorem follow_up_lost_to_budget:
  assumes "fq_queued (xr_follow_ups (runtime_of h)) = (i, m) # rest" and "i \<in> set (fq_seen (xr_follow_ups (runtime_of h)))"
    and "cy_follow_ups cy < RUNTIME_EXTENSION_FOLLOW_UP_CHAIN_CAP" and "check_budget_cap cfg h = RErr err"
  shows "\<exists>h'. next_round cfg cy h = (CycleEnds (RErr err), h') \<and> transcript_of h' = transcript_of h \<and> session_of h' = session_of h \<and>
           fq_queued (xr_follow_ups (runtime_of h')) = rest \<and>
           enqueue_one (i, m) (xr_follow_ups (runtime_of h')) = xr_follow_ups (runtime_of h')"
proof -
  obtain y h1 where 1: "extensions take_follow_up h = (y, h1)" by force
  note p = apart_parts [OF extensions_apart [OF 1]]
  from 1 assms(1) have y: "y = Some m" "xr_follow_ups (runtime_of h1) = (xr_follow_ups (runtime_of h))\<lparr>fq_queued := rest\<rparr>"
    by (auto simp: extensions_def on_world_def on_runtime_def take_follow_up_def runtime_of_def)
  have "check_budget_cap cfg h1 = check_budget_cap cfg h"
    using extensions_apart [OF 1] by (auto simp: apart_from_runtime_def check_budget_cap_def split: option.split)
  with assms(4) have "check_budget_cap cfg h1 = RErr err" by simp
  with 1 y(1) assms(3) have "next_round cfg cy h = (CycleEnds (RErr err), h1)"
    by (simp add: next_round_def go_on_def prepare_run_def)
  with p y(2) assms(2) show ?thesis by (auto simp: enqueue_one_def)
qed

end
