(* ===== verification/Harness_Bounds.thy ===== *)
theory Harness_Bounds
  imports Harness_Facts
begin

text \<open>
  The prompt cycle ends. Every round but the last spends one of the follow-ups or one of the continuations
  a prompt may have; with an iteration budget each round is one bounded run.
\<close>

subsection \<open>One run is bounded\<close>

lemma drive_loop_budget:
  assumes "ao_max_iterations opts = Some m"
  shows "\<exists>r b. drive_loop opts a = Some (r, b) \<and> grow opts m a b"
proof -
  have "\<exists>y. drive_loop opts a = Some y"
  proof -
    obtain sc obs where s: "scope_start (ao_observation_parent opts) (ao_observation_context opts) DetAgentRun (ag_obs a) = (sc, obs)"
      by force
    obtain q c b where "turn_loop opts (sc_id sc) \<lparr>cn_iterations = 0, cn_turn_index = 0, cn_completed = 0\<rparr>
        (a\<lparr>ag_obs := obs, ag_active_run := Some (sc_id sc)\<rparr>) = Some (q, c, b)"
      using turn_loop_budget [OF assms] by metis
    then show ?thesis by (cases q) (auto simp: drive_loop_def s Let_def split: prod.split)
  qed
  then obtain r b where d: "drive_loop opts a = Some (r, b)" by auto
  from drive_loop_grow [OF d] obtain i a0 y where
    y: "turn_loop opts i counters_zero a0 = Some y" "\<And>n. grow opts n a0 (snd (snd y)) \<Longrightarrow> grow opts n a b" by blast
  from turn_loop_budget [OF assms, of i counters_zero a0] y(1) have "grow opts m a0 (snd (snd y))"
    by (auto simp: counters_zero_def)
  with d y(2) show ?thesis by blast
qed

text \<open>The log grows by a run that starts at most \<open>m\<close> turns.\<close>

definition turns_within :: "nat \<Rightarrow> 'w agent \<Rightarrow> 'w agent \<Rightarrow> bool" where
  "turns_within m a b \<longleftrightarrow> (\<exists>l. ag_log b = ag_log a @ l \<and> turns l \<le> m)"

lemma turns_within_refl [simp]: "turns_within m a a"
  by (simp add: turns_within_def)

lemma turns_within_trans: "turns_within m a b \<Longrightarrow> turns_within n b c \<Longrightarrow> turns_within (m + n) a c"
  unfolding turns_within_def by (elim exE conjE) (intro exI conjI, auto)

lemma turns_within_mono: "turns_within m a b \<Longrightarrow> m \<le> n \<Longrightarrow> turns_within n a b"
  by (auto simp: turns_within_def)

lemma turns_within_log: "ag_log b = ag_log c \<Longrightarrow> turns_within m a b \<longleftrightarrow> turns_within m a c"
  by (simp add: turns_within_def)

lemma end_run_budget:
  assumes "ao_max_iterations opts = Some m"
  shows "\<exists>r b. end_run opts (drive_loop opts a) = Some (r, b) \<and> turns_within m a b"
proof -
  from drive_loop_budget [OF assms] obtain q c where d: "drive_loop opts a = Some (q, c)" "grow opts m a c" by blast
  have e: "grow opts 0 c (finalize_run opts c)" unfolding finalize_run_def by (rule emit_grow) simp_all
  from d grow_trans [OF d(2) e] show ?thesis
    by (cases q) (auto simp: end_run_def turns_within_def grow_def)
qed

lemma run_on_agent_budget:
  assumes "hc_max_iterations cfg = Some m"
  shows "\<exists>r b. run_on_agent cfg first pending a = Some (r, b) \<and> turns_within m a b"
proof -
  let ?opts = "harness_agent_options cfg"
  have m: "ao_max_iterations ?opts = Some m" using assms by (simp add: harness_agent_options_def)
  have start: "turns_within 0 a (Agent_Types.emit ?opts RunStarted c)" if "ag_log c = ag_log a" for c
    using that by (simp add: turns_within_def)
  have messages: "turns_within 0 a (snd (start_messages ?opts ms b))" if "turns_within 0 a b" for ms b
  proof -
    obtain ks c where "start_messages ?opts ms b = (ks, c)" by force
    with start_messages_grow [OF this] turns_within_trans [OF that, of 0 c] show ?thesis
      by (auto simp: grow_def turns_within_def)
  qed
  have run: "\<exists>r c. end_run ?opts (drive_loop ?opts b) = Some (r, c) \<and> turns_within m a c" if "turns_within 0 a b" for b
    using end_run_budget [OF m, of b] turns_within_trans [OF that] by fastforce
  have "\<exists>r b. run_agent_loop ?opts ms a = Some (r, b) \<and> turns_within m a b" for ms
    using run [OF messages [OF start]] by (cases "ag_run_active a") (simp_all add: run_agent_loop_def acquire_permit_def Let_def)
  moreover have "\<exists>r b. run_agent_loop_continue ?opts a = Some (r, b) \<and> turns_within m a b"
    using run [OF start] by (cases "ag_run_active a") (simp_all add: run_agent_loop_continue_def acquire_permit_def turns_within_def)
  ultimately show ?thesis by (simp add: run_on_agent_def prompt_def split: option.split)
qed

subsection \<open>The operations around a run emit no event\<close>

definition log_of :: "('s, 'x, 'u) agent_harness \<Rightarrow> loop_event list" where
  "log_of h = ag_log (ah_agent h)"

lemma log_world: "on_world f h = (y, h') \<Longrightarrow> log_of h' = log_of h"
  by (auto simp: on_world_def log_of_def split: prod.splits)

lemma log_small [simp]:
  "log_of (push_messages ms h) = log_of h" "log_of (with_system_prompt p h) = log_of h"
  "log_of (emit_session_event ev h) = log_of h" "log_of (tell_extensions f h) = log_of h"
  "log_of (subscribe_run h) = log_of h" "log_of (after_compaction v h) = log_of h"
  by (auto simp: log_of_def push_messages_def with_system_prompt_def emit_session_event_def tell_extensions_def
      extensions_def subscribe_run_def after_compaction_def on_world_def Let_def split: prod.split)

lemma log_extensions: "extensions f h = (y, h') \<Longrightarrow> log_of h' = log_of h"
  unfolding extensions_def by (rule log_world)

lemma log_session: "in_session cfg k f h = (y, h') \<Longrightarrow> log_of h' = log_of h"
  unfolding in_session_def by (rule log_world)

lemma log_clock: "read_clock cfg h = (y, h') \<Longrightarrow> log_of h' = log_of h"
  unfolding read_clock_def by (rule log_world)

lemma log_record: "record_messages cfg ms h = (y, h') \<Longrightarrow> log_of h' = log_of h"
  by (auto simp: record_messages_def split: prod.splits sum.splits dest: log_session)

lemma log_input: "record_input cfg input h = (y, h') \<Longrightarrow> log_of h' = log_of h"
  by (auto simp: record_input_def Let_def split: option.splits prod.splits dest!: log_record log_clock)

lemma log_decision [simp]: "log_of (record_turn_end_decision cfg d n reason preview payload h) = log_of h"
  by (auto simp: record_turn_end_decision_def Let_def split: prod.split sum.split dest: log_session)

lemma log_session_snd: "log_of (snd (in_session cfg k f h)) = log_of h"
  using log_session [of cfg k f h] by (metis prod.collapse)

lemma log_compaction: "harness_auto_compaction cfg h = (r, h') \<Longrightarrow> log_of h' = log_of h"
  by (auto simp: harness_auto_compaction_def Let_def log_session_snd split: prod.splits if_splits
      dest!: log_world log_extensions)

lemma log_prepare: "prepare_run cfg h = (r, h') \<Longrightarrow> log_of h' = log_of h"
  by (auto simp: prepare_run_def split: run_result.splits dest: log_compaction)

lemma log_start: "start_run cfg h = (r, h') \<Longrightarrow> log_of h' = log_of h"
  by (auto simp: start_run_def Let_def split: prod.splits sum.splits option.splits if_splits
      dest!: log_extensions log_record)

lemma log_finish: "finish_run cfg previous r h = (r', h') \<Longrightarrow> log_of h' = log_of h"
  by (auto simp: finish_run_def unsubscribe_run_def Let_def split: prod.splits option.splits dest!: log_world)

subsection \<open>The cycle is bounded\<close>

text \<open>What a round may still spend.\<close>

definition rounds_left :: "('s, 'x, 'u) harness_config \<Rightarrow> cycle \<Rightarrow> nat" where
  "rounds_left cfg cy =
     (RUNTIME_EXTENSION_FOLLOW_UP_CHAIN_CAP - cy_follow_ups cy) + (hc_turn_continuation_cap cfg - cy_continuations cy)"

lemma apply_decision_goes:
  assumes "apply_decision cfg cy d h = (st, h')"
  shows "log_of h' = log_of h \<and> (\<forall>cy'. st = CycleGoes cy' \<longrightarrow>
           cy_continuations cy' = cy_continuations cy + 1 \<and> cy_follow_ups cy' = cy_follow_ups cy)"
  using assms
  by (auto simp: apply_decision_def Let_def split: turn_end_action.splits prod.splits run_result.splits
      dest!: log_prepare log_clock)

lemma next_round_goes:
  assumes "next_round cfg cy h = (st, h')"
  shows "log_of h' = log_of h \<and> (\<forall>cy'. st = CycleGoes cy' \<longrightarrow> rounds_left cfg cy' < rounds_left cfg cy)"
proof -
  obtain m h1 where 1: "extensions take_follow_up h = (m, h1)" by force
  note l1 = log_extensions [OF 1]
  show ?thesis
  proof (cases m)
    case (Some msg)
    with assms 1 l1 show ?thesis
      by (auto simp: next_round_def go_on_def rounds_left_def split: if_splits prod.splits run_result.splits dest!: log_prepare)
  next
    case None
    define cy0 where "cy0 = cy\<lparr>cy_pending := None, cy_first := False\<rparr>"
    from assms 1 None have a: "ask_turn_end cfg cy0 h1 = (st, h')" by (simp add: next_round_def cy0_def)
    show ?thesis
    proof (cases "hc_on_turn_end cfg")
      case None
      with a l1 show ?thesis by (auto simp: ask_turn_end_def)
    next
      case (Some hook)
      show ?thesis
      proof (cases "hc_turn_continuation_cap cfg \<le> cy_continuations cy")
        case True
        with a l1 Some show ?thesis by (auto simp: ask_turn_end_def cy0_def)
      next
        case below: False
        from a Some below obtain f d h2 where w: "on_world f h1 = (d, h2)"
          and d: "(case d of None \<Rightarrow> (CycleEnds RPanic, h2) | Some d \<Rightarrow> apply_decision cfg cy0 d h2) = (st, h')"
          unfolding cy0_def by (auto simp: ask_turn_end_def Let_def split: prod.splits)
        note l2 = log_world [OF w]
        show ?thesis
        proof (cases d)
          case None
          with d l1 l2 show ?thesis by auto
        next
          case (Some e)
          with d have "apply_decision cfg cy0 e h2 = (st, h')" by simp
          note g = apply_decision_goes [OF this]
          have "rounds_left cfg cy' < rounds_left cfg cy" if "st = CycleGoes cy'" for cy'
          proof -
            from g that have "cy_continuations cy' = cy_continuations cy + 1" "cy_follow_ups cy' = cy_follow_ups cy"
              by (simp_all add: cy0_def)
            with below show ?thesis by (simp add: rounds_left_def)
          qed
          with g l1 l2 show ?thesis by simp
        qed
      qed
    qed
  qed
qed

lemma harness_run_budget:
  assumes "hc_max_iterations cfg = Some m"
  shows "\<exists>r h'. harness_run cfg first pending h = Some (r, h') \<and> turns_within m (ah_agent h) (ah_agent h')"
proof -
  obtain p h1 where 1: "start_run cfg h = (p, h1)" by force
  have l1: "ag_log (ah_agent h1) = ag_log (ah_agent h)" using log_start [OF 1] by (simp add: log_of_def)
  show ?thesis
  proof (cases p)
    case (Inl err)
    with 1 l1 show ?thesis by (simp add: harness_run_def turns_within_def)
  next
    case (Inr previous)
    define h2 where "h2 = subscribe_run h1"
    have l2: "ag_log (ah_agent h2) = ag_log (ah_agent h)" using l1 log_small(5) [of h1] by (simp add: log_of_def h2_def)
    from run_on_agent_budget [OF assms] obtain r a where
      a: "run_on_agent cfg first pending (ah_agent h2) = Some (r, a)" "turns_within m (ah_agent h2) a" by blast
    then have w: "turns_within m (ah_agent h) a" using l2 by (simp add: turns_within_def)
    obtain r' h' where f: "finish_run cfg previous r (h2\<lparr>ah_agent := a\<rparr>) = (r', h')" by force
    have "ag_log (ah_agent h') = ag_log a" using log_finish [OF f] by (simp add: log_of_def)
    with w have w': "turns_within m (ah_agent h) (ah_agent h')" by (simp add: turns_within_def)
    show ?thesis
    proof (cases "r = RPanic")
      case True
      with 1 Inr a w show ?thesis by (simp add: harness_run_def h2_def [symmetric])
    next
      case False
      then have "harness_run cfg first pending h = Some (r', h')"
        using 1 Inr a f by (cases r) (simp_all add: harness_run_def h2_def [symmetric])
      with w' show ?thesis by blast
    qed
  qed
qed

lemma prompt_cycle_budget:
  assumes "hc_max_iterations cfg = Some m"
  shows "\<exists>r h'. prompt_cycle cfg cy h = Some (r, h') \<and>
           turns_within (Suc (rounds_left cfg cy) * m) (ah_agent h) (ah_agent h')"
proof (induction "rounds_left cfg cy" arbitrary: cy h rule: less_induct)
  case less
  from harness_run_budget [OF assms] obtain r h1 where
    run: "harness_run cfg (cy_first cy) (cy_pending cy) h = Some (r, h1)" "turns_within m (ah_agent h) (ah_agent h1)" by blast
  have stop: ?case if "cycle_pass cfg cy h = Some (CycleEnds q, h2)" "log_of h2 = log_of h1" for q h2
    using that run(2) by (auto simp: prompt_cycle.simps turns_within_def log_of_def)
  show ?case
  proof (cases "r = ROk")
    case False
    with run(1) have "cycle_pass cfg cy h = Some (CycleEnds r, h1)" by (cases r) (auto simp: cycle_pass_def)
    then show ?thesis by (rule stop) simp
  next
    case True
    obtain st h2 where n: "next_round cfg cy h1 = (st, h2)" by force
    with run(1) True have p: "cycle_pass cfg cy h = Some (st, h2)" by (simp add: cycle_pass_def)
    note g = next_round_goes [OF n]
    show ?thesis
    proof (cases st)
      case (CycleEnds q)
      with p g show ?thesis using stop [of q h2] by simp
    next
      case (CycleGoes cy')
      with g have lt: "rounds_left cfg cy' < rounds_left cfg cy" by simp
      from less [OF this, of h2] obtain r' h' where
        r': "prompt_cycle cfg cy' h2 = Some (r', h')" "turns_within (Suc (rounds_left cfg cy') * m) (ah_agent h2) (ah_agent h')" by blast
      have "turns_within m (ah_agent h) (ah_agent h2)" using run(2) g by (simp add: turns_within_def log_of_def)
      from turns_within_trans [OF this r'(2)] have "turns_within (m + Suc (rounds_left cfg cy') * m) (ah_agent h) (ah_agent h')" .
      moreover have "m + Suc (rounds_left cfg cy') * m \<le> Suc (rounds_left cfg cy) * m"
        using mult_le_mono1 [of "Suc (Suc (rounds_left cfg cy'))" "Suc (rounds_left cfg cy)" m] lt by simp
      ultimately have "turns_within (Suc (rounds_left cfg cy) * m) (ah_agent h) (ah_agent h')" by (rule turns_within_mono)
      with p CycleGoes r'(1) show ?thesis by (simp add: prompt_cycle.simps)
    qed
  qed
qed

lemma prompt_budget:
  assumes "hc_max_iterations cfg = Some m"
  shows "\<exists>r h'. prompt_with_message_and_input cfg message input h = Some (r, h') \<and>
           turns_within ((17 + hc_turn_continuation_cap cfg) * m) (ah_agent h) (ah_agent h')"
proof (cases "reject_reentrant_operation (runtime_of h)")
  case (Inl err)
  then show ?thesis by (simp add: prompt_with_message_and_input_def)
next
  case (Inr u)
  define h1 where "h1 = ensure_session_start_emitted cfg h"
  have l1: "log_of h1 = log_of h"
    by (simp add: h1_def ensure_session_start_emitted_def) (simp add: log_of_def)
  obtain out h2 where t: "extensions (transform_input (hc_env cfg) message) h1 = (out, h2)" by force
  obtain r3 h3 where pr: "prepare_run cfg h2 = (r3, h3)" by force
  obtain r4 h4 where rec: "record_input cfg input h3 = (r4, h4)" by force
  have l: "log_of h2 = log_of h" "log_of h3 = log_of h" "log_of h4 = log_of h"
    using l1 log_extensions [OF t] log_prepare [OF pr] log_input [OF rec] by simp_all
  have same: "turns_within n (ah_agent h) (ah_agent g)" if "log_of g = log_of h" for n g
    using that by (simp add: turns_within_def log_of_def)
  have run: "\<exists>r h'. run_turn_with_continuation cfg (Some msg) lst h4 = Some (r, h') \<and>
      turns_within ((17 + hc_turn_continuation_cap cfg) * m) (ah_agent h) (ah_agent h')" for msg lst
  proof -
    let ?cy = "\<lparr>cy_continuations = 0, cy_follow_ups = 0, cy_pending = Some msg, cy_first = True, cy_last_user_prompt = lst\<rparr>"
    have "Suc (rounds_left cfg ?cy) = 17 + hc_turn_continuation_cap cfg"
      by (simp add: rounds_left_def RUNTIME_EXTENSION_FOLLOW_UP_CHAIN_CAP_def)
    with prompt_cycle_budget [OF assms, of ?cy h4] l(3) show ?thesis
      unfolding run_turn_with_continuation_def by (auto simp: turns_within_def log_of_def)
  qed
  show ?thesis
  proof (cases out)
    case None
    with Inr t l show ?thesis by (simp add: prompt_with_message_and_input_def h1_def same)
  next
    case (Some o')
    show ?thesis
    proof (cases o')
      case (InputHandled outcome)
      with Inr t l Some show ?thesis by (simp add: prompt_with_message_and_input_def h1_def same)
    next
      case (InputRun msg)
      show ?thesis
      proof (cases "r3 = ROk \<and> (\<exists>y. r4 = Inr y)")
        case True
        with Inr t pr rec Some InputRun run [of msg] show ?thesis
          by (auto simp: prompt_with_message_and_input_def h1_def)
      next
        case False
        with Inr t pr rec Some InputRun l show ?thesis
          by (cases r3; cases r4) (auto simp: prompt_with_message_and_input_def h1_def same)
      qed
    qed
  qed
qed

text \<open>
  C17. A prompt to a harness whose agent has an iteration budget of \<open>m\<close> returns, whatever the model, the tools,
  the extensions and the turn-end hook do: it runs the agent at most once, sixteen times more for follow-ups
  and once more for each continuation allowed, and starts no more than \<open>m\<close> turns each time.
\<close>
theorem prompt_ends_in_budget:
  assumes "hc_max_iterations cfg = Some m"
  shows "\<exists>r h'. prompt_with_message_and_input cfg message input h = Some (r, h') \<and>
           turns (drop (length (ag_log (ah_agent h))) (ag_log (ah_agent h'))) \<le> (17 + hc_turn_continuation_cap cfg) * m"
  using prompt_budget [OF assms, of message input h] by (fastforce simp: turns_within_def)

end
