(* ===== verification/Harness_Examples.thy ===== *)
theory Harness_Examples
  imports Harness_Steps Harness_Bounds Agent_Examples
begin

text \<open>
  Concrete prompts over an in-memory session, at which the properties of the harness are applied. The world
  beside the session is the script of the provider's streams. The runtime of the extensions has used up its
  sequence numbers, so that every seam falls back.
\<close>

definition next_streams :: "assistant_message_event list list \<Rightarrow> assistant_message_event list \<times> assistant_message_event list list" where
  "next_streams w = (case w of [] \<Rightarrow> ([], []) | s # ss \<Rightarrow> (s, ss))"

definition single :: "nat \<Rightarrow> ustr" where
  "single n = [n]"

definition mute_env :: "unit ext_env" where
  "mute_env =
     \<lparr>px_invoke = (\<lambda>_ _ x. (Inl (extension_error XCancelled []), x)), px_has_request_hook = (\<lambda>_ _ _. False), px_durable = (\<lambda>_. Inl []),
      ec_message_value = (\<lambda>_. JObj []), ec_message_of = (\<lambda>_. None), ec_outcome_of = (\<lambda>_. None),
      ec_patch_of = (\<lambda>_. None), ec_request_value = (\<lambda>_. JObj []), ec_request_of = (\<lambda>_. None),
      ec_assistant_value = (\<lambda>_. JObj []), ec_tool_message_value = (\<lambda>_. JObj []), ec_tool_call_value = (\<lambda>_. JObj []),
      ec_result_value = (\<lambda>_. JObj []), ec_replacement_of = (\<lambda>_. None)\<rparr>"

definition idle_summarizer :: summarizer where
  "idle_summarizer =
     \<lparr>sz_show_json = (\<lambda>_. []), sz_to_uppercase = id, sz_parse_args = (\<lambda>_. None), sz_now = 0, sz_stream = (\<lambda>_ _ _. []),
      sz_cancelled = (\<lambda>_. False), sz_overflow = (\<lambda>_ _. False)\<rparr>"

definition plain_config :: "(memory_storage, unit, assistant_message_event list list) harness_config" where
  "plain_config =
     \<lparr>hc_ops = memory_ops single, hc_env = mute_env, hc_now = (\<lambda>_. []), hc_clock = (\<lambda>_. 0), hc_parse_time = (\<lambda>_. None),
      hc_add = (\<lambda>x y. x + y), hc_at_least = (\<lambda>x y. y \<le> x), hc_show4 = (\<lambda>_. []), hc_virtualization = None,
      hc_get_model = (\<lambda>_ _. None), hc_cancelled = (\<lambda>_. False), hc_listener = (\<lambda>_ u. u), hc_stream = (\<lambda>_. next_streams),
      hc_get_api_key = None, hc_before_tool_call = None, hc_after_tool_call = None, hc_on_control_plane_prompt = None,
      hc_observation_context = default_context, hc_observation_parent = None, hc_max_iterations = Some 2,
      hc_budget_cap_usd = None, hc_turn_continuation_cap = DEFAULT_TURN_CONTINUATION_CAP, hc_interfere = (\<lambda>u. ([], u)),
      hc_finalize_usage = (\<lambda>_ u w. (u, w)), hc_args_hash = (\<lambda>_. []), hc_order = (\<lambda>_ _. []),
      hc_request_value = (\<lambda>_. None), hc_message_value = (\<lambda>_. None), hc_content_value = (\<lambda>_. JNull), hc_millis = (\<lambda>_. 0),
      hc_summarizer = (\<lambda>u. (idle_summarizer, u)), hc_on_turn_end = None\<rparr>"

definition spent_runtime :: "unit ext_runtime" where
  "spent_runtime =
     \<lparr>xr_session_id = [1], xr_next_scope = 1, xr_next_sequence = 2 ^ 64, xr_cwd = [1], xr_has_interactive_client = False,
      xr_model = None, xr_active = no_scopes, xr_session_started = True, xr_session_shutdown = False,
      xr_follow_ups = no_follow_ups, xr_model_context = [], xr_dispatching = False, xr_port = ()\<rparr>"

definition new_session :: memory_storage where
  "new_session = memory_new single []"

definition fresh_harness ::
  "(memory_storage, unit, assistant_message_event list list) harness_world agent_tool list \<Rightarrow> assistant_message_event list list \<Rightarrow>
   (memory_storage, unit, assistant_message_event list list) agent_harness" where
  "fresh_harness tools w =
     \<lparr>ah_agent = \<lparr>ag_run_active = False, ag_system_prompt = [],
        ag_model = Some \<lparr>mo_id = [109], mo_provider = [112], mo_context_window = 0, mo_max_tokens = 0\<rparr>,
        ag_thinking_level = None, ag_tools = tools, ag_messages = [], ag_is_streaming = False,
        ag_streaming_message = None, ag_error_message = None, ag_steering = queue_new QAll,
        ag_follow_up = queue_new QAll, ag_active_cancel = None, ag_active_run = None, ag_active_turn = None,
        ag_turn_cancel = None, ag_obs = \<lparr>o_next = 0, o_instant = 0, o_include_content = False, o_log = []\<rparr>,
        ag_log = [], ag_world = \<lparr>hw_journal = \<lparr>jn_cost = cost_reset, jn_session = new_session, jn_reads = 0, jn_listeners = []\<rparr>,
          hw_runtime = spent_runtime, hw_flags = [], hw_user = w\<rparr>\<rparr>,
      ah_skills = [], ah_base_system_prompt = [], ah_templates = [],
      ah_settings = \<lparr>cp_enabled = False, cp_reserve_tokens = 0, cp_keep_recent_tokens = 0, cp_algorithm = []\<rparr>,
      ah_algorithms = [], ah_events = [], ah_session_start_emitted = True\<rparr>"

definition one_stream :: "assistant_message_event list list" where
  "one_stream = [[EvStart (reply Stop []), EvDone DStop (reply Stop (says 1))]]"

lemma plain_fields [simp]:
  "hc_ops plain_config = memory_ops single" "hc_max_iterations plain_config = Some 2" "hc_on_turn_end plain_config = None"
  "hc_turn_continuation_cap plain_config = DEFAULT_TURN_CONTINUATION_CAP" "hc_budget_cap_usd plain_config = None"
  by (simp_all add: plain_config_def)

lemma fresh_parts [simp]:
  "session_of (fresh_harness tools w) = new_session" "transcript_of (fresh_harness tools w) = []"
  "listeners_of (fresh_harness tools w) = []" "ag_tools (ah_agent (fresh_harness tools w)) = tools"
  "ag_log (ah_agent (fresh_harness tools w)) = []" "\<not> cp_enabled (ah_settings (fresh_harness tools w))"
  by (simp_all add: fresh_harness_def part_defs)

lemma inj_single: "inj single"
  by (simp add: single_def inj_def)

lemma single_new: "memory.session_inv single new_session"
  unfolding new_session_def by (rule new_inv [OF inj_single])

lemma new_assembles_single: "assembles (memory_ops single) clock parse new_session []"
  unfolding new_session_def by (rule new_assembles [OF inj_single])

text \<open>A prompt to a new harness, and one run of it.\<close>

theorem prompt_persisted_witness:
  "\<exists>r h'. prompt_with_message_and_input plain_config (asks 7) None (fresh_harness [] one_stream) = Some (r, h') \<and>
     memory.session_inv single (session_of h') \<and>
     assembles (memory_ops single) (\<lambda>_. 0) (\<lambda>_. None) (session_of h') (transcript_of h')"
proof -
  obtain r h' where p: "prompt_with_message_and_input plain_config (asks 7) None (fresh_harness [] one_stream) = Some (r, h')"
    using prompt_budget [of plain_config 2 "asks 7" None "fresh_harness [] one_stream"] by auto
  have "memory.session_inv single (session_of h') \<and>
      assembles (memory_ops single) (\<lambda>_. 0) (\<lambda>_. None) (session_of h') (transcript_of h')"
    by (rule prompt_persisted [OF _ _ _ _ _ _ _ p]) (simp_all add: single_new new_assembles_single quiet_tools_def)
  with p show ?thesis by blast
qed

theorem run_totals_witness:
  "\<exists>r h' p h1 new. harness_run plain_config True (Some (asks 7)) (fresh_harness [] one_stream) = Some (r, h') \<and>
     start_run plain_config (fresh_harness [] one_stream) = (p, h1) \<and>
     transcript_of h' = transcript_of h1 @ new \<and> totals_of h' = fold (cost_record (\<lambda>x y. x + y)) (usages new) cost_reset"
proof -
  obtain r h' where p: "harness_run plain_config True (Some (asks 7)) (fresh_harness [] one_stream) = Some (r, h')"
    using harness_run_budget [of plain_config 2 True "Some (asks 7)" "fresh_harness [] one_stream"] by auto
  obtain q h1 where s: "start_run plain_config (fresh_harness [] one_stream) = (q, h1)" by force
  have "quiet_tools (ah_agent (fresh_harness [] one_stream))" "totals_of (fresh_harness [] one_stream) = cost_reset"
    "hc_add plain_config = (\<lambda>x y. x + y)"
    by (simp_all add: quiet_tools_def totals_of_def fresh_harness_def plain_config_def)
  with p s run_totals [OF p _ s] show ?thesis by auto
qed

theorem prompt_ends_in_budget_witness:
  "\<exists>r h'. prompt_with_message_and_input plain_config (asks 7) None (fresh_harness [] one_stream) = Some (r, h') \<and>
     turns (ag_log (ah_agent h')) \<le> (17 + DEFAULT_TURN_CONTINUATION_CAP) * 2"
  using prompt_ends_in_budget [of plain_config 2 "asks 7" None "fresh_harness [] one_stream"] by simp

definition new_plain :: "(memory_storage, unit, assistant_message_event list list) agent_harness" where
  "new_plain = the (harness_new plain_config [] None TOff [] [] [] [] False [] (ah_settings (fresh_harness [] [])) []
     \<lparr>o_next = 0, o_instant = 0, o_include_content = False, o_log = []\<rparr> new_session () [])"

lemma local_session_id: "trim (lit ''local-session'') \<noteq> []"
  by code_simp

theorem harness_in_step_witness:
  "\<exists>h. performs plain_config (\<lambda>_. []) [HRecordInput [7] [] None, HSetThinking THigh, HMoveTo None None, HRecordInput [8] [] None]
         new_plain = Some h \<and>
       assembles (memory_ops single) (\<lambda>_. 0) (\<lambda>_. None) (session_of h) (transcript_of h) \<and> listeners_of h = []"
proof -
  let ?xs = "[HRecordInput [7] [] None, HSetThinking THigh, HMoveTo None None, HRecordInput [8] [] None]
    :: (memory_storage, unit, assistant_message_event list list) harness_op list"
  have new: "harness_new plain_config [] None TOff [] [] [] [] False [] (ah_settings (fresh_harness [] [])) []
     \<lparr>o_next = 0, o_instant = 0, o_include_content = False, o_log = []\<rparr> (memory_new single []) () [] = Some new_plain"
    using local_session_id by (simp add: plain_config_def default_context_def new_plain_def harness_new_def new_session_def ext_runtime_new_def Let_def)
  obtain h where h: "performs plain_config (\<lambda>_. []) ?xs new_plain = Some h" by simp
  have clocks: "hc_clock plain_config = (\<lambda>_. 0)" "hc_parse_time plain_config = (\<lambda>_. None)" by (simp_all add: plain_config_def)
  have "assembles (memory_ops single) (hc_clock plain_config) (hc_parse_time plain_config) (session_of h) (transcript_of h) \<and>
      listeners_of h = []"
    by (rule harness_in_step [OF inj_single _ new _ _ _ _ h]) simp_all
  with h clocks show ?thesis by auto
qed

definition capped_config :: "(memory_storage, unit, assistant_message_event list list) harness_config" where
  "capped_config = plain_config\<lparr>hc_budget_cap_usd := Some 0\<rparr>"

definition asked_again :: "(memory_storage, unit, assistant_message_event list list) agent_harness" where
  "asked_again = tell_extensions (\<lambda>r. r\<lparr>xr_follow_ups := enqueue_one ([9], asks 7) no_follow_ups\<rparr>) (fresh_harness [] [])"

theorem follow_up_lost_to_budget_witness:
  "\<exists>err h'. next_round capped_config
       \<lparr>cy_continuations = 0, cy_follow_ups = 0, cy_pending = None, cy_first = False, cy_last_user_prompt = None\<rparr> asked_again =
         (CycleEnds (RErr err), h') \<and> fq_queued (xr_follow_ups (runtime_of h')) = [] \<and> transcript_of h' = []"
proof -
  let ?cy = "\<lparr>cy_continuations = 0, cy_follow_ups = 0, cy_pending = None, cy_first = False, cy_last_user_prompt = None\<rparr>"
  have q: "fq_queued (xr_follow_ups (runtime_of asked_again)) = ([9], asks 7) # []" "[9] \<in> set (fq_seen (xr_follow_ups (runtime_of asked_again)))"
    by (simp_all add: asked_again_def tell_extensions_def extensions_def on_world_def on_runtime_def runtime_of_def
        fresh_harness_def spent_runtime_def enqueue_one_def no_follow_ups_def expire_def Let_def FOLLOW_UP_DEDUP_CAPACITY_def)
  have "\<exists>err. check_budget_cap capped_config asked_again = RErr err"
    by (simp add: check_budget_cap_def capped_config_def plain_config_def asked_again_def tell_extensions_def extensions_def
        on_world_def on_runtime_def fresh_harness_def cost_reset_def)
  then obtain err where "check_budget_cap capped_config asked_again = RErr err" by blast
  from follow_up_lost_to_budget [OF q _ this, of ?cy] have
    "\<exists>h'. next_round capped_config ?cy asked_again = (CycleEnds (RErr err), h') \<and> transcript_of h' = transcript_of asked_again \<and>
       fq_queued (xr_follow_ups (runtime_of h')) = []"
    by (auto simp: RUNTIME_EXTENSION_FOLLOW_UP_CHAIN_CAP_def)
  moreover have "transcript_of asked_again = []"
    unfolding asked_again_def using apart_parts [OF tell_apart [of "fresh_harness [] []"]] fresh_parts(2) by metis
  ultimately show ?thesis by auto
qed

end
