(* ===== verification/Tgrep_Trigram.thy ===== *)
theory Tgrep_Trigram
  imports Prelude "HOL-Library.Word"
begin

unbundle bit_operations_syntax

text \<open>
  Trigrams of the search index (\<^verbatim>\<open>crates/tgrep-core/src/trigram.rs\<close>): the packing of three bytes, the masks
  that a file keeps for each of its trigrams, and their extraction from the file's bytes. Bytes are
  \<open>8 word\<close>s, trigrams \<open>32 word\<close>s; a Rust string is the list of the bytes of its UTF-8 encoding.
\<close>

type_synonym byte = "8 word"
type_synonym bytes = "byte list"
type_synonym trigram = "32 word"

subsection \<open>Packing\<close>

definition hash :: "byte \<Rightarrow> byte \<Rightarrow> byte \<Rightarrow> trigram" where
  "hash a b c = push_bit 16 (ucast a) OR push_bit 8 (ucast b) OR ucast c"

definition loc_bit :: "nat \<Rightarrow> byte" where
  "loc_bit offset = push_bit (offset mod 8) 1"

definition next_bit :: "byte \<Rightarrow> byte" where
  "next_bit b = push_bit (unat (drop_bit 5 (b * 0x9E) AND 0x07)) 1"

definition bloom_hash :: "byte \<Rightarrow> byte" where
  "bloom_hash b = next_bit b"

record trigram_masks =
  loc_mask :: byte
  next_mask :: byte

definition no_masks :: trigram_masks where
  "no_masks = \<lparr>loc_mask = 0, next_mask = 0\<rparr>"

text \<open>\<open>u8::to_ascii_lowercase\<close> and \<open>is_ascii_uppercase\<close>.\<close>

definition is_upper :: "byte \<Rightarrow> bool" where
  "is_upper b \<longleftrightarrow> 65 \<le> b \<and> b \<le> 90"

definition lower_byte :: "byte \<Rightarrow> byte" where
  "lower_byte b = (if is_upper b then b + 32 else b)"

subsection \<open>Extraction\<close>

text \<open>
  The windows of three bytes, each with the byte that follows it.
\<close>

fun windows :: "bytes \<Rightarrow> ((byte \<times> byte \<times> byte) \<times> byte option) list" where
  "windows (a # b # c # rest) =
     ((a, b, c), case rest of [] \<Rightarrow> None | d # _ \<Rightarrow> Some d) # windows (b # c # rest)"
| "windows _ = []"

definition hash3 :: "byte \<times> byte \<times> byte \<Rightarrow> trigram" where
  "hash3 w = (case w of (a, b, c) \<Rightarrow> hash a b c)"

fun extract_loop :: "((byte \<times> byte \<times> byte) \<times> byte option) list \<Rightarrow> trigram list \<Rightarrow> trigram list" where
  "extract_loop [] result = result"
| "extract_loop ((w, _) # ws) result =
     extract_loop ws (if hash3 w \<in> set result then result else result @ [hash3 w])"

definition extract_trigrams :: "bytes \<Rightarrow> trigram list" where
  "extract_trigrams data = extract_loop (windows data) []"

definition extract_from_literal :: "bytes \<Rightarrow> trigram list" where
  "extract_from_literal s = extract_trigrams s"

text \<open>
  A map from trigrams to masks; its list is in the order in which the trigrams were first seen.
\<close>

type_synonym mask_map = "(trigram, trigram_masks) hmap"

definition or_masks :: "byte \<Rightarrow> byte \<Rightarrow> trigram_masks \<Rightarrow> trigram_masks" where
  "or_masks loc nxt m = \<lparr>loc_mask = loc_mask m OR loc, next_mask = next_mask m OR nxt\<rparr>"

definition entry_or :: "trigram \<Rightarrow> byte \<Rightarrow> byte \<Rightarrow> mask_map \<Rightarrow> mask_map" where
  "entry_or t loc nxt m =
     hm_put t (or_masks loc nxt (case hm_get m t of Some x \<Rightarrow> x | None \<Rightarrow> no_masks)) m"

definition next_of :: "byte option \<Rightarrow> byte" where
  "next_of d = (case d of Some b \<Rightarrow> next_bit b | None \<Rightarrow> 0)"

fun extract_masks_loop :: "nat \<Rightarrow> ((byte \<times> byte \<times> byte) \<times> byte option) list \<Rightarrow> mask_map \<Rightarrow> mask_map" where
  "extract_masks_loop i [] m = m"
| "extract_masks_loop i ((w, d) # ws) m = extract_masks_loop (i + 1) ws (entry_or (hash3 w) (loc_bit i) (next_of d) m)"

definition extract_with_masks :: "bytes \<Rightarrow> mask_map" where
  "extract_with_masks data = extract_masks_loop 0 (windows data) []"

definition lower3 :: "byte \<times> byte \<times> byte \<Rightarrow> byte \<times> byte \<times> byte" where
  "lower3 w = (case w of (a, b, c) \<Rightarrow> (lower_byte a, lower_byte b, lower_byte c))"

text \<open>Both cases in one pass.\<close>

definition merge_window :: "bool \<Rightarrow> nat \<Rightarrow> byte \<times> byte \<times> byte \<Rightarrow> byte option \<Rightarrow> mask_map \<Rightarrow> mask_map" where
  "merge_window has_upper i w d m =
     (let trigram = hash3 w; loc = loc_bit i; nxt = next_of d
      in if \<not> has_upper then entry_or trigram loc nxt m
         else (let lowered = hash3 (lower3 w); next_lowered = next_of (map_option lower_byte d)
               in if lowered = trigram then entry_or trigram loc (nxt OR next_lowered) m
                  else entry_or lowered loc next_lowered (entry_or trigram loc nxt m)))"

fun merged_loop :: "bool \<Rightarrow> nat \<Rightarrow> ((byte \<times> byte \<times> byte) \<times> byte option) list \<Rightarrow> mask_map \<Rightarrow> mask_map" where
  "merged_loop has_upper i [] m = m"
| "merged_loop has_upper i ((w, d) # ws) m = merged_loop has_upper (i + 1) ws (merge_window has_upper i w d m)"

definition extract_merged_masks :: "bytes \<Rightarrow> mask_map" where
  "extract_merged_masks content = merged_loop (list_ex is_upper content) 0 (windows content) []"

subsection \<open>Checks\<close>

definition rotate_left :: "byte \<Rightarrow> byte" where
  "rotate_left b = push_bit 1 b OR drop_bit 7 b"

fun check_adjacency :: "(trigram \<times> trigram_masks) list \<Rightarrow> bool" where
  "check_adjacency ((_, p) # (t, n) # rest) \<longleftrightarrow>
     rotate_left (loc_mask p) AND loc_mask n \<noteq> 0 \<and> check_adjacency ((t, n) # rest)"
| "check_adjacency _ \<longleftrightarrow> True"

definition check_next_byte :: "trigram_masks \<Rightarrow> byte \<Rightarrow> bool" where
  "check_next_byte masks b \<longleftrightarrow> next_mask masks AND next_bit b \<noteq> 0"

definition is_binary :: "bytes \<Rightarrow> bool" where
  "is_binary data \<longleftrightarrow> 0 \<in> set (take 8192 data)"

end
