(* ===== verification/Tgrep_Ondisk.thy ===== *)
theory Tgrep_Ondisk
  imports Tgrep_Trigram
begin

unbundle bit_operations_syntax

text \<open>
  The binary format of the search index (\<^verbatim>\<open>crates/tgrep-core/src/ondisk.rs\<close>,
  \<^verbatim>\<open>crates/tgrep-core/src/path_index.rs\<close>): little-endian integers, posting and lookup entries, the file table and the
  table of paths that have no postings, with the checks that reading them makes.
\<close>

subsection \<open>UTF-8 (\<open>String::from_utf8_lossy\<close>, \<open>str::from_utf8\<close>)\<close>

text \<open>What may follow a lead byte: a range for each continuation byte; \<open>None\<close> for a byte that starts no character.\<close>

definition cont :: "byte \<times> byte" where
  "cont = (0x80, 0xBF)"

definition utf8_trail :: "byte \<Rightarrow> (byte \<times> byte) list option" where
  "utf8_trail b =
     (if b \<le> 0x7F then Some []
      else if b < 0xC2 then None
      else if b \<le> 0xDF then Some [cont]
      else if b = 0xE0 then Some [(0xA0, 0xBF), cont]
      else if b = 0xED then Some [(0x80, 0x9F), cont]
      else if b \<le> 0xEF then Some [cont, cont]
      else if b = 0xF0 then Some [(0x90, 0xBF), cont, cont]
      else if b \<le> 0xF3 then Some [cont, cont, cont]
      else if b = 0xF4 then Some [(0x80, 0x8F), cont, cont]
      else None)"

text \<open>How many of the next bytes are in their ranges, and whether all of them are.\<close>

fun utf8_run :: "(byte \<times> byte) list \<Rightarrow> bytes \<Rightarrow> nat \<times> bool" where
  "utf8_run [] bs = (0, True)"
| "utf8_run (r # rs) [] = (0, False)"
| "utf8_run (r # rs) (b # bs) =
     (if fst r \<le> b \<and> b \<le> snd r then (let (n, ok) = utf8_run rs bs in (Suc n, ok)) else (0, False))"

definition replacement :: bytes where
  "replacement = [0xEF, 0xBF, 0xBD]"

function utf8_lossy :: "bytes \<Rightarrow> bytes" where
  "utf8_lossy [] = []"
| "utf8_lossy (b # bs) =
     (case utf8_trail b of
        None \<Rightarrow> replacement @ utf8_lossy bs
      | Some rs \<Rightarrow> (let (n, ok) = utf8_run rs bs in (if ok then b # take n bs else replacement) @ utf8_lossy (drop n bs)))"
  by pat_completeness auto
termination by (relation "measure length") auto

function utf8_valid :: "bytes \<Rightarrow> bool" where
  "utf8_valid [] \<longleftrightarrow> True"
| "utf8_valid (b # bs) \<longleftrightarrow>
     (case utf8_trail b of
        None \<Rightarrow> False
      | Some rs \<Rightarrow> (let (n, ok) = utf8_run rs bs in ok \<and> utf8_valid (drop n bs)))"
  by pat_completeness auto
termination by (relation "measure length") auto

subsection \<open>Little-endian integers\<close>

definition to_le :: "nat \<Rightarrow> 'a::len word \<Rightarrow> bytes" where
  "to_le n w = map (\<lambda>i. ucast (drop_bit (8 * i) w)) [0..<n]"

fun from_le :: "bytes \<Rightarrow> 'a::len word" where
  "from_le [] = 0"
| "from_le (b # bs) = ucast b OR push_bit 8 (from_le bs)"

subsection \<open>Entries\<close>

type_synonym file_id = "32 word"

record posting_entry =
  file_id :: file_id
  p_loc :: byte
  p_next :: byte

definition posting_size :: nat where
  "posting_size = 6"

definition encode_posting :: "posting_entry \<Rightarrow> bytes" where
  "encode_posting e = to_le 4 (file_id e) @ [p_loc e, p_next e]"

definition decode_posting :: "bytes \<Rightarrow> posting_entry" where
  "decode_posting buf = \<lparr>file_id = from_le (take 4 buf), p_loc = buf ! 4, p_next = buf ! 5\<rparr>"

record lookup_entry =
  l_trigram :: trigram
  l_offset :: "64 word"
  l_length :: "32 word"

definition lookup_size :: nat where
  "lookup_size = 16"

definition encode_lookup :: "lookup_entry \<Rightarrow> bytes" where
  "encode_lookup e = to_le 4 (l_trigram e) @ to_le 8 (l_offset e) @ to_le 4 (l_length e)"

definition decode_lookup :: "bytes \<Rightarrow> lookup_entry" where
  "decode_lookup buf = \<lparr>l_trigram = from_le (take 4 buf), l_offset = from_le (take 8 (drop 4 buf)), l_length = from_le (take 4 (drop 12 buf))\<rparr>"

subsection \<open>The file table\<close>

text \<open>The errors of reading an index; each constructor stands for one message of the source.\<close>

datatype corruption =
    Path_too_long nat
  | Truncated_header nat
  | Path_exceeds nat nat
  | Lookup_size nat
  | Id_out_of_range file_id nat
  | Id_duplicate file_id
  | Degenerate
  | Not_sorted nat trigram trigram
  | Range_exceeds nat trigram "64 word" "32 word" nat
  | Extra_header_truncated nat
  | Extra_invalid_header
  | Extra_count "64 word" nat
  | Extra_truncated_length nat
  | Extra_exceeds nat
  | Extra_not_utf8 nat
  | Extra_trailing nat
  | Reader_unreadable nat nat
  | Delta_unreadable nat nat
  | Missing_file_id trigram file_id
  | Delta_missing_file_id file_id
  | Count_overflow

datatype index_error = IndexNotFound | IndexCorrupted corruption

definition max_path_len :: nat where
  "max_path_len = 65535"

definition validate_file_path_len :: "bytes \<Rightarrow> corruption + bytes" where
  "validate_file_path_len path = (if length path > max_path_len then Inl (Path_too_long (length path)) else Inr path)"

definition write_file_entry :: "file_id \<Rightarrow> bytes \<Rightarrow> corruption + bytes" where
  "write_file_entry i path =
     (case validate_file_path_len path of
        Inl e \<Rightarrow> Inl e
      | Inr path_bytes \<Rightarrow> Inr (to_le 4 i @ to_le 2 (of_nat (length path_bytes) :: 16 word) @ path_bytes))"

function decode_file_entries :: "bytes \<Rightarrow> corruption + (file_id \<times> bytes) list" where
  "decode_file_entries data =
     (if data = [] then Inr []
      else if length data < 6 then Inl (Truncated_header (length data))
      else (let i = from_le (take 4 data); path_len = unat (from_le (take 2 (drop 4 data)) :: 16 word); rest = drop 6 data
            in if length rest < path_len then Inl (Path_exceeds path_len (length rest))
               else (case decode_file_entries (drop path_len rest) of
                       Inl e \<Rightarrow> Inl e
                     | Inr es \<Rightarrow> Inr ((i, utf8_lossy (take path_len rest)) # es))))"
  by pat_completeness auto
termination by (relation "measure length") auto

declare decode_file_entries.simps [simp del]

subsection \<open>Paths without postings\<close>

definition magic :: bytes where
  "magic = [84, 71, 82, 80, 88, 80, 48, 49]"

text \<open>
  The bytes that \<open>write_extra_paths\<close> writes. The path lengths fit \<open>u32\<close>: a longer path is an error.
\<close>

fun extra_records :: "bytes list \<Rightarrow> corruption + bytes" where
  "extra_records [] = Inr []"
| "extra_records (p # ps) =
     (if length p \<ge> 2 ^ 32 then Inl (Path_too_long (length p))
      else (case extra_records ps of
              Inl e \<Rightarrow> Inl e
            | Inr bs \<Rightarrow> Inr (to_le 4 (of_nat (length p) :: 32 word) @ p @ bs)))"

definition write_extra_paths :: "bytes list \<Rightarrow> corruption + bytes" where
  "write_extra_paths paths =
     (case extra_records paths of
        Inl e \<Rightarrow> Inl e
      | Inr bs \<Rightarrow> Inr (magic @ to_le 8 (of_nat (length paths) :: 64 word) @ bs))"

text \<open>
  The loop over the declared records: the number of the next one, how many are left, and the bytes left.
\<close>

fun read_extra_loop :: "nat \<Rightarrow> nat \<Rightarrow> bytes \<Rightarrow> corruption + bytes list \<times> bytes" where
  "read_extra_loop index 0 data = Inr ([], data)"
| "read_extra_loop index (Suc n) data =
     (if length data < 4 then Inl (Extra_truncated_length index)
      else (let len = unat (from_le (take 4 data) :: 32 word); rest = drop 4 data
            in if length rest < len then Inl (Extra_exceeds index)
               else if \<not> utf8_valid (take len rest) then Inl (Extra_not_utf8 index)
               else (case read_extra_loop (Suc index) n (drop len rest) of
                       Inl e \<Rightarrow> Inl e
                     | Inr (ps, left) \<Rightarrow> Inr (take len rest # ps, left))))"

text \<open>\<open>None\<close> is a directory without the file.\<close>

definition read_extra_paths :: "bytes option \<Rightarrow> corruption + bytes list option" where
  "read_extra_paths file =
     (case file of
        None \<Rightarrow> Inr None
      | Some data \<Rightarrow>
          (if length data < 16 then Inl (Extra_header_truncated (length data))
           else if take 8 data \<noteq> magic then Inl Extra_invalid_header
           else (let count = from_le (take 8 (drop 8 data)) :: 64 word; max_records = (length data - 16) div 4
                 in if unat count > max_records then Inl (Extra_count count max_records)
                    else (case read_extra_loop 0 (unat count) (drop 16 data) of
                            Inl e \<Rightarrow> Inl e
                          | Inr (ps, left) \<Rightarrow> if left \<noteq> [] then Inl (Extra_trailing (length left)) else Inr (Some ps)))))"

end
