(* ===== verification/Tgrep_Query.thy ===== *)
theory Tgrep_Query
  imports Tgrep_Ondisk
begin

text \<open>
  Query plans (\<^verbatim>\<open>crates/tgrep-core/src/query.rs\<close>): the trigrams that a pattern requires, and the relaxation of patterns
  that the parser does not accept. The parser of the
  regex library and Unicode lowercasing are parameters; the parsed pattern is a tree of the library's kinds.
\<close>

record trigram_query =
  q_hash :: trigram
  expected_next :: "byte option"

datatype query_plan = And "trigram_query list" | Or "query_plan list" | MatchAll

definition is_match_all :: "query_plan \<Rightarrow> bool" where
  "is_match_all p \<longleftrightarrow> p = MatchAll"

text \<open>\<open>regex_syntax::hir::HirKind\<close>; classes and assertions carry nothing that the plan looks at.\<close>

datatype hir =
    HEmpty
  | HLiteral bytes
  | HClass
  | HLook
  | HRepetition nat hir
  | HCapture hir
  | HConcat "hir list"
  | HAlternation "hir list"

subsection \<open>Plans from literals and patterns\<close>

definition literals_to_query_plan :: "bytes \<Rightarrow> query_plan" where
  "literals_to_query_plan bs =
     (if length bs < 3 then MatchAll
      else And (map (\<lambda>i. \<lparr>q_hash = hash (bs ! i) (bs ! (i + 1)) (bs ! (i + 2)),
                  expected_next = (if i + 3 < length bs then Some (bs ! (i + 3)) else None)\<rparr>) [0..<length bs - 2]))"

definition plan_queries :: "query_plan \<Rightarrow> trigram_query list" where
  "plan_queries p = (case p of And qs \<Rightarrow> qs | _ \<Rightarrow> [])"

text \<open>\<open>lc\<close> is \<open>str::to_lowercase\<close>.\<close>

definition plan_text :: "(bytes \<Rightarrow> bytes) \<Rightarrow> bool \<Rightarrow> bytes \<Rightarrow> bytes" where
  "plan_text lc case_insensitive s = (if case_insensitive then lc s else s)"

definition flush_literal :: "(bytes \<Rightarrow> bytes) \<Rightarrow> bool \<Rightarrow> bytes \<Rightarrow> trigram_query list \<Rightarrow> trigram_query list" where
  "flush_literal lc ci current queries =
     (if current \<noteq> [] then queries @ plan_queries (literals_to_query_plan (plan_text lc ci current)) else queries)"

text \<open>The loop over the parts of a concatenation: the literal run so far and the queries so far.\<close>

fun decompose_hir :: "(bytes \<Rightarrow> bytes) \<Rightarrow> bool \<Rightarrow> hir \<Rightarrow> query_plan"
  and concat_loop :: "(bytes \<Rightarrow> bytes) \<Rightarrow> bool \<Rightarrow> bytes \<Rightarrow> trigram_query list \<Rightarrow> hir list \<Rightarrow> trigram_query list" where
  "decompose_hir lc ci (HLiteral bs) = literals_to_query_plan (plan_text lc ci (utf8_lossy bs))"
| "decompose_hir lc ci (HConcat subs) =
     (let all_queries = concat_loop lc ci [] [] subs in if all_queries = [] then MatchAll else And all_queries)"
| "decompose_hir lc ci (HAlternation alts) =
     (let plans = map (decompose_hir lc ci) alts in if list_ex is_match_all plans then MatchAll else Or plans)"
| "decompose_hir lc ci (HRepetition mn sub) = (if mn \<ge> 1 then decompose_hir lc ci sub else MatchAll)"
| "decompose_hir lc ci (HCapture sub) = decompose_hir lc ci sub"
| "decompose_hir lc ci HClass = MatchAll"
| "decompose_hir lc ci HLook = MatchAll"
| "decompose_hir lc ci HEmpty = MatchAll"
| "concat_loop lc ci current queries [] = flush_literal lc ci current queries"
| "concat_loop lc ci current queries (sub # subs) =
     (case sub of
        HLiteral bs \<Rightarrow> concat_loop lc ci (current @ utf8_lossy bs) queries subs
      | _ \<Rightarrow> concat_loop lc ci [] (flush_literal lc ci current queries @ plan_queries (decompose_hir lc ci sub)) subs)"

text \<open>
  \<open>Vec::dedup_by\<close> passes the later element first and removes it; \<open>kept\<close> is the element it is compared with.
\<close>

fun dedup_queries :: "trigram_query \<Rightarrow> trigram_query list \<Rightarrow> trigram_query list" where
  "dedup_queries kept [] = [kept]"
| "dedup_queries kept (q # qs) =
     (if q_hash q = q_hash kept then dedup_queries kept qs else kept # dedup_queries q qs)"

definition simplify_and :: "trigram_query list \<Rightarrow> query_plan" where
  "simplify_and queries =
     (case sort_key q_hash queries of
        [] \<Rightarrow> MatchAll
      | q # qs \<Rightarrow> And (dedup_queries q qs))"

fun simplify :: "query_plan \<Rightarrow> query_plan" where
  "simplify (And queries) = simplify_and queries"
| "simplify (Or plans) = (case map simplify plans of [p] \<Rightarrow> p | ps \<Rightarrow> Or ps)"
| "simplify MatchAll = MatchAll"

text \<open>\<open>parse\<close> is \<open>regex_syntax::parse\<close>, with the error's text.\<close>

definition build_query_plan ::
    "(ustr \<Rightarrow> ustr + hir) \<Rightarrow> (bytes \<Rightarrow> bytes) \<Rightarrow> ustr \<Rightarrow> bool \<Rightarrow> ustr + query_plan" where
  "build_query_plan parse lc pattern ci =
     (case parse pattern of
        Inl e \<Rightarrow> Inl (lit ''regex parse error: '' @ e)
      | Inr h \<Rightarrow> Inr (simplify (decompose_hir lc ci h)))"

definition build_literal_plan :: "(bytes \<Rightarrow> bytes) \<Rightarrow> bytes \<Rightarrow> bool \<Rightarrow> query_plan" where
  "build_literal_plan lc literal ci = literals_to_query_plan (if ci then lc literal else literal)"

definition union_plan :: "query_plan list \<Rightarrow> query_plan" where
  "union_plan plans = (case plans of [] \<Rightarrow> MatchAll | [p] \<Rightarrow> p | _ \<Rightarrow> Or plans)"

text \<open>
  \<open>enc\<close> is the UTF-8 encoding of a pattern. The loop stops at the first plan that matches everything, before
  a later pattern that does not parse.
\<close>

fun multi_loop ::
    "(ustr \<Rightarrow> ustr + hir) \<Rightarrow> (bytes \<Rightarrow> bytes) \<Rightarrow> (ustr \<Rightarrow> bytes) \<Rightarrow> bool \<Rightarrow> bool \<Rightarrow> query_plan list \<Rightarrow> ustr list \<Rightarrow> ustr + query_plan" where
  "multi_loop parse lc enc fixed ci plans [] = Inr (union_plan plans)"
| "multi_loop parse lc enc fixed ci plans (p # ps) =
     (case (if fixed then Inr (build_literal_plan lc (enc p) ci) else build_query_plan parse lc p ci) of
        Inl e \<Rightarrow> Inl e
      | Inr plan \<Rightarrow> if is_match_all plan then Inr MatchAll else multi_loop parse lc enc fixed ci (plans @ [plan]) ps)"

definition build_multi_pattern_plan ::
    "(ustr \<Rightarrow> ustr + hir) \<Rightarrow> (bytes \<Rightarrow> bytes) \<Rightarrow> (ustr \<Rightarrow> bytes) \<Rightarrow> ustr list \<Rightarrow> bool \<Rightarrow> bool \<Rightarrow> ustr + query_plan" where
  "build_multi_pattern_plan parse lc enc patterns fixed ci = multi_loop parse lc enc fixed ci [] patterns"

subsection \<open>Relaxing patterns\<close>

abbreviation chr :: "char \<Rightarrow> nat" where
  "chr \<equiv> of_char"

definition backslash :: nat where
  "backslash = 0x5C"

definition char_at :: "ustr \<Rightarrow> nat \<Rightarrow> nat option" where
  "char_at cs i = (if i < length cs then Some (cs ! i) else None)"

datatype group_kind = Lookaround | Atomic | Unsupported | Plain

function skip_class_loop :: "ustr \<Rightarrow> nat \<Rightarrow> nat \<Rightarrow> nat option" where
  "skip_class_loop cs depth i =
     (if i \<ge> length cs then None
      else if cs ! i = backslash then skip_class_loop cs depth (i + 1 + 1)
      else if cs ! i = chr CHR ''['' then skip_class_loop cs (depth + 1) (i + 1)
      else if cs ! i = chr CHR '']'' then (if depth - 1 = 0 then Some (i + 1) else skip_class_loop cs (depth - 1) (i + 1))
      else skip_class_loop cs depth (i + 1))"
  by pat_completeness auto
termination by (relation "measure (\<lambda>(cs, depth, i). length cs - i)") auto

declare skip_class_loop.simps [simp del]

definition skip_class :: "ustr \<Rightarrow> nat \<Rightarrow> nat option" where
  "skip_class cs opn =
     (let i = opn + 1;
          i = (if char_at cs i = Some (chr CHR ''^'') then i + 1 else i);
          i = (if char_at cs i = Some (chr CHR '']'') then i + 1 else i)
      in skip_class_loop cs 1 i)"

definition is_digit :: "nat \<Rightarrow> bool" where
  "is_digit c \<longleftrightarrow> chr CHR ''0'' \<le> c \<and> c \<le> chr CHR ''9''"

definition digits_end :: "ustr \<Rightarrow> nat \<Rightarrow> nat" where
  "digits_end cs i = i + length (takeWhile is_digit (drop i cs))"

definition repetition_end :: "ustr \<Rightarrow> nat \<Rightarrow> nat option" where
  "repetition_end cs opn =
     (let start = opn + 1; i = digits_end cs start
      in if \<not> i > start then None
         else (let i = (if char_at cs i = Some (chr CHR '','') then digits_end cs (i + 1) else i)
               in if char_at cs i = Some (chr CHR ''}'') then Some (i + 1) else None))"

fun extended_loop :: "bool \<Rightarrow> bool \<Rightarrow> ustr \<Rightarrow> bool" where
  "extended_loop negated extended [] \<longleftrightarrow> False"
| "extended_loop negated extended (c # cs) \<longleftrightarrow>
     (if c = chr CHR ''-'' then extended_loop True extended cs
      else if c = chr CHR ''x'' \<and> \<not> negated then extended_loop negated True cs
      else if c \<in> set (lit ''imsuURx'') then extended_loop negated extended cs
      else if c \<in> set (lit '':)'') then extended
      else False)"

definition enables_extended_mode :: "ustr \<Rightarrow> nat \<Rightarrow> bool" where
  "enables_extended_mode cs start \<longleftrightarrow> extended_loop False False (drop start cs)"

definition group_kind_at :: "ustr \<Rightarrow> nat \<Rightarrow> group_kind" where
  "group_kind_at cs opn =
     (if char_at cs (opn + 1) \<noteq> Some (chr CHR ''?'') then Plain
      else (let c2 = char_at cs (opn + 2); c3 = char_at cs (opn + 3)
            in if c2 = Some (chr CHR ''='') \<or> c2 = Some (chr CHR ''!'') then Lookaround
               else if c2 = Some (chr CHR ''<'')
                 then (if c3 = Some (chr CHR ''='') \<or> c3 = Some (chr CHR ''!'') then Lookaround else Plain)
               else if c2 = Some (chr CHR ''>'') then Atomic
               else if c2 = Some (chr CHR ''('') then Unsupported
               else if c2 = Some (chr CHR ''P'') \<and> c3 = Some (chr CHR ''='') then Unsupported
               else if c2 = Some (chr CHR ''#'') then Unsupported
               else if enables_extended_mode cs (opn + 2) then Unsupported
               else Plain))"

lemma skip_class_loop_bounds: "skip_class_loop cs depth i = Some e \<Longrightarrow> i < e \<and> e \<le> length cs"
proof (induction cs depth i rule: skip_class_loop.induct)
  case (1 cs depth i)
  from "1.prems" show ?case
    by (subst (asm) skip_class_loop.simps) (force split: if_splits dest: "1.IH")
qed

lemma skip_class_bounds: "skip_class cs opn = Some e \<Longrightarrow> opn < e \<and> e \<le> length cs"
  by (force simp: skip_class_def Let_def split: if_splits dest: skip_class_loop_bounds)

function skip_group_loop :: "ustr \<Rightarrow> nat \<Rightarrow> nat \<Rightarrow> nat option" where
  "skip_group_loop cs depth i =
     (if i \<ge> length cs then None
      else if cs ! i = backslash then skip_group_loop cs depth (i + 2)
      else if cs ! i = chr CHR ''['' then (case skip_class cs i of None \<Rightarrow> None | Some e \<Rightarrow> skip_group_loop cs depth e)
      else if cs ! i = chr CHR ''('' then skip_group_loop cs (depth + 1) (i + 1)
      else if cs ! i = chr CHR '')'' then (if depth - 1 = 0 then Some (i + 1) else skip_group_loop cs (depth - 1) (i + 1))
      else skip_group_loop cs depth (i + 1))"
  by pat_completeness auto
termination
  by (relation "measure (\<lambda>(cs, depth, i). length cs - i)") (auto dest: skip_class_bounds)

declare skip_group_loop.simps [simp del]

definition skip_group :: "ustr \<Rightarrow> nat \<Rightarrow> nat option" where
  "skip_group cs opn = skip_group_loop cs 0 opn"

lemma skip_group_loop_bounds: "skip_group_loop cs depth i = Some e \<Longrightarrow> i < e \<and> e \<le> length cs"
proof (induction cs depth i rule: skip_group_loop.induct)
  case (1 cs depth i)
  from "1.prems" show ?case
    by (subst (asm) skip_group_loop.simps)
      (force split: if_splits option.splits dest: skip_class_bounds "1.IH")
qed

lemma repetition_end_bounds: "repetition_end cs opn = Some e \<Longrightarrow> opn < e"
  by (auto simp: repetition_end_def digits_end_def Let_def split: if_splits)

text \<open>The scan: the index, whether the last token was a quantifier, and the output so far.\<close>

function relax_loop :: "ustr \<Rightarrow> nat \<Rightarrow> bool \<Rightarrow> ustr \<Rightarrow> ustr option" where
  "relax_loop cs i after_quantifier out =
     (if i \<ge> length cs then Some out
      else (let c = cs ! i in
        if c = backslash then
          (case char_at cs (i + 1) of
             None \<Rightarrow> None
           | Some nxt \<Rightarrow> if is_digit nxt \<or> nxt \<in> set (lit ''kgKG'') then None
                         else relax_loop cs (i + 2) False (out @ [c, nxt]))
        else if c = chr CHR ''['' then
          (case skip_class cs i of
             None \<Rightarrow> None
           | Some e \<Rightarrow> relax_loop cs e False (out @ take (e - i) (drop i cs)))
        else if c = chr CHR ''('' then
          (case group_kind_at cs i of
             Lookaround \<Rightarrow> (case skip_group cs i of None \<Rightarrow> None | Some e \<Rightarrow> relax_loop cs e False out)
           | Atomic \<Rightarrow> relax_loop cs (i + 3) False (out @ lit ''(?:'')
           | Unsupported \<Rightarrow> None
           | Plain \<Rightarrow> relax_loop cs (i + 1) False (out @ [c]))
        else if c = chr CHR ''{'' then
          (case repetition_end cs i of
             Some e \<Rightarrow> relax_loop cs e True (out @ take (e - i) (drop i cs))
           | None \<Rightarrow> relax_loop cs (i + 1) False (out @ [c]))
        else if c = chr CHR ''+'' \<and> after_quantifier then None
        else relax_loop cs (i + 1) (c \<in> set (lit ''*+?'')) (out @ [c])))"
  by pat_completeness auto
termination
  by (relation "measure (\<lambda>(cs, i, q, out). length cs - i)")
    (auto dest: skip_class_bounds skip_group_loop_bounds repetition_end_bounds simp: skip_group_def)

declare relax_loop.simps [simp del]

definition relax_for_indexing :: "ustr \<Rightarrow> ustr option" where
  "relax_for_indexing pattern = relax_loop pattern 0 False []"

fun relaxed_loop :: "(ustr \<Rightarrow> ustr + hir) \<Rightarrow> (bytes \<Rightarrow> bytes) \<Rightarrow> bool \<Rightarrow> query_plan list \<Rightarrow> ustr list \<Rightarrow> query_plan" where
  "relaxed_loop parse lc ci plans [] = union_plan plans"
| "relaxed_loop parse lc ci plans (p # ps) =
     (case (case relax_for_indexing p of
              None \<Rightarrow> None
            | Some relaxed \<Rightarrow> (case build_query_plan parse lc relaxed ci of Inl e \<Rightarrow> None | Inr plan \<Rightarrow> Some plan)) of
        Some plan \<Rightarrow> if \<not> is_match_all plan then relaxed_loop parse lc ci (plans @ [plan]) ps else MatchAll
      | None \<Rightarrow> MatchAll)"

definition build_relaxed_multi_pattern_plan ::
    "(ustr \<Rightarrow> ustr + hir) \<Rightarrow> (bytes \<Rightarrow> bytes) \<Rightarrow> ustr list \<Rightarrow> bool \<Rightarrow> query_plan" where
  "build_relaxed_multi_pattern_plan parse lc patterns ci = relaxed_loop parse lc ci [] patterns"

section \<open>Execution of plans\<close>

unbundle bit_operations_syntax

text \<open>
  The execution of a query plan against posting lists, and the merges of sorted lists of file ids
  (\<^verbatim>\<open>crates/tgrep-core/src/query.rs\<close>). A lookup that a plan runs against is a function.
\<close>

fun intersect_sorted :: "file_id list \<Rightarrow> file_id list \<Rightarrow> file_id list" where
  "intersect_sorted (a # as) (b # bs) =
     (if a = b then a # intersect_sorted as bs
      else if a < b then intersect_sorted as (b # bs)
      else intersect_sorted (a # as) bs)"
| "intersect_sorted _ _ = []"

fun union_sorted :: "file_id list \<Rightarrow> file_id list \<Rightarrow> file_id list" where
  "union_sorted (a # as) (b # bs) =
     (if a = b then a # union_sorted as bs
      else if a < b then a # union_sorted as (b # bs)
      else b # union_sorted (a # as) bs)"
| "union_sorted [] bs = bs"
| "union_sorted as [] = as"

fun pair_up :: "file_id list list \<Rightarrow> file_id list list" where
  "pair_up (l # r # ls) = union_sorted l r # pair_up ls"
| "pair_up ls = ls"

lemma length_pair_up: "length (pair_up ls) = (length ls + 1) div 2"
  by (induction ls rule: pair_up.induct) auto

function union_many_sorted_balanced :: "file_id list list \<Rightarrow> file_id list" where
  "union_many_sorted_balanced ls =
     (if length ls > 1 then union_many_sorted_balanced (pair_up ls)
      else (case ls of [] \<Rightarrow> [] | l # _ \<Rightarrow> l))"
  by pat_completeness auto
termination by (relation "measure length") (auto simp: length_pair_up)

declare union_many_sorted_balanced.simps [simp del]

fun union_loop :: "file_id list \<Rightarrow> file_id list list \<Rightarrow> file_id list" where
  "union_loop result [] = result"
| "union_loop result (l # ls) =
     (let merged = union_sorted result l; added = length merged - length result
      in if added > length l div 2 then union_many_sorted_balanced (merged # ls) else union_loop merged ls)"

definition union_many_sorted :: "file_id list list \<Rightarrow> file_id list" where
  "union_many_sorted idss =
     (case filter (\<lambda>l. l \<noteq> []) idss of
        [] \<Rightarrow> []
      | l # ls \<Rightarrow> union_loop l ls)"

fun and_loop :: "file_id list \<Rightarrow> file_id list list \<Rightarrow> file_id list" where
  "and_loop result [] = result"
| "and_loop result (l # ls) =
     (let result = intersect_sorted result (remdups_adj (sort l)) in if result = [] then [] else and_loop result ls)"

definition execute_and :: "(trigram \<Rightarrow> file_id list) \<Rightarrow> trigram_query list \<Rightarrow> file_id list" where
  "execute_and lookup queries =
     (case sort_key length (map (\<lambda>q. lookup (q_hash q)) queries) of
        [] \<Rightarrow> []
      | l # ls \<Rightarrow> and_loop (remdups_adj (sort l)) ls)"

fun execute_plan :: "(trigram \<Rightarrow> file_id list) \<Rightarrow> query_plan \<Rightarrow> file_id list" where
  "execute_plan lookup (And queries) = execute_and lookup queries"
| "execute_plan lookup (Or plans) = union_many_sorted (map (execute_plan lookup) plans)"
| "execute_plan lookup MatchAll = []"

subsection \<open>With masks\<close>

fun dedup_by_file_id :: "posting_entry list \<Rightarrow> posting_entry list" where
  "dedup_by_file_id (a # b # es) =
     (if file_id a = file_id b then dedup_by_file_id (a # es) else a # dedup_by_file_id (b # es))"
| "dedup_by_file_id es = es"

fun ascending :: "posting_entry list \<Rightarrow> bool" where
  "ascending (a # b # es) \<longleftrightarrow> file_id a < file_id b \<and> ascending (b # es)"
| "ascending _ \<longleftrightarrow> True"

definition sort_dedup_postings_by_file_id :: "posting_entry list \<Rightarrow> posting_entry list" where
  "sort_dedup_postings_by_file_id es = (if ascending es then es else dedup_by_file_id (sort_key file_id es))"

type_synonym candidate = "file_id \<times> byte \<times> byte"

definition next_passes :: "trigram_query \<Rightarrow> byte \<Rightarrow> bool" where
  "next_passes q nm \<longleftrightarrow> (case expected_next q of Some nb \<Rightarrow> nm AND bloom_hash nb \<noteq> 0 | None \<Rightarrow> True)"

fun intersect_masked :: "trigram_query \<Rightarrow> candidate list \<Rightarrow> posting_entry list \<Rightarrow> candidate list" where
  "intersect_masked q (c # cs) (e # es) =
     (if fst c = file_id e
      then (if next_passes q (p_next e) then (fst c, p_loc e, p_next e) # intersect_masked q cs es else intersect_masked q cs es)
      else if fst c < file_id e then intersect_masked q cs (e # es)
      else intersect_masked q (c # cs) es)"
| "intersect_masked q _ _ = []"

fun masked_loop :: "candidate list \<Rightarrow> (trigram_query \<times> posting_entry list) list \<Rightarrow> candidate list" where
  "masked_loop candidates [] = candidates"
| "masked_loop candidates ((q, list) # ls) =
     (let candidates = intersect_masked q candidates (sort_dedup_postings_by_file_id list)
      in if candidates = [] then [] else masked_loop candidates ls)"

definition execute_and_masked :: "(trigram \<Rightarrow> posting_entry list) \<Rightarrow> trigram_query list \<Rightarrow> file_id list" where
  "execute_and_masked lookup queries =
     (case sort_key (\<lambda>(_, l). length l) (map (\<lambda>q. (q, lookup (q_hash q))) queries) of
        [] \<Rightarrow> []
      | (q, l) # ls \<Rightarrow>
          (let candidates = map (\<lambda>e. (file_id e, p_loc e, p_next e)) (sort_dedup_postings_by_file_id l);
               candidates = (case expected_next q of
                   Some nb \<Rightarrow> filter (\<lambda>(_, _, nm). nm AND bloom_hash nb \<noteq> 0) candidates
                 | None \<Rightarrow> candidates)
           in map fst (masked_loop candidates ls)))"

fun execute_plan_with_masks :: "(trigram \<Rightarrow> posting_entry list) \<Rightarrow> query_plan \<Rightarrow> file_id list" where
  "execute_plan_with_masks lookup (And queries) = execute_and_masked lookup queries"
| "execute_plan_with_masks lookup (Or plans) = union_many_sorted (map (execute_plan_with_masks lookup) plans)"
| "execute_plan_with_masks lookup MatchAll = []"

end
