(* ===== verification/Tgrep_Reader.thy ===== *)
theory Tgrep_Reader
  imports Tgrep_Ondisk "HOL-Library.List_Lexorder"
begin

text \<open>
  The reader of an index (\<^verbatim>\<open>crates/tgrep-core/src/reader.rs\<close>): opening the three files, the binary searches, and the
  decoding of posting lists with its bounds. A memory map is the bytes of the file.
\<close>

record index_reader =
  r_lookup :: "bytes option"
  r_postings :: "bytes option"
  r_paths :: "bytes list"
  r_path_order :: "nat list"
  r_num_entries :: nat

text \<open>The files of an index directory; \<open>None\<close> is a file that does not exist.\<close>

record index_files =
  f_lookup :: "bytes option"
  f_postings :: "bytes option"
  f_files :: "bytes option"

subsection \<open>Opening\<close>

text \<open>The loop over the file table that checks that the ids are \<open>0 .. n - 1\<close>, once each.\<close>

fun check_ids :: "nat \<Rightarrow> bool list \<Rightarrow> (file_id \<times> bytes) list \<Rightarrow> corruption option" where
  "check_ids n seen [] = None"
| "check_ids n seen ((i, _) # es) =
     (if unat i \<ge> n then Some (Id_out_of_range i n)
      else if seen ! unat i then Some (Id_duplicate i)
      else check_ids n (seen[unat i := True]) es)"

definition place_paths :: "(file_id \<times> bytes) list \<Rightarrow> bytes list" where
  "place_paths es = fold (\<lambda>(i, p) ps. ps[unat i := p]) es (replicate (length es) [])"

text \<open>\<open>sort_unstable_by\<close>: ties are equal paths, of which the stable order is one possible result.\<close>

definition path_order_of :: "bytes list \<Rightarrow> nat list" where
  "path_order_of paths = sort_key (\<lambda>i. paths ! i) [0..<length paths]"

definition open_reader :: "index_files \<Rightarrow> index_error + index_reader" where
  "open_reader d =
     (case (f_lookup d, f_postings d, f_files d) of
        (Some lk, Some pk, Some fs) \<Rightarrow>
          (if lk \<noteq> [] \<and> pk \<noteq> [] \<and> length lk mod lookup_size \<noteq> 0 then Inl (IndexCorrupted (Lookup_size (length lk)))
           else (let present = lk \<noteq> [] \<and> pk \<noteq> []
                 in case decode_file_entries fs of
                      Inl e \<Rightarrow> Inl (IndexCorrupted e)
                    | Inr es \<Rightarrow>
                        (case check_ids (length es) (replicate (length es) False) es of
                           Some e \<Rightarrow> Inl (IndexCorrupted e)
                         | None \<Rightarrow> Inr \<lparr>r_lookup = (if present then Some lk else None),
                             r_postings = (if present then Some pk else None),
                             r_paths = place_paths es, r_path_order = path_order_of (place_paths es),
                             r_num_entries = (if present then length lk div lookup_size else 0)\<rparr>)))
      | _ \<Rightarrow> Inl IndexNotFound)"

definition empty_reader :: index_reader where
  "empty_reader = \<lparr>r_lookup = None, r_postings = None, r_paths = [], r_path_order = [], r_num_entries = 0\<rparr>"

definition close_reader :: "index_reader \<Rightarrow> index_reader" where
  "close_reader r = r\<lparr>r_lookup := None, r_postings := None, r_paths := [], r_path_order := [], r_num_entries := 0\<rparr>"

subsection \<open>Entries\<close>

definition read_lookup_entry :: "index_reader \<Rightarrow> nat \<Rightarrow> lookup_entry" where
  "read_lookup_entry r index = decode_lookup (take lookup_size (drop (index * lookup_size) (the (r_lookup r))))"

definition read_posting_entries :: "index_reader \<Rightarrow> 64 word \<Rightarrow> 32 word \<Rightarrow> posting_entry list" where
  "read_posting_entries r offset len =
     (case r_postings r of
        None \<Rightarrow> []
      | Some postings \<Rightarrow>
          (let start = unat offset
           in if length postings < start then []
              else (let remaining = length postings - start; count = min (unat len) (remaining div posting_size)
                    in map (\<lambda>i. decode_posting (take posting_size (drop (start + i * posting_size) postings))) [0..<count])))"

subsection \<open>Searching\<close>

text \<open>
  The search over \<open>lo .. hi - 1\<close> by halving: the reader's own, and the model of the standard library's
  \<open>binary_search_by\<close>, which promises an index only for a sorted slice.
\<close>

function bsearch :: "(nat \<Rightarrow> 'a::linorder) \<Rightarrow> 'a \<Rightarrow> nat \<Rightarrow> nat \<Rightarrow> nat option" where
  "bsearch key x lo hi =
     (if lo < hi
      then (let mid = lo + (hi - lo) div 2
            in if key mid = x then Some mid
               else if key mid < x then bsearch key x (mid + 1) hi
               else bsearch key x lo mid)
      else None)"
  by pat_completeness auto
termination by (relation "measure (\<lambda>(key, x, lo, hi). hi - lo)") auto

declare bsearch.simps [simp del]

definition binary_search :: "index_reader \<Rightarrow> trigram \<Rightarrow> nat option" where
  "binary_search r t = bsearch (\<lambda>i. l_trigram (read_lookup_entry r i)) t 0 (r_num_entries r)"

definition lookup_trigram_with_masks :: "index_reader \<Rightarrow> trigram \<Rightarrow> posting_entry list" where
  "lookup_trigram_with_masks r t =
     (if r_lookup r = None then []
      else (case binary_search r t of
              Some i \<Rightarrow> (let entry = read_lookup_entry r i in read_posting_entries r (l_offset entry) (l_length entry))
            | None \<Rightarrow> []))"

definition lookup_trigram :: "index_reader \<Rightarrow> trigram \<Rightarrow> file_id list" where
  "lookup_trigram r t = map file_id (lookup_trigram_with_masks r t)"

definition reader_file_path :: "index_reader \<Rightarrow> file_id \<Rightarrow> bytes option" where
  "reader_file_path r i = (if unat i < length (r_paths r) then Some (r_paths r ! unat i) else None)"

definition contains_path :: "index_reader \<Rightarrow> bytes \<Rightarrow> bool" where
  "contains_path r path \<longleftrightarrow>
     bsearch (\<lambda>i. r_paths r ! (r_path_order r ! i)) path 0 (length (r_path_order r)) \<noteq> None"

definition slash :: byte where
  "slash = 0x2F"

definition below :: "bytes \<Rightarrow> bytes \<Rightarrow> bool" where
  "below directory path \<longleftrightarrow> take (length directory) path = directory \<and> take 1 (drop (length directory) path) = [slash]"

text \<open>\<open>partition_point\<close> on a partitioned slice is the length of the part where the predicate holds.\<close>

definition reader_has_descendant :: "index_reader \<Rightarrow> bytes \<Rightarrow> bool" where
  "reader_has_descendant r directory \<longleftrightarrow>
     (if directory = [] then r_path_order r \<noteq> []
      else (let prefix = directory @ [slash];
                lower = length (takeWhile (\<lambda>i. r_paths r ! i < prefix) (r_path_order r))
            in lower < length (r_path_order r) \<and> below directory (r_paths r ! (r_path_order r ! lower))))"

subsection \<open>Whole-index access\<close>

definition all_file_ids :: "index_reader \<Rightarrow> file_id list" where
  "all_file_ids r = map of_nat [0..<length (r_paths r)]"

definition trigram_posting_at :: "index_reader \<Rightarrow> nat \<Rightarrow> trigram \<times> posting_entry list" where
  "trigram_posting_at r i =
     (let entry = read_lookup_entry r i in (l_trigram entry, read_posting_entries r (l_offset entry) (l_length entry)))"

definition all_trigram_postings_with_masks :: "index_reader \<Rightarrow> (trigram \<times> posting_entry list) list" where
  "all_trigram_postings_with_masks r = map (trigram_posting_at r) [0..<r_num_entries r]"

definition all_trigram_postings :: "index_reader \<Rightarrow> (trigram \<times> file_id list) list" where
  "all_trigram_postings r =
     map (\<lambda>i. (let entry = read_lookup_entry r i
                in (l_trigram entry, map file_id (read_posting_entries r (l_offset entry) (l_length entry)))))
       [0..<r_num_entries r]"

text \<open>
  Checked arithmetic on \<open>u64\<close>: the end of the byte range of a posting list, if it does not overflow.
\<close>

definition range_end :: "64 word \<Rightarrow> 32 word \<Rightarrow> nat option" where
  "range_end offset len =
     (let byte_len = unat len * posting_size
      in if byte_len \<ge> 2 ^ 64 then None
         else if unat offset + byte_len \<ge> 2 ^ 64 then None
         else Some (unat offset + byte_len))"

definition nth_trigram_raw :: "index_reader \<Rightarrow> nat \<Rightarrow> (trigram \<times> bytes) option" where
  "nth_trigram_raw r i =
     (if i \<ge> r_num_entries r then None
      else (let entry = read_lookup_entry r i
            in case r_postings r of
                 None \<Rightarrow> None
               | Some postings \<Rightarrow>
                   (let start = unat (l_offset entry)
                    in case range_end (l_offset entry) (l_length entry) of
                         None \<Rightarrow> None
                       | Some e \<Rightarrow> if start > length postings \<or> e > length postings then None
                                   else Some (l_trigram entry, take (e - start) (drop start postings)))))"

definition is_degenerate :: "index_reader \<Rightarrow> bool" where
  "is_degenerate r \<longleftrightarrow> r_num_entries r = 0 \<and>
     ((case r_lookup r of Some m \<Rightarrow> m \<noteq> [] | None \<Rightarrow> False) \<or> (case r_postings r of Some m \<Rightarrow> m \<noteq> [] | None \<Rightarrow> False))"

fun validate_loop :: "index_reader \<Rightarrow> nat \<Rightarrow> trigram option \<Rightarrow> nat list \<Rightarrow> corruption option" where
  "validate_loop r plen prev [] = None"
| "validate_loop r plen prev (i # is) =
     (let entry = read_lookup_entry r i
      in case (case prev of Some p \<Rightarrow> if l_trigram entry \<le> p then Some (Not_sorted i (l_trigram entry) p) else None
                          | None \<Rightarrow> None) of
           Some e \<Rightarrow> Some e
         | None \<Rightarrow>
             (case range_end (l_offset entry) (l_length entry) of
                Some e \<Rightarrow> if e \<le> plen then validate_loop r plen (Some (l_trigram entry)) is
                          else Some (Range_exceeds i (l_trigram entry) (l_offset entry) (l_length entry) plen)
              | None \<Rightarrow> Some (Range_exceeds i (l_trigram entry) (l_offset entry) (l_length entry) plen)))"

definition validate_lookup :: "index_reader \<Rightarrow> corruption option" where
  "validate_lookup r =
     (case r_lookup r of
        None \<Rightarrow> None
      | Some _ \<Rightarrow> validate_loop r (case r_postings r of Some p \<Rightarrow> length p | None \<Rightarrow> 0) None [0..<r_num_entries r])"

end
