(* ===== verification/Tgrep_Live.thy ===== *)
theory Tgrep_Live
  imports Tgrep_Query Tgrep_Reader
begin

unbundle bit_operations_syntax

text \<open>
  The in-memory overlay of an index (\<^verbatim>\<open>crates/tgrep-core/src/live.rs\<close>): the files that changed since the index on
  disk was written, and the paths that were deleted. Hash sets are lists without duplicates; capacities
  and the thread on which a dropped map is freed are not modelled.
\<close>

definition overlay_bit :: file_id where
  "overlay_bit = 0x80000000"

definition hs_insert :: "'a \<Rightarrow> 'a list \<Rightarrow> 'a list" where
  "hs_insert x s = (if x \<in> set s then s else s @ [x])"

definition hs_remove :: "'a \<Rightarrow> 'a list \<Rightarrow> 'a list" where
  "hs_remove x s = filter (\<lambda>y. y \<noteq> x) s"

record live_index =
  inverted :: "(trigram, file_id list) hmap"
  live_masks :: "(trigram \<times> file_id, trigram_masks) hmap"
  live_paths :: "(file_id, bytes) hmap"
  path_to_id :: "(bytes, file_id) hmap"
  deleted_paths :: "bytes list"
  next_id :: "32 word"
  dirty_count :: "32 word"

definition new_live :: live_index where
  "new_live = \<lparr>inverted = [], live_masks = [], live_paths = [], path_to_id = [], deleted_paths = [], next_id = 0, dirty_count = 0\<rparr>"

subsection \<open>Changing the overlay\<close>

definition remove_file_by_id :: "file_id \<Rightarrow> live_index \<Rightarrow> live_index" where
  "remove_file_by_id i l =
     l\<lparr>inverted := filter (\<lambda>(t, s). s \<noteq> []) (map (\<lambda>(t, s). (t, hs_remove i s)) (inverted l)),
       live_masks := filter (\<lambda>((t, j), m). j \<noteq> i) (live_masks l),
       live_paths := hm_del i (live_paths l),
       path_to_id := (case hm_get (live_paths l) i of Some p \<Rightarrow> hm_del p (path_to_id l) | None \<Rightarrow> path_to_id l)\<rparr>"

definition drop_path :: "bytes \<Rightarrow> live_index \<Rightarrow> live_index" where
  "drop_path path l = (case hm_get (path_to_id l) path of Some old \<Rightarrow> remove_file_by_id old l | None \<Rightarrow> l)"

definition add_posting :: "file_id \<Rightarrow> trigram \<Rightarrow> (trigram, file_id list) hmap \<Rightarrow> (trigram, file_id list) hmap" where
  "add_posting i t ix = hm_put t (hs_insert i (case hm_get ix t of Some s \<Rightarrow> s | None \<Rightarrow> [])) ix"

definition name_file :: "bytes \<Rightarrow> file_id \<Rightarrow> live_index \<Rightarrow> live_index" where
  "name_file path i l =
     l\<lparr>live_paths := hm_put i path (live_paths l), path_to_id := hm_put path i (path_to_id l),
       deleted_paths := hs_remove path (deleted_paths l), dirty_count := dirty_count l + 1\<rparr>"

fun add_postings :: "file_id \<Rightarrow> mask_map \<Rightarrow> live_index \<Rightarrow> live_index" where
  "add_postings i [] l = l"
| "add_postings i ((t, m) # per_tri) l =
     add_postings i per_tri (l\<lparr>inverted := add_posting i t (inverted l), live_masks := hm_put (t, i) m (live_masks l)\<rparr>)"

definition commit_upsert :: "bytes \<Rightarrow> mask_map \<Rightarrow> live_index \<Rightarrow> live_index" where
  "commit_upsert path per_tri l =
     (let l = drop_path path l;
          raw_id = next_id l;
          l = l\<lparr>next_id := raw_id + 1\<rparr>;
          i = raw_id OR overlay_bit
      in name_file path i (add_postings i per_tri l))"

definition upsert_file :: "bytes \<Rightarrow> bytes \<Rightarrow> live_index \<Rightarrow> live_index" where
  "upsert_file path content l = commit_upsert path (extract_merged_masks content) l"

text \<open>The path of the bulk indexer keeps no masks.\<close>

definition upsert_file_with_trigrams :: "bytes \<Rightarrow> trigram list \<Rightarrow> live_index \<Rightarrow> live_index" where
  "upsert_file_with_trigrams path trigrams l =
     (let l = drop_path path l;
          raw_id = next_id l;
          l = l\<lparr>next_id := raw_id + 1\<rparr>;
          i = raw_id OR overlay_bit;
          l = l\<lparr>inverted := fold (add_posting i) trigrams (inverted l)\<rparr>
      in name_file path i l)"

text \<open>The trigrams that the bulk indexer of the server passes for a decoded file.\<close>

definition bulk_trigrams :: "bytes \<Rightarrow> trigram list" where
  "bulk_trigrams content =
     (let lower = map lower_byte content
      in extract_trigrams content @ (if lower \<noteq> content then extract_trigrams lower else []))"

definition delete_file :: "bytes \<Rightarrow> live_index \<Rightarrow> live_index" where
  "delete_file path l =
     (let l = drop_path path l
      in l\<lparr>deleted_paths := hs_insert path (deleted_paths l), dirty_count := dirty_count l + 1\<rparr>)"

text \<open>
  \<open>read\<close> is what the file system gives for the path and \<open>decode\<close> the decoding of a file's bytes for the
  index (\<open>encoding::decode_for_index\<close>).
\<close>

definition update_from_disk :: "(bytes \<Rightarrow> bytes) \<Rightarrow> bytes option \<Rightarrow> bytes \<Rightarrow> live_index \<Rightarrow> live_index" where
  "update_from_disk decode read path l =
     (case read of
        Some data \<Rightarrow> (let txt = decode data in if is_binary txt then delete_file path l else upsert_file path txt l)
      | None \<Rightarrow> delete_file path l)"

definition reset_dirty_count :: "live_index \<Rightarrow> live_index" where
  "reset_dirty_count l = l\<lparr>dirty_count := 0\<rparr>"

definition remove_overlay_entry :: "bytes \<Rightarrow> live_index \<Rightarrow> live_index" where
  "remove_overlay_entry path l = drop_path path l"

text \<open>The first loop of a batch removal: the ids of the paths, which leave the two tables.\<close>

fun take_ids :: "bytes list \<Rightarrow> live_index \<Rightarrow> file_id list \<Rightarrow> live_index \<times> file_id list" where
  "take_ids [] l ids = (l, ids)"
| "take_ids (p # ps) l ids =
     (case hm_get (path_to_id l) p of
        Some i \<Rightarrow> take_ids ps (l\<lparr>path_to_id := hm_del p (path_to_id l), live_paths := hm_del i (live_paths l)\<rparr>) (hs_insert i ids)
      | None \<Rightarrow> take_ids ps l ids)"

definition batch_remove_overlay_entries :: "bytes list \<Rightarrow> live_index \<Rightarrow> live_index" where
  "batch_remove_overlay_entries paths l =
     (if paths = [] then l
      else (let (l, ids) = take_ids paths l []
            in if ids = [] then l
               else if path_to_id l = [] then l\<lparr>inverted := [], live_masks := []\<rparr>
               else l\<lparr>inverted := filter (\<lambda>(t, s). s \<noteq> []) (map (\<lambda>(t, s). (t, filter (\<lambda>i. i \<notin> set ids) s)) (inverted l)),
                      live_masks := filter (\<lambda>((t, i), m). i \<notin> set ids) (live_masks l)\<rparr>))"

definition clear_reconciled_paths :: "bytes list \<Rightarrow> live_index \<Rightarrow> live_index" where
  "clear_reconciled_paths paths l =
     (let l = batch_remove_overlay_entries paths l in l\<lparr>deleted_paths := fold hs_remove paths (deleted_paths l)\<rparr>)"

definition try_drop_all_persisted :: "bytes set \<Rightarrow> live_index \<Rightarrow> live_index \<times> bool" where
  "try_drop_all_persisted reader_paths l =
     (if \<not> list_all (\<lambda>(p, i). p \<in> reader_paths) (path_to_id l) then (l, False)
      else if list_ex (\<lambda>p. p \<in> reader_paths) (deleted_paths l) then (l, False)
      else (l\<lparr>inverted := [], live_masks := [], live_paths := [], path_to_id := [], deleted_paths := []\<rparr>, True))"

subsection \<open>Reading the overlay\<close>

definition no_filter :: trigram_masks where
  "no_filter = \<lparr>loc_mask = 0xFF, next_mask = 0xFF\<rparr>"

definition get_masks :: "live_index \<Rightarrow> trigram \<Rightarrow> file_id \<Rightarrow> trigram_masks" where
  "get_masks l t i = (case hm_get (live_masks l) (t, i) of Some m \<Rightarrow> m | None \<Rightarrow> no_filter)"

definition live_lookup :: "live_index \<Rightarrow> trigram \<Rightarrow> file_id list" where
  "live_lookup l t = (case hm_get (inverted l) t of Some s \<Rightarrow> s | None \<Rightarrow> [])"

definition live_lookup_with_masks :: "live_index \<Rightarrow> trigram \<Rightarrow> posting_entry list" where
  "live_lookup_with_masks l t =
     (case hm_get (inverted l) t of
        Some s \<Rightarrow> map (\<lambda>i. (let m = (case hm_get (live_masks l) (t, i) of Some m \<Rightarrow> m | None \<Rightarrow> no_filter)
                             in \<lparr>file_id = i, p_loc = loc_mask m, p_next = next_mask m\<rparr>)) s
      | None \<Rightarrow> [])"

definition live_file_path :: "live_index \<Rightarrow> file_id \<Rightarrow> bytes option" where
  "live_file_path l i = hm_get (live_paths l) i"

definition is_deleted :: "live_index \<Rightarrow> bytes \<Rightarrow> bool" where
  "is_deleted l path \<longleftrightarrow> path \<in> set (deleted_paths l)"

definition live_has_path :: "live_index \<Rightarrow> bytes \<Rightarrow> bool" where
  "live_has_path l path \<longleftrightarrow> hm_get (path_to_id l) path \<noteq> None"

definition live_has_descendant :: "live_index \<Rightarrow> bytes \<Rightarrow> bool" where
  "live_has_descendant l directory \<longleftrightarrow>
     (if directory = [] then path_to_id l \<noteq> [] else list_ex (\<lambda>(p, i). below directory p) (path_to_id l))"

definition live_file_ids :: "live_index \<Rightarrow> file_id list" where
  "live_file_ids l = map fst (live_paths l)"

definition has_pending_changes :: "live_index \<Rightarrow> bool" where
  "has_pending_changes l \<longleftrightarrow> path_to_id l \<noteq> [] \<or> deleted_paths l \<noteq> []"

definition is_overlay_id :: "file_id \<Rightarrow> bool" where
  "is_overlay_id i \<longleftrightarrow> i AND overlay_bit \<noteq> 0"

definition overlay_paths :: "live_index \<Rightarrow> bytes list" where
  "overlay_paths l = map fst (path_to_id l)"

definition all_paths_ordered :: "live_index \<Rightarrow> bytes list" where
  "all_paths_ordered l = map snd (sort_key (\<lambda>(i, p). i AND NOT overlay_bit) (live_paths l))"

text \<open>A snapshot for the disk: sequential ids in the order of the overlay's, and sorted postings.\<close>

fun number_paths :: "nat \<Rightarrow> bytes list \<Rightarrow> (bytes, file_id) hmap \<Rightarrow> (bytes, file_id) hmap" where
  "number_paths k [] m = m"
| "number_paths k (p # ps) m = number_paths (k + 1) ps (hm_put p (of_nat k) m)"

definition remap_snapshot ::
    "(trigram, file_id list) hmap \<Rightarrow> (file_id, bytes) hmap \<Rightarrow> bytes list \<times> (trigram, file_id list) hmap" where
  "remap_snapshot ix paths =
     (let ordered = map snd (sort_key (\<lambda>(i, p). i AND NOT overlay_bit) paths);
          new_ids = number_paths 0 ordered [];
          new_id = (\<lambda>i. case hm_get paths i of None \<Rightarrow> None | Some p \<Rightarrow> hm_get new_ids p);
          remapped = map (\<lambda>(t, s). (t, sort (List.map_filter new_id s))) ix
      in (ordered, filter (\<lambda>(t, s). s \<noteq> []) remapped))"

definition snapshot_for_disk :: "live_index \<Rightarrow> bytes list \<times> (trigram, file_id list) hmap" where
  "snapshot_for_disk l = remap_snapshot (inverted l) (live_paths l)"

end
