(* ===== verification/Tgrep_Writer.thy ===== *)
theory Tgrep_Writer
  imports Tgrep_Reader
begin

text \<open>
  The writers of an index (\<^verbatim>\<open>crates/tgrep-core/src/builder.rs\<close>): the lookup and posting files with their
  write buffers, the file table, the batches and the postings of one run of the builder. The bytes handed to a file are appended to what it holds; a failing write of
  the operating system is not modelled.
\<close>

definition posting_chunk :: nat where
  "posting_chunk = 8192"

definition lookup_chunk :: nat where
  "lookup_chunk = 4096"

function chunks_of :: "nat \<Rightarrow> 'a list \<Rightarrow> 'a list list" where
  "chunks_of n xs = (if xs = [] \<or> n = 0 then [] else take n xs # chunks_of n (drop n xs))"
  by pat_completeness auto
termination by (relation "measure (\<lambda>(n, xs). length xs)") auto

declare chunks_of.simps [simp del]

text \<open>
  A writer in progress: what \<open>lookup.bin\<close> holds and what is buffered for it, what \<open>index.bin\<close> holds, the
  offset of the next posting list, and the number of lookup entries.
\<close>

record index_out =
  o_lookup :: bytes
  o_scratch :: bytes
  o_postings :: bytes
  o_offset :: "64 word"
  o_count :: nat

definition new_out :: index_out where
  "new_out = \<lparr>o_lookup = [], o_scratch = [], o_postings = [], o_offset = 0, o_count = 0\<rparr>"

definition flush_lookup_entries :: "index_out \<Rightarrow> index_out" where
  "flush_lookup_entries w = (if o_scratch w \<noteq> [] then w\<lparr>o_lookup := o_lookup w @ o_scratch w, o_scratch := []\<rparr> else w)"

definition write_lookup_entry :: "lookup_entry \<Rightarrow> index_out \<Rightarrow> index_out" where
  "write_lookup_entry e w =
     (let w = (if length (o_scratch w) = lookup_chunk * lookup_size then flush_lookup_entries w else w)
      in w\<lparr>o_scratch := o_scratch w @ to_le 4 (l_trigram e) @ to_le 8 (l_offset e) @ to_le 4 (l_length e)\<rparr>)"

definition write_posting_entries :: "posting_entry list \<Rightarrow> bytes \<Rightarrow> bytes" where
  "write_posting_entries entries postings =
     fold (\<lambda>chunk out. out @ concat (map (\<lambda>e. to_le 4 (file_id e) @ [p_loc e, p_next e]) chunk))
       (chunks_of posting_chunk entries) postings"

text \<open>One posting list: its lookup entry, its postings, and the next offset.\<close>

definition put_group :: "trigram \<Rightarrow> posting_entry list \<Rightarrow> index_out \<Rightarrow> index_out" where
  "put_group t ps w =
     (let len = of_nat (length ps) :: 32 word;
          w = write_lookup_entry \<lparr>l_trigram = t, l_offset = o_offset w, l_length = len\<rparr> w
      in w\<lparr>o_postings := write_posting_entries ps (o_postings w), o_offset := o_offset w + ucast len * 6, o_count := o_count w + 1\<rparr>)"

subsection \<open>The file table\<close>

record index_meta =
  m_num_files :: "64 word"
  m_num_trigrams :: "64 word"
  m_complete :: bool

text \<open>A written index: its three files and the counts of \<open>meta.json\<close>.\<close>

record written_index =
  w_files :: index_files
  w_meta :: index_meta

fun file_table :: "nat \<Rightarrow> bytes list \<Rightarrow> corruption + bytes" where
  "file_table i [] = Inr []"
| "file_table i (p # ps) =
     (case write_file_entry (of_nat i) p of
        Inl e \<Rightarrow> Inl e
      | Inr bs \<Rightarrow> (case file_table (i + 1) ps of Inl e \<Rightarrow> Inl e | Inr rest \<Rightarrow> Inr (bs @ rest)))"

definition write_files_and_meta :: "nat \<Rightarrow> bytes list \<Rightarrow> nat \<Rightarrow> bool option \<Rightarrow> index_out \<Rightarrow> corruption + written_index" where
  "write_files_and_meta path_count paths trigram_count complete w =
     (case file_table 0 paths of
        Inl e \<Rightarrow> Inl e
      | Inr fs \<Rightarrow> Inr \<lparr>w_files = \<lparr>f_lookup = Some (o_lookup w), f_postings = Some (o_postings w), f_files = Some fs\<rparr>,
          w_meta = \<lparr>m_num_files = of_nat path_count, m_num_trigrams = of_nat trigram_count,
            m_complete = (case complete of Some c \<Rightarrow> c | None \<Rightarrow> True)\<rparr>\<rparr>)"

subsection \<open>An index from postings in memory\<close>

definition write_index_files ::
    "nat \<Rightarrow> bytes list \<Rightarrow> (trigram, posting_entry list) hmap \<Rightarrow> bool option \<Rightarrow> corruption + written_index" where
  "write_index_files path_count paths inverted complete =
     (let sorted_trigrams = sort (map fst inverted);
          w = fold (\<lambda>t. put_group t (the (hm_get inverted t))) sorted_trigrams new_out
      in write_files_and_meta path_count paths (length sorted_trigrams) complete (flush_lookup_entries w))"

definition write_index_from_snapshot ::
    "bytes list \<Rightarrow> (trigram, posting_entry list) hmap \<Rightarrow> bool \<Rightarrow> corruption + written_index" where
  "write_index_from_snapshot paths inverted complete = write_index_files (length paths) paths inverted (Some complete)"

type_synonym trigram_posting = "trigram \<times> posting_entry"

function write_runs :: "trigram_posting list \<Rightarrow> index_out \<Rightarrow> index_out" where
  "write_runs [] w = w"
| "write_runs (p # ps) w =
     (let run = p # takeWhile (\<lambda>q. fst q = fst p) ps
      in write_runs (dropWhile (\<lambda>q. fst q = fst p) ps) (put_group (fst p) (map snd run) w))"
  by pat_completeness auto
termination by (relation "measure (\<lambda>(ps, w). length ps)") (auto simp: length_dropWhile_le le_imp_less_Suc)

definition write_index_files_from_postings ::
    "nat \<Rightarrow> bytes list \<Rightarrow> trigram_posting list \<Rightarrow> nat \<Rightarrow> bool option \<Rightarrow> corruption + written_index" where
  "write_index_files_from_postings path_count paths postings trigram_count complete =
     write_files_and_meta path_count paths trigram_count complete (flush_lookup_entries (write_runs postings new_out))"

text \<open>The order by trigram, then by file; ties do not occur, since a file has one posting for a trigram.\<close>

definition posting_key :: "trigram_posting \<Rightarrow> nat" where
  "posting_key p = unat (fst p) * 2 ^ 32 + unat (file_id (snd p))"

fun count_runs :: "trigram option \<Rightarrow> trigram_posting list \<Rightarrow> nat" where
  "count_runs previous [] = 0"
| "count_runs previous (p # ps) =
     (if previous \<noteq> Some (fst p) then Suc (count_runs (Some (fst p)) ps) else count_runs previous ps)"

definition count_sorted_trigrams :: "trigram_posting list \<Rightarrow> nat" where
  "count_sorted_trigrams ps = count_runs None ps"

definition write_index_v2_from_postings :: "bytes list \<Rightarrow> trigram_posting list \<Rightarrow> corruption + written_index" where
  "write_index_v2_from_postings paths postings =
     (let sorted = sort_key posting_key postings
      in write_index_files_from_postings (length paths) paths sorted (count_sorted_trigrams sorted) None)"

text \<open>\<open>PostingSink::push_file\<close> in memory: the file's trigrams, each with its masks, after what is there.\<close>

definition file_postings :: "file_id \<Rightarrow> mask_map \<Rightarrow> trigram_posting list" where
  "file_postings i per_trigram = map (\<lambda>(t, m). (t, \<lparr>file_id = i, p_loc = loc_mask m, p_next = next_mask m\<rparr>)) per_trigram"

definition push_file_in_memory :: "file_id \<Rightarrow> mask_map \<Rightarrow> trigram_posting list \<Rightarrow> trigram_posting list" where
  "push_file_in_memory i per_trigram postings = postings @ file_postings i per_trigram"

subsection \<open>Batches\<close>

record batch_charge =
  c_heap :: nat
  c_mapped :: nat

definition mib :: nat where
  "mib = 1024 * 1024"

definition batch_charge_of :: "nat \<Rightarrow> batch_charge" where
  "batch_charge_of sz =
     (if sz \<ge> mib then \<lparr>c_heap = min sz (2 * mib), c_mapped = sz\<rparr> else \<lparr>c_heap = sz, c_mapped = 0\<rparr>)"

definition index_batch_bytes :: nat where
  "index_batch_bytes = 64 * mib"

definition mapped_batch_bytes :: nat where
  "mapped_batch_bytes = 256 * mib"

definition unknown_size_charge :: batch_charge where
  "unknown_size_charge = \<lparr>c_heap = index_batch_bytes, c_mapped = mapped_batch_bytes\<rparr>"

definition index_batch_size :: nat where
  "index_batch_size = 1024"

definition sat_add :: "nat \<Rightarrow> nat \<Rightarrow> nat" where
  "sat_add a b = min (a + b) (2 ^ 64 - 1)"

text \<open>
  The loop over the files: the index of the next one, the start of the batch and its two charges so far.
\<close>

fun batch_loop :: "nat \<Rightarrow> nat \<Rightarrow> nat \<Rightarrow> nat \<Rightarrow> nat \<Rightarrow> batch_charge list \<Rightarrow> (nat \<times> nat) list" where
  "batch_loop budget i start heap mapped [] = (if start < i then [(start, i)] else [])"
| "batch_loop budget i start heap mapped (c # cs) =
     (let full = i - start \<ge> index_batch_size \<or> sat_add heap (c_heap c) > budget \<or> sat_add mapped (c_mapped c) > mapped_batch_bytes
      in if i > start \<and> full
         then (start, i) # batch_loop budget (i + 1) i (sat_add 0 (c_heap c)) (sat_add 0 (c_mapped c)) cs
         else batch_loop budget (i + 1) start (sat_add heap (c_heap c)) (sat_add mapped (c_mapped c)) cs)"

definition batch_ranges :: "batch_charge list \<Rightarrow> nat \<Rightarrow> (nat \<times> nat) list" where
  "batch_ranges charges budget = batch_loop budget 0 0 0 0 charges"

subsection \<open>Building\<close>

text \<open>
  A file as the walk and the reads present it: its relative path and its decoded bytes, or \<open>None\<close> where it
  could not be read. Binary files are left out; the others get ids in order.
\<close>

type_synonym walked_file = "bytes \<times> bytes option"

definition extract_file :: "walked_file \<Rightarrow> (bytes \<times> mask_map) option" where
  "extract_file f =
     (case snd f of
        None \<Rightarrow> None
      | Some text \<Rightarrow> if is_binary text then None else Some (fst f, extract_merged_masks text))"

fun add_batch :: "(bytes \<times> mask_map) list \<Rightarrow> bytes list \<times> trigram_posting list \<Rightarrow> bytes list \<times> trigram_posting list" where
  "add_batch [] s = s"
| "add_batch ((path, per_tri) # fs) (paths, postings) =
     add_batch fs (paths @ [path], push_file_in_memory (of_nat (length paths)) per_tri postings)"

definition build_postings :: "walked_file list \<Rightarrow> (nat \<times> nat) list \<Rightarrow> bytes list \<times> trigram_posting list" where
  "build_postings files ranges =
     fold (\<lambda>(a, b). add_batch (List.map_filter extract_file (take (b - a) (drop a files)))) ranges ([], [])"

definition build_index_in_memory :: "walked_file list \<Rightarrow> batch_charge list \<Rightarrow> corruption + written_index" where
  "build_index_in_memory files charges =
     (let (paths, postings) = build_postings files (batch_ranges charges index_batch_bytes)
      in write_index_v2_from_postings paths postings)"

end
