(* ===== verification/Tgrep_Hybrid.thy ===== *)
theory Tgrep_Hybrid
  imports Tgrep_Live Tgrep_Writer
begin

unbundle bit_operations_syntax

text \<open>
  The index that a server searches (\<^verbatim>\<open>crates/tgrep-core/src/hybrid.rs\<close>): the reader of the index on disk under
  the live overlay. The lock around the reader is not modelled: an operation sees one reader throughout,
  as the snapshot that the code takes gives it.
\<close>

record hybrid_index =
  h_reader :: index_reader
  h_live :: live_index

definition open_hybrid :: "index_files \<Rightarrow> index_error + hybrid_index" where
  "open_hybrid d =
     (case open_reader d of
        Inl e \<Rightarrow> Inl e
      | Inr r \<Rightarrow>
          (if is_degenerate r then Inl (IndexCorrupted Degenerate)
           else (case validate_lookup r of
                   Some e \<Rightarrow> Inl (IndexCorrupted e)
                 | None \<Rightarrow> Inr \<lparr>h_reader = r, h_live = new_live\<rparr>)))"

definition swap_reader :: "index_reader \<Rightarrow> hybrid_index \<Rightarrow> hybrid_index" where
  "swap_reader r h = h\<lparr>h_reader := r\<rparr>"

definition drop_reader :: "hybrid_index \<Rightarrow> hybrid_index" where
  "drop_reader h = swap_reader empty_reader h"

definition reopen_reader :: "index_files \<Rightarrow> hybrid_index \<Rightarrow> index_error + hybrid_index" where
  "reopen_reader d h = (case open_reader d of Inl e \<Rightarrow> Inl e | Inr r \<Rightarrow> Inr (swap_reader r h))"

definition reader_entry_active :: "hybrid_index \<Rightarrow> file_id \<Rightarrow> bool" where
  "reader_entry_active h i \<longleftrightarrow>
     (case reader_file_path (h_reader h) i of
        Some path \<Rightarrow> \<not> is_deleted (h_live h) path \<and> \<not> live_has_path (h_live h) path
      | None \<Rightarrow> False)"

definition hybrid_lookup :: "hybrid_index \<Rightarrow> trigram \<Rightarrow> file_id list" where
  "hybrid_lookup h t = filter (reader_entry_active h) (lookup_trigram (h_reader h) t) @ live_lookup (h_live h) t"

definition hybrid_lookup_with_masks :: "hybrid_index \<Rightarrow> trigram \<Rightarrow> posting_entry list" where
  "hybrid_lookup_with_masks h t =
     filter (\<lambda>e. reader_entry_active h (file_id e)) (lookup_trigram_with_masks (h_reader h) t) @
     live_lookup_with_masks (h_live h) t"

definition resolve_path :: "hybrid_index \<Rightarrow> file_id \<Rightarrow> bytes option" where
  "resolve_path h i =
     (if is_overlay_id i then live_file_path (h_live h) i else reader_file_path (h_reader h) i)"

definition hybrid_file_ids :: "hybrid_index \<Rightarrow> file_id list" where
  "hybrid_file_ids h = filter (reader_entry_active h) (all_file_ids (h_reader h)) @ live_file_ids (h_live h)"

definition hybrid_paths :: "hybrid_index \<Rightarrow> bytes list" where
  "hybrid_paths h =
     map snd (filter (\<lambda>(i, p). reader_entry_active h (of_nat i))
       (zip [0..<length (r_paths (h_reader h))] (r_paths (h_reader h)))) @ all_paths_ordered (h_live h)"

definition has_active_path :: "hybrid_index \<Rightarrow> bytes \<Rightarrow> bool" where
  "has_active_path h path \<longleftrightarrow>
     (if live_has_path (h_live h) path then True
      else if is_deleted (h_live h) path then False
      else contains_path (h_reader h) path)"

definition execute_query :: "hybrid_index \<Rightarrow> query_plan \<Rightarrow> file_id list" where
  "execute_query h p = (if is_match_all p then hybrid_file_ids h else execute_plan (hybrid_lookup h) p)"

definition execute_query_with_masks :: "hybrid_index \<Rightarrow> query_plan \<Rightarrow> file_id list" where
  "execute_query_with_masks h p =
     (if is_match_all p then hybrid_file_ids h else execute_plan_with_masks (hybrid_lookup_with_masks h) p)"

definition hybrid_num_trigrams :: "hybrid_index \<Rightarrow> nat" where
  "hybrid_num_trigrams h =
     (let reader_count = r_num_entries (h_reader h); live_count = length (inverted (h_live h))
      in if reader_count = 0 then live_count
         else if live_count = 0 then reader_count
         else max reader_count live_count)"

subsection \<open>After a flush\<close>

definition prune_persisted_entries_except :: "bytes list \<Rightarrow> hybrid_index \<Rightarrow> hybrid_index" where
  "prune_persisted_entries_except preserved h =
     (let reader_paths = set (filter (\<lambda>p. p \<notin> set preserved) (r_paths (h_reader h)));
          (l, dropped) = try_drop_all_persisted reader_paths (h_live h)
      in if dropped then h\<lparr>h_live := l\<rparr>
         else h\<lparr>h_live := batch_remove_overlay_entries (filter (\<lambda>p. p \<in> reader_paths) (overlay_paths (h_live h))) (h_live h)\<rparr>)"

definition prune_persisted_entries :: "hybrid_index \<Rightarrow> hybrid_index" where
  "prune_persisted_entries h = prune_persisted_entries_except [] h"

definition dropped_id :: file_id where
  "dropped_id = 0xFFFFFFFF"

text \<open>The new ids of the reader's files and the paths that stay.\<close>

fun keep_reader_paths :: "(bytes \<Rightarrow> bool) \<Rightarrow> bytes list \<Rightarrow> file_id list \<Rightarrow> bytes list \<Rightarrow> file_id list \<times> bytes list" where
  "keep_reader_paths superseded [] ids paths = (ids, paths)"
| "keep_reader_paths superseded (p # ps) ids paths =
     (if superseded p then keep_reader_paths superseded ps (ids @ [dropped_id]) paths
      else keep_reader_paths superseded ps (ids @ [of_nat (length paths)]) (paths @ [p]))"

definition remap_entry :: "file_id list \<Rightarrow> posting_entry \<Rightarrow> posting_entry option" where
  "remap_entry ids e =
     (if unat (file_id e) < length ids \<and> ids ! unat (file_id e) \<noteq> dropped_id
      then Some (e\<lparr>file_id := ids ! unat (file_id e)\<rparr>) else None)"

definition overlay_postings :: "live_index \<Rightarrow> (bytes, file_id) hmap \<Rightarrow> trigram \<Rightarrow> file_id list \<Rightarrow> posting_entry list" where
  "overlay_postings l new_ids t s =
     List.map_filter (\<lambda>i. case live_file_path l i of
         None \<Rightarrow> None
       | Some p \<Rightarrow> map_option (\<lambda>j. (let m = get_masks l t i in \<lparr>file_id = j, p_loc = loc_mask m, p_next = next_mask m\<rparr>))
           (hm_get new_ids p)) s"

fun add_overlay :: "live_index \<Rightarrow> (bytes, file_id) hmap \<Rightarrow> (trigram, file_id list) hmap \<Rightarrow>
    (trigram, posting_entry list) hmap \<Rightarrow> (trigram, posting_entry list) hmap" where
  "add_overlay l new_ids [] acc = acc"
| "add_overlay l new_ids ((t, s) # ix) acc =
     (let remapped = overlay_postings l new_ids t s
      in add_overlay l new_ids ix
           (if remapped \<noteq> [] then hm_put t ((case hm_get acc t of Some ps \<Rightarrow> ps | None \<Rightarrow> []) @ remapped) acc else acc))"

definition full_snapshot :: "hybrid_index \<Rightarrow> bytes list \<times> (trigram, posting_entry list) hmap" where
  "full_snapshot h =
     (let l = h_live h; r = h_reader h;
          (ids, paths) = keep_reader_paths (\<lambda>p. is_deleted l p \<or> live_has_path l p) (r_paths r) [] [];
          overlay = all_paths_ordered l;
          new_ids = number_paths (length paths) overlay [];
          base = fold (\<lambda>i acc. let (t, ps) = trigram_posting_at r i; remapped = List.map_filter (remap_entry ids) ps
                               in if remapped \<noteq> [] then hm_put t remapped acc else acc) [0..<r_num_entries r] [];
          merged = add_overlay l new_ids (inverted l) base
      in (paths @ overlay, map (\<lambda>(t, ps). (t, sort_key file_id ps)) merged))"

end
