(* ===== verification/Tgrep_Trigram_Facts.thy ===== *)
theory Tgrep_Trigram_Facts
  imports Tgrep_Trigram
begin

text \<open>
  What the extraction of trigrams computes: packing is injective; the masks of a trigram are the union of
  what its windows contribute, whatever the order; one pass over both cases is two passes.
\<close>

subsection \<open>Packing\<close>

lemma hash_third: "ucast (hash a b c) = c"
  by (rule bit_word_eqI) (auto simp: hash_def bit_simps)

lemma hash_second: "ucast (drop_bit 8 (hash a b c)) = b"
  by (rule bit_word_eqI) (auto simp: hash_def bit_simps dest: bit_imp_le_length)

lemma hash_first: "ucast (drop_bit 16 (hash a b c)) = a"
  by (rule bit_word_eqI) (auto simp: hash_def bit_simps dest: bit_imp_le_length)

lemma hash_eq_iff [simp]: "hash a b c = hash a' b' c' \<longleftrightarrow> a = a' \<and> b = b' \<and> c = c'"
  by (metis hash_first hash_second hash_third)

lemma hash3_eq_iff [simp]: "hash3 w = hash3 w' \<longleftrightarrow> w = w'"
  by (simp add: hash3_def split: prod.splits)

subsection \<open>Windows\<close>

lemma length_windows [simp]: "length (windows data) = length data - 2"
  by (induction data rule: windows.induct) auto

lemma windows_nth:
  "i + 2 < length data \<Longrightarrow>
   windows data ! i = ((data ! i, data ! (i + 1), data ! (i + 2)), if i + 3 < length data then Some (data ! (i + 3)) else None)"
proof (induction data arbitrary: i rule: windows.induct)
  case (1 a b c rest)
  then show ?case by (cases i) (auto split: list.split simp: numeral_3_eq_3)
qed auto

lemma windows_map: "windows (map f data) = map (\<lambda>((a, b, c), d). ((f a, f b, f c), map_option f d)) (windows data)"
  by (induction data rule: windows.induct) (auto split: list.split)

text \<open>A text inside another has its windows there; only the last one may be followed by another byte.\<close>

lemma windows_infix:
  assumes "i < length (windows w)"
  shows "length u + i < length (windows (u @ w @ v)) \<and>
         fst (windows (u @ w @ v) ! (length u + i)) = fst (windows w ! i) \<and>
         (snd (windows w ! i) = Some d \<longrightarrow> snd (windows (u @ w @ v) ! (length u + i)) = Some d)"
proof -
  have i: "i + 2 < length w" using assms by simp
  then have "length u + i + 2 < length (u @ w @ v)" by simp
  from windows_nth [OF this] windows_nth [OF i] i show ?thesis
    by (auto simp: nth_append split: if_splits)
qed

subsection \<open>Contributions\<close>

text \<open>What one window adds to the masks: a trigram, a position bit, a next-byte bit.\<close>

type_synonym contribution = "trigram \<times> byte \<times> byte"

definition add_all :: "contribution list \<Rightarrow> mask_map \<Rightarrow> mask_map" where
  "add_all cs m = fold (\<lambda>(t, loc, nxt). entry_or t loc nxt) cs m"

lemma add_all_simps [simp]:
  "add_all [] m = m" "add_all ((t, l, n) # cs) m = add_all cs (entry_or t l n m)" "add_all (cs @ ds) m = add_all ds (add_all cs m)"
  by (simp_all add: add_all_def)

text \<open>Reading a map of masks: the keys, and the bits of a trigram's masks.\<close>

definition loc_has :: "mask_map \<Rightarrow> trigram \<Rightarrow> nat \<Rightarrow> bool" where
  "loc_has m t k \<longleftrightarrow> (case hm_get m t of Some x \<Rightarrow> bit (loc_mask x) k | None \<Rightarrow> False)"

definition next_has :: "mask_map \<Rightarrow> trigram \<Rightarrow> nat \<Rightarrow> bool" where
  "next_has m t k \<longleftrightarrow> (case hm_get m t of Some x \<Rightarrow> bit (next_mask x) k | None \<Rightarrow> False)"

lemma entry_or_read [simp]:
  "hm_get (entry_or t l n m) s = None \<longleftrightarrow> hm_get m s = None \<and> s \<noteq> t"
  "loc_has (entry_or t l n m) s k \<longleftrightarrow> loc_has m s k \<or> s = t \<and> bit l k"
  "next_has (entry_or t l n m) s k \<longleftrightarrow> next_has m s k \<or> s = t \<and> bit n k"
  by (auto simp: entry_or_def loc_has_def next_has_def or_masks_def no_masks_def bit_or_iff split: option.split)

lemma add_all_read:
  "hm_get (add_all cs m) s = None \<longleftrightarrow> hm_get m s = None \<and> s \<notin> fst ` set cs"
  "loc_has (add_all cs m) s k \<longleftrightarrow> loc_has m s k \<or> (\<exists>l n. (s, l, n) \<in> set cs \<and> bit l k)"
  "next_has (add_all cs m) s k \<longleftrightarrow> next_has m s k \<or> (\<exists>l n. (s, l, n) \<in> set cs \<and> bit n k)"
proof -
  show "hm_get (add_all cs m) s = None \<longleftrightarrow> hm_get m s = None \<and> s \<notin> fst ` set cs"
    by (induction cs arbitrary: m) (force)+
  show "loc_has (add_all cs m) s k \<longleftrightarrow> loc_has m s k \<or> (\<exists>l n. (s, l, n) \<in> set cs \<and> bit l k)"
  proof (induction cs arbitrary: m)
    case (Cons c cs)
    obtain t l n where c: "c = (t, l, n)" by (cases c)
    show ?case unfolding c add_all_simps Cons.IH by auto
  qed simp
  show "next_has (add_all cs m) s k \<longleftrightarrow> next_has m s k \<or> (\<exists>l n. (s, l, n) \<in> set cs \<and> bit n k)"
  proof (induction cs arbitrary: m)
    case (Cons c cs)
    obtain t l n where c: "c = (t, l, n)" by (cases c)
    show ?case unfolding c add_all_simps Cons.IH by auto
  qed simp
qed

lemma empty_read [simp]: "\<not> loc_has [] t k" "\<not> next_has [] t k"
  by (simp_all add: loc_has_def next_has_def)

text \<open>Two maps with the same keys and bits read the same.\<close>

lemma masks_eqI:
  assumes "hm_get m t = None \<longleftrightarrow> hm_get m' t = None"
    and "\<And>k. loc_has m t k \<longleftrightarrow> loc_has m' t k" "\<And>k. next_has m t k \<longleftrightarrow> next_has m' t k"
  shows "hm_get m t = hm_get m' t"
proof (cases "hm_get m t")
  case None
  with assms(1) show ?thesis by simp
next
  case (Some x)
  with assms(1) obtain y where y: "hm_get m' t = Some y" by (cases "hm_get m' t") auto
  have "loc_mask x = loc_mask y" "next_mask x = next_mask y"
    using assms(2,3) Some y by (auto intro!: bit_word_eqI simp: loc_has_def next_has_def)
  with Some y show ?thesis by simp
qed

text \<open>The passes as contributions.\<close>

definition contributes :: "nat \<Rightarrow> ((byte \<times> byte \<times> byte) \<times> byte option) list \<Rightarrow> contribution list" where
  "contributes i ws = map (\<lambda>(j, w, d). (hash3 w, loc_bit j, next_of d)) (enumerate i ws)"

lemma extract_masks_adds: "extract_masks_loop i ws m = add_all (contributes i ws) m"
  by (induction i ws m rule: extract_masks_loop.induct) (simp_all add: contributes_def)

definition lower_window :: "(byte \<times> byte \<times> byte) \<times> byte option \<Rightarrow> (byte \<times> byte \<times> byte) \<times> byte option" where
  "lower_window x = (lower3 (fst x), map_option lower_byte (snd x))"

lemma windows_lower: "windows (map lower_byte data) = map lower_window (windows data)"
  by (auto simp: windows_map lower_window_def lower3_def)

text \<open>Without an uppercase byte the lowered windows are the windows.\<close>

lemma lower_byte_id [simp]: "\<not> is_upper b \<Longrightarrow> lower_byte b = b"
  by (simp add: lower_byte_def)

lemma map_lower_id: "\<not> list_ex is_upper data \<Longrightarrow> map lower_byte data = data"
  by (induction data) auto

lemma merge_window_read:
  "hm_get (merge_window True i w d m) s = None \<longleftrightarrow> hm_get m s = None \<and> s \<noteq> hash3 w \<and> s \<noteq> hash3 (lower3 w)"
  "loc_has (merge_window True i w d m) s k \<longleftrightarrow>
     loc_has m s k \<or> (s = hash3 w \<or> s = hash3 (lower3 w)) \<and> bit (loc_bit i) k"
  "next_has (merge_window True i w d m) s k \<longleftrightarrow>
     next_has m s k \<or> s = hash3 w \<and> bit (next_of d) k \<or>
     s = hash3 (lower3 w) \<and> bit (next_of (map_option lower_byte d)) k"
  by (auto simp: merge_window_def Let_def bit_or_iff)

lemma contributes_simps [simp]:
  "contributes i [] = []"
  "contributes i (x # ws) = (hash3 (fst x), loc_bit i, next_of (snd x)) # contributes (Suc i) ws"
  by (simp_all add: contributes_def split: prod.split)

text \<open>What the pass over both cases adds, window by window.\<close>

fun both_cases :: "nat \<Rightarrow> ((byte \<times> byte \<times> byte) \<times> byte option) list \<Rightarrow> contribution list" where
  "both_cases i [] = []"
| "both_cases i (x # ws) = contributes i [x] @ contributes i [lower_window x] @ both_cases (Suc i) ws"

lemma both_cases_set: "set (both_cases i ws) = set (contributes i ws) \<union> set (contributes i (map lower_window ws))"
  by (induction ws arbitrary: i) auto

lemma merge_window_adds:
  "hm_get (merge_window True i w d m) = hm_get (add_all (contributes i [(w, d)] @ contributes i [lower_window (w, d)]) m)"
proof
  fix t
  show "hm_get (merge_window True i w d m) t = hm_get (add_all (contributes i [(w, d)] @ contributes i [lower_window (w, d)]) m) t"
    by (rule masks_eqI) (auto simp: merge_window_read lower_window_def)
qed

lemma entry_or_cong: "hm_get m = hm_get m' \<Longrightarrow> hm_get (entry_or t l n m) = hm_get (entry_or t l n m')"
  by (simp add: entry_or_def)

lemma add_all_cong: "hm_get m = hm_get m' \<Longrightarrow> hm_get (add_all cs m) = hm_get (add_all cs m')"
proof (induction cs arbitrary: m m')
  case (Cons c cs)
  obtain t l n where c: "c = (t, l, n)" by (cases c)
  show ?case unfolding c add_all_simps by (intro Cons.IH entry_or_cong Cons.prems)
qed simp

lemma merged_loop_adds: "hm_get (merged_loop True i ws m) = hm_get (add_all (both_cases i ws) m)"
proof (induction ws arbitrary: i m)
  case (Cons x ws)
  obtain w d where x: "x = (w, d)" by (cases x)
  have "hm_get (merged_loop True i (x # ws) m) = hm_get (add_all (both_cases (Suc i) ws) (merge_window True i w d m))"
    by (simp add: x Cons.IH)
  also have "\<dots> = hm_get (add_all (both_cases (Suc i) ws) (add_all (contributes i [x] @ contributes i [lower_window x]) m))"
    unfolding x by (rule add_all_cong [OF merge_window_adds])
  finally show ?case by simp
qed simp

lemma merged_loop_read:
  "hm_get (merged_loop True i ws m) s = hm_get (add_all (contributes i (map lower_window ws)) (add_all (contributes i ws) m)) s"
  unfolding merged_loop_adds
  by (rule masks_eqI) (auto simp: add_all_read both_cases_set)

lemma merged_loop_lower_only: "merged_loop False i ws m = add_all (contributes i ws) m"
  by (induction ws arbitrary: i m) (auto simp: merge_window_def Let_def)

lemma merged_read:
  "hm_get (extract_merged_masks c) t = hm_get (add_all (contributes 0 (windows (map lower_byte c))) (extract_with_masks c)) t"
proof (cases "list_ex is_upper c")
  case True
  then show ?thesis
    by (simp add: extract_merged_masks_def extract_with_masks_def merged_loop_read extract_masks_adds windows_lower)
next
  case False
  then show ?thesis
    by (intro masks_eqI) (auto simp: extract_merged_masks_def extract_with_masks_def extract_masks_adds map_lower_id
        merged_loop_lower_only add_all_read)
qed

lemma merged_parts:
  "hm_get (extract_merged_masks c) t = None \<longleftrightarrow>
     hm_get (extract_with_masks c) t = None \<and> hm_get (extract_with_masks (map lower_byte c)) t = None"
  "loc_has (extract_merged_masks c) t k \<longleftrightarrow>
     loc_has (extract_with_masks c) t k \<or> loc_has (extract_with_masks (map lower_byte c)) t k"
  "next_has (extract_merged_masks c) t k \<longleftrightarrow>
     next_has (extract_with_masks c) t k \<or> next_has (extract_with_masks (map lower_byte c)) t k"
proof -
  let ?cs = "contributes 0 (windows c)" and ?ds = "contributes 0 (windows (map lower_byte c))"
  have e: "extract_with_masks c = add_all ?cs []" "extract_with_masks (map lower_byte c) = add_all ?ds []"
    by (simp_all add: extract_with_masks_def extract_masks_adds)
  have m: "loc_has (extract_merged_masks c) t k \<longleftrightarrow> loc_has (add_all ?ds (add_all ?cs [])) t k"
    "next_has (extract_merged_masks c) t k \<longleftrightarrow> next_has (add_all ?ds (add_all ?cs [])) t k"
    unfolding loc_has_def next_has_def merged_read e by simp_all
  show "hm_get (extract_merged_masks c) t = None \<longleftrightarrow>
      hm_get (extract_with_masks c) t = None \<and> hm_get (extract_with_masks (map lower_byte c)) t = None"
    unfolding merged_read unfolding e by (simp add: add_all_read)
  show "loc_has (extract_merged_masks c) t k \<longleftrightarrow>
      loc_has (extract_with_masks c) t k \<or> loc_has (extract_with_masks (map lower_byte c)) t k"
    unfolding m e by (simp add: add_all_read)
  show "next_has (extract_merged_masks c) t k \<longleftrightarrow>
      next_has (extract_with_masks c) t k \<or> next_has (extract_with_masks (map lower_byte c)) t k"
    unfolding m e by (simp add: add_all_read)
qed

text \<open>Merging two maps of masks.\<close>

fun merge_options :: "trigram_masks option \<Rightarrow> trigram_masks option \<Rightarrow> trigram_masks option" where
  "merge_options (Some x) (Some y) = Some (or_masks (loc_mask y) (next_mask y) x)"
| "merge_options None y = y"
| "merge_options x None = x"

text \<open>
  C21. The single pass over a file that folds both cases together gives each trigram the masks of two
  separate passes merged: one over the file, one over its lowercased copy.
\<close>

theorem merged_masks_two_passes:
  "hm_get (extract_merged_masks content) t =
     merge_options (hm_get (extract_with_masks content) t) (hm_get (extract_with_masks (map lower_byte content)) t)"
proof -
  let ?a = "extract_with_masks content" and ?b = "extract_with_masks (map lower_byte content)"
  let ?m = "case merge_options (hm_get ?a t) (hm_get ?b t) of None \<Rightarrow> [] | Some x \<Rightarrow> [(t, x)]"
  have m: "hm_get ?m t = merge_options (hm_get ?a t) (hm_get ?b t)" by (simp split: option.split)
  have "hm_get (extract_merged_masks content) t = hm_get ?m t"
  proof (rule masks_eqI)
    show "hm_get (extract_merged_masks content) t = None \<longleftrightarrow> hm_get ?m t = None"
      unfolding m merged_parts by (cases "hm_get ?a t"; cases "hm_get ?b t") simp_all
    show "loc_has (extract_merged_masks content) t k \<longleftrightarrow> loc_has ?m t k" for k
      unfolding merged_parts unfolding loc_has_def m by (cases "hm_get ?a t"; cases "hm_get ?b t") (auto simp: or_masks_def bit_or_iff)
    show "next_has (extract_merged_masks content) t k \<longleftrightarrow> next_has ?m t k" for k
      unfolding merged_parts unfolding next_has_def m by (cases "hm_get ?a t"; cases "hm_get ?b t") (auto simp: or_masks_def bit_or_iff)
  qed
  with m show ?thesis by simp
qed

text \<open>The keys are the trigrams of the windows, in either case.\<close>

lemma extract_keys: "hm_get (extract_with_masks c) t = None \<longleftrightarrow> t \<notin> hash3 ` fst ` set (windows c)"
proof -
  have "fst ` set (contributes i ws) = hash3 ` fst ` set ws" for i ws by (induction ws arbitrary: i) auto
  then show ?thesis by (simp add: extract_with_masks_def extract_masks_adds add_all_read)
qed

lemma extract_loop_set: "set (extract_loop ws result) = set result \<union> hash3 ` fst ` set ws"
  by (induction ws result rule: extract_loop.induct) auto

lemma extract_trigrams_set: "set (extract_trigrams c) = hash3 ` fst ` set (windows c)"
  by (simp add: extract_trigrams_def extract_loop_set)

subsection \<open>What the masks of a file admit\<close>

lemma push_bit_one_bit: "k < 8 \<Longrightarrow> bit (push_bit k 1 :: byte) k"
  by (simp add: bit_simps)

lemma next_bit_index: "unat (drop_bit 5 (b * 0x9E) AND 0x07 :: byte) < 8"
proof -
  have "drop_bit 5 (b * 0x9E) AND 0x07 \<le> (0x07 :: byte)"
    by (simp add: word_and_le1)
  then have "unat (drop_bit 5 (b * 0x9E) AND 0x07) \<le> unat (0x07 :: byte)"
    by (rule word_le_nat_alt [THEN iffD1])
  then show ?thesis by simp
qed

definition next_index :: "byte \<Rightarrow> nat" where
  "next_index b = unat (drop_bit 5 (b * 0x9E) AND 0x07)"

lemma bit_next_bit [simp]: "bit (next_bit b) k \<longleftrightarrow> k = next_index b"
  using next_bit_index [of b] by (auto simp: next_bit_def next_index_def bit_simps)

lemma bit_loc_bit [simp]: "bit (loc_bit i) k \<longleftrightarrow> k = i mod 8"
  by (auto simp: loc_bit_def bit_simps)

lemma and_bit_nonzero: "bit x k \<Longrightarrow> bit y k \<Longrightarrow> (x :: byte) AND y \<noteq> 0"
  by (metis bit_0_eq bit_and_iff bot_apply bot_bool_def)

lemma bit_rotate_left: "bit x (i mod 8) \<Longrightarrow> bit (rotate_left x) (Suc i mod 8)"
proof -
  assume x: "bit x (i mod 8)"
  show ?thesis
  proof (cases "i mod 8 = 7")
    case True
    then have "Suc i mod 8 = 0" by presburger
    with True x show ?thesis by (simp add: rotate_left_def bit_simps)
  next
    case False
    then have "Suc i mod 8 = Suc (i mod 8)" "i mod 8 < 7" by presburger+
    with x show ?thesis unfolding rotate_left_def bit_or_iff bit_push_bit_iff by simp
  qed
qed

lemma in_contributes:
  "i < length ws \<Longrightarrow> (hash3 (fst (ws ! i)), loc_bit (k + i), next_of (snd (ws ! i))) \<in> set (contributes k ws)"
proof (induction ws arbitrary: i k)
  case (Cons x ws)
  show ?case
  proof (cases i)
    case (Suc j)
    with Cons.prems Cons.IH [of j "Suc k"] show ?thesis by simp
  qed simp
qed simp

text \<open>The masks that a file keeps for the window at an offset admit that offset and the byte that follows.\<close>

definition admits_window :: "mask_map \<Rightarrow> nat \<Rightarrow> (byte \<times> byte \<times> byte) \<times> byte option \<Rightarrow> bool" where
  "admits_window m i x \<longleftrightarrow> (case hm_get m (hash3 (fst x)) of
       None \<Rightarrow> False
     | Some k \<Rightarrow> bit (loc_mask k) (i mod 8) \<and> (\<forall>b. snd x = Some b \<longrightarrow> check_next_byte k b))"

lemma check_next_byteI: "bit (next_mask k) (next_index b) \<Longrightarrow> check_next_byte k b"
  unfolding check_next_byte_def by (rule and_bit_nonzero [of _ "next_index b"]) simp_all

lemma admits_windowI:
  assumes "hm_get m (hash3 (fst x)) \<noteq> None" "loc_has m (hash3 (fst x)) (i mod 8)"
    and "\<And>b. snd x = Some b \<Longrightarrow> next_has m (hash3 (fst x)) (next_index b)"
  shows "admits_window m i x"
  using assms by (auto simp: admits_window_def loc_has_def next_has_def split: option.splits intro: check_next_byteI)

lemma extract_admits:
  assumes "i < length (windows c)"
  shows "hm_get (extract_with_masks c) (hash3 (fst (windows c ! i))) \<noteq> None"
    and "loc_has (extract_with_masks c) (hash3 (fst (windows c ! i))) (i mod 8)"
    and "snd (windows c ! i) = Some b \<Longrightarrow> next_has (extract_with_masks c) (hash3 (fst (windows c ! i))) (next_index b)"
proof -
  have c: "(hash3 (fst (windows c ! i)), loc_bit i, next_of (snd (windows c ! i))) \<in> set (contributes 0 (windows c))"
    using in_contributes [OF assms, of 0] by simp
  show "hm_get (extract_with_masks c) (hash3 (fst (windows c ! i))) \<noteq> None"
    unfolding extract_with_masks_def extract_masks_adds add_all_read using image_eqI [OF _ c, of _ fst] by simp
  show "loc_has (extract_with_masks c) (hash3 (fst (windows c ! i))) (i mod 8)"
    using c by (force simp: extract_with_masks_def extract_masks_adds add_all_read)
  show "next_has (extract_with_masks c) (hash3 (fst (windows c ! i))) (next_index b)" if "snd (windows c ! i) = Some b"
    using c that by (force simp: extract_with_masks_def extract_masks_adds add_all_read next_of_def)
qed

lemma merged_admits:
  assumes "f = id \<or> f = lower_byte" "i < length (windows c)"
  shows "admits_window (extract_merged_masks c) i (windows (map f c) ! i)"
proof -
  have i: "i < length (windows (map f c))" using assms(2) by simp
  from assms(1) show ?thesis
  proof
    assume f: "f = id"
    with extract_admits [OF assms(2)] show ?thesis
      by (intro admits_windowI) (simp_all only: f list.map_id merged_parts id_apply, simp_all)
  next
    assume f: "f = lower_byte"
    with extract_admits [OF i] show ?thesis
      by (intro admits_windowI) (simp_all only: f merged_parts, simp_all)
  qed
qed

text \<open>
  A text that occurs in a file, in the given case or with its ASCII letters lowered, passes both checks:
  the masks of the windows of the text, in order, are adjacent, and each admits the byte that
  follows it in the text.
\<close>

lemma occurrence_admitted:
  assumes "f = id \<or> f = lower_byte" "map f c = u @ w @ v" "i < length (windows w)"
  shows "admits_window (extract_merged_masks c) (length u + i) (windows w ! i)"
proof -
  let ?x = "windows (map f c) ! (length u + i)"
  have inf: "length u + i < length (windows (map f c)) \<and> fst ?x = fst (windows w ! i) \<and>
      (snd (windows w ! i) = Some d \<longrightarrow> snd ?x = Some d)" for d
    unfolding assms(2) by (rule windows_infix [OF assms(3)])
  then have "length u + i < length (windows c)" by simp
  from merged_admits [OF assms(1) this] inf show ?thesis
    by (auto simp: admits_window_def split: option.splits)
qed

lemma check_adjacencyI:
  "(\<And>i. i < length xs \<Longrightarrow> bit (loc_mask (snd (xs ! i))) ((k + i) mod 8)) \<Longrightarrow> check_adjacency xs"
proof (induction xs arbitrary: k rule: check_adjacency.induct)
  case (1 s p t n rest)
  have "bit (loc_mask p) (k mod 8)" "bit (loc_mask n) (Suc k mod 8)"
    using "1.prems" [of 0] "1.prems" [of 1] by simp_all
  then have "rotate_left (loc_mask p) AND loc_mask n \<noteq> 0"
    by (rule and_bit_nonzero [OF bit_rotate_left])
  moreover have "check_adjacency ((t, n) # rest)"
  proof (rule "1.IH" [of "Suc k"])
    fix i assume "i < length ((t, n) # rest)"
    then show "bit (loc_mask (snd (((t, n) # rest) ! i))) ((Suc k + i) mod 8)"
      using "1.prems" [of "Suc i"] by simp
  qed
  ultimately show ?case by simp
qed auto

definition masks_along :: "mask_map \<Rightarrow> bytes \<Rightarrow> (trigram \<times> trigram_masks) list" where
  "masks_along m w = map (\<lambda>x. (hash3 (fst x), the (hm_get m (hash3 (fst x))))) (windows w)"

theorem occurrence_passes_masks:
  assumes "f = id \<or> f = lower_byte" "map f content = u @ w @ v"
  shows "check_adjacency (masks_along (extract_merged_masks content) w) \<and>
         (\<forall>(x, d) \<in> set (windows w). \<exists>k. hm_get (extract_merged_masks content) (hash3 x) = Some k \<and>
            (\<forall>b. d = Some b \<longrightarrow> check_next_byte k b))"
proof
  note adm = occurrence_admitted [OF assms]
  show "check_adjacency (masks_along (extract_merged_masks content) w)"
  proof (rule check_adjacencyI)
    fix i assume "i < length (masks_along (extract_merged_masks content) w)"
    then have i: "i < length (windows w)" by (simp add: masks_along_def)
    with adm [OF i] show "bit (loc_mask (snd (masks_along (extract_merged_masks content) w ! i))) ((length u + i) mod 8)"
      by (auto simp: masks_along_def admits_window_def split: option.splits)
  qed
  show "\<forall>(x, d) \<in> set (windows w). \<exists>k. hm_get (extract_merged_masks content) (hash3 x) = Some k \<and>
      (\<forall>b. d = Some b \<longrightarrow> check_next_byte k b)"
  proof
    fix y assume "y \<in> set (windows w)"
    then obtain i where "i < length (windows w)" "y = windows w ! i" by (auto simp: in_set_conv_nth)
    with adm [of i] show "case y of (x, d) \<Rightarrow> \<exists>k. hm_get (extract_merged_masks content) (hash3 x) = Some k \<and>
        (\<forall>b. d = Some b \<longrightarrow> check_next_byte k b)"
      by (auto simp: admits_window_def split: option.splits prod.splits)
  qed
qed

end
