(* ===== verification/Tgrep_Live_Facts.thy ===== *)
theory Tgrep_Live_Facts
  imports Tgrep_Live Tgrep_Trigram_Facts
begin

unbundle bit_operations_syntax

text \<open>
  The overlay is a map from paths to the masks of their trigrams, with a set of deleted paths: every operation
  keeps the invariant of its five tables and is the obvious update of that map. Ids are fresh up to
  \<open>2 ^ 31\<close> insertions, where the counter reaches the bit that marks an overlay id.
\<close>

subsection \<open>Filtered maps\<close>

lemma hm_ok_filter: "hm_ok m \<Longrightarrow> hm_ok (filter P m)"
  by (simp add: hm_ok_def distinct_map_filter)

lemma hm_ok_map_snd: "hm_ok (map (\<lambda>(k, v). (k, f v)) m) \<longleftrightarrow> hm_ok m"
  by (simp add: hm_ok_def comp_def split_def)

lemma hm_get_filter_key: "hm_get (filter (\<lambda>(k, v). P k) m) k = (if P k then hm_get m k else None)"
  by (induction m) auto

lemma hm_get_filter_pair: "hm_get (filter (\<lambda>((t, j), m). P j) ms) (t, j) = (if P j then hm_get ms (t, j) else None)"
  by (induction ms) auto

lemma hm_get_nonempty:
  "hm_ok m \<Longrightarrow> hm_get (filter (\<lambda>(k, s). s \<noteq> []) (map (\<lambda>(k, s). (k, f s)) m)) k =
     (case hm_get m k of Some s \<Rightarrow> if f s = [] then None else Some (f s) | None \<Rightarrow> None)"
proof (induction m)
  case (Cons x m)
  obtain j s where x: "x = (j, s)" by (cases x)
  have ok: "hm_ok m" "j \<notin> fst ` set m" using Cons.prems by (auto simp: hm_ok_def x)
  then have "hm_get m j = None" by (simp add: map_of_eq_None_iff)
  with Cons.IH [OF ok(1)] show ?case by (auto simp: x)
qed simp

lemma hs_facts [simp]:
  "set (hs_insert x s) = insert x (set s)" "set (hs_remove x s) = set s - {x}"
  "distinct s \<Longrightarrow> distinct (hs_insert x s)" "distinct s \<Longrightarrow> distinct (hs_remove x s)"
  by (auto simp: hs_insert_def hs_remove_def)

subsection \<open>The invariant\<close>

definition live_ok :: "live_index \<Rightarrow> bool" where
  "live_ok l \<longleftrightarrow>
     hm_ok (inverted l) \<and> hm_ok (live_masks l) \<and> hm_ok (live_paths l) \<and> hm_ok (path_to_id l) \<and>
     (\<forall>t s. hm_get (inverted l) t = Some s \<longrightarrow> distinct s \<and> s \<noteq> []) \<and>
     (\<forall>t i. i \<in> set (live_lookup l t) \<longrightarrow> hm_get (live_paths l) i \<noteq> None) \<and>
     (\<forall>t i m. hm_get (live_masks l) (t, i) = Some m \<longrightarrow> i \<in> set (live_lookup l t)) \<and>
     (\<forall>p i. hm_get (path_to_id l) p = Some i \<longleftrightarrow> hm_get (live_paths l) i = Some p) \<and>
     (\<forall>i p. hm_get (live_paths l) i = Some p \<longrightarrow> is_overlay_id i \<and> unat (i AND NOT overlay_bit) < unat (next_id l)) \<and>
     distinct (deleted_paths l) \<and> (\<forall>p \<in> set (deleted_paths l). hm_get (path_to_id l) p = None)"

text \<open>The masks that the overlay keeps for each trigram of a path.\<close>

definition live_view :: "live_index \<Rightarrow> bytes \<Rightarrow> (trigram \<Rightarrow> trigram_masks option) option" where
  "live_view l p =
     map_option (\<lambda>i t. if i \<in> set (live_lookup l t) then Some (get_masks l t i) else None) (hm_get (path_to_id l) p)"

lemma new_live_ok [simp]: "live_ok new_live" "live_view new_live = (\<lambda>p. None)"
  by (simp_all add: live_ok_def new_live_def live_view_def fun_eq_iff live_lookup_def)

lemma live_okD:
  assumes "live_ok l"
  shows "hm_ok (inverted l)" "hm_ok (live_masks l)" "hm_ok (live_paths l)" "hm_ok (path_to_id l)"
    and "hm_get (inverted l) t = Some s \<Longrightarrow> distinct s \<and> s \<noteq> []"
    and "i \<in> set (live_lookup l t) \<Longrightarrow> hm_get (live_paths l) i \<noteq> None"
    and "hm_get (live_masks l) (t, i) = Some m \<Longrightarrow> i \<in> set (live_lookup l t)"
    and "hm_get (path_to_id l) p = Some i \<longleftrightarrow> hm_get (live_paths l) i = Some p"
    and "hm_get (live_paths l) i = Some p \<Longrightarrow> is_overlay_id i \<and> unat (i AND NOT overlay_bit) < unat (next_id l)"
    and "distinct (deleted_paths l)" "p \<in> set (deleted_paths l) \<Longrightarrow> hm_get (path_to_id l) p = None"
  using assms unfolding live_ok_def by blast+

lemma live_ok_inj:
  "live_ok l \<Longrightarrow> hm_get (path_to_id l) p = Some i \<Longrightarrow> hm_get (path_to_id l) q = Some i \<Longrightarrow> p = q"
  using live_okD(8) [of l] by (metis option.inject)

subsection \<open>Removing a file\<close>

lemma remove_lookup:
  "live_ok l \<Longrightarrow> live_lookup (remove_file_by_id i l) t = hs_remove i (live_lookup l t)"
  using live_okD(1) [of l]
  by (simp add: live_lookup_def remove_file_by_id_def hm_get_nonempty hs_remove_def split: option.split)

lemma remove_masks:
  "hm_get (live_masks (remove_file_by_id i l)) (t, j) = (if j \<noteq> i then hm_get (live_masks l) (t, j) else None)"
  by (simp add: remove_file_by_id_def hm_get_filter_pair)

lemma remove_fields [simp]:
  "live_paths (remove_file_by_id i l) = hm_del i (live_paths l)" "deleted_paths (remove_file_by_id i l) = deleted_paths l"
  "next_id (remove_file_by_id i l) = next_id l"
  by (simp_all add: remove_file_by_id_def)

text \<open>Removing the ids of a set of paths, however the tables are rebuilt.\<close>

lemma remove_ids_facts:
  assumes ok: "live_ok l"
    and maps: "hm_ok (inverted r)" "hm_ok (live_masks r)" "hm_ok (live_paths r)" "hm_ok (path_to_id r)"
    and sets: "\<And>t s. hm_get (inverted r) t = Some s \<Longrightarrow> distinct s \<and> s \<noteq> []"
    and pid: "\<And>q. hm_get (path_to_id r) q = (if q \<in> P then None else hm_get (path_to_id l) q)"
    and ids: "\<And>j. hm_get (live_paths r) j = (if \<exists>p \<in> P. hm_get (path_to_id l) p = Some j then None else hm_get (live_paths l) j)"
    and look: "\<And>t. set (live_lookup r t) = {j \<in> set (live_lookup l t). \<forall>p \<in> P. hm_get (path_to_id l) p \<noteq> Some j}"
    and msk: "\<And>t j. hm_get (live_masks r) (t, j) =
      (if \<exists>p \<in> P. hm_get (path_to_id l) p = Some j then None else hm_get (live_masks l) (t, j))"
    and same: "deleted_paths r = deleted_paths l" "next_id r = next_id l"
  shows "live_ok r \<and> live_view r = (\<lambda>q. if q \<in> P then None else live_view l q)"
proof
  show "live_ok r"
    unfolding live_ok_def
  proof (intro conjI allI impI ballI)
    show "distinct s" "s \<noteq> []" if "hm_get (inverted r) t = Some s" for t s using sets [OF that] by simp_all
    show "hm_get (live_paths r) j \<noteq> None" if "j \<in> set (live_lookup r t)" for t j
      using that live_okD(6) [OF ok, of j t] by (auto simp: look ids)
    show "j \<in> set (live_lookup r t)" if "hm_get (live_masks r) (t, j) = Some m" for t j m
      using that live_okD(7) [OF ok, of t j m] by (auto simp: look msk split: if_splits)
    show "hm_get (path_to_id r) q = Some j \<longleftrightarrow> hm_get (live_paths r) j = Some q" for q j
    proof (cases "\<exists>p \<in> P. hm_get (path_to_id l) p = Some j")
      case True
      then have "hm_get (path_to_id r) q \<noteq> Some j" using live_ok_inj [OF ok, of q j] by (auto simp: pid)
      with True show ?thesis by (simp add: ids)
    next
      case False
      then have "hm_get (path_to_id r) q = Some j \<longleftrightarrow> hm_get (path_to_id l) q = Some j" by (auto simp: pid)
      with False live_okD(8) [OF ok, of q j] show ?thesis by (simp add: ids)
    qed
    show "is_overlay_id j" "unat (j AND NOT overlay_bit) < unat (next_id r)" if "hm_get (live_paths r) j = Some q" for j q
      using that live_okD(9) [OF ok, of j q] by (simp_all add: ids same split: if_splits)
    show "distinct (deleted_paths r)" using live_okD(10) [OF ok] by (simp add: same)
    show "hm_get (path_to_id r) q = None" if "q \<in> set (deleted_paths r)" for q
      using that live_okD(11) [OF ok, of q] by (simp add: same pid)
  qed (rule maps)+
  show "live_view r = (\<lambda>q. if q \<in> P then None else live_view l q)"
  proof
    fix q show "live_view r q = (if q \<in> P then None else live_view l q)"
    proof (cases "q \<in> P")
      case False
      have "map_option (\<lambda>i t. if i \<in> set (live_lookup r t) then Some (get_masks r t i) else None) (hm_get (path_to_id l) q) =
          map_option (\<lambda>i t. if i \<in> set (live_lookup l t) then Some (get_masks l t i) else None) (hm_get (path_to_id l) q)"
      proof (rule option.map_cong0)
        fix j assume "j \<in> set_option (hm_get (path_to_id l) q)"
        then have "hm_get (path_to_id l) q = Some j" by simp
        then have "\<not> (\<exists>p \<in> P. hm_get (path_to_id l) p = Some j)" using live_ok_inj [OF ok] False by blast
        then show "(\<lambda>t. if j \<in> set (live_lookup r t) then Some (get_masks r t j) else None) =
            (\<lambda>t. if j \<in> set (live_lookup l t) then Some (get_masks l t j) else None)"
          by (auto simp: fun_eq_iff look get_masks_def msk)
      qed
      with False show ?thesis by (simp add: live_view_def pid)
    qed (simp add: live_view_def pid)
  qed
qed

lemma filtered_sets:
  assumes ok: "live_ok l" and s: "hm_get (filter (\<lambda>(t, s). s \<noteq> []) (map (\<lambda>(t, s). (t, filter P s)) (inverted l))) t = Some s"
  shows "distinct s \<and> s \<noteq> []"
proof (cases "hm_get (inverted l) t")
  case None
  with s live_okD(1) [OF ok] show ?thesis by (simp add: hm_get_nonempty)
next
  case (Some s')
  with s live_okD(1) [OF ok] have "s = filter P s'" "filter P s' \<noteq> []"
    by (simp_all add: hm_get_nonempty split: if_splits)
  with live_okD(5) [OF ok Some] show ?thesis by simp
qed

lemma drop_path_facts:
  assumes ok: "live_ok l"
  shows "live_ok (drop_path p l) \<and> live_view (drop_path p l) = (live_view l)(p := None) \<and>
    deleted_paths (drop_path p l) = deleted_paths l \<and> next_id (drop_path p l) = next_id l"
proof (cases "hm_get (path_to_id l) p")
  case None
  then have "live_view l p = None" by (simp add: live_view_def)
  with ok None show ?thesis by (simp add: drop_path_def fun_upd_idem)
next
  case (Some i)
  let ?r = "remove_file_by_id i l"
  have ip: "hm_get (live_paths l) i = Some p" using Some live_okD(8) [OF ok] by simp
  have pid: "path_to_id ?r = hm_del p (path_to_id l)" by (simp add: remove_file_by_id_def ip)
  have "live_ok ?r \<and> live_view ?r = (\<lambda>q. if q \<in> {p} then None else live_view l q)"
  proof (rule remove_ids_facts [OF ok])
    show "distinct s \<and> s \<noteq> []" if "hm_get (inverted ?r) t = Some s" for t s
      using filtered_sets [OF ok, of "\<lambda>j. j \<noteq> i" t s] that by (simp add: remove_file_by_id_def hs_remove_def)
    show "hm_ok (inverted ?r)" "hm_ok (live_masks ?r)"
      using live_okD(1,2) [OF ok] unfolding remove_file_by_id_def by (simp_all add: hm_ok_filter hm_ok_map_snd)
  qed (use live_okD(3,4) [OF ok] Some in \<open>auto simp: pid remove_masks remove_lookup [OF ok]\<close>)
  then show ?thesis using Some by (simp add: drop_path_def fun_upd_def)
qed

subsection \<open>Removing many files\<close>

lemma take_ids_facts:
  assumes "take_ids ps l ids = (r, ids')"
    and "\<And>p i. hm_get (path_to_id l) p = Some i \<longleftrightarrow> hm_get (live_paths l) i = Some p"
  shows "(\<forall>q. hm_get (path_to_id r) q = (if q \<in> set ps then None else hm_get (path_to_id l) q)) \<and>
    (\<forall>j. hm_get (live_paths r) j = (if \<exists>p \<in> set ps. hm_get (path_to_id l) p = Some j then None else hm_get (live_paths l) j)) \<and>
    set ids' = set ids \<union> {j. \<exists>p \<in> set ps. hm_get (path_to_id l) p = Some j} \<and>
    inverted r = inverted l \<and> live_masks r = live_masks l \<and> deleted_paths r = deleted_paths l \<and> next_id r = next_id l \<and>
    (hm_ok (path_to_id l) \<longrightarrow> hm_ok (path_to_id r)) \<and> (hm_ok (live_paths l) \<longrightarrow> hm_ok (live_paths r))"
  using assms
proof (induction ps l ids rule: take_ids.induct)
  case (2 p ps l ids)
  show ?case
  proof (cases "hm_get (path_to_id l) p")
    case None
    have t: "take_ids ps l ids = (r, ids')" using "2.prems"(1) None by simp
    have ex: "(\<exists>p' \<in> set (p # ps). hm_get (path_to_id l) p' = Some j) \<longleftrightarrow> (\<exists>p' \<in> set ps. hm_get (path_to_id l) p' = Some j)" for j
      using None by simp
    from "2.IH"(1) [OF None t "2.prems"(2)] show ?thesis
      unfolding ex by (intro conjI allI) (auto simp: None)
  next
    case (Some i)
    let ?l = "l\<lparr>path_to_id := hm_del p (path_to_id l), live_paths := hm_del i (live_paths l)\<rparr>"
    have inj: "hm_get (path_to_id l) q = Some i \<longleftrightarrow> q = p" for q using Some "2.prems"(2) [of q i] "2.prems"(2) [of p i] by auto
    have inv: "hm_get (path_to_id ?l) q = Some j \<longleftrightarrow> hm_get (live_paths ?l) j = Some q" for q j
      using "2.prems"(2) [of q j] "2.prems"(2) [of q i] inj [of q] "2.prems"(2) [of p j] Some by auto
    have t: "take_ids ps ?l (hs_insert i ids) = (r, ids')" using "2.prems"(1) Some by simp
    define E where "E j \<longleftrightarrow> (\<exists>p' \<in> set ps. hm_get (path_to_id ?l) p' = Some j)" for j
    have ex: "(\<exists>p' \<in> set (p # ps). hm_get (path_to_id l) p' = Some j) \<longleftrightarrow> j = i \<or> E j" for j
    proof (cases "j = i")
      case True
      with Some show ?thesis by simp
    next
      case False
      then have "hm_get (path_to_id l) p \<noteq> Some j" using Some by simp
      moreover have "hm_get (path_to_id ?l) p' = Some j \<longleftrightarrow> p' \<noteq> p \<and> hm_get (path_to_id l) p' = Some j" for p' by simp
      ultimately show ?thesis using False unfolding E_def list.set by blast
    qed
    note IH = "2.IH"(2) [OF Some t inv, folded E_def]
    have "{j. j = i \<or> E j} = insert i {j. E j}" by auto
    with IH show ?thesis
      unfolding ex by (intro conjI allI) simp_all
  qed
qed simp

theorem batch_remove_refines:
  assumes ok: "live_ok l"
  shows "live_ok (batch_remove_overlay_entries ps l) \<and>
    live_view (batch_remove_overlay_entries ps l) = (\<lambda>p. if p \<in> set ps then None else live_view l p) \<and>
    deleted_paths (batch_remove_overlay_entries ps l) = deleted_paths l \<and> next_id (batch_remove_overlay_entries ps l) = next_id l"
proof (cases "ps = []")
  case True
  with ok show ?thesis by (simp add: batch_remove_overlay_entries_def)
next
  case False
  obtain r ids where t: "take_ids ps l [] = (r, ids)" by (cases "take_ids ps l []")
  note f = take_ids_facts [OF t live_okD(8) [OF ok]]
  then have pid: "\<And>q. hm_get (path_to_id r) q = (if q \<in> set ps then None else hm_get (path_to_id l) q)"
    and lp: "\<And>j. hm_get (live_paths r) j = (if \<exists>p \<in> set ps. hm_get (path_to_id l) p = Some j then None else hm_get (live_paths l) j)"
    and ids: "set ids = {j. \<exists>p \<in> set ps. hm_get (path_to_id l) p = Some j}"
    and same: "inverted r = inverted l" "live_masks r = live_masks l" "deleted_paths r = deleted_paths l" "next_id r = next_id l"
    and oks: "hm_ok (path_to_id r)" "hm_ok (live_paths r)"
    using live_okD(3,4) [OF ok] by simp_all
  define b where "b = batch_remove_overlay_entries ps l"
  have gone: "\<exists>p \<in> set ps. hm_get (path_to_id l) p = Some i" if e: "path_to_id r = []" and n: "hm_get (live_paths l) i \<noteq> None" for i
  proof -
    from n obtain p where "hm_get (live_paths l) i = Some p" by auto
    then have p: "hm_get (path_to_id l) p = Some i" using live_okD(8) [OF ok] by simp
    with pid [of p] e show ?thesis by (auto split: if_splits)
  qed
  have b: "b = (if ids = [] then r else if path_to_id r = [] then r\<lparr>inverted := [], live_masks := []\<rparr>
      else r\<lparr>inverted := filter (\<lambda>(t, s). s \<noteq> []) (map (\<lambda>(t, s). (t, filter (\<lambda>i. i \<notin> set ids) s)) (inverted l)),
             live_masks := filter (\<lambda>((t, i), m). i \<notin> set ids) (live_masks l)\<rparr>)"
    using False by (simp add: b_def batch_remove_overlay_entries_def t same)
  have flds: "path_to_id b = path_to_id r" "live_paths b = live_paths r" "deleted_paths b = deleted_paths l" "next_id b = next_id l"
    by (simp_all add: b same)
  have look: "set (live_lookup b t) = {j \<in> set (live_lookup l t). j \<notin> set ids}" for t
  proof -
    consider "ids = []" | "path_to_id r = []" "ids \<noteq> []" | "path_to_id r \<noteq> []" "ids \<noteq> []" by auto
    then show ?thesis
    proof cases
      case 2
      have "j \<in> set ids" if "j \<in> set (live_lookup l t)" for j
        using gone [OF 2(1) live_okD(6) [OF ok that]] ids by auto
      with 2 show ?thesis by (auto simp: b live_lookup_def)
    next
      case 3
      then show ?thesis using live_okD(1) [OF ok] by (auto simp: b live_lookup_def hm_get_nonempty filter_empty_conv split: option.split)
    qed (simp add: b same live_lookup_def)
  qed
  have msk: "hm_get (live_masks b) (t, j) = (if j \<in> set ids then None else hm_get (live_masks l) (t, j))" for t j
  proof -
    consider "ids = []" | "path_to_id r = []" "ids \<noteq> []" | "path_to_id r \<noteq> []" "ids \<noteq> []" by auto
    then show ?thesis
    proof cases
      case 2
      have "j \<in> set ids" if "hm_get (live_masks l) (t, j) = Some m" for m
        using gone [OF 2(1) live_okD(6) [OF ok live_okD(7) [OF ok that]]] ids by auto
      with 2 show ?thesis by (cases "hm_get (live_masks l) (t, j)") (auto simp: b)
    qed (simp_all add: b same hm_get_filter_pair)
  qed
  have "live_ok b \<and> live_view b = (\<lambda>q. if q \<in> set ps then None else live_view l q)"
  proof (rule remove_ids_facts [OF ok])
    show "distinct s \<and> s \<noteq> []" if "hm_get (inverted b) t = Some s" for t s
      using that filtered_sets [OF ok, of "\<lambda>i. i \<notin> set ids" t s] live_okD(5) [OF ok, of t s]
      by (simp add: b same split: if_splits)
    show "hm_ok (inverted b)" "hm_ok (live_masks b)"
      using live_okD(1,2) [OF ok] by (simp_all add: b same hm_ok_filter hm_ok_map_snd)
    show "set (live_lookup b t) = {j \<in> set (live_lookup l t). \<forall>p \<in> set ps. hm_get (path_to_id l) p \<noteq> Some j}" for t
      unfolding look ids by auto
    show "hm_get (live_masks b) (t, j) =
        (if \<exists>p \<in> set ps. hm_get (path_to_id l) p = Some j then None else hm_get (live_masks l) (t, j))" for t j
      unfolding msk ids by simp
  qed (simp_all add: flds oks pid lp)
  then show ?thesis using flds unfolding b_def by auto
qed

subsection \<open>Adding a file\<close>

lemma add_posting_get:
  "hm_get (add_posting i t ix) t' =
     (if t' = t then Some (hs_insert i (case hm_get ix t of Some s \<Rightarrow> s | None \<Rightarrow> [])) else hm_get ix t')"
  by (simp add: add_posting_def)

lemma add_posting_ok: "hm_ok ix \<Longrightarrow> hm_ok (add_posting i t ix)"
  by (simp add: add_posting_def)

text \<open>What adding the postings of a file does to what is read of the tables.\<close>

lemma add_postings_facts:
  "hm_ok (inverted l) \<Longrightarrow> hm_ok (inverted (add_postings i per_tri l))"
  "hm_ok (live_masks l) \<Longrightarrow> hm_ok (live_masks (add_postings i per_tri l))"
  "live_paths (add_postings i per_tri l) = live_paths l" "path_to_id (add_postings i per_tri l) = path_to_id l"
  "deleted_paths (add_postings i per_tri l) = deleted_paths l" "next_id (add_postings i per_tri l) = next_id l"
  "dirty_count (add_postings i per_tri l) = dirty_count l"
  by (induction i per_tri l rule: add_postings.induct) (simp_all add: add_posting_ok)

lemma add_postings_lookup:
  "set (live_lookup (add_postings i per_tri l) t) = set (live_lookup l t) \<union> (if t \<in> fst ` set per_tri then {i} else {})"
proof (induction i per_tri l rule: add_postings.induct)
  case (2 i t' m per_tri l)
  then show ?case by (auto simp: live_lookup_def add_posting_get split: option.splits)
qed simp

lemma add_posting_sets:
  assumes "\<And>t s. hm_get ix t = Some s \<Longrightarrow> distinct s \<and> s \<noteq> []" "hm_get (add_posting i t' ix) u = Some s"
  shows "distinct s \<and> s \<noteq> []"
proof (cases "u = t'")
  case True
  then have s: "s = hs_insert i (case hm_get ix t' of Some s \<Rightarrow> s | None \<Rightarrow> [])" using assms(2) by (simp add: add_posting_get)
  show ?thesis
  proof (cases "hm_get ix t'")
    case (Some s')
    with assms(1) [OF Some] s show ?thesis by (simp add: hs_insert_def)
  qed (use s in \<open>simp add: hs_insert_def\<close>)
next
  case False
  then have "hm_get ix u = Some s" using assms(2) by (simp add: add_posting_get)
  then show ?thesis by (rule assms(1))
qed

lemma add_postings_sets:
  assumes "\<And>t s. hm_get (inverted l) t = Some s \<Longrightarrow> distinct s \<and> s \<noteq> []" "hm_get (inverted (add_postings i per_tri l)) t = Some s"
  shows "distinct s \<and> s \<noteq> []"
  using assms
proof (induction i per_tri l rule: add_postings.induct)
  case (2 i t' m per_tri l)
  note g = "2.prems"(2) [unfolded add_postings.simps]
  show ?case by (rule "2.IH" [OF _ g], rule add_posting_sets [OF "2.prems"(1)]) simp_all
next
  case (1 i l)
  show ?case by (rule "1.prems"(1) [OF "1.prems"(2) [unfolded add_postings.simps]])
qed

lemma add_postings_masks:
  "hm_ok per_tri \<Longrightarrow> hm_get (live_masks (add_postings i per_tri l)) (t, j) =
     (if j = i \<and> t \<in> fst ` set per_tri then hm_get per_tri t else hm_get (live_masks l) (t, j))"
proof (induction i per_tri l rule: add_postings.induct)
  case (2 i t' m per_tri l)
  then have ok: "hm_ok per_tri" "t' \<notin> fst ` set per_tri" by (auto simp: hm_ok_def)
  show ?case
  proof (cases "t = t' \<and> j = i")
    case True
    with ok(2) show ?thesis unfolding add_postings.simps "2.IH" [OF ok(1)] by simp
  next
    case False
    then have "hm_get (hm_put (t', i) m (live_masks l)) (t, j) = hm_get (live_masks l) (t, j)" by auto
    with False show ?thesis unfolding add_postings.simps "2.IH" [OF ok(1)] by auto
  qed
qed simp

lemma fresh_id:
  assumes "unat raw < 2 ^ 31"
  shows "is_overlay_id (raw OR overlay_bit)" "(raw OR overlay_bit) AND NOT overlay_bit = raw"
proof -
  have "raw < 2 ^ 31" using assms by (simp add: word_less_nat_alt)
  then have r: "\<not> bit raw n" if "31 \<le> n" for n
    using that by (metis bit_take_bit_iff less_mask_eq linorder_not_less take_bit_eq_mask)
  have b: "bit overlay_bit n \<longleftrightarrow> n = 31" for n
  proof -
    have "overlay_bit = push_bit 31 1" by (simp add: overlay_bit_def)
    then show ?thesis unfolding \<open>overlay_bit = _\<close> by (auto simp: bit_simps simp del: push_bit_of_1)
  qed
  show "(raw OR overlay_bit) AND NOT overlay_bit = raw"
    by (rule bit_word_eqI) (use r [of 31] in \<open>auto simp: bit_simps b\<close>)
  have "bit ((raw OR overlay_bit) AND overlay_bit) 31" by (simp add: bit_simps b)
  then show "is_overlay_id (raw OR overlay_bit)" unfolding is_overlay_id_def by auto
qed

lemma next_id_word:
  assumes "unat raw < 2 ^ 31"
  shows "unat (raw + 1 :: 32 word) = unat raw + 1"
proof -
  have "unat raw + 1 < 2 ^ 32" using assms by simp
  then show ?thesis by (simp add: unat_add_lem [THEN iffD1])
qed

text \<open>Naming a fresh id after its postings are in: for both ways of inserting a file.\<close>

lemma fresh_overlay_id:
  assumes ok: "live_ok l" and fresh: "hm_get (path_to_id l) p = None" and raw: "unat (next_id l) < 2 ^ 31"
    and i: "i = next_id l OR overlay_bit"
  shows "hm_get (live_paths l) i = None" "i \<notin> set (live_lookup l t)"
    "hm_get (path_to_id l) q \<noteq> Some i" "hm_get (live_paths l) j \<noteq> Some p"
proof -
  note fid = fresh_id [OF raw, folded i]
  show newp: "hm_get (live_paths l) i = None"
  proof (rule ccontr)
    assume "hm_get (live_paths l) i \<noteq> None"
    then obtain q where "hm_get (live_paths l) i = Some q" by auto
    from live_okD(9) [OF ok this] fid(2) show False by simp
  qed
  then show "i \<notin> set (live_lookup l t)" using live_okD(6) [OF ok, of i t] by blast
  show "hm_get (path_to_id l) q \<noteq> Some i" "hm_get (live_paths l) j \<noteq> Some p"
    using live_okD(8) [OF ok, of q i] live_okD(8) [OF ok, of p j] newp fresh by simp_all
qed

lemma name_file_simps:
  "live_lookup (name_file p i l) = live_lookup l" "live_masks (name_file p i l) = live_masks l"
  "get_masks (name_file p i l) = get_masks l" "inverted (name_file p i l) = inverted l"
  "path_to_id (name_file p i l) = hm_put p i (path_to_id l)" "live_paths (name_file p i l) = hm_put i p (live_paths l)"
  "deleted_paths (name_file p i l) = hs_remove p (deleted_paths l)" "next_id (name_file p i l) = next_id l"
  by (simp_all add: name_file_def live_lookup_def get_masks_def fun_eq_iff)

text \<open>The tables after a file has been named stay consistent, and the file has the masks that were added.\<close>

lemma name_file_ok:
  assumes ok: "live_ok l" and fresh: "hm_get (path_to_id l) p = None" and raw: "unat (next_id l) < 2 ^ 31"
    and i: "i = next_id l OR overlay_bit"
    and maps: "hm_ok (inverted l')" "hm_ok (live_masks l')"
    and sets: "\<And>t s. hm_get (inverted l') t = Some s \<Longrightarrow> distinct s \<and> s \<noteq> []"
    and same: "live_paths l' = live_paths l" "path_to_id l' = path_to_id l" "deleted_paths l' = deleted_paths l"
      "next_id l' = next_id l + 1"
    and look: "\<And>t. set (live_lookup l' t) = set (live_lookup l t) \<union> (if t \<in> K then {i} else {})"
    and other: "\<And>t j. j \<noteq> i \<Longrightarrow> hm_get (live_masks l') (t, j) = hm_get (live_masks l) (t, j)"
    and own: "\<And>t m. hm_get (live_masks l') (t, i) = Some m \<Longrightarrow> t \<in> K \<or> hm_get (live_masks l) (t, i) = Some m"
  shows "live_ok (name_file p i l')"
proof -
  let ?l = "name_file p i l'"
  note fid = fresh_id [OF raw, folded i]
  note pids = fresh_overlay_id(3,4) [OF ok fresh raw i]
  note flds = name_file_simps [of p i l', unfolded same]
  show "live_ok ?l"
    unfolding live_ok_def
  proof (intro conjI allI impI ballI)
    show "hm_ok (inverted ?l)" "hm_ok (live_masks ?l)" using maps by (simp_all add: flds)
    show "hm_ok (live_paths ?l)" "hm_ok (path_to_id ?l)" using live_okD(3,4) [OF ok] by (simp_all add: flds)
    show "distinct s" "s \<noteq> []" if "hm_get (inverted ?l) t = Some s" for t s
      using sets [OF that [unfolded flds]] by simp_all
    show "hm_get (live_paths ?l) j \<noteq> None" if "j \<in> set (live_lookup ?l t)" for t j
      using that live_okD(6) [OF ok, of j t] by (auto simp: flds look split: if_splits)
    show "j \<in> set (live_lookup ?l t)" if "hm_get (live_masks ?l) (t, j) = Some m" for t j m
    proof (cases "j = i")
      case True
      with that own [of t m] live_okD(7) [OF ok, of t i m] show ?thesis by (auto simp: flds look)
    next
      case False
      with that other [of j t] live_okD(7) [OF ok, of t j m] show ?thesis by (simp add: flds look)
    qed
    show "hm_get (path_to_id ?l) q = Some j \<longleftrightarrow> hm_get (live_paths ?l) j = Some q" for q j
      using live_okD(8) [OF ok, of q j] pids(1) [of q] pids(2) [of j] by (cases "q = p"; cases "j = i") (auto simp: flds)
    show "is_overlay_id j" "unat (j AND NOT overlay_bit) < unat (next_id ?l)" if "hm_get (live_paths ?l) j = Some q" for j q
    proof -
      have "is_overlay_id j \<and> unat (j AND NOT overlay_bit) < unat (next_id l) + 1"
      proof (cases "j = i")
        case False
        with that have "hm_get (live_paths l) j = Some q" by (simp add: flds)
        from live_okD(9) [OF ok this] show ?thesis by simp
      qed (simp add: fid)
      then show "is_overlay_id j" "unat (j AND NOT overlay_bit) < unat (next_id ?l)"
        by (simp_all add: flds next_id_word [OF raw])
    qed
    show "distinct (deleted_paths ?l)" using live_okD(10) [OF ok] by (simp add: flds)
    show "hm_get (path_to_id ?l) q = None" if "q \<in> set (deleted_paths ?l)" for q
      using that live_okD(11) [OF ok, of q] by (simp add: flds)
  qed
qed

lemma name_file_facts:
  assumes ok: "live_ok l" and fresh: "hm_get (path_to_id l) p = None" and raw: "unat (next_id l) < 2 ^ 31"
    and i: "i = next_id l OR overlay_bit"
    and maps: "hm_ok (inverted l')" "hm_ok (live_masks l')"
    and sets: "\<And>t s. hm_get (inverted l') t = Some s \<Longrightarrow> distinct s \<and> s \<noteq> []"
    and same: "live_paths l' = live_paths l" "path_to_id l' = path_to_id l" "deleted_paths l' = deleted_paths l"
      "next_id l' = next_id l + 1"
    and look: "\<And>t. set (live_lookup l' t) = set (live_lookup l t) \<union> (if t \<in> K then {i} else {})"
    and other: "\<And>t j. j \<noteq> i \<Longrightarrow> hm_get (live_masks l') (t, j) = hm_get (live_masks l) (t, j)"
    and own: "\<And>t m. hm_get (live_masks l') (t, i) = Some m \<Longrightarrow> t \<in> K \<or> hm_get (live_masks l) (t, i) = Some m"
  shows "live_ok (name_file p i l') \<and>
    live_view (name_file p i l') = (live_view l)(p \<mapsto> (\<lambda>t. if t \<in> K then Some (get_masks l' t i) else None)) \<and>
    set (deleted_paths (name_file p i l')) = set (deleted_paths l) - {p} \<and> next_id (name_file p i l') = next_id l + 1"
proof -
  let ?l = "name_file p i l'"
  note newl = fresh_overlay_id(2) [OF ok fresh raw i]
  note pids = fresh_overlay_id(3,4) [OF ok fresh raw i]
  note flds = name_file_simps [of p i l', unfolded same]
  have "live_view ?l q = ((live_view l)(p \<mapsto> (\<lambda>t. if t \<in> K then Some (get_masks l' t i) else None))) q" for q
  proof (cases "q = p")
    case True
    then show ?thesis by (simp add: live_view_def flds look newl fun_eq_iff)
  next
    case False
    have "map_option (\<lambda>i t. if i \<in> set (live_lookup ?l t) then Some (get_masks ?l t i) else None) (hm_get (path_to_id l) q) =
        map_option (\<lambda>i t. if i \<in> set (live_lookup l t) then Some (get_masks l t i) else None) (hm_get (path_to_id l) q)"
    proof (rule option.map_cong0)
      fix j assume "j \<in> set_option (hm_get (path_to_id l) q)"
      then have "j \<noteq> i" using pids(1) [of q] by auto
      then show "(\<lambda>t. if j \<in> set (live_lookup ?l t) then Some (get_masks ?l t j) else None) =
          (\<lambda>t. if j \<in> set (live_lookup l t) then Some (get_masks l t j) else None)"
        by (simp add: fun_eq_iff flds look get_masks_def other)
    qed
    with False show ?thesis by (simp add: live_view_def flds)
  qed
  moreover have "live_ok ?l" by (rule name_file_ok [OF assms])
  ultimately show ?thesis by (simp add: fun_eq_iff flds)
qed

lemma hm_ok_merged_loop: "hm_ok m \<Longrightarrow> hm_ok (merged_loop b i ws m)"
  by (induction b i ws m rule: merged_loop.induct) (simp_all add: merge_window_def entry_or_def Let_def)

lemma hm_ok_masks [simp]: "hm_ok (extract_merged_masks c)"
  by (simp add: extract_merged_masks_def hm_ok_merged_loop)

theorem commit_upsert_refines:
  assumes ok: "live_ok l" and raw: "unat (next_id l) < 2 ^ 31" and pt: "hm_ok per_tri"
  shows "live_ok (commit_upsert path per_tri l) \<and>
    live_view (commit_upsert path per_tri l) = (live_view l)(path \<mapsto> hm_get per_tri) \<and>
    set (deleted_paths (commit_upsert path per_tri l)) = set (deleted_paths l) - {path} \<and>
    next_id (commit_upsert path per_tri l) = next_id l + 1"
proof -
  let ?d = "drop_path path l" and ?i = "next_id l OR overlay_bit"
  note d = drop_path_facts [OF ok, of path]
  then have okd: "live_ok ?d" and nxt: "next_id ?d = next_id l" by simp_all
  have fresh: "hm_get (path_to_id ?d) path = None"
    using d by (simp add: live_view_def fun_eq_iff split: if_splits)
  let ?a = "add_postings ?i per_tri (?d\<lparr>next_id := next_id l + 1\<rparr>)"
  have cu: "commit_upsert path per_tri l = name_file path ?i ?a"
    by (simp add: commit_upsert_def Let_def nxt)
  have upd: "live_lookup (?d\<lparr>next_id := n\<rparr>) = live_lookup ?d" for n by (simp add: live_lookup_def fun_eq_iff)
  have "live_ok (name_file path ?i ?a) \<and>
    live_view (name_file path ?i ?a) = (live_view ?d)(path \<mapsto> (\<lambda>t. if t \<in> fst ` set per_tri then Some (get_masks ?a t ?i) else None)) \<and>
    set (deleted_paths (name_file path ?i ?a)) = set (deleted_paths ?d) - {path} \<and> next_id (name_file path ?i ?a) = next_id ?d + 1"
  proof (rule name_file_facts [OF okd fresh])
    show "distinct s \<and> s \<noteq> []" if "hm_get (inverted ?a) t = Some s" for t s
    proof (rule add_postings_sets [OF _ that])
      show "distinct s \<and> s \<noteq> []" if "hm_get (inverted (?d\<lparr>next_id := next_id l + 1\<rparr>)) t = Some s" for t s
        using that live_okD(5) [OF okd, of t s] by simp
    qed
    show "t \<in> fst ` set per_tri \<or> hm_get (live_masks ?d) (t, ?i) = Some m" if "hm_get (live_masks ?a) (t, ?i) = Some m" for t m
      using that by (simp add: add_postings_masks [OF pt] split: if_splits)
  qed (use live_okD(1,2) [OF okd] raw in \<open>simp_all add: nxt add_postings_facts add_postings_lookup add_postings_masks [OF pt] upd\<close>)
  moreover have "(\<lambda>t. if t \<in> fst ` set per_tri then Some (get_masks ?a t ?i) else None) = hm_get per_tri"
  proof
    fix t show "(if t \<in> fst ` set per_tri then Some (get_masks ?a t ?i) else None) = hm_get per_tri t"
    proof (cases "hm_get per_tri t")
      case None
      then have "t \<notin> fst ` set per_tri" by (simp add: map_of_eq_None_iff)
      with None show ?thesis by simp
    next
      case (Some m)
      then have "t \<in> fst ` set per_tri" by (metis image_eqI fst_conv map_of_SomeD)
      with Some show ?thesis by (simp add: get_masks_def add_postings_masks [OF pt])
    qed
  qed
  ultimately show ?thesis unfolding cu using d by (simp add: nxt)
qed

lemma fold_add_posting_ok: "hm_ok ix \<Longrightarrow> hm_ok (fold (add_posting i) ts ix)"
  by (induction ts arbitrary: ix) (simp_all add: add_posting_ok)

definition postings_of :: "(trigram, file_id list) hmap \<Rightarrow> trigram \<Rightarrow> file_id list" where
  "postings_of ix t = (case hm_get ix t of Some s \<Rightarrow> s | None \<Rightarrow> [])"

lemma live_lookup_postings: "live_lookup l t = postings_of (inverted l) t"
  by (simp add: live_lookup_def postings_of_def)

lemma fold_add_posting_set:
  "set (postings_of (fold (add_posting i) ts ix) t) = set (postings_of ix t) \<union> (if t \<in> set ts then {i} else {})"
proof (induction ts arbitrary: ix)
  case (Cons u ts)
  have "set (postings_of (add_posting i u ix) t) = set (postings_of ix t) \<union> (if t = u then {i} else {})"
    by (auto simp: postings_of_def add_posting_get split: option.split)
  with Cons.IH [of "add_posting i u ix"] show ?case by auto
qed simp

lemma fold_add_posting_sets:
  assumes "\<And>t s. hm_get ix t = Some s \<Longrightarrow> distinct s \<and> s \<noteq> []" "hm_get (fold (add_posting i) ts ix) t = Some s"
  shows "distinct s \<and> s \<noteq> []"
  using assms
proof (induction ts arbitrary: ix)
  case Nil
  show ?case by (rule Nil(1) [OF Nil(2) [unfolded fold.simps id_apply]])
next
  case (Cons u ts)
  show ?case
    by (rule Cons.IH [OF _ Cons.prems(2) [unfolded fold.simps comp_apply]]) (rule add_posting_sets [OF Cons.prems(1)])
qed

theorem upsert_with_trigrams_refines:
  assumes ok: "live_ok l" and raw: "unat (next_id l) < 2 ^ 31"
  shows "live_ok (upsert_file_with_trigrams path ts l) \<and>
    live_view (upsert_file_with_trigrams path ts l) =
      (live_view l)(path \<mapsto> (\<lambda>t. if t \<in> set ts then Some no_filter else None)) \<and>
    set (deleted_paths (upsert_file_with_trigrams path ts l)) = set (deleted_paths l) - {path} \<and>
    next_id (upsert_file_with_trigrams path ts l) = next_id l + 1"
proof -
  let ?d = "drop_path path l" and ?i = "next_id l OR overlay_bit"
  note d = drop_path_facts [OF ok, of path]
  then have okd: "live_ok ?d" and nxt: "next_id ?d = next_id l" by simp_all
  have fresh: "hm_get (path_to_id ?d) path = None"
    using d by (simp add: live_view_def fun_eq_iff split: if_splits)
  let ?a = "?d\<lparr>next_id := next_id l + 1, inverted := fold (add_posting ?i) ts (inverted ?d)\<rparr>"
  have cu: "upsert_file_with_trigrams path ts l = name_file path ?i ?a"
    by (simp add: upsert_file_with_trigrams_def Let_def nxt)
  have none: "hm_get (live_masks ?d) (t, ?i) = None" for t
  proof (rule ccontr)
    assume "hm_get (live_masks ?d) (t, ?i) \<noteq> None"
    then obtain m where m: "hm_get (live_masks ?d) (t, ?i) = Some m" by auto
    obtain q where "hm_get (live_paths ?d) ?i = Some q"
      using live_okD(6) [OF okd live_okD(7) [OF okd m]] by auto
    from live_okD(9) [OF okd this] fresh_id(2) [OF raw] show False by (simp add: nxt)
  qed
  have "live_ok (name_file path ?i ?a) \<and>
    live_view (name_file path ?i ?a) = (live_view ?d)(path \<mapsto> (\<lambda>t. if t \<in> set ts then Some (get_masks ?a t ?i) else None)) \<and>
    set (deleted_paths (name_file path ?i ?a)) = set (deleted_paths ?d) - {path} \<and> next_id (name_file path ?i ?a) = next_id ?d + 1"
  proof (rule name_file_facts [OF okd fresh])
    show "distinct s \<and> s \<noteq> []" if "hm_get (inverted ?a) t = Some s" for t s
    proof (rule fold_add_posting_sets [of "inverted ?d" ?i ts t])
      show "distinct s \<and> s \<noteq> []" if "hm_get (inverted ?d) t = Some s" for t s by (rule live_okD(5) [OF okd that])
    qed (use that in simp)
  qed (use live_okD(1,2) [OF okd] raw in \<open>simp_all add: nxt fold_add_posting_ok live_lookup_postings fold_add_posting_set\<close>)
  moreover have "(\<lambda>t. if t \<in> set ts then Some (get_masks ?a t ?i) else None) = (\<lambda>t. if t \<in> set ts then Some no_filter else None)"
    using none by (simp add: get_masks_def cong: if_cong)
  ultimately show ?thesis unfolding cu using d by (simp add: nxt)
qed

lemma live_ok_deleted:
  assumes ok: "live_ok l" and "distinct ds" "\<And>p. p \<in> set ds \<Longrightarrow> hm_get (path_to_id l) p = None"
  shows "live_ok (l\<lparr>deleted_paths := ds, dirty_count := n\<rparr>)"
proof -
  let ?l = "l\<lparr>deleted_paths := ds, dirty_count := n\<rparr>"
  have same: "inverted ?l = inverted l" "live_masks ?l = live_masks l" "live_paths ?l = live_paths l"
    "path_to_id ?l = path_to_id l" "next_id ?l = next_id l" "live_lookup ?l = live_lookup l" "deleted_paths ?l = ds"
    by (simp_all add: live_lookup_def fun_eq_iff)
  show ?thesis unfolding live_ok_def same using ok [unfolded live_ok_def] assms(2,3) by blast
qed

theorem delete_file_refines:
  assumes ok: "live_ok l"
  shows "live_ok (delete_file path l) \<and> live_view (delete_file path l) = (live_view l)(path := None) \<and>
    set (deleted_paths (delete_file path l)) = insert path (set (deleted_paths l)) \<and> next_id (delete_file path l) = next_id l"
proof -
  let ?d = "drop_path path l"
  note d = drop_path_facts [OF ok, of path]
  then have okd: "live_ok ?d" by simp
  have fresh: "hm_get (path_to_id ?d) path = None"
    using d by (simp add: live_view_def fun_eq_iff split: if_splits)
  let ?l = "?d\<lparr>deleted_paths := hs_insert path (deleted_paths ?d), dirty_count := dirty_count ?d + 1\<rparr>"
  have flds: "live_lookup ?l = live_lookup ?d" "get_masks ?l = get_masks ?d" by (simp_all add: live_lookup_def get_masks_def fun_eq_iff)
  have "live_ok ?l"
    by (rule live_ok_deleted [OF okd]) (use live_okD(10,11) [OF okd] fresh in auto)
  moreover have "live_view ?l = live_view ?d" by (simp add: live_view_def flds fun_eq_iff cong: if_cong)
  ultimately show ?thesis using d by (simp add: delete_file_def Let_def)
qed

end
