(* ===== verification/Tgrep_Ondisk_Facts.thy ===== *)
theory Tgrep_Ondisk_Facts
  imports Tgrep_Ondisk
begin

text \<open>
  Round trips of the binary format: little-endian integers, entries, the file table and the table of
  paths without postings.
\<close>

subsection \<open>UTF-8\<close>

lemma utf8_run_length: "utf8_run rs bs = (n, True) \<Longrightarrow> n = length rs \<and> length rs \<le> length bs"
  by (induction rs bs arbitrary: n rule: utf8_run.induct) (auto split: if_splits prod.splits)

lemma utf8_lossy_valid: "utf8_valid s \<Longrightarrow> utf8_lossy s = s"
  by (induction s rule: utf8_valid.induct) (auto split: option.splits prod.splits)

lemma ascii_trail: "b \<le> 0x7F \<Longrightarrow> utf8_trail b = Some []"
  by (simp add: utf8_trail_def)

lemma ascii_valid: "(\<And>b. b \<in> set s \<Longrightarrow> b \<le> 0x7F) \<Longrightarrow> utf8_valid s"
  by (induction s) (auto simp: ascii_trail)

subsection \<open>Integers\<close>

lemma length_to_le [simp]: "length (to_le n w) = n"
  by (simp add: to_le_def)

lemma to_le_eq_Nil [simp]: "to_le n w = [] \<longleftrightarrow> n = 0"
  by (simp add: to_le_def)

lemma bit_from_le:
  "bit (from_le bs :: 'a::len word) k \<longleftrightarrow> k < LENGTH('a) \<and> k < 8 * length bs \<and> bit (bs ! (k div 8)) (k mod 8)"
proof (induction bs arbitrary: k)
  case (Cons b bs)
  show ?case
  proof (cases "k < 8")
    case True
    then show ?thesis by (auto simp: bit_or_iff bit_push_bit_iff bit_ucast_iff)
  next
    case False
    then have k: "8 \<le> k" "(k - 8) mod 8 = k mod 8" "(b # bs) ! (k div 8) = bs ! ((k - 8) div 8)"
      by (simp_all add: le_mod_geq div_if)
    have "\<not> bit (ucast b :: 'a word) k"
      using False bit_imp_le_length [of b k] by (auto simp: bit_ucast_iff)
    then have "bit (from_le (b # bs) :: 'a word) k \<longleftrightarrow> k < LENGTH('a) \<and> bit (from_le bs :: 'a word) (k - 8)"
      using k(1) by (auto simp: bit_or_iff bit_push_bit_iff)
    also have "\<dots> \<longleftrightarrow> k < LENGTH('a) \<and> k < 8 * length (b # bs) \<and> bit ((b # bs) ! (k div 8)) (k mod 8)"
      unfolding Cons.IH k(2,3) using k(1) by auto
    finally show ?thesis .
  qed
qed simp

lemma from_to_le: "LENGTH('a::len) = 8 * n \<Longrightarrow> from_le (to_le n w) = (w :: 'a word)"
  by (rule bit_word_eqI)
    (auto simp: bit_from_le to_le_def bit_ucast_iff bit_drop_bit_eq less_mult_imp_div_less mult.commute)

lemma from_to_le16 [simp]: "from_le (to_le 2 w) = (w :: 16 word)" by (rule from_to_le) simp
lemma from_to_le32 [simp]: "from_le (to_le 4 w) = (w :: 32 word)" by (rule from_to_le) simp
lemma from_to_le64 [simp]: "from_le (to_le 8 w) = (w :: 64 word)" by (rule from_to_le) simp

subsection \<open>Entries\<close>

lemma length_encode [simp]: "length (encode_posting e) = posting_size" "length (encode_lookup l) = lookup_size"
  by (simp_all add: encode_posting_def encode_lookup_def posting_size_def lookup_size_def)

lemma decode_encode_posting [simp]: "decode_posting (encode_posting e) = e"
  by (simp add: decode_posting_def encode_posting_def nth_append)

lemma decode_encode_lookup [simp]: "decode_lookup (encode_lookup e) = e"
  by (simp add: decode_lookup_def encode_lookup_def)

subsection \<open>Tables\<close>

lemma decode_file_entries_cons:
  assumes "write_file_entry i path = Inr bs"
  shows "decode_file_entries (bs @ rest) =
    (case decode_file_entries rest of Inl e \<Rightarrow> Inl e | Inr es \<Rightarrow> Inr ((i, utf8_lossy path) # es))"
proof -
  have len: "length path \<le> 65535" and bs: "bs = to_le 4 i @ to_le 2 (of_nat (length path) :: 16 word) @ path"
    using assms by (auto simp: write_file_entry_def validate_file_path_len_def max_path_len_def split: if_splits)
  then have u: "unat (of_nat (length path) :: 16 word) = length path"
    by (simp add: unat_of_nat)
  show ?thesis
    by (subst decode_file_entries.simps) (simp add: bs u Let_def split: sum.split)
qed

lemma read_extra_loop_records:
  assumes "extra_records ps = Inr bs" "\<forall>p \<in> set ps. utf8_valid p"
  shows "read_extra_loop i (length ps) (bs @ rest) = Inr (ps, rest)"
  using assms
proof (induction ps arbitrary: i bs)
  case (Cons p ps)
  then obtain cs where cs: "extra_records ps = Inr cs" and len: "length p < 2 ^ 32"
    and bs: "bs = to_le 4 (of_nat (length p) :: 32 word) @ p @ cs"
    by (auto split: if_splits sum.splits)
  from len have u: "unat (of_nat (length p) :: 32 word) = length p"
    by (simp add: unat_of_nat)
  show ?case
    using Cons.IH [OF cs, of "Suc i"] Cons.prems(2) by (simp add: bs u Let_def)
qed simp

lemma extra_records_length: "extra_records ps = Inr bs \<Longrightarrow> 4 * length ps \<le> length bs"
  by (induction ps arbitrary: bs) (force split: if_splits sum.splits)+

text \<open>
  The table of the paths without postings reads back as it was written, whatever the paths; the write
  fails only on a path of \<open>2 ^ 32\<close> bytes or more.
\<close>
theorem extra_paths_roundtrip:
  assumes "\<forall>p \<in> set paths. utf8_valid p" "write_extra_paths paths = Inr file" "length paths < 2 ^ 64"
  shows "read_extra_paths (Some file) = Inr (Some paths)"
proof -
  obtain bs where bs: "extra_records paths = Inr bs"
    and f: "file = magic @ to_le 8 (of_nat (length paths) :: 64 word) @ bs"
    using assms(2) by (auto simp: write_extra_paths_def split: sum.splits)
  have u: "unat (of_nat (length paths) :: 64 word) = length paths"
    using assms(3) by (simp add: unat_of_nat)
  have m: "length magic = 8" by (simp add: magic_def)
  have "length paths \<le> length bs div 4" using extra_records_length [OF bs] by linarith
  with read_extra_loop_records [OF bs assms(1), of 0 "[]"] show ?thesis
    by (simp add: read_extra_paths_def f u m Let_def)
qed

end
