(* ===== verification/Tgrep_Query_Facts.thy ===== *)
theory Tgrep_Query_Facts
  imports Tgrep_Query Tgrep_Trigram_Facts Tgrep_Ondisk_Facts
begin

unbundle bit_operations_syntax

text \<open>
  The execution of plans computes sets: the merges of ascending lists are intersection and union, whatever
  their order, and the result of a plan is the ascending list of the files that satisfy it.
\<close>

abbreviation asc :: "file_id list \<Rightarrow> bool" where
  "asc \<equiv> sorted_wrt (<)"

subsection \<open>Merges\<close>

lemma intersect_sorted_set: "asc a \<Longrightarrow> asc b \<Longrightarrow> set (intersect_sorted a b) = set a \<inter> set b"
  by (induction a b rule: intersect_sorted.induct) force+

lemma intersect_sorted_subset: "set (intersect_sorted a b) \<subseteq> set a"
  by (induction a b rule: intersect_sorted.induct) auto

lemma intersect_sorted_asc: "asc a \<Longrightarrow> asc b \<Longrightarrow> asc (intersect_sorted a b)"
proof (induction a b rule: intersect_sorted.induct)
  case (1 a as b bs)
  then show ?case using intersect_sorted_subset [of as bs] by auto
qed auto

lemma union_sorted_set: "set (union_sorted a b) = set a \<union> set b"
  by (induction a b rule: union_sorted.induct) auto

lemma union_sorted_asc: "asc a \<Longrightarrow> asc b \<Longrightarrow> asc (union_sorted a b)"
  by (induction a b rule: union_sorted.induct) (force simp: union_sorted_set)+

lemma pair_up_facts:
  "list_all asc ls \<Longrightarrow> list_all asc (pair_up ls) \<and> \<Union>(set ` set (pair_up ls)) = \<Union>(set ` set ls)"
  by (induction ls rule: pair_up.induct) (auto simp: union_sorted_set union_sorted_asc)

lemma union_balanced_facts:
  "list_all asc ls \<Longrightarrow>
   asc (union_many_sorted_balanced ls) \<and> set (union_many_sorted_balanced ls) = \<Union>(set ` set ls)"
proof (induction ls rule: union_many_sorted_balanced.induct)
  case (1 ls)
  show ?case
  proof (cases "length ls > 1")
    case True
    then have "union_many_sorted_balanced ls = union_many_sorted_balanced (pair_up ls)"
      by (subst union_many_sorted_balanced.simps) simp
    with 1 True pair_up_facts [OF "1.prems"] show ?thesis by simp
  next
    case False
    then show ?thesis using "1.prems" by (subst (1 2) union_many_sorted_balanced.simps) (cases ls; auto)
  qed
qed

lemma union_loop_facts:
  "asc result \<Longrightarrow> list_all asc ls \<Longrightarrow>
   asc (union_loop result ls) \<and> set (union_loop result ls) = set result \<union> \<Union>(set ` set ls)"
proof (induction ls arbitrary: result)
  case (Cons l ls)
  have u: "asc (union_sorted result l)" using Cons.prems by (simp add: union_sorted_asc)
  with Cons.IH [OF u] union_balanced_facts [of "union_sorted result l # ls"] Cons.prems show ?case
    by (auto simp: Let_def union_sorted_set)
qed simp

lemma union_many_facts:
  assumes "list_all asc ls"
  shows "asc (union_many_sorted ls) \<and> set (union_many_sorted ls) = \<Union>(set ` set ls)"
proof -
  have asc: "list_all asc (filter (\<lambda>l. l \<noteq> []) ls)" using assms by (simp add: list_all_iff)
  have "\<Union>(set ` set (filter (\<lambda>l. l \<noteq> []) ls)) = \<Union>(set ` set ls)" by auto
  moreover have "asc (union_many_sorted ls) \<and> set (union_many_sorted ls) = \<Union>(set ` set (filter (\<lambda>l. l \<noteq> []) ls))"
  proof (cases "filter (\<lambda>l. l \<noteq> []) ls")
    case (Cons l ms)
    with asc union_loop_facts [of l ms] show ?thesis by (simp add: union_many_sorted_def)
  qed (simp add: union_many_sorted_def)
  ultimately show ?thesis by simp
qed

subsection \<open>Conjunctions\<close>

lemma asc_dedup: "sorted l \<Longrightarrow> asc (remdups_adj l)"
  by (induction l rule: remdups_adj.induct) auto

lemma asc_dedup_sort [simp]: "asc (remdups_adj (sort l))"
  by (simp add: asc_dedup)

lemma and_loop_facts:
  "asc result \<Longrightarrow> asc (and_loop result ls) \<and> set (and_loop result ls) = set result \<inter> \<Inter>(set ` set ls)"
proof (induction ls arbitrary: result)
  case (Cons l ls)
  let ?r = "intersect_sorted result (remdups_adj (sort l))"
  have r: "asc ?r" "set ?r = set result \<inter> set l"
    using Cons.prems by (simp_all add: intersect_sorted_asc intersect_sorted_set)
  show ?case
  proof (cases "?r = []")
    case True
    with r(2) have "set result \<inter> set l = {}" by (metis list.set(1))
    with True show ?thesis by auto
  next
    case False
    with Cons.IH [OF r(1)] r(2) show ?thesis by (auto simp: Let_def)
  qed
qed simp

lemma execute_and_facts:
  "asc (execute_and lookup qs) \<and> set (execute_and lookup qs) = {i. qs \<noteq> [] \<and> (\<forall>q \<in> set qs. i \<in> set (lookup (q_hash q)))}"
proof (cases "sort_key length (map (\<lambda>q. lookup (q_hash q)) qs)")
  case Nil
  then have "length qs = 0" by (metis length_map length_sort list.size(3))
  then show ?thesis by (simp add: execute_and_def)
next
  case (Cons l ls)
  then have "set (l # ls) = (\<lambda>q. lookup (q_hash q)) ` set qs" by (metis set_map set_sort)
  then have "{i. \<forall>m \<in> set (l # ls). i \<in> set m} = {i. \<forall>q \<in> set qs. i \<in> set (lookup (q_hash q))}" by simp
  then have "set l \<inter> \<Inter>(set ` set ls) = {i. \<forall>q \<in> set qs. i \<in> set (lookup (q_hash q))}" by auto
  moreover have "qs \<noteq> []" using Cons by auto
  ultimately show ?thesis using and_loop_facts [of "remdups_adj (sort l)" ls] Cons by (simp add: execute_and_def)
qed

text \<open>The files a plan accepts; a plan that matches everything names none, and its caller scans them all.\<close>

fun plan_files :: "(trigram \<Rightarrow> file_id list) \<Rightarrow> query_plan \<Rightarrow> file_id set" where
  "plan_files lookup (And qs) = {i. qs \<noteq> [] \<and> (\<forall>q \<in> set qs. i \<in> set (lookup (q_hash q)))}"
| "plan_files lookup (Or ps) = \<Union>(set (map (plan_files lookup) ps))"
| "plan_files lookup MatchAll = {}"

theorem execute_plan_computes: "asc (execute_plan lookup p) \<and> set (execute_plan lookup p) = plan_files lookup p"
proof (induction lookup p rule: execute_plan.induct)
  case (2 lookup plans)
  then have "list_all asc (map (execute_plan lookup) plans)" by (simp add: list_all_iff)
  with union_many_facts [OF this] 2 show ?case by (simp add: image_image)
qed (simp_all add: execute_and_facts)

subsection \<open>Conjunctions with masks\<close>

lemma ascending_asc: "ascending es \<longleftrightarrow> asc (map file_id es)"
  by (induction es rule: ascending.induct) (auto dest: less_trans)

lemma dedup_distinct: "distinct (map file_id es) \<Longrightarrow> dedup_by_file_id es = es"
  by (induction es rule: dedup_by_file_id.induct) auto

lemma sort_dedup_facts:
  assumes "distinct (map file_id es)"
  shows "asc (map file_id (sort_dedup_postings_by_file_id es)) \<and> set (sort_dedup_postings_by_file_id es) = set es"
proof (cases "ascending es")
  case False
  have d: "distinct (map file_id (sort_key file_id es))"
    using assms by (metis distinct_map distinct_sort set_sort)
  then have "asc (map file_id (sort_key file_id es))" by (simp add: strict_sorted_iff)
  with False d show ?thesis by (simp add: sort_dedup_postings_by_file_id_def dedup_distinct)
qed (simp add: sort_dedup_postings_by_file_id_def ascending_asc)

definition hit :: "posting_entry list \<Rightarrow> trigram_query \<Rightarrow> file_id \<Rightarrow> bool" where
  "hit es q i \<longleftrightarrow> (\<exists>e \<in> set es. file_id e = i \<and> next_passes q (p_next e))"

lemma intersect_masked_subset: "fst ` set (intersect_masked q cs es) \<subseteq> fst ` set cs"
proof (induction q cs es rule: intersect_masked.induct)
  case (1 q c cs e es)
  then show ?case by (cases "next_passes q (p_next e)") (simp; blast)+
qed auto

lemma intersect_masked_facts:
  "asc (map fst cs) \<Longrightarrow> asc (map file_id es) \<Longrightarrow>
   asc (map fst (intersect_masked q cs es)) \<and>
   fst ` set (intersect_masked q cs es) = {i \<in> fst ` set cs. hit es q i}"
proof (induction q cs es rule: intersect_masked.induct)
  case (1 q c cs e es)
  have lt: "\<And>x. x \<in> set cs \<Longrightarrow> fst c < fst x" "\<And>x. x \<in> set es \<Longrightarrow> file_id e < file_id x"
    using "1.prems" by auto
  consider "fst c = file_id e" | "fst c < file_id e" | "file_id e < fst c" by (rule linorder_cases)
  then show ?case
  proof cases
    case 1
    note IH = "1.IH"(1) [OF 1]
    have sub: "fst ` set (intersect_masked q cs es) \<subseteq> fst ` set cs" by (rule intersect_masked_subset)
    have h: "hit (e # es) q i \<longleftrightarrow> hit es q i" if "i \<in> fst ` set cs" for i
      using that lt(1) 1 by (fastforce simp: hit_def)
    have hc: "hit (e # es) q (fst c) \<longleftrightarrow> next_passes q (p_next e)"
      using lt(2) 1 by (fastforce simp: hit_def)
    show ?thesis
    proof (cases "next_passes q (p_next e)")
      case True
      from "1.IH"(1) [OF 1 True] "1.prems" have IH: "asc (map fst (intersect_masked q cs es))"
        "fst ` set (intersect_masked q cs es) = {i \<in> fst ` set cs. hit es q i}" by simp_all
      have "asc (fst c # map fst (intersect_masked q cs es))" using IH(1) sub lt(1) by force
      moreover have "{i \<in> fst ` set (c # cs). hit (e # es) q i} = insert (fst c) {i \<in> fst ` set cs. hit es q i}"
        using h hc True by auto
      ultimately show ?thesis using 1 True IH(2) by simp
    next
      case False
      from "1.IH"(2) [OF 1 False] "1.prems" have IH: "asc (map fst (intersect_masked q cs es))"
        "fst ` set (intersect_masked q cs es) = {i \<in> fst ` set cs. hit es q i}" by simp_all
      have "{i \<in> fst ` set (c # cs). hit (e # es) q i} = {i \<in> fst ` set cs. hit es q i}"
        using h hc False by auto
      with 1 False IH show ?thesis by simp
    qed
  next
    case 2
    then have ne: "fst c \<noteq> file_id e" by simp
    from "1.IH"(3) [OF ne 2] "1.prems" have IH: "asc (map fst (intersect_masked q cs (e # es)))"
      "fst ` set (intersect_masked q cs (e # es)) = {i \<in> fst ` set cs. hit (e # es) q i}" by simp_all
    have "\<not> hit (e # es) q (fst c)" using 2 lt(2) by (fastforce simp: hit_def)
    with IH ne 2 show ?thesis by auto
  next
    case 3
    then have ne: "fst c \<noteq> file_id e" "\<not> fst c < file_id e" by auto
    from "1.IH"(4) [OF ne] "1.prems" have IH: "asc (map fst (intersect_masked q (c # cs) es))"
      "fst ` set (intersect_masked q (c # cs) es) = {i \<in> fst ` set (c # cs). hit es q i}" by simp_all
    have "hit (e # es) q i \<longleftrightarrow> hit es q i" if "i \<in> fst ` set (c # cs)" for i
      using that lt(1) 3 by (fastforce simp: hit_def)
    then have "{i \<in> fst ` set (c # cs). hit (e # es) q i} = {i \<in> fst ` set (c # cs). hit es q i}" by auto
    with IH ne show ?thesis by simp
  qed
qed (auto simp: hit_def)

lemma masked_loop_facts:
  assumes "\<And>q l. (q, l) \<in> set ls \<Longrightarrow> distinct (map file_id l)" "asc (map fst cs)"
  shows "asc (map fst (masked_loop cs ls)) \<and>
    fst ` set (masked_loop cs ls) = {i \<in> fst ` set cs. \<forall>(q, l) \<in> set ls. hit l q i}"
  using assms
proof (induction ls arbitrary: cs)
  case (Cons x ls)
  obtain q l where x: "x = (q, l)" by (cases x)
  have l: "asc (map file_id (sort_dedup_postings_by_file_id l))" "set (sort_dedup_postings_by_file_id l) = set l"
    using sort_dedup_facts [of l] Cons.prems(1) [of q l] x by simp_all
  let ?r = "intersect_masked q cs (sort_dedup_postings_by_file_id l)"
  have h: "hit (sort_dedup_postings_by_file_id l) q i \<longleftrightarrow> hit l q i" for i by (simp add: hit_def l(2))
  have r: "asc (map fst ?r)" "fst ` set ?r = {i \<in> fst ` set cs. hit l q i}"
    using intersect_masked_facts [OF Cons.prems(2) l(1), of q] by (simp_all add: h)
  show ?case
  proof (cases "?r = []")
    case True
    with r(2) have "\<not> hit l q i" if "i \<in> fst ` set cs" for i using that by auto
    with True x show ?thesis by auto
  next
    case False
    have "asc (map fst (masked_loop ?r ls)) \<and> fst ` set (masked_loop ?r ls) = {i \<in> fst ` set ?r. \<forall>(q, l) \<in> set ls. hit l q i}"
      by (rule Cons.IH [OF _ r(1)]) (use Cons.prems(1) in auto)
    moreover have "masked_loop cs (x # ls) = masked_loop ?r ls" using False x by (simp add: Let_def)
    moreover have "{i \<in> fst ` set ?r. \<forall>(q, l) \<in> set ls. hit l q i} = {i \<in> fst ` set cs. \<forall>(q, l) \<in> set (x # ls). hit l q i}"
      unfolding r(2) x by auto
    ultimately show ?thesis by simp
  qed
qed simp

fun masked_files :: "(trigram \<Rightarrow> posting_entry list) \<Rightarrow> query_plan \<Rightarrow> file_id set" where
  "masked_files lookup (And qs) = {i. qs \<noteq> [] \<and> (\<forall>q \<in> set qs. hit (lookup (q_hash q)) q i)}"
| "masked_files lookup (Or ps) = \<Union>(set (map (masked_files lookup) ps))"
| "masked_files lookup MatchAll = {}"

lemma execute_and_masked_facts:
  assumes dist: "\<And>t. distinct (map file_id (lookup t))"
  shows "asc (execute_and_masked lookup qs) \<and> set (execute_and_masked lookup qs) = masked_files lookup (And qs)"
proof (cases "sort_key (\<lambda>(_, l). length l) (map (\<lambda>q. (q, lookup (q_hash q))) qs)")
  case Nil
  then have "length (sort_key (\<lambda>(_, l). length l) (map (\<lambda>q. (q, lookup (q_hash q))) qs)) = 0" by simp
  then have "qs = []" by simp
  then show ?thesis by (simp add: execute_and_masked_def)
next
  case (Cons x ls)
  obtain q l where x: "x = (q, l)" by (cases x)
  have all: "set (x # ls) = (\<lambda>q. (q, lookup (q_hash q))) ` set qs"
    unfolding Cons [symmetric] by simp
  have d: "distinct (map file_id l')" if "(q', l') \<in> set (x # ls)" for q' l' using that dist unfolding all by auto
  let ?sd = "sort_dedup_postings_by_file_id l"
  have sd: "asc (map file_id ?sd)" "set ?sd = set l" using sort_dedup_facts [OF d [of q l]] x by simp_all
  let ?cs = "map (\<lambda>e. (file_id e, p_loc e, p_next e)) ?sd"
  let ?fs = "case expected_next q of Some nb \<Rightarrow> filter (\<lambda>(_, _, nm). nm AND bloom_hash nb \<noteq> 0) ?cs | None \<Rightarrow> ?cs"
  have fs: "?fs = filter (\<lambda>c. next_passes q (snd (snd c))) ?cs"
    by (cases "expected_next q") (simp_all add: next_passes_def split_def)
  have "asc (map fst ?cs)" using sd(1) by (simp add: comp_def)
  then have a: "asc (map fst ?fs)" unfolding fs by (induction "?cs" rule: list.induct) (auto simp: sorted_wrt_map sorted_wrt_filter)
  have f: "fst ` set ?fs = {i. hit l q i}" unfolding fs using sd(2) by (force simp: hit_def)
  have exec: "execute_and_masked lookup qs = map fst (masked_loop ?fs ls)"
    using Cons x by (simp add: execute_and_masked_def Let_def)
  have "asc (map fst (masked_loop ?fs ls)) \<and>
      fst ` set (masked_loop ?fs ls) = {i \<in> fst ` set ?fs. \<forall>(q, l) \<in> set ls. hit l q i}"
    by (rule masked_loop_facts [OF _ a]) (use d in auto)
  moreover have "{i \<in> {i. hit l q i}. \<forall>(q, l) \<in> set ls. hit l q i} = {i. \<forall>q \<in> set qs. hit (lookup (q_hash q)) q i}"
  proof -
    have "{i \<in> {i. hit l q i}. \<forall>(q, l) \<in> set ls. hit l q i} = {i. \<forall>(q, l) \<in> set (x # ls). hit l q i}" using x by auto
    then show ?thesis unfolding all by auto
  qed
  moreover have "qs \<noteq> []" using Cons by auto
  ultimately show ?thesis unfolding exec f by simp
qed

theorem masked_plan_computes:
  assumes "\<And>t. distinct (map file_id (lookup t))"
  shows "asc (execute_plan_with_masks lookup p) \<and> set (execute_plan_with_masks lookup p) = masked_files lookup p"
proof (induction p)
  case (Or plans)
  then have "list_all asc (map (execute_plan_with_masks lookup) plans)" by (simp add: list_all_iff)
  with union_many_facts [OF this] Or show ?case by (simp add: image_image)
qed (simp_all only: execute_plan_with_masks.simps execute_and_masked_facts [OF assms], simp_all)

section \<open>Plans\<close>

text \<open>
  The plan of a pattern misses no file: the masks of a file in which the pattern matches admit the plan,
  and the execution of the plan over posting lists made from those masks returns the file.
\<close>

subsection \<open>Plans that a file's masks admit\<close>

definition query_admitted :: "mask_map \<Rightarrow> trigram_query \<Rightarrow> bool" where
  "query_admitted m q \<longleftrightarrow>
     (\<exists>k. hm_get m (q_hash q) = Some k \<and> (\<forall>b. expected_next q = Some b \<longrightarrow> check_next_byte k b))"

fun plan_admitted :: "mask_map \<Rightarrow> query_plan \<Rightarrow> bool" where
  "plan_admitted m (And qs) \<longleftrightarrow> (\<forall>q \<in> set qs. query_admitted m q)"
| "plan_admitted m (Or ps) \<longleftrightarrow> list_ex (plan_admitted m) ps"
| "plan_admitted m MatchAll \<longleftrightarrow> True"

lemma literal_plan_windows:
  "3 \<le> length bs \<Longrightarrow> literals_to_query_plan bs = And (map (\<lambda>(w, d). \<lparr>q_hash = hash3 w, expected_next = d\<rparr>) (windows bs))"
  unfolding literals_to_query_plan_def
  by (auto intro!: nth_equalityI simp: windows_nth hash3_def)

lemma literal_queries_admitted:
  assumes "f = id \<or> f = lower_byte" "map f content = u @ w @ v" "q \<in> set (plan_queries (literals_to_query_plan w))"
  shows "query_admitted (extract_merged_masks content) q"
proof (cases "3 \<le> length w")
  case True
  with assms(3) obtain x d where "(x, d) \<in> set (windows w)" "q = \<lparr>q_hash = hash3 x, expected_next = d\<rparr>"
    by (auto simp: literal_plan_windows plan_queries_def)
  with occurrence_passes_masks [OF assms(1,2)] show ?thesis by (auto simp: query_admitted_def)
next
  case False
  with assms(3) show ?thesis by (simp add: literals_to_query_plan_def plan_queries_def)
qed

subsection \<open>Regular languages\<close>

text \<open>
  What the documentation of the regex library says of a match: \<open>lang h w\<close> is that the tree \<open>h\<close> can match the
  text \<open>w\<close>, in some context; a literal matches the texts that \<open>lit_eq\<close> allows.
\<close>

definition regex_laws :: "(bytes \<Rightarrow> bytes \<Rightarrow> bool) \<Rightarrow> (hir \<Rightarrow> bytes \<Rightarrow> bool) \<Rightarrow> bool" where
  "regex_laws lit_eq lang \<longleftrightarrow>
     (\<forall>bs w. lang (HLiteral bs) w \<longrightarrow> lit_eq bs w) \<and>
     (\<forall>hs w. lang (HConcat hs) w \<longrightarrow> (\<exists>ws. w = concat ws \<and> list_all2 lang hs ws)) \<and>
     (\<forall>hs w. lang (HAlternation hs) w \<longrightarrow> (\<exists>h \<in> set hs. lang h w)) \<and>
     (\<forall>n h w. lang (HRepetition n h) w \<longrightarrow> (\<exists>ws. w = concat ws \<and> n \<le> length ws \<and> (\<forall>v \<in> set ws. lang h v))) \<and>
     (\<forall>h w. lang (HCapture h) w \<longrightarrow> lang h w)"

fun literals :: "hir \<Rightarrow> bytes list" where
  "literals (HLiteral bs) = [bs]"
| "literals (HConcat hs) = concat (map literals hs)"
| "literals (HAlternation hs) = concat (map literals hs)"
| "literals (HRepetition n h) = literals h"
| "literals (HCapture h) = literals h"
| "literals _ = []"

text \<open>
  What the soundness of a plan rests on: \<open>f\<close> is the view of a file's bytes under which its trigrams are
  compared, \<open>good\<close> the bytes for which the plan's lowercasing is that view.
\<close>

definition plan_text_is :: "(bytes \<Rightarrow> bytes) \<Rightarrow> bool \<Rightarrow> (byte \<Rightarrow> byte) \<Rightarrow> (byte \<Rightarrow> bool) \<Rightarrow> bool" where
  "plan_text_is lc ci f good \<longleftrightarrow> (f = id \<or> f = lower_byte) \<and> (\<forall>s. list_all good s \<longrightarrow> plan_text lc ci s = map f s)"

definition literal_ok :: "(byte \<Rightarrow> byte) \<Rightarrow> (byte \<Rightarrow> bool) \<Rightarrow> (hir \<Rightarrow> bytes \<Rightarrow> bool) \<Rightarrow> bytes \<Rightarrow> bool" where
  "literal_ok f good lang bs \<longleftrightarrow> utf8_valid bs \<and> list_all good bs \<and> (\<forall>w. lang (HLiteral bs) w \<longrightarrow> map f w = map f bs)"

lemma flush_admitted:
  assumes "plan_text_is lc ci f good" "map f content = u @ map f current @ v" "list_all good current"
    and "\<forall>q \<in> set queries. query_admitted (extract_merged_masks content) q"
  shows "\<forall>q \<in> set (flush_literal lc ci current queries). query_admitted (extract_merged_masks content) q"
proof -
  have "plan_text lc ci current = map f current" "f = id \<or> f = lower_byte"
    using assms(1,3) by (auto simp: plan_text_is_def)
  with literal_queries_admitted [of f content u "map f current" v] assms(2,4) show ?thesis
    by (auto simp: flush_literal_def)
qed

lemma admitted_queries: "plan_admitted m p \<Longrightarrow> \<forall>q \<in> set (plan_queries p). query_admitted m q"
  by (cases p) (auto simp: plan_queries_def)

lemma literal_plan_admitted:
  assumes "f = id \<or> f = lower_byte" "map f content = u @ w @ v"
  shows "plan_admitted (extract_merged_masks content) (literals_to_query_plan w)"
  using literal_queries_admitted [OF assms]
  by (auto simp: literals_to_query_plan_def plan_queries_def)

lemma concat_loop_step:
  "concat_loop lc ci current queries (HLiteral bs # hs) = concat_loop lc ci (current @ utf8_lossy bs) queries hs"
  "\<forall>bs. h \<noteq> HLiteral bs \<Longrightarrow> concat_loop lc ci current queries (h # hs) =
     concat_loop lc ci [] (flush_literal lc ci current queries @ plan_queries (decompose_hir lc ci h)) hs"
  by (simp, cases h) simp_all

lemma concat_loop_admitted:
  assumes "plan_text_is lc ci f good"
    and "\<And>h w u v. h \<in> set hs \<Longrightarrow> lang h w \<Longrightarrow> map f content = u @ map f w @ v \<Longrightarrow>
      plan_admitted (extract_merged_masks content) (decompose_hir lc ci h)"
    and "\<And>bs. HLiteral bs \<in> set hs \<Longrightarrow> literal_ok f good lang bs"
    and "list_all2 lang hs ws" "map f content = u @ map f current @ map f (concat ws) @ v" "list_all good current"
    and "\<forall>q \<in> set queries. query_admitted (extract_merged_masks content) q"
  shows "\<forall>q \<in> set (concat_loop lc ci current queries hs). query_admitted (extract_merged_masks content) q"
  using assms(2-)
proof (induction hs arbitrary: ws u current queries)
  case Nil
  show ?case unfolding concat_loop.simps(1)
    by (rule flush_admitted [OF assms(1), where u = u and v = v]) (use Nil.prems in simp_all)
next
  case (Cons h hs)
  then obtain w ws' where ws: "ws = w # ws'" "lang h w" "list_all2 lang hs ws'" by (auto simp: list_all2_Cons1)
  have IH: "\<forall>q \<in> set (concat_loop lc ci current' queries' hs). query_admitted (extract_merged_masks content) q"
    if "map f content = u' @ map f current' @ map f (concat ws') @ v" "list_all good current'"
      "\<forall>q \<in> set queries'. query_admitted (extract_merged_masks content) q" for u' current' queries'
  proof (rule Cons.IH [OF _ _ ws(3) that])
    show "plan_admitted (extract_merged_masks content) (decompose_hir lc ci h')"
      if "h' \<in> set hs" "lang h' x" "map f content = y @ map f x @ z" for h' x y z
      by (rule Cons.prems(1) [OF _ that(2,3)]) (simp add: that(1))
    show "literal_ok f good lang bs" if "HLiteral bs \<in> set hs" for bs
      by (rule Cons.prems(2)) (simp add: that)
  qed
  show ?case
  proof (cases "\<exists>bs. h = HLiteral bs")
    case True
    then obtain bs where h: "h = HLiteral bs" by blast
    from Cons.prems(2) [of bs] h have ok: "literal_ok f good lang bs" by simp
    with ws(2) h have eq: "map f w = map f bs" "utf8_lossy bs = bs" "list_all good bs"
      by (auto simp: literal_ok_def utf8_lossy_valid)
    have "\<forall>q \<in> set (concat_loop lc ci (current @ bs) queries hs). query_admitted (extract_merged_masks content) q"
    proof (rule IH)
      show "map f content = u @ map f (current @ bs) @ map f (concat ws') @ v"
        using Cons.prems(4) ws(1) eq(1) by simp
    qed (use Cons.prems(5,6) eq(3) in auto)
    then show ?thesis unfolding h concat_loop_step(1) eq(2) .
  next
    case False
    have c: "map f content = (u @ map f current) @ map f w @ (map f (concat ws') @ v)"
      "map f content = u @ map f current @ (map f w @ map f (concat ws') @ v)"
      using Cons.prems(4) ws(1) by simp_all
    have sub: "\<forall>q \<in> set (plan_queries (decompose_hir lc ci h)). query_admitted (extract_merged_masks content) q"
      by (rule admitted_queries [OF Cons.prems(1) [OF _ ws(2) c(1)]]) simp
    have fl: "\<forall>q \<in> set (flush_literal lc ci current queries). query_admitted (extract_merged_masks content) q"
      by (rule flush_admitted [OF assms(1) c(2) Cons.prems(5,6)])
    have "\<forall>q \<in> set (concat_loop lc ci [] (flush_literal lc ci current queries @ plan_queries (decompose_hir lc ci h)) hs).
        query_admitted (extract_merged_masks content) q"
    proof (rule IH)
      show "map f content = (u @ map f current @ map f w) @ map f [] @ map f (concat ws') @ v"
        using Cons.prems(4) ws(1) by simp
    qed (use sub fl in auto)
    then show ?thesis using concat_loop_step(2) [of h lc ci current queries hs] False by simp
  qed
qed

lemma decompose_admitted:
  assumes laws: "regex_laws lit_eq lang" and tx: "plan_text_is lc ci f good"
    and "lang h w" "list_all (literal_ok f good lang) (literals h)" "map f content = u @ map f w @ v"
  shows "plan_admitted (extract_merged_masks content) (decompose_hir lc ci h)"
  using assms(3-)
proof (induction h arbitrary: w u v)
  case (HLiteral bs)
  then have ok: "map f w = map f bs" "utf8_lossy bs = bs" "list_all good bs"
    by (auto simp: literal_ok_def utf8_lossy_valid)
  then have "plan_text lc ci (utf8_lossy bs) = map f w" "f = id \<or> f = lower_byte" using tx by (auto simp: plan_text_is_def)
  with literal_plan_admitted [OF _ HLiteral(3)] show ?case by simp
next
  case (HRepetition n h)
  show ?case
  proof (cases "n \<ge> 1")
    case True
    obtain ws where ws: "w = concat ws" "n \<le> length ws" "\<forall>x \<in> set ws. lang h x"
      using laws HRepetition.prems(1) unfolding regex_laws_def by blast
    then obtain x xs where x: "ws = x # xs" using True by (cases ws) auto
    have "map f content = u @ map f x @ (map f (concat xs) @ v)" using HRepetition.prems(3) ws(1) x by simp
    with HRepetition.IH [of x u] ws(3) x HRepetition.prems(2) True show ?thesis by simp
  qed simp
next
  case (HCapture h)
  have "lang h w" using laws HCapture.prems(1) unfolding regex_laws_def by blast
  with HCapture show ?case by simp
next
  case (HConcat hs)
  obtain ws where ws: "w = concat ws" "list_all2 lang hs ws"
    using laws HConcat.prems(1) unfolding regex_laws_def by blast
  have "\<forall>q \<in> set (concat_loop lc ci [] [] hs). query_admitted (extract_merged_masks content) q"
  proof (rule concat_loop_admitted [OF tx _ _ ws(2), where u = u and v = v])
    show "plan_admitted (extract_merged_masks content) (decompose_hir lc ci h)"
      if "h \<in> set hs" "lang h x" "map f content = u' @ map f x @ v'" for h x u' v'
      by (rule HConcat.IH [OF that(1,2) _ that(3)]) (use HConcat.prems(2) that(1) in \<open>auto simp: list_all_iff\<close>)
    show "literal_ok f good lang bs" if "HLiteral bs \<in> set hs" for bs
    proof -
      have "bs \<in> set (literals (HConcat hs))" using that by force
      with HConcat.prems(2) show ?thesis by (auto simp: list_all_iff)
    qed
  qed (use HConcat.prems(3) ws(1) in simp_all)
  then show ?case by (simp add: Let_def)
next
  case (HAlternation hs)
  obtain h where h: "h \<in> set hs" "lang h w"
    using laws HAlternation.prems(1) unfolding regex_laws_def by blast
  have "plan_admitted (extract_merged_masks content) (decompose_hir lc ci h)"
    by (rule HAlternation.IH [OF h _ HAlternation.prems(3)]) (use HAlternation.prems(2) h(1) in \<open>auto simp: list_all_iff\<close>)
  with h(1) show ?case by (auto simp: Let_def list_ex_iff)
qed simp_all

subsection \<open>Simplification\<close>

lemma dedup_queries_subset: "set (dedup_queries k qs) \<subseteq> insert k (set qs)"
  by (induction k qs rule: dedup_queries.induct) auto

lemma simplify_and_queries: "set (plan_queries (simplify_and qs)) \<subseteq> set qs"
proof (cases "sort_key q_hash qs")
  case (Cons q rs)
  have "set (q # rs) = set qs" unfolding Cons [symmetric] by simp
  with dedup_queries_subset [of q rs] show ?thesis unfolding simplify_and_def plan_queries_def Cons by auto
qed (simp add: simplify_and_def plan_queries_def)

lemma simplify_admitted: "plan_admitted m p \<Longrightarrow> plan_admitted m (simplify p)"
proof (induction p)
  case (And qs)
  then show ?case using simplify_and_queries [of qs]
    by (auto simp: simplify_and_def plan_queries_def split: list.splits)
next
  case (Or ps)
  then obtain p where p: "p \<in> set ps" "plan_admitted m (simplify p)" by (auto simp: list_ex_iff)
  then have "list_ex (plan_admitted m) (map simplify ps)" by (auto simp: list_ex_iff)
  then show ?case by (auto split: list.splits)
qed simp

text \<open>A plan that names files: no part of it matches everything, no conjunction is empty.\<close>

fun proper :: "query_plan \<Rightarrow> bool" where
  "proper (And qs) \<longleftrightarrow> qs \<noteq> []"
| "proper (Or ps) \<longleftrightarrow> list_all proper ps"
| "proper MatchAll \<longleftrightarrow> False"

lemma literals_plan_proper: "literals_to_query_plan bs = MatchAll \<or> proper (literals_to_query_plan bs)"
  by (auto simp: literals_to_query_plan_def)

lemma decompose_proper: "decompose_hir lc ci h = MatchAll \<or> proper (decompose_hir lc ci h)"
proof (induction h)
  case (HAlternation hs)
  show ?case
  proof (cases "list_ex is_match_all (map (decompose_hir lc ci) hs)")
    case False
    then have "\<forall>h \<in> set hs. decompose_hir lc ci h \<noteq> MatchAll" by (auto simp: list_ex_iff is_match_all_def image_iff)
    with HAlternation have "list_all proper (map (decompose_hir lc ci) hs)" unfolding list_all_iff by auto
    with False show ?thesis by (simp add: Let_def)
  qed (simp add: Let_def)
next
  case (HLiteral bs)
  show ?case unfolding decompose_hir.simps by (rule literals_plan_proper)
qed (auto simp: Let_def)

lemma simplify_proper: "proper p \<Longrightarrow> proper (simplify p)"
proof (induction p)
  case (And qs)
  then have "sort_key q_hash qs \<noteq> []" by (metis length_0_conv length_sort proper.simps(1))
  moreover have "dedup_queries q rs \<noteq> []" for q rs by (induction q rs rule: dedup_queries.induct) auto
  ultimately show ?case by (auto simp: simplify_and_def split: list.split)
next
  case (Or ps)
  then have "list_all proper (map simplify ps)" by (simp add: list_all_iff)
  then show ?case by (auto split: list.splits)
qed simp

lemma simplify_match_all: "simplify MatchAll = MatchAll" by simp

text \<open>Posting lists that are made from the masks of files.\<close>

definition indexes :: "(trigram \<Rightarrow> posting_entry list) \<Rightarrow> file_id \<Rightarrow> bytes \<Rightarrow> bool" where
  "indexes lookup i content \<longleftrightarrow>
     (\<forall>t k. hm_get (extract_merged_masks content) t = Some k \<longrightarrow>
        (\<exists>e \<in> set (lookup t). file_id e = i \<and> (\<forall>b. check_next_byte k b \<longrightarrow> p_next e AND next_bit b \<noteq> 0)))"

lemma admitted_files:
  assumes "indexes lookup i content" "plan_admitted (extract_merged_masks content) p" "proper p"
  shows "i \<in> masked_files lookup p"
  using assms(2,3)
proof (induction p)
  case (And qs)
  have "hit (lookup (q_hash q)) q i" if q: "q \<in> set qs" for q
  proof -
    obtain k where k: "hm_get (extract_merged_masks content) (q_hash q) = Some k"
      "\<forall>b. expected_next q = Some b \<longrightarrow> check_next_byte k b"
      using And.prems(1) q by (auto simp: query_admitted_def)
    with assms(1) obtain e where "e \<in> set (lookup (q_hash q))" "file_id e = i"
      "\<forall>b. check_next_byte k b \<longrightarrow> p_next e AND next_bit b \<noteq> 0"
      unfolding indexes_def by blast
    with k(2) show ?thesis by (auto simp: hit_def next_passes_def bloom_hash_def split: option.split)
  qed
  with And.prems(2) show ?case by simp
qed (auto simp: list_ex_iff list_all_iff)

lemma found_by_plan:
  assumes "\<And>t. distinct (map file_id (lookup t))" "indexes lookup i content"
    and "plan_admitted (extract_merged_masks content) p" "proper p"
  shows "i \<in> set (execute_plan_with_masks lookup p)"
  using masked_plan_computes [of lookup p] assms(1) admitted_files [OF assms(2-)] by blast

subsection \<open>Soundness\<close>

lemma built_plan_finds:
  assumes "regex_laws lit_eq lang" "plan_text_is lc ci f good"
    and "parse pattern = Inr h" "list_all (literal_ok f good lang) (literals h)"
    and "lang h w" "map f content = u @ map f w @ v"
    and "build_query_plan parse lc pattern ci = Inr p"
  shows "p = MatchAll \<or> plan_admitted (extract_merged_masks content) p \<and> proper p"
proof -
  have p: "p = simplify (decompose_hir lc ci h)" using assms(3,7) by (simp add: build_query_plan_def)
  have "plan_admitted (extract_merged_masks content) (decompose_hir lc ci h)"
    by (rule decompose_admitted [OF assms(1,2,5,4,6)])
  with p decompose_proper [of lc ci h] simplify_admitted simplify_proper show ?thesis by auto
qed

text \<open>The plan of a list of patterns, from the plans of the patterns.\<close>

definition pattern_plan ::
    "(ustr \<Rightarrow> ustr + hir) \<Rightarrow> (bytes \<Rightarrow> bytes) \<Rightarrow> (ustr \<Rightarrow> bytes) \<Rightarrow> bool \<Rightarrow> bool \<Rightarrow> ustr \<Rightarrow> ustr + query_plan" where
  "pattern_plan parse lc enc fixed ci pat =
     (if fixed then Inr (build_literal_plan lc (enc pat) ci) else build_query_plan parse lc pat ci)"

lemma union_plan_finds:
  assumes "q \<in> set plans" "plan_admitted m q" "list_all proper plans"
  shows "plan_admitted m (union_plan plans) \<and> proper (union_plan plans)"
proof (cases plans)
  case (Cons x xs)
  with assms show ?thesis by (cases xs) (auto simp: union_plan_def list_ex_iff)
qed (use assms in simp)

lemma multi_loop_finds:
  assumes "multi_loop parse lc enc fixed ci plans pats = Inr p" "list_all proper plans"
    and "\<And>pat q. pat \<in> set pats \<Longrightarrow> pattern_plan parse lc enc fixed ci pat = Inr q \<Longrightarrow> q = MatchAll \<or> proper q"
    and "(\<exists>q \<in> set plans. plan_admitted m q) \<or>
      (\<exists>pat \<in> set pats. \<forall>q. pattern_plan parse lc enc fixed ci pat = Inr q \<longrightarrow> plan_admitted m q)"
  shows "p = MatchAll \<or> plan_admitted m p \<and> proper p"
  using assms
proof (induction pats arbitrary: plans)
  case Nil
  then show ?case using union_plan_finds [of _ plans m] by auto
next
  case (Cons pat pats)
  obtain q where q: "pattern_plan parse lc enc fixed ci pat = Inr q"
    using Cons.prems(1) by (auto simp: pattern_plan_def split: sum.splits if_splits)
  have step: "multi_loop parse lc enc fixed ci plans (pat # pats) =
      (if q = MatchAll then Inr MatchAll else multi_loop parse lc enc fixed ci (plans @ [q]) pats)"
    using q by (auto simp: pattern_plan_def is_match_all_def split: if_splits sum.split)
  show ?case
  proof (cases "q = MatchAll")
    case True
    with Cons.prems(1) step show ?thesis by simp
  next
    case False
    with Cons.prems(3) [OF _ q] have "proper q" by simp
    show ?thesis
    proof (rule Cons.IH [of "plans @ [q]"])
      show "multi_loop parse lc enc fixed ci (plans @ [q]) pats = Inr p" using Cons.prems(1) step False by simp
      show "list_all proper (plans @ [q])" using Cons.prems(2) \<open>proper q\<close> by simp
      show "r = MatchAll \<or> proper r" if "pat' \<in> set pats" "pattern_plan parse lc enc fixed ci pat' = Inr r" for pat' r
        by (rule Cons.prems(3) [OF _ that(2)]) (simp add: that(1))
      show "(\<exists>q \<in> set (plans @ [q]). plan_admitted m q) \<or>
          (\<exists>pat \<in> set pats. \<forall>q. pattern_plan parse lc enc fixed ci pat = Inr q \<longrightarrow> plan_admitted m q)"
        using Cons.prems(4) q by auto
    qed
  qed
qed

lemma pattern_plan_proper:
  assumes "pattern_plan parse lc enc fixed ci pat = Inr q"
  shows "q = MatchAll \<or> proper q"
proof (cases fixed)
  case True
  with assms have "q = literals_to_query_plan (if ci then lc (enc pat) else enc pat)"
    by (simp add: pattern_plan_def build_literal_plan_def)
  with literals_plan_proper show ?thesis by blast
next
  case False
  with assms obtain h where q: "q = simplify (decompose_hir lc ci h)"
    by (auto simp: pattern_plan_def build_query_plan_def split: sum.splits)
  from decompose_proper [of lc ci h] simplify_proper show ?thesis unfolding q by auto
qed

lemma multi_pattern_finds:
  assumes "build_multi_pattern_plan parse lc enc pats fixed ci = Inr p" "pat \<in> set pats"
    and "\<And>q. pattern_plan parse lc enc fixed ci pat = Inr q \<Longrightarrow> plan_admitted m q"
  shows "p = MatchAll \<or> plan_admitted m p \<and> proper p"
  using assms(1) unfolding build_multi_pattern_plan_def
  by (rule multi_loop_finds) (use pattern_plan_proper assms(2,3) in auto)

text \<open>A pattern's plan is admitted by the masks of a file in which it matches.\<close>

lemma pattern_admitted:
  assumes "regex_laws lit_eq lang" "plan_text_is lc ci f good"
    and "parse pat = Inr h" "list_all (literal_ok f good lang) (literals h)"
    and "lang h w" "map f content = u @ map f w @ v" "pattern_plan parse lc enc False ci pat = Inr q"
  shows "plan_admitted (extract_merged_masks content) q"
  using simplify_admitted [OF decompose_admitted [OF assms(1,2,5,4,6)]] assms(3,7)
  by (auto simp: pattern_plan_def build_query_plan_def)

lemma case_sensitive_text: "plan_text_is lc False id (\<lambda>_. True)"
  by (simp add: plan_text_is_def plan_text_def)

definition ascii :: "byte \<Rightarrow> bool" where
  "ascii b \<longleftrightarrow> b \<le> 0x7F"

lemma ascii_text: "(\<And>s. list_all ascii s \<Longrightarrow> lc s = map lower_byte s) \<Longrightarrow> plan_text_is lc True lower_byte ascii"
  by (simp add: plan_text_is_def plan_text_def)

text \<open>Restricting a language to texts of ASCII bytes keeps its laws.\<close>

lemma regex_laws_ascii:
  assumes "regex_laws lit_eq lang"
  shows "regex_laws (\<lambda>bs w. lit_eq bs w \<and> list_all ascii w) (\<lambda>h w. lang h w \<and> list_all ascii w)"
proof -
  have parts: "list_all2 (\<lambda>h w. lang h w \<and> list_all ascii w) hs ws"
    if "list_all2 lang hs ws" "list_all ascii (concat ws)" for hs ws
    using that by (induction rule: list_all2_induct) auto
  have all: "\<forall>v \<in> set ws. list_all ascii v" if "list_all ascii (concat ws)" for ws
    using that by (auto simp: list_all_iff)
  let ?lang = "\<lambda>h w. lang h w \<and> list_all ascii w"
  have "\<exists>ws. w = concat ws \<and> list_all2 ?lang hs ws" if "?lang (HConcat hs) w" for hs w
  proof -
    obtain ws where ws: "w = concat ws" "list_all2 lang hs ws" using assms \<open>?lang (HConcat hs) w\<close> unfolding regex_laws_def by blast
    have "list_all2 ?lang hs ws" by (rule parts [OF ws(2)]) (use that ws(1) in simp)
    with ws(1) show ?thesis by blast
  qed
  moreover have "\<exists>ws. w = concat ws \<and> n \<le> length ws \<and> (\<forall>v \<in> set ws. ?lang h v)" if "?lang (HRepetition n h) w" for n h w
  proof -
    obtain ws where ws: "w = concat ws" "n \<le> length ws" "\<forall>v \<in> set ws. lang h v"
      using assms \<open>?lang (HRepetition n h) w\<close> unfolding regex_laws_def by blast
    have "\<forall>v \<in> set ws. list_all ascii v" by (rule all) (use that ws(1) in simp)
    with ws show ?thesis by blast
  qed
  moreover have "lit_eq bs w" if "lang (HLiteral bs) w" for bs w using assms that unfolding regex_laws_def by blast
  moreover have "\<exists>h \<in> set hs. lang h w" if "lang (HAlternation hs) w" for hs w using assms that unfolding regex_laws_def by blast
  moreover have "lang h w" if "lang (HCapture h) w" for h w using assms that unfolding regex_laws_def by blast
  ultimately show ?thesis unfolding regex_laws_def by simp
qed

end
