(* ===== verification/Tgrep_Index_Facts.thy ===== *)
theory Tgrep_Index_Facts
  imports Tgrep_Writer Tgrep_Ondisk_Facts "HOL-Library.Multiset"
begin

text \<open>
  What a reader finds in an index that one of the writers wrote. A writer emits groups, the posting list of
  each trigram in ascending order; \<open>represents r gs\<close> says that a reader gives these groups back.
\<close>

subsection \<open>Pieces of fixed size\<close>

lemma take_drop_concat:
  assumes "\<And>x. x \<in> set xs \<Longrightarrow> length (f x) = k" "i < length xs"
  shows "take k (drop (i * k) (concat (map f xs))) = f (xs ! i)"
  using assms
proof (induction xs arbitrary: i)
  case (Cons x xs)
  show ?case
  proof (cases i)
    case (Suc j)
    have "take k (drop (j * k) (concat (map f xs))) = f (xs ! j)"
      by (rule Cons.IH) (use Cons.prems Suc in auto)
    with Suc Cons.prems(1) [of x] show ?thesis by simp
  qed (use Cons.prems(1) [of x] in simp)
qed simp

lemma take_drop_middle: "length a = n \<Longrightarrow> length b = m \<Longrightarrow> take m (drop n (a @ b @ c)) = b"
  by auto

lemma length_concat_fixed: "(\<And>x. x \<in> set xs \<Longrightarrow> length (f x) = k) \<Longrightarrow> length (concat (map f xs)) = length xs * k"
  by (induction xs) auto

lemma concat_chunks [simp]: "0 < n \<Longrightarrow> concat (chunks_of n xs) = xs"
proof (induction n xs rule: chunks_of.induct)
  case (1 n xs)
  then show ?case by (subst chunks_of.simps) auto
qed

subsection \<open>What the writers emit\<close>

abbreviation posting_bytes :: "posting_entry list \<Rightarrow> bytes" where
  "posting_bytes ps \<equiv> concat (map encode_posting ps)"

lemma concat_map_concat: "concat (map f (concat xss)) = concat (map (\<lambda>xs. concat (map f xs)) xss)"
  by (induction xss) simp_all

lemma fold_append: "fold (\<lambda>c out. out @ f c) cs w = w @ concat (map f cs)"
  by (induction cs arbitrary: w) simp_all

lemma write_posting_entries [simp]: "write_posting_entries ps w = w @ posting_bytes ps"
proof -
  have "posting_bytes ps = posting_bytes (concat (chunks_of posting_chunk ps))"
    by (simp add: posting_chunk_def)
  also have "\<dots> = concat (map posting_bytes (chunks_of posting_chunk ps))"
    by (rule concat_map_concat)
  finally have "posting_bytes ps = concat (map posting_bytes (chunks_of posting_chunk ps))" .
  moreover have "encode_posting = (\<lambda>e. to_le 4 (file_id e) @ [p_loc e, p_next e])"
    by (rule ext) (simp add: encode_posting_def)
  ultimately show ?thesis
    unfolding write_posting_entries_def fold_append by simp
qed

definition lookup_bytes :: "index_out \<Rightarrow> bytes" where
  "lookup_bytes w = o_lookup w @ o_scratch w"

lemma flush_lookup [simp]:
  "o_lookup (flush_lookup_entries w) = lookup_bytes w" "o_postings (flush_lookup_entries w) = o_postings w"
  "o_offset (flush_lookup_entries w) = o_offset w" "o_count (flush_lookup_entries w) = o_count w"
  by (simp_all add: flush_lookup_entries_def lookup_bytes_def)

lemma write_lookup_entry [simp]:
  "lookup_bytes (write_lookup_entry e w) = lookup_bytes w @ encode_lookup e"
  "o_postings (write_lookup_entry e w) = o_postings w"
  "o_offset (write_lookup_entry e w) = o_offset w" "o_count (write_lookup_entry e w) = o_count w"
  by (simp_all add: write_lookup_entry_def flush_lookup_entries_def lookup_bytes_def encode_lookup_def Let_def)

lemma lookup_bytes_update [simp]:
  "lookup_bytes (w\<lparr>o_postings := p\<rparr>) = lookup_bytes w" "lookup_bytes (w\<lparr>o_offset := q\<rparr>) = lookup_bytes w"
  "lookup_bytes (w\<lparr>o_count := n\<rparr>) = lookup_bytes w"
  by (simp_all add: lookup_bytes_def)

type_synonym group = "trigram \<times> posting_entry list"

fun layout :: "64 word \<Rightarrow> group list \<Rightarrow> lookup_entry list" where
  "layout offset [] = []"
| "layout offset ((t, ps) # gs) =
     \<lparr>l_trigram = t, l_offset = offset, l_length = of_nat (length ps)\<rparr> #
     layout (offset + ucast (of_nat (length ps) :: 32 word) * 6) gs"

definition emit :: "group list \<Rightarrow> index_out \<Rightarrow> index_out" where
  "emit gs w = fold (\<lambda>(t, ps). put_group t ps) gs w"

lemma put_group [simp]:
  "lookup_bytes (put_group t ps w) = lookup_bytes w @ encode_lookup \<lparr>l_trigram = t, l_offset = o_offset w, l_length = of_nat (length ps)\<rparr>"
  "o_postings (put_group t ps w) = o_postings w @ posting_bytes ps"
  "o_offset (put_group t ps w) = o_offset w + ucast (of_nat (length ps) :: 32 word) * 6"
  "o_count (put_group t ps w) = o_count w + 1"
  by (simp_all add: put_group_def Let_def)

lemma emit_parts:
  "lookup_bytes (emit gs w) = lookup_bytes w @ concat (map encode_lookup (layout (o_offset w) gs)) \<and>
   o_postings (emit gs w) = o_postings w @ posting_bytes (concat (map snd gs)) \<and>
   o_count (emit gs w) = o_count w + length gs"
  unfolding emit_def by (induction gs arbitrary: w) auto

lemma emit_new [simp]:
  "lookup_bytes (emit gs new_out) = concat (map encode_lookup (layout 0 gs))"
  "o_postings (emit gs new_out) = posting_bytes (concat (map snd gs))"
  "o_count (emit gs new_out) = length gs"
  using emit_parts [of gs new_out] by (simp_all add: new_out_def lookup_bytes_def)

lemma length_layout [simp]: "length (layout offset gs) = length gs"
  by (induction offset gs rule: layout.induct) simp_all

text \<open>Groups that fit the format: every length a \<open>u32\<close>, all postings a \<open>u64\<close> of bytes.\<close>

definition fits :: "group list \<Rightarrow> bool" where
  "fits gs \<longleftrightarrow> (\<forall>(t, ps) \<in> set gs. length ps < 2 ^ 32) \<and> 6 * length (concat (map snd gs)) < 2 ^ 64"

lemma of_nat_len32: "n < 2 ^ 32 \<Longrightarrow> unat (of_nat n :: 32 word) = n"
  by (simp add: unat_of_nat)

lemma of_nat_len64: "n < 2 ^ 64 \<Longrightarrow> unat (of_nat n :: 64 word) = n"
  by (simp add: unat_of_nat)

lemma layout_nth:
  assumes "i < length gs" "\<forall>(t, ps) \<in> set gs. length ps < 2 ^ 32"
  shows "layout (of_nat k) gs ! i =
    \<lparr>l_trigram = fst (gs ! i), l_offset = of_nat (k + 6 * length (concat (map snd (take i gs)))),
     l_length = of_nat (length (snd (gs ! i)))\<rparr>"
  using assms
proof (induction gs arbitrary: i k)
  case (Cons g gs)
  obtain t ps where g: "g = (t, ps)" by (cases g)
  have "length ps < 2 ^ 32" using Cons.prems(2) g by auto
  then have "ucast (of_nat (length ps) :: 32 word) = (of_nat (length ps) :: 64 word)"
    by (simp add: unsigned_of_nat take_bit_nat_eq_self)
  then have o: "(of_nat k :: 64 word) + ucast (of_nat (length ps) :: 32 word) * 6 = of_nat (k + 6 * length ps)"
    by simp
  show ?case
  proof (cases i)
    case (Suc j)
    have "layout (of_nat (k + 6 * length ps)) gs ! j =
      \<lparr>l_trigram = fst (gs ! j), l_offset = of_nat (k + 6 * length ps + 6 * length (concat (map snd (take j gs)))),
       l_length = of_nat (length (snd (gs ! j)))\<rparr>"
      by (rule Cons.IH) (use Cons.prems Suc in auto)
    moreover have "k + 6 * length ps + 6 * length (concat (map snd (take j gs))) = k + 6 * length (concat (map snd (take i (g # gs))))"
      by (simp add: Suc g)
    ultimately show ?thesis
      unfolding g layout.simps o Suc nth_Cons_Suc by simp
  qed (simp add: g)
qed simp

subsection \<open>Reading what was emitted\<close>

definition represents :: "index_reader \<Rightarrow> group list \<Rightarrow> bool" where
  "represents r gs \<longleftrightarrow>
     sorted_wrt (<) (map fst gs) \<and> r_num_entries r = length gs \<and>
     (r_lookup r = None \<longleftrightarrow> gs = []) \<and> (r_postings r = None \<longleftrightarrow> gs = []) \<and>
     (\<forall>i < length gs. trigram_posting_at r i = gs ! i \<and>
        nth_trigram_raw r i = Some (fst (gs ! i), posting_bytes (snd (gs ! i))) \<and>
        l_trigram (read_lookup_entry r i) = fst (gs ! i) \<and>
        (\<exists>e. range_end (l_offset (read_lookup_entry r i)) (l_length (read_lookup_entry r i)) = Some e \<and>
             e \<le> length (the (r_postings r))))"

lemma concat_split_nth:
  assumes "i < length gs"
  shows "concat (map snd gs) = concat (map snd (take i gs)) @ snd (gs ! i) @ concat (map snd (drop (Suc i) gs))"
proof -
  have "gs = take i gs @ gs ! i # drop (Suc i) gs" using assms by (rule id_take_nth_drop)
  then have "concat (map snd gs) = concat (map snd (take i gs @ gs ! i # drop (Suc i) gs))" by simp
  then show ?thesis by simp
qed

lemma length_posting_bytes [simp]: "length (posting_bytes ps) = 6 * length ps"
  by (subst length_concat_fixed [where k = posting_size]) (simp_all add: posting_size_def)

lemma represents_emitted:
  assumes gs: "sorted_wrt (<) (map fst gs)" "fits gs"
    and lk: "r_lookup r = Some (concat (map encode_lookup (layout 0 gs)))"
    and pk: "r_postings r = Some (posting_bytes (concat (map snd gs)))"
    and n: "r_num_entries r = length gs" and ne: "gs \<noteq> []"
  shows "represents r gs"
  unfolding represents_def
proof (intro conjI allI impI)
  fix i assume i: "i < length gs"
  let ?a = "concat (map snd (take i gs))" and ?ps = "snd (gs ! i)" and ?c = "concat (map snd (drop (Suc i) gs))"
  have split: "concat (map snd gs) = ?a @ ?ps @ ?c" by (rule concat_split_nth [OF i])
  have lens: "\<forall>(t, ps) \<in> set gs. length ps < 2 ^ 32" using gs(2) by (simp add: fits_def)
  have len: "length ?ps < 2 ^ 32" using lens i by (metis (mono_tags, lifting) case_prod_beta nth_mem)
  have total: "6 * length ?a + 6 * length ?ps + 6 * length ?c < 2 ^ 64"
    using gs(2) unfolding fits_def split by simp
  have entry: "read_lookup_entry r i = \<lparr>l_trigram = fst (gs ! i), l_offset = of_nat (6 * length ?a), l_length = of_nat (length ?ps)\<rparr>"
  proof -
    have "take lookup_size (drop (i * lookup_size) (concat (map encode_lookup (layout 0 gs)))) = encode_lookup (layout 0 gs ! i)"
      by (rule take_drop_concat) (use i in simp_all)
    moreover have "layout 0 gs ! i = \<lparr>l_trigram = fst (gs ! i), l_offset = of_nat (6 * length ?a), l_length = of_nat (length ?ps)\<rparr>"
      using layout_nth [OF i lens, of 0] by simp
    ultimately show ?thesis by (simp add: read_lookup_entry_def lk)
  qed
  have off: "unat (of_nat (6 * length ?a) :: 64 word) = 6 * length ?a"
    by (rule of_nat_len64) (use total in linarith)
  have le: "unat (of_nat (length ?ps) :: 32 word) = length ?ps" by (rule of_nat_len32 [OF len])
  have bytes: "posting_bytes (concat (map snd gs)) = posting_bytes ?a @ posting_bytes ?ps @ posting_bytes ?c"
    unfolding split by simp
  have read: "read_posting_entries r (of_nat (6 * length ?a)) (of_nat (length ?ps)) = ?ps"
  proof -
    have count: "min (length ?ps) ((6 * length ?ps + 6 * length ?c) div 6) = length ?ps" by simp
    have nth: "decode_posting (take 6 (drop (6 * length ?a + j * 6) (posting_bytes (concat (map snd gs))))) = ?ps ! j"
      if j: "j < length ?ps" for j
    proof -
      have "drop (6 * length ?a + j * 6) (posting_bytes (concat (map snd gs))) =
          drop (j * 6) (posting_bytes (?ps @ ?c))"
        unfolding bytes by simp
      moreover have "take 6 (drop (j * 6) (posting_bytes (?ps @ ?c))) = encode_posting ((?ps @ ?c) ! j)"
        by (rule take_drop_concat) (use j in \<open>simp_all add: posting_size_def\<close>)
      ultimately show ?thesis using j by (simp add: nth_append)
    qed
    have lp: "length (posting_bytes (concat (map snd gs))) = 6 * length ?a + (6 * length ?ps + 6 * length ?c)"
      unfolding bytes length_append length_posting_bytes by simp
    have "read_posting_entries r (of_nat (6 * length ?a)) (of_nat (length ?ps)) =
        map (\<lambda>j. decode_posting (take 6 (drop (6 * length ?a + j * 6) (posting_bytes (concat (map snd gs))))))
          [0..<min (length ?ps) ((6 * length ?ps + 6 * length ?c) div 6)]"
      unfolding read_posting_entries_def pk option.case off le lp Let_def posting_size_def by simp
    also have "\<dots> = map (\<lambda>j. ?ps ! j) [0..<length ?ps]"
      unfolding count using nth by (intro map_cong) auto
    finally show ?thesis by (simp add: map_nth)
  qed
  show "trigram_posting_at r i = gs ! i"
    unfolding trigram_posting_at_def entry Let_def lookup_entry.simps read by simp
  show "l_trigram (read_lookup_entry r i) = fst (gs ! i)" by (simp add: entry)
  have re: "range_end (of_nat (6 * length ?a)) (of_nat (length ?ps)) = Some (6 * length ?a + 6 * length ?ps)"
    unfolding range_end_def off le Let_def posting_size_def using total by simp
  have lp: "length (posting_bytes (concat (map snd gs))) = 6 * length ?a + (6 * length ?ps + 6 * length ?c)"
    unfolding bytes length_append length_posting_bytes by simp
  show "\<exists>e. range_end (l_offset (read_lookup_entry r i)) (l_length (read_lookup_entry r i)) = Some e \<and> e \<le> length (the (r_postings r))"
    unfolding entry lookup_entry.simps re pk option.sel lp by simp
  have "take (6 * length ?ps) (drop (6 * length ?a) (posting_bytes (concat (map snd gs)))) = posting_bytes ?ps"
    unfolding bytes by (rule take_drop_middle) (rule length_posting_bytes)+
  then show "nth_trigram_raw r i = Some (fst (gs ! i), posting_bytes ?ps)"
    unfolding nth_trigram_raw_def entry lookup_entry.simps re pk option.case off lp Let_def using i by (simp add: n)
qed (use gs lk pk n ne in simp_all)

subsection \<open>The binary search\<close>

lemma bsearch_step:
  assumes "lo < hi"
  shows "key (lo + (hi - lo) div 2) = x \<Longrightarrow> bsearch key x lo hi = Some (lo + (hi - lo) div 2)"
    and "key (lo + (hi - lo) div 2) < x \<Longrightarrow> bsearch key x lo hi = bsearch key x (lo + (hi - lo) div 2 + 1) hi"
    and "x < key (lo + (hi - lo) div 2) \<Longrightarrow> bsearch key x lo hi = bsearch key x lo (lo + (hi - lo) div 2)"
  using assms by (subst bsearch.simps, force simp: Let_def)+

lemma bsearch_Some: "bsearch key x lo hi = Some m \<Longrightarrow> lo \<le> m \<and> m < hi \<and> key m = x"
proof (induction key x lo hi rule: bsearch.induct)
  case (1 key x lo hi)
  let ?mid = "lo + (hi - lo) div 2"
  have lt: "lo < hi" using "1.prems" by (subst (asm) bsearch.simps) (auto split: if_splits)
  then have mid: "lo \<le> ?mid" "?mid < hi" by auto
  consider "key ?mid = x" | "key ?mid < x" | "x < key ?mid" by (rule linorder_cases [of "key ?mid" x]) auto
  then show ?case
  proof cases
    case 1
    with "1.prems" bsearch_step(1) [where key = key, OF lt 1] mid show ?thesis by simp
  next
    case 2
    have r: "bsearch key x (?mid + 1) hi = Some m" using "1.prems" bsearch_step(2) [where key = key, OF lt 2] by simp
    from "1.IH"(1) [OF lt refl _ 2 r] 2 mid show ?thesis by force
  next
    case 3
    have r: "bsearch key x lo ?mid = Some m" using "1.prems" bsearch_step(3) [where key = key, OF lt 3] by simp
    from "1.IH"(2) [OF lt refl _ _ r] 3 mid show ?thesis by force
  qed
qed

lemma bsearch_None:
  assumes "bsearch key x lo hi = None" "\<And>i j. lo \<le> i \<Longrightarrow> i < j \<Longrightarrow> j < hi \<Longrightarrow> key i \<le> key j" "lo \<le> k" "k < hi"
  shows "key k \<noteq> x"
  using assms
proof (induction key x lo hi rule: bsearch.induct)
  case (1 key x lo hi)
  let ?mid = "lo + (hi - lo) div 2"
  have lt: "lo < hi" using "1.prems"(3,4) by simp
  then have mid: "lo \<le> ?mid" "?mid < hi" by auto
  consider "key ?mid = x" | "key ?mid < x" | "x < key ?mid" by (rule linorder_cases [of "key ?mid" x]) auto
  then show ?case
  proof cases
    case 1
    with "1.prems"(1) bsearch_step(1) [where key = key, OF lt 1] show ?thesis by simp
  next
    case 2
    have n: "bsearch key x (?mid + 1) hi = None" using "1.prems"(1) bsearch_step(2) [where key = key, OF lt 2] by simp
    show ?thesis
    proof (cases "?mid < k")
      case True
      show ?thesis
      proof (rule "1.IH"(1) [OF lt refl _ 2 n])
        show "key i \<le> key j" if "?mid + 1 \<le> i" "i < j" "j < hi" for i j
          using "1.prems"(2) [of i j] that mid by simp
      qed (use 2 True "1.prems"(4) in auto)
    next
      case False
      then have "k = ?mid \<or> key k \<le> key ?mid" using "1.prems"(2) [of k ?mid] "1.prems"(3) mid by force
      with 2 show ?thesis by auto
    qed
  next
    case 3
    have n: "bsearch key x lo ?mid = None" using "1.prems"(1) bsearch_step(3) [where key = key, OF lt 3] by simp
    show ?thesis
    proof (cases "k < ?mid")
      case True
      show ?thesis
      proof (rule "1.IH"(2) [OF lt refl _ _ n])
        show "key i \<le> key j" if "lo \<le> i" "i < j" "j < ?mid" for i j
          using "1.prems"(2) [of i j] that mid by simp
      qed (use 3 True "1.prems"(3) in auto)
    next
      case False
      then have "k = ?mid \<or> key ?mid \<le> key k" using "1.prems"(2) [of ?mid k] "1.prems"(4) mid by force
      with 3 show ?thesis by auto
    qed
  qed
qed

lemma sorted_nth_less: "sorted_wrt (<) xs \<Longrightarrow> i < j \<Longrightarrow> j < length xs \<Longrightarrow> xs ! i < xs ! j"
  by (rule sorted_wrt_nth_less)

theorem represents_lookup:
  assumes "represents r gs"
  shows "lookup_trigram_with_masks r t = (case map_of gs t of Some ps \<Rightarrow> ps | None \<Rightarrow> [])"
proof (cases "gs = []")
  case True
  with assms have n: "r_num_entries r = 0" by (simp add: represents_def)
  have "binary_search r t = None" unfolding binary_search_def n by (subst bsearch.simps) simp
  with True show ?thesis by (simp add: lookup_trigram_with_masks_def)
next
  case False
  from assms have srt: "sorted_wrt (<) (map fst gs)" and n: "r_num_entries r = length gs"
    and at: "\<And>i. i < length gs \<Longrightarrow> trigram_posting_at r i = gs ! i"
    and key: "\<And>i. i < length gs \<Longrightarrow> l_trigram (read_lookup_entry r i) = fst (gs ! i)"
    and lk: "r_lookup r \<noteq> None" using False by (simp_all add: represents_def)
  have dist: "distinct (map fst gs)" using srt strict_sorted_iff by blast
  show ?thesis
  proof (cases "binary_search r t")
    case None
    have "map_of gs t = None"
    proof (rule ccontr)
      assume "map_of gs t \<noteq> None"
      then obtain ps where "(t, ps) \<in> set gs" by (metis map_of_SomeD not_None_eq)
      then obtain k where k: "k < length gs" "gs ! k = (t, ps)" by (auto simp: in_set_conv_nth)
      have "l_trigram (read_lookup_entry r k) \<noteq> t"
      proof (rule bsearch_None [where lo = 0 and hi = "length gs" and key = "\<lambda>i. l_trigram (read_lookup_entry r i)"])
        show "bsearch (\<lambda>i. l_trigram (read_lookup_entry r i)) t 0 (length gs) = None"
          using None by (simp add: binary_search_def n)
        show "l_trigram (read_lookup_entry r i) \<le> l_trigram (read_lookup_entry r j)" if "i < j" "j < length gs" for i j
          using sorted_nth_less [OF srt, of i j] that key by (simp add: less_imp_le)
      qed (use k in simp_all)
      with k key show False by simp
    qed
    with None show ?thesis by (simp add: lookup_trigram_with_masks_def)
  next
    case (Some i)
    then have "i < length gs \<and> l_trigram (read_lookup_entry r i) = t"
      using bsearch_Some [of "\<lambda>i. l_trigram (read_lookup_entry r i)" t 0 "r_num_entries r" i]
      by (simp add: binary_search_def n)
    with key [of i] have i: "i < length gs" "fst (gs ! i) = t" by simp_all
    then have "map_of gs t = Some (snd (gs ! i))"
      using dist by (metis map_of_is_SomeI nth_mem prod.collapse)
    moreover have "read_posting_entries r (l_offset (read_lookup_entry r i)) (l_length (read_lookup_entry r i)) = snd (gs ! i)"
      using at [OF i(1)] by (simp add: trigram_posting_at_def Let_def prod_eq_iff)
    ultimately show ?thesis using Some lk by (auto simp: lookup_trigram_with_masks_def)
  qed
qed

lemma validate_loop_ok:
  assumes "\<And>i. i \<in> set is \<Longrightarrow> \<exists>e. range_end (l_offset (read_lookup_entry r i)) (l_length (read_lookup_entry r i)) = Some e \<and> e \<le> plen"
    and "sorted_wrt (\<lambda>i j. l_trigram (read_lookup_entry r i) < l_trigram (read_lookup_entry r j)) is"
    and "\<And>p i. prev = Some p \<Longrightarrow> i \<in> set is \<Longrightarrow> p < l_trigram (read_lookup_entry r i)"
  shows "validate_loop r plen prev is = None"
  using assms
proof (induction "is" arbitrary: prev)
  case (Cons i "is")
  obtain e where e: "range_end (l_offset (read_lookup_entry r i)) (l_length (read_lookup_entry r i)) = Some e" "e \<le> plen"
    using Cons.prems(1) [of i] by auto
  have "validate_loop r plen (Some (l_trigram (read_lookup_entry r i))) is = None"
    by (rule Cons.IH) (use Cons.prems in auto)
  with e Cons.prems(3) [of _ i] show ?case by (auto simp: Let_def split: option.split)
qed simp

lemma represents_not_degenerate: "represents r gs \<Longrightarrow> \<not> is_degenerate r"
  by (cases "gs = []") (simp_all add: represents_def is_degenerate_def)

lemma represents_valid:
  assumes "represents r gs"
  shows "validate_lookup r = None"
proof (cases "gs = []")
  case False
  from assms have n: "r_num_entries r = length gs" and srt: "sorted_wrt (<) (map fst gs)"
    and key: "\<And>i. i < length gs \<Longrightarrow> l_trigram (read_lookup_entry r i) = fst (gs ! i)" by (simp_all add: represents_def)
  obtain p where p: "r_postings r = Some p" using assms False by (auto simp: represents_def)
  have "validate_loop r (length p) None [0..<length gs] = None"
  proof (rule validate_loop_ok)
    show "sorted_wrt (\<lambda>i j. l_trigram (read_lookup_entry r i) < l_trigram (read_lookup_entry r j)) [0..<length gs]"
      using sorted_nth_less [OF srt] key by (simp add: sorted_wrt_iff_nth_less)
  qed (use assms p in \<open>auto simp: represents_def\<close>)
  with n p show ?thesis by (simp add: validate_lookup_def split: option.split)
qed (use assms in \<open>simp add: represents_def validate_lookup_def split: option.split\<close>)

subsection \<open>Opening a written index\<close>

lemma decode_file_table:
  assumes "file_table k paths = Inr fs" "\<forall>p \<in> set paths. utf8_valid p"
  shows "decode_file_entries fs = Inr (zip (map of_nat [k..<k + length paths]) paths)"
  using assms
proof (induction paths arbitrary: k fs)
  case Nil
  then show ?case by (subst decode_file_entries.simps) simp
next
  case (Cons p paths)
  then obtain bs rest where bs: "write_file_entry (of_nat k) p = Inr bs" and rest: "file_table (k + 1) paths = Inr rest"
    and fs: "fs = bs @ rest" by (auto split: sum.splits)
  have "decode_file_entries rest = Inr (zip (map of_nat [k + 1..<k + 1 + length paths]) paths)"
    by (rule Cons.IH [OF rest]) (use Cons.prems in simp)
  moreover have "[k..<k + length (p # paths)] = k # [k + 1..<k + 1 + length paths]"
    by (simp del: upt_Suc add: upt_conv_Cons)
  ultimately show ?case
    using Cons.prems(2) by (simp add: fs decode_file_entries_cons [OF bs] utf8_lossy_valid)
qed

lemma check_ids_dense:
  assumes "length seen = n" "k + length ps = n" "n \<le> 2 ^ 32" "\<And>i. k \<le> i \<Longrightarrow> i < n \<Longrightarrow> \<not> seen ! i"
  shows "check_ids n seen (zip (map of_nat [k..<n]) ps) = None"
  using assms
proof (induction ps arbitrary: k seen)
  case (Cons p ps)
  have k: "k < n" using Cons.prems by simp
  then have u: "unat (of_nat k :: 32 word) = k" using Cons.prems(3) by (intro of_nat_len32) simp
  have "check_ids n (seen[k := True]) (zip (map of_nat [Suc k..<n]) ps) = None"
    by (rule Cons.IH) (use Cons.prems in auto)
  with k Cons.prems(4) [of k] show ?case by (simp add: upt_conv_Cons u)
qed simp

lemma place_paths_fold:
  assumes "length ys = k + length ps" "k + length ps \<le> 2 ^ 32"
  shows "fold (\<lambda>(i, p) ps. ps[unat i := p]) (zip (map (of_nat :: nat \<Rightarrow> file_id) [k..<k + length ps]) ps) ys = take k ys @ ps"
  using assms
proof (induction ps arbitrary: k ys)
  case (Cons p ps)
  have u: "unat (of_nat k :: 32 word) = k" using Cons.prems(2) by (intro of_nat_len32) simp
  have "[k..<k + length (p # ps)] = k # [Suc k..<Suc k + length ps]" by (simp del: upt_Suc add: upt_conv_Cons)
  moreover have "fold (\<lambda>(i, p) ps. ps[unat i := p]) (zip (map (of_nat :: nat \<Rightarrow> file_id) [Suc k..<Suc k + length ps]) ps) (ys[k := p])
      = take (Suc k) (ys[k := p]) @ ps"
    by (rule Cons.IH) (use Cons.prems in auto)
  ultimately show ?case
    using Cons.prems(1) by (simp add: u take_Suc_conv_app_nth)
qed simp

lemma place_paths_dense:
  "length ps \<le> 2 ^ 32 \<Longrightarrow> place_paths (zip (map of_nat [0..<length ps]) ps) = ps"
  using place_paths_fold [of "replicate (length ps) []" 0 ps] by (simp add: place_paths_def)

lemma length_encoded_layout: "length (concat (map encode_lookup (layout offset gs))) = lookup_size * length gs"
  by (subst length_concat_fixed [where k = lookup_size]) (simp_all add: mult.commute)

text \<open>An index that holds groups, none of them empty, opens to a reader that represents them.\<close>

lemma open_emitted:
  assumes w: "write_files_and_meta n paths tc complete (flush_lookup_entries (emit gs new_out)) = Inr w"
    and gs: "sorted_wrt (<) (map fst gs)" "fits gs" "\<forall>(t, ps) \<in> set gs. ps \<noteq> []"
    and paths: "\<forall>p \<in> set paths. utf8_valid p" "length paths \<le> 2 ^ 32"
  shows "\<exists>r. open_reader (w_files w) = Inr r \<and> represents r gs \<and> r_paths r = paths"
proof -
  let ?lk = "concat (map encode_lookup (layout 0 gs))" and ?pk = "posting_bytes (concat (map snd gs))"
  obtain fs where fs: "file_table 0 paths = Inr fs"
    and f: "w_files w = \<lparr>f_lookup = Some ?lk, f_postings = Some ?pk, f_files = Some fs\<rparr>"
    using w by (auto simp: write_files_and_meta_def split: sum.splits)
  have dec: "decode_file_entries fs = Inr (zip (map of_nat [0..<length paths]) paths)"
    using decode_file_table [OF fs paths(1)] by simp
  have chk: "check_ids (length paths) (replicate (length paths) False) (zip (map of_nat [0..<length paths]) paths) = None"
    by (rule check_ids_dense) (use paths(2) in simp_all)
  have place: "place_paths (zip (map of_nat [0..<length paths]) paths) = paths" by (rule place_paths_dense [OF paths(2)])
  have lk: "length ?lk = lookup_size * length gs" by (rule length_encoded_layout)
  have "length ?lk = 0 \<longleftrightarrow> gs = []" using lk by (simp add: lookup_size_def)
  then have lk0: "?lk = [] \<longleftrightarrow> gs = []" by simp
  have "concat (map snd gs) = [] \<longleftrightarrow> gs = []" using gs(3) by (cases gs) auto
  moreover have "?pk = [] \<longleftrightarrow> concat (map snd gs) = []"
    by (metis length_0_conv length_posting_bytes mult_is_0 zero_neq_numeral)
  ultimately have pk0: "?pk = [] \<longleftrightarrow> gs = []" by simp
  let ?r = "\<lparr>r_lookup = (if gs \<noteq> [] then Some ?lk else None), r_postings = (if gs \<noteq> [] then Some ?pk else None),
    r_paths = paths, r_path_order = path_order_of paths, r_num_entries = length gs\<rparr>"
  have "length ?lk mod lookup_size = 0" "length ?lk div lookup_size = length gs" unfolding lk by (simp_all add: lookup_size_def)
  then have "open_reader (w_files w) = Inr ?r"
    unfolding open_reader_def f by (simp only: index_files.simps option.case prod.case lk0 pk0 dec sum.case length_zip
        length_map length_upt diff_zero min.idem chk place Let_def) (auto simp: lookup_size_def)
  moreover have "represents ?r gs"
  proof (cases "gs = []")
    case False
    then show ?thesis by (intro represents_emitted gs) (simp_all add: False)
  qed (simp add: represents_def)
  ultimately show ?thesis by (intro exI [of _ ?r]) simp
qed

subsection \<open>The index of a map of postings\<close>

definition groups_of :: "(trigram, posting_entry list) hmap \<Rightarrow> group list" where
  "groups_of inverted = map (\<lambda>t. (t, the (hm_get inverted t))) (sort (map fst inverted))"

lemma write_index_files_emits:
  "write_index_files n paths inverted complete =
     write_files_and_meta n paths (length (groups_of inverted)) complete (flush_lookup_entries (emit (groups_of inverted) new_out))"
proof -
  have "fold (\<lambda>t. put_group t (the (hm_get inverted t))) ts w = emit (map (\<lambda>t. (t, the (hm_get inverted t))) ts) w" for ts w
    unfolding emit_def by (induction ts arbitrary: w) simp_all
  then show ?thesis by (simp add: write_index_files_def groups_of_def Let_def)
qed

lemma groups_of_keys: "map fst (groups_of inverted) = sort (map fst inverted)"
  by (simp add: groups_of_def comp_def)

lemma groups_of_sorted: "hm_ok inverted \<Longrightarrow> sorted_wrt (<) (map fst (groups_of inverted))"
  unfolding groups_of_keys by (simp add: hm_ok_def strict_sorted_iff)

lemma map_of_groups: "map_of (groups_of inverted) t = hm_get inverted t"
proof (cases "t \<in> fst ` set inverted")
  case True
  then obtain ps where "hm_get inverted t = Some ps" by (metis domD dom_map_of_conv_image_fst)
  with True show ?thesis by (simp add: groups_of_def map_of_map_restrict restrict_map_def)
next
  case False
  then have "hm_get inverted t = None" by (simp add: map_of_eq_None_iff)
  with False show ?thesis by (simp add: groups_of_def map_of_map_restrict restrict_map_def)
qed

lemma groups_of_mem:
  assumes "hm_ok inverted" "(t, ps) \<in> set (groups_of inverted)"
  shows "(t, ps) \<in> set inverted"
proof -
  have "distinct (map fst (groups_of inverted))" using groups_of_sorted [OF assms(1)] strict_sorted_iff by blast
  then have "map_of (groups_of inverted) t = Some ps" using assms(2) by simp
  then show ?thesis by (simp add: map_of_groups map_of_SomeD)
qed

lemma length_groups:
  assumes "hm_ok inverted"
  shows "length (concat (map snd (groups_of inverted))) = length (concat (map snd inverted))"
proof -
  have "map (\<lambda>t. (t, the (hm_get inverted t))) (map fst inverted) = inverted"
  proof (rule nth_equalityI)
    fix i assume "i < length (map (\<lambda>t. (t, the (hm_get inverted t))) (map fst inverted))"
    then have "inverted ! i \<in> set inverted" by simp
    then have "hm_get inverted (fst (inverted ! i)) = Some (snd (inverted ! i))"
      using assms by (simp add: hm_ok_def)
    with \<open>i < _\<close> show "map (\<lambda>t. (t, the (hm_get inverted t))) (map fst inverted) ! i = inverted ! i" by simp
  qed simp
  then have "mset inverted = mset (map (\<lambda>t. (t, the (hm_get inverted t))) (map fst inverted))" by simp
  then have "mset (groups_of inverted) = mset inverted"
    by (simp only: groups_of_def mset_map mset_sort)
  then have "mset (map snd (groups_of inverted)) = mset (map snd inverted)" by (metis mset_map)
  then have "sum_list (map length (map snd (groups_of inverted))) = sum_list (map length (map snd inverted))"
    by (metis mset_map sum_mset_sum_list)
  then show ?thesis by (simp add: length_concat)
qed

text \<open>
  C20. An index that is written from any table of posting lists opens, passes its validation, and gives back the
  paths in their order and for every trigram exactly the posting list of the table.
\<close>

theorem written_index_reads_back:
  assumes "hm_ok inverted" "\<forall>(t, ps) \<in> set inverted. ps \<noteq> [] \<and> length ps < 2 ^ 32"
    and "6 * length (concat (map snd inverted)) < 2 ^ 64"
    and "\<forall>p \<in> set paths. utf8_valid p" "length paths \<le> 2 ^ 32"
    and "write_index_from_snapshot paths inverted complete = Inr w"
  shows "\<exists>r. open_reader (w_files w) = Inr r \<and> validate_lookup r = None \<and> r_paths r = paths \<and>
    (\<forall>t. lookup_trigram_with_masks r t = (case hm_get inverted t of Some ps \<Rightarrow> ps | None \<Rightarrow> []))"
proof -
  have fits: "fits (groups_of inverted)"
    using assms(2,3) groups_of_mem [OF assms(1)] length_groups [OF assms(1)] by (fastforce simp: fits_def)
  have ne: "\<forall>(t, ps) \<in> set (groups_of inverted). ps \<noteq> []"
    using assms(2) groups_of_mem [OF assms(1)] by fast
  obtain r where r: "open_reader (w_files w) = Inr r" "represents r (groups_of inverted)" "r_paths r = paths"
    using open_emitted [OF _ groups_of_sorted [OF assms(1)] fits ne assms(4,5)] assms(6)
    unfolding write_index_from_snapshot_def write_index_files_emits by blast
  with represents_lookup [OF r(2)] represents_valid [OF r(2)] show ?thesis by (simp add: map_of_groups)
qed

end
