(* ===== verification/Tgrep_Hybrid_Facts.thy ===== *)
theory Tgrep_Hybrid_Facts
  imports Tgrep_Hybrid Tgrep_Live_Facts Tgrep_Query_Facts Tgrep_Index_Facts
begin

unbundle bit_operations_syntax

text \<open>
  A search over the reader and the overlay sees the current files: whatever sequence of changes the
  overlay took in, a query returns every file in whose current content the pattern matches, under its
  path, and no file that is gone.
\<close>

subsection \<open>Changes and contents\<close>

text \<open>The changes that a server makes to the overlay, and what they mean for the contents of the files.\<close>

datatype live_op =
    Upsert bytes bytes
  | Bulk bytes bytes
  | Delete bytes
  | From_disk bytes "bytes option"

type_synonym contents = "bytes \<Rightarrow> bytes option"

fun live_step :: "(bytes \<Rightarrow> bytes) \<Rightarrow> live_op \<Rightarrow> live_index \<Rightarrow> live_index" where
  "live_step decode (Upsert p c) l = upsert_file p c l"
| "live_step decode (Bulk p c) l = upsert_file_with_trigrams p (bulk_trigrams c) l"
| "live_step decode (Delete p) l = delete_file p l"
| "live_step decode (From_disk p d) l = update_from_disk decode d p l"

fun content_step :: "(bytes \<Rightarrow> bytes) \<Rightarrow> live_op \<Rightarrow> contents \<Rightarrow> contents" where
  "content_step decode (Upsert p c) m = m(p \<mapsto> c)"
| "content_step decode (Bulk p c) m = m(p \<mapsto> c)"
| "content_step decode (Delete p) m = m(p := None)"
| "content_step decode (From_disk p d) m =
     m(p := (case d of Some x \<Rightarrow> if is_binary (decode x) then None else Some (decode x) | None \<Rightarrow> None))"

definition view_covers :: "(trigram \<Rightarrow> trigram_masks option) \<Rightarrow> bytes \<Rightarrow> bool" where
  "view_covers v c \<longleftrightarrow>
     (\<forall>t k. hm_get (extract_merged_masks c) t = Some k \<longrightarrow>
        (\<exists>k'. v t = Some k' \<and> (\<forall>b. check_next_byte k b \<longrightarrow> check_next_byte k' b)))"

definition tracks :: "contents \<Rightarrow> live_index \<Rightarrow> contents \<Rightarrow> bool" where
  "tracks base l content \<longleftrightarrow> live_ok l \<and>
     (\<forall>p. case live_view l p of
        Some v \<Rightarrow> (\<exists>c. content p = Some c \<and> view_covers v c)
      | None \<Rightarrow> content p = (if p \<in> set (deleted_paths l) then None else base p))"

lemma tracksD:
  assumes "tracks base l content"
  shows "live_ok l"
    and "live_view l p = Some v \<Longrightarrow> \<exists>c. content p = Some c \<and> view_covers v c"
    and "live_view l p = None \<Longrightarrow> content p = (if p \<in> set (deleted_paths l) then None else base p)"
proof -
  from assms show "live_ok l" by (simp add: tracks_def)
  from assms have c: "case live_view l p of Some v \<Rightarrow> \<exists>c. content p = Some c \<and> view_covers v c
      | None \<Rightarrow> content p = (if p \<in> set (deleted_paths l) then None else base p)"
    unfolding tracks_def by blast
  from c show "\<exists>c. content p = Some c \<and> view_covers v c" if "live_view l p = Some v" unfolding that option.case .
  from c show "content p = (if p \<in> set (deleted_paths l) then None else base p)" if "live_view l p = None" unfolding that option.case .
qed

lemma view_covers_masks: "view_covers (hm_get (extract_merged_masks c)) c"
  by (simp add: view_covers_def)

lemma no_filter_passes: "check_next_byte no_filter b"
proof (rule check_next_byteI)
  have "next_mask no_filter = - 1" by (simp add: no_filter_def)
  then show "bit (next_mask no_filter) (next_index b)"
    unfolding \<open>next_mask no_filter = _\<close> bit_minus_1_iff using next_bit_index [of b] by (simp add: next_index_def)
qed

lemma bulk_trigrams_keys: "hm_get (extract_merged_masks c) t \<noteq> None \<Longrightarrow> t \<in> set (bulk_trigrams c)"
  unfolding merged_parts extract_keys bulk_trigrams_def Let_def set_append extract_trigrams_set
  by (cases "map lower_byte c = c") (simp_all add: extract_trigrams_set)

lemma bulk_covers: "view_covers (\<lambda>t. if t \<in> set (bulk_trigrams c) then Some no_filter else None) c"
  using bulk_trigrams_keys [of c] by (auto simp: view_covers_def no_filter_passes)

lemma tracks_upd:
  assumes tr: "tracks base l content" and ok: "live_ok l'" and lv: "live_view l' = (live_view l)(p := v)"
    and del: "\<And>q. q \<noteq> p \<Longrightarrow> q \<in> set (deleted_paths l') \<longleftrightarrow> q \<in> set (deleted_paths l)"
    and p: "case v of Some v \<Rightarrow> (\<exists>c. d = Some c \<and> view_covers v c) | None \<Rightarrow> d = None \<and> p \<in> set (deleted_paths l')"
  shows "tracks base l' (content(p := d))"
  unfolding tracks_def
proof (intro conjI allI)
  fix q show "case live_view l' q of Some v \<Rightarrow> (\<exists>c. (content(p := d)) q = Some c \<and> view_covers v c)
      | None \<Rightarrow> (content(p := d)) q = (if q \<in> set (deleted_paths l') then None else base q)"
  proof (cases "q = p")
    case True
    with p show ?thesis by (simp add: lv split: option.splits)
  next
    case False
    then show ?thesis
    proof (cases "live_view l q")
      case None
      with False del [OF False] tracksD(3) [OF tr None] show ?thesis by (simp add: lv)
    next
      case (Some v)
      with False tracksD(2) [OF tr Some] show ?thesis by (simp add: lv)
    qed
  qed
qed (rule ok)

lemma step_tracks:
  assumes tr: "tracks base l content" and n: "unat (next_id l) < 2 ^ 31"
  shows "tracks base (live_step decode a l) (content_step decode a content) \<and>
    unat (next_id (live_step decode a l)) \<le> unat (next_id l) + 1"
proof -
  have ok: "live_ok l" by (rule tracksD(1) [OF tr])
  have up: "tracks base (upsert_file p c l) (content(p \<mapsto> c)) \<and> unat (next_id (upsert_file p c l)) \<le> unat (next_id l) + 1" for p c
  proof -
    note r = commit_upsert_refines [OF ok n hm_ok_masks, of p c, folded upsert_file_def]
    show ?thesis
      by (intro conjI, rule tracks_upd [OF tr, where v = "Some (hm_get (extract_merged_masks c))"])
        (use r next_id_word [OF n] view_covers_masks in \<open>auto\<close>)
  qed
  have del: "tracks base (delete_file p l) (content(p := None)) \<and> unat (next_id (delete_file p l)) \<le> unat (next_id l) + 1" for p
  proof -
    note r = delete_file_refines [OF ok, of p]
    show ?thesis by (intro conjI, rule tracks_upd [OF tr, where v = None]) (use r in auto)
  qed
  show ?thesis
  proof (cases a)
    case (Bulk p c)
    note r = upsert_with_trigrams_refines [OF ok n, of p "bulk_trigrams c"]
    have "tracks base (upsert_file_with_trigrams p (bulk_trigrams c) l) (content(p \<mapsto> c))"
      by (rule tracks_upd [OF tr, where v = "Some (\<lambda>t. if t \<in> set (bulk_trigrams c) then Some no_filter else None)"])
        (use r bulk_covers in auto)
    with Bulk r next_id_word [OF n] show ?thesis by simp
  next
    case (From_disk p d)
    with up del show ?thesis by (auto simp: update_from_disk_def Let_def split: option.split)
  qed (use up del in simp_all)
qed

lemma run_tracks:
  assumes "tracks base l content" "unat (next_id l) + length ops \<le> 2 ^ 31"
  shows "tracks base (fold (live_step decode) ops l) (fold (content_step decode) ops content)"
  using assms
proof (induction ops arbitrary: l content)
  case (Cons a ops)
  have "unat (next_id l) < 2 ^ 31" using Cons.prems(2) by simp
  note s = step_tracks [OF Cons.prems(1) this, of decode a]
  show ?case unfolding fold.simps comp_apply by (rule Cons.IH) (use s Cons.prems(2) in simp_all)
qed simp

subsection \<open>Readers of contents\<close>

text \<open>A reader whose files are those of \<open>base\<close>, each with postings made from its content.\<close>

definition reader_holds :: "index_reader \<Rightarrow> contents \<Rightarrow> bool" where
  "reader_holds r base \<longleftrightarrow>
     distinct (r_paths r) \<and> length (r_paths r) \<le> 2 ^ 31 \<and> dom base = set (r_paths r) \<and>
     (\<forall>t. distinct (map file_id (lookup_trigram_with_masks r t))) \<and>
     (\<forall>i < length (r_paths r). \<forall>c. base (r_paths r ! i) = Some c \<longrightarrow> indexes (lookup_trigram_with_masks r) (of_nat i) c)"

lemma small_not_overlay: "unat i < 2 ^ 31 \<Longrightarrow> \<not> is_overlay_id i"
proof -
  assume "unat i < 2 ^ 31"
  then have "i < 2 ^ 31" by (simp add: word_less_nat_alt)
  then have n: "\<not> bit i 31" by (metis bit_take_bit_iff less_mask_eq linorder_not_less order_refl take_bit_eq_mask)
  have "overlay_bit = push_bit 31 1" by (simp add: overlay_bit_def)
  then have "bit overlay_bit k \<longleftrightarrow> k = 31" for k unfolding \<open>overlay_bit = _\<close> by (auto simp: bit_simps simp del: push_bit_of_1)
  then have "i AND overlay_bit = 0" using n by (intro bit_word_eqI) (auto simp: bit_simps)
  then show ?thesis by (simp add: is_overlay_id_def)
qed

lemma live_entry:
  assumes "i \<in> set (live_lookup l t)"
  shows "\<lparr>file_id = i, p_loc = loc_mask (get_masks l t i), p_next = next_mask (get_masks l t i)\<rparr> \<in> set (live_lookup_with_masks l t)"
proof (cases "hm_get (inverted l) t")
  case (Some s)
  with assms have "i \<in> set s" by (simp add: live_lookup_def)
  with Some show ?thesis by (simp add: live_lookup_with_masks_def Let_def get_masks_def)
qed (use assms in \<open>simp add: live_lookup_def\<close>)

lemma live_entry_ids: "map file_id (live_lookup_with_masks l t) = live_lookup l t"
  by (simp add: live_lookup_with_masks_def live_lookup_def Let_def comp_def split: option.split)

lemma live_lookup_distinct: "live_ok l \<Longrightarrow> distinct (live_lookup l t)"
  using live_okD(5) [of l t] by (cases "hm_get (inverted l) t") (simp_all add: live_lookup_def)

lemma active_small:
  assumes "length (r_paths (h_reader h)) \<le> 2 ^ 31" "reader_entry_active h i"
  shows "\<not> is_overlay_id i"
  by (rule small_not_overlay) (use assms in \<open>auto simp: reader_entry_active_def reader_file_path_def split: option.splits if_splits\<close>)

lemma hybrid_lookup_distinct:
  assumes ok: "live_ok (h_live h)" and r: "reader_holds (h_reader h) base"
  shows "distinct (map file_id (hybrid_lookup_with_masks h t))"
proof -
  have len: "length (r_paths (h_reader h)) \<le> 2 ^ 31" using r by (simp add: reader_holds_def)
  have "is_overlay_id i" if "i \<in> set (live_lookup (h_live h) t)" for i
    using live_okD(6) [OF ok that] live_okD(9) [OF ok] by blast
  then have "\<not> reader_entry_active h i" if "i \<in> set (live_lookup (h_live h) t)" for i
    using active_small [OF len] that by blast
  moreover have "map file_id (hybrid_lookup_with_masks h t) =
      filter (reader_entry_active h) (map file_id (lookup_trigram_with_masks (h_reader h) t)) @ live_lookup (h_live h) t"
    by (simp add: hybrid_lookup_with_masks_def live_entry_ids filter_map comp_def)
  moreover have "distinct (map file_id (lookup_trigram_with_masks (h_reader h) t))" using r by (simp add: reader_holds_def)
  ultimately show ?thesis using live_lookup_distinct [OF ok, of t] by auto
qed

lemma live_id_listed: "hm_get (live_paths l) i = Some p \<Longrightarrow> i \<in> set (live_file_ids l)"
  by (force simp: live_file_ids_def dest: map_of_SomeD)

text \<open>The id under which the hybrid index knows a path, and its postings.\<close>

lemma overlay_indexes:
  assumes ok: "live_ok (h_live h)" and p: "hm_get (path_to_id (h_live h)) p = Some i"
    and v: "view_covers v c" "live_view (h_live h) p = Some v"
  shows "indexes (hybrid_lookup_with_masks h) i c"
  unfolding indexes_def
proof (intro allI impI)
  fix t k assume "hm_get (extract_merged_masks c) t = Some k"
  then obtain k' where k': "v t = Some k'" "\<forall>b. check_next_byte k b \<longrightarrow> check_next_byte k' b"
    using v(1) unfolding view_covers_def by blast
  have "v t = (if i \<in> set (live_lookup (h_live h) t) then Some (get_masks (h_live h) t i) else None)"
    using v(2) p by (auto simp: live_view_def)
  with k'(1) have i: "i \<in> set (live_lookup (h_live h) t)" "get_masks (h_live h) t i = k'" by (simp_all split: if_splits)
  let ?e = "\<lparr>file_id = i, p_loc = loc_mask k', p_next = next_mask k'\<rparr>"
  have "?e \<in> set (hybrid_lookup_with_masks h t)"
    using live_entry [OF i(1)] i(2) by (simp add: hybrid_lookup_with_masks_def)
  with k'(2) show "\<exists>e \<in> set (hybrid_lookup_with_masks h t). file_id e = i \<and>
      (\<forall>b. check_next_byte k b \<longrightarrow> p_next e AND next_bit b \<noteq> 0)"
    by (intro bexI [of _ ?e]) (simp_all add: check_next_byte_def)
qed

lemma reader_indexes:
  assumes "indexes (lookup_trigram_with_masks (h_reader h)) i c" "reader_entry_active h i"
  shows "indexes (hybrid_lookup_with_masks h) i c"
  using assms unfolding indexes_def hybrid_lookup_with_masks_def by fastforce

definition hybrid_id :: "hybrid_index \<Rightarrow> bytes \<Rightarrow> file_id \<Rightarrow> bool" where
  "hybrid_id h p i \<longleftrightarrow> resolve_path h i = Some p \<and> i \<in> set (hybrid_file_ids h)"

lemma current_file_indexed:
  assumes tr: "tracks base (h_live h) content" and r: "reader_holds (h_reader h) base" and c: "content p = Some c"
  shows "\<exists>i. hybrid_id h p i \<and> indexes (hybrid_lookup_with_masks h) i c"
proof -
  have ok: "live_ok (h_live h)" by (rule tracksD(1) [OF tr])
  show ?thesis
  proof (cases "live_view (h_live h) p")
    case (Some v)
    with tracksD(2) [OF tr Some] c have v: "view_covers v c" by simp
    obtain i where i: "hm_get (path_to_id (h_live h)) p = Some i" using Some by (auto simp: live_view_def)
    then have lp: "hm_get (live_paths (h_live h)) i = Some p" using live_okD(8) [OF ok] by simp
    then have "hybrid_id h p i"
      using live_okD(9) [OF ok lp] live_id_listed [OF lp]
      by (simp add: hybrid_id_def resolve_path_def live_file_path_def hybrid_file_ids_def)
    with overlay_indexes [OF ok i v Some] show ?thesis by blast
  next
    case None
    with tracksD(3) [OF tr None] c have b: "p \<notin> set (deleted_paths (h_live h))" "base p = Some c" by (simp_all split: if_splits)
    then have "p \<in> set (r_paths (h_reader h))" using r unfolding reader_holds_def by blast
    then obtain n where n: "n < length (r_paths (h_reader h))" "r_paths (h_reader h) ! n = p" by (auto simp: in_set_conv_nth)
    have "length (r_paths (h_reader h)) \<le> 2 ^ 31" using r by (simp add: reader_holds_def)
    with n(1) have small: "n < 2 ^ 31" by linarith
    then have u: "unat (of_nat n :: 32 word) = n" by (intro of_nat_len32) simp
    have act: "reader_entry_active h (of_nat n)"
      using n b(1) None by (simp add: reader_entry_active_def reader_file_path_def u is_deleted_def live_has_path_def live_view_def)
    have "\<not> is_overlay_id (of_nat n)" by (rule small_not_overlay) (use small in \<open>simp add: u\<close>)
    then have "hybrid_id h p (of_nat n)"
      using n act by (auto simp: hybrid_id_def resolve_path_def reader_file_path_def u hybrid_file_ids_def all_file_ids_def)
    moreover have "indexes (lookup_trigram_with_masks (h_reader h)) (of_nat n) c"
      using r n b(2) unfolding reader_holds_def by blast
    ultimately show ?thesis using reader_indexes [OF _ act] by blast
  qed
qed

text \<open>Every id that a query can return stands for a current file.\<close>

lemma listed_is_current:
  assumes tr: "tracks base (h_live h) content" and r: "reader_holds (h_reader h) base"
    and i: "reader_entry_active h i \<or> i \<in> set (live_file_ids (h_live h))"
  shows "\<exists>p c. resolve_path h i = Some p \<and> content p = Some c"
proof -
  have ok: "live_ok (h_live h)" by (rule tracksD(1) [OF tr])
  have len: "length (r_paths (h_reader h)) \<le> 2 ^ 31" using r by (simp add: reader_holds_def)
  from i show ?thesis
  proof
    assume a: "reader_entry_active h i"
    then obtain p where p: "reader_file_path (h_reader h) i = Some p" "p \<notin> set (deleted_paths (h_live h))"
      "hm_get (path_to_id (h_live h)) p = None"
      by (auto simp: reader_entry_active_def is_deleted_def live_has_path_def split: option.splits)
    have "live_view (h_live h) p = None" using p(3) by (simp add: live_view_def)
    then have "content p = base p" using tracksD(3) [OF tr] p(2) by simp
    moreover have "p \<in> set (r_paths (h_reader h))" using p(1) by (auto simp: reader_file_path_def split: if_splits)
    then have "base p \<noteq> None" using r unfolding reader_holds_def by blast
    ultimately show ?thesis using p(1) active_small [OF len a] by (auto simp: resolve_path_def)
  next
    assume "i \<in> set (live_file_ids (h_live h))"
    then obtain p where "(i, p) \<in> set (live_paths (h_live h))" unfolding live_file_ids_def by force
    then have lp: "hm_get (live_paths (h_live h)) i = Some p" using hm_get_in [OF live_okD(3) [OF ok]] by simp
    then have "hm_get (path_to_id (h_live h)) p = Some i" using live_okD(8) [OF ok] by simp
    then obtain v where "live_view (h_live h) p = Some v" by (auto simp: live_view_def)
    then obtain c where "content p = Some c" using tracksD(2) [OF tr] by blast
    with lp live_okD(9) [OF ok lp] show ?thesis by (auto simp: resolve_path_def live_file_path_def)
  qed
qed

lemma query_ids_listed:
  assumes ok: "live_ok (h_live h)" and r: "reader_holds (h_reader h) base" and i: "i \<in> set (execute_query_with_masks h p)"
  shows "reader_entry_active h i \<or> i \<in> set (live_file_ids (h_live h))"
proof (cases "p = MatchAll")
  case True
  with i show ?thesis by (auto simp: execute_query_with_masks_def is_match_all_def hybrid_file_ids_def)
next
  case False
  have files: "masked_files (hybrid_lookup_with_masks h) q \<subseteq> {i. \<exists>t. \<exists>e \<in> set (hybrid_lookup_with_masks h t). file_id e = i}" for q
  proof (induction q)
    case (And qs)
    then show ?case by (cases qs) (auto simp: hit_def)
  qed auto
  have "i \<in> masked_files (hybrid_lookup_with_masks h) p"
    using i False masked_plan_computes [of "hybrid_lookup_with_masks h" p] hybrid_lookup_distinct [OF ok r]
    by (simp add: execute_query_with_masks_def is_match_all_def)
  with files obtain t e where e: "e \<in> set (hybrid_lookup_with_masks h t)" "file_id e = i" by blast
  show ?thesis
  proof (cases "e \<in> set (live_lookup_with_masks (h_live h) t)")
    case True
    then have "i \<in> set (live_lookup (h_live h) t)" using e(2) live_entry_ids [of "h_live h" t] by (metis image_eqI set_map)
    then have "hm_get (live_paths (h_live h)) i \<noteq> None" by (rule live_okD(6) [OF ok])
    then show ?thesis using live_id_listed by blast
  next
    case False
    with e show ?thesis by (auto simp: hybrid_lookup_with_masks_def)
  qed
qed

end
