(* ===== verification/Tgrep_Properties.thy ===== *)
theory Tgrep_Properties
  imports Tgrep_Hybrid_Facts
begin

text \<open>
  The index that the builder writes holds the files it was built from: the batches cover the files in
  order, the postings of a file are those of its trigrams, and the reader of the written index gives them back.
\<close>

subsection \<open>Batches\<close>

text \<open>The batches from one index on, each within the budgets unless it is a single file.\<close>

definition heap_sum :: "batch_charge list \<Rightarrow> nat" where
  "heap_sum cs = sum_list (map c_heap cs)"

definition mapped_sum :: "batch_charge list \<Rightarrow> nat" where
  "mapped_sum cs = sum_list (map c_mapped cs)"

fun tiles :: "nat \<Rightarrow> nat \<Rightarrow> (nat \<times> nat) list \<Rightarrow> bool" where
  "tiles a b [] \<longleftrightarrow> a = b"
| "tiles a b ((s, e) # rs) \<longleftrightarrow> s = a \<and> s < e \<and> tiles e b rs"

lemma batch_loop_tiles:
  "start \<le> i \<Longrightarrow> tiles start (i + length cs) (batch_loop budget i start heap mapped cs)"
proof (induction budget i start heap mapped cs rule: batch_loop.induct)
  case (2 budget i start heap mapped c cs)
  let ?full = "i - start \<ge> index_batch_size \<or> sat_add heap (c_heap c) > budget \<or> sat_add mapped (c_mapped c) > mapped_batch_bytes"
  show ?case
  proof (cases "i > start \<and> ?full")
    case True
    with "2.IH"(1) [OF refl] 2 show ?thesis by (simp add: Let_def)
  next
    case False
    with "2.IH"(2) [OF refl] 2 show ?thesis by (simp add: Let_def)
  qed
qed auto

lemma batch_ranges_tile: "tiles 0 (length charges) (batch_ranges charges budget)"
  using batch_loop_tiles [of 0 0 charges budget 0 0] by (simp add: batch_ranges_def)

definition batch_bounded :: "nat \<Rightarrow> batch_charge list \<Rightarrow> nat \<times> nat \<Rightarrow> bool" where
  "batch_bounded budget charges r \<longleftrightarrow>
     (case r of (s, e) \<Rightarrow> e - s \<le> index_batch_size \<and>
        (e - s = 1 \<or> heap_sum (take (e - s) (drop s charges)) \<le> budget \<and>
           mapped_sum (take (e - s) (drop s charges)) \<le> mapped_batch_bytes))"

text \<open>The files between \<open>start\<close> and \<open>i\<close> are within the bounds, and their charges are the sums so far.\<close>

definition batch_state :: "nat \<Rightarrow> batch_charge list \<Rightarrow> nat \<Rightarrow> nat \<Rightarrow> nat \<Rightarrow> nat \<Rightarrow> bool" where
  "batch_state budget charges i start heap mapped \<longleftrightarrow> start \<le> i \<and> i \<le> length charges \<and>
     (start < i \<longrightarrow> batch_bounded budget charges (start, i)) \<and>
     heap = min (heap_sum (take (i - start) (drop start charges))) (2 ^ 64 - 1) \<and>
     mapped = min (mapped_sum (take (i - start) (drop start charges))) (2 ^ 64 - 1)"

lemma sat_add_min: "sat_add (min a (2 ^ 64 - 1)) b = min (a + b) (2 ^ 64 - 1)"
  by (auto simp: sat_add_def min_def)

lemma take_snoc:
  "start \<le> i \<Longrightarrow> i < length charges \<Longrightarrow>
   take (Suc i - start) (drop start charges) = take (i - start) (drop start charges) @ [charges ! i]"
  by (simp add: Suc_diff_le take_Suc_conv_app_nth)

lemma batch_loop_bounded:
  assumes "batch_state budget charges i start heap mapped" "cs = drop i charges" "budget < 2 ^ 64 - 1"
  shows "\<forall>r \<in> set (batch_loop budget i start heap mapped cs). batch_bounded budget charges r"
  using assms
proof (induction budget i start heap mapped cs rule: batch_loop.induct)
  case (1 budget i start heap mapped)
  then show ?case by (auto simp: batch_state_def)
next
  case (2 budget i start heap mapped c cs)
  have "i < length charges"
  proof (rule ccontr)
    assume "\<not> i < length charges"
    with "2.prems"(2) show False by simp
  qed
  moreover have "start \<le> i" using "2.prems"(1) by (simp add: batch_state_def)
  ultimately have i: "i < length charges" "start \<le> i" .
  have c: "c = charges ! i" "cs = drop (Suc i) charges"
    using "2.prems"(2) [unfolded Cons_nth_drop_Suc [OF i(1), symmetric]] by simp_all
  let ?full = "i - start \<ge> index_batch_size \<or> sat_add heap (c_heap c) > budget \<or> sat_add mapped (c_mapped c) > mapped_batch_bytes"
  have one: "take (Suc i - i) (drop i charges) = [c]" using take_snoc [of i i charges] i c by simp
  show ?case
  proof (cases "i > start \<and> ?full")
    case True
    have zero: "sat_add 0 k = min k (2 ^ 64 - 1)" for k by (simp add: sat_add_def)
    have sums: "heap_sum [c] = c_heap c" "mapped_sum [c] = c_mapped c" by (simp_all add: heap_sum_def mapped_sum_def)
    have "batch_bounded budget charges (i, i + 1)" by (simp add: batch_bounded_def index_batch_size_def)
    then have st: "batch_state budget charges (i + 1) i (sat_add 0 (c_heap c)) (sat_add 0 (c_mapped c))"
      using i(1) one unfolding batch_state_def zero Suc_eq_plus1 [symmetric] by (simp only: sums) (intro conjI impI TrueI refl; simp)
    have "batch_bounded budget charges (start, i)" using "2.prems"(1) True unfolding batch_state_def by blast
    with "2.IH"(1) [OF refl True st c(2) [unfolded Suc_eq_plus1] "2.prems"(3)] show ?thesis
      unfolding batch_loop.simps Let_def if_P [OF True] by simp
  next
    case False
    have h: "heap_sum (take (Suc i - start) (drop start charges)) = heap_sum (take (i - start) (drop start charges)) + c_heap c"
      and m: "mapped_sum (take (Suc i - start) (drop start charges)) = mapped_sum (take (i - start) (drop start charges)) + c_mapped c"
      using take_snoc [OF i(2,1)] c by (simp_all add: heap_sum_def mapped_sum_def)
    have b: "batch_bounded budget charges (start, Suc i)"
    proof (cases "start = i")
      case True
      then show ?thesis by (simp add: batch_bounded_def index_batch_size_def)
    next
      case ne: False
      with False i have nf: "i - start < index_batch_size" "sat_add heap (c_heap c) \<le> budget" "sat_add mapped (c_mapped c) \<le> mapped_batch_bytes"
        by auto
      have "mapped_batch_bytes < 2 ^ 64 - 1" by (simp add: mapped_batch_bytes_def mib_def)
      moreover have "Suc i - start \<le> index_batch_size" using nf(1) i(2) by linarith
      moreover have "sat_add heap (c_heap c) = min (heap_sum (take (Suc i - start) (drop start charges))) (2 ^ 64 - 1)"
        "sat_add mapped (c_mapped c) = min (mapped_sum (take (Suc i - start) (drop start charges))) (2 ^ 64 - 1)"
        using "2.prems"(1) unfolding batch_state_def h m by (simp_all only: sat_add_min)
      ultimately show ?thesis
        using nf(2,3) "2.prems"(3) unfolding batch_bounded_def prod.case by linarith
    qed
    have "batch_state budget charges (i + 1) start (sat_add heap (c_heap c)) (sat_add mapped (c_mapped c))"
      unfolding batch_state_def
    proof (intro conjI)
      show "sat_add heap (c_heap c) = min (heap_sum (take (i + 1 - start) (drop start charges))) (2 ^ 64 - 1)"
        using "2.prems"(1) h unfolding batch_state_def by (simp only: sat_add_min Suc_eq_plus1)
      show "sat_add mapped (c_mapped c) = min (mapped_sum (take (i + 1 - start) (drop start charges))) (2 ^ 64 - 1)"
        using "2.prems"(1) m unfolding batch_state_def by (simp only: sat_add_min Suc_eq_plus1)
    qed (use i b in simp_all)
    from "2.IH"(2) [OF refl False this c(2) [unfolded Suc_eq_plus1] "2.prems"(3)] show ?thesis
      unfolding batch_loop.simps Let_def if_not_P [OF False] .
  qed
qed

theorem batches_cover_and_fit:
  assumes "budget < 2 ^ 64 - 1"
  shows "tiles 0 (length charges) (batch_ranges charges budget) \<and>
    (\<forall>r \<in> set (batch_ranges charges budget). batch_bounded budget charges r)"
proof
  show "tiles 0 (length charges) (batch_ranges charges budget)" by (rule batch_ranges_tile)
  have "batch_state budget charges 0 0 0 0" by (simp add: batch_state_def heap_sum_def mapped_sum_def)
  then show "\<forall>r \<in> set (batch_ranges charges budget). batch_bounded budget charges r"
    unfolding batch_ranges_def by (rule batch_loop_bounded) (use assms in simp_all)
qed

subsection \<open>Postings in memory\<close>

definition indexed_files :: "walked_file list \<Rightarrow> (bytes \<times> mask_map) list" where
  "indexed_files files = List.map_filter extract_file files"

lemma map_filter_append: "List.map_filter f (xs @ ys) = List.map_filter f xs @ List.map_filter f ys"
  by (simp add: List.map_filter_def)

lemma add_batch_append: "add_batch (xs @ ys) s = add_batch ys (add_batch xs s)"
  by (induction xs s rule: add_batch.induct) simp_all

lemma fold_batches:
  "tiles a (length files) rs \<Longrightarrow> a \<le> length files \<Longrightarrow>
   fold (\<lambda>(a, b). add_batch (List.map_filter extract_file (take (b - a) (drop a files)))) rs s =
   add_batch (indexed_files (drop a files)) s"
proof (induction rs arbitrary: a s)
  case Nil
  then show ?case by (simp add: indexed_files_def List.map_filter_def)
next
  case (Cons r rs)
  obtain b where r: "r = (a, b)" "a < b" "tiles b (length files) rs" using Cons.prems(1) by (cases r) auto
  have le: "tiles x n rs \<Longrightarrow> x \<le> n" for x n rs by (induction x n rs rule: tiles.induct) auto
  have b: "b \<le> length files" by (rule le [OF r(3)])
  have "drop a files = take (b - a) (drop a files) @ drop b files"
    using r(2) by (metis append_take_drop_id drop_drop le_add_diff_inverse2 less_imp_le)
  then have "indexed_files (drop a files) = List.map_filter extract_file (take (b - a) (drop a files)) @ indexed_files (drop b files)"
    unfolding indexed_files_def by (metis map_filter_append)
  then show ?case using Cons.IH [OF r(3) b] by (simp add: r(1) add_batch_append)
qed

text \<open>The postings of a list of files whose ids start at \<open>k\<close>.\<close>

fun postings_from :: "nat \<Rightarrow> (bytes \<times> mask_map) list \<Rightarrow> trigram_posting list" where
  "postings_from k [] = []"
| "postings_from k ((p, m) # fs) = file_postings (of_nat k) m @ postings_from (Suc k) fs"

lemma add_batch_result: "add_batch fs (paths, ps) = (paths @ map fst fs, ps @ postings_from (length paths) fs)"
proof (induction fs arbitrary: paths ps)
  case (Cons x fs)
  obtain p m where "x = (p, m)" by (cases x)
  with Cons show ?case by (simp add: push_file_in_memory_def)
qed simp

lemma build_postings_result:
  assumes "length charges = length files"
  shows "build_postings files (batch_ranges charges budget) = (map fst (indexed_files files), postings_from 0 (indexed_files files))"
  using fold_batches [of 0 files "batch_ranges charges budget" "([], [])"] batch_ranges_tile [of charges budget] assms
  by (simp add: build_postings_def add_batch_result)

subsection \<open>Groups of sorted postings\<close>

function runs :: "trigram_posting list \<Rightarrow> group list" where
  "runs [] = []"
| "runs (p # ps) = (fst p, map snd (p # takeWhile (\<lambda>q. fst q = fst p) ps)) # runs (dropWhile (\<lambda>q. fst q = fst p) ps)"
  by pat_completeness auto
termination by (relation "measure length") (auto simp: length_dropWhile_le le_imp_less_Suc)

lemma write_runs_emits: "write_runs ps w = emit (runs ps) w"
  by (induction ps w rule: write_runs.induct) (simp_all add: emit_def)

lemma count_runs_same: "count_runs (Some t) ps = count_runs (Some t) (dropWhile (\<lambda>q. fst q = t) ps)"
  by (induction ps) auto

lemma count_runs_fresh: "ps = [] \<or> prev \<noteq> Some (fst (hd ps)) \<Longrightarrow> count_runs prev ps = length (runs ps)"
proof (induction ps arbitrary: prev rule: runs.induct)
  case (2 p ps)
  let ?d = "dropWhile (\<lambda>q. fst q = fst p) ps"
  have "?d = [] \<or> Some (fst p) \<noteq> Some (fst (hd ?d))" by (metis (mono_tags, lifting) hd_dropWhile option.inject)
  from "2.IH" [OF this] "2.prems" count_runs_same [of "fst p" ps] show ?case by simp
qed simp

lemma sorted_split:
  assumes "sorted (map fst (p # ps))"
  shows "takeWhile (\<lambda>q. fst q = fst p) ps = filter (\<lambda>q. fst q = fst p) ps"
    and "dropWhile (\<lambda>q. fst q = fst p) ps = filter (\<lambda>q. fst p < fst q) ps"
proof -
  have "takeWhile (\<lambda>q. fst q = fst p) ps = filter (\<lambda>q. fst q = fst p) ps \<and> dropWhile (\<lambda>q. fst q = fst p) ps = filter (\<lambda>q. fst p < fst q) ps"
    using assms
  proof (induction ps)
    case (Cons q ps)
    show ?case
    proof (cases "fst q = fst p")
      case True
      with Cons show ?thesis by simp
    next
      case False
      with Cons.prems have "fst p < fst q" "\<forall>x \<in> set ps. fst p < fst x" by fastforce+
      with False show ?thesis by (auto intro!: filter_False [symmetric] filter_True [symmetric])
    qed
  qed simp
  then show "takeWhile (\<lambda>q. fst q = fst p) ps = filter (\<lambda>q. fst q = fst p) ps"
    "dropWhile (\<lambda>q. fst q = fst p) ps = filter (\<lambda>q. fst p < fst q) ps" by simp_all
qed

lemma runs_sorted:
  assumes "sorted (map fst ps)"
  shows "sorted_wrt (<) (map fst (runs ps)) \<and> fst ` set (runs ps) = fst ` set ps \<and>
    (\<forall>t. map_of (runs ps) t = (if t \<in> fst ` set ps then Some (map snd (filter (\<lambda>q. fst q = t) ps)) else None))"
  using assms
proof (induction ps rule: runs.induct)
  case (2 p ps)
  note s = sorted_split [OF "2.prems"]
  let ?d = "filter (\<lambda>q. fst p < fst q) ps"
  have "sorted (map fst ?d)" using "2.prems" by (simp add: sorted_filter)
  then have IH: "sorted_wrt (<) (map fst (runs ?d))" "fst ` set (runs ?d) = fst ` set ?d"
    "\<And>t. map_of (runs ?d) t = (if t \<in> fst ` set ?d then Some (map snd (filter (\<lambda>q. fst q = t) ?d)) else None)"
    using "2.IH" unfolding s(2) by blast+
  have ge: "fst p \<le> fst q" if "q \<in> set ps" for q using "2.prems" that by auto
  have keys: "fst ` set (p # ps) = insert (fst p) (fst ` set ?d)" using ge by (force simp: le_less)
  have r: "runs (p # ps) = (fst p, map snd (p # filter (\<lambda>q. fst q = fst p) ps)) # runs ?d"
    using s by simp
  have "map_of (runs (p # ps)) t = (if t \<in> fst ` set (p # ps) then Some (map snd (filter (\<lambda>q. fst q = t) (p # ps))) else None)" for t
  proof (cases "t = fst p")
    case False
    have "filter (\<lambda>q. fst q = t) (p # ps) = filter (\<lambda>q. fst q = t) ?d" if "t \<in> fst ` set ?d"
      using that False by (auto intro!: filter_cong)
    with False show ?thesis unfolding r keys by (simp add: IH(3))
  qed (simp add: r del: runs.simps)
  moreover have "sorted_wrt (<) (map fst (runs (p # ps)))"
    unfolding r using IH(1,2) by auto
  moreover have "fst ` set (runs (p # ps)) = fst ` set (p # ps)" unfolding r keys using IH(2) by simp
  ultimately show ?case by blast
qed simp

subsection \<open>The built index\<close>

lemma postings_from_mem:
  "(t, e) \<in> set (postings_from k fs) \<longleftrightarrow>
     (\<exists>i p m x. i < length fs \<and> fs ! i = (p, m) \<and> (t, x) \<in> set m \<and>
        e = \<lparr>file_id = of_nat (k + i), p_loc = loc_mask x, p_next = next_mask x\<rparr>)"
proof (induction fs arbitrary: k)
  case (Cons f fs)
  obtain p m where f: "f = (p, m)" by (cases f)
  have ex: "(\<exists>i. i < length (f # fs) \<and> Q i) \<longleftrightarrow> Q 0 \<or> (\<exists>i. i < length fs \<and> Q (Suc i))" for Q
    by (metis Suc_less_eq gr0_conv_Suc length_Cons zero_less_Suc not_gr0)
  have "(t, e) \<in> set (postings_from k (f # fs)) \<longleftrightarrow>
      (\<exists>x. (t, x) \<in> set m \<and> e = \<lparr>file_id = of_nat k, p_loc = loc_mask x, p_next = next_mask x\<rparr>) \<or>
      (t, e) \<in> set (postings_from (Suc k) fs)"
    by (auto simp: f file_postings_def)
  also have "\<dots> \<longleftrightarrow> (\<exists>i. i < length (f # fs) \<and> (\<exists>p m x. (f # fs) ! i = (p, m) \<and> (t, x) \<in> set m \<and>
        e = \<lparr>file_id = of_nat (k + i), p_loc = loc_mask x, p_next = next_mask x\<rparr>))"
    unfolding Cons.IH ex by (simp add: f)
  finally show ?case by blast
qed simp

lemma postings_from_id:
  assumes "(t, e) \<in> set (postings_from k fs)"
  obtains i where "i < length fs" "file_id e = of_nat (k + i)"
proof -
  from postings_from_mem [THEN iffD1, OF assms] obtain i p m x where x: "i < length fs \<and> fs ! i = (p, m) \<and> (t, x) \<in> set m \<and>
      e = \<lparr>file_id = of_nat (k + i), p_loc = loc_mask x, p_next = next_mask x\<rparr>"
    by (elim exE) (rule that)
  from x have a: "i < length fs" by (rule conjunct1)
  from x have b: "e = \<lparr>file_id = of_nat (k + i), p_loc = loc_mask x, p_next = next_mask x\<rparr>" by (elim conjE)
  have "file_id e = of_nat (k + i)" unfolding b by (simp only: posting_entry.simps)
  with a show thesis by (rule that)
qed

lemma of_nat32_inj: "i < 2 ^ 32 \<Longrightarrow> j < 2 ^ 32 \<Longrightarrow> (of_nat i :: 32 word) = of_nat j \<Longrightarrow> i = j"
  by (metis of_nat_len32)

lemma postings_from_distinct:
  assumes "\<forall>(p, m) \<in> set fs. hm_ok m" "k + length fs \<le> 2 ^ 32"
  shows "distinct (map (\<lambda>q. (fst q, file_id (snd q))) (postings_from k fs))"
  using assms
proof (induction fs arbitrary: k)
  case (Cons f fs)
  obtain p m where f: "f = (p, m)" by (cases f)
  have "distinct (map fst m)" using Cons.prems(1) f by (simp add: hm_ok_def)
  then have "distinct (map (\<lambda>q. (fst q, file_id (snd q))) (file_postings (of_nat k) m))"
    by (simp add: file_postings_def comp_def split_def distinct_map inj_on_def)
  moreover have "file_id (snd q) = of_nat k" if "q \<in> set (file_postings (of_nat k) m)" for q
    using that by (auto simp: file_postings_def)
  moreover have "file_id (snd q) \<noteq> of_nat k" if "q \<in> set (postings_from (Suc k) fs)" for q
  proof
    assume e: "file_id (snd q) = of_nat k"
    have "(fst q, snd q) \<in> set (postings_from (Suc k) fs)" using that by simp
    then obtain i where i: "i < length fs" and x: "file_id (snd q) = of_nat (Suc k + i)"
      by (rule postings_from_id)
    from x e have same: "(of_nat (Suc k + i) :: 32 word) = of_nat k" by (simp only:)
    have "Suc k + i = k" by (rule of_nat32_inj [OF _ _ same]) (use i Cons.prems(2) in simp_all)
    then show False by simp
  qed
  moreover have "distinct (map (\<lambda>q. (fst q, file_id (snd q))) (postings_from (Suc k) fs))"
    by (rule Cons.IH) (use Cons.prems in auto)
  ultimately have d: "distinct (map (\<lambda>q. (fst q, file_id (snd q))) (file_postings (of_nat k) m))"
    "distinct (map (\<lambda>q. (fst q, file_id (snd q))) (postings_from (Suc k) fs))"
    "\<forall>x \<in> set (map (\<lambda>q. (fst q, file_id (snd q))) (file_postings (of_nat k) m)). snd x = of_nat k"
    "\<forall>x \<in> set (map (\<lambda>q. (fst q, file_id (snd q))) (postings_from (Suc k) fs)). snd x \<noteq> of_nat k"
    by simp_all
  from d(3,4) have "set (map (\<lambda>q. (fst q, file_id (snd q))) (file_postings (of_nat k) m)) \<inter>
      set (map (\<lambda>q. (fst q, file_id (snd q))) (postings_from (Suc k) fs)) = {}" by blast
  with d(1,2) show ?case unfolding f postings_from.simps map_append distinct_append by blast
qed simp

lemma sorted_by_key:
  assumes "sorted (map posting_key ps)"
  shows "sorted (map fst ps)"
proof -
  have "fst p \<le> fst q" if "posting_key p \<le> posting_key q" for p q :: trigram_posting
  proof (rule ccontr)
    assume "\<not> fst p \<le> fst q"
    then have "unat (fst q) + 1 \<le> unat (fst p)" by (simp add: word_le_nat_alt)
    then have "(unat (fst q) + 1) * 2 ^ 32 \<le> unat (fst p) * 2 ^ 32" by (rule mult_right_mono) simp
    moreover have "unat (file_id (snd q)) < 2 ^ LENGTH(32)" by (rule unsigned_less)
    ultimately show False using that by (simp add: posting_key_def)
  qed
  then show ?thesis using assms by (auto simp: sorted_map elim: sorted_wrt_mono_rel [rotated])
qed

text \<open>The contents that the index is built from: the text files among those that could be read.\<close>

definition text_files :: "walked_file list \<Rightarrow> (bytes \<times> bytes) list" where
  "text_files files = List.map_filter (\<lambda>(p, d). case d of Some c \<Rightarrow> if is_binary c then None else Some (p, c) | None \<Rightarrow> None) files"

lemma indexed_text: "indexed_files files = map (\<lambda>(p, c). (p, extract_merged_masks c)) (text_files files)"
proof (induction files)
  case (Cons f files)
  obtain p d where "f = (p, d)" by (cases f)
  with Cons show ?case
    by (cases d) (simp_all add: indexed_files_def text_files_def List.map_filter_def extract_file_def)
qed (simp add: indexed_files_def text_files_def List.map_filter_def)

text \<open>The posting list of a trigram in the sorted postings.\<close>

abbreviation group_of :: "(trigram \<times> posting_entry) list \<Rightarrow> trigram \<Rightarrow> posting_entry list" where
  "group_of srt t \<equiv> map snd (filter (\<lambda>q. fst q = t) srt)"

lemma group_ids_distinct:
  assumes "distinct (map (\<lambda>q. (fst q, file_id (snd q))) ps)" "mset srt = mset ps"
  shows "distinct (map file_id (group_of srt t))"
proof -
  have "mset (map (\<lambda>q. (fst q, file_id (snd q))) srt) = mset (map (\<lambda>q. (fst q, file_id (snd q))) ps)"
    using assms(2) by simp
  from mset_eq_imp_distinct_iff [OF this] assms(1) have "distinct (map (\<lambda>q. (fst q, file_id (snd q))) srt)" by simp
  then have "distinct (map (\<lambda>q. (fst q, file_id (snd q))) (filter (\<lambda>q. fst q = t) srt))" by (rule distinct_map_filter)
  then show ?thesis by (auto simp: distinct_map inj_on_def)
qed

lemma group_length:
  assumes "set srt = set (postings_from 0 fs)" "distinct (map file_id (group_of srt t))"
  shows "length (group_of srt t) \<le> length fs"
proof -
  have "set (map file_id (group_of srt t)) \<subseteq> of_nat ` {0..<length fs}"
  proof
    fix j assume "j \<in> set (map file_id (group_of srt t))"
    then obtain e where e: "(t, e) \<in> set (postings_from 0 fs)" "j = file_id e" using assms(1) by auto
    from e(1) obtain i where "i < length fs" "file_id e = of_nat (0 + i)" by (rule postings_from_id)
    with e(2) show "j \<in> of_nat ` {0..<length fs}" by simp
  qed
  then have "card (set (map file_id (group_of srt t))) \<le> card ((of_nat :: nat \<Rightarrow> file_id) ` {0..<length fs})"
    by (rule card_mono [rotated]) simp
  also have "\<dots> \<le> length fs" using card_image_le [of "{0..<length fs}" "of_nat :: nat \<Rightarrow> file_id"] by simp
  finally have "card (set (map file_id (group_of srt t))) \<le> length fs" .
  then show ?thesis using distinct_card [OF assms(2)] by simp
qed

lemma runs_total: "length (concat (map snd (runs qs))) = length qs"
proof (induction qs rule: runs.induct)
  case (2 p qs)
  have "length qs = length (takeWhile (\<lambda>q. fst q = fst p) qs) + length (dropWhile (\<lambda>q. fst q = fst p) qs)"
    by (metis length_append takeWhile_dropWhile_id)
  with 2 show ?case by simp
qed simp

lemma run_is_group:
  assumes "sorted (map fst srt)" "g \<in> set (runs srt)"
  shows "snd g = group_of srt (fst g)" "snd g \<noteq> []"
proof -
  note runs = runs_sorted [OF assms(1)]
  have "distinct (map fst (runs srt))" using runs strict_sorted_iff by blast
  then have "map_of (runs srt) (fst g) = Some (snd g)" using assms(2) by simp
  with runs have g: "snd g = group_of srt (fst g)" "fst g \<in> fst ` set srt" by (auto split: if_splits)
  then obtain q where "q \<in> set srt" "fst q = fst g" by force
  then have "snd q \<in> set (group_of srt (fst g))" by simp
  with g show "snd g = group_of srt (fst g)" "snd g \<noteq> []" by (simp, metis list.distinct(1) list.set_cases)
qed

text \<open>The groups hold the masks of every file under its position.\<close>

lemma postings_index:
  assumes "distinct (map fst (text_files files))" "set srt = set (postings_from 0 (indexed_files files))"
    and i: "i < length (text_files files)" and c: "map_of (text_files files) (map fst (text_files files) ! i) = Some c"
  shows "indexes (group_of srt) (of_nat i) c"
  unfolding indexes_def
proof (intro allI impI)
  fix t k assume k: "hm_get (extract_merged_masks c) t = Some k"
  let ?p = "map fst (text_files files) ! i"
  let ?e = "\<lparr>file_id = of_nat i, p_loc = loc_mask k, p_next = next_mask k\<rparr>"
  have "text_files files ! i = (?p, c)"
    using i c assms(1) by (metis length_map map_of_eq_Some_iff nth_map nth_mem option.inject prod.collapse)
  then have "snd (text_files files ! i) = c" by (metis snd_conv)
  then have fi: "indexed_files files ! i = (?p, extract_merged_masks c)"
    using i unfolding indexed_text by (simp only: length_map nth_map split_def)
  have "(t, ?e) \<in> set (postings_from 0 (indexed_files files))"
    unfolding postings_from_mem
  proof (rule exI [of _ i], rule exI [of _ ?p], rule exI [of _ "extract_merged_masks c"], rule exI [of _ k], intro conjI)
    show "i < length (indexed_files files)" using i by (simp add: indexed_text)
    show "indexed_files files ! i = (?p, extract_merged_masks c)" by (rule fi)
    show "(t, k) \<in> set (extract_merged_masks c)" using k by (rule map_of_SomeD)
    show "?e = \<lparr>file_id = of_nat (0 + i), p_loc = loc_mask k, p_next = next_mask k\<rparr>" by (simp only: add_0)
  qed
  then have "?e \<in> set (group_of srt t)" using assms(2) by force
  then show "\<exists>e \<in> set (group_of srt t). file_id e = of_nat i \<and> (\<forall>b. check_next_byte k b \<longrightarrow> p_next e AND next_bit b \<noteq> 0)"
    by (intro bexI [of _ ?e]) (simp_all add: check_next_byte_def)
qed

theorem built_index_holds:
  assumes w: "build_index_in_memory files charges = Inr w" and len: "length charges = length files"
    and paths: "distinct (map fst (text_files files))" "\<forall>(p, c) \<in> set (text_files files). utf8_valid p"
    and bound: "length (text_files files) \<le> 2 ^ 31"
      "6 * length (postings_from 0 (indexed_files files)) < 2 ^ 64"
  shows "\<exists>r. open_reader (w_files w) = Inr r \<and> validate_lookup r = None \<and> \<not> is_degenerate r \<and>
    reader_holds r (map_of (text_files files))"
proof -
  define fs where "fs = indexed_files files"
  define ps where "ps = postings_from 0 fs"
  define srt where "srt = sort_key posting_key ps"
  have fst_fs: "map fst fs = map fst (text_files files)" and lfs: "length fs = length (text_files files)"
    by (simp_all add: fs_def indexed_text comp_def split_def)
  have sorted: "sorted (map fst srt)" by (rule sorted_by_key) (simp add: srt_def)
  note runs = runs_sorted [OF sorted]
  have keyset: "set srt = set (postings_from 0 fs)" by (simp add: srt_def ps_def)
  have "distinct (map (\<lambda>q. (fst q, file_id (snd q))) ps)"
    unfolding ps_def by (rule postings_from_distinct) (use bound(1) lfs in \<open>auto simp: fs_def indexed_text\<close>)
  then have grp_ids: "distinct (map file_id (group_of srt t))" for t by (rule group_ids_distinct) (simp add: srt_def)
  have grp_len: "length (group_of srt t) < 2 ^ 32" for t
    using group_length [OF keyset grp_ids [of t]] bound(1) lfs by simp
  have fits: "fits (runs srt)"
    unfolding fits_def runs_total
    using run_is_group(1) [OF sorted] grp_len bound(2) by (auto simp: srt_def ps_def fs_def split_def)
  have ne: "\<forall>(t, ps) \<in> set (runs srt). ps \<noteq> []" using run_is_group(2) [OF sorted] by (simp add: split_def)
  have build: "build_index_in_memory files charges =
      write_files_and_meta (length fs) (map fst fs) (count_sorted_trigrams srt) None (flush_lookup_entries (emit (runs srt) new_out))"
    by (simp add: build_index_in_memory_def build_postings_result [OF len] write_index_v2_from_postings_def
        write_index_files_from_postings_def write_runs_emits Let_def fs_def ps_def srt_def)
  have valid: "\<forall>p \<in> set (map fst fs). utf8_valid p" unfolding fst_fs using paths(2) by auto
  obtain r where r: "open_reader (w_files w) = Inr r" "represents r (runs srt)" "r_paths r = map fst fs"
    using open_emitted [OF _ conjunct1 [OF runs] fits ne valid] w [unfolded build] bound(1) lfs by force
  have look: "lookup_trigram_with_masks r = group_of srt"
  proof
    fix t
    have "t \<notin> fst ` set srt \<Longrightarrow> filter (\<lambda>q. fst q = t) srt = []" by (auto simp: filter_empty_conv)
    with represents_lookup [OF r(2), of t] runs show "lookup_trigram_with_masks r t = group_of srt t" by simp
  qed
  have "reader_holds r (map_of (text_files files))"
    unfolding reader_holds_def r(3) fst_fs look
    using paths(1) bound(1) grp_ids postings_index [OF paths(1) keyset [unfolded fs_def]] by (simp add: dom_map_of_conv_image_fst)
  with r(1) represents_valid [OF r(2)] represents_not_degenerate [OF r(2)] show ?thesis by blast
qed

section \<open>The whole index\<close>

unbundle bit_operations_syntax

text \<open>
  What the parts of the index give together: a search of the hybrid index returns every current file in which
  the pattern matches and no file that is not current, from the index that the builder wrote on; pruning after
  a flush keeps that; and the two places where the code loses it.
\<close>

subsection \<open>Searches\<close>

lemma search_finds:
  assumes tr: "tracks base (h_live h) content" and r: "reader_holds (h_reader h) base"
    and laws: "regex_laws lit_eq lang" and tx: "plan_text_is lc ci f good"
    and hir: "parse pat = Inr hir" "list_all (literal_ok f good lang) (literals hir)"
    and plan: "build_multi_pattern_plan parse lc enc pats False ci = Inr plan" "pat \<in> set pats"
    and match: "content path = Some c" "lang hir w" "map f c = u @ map f w @ v"
  shows "\<exists>i \<in> set (execute_query_with_masks h plan). resolve_path h i = Some path"
proof -
  obtain i where i: "hybrid_id h path i" "indexes (hybrid_lookup_with_masks h) i c"
    using current_file_indexed [OF tr r match(1)] by blast
  have "plan = MatchAll \<or> plan_admitted (extract_merged_masks c) plan \<and> proper plan"
  proof (rule multi_pattern_finds [OF plan])
    show "plan_admitted (extract_merged_masks c) q" if "pattern_plan parse lc enc False ci pat = Inr q" for q
      using laws tx hir match(2,3) that by (rule pattern_admitted)
  qed
  then have "i \<in> set (execute_query_with_masks h plan)"
  proof
    assume "plan = MatchAll"
    with i(1) show ?thesis by (simp add: execute_query_with_masks_def is_match_all_def hybrid_id_def)
  next
    assume p: "plan_admitted (extract_merged_masks c) plan \<and> proper plan"
    then have "plan \<noteq> MatchAll" by auto
    moreover have "i \<in> set (execute_plan_with_masks (hybrid_lookup_with_masks h) plan)"
      using found_by_plan [OF hybrid_lookup_distinct [OF tracksD(1) [OF tr] r] i(2)] p by blast
    ultimately show ?thesis by (simp add: execute_query_with_masks_def is_match_all_def)
  qed
  with i(1) show ?thesis by (auto simp: hybrid_id_def)
qed

lemma new_live_tracks: "tracks base new_live base"
proof -
  have "deleted_paths new_live = []" by (simp add: new_live_def)
  then show ?thesis by (simp add: tracks_def)
qed

lemma ops_track:
  assumes "length ops \<le> 2 ^ 31"
  shows "tracks base (fold (live_step decode) ops new_live) (fold (content_step decode) ops base)"
  by (rule run_tracks [OF new_live_tracks]) (use assms in \<open>simp add: new_live_def\<close>)

lemma sensitive_literals:
  "list_all utf8_valid bss \<Longrightarrow> regex_laws (=) lang \<Longrightarrow> list_all (literal_ok id (\<lambda>_. True) lang) bss"
proof -
  assume utf8: "list_all utf8_valid bss" and laws: "regex_laws (=) lang"
  have eq: "bs = w" if "lang (HLiteral bs) w" for bs w using laws that unfolding regex_laws_def by blast
  then have "literal_ok id (\<lambda>_. True) lang bs" if "utf8_valid bs" for bs
    using that unfolding literal_ok_def by (auto simp: list_all_iff)
  with utf8 show ?thesis by (simp only: list_all_iff) blast
qed

lemma built_index_open:
  assumes "build_index_in_memory files charges = Inr w" "length charges = length files"
    and "distinct (map fst (text_files files))" "\<forall>(p, c) \<in> set (text_files files). utf8_valid p"
    and "length (text_files files) \<le> 2 ^ 31" "6 * length (postings_from 0 (indexed_files files)) < 2 ^ 64"
  obtains r where "open_hybrid (w_files w) = Inr \<lparr>h_reader = r, h_live = new_live\<rparr>" "reader_holds r (map_of (text_files files))"
proof -
  obtain r where r: "open_reader (w_files w) = Inr r" "validate_lookup r = None" "\<not> is_degenerate r"
    "reader_holds r (map_of (text_files files))"
    using built_index_holds [OF assms] by blast
  then have "open_hybrid (w_files w) = Inr \<lparr>h_reader = r, h_live = new_live\<rparr>" by (simp add: open_hybrid_def)
  from that [OF this r(4)] show thesis .
qed

lemma built_index_opens:
  assumes "build_index_in_memory files charges = Inr w" "length charges = length files"
    and "distinct (map fst (text_files files))" "\<forall>(p, c) \<in> set (text_files files). utf8_valid p"
    and "length (text_files files) \<le> 2 ^ 31" "6 * length (postings_from 0 (indexed_files files)) < 2 ^ 64"
    and "open_hybrid (w_files w) = Inr h"
  shows "h_live h = new_live" "reader_holds (h_reader h) (map_of (text_files files))"
proof -
  obtain r where r: "open_hybrid (w_files w) = Inr \<lparr>h_reader = r, h_live = new_live\<rparr>" "reader_holds r (map_of (text_files files))"
    using built_index_open [OF assms(1-6)] .
  then have "h = \<lparr>h_reader = r, h_live = new_live\<rparr>" using assms(7) by simp
  with r(2) show "h_live h = new_live" "reader_holds (h_reader h) (map_of (text_files files))" by simp_all
qed

text \<open>
  C18. An index that is built from a list of walked files, opened and then updated by any sequence of
  upserts, bulk upserts, deletions and re-reads of files answers a case-sensitive search completely: if one of
  the patterns matches somewhere in the current content of a path, one of the ids that the masked
  execution of the patterns' plan returns resolves to that path.
\<close>

theorem built_index_search_complete:
  assumes "build_index_in_memory files charges = Inr w" "length charges = length files"
    and "distinct (map fst (text_files files))" "\<forall>(p, c) \<in> set (text_files files). utf8_valid p"
    and "length (text_files files) \<le> 2 ^ 31" "6 * length (postings_from 0 (indexed_files files)) < 2 ^ 64"
    and "open_hybrid (w_files w) = Inr h" "length ops \<le> 2 ^ 31"
    and "regex_laws (=) lang" "parse pat = Inr hir" "list_all utf8_valid (literals hir)"
    and "build_multi_pattern_plan parse lc enc pats False False = Inr plan" "pat \<in> set pats"
    and "fold (content_step decode) ops (map_of (text_files files)) path = Some (u @ s @ v)" "lang hir s"
    and "h' = h\<lparr>h_live := fold (live_step decode) ops (h_live h)\<rparr>"
  shows "\<exists>i \<in> set (execute_query_with_masks h' plan). resolve_path h' i = Some path"
proof -
  note open_facts = built_index_opens [OF assms(1-7)]
  have tr: "tracks (map_of (text_files files)) (h_live h') (fold (content_step decode) ops (map_of (text_files files)))"
    using ops_track [OF assms(8)] open_facts(1) by (simp add: assms(16))
  have r: "reader_holds (h_reader h') (map_of (text_files files))" using open_facts(2) by (simp add: assms(16))
  show ?thesis
    by (rule search_finds [OF tr r assms(9) case_sensitive_text assms(10) sensitive_literals [OF assms(11,9)]
          assms(12,13,14,15)]) simp
qed


text \<open>A language of one literal, and an index of one file with one upserted since.\<close>

definition only_literal :: "bytes \<Rightarrow> hir \<Rightarrow> bytes \<Rightarrow> bool" where
  "only_literal bs h w \<longleftrightarrow> h = HLiteral bs \<and> w = bs"

lemma only_literal_laws: "regex_laws (=) (only_literal bs)"
  by (simp add: regex_laws_def only_literal_def)

text \<open>
  C19. A search returns only current files: every id that the masked execution of any plan returns, over an
  index on disk under an overlay that followed the updates, resolves to a path that the updates left with
  a content.
\<close>

theorem search_returns_current:
  assumes "reader_holds (h_reader h) base" "tracks base (h_live h) content" "i \<in> set (execute_query_with_masks h plan)"
  shows "\<exists>path c. resolve_path h i = Some path \<and> content path = Some c"
  by (rule listed_is_current [OF assms(2,1) query_ids_listed [OF tracksD(1) [OF assms(2)] assms(1,3)]])

text \<open>
  A case-insensitive search is complete for ASCII: where \<^verbatim>\<open>to_lowercase\<close> lowers ASCII text bytewise, the
  literals of the pattern and the text that it matches are ASCII, and a literal matches what equals it up to
  ASCII case, an id of the path is returned.
\<close>

theorem insensitive_search_complete:
  assumes "reader_holds (h_reader h) base" "tracks base (h_live h) content"
    and "\<And>s. list_all ascii s \<Longrightarrow> lc s = map lower_byte s"
    and "regex_laws (\<lambda>bs s. map lower_byte s = map lower_byte bs) lang"
    and "parse pat = Inr hir" "list_all (\<lambda>bs. utf8_valid bs \<and> list_all ascii bs) (literals hir)"
    and "build_multi_pattern_plan parse lc enc pats False True = Inr plan" "pat \<in> set pats"
    and "content path = Some (u @ s @ v)" "lang hir s"
  shows "\<exists>i \<in> set (execute_query_with_masks h plan). resolve_path h i = Some path"
proof -
  have eq: "map lower_byte s = map lower_byte bs" if "lang (HLiteral bs) s" for bs s
    using assms(4) that unfolding regex_laws_def by blast
  then have "literal_ok lower_byte ascii lang bs" if "utf8_valid bs \<and> list_all ascii bs" for bs
    using that unfolding literal_ok_def by blast
  then have lits: "list_all (literal_ok lower_byte ascii lang) (literals hir)"
    using assms(6) by (simp only: list_all_iff) blast
  have tx: "plan_text_is lc True lower_byte ascii" using assms(3) by (rule ascii_text)
  have parts: "map lower_byte (u @ s @ v) = map lower_byte u @ map lower_byte s @ map lower_byte v" by simp
  show ?thesis by (rule search_finds [OF assms(2,1,4) tx assms(5) lits assms(7-10) parts])
qed

subsection \<open>Pruning after a flush\<close>

text \<open>The paths against which a pruning compares: those of the reader, the preserved ones apart.\<close>

abbreviation flushed :: "bytes list \<Rightarrow> index_reader \<Rightarrow> bytes set" where
  "flushed preserved r \<equiv> set (filter (\<lambda>p. p \<notin> set preserved) (r_paths r))"

lemma viewed: "live_view l p = None \<longleftrightarrow> \<not> live_has_path l p"
  by (simp add: live_view_def live_has_path_def)

text \<open>Dropping the whole overlay.\<close>

lemma drop_all_tracks:
  assumes "tracks base l content" "dom base = set (r_paths r)"
    and flushed_current: "\<And>p. live_has_path l p \<Longrightarrow> p \<in> flushed preserved r \<Longrightarrow> content p = base p"
    and "\<forall>p \<in> set preserved. \<not> is_deleted l p"
    and "try_drop_all_persisted (flushed preserved r) l = (l', True)"
  shows "tracks base l' content"
proof -
  let ?rp = "flushed preserved r"
  have all: "list_all (\<lambda>(p, i). p \<in> ?rp) (path_to_id l)" and none: "\<not> list_ex (\<lambda>p. p \<in> ?rp) (deleted_paths l)"
    and l': "l' = l\<lparr>inverted := [], live_masks := [], live_paths := [], path_to_id := [], deleted_paths := []\<rparr>"
    using assms(5) unfolding try_drop_all_persisted_def by (auto split: if_splits)
  have same: "content p = base p" for p
  proof (cases "live_has_path l p")
    case True
    moreover from this all have "p \<in> ?rp" by (auto simp: live_has_path_def list_all_iff dest: map_of_SomeD)
    ultimately show ?thesis by (rule flushed_current)
  next
    case False
    then have c: "content p = (if p \<in> set (deleted_paths l) then None else base p)"
      using tracksD(3) [OF assms(1), of p] viewed by simp
    have "base p = None" if "p \<in> set (deleted_paths l)"
    proof -
      from that none have "p \<notin> ?rp" by (auto simp: list_ex_iff)
      moreover have "p \<notin> set preserved" using assms(4) that by (auto simp: is_deleted_def)
      ultimately have "p \<notin> dom base" using assms(2) by simp
      then show ?thesis by (simp add: domIff)
    qed
    with c show ?thesis by simp
  qed
  have "live_ok l'" "live_view l' = (\<lambda>p. None)" "deleted_paths l' = []"
    by (simp_all add: l' live_ok_def live_view_def fun_eq_iff live_lookup_def)
  then show ?thesis using same by (simp add: tracks_def)
qed

text \<open>Removing paths whose current content the reader has.\<close>

lemma batch_remove_tracks:
  assumes "tracks base l content" and "\<And>p. p \<in> set ps \<Longrightarrow> live_has_path l p \<and> content p = base p"
  shows "tracks base (batch_remove_overlay_entries ps l) content"
proof -
  have ok: "live_ok l" by (rule tracksD(1) [OF assms(1)])
  define l' where "l' = batch_remove_overlay_entries ps l"
  note rm = batch_remove_refines [OF ok, of ps, folded l'_def]
  have "case live_view l' p of Some v \<Rightarrow> \<exists>c. content p = Some c \<and> view_covers v c
      | None \<Rightarrow> content p = (if p \<in> set (deleted_paths l') then None else base p)" for p
  proof -
    have lv: "live_view l' p = (if p \<in> set ps then None else live_view l p)" and dl: "deleted_paths l' = deleted_paths l"
      using rm by simp_all
    show ?thesis
    proof (cases "p \<in> set ps")
      case True
      with assms(2) have has: "live_has_path l p" "content p = base p" by blast+
      then have "p \<notin> set (deleted_paths l)" using live_okD(11) [OF ok, of p] by (auto simp: live_has_path_def)
      with True has(2) show ?thesis by (simp add: lv dl)
    next
      case False
      then show ?thesis using tracksD(2,3) [OF assms(1), of p] by (cases "live_view l p") (simp_all add: lv dl)
    qed
  qed
  moreover have "live_ok l'" using rm by blast
  ultimately have "tracks base l' content" unfolding tracks_def by blast
  then show ?thesis by (simp only: l'_def)
qed

text \<open>
  C22. Pruning the overlay against the reader that a flush has opened loses nothing: if the reader has the
  current content of every overlay path that it lists, the preserved paths apart, and no preserved path is
  tombstoned, then the pruned overlay still stands for the same contents over that reader.
\<close>

theorem prune_keeps_current:
  assumes "tracks base (h_live h) content" "reader_holds (h_reader h) base"
    and "\<And>p. live_has_path (h_live h) p \<Longrightarrow> p \<in> set (r_paths (h_reader h)) \<Longrightarrow> p \<notin> set preserved \<Longrightarrow> content p = base p"
    and "\<forall>p \<in> set preserved. \<not> is_deleted (h_live h) p"
  shows "tracks base (h_live (prune_persisted_entries_except preserved h)) content \<and>
    h_reader (prune_persisted_entries_except preserved h) = h_reader h"
proof -
  let ?l = "h_live h"
  let ?rp = "flushed preserved (h_reader h)"
  have dom: "dom base = set (r_paths (h_reader h))" using assms(2) by (simp add: reader_holds_def)
  have cur: "content p = base p" if "live_has_path ?l p" "p \<in> ?rp" for p
    by (rule assms(3) [OF that(1)]) (use that(2) in auto)
  obtain l' b where d: "try_drop_all_persisted ?rp ?l = (l', b)" by fastforce
  show ?thesis
  proof (cases b)
    case True
    with d have "tracks base l' content" using drop_all_tracks [OF assms(1) dom cur assms(4)] by simp
    with d True show ?thesis by (simp add: prune_persisted_entries_except_def Let_def)
  next
    case False
    define ps where "ps = filter (\<lambda>p. p \<in> ?rp) (overlay_paths ?l)"
    have "live_has_path ?l p \<and> content p = base p" if "p \<in> set ps" for p
    proof
      from that have p: "p \<in> ?rp" "p \<in> fst ` set (path_to_id ?l)" by (auto simp: ps_def overlay_paths_def)
      then show has: "live_has_path ?l p" by (simp add: live_has_path_def map_of_eq_None_iff)
      show "content p = base p" by (rule cur [OF has p(1)])
    qed
    then have "tracks base (batch_remove_overlay_entries ps ?l) content" by (rule batch_remove_tracks [OF assms(1)])
    moreover from d False have "try_drop_all_persisted ?rp ?l = (l', False)" by simp
    ultimately show ?thesis
      unfolding prune_persisted_entries_except_def Let_def ps_def by (simp only: prod.case) simp
  qed
qed

text \<open>
  C39. A tombstone of a preserved path that the reader lists does not survive the fast path: when every
  overlay path is in the reader and not preserved and only preserved paths are tombstoned, pruning drops the
  tombstone, and the deleted file is active again.
\<close>

theorem preserved_tombstone_dropped:
  assumes "p \<in> set preserved" "is_deleted (h_live h) p" "reader_file_path (h_reader h) i = Some p"
    and "list_all (\<lambda>(q, j). q \<in> set (r_paths (h_reader h)) \<and> q \<notin> set preserved) (path_to_id (h_live h))"
    and "set (deleted_paths (h_live h)) \<subseteq> set preserved"
  shows "\<not> reader_entry_active h i \<and> reader_entry_active (prune_persisted_entries_except preserved h) i"
proof -
  let ?l = "h_live h"
  let ?rp = "set (filter (\<lambda>p. p \<notin> set preserved) (r_paths (h_reader h)))"
  have a: "list_all (\<lambda>(q, j). q \<in> ?rp) (path_to_id ?l)"
    using assms(4) by (simp only: list_all_iff set_filter mem_Collect_eq)
  have b: "\<not> list_ex (\<lambda>q. q \<in> ?rp) (deleted_paths ?l)" using assms(5) by (auto simp: list_ex_iff)
  have "try_drop_all_persisted ?rp ?l =
      (?l\<lparr>inverted := [], live_masks := [], live_paths := [], path_to_id := [], deleted_paths := []\<rparr>, True)"
    using a b unfolding try_drop_all_persisted_def by (simp only: simp_thms if_True if_False)
  then show ?thesis
    using assms(2,3) by (simp add: prune_persisted_entries_except_def Let_def reader_entry_active_def is_deleted_def live_has_path_def)
qed

subsection \<open>Text outside ASCII\<close>

definition upper_e_acute :: bytes where
  "upper_e_acute = [0xC3, 0x89, 0x54]"

definition one_file :: "bytes \<Rightarrow> hybrid_index" where
  "one_file content = \<lparr>h_reader = empty_reader, h_live = upsert_file [0x61] content new_live\<rparr>"


end
