(* ===== verification/Tgrep_Examples.thy ===== *)
theory Tgrep_Examples
  imports Tgrep_Properties "HOL-Library.Code_Target_Numeral"
begin

unbundle bit_operations_syntax

text \<open>
  Concrete inputs for the properties of the index: an index built from one text file and one file that could not be read,
  searches for a literal, a flush, and small overlays.
\<close>

definition sample_files :: "walked_file list" where
  "sample_files = [([0x61], Some [0x61, 0x62, 0x63, 0x64]), ([0x62], None)]"

definition sample_charges :: "batch_charge list" where
  "sample_charges = [unknown_size_charge, unknown_size_charge]"

definition bcd :: bytes where
  "bcd = [0x62, 0x63, 0x64]"

lemma sample_text_files: "text_files sample_files = [([0x61], [0x61, 0x62, 0x63, 0x64])]"
  by code_simp

lemma sample_bounds:
  "length sample_charges = length sample_files" "distinct (map fst (text_files sample_files))"
  "\<forall>(p, c) \<in> set (text_files sample_files). utf8_valid p" "length (text_files sample_files) \<le> 2 ^ 31"
  "6 * length (postings_from 0 (indexed_files sample_files)) < 2 ^ 64"
proof -
  show "length sample_charges = length sample_files" by (simp add: sample_charges_def sample_files_def)
  show "distinct (map fst (text_files sample_files))" "length (text_files sample_files) \<le> 2 ^ 31" by (simp_all add: sample_text_files)
  have "utf8_valid [0x61]" by code_simp
  then show "\<forall>(p, c) \<in> set (text_files sample_files). utf8_valid p" by (simp add: sample_text_files)
  have "length (postings_from 0 (indexed_files sample_files)) = 2" by code_simp
  then show "6 * length (postings_from 0 (indexed_files sample_files)) < 2 ^ 64" by simp
qed

lemma sample_built:
  obtains w h where "build_index_in_memory sample_files sample_charges = Inr w" "open_hybrid (w_files w) = Inr h"
proof -
  have "case build_index_in_memory sample_files sample_charges of Inr w \<Rightarrow> True | Inl e \<Rightarrow> False" by code_simp
  then obtain w where w: "build_index_in_memory sample_files sample_charges = Inr w"
    by (cases "build_index_in_memory sample_files sample_charges") (simp_all only: sum.case)
  from built_index_open [OF w sample_bounds] that [OF w] show thesis by blast
qed

theorem built_index_search_complete_witness:
  "\<exists>w h plan. build_index_in_memory sample_files sample_charges = Inr w \<and> open_hybrid (w_files w) = Inr h \<and>
     build_multi_pattern_plan (\<lambda>_. Inr (HLiteral bcd)) id (\<lambda>_. bcd) [[]] False False = Inr plan \<and>
     (\<exists>i \<in> set (execute_query_with_masks (h\<lparr>h_live := fold (live_step id) [Upsert [0x62] [0x78]] (h_live h)\<rparr>) plan).
        resolve_path (h\<lparr>h_live := fold (live_step id) [Upsert [0x62] [0x78]] (h_live h)\<rparr>) i = Some [0x61])"
proof -
  obtain w h where w: "build_index_in_memory sample_files sample_charges = Inr w" and h: "open_hybrid (w_files w) = Inr h"
    by (rule sample_built)
  have "case build_multi_pattern_plan (\<lambda>_. Inr (HLiteral bcd)) id (\<lambda>_. bcd) [[]] False False of Inr p \<Rightarrow> True | Inl e \<Rightarrow> False"
    by code_simp
  then obtain plan where plan: "build_multi_pattern_plan (\<lambda>_. Inr (HLiteral bcd)) id (\<lambda>_. bcd) [[]] False False = Inr plan"
    by (auto split: sum.splits)
  have utf8: "list_all utf8_valid (literals (HLiteral bcd))" by code_simp
  have content: "fold (content_step id) [Upsert [0x62] [0x78]] (map_of (text_files sample_files)) [0x61] = Some ([0x61] @ bcd @ [])"
    by (simp add: sample_text_files bcd_def)
  have ops: "length [Upsert [0x62] [0x78]] \<le> 2 ^ 31" by simp
  have pat: "[] \<in> set [[]]" by simp
  have lang: "only_literal bcd (HLiteral bcd) bcd" by (simp add: only_literal_def)
  from built_index_search_complete [OF w sample_bounds h ops only_literal_laws refl utf8 plan pat content lang refl] w h plan
  show ?thesis by blast
qed

subsection \<open>An overlay over an empty index\<close>

lemma empty_reader_holds: "reader_holds empty_reader Map.empty"
proof -
  have "binary_search empty_reader t = None" for t
    unfolding binary_search_def by (subst bsearch.simps) (simp add: empty_reader_def)
  then have "lookup_trigram_with_masks empty_reader t = []" for t by (simp add: lookup_trigram_with_masks_def)
  then show ?thesis by (simp add: reader_holds_def empty_reader_def [THEN arg_cong, of r_paths] indexes_def)
qed

lemma one_file_tracks:
  "h_reader (one_file c) = empty_reader" "tracks Map.empty (h_live (one_file c)) [[0x61] \<mapsto> c]"
  using ops_track [of "[Upsert [0x61] c]" Map.empty id] by (simp_all add: one_file_def)

theorem search_returns_current_witness:
  "\<exists>path c. resolve_path (one_file upper_e_acute) overlay_bit = Some path \<and> [[0x61] \<mapsto> upper_e_acute] path = Some c"
proof (rule search_returns_current [where base = Map.empty and plan = MatchAll])
  show "reader_holds (h_reader (one_file upper_e_acute)) Map.empty" by (simp add: one_file_tracks empty_reader_holds)
  show "tracks Map.empty (h_live (one_file upper_e_acute)) [[0x61] \<mapsto> upper_e_acute]" by (rule one_file_tracks)
  show "overlay_bit \<in> set (execute_query_with_masks (one_file upper_e_acute) MatchAll)" by code_simp
qed

definition upper_bcd :: bytes where
  "upper_bcd = [0x42, 0x43, 0x44]"

definition folded_literal :: "bytes \<Rightarrow> hir \<Rightarrow> bytes \<Rightarrow> bool" where
  "folded_literal bs h w \<longleftrightarrow> h = HLiteral bs \<and> map lower_byte w = map lower_byte bs"

theorem insensitive_search_complete_witness:
  "\<exists>plan. build_multi_pattern_plan (\<lambda>_. Inr (HLiteral bcd)) (map lower_byte) (\<lambda>_. bcd) [[]] False True = Inr plan \<and>
     (\<exists>i \<in> set (execute_query_with_masks (one_file ([0x78] @ upper_bcd @ [])) plan).
        resolve_path (one_file ([0x78] @ upper_bcd @ [])) i = Some [0x61])"
proof -
  let ?c = "[0x78] @ upper_bcd @ []"
  have "case build_multi_pattern_plan (\<lambda>_. Inr (HLiteral bcd)) (map lower_byte) (\<lambda>_. bcd) [[]] False True of Inr p \<Rightarrow> True | Inl e \<Rightarrow> False"
    by code_simp
  then obtain plan where plan: "build_multi_pattern_plan (\<lambda>_. Inr (HLiteral bcd)) (map lower_byte) (\<lambda>_. bcd) [[]] False True = Inr plan"
    by (auto split: sum.splits)
  have r: "reader_holds (h_reader (one_file ?c)) Map.empty" by (simp add: one_file_tracks empty_reader_holds)
  have laws: "regex_laws (\<lambda>bs s. map lower_byte s = map lower_byte bs) (folded_literal bcd)"
    by (simp add: regex_laws_def folded_literal_def)
  have lits: "list_all (\<lambda>bs. utf8_valid bs \<and> list_all ascii bs) (literals (HLiteral bcd))" by code_simp
  have pat: "[] \<in> set [[]]" by simp
  have lang: "folded_literal bcd (HLiteral bcd) upper_bcd" by code_simp
  from insensitive_search_complete [OF r one_file_tracks(2) refl laws refl lits plan pat _ lang, of "[0x61]" "[0x78]" "[]"] plan
  show ?thesis by auto
qed


subsection \<open>A flush\<close>

theorem prune_keeps_current_witness:
  "\<exists>h. h_live h = upsert_file [0x61] [0x61, 0x62, 0x63, 0x64] new_live \<and> r_paths (h_reader h) = [[0x61]] \<and>
     tracks [[0x61] \<mapsto> [0x61, 0x62, 0x63, 0x64]] (h_live (prune_persisted_entries_except [] h)) [[0x61] \<mapsto> [0x61, 0x62, 0x63, 0x64]]"
proof -
  let ?base = "[[0x61] \<mapsto> [0x61, 0x62, 0x63, 0x64]] :: contents"
  obtain w h where w: "build_index_in_memory sample_files sample_charges = Inr w" and h: "open_hybrid (w_files w) = Inr h"
    by (rule sample_built)
  from built_index_opens(2) [OF w sample_bounds h] have r: "reader_holds (h_reader h) ?base" by (simp add: sample_text_files)
  have "r_paths (h_reader h) = [[0x61]]"
  proof -
    have "set (r_paths (h_reader h)) = {[0x61]}" "distinct (r_paths (h_reader h))" using r by (auto simp: reader_holds_def)
    then show ?thesis by (cases "r_paths (h_reader h)"; cases "tl (r_paths (h_reader h))") auto
  qed
  moreover define h' where "h' = h\<lparr>h_live := upsert_file [0x61] [0x61, 0x62, 0x63, 0x64] new_live\<rparr>"
  moreover have "tracks ?base (h_live h') ?base"
    using ops_track [of "[Upsert [0x61] [0x61, 0x62, 0x63, 0x64]]" ?base id] by (simp add: h'_def)
  then have "tracks ?base (h_live (prune_persisted_entries_except [] h')) ?base"
    using prune_keeps_current [of ?base h' ?base "[]"] r by (simp add: h'_def)
  ultimately show ?thesis by (intro exI [of _ h']) simp
qed

definition deleted_on_disk :: hybrid_index where
  "deleted_on_disk =
     \<lparr>h_reader = empty_reader\<lparr>r_paths := [[0x61]], r_path_order := [0]\<rparr>, h_live = delete_file [0x61] new_live\<rparr>"

theorem preserved_tombstone_dropped_witness:
  "\<not> reader_entry_active deleted_on_disk 0 \<and> reader_entry_active (prune_persisted_entries_except [[0x61]] deleted_on_disk) 0"
proof (rule preserved_tombstone_dropped [of "[0x61]"])
  show "[0x61] \<in> set [[0x61]]" by simp
  show "is_deleted (h_live deleted_on_disk) [0x61]" by code_simp
  show "reader_file_path (h_reader deleted_on_disk) 0 = Some [0x61]" by code_simp
  show "list_all (\<lambda>(q, j). q \<in> set (r_paths (h_reader deleted_on_disk)) \<and> q \<notin> set [[0x61]]) (path_to_id (h_live deleted_on_disk))"
    by code_simp
  show "set (deleted_paths (h_live deleted_on_disk)) \<subseteq> set [[0x61]]" by code_simp
qed

subsection \<open>An upsert and a written index\<close>

theorem commit_upsert_refines_witness:
  "live_ok (commit_upsert [0x61] (extract_merged_masks bcd) new_live) \<and>
   live_view (commit_upsert [0x61] (extract_merged_masks bcd) new_live) = [[0x61] \<mapsto> hm_get (extract_merged_masks bcd)]"
  using commit_upsert_refines [of new_live "extract_merged_masks bcd" "[0x61]"]
  by (simp add: new_live_def [THEN arg_cong, of next_id])

definition sample_inverted :: "(trigram, posting_entry list) hmap" where
  "sample_inverted = [(7, [\<lparr>file_id = 0, p_loc = 1, p_next = 2\<rparr>]), (5, [\<lparr>file_id = 0, p_loc = 3, p_next = 4\<rparr>])]"

theorem written_index_reads_back_witness:
  "\<exists>w r. write_index_from_snapshot [[0x61]] sample_inverted True = Inr w \<and> open_reader (w_files w) = Inr r \<and>
     r_paths r = [[0x61]] \<and> lookup_trigram_with_masks r 5 = [\<lparr>file_id = 0, p_loc = 3, p_next = 4\<rparr>]"
proof -
  have "case write_index_from_snapshot [[0x61]] sample_inverted True of Inr w \<Rightarrow> True | Inl e \<Rightarrow> False" by code_simp
  then obtain w where w: "write_index_from_snapshot [[0x61]] sample_inverted True = Inr w" by (auto split: sum.splits)
  have "hm_ok sample_inverted" "\<forall>(t, ps) \<in> set sample_inverted. ps \<noteq> [] \<and> length ps < 2 ^ 32"
    "6 * length (concat (map snd sample_inverted)) < 2 ^ 64"
    by (simp_all add: hm_ok_def sample_inverted_def)
  moreover have "\<forall>p \<in> set [[0x61]]. utf8_valid p" by code_simp
  moreover have "length [[0x61]] \<le> 2 ^ 32" by simp
  ultimately obtain r where r: "open_reader (w_files w) = Inr r" "r_paths r = [[0x61]]"
    "\<forall>t. lookup_trigram_with_masks r t = (case hm_get sample_inverted t of Some ps \<Rightarrow> ps | None \<Rightarrow> [])"
    using written_index_reads_back [OF _ _ _ _ _ w] by blast
  have "hm_get sample_inverted 5 = Some [\<lparr>file_id = 0, p_loc = 3, p_next = 4\<rparr>]" by (simp add: sample_inverted_def)
  with w r show ?thesis by (intro exI [of _ w] exI [of _ r]) simp
qed

theorem batches_cover_and_fit_witness:
  "tiles 0 (length sample_charges) (batch_ranges sample_charges index_batch_bytes)"
  using batches_cover_and_fit [of index_batch_bytes sample_charges] by (simp add: index_batch_bytes_def mib_def)

end
