(* ===== verification/Spec2Isabelle.thy ===== *)
theory Spec2Isabelle
  imports Goal_Properties Dag_Interleaving Context_Transform Permission Compaction_Properties Agent_Examples
    Extension_Properties Extension_Follow_Ups Skill_Properties Harness_Examples
    Tgrep_Examples
begin

text \<open>
  A verification library for the core of \<^verbatim>\<open>theway\<close>, a coding-agent runtime in Rust. The definitions
  are translations of the functions they name, made from the sources under \<^verbatim>\<open>src/crates/\<close>; the
  theorems hold for every input and, where other code of the embedder is called, for everything that
  code may do.

  \<^bold>\<open>The program.\<close> An agent runs turns: it sends its transcript to a model, executes the tool calls of the
  answer behind permission gates, and goes on until the model stops (\<^verbatim>\<open>theway-core/src/agent/run_loop\<close>,
  \<^verbatim>\<open>agent.rs\<close>, \<^verbatim>\<open>types.rs\<close>). The transcript is stored in a session, an append-only tree of entries with a
  leaf (\<^verbatim>\<open>agent/session\<close>), from which a context is replayed (\<^verbatim>\<open>agent/context\<close>); a long branch is folded into
  a summary (\<^verbatim>\<open>agent/compaction\<close>). Agents are composed by a DAG engine that runs nodes under a concurrency
  limit, retries, cancels, persists and restores them (\<^verbatim>\<open>multiagent/graph\<close>), and by goals, a stop hook that
  keeps an agent working until an evaluator is satisfied and that mirrors itself in an engine run
  (\<^verbatim>\<open>multiagent/goal.rs\<close>). All of them report to an observer (\<^verbatim>\<open>observability.rs\<close>). The tools search
  code through a trigram index, \<^verbatim>\<open>tgrep-core\<close>: files are indexed by the trigrams of their bytes, a pattern is
  compiled to a plan over trigrams, and changed files live in an overlay on the index on disk.

  \<^bold>\<open>Theories.\<close>
  \<^item> \<open>Prelude\<close>: Rust strings as lists of scalar values, association-list maps, the result sum; the
    interface \<open>keyed_store\<close>. \<open>Json\<close>: values of \<^verbatim>\<open>serde_json\<close>. \<open>Messages\<close>: the types of
    \<^verbatim>\<open>theway-llm-provider/src/types.rs\<close> and \<^verbatim>\<open>agent/messages.rs\<close>. \<open>Observability\<close>: operation scopes, their
    log and its contract \<open>obs_wf\<close>.
  \<^item> \<open>Dag_Types\<close>, \<open>Dag_Validate\<close>, \<open>Dag_Model\<close>, \<open>Dag_Persist\<close>: \<^verbatim>\<open>graph/types.rs\<close>, \<^verbatim>\<open>model.rs\<close>, \<^verbatim>\<open>persist.rs\<close>; validation
    against a declarative specification, the downstream closure, round trips of snapshots.
    \<open>Dag_Engine_State\<close>, \<open>Dag_Retention\<close>, \<open>Dag_Scheduler\<close>, \<open>Dag_Engine\<close>: the engine's state and every operation,
    one definition per lock scope. \<open>Dag_Reconcile\<close> and \<open>Dag_Tick\<close>: what a pass readies, and that
    scheduling returns. \<open>Dag_Invariant\<close> states the interface of engine invariants as locales
    (\<open>engine_invariant\<close>, \<open>api_invariant\<close>, \<open>run_invariant\<close>, \<open>run_api_invariant\<close>); \<open>Dag_Safety\<close>, \<open>Dag_Jobs\<close>,
    \<open>Dag_Observations\<close> and \<open>Dag_Liveness\<close> are interpretations of it: concurrency limits, closed runs, live
    tokens, complete observation, progress. \<open>Dag_Interleaving\<close> is the step relation of several threads in
    the scheduler; \<open>Dag_Examples\<close> the concrete runs of the witnesses.
  \<^item> \<open>Session_Types\<close>, \<open>Session_Storage\<close> (the storage interface and the in-memory storage), \<open>Session_Tree\<close> (the
    shape of the entry tree and the locale \<open>session_storage\<close>, interpreted on the in-memory storage),
    \<open>Session\<close> (the facade), \<open>Session_Facts\<close>, \<open>Session_Properties\<close>: readable branches, stable history, forks,
    compaction entries. \<open>Context_Assembly\<close> and \<open>Context_Transform\<close>: replay into a context and the
    virtualization of large tool results.
  \<^item> \<open>Goal\<close>, \<open>Goal_Facts\<close>, \<open>Goal_Properties\<close>: the goal hook over session and engine, its bound and its mirror.
  \<^item> \<open>Compaction_Estimate\<close>, \<open>Compaction_Summary\<close>, \<open>Compaction\<close>: estimates and cut points, the summarizer's
    material and call, the algorithms and triggers. \<open>Compaction_Bounds\<close>, \<open>Compaction_Properties\<close>: budgets,
    what a compaction leaves of session and memory on every outcome.
  \<^item> \<open>Permission\<close>: the policy of \<^verbatim>\<open>agent/permission.rs\<close>, its clause splitter and the rules on \<^verbatim>\<open>rm\<close> with an
    independent specification of what they match.
  \<^item> \<open>Agent_Types\<close> (\<^verbatim>\<open>types.rs\<close>, \<^verbatim>\<open>agent.rs\<close>), \<open>Agent_Request\<close> (\<^verbatim>\<open>llm.rs\<close>, \<^verbatim>\<open>model_request.rs\<close>), \<open>Agent_Tools\<close>
    (\<^verbatim>\<open>tools.rs\<close>, \<open>run_one\<close>), \<open>Agent_Loop\<close> (\<^verbatim>\<open>run_loop/mod.rs\<close>): the agent. \<open>Agent_Loop_Facts\<close> holds the
    relation \<open>grow\<close> that every step respects; \<open>Agent_Properties\<close> the budget, release, observation and
    transcript of a run; \<open>Agent_Tool_Properties\<close> the gates, the pairing of results and the catalog of a
    request; \<open>Agent_Examples\<close> scripted runs.
  \<^item> \<open>Extension_Contract\<close>: lifecycle events, hook classes, actions, the entries extensions store, and the
    check of every answer (\<^verbatim>\<open>theway-contract/src/extension\<close>, \<^verbatim>\<open>agent/runtime_extensions/mod.rs\<close>).
    \<open>Extension_Runtime\<close> (scopes, follow-ups, gates), \<open>Extension_Seams\<close> (one operation per lifecycle seam)
    and \<open>Extension_Requests\<close> (persistent model context, requests, provider hooks):
    \<^verbatim>\<open>agent/assembly/runtime_extensions.rs\<close> with its directory. \<open>Extension_Properties\<close> and
    \<open>Extension_Follow_Ups\<close>: answers within their contract, gates that fail closed, atomic transforms, the
    bounds of the follow-up queue and where they break.
  \<^item> \<open>Skills\<close> and \<open>Skill_Properties\<close>: \<^verbatim>\<open>agent/skills.rs\<close> and \<^verbatim>\<open>agent/system_prompt.rs\<close>, discovery of skills over
    any file system, that it ends and what it loads.
  \<^item> \<open>Harness_Session\<close> (totals and the session listener), \<open>Harness\<close> (the hooks of the agent), \<open>Harness_State\<close>
    (state, catalogs, session operations), \<open>Harness_Run\<close> (the prompt cycle): \<^verbatim>\<open>agent/assembly\<close> and \<^verbatim>\<open>agent/cost.rs\<close>.
    \<open>Agent_Observer\<close> states as the locale \<open>loop_observer\<close> what a listener may rely on; \<open>Harness_Facts\<close> interprets it
    on the harness's own listeners. \<open>Harness_Properties\<close>: the session holds the transcript, the totals are those
    of the transcript; \<open>Harness_Bounds\<close>: prompts end; \<open>Harness_Steps\<close>: any sequence of operations;
    \<open>Harness_Examples\<close>: concrete harnesses.
  \<^item> \<open>Tgrep_Trigram\<close> (\<^verbatim>\<open>trigram.rs\<close>), \<open>Tgrep_Ondisk\<close> (\<^verbatim>\<open>ondisk.rs\<close>, \<^verbatim>\<open>path_index.rs\<close>), \<open>Tgrep_Reader\<close> (\<^verbatim>\<open>reader.rs\<close>),
    \<open>Tgrep_Writer\<close> (\<^verbatim>\<open>builder.rs\<close>), \<open>Tgrep_Query\<close> (\<^verbatim>\<open>query.rs\<close>), \<open>Tgrep_Live\<close> (\<^verbatim>\<open>live.rs\<close>),
    \<open>Tgrep_Hybrid\<close> (\<^verbatim>\<open>hybrid.rs\<close>), all of \<^verbatim>\<open>tgrep-core/src\<close>, bytes and integers at their width: the index. Their
    \<open>_Facts\<close> theories show that encodings read back, that a plan misses no file in which its pattern matches,
    and that the overlay is the map of the changes; \<open>Tgrep_Properties\<close> that the builder's index holds its
    files, that searches of the whole are complete and current, what a flush keeps, and
    where the code loses it; \<open>Tgrep_Examples\<close> concrete indexes.

  \<^bold>\<open>Conventions.\<close> State is a record passed along; an operation that can fail returns a sum or an option;
  a lock scope is one definition, so that interleavings are sequences of them. Code of the embedder
  (providers, tools, hooks, listeners, clocks, UUIDs, other threads) is an argument: a function of a
  state it owns. Tokens, counts and timestamps are unbounded where the code's width cannot be reached,
  and saturate or wrap as written where it can.

  \<^bold>\<open>Recursion and fuel.\<close> The scheduler's mutual recursion runs on \<open>tick_bound\<close>, the number of unstarted
  nodes, and \<open>tick_returns\<close> shows that it is never exhausted; loops over paths and closures have
  termination proofs by measures; the agent's loop is a partial function, defined for every run with a
  budget (\<open>run_ends_in_budget\<close>), and so is the prompt cycle around it (\<open>prompt_ends_in_budget\<close>); a run without
  one may go on for ever, which is the value \<open>None\<close>. The walk over skill directories is a partial function
  as well, defined on trees of bounded depth (\<open>skill_load_ends\<close>).

  \<^bold>\<open>Restrictions of the harness.\<close> An extension reaches the session only through its answers; the embedder's hooks
  and other threads act on the rest of the world, and other threads only while the agent runs; the file
  system does not change while skills are loaded; the record of a round of input is its serialized value.

  \<^bold>\<open>Not modelled.\<close> The host that runs extensions; subagent jobs and the node launcher; SQLite storage; the provider clients and MCP protocol; daemon, transport
  and terminal front ends; the markdown and mermaid renderers; of the search index
  the walking and decoding of files, the external sorter, the merges with a delta and the server. Regular expressions,
  serializers, hashes and streams of third parties are parameters. Parallel tools interleave as whole
  tasks. \<open>serde\<close> encodings are left out except where the code inspects JSON itself.
\<close>

end
